(* ===== verification/Prelude.thy ===== *)
theory Prelude
  imports Main "HOL-Library.Word" "HOL-Library.AList" "HOL-Library.Monad_Syntax"
    "HOL-Library.Char_ord" "HOL-Library.List_Lexorder"
begin

unbundle bit_operations_syntax

text \<open>
  Shared vocabulary of the development: the fixed-width integers of the C++ sources, byte
  buffers with checked access, the big-endian readers and writers every wire format of the
  media server uses, and the unordered maps of the room, routing and transport tables.

  A pointer-and-length pair \<open>(data, len)\<close> of the sources is the list of the \<open>len\<close> bytes; a
  null pointer is the empty list, because every entry point of the sources rejects a null
  pointer together with a too short buffer and in the same way. A read \<open>data[i]\<close> is
  \<open>byte_at data i\<close>, whose value \<open>None\<close> is a read outside the buffer (undefined behaviour in
  C++): the parsers are written in the option monad over such reads, so that their memory
  safety is a theorem. \<open>std::size_t\<close> is \<open>nat\<close>: every size the sources add up is bounded by
  the length of a buffer in memory or by a 16-bit field.

  A \<open>std::unordered_map\<close> is an association list with distinct keys, its iteration order the
  order of the list; \<open>map_of\<close> is \<open>find\<close>, \<open>AList.update\<close> is \<open>m[k] = v\<close>, \<open>AList.delete\<close> is
  \<open>erase\<close>. The order of a C++ hash table is unspecified, so no theorem rests on it.
\<close>

named_theorems wire_simps \<open>reading back what a writer of the wire formats has written\<close>
named_theorems table_simps \<open>lookups in the unordered maps after updates and erasures\<close>

type_synonym u8 = "8 word"
type_synonym u16 = "16 word"
type_synonym u32 = "32 word"
type_synonym u64 = "64 word"
type_synonym bytes = "u8 list"
type_synonym 'a mem = "'a option"

section \<open>Checked byte access\<close>

definition byte_at :: "bytes \<Rightarrow> nat \<Rightarrow> u8 mem" where
  "byte_at d i = (if i < length d then Some (d ! i) else None)"

lemma byte_at_in [simp]: "i < length d \<Longrightarrow> byte_at d i = Some (d ! i)"
  by (simp add: byte_at_def)

lemma byte_at_None [simp]: "byte_at d i = None \<longleftrightarrow> length d \<le> i"
  by (simp add: byte_at_def)

lemma byte_at_Some: "byte_at d i = Some b \<longleftrightarrow> i < length d \<and> b = d ! i"
  by (auto simp: byte_at_def)

definition be16 :: "u8 \<Rightarrow> u8 \<Rightarrow> u16" where
  "be16 b0 b1 = push_bit 8 (ucast b0) OR ucast b1"

definition be24 :: "u8 \<Rightarrow> u8 \<Rightarrow> u8 \<Rightarrow> u32" where
  "be24 b0 b1 b2 = push_bit 16 (ucast b0) OR push_bit 8 (ucast b1) OR ucast b2"

definition be32 :: "u8 \<Rightarrow> u8 \<Rightarrow> u8 \<Rightarrow> u8 \<Rightarrow> u32" where
  "be32 b0 b1 b2 b3 =
     push_bit 24 (ucast b0) OR push_bit 16 (ucast b1) OR push_bit 8 (ucast b2) OR ucast b3"

definition ReadU16 :: "bytes \<Rightarrow> nat \<Rightarrow> u16 mem" where
  "ReadU16 d p = do {
     b0 \<leftarrow> byte_at d p; b1 \<leftarrow> byte_at d (p + 1);
     Some (be16 b0 b1) }"

definition ReadU24 :: "bytes \<Rightarrow> nat \<Rightarrow> u32 mem" where
  "ReadU24 d p = do {
     b0 \<leftarrow> byte_at d p; b1 \<leftarrow> byte_at d (p + 1); b2 \<leftarrow> byte_at d (p + 2);
     Some (be24 b0 b1 b2) }"

definition ReadU32 :: "bytes \<Rightarrow> nat \<Rightarrow> u32 mem" where
  "ReadU32 d p = do {
     b0 \<leftarrow> byte_at d p; b1 \<leftarrow> byte_at d (p + 1); b2 \<leftarrow> byte_at d (p + 2); b3 \<leftarrow> byte_at d (p + 3);
     Some (be32 b0 b1 b2 b3) }"

lemma ReadU16_in [simp]: "p + 1 < length d \<Longrightarrow> ReadU16 d p = Some (be16 (d ! p) (d ! (p + 1)))"
  by (simp add: ReadU16_def)

lemma ReadU24_in [simp]:
  "p + 2 < length d \<Longrightarrow> ReadU24 d p = Some (be24 (d ! p) (d ! (p + 1)) (d ! (p + 2)))"
  by (simp add: ReadU24_def)

lemma ReadU32_in [simp]:
  "p + 3 < length d \<Longrightarrow>
     ReadU32 d p = Some (be32 (d ! p) (d ! (p + 1)) (d ! (p + 2)) (d ! (p + 3)))"
  by (simp add: ReadU32_def)

text \<open>
  A loop that appends to a result vector for each element of a range, in order: it reads
  outside its buffer when one of its iterations does.
\<close>

fun mem_concat :: "('a \<Rightarrow> 'b list mem) \<Rightarrow> 'a list \<Rightarrow> 'b list mem" where
  "mem_concat f [] = Some []"
| "mem_concat f (x # xs) = do { ys \<leftarrow> f x; zs \<leftarrow> mem_concat f xs; Some (ys @ zs) }"

lemma mem_concat_safe:
  "(\<And>x. x \<in> set xs \<Longrightarrow> f x \<noteq> None) \<Longrightarrow> mem_concat f xs \<noteq> None"
  by (induction xs) (auto split: bind_splits)

lemma mem_concat_member:
  "mem_concat f xs = Some ys \<Longrightarrow> y \<in> set ys \<Longrightarrow> \<exists>x \<in> set xs. \<exists>zs. f x = Some zs \<and> y \<in> set zs"
  by (induction xs arbitrary: ys) (auto split: bind_splits)

section \<open>Big-endian writers\<close>

definition AppendU16 :: "u16 \<Rightarrow> bytes" where
  "AppendU16 v = [ucast (drop_bit 8 v AND 0xFF), ucast (v AND 0xFF)]"

definition AppendU32 :: "u32 \<Rightarrow> bytes" where
  "AppendU32 v =
     [ucast (drop_bit 24 v AND 0xFF), ucast (drop_bit 16 v AND 0xFF),
      ucast (drop_bit 8 v AND 0xFF), ucast (v AND 0xFF)]"

lemma length_AppendU16 [simp]: "length (AppendU16 v) = 2"
  by (simp add: AppendU16_def)

lemma length_AppendU32 [simp]: "length (AppendU32 v) = 4"
  by (simp add: AppendU32_def)

lemma mask_0xFF: "(0xFF :: 'a::len word) = mask 8"
  by (simp add: mask_eq_exp_minus_1)

lemma be16_bytes [wire_simps, simp]:
  "be16 (ucast (drop_bit 8 v AND 0xFF)) (ucast (v AND 0xFF)) = v"
  unfolding be16_def mask_0xFF
  by (rule bit_word_eqI) (auto simp: bit_simps)

lemma be32_bytes [wire_simps, simp]:
  "be32 (ucast (drop_bit 24 v AND 0xFF)) (ucast (drop_bit 16 v AND 0xFF))
        (ucast (drop_bit 8 v AND 0xFF)) (ucast (v AND 0xFF)) = v"
proof (rule bit_word_eqI)
  fix n
  assume "n < LENGTH(32)"
  then consider "n < 8" | "8 \<le> n" "n < 16" | "16 \<le> n" "n < 24" | "24 \<le> n" "n < 32"
    by fastforce
  then show "bit (be32 (ucast (drop_bit 24 v AND 0xFF)) (ucast (drop_bit 16 v AND 0xFF))
        (ucast (drop_bit 8 v AND 0xFF)) (ucast (v AND 0xFF))) n = bit v n"
    unfolding be32_def mask_0xFF by cases (auto simp: bit_simps)
qed

lemma AppendU16_be16 [wire_simps]: "AppendU16 (be16 a b) = [a, b]"
proof -
  have "ucast (drop_bit 8 (be16 a b) AND 0xFF) = a"
    unfolding be16_def mask_0xFF by (rule bit_word_eqI) (auto simp: bit_simps dest: bit_imp_le_length)
  moreover have "ucast (be16 a b AND 0xFF) = b"
    unfolding be16_def mask_0xFF by (rule bit_word_eqI) (auto simp: bit_simps dest: bit_imp_le_length)
  ultimately show ?thesis by (simp add: AppendU16_def)
qed

lemma AppendU32_be32 [wire_simps]: "AppendU32 (be32 a b c d) = [a, b, c, d]"
proof -
  note bits = be32_def mask_0xFF
  have "ucast (drop_bit 24 (be32 a b c d) AND 0xFF) = a"
    unfolding bits by (rule bit_word_eqI) (auto simp: bit_simps dest: bit_imp_le_length)
  moreover have "ucast (drop_bit 16 (be32 a b c d) AND 0xFF) = b"
    unfolding bits by (rule bit_word_eqI) (auto simp: bit_simps dest: bit_imp_le_length)
  moreover have "ucast (drop_bit 8 (be32 a b c d) AND 0xFF) = c"
    unfolding bits by (rule bit_word_eqI) (auto simp: bit_simps dest: bit_imp_le_length)
  moreover have "ucast (be32 a b c d AND 0xFF) = d"
    unfolding bits by (rule bit_word_eqI) (auto simp: bit_simps dest: bit_imp_le_length)
  ultimately show ?thesis by (simp add: AppendU32_def)
qed

lemma ReadU16_append [wire_simps]:
  "length xs = p \<Longrightarrow> ReadU16 (xs @ AppendU16 v @ ys) p = Some v"
  by (auto simp: AppendU16_def nth_append)

lemma ReadU32_append [wire_simps]:
  "length xs = p \<Longrightarrow> ReadU32 (xs @ AppendU32 v @ ys) p = Some v"
  by (auto simp: AppendU32_def nth_append)

section \<open>Unordered maps\<close>

type_synonym ('k, 'v) umap = "('k \<times> 'v) list"

definition um_ok :: "('k, 'v) umap \<Rightarrow> bool" where
  "um_ok m \<longleftrightarrow> distinct (map fst m)"

text \<open>The loop \<open>for (it = begin; it != end;) if (P(*it)) it = erase(it); else ++it;\<close>.\<close>

definition um_erase_if :: "('k \<Rightarrow> 'v \<Rightarrow> bool) \<Rightarrow> ('k, 'v) umap \<Rightarrow> ('k, 'v) umap" where
  "um_erase_if P m = filter (\<lambda>(k, v). \<not> P k v) m"

lemma um_ok_Nil [simp]: "um_ok []"
  by (simp add: um_ok_def)

lemma um_ok_update [simp]: "um_ok m \<Longrightarrow> um_ok (AList.update k v m)"
  by (simp add: um_ok_def distinct_update)

lemma um_ok_delete [simp]: "um_ok m \<Longrightarrow> um_ok (AList.delete k m)"
  by (simp add: um_ok_def distinct_delete)

lemma um_ok_filter [simp]: "um_ok m \<Longrightarrow> um_ok (filter P m)"
  unfolding um_ok_def by (induction m) auto

lemma um_ok_erase_if [simp]: "um_ok m \<Longrightarrow> um_ok (um_erase_if P m)"
  by (simp add: um_erase_if_def)

lemma um_ok_map_snd [simp]: "um_ok (map (\<lambda>(k, v). (k, f k v)) m) = um_ok m"
  by (simp add: um_ok_def comp_def case_prod_unfold)

lemma um_find_update [table_simps]:
  "map_of (AList.update k v m) k' = (if k' = k then Some v else map_of m k')"
  by (simp add: update_conv)

lemma um_find_delete [table_simps]:
  "map_of (AList.delete k m) k' = (if k' = k then None else map_of m k')"
  by (simp add: delete_conv)

lemma um_find_in: "map_of m k = Some v \<Longrightarrow> (k, v) \<in> set m"
  by (rule map_of_SomeD)

lemma um_in_find: "um_ok m \<Longrightarrow> (k, v) \<in> set m \<longleftrightarrow> map_of m k = Some v"
  by (simp add: um_ok_def)

lemma um_find_erase_if [table_simps]:
  "um_ok m \<Longrightarrow> map_of (um_erase_if P m) k =
     (case map_of m k of None \<Rightarrow> None | Some v \<Rightarrow> if P k v then None else Some v)"
  unfolding um_erase_if_def um_ok_def
  by (induction m) (auto split: option.splits simp: map_of_eq_None_iff rev_image_eqI)

lemma um_update_absent: "map_of m k = None \<Longrightarrow> AList.update k v m = m @ [(k, v)]"
  by (induction m) (auto split: if_splits)

lemma keys_update_present: "map_of m k = Some v \<Longrightarrow> map fst (AList.update k v' m) = map fst m"
  by (induction m) (auto split: if_splits)

lemma keys_delete: "map fst (AList.delete k m) = filter (\<lambda>x. x \<noteq> k) (map fst m)"
  by (induction m) (auto simp: AList.delete_eq)

lemma size_update_present: "map_of m k = Some v \<Longrightarrow> length (AList.update k v' m) = length m"
  using keys_update_present [of m k v v'] by (metis length_map)

lemma um_empty_keys: "map_of m k = None \<longleftrightarrow> k \<notin> set (map fst m)"
  by (simp add: map_of_eq_None_iff)

lemma set_update_subset: "set (AList.update k v m) \<subseteq> insert (k, v) (set m)"
  by (induction m) auto

lemma set_delete_subset: "set (AList.delete k m) \<subseteq> set m"
  by (auto simp: AList.delete_eq)

section \<open>State machines\<close>

text \<open>
  The contract of a component whose operations are steps: its initial states satisfy an invariant and
  every step keeps it. Then every state it can reach satisfies it.
\<close>

locale state_machine =
  fixes initial :: "'s \<Rightarrow> bool" and step :: "'s \<Rightarrow> 's \<Rightarrow> bool" and inv :: "'s \<Rightarrow> bool"
  assumes initial_inv: "initial s \<Longrightarrow> inv s"
    and step_inv: "step s t \<Longrightarrow> inv s \<Longrightarrow> inv t"
begin

lemma run_inv: "step\<^sup>*\<^sup>* s t \<Longrightarrow> inv s \<Longrightarrow> inv t"
  by (induction rule: rtranclp_induct) (auto intro: step_inv)

lemma reachable_inv: "initial s \<Longrightarrow> step\<^sup>*\<^sup>* s t \<Longrightarrow> inv t"
  using run_inv initial_inv by blast

end

text \<open>
  A machine that implements a more abstract one: seen through \<open>abs\<close>, its initial states are initial
  states and each of its steps is a sequence of steps of the abstract machine.
\<close>

locale simulation = state_machine +
  fixes abs :: "'s \<Rightarrow> 'a" and abstract_initial :: "'a \<Rightarrow> bool" and abstract_step :: "'a \<Rightarrow> 'a \<Rightarrow> bool"
  assumes initial_simulated: "initial s \<Longrightarrow> abstract_initial (abs s)"
    and step_simulated: "step s t \<Longrightarrow> inv s \<Longrightarrow> abstract_step\<^sup>*\<^sup>* (abs s) (abs t)"
begin

lemma run_simulated: "step\<^sup>*\<^sup>* s t \<Longrightarrow> inv s \<Longrightarrow> abstract_step\<^sup>*\<^sup>* (abs s) (abs t)"
proof (induction rule: rtranclp_induct)
  case (step t u)
  then show ?case using run_inv step_simulated rtranclp_trans by metis
qed simp

lemma reachable_simulated: "initial s \<Longrightarrow> step\<^sup>*\<^sup>* s t \<Longrightarrow> \<exists>a. abstract_initial a \<and> abstract_step\<^sup>*\<^sup>* a (abs t)"
  using run_simulated initial_inv initial_simulated by blast

end

section \<open>Text\<close>

text \<open>\<open>text.find(needle) != std::string::npos\<close>\<close>

definition str_contains :: "string \<Rightarrow> string \<Rightarrow> bool" where
  "str_contains needle text = list_ex (\<lambda>i. take (length needle) (drop i text) = needle) [0..<Suc (length text)]"

end
