(* ===== verification/NackBuffer.thy ===== *)
theory NackBuffer
  imports Prelude
begin

text \<open>
  The retransmission buffer of one source (\<open>meeting-server/sfu/rtp/NackBuffer.h\<close>, \<open>.cpp\<close>):
  the last packets of a source by RTP sequence number, with the insertion order in the deque
  \<open>order_\<close>. Every method holds the buffer's mutex for its whole body, so a method is one step
  of the model. The record is the class's state; \<open>fifo_store\<close> is the abstract buffer the
  class implements, an age-ordered list of packets with at most \<open>capacity\<close> entries.
\<close>

record nack_buffer =
  nb_capacity :: nat
  nb_maxPacketSize :: nat
  nb_order :: "u16 list"
  nb_packets :: "(u16, bytes) umap"

definition NackBuffer_new :: "nat \<Rightarrow> nat \<Rightarrow> nack_buffer" where
  "NackBuffer_new capacity maxPacketSize =
     \<lparr> nb_capacity = (if capacity > 0 then capacity else 1500),
       nb_maxPacketSize = (if maxPacketSize > 0 then maxPacketSize else 1600),
       nb_order = [], nb_packets = [] \<rparr>"

definition NackBuffer_Store :: "u16 \<Rightarrow> bytes \<Rightarrow> nack_buffer \<Rightarrow> nack_buffer" where
  "NackBuffer_Store seq packet b =
     (if length packet = 0 \<or> length packet > nb_maxPacketSize b then b
      else if map_of (nb_packets b) seq \<noteq> None
      then b\<lparr>nb_packets := AList.update seq packet (nb_packets b)\<rparr>
      else
        let b1 = (if length (nb_packets b) \<ge> nb_capacity b \<and> nb_order b \<noteq> []
                  then b\<lparr>nb_order := tl (nb_order b),
                         nb_packets := AList.delete (hd (nb_order b)) (nb_packets b)\<rparr>
                  else b)
        in b1\<lparr>nb_order := nb_order b1 @ [seq],
              nb_packets := AList.update seq packet (nb_packets b1)\<rparr>)"

definition NackBuffer_Get :: "u16 \<Rightarrow> nack_buffer \<Rightarrow> bytes option" where
  "NackBuffer_Get seq b = map_of (nb_packets b) seq"

definition NackBuffer_Contains :: "u16 \<Rightarrow> nack_buffer \<Rightarrow> bool" where
  "NackBuffer_Contains seq b \<longleftrightarrow> map_of (nb_packets b) seq \<noteq> None"

definition NackBuffer_Size :: "nack_buffer \<Rightarrow> nat" where
  "NackBuffer_Size b = length (nb_packets b)"

definition NackBuffer_Capacity :: "nack_buffer \<Rightarrow> nat" where
  "NackBuffer_Capacity b = nb_capacity b"

section \<open>The invariant\<close>

definition nack_inv :: "nack_buffer \<Rightarrow> bool" where
  "nack_inv b \<longleftrightarrow>
     um_ok (nb_packets b) \<and> distinct (nb_order b) \<and>
     set (nb_order b) = set (map fst (nb_packets b)) \<and>
     length (nb_packets b) \<le> nb_capacity b \<and> nb_capacity b > 0 \<and>
     (\<forall>(k, p) \<in> set (nb_packets b). p \<noteq> [] \<and> length p \<le> nb_maxPacketSize b)"

lemma nack_inv_new [simp]: "nack_inv (NackBuffer_new c m)"
  by (simp add: nack_inv_def NackBuffer_new_def)

lemma NackBuffer_new_fields [simp]:
  "nb_capacity (NackBuffer_new c m) = (if c > 0 then c else 1500)"
  "nb_maxPacketSize (NackBuffer_new c m) = (if m > 0 then m else 1600)"
  "nb_order (NackBuffer_new c m) = []" "nb_packets (NackBuffer_new c m) = []"
  by (simp_all add: NackBuffer_new_def)

lemma nack_inv_length: "nack_inv b \<Longrightarrow> length (nb_order b) = length (nb_packets b)"
  unfolding nack_inv_def um_ok_def
  by (metis distinct_card length_map)

lemma Store_capacity [simp]:
  "nb_capacity (NackBuffer_Store s p b) = nb_capacity b"
  "nb_maxPacketSize (NackBuffer_Store s p b) = nb_maxPacketSize b"
  by (simp_all add: NackBuffer_Store_def Let_def)

text \<open>The eviction step of a store that finds the buffer full.\<close>

lemma evict_inv:
  assumes "nack_inv b" and "nb_order b = k # ks"
  shows "nack_inv (b\<lparr>nb_order := ks, nb_packets := AList.delete k (nb_packets b)\<rparr>)"
    and "length (AList.delete k (nb_packets b)) < nb_capacity b"
proof -
  let ?d = "AList.delete k (nb_packets b)"
  have ks: "distinct ks" "k \<notin> set ks" and ok: "um_ok ?d"
    using assms by (auto simp: nack_inv_def)
  have keys: "set ks = set (map fst ?d)"
    using assms by (auto simp: nack_inv_def keys_delete)
  then have "length ?d = length ks"
    using ks ok unfolding um_ok_def by (metis distinct_card length_map)
  moreover have "length (nb_order b) \<le> nb_capacity b"
    using assms nack_inv_length [of b] by (simp add: nack_inv_def)
  ultimately show lt: "length ?d < nb_capacity b"
    using assms by simp
  have "\<forall>(k, p) \<in> set ?d. p \<noteq> [] \<and> length p \<le> nb_maxPacketSize b"
    using assms(1) set_delete_subset [of k "nb_packets b"] unfolding nack_inv_def by blast
  with ks ok keys lt assms(1) show
    "nack_inv (b\<lparr>nb_order := ks, nb_packets := ?d\<rparr>)"
    by (simp add: nack_inv_def)
qed

lemma push_inv:
  assumes "nack_inv b" "map_of (nb_packets b) s = None" "length (nb_packets b) < nb_capacity b"
    and "p \<noteq> []" "length p \<le> nb_maxPacketSize b"
  shows "nack_inv (b\<lparr>nb_order := nb_order b @ [s], nb_packets := AList.update s p (nb_packets b)\<rparr>)"
  using assms
  by (auto simp: nack_inv_def um_update_absent um_ok_def map_of_eq_None_iff)

lemma overwrite_inv:
  assumes "nack_inv b" "map_of (nb_packets b) s = Some q" "p \<noteq> []" "length p \<le> nb_maxPacketSize b"
  shows "nack_inv (b\<lparr>nb_packets := AList.update s p (nb_packets b)\<rparr>)"
proof -
  have "\<forall>(k, r) \<in> set (AList.update s p (nb_packets b)). r \<noteq> [] \<and> length r \<le> nb_maxPacketSize b"
    using assms set_update_subset [of s p "nb_packets b"] unfolding nack_inv_def by blast
  then show ?thesis
    using assms keys_update_present [OF assms(2), of p] size_update_present [OF assms(2), of p]
    by (simp add: nack_inv_def flip: set_map)
qed

lemma nack_inv_nonempty: "nack_inv b \<Longrightarrow> length (nb_packets b) \<ge> nb_capacity b \<Longrightarrow> nb_order b \<noteq> []"
  using nack_inv_length [of b] by (auto simp: nack_inv_def)

lemma Store_full:
  assumes "nack_inv b" "map_of (nb_packets b) s = None" "p \<noteq> []" "length p \<le> nb_maxPacketSize b"
    and "nb_order b = k # ks" "length (nb_packets b) = nb_capacity b"
  shows "NackBuffer_Store s p b =
    b\<lparr>nb_order := ks @ [s], nb_packets := AList.update s p (AList.delete k (nb_packets b))\<rparr>"
  using assms by (simp add: NackBuffer_Store_def Let_def)

lemma Store_room:
  assumes "map_of (nb_packets b) s = None" "p \<noteq> []" "length p \<le> nb_maxPacketSize b"
    and "length (nb_packets b) < nb_capacity b"
  shows "NackBuffer_Store s p b =
    b\<lparr>nb_order := nb_order b @ [s], nb_packets := AList.update s p (nb_packets b)\<rparr>"
  using assms by (simp add: NackBuffer_Store_def Let_def)

lemma Store_present:
  assumes "map_of (nb_packets b) s = Some q" "p \<noteq> []" "length p \<le> nb_maxPacketSize b"
  shows "NackBuffer_Store s p b = b\<lparr>nb_packets := AList.update s p (nb_packets b)\<rparr>"
  using assms by (simp add: NackBuffer_Store_def)

lemma Store_refused:
  assumes "p = [] \<or> length p > nb_maxPacketSize b"
  shows "NackBuffer_Store s p b = b"
  using assms by (auto simp: NackBuffer_Store_def)

text \<open>The four ways a store can go, as one case rule.\<close>

lemma Store_cases [consumes 1, case_names refused present full room]:
  assumes inv: "nack_inv b"
  obtains "p = [] \<or> length p > nb_maxPacketSize b" "NackBuffer_Store s p b = b"
  | q where "p \<noteq> []" "length p \<le> nb_maxPacketSize b" "map_of (nb_packets b) s = Some q"
      "NackBuffer_Store s p b = b\<lparr>nb_packets := AList.update s p (nb_packets b)\<rparr>"
  | k ks where "p \<noteq> []" "length p \<le> nb_maxPacketSize b" "map_of (nb_packets b) s = None"
      "nb_order b = k # ks" "length (nb_packets b) = nb_capacity b"
      "NackBuffer_Store s p b =
         b\<lparr>nb_order := ks @ [s], nb_packets := AList.update s p (AList.delete k (nb_packets b))\<rparr>"
  | "p \<noteq> []" "length p \<le> nb_maxPacketSize b" "map_of (nb_packets b) s = None"
      "length (nb_packets b) < nb_capacity b"
      "NackBuffer_Store s p b =
         b\<lparr>nb_order := nb_order b @ [s], nb_packets := AList.update s p (nb_packets b)\<rparr>"
proof (cases "p = [] \<or> length p > nb_maxPacketSize b")
  case True
  then show ?thesis using that(1) by (simp add: Store_refused)
next
  case False
  then have p: "p \<noteq> []" "length p \<le> nb_maxPacketSize b" by auto
  show ?thesis
  proof (cases "map_of (nb_packets b) s")
    case (Some q)
    then show ?thesis using that(2) p Store_present [OF Some p] by blast
  next
    case None
    show ?thesis
    proof (cases "length (nb_packets b) < nb_capacity b")
      case True
      then show ?thesis using that(4) p None Store_room [OF None p True] by blast
    next
      case False
      then have full: "length (nb_packets b) = nb_capacity b"
        using inv by (simp add: nack_inv_def)
      then obtain k ks where "nb_order b = k # ks"
        using nack_inv_nonempty [OF inv] by (cases "nb_order b") auto
      then show ?thesis using that(3) p None full Store_full [OF inv None p] by blast
    qed
  qed
qed

lemma Store_keeps_inv:
  assumes "nack_inv b"
  shows "nack_inv (NackBuffer_Store s p b)"
  using assms
proof (cases rule: Store_cases [of b p s])
  case (full k ks)
  then show ?thesis
    using push_inv [OF evict_inv(1), of b k ks s p] evict_inv(2) [of b k ks] assms
    by (simp add: table_simps)
qed (use assms in \<open>auto intro: overwrite_inv push_inv\<close>)

section \<open>Runs of stores\<close>

definition nack_run :: "(u16 \<times> bytes) list \<Rightarrow> nack_buffer \<Rightarrow> nack_buffer" where
  "nack_run xs b = fold (\<lambda>(s, p). NackBuffer_Store s p) xs b"

lemma nack_run_simps [simp]:
  "nack_run [] b = b"
  "nack_run ((s, p) # xs) b = nack_run xs (NackBuffer_Store s p b)"
  by (simp_all add: nack_run_def)

lemma nack_run_append: "nack_run (xs @ ys) b = nack_run ys (nack_run xs b)"
  by (simp add: nack_run_def)

lemma nack_run_inv: "nack_inv b \<Longrightarrow> nack_inv (nack_run xs b)"
  by (induction xs arbitrary: b) (auto simp: Store_keeps_inv)

lemma nack_run_capacity [simp]:
  "nb_capacity (nack_run xs b) = nb_capacity b"
  "nb_maxPacketSize (nack_run xs b) = nb_maxPacketSize b"
  by (induction xs arbitrary: b) auto

text \<open>
  The class invariant, in every state a buffer can reach from its constructor: the deque
  and the hash map hold the same sequence numbers, each once; the buffer never holds more
  packets than its (positive) capacity; and every stored packet is non-empty and within the
  size limit.
\<close>

theorem NackBuffer_reachable_inv: "nack_inv (nack_run xs (NackBuffer_new c m))"
  by (simp add: nack_run_inv)

section \<open>The buffer as an abstract first-in first-out store\<close>

definition fifo_store :: "nat \<Rightarrow> nat \<Rightarrow> u16 \<Rightarrow> bytes \<Rightarrow> (u16 \<times> bytes) list \<Rightarrow> (u16 \<times> bytes) list" where
  "fifo_store cap mx s p entries =
     (if p = [] \<or> length p > mx then entries
      else if s \<in> fst ` set entries
      then map (\<lambda>(k, q). (k, if k = s then p else q)) entries
      else (if length entries < cap then entries else tl entries) @ [(s, p)])"

definition nack_abs :: "nack_buffer \<Rightarrow> (u16 \<times> bytes) list" where
  "nack_abs b = map (\<lambda>s. (s, the (map_of (nb_packets b) s))) (nb_order b)"

lemma keys_nack_abs [simp]: "map fst (nack_abs b) = nb_order b"
  by (simp add: nack_abs_def comp_def)

lemma nack_abs_new [simp]: "nack_abs (NackBuffer_new c m) = []"
  by (simp add: nack_abs_def)

lemma nack_abs_present:
  "nack_inv b \<Longrightarrow> s \<in> fst ` set (nack_abs b) \<longleftrightarrow> map_of (nb_packets b) s \<noteq> None"
proof -
  assume inv: "nack_inv b"
  have "fst ` set (nack_abs b) = set (nb_order b)"
    by (simp flip: set_map)
  with inv show ?thesis
    by (auto simp: nack_inv_def map_of_eq_None_iff)
qed

lemma Store_fifo:
  assumes "nack_inv b"
  shows "nack_abs (NackBuffer_Store s p b) =
    fifo_store (nb_capacity b) (nb_maxPacketSize b) s p (nack_abs b)"
  using assms
proof (cases rule: Store_cases [of b p s])
  case refused
  then show ?thesis by (auto simp: fifo_store_def)
next
  case (present q)
  then show ?thesis
    using assms nack_abs_present [OF assms, of s]
    by (auto simp: fifo_store_def nack_abs_def table_simps)
next
  case (full k ks)
  moreover have "k \<notin> set ks" "s \<notin> set ks" "length (nb_order b) = nb_capacity b"
    using full assms nack_inv_length [OF assms] by (auto simp: nack_inv_def map_of_eq_None_iff)
  ultimately show ?thesis
    using nack_abs_present [OF assms, of s] by (auto simp: fifo_store_def nack_abs_def table_simps)
next
  case room
  moreover have "s \<notin> set (nb_order b)"
    using room assms by (auto simp: nack_inv_def map_of_eq_None_iff)
  ultimately show ?thesis
    using nack_abs_present [OF assms, of s] nack_inv_length [OF assms]
    by (auto simp: fifo_store_def nack_abs_def table_simps)
qed

lemma run_fifo:
  "nack_inv b \<Longrightarrow> nack_abs (nack_run xs b) =
     fold (\<lambda>(s, p). fifo_store (nb_capacity b) (nb_maxPacketSize b) s p) xs (nack_abs b)"
proof (induction xs arbitrary: b)
  case (Cons x xs)
  then show ?case
    by (cases x) (simp only: nack_run_simps Store_keeps_inv Store_fifo Store_capacity fold_Cons
        comp_def prod.case)
qed simp

text \<open>
  C34. The class implements the abstract store: after every run of stores from the constructor
  the buffer, read in the order of its deque, is the age-ordered bounded queue that evicts
  its oldest packet when it is full and overwrites in place, without renewing its age, a
  packet whose sequence number is already there.
\<close>

theorem NackBuffer_refines_fifo:
  "nack_abs (nack_run xs (NackBuffer_new c m)) =
     fold (\<lambda>(s, p). fifo_store (if c > 0 then c else 1500) (if m > 0 then m else 1600) s p) xs []"
  using run_fifo [of "NackBuffer_new c m" xs] by simp

section \<open>What a retransmission request finds\<close>

text \<open>
  The store-and-fetch contract the router relies on: what a fetch returns after a store, and
  that a store keeps the buffer's invariant.
\<close>

locale packet_store =
  fixes store :: "u16 \<Rightarrow> bytes \<Rightarrow> 'b \<Rightarrow> 'b"
    and fetch :: "u16 \<Rightarrow> 'b \<Rightarrow> bytes option"
    and accepts :: "'b \<Rightarrow> bytes \<Rightarrow> bool"
    and inv :: "'b \<Rightarrow> bool"
  assumes inv_store: "inv b \<Longrightarrow> inv (store s p b)"
    and fetch_store_same: "inv b \<Longrightarrow> accepts b p \<Longrightarrow> fetch s (store s p b) = Some p"
    and fetch_store_other: "inv b \<Longrightarrow> s' \<noteq> s \<Longrightarrow>
          fetch s' (store s p b) = None \<or> fetch s' (store s p b) = fetch s' b"
    and store_refused: "inv b \<Longrightarrow> \<not> accepts b p \<Longrightarrow> store s p b = b"
begin

text \<open>Whatever a fetch returns was stored under that number, by the run or before it.\<close>

lemma fetch_run_sound:
  "inv b \<Longrightarrow> fetch s (fold (\<lambda>(s, p). store s p) xs b) = Some q \<Longrightarrow>
     (s, q) \<in> set xs \<or> fetch s b = Some q"
proof (induction xs arbitrary: b)
  case (Cons x xs)
  obtain s' p where x: "x = (s', p)" by (cases x)
  from Cons have "(s, q) \<in> set xs \<or> fetch s (store s' p b) = Some q"
    using x inv_store by auto
  moreover have "fetch s (store s' p b) = Some q \<Longrightarrow> (s, q) = x \<or> fetch s b = Some q"
    using Cons.prems(1) x fetch_store_same fetch_store_other store_refused
    by (metis option.distinct(1) option.inject)
  ultimately show ?case by auto
qed simp

end

definition nack_accepts :: "nack_buffer \<Rightarrow> bytes \<Rightarrow> bool" where
  "nack_accepts b p \<longleftrightarrow> p \<noteq> [] \<and> length p \<le> nb_maxPacketSize b"

interpretation nackbuf: packet_store NackBuffer_Store NackBuffer_Get nack_accepts nack_inv
proof
  fix b s p
  assume inv: "nack_inv b"
  show "nack_inv (NackBuffer_Store s p b)"
    using inv by (rule Store_keeps_inv)
  show "nack_accepts b p \<Longrightarrow> NackBuffer_Get s (NackBuffer_Store s p b) = Some p"
    using inv by (cases rule: Store_cases [of b p s])
      (auto simp: nack_accepts_def NackBuffer_Get_def table_simps)
  show "NackBuffer_Get s' (NackBuffer_Store s p b) = None \<or>
      NackBuffer_Get s' (NackBuffer_Store s p b) = NackBuffer_Get s' b" if "s' \<noteq> s" for s'
    using inv that by (cases rule: Store_cases [of b p s]) (auto simp: NackBuffer_Get_def table_simps)
  show "\<not> nack_accepts b p \<Longrightarrow> NackBuffer_Store s p b = b"
    by (auto simp: nack_accepts_def Store_refused)
qed

text \<open>
  A retransmission never invents data: whatever \<open>Get\<close> returns, in any state reached from
  the constructor, is a packet that was stored under exactly that sequence number.
\<close>

theorem NackBuffer_Get_sound:
  assumes "NackBuffer_Get s (nack_run xs (NackBuffer_new c m)) = Some q"
  shows "(s, q) \<in> set xs"
  using nackbuf.fetch_run_sound [of "NackBuffer_new c m" s xs q] assms
  by (simp add: nack_run_def) (simp add: NackBuffer_Get_def NackBuffer_new_def)

theorem NackBuffer_Get_sound_witness:
  "NackBuffer_Get 7 (nack_run [(6, [1]), (7, [2, 3])] (NackBuffer_new 2 16)) = Some [2, 3] \<and>
   (7, [2, 3]) \<in> set [(6, [1]), (7 :: u16, [2, 3 :: u8])]"
proof -
  have "NackBuffer_Get 7 (nack_run [(6, [1]), (7, [2, 3])] (NackBuffer_new 2 16)) = Some [2, 3]"
    by (simp add: NackBuffer_Get_def NackBuffer_Store_def NackBuffer_new_def Let_def)
  then show ?thesis
    using NackBuffer_Get_sound [of 7 "[(6, [1]), (7, [2, 3])]" 2 16 "[2, 3]"] by simp
qed

text \<open>
  Retention: the packets behind a stored one in the deque are among the sequence numbers
  stored since, so it stays until \<open>capacity\<close> other numbers have come.
\<close>

definition behind :: "u16 \<Rightarrow> u16 set \<Rightarrow> bytes \<Rightarrow> nack_buffer \<Rightarrow> bool" where
  "behind s K p b \<longleftrightarrow> nack_inv b \<and> map_of (nb_packets b) s = Some p \<and>
     (\<exists>pre post. nb_order b = pre @ s # post \<and> set post \<subseteq> K)"

lemma behindI:
  "nack_inv b \<Longrightarrow> map_of (nb_packets b) s = Some p \<Longrightarrow> nb_order b = pre @ s # post \<Longrightarrow>
     set post \<subseteq> K \<Longrightarrow> behind s K p b"
  by (auto simp: behind_def)

lemma behind_step:
  assumes "behind s K p b" "k \<noteq> s" "finite K" "card (insert k K) < nb_capacity b" "s \<notin> K"
  shows "behind s (insert k K) p (NackBuffer_Store k q b)"
proof -
  from assms obtain pre post where inv: "nack_inv b" and find: "map_of (nb_packets b) s = Some p"
    and ord: "nb_order b = pre @ s # post" and K: "set post \<subseteq> K"
    by (auto simp: behind_def)
  have inv': "nack_inv (NackBuffer_Store k q b)" using inv by (rule Store_keeps_inv)
  have post: "set (post @ [k]) \<subseteq> insert k K" "set post \<subseteq> insert k K"
    using K by auto
  show ?thesis
    using inv
  proof (cases rule: Store_cases [of b q k])
    case (full f fs)
    show ?thesis
    proof (cases pre)
      case Nil
      have dist: "distinct (s # post)" and len: "length (s # post) = nb_capacity b"
        using inv ord Nil full nack_inv_length [OF inv] by (auto simp: nack_inv_def)
      have "k \<notin> set (nb_order b)"
        using full(3) inv by (auto simp: nack_inv_def map_of_eq_None_iff)
      then have "k \<notin> set post" using ord by simp
      then have "card (insert k (set post)) = nb_capacity b"
        using dist len by (simp add: distinct_card)
      moreover have "card (insert k (set post)) \<le> card (insert k K)"
        using K assms(3) by (intro card_mono) auto
      ultimately show ?thesis using assms(4) by simp
    next
      case (Cons f' pre')
      then have fs: "fs = pre' @ s # post" "f = f'" using full ord by simp_all
      have "f \<noteq> s" using inv ord Cons fs by (auto simp: nack_inv_def)
      then show ?thesis
        using inv' find full fs post assms(2)
        by (intro behindI [of _ s p pre' "post @ [k]"]) (auto simp: table_simps)
    qed
  next
    case room
    then show ?thesis
      using inv' find ord post assms(2)
      by (intro behindI [of _ s p pre "post @ [k]"]) (auto simp: table_simps)
  next
    case (present r)
    then show ?thesis
      using inv' find ord post assms(2)
      by (intro behindI [of _ s p pre post]) (auto simp: table_simps)
  next
    case refused
    then show ?thesis
      using inv find ord post by (intro behindI [of _ s p pre post]) auto
  qed
qed

lemma behind_run:
  assumes "behind s K p b" "finite K" "s \<notin> K" "s \<notin> fst ` set xs"
    and "card (K \<union> fst ` set xs) < nb_capacity b"
  shows "behind s (K \<union> fst ` set xs) p (nack_run xs b)"
  using assms
proof (induction xs arbitrary: b K)
  case (Cons x xs)
  obtain k q where x: "x = (k, q)" by (cases x)
  have "card (insert k K) \<le> card (K \<union> fst ` set (x # xs))"
    using Cons.prems(2) x by (intro card_mono) auto
  then have "behind s (insert k K) p (NackBuffer_Store k q b)"
    using Cons.prems x by (intro behind_step) auto
  moreover have "insert k K \<union> fst ` set xs = K \<union> fst ` set (x # xs)" using x by auto
  ultimately show ?case
    using Cons.IH [of "insert k K" "NackBuffer_Store k q b"] Cons.prems x by auto
qed simp

text \<open>
  A packet the buffer accepts under a sequence number it does not hold yet stays
  retrievable, byte for byte, through every later run of stores that brings fewer distinct
  sequence numbers than the capacity and does not store under its own number again.
\<close>

theorem NackBuffer_retention:
  assumes "nack_inv b" "\<not> NackBuffer_Contains s b" "p \<noteq> []" "length p \<le> nb_maxPacketSize b"
    and "s \<notin> fst ` set xs" "card (fst ` set xs) < NackBuffer_Capacity b"
  shows "NackBuffer_Get s (nack_run xs (NackBuffer_Store s p b)) = Some p"
proof -
  have inv: "nack_inv (NackBuffer_Store s p b)" using assms(1) by (rule Store_keeps_inv)
  have "map_of (nb_packets (NackBuffer_Store s p b)) s = Some p"
    using nackbuf.fetch_store_same [OF assms(1)] assms by (simp add: nack_accepts_def NackBuffer_Get_def)
  moreover from assms(1) have "\<exists>pre. nb_order (NackBuffer_Store s p b) = pre @ [s]"
    by (cases rule: Store_cases [of b p s]) (use assms in \<open>auto simp: NackBuffer_Contains_def\<close>)
  ultimately have "behind s {} p (NackBuffer_Store s p b)"
    using inv by (auto simp: behind_def)
  then have "behind s ({} \<union> fst ` set xs) p (nack_run xs (NackBuffer_Store s p b))"
    using assms by (intro behind_run) (auto simp: NackBuffer_Capacity_def)
  then show ?thesis by (simp add: behind_def NackBuffer_Get_def)
qed

theorem NackBuffer_retention_witness:
  "NackBuffer_Get 1 (nack_run [(2, [5]), (2, [6]), (3, [7])]
      (NackBuffer_Store 1 [4] (NackBuffer_new 3 16))) = Some [4]"
  by (rule NackBuffer_retention)
    (simp_all add: NackBuffer_Contains_def NackBuffer_new_def NackBuffer_Capacity_def nack_inv_def)

end
