(* ===== verification/RtpParser.thy ===== *)
theory RtpParser
  imports Prelude
begin

text \<open>
  The RTP header parser of the media server (\<open>meeting-server/sfu/rtp/RtpParser.h\<close>, \<open>.cpp\<close>)
  and the SSRC rewriter (\<open>RtpRouter::RewriteSsrc\<close>, which \<open>MediaIngress::RewriteRtpSsrc\<close>
  repeats). \<open>RtpParser_Parse\<close> yields \<open>None\<close> when it would read outside the packet, \<open>Some None\<close>
  when the code returns \<open>false\<close>, and \<open>Some (Some p)\<close> with the parsed packet otherwise. The
  payload pointer is the offset of the payload in the packet.
\<close>

record RtpHeader =
  rtp_version :: u8
  rtp_padding :: bool
  rtp_extension :: bool
  rtp_csrcCount :: u8
  rtp_marker :: bool
  rtp_payloadType :: u8
  rtp_sequence :: u16
  rtp_timestamp :: u32
  rtp_ssrc :: u32
  rtp_headerSize :: nat

record ParsedRtpPacket =
  pkt_header :: RtpHeader
  pkt_payload :: nat
  pkt_payloadSize :: nat

definition kMinHeaderSize :: nat where
  "kMinHeaderSize = 12"

text \<open>The header extension: the offset after it, or a refusal.\<close>

definition skip_extension :: "bytes \<Rightarrow> bool \<Rightarrow> nat \<Rightarrow> nat option mem" where
  "skip_extension data extension offset =
     (if extension then
        (if offset + 4 > length data then Some None
         else do {
           extWords \<leftarrow> ReadU16 data (offset + 2);
           let extBytes = unat extWords * 4;
           if offset + 4 + extBytes > length data then Some None
           else Some (Some (offset + (4 + extBytes))) })
      else Some (Some offset))"

text \<open>The padding: the payload's size without it, or a refusal.\<close>

definition trim_padding :: "bytes \<Rightarrow> bool \<Rightarrow> nat \<Rightarrow> nat option mem" where
  "trim_padding data padding payloadSize =
     (if padding then
        (if payloadSize = 0 then Some None
         else do {
           padBytes \<leftarrow> byte_at data (length data - 1);
           if padBytes = 0 \<or> unat padBytes > payloadSize then Some None
           else Some (Some (payloadSize - unat padBytes)) })
      else Some (Some payloadSize))"

definition RtpParser_Parse :: "bytes \<Rightarrow> ParsedRtpPacket option mem" where
  "RtpParser_Parse data =
     (if length data < kMinHeaderSize then Some None
      else do {
        b0 \<leftarrow> byte_at data 0;
        b1 \<leftarrow> byte_at data 1;
        let version = drop_bit 6 b0 AND 0x03;
        if version \<noteq> 2 then Some None
        else do {
          let padding = (b0 AND 0x20 \<noteq> 0);
          let extension = (b0 AND 0x10 \<noteq> 0);
          let csrcCount = b0 AND 0x0F;
          let marker = (b1 AND 0x80 \<noteq> 0);
          let payloadType = b1 AND 0x7F;
          sequence \<leftarrow> ReadU16 data 2;
          timestamp \<leftarrow> ReadU32 data 4;
          ssrc \<leftarrow> ReadU32 data 8;
          let offset = kMinHeaderSize;
          let csrcBytes = unat csrcCount * 4;
          if offset + csrcBytes > length data then Some None
          else do {
            ext \<leftarrow> skip_extension data extension (offset + csrcBytes);
            case ext of None \<Rightarrow> Some None
            | Some offset \<Rightarrow> do {
                trimmed \<leftarrow> trim_padding data padding (length data - offset);
                case trimmed of None \<Rightarrow> Some None
                | Some payloadSize \<Rightarrow> Some (Some
                    \<lparr> pkt_header = \<lparr> rtp_version = version, rtp_padding = padding,
                        rtp_extension = extension, rtp_csrcCount = csrcCount,
                        rtp_marker = marker, rtp_payloadType = payloadType,
                        rtp_sequence = sequence, rtp_timestamp = timestamp,
                        rtp_ssrc = ssrc, rtp_headerSize = offset \<rparr>,
                      pkt_payload = offset, pkt_payloadSize = payloadSize \<rparr>) } } } })"

definition RewriteSsrc :: "u32 \<Rightarrow> bytes \<Rightarrow> bytes" where
  "RewriteSsrc ssrc packet =
     (if length packet < kMinHeaderSize then packet
      else packet[8 := ucast (drop_bit 24 ssrc AND 0xFF), 9 := ucast (drop_bit 16 ssrc AND 0xFF),
                  10 := ucast (drop_bit 8 ssrc AND 0xFF), 11 := ucast (ssrc AND 0xFF)])"

section \<open>Memory safety and bounds\<close>

lemma skip_extension_safe:
  "skip_extension data e off \<noteq> None"
  by (auto simp: skip_extension_def Let_def)

lemma skip_extension_bounds:
  "skip_extension data e off = Some (Some off') \<Longrightarrow> off \<le> length data \<Longrightarrow>
     off \<le> off' \<and> off' \<le> length data"
  by (auto simp: skip_extension_def Let_def split: if_splits bind_splits)

lemma trim_padding_safe:
  "n \<le> length data \<Longrightarrow> trim_padding data pad n \<noteq> None"
  by (auto simp: trim_padding_def)

lemma trim_padding_bounds:
  "trim_padding data pad n = Some (Some n') \<Longrightarrow> n' \<le> n \<and> (pad \<longrightarrow> n' < n)"
  by (auto simp: trim_padding_def unat_gt_0 split: if_splits bind_splits)

lemma Parse_safe: "RtpParser_Parse data \<noteq> None"
  unfolding RtpParser_Parse_def Let_def kMinHeaderSize_def
  by (auto split: bind_splits option.splits simp: skip_extension_safe trim_padding_safe)

text \<open>The parse as the total function its callers use.\<close>

definition rtp_parse :: "bytes \<Rightarrow> ParsedRtpPacket option" where
  "rtp_parse data = (case RtpParser_Parse data of None \<Rightarrow> None | Some r \<Rightarrow> r)"

lemma Parse_eq: "RtpParser_Parse data = Some (rtp_parse data)"
  using Parse_safe [of data] by (auto simp: rtp_parse_def)

lemma rtp_parse_Some:
  assumes "rtp_parse data = Some p"
  obtains off n where
    "12 \<le> length data" "rtp_version (pkt_header p) = 2"
    "12 + unat (rtp_csrcCount (pkt_header p)) * 4 \<le> length data"
    "skip_extension data (rtp_extension (pkt_header p))
       (12 + unat (rtp_csrcCount (pkt_header p)) * 4) = Some (Some off)"
    "trim_padding data (rtp_padding (pkt_header p)) (length data - off) = Some (Some n)"
    "rtp_headerSize (pkt_header p) = off" "pkt_payload p = off" "pkt_payloadSize p = n"
    "rtp_ssrc (pkt_header p) = be32 (data ! 8) (data ! 9) (data ! 10) (data ! 11)"
    "rtp_sequence (pkt_header p) = be16 (data ! 2) (data ! 3)"
  using assms unfolding rtp_parse_def RtpParser_Parse_def Let_def kMinHeaderSize_def
  by (auto split: if_splits bind_splits option.splits)

text \<open>
  The parser never reads outside the packet, whatever the bytes are, and a packet it
  accepts is version 2 with a header of at least 12 bytes; header and payload lie inside the
  packet, one after the other, and the payload ends where the packet ends unless the padding
  bit is set, when at least one byte of padding is cut off.
\<close>

theorem RtpParser_Parse_memory_safe:
  "\<exists>r. RtpParser_Parse data = Some r \<and>
     (\<forall>p. r = Some p \<longrightarrow>
        rtp_version (pkt_header p) = 2 \<and> 12 \<le> rtp_headerSize (pkt_header p) \<and>
        pkt_payload p = rtp_headerSize (pkt_header p) \<and>
        rtp_headerSize (pkt_header p) + pkt_payloadSize p \<le> length data \<and>
        (rtp_headerSize (pkt_header p) + pkt_payloadSize p = length data \<longleftrightarrow>
           \<not> rtp_padding (pkt_header p)))"
proof (intro exI [of _ "rtp_parse data"] conjI allI impI)
  show "RtpParser_Parse data = Some (rtp_parse data)" by (rule Parse_eq)
  fix p
  assume "rtp_parse data = Some p"
  then show "rtp_version (pkt_header p) = 2" and "12 \<le> rtp_headerSize (pkt_header p)"
    and "pkt_payload p = rtp_headerSize (pkt_header p)"
    and "rtp_headerSize (pkt_header p) + pkt_payloadSize p \<le> length data"
    and "(rtp_headerSize (pkt_header p) + pkt_payloadSize p = length data) =
           (\<not> rtp_padding (pkt_header p))"
    by - (erule rtp_parse_Some, frule skip_extension_bounds, simp, frule trim_padding_bounds,
      auto simp: trim_padding_def)+
qed

theorem RtpParser_Parse_memory_safe_witness:
  "\<exists>r. RtpParser_Parse [0x80, 0x60, 0, 7, 0, 0, 0, 1, 0, 0, 0, 9, 0xAB] = Some (Some r) \<and>
     rtp_version (pkt_header r) = 2 \<and> rtp_headerSize (pkt_header r) + pkt_payloadSize r = 13"
proof -
  let ?d = "[0x80, 0x60, 0, 7, 0, 0, 0, 1, 0, 0, 0, 9, 0xAB] :: bytes"
  obtain r where r: "RtpParser_Parse ?d = Some (Some r)" "\<not> rtp_padding (pkt_header r)"
    by (simp add: RtpParser_Parse_def kMinHeaderSize_def skip_extension_def trim_padding_def)
  then show ?thesis
    using RtpParser_Parse_memory_safe [of ?d] by auto
qed

section \<open>Rewriting the SSRC\<close>

lemma length_RewriteSsrc [simp]: "length (RewriteSsrc s d) = length d"
  by (simp add: RewriteSsrc_def)

lemma RewriteSsrc_Nil [simp]: "RewriteSsrc s d = [] \<longleftrightarrow> d = []"
  using length_RewriteSsrc [of s d] by (metis length_0_conv)

lemma RewriteSsrc_other:
  "i \<notin> {8, 9, 10, 11} \<Longrightarrow> RewriteSsrc s d ! i = d ! i"
  by (simp add: RewriteSsrc_def)

lemma RewriteSsrc_around: "take 8 (RewriteSsrc s d) = take 8 d" "drop 12 (RewriteSsrc s d) = drop 12 d"
  by (simp_all add: RewriteSsrc_def)

lemma RewriteSsrc_ssrc:
  "12 \<le> length d \<Longrightarrow>
     be32 (RewriteSsrc s d ! 8) (RewriteSsrc s d ! 9) (RewriteSsrc s d ! 10) (RewriteSsrc s d ! 11) = s"
  by (simp add: RewriteSsrc_def kMinHeaderSize_def)

lemma skip_extension_Rewrite:
  "12 \<le> off \<Longrightarrow> skip_extension (RewriteSsrc s d) e off = skip_extension d e off"
  by (auto simp: skip_extension_def ReadU16_def byte_at_def RewriteSsrc_other)

lemma trim_padding_Rewrite:
  "n + 12 \<le> length d \<Longrightarrow> trim_padding (RewriteSsrc s d) e n = trim_padding d e n"
proof (cases "n = 0")
  case False
  moreover assume "n + 12 \<le> length d"
  ultimately have "RewriteSsrc s d ! (length d - 1) = d ! (length d - 1)"
    by (intro RewriteSsrc_other) auto
  then show ?thesis by (simp add: trim_padding_def byte_at_def)
qed (simp add: trim_padding_def)

text \<open>
  Rewriting the SSRC of a packet changes the SSRC the parser reads and nothing else: the
  rewritten packet is accepted exactly when the original is, and every other header field,
  the header size and the payload are the same.
\<close>

theorem Parse_RewriteSsrc:
  "RtpParser_Parse (RewriteSsrc s data) =
     map_option (map_option (\<lambda>p. p\<lparr>pkt_header := (pkt_header p)\<lparr>rtp_ssrc := s\<rparr>\<rparr>))
       (RtpParser_Parse data)"
proof (cases "length data < 12")
  case True
  then show ?thesis by (simp add: RtpParser_Parse_def kMinHeaderSize_def)
next
  case False
  let ?cc = "12 + unat (data ! 0 AND 0x0F) * 4" and ?e = "data ! 0 AND 0x10 \<noteq> 0"
  have "data \<noteq> []" using False by auto
  note reads = this RtpParser_Parse_def kMinHeaderSize_def Let_def RewriteSsrc_other RewriteSsrc_ssrc
    skip_extension_Rewrite
  show ?thesis
  proof (cases "length data < ?cc")
    case True
    with False show ?thesis by (simp add: reads)
  next
    case csrc: False
    show ?thesis
    proof (cases "skip_extension data ?e ?cc")
      case None
      then show ?thesis by (simp add: skip_extension_safe)
    next
      case (Some ext)
      show ?thesis
      proof (cases ext)
        case None
        with False csrc Some show ?thesis by (simp add: reads)
      next
        case (Some off)
        then have "?cc \<le> off" "off \<le> length data"
          using skip_extension_bounds [of data ?e ?cc off] csrc \<open>skip_extension _ _ _ = Some ext\<close>
          by auto
        then have "trim_padding (RewriteSsrc s data) e (length data - off) =
            trim_padding data e (length data - off)" for e
          by (simp add: trim_padding_Rewrite)
        with False csrc Some \<open>skip_extension _ _ _ = Some ext\<close> show ?thesis
          by (simp add: reads split: bind_split option.split)
      qed
    qed
  qed
qed

end
