(* ===== verification/RtpRouter.thy ===== *)
theory RtpRouter
  imports NackBuffer RtpParser
begin

text \<open>
  The packet router of the media server (\<open>meeting-server/sfu/rtp/RtpRouter.h\<close>, \<open>.cpp\<close>): for
  every registered source SSRC a retransmission buffer and the subscribers its packets are
  forwarded to. A forwarding callback is a value of the type parameter \<open>'f\<close> (\<open>None\<close> is an
  empty \<open>std::function\<close>), and \<open>Route\<close> returns the calls it makes, in their order, as pairs of
  callback and packet: the media ingress, which supplies the callbacks, runs them. The map
  holds routes by value: the only null pointer the code ever stores is replaced before the
  lock is released.
\<close>

record 'f SubscriberRoute =
  sub_rewrittenSsrc :: u32
  sub_forward :: "'f option"

record 'f PublisherRoute =
  route_nack :: nack_buffer
  route_subscribers :: "'f SubscriberRoute list"

record 'f RtpRouter =
  rt_nackCapacity :: nat
  rt_publishers :: "(u32, 'f PublisherRoute) umap"

definition RtpRouter_new :: "nat \<Rightarrow> 'f RtpRouter" where
  "RtpRouter_new nackCapacity =
     \<lparr> rt_nackCapacity = (if nackCapacity > 0 then nackCapacity else 500), rt_publishers = [] \<rparr>"

definition PublisherRoute_new :: "nat \<Rightarrow> 'f PublisherRoute" where
  "PublisherRoute_new nackCap =
     \<lparr> route_nack = NackBuffer_new nackCap 1600, route_subscribers = [] \<rparr>"

definition RegisterPublisher :: "u32 \<Rightarrow> 'f RtpRouter \<Rightarrow> bool \<times> 'f RtpRouter" where
  "RegisterPublisher sourceSsrc R =
     (if sourceSsrc = 0 then (False, R)
      else case map_of (rt_publishers R) sourceSsrc of
        Some _ \<Rightarrow> (True, R)
      | None \<Rightarrow> (True, R\<lparr>rt_publishers := AList.update sourceSsrc
                    (PublisherRoute_new (rt_nackCapacity R)) (rt_publishers R)\<rparr>))"

definition UnregisterPublisher :: "u32 \<Rightarrow> 'f RtpRouter \<Rightarrow> 'f RtpRouter" where
  "UnregisterPublisher sourceSsrc R = R\<lparr>rt_publishers := AList.delete sourceSsrc (rt_publishers R)\<rparr>"

definition AddSubscriber :: "u32 \<Rightarrow> u32 \<Rightarrow> 'f option \<Rightarrow> 'f RtpRouter \<Rightarrow> bool \<times> 'f RtpRouter" where
  "AddSubscriber sourceSsrc rewrittenSsrc forward R =
     (if sourceSsrc = 0 \<or> rewrittenSsrc = 0 \<or> forward = None then (False, R)
      else
        let route = (case map_of (rt_publishers R) sourceSsrc of
                       Some r \<Rightarrow> r | None \<Rightarrow> PublisherRoute_new (rt_nackCapacity R));
            sub = \<lparr> sub_rewrittenSsrc = rewrittenSsrc, sub_forward = forward \<rparr>
        in (True, R\<lparr>rt_publishers := AList.update sourceSsrc
              (route\<lparr>route_subscribers := route_subscribers route @ [sub]\<rparr>) (rt_publishers R)\<rparr>))"

definition RemoveSubscribers :: "u32 \<Rightarrow> 'f RtpRouter \<Rightarrow> 'f RtpRouter" where
  "RemoveSubscribers sourceSsrc R =
     (case map_of (rt_publishers R) sourceSsrc of
        None \<Rightarrow> R
      | Some route \<Rightarrow> R\<lparr>rt_publishers :=
          AList.update sourceSsrc (route\<lparr>route_subscribers := []\<rparr>) (rt_publishers R)\<rparr>)"

text \<open>The forwarding loop: a copy of the packet with the subscriber's SSRC for each callback.\<close>

fun forward_all :: "'f SubscriberRoute list \<Rightarrow> bytes \<Rightarrow> ('f \<times> bytes) list" where
  "forward_all [] packet = []"
| "forward_all (sub # subs) packet =
     (case sub_forward sub of
        None \<Rightarrow> forward_all subs packet
      | Some f \<Rightarrow> (f, RewriteSsrc (sub_rewrittenSsrc sub) packet) # forward_all subs packet)"

definition Route :: "bytes \<Rightarrow> 'f RtpRouter \<Rightarrow> bool \<times> 'f RtpRouter \<times> ('f \<times> bytes) list" where
  "Route packet R =
     (case rtp_parse packet of
        None \<Rightarrow> (False, R, [])
      | Some parsed \<Rightarrow>
          (case map_of (rt_publishers R) (rtp_ssrc (pkt_header parsed)) of
             None \<Rightarrow> (False, R, [])
           | Some route \<Rightarrow>
               let nack = NackBuffer_Store (rtp_sequence (pkt_header parsed)) packet (route_nack route)
               in (True,
                   R\<lparr>rt_publishers := AList.update (rtp_ssrc (pkt_header parsed))
                       (route\<lparr>route_nack := nack\<rparr>) (rt_publishers R)\<rparr>,
                   forward_all (route_subscribers route) packet)))"

definition GetRetransmitPacket :: "u32 \<Rightarrow> u16 \<Rightarrow> 'f RtpRouter \<Rightarrow> bytes option" where
  "GetRetransmitPacket sourceSsrc seq R =
     (case map_of (rt_publishers R) sourceSsrc of
        None \<Rightarrow> None
      | Some route \<Rightarrow> NackBuffer_Get seq (route_nack route))"

section \<open>The router's invariant\<close>

definition route_ok :: "'f PublisherRoute \<Rightarrow> bool" where
  "route_ok r \<longleftrightarrow> nack_inv (route_nack r) \<and> nb_maxPacketSize (route_nack r) = 1600 \<and>
     (\<forall>sub \<in> set (route_subscribers r). sub_rewrittenSsrc sub \<noteq> 0 \<and> sub_forward sub \<noteq> None)"

definition router_inv :: "'f RtpRouter \<Rightarrow> bool" where
  "router_inv R \<longleftrightarrow> um_ok (rt_publishers R) \<and> rt_nackCapacity R > 0 \<and>
     (\<forall>s r. map_of (rt_publishers R) s = Some r \<longrightarrow> s \<noteq> 0 \<and> route_ok r)"

lemma router_invD: "router_inv R \<Longrightarrow> map_of (rt_publishers R) s = Some r \<Longrightarrow> s \<noteq> 0 \<and> route_ok r"
  by (simp add: router_inv_def)

lemma router_inv_update:
  "router_inv R \<Longrightarrow> s \<noteq> 0 \<Longrightarrow> route_ok r \<Longrightarrow>
     router_inv (R\<lparr>rt_publishers := AList.update s r (rt_publishers R)\<rparr>)"
  by (auto simp: router_inv_def table_simps)

lemma route_ok_new [simp]: "route_ok (PublisherRoute_new c)"
  by (simp add: route_ok_def PublisherRoute_new_def)

lemma router_inv_new [simp]: "router_inv (RtpRouter_new c)"
  by (simp add: router_inv_def RtpRouter_new_def)

lemma router_inv_Register: "router_inv R \<Longrightarrow> router_inv (snd (RegisterPublisher s R))"
  by (auto simp: RegisterPublisher_def router_inv_update split: option.split)

lemma router_inv_Unregister: "router_inv R \<Longrightarrow> router_inv (UnregisterPublisher s R)"
  by (auto simp: UnregisterPublisher_def router_inv_def table_simps)

lemma router_inv_Add: "router_inv R \<Longrightarrow> router_inv (snd (AddSubscriber s w f R))"
proof (cases "s = 0 \<or> w = 0 \<or> f = None")
  case False
  assume inv: "router_inv R"
  have "route_ok (case map_of (rt_publishers R) s of Some r \<Rightarrow> r
                  | None \<Rightarrow> PublisherRoute_new (rt_nackCapacity R))"
    using router_invD [OF inv] by (auto split: option.split)
  then show ?thesis
    using False inv unfolding AddSubscriber_def Let_def
    by (auto intro!: router_inv_update simp: route_ok_def)
qed (auto simp: AddSubscriber_def)

lemma router_inv_Remove: "router_inv R \<Longrightarrow> router_inv (RemoveSubscribers s R)"
  by (auto simp: RemoveSubscribers_def intro!: router_inv_update
      dest: router_invD split: option.split) (auto dest: router_invD simp: route_ok_def)

lemma router_inv_Route: "router_inv R \<Longrightarrow> router_inv (fst (snd (Route p R)))"
  by (auto simp: Route_def Let_def intro!: router_inv_update dest: router_invD split: option.split)
    (auto dest!: router_invD simp: route_ok_def nackbuf.inv_store)

text \<open>The states a router can reach from its constructor by calls of its methods.\<close>

inductive router_step :: "'f RtpRouter \<Rightarrow> 'f RtpRouter \<Rightarrow> bool" where
  register: "router_step R (snd (RegisterPublisher s R))"
| unregister: "router_step R (UnregisterPublisher s R)"
| add: "router_step R (snd (AddSubscriber s w f R))"
| remove: "router_step R (RemoveSubscribers s R)"
| route: "router_step R (fst (snd (Route p R)))"

lemma router_step_inv: "router_step R R' \<Longrightarrow> router_inv R \<Longrightarrow> router_inv R'"
  by (induction rule: router_step.induct)
    (simp_all add: router_inv_Register router_inv_Unregister router_inv_Add router_inv_Remove
      router_inv_Route)

interpretation router: state_machine "\<lambda>R. \<exists>c. R = RtpRouter_new c" router_step router_inv
  by unfold_locales (auto intro: router_step_inv)

lemma router_reachable_inv: "router_step\<^sup>*\<^sup>* (RtpRouter_new c) R \<Longrightarrow> router_inv R"
  by (rule router.reachable_inv) blast+

section \<open>Routing\<close>

lemma forward_all_eq:
  "(\<forall>sub \<in> set subs. sub_forward sub \<noteq> None) \<Longrightarrow>
     forward_all subs packet =
       map (\<lambda>sub. (the (sub_forward sub), RewriteSsrc (sub_rewrittenSsrc sub) packet)) subs"
  by (induction subs) auto

lemma Route_hit:
  assumes "rtp_parse packet = Some p" "map_of (rt_publishers R) (rtp_ssrc (pkt_header p)) = Some r"
  shows "Route packet R =
    (True,
     R\<lparr>rt_publishers := AList.update (rtp_ssrc (pkt_header p))
         (r\<lparr>route_nack := NackBuffer_Store (rtp_sequence (pkt_header p)) packet (route_nack r)\<rparr>)
         (rt_publishers R)\<rparr>,
     forward_all (route_subscribers r) packet)"
  using assms by (simp add: Route_def Let_def)

text \<open>
  C24. In every state the router can reach: a valid RTP packet of a registered source is
  delivered exactly once to each subscriber of that source, in subscription order; each copy carries
  the subscriber's SSRC in bytes 8 to 11, in network order, and every other byte unchanged. A packet that
  does not parse, or whose source is not registered, is refused and leaves the router as it
  was, with nothing forwarded.
\<close>

theorem Route_delivers:
  assumes "router_step\<^sup>*\<^sup>* (RtpRouter_new c) R" "Route packet R = (ok, R', out)"
  shows "if ok
    then \<exists>p r. rtp_parse packet = Some p \<and>
       map_of (rt_publishers R) (rtp_ssrc (pkt_header p)) = Some r \<and>
       map (\<lambda>(f, q). Some f) out = map sub_forward (route_subscribers r) \<and>
       map (\<lambda>(f, q). be32 (q ! 8) (q ! 9) (q ! 10) (q ! 11)) out = map sub_rewrittenSsrc (route_subscribers r) \<and>
       (\<forall>(f, q) \<in> set out. length q = length packet \<and> take 8 q = take 8 packet \<and> drop 12 q = drop 12 packet)
    else R' = R \<and> out = [] \<and>
       (\<forall>p. rtp_parse packet = Some p \<longrightarrow> map_of (rt_publishers R) (rtp_ssrc (pkt_header p)) = None)"
proof -
  have inv: "router_inv R" using assms(1) by (rule router_reachable_inv)
  have all: "\<forall>sub \<in> set (route_subscribers r). sub_forward sub \<noteq> None"
    if "map_of (rt_publishers R) s = Some r" for s r
    using router_invD [OF inv that] by (simp add: route_ok_def)
  show ?thesis
  proof (cases ok)
    case True
    then obtain p r where p: "rtp_parse packet = Some p" and r: "map_of (rt_publishers R) (rtp_ssrc (pkt_header p)) = Some r"
      using assms(2) by (auto simp: Route_def Let_def split: option.splits)
    have out: "out = map (\<lambda>sub. (the (sub_forward sub), RewriteSsrc (sub_rewrittenSsrc sub) packet)) (route_subscribers r)"
      using assms(2) Route_hit [OF p r] forward_all_eq [OF all [OF r]] by simp
    have "12 \<le> length packet" using p by (auto elim: rtp_parse_Some)
    then have "map (\<lambda>(f, q). be32 (q ! 8) (q ! 9) (q ! 10) (q ! 11)) out = map sub_rewrittenSsrc (route_subscribers r)"
      by (simp add: out RewriteSsrc_ssrc)
    moreover have "map (\<lambda>(f, q). Some f) out = map sub_forward (route_subscribers r)"
      using all [OF r] by (simp add: out)
    ultimately show ?thesis using True p r by (auto simp: out RewriteSsrc_around)
  next
    case False
    then show ?thesis using assms(2) by (auto simp: Route_def Let_def split: option.splits)
  qed
qed

text \<open>
  What has been routed can be retransmitted: after a packet of at most 1600 bytes has
  been routed, a retransmission request for its source and sequence number returns exactly
  the packet that came in, and requests for other sources find what they found before.
\<close>

theorem Route_then_retransmit:
  assumes "router_step\<^sup>*\<^sup>* (RtpRouter_new c) R" "Route packet R = (True, R', out)"
    and "rtp_parse packet = Some p" "length packet \<le> 1600"
  shows "GetRetransmitPacket (rtp_ssrc (pkt_header p)) (rtp_sequence (pkt_header p)) R' = Some packet \<and>
    (\<forall>s q. s \<noteq> rtp_ssrc (pkt_header p) \<longrightarrow> GetRetransmitPacket s q R' = GetRetransmitPacket s q R)"
proof -
  have inv: "router_inv R" using assms(1) by (rule router_reachable_inv)
  obtain r where r: "map_of (rt_publishers R) (rtp_ssrc (pkt_header p)) = Some r"
    using assms(2,3) by (auto simp: Route_def split: option.splits)
  have R': "R' = R\<lparr>rt_publishers := AList.update (rtp_ssrc (pkt_header p))
      (r\<lparr>route_nack := NackBuffer_Store (rtp_sequence (pkt_header p)) packet (route_nack r)\<rparr>)
      (rt_publishers R)\<rparr>"
    using assms(2) Route_hit [OF assms(3) r] by simp
  have "nack_accepts (route_nack r) packet" and "nack_inv (route_nack r)"
    using router_invD [OF inv r] assms(3,4)
    by (auto simp: nack_accepts_def route_ok_def elim: rtp_parse_Some)
  then show ?thesis
    unfolding R' GetRetransmitPacket_def by (simp add: table_simps nackbuf.fetch_store_same)
qed

section \<open>Instances\<close>

text \<open>A router with one source, 9, and one subscriber, and a packet of that source.\<close>

definition demo_router :: "nat RtpRouter" where
  "demo_router = snd (AddSubscriber 9 5 (Some 1) (snd (RegisterPublisher 9 (RtpRouter_new 4))))"

definition demo_packet :: bytes where
  "demo_packet = [0x80, 0x60, 0, 7, 0, 0, 0, 1, 0, 0, 0, 9, 0xAB]"

lemma demo_router_reachable: "router_step\<^sup>*\<^sup>* (RtpRouter_new 4) demo_router"
  unfolding demo_router_def
  by (rule rtranclp.rtrancl_into_rtrancl [OF rtranclp.rtrancl_into_rtrancl [OF rtranclp.rtrancl_refl]])
    (rule router_step.register router_step.add)+

lemma demo_packet_parse:
  obtains p where "rtp_parse demo_packet = Some p" "rtp_ssrc (pkt_header p) = 9"
    "rtp_sequence (pkt_header p) = 7"
  by (simp add: demo_packet_def rtp_parse_def RtpParser_Parse_def kMinHeaderSize_def
      skip_extension_def trim_padding_def be32_def be16_def)

lemma demo_route:
  "fst (Route demo_packet demo_router) \<and>
   snd (snd (Route demo_packet demo_router)) = [(1, RewriteSsrc 5 demo_packet)]"
proof -
  obtain p where p: "rtp_parse demo_packet = Some p" "rtp_ssrc (pkt_header p) = 9"
    by (rule demo_packet_parse)
  then show ?thesis
    by (simp add: Route_def Let_def demo_router_def AddSubscriber_def RegisterPublisher_def
        RtpRouter_new_def PublisherRoute_new_def)
qed

theorem Route_delivers_witness:
  "\<exists>q R'. Route demo_packet demo_router = (True, R', [(1, q)]) \<and> be32 (q ! 8) (q ! 9) (q ! 10) (q ! 11) = 5 \<and>
     take 8 q = take 8 demo_packet \<and> drop 12 q = drop 12 demo_packet"
proof -
  obtain R' where r: "Route demo_packet demo_router = (True, R', [(1, RewriteSsrc 5 demo_packet)])"
    using demo_route by (cases "Route demo_packet demo_router") auto
  obtain p where p: "rtp_parse demo_packet = Some p" "rtp_ssrc (pkt_header p) = 9" by (rule demo_packet_parse)
  have "map_of (rt_publishers demo_router) 9 = Some s \<Longrightarrow> map sub_rewrittenSsrc (route_subscribers s) = [5]" for s
    by (auto simp: demo_router_def AddSubscriber_def RegisterPublisher_def RtpRouter_new_def PublisherRoute_new_def)
  then show ?thesis
    using Route_delivers [OF demo_router_reachable r] r p by auto
qed

theorem Route_then_retransmit_witness:
  "GetRetransmitPacket 9 7 (fst (snd (Route demo_packet demo_router))) = Some demo_packet"
proof -
  obtain p where p: "rtp_parse demo_packet = Some p" "rtp_ssrc (pkt_header p) = 9"
    "rtp_sequence (pkt_header p) = 7" by (rule demo_packet_parse)
  obtain R' out where r: "Route demo_packet demo_router = (True, R', out)"
    using demo_route by (cases "Route demo_packet demo_router") auto
  have "length demo_packet \<le> 1600" by (simp add: demo_packet_def)
  then show ?thesis
    using Route_then_retransmit [OF demo_router_reachable r p(1)] p r by simp
qed

end
