(* ===== verification/RtcpHandler.thy ===== *)
theory RtcpHandler
  imports Prelude
begin

text \<open>
  The RTCP parsers of the media server (\<open>meeting-server/sfu/rtp/RtcpHandler.h\<close>, \<open>.cpp\<close>). As
  in the RTP parser, \<open>None\<close> is a read outside the packet. \<open>ParseCompound\<close> is the loop over the
  sub-packets of a compound packet; the other parsers run it and decode the sub-packets of
  their kind. A sub-packet is referred to by its offset and size in the compound packet.
\<close>

datatype RtcpType = SR | RR | RTPFB | PSFB | RtcpUnknown

record RtcpPacketSummary =
  rp_type :: RtcpType
  rp_fmt :: u8
  rp_lengthWords :: u16
  rp_senderSsrc :: u32
  rp_offset :: nat
  rp_packetSize :: nat

record RtcpReceptionReport =
  rr_packetType :: RtcpType
  rr_reporterSsrc :: u32
  rr_sourceSsrc :: u32
  rr_fractionLost :: u8
  rr_cumulativeLost :: int
  rr_highestSeq :: u32
  rr_jitter :: u32
  rr_lastSenderReport :: u32
  rr_delaySinceLastSenderReport :: u32

record RtcpSenderReport =
  sr_senderSsrc :: u32
  sr_ntpTimestamp :: u64
  sr_rtpTimestamp :: u32
  sr_packetCount :: u32
  sr_octetCount :: u32

record RtcpNackFeedback =
  nk_senderSsrc :: u32
  nk_mediaSsrc :: u32
  nk_lostSequences :: "u16 list"

record RtcpPliFeedback =
  pli_senderSsrc :: u32
  pli_mediaSsrc :: u32

record RtcpRembFeedback =
  rb_senderSsrc :: u32
  rb_mediaSsrc :: u32
  rb_bitrateExp :: u8
  rb_bitrateMantissa :: u32
  rb_bitrateBps :: u32
  rb_targetSsrcs :: "u32 list"

definition ReadS24 :: "bytes \<Rightarrow> nat \<Rightarrow> int mem" where
  "ReadS24 d p = do {
     value \<leftarrow> ReadU24 d p;
     let value = (if value AND 0x00800000 \<noteq> 0 then value OR 0xFF000000 else value);
     Some (sint value) }"

definition ToRtcpType :: "u8 \<Rightarrow> RtcpType" where
  "ToRtcpType pt = (if pt = 200 then SR else if pt = 201 then RR
     else if pt = 205 then RTPFB else if pt = 206 then PSFB else RtcpUnknown)"

text \<open>One iteration of the loop of \<open>ParseCompound\<close>: the sub-packet at \<open>offset\<close>, or a break.\<close>

definition compound_packet :: "bytes \<Rightarrow> nat \<Rightarrow> RtcpPacketSummary option mem" where
  "compound_packet data offset = do {
     vpc \<leftarrow> byte_at data offset;
     let version = drop_bit 6 vpc AND 0x03;
     if version \<noteq> 2 then Some None
     else do {
       let fmt = vpc AND 0x1F;
       pt \<leftarrow> byte_at data (offset + 1);
       lengthWords \<leftarrow> ReadU16 data (offset + 2);
       let packetSize = (unat lengthWords + 1) * 4;
       if packetSize < 4 \<or> offset + packetSize > length data then Some None
       else do {
         senderSsrc \<leftarrow> (if packetSize \<ge> 8 then ReadU32 data (offset + 4) else Some 0);
         Some (Some \<lparr> rp_type = ToRtcpType pt, rp_fmt = fmt, rp_lengthWords = lengthWords,
           rp_senderSsrc = senderSsrc, rp_offset = offset, rp_packetSize = packetSize \<rparr>) } } }"

lemma compound_packet_size:
  "compound_packet data offset = Some (Some p) \<Longrightarrow>
     rp_offset p = offset \<and> 4 \<le> rp_packetSize p \<and> offset + rp_packetSize p \<le> length data"
  by (auto simp: compound_packet_def Let_def split: bind_splits if_splits)

function compound_from :: "bytes \<Rightarrow> nat \<Rightarrow> RtcpPacketSummary list mem" where
  "compound_from data offset =
     (if offset + 4 \<le> length data then
        (case compound_packet data offset of
           None \<Rightarrow> None
         | Some None \<Rightarrow> Some []
         | Some (Some p) \<Rightarrow> do {
             rest \<leftarrow> compound_from data (offset + rp_packetSize p);
             Some (p # rest) })
      else Some [])"
  by pat_completeness auto
termination
  by (relation "measure (\<lambda>(data, offset). length data - offset)")
    (auto dest!: compound_packet_size)

declare compound_from.simps [simp del]

definition ParseCompound :: "bytes \<Rightarrow> RtcpPacketSummary list mem" where
  "ParseCompound data = (if length data < 4 then Some [] else compound_from data 0)"

definition IsNack :: "RtcpPacketSummary \<Rightarrow> bool" where
  "IsNack pkt \<longleftrightarrow> rp_type pkt = RTPFB \<and> rp_fmt pkt = 1"

definition IsPli :: "RtcpPacketSummary \<Rightarrow> bool" where
  "IsPli pkt \<longleftrightarrow> rp_type pkt = PSFB \<and> rp_fmt pkt = 1"

section \<open>Reception reports and sender reports\<close>

definition reception_block :: "bytes \<Rightarrow> RtcpPacketSummary \<Rightarrow> nat \<Rightarrow> RtcpReceptionReport mem" where
  "reception_block data packet blockOffset = do {
     sourceSsrc \<leftarrow> ReadU32 data blockOffset;
     fractionLost \<leftarrow> byte_at data (blockOffset + 4);
     cumulativeLost \<leftarrow> ReadS24 data (blockOffset + 5);
     highestSeq \<leftarrow> ReadU32 data (blockOffset + 8);
     jitter \<leftarrow> ReadU32 data (blockOffset + 12);
     lastSenderReport \<leftarrow> ReadU32 data (blockOffset + 16);
     delaySince \<leftarrow> ReadU32 data (blockOffset + 20);
     Some \<lparr> rr_packetType = rp_type packet, rr_reporterSsrc = rp_senderSsrc packet,
       rr_sourceSsrc = sourceSsrc, rr_fractionLost = fractionLost,
       rr_cumulativeLost = cumulativeLost, rr_highestSeq = highestSeq, rr_jitter = jitter,
       rr_lastSenderReport = lastSenderReport, rr_delaySinceLastSenderReport = delaySince \<rparr> }"

text \<open>The loop over the report blocks: \<open>n\<close> blocks are still to come, the next has index \<open>i\<close>.\<close>

fun reception_blocks ::
  "bytes \<Rightarrow> RtcpPacketSummary \<Rightarrow> nat \<Rightarrow> nat \<Rightarrow> nat \<Rightarrow> RtcpReceptionReport list mem" where
  "reception_blocks data packet baseOffset i 0 = Some []"
| "reception_blocks data packet baseOffset i (Suc n) =
     (let blockOffset = baseOffset + i * 24 in
      if blockOffset + 24 > rp_offset packet + rp_packetSize packet \<or> blockOffset + 24 > length data
      then Some []
      else do {
        report \<leftarrow> reception_block data packet blockOffset;
        rest \<leftarrow> reception_blocks data packet baseOffset (i + 1) n;
        Some (report # rest) })"

definition reports_of_packet :: "bytes \<Rightarrow> RtcpPacketSummary \<Rightarrow> RtcpReceptionReport list mem" where
  "reports_of_packet data packet =
     (if rp_type packet \<noteq> RR \<and> rp_type packet \<noteq> SR then Some []
      else
        let reportCount = unat (rp_fmt packet);
            baseOffset = rp_offset packet + (if rp_type packet = SR then 28 else 8)
        in if rp_packetSize packet < baseOffset - rp_offset packet then Some []
           else reception_blocks data packet baseOffset 0 reportCount)"

definition ParseReceptionReports :: "bytes \<Rightarrow> RtcpReceptionReport list mem" where
  "ParseReceptionReports data = do {
     packets \<leftarrow> ParseCompound data;
     mem_concat (reports_of_packet data) packets }"

definition sender_report_of_packet :: "bytes \<Rightarrow> RtcpPacketSummary \<Rightarrow> RtcpSenderReport list mem" where
  "sender_report_of_packet data packet =
     (if rp_type packet \<noteq> SR \<or> rp_packetSize packet < 28 \<or> rp_offset packet + 28 > length data
      then Some []
      else do {
        let body = rp_offset packet + 4;
        senderSsrc \<leftarrow> ReadU32 data body;
        ntpHigh \<leftarrow> ReadU32 data (body + 4);
        ntpLow \<leftarrow> ReadU32 data (body + 8);
        rtpTimestamp \<leftarrow> ReadU32 data (body + 12);
        packetCount \<leftarrow> ReadU32 data (body + 16);
        octetCount \<leftarrow> ReadU32 data (body + 20);
        Some [\<lparr> sr_senderSsrc = senderSsrc,
                sr_ntpTimestamp = push_bit 32 (ucast ntpHigh) OR ucast ntpLow,
                sr_rtpTimestamp = rtpTimestamp, sr_packetCount = packetCount,
                sr_octetCount = octetCount \<rparr>] })"

definition ParseSenderReports :: "bytes \<Rightarrow> RtcpSenderReport list mem" where
  "ParseSenderReports data = do {
     packets \<leftarrow> ParseCompound data;
     mem_concat (sender_report_of_packet data) packets }"

section \<open>Feedback: NACK, PLI and REMB\<close>

text \<open>The sequence numbers one block of a generic NACK reports lost.\<close>

definition nack_sequences :: "u16 \<Rightarrow> u16 \<Rightarrow> u16 list" where
  "nack_sequences pid blp =
     pid # map (\<lambda>bit. pid + of_nat bit + 1)
             (filter (\<lambda>bit. blp AND push_bit bit 1 \<noteq> 0) [0..<16])"

function nack_blocks :: "bytes \<Rightarrow> nat \<Rightarrow> nat \<Rightarrow> u16 list mem" where
  "nack_blocks data fciEnd blockOffset =
     (if blockOffset + 4 \<le> fciEnd then do {
        pid \<leftarrow> ReadU16 data blockOffset;
        blp \<leftarrow> ReadU16 data (blockOffset + 2);
        rest \<leftarrow> nack_blocks data fciEnd (blockOffset + 4);
        Some (nack_sequences pid blp @ rest) }
      else Some [])"
  by pat_completeness auto
termination
  by (relation "measure (\<lambda>(data, fciEnd, blockOffset). fciEnd - blockOffset)") auto

declare nack_blocks.simps [simp del]

definition nack_of_packet :: "bytes \<Rightarrow> RtcpPacketSummary \<Rightarrow> RtcpNackFeedback list mem" where
  "nack_of_packet data packet =
     (if \<not> IsNack packet \<or> rp_packetSize packet < 12 \<or>
         rp_offset packet + rp_packetSize packet > length data
      then Some []
      else do {
        let body = rp_offset packet + 4;
        senderSsrc \<leftarrow> ReadU32 data body;
        mediaSsrc \<leftarrow> ReadU32 data (body + 4);
        let fciOffset = rp_offset packet + 12;
        let fciEnd = rp_offset packet + rp_packetSize packet;
        lostSequences \<leftarrow> nack_blocks data fciEnd fciOffset;
        Some (if lostSequences \<noteq> []
              then [\<lparr> nk_senderSsrc = senderSsrc, nk_mediaSsrc = mediaSsrc,
                      nk_lostSequences = lostSequences \<rparr>]
              else []) })"

definition ParseNackFeedback :: "bytes \<Rightarrow> RtcpNackFeedback list mem" where
  "ParseNackFeedback data = do {
     packets \<leftarrow> ParseCompound data;
     mem_concat (nack_of_packet data) packets }"

definition pli_of_packet :: "bytes \<Rightarrow> RtcpPacketSummary \<Rightarrow> RtcpPliFeedback list mem" where
  "pli_of_packet data packet =
     (if \<not> IsPli packet \<or> rp_packetSize packet < 12 \<or>
         rp_offset packet + rp_packetSize packet > length data
      then Some []
      else do {
        let body = rp_offset packet + 4;
        senderSsrc \<leftarrow> ReadU32 data body;
        mediaSsrc \<leftarrow> ReadU32 data (body + 4);
        Some [\<lparr> pli_senderSsrc = senderSsrc, pli_mediaSsrc = mediaSsrc \<rparr>] })"

definition ParsePliFeedback :: "bytes \<Rightarrow> RtcpPliFeedback list mem" where
  "ParsePliFeedback data = do {
     packets \<leftarrow> ParseCompound data;
     mem_concat (pli_of_packet data) packets }"

text \<open>The bit rate of a REMB message: the mantissa shifted in 64 bits, capped to 32 bits.\<close>

definition remb_bitrate :: "u8 \<Rightarrow> u32 \<Rightarrow> u32" where
  "remb_bitrate bitrateExp bitrateMantissa =
     (let bitrate = push_bit (unat bitrateExp) (ucast bitrateMantissa :: u64)
      in if bitrate > 0xFFFFFFFF then 0xFFFFFFFF else ucast bitrate)"

definition remb_of_packet :: "bytes \<Rightarrow> RtcpPacketSummary \<Rightarrow> RtcpRembFeedback list mem" where
  "remb_of_packet data packet =
     (if rp_type packet \<noteq> PSFB \<or> rp_fmt packet \<noteq> 15 \<or> rp_packetSize packet < 20 \<or>
         rp_offset packet + rp_packetSize packet > length data
      then Some []
      else do {
        let body = rp_offset packet + 4;
        let fci = body + 8;
        c0 \<leftarrow> byte_at data fci; c1 \<leftarrow> byte_at data (fci + 1);
        c2 \<leftarrow> byte_at data (fci + 2); c3 \<leftarrow> byte_at data (fci + 3);
        if [c0, c1, c2, c3] \<noteq> [0x52, 0x45, 0x4D, 0x42] then Some []
        else do {
          ssrcCount \<leftarrow> byte_at data (fci + 4);
          let requiredBytes = 20 + unat ssrcCount * 4;
          if rp_packetSize packet < requiredBytes then Some []
          else do {
            senderSsrc \<leftarrow> ReadU32 data body;
            mediaSsrc \<leftarrow> ReadU32 data (body + 4);
            f5 \<leftarrow> byte_at data (fci + 5); f6 \<leftarrow> byte_at data (fci + 6); f7 \<leftarrow> byte_at data (fci + 7);
            let bitrateExp = drop_bit 2 f5 AND 0x3F;
            let bitrateMantissa =
              push_bit 16 (ucast (f5 AND 0x03)) OR push_bit 8 (ucast f6) OR ucast f7;
            targetSsrcs \<leftarrow> mem_concat (\<lambda>i. map_option (\<lambda>s. [s]) (ReadU32 data (fci + 8 + i * 4)))
                             [0..<unat ssrcCount];
            Some (if targetSsrcs \<noteq> []
                  then [\<lparr> rb_senderSsrc = senderSsrc, rb_mediaSsrc = mediaSsrc,
                          rb_bitrateExp = bitrateExp, rb_bitrateMantissa = bitrateMantissa,
                          rb_bitrateBps = remb_bitrate bitrateExp bitrateMantissa,
                          rb_targetSsrcs = targetSsrcs \<rparr>]
                  else []) } } })"

definition ParseRembFeedback :: "bytes \<Rightarrow> RtcpRembFeedback list mem" where
  "ParseRembFeedback data = do {
     packets \<leftarrow> ParseCompound data;
     mem_concat (remb_of_packet data) packets }"

section \<open>The compound loop: memory safety and tiling\<close>

lemma compound_packet_safe: "offset + 4 \<le> length data \<Longrightarrow> compound_packet data offset \<noteq> None"
  by (auto simp: compound_packet_def Let_def split: bind_splits)

lemma compound_from_safe: "compound_from data offset \<noteq> None"
proof (induction data offset rule: compound_from.induct)
  case (1 data offset)
  show ?case
  proof (cases "offset + 4 \<le> length data")
    case True
    then have "compound_packet data offset \<noteq> None" by (rule compound_packet_safe)
    then show ?thesis
      using "1.IH" [OF True] True
      by (subst compound_from.simps) (fastforce split: option.splits bind_splits)
  qed (simp add: compound_from.simps)
qed

text \<open>Sub-packets that lie one after the other, from an offset up to an end.\<close>

fun tiles :: "nat \<Rightarrow> RtcpPacketSummary list \<Rightarrow> nat \<Rightarrow> bool" where
  "tiles off [] e \<longleftrightarrow> off = e"
| "tiles off (p # ps) e \<longleftrightarrow>
     rp_offset p = off \<and> 4 \<le> rp_packetSize p \<and> tiles (off + rp_packetSize p) ps e"

lemma compound_from_tiles:
  "compound_from data offset = Some ps \<Longrightarrow> offset \<le> length data \<Longrightarrow>
     \<exists>e \<le> length data. tiles offset ps e"
proof (induction data offset arbitrary: ps rule: compound_from.induct)
  case (1 data offset)
  show ?case
  proof (cases "offset + 4 \<le> length data \<and> (\<exists>p. compound_packet data offset = Some (Some p))")
    case True
    then obtain p where p: "offset + 4 \<le> length data" "compound_packet data offset = Some (Some p)"
      by auto
    with "1.prems" obtain rest where
      rest: "compound_from data (offset + rp_packetSize p) = Some rest" "ps = p # rest"
      by (subst (asm) compound_from.simps) (auto split: bind_splits)
    then show ?thesis
      using "1.IH" [OF p(1) p(2)] compound_packet_size [OF p(2)] by fastforce
  next
    case False
    then have "ps = []"
      using "1.prems"(1) by (subst (asm) compound_from.simps) (auto split: option.splits if_splits)
    then show ?thesis using "1.prems"(2) by auto
  qed
qed

lemma tiles_end: "tiles off ps e \<Longrightarrow> off + sum_list (map rp_packetSize ps) = e"
  by (induction ps arbitrary: off) (auto simp flip: add.assoc)

lemma tiles_offsets:
  "tiles off ps e \<Longrightarrow>
     map rp_offset ps = map (\<lambda>i. off + sum_list (map rp_packetSize (take i ps))) [0..<length ps]"
proof (induction ps arbitrary: off)
  case (Cons p ps)
  then have "map rp_offset ps =
      map (\<lambda>i. off + rp_packetSize p + sum_list (map rp_packetSize (take i ps))) [0..<length ps]"
    by simp
  with Cons.prems show ?case
    by (simp add: upt_conv_Cons add.assoc comp_def flip: map_Suc_upt del: upt_Suc)
qed simp

lemma tiles_member: "tiles off ps e \<Longrightarrow> p \<in> set ps \<Longrightarrow>
    4 \<le> rp_packetSize p \<and> off \<le> rp_offset p \<and> rp_offset p + rp_packetSize p \<le> e"
proof (induction ps arbitrary: off)
  case (Cons q ps)
  then show ?case
    using tiles_end [of "off + rp_packetSize q" ps e] by fastforce
qed simp

lemma ParseCompound_ok:
  obtains ps e where "ParseCompound data = Some ps" "tiles 0 ps e" "e \<le> length data"
proof -
  obtain ps where "ParseCompound data = Some ps"
    using compound_from_safe [of data 0] by (cases "length data < 4") (auto simp: ParseCompound_def)
  moreover then have "\<exists>e \<le> length data. tiles 0 ps e"
    using compound_from_tiles [of data 0 ps] by (auto simp: ParseCompound_def split: if_splits)
  ultimately show ?thesis using that by blast
qed

text \<open>
  C35. \<open>ParseCompound\<close> terminates and never reads outside the packet; the sub-packets it
  returns are at least 4 bytes long and tile a prefix of the packet: each starts where the
  one before it ends, the first at offset 0, and together they are no longer than the packet.
\<close>

theorem ParseCompound_tiles:
  "\<exists>ps. ParseCompound data = Some ps \<and>
     map rp_offset ps = map (\<lambda>i. sum_list (map rp_packetSize (take i ps))) [0..<length ps] \<and>
     list_all (\<lambda>p. 4 \<le> rp_packetSize p) ps \<and>
     sum_list (map rp_packetSize ps) \<le> length data"
proof -
  obtain ps e where ps: "ParseCompound data = Some ps" "tiles 0 ps e" "e \<le> length data"
    by (rule ParseCompound_ok)
  then show ?thesis
    using tiles_offsets [OF ps(2)] tiles_end [OF ps(2)] tiles_member [OF ps(2)]
    by (auto simp: list_all_iff)
qed

section \<open>Memory safety of the decoders\<close>

text \<open>
  Every decoder runs on the sub-packets of the compound loop: it is safe when it is safe on
  sub-packets that lie inside the packet.
\<close>

lemma decoder_safe:
  assumes "\<And>p. rp_offset p + rp_packetSize p \<le> length data \<Longrightarrow> 4 \<le> rp_packetSize p \<Longrightarrow> f p \<noteq> None"
  shows "(ParseCompound data \<bind> mem_concat f) \<noteq> None"
proof -
  obtain ps e where ps: "ParseCompound data = Some ps" "tiles 0 ps e" "e \<le> length data"
    by (rule ParseCompound_ok)
  have "f p \<noteq> None" if "p \<in> set ps" for p
    using assms [of p] tiles_member [OF ps(2) that] ps(3) by simp
  then show ?thesis
    using ps(1) mem_concat_safe [of ps f] by simp
qed

lemma reception_block_safe: "off + 24 \<le> length data \<Longrightarrow> reception_block data p off \<noteq> None"
  by (simp add: reception_block_def ReadS24_def Let_def)

lemma reception_blocks_safe: "reception_blocks data p base i n \<noteq> None"
proof (induction n arbitrary: i)
  case (Suc n)
  obtain rest where "reception_blocks data p base (i + 1) n = Some rest"
    using Suc.IH by blast
  then show ?case
    by (auto simp: Let_def reception_block_safe split: bind_splits)
qed simp

lemma nack_blocks_safe: "fciEnd \<le> length data \<Longrightarrow> nack_blocks data fciEnd off \<noteq> None"
proof (induction data fciEnd off rule: nack_blocks.induct)
  case (1 data fciEnd off)
  show ?case
  proof (cases "off + 4 \<le> fciEnd")
    case True
    then have "nack_blocks data fciEnd (off + 4) \<noteq> None"
      using "1.prems" by (intro "1.IH") auto
    with True "1.prems" show ?thesis
      by (subst nack_blocks.simps) (auto split: bind_splits)
  qed (simp add: nack_blocks.simps)
qed

lemma remb_targets_safe:
  "base + n * 4 \<le> length data \<Longrightarrow>
     mem_concat (\<lambda>i. map_option (\<lambda>s. [s]) (ReadU32 data (base + i * 4))) [0..<n] \<noteq> None"
  by (intro mem_concat_safe) auto

text \<open>
  None of the five decoders (reception reports, sender reports, NACK, PLI, REMB) reads
  outside the packet, whatever lengths and counts its bytes claim.
\<close>

theorem Rtcp_decoders_memory_safe:
  "ParseReceptionReports data \<noteq> None \<and> ParseSenderReports data \<noteq> None \<and>
   ParseNackFeedback data \<noteq> None \<and> ParsePliFeedback data \<noteq> None \<and> ParseRembFeedback data \<noteq> None"
proof (intro conjI)
  show "ParseReceptionReports data \<noteq> None"
    unfolding ParseReceptionReports_def
    by (rule decoder_safe) (auto simp: reports_of_packet_def Let_def reception_blocks_safe [simplified])
  show "ParseSenderReports data \<noteq> None"
    unfolding ParseSenderReports_def
    by (rule decoder_safe) (simp add: sender_report_of_packet_def Let_def)
  show "ParseNackFeedback data \<noteq> None"
    unfolding ParseNackFeedback_def
    by (rule decoder_safe) (auto simp: nack_of_packet_def Let_def nack_blocks_safe split: bind_splits)
  show "ParsePliFeedback data \<noteq> None"
    unfolding ParsePliFeedback_def
    by (rule decoder_safe) (simp add: pli_of_packet_def Let_def)
  show "ParseRembFeedback data \<noteq> None"
    unfolding ParseRembFeedback_def
  proof (rule decoder_safe)
    fix p :: RtcpPacketSummary
    assume "rp_offset p + rp_packetSize p \<le> length data"
    then show "remb_of_packet data p \<noteq> None"
      using remb_targets_safe [of "20 + rp_offset p" "unat (data ! (16 + rp_offset p))" data]
      by (auto simp: remb_of_packet_def Let_def split: bind_splits)
  qed
qed

section \<open>What the feedback means\<close>

text \<open>
  A generic NACK block \<open>(PID, BLP)\<close> reports exactly the sequence number PID and, for every
  bit \<open>i\<close> set in BLP, the number \<open>PID + i + 1\<close> (modulo \<open>2 ^ 16\<close>), each once (RFC 4585, 6.2.1).
\<close>

theorem nack_sequences_exact:
  "set (nack_sequences pid blp) = {pid} \<union> {pid + of_nat (i + 1) | i. i < 16 \<and> bit blp i} \<and>
   distinct (nack_sequences pid blp)"
proof
  show "set (nack_sequences pid blp) = {pid} \<union> {pid + of_nat (i + 1) | i. i < 16 \<and> bit blp i}"
    by (auto simp: nack_sequences_def and_exp_eq_0_iff_not_bit algebra_simps)
  have inj: "inj_on (\<lambda>i. pid + of_nat i + (1 :: u16)) {0..<16}"
  proof (rule inj_onI)
    fix x y :: nat
    assume xy: "x \<in> {0..<16}" "y \<in> {0..<16}" "pid + of_nat x + (1 :: u16) = pid + of_nat y + 1"
    then have "(of_nat x :: u16) = of_nat y" by simp
    moreover have "unat (of_nat x :: u16) = x" "unat (of_nat y :: u16) = y"
      using xy(1,2) by (simp_all add: unat_of_nat)
    ultimately show "x = y" by metis
  qed
  have "pid \<noteq> pid + of_nat i + 1" if "i < 16" for i
  proof -
    have "unat (of_nat i + 1 :: u16) = i + 1"
      using that by (simp add: unat_word_ariths unat_of_nat)
    then have "(of_nat i + 1 :: u16) \<noteq> 0" by auto
    then show ?thesis by (simp add: add.assoc)
  qed
  then show "distinct (nack_sequences pid blp)"
    using inj by (auto simp: nack_sequences_def distinct_map intro: inj_on_subset)
qed

lemma remb_bitrate_nat:
  assumes "unat e \<le> 46" "unat m < 2 ^ 18"
  shows "unat (remb_bitrate e m) = min (unat m * 2 ^ unat e) (2 ^ 32 - 1)"
proof -
  let ?b = "push_bit (unat e) (ucast m :: u64)"
  have "unat m * 2 ^ unat e < 2 ^ 18 * 2 ^ 46"
    using assms by (intro mult_less_le_imp_less) (auto intro: power_increasing simp del: power_numeral)
  then have b: "unat ?b = unat m * 2 ^ unat e"
    using assms unfolding unsigned_push_bit_eq by (simp add: push_bit_eq_mult unsigned_ucast_eq take_bit_nat_eq_self)
  then have "?b > 0xFFFFFFFF \<longleftrightarrow> unat m * 2 ^ unat e > 2 ^ 32 - 1"
    by (simp add: word_less_nat_alt)
  then show ?thesis
    using b by (auto simp: remb_bitrate_def Let_def min_def unsigned_ucast_eq take_bit_nat_eq_self)
qed

text \<open>
  The bit rate decoded from a REMB message is \<open>mantissa * 2 ^ exponent\<close>, saturated to
  32 bits, for every exponent up to 46. Beyond that the 64-bit shift of the code loses the
  high bits before the saturation test (see \<open>remb_bitrate_wraps\<close>).
\<close>

theorem remb_bitrate_saturates:
  assumes "unat e \<le> 46" "unat m < 2 ^ 18"
  shows "unat (remb_bitrate e m) = min (unat m * 2 ^ unat e) (2 ^ 32 - 1)"
  using assms by (rule remb_bitrate_nat)

theorem remb_bitrate_saturates_witness:
  "unat (remb_bitrate 3 200000) = 1600000 \<and> unat (remb_bitrate 40 1) = 2 ^ 32 - 1"
  using remb_bitrate_saturates [of 3 200000] remb_bitrate_saturates [of 40 1] by simp

text \<open>
  With exponent 63 and mantissa 2 the announced rate is \<open>2 ^ 64\<close> bits per second, but the
  code decodes it as 0: the shift wraps around before the saturation test.
\<close>

theorem remb_bitrate_wraps: "remb_bitrate 63 2 = 0 \<and> (2::nat) * 2 ^ 63 > 2 ^ 32 - 1"
  by (simp add: remb_bitrate_def)

end
