(* ===== verification/Room.thy ===== *)
theory Room
  imports Prelude
begin

text \<open>
  The rooms of the media server (\<open>meeting-server/sfu/room/\<close>): \<open>Publisher\<close>, \<open>Subscriber\<close> and
  \<open>Room\<close>. Publishers and subscribers are held by value under the user id: the maps never hold
  a null pointer, because the two adding methods refuse one (\<open>None\<close> here), so the null tests
  of the loops have no counterpart. Every method takes the room's lock for its whole access to
  the maps, so it is one step of the model. A method that returns a flag returns it with the
  new room.
\<close>

record Publisher =
  pub_userId :: string
  pub_audioSsrc :: u32
  pub_videoSsrc :: u32

record Subscriber =
  sbs_userId :: string
  sbs_endpoint :: string
  sbs_audioEndpoint :: string
  sbs_videoEndpoint :: string
  sbs_audioSsrc :: u32
  sbs_videoSsrc :: u32

definition Publisher_new :: "string \<Rightarrow> u32 \<Rightarrow> u32 \<Rightarrow> Publisher" where
  "Publisher_new userId audioSsrc videoSsrc =
     \<lparr> pub_userId = userId, pub_audioSsrc = audioSsrc, pub_videoSsrc = videoSsrc \<rparr>"

definition Publisher_Empty :: "Publisher \<Rightarrow> bool" where
  "Publisher_Empty p \<longleftrightarrow> pub_userId p = []"

definition Subscriber_new :: "string \<Rightarrow> string \<Rightarrow> u32 \<Rightarrow> u32 \<Rightarrow> Subscriber" where
  "Subscriber_new userId endpoint audioSsrc videoSsrc =
     \<lparr> sbs_userId = userId, sbs_endpoint = endpoint, sbs_audioEndpoint = [], sbs_videoEndpoint = [],
       sbs_audioSsrc = audioSsrc, sbs_videoSsrc = videoSsrc \<rparr>"

definition Subscriber_Empty :: "Subscriber \<Rightarrow> bool" where
  "Subscriber_Empty s \<longleftrightarrow> sbs_userId s = []"

record Room =
  room_meetingId :: string
  room_maxPublishers :: nat
  room_publishers :: "(string, Publisher) umap"
  room_subscribers :: "(string, Subscriber) umap"

definition Room_new :: "string \<Rightarrow> nat \<Rightarrow> Room" where
  "Room_new meetingId maxPublishers =
     \<lparr> room_meetingId = meetingId, room_maxPublishers = maxPublishers,
       room_publishers = [], room_subscribers = [] \<rparr>"

definition Room_PublisherCount :: "Room \<Rightarrow> nat" where
  "Room_PublisherCount r = length (room_publishers r)"

definition Room_SubscriberCount :: "Room \<Rightarrow> nat" where
  "Room_SubscriberCount r = length (room_subscribers r)"

definition Room_AddPublisher :: "Publisher option \<Rightarrow> Room \<Rightarrow> bool \<times> Room" where
  "Room_AddPublisher publisher r =
     (case publisher of
        None \<Rightarrow> (False, r)
      | Some p \<Rightarrow>
          if Publisher_Empty p then (False, r)
          else if map_of (room_publishers r) (pub_userId p) \<noteq> None
          then (True, r\<lparr>room_publishers := AList.update (pub_userId p) p (room_publishers r)\<rparr>)
          else if room_maxPublishers r \<noteq> 0 \<and> length (room_publishers r) \<ge> room_maxPublishers r
          then (False, r)
          else (True, r\<lparr>room_publishers := AList.update (pub_userId p) p (room_publishers r)\<rparr>))"

definition Room_RemovePublisher :: "string \<Rightarrow> Room \<Rightarrow> bool \<times> Room" where
  "Room_RemovePublisher userId r =
     (if userId = [] then (False, r)
      else (map_of (room_publishers r) userId \<noteq> None,
            r\<lparr>room_publishers := AList.delete userId (room_publishers r)\<rparr>))"

definition Room_GetPublisher :: "string \<Rightarrow> Room \<Rightarrow> Publisher option" where
  "Room_GetPublisher userId r = (if userId = [] then None else map_of (room_publishers r) userId)"

text \<open>The search loop: the first publisher, in iteration order, one of whose SSRCs matches.\<close>

fun find_ssrc :: "u32 \<Rightarrow> (string, Publisher) umap \<Rightarrow> (Publisher \<times> string) option" where
  "find_ssrc ssrc [] = None"
| "find_ssrc ssrc ((userId, publisher) # rest) =
     (if pub_audioSsrc publisher = ssrc \<or> pub_videoSsrc publisher = ssrc
      then Some (publisher, userId) else find_ssrc ssrc rest)"

definition Room_FindPublisherBySsrc :: "u32 \<Rightarrow> Room \<Rightarrow> (Publisher \<times> string) option" where
  "Room_FindPublisherBySsrc ssrc r = (if ssrc = 0 then None else find_ssrc ssrc (room_publishers r))"

text \<open>Both overloads of \<open>KeysOf\<close>.\<close>

definition KeysOf :: "(string, 'v) umap \<Rightarrow> string list" where
  "KeysOf values = sort (map fst values)"

definition Room_GetPublisherIds :: "Room \<Rightarrow> string list" where
  "Room_GetPublisherIds r = KeysOf (room_publishers r)"

definition Room_SnapshotPublishers :: "Room \<Rightarrow> Publisher list" where
  "Room_SnapshotPublishers r = map snd (room_publishers r)"

definition Room_AddSubscriber :: "Subscriber option \<Rightarrow> Room \<Rightarrow> bool \<times> Room" where
  "Room_AddSubscriber subscriber r =
     (case subscriber of
        None \<Rightarrow> (False, r)
      | Some s \<Rightarrow>
          if Subscriber_Empty s then (False, r)
          else (True, r\<lparr>room_subscribers := AList.update (sbs_userId s) s (room_subscribers r)\<rparr>))"

definition Room_RemoveSubscriber :: "string \<Rightarrow> Room \<Rightarrow> bool \<times> Room" where
  "Room_RemoveSubscriber userId r =
     (if userId = [] then (False, r)
      else (map_of (room_subscribers r) userId \<noteq> None,
            r\<lparr>room_subscribers := AList.delete userId (room_subscribers r)\<rparr>))"

definition Room_GetSubscriber :: "string \<Rightarrow> Room \<Rightarrow> Subscriber option" where
  "Room_GetSubscriber userId r = (if userId = [] then None else map_of (room_subscribers r) userId)"

definition Room_GetSubscriberIds :: "Room \<Rightarrow> string list" where
  "Room_GetSubscriberIds r = KeysOf (room_subscribers r)"

definition Room_SnapshotSubscribers :: "Room \<Rightarrow> Subscriber list" where
  "Room_SnapshotSubscribers r = map snd (room_subscribers r)"

definition Room_RemoveParticipant :: "string \<Rightarrow> Room \<Rightarrow> bool \<times> Room" where
  "Room_RemoveParticipant userId r =
     (if userId = [] then (False, r)
      else
        let pubRemoved = (map_of (room_publishers r) userId \<noteq> None);
            subRemoved = (map_of (room_subscribers r) userId \<noteq> None)
        in (pubRemoved \<or> subRemoved,
            r\<lparr>room_publishers := AList.delete userId (room_publishers r),
              room_subscribers := AList.delete userId (room_subscribers r)\<rparr>))"

definition Room_Clear :: "Room \<Rightarrow> Room" where
  "Room_Clear r = r\<lparr>room_publishers := [], room_subscribers := []\<rparr>"

text \<open>
  The setters of \<open>Subscriber\<close>, called through the pointer \<open>Room::GetSubscriber\<close> returns:
  the subscriber in the room changes.
\<close>

definition Room_ModifySubscriber :: "string \<Rightarrow> (Subscriber \<Rightarrow> Subscriber) \<Rightarrow> Room \<Rightarrow> Room" where
  "Room_ModifySubscriber userId f r =
     (case Room_GetSubscriber userId r of
        None \<Rightarrow> r
      | Some s \<Rightarrow> r\<lparr>room_subscribers := AList.update userId (f s) (room_subscribers r)\<rparr>)"

section \<open>The invariant of a room\<close>

text \<open>A map that files every value under its own, non-empty key.\<close>

definition filed :: "('v \<Rightarrow> string) \<Rightarrow> (string, 'v) umap \<Rightarrow> bool" where
  "filed key m \<longleftrightarrow> um_ok m \<and> (\<forall>u v. map_of m u = Some v \<longrightarrow> u \<noteq> [] \<and> key v = u)"

lemma filed_Nil [simp]: "filed key []"
  by (simp add: filed_def)

lemma filed_update: "filed key m \<Longrightarrow> key v \<noteq> [] \<Longrightarrow> key v = u \<Longrightarrow> filed key (AList.update u v m)"
  by (simp add: filed_def table_simps)

lemma filed_delete: "filed key m \<Longrightarrow> filed key (AList.delete u m)"
  by (simp add: filed_def table_simps)

lemma filedD: "filed key m \<Longrightarrow> map_of m u = Some v \<Longrightarrow> u \<noteq> [] \<and> key v = u"
  by (simp add: filed_def)

lemma filed_ok: "filed key m \<Longrightarrow> um_ok m"
  by (simp add: filed_def)

definition room_inv :: "Room \<Rightarrow> bool" where
  "room_inv r \<longleftrightarrow> filed pub_userId (room_publishers r) \<and> filed sbs_userId (room_subscribers r) \<and>
     (room_maxPublishers r = 0 \<or> length (room_publishers r) \<le> room_maxPublishers r)"

lemma room_inv_new [simp]: "room_inv (Room_new m n)"
  by (simp add: room_inv_def Room_new_def)

lemma length_delete_le: "length (AList.delete k m) \<le> length m"
  by (induction m) auto

lemma size_update_absent: "map_of m k = None \<Longrightarrow> length (AList.update k v m) = Suc (length m)"
  by (simp add: um_update_absent)

lemma room_inv_AddPublisher: "room_inv r \<Longrightarrow> room_inv (snd (Room_AddPublisher p r))"
  unfolding Room_AddPublisher_def room_inv_def Publisher_Empty_def
  by (cases p) (auto intro!: filed_update simp: size_update_present size_update_absent)

lemma room_inv_RemovePublisher: "room_inv r \<Longrightarrow> room_inv (snd (Room_RemovePublisher u r))"
  using length_delete_le [of u "room_publishers r"]
  by (auto simp: Room_RemovePublisher_def room_inv_def filed_delete)

lemma room_inv_AddSubscriber: "room_inv r \<Longrightarrow> room_inv (snd (Room_AddSubscriber s r))"
  unfolding Room_AddSubscriber_def room_inv_def Subscriber_Empty_def
  by (cases s) (auto intro!: filed_update)

lemma room_inv_RemoveSubscriber: "room_inv r \<Longrightarrow> room_inv (snd (Room_RemoveSubscriber u r))"
  by (auto simp: Room_RemoveSubscriber_def room_inv_def filed_delete)

lemma room_inv_RemoveParticipant: "room_inv r \<Longrightarrow> room_inv (snd (Room_RemoveParticipant u r))"
  using length_delete_le [of u "room_publishers r"]
  by (auto simp: Room_RemoveParticipant_def Let_def room_inv_def filed_delete)

lemma room_inv_Clear: "room_inv r \<Longrightarrow> room_inv (Room_Clear r)"
  by (simp add: Room_Clear_def room_inv_def)

lemma room_inv_Modify:
  assumes "room_inv r" "\<And>s. sbs_userId (f s) = sbs_userId s"
  shows "room_inv (Room_ModifySubscriber u f r)"
proof (cases "Room_GetSubscriber u r")
  case (Some s)
  then have "u \<noteq> []" "sbs_userId s = u"
    using assms(1) filedD [of sbs_userId "room_subscribers r" u s]
    by (auto simp: room_inv_def Room_GetSubscriber_def split: if_splits)
  then show ?thesis
    using assms Some by (simp add: Room_ModifySubscriber_def room_inv_def filed_update)
qed (simp add: Room_ModifySubscriber_def assms(1))

lemmas room_inv_ops = room_inv_AddPublisher room_inv_RemovePublisher room_inv_AddSubscriber
  room_inv_RemoveSubscriber room_inv_RemoveParticipant room_inv_Clear room_inv_Modify

inductive room_step :: "Room \<Rightarrow> Room \<Rightarrow> bool" where
  add_publisher: "room_step r (snd (Room_AddPublisher p r))"
| remove_publisher: "room_step r (snd (Room_RemovePublisher u r))"
| add_subscriber: "room_step r (snd (Room_AddSubscriber s r))"
| remove_subscriber: "room_step r (snd (Room_RemoveSubscriber u r))"
| remove_participant: "room_step r (snd (Room_RemoveParticipant u r))"
| clear: "room_step r (Room_Clear r)"
| set_endpoint: "room_step r (Room_ModifySubscriber u (sbs_endpoint_update (\<lambda>_. e)) r)"
| set_audio_endpoint: "room_step r (Room_ModifySubscriber u (sbs_audioEndpoint_update (\<lambda>_. e)) r)"
| set_video_endpoint: "room_step r (Room_ModifySubscriber u (sbs_videoEndpoint_update (\<lambda>_. e)) r)"

lemma room_step_inv: "room_step r r' \<Longrightarrow> room_inv r \<Longrightarrow> room_inv r'"
  by (induction rule: room_step.induct) (simp_all add: room_inv_ops)

interpretation one_room: state_machine "\<lambda>r. \<exists>m n. r = Room_new m n" room_step room_inv
  by unfold_locales (auto intro: room_step_inv)

lemma room_reachable_inv: "room_step\<^sup>*\<^sup>* (Room_new m n) r \<Longrightarrow> room_inv r"
  by (rule one_room.reachable_inv) blast+

section \<open>The search by SSRC and the sorted listings\<close>

lemma find_ssrc_sound:
  "find_ssrc ssrc m = Some (p, u) \<Longrightarrow>
     (u, p) \<in> set m \<and> (pub_audioSsrc p = ssrc \<or> pub_videoSsrc p = ssrc)"
  by (induction m) (auto split: if_splits)

lemma find_ssrc_None:
  "find_ssrc ssrc m = None \<longleftrightarrow> (\<forall>(u, p) \<in> set m. pub_audioSsrc p \<noteq> ssrc \<and> pub_videoSsrc p \<noteq> ssrc)"
proof (induction m)
  case (Cons x m)
  then show ?case by (cases x) simp
qed simp

lemma FindPublisher_sound:
  assumes "room_inv r" "Room_FindPublisherBySsrc ssrc r = Some (p, u)"
  shows "ssrc \<noteq> 0 \<and> Room_GetPublisher u r = Some p \<and> pub_userId p = u \<and>
     (pub_audioSsrc p = ssrc \<or> pub_videoSsrc p = ssrc)"
proof -
  have f: "filed pub_userId (room_publishers r)" using assms(1) by (simp add: room_inv_def)
  have "ssrc \<noteq> 0" "find_ssrc ssrc (room_publishers r) = Some (p, u)"
    using assms(2) by (auto simp: Room_FindPublisherBySsrc_def split: if_splits)
  then have "(u, p) \<in> set (room_publishers r)" "pub_audioSsrc p = ssrc \<or> pub_videoSsrc p = ssrc"
    using find_ssrc_sound [of ssrc _ p u] by auto
  moreover from this(1) have "map_of (room_publishers r) u = Some p"
    using um_in_find [OF filed_ok [OF f]] by blast
  ultimately show ?thesis
    using filedD [OF f] \<open>ssrc \<noteq> 0\<close> by (auto simp: Room_GetPublisher_def)
qed

lemma FindPublisher_complete:
  assumes "ssrc \<noteq> 0" "Room_GetPublisher u r = Some p" "pub_audioSsrc p = ssrc \<or> pub_videoSsrc p = ssrc"
  shows "Room_FindPublisherBySsrc ssrc r \<noteq> None"
proof -
  have "(u, p) \<in> set (room_publishers r)"
    using assms(2) by (auto simp: Room_GetPublisher_def split: if_splits dest: map_of_SomeD)
  then have "find_ssrc ssrc (room_publishers r) \<noteq> None"
    using assms(3) find_ssrc_None [of ssrc "room_publishers r"] by blast
  then show ?thesis using assms(1) by (simp add: Room_FindPublisherBySsrc_def)
qed

text \<open>
  In every state a room can reach: every publisher and subscriber is filed under its own,
  non-empty user id, no user twice, and a room with a publisher limit never holds more
  publishers than the limit.
\<close>

theorem Room_reachable_inv:
  assumes "room_step\<^sup>*\<^sup>* (Room_new m n) r"
  shows "room_inv r"
  using assms by (rule room_reachable_inv)

theorem Room_reachable_inv_witness:
  "room_inv (snd (Room_AddPublisher (Some (Publisher_new ''ann'' 1 2)) (Room_new ''m'' 1)))"
  by (rule Room_reachable_inv [of "''m''" 1]) (rule r_into_rtranclp, rule room_step.add_publisher)

text \<open>
  The search by SSRC is sound and complete on every reachable room: for a non-zero SSRC it
  finds a publisher exactly when some publisher of the room has it as its audio or video
  SSRC, and what it finds is such a publisher, under its user id; SSRC 0 finds nothing.
\<close>

theorem FindPublisherBySsrc_correct:
  assumes "room_step\<^sup>*\<^sup>* (Room_new m n) r"
  shows "(Room_FindPublisherBySsrc ssrc r = None \<longleftrightarrow>
      ssrc = 0 \<or> (\<forall>u p. Room_GetPublisher u r = Some p \<longrightarrow> pub_audioSsrc p \<noteq> ssrc \<and> pub_videoSsrc p \<noteq> ssrc)) \<and>
    (\<forall>p u. Room_FindPublisherBySsrc ssrc r = Some (p, u) \<longrightarrow>
      Room_GetPublisher u r = Some p \<and> pub_userId p = u \<and>
      (pub_audioSsrc p = ssrc \<or> pub_videoSsrc p = ssrc))"
proof -
  have inv: "room_inv r" using assms by (rule room_reachable_inv)
  show ?thesis
  proof (cases "Room_FindPublisherBySsrc ssrc r")
    case None
    then show ?thesis using FindPublisher_complete [of ssrc _ r] by auto
  next
    case (Some pu)
    then show ?thesis using FindPublisher_sound [OF inv, of ssrc] by (cases pu) auto
  qed
qed

theorem FindPublisherBySsrc_correct_witness:
  "Room_FindPublisherBySsrc 3 (snd (Room_AddPublisher (Some (Publisher_new ''ann'' 1 2)) (Room_new ''m'' 1))) = None"
proof -
  let ?r = "snd (Room_AddPublisher (Some (Publisher_new ''ann'' 1 2)) (Room_new ''m'' 1))"
  have reach: "room_step\<^sup>*\<^sup>* (Room_new ''m'' 1) ?r"
    by (rule r_into_rtranclp) (rule room_step.add_publisher)
  have "\<forall>u p. Room_GetPublisher u ?r = Some p \<longrightarrow> pub_audioSsrc p \<noteq> 3 \<and> pub_videoSsrc p \<noteq> 3"
    by (auto simp: Room_AddPublisher_def Room_new_def Room_GetPublisher_def Publisher_new_def
        Publisher_Empty_def split: if_splits)
  then show ?thesis using FindPublisherBySsrc_correct [OF reach, of 3] by blast
qed

lemma KeysOf_props: "sorted (KeysOf m)" "set (KeysOf m) = set (map fst m)"
  "um_ok m \<Longrightarrow> distinct (KeysOf m)"
  by (auto simp: KeysOf_def um_ok_def)

end
