(* ===== verification/RoomManager.thy ===== *)
theory RoomManager
  imports Room
begin

text \<open>
  The table of rooms (\<open>meeting-server/sfu/room/RoomManager.cpp\<close>). The shared pointers of the
  map are the rooms themselves: \<open>CreateRoom\<close> never stores a null one, and the callers reach a
  room through the manager and change it before the room can be destroyed, which is
  \<open>RoomManager_ModifyRoom\<close>.
\<close>

record RoomManager =
  rm_rooms :: "(string, Room) umap"

record PublisherLocation =
  loc_room :: Room
  loc_publisher :: Publisher
  loc_userId :: string
  loc_meetingId :: string

definition RoomManager_new :: RoomManager where
  "RoomManager_new = \<lparr> rm_rooms = [] \<rparr>"

text \<open>\<open>emplace\<close> inserts only when the key is absent.\<close>

definition RoomManager_CreateRoom :: "string \<Rightarrow> nat \<Rightarrow> RoomManager \<Rightarrow> bool \<times> RoomManager" where
  "RoomManager_CreateRoom meetingId maxPublishers m =
     (if meetingId = [] \<or> maxPublishers = 0 then (False, m)
      else if map_of (rm_rooms m) meetingId \<noteq> None then (False, m)
      else (True, m\<lparr>rm_rooms := AList.update meetingId (Room_new meetingId maxPublishers) (rm_rooms m)\<rparr>))"

definition RoomManager_DestroyRoom :: "string \<Rightarrow> RoomManager \<Rightarrow> bool \<times> RoomManager" where
  "RoomManager_DestroyRoom meetingId m =
     (if meetingId = [] then (False, m)
      else case map_of (rm_rooms m) meetingId of
        None \<Rightarrow> (False, m)
      | Some _ \<Rightarrow> (True, m\<lparr>rm_rooms := AList.delete meetingId (rm_rooms m)\<rparr>))"

definition RoomManager_RemoveParticipant :: "string \<Rightarrow> string \<Rightarrow> RoomManager \<Rightarrow> bool \<times> RoomManager" where
  "RoomManager_RemoveParticipant meetingId userId m =
     (if meetingId = [] \<or> userId = [] then (False, m)
      else case map_of (rm_rooms m) meetingId of
        None \<Rightarrow> (False, m)
      | Some room \<Rightarrow>
          (let (removed, room') = Room_RemoveParticipant userId room
           in (removed, m\<lparr>rm_rooms := AList.update meetingId room' (rm_rooms m)\<rparr>)))"

text \<open>\<open>GetRoom\<close> and \<open>GetRoomShared\<close> differ in the kind of pointer only.\<close>

definition RoomManager_GetRoomShared :: "string \<Rightarrow> RoomManager \<Rightarrow> Room option" where
  "RoomManager_GetRoomShared meetingId m =
     (if meetingId = [] then None else map_of (rm_rooms m) meetingId)"

definition RoomManager_ModifyRoom :: "string \<Rightarrow> (Room \<Rightarrow> Room) \<Rightarrow> RoomManager \<Rightarrow> RoomManager" where
  "RoomManager_ModifyRoom meetingId f m =
     (case RoomManager_GetRoomShared meetingId m of
        None \<Rightarrow> m
      | Some room \<Rightarrow> m\<lparr>rm_rooms := AList.update meetingId (f room) (rm_rooms m)\<rparr>)"

fun find_room_by_ssrc :: "u32 \<Rightarrow> (string, Room) umap \<Rightarrow> PublisherLocation option" where
  "find_room_by_ssrc ssrc [] = None"
| "find_room_by_ssrc ssrc ((meetingId, room) # rest) =
     (case Room_FindPublisherBySsrc ssrc room of
        Some (publisher, userId) \<Rightarrow>
          Some \<lparr> loc_room = room, loc_publisher = publisher, loc_userId = userId,
                 loc_meetingId = meetingId \<rparr>
      | None \<Rightarrow> find_room_by_ssrc ssrc rest)"

definition RoomManager_FindPublisherBySsrc :: "u32 \<Rightarrow> RoomManager \<Rightarrow> PublisherLocation option" where
  "RoomManager_FindPublisherBySsrc ssrc m =
     (if ssrc = 0 then None else find_room_by_ssrc ssrc (rm_rooms m))"

definition RoomManager_HasRoom :: "string \<Rightarrow> RoomManager \<Rightarrow> bool" where
  "RoomManager_HasRoom meetingId m \<longleftrightarrow> meetingId \<noteq> [] \<and> map_of (rm_rooms m) meetingId \<noteq> None"

definition RoomManager_RoomCount :: "RoomManager \<Rightarrow> nat" where
  "RoomManager_RoomCount m = length (rm_rooms m)"

definition RoomManager_PublisherCount :: "RoomManager \<Rightarrow> nat" where
  "RoomManager_PublisherCount m = (\<Sum>(meetingId, room) \<leftarrow> rm_rooms m. Room_PublisherCount room)"

definition RoomManager_GetRoomIds :: "RoomManager \<Rightarrow> string list" where
  "RoomManager_GetRoomIds m = sort (map fst (rm_rooms m))"

section \<open>The invariant of the table\<close>

text \<open>
  Every room is filed under its own, non-empty meeting id, respects the invariant of a room
  and has a publisher limit.
\<close>

definition manager_inv :: "RoomManager \<Rightarrow> bool" where
  "manager_inv m \<longleftrightarrow> filed room_meetingId (rm_rooms m) \<and>
     (\<forall>u r. map_of (rm_rooms m) u = Some r \<longrightarrow> room_inv r \<and> room_maxPublishers r \<noteq> 0)"

text \<open>The operations on a room keep its identity and its limit.\<close>

definition keeps_room :: "(Room \<Rightarrow> Room) \<Rightarrow> bool" where
  "keeps_room f \<longleftrightarrow> (\<forall>r. room_meetingId (f r) = room_meetingId r \<and>
     room_maxPublishers (f r) = room_maxPublishers r \<and> (room_inv r \<longrightarrow> room_inv (f r)))"

lemma room_step_keeps:
  "room_step r r' \<Longrightarrow> room_meetingId r' = room_meetingId r \<and> room_maxPublishers r' = room_maxPublishers r"
  by (induction rule: room_step.induct)
    (auto simp: Room_AddPublisher_def Room_RemovePublisher_def
      Room_AddSubscriber_def Room_RemoveSubscriber_def Room_RemoveParticipant_def Room_Clear_def
      Room_ModifySubscriber_def Let_def split: option.splits)

lemma keeps_room_step: "(\<And>r. room_step r (f r)) \<Longrightarrow> keeps_room f"
  using room_step_keeps room_step_inv by (meson keeps_room_def)

lemmas keeps_room_ops = room_step.intros [THEN keeps_room_step]

lemma manager_inv_new [simp]: "manager_inv RoomManager_new"
  by (simp add: manager_inv_def RoomManager_new_def)

lemma manager_inv_update:
  assumes "manager_inv m" "room_inv r" "room_meetingId r = u" "u \<noteq> []" "room_maxPublishers r \<noteq> 0"
  shows "manager_inv (m\<lparr>rm_rooms := AList.update u r (rm_rooms m)\<rparr>)"
  using assms by (auto simp: manager_inv_def filed_update table_simps)

lemma manager_inv_CreateRoom: "manager_inv m \<Longrightarrow> manager_inv (snd (RoomManager_CreateRoom i n m))"
  by (auto simp: RoomManager_CreateRoom_def intro!: manager_inv_update) (auto simp: Room_new_def)

lemma manager_inv_DestroyRoom: "manager_inv m \<Longrightarrow> manager_inv (snd (RoomManager_DestroyRoom i m))"
  by (auto simp: RoomManager_DestroyRoom_def manager_inv_def filed_delete table_simps split: option.splits)

lemma manager_inv_ModifyRoom:
  assumes "manager_inv m" "keeps_room f"
  shows "manager_inv (RoomManager_ModifyRoom i f m)"
proof (cases "RoomManager_GetRoomShared i m")
  case (Some r)
  then have "map_of (rm_rooms m) i = Some r"
    by (simp add: RoomManager_GetRoomShared_def split: if_splits)
  then have "room_inv r" "room_meetingId r = i" "i \<noteq> []" "room_maxPublishers r \<noteq> 0"
    using assms(1) filedD [of room_meetingId "rm_rooms m" i r] by (auto simp: manager_inv_def)
  then show ?thesis
    using assms Some manager_inv_update [of m "f r" i] by (simp add: RoomManager_ModifyRoom_def keeps_room_def)
qed (simp add: RoomManager_ModifyRoom_def assms(1))

lemma RemoveParticipant_as_Modify:
  "snd (RoomManager_RemoveParticipant i u m) =
     (if u = [] then m else RoomManager_ModifyRoom i (\<lambda>r. snd (Room_RemoveParticipant u r)) m)"
  by (auto simp: RoomManager_RemoveParticipant_def RoomManager_ModifyRoom_def
      RoomManager_GetRoomShared_def split: option.splits prod.splits)

lemma manager_inv_RemoveParticipant:
  "manager_inv m \<Longrightarrow> manager_inv (snd (RoomManager_RemoveParticipant i u m))"
  by (simp add: RemoveParticipant_as_Modify manager_inv_ModifyRoom keeps_room_ops)

lemmas manager_inv_ops = manager_inv_CreateRoom manager_inv_DestroyRoom manager_inv_ModifyRoom
  manager_inv_RemoveParticipant

inductive manager_step :: "RoomManager \<Rightarrow> RoomManager \<Rightarrow> bool" where
  create: "manager_step m (snd (RoomManager_CreateRoom i n m))"
| destroy: "manager_step m (snd (RoomManager_DestroyRoom i m))"
| remove_participant: "manager_step m (snd (RoomManager_RemoveParticipant i u m))"
| in_room: "(\<And>r. room_step r (f r)) \<Longrightarrow> manager_step m (RoomManager_ModifyRoom i f m)"

lemma manager_step_inv: "manager_step m m' \<Longrightarrow> manager_inv m \<Longrightarrow> manager_inv m'"
proof (induction rule: manager_step.induct)
  case (in_room f m i)
  then show ?case by (simp add: manager_inv_ModifyRoom keeps_room_step)
qed (simp_all add: manager_inv_ops)

interpretation rooms: state_machine "\<lambda>m. m = RoomManager_new" manager_step manager_inv
  by unfold_locales (auto intro: manager_step_inv)

lemma manager_reachable_inv: "manager_step\<^sup>*\<^sup>* RoomManager_new m \<Longrightarrow> manager_inv m"
  by (rule rooms.reachable_inv) simp_all

section \<open>Lookups and counts\<close>

lemma find_room_sound:
  "find_room_by_ssrc ssrc rs = Some l \<Longrightarrow> (loc_meetingId l, loc_room l) \<in> set rs \<and>
     Room_FindPublisherBySsrc ssrc (loc_room l) = Some (loc_publisher l, loc_userId l)"
  by (induction rs) (auto split: option.splits)

lemma find_room_None:
  "find_room_by_ssrc ssrc rs = None \<longleftrightarrow> (\<forall>(i, r) \<in> set rs. Room_FindPublisherBySsrc ssrc r = None)"
  by (induction rs) (auto split: option.splits)

lemma manager_find_sound:
  assumes "manager_inv m" "RoomManager_FindPublisherBySsrc ssrc m = Some l"
  shows "RoomManager_GetRoomShared (loc_meetingId l) m = Some (loc_room l) \<and>
     Room_GetPublisher (loc_userId l) (loc_room l) = Some (loc_publisher l) \<and>
     (pub_audioSsrc (loc_publisher l) = ssrc \<or> pub_videoSsrc (loc_publisher l) = ssrc)"
proof -
  have l: "find_room_by_ssrc ssrc (rm_rooms m) = Some l"
    using assms(2) by (simp add: RoomManager_FindPublisherBySsrc_def split: if_splits)
  have f: "filed room_meetingId (rm_rooms m)" using assms(1) by (simp add: manager_inv_def)
  then have room: "map_of (rm_rooms m) (loc_meetingId l) = Some (loc_room l)"
    using find_room_sound [OF l] um_in_find [OF filed_ok [OF f]] by blast
  moreover have "room_inv (loc_room l)" using room assms(1) by (auto simp: manager_inv_def)
  ultimately show ?thesis
    using FindPublisher_sound [of "loc_room l" ssrc] find_room_sound [OF l] filedD [OF f room]
    by (auto simp: RoomManager_GetRoomShared_def)
qed

lemma manager_find_complete:
  assumes "ssrc \<noteq> 0" "RoomManager_GetRoomShared i m = Some r" "Room_GetPublisher u r = Some p"
    "pub_audioSsrc p = ssrc \<or> pub_videoSsrc p = ssrc"
  shows "RoomManager_FindPublisherBySsrc ssrc m \<noteq> None"
proof -
  have "(i, r) \<in> set (rm_rooms m)"
    using assms(2) by (auto simp: RoomManager_GetRoomShared_def split: if_splits dest: map_of_SomeD)
  then have "find_room_by_ssrc ssrc (rm_rooms m) \<noteq> None"
    using find_room_None [of ssrc "rm_rooms m"] FindPublisher_complete [OF assms(1,3,4)] by fastforce
  then show ?thesis using assms(1) by (simp add: RoomManager_FindPublisherBySsrc_def)
qed

lemma manager_room:
  assumes "manager_inv m" "RoomManager_GetRoomShared i m = Some r"
  shows "room_inv r \<and> room_meetingId r = i \<and> Room_PublisherCount r \<le> room_maxPublishers r"
proof -
  have r: "map_of (rm_rooms m) i = Some r"
    using assms(2) by (simp add: RoomManager_GetRoomShared_def split: if_splits)
  then have "room_inv r" "room_maxPublishers r \<noteq> 0" "room_meetingId r = i"
    using assms(1) filedD [OF _ r, of room_meetingId] by (auto simp: manager_inv_def)
  then show ?thesis by (simp add: room_inv_def Room_PublisherCount_def)
qed

lemma publisher_count_bound:
  "(\<forall>(i, r) \<in> set rs. length (room_publishers r) \<le> n) \<Longrightarrow>
     (\<Sum>(i, r) \<leftarrow> rs. Room_PublisherCount r) \<le> length rs * n"
  by (induction rs) (auto simp: Room_PublisherCount_def)

text \<open>
  In every reachable state of the room table: each room is filed under its own meeting id
  and respects its publisher limit, and the search by SSRC over all rooms finds a publisher
  exactly when some room has one with that non-zero SSRC, together with the room and the ids
  it is filed under.
\<close>

theorem RoomManager_correct:
  assumes "manager_step\<^sup>*\<^sup>* RoomManager_new m"
  shows "(\<forall>i r. RoomManager_GetRoomShared i m = Some r \<longrightarrow>
       room_meetingId r = i \<and> Room_PublisherCount r \<le> room_maxPublishers r) \<and>
    (\<forall>ssrc. (RoomManager_FindPublisherBySsrc ssrc m \<noteq> None) =
       (ssrc \<noteq> 0 \<and> (\<exists>i r u p. RoomManager_GetRoomShared i m = Some r \<and> Room_GetPublisher u r = Some p \<and>
         (pub_audioSsrc p = ssrc \<or> pub_videoSsrc p = ssrc)))) \<and>
    (\<forall>ssrc l. RoomManager_FindPublisherBySsrc ssrc m = Some l \<longrightarrow>
       RoomManager_GetRoomShared (loc_meetingId l) m = Some (loc_room l) \<and>
       Room_GetPublisher (loc_userId l) (loc_room l) = Some (loc_publisher l) \<and>
       (pub_audioSsrc (loc_publisher l) = ssrc \<or> pub_videoSsrc (loc_publisher l) = ssrc))"
proof -
  have inv: "manager_inv m" using assms by (rule manager_reachable_inv)
  have "room_meetingId r = i \<and> Room_PublisherCount r \<le> room_maxPublishers r"
    if "RoomManager_GetRoomShared i m = Some r" for i r
    using manager_room [OF inv that] by simp
  moreover have "(RoomManager_FindPublisherBySsrc ssrc m \<noteq> None) =
       (ssrc \<noteq> 0 \<and> (\<exists>i r u p. RoomManager_GetRoomShared i m = Some r \<and> Room_GetPublisher u r = Some p \<and>
         (pub_audioSsrc p = ssrc \<or> pub_videoSsrc p = ssrc)))" for ssrc
    using manager_find_sound [OF inv, of ssrc] manager_find_complete [of ssrc]
    by (cases "ssrc = 0"; cases "RoomManager_FindPublisherBySsrc ssrc m")
      (simp add: RoomManager_FindPublisherBySsrc_def, simp add: RoomManager_FindPublisherBySsrc_def,
        blast, blast)
  ultimately show ?thesis using manager_find_sound [OF inv] by blast
qed

theorem RoomManager_correct_witness:
  "RoomManager_FindPublisherBySsrc 7 (RoomManager_ModifyRoom ''m'' (\<lambda>r. snd (Room_AddPublisher (Some (Publisher_new ''u'' 7 8)) r))
     (snd (RoomManager_CreateRoom ''m'' 2 RoomManager_new))) \<noteq> None"
proof -
  let ?f = "\<lambda>r. snd (Room_AddPublisher (Some (Publisher_new ''u'' 7 8)) r)"
  let ?m = "RoomManager_ModifyRoom ''m'' ?f (snd (RoomManager_CreateRoom ''m'' 2 RoomManager_new))"
  have "manager_step\<^sup>*\<^sup>* RoomManager_new ?m"
    by (rule rtranclp.rtrancl_into_rtrancl [OF r_into_rtranclp [where r = manager_step]])
      (rule manager_step.create, rule manager_step.in_room, rule room_step.add_publisher)
  from RoomManager_correct [OF this]
  have iff: "(RoomManager_FindPublisherBySsrc 7 ?m \<noteq> None) =
       (7 \<noteq> (0::u32) \<and> (\<exists>i r u p. RoomManager_GetRoomShared i ?m = Some r \<and> Room_GetPublisher u r = Some p \<and>
         (pub_audioSsrc p = 7 \<or> pub_videoSsrc p = 7)))" by blast
  have "RoomManager_GetRoomShared ''m'' ?m = Some (?f (Room_new ''m'' 2))"
    by (simp add: RoomManager_ModifyRoom_def RoomManager_GetRoomShared_def RoomManager_CreateRoom_def
        RoomManager_new_def)
  moreover have "Room_GetPublisher ''u'' (?f (Room_new ''m'' 2)) = Some (Publisher_new ''u'' 7 8)"
    by (simp add: Room_GetPublisher_def Room_AddPublisher_def Room_new_def Publisher_new_def Publisher_Empty_def)
  moreover have "pub_audioSsrc (Publisher_new ''u'' 7 8) = 7" by (simp add: Publisher_new_def)
  ultimately show ?thesis using iff by auto
qed

end
