(* ===== verification/IceLiteSession.thy ===== *)
theory IceLiteSession
  imports Prelude
begin

text \<open>
  The network endpoints (\<open>UdpServer::Endpoint\<close>, a \<open>sockaddr_in\<close>) and the ICE-lite session of
  one participant (\<open>meeting-server/sfu/server/IceLiteSession.h\<close>). Port and address of an
  endpoint are kept in host order; the conversions \<open>htons\<close>, \<open>ntohs\<close>, \<open>htonl\<close> and \<open>ntohl\<close> of
  the sources only move between the two orders.
\<close>

record Endpoint =
  sin_family :: u16
  sin_port :: u16
  sin_addr :: u32

abbreviation AF_INET :: u16 where "AF_INET \<equiv> 2"

definition Endpoint_zero :: Endpoint where
  "Endpoint_zero = \<lparr> sin_family = 0, sin_port = 0, sin_addr = 0 \<rparr>"

definition SameEndpoint :: "Endpoint \<Rightarrow> Endpoint \<Rightarrow> bool" where
  "SameEndpoint left right \<longleftrightarrow> sin_family left = AF_INET \<and> sin_family right = AF_INET \<and>
     sin_addr left = sin_addr right \<and> sin_port left = sin_port right"

lemma SameEndpoint_eq: "SameEndpoint a b \<longleftrightarrow> a = b \<and> sin_family b = AF_INET"
  by (auto simp: SameEndpoint_def)

record IceLiteSession =
  ice_clientIceUfrag :: string
  ice_clientIcePwd :: string
  ice_clientCandidates :: "string list"
  ice_serverIceUfrag :: string
  ice_serverIcePwd :: string
  ice_serverCandidates :: "string list"
  ice_endOfCandidates :: bool
  ice_iceConnected :: bool
  ice_hasSelectedEndpoint :: bool
  ice_selectedEndpoint :: Endpoint

definition IceLiteSession_new :: IceLiteSession where
  "IceLiteSession_new =
     \<lparr> ice_clientIceUfrag = [], ice_clientIcePwd = [], ice_clientCandidates = [],
       ice_serverIceUfrag = [], ice_serverIcePwd = [], ice_serverCandidates = [],
       ice_endOfCandidates = False, ice_iceConnected = False, ice_hasSelectedEndpoint = False,
       ice_selectedEndpoint = Endpoint_zero \<rparr>"

definition IceLiteSession_Configure ::
  "string \<Rightarrow> string \<Rightarrow> string list \<Rightarrow> string \<Rightarrow> string \<Rightarrow> string list \<Rightarrow> IceLiteSession \<Rightarrow> IceLiteSession" where
  "IceLiteSession_Configure clientIceUfrag clientIcePwd clientCandidates serverIceUfrag serverIcePwd
     serverCandidates s =
     s\<lparr> ice_clientIceUfrag := clientIceUfrag, ice_clientIcePwd := clientIcePwd,
        ice_clientCandidates := clientCandidates, ice_serverIceUfrag := serverIceUfrag,
        ice_serverIcePwd := serverIcePwd, ice_serverCandidates := serverCandidates,
        ice_endOfCandidates := False, ice_iceConnected := False,
        ice_hasSelectedEndpoint := False, ice_selectedEndpoint := Endpoint_zero \<rparr>"

definition AppendClientCandidate :: "string \<Rightarrow> IceLiteSession \<Rightarrow> IceLiteSession" where
  "AppendClientCandidate candidate s =
     (if candidate \<noteq> [] then s\<lparr>ice_clientCandidates := ice_clientCandidates s @ [candidate]\<rparr> else s)"

definition MarkEndOfCandidates :: "IceLiteSession \<Rightarrow> IceLiteSession" where
  "MarkEndOfCandidates s = s\<lparr>ice_endOfCandidates := True\<rparr>"

definition MatchesUsername :: "string \<Rightarrow> IceLiteSession \<Rightarrow> bool" where
  "MatchesUsername username s =
     (if username = [] \<or> ice_clientIceUfrag s = [] \<or> ice_serverIceUfrag s = [] then False
      else username = ice_serverIceUfrag s @ '':'' @ ice_clientIceUfrag s \<or>
           username = ice_clientIceUfrag s @ '':'' @ ice_serverIceUfrag s)"

definition SelectEndpoint :: "Endpoint \<Rightarrow> IceLiteSession \<Rightarrow> IceLiteSession" where
  "SelectEndpoint endpoint s =
     s\<lparr>ice_selectedEndpoint := endpoint, ice_hasSelectedEndpoint := True, ice_iceConnected := True\<rparr>"

text \<open>The two flags of a session are always set together, by \<open>SelectEndpoint\<close> alone.\<close>

definition ice_inv :: "IceLiteSession \<Rightarrow> bool" where
  "ice_inv s \<longleftrightarrow> ice_iceConnected s = ice_hasSelectedEndpoint s"

lemma ice_inv_ops [simp]:
  "ice_inv IceLiteSession_new"
  "ice_inv (IceLiteSession_Configure a b c d e f s)"
  "ice_inv s \<Longrightarrow> ice_inv (AppendClientCandidate x s)"
  "ice_inv s \<Longrightarrow> ice_inv (MarkEndOfCandidates s)"
  "ice_inv (SelectEndpoint ep s)"
  by (simp_all add: ice_inv_def IceLiteSession_new_def IceLiteSession_Configure_def
      AppendClientCandidate_def MarkEndOfCandidates_def SelectEndpoint_def)

lemma selected_ops [simp]:
  "ice_hasSelectedEndpoint (AppendClientCandidate x s) = ice_hasSelectedEndpoint s"
  "ice_selectedEndpoint (AppendClientCandidate x s) = ice_selectedEndpoint s"
  "ice_hasSelectedEndpoint (MarkEndOfCandidates s) = ice_hasSelectedEndpoint s"
  "ice_selectedEndpoint (MarkEndOfCandidates s) = ice_selectedEndpoint s"
  "ice_hasSelectedEndpoint (SelectEndpoint ep s)"
  "ice_selectedEndpoint (SelectEndpoint ep s) = ep"
  "ice_iceConnected (SelectEndpoint ep s)"
  by (simp_all add: AppendClientCandidate_def MarkEndOfCandidates_def SelectEndpoint_def)

end
