(* ===== verification/SrtpSession.thy ===== *)
theory SrtpSession
  imports Prelude
begin

text \<open>
  One direction of SRTP protection (\<open>meeting-server/sfu/server/SrtpSession.cpp\<close>). libsrtp2 is
  not part of the repository: the calls the code makes are the fields of a \<open>libsrtp\<close> record
  over an unspecified type \<open>'s\<close> of native sessions. \<open>have_libsrtp2\<close> is the build switch of the
  source. \<open>srtp_library\<close> is the outcome of \<open>SrtpLibraryGuard::Acquire\<close> (\<open>srtp_init\<close> under the
  process-wide reference count): \<open>None\<close> for success or the error text. The four cipher calls
  take the buffer and give the status, the new size and the buffer.
\<close>

datatype Direction = Inbound | Outbound

record 's libsrtp =
  have_libsrtp2 :: bool
  srtp_master_key_length :: nat
  srtp_master_salt_length :: nat
  srtp_library :: "string option"
  srtp_policy_rtp :: int
  srtp_policy_rtcp :: int
  srtp_create :: "bytes \<Rightarrow> Direction \<Rightarrow> u32 \<Rightarrow> int \<times> 's option"
  srtp_protect :: "bytes \<Rightarrow> 's \<Rightarrow> int \<times> int \<times> bytes \<times> 's"
  srtp_unprotect :: "bytes \<Rightarrow> 's \<Rightarrow> int \<times> int \<times> bytes \<times> 's"
  srtp_protect_rtcp :: "bytes \<Rightarrow> 's \<Rightarrow> int \<times> int \<times> bytes \<times> 's"
  srtp_unprotect_rtcp :: "bytes \<Rightarrow> 's \<Rightarrow> int \<times> int \<times> bytes \<times> 's"

definition srtp_err_status_ok :: int where [simp]: "srtp_err_status_ok = 0"

record 's SrtpSession =
  srs_masterKey :: bytes
  srs_masterSalt :: bytes
  srs_lastError :: string
  srs_session :: "'s option"

definition SrtpSession_new :: "'s SrtpSession" where
  "SrtpSession_new = \<lparr> srs_masterKey = [], srs_masterSalt = [], srs_lastError = [], srs_session = None \<rparr>"

text \<open>\<open>std::to_string(int)\<close>.\<close>

fun nat_to_string :: "nat \<Rightarrow> string" where
  "nat_to_string n =
     (if n < 10 then [char_of (48 + n)] else nat_to_string (n div 10) @ [char_of (48 + n mod 10)])"

declare nat_to_string.simps [simp del]

definition int_to_string :: "int \<Rightarrow> string" where
  "int_to_string i = (if i < 0 then ''-'' @ nat_to_string (nat (- i)) else nat_to_string (nat i))"

definition StatusToString :: "int \<Rightarrow> string \<Rightarrow> string" where
  "StatusToString status operation = operation @ '' failed: '' @ int_to_string status"

text \<open>\<open>std::vector::resize\<close>.\<close>

definition resize :: "nat \<Rightarrow> bytes \<Rightarrow> bytes" where
  "resize n p = take n p @ replicate (n - length p) 0"

lemma length_resize [simp]: "length (resize n p) = n"
  by (simp add: resize_def)

text \<open>\<open>None\<close> is success, \<open>Some\<close> the error text.\<close>

definition SetPolicyFromProfile :: "'s libsrtp \<Rightarrow> string option" where
  "SetPolicyFromProfile lib =
     (if srtp_policy_rtp lib \<noteq> srtp_err_status_ok
      then Some (StatusToString (srtp_policy_rtp lib) ''srtp_crypto_policy_set_from_profile_for_rtp'')
      else if srtp_policy_rtcp lib \<noteq> srtp_err_status_ok
      then Some (StatusToString (srtp_policy_rtcp lib) ''srtp_crypto_policy_set_from_profile_for_rtcp'')
      else None)"

definition SrtpSession_Reset :: "'s SrtpSession \<Rightarrow> 's SrtpSession" where
  "SrtpSession_Reset s =
     s\<lparr>srs_session := None, srs_masterKey := [], srs_masterSalt := [], srs_lastError := []\<rparr>"

definition SrtpSession_Configure ::
  "'s libsrtp \<Rightarrow> bytes \<Rightarrow> bytes \<Rightarrow> Direction \<Rightarrow> u32 \<Rightarrow> 's SrtpSession \<Rightarrow> bool \<times> 's SrtpSession" where
  "SrtpSession_Configure lib masterKey masterSalt direction ssrc s0 =
     (let s = SrtpSession_Reset s0 in
      if masterKey = [] \<or> masterSalt = []
      then (False, s\<lparr>srs_lastError := ''SRTP keying material is empty''\<rparr>)
      else if \<not> have_libsrtp2 lib
      then (True, s\<lparr>srs_masterKey := masterKey, srs_masterSalt := masterSalt\<rparr>)
      else if length masterKey \<noteq> srtp_master_key_length lib \<or> length masterSalt \<noteq> srtp_master_salt_length lib
      then (False, s\<lparr>srs_lastError := ''SRTP key lengths mismatch''\<rparr>)
      else case srtp_library lib of
        Some err \<Rightarrow> (False, s\<lparr>srs_lastError := err\<rparr>)
      | None \<Rightarrow>
          case SetPolicyFromProfile lib of
            Some err \<Rightarrow> (False, s\<lparr>srs_lastError := err\<rparr>)
          | None \<Rightarrow>
              let (createStatus, rawSession) = srtp_create lib (masterKey @ masterSalt) direction ssrc
              in if createStatus \<noteq> srtp_err_status_ok \<or> rawSession = None
                 then (False, s\<lparr>srs_lastError := StatusToString createStatus ''srtp_create''\<rparr>)
                 else (True, s\<lparr>srs_masterKey := masterKey, srs_masterSalt := masterSalt,
                               srs_session := rawSession\<rparr>))"

definition SrtpSession_IsConfigured :: "'s SrtpSession \<Rightarrow> bool" where
  "SrtpSession_IsConfigured s \<longleftrightarrow> srs_masterKey s \<noteq> [] \<and> srs_masterSalt s \<noteq> []"

text \<open>
  The common text of \<open>ProtectRtp\<close> and \<open>ProtectRtcp\<close>, and of \<open>UnprotectRtp\<close> and
  \<open>UnprotectRtcp\<close>: they differ in the native call and in two messages. The result carries the
  packet as it is left in the caller's vector.
\<close>

definition protect_packet ::
  "'s libsrtp \<Rightarrow> (bytes \<Rightarrow> 's \<Rightarrow> int \<times> int \<times> bytes \<times> 's) \<Rightarrow> string \<Rightarrow> string \<Rightarrow>
   bytes \<Rightarrow> 's SrtpSession \<Rightarrow> bool \<times> bytes \<times> 's SrtpSession" where
  "protect_packet lib native operation emptyError packet s =
     (if packet = [] then (False, packet, s\<lparr>srs_lastError := emptyError\<rparr>)
      else if \<not> SrtpSession_IsConfigured s
      then (False, packet, s\<lparr>srs_lastError := ''SRTP session is not configured''\<rparr>)
      else if \<not> have_libsrtp2 lib
      then (False, packet, s\<lparr>srs_lastError := ''libsrtp2 is not available''\<rparr>)
      else case srs_session s of
        None \<Rightarrow> (False, packet, s\<lparr>srs_lastError := ''SRTP native session is not ready''\<rparr>)
      | Some session \<Rightarrow>
          let (status, protectedSize, buffer, session') = native packet session
          in if status \<noteq> srtp_err_status_ok \<or> protectedSize \<le> int (length packet)
             then (False, resize (length packet) buffer,
                   s\<lparr>srs_session := Some session', srs_lastError := StatusToString status operation\<rparr>)
             else (True, resize (nat protectedSize) buffer,
                   s\<lparr>srs_session := Some session', srs_lastError := []\<rparr>))"

definition unprotect_packet ::
  "'s libsrtp \<Rightarrow> (bytes \<Rightarrow> 's \<Rightarrow> int \<times> int \<times> bytes \<times> 's) \<Rightarrow> string \<Rightarrow> string \<Rightarrow>
   bytes \<Rightarrow> 's SrtpSession \<Rightarrow> bool \<times> bytes \<times> 's SrtpSession" where
  "unprotect_packet lib native operation emptyError packet s =
     (if packet = [] then (False, packet, s\<lparr>srs_lastError := emptyError\<rparr>)
      else if \<not> SrtpSession_IsConfigured s
      then (False, packet, s\<lparr>srs_lastError := ''SRTP session is not configured''\<rparr>)
      else if \<not> have_libsrtp2 lib
      then (False, packet, s\<lparr>srs_lastError := ''libsrtp2 is not available''\<rparr>)
      else case srs_session s of
        None \<Rightarrow> (False, packet, s\<lparr>srs_lastError := ''SRTP native session is not ready''\<rparr>)
      | Some session \<Rightarrow>
          let (status, plainSize, buffer, session') = native packet session
          in if status \<noteq> srtp_err_status_ok \<or> plainSize \<le> 0
             then (False, resize (length packet) buffer,
                   s\<lparr>srs_session := Some session', srs_lastError := StatusToString status operation\<rparr>)
             else (True, resize (nat plainSize) buffer,
                   s\<lparr>srs_session := Some session', srs_lastError := []\<rparr>))"

definition SrtpSession_ProtectRtp :: "'s libsrtp \<Rightarrow> bytes \<Rightarrow> 's SrtpSession \<Rightarrow> bool \<times> bytes \<times> 's SrtpSession" where
  "SrtpSession_ProtectRtp lib =
     protect_packet lib (srtp_protect lib) ''srtp_protect'' ''SRTP RTP packet is empty''"

definition SrtpSession_UnprotectRtp :: "'s libsrtp \<Rightarrow> bytes \<Rightarrow> 's SrtpSession \<Rightarrow> bool \<times> bytes \<times> 's SrtpSession" where
  "SrtpSession_UnprotectRtp lib =
     unprotect_packet lib (srtp_unprotect lib) ''srtp_unprotect'' ''SRTP RTP packet is empty''"

definition SrtpSession_ProtectRtcp :: "'s libsrtp \<Rightarrow> bytes \<Rightarrow> 's SrtpSession \<Rightarrow> bool \<times> bytes \<times> 's SrtpSession" where
  "SrtpSession_ProtectRtcp lib =
     protect_packet lib (srtp_protect_rtcp lib) ''srtp_protect_rtcp'' ''SRTCP packet is empty''"

definition SrtpSession_UnprotectRtcp :: "'s libsrtp \<Rightarrow> bytes \<Rightarrow> 's SrtpSession \<Rightarrow> bool \<times> bytes \<times> 's SrtpSession" where
  "SrtpSession_UnprotectRtcp lib =
     unprotect_packet lib (srtp_unprotect_rtcp lib) ''srtp_unprotect_rtcp'' ''SRTCP packet is empty''"

section \<open>Properties\<close>

text \<open>A session that protects or unprotects a packet was configured and uses its native session.\<close>

lemma protect_packet_success:
  assumes "protect_packet lib native opn e p s = (True, q, s')"
  shows "SrtpSession_IsConfigured s \<and> have_libsrtp2 lib \<and> length p < length q \<and>
     (\<exists>session session' n buffer. srs_session s = Some session \<and> native p session = (0, int n, buffer, session') \<and>
        q = resize n buffer \<and> srs_session s' = Some session')"
proof -
  obtain session where s: "srs_session s = Some session" "p \<noteq> []" "SrtpSession_IsConfigured s" "have_libsrtp2 lib"
    using assms by (auto simp: protect_packet_def split: if_splits option.splits)
  obtain st n buffer session' where nat: "native p session = (st, n, buffer, session')" by (metis prod_cases4)
  then have *: "st = 0" "n > int (length p)" "q = resize (nat n) buffer" "srs_session s' = Some session'"
    using assms s by (auto simp: protect_packet_def split: if_splits)
  then have "native p session = (0, int (nat n), buffer, session')" using nat by simp
  moreover have "length p < length q" using * by simp
  ultimately show ?thesis using s * by blast
qed

lemma unprotect_packet_success:
  assumes "unprotect_packet lib native opn e p s = (True, q, s')"
  shows "SrtpSession_IsConfigured s \<and> have_libsrtp2 lib \<and> q \<noteq> [] \<and>
     (\<exists>session session' n buffer. srs_session s = Some session \<and> native p session = (0, int n, buffer, session') \<and>
        q = resize n buffer \<and> srs_session s' = Some session')"
proof -
  obtain session where s: "srs_session s = Some session" "p \<noteq> []" "SrtpSession_IsConfigured s" "have_libsrtp2 lib"
    using assms by (auto simp: unprotect_packet_def split: if_splits option.splits)
  obtain st n buffer session' where nat: "native p session = (st, n, buffer, session')" by (metis prod_cases4)
  then have *: "st = 0" "n > 0" "q = resize (nat n) buffer" "srs_session s' = Some session'"
    using assms s by (auto simp: unprotect_packet_def split: if_splits)
  then have "native p session = (0, int (nat n), buffer, session')" using nat by simp
  moreover have "q \<noteq> []" using * by (metis length_resize length_0_conv nat_0_iff not_le)
  ultimately show ?thesis using s * by blast
qed

lemma failed_protect_keeps_size:
  assumes "protect_packet lib native opn e p s = (False, q, s')"
  shows "length q = length p"
  using assms by (auto simp: protect_packet_def Let_def split: if_splits option.splits prod.splits)

lemma Configure_keys:
  assumes "SrtpSession_Configure lib k n dir ssrc s = (True, s')"
  shows "srs_masterKey s' = k \<and> srs_masterSalt s' = n \<and> SrtpSession_IsConfigured s'"
  using assms
  by (auto simp: SrtpSession_Configure_def SrtpSession_IsConfigured_def Let_def
      split: if_splits option.splits prod.splits)

lemma Configure_failed:
  assumes "SrtpSession_Configure lib k n dir ssrc s = (False, s')"
  shows "\<not> SrtpSession_IsConfigured s' \<and> srs_session s' = None"
  using assms
  by (auto simp: SrtpSession_Configure_def SrtpSession_IsConfigured_def SrtpSession_Reset_def Let_def
      split: if_splits option.splits prod.splits)

lemma protect_packet_keys:
  "SrtpSession_IsConfigured (snd (snd (protect_packet lib native opn e p s))) = SrtpSession_IsConfigured s"
  "SrtpSession_IsConfigured (snd (snd (unprotect_packet lib native opn e p s))) = SrtpSession_IsConfigured s"
  by (auto simp: protect_packet_def unprotect_packet_def SrtpSession_IsConfigured_def Let_def
      split: if_splits option.splits prod.splits)

end
