(* ===== verification/MediaCodec.thy ===== *)
theory MediaCodec
  imports RtcpHandler RoomManager IceLiteSession SrtpSession
begin

text \<open>
  The stateless functions of the media ingress (\<open>meeting-server/sfu/server/MediaIngress.cpp\<close>):
  the RTCP packets it builds, the STUN codec, endpoint texts and map keys, the hash that gives
  a route its SSRC, and the time arithmetic of round-trip measurement. \<open>inet_pton\<close> and
  \<open>inet_ntop\<close> are arguments. A \<open>steady_clock\<close> time point is a number of nanoseconds.
\<close>

section \<open>Building RTCP packets\<close>

definition BuildRembPacket :: "u32 \<Rightarrow> u32 \<Rightarrow> u8 \<Rightarrow> u32 \<Rightarrow> u32 \<Rightarrow> bytes" where
  "BuildRembPacket senderSsrc mediaSsrc bitrateExp bitrateMantissa targetSsrc =
     (let cappedMantissa = bitrateMantissa AND 0x3FFFF in
      [0x8F, 0xCE, 0x00, 0x05] @ AppendU32 senderSsrc @ AppendU32 mediaSsrc @
      [0x52, 0x45, 0x4D, 0x42] @ [0x01] @
      [push_bit 2 (bitrateExp AND 0x3F) OR ucast (drop_bit 16 cappedMantissa AND 0x03),
       ucast (drop_bit 8 cappedMantissa AND 0xFF), ucast (cappedMantissa AND 0xFF)] @
      AppendU32 targetSsrc)"

function remb_shift :: "u8 \<Rightarrow> u32 \<Rightarrow> u8 \<times> u32" where
  "remb_shift exp mantissa =
     (if mantissa > 0x3FFFF \<and> exp < 63 then remb_shift (exp + 1) (drop_bit 1 (mantissa + 1))
      else (exp, mantissa))"
  by pat_completeness auto
termination
  by (relation "measure (\<lambda>(exp, mantissa). 63 - unat exp)")
    (auto simp: word_less_nat_alt unat_word_ariths)

declare remb_shift.simps [simp del]

definition EncodeRembBitrate :: "u32 \<Rightarrow> u8 \<times> u32" where
  "EncodeRembBitrate bitrateBps =
     (let (exp, mantissa) = remb_shift 0 bitrateBps in (exp, mantissa AND 0x3FFFF))"

definition BuildReceiverReportPacket :: "u32 \<Rightarrow> u32 \<Rightarrow> u32 \<Rightarrow> u32 \<Rightarrow> bytes" where
  "BuildReceiverReportPacket receiverSsrc sourceSsrc lastSenderReport delaySinceLastSenderReport =
     [0x81, 0xC9, 0x00, 0x07] @ AppendU32 receiverSsrc @ AppendU32 sourceSsrc @
     [0, 0, 0, 0] @ [0, 0, 0, 0] @ [0, 0, 0, 0] @
     AppendU32 lastSenderReport @ AppendU32 delaySinceLastSenderReport"

text \<open>The picture-loss indication \<open>HandleControlPacket\<close> sends to a publisher.\<close>

definition BuildPliPacket :: "u32 \<Rightarrow> u32 \<Rightarrow> bytes" where
  "BuildPliPacket senderSsrc sourceSsrc = [0x81, 0xCE, 0x00, 0x02] @ AppendU32 senderSsrc @ AppendU32 sourceSsrc"

section \<open>Endpoint texts and keys\<close>

definition StripUdpScheme :: "string \<Rightarrow> string" where
  "StripUdpScheme endpointText =
     (if take 6 endpointText = ''udp://'' then drop 6 endpointText else endpointText)"

text \<open>\<open>s.rfind(c)\<close>.\<close>

definition str_rfind :: "char \<Rightarrow> string \<Rightarrow> nat option" where
  "str_rfind c s =
     (if c \<in> set s then Some (length s - 1 - length (takeWhile (\<lambda>x. x \<noteq> c) (rev s))) else None)"

definition c_str :: "string \<Rightarrow> string" where
  "c_str s = takeWhile (\<lambda>c. c \<noteq> char_of (0::nat)) s"

definition isdigit_c :: "char \<Rightarrow> bool" where
  "isdigit_c c \<longleftrightarrow> c \<in> set ''0123456789''"

definition isspace_c :: "char \<Rightarrow> bool" where
  "isspace_c c \<longleftrightarrow> (of_char c :: nat) \<in> {9, 10, 11, 12, 13, 32}"

definition digits_value :: "string \<Rightarrow> int" where
  "digits_value ds = foldl (\<lambda>v c. 10 * v + (of_char c - 48)) 0 ds"

text \<open>
  \<open>strtoul(text, &end, 10)\<close> with a 64-bit \<open>unsigned long\<close>: the value and the unread rest.
\<close>

definition strtoul10 :: "string \<Rightarrow> u64 \<times> string" where
  "strtoul10 text =
     (let s = c_str text; s1 = dropWhile isspace_c s;
          neg = (take 1 s1 = ''-'');
          s2 = (if neg \<or> take 1 s1 = ''+'' then drop 1 s1 else s1);
          ds = takeWhile isdigit_c s2; v = digits_value ds
      in if ds = [] then (0, s)
         else (if v \<ge> 2 ^ 64 then - 1 else if neg then - of_int v else of_int v, dropWhile isdigit_c s2))"

definition ParseEndpoint :: "(string \<Rightarrow> u32 option) \<Rightarrow> string \<Rightarrow> Endpoint option" where
  "ParseEndpoint inet_pton endpointText =
     (if endpointText = [] then None
      else
        let normalized = StripUdpScheme endpointText in
        case str_rfind (CHR '':'') normalized of
          None \<Rightarrow> None
        | Some colon \<Rightarrow>
            if colon = 0 \<or> colon + 1 \<ge> length normalized then None
            else case inet_pton (c_str (take colon normalized)) of
              None \<Rightarrow> None
            | Some address \<Rightarrow>
                let port = ucast (fst (strtoul10 (drop (colon + 1) normalized))) :: u16
                in if port = 0 then None
                   else Some \<lparr> sin_family = AF_INET, sin_port = port, sin_addr = address \<rparr>)"

definition HostFromAdvertisedAddress :: "string \<Rightarrow> string" where
  "HostFromAdvertisedAddress advertisedAddress =
     (let normalized = StripUdpScheme advertisedAddress in
      case str_rfind (CHR '':'') normalized of
        None \<Rightarrow> []
      | Some colon \<Rightarrow> if colon = 0 then [] else take colon normalized)"

definition MakeHostCandidate :: "string \<Rightarrow> u16 \<Rightarrow> string" where
  "MakeHostCandidate host port =
     ''candidate:1 1 udp 2130706431 '' @ host @ '' '' @ nat_to_string (unat port) @ '' typ host''"

definition PublisherTrafficKey :: "string \<Rightarrow> string \<Rightarrow> string" where
  "PublisherTrafficKey meetingId userId = meetingId @ [char_of (10::nat)] @ userId"

definition EndpointKey :: "(u32 \<Rightarrow> string option) \<Rightarrow> Endpoint \<Rightarrow> string" where
  "EndpointKey inet_ntop endpoint =
     (case inet_ntop (sin_addr endpoint) of
        None \<Rightarrow> []
      | Some host \<Rightarrow> host @ '':'' @ nat_to_string (unat (sin_port endpoint)))"

definition FeedbackRouteKey :: "(u32 \<Rightarrow> string option) \<Rightarrow> Endpoint \<Rightarrow> u32 \<Rightarrow> string" where
  "FeedbackRouteKey inet_ntop endpoint mediaSsrc =
     EndpointKey inet_ntop endpoint @ [char_of (10::nat)] @ nat_to_string (unat mediaSsrc)"

section \<open>STUN\<close>

definition IsStunPacket :: "bytes \<Rightarrow> bool mem" where
  "IsStunPacket data =
     (if length data < 20 then Some False
      else do {
        b0 \<leftarrow> byte_at data 0;
        if b0 AND 0xC0 \<noteq> 0 then Some False
        else do {
          b4 \<leftarrow> byte_at data 4; b5 \<leftarrow> byte_at data 5; b6 \<leftarrow> byte_at data 6; b7 \<leftarrow> byte_at data 7;
          Some (b4 = 0x21 \<and> b5 = 0x12 \<and> b6 = 0xA4 \<and> b7 = 0x42) } })"

definition bytes_to_string :: "bytes \<Rightarrow> string" where
  "bytes_to_string bs = map (\<lambda>b. char_of (unat b)) bs"

function stun_username_from :: "bytes \<Rightarrow> nat \<Rightarrow> nat \<Rightarrow> string mem" where
  "stun_username_from data msgEnd offset =
     (if offset + 4 \<le> msgEnd then do {
        attrType \<leftarrow> ReadU16 data offset;
        attrLen \<leftarrow> ReadU16 data (offset + 2);
        let attrLength = unat attrLen;
        let offset' = offset + 4;
        if offset' + attrLength > msgEnd then Some []
        else if attrType = 0x0006
        then (if offset' + attrLength \<le> length data
              then Some (bytes_to_string (take attrLength (drop offset' data))) else None)
        else stun_username_from data msgEnd (offset' + (attrLength + 3) div 4 * 4) }
      else Some [])"
  by pat_completeness auto
termination
  by (relation "measure (\<lambda>(data, msgEnd, offset). msgEnd - offset)") auto

declare stun_username_from.simps [simp del]

definition ParseStunUsername :: "bytes \<Rightarrow> string mem" where
  "ParseStunUsername data = do {
     stun \<leftarrow> IsStunPacket data;
     if \<not> stun then Some []
     else do {
       messageLength \<leftarrow> ReadU16 data 2;
       if 20 + unat messageLength > length data then Some []
       else stun_username_from data (20 + unat messageLength) 20 } }"

definition BuildStunBindingResponse :: "bytes \<Rightarrow> Endpoint \<Rightarrow> bytes mem" where
  "BuildStunBindingResponse request from = do {
     stun \<leftarrow> IsStunPacket request;
     Some (if \<not> stun then []
       else [0x01, 0x01, 0x00, 0x0C, 0x21, 0x12, 0xA4, 0x42] @ take 12 (drop 8 request) @
            [0x00, 0x20, 0x00, 0x08, 0x00, 0x01] @ AppendU16 (sin_port from XOR 0x2112) @
            AppendU32 (sin_addr from XOR 0x2112A442)) }"

definition LooksLikeRtcp :: "bytes \<Rightarrow> bool mem" where
  "LooksLikeRtcp data =
     (if length data < 4 then Some False
      else do {
        b0 \<leftarrow> byte_at data 0;
        let version = drop_bit 6 b0 AND 0x03;
        if version \<noteq> 2 then Some False
        else do {
          packetType \<leftarrow> byte_at data 1;
          Some (packetType \<ge> 192 \<and> packetType \<le> 223) } })"

section \<open>The SSRC of a route\<close>

definition fnv1a :: "string \<Rightarrow> u32" where
  "fnv1a key = foldl (\<lambda>hash ch. (hash XOR of_nat (of_char ch)) * 16777619) 2166136261 key"

definition MakeRouteRewriteSsrc :: "string \<Rightarrow> string \<Rightarrow> u32 \<Rightarrow> bool \<Rightarrow> u32" where
  "MakeRouteRewriteSsrc meetingId subscriberUserId sourceSsrc video =
     (let key = meetingId @ ''|'' @ subscriberUserId @ ''|'' @ (if video then ''video'' else ''audio'') @
                ''|'' @ nat_to_string (unat sourceSsrc);
          hash = fnv1a key AND 0x7FFFFFFF;
          hash = (if hash = 0 \<or> hash = sourceSsrc then hash XOR 0x5A5A5A5A else hash)
      in if hash = 0 then 0x13572468 else hash)"

section \<open>Time and jitter\<close>

record SenderReportLedgerEntry =
  sl_compactNtp :: u32
  sl_observedAt :: int

definition JitterToMs :: "PublisherLocation \<Rightarrow> u32 \<Rightarrow> u32 \<Rightarrow> u32" where
  "JitterToMs location sourceSsrc jitter =
     (if sourceSsrc = 0 \<or> jitter = 0 then 0
      else
        let clockRate =
          (if pub_audioSsrc (loc_publisher location) = sourceSsrc then 48000
           else if pub_videoSsrc (loc_publisher location) = sourceSsrc then 90000 else 0 :: u64)
        in if clockRate = 0 then 0 else ucast ((ucast jitter :: u64) * 1000 div clockRate))"

definition CompactNtpFromTimestamp :: "u64 \<Rightarrow> u32" where
  "CompactNtpFromTimestamp ntpTimestamp = ucast (drop_bit 16 ntpTimestamp AND 0xFFFFFFFF)"

text \<open>The cast to microseconds truncates towards zero; the product wraps in 64 bits.\<close>

definition CompactNtpFromElapsed :: "int \<Rightarrow> u32" where
  "CompactNtpFromElapsed elapsed =
     (let micros = (if elapsed < 0 then - ((- elapsed) div 1000) else elapsed div 1000)
      in if micros \<le> 0 then 0 else ucast ((of_int micros :: u64) * 65536 div 1000000))"

definition CompactNtpToMs :: "u32 \<Rightarrow> u32" where
  "CompactNtpToMs compactNtp =
     (if compactNtp = 0 then 0 else ucast (((ucast compactNtp :: u64) * 1000 + 65535) div 65536))"

definition ComputeRttMs :: "SenderReportLedgerEntry \<Rightarrow> u32 \<Rightarrow> u32 \<Rightarrow> int \<Rightarrow> u32" where
  "ComputeRttMs entry lastSenderReport delaySinceLastSenderReport now =
     (if sl_compactNtp entry = 0 \<or> lastSenderReport = 0 \<or> sl_compactNtp entry \<noteq> lastSenderReport
         \<or> now \<le> sl_observedAt entry then 0
      else
        let arrivalCompactNtp = sl_compactNtp entry + CompactNtpFromElapsed (now - sl_observedAt entry);
            reflectedDelay = (ucast lastSenderReport :: u64) + ucast delaySinceLastSenderReport
        in if ucast arrivalCompactNtp \<le> reflectedDelay then 0
           else CompactNtpToMs (ucast (ucast arrivalCompactNtp - reflectedDelay)))"

section \<open>What is built is what is parsed\<close>

lemma remb_exp_bits:
  "drop_bit 2 (push_bit 2 (e AND 0x3F) OR ucast (drop_bit 16 (m :: u32) AND 0x03)) AND 0x3F = (e AND 0x3F :: u8)"
proof -
  have "(0x3F :: u8) = mask 6" "(0x03 :: u32) = mask 2" by (simp_all add: mask_eq_exp_minus_1)
  note c = this
  show ?thesis unfolding c by (rule bit_word_eqI) (auto simp: bit_simps)
qed

lemma remb_mantissa_bits:
  fixes m :: u32 and e :: u8
  shows "push_bit 16 (ucast ((push_bit 2 (e AND 0x3F) OR ucast (drop_bit 16 (m AND 0x3FFFF) AND 0x03)) AND 0x03)) OR
     push_bit 8 (ucast (ucast (drop_bit 8 (m AND 0x3FFFF) AND 0xFF) :: u8)) OR
     ucast (ucast ((m AND 0x3FFFF) AND 0xFF) :: u8) = m AND 0x3FFFF"
proof -
  have c: "(0x3F :: u8) = mask 6" "(0x03 :: u8) = mask 2" "(0x03 :: u32) = mask 2" "(0x3FFFF :: u32) = mask 18"
    by (simp_all add: mask_eq_exp_minus_1)
  show ?thesis
  proof (rule bit_word_eqI)
    fix n assume "n < LENGTH(32)"
    then consider "n < 8" | "8 \<le> n" "n < 16" | "16 \<le> n" "n < 18" | "18 \<le> n" "n < 32" by fastforce
    then show "bit (push_bit 16 (ucast ((push_bit 2 (e AND 0x3F) OR ucast (drop_bit 16 (m AND 0x3FFFF) AND 0x03)) AND 0x03)) OR
       push_bit 8 (ucast (ucast (drop_bit 8 (m AND 0x3FFFF) AND 0xFF) :: u8)) OR
       ucast (ucast ((m AND 0x3FFFF) AND 0xFF) :: u8) :: u32) n = bit (m AND 0x3FFFF) n"
      unfolding c mask_0xFF by cases (auto simp: bit_simps)
  qed
qed

lemma mem_concat_single [simp]: "mem_concat f [x] = f x"
  by (cases "f x") auto

lemma compound_single:
  assumes "length data = n" "4 \<le> n" "compound_packet data 0 = Some (Some p)" "rp_packetSize p = n"
  shows "ParseCompound data = Some [p]"
  using assms by (simp add: ParseCompound_def compound_from.simps [of data 0] compound_from.simps [of data n])

lemma BuildRemb_header:
  "compound_packet (BuildRembPacket s m e man t) 0 = Some (Some
     \<lparr> rp_type = PSFB, rp_fmt = 15, rp_lengthWords = 5, rp_senderSsrc = s, rp_offset = 0, rp_packetSize = 24 \<rparr>)"
proof -
  have "be16 0 5 = 5" by (simp add: be16_def)
  then show ?thesis
    by (simp add: compound_packet_def BuildRembPacket_def AppendU32_def ToRtcpType_def Let_def)
qed

lemma Parse_BuildRemb:
  "ParseRembFeedback (BuildRembPacket s m e man t) = Some
     [\<lparr> rb_senderSsrc = s, rb_mediaSsrc = m, rb_bitrateExp = e AND 0x3F, rb_bitrateMantissa = man AND 0x3FFFF,
        rb_bitrateBps = remb_bitrate (e AND 0x3F) (man AND 0x3FFFF), rb_targetSsrcs = [t] \<rparr>]"
proof -
  let ?d = "BuildRembPacket s m e man t"
  have len: "length ?d = 24" by (simp add: BuildRembPacket_def Let_def)
  have pc: "ParseCompound ?d = Some [\<lparr> rp_type = PSFB, rp_fmt = 15, rp_lengthWords = 5, rp_senderSsrc = s,
      rp_offset = 0, rp_packetSize = 24 \<rparr>]"
    by (rule compound_single [OF len _ BuildRemb_header]) simp_all
  define f5 :: u8 where "f5 = push_bit 2 (e AND 0x3F) OR ucast (drop_bit 16 (man AND 0x3FFFF) AND 0x03)"
  define f6 :: u8 where "f6 = ucast (drop_bit 8 (man AND 0x3FFFF) AND 0xFF)"
  define f7 :: u8 where "f7 = ucast ((man AND 0x3FFFF) AND 0xFF)"
  have d: "?d = [0x8F, 0xCE, 0x00, 0x05] @ AppendU32 s @ AppendU32 m @ [0x52, 0x45, 0x4D, 0x42, 0x01, f5, f6, f7] @ AppendU32 t"
    by (simp add: BuildRembPacket_def Let_def f5_def f6_def f7_def)
  have rd: "ReadU32 ?d 4 = Some s" "ReadU32 ?d 8 = Some m" "ReadU32 ?d 20 = Some t"
    "byte_at ?d 12 = Some 0x52" "byte_at ?d 13 = Some 0x45" "byte_at ?d 14 = Some 0x4D" "byte_at ?d 15 = Some 0x42"
    "byte_at ?d 16 = Some 1" "byte_at ?d 17 = Some f5" "byte_at ?d 18 = Some f6" "byte_at ?d 19 = Some f7"
    by (simp_all add: d AppendU32_def)
  have bits: "drop_bit 2 f5 AND 0x3F = e AND 0x3F"
    "push_bit 16 (ucast (f5 AND 0x03)) OR push_bit 8 (ucast f6) OR ucast f7 = man AND 0x3FFFF"
    unfolding f5_def f6_def f7_def by (rule remb_exp_bits, rule remb_mantissa_bits)
  show ?thesis
    unfolding ParseRembFeedback_def pc
    by (simp add: remb_of_packet_def rd len Let_def bits upt_rec)
qed

lemma BuildReceiverReport_header:
  "compound_packet (BuildReceiverReportPacket r s l d) 0 = Some (Some
     \<lparr> rp_type = RR, rp_fmt = 1, rp_lengthWords = 7, rp_senderSsrc = r, rp_offset = 0, rp_packetSize = 32 \<rparr>)"
proof -
  have "be16 0 7 = 7" by (simp add: be16_def)
  then show ?thesis
    by (simp add: compound_packet_def BuildReceiverReportPacket_def AppendU32_def ToRtcpType_def Let_def)
qed

lemma Parse_BuildReceiverReport:
  "ParseReceptionReports (BuildReceiverReportPacket r s l d) = Some
     [\<lparr> rr_packetType = RR, rr_reporterSsrc = r, rr_sourceSsrc = s, rr_fractionLost = 0, rr_cumulativeLost = 0,
        rr_highestSeq = 0, rr_jitter = 0, rr_lastSenderReport = l, rr_delaySinceLastSenderReport = d \<rparr>]"
proof -
  let ?d = "BuildReceiverReportPacket r s l d"
  have len: "length ?d = 32" by (simp add: BuildReceiverReportPacket_def)
  have pc: "ParseCompound ?d = Some [\<lparr> rp_type = RR, rp_fmt = 1, rp_lengthWords = 7, rp_senderSsrc = r,
      rp_offset = 0, rp_packetSize = 32 \<rparr>]"
    by (rule compound_single [OF len _ BuildReceiverReport_header]) simp_all
  have z: "be24 0 0 0 = 0" "be32 0 0 0 0 = 0" by (simp_all add: be24_def be32_def)
  have rd: "ReadU32 ?d 8 = Some s" "byte_at ?d 12 = Some 0" "ReadU24 ?d 13 = Some 0" "ReadU32 ?d 16 = Some 0"
    "ReadU32 ?d 20 = Some 0" "ReadU32 ?d 24 = Some l" "ReadU32 ?d 28 = Some d"
    by (simp_all add: BuildReceiverReportPacket_def AppendU32_def z)
  show ?thesis
    unfolding ParseReceptionReports_def pc
    by (simp add: reports_of_packet_def reception_block_def rd len Let_def ReadS24_def)
qed

section \<open>The precision of an encoded bit rate\<close>

lemma remb_halve:
  assumes "m \<noteq> (- 1 :: u32)"
  shows "unat (drop_bit 1 (m + 1)) = (unat m + 1) div 2" "drop_bit 1 (m + 1) \<noteq> (-1 :: u32)"
proof -
  have "unat (m + 1) = unat m + 1" using assms by (metis add.commute add_eq_0_iff unatSuc Suc_eq_plus1)
  then show a: "unat (drop_bit 1 (m + 1)) = (unat m + 1) div 2"
    by (simp add: drop_bit_eq_div unat_div)
  have "unat m < 2 ^ 32" using unsigned_less [of m, where 'a = nat] by simp
  then have "unat (drop_bit 1 (m + 1)) \<noteq> unat (-1 :: u32)" using a by (simp add: unsigned_minus_1_eq_mask mask_eq_exp_minus_1)
  then show "drop_bit 1 (m + 1) \<noteq> (-1 :: u32)" by metis
qed

lemma remb_shift_spec:
  assumes "remb_shift e m = (e', m')" "m \<noteq> - 1" "unat e \<le> 63"
  shows "\<exists>k. unat e' = unat e + k \<and> unat e' \<le> 63 \<and> (unat m' \<le> 0x3FFFF \<or> unat e' = 63) \<and>
    unat m \<le> unat m' * 2 ^ k \<and> unat m' * 2 ^ k < unat m + 2 ^ k \<and> (0 < k \<longrightarrow> 2 ^ 17 \<le> unat m')"
  using assms
proof (induction e m rule: remb_shift.induct)
  case (1 e m)
  show ?case
  proof (cases "m > 0x3FFFF \<and> e < 63")
    case False
    then have "e' = e" "m' = m" using 1 by (auto simp: remb_shift.simps [of e m])
    moreover have "unat m \<le> 0x3FFFF \<or> unat e = 63" using False "1.prems"(3)
      by (auto simp: word_less_nat_alt)
    ultimately show ?thesis using "1.prems"(3) by (intro exI [of _ 0]) simp
  next
    case True
    let ?m1 = "drop_bit 1 (m + 1)"
    have r: "remb_shift (e + 1) ?m1 = (e', m')" using True "1.prems"(1) by (simp add: remb_shift.simps [of e m])
    have e1: "unat (e + 1) = unat e + 1" using True by (auto simp: word_less_nat_alt unat_word_ariths)
    have u: "unat ?m1 = (unat m + 1) div 2" "?m1 \<noteq> - 1" using remb_halve "1.prems"(2) by auto
    have e63: "unat e < 63" using True by (simp add: word_less_nat_alt)
    then obtain k where k: "unat e' = unat (e + 1) + k" "unat e' \<le> 63" "unat m' \<le> 0x3FFFF \<or> unat e' = 63"
      "unat ?m1 \<le> unat m' * 2 ^ k" "unat m' * 2 ^ k < unat ?m1 + 2 ^ k" "0 < k \<longrightarrow> 2 ^ 17 \<le> unat m'"
      using "1.IH" [OF True r u(2)] e1 by auto
    have "unat m > 0x3FFFF" using True by (simp add: word_less_nat_alt)
    then have big: "2 ^ 17 \<le> unat m'" using k(4,6) u(1) by (cases "k = 0") auto
    have "unat m \<le> 2 * (unat m' * 2 ^ k)" "2 * (unat m' * 2 ^ k) < unat m + 2 * 2 ^ k"
      using k(4,5) u(1) by linarith+
    then show ?thesis using k big e1 by (intro exI [of _ "k + 1"]) (simp add: algebra_simps)
  qed
qed

lemma minus_one_u32: "(- 1 :: u32) = 0xFFFFFFFF"
  by simp

lemma EncodeRemb_spec:
  assumes "b \<noteq> - 1" "EncodeRembBitrate b = (e, m)"
  shows "unat e \<le> 15 \<and> unat m \<le> 0x3FFFF \<and> unat b \<le> unat m * 2 ^ unat e \<and>
    unat m * 2 ^ unat e < unat b + 2 ^ unat e \<and> (0 < e \<longrightarrow> 2 ^ 17 \<le> unat m)"
proof -
  obtain e' m' where s: "remb_shift 0 b = (e', m')" by (metis prod.exhaust)
  obtain k where k: "unat e' = k" "k \<le> 63" "unat m' \<le> 0x3FFFF \<or> k = 63"
    "unat b \<le> unat m' * 2 ^ k" "unat m' * 2 ^ k < unat b + 2 ^ k" "0 < k \<longrightarrow> 2 ^ 17 \<le> unat m'"
    using remb_shift_spec [OF s assms(1)] by auto
  have b: "unat b < 2 ^ 32" using unsigned_less [of b, where 'a = nat] by simp
  have "k \<le> 15"
  proof (rule ccontr)
    assume "\<not> k \<le> 15"
    then have "2 ^ 16 \<le> (2::nat) ^ k" by (intro power_increasing) auto
    then have "2 ^ 16 * (2 ^ 17 - 1) \<le> 2 ^ k * (unat m' - 1)" using k(6) \<open>\<not> k \<le> 15\<close> by (intro mult_le_mono) auto
    also have "\<dots> = unat m' * 2 ^ k - 2 ^ k" by (simp add: algebra_simps)
    also have "\<dots> < 2 ^ 32" using k(5) b by linarith
    finally show False by simp
  qed
  then have m: "unat m' \<le> 0x3FFFF" using k(3) by auto
  have c: "(0x3FFFF :: u32) = mask 18" by (simp add: mask_eq_exp_minus_1)
  have "m' AND 0x3FFFF = m'"
  proof -
    have "take_bit 18 (unat m') = unat m'" using m by (simp add: take_bit_nat_eq_self)
    then have "unat (take_bit 18 m') = unat m'" by (simp add: unsigned_take_bit_eq)
    then have "take_bit 18 m' = m'" by (simp add: word_unat_eq_iff)
    then show ?thesis unfolding c by (simp add: take_bit_eq_mask)
  qed
  then have "e = e'" "m = m'" using assms(2) s by (auto simp: EncodeRembBitrate_def)
  then show ?thesis using k \<open>k \<le> 15\<close> m by (auto simp: word_less_nat_alt)
qed


text \<open>
  The bandwidth estimate a publisher is sent survives the wire. The message built for a bit
  rate parses to exactly one REMB for the publisher's SSRC, and the rate the publisher reads
  from it is at least the rate that was encoded and exceeds it by at most one part in
  \<open>2 ^ 17\<close> (both up to the 32-bit saturation of the decoder). The one 32-bit rate left out is
  \<open>0xFFFFFFFF\<close>, for which the rounding step of the encoder overflows.
\<close>

theorem remb_estimate_roundtrip:
  assumes "b \<noteq> 0xFFFFFFFF" "EncodeRembBitrate b = (e, m)"
  shows "\<exists>r n. ParseRembFeedback (BuildRembPacket s src e m src) = Some [r] \<and>
    rb_targetSsrcs r = [src] \<and> rb_mediaSsrc r = src \<and> rb_senderSsrc r = s \<and>
    unat (rb_bitrateBps r) = min n (2 ^ 32 - 1) \<and> unat b \<le> n \<and> (n - unat b) * 2 ^ 17 \<le> n"
proof -
  have spec: "unat e \<le> 15" "unat m \<le> 0x3FFFF" "unat b \<le> unat m * 2 ^ unat e"
    "unat m * 2 ^ unat e < unat b + 2 ^ unat e" "0 < e \<longrightarrow> 2 ^ 17 \<le> unat m"
    using EncodeRemb_spec [OF _ assms(2)] assms(1) minus_one_u32 by auto
  have m: "m AND 0x3FFFF = m" using assms(2) by (auto simp: EncodeRembBitrate_def case_prod_beta Let_def)
  have e: "e AND 0x3F = e"
  proof -
    have "take_bit 6 (unat e) = unat e" using spec(1) by (simp add: take_bit_nat_eq_self)
    then have "take_bit 6 e = e" by (simp add: word_unat_eq_iff unsigned_take_bit_eq)
    moreover have "(0x3F :: u8) = mask 6" by (simp add: mask_eq_exp_minus_1)
    ultimately show ?thesis by (metis take_bit_eq_mask)
  qed
  let ?n = "unat m * 2 ^ unat e"
  have "(?n - unat b) * 2 ^ 17 \<le> ?n"
  proof (cases "e = 0")
    case False
    then have "2 ^ 17 \<le> unat m" using spec(5) by (simp add: word_neq_0_conv)
    have "(?n - unat b) * 2 ^ 17 \<le> 2 ^ unat e * 2 ^ 17" using spec(4) by (intro mult_le_mono1) linarith
    also have "\<dots> \<le> 2 ^ unat e * unat m" using \<open>2 ^ 17 \<le> unat m\<close> by (rule mult_le_mono2)
    finally show ?thesis by (simp add: mult.commute)
  qed (use spec in simp)
  moreover have "unat (remb_bitrate e m) = min ?n (2 ^ 32 - 1)"
    by (rule remb_bitrate_nat) (use spec in auto)
  ultimately show ?thesis
    using spec(3) by (intro exI [of _ "\<lparr> rb_senderSsrc = s, rb_mediaSsrc = src, rb_bitrateExp = e,
        rb_bitrateMantissa = m, rb_bitrateBps = remb_bitrate e m, rb_targetSsrcs = [src] \<rparr>"] exI [of _ ?n])
      (simp add: Parse_BuildRemb m e)
qed

theorem remb_estimate_roundtrip_witness:
  "\<exists>r n. ParseRembFeedback (BuildRembPacket 0 7 4 156250 7) = Some [r] \<and>
    rb_targetSsrcs r = [7] \<and> unat (rb_bitrateBps r) = min n (2 ^ 32 - 1) \<and>
    2500000 \<le> n \<and> (n - 2500000) * 2 ^ 17 \<le> n"
proof -
  have "EncodeRembBitrate 2500000 = (4, 156250)" by code_simp
  from remb_estimate_roundtrip [OF _ this, of 0 7] show ?thesis by auto
qed

text \<open>
  The receiver report sent in answer to a sender report is read back by the decoder with the
  SSRCs, the time stamp and the delay it was built with.
\<close>

theorem receiver_report_roundtrip:
  "ParseReceptionReports (BuildReceiverReportPacket r s l d) = Some
     [\<lparr> rr_packetType = RR, rr_reporterSsrc = r, rr_sourceSsrc = s, rr_fractionLost = 0, rr_cumulativeLost = 0,
        rr_highestSeq = 0, rr_jitter = 0, rr_lastSenderReport = l, rr_delaySinceLastSenderReport = d \<rparr>]"
  by (rule Parse_BuildReceiverReport)

section \<open>STUN: memory safety and round trips\<close>

lemma IsStunPacket_safe: "IsStunPacket data \<noteq> None"
  by (auto simp: IsStunPacket_def split: bind_splits)

lemma IsStunPacket_length: "IsStunPacket data = Some True \<Longrightarrow> 20 \<le> length data"
  by (auto simp: IsStunPacket_def split: if_splits)

lemma stun_username_from_safe: "msgEnd \<le> length data \<Longrightarrow> stun_username_from data msgEnd offset \<noteq> None"
proof (induction data msgEnd offset rule: stun_username_from.induct)
  case (1 data msgEnd offset)
  then show ?case by (subst stun_username_from.simps) (auto simp: Let_def)
qed

lemma ParseStunUsername_safe: "ParseStunUsername data \<noteq> None"
proof (cases "IsStunPacket data = Some True")
  case True
  then have "20 \<le> length data" by (rule IsStunPacket_length)
  then show ?thesis using True stun_username_from_safe by (auto simp: ParseStunUsername_def)
next
  case False
  then show ?thesis using IsStunPacket_safe [of data] by (auto simp: ParseStunUsername_def)
qed

lemma BuildStunBindingResponse_safe: "BuildStunBindingResponse data from \<noteq> None"
  using IsStunPacket_safe [of data] by (auto simp: BuildStunBindingResponse_def)

lemma LooksLikeRtcp_safe: "LooksLikeRtcp data \<noteq> None"
  by (auto simp: LooksLikeRtcp_def Let_def split: bind_splits)

text \<open>A STUN message with the given attributes, each padded to a multiple of four bytes.\<close>

definition stun_attr :: "u16 \<times> bytes \<Rightarrow> bytes" where
  "stun_attr = (\<lambda>(t, v). AppendU16 t @ AppendU16 (of_nat (length v)) @ v @ replicate ((length v + 3) div 4 * 4 - length v) 0)"

definition stun_message :: "u8 \<Rightarrow> u8 \<Rightarrow> bytes \<Rightarrow> (u16 \<times> bytes) list \<Rightarrow> bytes" where
  "stun_message b0 b1 tid attrs =
     (let body = concat (map stun_attr attrs) in
      [b0, b1] @ AppendU16 (of_nat (length body)) @ [0x21, 0x12, 0xA4, 0x42] @ tid @ body)"

lemma stun_username_from_attrs:
  assumes "\<forall>(t, v) \<in> set attrs. length v < 2 ^ 16" "length pre = offset"
    "data = pre @ concat (map stun_attr attrs)"
  shows "stun_username_from data (length data) offset = Some
     (case find (\<lambda>(t, v). t = 6) attrs of None \<Rightarrow> [] | Some (t, v) \<Rightarrow> bytes_to_string v)"
  using assms
proof (induction attrs arbitrary: pre offset)
  case Nil
  then show ?case by (simp add: stun_username_from.simps)
next
  case (Cons a attrs)
  obtain t v where a: "a = (t, v)" by (cases a)
  let ?rest = "concat (map stun_attr attrs)"
  let ?pad = "replicate ((length v + 3) div 4 * 4 - length v) 0 :: bytes"
  have vlen: "length v < 2 ^ 16" using Cons.prems(1) a by auto
  have data: "data = pre @ AppendU16 t @ AppendU16 (of_nat (length v)) @ v @ ?pad @ ?rest"
    using Cons.prems(3) by (simp add: a stun_attr_def)
  have t: "ReadU16 data offset = Some t"
    unfolding data by (rule ReadU16_append [OF Cons.prems(2)])
  have l: "ReadU16 data (offset + 2) = Some (of_nat (length v))"
    using ReadU16_append [of "pre @ AppendU16 t" "offset + 2" "of_nat (length v)" "v @ ?pad @ ?rest"] Cons.prems(2)
    by (simp add: data)
  have n: "unat (of_nat (length v) :: u16) = length v" using vlen by (simp add: unat_of_nat take_bit_nat_eq_self)
  have len: "length data = offset + 4 + (length v + 3) div 4 * 4 + length ?rest"
    using Cons.prems(2) by (simp add: data)
  have v: "take (length v) (drop (offset + 4) data) = v" using Cons.prems(2) by (simp add: data)
  have pad: "length v \<le> (length v + 3) div 4 * 4" by simp
  have step: "stun_username_from data (length data) offset =
     (if t = 6 then Some (bytes_to_string v)
      else stun_username_from data (length data) (offset + 4 + (length v + 3) div 4 * 4))"
    using len v pad by (subst stun_username_from.simps) (simp add: t l l [simplified] n Let_def del: ReadU16_in)
  show ?case
  proof (cases "t = 6")
    case False
    have "stun_username_from data (length data) (offset + 4 + (length v + 3) div 4 * 4) = Some
        (case find (\<lambda>(t, v). t = 6) attrs of None \<Rightarrow> [] | Some (t, v) \<Rightarrow> bytes_to_string v)"
      by (rule Cons.IH [where pre = "pre @ stun_attr a"]) (use Cons.prems in \<open>auto simp: a stun_attr_def\<close>)
    then show ?thesis using False step by (simp add: a)
  qed (simp add: step a)
qed

text \<open>
  STUN requests are read safely and correctly: on every datagram the user-name parser, the
  packet test and the response builder stay inside the buffer; and for a well-formed message
  with any list of attributes that fits a STUN message, the parser returns the value of the
  first USERNAME attribute, or nothing when there is none.
\<close>

theorem stun_username_parsed:
  assumes "b0 AND 0xC0 = 0" "length tid = 12" "length (concat (map stun_attr attrs)) < 2 ^ 16"
  shows "ParseStunUsername (stun_message b0 b1 tid attrs) = Some
     (case find (\<lambda>(t, v). t = 6) attrs of None \<Rightarrow> [] | Some (t, v) \<Rightarrow> bytes_to_string v) \<and>
     ParseStunUsername data \<noteq> None \<and> IsStunPacket data \<noteq> None \<and> BuildStunBindingResponse data from \<noteq> None"
proof -
  let ?body = "concat (map stun_attr attrs)"
  let ?d = "stun_message b0 b1 tid attrs"
  have small: "\<forall>(t, v) \<in> set attrs. length v < 2 ^ 16"
  proof clarify
    fix t v assume "(t, v) \<in> set attrs"
    then have "length (stun_attr (t, v)) \<le> length ?body"
      by (metis in_set_conv_decomp concat_append length_append list.map(2) concat.simps(2) map_append trans_le_add2 le_add1)
    then show "length v < 2 ^ 16" using assms(3) by (simp add: stun_attr_def)
  qed
  obtain l :: u16 where l: "l = of_nat (length ?body)" by simp
  have ul: "unat l = length ?body" using assms(3) by (simp add: l unat_of_nat take_bit_nat_eq_self)
  have d: "?d = [b0, b1] @ AppendU16 l @ [0x21, 0x12, 0xA4, 0x42] @ tid @ ?body"
    by (simp add: stun_message_def Let_def l)
  have len: "length ?d = 20 + length ?body" using assms(2) by (simp add: d)
  have "ReadU16 ?d 2 = Some l" unfolding d by (rule ReadU16_append) simp
  moreover have "IsStunPacket ?d = Some True"
    using assms(1) len by (simp add: IsStunPacket_def d AppendU16_def)
  moreover have "stun_username_from ?d (length ?d) 20 = Some
     (case find (\<lambda>(t, v). t = 6) attrs of None \<Rightarrow> [] | Some (t, v) \<Rightarrow> bytes_to_string v)"
    by (rule stun_username_from_attrs [OF small, where pre = "[b0, b1] @ AppendU16 l @ [0x21, 0x12, 0xA4, 0x42] @ tid"])
      (use assms(2) in \<open>simp_all add: d\<close>)
  ultimately show ?thesis
    using ul len ParseStunUsername_safe IsStunPacket_safe BuildStunBindingResponse_safe
    by (simp add: ParseStunUsername_def del: not_None_eq)
qed

theorem stun_username_parsed_witness:
  "ParseStunUsername (stun_message 0 1 (replicate 12 9) [(0x24, [1, 2, 3]), (6, [0x61, 0x3A, 0x62])]) = Some ''a:b''"
proof -
  have "length (concat (map stun_attr [(0x24, [1, 2, 3]), (6, [0x61, 0x3A, 0x62])])) < 2 ^ 16" by (simp add: stun_attr_def)
  from stun_username_parsed [OF _ _ this, of 0 "replicate 12 9" 1 "[]" Endpoint_zero]
  show ?thesis by (simp add: bytes_to_string_def char_of_def bit_iff_odd)
qed

text \<open>
  The answer to a STUN request echoes the transaction id and tells the client the address
  and port its request came from, in the XOR encoding of the protocol.
\<close>

theorem stun_response_reflects_endpoint:
  assumes "IsStunPacket request = Some True"
  shows "\<exists>response port addr. BuildStunBindingResponse request from = Some response \<and>
    length response = 32 \<and> IsStunPacket response = Some True \<and>
    take 12 (drop 8 response) = take 12 (drop 8 request) \<and>
    ReadU16 response 26 = Some port \<and> port XOR 0x2112 = sin_port from \<and>
    ReadU32 response 28 = Some addr \<and> addr XOR 0x2112A442 = sin_addr from"
proof -
  define tid where "tid = take 12 (drop 8 request)"
  have tid: "length tid = 12" using IsStunPacket_length [OF assms] by (simp add: tid_def)
  let ?pre = "[0x01, 0x01, 0x00, 0x0C, 0x21, 0x12, 0xA4, 0x42] @ tid @ [0x00, 0x20, 0x00, 0x08, 0x00, 0x01]"
  let ?p = "sin_port from XOR 0x2112" and ?a = "sin_addr from XOR 0x2112A442"
  have r: "BuildStunBindingResponse request from = Some (?pre @ AppendU16 ?p @ AppendU32 ?a)"
    using assms by (simp add: BuildStunBindingResponse_def tid_def)
  have "ReadU16 (?pre @ AppendU16 ?p @ AppendU32 ?a) 26 = Some ?p" by (rule ReadU16_append) (simp add: tid)
  moreover have "ReadU32 ((?pre @ AppendU16 ?p) @ AppendU32 ?a @ []) 28 = Some ?a" by (rule ReadU32_append) (simp add: tid)
  moreover have "IsStunPacket (?pre @ AppendU16 ?p @ AppendU32 ?a) = Some True"
    using tid by (simp add: IsStunPacket_def)
  moreover have "?p XOR 0x2112 = sin_port from" "?a XOR 0x2112A442 = sin_addr from"
    by (simp_all add: xor.assoc)
  moreover have "length (?pre @ AppendU16 ?p @ AppendU32 ?a) = 32"
    "take 12 (drop 8 (?pre @ AppendU16 ?p @ AppendU32 ?a)) = take 12 (drop 8 request)"
    using tid by (simp_all add: tid_def)
  ultimately show ?thesis
    unfolding r by (metis append.assoc append_Nil2)
qed

theorem stun_response_reflects_endpoint_witness:
  "\<exists>response port. BuildStunBindingResponse (stun_message 0 1 (replicate 12 9) []) \<lparr> sin_family = 2, sin_port = 4000, sin_addr = 5 \<rparr> = Some response \<and>
    ReadU16 response 26 = Some port \<and> port XOR 0x2112 = 4000"
proof -
  have "IsStunPacket (stun_message 0 1 (replicate 12 9) []) = Some True" by code_simp
  from stun_response_reflects_endpoint [OF this, of "\<lparr> sin_family = 2, sin_port = 4000, sin_addr = 5 \<rparr>"]
  show ?thesis by auto
qed

section \<open>Route SSRCs and round-trip times\<close>

lemma MakeRouteRewriteSsrc_nonzero: "MakeRouteRewriteSsrc m u s v \<noteq> 0"
  by (simp add: MakeRouteRewriteSsrc_def Let_def)

lemma CompactNtpFromElapsed_nat:
  assumes "0 \<le> elapsed" "nat (elapsed div 1000) * 65536 div 1000000 < 2 ^ 32"
  shows "unat (CompactNtpFromElapsed elapsed) = nat (elapsed div 1000) * 65536 div 1000000"
proof -
  obtain n where n: "elapsed div 1000 = int n" using assms(1) by (metis nonneg_int_cases pos_imp_zdiv_nonneg_iff zero_less_numeral)
  have small: "n * 65536 < 2 ^ 64" using assms(2) by (simp add: n)
  then have "unat (of_nat n * 65536 :: u64) = n * 65536"
    by (simp add: unat_word_ariths unat_of_nat take_bit_nat_eq_self mod_mult_left_eq take_bit_eq_mod)
  then have "unat (of_nat n * 65536 div 1000000 :: u64) = n * 65536 div 1000000" by (simp add: unat_div)
  then show ?thesis
    using assms n by (auto simp: CompactNtpFromElapsed_def Let_def unsigned_ucast_eq take_bit_nat_eq_self)
qed

lemma CompactNtpToMs_nat: "unat (CompactNtpToMs c) = (unat c * 1000 + 65535) div 65536"
proof -
  have c: "unat c < 2 ^ 32" using unsigned_less [of c, where 'a = nat] by simp
  then have "unat ((ucast c :: u64) * 1000 + 65535) = unat c * 1000 + 65535"
    by (simp add: unat_word_ariths unsigned_ucast_eq take_bit_nat_eq_self)
  then have d: "unat (((ucast c :: u64) * 1000 + 65535) div 65536) = (unat c * 1000 + 65535) div 65536"
    by (simp add: unat_div)
  show ?thesis
  proof (cases "c = 0")
    case False
    have "(unat c * 1000 + 65535) div 65536 < 2 ^ 32" using c by (simp add: div_less_iff_less_mult)
    then show ?thesis using False d by (simp add: CompactNtpToMs_def unsigned_ucast_eq take_bit_nat_eq_self)
  qed (simp add: CompactNtpToMs_def)
qed

text \<open>
  The round-trip time computed from a receiver report that echoes the last sender report is
  exactly the elapsed time since that report was seen, in units of \<open>1 / 65536\<close> s, less the
  delay the receiver announced, converted to milliseconds and rounded up; and 0 when the
  announced delay is the larger. The condition is that the 32-bit time stamp does not wrap
  around in between (compare \<open>ComputeRttMs_wraps\<close>).
\<close>

theorem ComputeRttMs_exact:
  assumes "ntp \<noteq> 0" "observed < now"
    and "elapsed = nat ((now - observed) div 1000) * 65536 div 1000000"
    and "unat ntp + elapsed < 2 ^ 32"
  shows "unat (ComputeRttMs \<lparr> sl_compactNtp = ntp, sl_observedAt = observed \<rparr> ntp delay now) =
    ((elapsed - unat delay) * 1000 + 65535) div 65536"
proof -
  let ?e = "CompactNtpFromElapsed (now - observed)"
  have e: "unat ?e = elapsed" using CompactNtpFromElapsed_nat [of "now - observed"] assms by simp
  have a: "unat (ucast (ntp + ?e) :: u64) = unat ntp + elapsed"
    using assms(4) e by (simp add: unsigned_ucast_eq take_bit_nat_eq_self unat_word_ariths)
  have d: "unat delay < 2 ^ 32" "unat ntp < 2 ^ 32"
    using unsigned_less [of delay, where 'a = nat] unsigned_less [of ntp, where 'a = nat] by simp_all
  then have r: "unat ((ucast ntp :: u64) + ucast delay) = unat ntp + unat delay"
    by (simp add: unsigned_ucast_eq take_bit_nat_eq_self unat_word_ariths)
  show ?thesis
  proof (cases "elapsed \<le> unat delay")
    case True
    then have "ucast (ntp + ?e) \<le> (ucast ntp :: u64) + ucast delay" by (simp only: word_le_nat_alt a r)
    then show ?thesis using True assms(1,2) by (simp add: ComputeRttMs_def Let_def)
  next
    case False
    then have gt: "\<not> ucast (ntp + ?e) \<le> (ucast ntp :: u64) + ucast delay" by (simp only: word_le_nat_alt a r)
    then have "unat (ucast (ntp + ?e) - ((ucast ntp :: u64) + ucast delay)) = elapsed - unat delay"
      using a r by (simp add: unat_sub)
    then have "unat (ucast (ucast (ntp + ?e) - ((ucast ntp :: u64) + ucast delay)) :: u32) = elapsed - unat delay"
      using assms(4) by (simp add: unsigned_ucast_eq take_bit_nat_eq_self)
    moreover have "ComputeRttMs \<lparr> sl_compactNtp = ntp, sl_observedAt = observed \<rparr> ntp delay now =
        CompactNtpToMs (ucast (ucast (ntp + ?e) - ((ucast ntp :: u64) + ucast delay)))"
      using gt assms(1,2) by (simp add: ComputeRttMs_def Let_def)
    ultimately show ?thesis by (simp add: CompactNtpToMs_nat)
  qed
qed

theorem ComputeRttMs_exact_witness:
  "unat (ComputeRttMs \<lparr> sl_compactNtp = 1000, sl_observedAt = 5 \<rparr> 1000 32768 1000000005) = 500"
  using ComputeRttMs_exact [of 1000 5 1000000005 65536 32768] by simp

text \<open>
  When the 32-bit time stamp wraps around between the sender report and its echo, the
  round-trip time of a full second is reported as 0.
\<close>

theorem ComputeRttMs_wraps:
  "ComputeRttMs \<lparr> sl_compactNtp = 0xFFFFFFFF, sl_observedAt = 0 \<rparr> 0xFFFFFFFF 0 1000000000 = 0 \<and>
   CompactNtpToMs (CompactNtpFromElapsed 1000000000) = 1000"
  by (simp add: ComputeRttMs_def CompactNtpToMs_def CompactNtpFromElapsed_def Let_def)

end
