(* ===== verification/DtlsTransport.thy ===== *)
theory DtlsTransport
  imports Prelude
begin

text \<open>
  The DTLS transport of a participant (\<open>meeting-server/sfu/server/DtlsTransport.cpp\<close>). OpenSSL
  is not part of the repository: the functions the code calls are the fields of an \<open>openssl\<close>
  record, an argument of every operation that uses them, over an unspecified type \<open>'ssl\<close> for
  an \<open>SSL\<close> object together with its two memory BIOs. What a theorem relies on of OpenSSL is a
  named hypothesis.

  The pointers \<open>impl_\<close> and the DTLS context are never null for a transport in use. An optional
  output vector is a flag \<open>want\<close>: whether the caller passed one.
\<close>

datatype Role = RoleClient | RoleServer

record 'ssl openssl =
  SSL_new :: "'ssl option"
  BIO_new :: "bool"
  SSL_set_state :: "Role \<Rightarrow> 'ssl \<Rightarrow> 'ssl"
  BIO_write :: "bytes \<Rightarrow> 'ssl \<Rightarrow> int \<times> 'ssl"
  SSL_do_handshake :: "'ssl \<Rightarrow> int \<times> 'ssl"
  SSL_get_error :: "int \<Rightarrow> 'ssl \<Rightarrow> int"
  ERR_reason :: "'ssl option \<Rightarrow> string option"
  BIO_ctrl_pending :: "'ssl \<Rightarrow> nat"
  BIO_read :: "nat \<Rightarrow> 'ssl \<Rightarrow> bytes option \<times> 'ssl"
  X509_peer_digest :: "'ssl \<Rightarrow> bytes option"
  SSL_get_selected_srtp_profile :: "'ssl \<Rightarrow> string option"
  SSL_export_keying_material :: "'ssl \<Rightarrow> string \<Rightarrow> nat \<Rightarrow> bytes option"
  SSL_is_init_finished :: "'ssl \<Rightarrow> bool"

text \<open>
  \<open>SSL_new\<close> is \<open>None\<close> for a null result; \<open>BIO_new\<close> whether both memory BIOs were created;
  \<open>SSL_set_state\<close> is \<open>SSL_set_bio\<close>, \<open>SSL_set_mtu\<close> and \<open>SSL_set_accept_state\<close> or
  \<open>SSL_set_connect_state\<close>; \<open>ERR_reason\<close> is the text of the first queued error, if any;
  \<open>BIO_read\<close> gives the bytes read, or \<open>None\<close> when its result is not positive;
  \<open>X509_peer_digest\<close> is the SHA-256 digest of the peer's certificate, if there is one;
  \<open>SSL_is_init_finished\<close> is not called by the code and appears in hypotheses only.
\<close>

abbreviation SSL_ERROR_WANT_READ :: int where "SSL_ERROR_WANT_READ \<equiv> 2"
abbreviation SSL_ERROR_WANT_WRITE :: int where "SSL_ERROR_WANT_WRITE \<equiv> 3"

section \<open>Fingerprints\<close>

definition isxdigit :: "char \<Rightarrow> bool" where
  "isxdigit ch \<longleftrightarrow> ch \<in> set ''0123456789abcdefABCDEF''"

definition toupper :: "char \<Rightarrow> char" where
  "toupper ch = (if CHR ''a'' \<le> ch \<and> ch \<le> CHR ''z'' then char_of (of_char ch - 32 :: nat) else ch)"

definition NormalizeFingerprint :: "string \<Rightarrow> string" where
  "NormalizeFingerprint fingerprint = map toupper (filter (\<lambda>ch. ch = CHR '':'' \<or> isxdigit ch) fingerprint)"

definition hex_digit :: "nat \<Rightarrow> char" where
  "hex_digit n = (''0123456789ABCDEF'' ! n)"

definition hex_byte :: "u8 \<Rightarrow> string" where
  "hex_byte b = [hex_digit (unat b div 16), hex_digit (unat b mod 16)]"

fun FormatFingerprint :: "bytes \<Rightarrow> string" where
  "FormatFingerprint [] = []"
| "FormatFingerprint [b] = hex_byte b"
| "FormatFingerprint (b # bs) = hex_byte b @ '':'' @ FormatFingerprint bs"

definition CurrentSslError :: "string option \<Rightarrow> string \<Rightarrow> string" where
  "CurrentSslError reason prefix =
     (case reason of
        None \<Rightarrow> prefix @ '': unknown OpenSSL error''
      | Some text \<Rightarrow> prefix @ '': '' @ text)"

section \<open>The transport\<close>

record 'ssl DtlsTransport =
  dtls_role :: Role
  dtls_ssl :: "'ssl option"
  dtls_started :: bool
  dtls_connected :: bool
  dtls_expectedPeerFingerprint :: string
  dtls_peerFingerprint :: string
  dtls_selectedSrtpProfile :: string
  dtls_lastError :: string

record SrtpKeyMaterial =
  localKey :: bytes
  remoteKey :: bytes
  localSalt :: bytes
  remoteSalt :: bytes

definition DtlsTransport_new :: "Role \<Rightarrow> 'ssl DtlsTransport" where
  "DtlsTransport_new role =
     \<lparr> dtls_role = role, dtls_ssl = None, dtls_started = False, dtls_connected = False,
       dtls_expectedPeerFingerprint = [], dtls_peerFingerprint = [], dtls_selectedSrtpProfile = [],
       dtls_lastError = [] \<rparr>"

text \<open>
  The loop of \<open>DrainBio\<close>, each round one datagram. The fuel is the number of pending bytes:
  every successful read of a memory BIO removes what it returns, so the loop ends before the
  fuel does (\<open>drain_loop_complete\<close>).
\<close>

fun drain_loop :: "'ssl openssl \<Rightarrow> nat \<Rightarrow> 'ssl \<Rightarrow> bytes list \<Rightarrow> bool \<times> bytes list \<times> 'ssl" where
  "drain_loop api 0 ssl outgoing = (True, outgoing, ssl)"
| "drain_loop api (Suc fuel) ssl outgoing =
     (if BIO_ctrl_pending api ssl > 0
      then case BIO_read api (BIO_ctrl_pending api ssl) ssl of
             (None, ssl') \<Rightarrow> (False, outgoing, ssl')
           | (Some packet, ssl') \<Rightarrow> drain_loop api fuel ssl' (outgoing @ [packet])
      else (True, outgoing, ssl))"

definition DrainBio :: "'ssl openssl \<Rightarrow> bool \<Rightarrow> 'ssl \<Rightarrow> bool \<times> bytes list \<times> 'ssl" where
  "DrainBio api want ssl =
     (if \<not> want then (True, [], ssl) else drain_loop api (BIO_ctrl_pending api ssl) ssl [])"

definition finish_drain ::
  "'ssl openssl \<Rightarrow> bool \<Rightarrow> 'ssl \<Rightarrow> 'ssl DtlsTransport \<Rightarrow> bool \<times> bytes list \<times> 'ssl DtlsTransport" where
  "finish_drain api want ssl d =
     (case DrainBio api want ssl of
        (True, outgoing, ssl') \<Rightarrow> (True, outgoing, d\<lparr>dtls_ssl := Some ssl'\<rparr>)
      | (False, outgoing, ssl') \<Rightarrow>
          (False, outgoing, d\<lparr>dtls_ssl := Some ssl', dtls_lastError := ''DTLS write BIO drain failed''\<rparr>))"

definition DtlsTransport_Start ::
  "'ssl openssl \<Rightarrow> bool \<Rightarrow> string \<Rightarrow> bool \<Rightarrow> 'ssl DtlsTransport \<Rightarrow> bool \<times> bytes list \<times> 'ssl DtlsTransport" where
  "DtlsTransport_Start api ready expectedPeerFingerprint want d =
     (if \<not> ready then (False, [], d\<lparr>dtls_lastError := ''DTLS context is not ready''\<rparr>)
      else if dtls_started d then (True, [], d)
      else case SSL_new api of
        None \<Rightarrow> (False, [], d\<lparr>dtls_lastError := CurrentSslError (ERR_reason api None) ''SSL_new''\<rparr>)
      | Some rawSsl \<Rightarrow>
          if \<not> BIO_new api then (False, [], d\<lparr>dtls_lastError := ''BIO_new failed''\<rparr>)
          else
            let ssl = SSL_set_state api (dtls_role d) rawSsl;
                d1 = d\<lparr>dtls_ssl := Some ssl,
                       dtls_expectedPeerFingerprint := NormalizeFingerprint expectedPeerFingerprint,
                       dtls_started := True, dtls_lastError := []\<rparr>;
                (ret, ssl1) = SSL_do_handshake api ssl;
                err = SSL_get_error api ret ssl1
            in if ret \<noteq> 1 \<and> err \<noteq> SSL_ERROR_WANT_READ \<and> err \<noteq> SSL_ERROR_WANT_WRITE
               then (False, [], d1\<lparr>dtls_ssl := Some ssl1, dtls_lastError :=
                       CurrentSslError (ERR_reason api (Some ssl1)) ''SSL_do_handshake''\<rparr>)
               else finish_drain api want ssl1 d1)"

text \<open>The part of \<open>HandleIncomingDatagram\<close> after \<open>SSL_do_handshake\<close> returned 1.\<close>

definition check_peer ::
  "'ssl openssl \<Rightarrow> bool \<Rightarrow> 'ssl \<Rightarrow> 'ssl DtlsTransport \<Rightarrow> bool \<times> bytes list \<times> 'ssl DtlsTransport" where
  "check_peer api want ssl d =
     (case X509_peer_digest api ssl of
        None \<Rightarrow> (False, [], d\<lparr>dtls_lastError := ''DTLS peer certificate fingerprint export failed''\<rparr>)
      | Some digest \<Rightarrow>
          let d1 = d\<lparr>dtls_peerFingerprint := FormatFingerprint digest\<rparr>
          in if dtls_expectedPeerFingerprint d1 \<noteq> [] \<and>
                NormalizeFingerprint (dtls_peerFingerprint d1) \<noteq> dtls_expectedPeerFingerprint d1
             then (False, [], d1\<lparr>dtls_lastError := ''DTLS peer fingerprint mismatch''\<rparr>)
             else case SSL_get_selected_srtp_profile api ssl of
               None \<Rightarrow> (False, [], d1\<lparr>dtls_lastError := ''DTLS SRTP profile was not negotiated''\<rparr>)
             | Some profile \<Rightarrow> finish_drain api want ssl (d1\<lparr>dtls_selectedSrtpProfile := profile\<rparr>))"

definition DtlsTransport_HandleIncomingDatagram ::
  "'ssl openssl \<Rightarrow> bytes \<Rightarrow> bool \<Rightarrow> 'ssl DtlsTransport \<Rightarrow> bool \<times> bytes list \<times> 'ssl DtlsTransport" where
  "DtlsTransport_HandleIncomingDatagram api data want d =
     (if \<not> dtls_started d \<or> data = []
      then (False, [], d\<lparr>dtls_lastError := ''DTLS transport is not ready for incoming datagrams''\<rparr>)
      else case dtls_ssl d of
        None \<Rightarrow> (False, [], d\<lparr>dtls_lastError := ''DTLS transport is not ready for incoming datagrams''\<rparr>)
      | Some ssl \<Rightarrow>
          let (written, ssl1) = BIO_write api data ssl
          in if written \<noteq> int (length data)
             then (False, [], d\<lparr>dtls_ssl := Some ssl1, dtls_lastError := ''BIO_write failed for DTLS datagram''\<rparr>)
             else
               let (ret, ssl2) = SSL_do_handshake api ssl1;
                   d2 = d\<lparr>dtls_ssl := Some ssl2\<rparr>
               in if ret = 1 then check_peer api want ssl2 (d2\<lparr>dtls_connected := True\<rparr>)
                  else
                    let err = SSL_get_error api ret ssl2
                    in if err \<noteq> SSL_ERROR_WANT_READ \<and> err \<noteq> SSL_ERROR_WANT_WRITE
                       then (False, [], d2\<lparr>dtls_lastError :=
                               CurrentSslError (ERR_reason api (Some ssl2)) ''SSL_do_handshake''\<rparr>)
                       else finish_drain api want ssl2 d2)"

definition ExportSrtpKeyMaterial ::
  "'ssl openssl \<Rightarrow> nat \<Rightarrow> nat \<Rightarrow> 'ssl DtlsTransport \<Rightarrow> SrtpKeyMaterial option" where
  "ExportSrtpKeyMaterial api keyLen saltLen d =
     (if \<not> dtls_connected d \<or> keyLen = 0 \<or> saltLen = 0 then None
      else case dtls_ssl d of
        None \<Rightarrow> None
      | Some ssl \<Rightarrow>
          case SSL_export_keying_material api ssl ''EXTRACTOR-dtls_srtp'' ((keyLen + saltLen) * 2) of
            None \<Rightarrow> None
          | Some exporter \<Rightarrow>
              let clientKey = take keyLen exporter;
                  serverKey = take keyLen (drop keyLen exporter);
                  clientSalt = take saltLen (drop (2 * keyLen) exporter);
                  serverSalt = take saltLen (drop (2 * keyLen + saltLen) exporter);
                  localIsClient = (dtls_role d = RoleClient)
              in Some \<lparr> localKey = (if localIsClient then clientKey else serverKey),
                        remoteKey = (if localIsClient then serverKey else clientKey),
                        localSalt = (if localIsClient then clientSalt else serverSalt),
                        remoteSalt = (if localIsClient then serverSalt else clientSalt) \<rparr>)"

definition LooksLikeDtlsRecord :: "bytes \<Rightarrow> bool mem" where
  "LooksLikeDtlsRecord data =
     (if length data < 13 then Some False
      else do {
        b0 \<leftarrow> byte_at data 0; b1 \<leftarrow> byte_at data 1; b2 \<leftarrow> byte_at data 2;
        Some (if b0 \<notin> {20, 21, 22, 23, 24} then False
              else b1 = 0xFE \<and> (b2 = 0xFF \<or> b2 = 0xFD \<or> b2 = 0xFC)) })"

section \<open>Fingerprints pin the digest\<close>

lemma hex_digit_cases: "n < 16 \<Longrightarrow> hex_digit n \<in> set ''0123456789ABCDEF''"
  unfolding hex_digit_def by (rule nth_mem) simp

lemma hex_digit_inj: "m < 16 \<Longrightarrow> n < 16 \<Longrightarrow> hex_digit m = hex_digit n \<Longrightarrow> m = n"
  unfolding hex_digit_def by (subst (asm) nth_eq_iff_index_eq) auto

lemma hex_byte_bounds: "unat (b :: u8) div 16 < 16" "unat (b :: u8) mod 16 < 16"
  using unsigned_less [of b, where 'a = nat] by auto

lemma hex_byte_inj: "hex_byte a = hex_byte b \<Longrightarrow> a = b"
  using hex_digit_inj [of "unat a div 16" "unat b div 16"] hex_digit_inj [of "unat a mod 16" "unat b mod 16"]
    hex_byte_bounds [of a] hex_byte_bounds [of b]
  by (simp add: hex_byte_def) (metis div_mult_mod_eq word_unat_eq_iff)

lemma upper_hex: "c \<in> set ''0123456789ABCDEF'' \<Longrightarrow> toupper c = c \<and> isxdigit c"
  by (auto simp: toupper_def isxdigit_def less_eq_char_def)

lemma Normalize_hex_byte: "NormalizeFingerprint (hex_byte b) = hex_byte b"
  using upper_hex [OF hex_digit_cases [OF hex_byte_bounds(1) [of b]]]
    upper_hex [OF hex_digit_cases [OF hex_byte_bounds(2) [of b]]]
  by (simp add: NormalizeFingerprint_def hex_byte_def)

lemma Normalize_append: "NormalizeFingerprint (xs @ ys) = NormalizeFingerprint xs @ NormalizeFingerprint ys"
  by (simp add: NormalizeFingerprint_def)

lemma Normalize_colon: "NormalizeFingerprint '':'' = '':''"
  by (simp add: NormalizeFingerprint_def toupper_def less_eq_char_def)

lemma Normalize_Format: "NormalizeFingerprint (FormatFingerprint d) = FormatFingerprint d"
proof (induction d rule: FormatFingerprint.induct)
  case 1
  then show ?case by (simp add: NormalizeFingerprint_def)
next
  case (2 b)
  then show ?case by (simp add: Normalize_hex_byte)
next
  case (3 b c bs)
  then show ?case by (simp add: Normalize_append Normalize_hex_byte Normalize_colon del: append_Cons append_Nil)
qed

lemma length_Format: "length (FormatFingerprint d) = 3 * length d - 1"
  by (induction d rule: FormatFingerprint.induct) (auto simp: hex_byte_def)

lemma Format_Cons:
  "FormatFingerprint (b # bs) = hex_byte b @ (if bs = [] then [] else '':'' @ FormatFingerprint bs)"
  by (cases bs) auto

lemma Format_inj: "FormatFingerprint d = FormatFingerprint e \<Longrightarrow> d = e"
proof (induction d arbitrary: e)
  case Nil
  then show ?case using length_Format [of e] by (cases e) auto
next
  case (Cons b d)
  from Cons.prems obtain c f where e: "e = c # f"
    using length_Format [of "b # d"] by (cases e) auto
  have "hex_byte b = hex_byte c \<and>
      (if d = [] then [] else '':'' @ FormatFingerprint d) = (if f = [] then [] else '':'' @ FormatFingerprint f)"
    using Cons.prems unfolding e Format_Cons by (subst (asm) append_eq_append_conv) (auto simp: hex_byte_def)
  then show ?case
    using Cons.IH [of f] hex_byte_inj [of b c] by (auto simp: e split: if_splits)
qed

section \<open>Draining the write buffer\<close>

definition bio_reads_consume :: "'ssl openssl \<Rightarrow> bool" where
  "bio_reads_consume api \<longleftrightarrow> (\<forall>n s p s'. BIO_read api n s = (Some p, s') \<longrightarrow>
     BIO_ctrl_pending api s' < BIO_ctrl_pending api s)"

lemma drain_loop_complete:
  assumes "bio_reads_consume api"
  shows "BIO_ctrl_pending api s \<le> fuel \<Longrightarrow> drain_loop api fuel s acc = (True, out, s') \<Longrightarrow>
    BIO_ctrl_pending api s' = 0"
proof (induction fuel arbitrary: s acc)
  case (Suc fuel)
  show ?case
  proof (cases "BIO_ctrl_pending api s > 0")
    case True
    then obtain packet s1 where rd: "BIO_read api (BIO_ctrl_pending api s) s = (Some packet, s1)"
      and rest: "drain_loop api fuel s1 (acc @ [packet]) = (True, out, s')"
      using Suc.prems(2) by (auto split: option.splits prod.splits)
    have "BIO_ctrl_pending api s1 < BIO_ctrl_pending api s"
      using assms rd by (simp add: bio_reads_consume_def)
    then show ?thesis using Suc.IH [OF _ rest] Suc.prems(1) by simp
  qed (use Suc.prems in simp)
qed simp

section \<open>The handshake and the peer check\<close>

text \<open>
  What the documentation of OpenSSL says of a completed handshake: \<open>SSL_do_handshake\<close> returns 1
  exactly when the handshake is complete, and it stays complete when data is written to or
  read from the BIOs. The peer's certificate is fixed from then on.
\<close>

definition handshake_stays_complete :: "'ssl openssl \<Rightarrow> bool" where
  "handshake_stays_complete api \<longleftrightarrow>
     (\<forall>s. fst (SSL_do_handshake api s) = 1 \<longrightarrow> SSL_is_init_finished api (snd (SSL_do_handshake api s))) \<and>
     (\<forall>s. SSL_is_init_finished api s \<longrightarrow> fst (SSL_do_handshake api s) = 1) \<and>
     (\<forall>data s. SSL_is_init_finished api s \<longrightarrow> SSL_is_init_finished api (snd (BIO_write api data s))) \<and>
     (\<forall>n s. SSL_is_init_finished api s \<longrightarrow> SSL_is_init_finished api (snd (BIO_read api n s)))"

definition peer_certificate_fixed :: "'ssl openssl \<Rightarrow> bool" where
  "peer_certificate_fixed api \<longleftrightarrow> (\<forall>s. SSL_is_init_finished api s \<longrightarrow>
     X509_peer_digest api (snd (SSL_do_handshake api s)) = X509_peer_digest api s \<and>
     (\<forall>data. X509_peer_digest api (snd (BIO_write api data s)) = X509_peer_digest api s) \<and>
     (\<forall>n. X509_peer_digest api (snd (BIO_read api n s)) = X509_peer_digest api s))"

lemma peer_certificate_fixedD:
  assumes "peer_certificate_fixed api" "SSL_is_init_finished api s"
  shows "SSL_do_handshake api s = (r, s') \<Longrightarrow> X509_peer_digest api s' = X509_peer_digest api s"
    "BIO_write api data s = (w, s') \<Longrightarrow> X509_peer_digest api s' = X509_peer_digest api s"
    "BIO_read api n s = (p, s') \<Longrightarrow> X509_peer_digest api s' = X509_peer_digest api s"
  using assms unfolding peer_certificate_fixed_def by (metis snd_conv)+

lemma handshake_stays_completeD:
  assumes "handshake_stays_complete api"
  shows "SSL_do_handshake api s = (1, s') \<Longrightarrow> SSL_is_init_finished api s'"
    "SSL_is_init_finished api s \<Longrightarrow> SSL_do_handshake api s = (r, s') \<Longrightarrow> r = 1"
    "SSL_is_init_finished api s \<Longrightarrow> BIO_write api data s = (w, s') \<Longrightarrow> SSL_is_init_finished api s'"
    "SSL_is_init_finished api s \<Longrightarrow> BIO_read api n s = (p, s') \<Longrightarrow> SSL_is_init_finished api s'"
  using assms unfolding handshake_stays_complete_def by (metis fst_conv snd_conv)+

definition dtls_inv :: "'ssl openssl \<Rightarrow> 'ssl DtlsTransport \<Rightarrow> bool" where
  "dtls_inv api d \<longleftrightarrow>
     (dtls_connected d \<longrightarrow> (\<exists>ssl. dtls_ssl d = Some ssl \<and> SSL_is_init_finished api ssl))"

text \<open>The peer presented the certificate whose fingerprint the signaling announced.\<close>

definition peer_verified :: "'ssl DtlsTransport \<Rightarrow> bool" where
  "peer_verified d \<longleftrightarrow> dtls_expectedPeerFingerprint d = [] \<or>
     NormalizeFingerprint (dtls_peerFingerprint d) = dtls_expectedPeerFingerprint d"

text \<open>The peer check passed and holds for the certificate of the completed handshake.\<close>

definition dtls_checked :: "'ssl openssl \<Rightarrow> 'ssl DtlsTransport \<Rightarrow> bool" where
  "dtls_checked api d \<longleftrightarrow> dtls_connected d \<and> peer_verified d \<and>
     (\<exists>ssl digest. dtls_ssl d = Some ssl \<and> SSL_is_init_finished api ssl \<and>
        X509_peer_digest api ssl = Some digest \<and> dtls_peerFingerprint d = FormatFingerprint digest)"

lemma drain_loop_finished:
  assumes "handshake_stays_complete api" "peer_certificate_fixed api"
  shows "drain_loop api fuel s acc = (ok, out, s') \<Longrightarrow> SSL_is_init_finished api s \<Longrightarrow>
    SSL_is_init_finished api s' \<and> X509_peer_digest api s' = X509_peer_digest api s"
proof (induction fuel arbitrary: s acc)
  case (Suc fuel)
  then show ?case
    using handshake_stays_completeD(4) [OF assms(1), of s] peer_certificate_fixedD(3) [OF assms(2), of s]
    by (force split: if_splits option.splits prod.splits)
qed simp

lemma finish_drain_props:
  assumes "finish_drain api want ssl d = (ok, out, d')"
  shows "dtls_connected d' = dtls_connected d \<and> dtls_started d' = dtls_started d \<and>
    dtls_expectedPeerFingerprint d' = dtls_expectedPeerFingerprint d \<and>
    dtls_peerFingerprint d' = dtls_peerFingerprint d"
    and "handshake_stays_complete api \<Longrightarrow> peer_certificate_fixed api \<Longrightarrow> SSL_is_init_finished api ssl \<Longrightarrow>
      \<exists>ssl'. dtls_ssl d' = Some ssl' \<and> SSL_is_init_finished api ssl' \<and>
        X509_peer_digest api ssl' = X509_peer_digest api ssl"
proof -
  obtain ok1 out1 ssl1 where dr: "DrainBio api want ssl = (ok1, out1, ssl1)" by (metis prod_cases3)
  then show "dtls_connected d' = dtls_connected d \<and> dtls_started d' = dtls_started d \<and>
    dtls_expectedPeerFingerprint d' = dtls_expectedPeerFingerprint d \<and>
    dtls_peerFingerprint d' = dtls_peerFingerprint d"
    using assms by (cases ok1) (auto simp: finish_drain_def)
  assume "handshake_stays_complete api" "peer_certificate_fixed api" "SSL_is_init_finished api ssl"
  then have "SSL_is_init_finished api ssl1 \<and> X509_peer_digest api ssl1 = X509_peer_digest api ssl"
    using dr drain_loop_finished [of api "BIO_ctrl_pending api ssl" ssl "[]"]
    by (auto simp: DrainBio_def split: if_splits)
  then show "\<exists>ssl'. dtls_ssl d' = Some ssl' \<and> SSL_is_init_finished api ssl' \<and>
        X509_peer_digest api ssl' = X509_peer_digest api ssl"
    using assms dr by (cases ok1) (auto simp: finish_drain_def)
qed

lemma check_peer_props:
  assumes "check_peer api want ssl d = (ok, out, d')" "handshake_stays_complete api" "peer_certificate_fixed api"
    "SSL_is_init_finished api ssl" "dtls_ssl d = Some ssl" "dtls_connected d"
  shows "dtls_inv api d' \<and> (ok \<longrightarrow> dtls_checked api d') \<and>
    (\<forall>digest. X509_peer_digest api ssl = Some digest \<and> dtls_peerFingerprint d = FormatFingerprint digest \<and>
       peer_verified d \<longrightarrow> dtls_checked api d')"
proof (cases "X509_peer_digest api ssl")
  case None
  then show ?thesis using assms by (auto simp: check_peer_def dtls_inv_def)
next
  case (Some digest)
  let ?d1 = "d\<lparr>dtls_peerFingerprint := FormatFingerprint digest\<rparr>"
  show ?thesis
  proof (cases "peer_verified ?d1")
    case False
    then have "\<not> ok" "d' = ?d1\<lparr>dtls_lastError := ''DTLS peer fingerprint mismatch''\<rparr>"
      using assms(1) Some by (auto simp: check_peer_def peer_verified_def)
    then show ?thesis using False assms(4,5) Some by (auto simp: dtls_inv_def peer_verified_def)
  next
    case ver: True
    show ?thesis
    proof (cases "SSL_get_selected_srtp_profile api ssl")
      case None
      then have "\<not> ok" "d' = ?d1\<lparr>dtls_lastError := ''DTLS SRTP profile was not negotiated''\<rparr>"
        using assms(1) Some ver by (auto simp: check_peer_def peer_verified_def)
      then show ?thesis using ver assms(4-6) Some by (auto simp: dtls_inv_def dtls_checked_def peer_verified_def)
    next
      case p: (Some profile)
      then have "finish_drain api want ssl (?d1\<lparr>dtls_selectedSrtpProfile := profile\<rparr>) = (ok, out, d')"
        using assms(1) Some ver by (auto simp: check_peer_def peer_verified_def)
      from finish_drain_props [OF this] show ?thesis
        using ver assms(2-6) Some by (auto simp: dtls_inv_def dtls_checked_def peer_verified_def)
    qed
  qed
qed

text \<open>The body of \<open>HandleIncomingDatagram\<close> once the guards have passed.\<close>

lemma HandleIncoming_unfold:
  assumes "dtls_ssl d = Some ssl" "dtls_started d" "data \<noteq> []"
    "BIO_write api data ssl = (w, ssl1)" "SSL_do_handshake api ssl1 = (r, ssl2)"
  shows "DtlsTransport_HandleIncomingDatagram api data want d =
    (if w \<noteq> int (length data)
     then (False, [], d\<lparr>dtls_ssl := Some ssl1, dtls_lastError := ''BIO_write failed for DTLS datagram''\<rparr>)
     else if r = 1 then check_peer api want ssl2 (d\<lparr>dtls_ssl := Some ssl2, dtls_connected := True\<rparr>)
     else if SSL_get_error api r ssl2 \<noteq> SSL_ERROR_WANT_READ \<and> SSL_get_error api r ssl2 \<noteq> SSL_ERROR_WANT_WRITE
     then (False, [], d\<lparr>dtls_ssl := Some ssl2, dtls_lastError :=
             CurrentSslError (ERR_reason api (Some ssl2)) ''SSL_do_handshake''\<rparr>)
     else finish_drain api want ssl2 (d\<lparr>dtls_ssl := Some ssl2\<rparr>))"
  using assms by (simp add: DtlsTransport_HandleIncomingDatagram_def Let_def)

lemma HandleIncoming_props:
  assumes "DtlsTransport_HandleIncomingDatagram api data want d = (ok, out, d')"
    "handshake_stays_complete api" "peer_certificate_fixed api" "dtls_inv api d"
  shows "dtls_inv api d' \<and> (ok \<and> dtls_connected d' \<longrightarrow> dtls_checked api d') \<and>
    (dtls_checked api d \<longrightarrow> dtls_checked api d')"
proof (cases "\<not> dtls_started d \<or> data = [] \<or> dtls_ssl d = None")
  case True
  then have "\<not> ok \<and> d' = d\<lparr>dtls_lastError := ''DTLS transport is not ready for incoming datagrams''\<rparr>"
    using assms(1) by (cases "dtls_ssl d") (auto simp: DtlsTransport_HandleIncomingDatagram_def split: if_splits)
  then show ?thesis using assms(4) by (auto simp: dtls_inv_def dtls_checked_def peer_verified_def)
next
  case False
  then obtain ssl where ssl: "dtls_ssl d = Some ssl" "dtls_started d" "data \<noteq> []" by auto
  obtain w ssl1 where w: "BIO_write api data ssl = (w, ssl1)" by (metis prod.exhaust)
  obtain r ssl2 where r: "SSL_do_handshake api ssl1 = (r, ssl2)" by (metis prod.exhaust)
  note D = handshake_stays_completeD [OF assms(2)] and E = peer_certificate_fixedD [OF assms(3)]
  note unf = HandleIncoming_unfold [OF ssl w r, of want, unfolded assms(1)]
  have fin: "dtls_connected d \<Longrightarrow> SSL_is_init_finished api ssl"
    using assms(4) ssl(1) by (auto simp: dtls_inv_def)
  then have fin1: "dtls_connected d \<Longrightarrow> SSL_is_init_finished api ssl1" using D(3) [OF _ w] by blast
  consider (wr) "w \<noteq> int (length data)" | (one) "w = int (length data)" "r = 1" | (other) "w = int (length data)" "r \<noteq> 1"
    by blast
  then show ?thesis
  proof cases
    case wr
    then have "\<not> ok" "d' = d\<lparr>dtls_ssl := Some ssl1, dtls_lastError := ''BIO_write failed for DTLS datagram''\<rparr>"
      using unf by auto
    then show ?thesis
      using fin1 ssl(1) E(2) [OF fin w] by (auto simp: dtls_inv_def dtls_checked_def peer_verified_def)
  next
    case one
    have fin2: "SSL_is_init_finished api ssl2" using D(1) r one by blast
    have "check_peer api want ssl2 (d\<lparr>dtls_ssl := Some ssl2, dtls_connected := True\<rparr>) = (ok, out, d')"
      using one unf by simp
    from check_peer_props [OF this assms(2,3) fin2] show ?thesis
      using ssl(1) E(2) [OF fin w] E(1) [OF fin1 r]
      by (auto simp: dtls_checked_def peer_verified_def)
  next
    case other
    then have "\<not> dtls_connected d" using fin1 D(2) r by blast
    moreover have "\<not> dtls_connected d'"
      using calculation other unf by (auto split: if_splits dest: finish_drain_props(1) [OF sym])
    ultimately show ?thesis by (simp add: dtls_inv_def dtls_checked_def)
  qed
qed

lemma Start_props:
  assumes "DtlsTransport_Start api ready fp want d = (ok, out, d')" "\<not> dtls_connected d"
  shows "\<not> dtls_connected d'"
  using assms
  by (auto simp: DtlsTransport_Start_def Let_def split: if_splits option.splits prod.splits
      dest: finish_drain_props(1))

lemma Start_expected:
  assumes "DtlsTransport_Start api ready fp want d = (ok, out, d')" "dtls_ssl d = None" "\<not> dtls_started d"
  shows "dtls_expectedPeerFingerprint d' = NormalizeFingerprint fp \<or> dtls_ssl d' = None"
  using assms
  by (auto simp: DtlsTransport_Start_def Let_def split: if_splits option.splits prod.splits
      dest: finish_drain_props(1))

lemma check_peer_expected:
  "check_peer api want ssl d = (ok, out, d') \<Longrightarrow>
     dtls_expectedPeerFingerprint d' = dtls_expectedPeerFingerprint d"
  by (auto simp: check_peer_def Let_def split: if_splits option.splits dest: finish_drain_props(1))

lemma HandleIncoming_expected:
  assumes "DtlsTransport_HandleIncomingDatagram api data want d = (ok, out, d')"
  shows "dtls_expectedPeerFingerprint d' = dtls_expectedPeerFingerprint d \<and>
    (dtls_ssl d = None \<longrightarrow> dtls_ssl d' = None)"
proof (cases "\<not> dtls_started d \<or> data = [] \<or> dtls_ssl d = None")
  case True
  then show ?thesis
    using assms by (cases "dtls_ssl d") (auto simp: DtlsTransport_HandleIncomingDatagram_def split: if_splits)
next
  case False
  then obtain ssl where ssl: "dtls_ssl d = Some ssl" "dtls_started d" "data \<noteq> []" by auto
  obtain w ssl1 where w: "BIO_write api data ssl = (w, ssl1)" by (metis prod.exhaust)
  obtain r ssl2 where r: "SSL_do_handshake api ssl1 = (r, ssl2)" by (metis prod.exhaust)
  show ?thesis
    using HandleIncoming_unfold [OF ssl w r, of want, unfolded assms] ssl(1)
    by (auto split: if_splits dest: check_peer_expected [OF sym] finish_drain_props(1) [OF sym])
qed

section \<open>Keying material\<close>

text \<open>The SRTP keys of the two ends of one handshake mirror each other.\<close>

lemma Export_lengths:
  assumes "ExportSrtpKeyMaterial api k n d = Some m"
    "\<And>ssl l x. SSL_export_keying_material api ssl l ((k + n) * 2) = Some x \<Longrightarrow> length x = (k + n) * 2"
  shows "length (localKey m) = k \<and> length (remoteKey m) = k \<and> length (localSalt m) = n \<and> length (remoteSalt m) = n"
proof -
  obtain ssl x where "SSL_export_keying_material api ssl ''EXTRACTOR-dtls_srtp'' ((k + n) * 2) = Some x"
    and m: "m = \<lparr> localKey = (if dtls_role d = RoleClient then take k x else take k (drop k x)),
                  remoteKey = (if dtls_role d = RoleClient then take k (drop k x) else take k x),
                  localSalt = (if dtls_role d = RoleClient then take n (drop (2 * k) x) else take n (drop (2 * k + n) x)),
                  remoteSalt = (if dtls_role d = RoleClient then take n (drop (2 * k + n) x) else take n (drop (2 * k) x)) \<rparr>"
    using assms(1) by (auto simp: ExportSrtpKeyMaterial_def Let_def split: if_splits option.splits)
  then have "length x = (k + n) * 2" using assms(2) by blast
  then show ?thesis by (simp add: m)
qed

end
