(* ===== verification/ParticipantTransport.thy ===== *)
theory ParticipantTransport
  imports IceLiteSession DtlsTransport SrtpSession
begin

text \<open>
  The transport of one participant (\<open>meeting-server/sfu/server/ParticipantTransport.h\<close>): its
  identity, its ICE session, its DTLS transport and the two SRTP directions that are keyed
  from the DTLS handshake.
\<close>

record ('ssl, 's) ParticipantTransport =
  pt_meetingId :: string
  pt_userId :: string
  pt_publishAudio :: bool
  pt_publishVideo :: bool
  pt_clientDtlsFingerprint :: string
  pt_assignedAudioSsrc :: u32
  pt_assignedVideoSsrc :: u32
  pt_iceSession :: IceLiteSession
  pt_dtlsTransport :: "'ssl DtlsTransport option"
  pt_inboundSrtp :: "'s SrtpSession"
  pt_outboundSrtp :: "'s SrtpSession"
  pt_srtpReady :: bool
  pt_lastError :: string

definition ParticipantTransport_new ::
  "string \<Rightarrow> string \<Rightarrow> bool \<Rightarrow> bool \<Rightarrow> string \<Rightarrow> u32 \<Rightarrow> u32 \<Rightarrow> IceLiteSession \<Rightarrow>
   'ssl DtlsTransport option \<Rightarrow> ('ssl, 's) ParticipantTransport" where
  "ParticipantTransport_new meetingId userId publishAudio publishVideo clientDtlsFingerprint
     assignedAudioSsrc assignedVideoSsrc iceSession dtlsTransport =
     \<lparr> pt_meetingId = meetingId, pt_userId = userId, pt_publishAudio = publishAudio,
       pt_publishVideo = publishVideo, pt_clientDtlsFingerprint = clientDtlsFingerprint,
       pt_assignedAudioSsrc = assignedAudioSsrc, pt_assignedVideoSsrc = assignedVideoSsrc,
       pt_iceSession = iceSession, pt_dtlsTransport = dtlsTransport,
       pt_inboundSrtp = SrtpSession_new, pt_outboundSrtp = SrtpSession_new,
       pt_srtpReady = False, pt_lastError = [] \<rparr>"

definition OwnsSsrc :: "u32 \<Rightarrow> ('ssl, 's) ParticipantTransport \<Rightarrow> bool" where
  "OwnsSsrc ssrc t \<longleftrightarrow> ssrc \<noteq> 0 \<and> (pt_assignedAudioSsrc t = ssrc \<or> pt_assignedVideoSsrc t = ssrc)"

definition DtlsConnected :: "('ssl, 's) ParticipantTransport \<Rightarrow> bool" where
  "DtlsConnected t = (case pt_dtlsTransport t of None \<Rightarrow> False | Some d \<Rightarrow> dtls_connected d)"

definition kMasterKeyLen :: nat where "kMasterKeyLen = 16"
definition kMasterSaltLen :: nat where "kMasterSaltLen = 14"

text \<open>
  The second \<open>Configure\<close> runs only when the first one succeeded; when either fails the error is
  the one of the inbound session, unless that is empty.
\<close>

definition ConfigureSrtpSessions ::
  "'ssl openssl \<Rightarrow> 's libsrtp \<Rightarrow> ('ssl, 's) ParticipantTransport \<Rightarrow> bool \<times> ('ssl, 's) ParticipantTransport" where
  "ConfigureSrtpSessions api lib t =
     (case pt_dtlsTransport t of
        None \<Rightarrow> (False, t\<lparr>pt_lastError := ''DTLS transport is not connected''\<rparr>)
      | Some d \<Rightarrow>
          if \<not> dtls_connected d then (False, t\<lparr>pt_lastError := ''DTLS transport is not connected''\<rparr>)
          else case ExportSrtpKeyMaterial api kMasterKeyLen kMasterSaltLen d of
            None \<Rightarrow> (False, t\<lparr>pt_lastError := ''DTLS SRTP exporter failed''\<rparr>)
          | Some keying \<Rightarrow>
              let (okIn, inb) = SrtpSession_Configure lib (remoteKey keying) (remoteSalt keying) Inbound 0
                    (pt_inboundSrtp t);
                  (okOut, outb) = (if okIn
                    then SrtpSession_Configure lib (localKey keying) (localSalt keying) Outbound 0
                      (pt_outboundSrtp t)
                    else (False, pt_outboundSrtp t));
                  t1 = t\<lparr>pt_inboundSrtp := inb, pt_outboundSrtp := outb\<rparr>
              in if \<not> okIn \<or> \<not> okOut
                 then (False, t1\<lparr>pt_lastError :=
                         (if srs_lastError inb = [] then srs_lastError outb else srs_lastError inb)\<rparr>)
                 else (True, t1\<lparr>pt_srtpReady := True, pt_lastError := []\<rparr>))"

definition HandleDtlsDatagram ::
  "'ssl openssl \<Rightarrow> 's libsrtp \<Rightarrow> bytes \<Rightarrow> bool \<Rightarrow> ('ssl, 's) ParticipantTransport \<Rightarrow>
   bool \<times> bytes list \<times> ('ssl, 's) ParticipantTransport" where
  "HandleDtlsDatagram api lib data want t =
     (case pt_dtlsTransport t of
        None \<Rightarrow> (False, [], t\<lparr>pt_lastError := ''DTLS transport is not configured''\<rparr>)
      | Some d \<Rightarrow>
          let (ok, outgoing, d') = DtlsTransport_HandleIncomingDatagram api data want d;
              t1 = t\<lparr>pt_dtlsTransport := Some d'\<rparr>
          in if \<not> ok then (False, outgoing, t1\<lparr>pt_lastError := dtls_lastError d'\<rparr>)
             else if dtls_connected d' \<and> \<not> pt_srtpReady t1
             then case ConfigureSrtpSessions api lib t1 of
                    (False, t2) \<Rightarrow> (False, outgoing, t2)
                  | (True, t2) \<Rightarrow> (True, outgoing, t2\<lparr>pt_lastError := []\<rparr>)
             else (True, outgoing, t1\<lparr>pt_lastError := []\<rparr>))"

text \<open>The four packet operations; each touches one direction only.\<close>

definition ParticipantTransport_ProtectRtp ::
  "'s libsrtp \<Rightarrow> bytes \<Rightarrow> ('ssl, 's) ParticipantTransport \<Rightarrow> bool \<times> bytes \<times> ('ssl, 's) ParticipantTransport" where
  "ParticipantTransport_ProtectRtp lib packet t =
     (if \<not> pt_srtpReady t then (False, packet, t\<lparr>pt_lastError := ''SRTP is not ready''\<rparr>)
      else let (ok, packet', s) = SrtpSession_ProtectRtp lib packet (pt_outboundSrtp t)
           in (ok, packet', t\<lparr>pt_outboundSrtp := s, pt_lastError := (if ok then [] else srs_lastError s)\<rparr>))"

definition ParticipantTransport_UnprotectRtp ::
  "'s libsrtp \<Rightarrow> bytes \<Rightarrow> ('ssl, 's) ParticipantTransport \<Rightarrow> bool \<times> bytes \<times> ('ssl, 's) ParticipantTransport" where
  "ParticipantTransport_UnprotectRtp lib packet t =
     (if \<not> pt_srtpReady t then (False, packet, t\<lparr>pt_lastError := ''SRTP is not ready''\<rparr>)
      else let (ok, packet', s) = SrtpSession_UnprotectRtp lib packet (pt_inboundSrtp t)
           in (ok, packet', t\<lparr>pt_inboundSrtp := s, pt_lastError := (if ok then [] else srs_lastError s)\<rparr>))"

definition ParticipantTransport_ProtectRtcp ::
  "'s libsrtp \<Rightarrow> bytes \<Rightarrow> ('ssl, 's) ParticipantTransport \<Rightarrow> bool \<times> bytes \<times> ('ssl, 's) ParticipantTransport" where
  "ParticipantTransport_ProtectRtcp lib packet t =
     (if \<not> pt_srtpReady t then (False, packet, t\<lparr>pt_lastError := ''SRTP is not ready''\<rparr>)
      else let (ok, packet', s) = SrtpSession_ProtectRtcp lib packet (pt_outboundSrtp t)
           in (ok, packet', t\<lparr>pt_outboundSrtp := s, pt_lastError := (if ok then [] else srs_lastError s)\<rparr>))"

definition ParticipantTransport_UnprotectRtcp ::
  "'s libsrtp \<Rightarrow> bytes \<Rightarrow> ('ssl, 's) ParticipantTransport \<Rightarrow> bool \<times> bytes \<times> ('ssl, 's) ParticipantTransport" where
  "ParticipantTransport_UnprotectRtcp lib packet t =
     (if \<not> pt_srtpReady t then (False, packet, t\<lparr>pt_lastError := ''SRTP is not ready''\<rparr>)
      else let (ok, packet', s) = SrtpSession_UnprotectRtcp lib packet (pt_inboundSrtp t)
           in (ok, packet', t\<lparr>pt_inboundSrtp := s, pt_lastError := (if ok then [] else srs_lastError s)\<rparr>))"

section \<open>Readiness implies a verified peer\<close>

text \<open>
  The steps of a transport: a DTLS datagram, a packet in either direction, and a change of the
  ICE session (candidates and the selected endpoint).
\<close>

inductive transport_step ::
  "'ssl openssl \<Rightarrow> 's libsrtp \<Rightarrow> ('ssl, 's) ParticipantTransport \<Rightarrow> ('ssl, 's) ParticipantTransport \<Rightarrow> bool"
  for api lib where
  dtls: "HandleDtlsDatagram api lib data want t = (ok, outgoing, t') \<Longrightarrow> transport_step api lib t t'"
| protect_rtp: "transport_step api lib t (snd (snd (ParticipantTransport_ProtectRtp lib packet t)))"
| unprotect_rtp: "transport_step api lib t (snd (snd (ParticipantTransport_UnprotectRtp lib packet t)))"
| protect_rtcp: "transport_step api lib t (snd (snd (ParticipantTransport_ProtectRtcp lib packet t)))"
| unprotect_rtcp: "transport_step api lib t (snd (snd (ParticipantTransport_UnprotectRtcp lib packet t)))"
| ice: "transport_step api lib t (t\<lparr>pt_iceSession := s\<rparr>)"

text \<open>A new transport, its DTLS part started in the given role for the announced fingerprint.\<close>

definition started_transport ::
  "'ssl openssl \<Rightarrow> Role \<Rightarrow> string \<Rightarrow> ('ssl, 's) ParticipantTransport \<Rightarrow> bool" where
  "started_transport api role fingerprint t \<longleftrightarrow>
     (\<exists>meetingId userId pa pv aud vid iceSession ready want outgoing d.
        DtlsTransport_Start api ready fingerprint want (DtlsTransport_new role) = (True, outgoing, d) \<and>
        t = ParticipantTransport_new meetingId userId pa pv fingerprint aud vid iceSession (Some d))"

definition transport_inv :: "'ssl openssl \<Rightarrow> string \<Rightarrow> ('ssl, 's) ParticipantTransport \<Rightarrow> bool" where
  "transport_inv api fingerprint t \<longleftrightarrow>
     (\<forall>d. pt_dtlsTransport t = Some d \<longrightarrow> dtls_inv api d \<and>
        (dtls_ssl d = None \<or> dtls_expectedPeerFingerprint d = NormalizeFingerprint fingerprint)) \<and>
     (pt_srtpReady t \<longrightarrow> (\<exists>d. pt_dtlsTransport t = Some d \<and> dtls_checked api d) \<and>
        SrtpSession_IsConfigured (pt_inboundSrtp t) \<and> SrtpSession_IsConfigured (pt_outboundSrtp t))"

lemma transport_inv_init:
  assumes "started_transport api role fingerprint t"
  shows "transport_inv api fingerprint t"
proof -
  obtain meetingId userId pa pv aud vid iceSession ready want outgoing d where
    st: "DtlsTransport_Start api ready fingerprint want (DtlsTransport_new role) = (True, outgoing, d)" and
    t: "t = ParticipantTransport_new meetingId userId pa pv fingerprint aud vid iceSession (Some d)"
    using assms by (auto simp: started_transport_def)
  have "\<not> dtls_connected d" using Start_props [OF st] by (simp add: DtlsTransport_new_def)
  moreover have "dtls_expectedPeerFingerprint d = NormalizeFingerprint fingerprint \<or> dtls_ssl d = None"
    using Start_expected [OF st] by (simp add: DtlsTransport_new_def)
  ultimately show ?thesis
    by (auto simp: transport_inv_def t ParticipantTransport_new_def dtls_inv_def)
qed

lemma ConfigureSrtpSessions_props:
  assumes "ConfigureSrtpSessions api lib t = (ok, t')"
  shows "pt_dtlsTransport t' = pt_dtlsTransport t" "pt_srtpReady t' = (pt_srtpReady t \<or> ok)"
    "ok \<Longrightarrow> SrtpSession_IsConfigured (pt_inboundSrtp t') \<and> SrtpSession_IsConfigured (pt_outboundSrtp t')"
  using assms
  by (auto simp: ConfigureSrtpSessions_def Let_def dest: Configure_keys
      split: if_splits option.splits prod.splits)

lemma transport_inv_dtls:
  assumes "HandleDtlsDatagram api lib data want t = (ok, outgoing, t')" "transport_inv api fp t"
    "handshake_stays_complete api" "peer_certificate_fixed api"
  shows "transport_inv api fp t'"
proof (cases "pt_dtlsTransport t")
  case None
  then show ?thesis using assms(1,2) by (auto simp: HandleDtlsDatagram_def transport_inv_def)
next
  case (Some d)
  obtain ok1 out1 d' where h: "DtlsTransport_HandleIncomingDatagram api data want d = (ok1, out1, d')"
    by (metis prod_cases3)
  have inv: "dtls_inv api d" using assms(2) Some by (auto simp: transport_inv_def)
  note props = HandleIncoming_props [OF h assms(3,4) inv] and ex = HandleIncoming_expected [OF h]
  define t1 where "t1 = t\<lparr>pt_dtlsTransport := Some d'\<rparr>"
  have t1: "transport_inv api fp t1"
    using assms(2) Some props ex by (auto simp: transport_inv_def t1_def)
  obtain okc t2 where c: "ConfigureSrtpSessions api lib t1 = (okc, t2)" by (metis prod.exhaust)
  have t': "t' = (if \<not> ok1 then t1\<lparr>pt_lastError := dtls_lastError d'\<rparr>
      else if dtls_connected d' \<and> \<not> pt_srtpReady t1
      then (if okc then t2\<lparr>pt_lastError := []\<rparr> else t2) else t1\<lparr>pt_lastError := []\<rparr>)"
    using assms(1) Some h c by (cases okc) (auto simp: HandleDtlsDatagram_def t1_def split: if_splits)
  have "transport_inv api fp t2" if "ok1" "dtls_connected d'" "\<not> pt_srtpReady t1"
    using ConfigureSrtpSessions_props [OF c] t1 props that
    by (auto simp: transport_inv_def t1_def)
  then show ?thesis using t1 unfolding t' by (auto simp: transport_inv_def)
qed

lemma transport_inv_packet:
  assumes "transport_inv api fp t"
  shows "transport_inv api fp (snd (snd (ParticipantTransport_ProtectRtp lib p t)))"
    "transport_inv api fp (snd (snd (ParticipantTransport_UnprotectRtp lib p t)))"
    "transport_inv api fp (snd (snd (ParticipantTransport_ProtectRtcp lib p t)))"
    "transport_inv api fp (snd (snd (ParticipantTransport_UnprotectRtcp lib p t)))"
  using assms protect_packet_keys [of lib]
  by (auto simp: transport_inv_def ParticipantTransport_ProtectRtp_def ParticipantTransport_UnprotectRtp_def
      ParticipantTransport_ProtectRtcp_def ParticipantTransport_UnprotectRtcp_def
      SrtpSession_ProtectRtp_def SrtpSession_UnprotectRtp_def SrtpSession_ProtectRtcp_def
      SrtpSession_UnprotectRtcp_def case_prod_beta Let_def)

lemma transport_step_inv:
  assumes "handshake_stays_complete api" "peer_certificate_fixed api"
  shows "transport_step api lib t t' \<Longrightarrow> transport_inv api fp t \<Longrightarrow> transport_inv api fp t'"
proof (induction rule: transport_step.induct)
  case (dtls data want t ok outgoing t')
  then show ?case using transport_inv_dtls assms by blast
next
  case (ice t s)
  then show ?case by (simp add: transport_inv_def)
qed (simp_all add: transport_inv_packet)

interpretation transport: state_machine "\<lambda>t. \<exists>role. started_transport api role fp t" "transport_step api lib"
  "\<lambda>t. handshake_stays_complete api \<and> peer_certificate_fixed api \<longrightarrow> transport_inv api fp t"
  for api lib fp
  by unfold_locales (use transport_inv_init transport_step_inv in blast)+

lemma transport_reachable_inv:
  assumes "handshake_stays_complete api" "peer_certificate_fixed api"
    "started_transport api role fp t0" "(transport_step api lib)\<^sup>*\<^sup>* t0 t"
  shows "transport_inv api fp t"
  using transport.reachable_inv [of api fp t0 lib t] assms by blast

text \<open>
  C3. Media keys exist only for a verified peer. On a transport that was started for the
  fingerprint announced by the signaling, in every state that any sequence of DTLS datagrams,
  packets and ICE changes can reach: when SRTP is ready, the handshake is complete, the
  certificate of the peer has exactly the announced SHA-256 fingerprint (when one was
  announced), and both SRTP directions are keyed. In particular a datagram that completes a
  handshake with a wrong certificate, after which the code already counts the transport as
  connected, and any datagrams after it, never make SRTP ready.
\<close>

theorem srtp_ready_peer_verified:
  assumes "handshake_stays_complete api" "peer_certificate_fixed api"
    and "started_transport api role fingerprint t0" and "(transport_step api lib)\<^sup>*\<^sup>* t0 t"
    and "pt_srtpReady t"
  shows "\<exists>d ssl digest. pt_dtlsTransport t = Some d \<and> dtls_ssl d = Some ssl \<and>
     SSL_is_init_finished api ssl \<and> X509_peer_digest api ssl = Some digest \<and>
     (NormalizeFingerprint fingerprint = [] \<or> NormalizeFingerprint fingerprint = FormatFingerprint digest) \<and>
     SrtpSession_IsConfigured (pt_inboundSrtp t) \<and> SrtpSession_IsConfigured (pt_outboundSrtp t)"
proof -
  have inv: "transport_inv api fingerprint t" using assms transport_reachable_inv by blast
  then obtain d where d: "pt_dtlsTransport t = Some d" "dtls_checked api d"
    using assms(5) by (auto simp: transport_inv_def)
  then have "dtls_expectedPeerFingerprint d = NormalizeFingerprint fingerprint"
    using inv by (auto simp: transport_inv_def dtls_checked_def)
  then show ?thesis
    using d inv assms(5)
    by (auto simp: transport_inv_def dtls_checked_def peer_verified_def Normalize_Format)
qed

text \<open>A library instance for the witnesses: the handshake completes with the first datagram.\<close>

definition demo_ssl :: "nat openssl" where
  "demo_ssl = \<lparr> SSL_new = Some 0, BIO_new = True, SSL_set_state = (\<lambda>_ s. s),
     BIO_write = (\<lambda>d s. (int (length d), Suc s)),
     SSL_do_handshake = (\<lambda>s. (if s = 0 then -1 else 1, s)), SSL_get_error = (\<lambda>_ _. 2),
     ERR_reason = (\<lambda>_. None), BIO_ctrl_pending = (\<lambda>_. 0), BIO_read = (\<lambda>_ s. (None, s)),
     X509_peer_digest = (\<lambda>_. Some [0xAB, 1]), SSL_get_selected_srtp_profile = (\<lambda>_. Some ''SRTP''),
     SSL_export_keying_material = (\<lambda>_ _ n. Some (map of_nat [0..<n])),
     SSL_is_init_finished = (\<lambda>s. s \<noteq> 0) \<rparr>"

definition demo_srtp :: "unit libsrtp" where
  "demo_srtp = \<lparr> have_libsrtp2 = True, srtp_master_key_length = 16, srtp_master_salt_length = 14,
     srtp_library = None, srtp_policy_rtp = 0, srtp_policy_rtcp = 0,
     srtp_create = (\<lambda>_ _ _. (0, Some ())),
     srtp_protect = (\<lambda>p s. (0, int (length p) + 1, p @ [0], s)),
     srtp_unprotect = (\<lambda>p s. (0, int (length p) - 1, p, s)),
     srtp_protect_rtcp = (\<lambda>p s. (0, int (length p) + 1, p @ [0], s)),
     srtp_unprotect_rtcp = (\<lambda>p s. (0, int (length p) - 1, p, s)) \<rparr>"

definition demo_transport :: "Role \<Rightarrow> (nat, unit) ParticipantTransport" where
  "demo_transport role = ParticipantTransport_new ''m'' ''u'' True True ''ab:01'' 7 8 IceLiteSession_new
     (Some (snd (snd (DtlsTransport_Start demo_ssl True ''ab:01'' True (DtlsTransport_new role)))))"

lemma demo_ssl_ok: "handshake_stays_complete demo_ssl" "peer_certificate_fixed demo_ssl"
  by (auto simp: handshake_stays_complete_def peer_certificate_fixed_def demo_ssl_def)

lemma demo_started: "started_transport demo_ssl role ''ab:01'' (demo_transport role)"
proof -
  have "fst (DtlsTransport_Start demo_ssl True ''ab:01'' True (DtlsTransport_new role))"
    by (simp add: DtlsTransport_Start_def demo_ssl_def finish_drain_def DrainBio_def DtlsTransport_new_def)
  then obtain outgoing d where
    "DtlsTransport_Start demo_ssl True ''ab:01'' True (DtlsTransport_new role) = (True, outgoing, d)"
    by (cases "DtlsTransport_Start demo_ssl True ''ab:01'' True (DtlsTransport_new role)") auto
  then show ?thesis unfolding started_transport_def demo_transport_def by fastforce
qed

lemma demo_ready:
  "pt_srtpReady (snd (snd (HandleDtlsDatagram demo_ssl demo_srtp [22] True (demo_transport RoleServer))))"
  by code_simp

theorem srtp_ready_peer_verified_witness:
  "\<exists>d ssl digest. pt_dtlsTransport (snd (snd (HandleDtlsDatagram demo_ssl demo_srtp [22] True
        (demo_transport RoleServer)))) = Some d \<and> dtls_ssl d = Some ssl \<and>
     X509_peer_digest demo_ssl ssl = Some digest \<and>
     NormalizeFingerprint ''ab:01'' = FormatFingerprint digest"
proof -
  let ?t = "snd (snd (HandleDtlsDatagram demo_ssl demo_srtp [22] True (demo_transport RoleServer)))"
  have step: "(transport_step demo_ssl demo_srtp)\<^sup>*\<^sup>* (demo_transport RoleServer) ?t"
    by (rule r_into_rtranclp, rule transport_step.dtls [OF surjective_pairing [THEN trans]])
      (rule arg_cong [where f = "Pair _"], rule surjective_pairing)
  have "NormalizeFingerprint ''ab:01'' \<noteq> []" by code_simp
  then show ?thesis
    using srtp_ready_peer_verified [OF demo_ssl_ok demo_started step demo_ready] by blast
qed

section \<open>The keys of the two ends\<close>

lemma ConfigureSrtpSessions_keys:
  assumes "ConfigureSrtpSessions api lib t = (True, t')" "pt_dtlsTransport t = Some d"
  shows "\<exists>m. ExportSrtpKeyMaterial api 16 14 d = Some m \<and>
    srs_masterKey (pt_inboundSrtp t') = remoteKey m \<and> srs_masterSalt (pt_inboundSrtp t') = remoteSalt m \<and>
    srs_masterKey (pt_outboundSrtp t') = localKey m \<and> srs_masterSalt (pt_outboundSrtp t') = localSalt m"
  using assms Configure_keys [of lib]
  by (auto simp: ConfigureSrtpSessions_def kMasterKeyLen_def kMasterSaltLen_def Let_def
      split: if_splits option.splits prod.splits)

text \<open>
  The two ends of one handshake, one in the client and one in the server role, derive
  matching SRTP keys: what each end encrypts with is what the other decrypts with, key and
  salt, in both directions.
\<close>

theorem srtp_keys_mirror:
  assumes "ConfigureSrtpSessions api lib a = (True, a')" "ConfigureSrtpSessions api lib b = (True, b')"
    and "pt_dtlsTransport a = Some da" "dtls_role da = RoleServer" "dtls_ssl da = Some sa"
    and "pt_dtlsTransport b = Some db" "dtls_role db = RoleClient" "dtls_ssl db = Some sb"
    and same_secret: "\<And>label n. SSL_export_keying_material api sa label n = SSL_export_keying_material api sb label n"
  shows "srs_masterKey (pt_outboundSrtp a') = srs_masterKey (pt_inboundSrtp b') \<and>
    srs_masterSalt (pt_outboundSrtp a') = srs_masterSalt (pt_inboundSrtp b') \<and>
    srs_masterKey (pt_inboundSrtp a') = srs_masterKey (pt_outboundSrtp b') \<and>
    srs_masterSalt (pt_inboundSrtp a') = srs_masterSalt (pt_outboundSrtp b')"
proof -
  obtain m where m: "ExportSrtpKeyMaterial api 16 14 da = Some m"
    "srs_masterKey (pt_inboundSrtp a') = remoteKey m" "srs_masterSalt (pt_inboundSrtp a') = remoteSalt m"
    "srs_masterKey (pt_outboundSrtp a') = localKey m" "srs_masterSalt (pt_outboundSrtp a') = localSalt m"
    using ConfigureSrtpSessions_keys [OF assms(1,3)] by blast
  obtain n where n: "ExportSrtpKeyMaterial api 16 14 db = Some n"
    "srs_masterKey (pt_inboundSrtp b') = remoteKey n" "srs_masterSalt (pt_inboundSrtp b') = remoteSalt n"
    "srs_masterKey (pt_outboundSrtp b') = localKey n" "srs_masterSalt (pt_outboundSrtp b') = localSalt n"
    using ConfigureSrtpSessions_keys [OF assms(2,6)] by blast
  have "localKey m = remoteKey n \<and> localSalt m = remoteSalt n \<and> remoteKey m = localKey n \<and> remoteSalt m = localSalt n"
    using m(1) n(1) assms(4,5,7,8) same_secret
    by (auto simp: ExportSrtpKeyMaterial_def Let_def split: if_splits option.splits)
  then show ?thesis using m n by simp
qed

definition demo_connected :: "Role \<Rightarrow> (nat, unit) ParticipantTransport" where
  "demo_connected role = (demo_transport role)\<lparr>pt_dtlsTransport :=
     Some ((DtlsTransport_new role)\<lparr>dtls_connected := True, dtls_ssl := Some 1\<rparr>)\<rparr>"

theorem srtp_keys_mirror_witness:
  "srs_masterKey (pt_outboundSrtp (snd (ConfigureSrtpSessions demo_ssl demo_srtp (demo_connected RoleServer)))) =
   srs_masterKey (pt_inboundSrtp (snd (ConfigureSrtpSessions demo_ssl demo_srtp (demo_connected RoleClient))))"
proof -
  have ok: "fst (ConfigureSrtpSessions demo_ssl demo_srtp (demo_connected RoleServer))"
    "fst (ConfigureSrtpSessions demo_ssl demo_srtp (demo_connected RoleClient))"
    by code_simp+
  have a: "ConfigureSrtpSessions demo_ssl demo_srtp (demo_connected RoleServer) =
      (True, snd (ConfigureSrtpSessions demo_ssl demo_srtp (demo_connected RoleServer)))"
    using ok(1) by (metis prod.collapse)
  have b: "ConfigureSrtpSessions demo_ssl demo_srtp (demo_connected RoleClient) =
      (True, snd (ConfigureSrtpSessions demo_ssl demo_srtp (demo_connected RoleClient)))"
    using ok(2) by (metis prod.collapse)
  show ?thesis
    using srtp_keys_mirror [OF a b,
        of "(DtlsTransport_new RoleServer)\<lparr>dtls_connected := True, dtls_ssl := Some 1\<rparr>" 1
           "(DtlsTransport_new RoleClient)\<lparr>dtls_connected := True, dtls_ssl := Some 1\<rparr>" 1]
    by (simp add: demo_connected_def DtlsTransport_new_def)
qed

end
