(* ===== verification/TransportRegistry.thy ===== *)
theory TransportRegistry
  imports ParticipantTransport
begin

text \<open>
  The table of participant transports (\<open>meeting-server/sfu/server/TransportRegistry.h\<close>). Every
  method holds the registry's lock for its whole body. The two functions that search for the
  transport of an endpoint return or change the first match in iteration order.
\<close>

type_synonym ('ssl, 's) transports = "(string, ('ssl, 's) ParticipantTransport) umap"

definition Kind :: "bool \<Rightarrow> bool \<Rightarrow> string" where
  "Kind publishAudio publishVideo =
     (if publishAudio \<and> publishVideo then ''av'' else if publishVideo then ''video'' else ''audio'')"

definition Key :: "string \<Rightarrow> string \<Rightarrow> string \<Rightarrow> string" where
  "Key meetingId userId mediaKind = meetingId @ ''|'' @ userId @ ''|'' @ mediaKind"

definition Upsert ::
  "('ssl, 's) ParticipantTransport \<Rightarrow> string \<Rightarrow> ('ssl, 's) transports \<Rightarrow> ('ssl, 's) transports" where
  "Upsert transport mediaKind r =
     AList.update (Key (pt_meetingId transport) (pt_userId transport) mediaKind) transport r"

definition of_user :: "string \<Rightarrow> string \<Rightarrow> ('ssl, 's) ParticipantTransport \<Rightarrow> bool" where
  "of_user meetingId userId t \<longleftrightarrow> pt_meetingId t = meetingId \<and> pt_userId t = userId"

definition AppendIceCandidate ::
  "string \<Rightarrow> string \<Rightarrow> string \<Rightarrow> bool \<Rightarrow> ('ssl, 's) transports \<Rightarrow> bool \<times> ('ssl, 's) transports" where
  "AppendIceCandidate meetingId userId candidate endOfCandidates r =
     (list_ex (\<lambda>(key, t). of_user meetingId userId t) r,
      map (\<lambda>(key, t).
        (key, if \<not> of_user meetingId userId t then t
              else
                let s = AppendClientCandidate candidate (pt_iceSession t)
                in t\<lparr>pt_iceSession := (if endOfCandidates then MarkEndOfCandidates s else s)\<rparr>)) r)"

definition EraseUserTransports ::
  "string \<Rightarrow> string \<Rightarrow> ('ssl, 's) transports \<Rightarrow> bool \<times> ('ssl, 's) transports" where
  "EraseUserTransports meetingId userId r =
     (list_ex (\<lambda>(key, t). of_user meetingId userId t) r,
      um_erase_if (\<lambda>key t. of_user meetingId userId t) r)"

text \<open>
  \<open>key.substr(key.rfind('|') + 1)\<close>, or the empty string when there is no such character.
\<close>

definition after_last_bar :: "string \<Rightarrow> string" where
  "after_last_bar key =
     (if CHR ''|'' \<in> set key then rev (takeWhile (\<lambda>c. c \<noteq> CHR ''|'') (rev key)) else [])"

fun SelectEndpointForUsername ::
  "string \<Rightarrow> Endpoint \<Rightarrow> ('ssl, 's) transports \<Rightarrow>
   (string \<times> string \<times> string) option \<times> ('ssl, 's) transports" where
  "SelectEndpointForUsername username endpoint [] = (None, [])"
| "SelectEndpointForUsername username endpoint ((key, t) # r) =
     (if MatchesUsername username (pt_iceSession t)
      then (Some (pt_meetingId t, pt_userId t, after_last_bar key),
            (key, t\<lparr>pt_iceSession := SelectEndpoint endpoint (pt_iceSession t)\<rparr>) # r)
      else let (res, r') = SelectEndpointForUsername username endpoint r in (res, (key, t) # r'))"

definition selected_for :: "Endpoint \<Rightarrow> ('ssl, 's) ParticipantTransport \<Rightarrow> bool" where
  "selected_for endpoint t \<longleftrightarrow> ice_hasSelectedEndpoint (pt_iceSession t) \<and>
     SameEndpoint (ice_selectedEndpoint (pt_iceSession t)) endpoint"

definition TransportAllowsSsrcFrom :: "u32 \<Rightarrow> Endpoint \<Rightarrow> ('ssl, 's) transports \<Rightarrow> bool" where
  "TransportAllowsSsrcFrom ssrc endpoint r =
     (if ssrc = 0 then True
      else if list_ex (\<lambda>(key, t). OwnsSsrc ssrc t \<and> ice_iceConnected (pt_iceSession t) \<and> selected_for endpoint t) r
      then True
      else \<not> list_ex (\<lambda>(key, t). OwnsSsrc ssrc t) r)"

definition HasTransportForSsrc :: "u32 \<Rightarrow> ('ssl, 's) transports \<Rightarrow> bool" where
  "HasTransportForSsrc ssrc r = (if ssrc = 0 then False else list_ex (\<lambda>(key, t). OwnsSsrc ssrc t) r)"

definition HasSelectedTransportForEndpoint :: "Endpoint \<Rightarrow> ('ssl, 's) transports \<Rightarrow> bool" where
  "HasSelectedTransportForEndpoint endpoint r = list_ex (\<lambda>(key, t). selected_for endpoint t) r"

definition FindBySelectedEndpoint ::
  "Endpoint \<Rightarrow> ('ssl, 's) transports \<Rightarrow> (string \<times> ('ssl, 's) ParticipantTransport) option" where
  "FindBySelectedEndpoint endpoint r = find (\<lambda>(key, t). selected_for endpoint t) r"

definition HandleDtlsFromEndpoint ::
  "'ssl openssl \<Rightarrow> 's libsrtp \<Rightarrow> Endpoint \<Rightarrow> bytes \<Rightarrow> ('ssl, 's) transports \<Rightarrow>
   bool \<times> bytes list \<times> ('ssl, 's) transports" where
  "HandleDtlsFromEndpoint api lib endpoint data r =
     (case FindBySelectedEndpoint endpoint r of
        None \<Rightarrow> (False, [], r)
      | Some (key, t) \<Rightarrow>
          if \<not> ice_iceConnected (pt_iceSession t) then (False, [], r)
          else let (ok, outgoing, t') = HandleDtlsDatagram api lib data True t
               in (ok, outgoing, AList.update key t' r))"

definition SrtpReadyForSsrcFrom :: "u32 \<Rightarrow> Endpoint \<Rightarrow> ('ssl, 's) transports \<Rightarrow> bool" where
  "SrtpReadyForSsrcFrom ssrc endpoint r =
     (case find (\<lambda>(key, t). OwnsSsrc ssrc t \<and> selected_for endpoint t) r of
        Some (key, t) \<Rightarrow> pt_srtpReady t
      | None \<Rightarrow> False)"

text \<open>
  The common text of the four packet methods: \<open>operation\<close> on the transport of the endpoint.
  The result carries the packet as it is left in the caller's vector.
\<close>

definition with_endpoint ::
  "(bytes \<Rightarrow> ('ssl, 's) ParticipantTransport \<Rightarrow> bool \<times> bytes \<times> ('ssl, 's) ParticipantTransport) \<Rightarrow>
   nat \<Rightarrow> Endpoint \<Rightarrow> bytes \<Rightarrow> ('ssl, 's) transports \<Rightarrow> bool \<times> bytes \<times> ('ssl, 's) transports" where
  "with_endpoint operation minSize endpoint packet r =
     (if length packet < minSize then (False, packet, r)
      else case FindBySelectedEndpoint endpoint r of
        None \<Rightarrow> (False, packet, r)
      | Some (key, t) \<Rightarrow>
          let (ok, packet', t') = operation packet t in (ok, packet', AList.update key t' r))"

definition UnprotectRtpFromEndpoint ::
  "'s libsrtp \<Rightarrow> Endpoint \<Rightarrow> bytes \<Rightarrow> ('ssl, 's) transports \<Rightarrow> bool \<times> bytes \<times> ('ssl, 's) transports" where
  "UnprotectRtpFromEndpoint lib = with_endpoint (ParticipantTransport_UnprotectRtp lib) 12"

definition UnprotectRtcpFromEndpoint ::
  "'s libsrtp \<Rightarrow> Endpoint \<Rightarrow> bytes \<Rightarrow> ('ssl, 's) transports \<Rightarrow> bool \<times> bytes \<times> ('ssl, 's) transports" where
  "UnprotectRtcpFromEndpoint lib = with_endpoint (ParticipantTransport_UnprotectRtcp lib) 1"

definition ProtectRtpToEndpoint ::
  "'s libsrtp \<Rightarrow> Endpoint \<Rightarrow> bytes \<Rightarrow> ('ssl, 's) transports \<Rightarrow> bool \<times> bytes \<times> ('ssl, 's) transports" where
  "ProtectRtpToEndpoint lib = with_endpoint (ParticipantTransport_ProtectRtp lib) 1"

definition ProtectRtcpToEndpoint ::
  "'s libsrtp \<Rightarrow> Endpoint \<Rightarrow> bytes \<Rightarrow> ('ssl, 's) transports \<Rightarrow> bool \<times> bytes \<times> ('ssl, 's) transports" where
  "ProtectRtcpToEndpoint lib = with_endpoint (ParticipantTransport_ProtectRtcp lib) 1"

section \<open>The registry's invariant\<close>

text \<open>
  Distinct keys, and on every transport the two ICE flags agree.
\<close>

definition registry_inv :: "('ssl, 's) transports \<Rightarrow> bool" where
  "registry_inv r \<longleftrightarrow> um_ok r \<and> (\<forall>(key, t) \<in> set r. ice_inv (pt_iceSession t))"

lemma registry_invD: "registry_inv r \<Longrightarrow> (key, t) \<in> set r \<Longrightarrow> ice_inv (pt_iceSession t)"
  by (auto simp: registry_inv_def)

lemma registry_inv_update:
  assumes "registry_inv r" "ice_inv (pt_iceSession t)"
  shows "registry_inv (AList.update key t r)"
  using assms set_update_subset [of key t r] by (auto simp: registry_inv_def)

lemma FindBySelectedEndpoint_sound:
  assumes "FindBySelectedEndpoint ep r = Some (key, t)"
  shows "(key, t) \<in> set r \<and> selected_for ep t"
  using assms by (auto simp: FindBySelectedEndpoint_def find_Some_iff) (metis nth_mem)

lemma FindBySelectedEndpoint_None:
  "FindBySelectedEndpoint ep r = None \<longleftrightarrow> \<not> HasSelectedTransportForEndpoint ep r"
  by (auto simp: FindBySelectedEndpoint_def HasSelectedTransportForEndpoint_def find_None_iff list_ex_iff)

lemma Select_keys: "map fst (snd (SelectEndpointForUsername u ep r)) = map fst r"
  by (induction r) (auto simp: case_prod_beta Let_def)

lemma Select_ice_inv:
  "\<forall>(key, t) \<in> set r. ice_inv (pt_iceSession t) \<Longrightarrow>
     \<forall>(key, t) \<in> set (snd (SelectEndpointForUsername u ep r)). ice_inv (pt_iceSession t)"
  by (induction r) (auto simp: Let_def split: if_splits prod.splits)

lemma packet_ops_ice [simp]:
  "pt_iceSession (snd (snd (ParticipantTransport_ProtectRtp lib p t))) = pt_iceSession t"
  "pt_iceSession (snd (snd (ParticipantTransport_UnprotectRtp lib p t))) = pt_iceSession t"
  "pt_iceSession (snd (snd (ParticipantTransport_ProtectRtcp lib p t))) = pt_iceSession t"
  "pt_iceSession (snd (snd (ParticipantTransport_UnprotectRtcp lib p t))) = pt_iceSession t"
  by (simp_all add: ParticipantTransport_ProtectRtp_def ParticipantTransport_UnprotectRtp_def
      ParticipantTransport_ProtectRtcp_def ParticipantTransport_UnprotectRtcp_def case_prod_beta Let_def)

lemma ConfigureSrtp_ice [simp]:
  "pt_iceSession (snd (ConfigureSrtpSessions api lib t)) = pt_iceSession t"
  by (simp add: ConfigureSrtpSessions_def case_prod_beta Let_def split: option.split)

lemma HandleDtls_ice [simp]:
  "pt_iceSession (snd (snd (HandleDtlsDatagram api lib data want t))) = pt_iceSession t"
proof -
  have "pt_iceSession t2 = pt_iceSession t1" if "ConfigureSrtpSessions api lib t1 = (b, t2)" for b and t1 t2 :: "('a, 'b) ParticipantTransport"
    using that ConfigureSrtp_ice [of api lib t1] by simp
  then show ?thesis
    by (fastforce simp: HandleDtlsDatagram_def Let_def split: option.splits prod.splits bool.splits)
qed

lemma registry_inv_ops:
  assumes "registry_inv r"
  shows "ice_inv (pt_iceSession t) \<Longrightarrow> registry_inv (Upsert t k r)"
    "registry_inv (snd (AppendIceCandidate m u c e r))"
    "registry_inv (snd (EraseUserTransports m u r))"
    "registry_inv (snd (SelectEndpointForUsername n ep r))"
    "registry_inv (snd (snd (HandleDtlsFromEndpoint api lib ep data r)))"
proof -
  show "ice_inv (pt_iceSession t) \<Longrightarrow> registry_inv (Upsert t k r)"
    by (simp add: Upsert_def assms registry_inv_update)
  show "registry_inv (snd (AppendIceCandidate m u c e r))"
    using assms unfolding registry_inv_def AppendIceCandidate_def
    by (auto simp: Let_def um_ok_map_snd)
  show "registry_inv (snd (EraseUserTransports m u r))"
    using assms by (auto simp: registry_inv_def EraseUserTransports_def um_erase_if_def)
  show "registry_inv (snd (SelectEndpointForUsername n ep r))"
    using assms Select_ice_inv [of r n ep] by (simp add: registry_inv_def um_ok_def Select_keys)
  show "registry_inv (snd (snd (HandleDtlsFromEndpoint api lib ep data r)))"
  proof (cases "FindBySelectedEndpoint ep r")
    case (Some kt)
    then obtain key t0 where kt: "FindBySelectedEndpoint ep r = Some (key, t0)" by (cases kt) simp
    have "ice_inv (pt_iceSession t0)"
      using FindBySelectedEndpoint_sound [OF kt] registry_invD [OF assms] by blast
    then show ?thesis
      using HandleDtls_ice [of api lib data True t0] assms kt registry_inv_update [OF assms]
      by (simp add: HandleDtlsFromEndpoint_def case_prod_beta Let_def)
  qed (simp add: HandleDtlsFromEndpoint_def assms)
qed

lemma registry_inv_with_endpoint:
  assumes "registry_inv r" "\<And>p t. pt_iceSession (snd (snd (f p t))) = pt_iceSession t"
  shows "registry_inv (snd (snd (with_endpoint f n ep p r)))"
proof (cases "FindBySelectedEndpoint ep r")
  case (Some kt)
  then obtain key t0 where kt: "FindBySelectedEndpoint ep r = Some (key, t0)" by (cases kt) simp
  have "ice_inv (pt_iceSession t0)"
    using FindBySelectedEndpoint_sound [OF kt] registry_invD [OF assms(1)] by blast
  then show ?thesis
    using assms kt registry_inv_update [OF assms(1)] by (simp add: with_endpoint_def case_prod_beta Let_def)
qed (simp add: with_endpoint_def assms)

section \<open>Every transport of the registry is sound\<close>

text \<open>
  The invariant of \<open>ParticipantTransport\<close> for each entry, with the fingerprint the entry was
  set up with.
\<close>

definition registry_secure :: "'ssl openssl \<Rightarrow> ('ssl, 's) transports \<Rightarrow> bool" where
  "registry_secure api r \<longleftrightarrow>
     (\<forall>(key, t) \<in> set r. transport_inv api (pt_clientDtlsFingerprint t) t)"

lemma registry_secureD:
  "registry_secure api r \<Longrightarrow> (key, t) \<in> set r \<Longrightarrow> transport_inv api (pt_clientDtlsFingerprint t) t"
  by (auto simp: registry_secure_def)

lemma registry_secure_update:
  "registry_secure api r \<Longrightarrow> transport_inv api (pt_clientDtlsFingerprint t) t \<Longrightarrow>
     registry_secure api (AList.update key t r)"
  using set_update_subset [of key t r] by (auto simp: registry_secure_def)

lemma transport_inv_ice [simp]: "transport_inv api fp (t\<lparr>pt_iceSession := s\<rparr>) = transport_inv api fp t"
  by (simp add: transport_inv_def)

lemma step_keeps_fingerprint:
  "transport_step api lib t t' \<Longrightarrow> pt_clientDtlsFingerprint t' = pt_clientDtlsFingerprint t"
proof (induction rule: transport_step.induct)
  case (dtls data want t ok outgoing t')
  have "pt_clientDtlsFingerprint t2 = pt_clientDtlsFingerprint t1"
    if "ConfigureSrtpSessions api lib t1 = (b, t2)" for b and t1 t2 :: "('a, 'b) ParticipantTransport"
    using that by (auto simp: ConfigureSrtpSessions_def Let_def split: option.splits prod.splits if_splits)
  then show ?case
    using dtls by (auto simp: HandleDtlsDatagram_def Let_def split: option.splits prod.splits bool.splits if_splits)
qed (simp_all add: ParticipantTransport_ProtectRtp_def ParticipantTransport_UnprotectRtp_def
      ParticipantTransport_ProtectRtcp_def ParticipantTransport_UnprotectRtcp_def case_prod_beta Let_def)

lemma registry_secure_step:
  assumes "handshake_stays_complete api" "peer_certificate_fixed api"
    "registry_secure api r" "(key, t) \<in> set r" "transport_step api lib t t'"
  shows "registry_secure api (AList.update key t' r)"
  using registry_secure_update [OF assms(3)] step_keeps_fingerprint [OF assms(5)]
    transport_step_inv [OF assms(1,2,5)] registry_secureD [OF assms(3,4)] by simp

lemma registry_secure_with_endpoint:
  assumes "handshake_stays_complete api" "peer_certificate_fixed api" "registry_secure api r"
    and "\<And>p t. transport_step api lib t (snd (snd (f p t)))"
  shows "registry_secure api (snd (snd (with_endpoint f n ep p r)))"
proof (cases "FindBySelectedEndpoint ep r")
  case (Some kt)
  then obtain key t where kt: "FindBySelectedEndpoint ep r = Some (key, t)" by (cases kt) simp
  then have "(key, t) \<in> set r" using FindBySelectedEndpoint_sound by blast
  then show ?thesis
    using registry_secure_step [OF assms(1-3) _ assms(4)] kt assms(3)
    by (simp add: with_endpoint_def case_prod_beta Let_def)
qed (simp add: with_endpoint_def assms)

lemma Select_secure:
  "registry_secure api r \<Longrightarrow> registry_secure api (snd (SelectEndpointForUsername u ep r))"
  unfolding registry_secure_def
  by (induction r) (auto simp: Let_def split: if_splits prod.splits)

lemmas endpoint_op_defs = UnprotectRtpFromEndpoint_def UnprotectRtcpFromEndpoint_def
  ProtectRtpToEndpoint_def ProtectRtcpToEndpoint_def

lemma registry_secure_ops:
  assumes "handshake_stays_complete api" "peer_certificate_fixed api" "registry_secure api r"
  shows "transport_inv api (pt_clientDtlsFingerprint t) t \<Longrightarrow> registry_secure api (Upsert t k r)"
    "registry_secure api (snd (AppendIceCandidate m u c e r))"
    "registry_secure api (snd (EraseUserTransports m u r))"
    "registry_secure api (snd (SelectEndpointForUsername n ep r))"
    "registry_secure api (snd (snd (HandleDtlsFromEndpoint api lib ep data r)))"
    "registry_secure api (snd (snd (UnprotectRtpFromEndpoint lib ep p r)))"
    "registry_secure api (snd (snd (UnprotectRtcpFromEndpoint lib ep p r)))"
    "registry_secure api (snd (snd (ProtectRtpToEndpoint lib ep p r)))"
    "registry_secure api (snd (snd (ProtectRtcpToEndpoint lib ep p r)))"
proof -
  show "transport_inv api (pt_clientDtlsFingerprint t) t \<Longrightarrow> registry_secure api (Upsert t k r)"
    by (simp add: Upsert_def registry_secure_update assms(3))
  show "registry_secure api (snd (AppendIceCandidate m u c e r))"
    using assms(3) by (auto simp: registry_secure_def AppendIceCandidate_def Let_def)
  show "registry_secure api (snd (EraseUserTransports m u r))"
    using assms(3) by (auto simp: registry_secure_def EraseUserTransports_def um_erase_if_def)
  show "registry_secure api (snd (SelectEndpointForUsername n ep r))"
    by (rule Select_secure) (rule assms(3))
  show "registry_secure api (snd (snd (HandleDtlsFromEndpoint api lib ep data r)))"
  proof (cases "FindBySelectedEndpoint ep r")
    case (Some kt)
    then obtain key t where kt: "FindBySelectedEndpoint ep r = Some (key, t)" by (cases kt) simp
    then have "(key, t) \<in> set r" using FindBySelectedEndpoint_sound by blast
    moreover obtain ok out t' where h: "HandleDtlsDatagram api lib data True t = (ok, out, t')"
      by (metis prod_cases3)
    ultimately show ?thesis
      using registry_secure_step [OF assms _ transport_step.dtls [OF h]] kt assms(3)
      by (simp add: HandleDtlsFromEndpoint_def)
  qed (simp add: HandleDtlsFromEndpoint_def assms)
  note with_endpoint_secure = registry_secure_with_endpoint [OF assms, where lib = lib]
  show "registry_secure api (snd (snd (UnprotectRtpFromEndpoint lib ep p r)))"
    "registry_secure api (snd (snd (UnprotectRtcpFromEndpoint lib ep p r)))"
    "registry_secure api (snd (snd (ProtectRtpToEndpoint lib ep p r)))"
    "registry_secure api (snd (snd (ProtectRtcpToEndpoint lib ep p r)))"
    unfolding endpoint_op_defs by (rule with_endpoint_secure, rule transport_step.intros)+
qed

section \<open>Admission and removal\<close>

lemma AllowsSsrc_iff:
  assumes "registry_inv r" "ssrc \<noteq> 0"
  shows "TransportAllowsSsrcFrom ssrc ep r \<longleftrightarrow>
    \<not> HasTransportForSsrc ssrc r \<or> (\<exists>(key, t) \<in> set r. OwnsSsrc ssrc t \<and> selected_for ep t)"
proof -
  have "ice_iceConnected (pt_iceSession t)" if "(key, t) \<in> set r" "selected_for ep t" for key t
    using registry_invD [OF assms(1) that(1)] that(2) by (simp add: selected_for_def ice_inv_def)
  then have "list_ex (\<lambda>(key, t). OwnsSsrc ssrc t \<and> ice_iceConnected (pt_iceSession t) \<and> selected_for ep t) r
      \<longleftrightarrow> (\<exists>(key, t) \<in> set r. OwnsSsrc ssrc t \<and> selected_for ep t)"
    unfolding list_ex_iff by (intro bex_cong) auto
  then show ?thesis using assms(2) by (auto simp: TransportAllowsSsrcFrom_def HasTransportForSsrc_def)
qed

text \<open>The operations of the registry as steps, over all arguments.\<close>

inductive registry_step ::
  "'ssl openssl \<Rightarrow> 's libsrtp \<Rightarrow> ('ssl, 's) transports \<Rightarrow> ('ssl, 's) transports \<Rightarrow> bool"
  for api lib where
  upsert: "registry_step api lib r (Upsert (ParticipantTransport_new m u pa pv fp aud vid
     (IceLiteSession_Configure cu cp cc su sp sc IceLiteSession_new) d) k r)"
| candidate: "registry_step api lib r (snd (AppendIceCandidate m u c e r))"
| erase: "registry_step api lib r (snd (EraseUserTransports m u r))"
| select: "registry_step api lib r (snd (SelectEndpointForUsername n ep r))"
| dtls: "registry_step api lib r (snd (snd (HandleDtlsFromEndpoint api lib ep data r)))"
| unprotect_rtp: "registry_step api lib r (snd (snd (UnprotectRtpFromEndpoint lib ep p r)))"
| unprotect_rtcp: "registry_step api lib r (snd (snd (UnprotectRtcpFromEndpoint lib ep p r)))"
| protect_rtp: "registry_step api lib r (snd (snd (ProtectRtpToEndpoint lib ep p r)))"
| protect_rtcp: "registry_step api lib r (snd (snd (ProtectRtcpToEndpoint lib ep p r)))"

lemma registry_step_inv: "registry_step api lib r r' \<Longrightarrow> registry_inv r \<Longrightarrow> registry_inv r'"
  by (induction rule: registry_step.induct)
    (simp_all add: registry_inv_ops registry_inv_with_endpoint endpoint_op_defs ParticipantTransport_new_def)

interpretation registry: state_machine "\<lambda>r. r = []" "registry_step api lib" registry_inv for api lib
  by unfold_locales (simp add: registry_inv_def, rule registry_step_inv)

lemma registry_reachable_inv: "(registry_step api lib)\<^sup>*\<^sup>* [] r \<Longrightarrow> registry_inv r"
  by (rule registry.reachable_inv) simp_all

text \<open>
  The admission test for media. In every reachable registry, a packet with a non-zero SSRC
  is admitted from an endpoint exactly when no transport owns the SSRC, or a transport that
  owns it has selected exactly that endpoint (same IPv4 address and port) by a successful
  connectivity check.
\<close>

theorem TransportAllowsSsrcFrom_exact:
  assumes "(registry_step api lib)\<^sup>*\<^sup>* [] r" "ssrc \<noteq> 0"
  shows "TransportAllowsSsrcFrom ssrc ep r \<longleftrightarrow>
    (\<forall>(key, t) \<in> set r. pt_assignedAudioSsrc t \<noteq> ssrc \<and> pt_assignedVideoSsrc t \<noteq> ssrc) \<or>
    (\<exists>(key, t) \<in> set r. (pt_assignedAudioSsrc t = ssrc \<or> pt_assignedVideoSsrc t = ssrc) \<and>
       ice_iceConnected (pt_iceSession t) \<and> ice_selectedEndpoint (pt_iceSession t) = ep \<and>
       sin_family ep = AF_INET)"
proof -
  have inv: "registry_inv r" using assms(1) by (rule registry_reachable_inv)
  have own: "OwnsSsrc ssrc t \<longleftrightarrow> pt_assignedAudioSsrc t = ssrc \<or> pt_assignedVideoSsrc t = ssrc"
    for t :: "('a, 'b) ParticipantTransport" using assms(2) by (simp add: OwnsSsrc_def)
  have sel: "selected_for ep t \<longleftrightarrow> ice_iceConnected (pt_iceSession t) \<and>
      ice_selectedEndpoint (pt_iceSession t) = ep \<and> sin_family ep = AF_INET" if "(key, t) \<in> set r" for key t
    using registry_invD [OF inv that] by (auto simp: selected_for_def SameEndpoint_eq ice_inv_def)
  have none: "\<not> HasTransportForSsrc ssrc r \<longleftrightarrow>
      (\<forall>(key, t) \<in> set r. pt_assignedAudioSsrc t \<noteq> ssrc \<and> pt_assignedVideoSsrc t \<noteq> ssrc)"
    using assms(2) own by (auto simp: HasTransportForSsrc_def list_ex_iff)
  have some: "(\<exists>(key, t) \<in> set r. OwnsSsrc ssrc t \<and> selected_for ep t) \<longleftrightarrow>
      (\<exists>(key, t) \<in> set r. (pt_assignedAudioSsrc t = ssrc \<or> pt_assignedVideoSsrc t = ssrc) \<and>
       ice_iceConnected (pt_iceSession t) \<and> ice_selectedEndpoint (pt_iceSession t) = ep \<and>
       sin_family ep = AF_INET)"
    using own sel by (intro bex_cong) auto
  show ?thesis unfolding AllowsSsrc_iff [OF inv assms(2)] none some ..
qed

definition demo_endpoint :: Endpoint where
  "demo_endpoint = \<lparr> sin_family = AF_INET, sin_port = 5004, sin_addr = 0x7F000001 \<rparr>"

definition demo_entry :: "(nat, unit) ParticipantTransport" where
  "demo_entry = ParticipantTransport_new ''m'' ''u'' True True ''ab:01'' 7 8
     (IceLiteSession_Configure ''c'' ''p'' [] ''s'' ''q'' [] IceLiteSession_new) None"

definition demo_registry :: "(nat, unit) transports" where
  "demo_registry = snd (SelectEndpointForUsername ''s:c'' demo_endpoint (Upsert demo_entry ''av'' []))"

lemma demo_registry_reachable: "(registry_step demo_ssl demo_srtp)\<^sup>*\<^sup>* [] demo_registry"
  unfolding demo_registry_def demo_entry_def
  by (rule rtranclp.rtrancl_into_rtrancl [OF r_into_rtranclp [where r = "registry_step demo_ssl demo_srtp"]])
    (rule registry_step.upsert, rule registry_step.select)

theorem TransportAllowsSsrcFrom_exact_witness:
  "TransportAllowsSsrcFrom 7 demo_endpoint demo_registry \<and>
   \<not> TransportAllowsSsrcFrom 7 (demo_endpoint\<lparr>sin_port := 5005\<rparr>) demo_registry"
proof -
  have r: "demo_registry = [(''m|u|av'', demo_entry\<lparr>pt_iceSession :=
      SelectEndpoint demo_endpoint (pt_iceSession demo_entry)\<rparr>)]"
    by (simp add: demo_registry_def demo_entry_def Upsert_def Key_def ParticipantTransport_new_def
        MatchesUsername_def IceLiteSession_Configure_def)
  note exact = TransportAllowsSsrcFrom_exact [OF demo_registry_reachable, of 7]
  have "TransportAllowsSsrcFrom 7 demo_endpoint demo_registry"
    using exact [of demo_endpoint] by (simp add: r demo_entry_def ParticipantTransport_new_def demo_endpoint_def)
  moreover have "\<not> TransportAllowsSsrcFrom 7 (demo_endpoint\<lparr>sin_port := 5005\<rparr>) demo_registry"
    using exact [of "demo_endpoint\<lparr>sin_port := 5005\<rparr>"]
    by (simp add: r demo_entry_def ParticipantTransport_new_def demo_endpoint_def)
  ultimately show ?thesis ..
qed

text \<open>
  Erasing a user's transports removes exactly them: no transport of that user in that
  meeting remains, every other entry is untouched, and the result says whether there was one.
\<close>

theorem EraseUserTransports_exact:
  "(\<exists>key t. (key, t) \<in> set r \<and> pt_meetingId t = m \<and> pt_userId t = u) = fst (EraseUserTransports m u r) \<and>
   set (snd (EraseUserTransports m u r)) =
     {(key, t). (key, t) \<in> set r \<and> (pt_meetingId t, pt_userId t) \<noteq> (m, u)}"
  by (auto simp: EraseUserTransports_def um_erase_if_def of_user_def list_ex_iff)

end
