(* ===== verification/MediaIngress.thy ===== *)
theory MediaIngress
  imports Complex_Main RtpRouter MediaCodec TransportRegistry "HOL-Library.Product_Lexorder"
begin

text \<open>
  The media ingress (\<open>meeting-server/sfu/server/MediaIngress.h\<close>, \<open>.cpp\<close>): the object that ties
  rooms, transports and the packet router together. Its state is one record; the room manager,
  which the RPC service shares with it, is part of the record. Each public method and each
  packet handler is one atomic step: the mutexes of the source protect the single maps, and the
  model takes the calls one after the other.

  A forwarding callback captures only the subscriber's endpoint, so it is that endpoint;
  \<open>run_forward\<close> is its body. Datagrams handed to \<open>sendto\<close> are appended to \<open>mi_sent\<close>. The
  readings of the steady clock and the results of \<open>RAND_bytes\<close> are functions of the number of
  calls made so far, which the state counts. Everything that is not part of the repository is a
  field of the \<open>media_env\<close> argument.
\<close>

record ('ssl, 's) media_env =
  env_openssl :: "'ssl openssl"
  env_libsrtp :: "'s libsrtp"
  env_inet_pton :: "string \<Rightarrow> u32 option"
  env_inet_ntop :: "u32 \<Rightarrow> string option"
  env_now :: "nat \<Rightarrow> int"
  env_RAND_bytes :: "nat \<Rightarrow> nat \<Rightarrow> bytes option"
  env_dtls_initialize :: bool
  env_dtls_fingerprint :: string

record PacketObservation =
  po_meetingId :: string
  po_userId :: string
  po_ssrc :: u32
  po_sequence :: u16
  po_timestamp :: u32
  po_bytes :: nat

record PublisherTrafficCounters =
  pc_meetingId :: string
  pc_userId :: string
  pc_packetCount :: u64
  pc_byteCount :: u64
  pc_packetLoss :: rat
  pc_jitterMs :: u32
  pc_rttMs :: u32

record RembFeedbackSample =
  rs_bitrateExp :: u8
  rs_bitrateMantissa :: u32
  rs_bitrateBps :: u32
  rs_observedAt :: int

record EstimatedRembState =
  er_bitrateBps :: u32
  er_sentAt :: int

record TransportSetupResult =
  ts_success :: bool
  ts_serverIceUfrag :: string
  ts_serverIcePwd :: string
  ts_serverDtlsFingerprint :: string
  ts_serverCandidates :: "string list"
  ts_assignedAudioSsrc :: u32
  ts_assignedVideoSsrc :: u32

record ('ssl, 's) MediaIngress =
  mi_roomManager :: RoomManager
  mi_router :: "Endpoint RtpRouter"
  mi_running :: bool
  mi_port :: u16
  mi_packetCount :: nat
  mi_lastObservation :: PacketObservation
  mi_publisherTraffic :: "(string, PublisherTrafficCounters) umap"
  mi_senderReports :: "(u32, SenderReportLedgerEntry) umap"
  mi_feedbackRoutes :: "(string, u32) umap"
  mi_publisherEndpoints :: "(u32, Endpoint) umap"
  mi_pliForwardBySource :: "(u32, int) umap"
  mi_rembFeedbackBySource :: "(u32, (string, RembFeedbackSample) umap) umap"
  mi_estimatedRembBySource :: "(u32, EstimatedRembState) umap"
  mi_transportRegistry :: "('ssl, 's) transports"
  mi_sent :: "(bytes \<times> Endpoint) list"
  mi_clockReads :: nat
  mi_randomCalls :: nat

definition MediaIngress_new :: "RoomManager \<Rightarrow> bool \<Rightarrow> u16 \<Rightarrow> nat \<Rightarrow> ('ssl, 's) MediaIngress" where
  "MediaIngress_new roomManager started port nackCapacity =
     \<lparr> mi_roomManager = roomManager, mi_router = RtpRouter_new nackCapacity, mi_running = started,
       mi_port = port, mi_packetCount = 0,
       mi_lastObservation = \<lparr> po_meetingId = [], po_userId = [], po_ssrc = 0, po_sequence = 0,
         po_timestamp = 0, po_bytes = 0 \<rparr>,
       mi_publisherTraffic = [], mi_senderReports = [], mi_feedbackRoutes = [],
       mi_publisherEndpoints = [], mi_pliForwardBySource = [], mi_rembFeedbackBySource = [],
       mi_estimatedRembBySource = [], mi_transportRegistry = [], mi_sent = [],
       mi_clockReads = 0, mi_randomCalls = 0 \<rparr>"

section \<open>Sending\<close>

definition UdpServer_SendTo :: "bytes \<Rightarrow> Endpoint \<Rightarrow> ('ssl, 's) MediaIngress \<Rightarrow> ('ssl, 's) MediaIngress" where
  "UdpServer_SendTo packet endpoint m =
     (if \<not> mi_running m \<or> packet = [] \<or> sin_port endpoint = 0 then m
      else m\<lparr>mi_sent := mi_sent m @ [(packet, endpoint)]\<rparr>)"

definition EndpointRequiresSecureMedia :: "Endpoint \<Rightarrow> ('ssl, 's) MediaIngress \<Rightarrow> bool" where
  "EndpointRequiresSecureMedia endpoint m =
     HasSelectedTransportForEndpoint endpoint (mi_transportRegistry m)"

definition TransportAllowsRtp :: "u32 \<Rightarrow> Endpoint \<Rightarrow> ('ssl, 's) MediaIngress \<Rightarrow> bool" where
  "TransportAllowsRtp ssrc from m = TransportAllowsSsrcFrom ssrc from (mi_transportRegistry m)"

definition TransportRequiresSrtp :: "u32 \<Rightarrow> ('ssl, 's) MediaIngress \<Rightarrow> bool" where
  "TransportRequiresSrtp ssrc m = HasTransportForSsrc ssrc (mi_transportRegistry m)"

text \<open>
  The statement the source repeats before every send: protect the packet when the endpoint
  needs it, give up when that fails, send otherwise. The result says whether it was sent.
\<close>

definition secure_send ::
  "(Endpoint \<Rightarrow> bytes \<Rightarrow> ('ssl, 's) transports \<Rightarrow> bool \<times> bytes \<times> ('ssl, 's) transports) \<Rightarrow>
   bytes \<Rightarrow> Endpoint \<Rightarrow> ('ssl, 's) MediaIngress \<Rightarrow> bool \<times> ('ssl, 's) MediaIngress" where
  "secure_send protect packet endpoint m =
     (if EndpointRequiresSecureMedia endpoint m
      then let (ok, packet', registry) = protect endpoint packet (mi_transportRegistry m);
               m' = m\<lparr>mi_transportRegistry := registry\<rparr>
           in if ok then (True, UdpServer_SendTo packet' endpoint m') else (False, m')
      else (True, UdpServer_SendTo packet endpoint m))"

abbreviation send_rtp ::
  "('ssl, 's) media_env \<Rightarrow> bytes \<Rightarrow> Endpoint \<Rightarrow> ('ssl, 's) MediaIngress \<Rightarrow> bool \<times> ('ssl, 's) MediaIngress" where
  "send_rtp env \<equiv> secure_send (ProtectRtpToEndpoint (env_libsrtp env))"

abbreviation send_rtcp ::
  "('ssl, 's) media_env \<Rightarrow> bytes \<Rightarrow> Endpoint \<Rightarrow> ('ssl, 's) MediaIngress \<Rightarrow> bool \<times> ('ssl, 's) MediaIngress" where
  "send_rtcp env \<equiv> secure_send (ProtectRtcpToEndpoint (env_libsrtp env))"

definition run_forward ::
  "('ssl, 's) media_env \<Rightarrow> (Endpoint \<times> bytes) \<Rightarrow> ('ssl, 's) MediaIngress \<Rightarrow> ('ssl, 's) MediaIngress" where
  "run_forward env call m = snd (send_rtp env (snd call) (fst call) m)"

definition steady_now ::
  "('ssl, 's) media_env \<Rightarrow> ('ssl, 's) MediaIngress \<Rightarrow> int \<times> ('ssl, 's) MediaIngress" where
  "steady_now env m = (env_now env (mi_clockReads m), m\<lparr>mi_clockReads := mi_clockReads m + 1\<rparr>)"

section \<open>Lookups\<close>

definition ResolvePublisher :: "u32 \<Rightarrow> ('ssl, 's) MediaIngress \<Rightarrow> PublisherLocation option" where
  "ResolvePublisher ssrc m = RoomManager_FindPublisherBySsrc ssrc (mi_roomManager m)"

definition ResolveNackSourceSsrc :: "('ssl, 's) media_env \<Rightarrow> Endpoint \<Rightarrow> u32 \<Rightarrow> ('ssl, 's) MediaIngress \<Rightarrow> u32" where
  "ResolveNackSourceSsrc env from mediaSsrc m =
     (if mediaSsrc = 0 then 0
      else if ResolvePublisher mediaSsrc m \<noteq> None then mediaSsrc
      else case map_of (mi_feedbackRoutes m) (FeedbackRouteKey (env_inet_ntop env) from mediaSsrc) of
        None \<Rightarrow> 0
      | Some sourceSsrc \<Rightarrow> sourceSsrc)"

definition ResolvePublisherEndpoint :: "u32 \<Rightarrow> ('ssl, 's) MediaIngress \<Rightarrow> Endpoint option" where
  "ResolvePublisherEndpoint sourceSsrc m =
     (if sourceSsrc = 0 then None else map_of (mi_publisherEndpoints m) sourceSsrc)"

text \<open>The ingress has its own copy of the function that writes an SSRC into a packet.\<close>

definition RewriteRtpSsrc :: "u32 \<Rightarrow> bytes \<Rightarrow> bytes" where
  "RewriteRtpSsrc ssrc packet =
     (if length packet < kMinHeaderSize then packet
      else packet[8 := ucast (drop_bit 24 ssrc AND 0xFF), 9 := ucast (drop_bit 16 ssrc AND 0xFF),
                  10 := ucast (drop_bit 8 ssrc AND 0xFF), 11 := ucast (ssrc AND 0xFF)])"

lemma RewriteRtpSsrc_eq: "RewriteRtpSsrc ssrc packet = RewriteSsrc ssrc packet"
  by (simp add: RewriteRtpSsrc_def RewriteSsrc_def)

section \<open>Routes\<close>

text \<open>The address a subscriber receives audio or video at, with its fallbacks.\<close>

definition subscriber_endpoint_text :: "bool \<Rightarrow> Subscriber \<Rightarrow> string" where
  "subscriber_endpoint_text sourceIsVideo sub =
     (if sourceIsVideo
      then (if sbs_videoEndpoint sub \<noteq> [] then sbs_videoEndpoint sub
            else if sbs_endpoint sub \<noteq> [] then sbs_endpoint sub else sbs_audioEndpoint sub)
      else (if sbs_audioEndpoint sub \<noteq> [] then sbs_audioEndpoint sub
            else if sbs_endpoint sub \<noteq> [] then sbs_endpoint sub else sbs_videoEndpoint sub))"

definition route_ssrc :: "string \<Rightarrow> u32 \<Rightarrow> bool \<Rightarrow> nat \<Rightarrow> Subscriber \<Rightarrow> u32" where
  "route_ssrc meetingId sourceSsrc sourceIsVideo sameKindPublisherCount sub =
     (let preferred = (if sourceIsVideo then sbs_videoSsrc sub else sbs_audioSsrc sub) in
      if sameKindPublisherCount > 1 \<and> preferred \<noteq> 0
      then
        let rewritten = MakeRouteRewriteSsrc meetingId (sbs_userId sub) sourceSsrc sourceIsVideo;
            rewritten = (if rewritten = preferred \<or> rewritten = sourceSsrc
                         then rewritten XOR 0x01010101 else rewritten)
        in if rewritten = 0 then sourceSsrc XOR 0x01010101 else rewritten
      else if preferred \<noteq> 0 then preferred else sourceSsrc)"

text \<open>
  One round of the loop over the subscribers. \<open>skipUser\<close> is the user the source belongs to when
  the room has more than one subscriber: that user's packets are not sent back to it.
\<close>

definition add_route ::
  "('ssl, 's) media_env \<Rightarrow> string \<Rightarrow> u32 \<Rightarrow> bool \<Rightarrow> nat \<Rightarrow> string option \<Rightarrow> Subscriber \<Rightarrow>
   ('ssl, 's) MediaIngress \<Rightarrow> ('ssl, 's) MediaIngress" where
  "add_route env meetingId sourceSsrc sourceIsVideo sameKindPublisherCount skipUser sub m =
     (if skipUser = Some (sbs_userId sub) then m
      else
        let endpointText = subscriber_endpoint_text sourceIsVideo sub in
        if endpointText = [] then m
        else case ParseEndpoint (env_inet_pton env) endpointText of
          None \<Rightarrow> m
        | Some endpoint \<Rightarrow>
            let rewrittenSsrc = route_ssrc meetingId sourceSsrc sourceIsVideo sameKindPublisherCount sub
            in m\<lparr>mi_router := snd (AddSubscriber sourceSsrc rewrittenSsrc (Some endpoint) (mi_router m)),
                 mi_feedbackRoutes := AList.update
                   (FeedbackRouteKey (env_inet_ntop env) endpoint rewrittenSsrc) sourceSsrc
                   (mi_feedbackRoutes m)\<rparr>)"

definition same_kind_publishers :: "bool \<Rightarrow> Room \<Rightarrow> nat" where
  "same_kind_publishers sourceIsVideo room =
     length (filter (\<lambda>p. (if sourceIsVideo then pub_videoSsrc p else pub_audioSsrc p) \<noteq> 0)
       (Room_SnapshotPublishers room))"

definition RefreshPublisherRoutes ::
  "('ssl, 's) media_env \<Rightarrow> string \<Rightarrow> u32 \<Rightarrow> ('ssl, 's) MediaIngress \<Rightarrow> ('ssl, 's) MediaIngress" where
  "RefreshPublisherRoutes env meetingId sourceSsrc m =
     (if sourceSsrc = 0 then m
      else case RoomManager_GetRoomShared meetingId (mi_roomManager m) of
        None \<Rightarrow> m
      | Some room \<Rightarrow>
          let lookup = Room_FindPublisherBySsrc sourceSsrc room;
              sourceIsVideo = (case lookup of Some (p, u) \<Rightarrow> pub_videoSsrc p = sourceSsrc | None \<Rightarrow> False);
              sourceUserId = (case lookup of Some (p, u) \<Rightarrow> u | None \<Rightarrow> []);
              skipSelfForward = (Room_SubscriberCount room > 1);
              skipUser = (if skipSelfForward \<and> sourceUserId \<noteq> [] then Some sourceUserId else None);
              m1 = m\<lparr>mi_feedbackRoutes := um_erase_if (\<lambda>key s. s = sourceSsrc) (mi_feedbackRoutes m),
                     mi_router := RemoveSubscribers sourceSsrc (mi_router m)\<rparr>
          in fold (add_route env meetingId sourceSsrc sourceIsVideo
                     (same_kind_publishers sourceIsVideo room) skipUser)
               (Room_SnapshotSubscribers room) m1)"

definition refresh_publisher ::
  "('ssl, 's) media_env \<Rightarrow> string \<Rightarrow> Publisher \<Rightarrow> ('ssl, 's) MediaIngress \<Rightarrow> ('ssl, 's) MediaIngress" where
  "refresh_publisher env meetingId p m =
     (let m1 = (if pub_audioSsrc p \<noteq> 0 then RefreshPublisherRoutes env meetingId (pub_audioSsrc p) m else m)
      in if pub_videoSsrc p \<noteq> 0 then RefreshPublisherRoutes env meetingId (pub_videoSsrc p) m1 else m1)"

definition RefreshRoomRoutes ::
  "('ssl, 's) media_env \<Rightarrow> string \<Rightarrow> ('ssl, 's) MediaIngress \<Rightarrow> ('ssl, 's) MediaIngress" where
  "RefreshRoomRoutes env meetingId m =
     (case RoomManager_GetRoomShared meetingId (mi_roomManager m) of
        None \<Rightarrow> m
      | Some room \<Rightarrow> fold (refresh_publisher env meetingId) (Room_SnapshotPublishers room) m)"

definition RemovePublisherRoutes :: "u32 \<Rightarrow> ('ssl, 's) MediaIngress \<Rightarrow> ('ssl, 's) MediaIngress" where
  "RemovePublisherRoutes sourceSsrc m =
     (if sourceSsrc = 0 then m
      else m\<lparr>mi_router := UnregisterPublisher sourceSsrc (RemoveSubscribers sourceSsrc (mi_router m)),
             mi_feedbackRoutes := um_erase_if (\<lambda>key s. s = sourceSsrc) (mi_feedbackRoutes m),
             mi_publisherEndpoints := AList.delete sourceSsrc (mi_publisherEndpoints m),
             mi_pliForwardBySource := AList.delete sourceSsrc (mi_pliForwardBySource m),
             mi_rembFeedbackBySource := AList.delete sourceSsrc (mi_rembFeedbackBySource m),
             mi_estimatedRembBySource := AList.delete sourceSsrc (mi_estimatedRembBySource m)\<rparr>)"

section \<open>Binding and removing publishers and subscribers\<close>

definition in_room :: "string \<Rightarrow> (Room \<Rightarrow> Room) \<Rightarrow> ('ssl, 's) MediaIngress \<Rightarrow> ('ssl, 's) MediaIngress" where
  "in_room meetingId f m = m\<lparr>mi_roomManager := RoomManager_ModifyRoom meetingId f (mi_roomManager m)\<rparr>"

text \<open>The calls \<open>if (ssrc != 0) router_.RegisterPublisher(ssrc)\<close> and \<open>if (ssrc != 0) senderReports_.erase(ssrc)\<close>.\<close>

definition register_source :: "u32 \<Rightarrow> ('ssl, 's) MediaIngress \<Rightarrow> ('ssl, 's) MediaIngress" where
  "register_source ssrc m =
     (if ssrc \<noteq> 0 then m\<lparr>mi_router := snd (RegisterPublisher ssrc (mi_router m))\<rparr> else m)"

definition erase_sender_report :: "u32 \<Rightarrow> ('ssl, 's) MediaIngress \<Rightarrow> ('ssl, 's) MediaIngress" where
  "erase_sender_report ssrc m =
     (if ssrc \<noteq> 0 then m\<lparr>mi_senderReports := AList.delete ssrc (mi_senderReports m)\<rparr> else m)"

definition BindPublisher ::
  "('ssl, 's) media_env \<Rightarrow> string \<Rightarrow> string \<Rightarrow> u32 \<Rightarrow> u32 \<Rightarrow> ('ssl, 's) MediaIngress \<Rightarrow> bool \<times> ('ssl, 's) MediaIngress" where
  "BindPublisher env meetingId userId audioSsrc videoSsrc m =
     (if meetingId = [] \<or> userId = [] then (False, m)
      else case RoomManager_GetRoomShared meetingId (mi_roomManager m) of
        None \<Rightarrow> (False, m)
      | Some room \<Rightarrow>
          let existing = Room_GetPublisher userId room;
              previousAudioSsrc = (case existing of Some p \<Rightarrow> pub_audioSsrc p | None \<Rightarrow> 0);
              previousVideoSsrc = (case existing of Some p \<Rightarrow> pub_videoSsrc p | None \<Rightarrow> 0);
              mergedAudioSsrc = (if audioSsrc \<noteq> 0 then audioSsrc else previousAudioSsrc);
              mergedVideoSsrc = (if videoSsrc \<noteq> 0 then videoSsrc else previousVideoSsrc);
              publisher = Some (Publisher_new userId mergedAudioSsrc mergedVideoSsrc)
          in if mergedAudioSsrc = 0 \<and> mergedVideoSsrc = 0 then (False, m)
             else if \<not> fst (Room_AddPublisher publisher room) then (False, m)
             else
               let m1 = in_room meetingId (\<lambda>r. snd (Room_AddPublisher publisher r)) m;
                   m2 = (if previousAudioSsrc \<noteq> 0 \<and> previousAudioSsrc \<noteq> mergedAudioSsrc
                         then RemovePublisherRoutes previousAudioSsrc m1 else m1);
                   m3 = (if previousVideoSsrc \<noteq> 0 \<and> previousVideoSsrc \<noteq> mergedVideoSsrc
                         then RemovePublisherRoutes previousVideoSsrc m2 else m2);
                   m4 = register_source mergedAudioSsrc m3;
                   m5 = register_source mergedVideoSsrc m4
               in (True, RefreshRoomRoutes env meetingId m5))"

definition BindSubscriber ::
  "('ssl, 's) media_env \<Rightarrow> string \<Rightarrow> string \<Rightarrow> u32 \<Rightarrow> u32 \<Rightarrow> ('ssl, 's) MediaIngress \<Rightarrow> bool \<times> ('ssl, 's) MediaIngress" where
  "BindSubscriber env meetingId userId audioSsrc videoSsrc m =
     (if meetingId = [] \<or> userId = [] then (False, m)
      else case RoomManager_GetRoomShared meetingId (mi_roomManager m) of
        None \<Rightarrow> (False, m)
      | Some room \<Rightarrow>
          let existing = Room_GetSubscriber userId room;
              mergedAudioSsrc = (if audioSsrc \<noteq> 0 then audioSsrc
                                 else case existing of Some s \<Rightarrow> sbs_audioSsrc s | None \<Rightarrow> 0);
              mergedVideoSsrc = (if videoSsrc \<noteq> 0 then videoSsrc
                                 else case existing of Some s \<Rightarrow> sbs_videoSsrc s | None \<Rightarrow> 0);
              fallbackEndpoint = (case existing of Some s \<Rightarrow> sbs_endpoint s | None \<Rightarrow> []);
              sub = Subscriber_new userId fallbackEndpoint mergedAudioSsrc mergedVideoSsrc;
              subscriber = (case existing of
                  None \<Rightarrow> sub
                | Some s \<Rightarrow> sub\<lparr>sbs_audioEndpoint := sbs_audioEndpoint s, sbs_videoEndpoint := sbs_videoEndpoint s\<rparr>)
          in if \<not> fst (Room_AddSubscriber (Some subscriber) room) then (False, m)
             else (True, RefreshRoomRoutes env meetingId
                     (in_room meetingId (\<lambda>r. snd (Room_AddSubscriber (Some subscriber) r)) m)))"

definition RemovePublisher ::
  "string \<Rightarrow> string \<Rightarrow> ('ssl, 's) MediaIngress \<Rightarrow> bool \<times> ('ssl, 's) MediaIngress" where
  "RemovePublisher meetingId userId m =
     (if meetingId = [] \<or> userId = [] then (False, m)
      else case RoomManager_GetRoomShared meetingId (mi_roomManager m) of
        None \<Rightarrow> (False, m)
      | Some room \<Rightarrow>
          let publisher = Room_GetPublisher userId room;
              removed = fst (Room_RemovePublisher userId room);
              m1 = in_room meetingId (\<lambda>r. snd (Room_RemovePublisher userId r)) m
          in if \<not> removed then (False, m1)
             else
               let m2 = (case publisher of
                     None \<Rightarrow> m1
                   | Some p \<Rightarrow> RemovePublisherRoutes (pub_videoSsrc p) (RemovePublisherRoutes (pub_audioSsrc p) m1));
                   m3 = m2\<lparr>mi_publisherTraffic :=
                             AList.delete (PublisherTrafficKey meetingId userId) (mi_publisherTraffic m2)\<rparr>
               in (True, case publisher of
                     None \<Rightarrow> m3
                   | Some p \<Rightarrow> erase_sender_report (pub_videoSsrc p) (erase_sender_report (pub_audioSsrc p) m3)))"

definition RemoveSubscriber ::
  "('ssl, 's) media_env \<Rightarrow> string \<Rightarrow> string \<Rightarrow> ('ssl, 's) MediaIngress \<Rightarrow> bool \<times> ('ssl, 's) MediaIngress" where
  "RemoveSubscriber env meetingId userId m =
     (if meetingId = [] \<or> userId = [] then (False, m)
      else case RoomManager_GetRoomShared meetingId (mi_roomManager m) of
        None \<Rightarrow> (False, m)
      | Some room \<Rightarrow>
          let removed = fst (Room_RemoveSubscriber userId room);
              m1 = in_room meetingId (\<lambda>r. snd (Room_RemoveSubscriber userId r)) m
          in if \<not> removed then (False, m1) else (True, RefreshRoomRoutes env meetingId m1))"

section \<open>The routes of a source after a refresh\<close>

text \<open>
  What \<open>RefreshPublisherRoutes\<close> is to achieve, as a function of the room alone: one route for
  each subscriber that is not left out and has an address, with its SSRC.
\<close>

definition route_target ::
  "('ssl, 's) media_env \<Rightarrow> string \<Rightarrow> u32 \<Rightarrow> bool \<Rightarrow> nat \<Rightarrow> string option \<Rightarrow> Subscriber \<Rightarrow> (u32 \<times> Endpoint) option" where
  "route_target env meetingId sourceSsrc video n skipUser sub =
     (if skipUser = Some (sbs_userId sub) \<or> subscriber_endpoint_text video sub = [] then None
      else map_option (\<lambda>ep. (route_ssrc meetingId sourceSsrc video n sub, ep))
             (ParseEndpoint (env_inet_pton env) (subscriber_endpoint_text video sub)))"

definition planned_routes ::
  "('ssl, 's) media_env \<Rightarrow> string \<Rightarrow> u32 \<Rightarrow> Room \<Rightarrow> (u32 \<times> Endpoint) list" where
  "planned_routes env meetingId sourceSsrc room =
     (let source = Room_FindPublisherBySsrc sourceSsrc room;
          video = (case source of Some (p, u) \<Rightarrow> pub_videoSsrc p = sourceSsrc | None \<Rightarrow> False);
          skipUser = (case source of Some (p, u) \<Rightarrow>
              if Room_SubscriberCount room > 1 \<and> u \<noteq> [] then Some u else None | None \<Rightarrow> None)
      in List.map_filter (route_target env meetingId sourceSsrc video (same_kind_publishers video room) skipUser)
           (Room_SnapshotSubscribers room))"

definition routes_of :: "u32 \<Rightarrow> Endpoint RtpRouter \<Rightarrow> (u32 \<times> Endpoint) list" where
  "routes_of s R = (case map_of (rt_publishers R) s of
     None \<Rightarrow> [] | Some r \<Rightarrow> map (\<lambda>sub. (sub_rewrittenSsrc sub, the (sub_forward sub))) (route_subscribers r))"

lemma xor_zero: "(x :: u32) XOR y = 0 \<Longrightarrow> x = y"
  by (metis xor.assoc xor_self_eq xor.right_neutral xor.left_neutral)

lemma xor_fixed: "(x :: u32) XOR y = x \<Longrightarrow> y = 0"
  by (metis xor.assoc xor_self_eq xor.left_neutral)

lemma spread_clash:
  fixes h s c d :: u32
  assumes "(let h' = (if h = 0 \<or> h = s then h XOR c else h) in if h' = 0 then d else h') = s" "c \<noteq> 0" "d \<noteq> c"
  shows "s = c"
proof (cases "h = 0 \<or> h = s")
  case True
  then show ?thesis
    using assms xor_zero [of h c] xor_fixed [of h c] by (auto simp: Let_def split: if_splits)
next
  case False
  then show ?thesis using assms by (simp add: Let_def)
qed

lemma MakeRouteRewriteSsrc_clash:
  "MakeRouteRewriteSsrc meetingId userId sourceSsrc video = sourceSsrc \<Longrightarrow> sourceSsrc = 0x5A5A5A5A"
  unfolding MakeRouteRewriteSsrc_def Let_def [of "_ @ _"] Let_def [of "fnv1a _ AND _"]
  by (erule spread_clash) simp_all

lemma route_ssrc_nonzero:
  assumes s: "sourceSsrc \<noteq> 0"
  shows "route_ssrc meetingId sourceSsrc video n sub \<noteq> 0"
proof -
  let ?w = "MakeRouteRewriteSsrc meetingId (sbs_userId sub) sourceSsrc video"
  have "sourceSsrc XOR 0x01010101 \<noteq> 0" if "?w XOR 0x01010101 = 0"
  proof
    assume "sourceSsrc XOR 0x01010101 = 0"
    then have "sourceSsrc = 0x01010101" by (rule xor_zero)
    moreover have "?w = 0x01010101" using that by (rule xor_zero)
    ultimately have "sourceSsrc = 0x5A5A5A5A" by (intro MakeRouteRewriteSsrc_clash) simp
    then show False using \<open>sourceSsrc = 0x01010101\<close> by simp
  qed
  then show ?thesis
    using s MakeRouteRewriteSsrc_nonzero [of meetingId "sbs_userId sub" sourceSsrc video]
    by (auto simp: route_ssrc_def Let_def)
qed

lemma routes_of_Add:
  "s \<noteq> 0 \<Longrightarrow> w \<noteq> 0 \<Longrightarrow> routes_of s' (snd (AddSubscriber s w (Some ep) R)) =
     (if s' = s then routes_of s R @ [(w, ep)] else routes_of s' R)"
  by (auto simp: routes_of_def AddSubscriber_def Let_def table_simps PublisherRoute_new_def split: option.split)

lemma routes_of_Remove: "routes_of s' (RemoveSubscribers s R) = (if s' = s then [] else routes_of s' R)"
  by (auto simp: routes_of_def RemoveSubscribers_def table_simps split: option.split)

lemma add_route_eq:
  "add_route env meetingId s video n skip sub m =
     (case route_target env meetingId s video n skip sub of
        None \<Rightarrow> m
      | Some (w, ep) \<Rightarrow> m\<lparr>mi_router := snd (AddSubscriber s w (Some ep) (mi_router m)),
          mi_feedbackRoutes := AList.update (FeedbackRouteKey (env_inet_ntop env) ep w) s (mi_feedbackRoutes m)\<rparr>)"
  by (auto simp: add_route_def route_target_def Let_def split: option.split)

lemma route_target_nonzero:
  "s \<noteq> 0 \<Longrightarrow> route_target env meetingId s video n skip sub = Some (w, ep) \<Longrightarrow> w \<noteq> 0"
  using route_ssrc_nonzero [of s] by (auto simp: route_target_def split: if_splits)

lemma fold_add_route_routes:
  assumes "s \<noteq> 0"
  shows "routes_of s' (mi_router (fold (add_route env meetingId s video n skip) subs m)) =
    (if s' = s then routes_of s (mi_router m) @ List.map_filter (route_target env meetingId s video n skip) subs
     else routes_of s' (mi_router m))"
proof (induction subs arbitrary: m)
  case (Cons sub subs)
  then show ?case
    using assms route_target_nonzero [OF assms, of env meetingId video n skip sub]
    by (auto simp: add_route_eq List.map_filter_simps routes_of_Add split: option.splits)
qed (simp add: List.map_filter_simps)

lemma fold_add_route_feedback:
  "map_of (mi_feedbackRoutes (fold (add_route env meetingId s video n skip) subs m)) key =
    (if \<exists>(w, ep) \<in> set (List.map_filter (route_target env meetingId s video n skip) subs).
          FeedbackRouteKey (env_inet_ntop env) ep w = key
     then Some s else map_of (mi_feedbackRoutes m) key)"
proof (induction subs arbitrary: m)
  case (Cons sub subs)
  then show ?case
    by (cases "route_target env meetingId s video n skip sub")
      (auto simp: add_route_eq List.map_filter_simps table_simps)
qed (simp add: List.map_filter_simps)

lemma Refresh_fold:
  assumes "sourceSsrc \<noteq> 0" "RoomManager_GetRoomShared meetingId (mi_roomManager m) = Some room"
  shows "\<exists>video n skip. RefreshPublisherRoutes env meetingId sourceSsrc m =
      fold (add_route env meetingId sourceSsrc video n skip) (Room_SnapshotSubscribers room)
        (m\<lparr>mi_feedbackRoutes := um_erase_if (\<lambda>key s. s = sourceSsrc) (mi_feedbackRoutes m),
           mi_router := RemoveSubscribers sourceSsrc (mi_router m)\<rparr>) \<and>
      planned_routes env meetingId sourceSsrc room =
        List.map_filter (route_target env meetingId sourceSsrc video n skip) (Room_SnapshotSubscribers room)"
proof (cases "Room_FindPublisherBySsrc sourceSsrc room")
  case None
  then show ?thesis using assms
    by (intro exI [of _ False] exI [of _ "same_kind_publishers False room"] exI [of _ None])
      (simp add: RefreshPublisherRoutes_def planned_routes_def Let_def)
next
  case (Some pu)
  then show ?thesis using assms
    by (cases pu, intro exI [of _ "pub_videoSsrc (fst pu) = sourceSsrc"]
        exI [of _ "same_kind_publishers (pub_videoSsrc (fst pu) = sourceSsrc) room"]
        exI [of _ "if Room_SubscriberCount room > 1 \<and> snd pu \<noteq> [] then Some (snd pu) else None"])
      (simp add: RefreshPublisherRoutes_def planned_routes_def Let_def)
qed

lemma Refresh_routes:
  assumes "sourceSsrc \<noteq> 0" "RoomManager_GetRoomShared meetingId (mi_roomManager m) = Some room"
  shows "routes_of s (mi_router (RefreshPublisherRoutes env meetingId sourceSsrc m)) =
     (if s = sourceSsrc then planned_routes env meetingId sourceSsrc room else routes_of s (mi_router m))"
proof -
  obtain video n skip where "RefreshPublisherRoutes env meetingId sourceSsrc m =
      fold (add_route env meetingId sourceSsrc video n skip) (Room_SnapshotSubscribers room)
        (m\<lparr>mi_feedbackRoutes := um_erase_if (\<lambda>key s. s = sourceSsrc) (mi_feedbackRoutes m),
           mi_router := RemoveSubscribers sourceSsrc (mi_router m)\<rparr>)"
    "planned_routes env meetingId sourceSsrc room =
        List.map_filter (route_target env meetingId sourceSsrc video n skip) (Room_SnapshotSubscribers room)"
    using Refresh_fold [OF assms, of env] by blast
  then show ?thesis by (simp add: fold_add_route_routes [OF assms(1)] routes_of_Remove)
qed

lemma Refresh_feedback:
  assumes "sourceSsrc \<noteq> 0" "RoomManager_GetRoomShared meetingId (mi_roomManager m) = Some room"
    and "(w, ep) \<in> set (planned_routes env meetingId sourceSsrc room)"
  shows "map_of (mi_feedbackRoutes (RefreshPublisherRoutes env meetingId sourceSsrc m))
     (FeedbackRouteKey (env_inet_ntop env) ep w) = Some sourceSsrc"
proof -
  obtain video n skip where "RefreshPublisherRoutes env meetingId sourceSsrc m =
      fold (add_route env meetingId sourceSsrc video n skip) (Room_SnapshotSubscribers room)
        (m\<lparr>mi_feedbackRoutes := um_erase_if (\<lambda>key s. s = sourceSsrc) (mi_feedbackRoutes m),
           mi_router := RemoveSubscribers sourceSsrc (mi_router m)\<rparr>)"
    "planned_routes env meetingId sourceSsrc room =
        List.map_filter (route_target env meetingId sourceSsrc video n skip) (Room_SnapshotSubscribers room)"
    using Refresh_fold [OF assms(1,2), of env] by blast
  then show ?thesis using assms(3) by (simp only: fold_add_route_feedback) fastforce
qed

lemma planned_routes_member:
  assumes "sourceSsrc \<noteq> 0" "(w, ep) \<in> set (planned_routes env meetingId sourceSsrc room)"
  shows "w \<noteq> 0 \<and> (\<exists>sub \<in> set (Room_SnapshotSubscribers room).
     (\<exists>video. ParseEndpoint (env_inet_pton env) (subscriber_endpoint_text video sub) = Some ep) \<and>
     (\<forall>p u. Room_FindPublisherBySsrc sourceSsrc room = Some (p, u) \<and> u \<noteq> [] \<and> Room_SubscriberCount room > 1 \<longrightarrow>
        sbs_userId sub \<noteq> u))"
proof -
  obtain video n skip sub where sub: "sub \<in> set (Room_SnapshotSubscribers room)"
    "route_target env meetingId sourceSsrc video n skip sub = Some (w, ep)"
    and skip: "skip = (case Room_FindPublisherBySsrc sourceSsrc room of Some (p, u) \<Rightarrow>
        if Room_SubscriberCount room > 1 \<and> u \<noteq> [] then Some u else None | None \<Rightarrow> None)"
    using assms(2) by (auto simp: planned_routes_def Let_def List.map_filter_def)
  have "w \<noteq> 0" by (rule route_target_nonzero [OF assms(1) sub(2)])
  moreover have "ParseEndpoint (env_inet_pton env) (subscriber_endpoint_text video sub) = Some ep"
    "skip \<noteq> Some (sbs_userId sub)"
    using sub(2) by (auto simp: route_target_def split: if_splits)
  ultimately show ?thesis using sub(1) skip by (auto intro!: bexI [of _ sub])
qed

text \<open>
  C23. Refreshing the routes of a source installs exactly the routes the room calls for and
  leaves every other source's routes alone: one route per subscriber with a usable address, in
  order, with a non-zero SSRC, never back to the publishing user when the room has more than
  one subscriber; and feedback from each subscriber about the SSRC it receives is resolved to
  the source.
\<close>

theorem RefreshPublisherRoutes_exact:
  assumes "sourceSsrc \<noteq> 0" "RoomManager_GetRoomShared meetingId (mi_roomManager m) = Some room"
    and "m' = RefreshPublisherRoutes env meetingId sourceSsrc m"
  shows "routes_of sourceSsrc (mi_router m') = planned_routes env meetingId sourceSsrc room \<and>
    (\<forall>s. s \<noteq> sourceSsrc \<longrightarrow> routes_of s (mi_router m') = routes_of s (mi_router m)) \<and>
    (\<forall>(w, ep) \<in> set (planned_routes env meetingId sourceSsrc room). w \<noteq> 0 \<and>
       map_of (mi_feedbackRoutes m') (FeedbackRouteKey (env_inet_ntop env) ep w) = Some sourceSsrc \<and>
       (\<exists>sub \<in> set (Room_SnapshotSubscribers room).
          (\<exists>video. ParseEndpoint (env_inet_pton env) (subscriber_endpoint_text video sub) = Some ep) \<and>
          (\<forall>p u. Room_FindPublisherBySsrc sourceSsrc room = Some (p, u) \<and> u \<noteq> [] \<and> Room_SubscriberCount room > 1 \<longrightarrow>
             sbs_userId sub \<noteq> u)))"
proof (intro conjI)
  show "routes_of sourceSsrc (mi_router m') = planned_routes env meetingId sourceSsrc room"
    by (simp add: assms(3) Refresh_routes [OF assms(1,2)])
  show "\<forall>s. s \<noteq> sourceSsrc \<longrightarrow> routes_of s (mi_router m') = routes_of s (mi_router m)"
    by (simp add: assms(3) Refresh_routes [OF assms(1,2)])
next
  show "\<forall>(w, ep) \<in> set (planned_routes env meetingId sourceSsrc room). w \<noteq> 0 \<and>
       map_of (mi_feedbackRoutes m') (FeedbackRouteKey (env_inet_ntop env) ep w) = Some sourceSsrc \<and>
       (\<exists>sub \<in> set (Room_SnapshotSubscribers room).
          (\<exists>video. ParseEndpoint (env_inet_pton env) (subscriber_endpoint_text video sub) = Some ep) \<and>
          (\<forall>p u. Room_FindPublisherBySsrc sourceSsrc room = Some (p, u) \<and> u \<noteq> [] \<and> Room_SubscriberCount room > 1 \<longrightarrow>
             sbs_userId sub \<noteq> u))"
  proof clarify
    fix w ep
    assume p: "(w, ep) \<in> set (planned_routes env meetingId sourceSsrc room)"
    show "w \<noteq> 0 \<and>
       map_of (mi_feedbackRoutes m') (FeedbackRouteKey (env_inet_ntop env) ep w) = Some sourceSsrc \<and>
       (\<exists>sub \<in> set (Room_SnapshotSubscribers room).
          (\<exists>video. ParseEndpoint (env_inet_pton env) (subscriber_endpoint_text video sub) = Some ep) \<and>
          (\<forall>p u. Room_FindPublisherBySsrc sourceSsrc room = Some (p, u) \<and> u \<noteq> [] \<and> Room_SubscriberCount room > 1 \<longrightarrow>
             sbs_userId sub \<noteq> u))"
      using planned_routes_member [OF assms(1) p] Refresh_feedback [OF assms(1,2) p] assms(3) by simp
  qed
qed

section \<open>Removing a publisher\<close>

lemma um_erase_if_absent: "s \<notin> snd ` set (um_erase_if (\<lambda>key v. v = s) m)"
  by (auto simp: um_erase_if_def)

text \<open>All the state the ingress keeps for a source outside the room and the registry.\<close>

definition forgets_source :: "u32 \<Rightarrow> ('ssl, 's) MediaIngress \<Rightarrow> bool" where
  "forgets_source s m \<longleftrightarrow> map_of (rt_publishers (mi_router m)) s = None \<and>
     s \<notin> snd ` set (mi_feedbackRoutes m) \<and> map_of (mi_publisherEndpoints m) s = None \<and>
     map_of (mi_pliForwardBySource m) s = None \<and> map_of (mi_rembFeedbackBySource m) s = None \<and>
     map_of (mi_estimatedRembBySource m) s = None"

lemma RemovePublisherRoutes_forgets: "s \<noteq> 0 \<Longrightarrow> forgets_source s (RemovePublisherRoutes s m)"
  using um_erase_if_absent [of s "mi_feedbackRoutes m"]
  by (simp add: forgets_source_def RemovePublisherRoutes_def UnregisterPublisher_def table_simps)

lemma RemovePublisherRoutes_keeps: "forgets_source s m \<Longrightarrow> forgets_source s (RemovePublisherRoutes s' m)"
  by (auto simp: forgets_source_def RemovePublisherRoutes_def UnregisterPublisher_def RemoveSubscribers_def
      table_simps um_erase_if_def split: option.split)

lemma forgets_frame [simp]:
  "forgets_source s (m\<lparr>mi_publisherTraffic := x\<rparr>) = forgets_source s m"
  "forgets_source s (m\<lparr>mi_senderReports := y\<rparr>) = forgets_source s m"
  by (simp_all add: forgets_source_def)

lemma RemoveRoutes_frame [simp]:
  "mi_publisherTraffic (RemovePublisherRoutes s m) = mi_publisherTraffic m"
  "mi_senderReports (RemovePublisherRoutes s m) = mi_senderReports m"
  "mi_roomManager (RemovePublisherRoutes s m) = mi_roomManager m"
  "mi_transportRegistry (RemovePublisherRoutes s m) = mi_transportRegistry m"
  by (simp_all add: RemovePublisherRoutes_def)

text \<open>
  Removing a publisher leaves nothing behind: afterwards the room no longer has it, and for
  its audio and its video SSRC the ingress holds no route, no feedback route, no endpoint, no
  PLI or bandwidth state and no sender report, and its traffic counters are gone.
\<close>

theorem RemovePublisher_forgets:
  assumes "RoomManager_GetRoomShared meetingId (mi_roomManager m) = Some room"
    and "Room_GetPublisher userId room = Some p" and "RemovePublisher meetingId userId m = (ok, m')"
    and "s \<in> {pub_audioSsrc p, pub_videoSsrc p}" "s \<noteq> 0"
  shows "ok \<and> forgets_source s m' \<and> map_of (mi_senderReports m') s = None \<and>
    map_of (mi_publisherTraffic m') (PublisherTrafficKey meetingId userId) = None \<and>
    (\<forall>room'. RoomManager_GetRoomShared meetingId (mi_roomManager m') = Some room' \<longrightarrow>
       Room_GetPublisher userId room' = None)"
proof -
  have ids: "meetingId \<noteq> []" "userId \<noteq> []" and pub: "map_of (room_publishers room) userId = Some p"
    using assms(1,2) by (auto simp: RoomManager_GetRoomShared_def Room_GetPublisher_def split: if_splits)
  define m1 where "m1 = in_room meetingId (\<lambda>r. snd (Room_RemovePublisher userId r)) m"
  define m2 where "m2 = RemovePublisherRoutes (pub_videoSsrc p) (RemovePublisherRoutes (pub_audioSsrc p) m1)"
  have m': "ok" "m' = erase_sender_report (pub_videoSsrc p) (erase_sender_report (pub_audioSsrc p)
      (m2\<lparr>mi_publisherTraffic := AList.delete (PublisherTrafficKey meetingId userId) (mi_publisherTraffic m2)\<rparr>))"
    using assms(1-3) ids pub by (auto simp: RemovePublisher_def Room_RemovePublisher_def Let_def m1_def m2_def)
  have "forgets_source s m2"
    using assms(4,5) by (auto simp: m2_def RemovePublisherRoutes_forgets intro: RemovePublisherRoutes_keeps)
  then have "forgets_source s m'" by (simp add: m'(2) erase_sender_report_def)
  moreover have "map_of (mi_senderReports m') s = None" using assms(4,5) by (auto simp: m'(2) erase_sender_report_def table_simps)
  moreover have "map_of (mi_publisherTraffic m') (PublisherTrafficKey meetingId userId) = None"
    by (simp add: m'(2) erase_sender_report_def table_simps)
  moreover have "Room_GetPublisher userId room' = None"
    if "RoomManager_GetRoomShared meetingId (mi_roomManager m') = Some room'" for room'
  proof -
    have "mi_roomManager m' = RoomManager_ModifyRoom meetingId (\<lambda>r. snd (Room_RemovePublisher userId r)) (mi_roomManager m)"
      by (simp add: m'(2) erase_sender_report_def m2_def m1_def in_room_def)
    then have "room' = snd (Room_RemovePublisher userId room)"
      using that assms(1) ids by (simp add: RoomManager_ModifyRoom_def RoomManager_GetRoomShared_def table_simps)
    then show ?thesis using ids by (simp add: Room_GetPublisher_def Room_RemovePublisher_def table_simps)
  qed
  ultimately show ?thesis using m'(1) by blast
qed

section \<open>Instances\<close>

text \<open>A room where Ann publishes and Ann and Bob subscribe, each with an address.\<close>

definition demo_env :: "(nat, unit) media_env" where
  "demo_env = \<lparr> env_openssl = demo_ssl, env_libsrtp = demo_srtp,
     env_inet_pton = (\<lambda>h. if h = ''10.0.0.1'' then Some 0x0A000001 else if h = ''10.0.0.2'' then Some 0x0A000002 else None),
     env_inet_ntop = (\<lambda>a. Some (if a = 0x0A000001 then ''10.0.0.1'' else if a = 0x0A000002 then ''10.0.0.2'' else ''0.0.0.0'')),
     env_now = (\<lambda>n. int n * 100000000 + 1), env_RAND_bytes = (\<lambda>n k. Some (replicate (k - 1) 0 @ [of_nat n + 1])),
     env_dtls_initialize = True, env_dtls_fingerprint = ''AB:01'' \<rparr>"

definition demo_room :: Room where
  "demo_room = \<lparr> room_meetingId = ''m'', room_maxPublishers = 4,
     room_publishers = [(''ann'', Publisher_new ''ann'' 9 0)],
     room_subscribers = [(''ann'', Subscriber_new ''ann'' ''10.0.0.1:5000'' 0 0),
                         (''bob'', Subscriber_new ''bob'' ''10.0.0.2:6000'' 0 0)] \<rparr>"

definition demo_ingress :: "(nat, unit) MediaIngress" where
  "demo_ingress = MediaIngress_new \<lparr> rm_rooms = [(''m'', demo_room)] \<rparr> True 4000 4"

definition demo_bob :: Endpoint where
  "demo_bob = \<lparr> sin_family = AF_INET, sin_port = 6000, sin_addr = 0x0A000002 \<rparr>"

lemma demo_room_found: "RoomManager_GetRoomShared ''m'' (mi_roomManager demo_ingress) = Some demo_room"
  by (simp add: demo_ingress_def MediaIngress_new_def RoomManager_GetRoomShared_def)

lemma demo_publisher: "Room_GetPublisher ''ann'' demo_room = Some (Publisher_new ''ann'' 9 0)"
  by (simp add: Room_GetPublisher_def demo_room_def)

lemma demo_parse: "ParseEndpoint (env_inet_pton demo_env) ''10.0.0.2:6000'' = Some demo_bob"
proof -
  have c: "c_str ''10.0.0.2'' = ''10.0.0.2''" "c_str ''6000'' = ''6000''"
    by (simp_all add: c_str_def char_of_def)
  have "str_rfind (CHR '':'') ''10.0.0.2:6000'' = Some 8" by (simp add: str_rfind_def)
  moreover have "strtoul10 ''6000'' = (6000, [])"
    by (simp add: strtoul10_def c isspace_c_def isdigit_c_def digits_value_def of_char_def Let_def)
  ultimately show ?thesis
    by (simp add: ParseEndpoint_def StripUdpScheme_def c Let_def demo_env_def demo_bob_def)
qed

lemma demo_planned: "planned_routes demo_env ''m'' 9 demo_room = [(9, demo_bob)]"
proof -
  have "Room_FindPublisherBySsrc 9 demo_room = Some (Publisher_new ''ann'' 9 0, ''ann'')"
    by (simp add: Room_FindPublisherBySsrc_def demo_room_def Publisher_new_def)
  then show ?thesis
    by (simp add: planned_routes_def Let_def Publisher_new_def Room_SubscriberCount_def Room_SnapshotSubscribers_def
        demo_room_def Subscriber_new_def route_target_def subscriber_endpoint_text_def List.map_filter_simps
        demo_parse route_ssrc_def)
qed

theorem RefreshPublisherRoutes_exact_witness:
  "routes_of 9 (mi_router (RefreshPublisherRoutes demo_env ''m'' 9 demo_ingress)) = [(9, demo_bob)]"
  using RefreshPublisherRoutes_exact [OF _ demo_room_found refl, of 9 demo_env] demo_planned by simp

theorem RemovePublisher_forgets_witness:
  "fst (RemovePublisher ''m'' ''ann'' demo_ingress) \<and>
   forgets_source 9 (snd (RemovePublisher ''m'' ''ann'' demo_ingress))"
proof -
  have "9 \<in> {pub_audioSsrc (Publisher_new ''ann'' 9 0), pub_videoSsrc (Publisher_new ''ann'' 9 0)}" "9 \<noteq> (0 :: u32)"
    by (simp_all add: Publisher_new_def)
  from RemovePublisher_forgets [OF demo_room_found demo_publisher surjective_pairing this] show ?thesis by simp
qed

end
