(* ===== verification/MediaHandlers.thy ===== *)
theory MediaHandlers
  imports MediaIngress
begin

text \<open>
  The transport life cycle and the packet handlers of the media ingress
  (\<open>meeting-server/sfu/server/MediaIngress.cpp\<close>): setting a transport up and closing it, the
  traffic snapshot, the bandwidth feedback to publishers, and the handling of every datagram
  that arrives. A decoder of \<open>RtcpHandler\<close> never reads outside its buffer, so
  \<open>decoded\<close> only drops the memory-safety wrapper of its result.
\<close>

definition decoded :: "'a list mem \<Rightarrow> 'a list" where
  "decoded r = (case r of None \<Rightarrow> [] | Some xs \<Rightarrow> xs)"

definition flag :: "bool mem \<Rightarrow> bool" where
  "flag r = (case r of None \<Rightarrow> False | Some b \<Rightarrow> b)"

section \<open>Setting up and closing a transport\<close>

definition hex_digit_lower :: "nat \<Rightarrow> char" where
  "hex_digit_lower n = ''0123456789abcdef'' ! n"

definition MakeRandomIceToken ::
  "('ssl, 's) media_env \<Rightarrow> nat \<Rightarrow> ('ssl, 's) MediaIngress \<Rightarrow> string \<times> ('ssl, 's) MediaIngress" where
  "MakeRandomIceToken env n m =
     (if n = 0 then ([], m)
      else
        let m' = m\<lparr>mi_randomCalls := mi_randomCalls m + 1\<rparr> in
        case env_RAND_bytes env (mi_randomCalls m) n of
          None \<Rightarrow> ([], m')
        | Some random \<Rightarrow>
            (concat (map (\<lambda>b. [hex_digit_lower (unat b div 16), hex_digit_lower (unat b mod 16)]) random), m'))"

text \<open>
  The loop draws again while the value is 0, so it may run for ever: the result \<open>None\<close>. The
  second component is the number of calls made so far.
\<close>

partial_function (option) random_ssrc :: "(nat \<Rightarrow> nat \<Rightarrow> bytes option) \<Rightarrow> nat \<Rightarrow> (u32 \<times> nat) option" where
  "random_ssrc rand calls =
     (case rand calls 4 of
        None \<Rightarrow> Some (0, calls + 1)
      | Some bs \<Rightarrow>
          let value = be32 (bs ! 0) (bs ! 1) (bs ! 2) (bs ! 3)
          in if value = 0 then random_ssrc rand (calls + 1) else Some (value, calls + 1))"

declare random_ssrc.simps [code]

definition MakeRandomSsrc ::
  "('ssl, 's) media_env \<Rightarrow> ('ssl, 's) MediaIngress \<Rightarrow> (u32 \<times> ('ssl, 's) MediaIngress) option" where
  "MakeRandomSsrc env m =
     map_option (\<lambda>(value, calls). (value, m\<lparr>mi_randomCalls := calls\<rparr>))
       (random_ssrc (env_RAND_bytes env) (mi_randomCalls m))"

definition setup_failed :: TransportSetupResult where
  "setup_failed = \<lparr> ts_success = False, ts_serverIceUfrag = [], ts_serverIcePwd = [],
     ts_serverDtlsFingerprint = [], ts_serverCandidates = [], ts_assignedAudioSsrc = 0,
     ts_assignedVideoSsrc = 0 \<rparr>"

text \<open>The part of \<open>SetupTransport\<close> after the DTLS transport was started.\<close>

definition install_transport ::
  "('ssl, 's) media_env \<Rightarrow> ('ssl, 's) ParticipantTransport \<Rightarrow> ('ssl, 's) MediaIngress \<Rightarrow>
   bool \<times> ('ssl, 's) MediaIngress" where
  "install_transport env t m =
     (let meetingId = pt_meetingId t; userId = pt_userId t;
          audio = pt_assignedAudioSsrc t; video = pt_assignedVideoSsrc t;
          m1 = m\<lparr>mi_transportRegistry := Upsert t (Kind (pt_publishAudio t) (pt_publishVideo t)) (mi_transportRegistry m)\<rparr>;
          (okSub, m2) = BindSubscriber env meetingId userId audio video m1
      in if \<not> okSub then (False, m2)
         else if audio \<noteq> 0 \<or> video \<noteq> 0 then BindPublisher env meetingId userId audio video m2
         else (True, m2))"

definition SetupTransport ::
  "('ssl, 's) media_env \<Rightarrow> string \<Rightarrow> string \<Rightarrow> bool \<Rightarrow> bool \<Rightarrow> string \<Rightarrow> string \<Rightarrow> string \<Rightarrow>
   string list \<Rightarrow> string \<Rightarrow> ('ssl, 's) MediaIngress \<Rightarrow>
   (bool \<times> TransportSetupResult \<times> ('ssl, 's) MediaIngress) option" where
  "SetupTransport env meetingId userId publishAudio publishVideo clientIceUfrag clientIcePwd
     clientDtlsFingerprint clientCandidates advertisedAddress m =
     (if meetingId = [] \<or> userId = [] \<or> clientIceUfrag = [] \<or> clientIcePwd = [] \<or> clientDtlsFingerprint = []
      then Some (False, setup_failed, m)
      else if RoomManager_GetRoomShared meetingId (mi_roomManager m) = None \<or> \<not> env_dtls_initialize env
      then Some (False, setup_failed, m)
      else do {
        (assignedAudioSsrc, m1) \<leftarrow> (if publishAudio then MakeRandomSsrc env m else Some (0, m));
        (assignedVideoSsrc, m2) \<leftarrow> (if publishVideo then MakeRandomSsrc env m1 else Some (0, m1));
        let (serverIceUfrag, m3) = MakeRandomIceToken env 8 m2;
        let (serverIcePwd, m4) = MakeRandomIceToken env 24 m3;
        let host = HostFromAdvertisedAddress advertisedAddress;
        let serverCandidates = [MakeHostCandidate (if host = [] then ''127.0.0.1'' else host) (mi_port m4)];
        let iceSession = IceLiteSession_Configure clientIceUfrag clientIcePwd clientCandidates
              serverIceUfrag serverIcePwd serverCandidates IceLiteSession_new;
        let (started, packets, dtlsTransport) = DtlsTransport_Start (env_openssl env) True
              clientDtlsFingerprint False (DtlsTransport_new RoleServer);
        if \<not> started then Some (False, setup_failed, m4)
        else
          let (ok, m5) = install_transport env
                (ParticipantTransport_new meetingId userId publishAudio publishVideo clientDtlsFingerprint
                   assignedAudioSsrc assignedVideoSsrc iceSession (Some dtlsTransport)) m4
          in Some (if \<not> ok then (False, setup_failed, m5)
                   else (True,
                     \<lparr> ts_success = True, ts_serverIceUfrag = serverIceUfrag, ts_serverIcePwd = serverIcePwd,
                       ts_serverDtlsFingerprint = env_dtls_fingerprint env,
                       ts_serverCandidates = serverCandidates,
                       ts_assignedAudioSsrc = assignedAudioSsrc, ts_assignedVideoSsrc = assignedVideoSsrc \<rparr>, m5)) })"

definition TrickleIceCandidate ::
  "string \<Rightarrow> string \<Rightarrow> string \<Rightarrow> bool \<Rightarrow> ('ssl, 's) MediaIngress \<Rightarrow> bool \<times> ('ssl, 's) MediaIngress" where
  "TrickleIceCandidate meetingId userId candidate endOfCandidates m =
     (if meetingId = [] \<or> userId = [] then (False, m)
      else let (ok, registry) = AppendIceCandidate meetingId userId candidate endOfCandidates (mi_transportRegistry m)
           in (ok, m\<lparr>mi_transportRegistry := registry\<rparr>))"

definition CloseTransport ::
  "('ssl, 's) media_env \<Rightarrow> string \<Rightarrow> string \<Rightarrow> ('ssl, 's) MediaIngress \<Rightarrow> bool \<times> ('ssl, 's) MediaIngress" where
  "CloseTransport env meetingId userId m =
     (if meetingId = [] \<or> userId = [] then (False, m)
      else
        let m1 = m\<lparr>mi_transportRegistry := snd (EraseUserTransports meetingId userId (mi_transportRegistry m))\<rparr>;
            m2 = snd (RemoveSubscriber env meetingId userId m1)
        in (True, snd (RemovePublisher meetingId userId m2)))"

section \<open>Traffic statistics and bandwidth feedback\<close>

definition traffic_alive :: "RoomManager \<Rightarrow> PublisherTrafficCounters \<Rightarrow> bool" where
  "traffic_alive rooms c =
     (case RoomManager_GetRoomShared (pc_meetingId c) rooms of
        None \<Rightarrow> False
      | Some room \<Rightarrow> Room_GetPublisher (pc_userId c) room \<noteq> None)"

definition SnapshotPublisherTraffic ::
  "('ssl, 's) MediaIngress \<Rightarrow> PublisherTrafficCounters list \<times> ('ssl, 's) MediaIngress" where
  "SnapshotPublisherTraffic m =
     (let alive = um_erase_if (\<lambda>key c. \<not> traffic_alive (mi_roomManager m) c) (mi_publisherTraffic m)
      in (sort_key (\<lambda>c. (pc_meetingId c, pc_userId c)) (map snd alive), m\<lparr>mi_publisherTraffic := alive\<rparr>))"

text \<open>
  The decision inside \<open>SendEstimatedRembToPublisher\<close> under \<open>estimatedRembMutex_\<close>: the estimate is
  sent unless one was sent less than 500 ms ago and the rate changed by less than 5 percent.
\<close>

definition estimate_due :: "u32 \<Rightarrow> int \<Rightarrow> EstimatedRembState \<Rightarrow> bool" where
  "estimate_due bitrateBps now state =
     (if er_sentAt state \<noteq> 0
      then
        let old = er_bitrateBps state;
            delta = (if old > bitrateBps then old - bitrateBps else bitrateBps - old);
            changePercent = (if old = 0 then 100 else ucast ((ucast delta :: u64) * 100 div ucast old) :: u32)
        in \<not> (now - er_sentAt state < 500000000 \<and> changePercent < 5)
      else True)"

definition reserve_estimate ::
  "u32 \<Rightarrow> u32 \<Rightarrow> int \<Rightarrow> (u32, EstimatedRembState) umap \<Rightarrow> bool \<times> (u32, EstimatedRembState) umap" where
  "reserve_estimate sourceSsrc bitrateBps now states =
     (let state = (case map_of states sourceSsrc of
            Some s \<Rightarrow> s | None \<Rightarrow> \<lparr> er_bitrateBps = 0, er_sentAt = 0 \<rparr>)
      in if estimate_due bitrateBps now state
         then (True, AList.update sourceSsrc \<lparr> er_bitrateBps = bitrateBps, er_sentAt = now \<rparr> states)
         else (False, AList.update sourceSsrc state states))"

definition SendEstimatedRembToPublisher ::
  "('ssl, 's) media_env \<Rightarrow> string \<Rightarrow> string \<Rightarrow> u32 \<Rightarrow> ('ssl, 's) MediaIngress \<Rightarrow> bool \<times> ('ssl, 's) MediaIngress" where
  "SendEstimatedRembToPublisher env meetingId userId bitrateKbps m =
     (if meetingId = [] \<or> userId = [] \<or> bitrateKbps = 0 then (False, m)
      else case RoomManager_GetRoomShared meetingId (mi_roomManager m) of
        None \<Rightarrow> (False, m)
      | Some room \<Rightarrow>
          (case Room_GetPublisher userId room of
             None \<Rightarrow> (False, m)
           | Some publisher \<Rightarrow>
               let sourceSsrc = (if pub_videoSsrc publisher \<noteq> 0 then pub_videoSsrc publisher else pub_audioSsrc publisher)
               in if sourceSsrc = 0 then (False, m)
                  else case ResolvePublisherEndpoint sourceSsrc m of
                    None \<Rightarrow> (False, m)
                  | Some publisherEndpoint \<Rightarrow>
                      let bitrateBps = min bitrateKbps 4294967 * 1000;
                          (now, m1) = steady_now env m;
                          (due, states) = reserve_estimate sourceSsrc bitrateBps now (mi_estimatedRembBySource m1);
                          m2 = m1\<lparr>mi_estimatedRembBySource := states\<rparr>
                      in if \<not> due then (False, m2)
                         else
                           let (exp, mantissa) = EncodeRembBitrate bitrateBps
                           in send_rtcp env (BuildRembPacket 0 sourceSsrc exp mantissa sourceSsrc) publisherEndpoint m2))"

definition ShouldForwardPli :: "u32 \<Rightarrow> int \<Rightarrow> (u32, int) umap \<Rightarrow> bool \<times> (u32, int) umap" where
  "ShouldForwardPli sourceSsrc now pli =
     (if sourceSsrc = 0 then (False, pli)
      else case map_of pli sourceSsrc of
        Some previous \<Rightarrow> if now - previous < 200000000 then (False, pli) else (True, AList.update sourceSsrc now pli)
      | None \<Rightarrow> (True, AList.update sourceSsrc now pli))"

text \<open>The selection loop: the first sample, in iteration order, with the least bit rate.\<close>

fun least_sample :: "RembFeedbackSample \<Rightarrow> (string, RembFeedbackSample) umap \<Rightarrow> RembFeedbackSample" where
  "least_sample selected [] = selected"
| "least_sample selected ((key, sample) # rest) =
     least_sample (if rs_bitrateBps sample < rs_bitrateBps selected then sample else selected) rest"

definition SelectAggregatedRembForSource ::
  "('ssl, 's) media_env \<Rightarrow> u32 \<Rightarrow> Endpoint \<Rightarrow> RtcpRembFeedback \<Rightarrow> ('ssl, 's) MediaIngress \<Rightarrow>
   (u8 \<times> u32) option \<times> ('ssl, 's) MediaIngress" where
  "SelectAggregatedRembForSource env sourceSsrc from remb m =
     (if sourceSsrc = 0 then (None, m)
      else
        let endpointKey = EndpointKey (env_inet_ntop env) from in
        if endpointKey = [] then (None, m)
        else
          let (now, m1) = steady_now env m;
              perEndpoint = (case map_of (mi_rembFeedbackBySource m1) sourceSsrc of Some p \<Rightarrow> p | None \<Rightarrow> []);
              perEndpoint = AList.update endpointKey \<lparr> rs_bitrateExp = rb_bitrateExp remb,
                rs_bitrateMantissa = rb_bitrateMantissa remb, rs_bitrateBps = rb_bitrateBps remb,
                rs_observedAt = now \<rparr> perEndpoint;
              fresh = um_erase_if (\<lambda>key sample. now - rs_observedAt sample > 3000000000) perEndpoint
          in case fresh of
               [] \<Rightarrow> (None, m1\<lparr>mi_rembFeedbackBySource := AList.delete sourceSsrc (mi_rembFeedbackBySource m1)\<rparr>)
             | (key, first) # rest \<Rightarrow>
                 let selected = least_sample first fresh
                 in (Some (rs_bitrateExp selected, rs_bitrateMantissa selected),
                     m1\<lparr>mi_rembFeedbackBySource := AList.update sourceSsrc fresh (mi_rembFeedbackBySource m1)\<rparr>))"

section \<open>STUN and DTLS datagrams\<close>

text \<open>The address a subscriber was seen at becomes its address for the media kind of the transport.\<close>

definition subscriber_seen_at :: "string \<Rightarrow> string \<Rightarrow> Subscriber \<Rightarrow> Subscriber" where
  "subscriber_seen_at mediaKind endpointText s =
     (if mediaKind = ''audio'' then s\<lparr>sbs_audioEndpoint := endpointText\<rparr>
      else if mediaKind = ''video'' then s\<lparr>sbs_videoEndpoint := endpointText\<rparr>
      else s\<lparr>sbs_endpoint := endpointText, sbs_audioEndpoint := endpointText, sbs_videoEndpoint := endpointText\<rparr>)"

definition update_subscriber_endpoint ::
  "('ssl, 's) media_env \<Rightarrow> string \<Rightarrow> string \<Rightarrow> string \<Rightarrow> string \<Rightarrow> ('ssl, 's) MediaIngress \<Rightarrow> ('ssl, 's) MediaIngress" where
  "update_subscriber_endpoint env meetingId userId mediaKind endpointText m =
     (case RoomManager_GetRoomShared meetingId (mi_roomManager m) of
        None \<Rightarrow> m
      | Some room \<Rightarrow>
          if endpointText = [] \<or> Room_GetSubscriber userId room = None then m
          else RefreshRoomRoutes env meetingId
                 (in_room meetingId (Room_ModifySubscriber userId (subscriber_seen_at mediaKind endpointText)) m))"

definition HandleStunPacket ::
  "('ssl, 's) media_env \<Rightarrow> bytes \<Rightarrow> Endpoint \<Rightarrow> ('ssl, 's) MediaIngress \<Rightarrow> bool \<times> ('ssl, 's) MediaIngress" where
  "HandleStunPacket env data from m =
     (let username = (case ParseStunUsername data of None \<Rightarrow> [] | Some u \<Rightarrow> u) in
      if username = [] then (False, m)
      else case SelectEndpointForUsername username from (mi_transportRegistry m) of
        (None, registry) \<Rightarrow> (False, m)
      | (Some (meetingId, userId, mediaKind), registry) \<Rightarrow>
          let m1 = update_subscriber_endpoint env meetingId userId mediaKind
                     (EndpointKey (env_inet_ntop env) from) (m\<lparr>mi_transportRegistry := registry\<rparr>);
              response = decoded (BuildStunBindingResponse data from)
          in (True, if response \<noteq> [] then UdpServer_SendTo response from m1 else m1))"

definition HandleDtlsPacket ::
  "('ssl, 's) media_env \<Rightarrow> bytes \<Rightarrow> Endpoint \<Rightarrow> ('ssl, 's) MediaIngress \<Rightarrow> bool \<times> ('ssl, 's) MediaIngress" where
  "HandleDtlsPacket env data from m =
     (let (ok, outgoing, registry) =
            HandleDtlsFromEndpoint (env_openssl env) (env_libsrtp env) from data (mi_transportRegistry m);
          m1 = m\<lparr>mi_transportRegistry := registry\<rparr>
      in if \<not> ok then (False, m1)
         else (True, fold (\<lambda>packet. UdpServer_SendTo packet from) (filter (\<lambda>p. p \<noteq> []) outgoing) m1))"

section \<open>RTCP datagrams\<close>

text \<open>
  The five loops of \<open>HandleControlPacket\<close>. Each round takes the flag \<open>updated\<close> and the state and
  gives them back; \<open>now\<close> is the clock reading at the start of the handler.
\<close>

definition control_sender_report ::
  "('ssl, 's) media_env \<Rightarrow> Endpoint \<Rightarrow> int \<Rightarrow> RtcpSenderReport \<Rightarrow>
   bool \<times> ('ssl, 's) MediaIngress \<Rightarrow> bool \<times> ('ssl, 's) MediaIngress" where
  "control_sender_report env from now report um =
     (case um of (updated, m) \<Rightarrow>
      if ResolvePublisher (sr_senderSsrc report) m = None then (updated, m)
      else if \<not> TransportAllowsRtp (sr_senderSsrc report) from m then (updated, m)
      else
        let compactNtp = CompactNtpFromTimestamp (sr_ntpTimestamp report);
            m1 = m\<lparr>mi_senderReports := AList.update (sr_senderSsrc report)
                    \<lparr> sl_compactNtp = compactNtp, sl_observedAt = now \<rparr> (mi_senderReports m)\<rparr>;
            (sent, m2) = send_rtcp env (BuildReceiverReportPacket 0 (sr_senderSsrc report) compactNtp 0) from m1
        in (updated \<or> sent, m2))"

definition control_reception_report ::
  "int \<Rightarrow> RtcpReceptionReport \<Rightarrow> bool \<times> ('ssl, 's) MediaIngress \<Rightarrow> bool \<times> ('ssl, 's) MediaIngress" where
  "control_reception_report now report um =
     (case um of (updated, m) \<Rightarrow>
      case ResolvePublisher (rr_sourceSsrc report) m of
        None \<Rightarrow> (updated, m)
      | Some location \<Rightarrow>
          let key = PublisherTrafficKey (loc_meetingId location) (loc_userId location);
              counters = (case map_of (mi_publisherTraffic m) key of
                Some c \<Rightarrow> c
              | None \<Rightarrow> \<lparr> pc_meetingId = [], pc_userId = [], pc_packetCount = 0, pc_byteCount = 0,
                          pc_packetLoss = 0, pc_jitterMs = 0, pc_rttMs = 0 \<rparr>)
          in (True, m\<lparr>mi_publisherTraffic := AList.update key
                (counters\<lparr> pc_meetingId := loc_meetingId location, pc_userId := loc_userId location,
                   pc_packetLoss := of_nat (unat (rr_fractionLost report)) / 256,
                   pc_jitterMs := JitterToMs location (rr_sourceSsrc report) (rr_jitter report),
                   pc_rttMs := (case map_of (mi_senderReports m) (rr_sourceSsrc report) of
                       None \<Rightarrow> 0
                     | Some entry \<Rightarrow> ComputeRttMs entry (rr_lastSenderReport report)
                         (rr_delaySinceLastSenderReport report) now) \<rparr>)
                (mi_publisherTraffic m)\<rparr>))"

definition retransmit ::
  "('ssl, 's) media_env \<Rightarrow> Endpoint \<Rightarrow> u32 \<Rightarrow> u32 \<Rightarrow> u16 \<Rightarrow>
   bool \<times> ('ssl, 's) MediaIngress \<Rightarrow> bool \<times> ('ssl, 's) MediaIngress" where
  "retransmit env from sourceSsrc mediaSsrc sequence um =
     (case um of (updated, m) \<Rightarrow>
      case GetRetransmitPacket sourceSsrc sequence (mi_router m) of
        None \<Rightarrow> (updated, m)
      | Some packet \<Rightarrow>
          if packet = [] then (updated, m)
          else
            let packet' = (if mediaSsrc \<noteq> 0 \<and> mediaSsrc \<noteq> sourceSsrc then RewriteRtpSsrc mediaSsrc packet else packet);
                (sent, m') = send_rtp env packet' from m
            in (updated \<or> sent, m'))"

definition control_nack ::
  "('ssl, 's) media_env \<Rightarrow> Endpoint \<Rightarrow> RtcpNackFeedback \<Rightarrow>
   bool \<times> ('ssl, 's) MediaIngress \<Rightarrow> bool \<times> ('ssl, 's) MediaIngress" where
  "control_nack env from nack um =
     (case um of (updated, m) \<Rightarrow>
      let sourceSsrc = ResolveNackSourceSsrc env from (nk_mediaSsrc nack) m in
      if sourceSsrc = 0 then (updated, m)
      else fold (retransmit env from sourceSsrc (nk_mediaSsrc nack)) (nk_lostSequences nack) (updated, m))"

definition control_pli ::
  "('ssl, 's) media_env \<Rightarrow> Endpoint \<Rightarrow> int \<Rightarrow> RtcpPliFeedback \<Rightarrow>
   bool \<times> ('ssl, 's) MediaIngress \<Rightarrow> bool \<times> ('ssl, 's) MediaIngress" where
  "control_pli env from now pli um =
     (case um of (updated, m) \<Rightarrow>
      let sourceSsrc = ResolveNackSourceSsrc env from (pli_mediaSsrc pli) m in
      if sourceSsrc = 0 then (updated, m)
      else
        let (forward, times) = ShouldForwardPli sourceSsrc now (mi_pliForwardBySource m);
            m1 = m\<lparr>mi_pliForwardBySource := times\<rparr>
        in if \<not> forward then (updated, m1)
           else case ResolvePublisherEndpoint sourceSsrc m1 of
             None \<Rightarrow> (updated, m1)
           | Some publisherEndpoint \<Rightarrow>
               let (sent, m2) = send_rtcp env (BuildPliPacket (pli_senderSsrc pli) sourceSsrc) publisherEndpoint m1
               in (updated \<or> sent, m2))"

definition control_remb_target ::
  "('ssl, 's) media_env \<Rightarrow> Endpoint \<Rightarrow> RtcpRembFeedback \<Rightarrow> u32 \<Rightarrow>
   bool \<times> ('ssl, 's) MediaIngress \<Rightarrow> bool \<times> ('ssl, 's) MediaIngress" where
  "control_remb_target env from remb targetSsrc um =
     (case um of (updated, m) \<Rightarrow>
      let sourceSsrc = ResolveNackSourceSsrc env from targetSsrc m in
      if sourceSsrc = 0 then (updated, m)
      else case ResolvePublisherEndpoint sourceSsrc m of
        None \<Rightarrow> (updated, m)
      | Some publisherEndpoint \<Rightarrow>
          (case SelectAggregatedRembForSource env sourceSsrc from remb m of
             (None, m1) \<Rightarrow> (updated, m1)
           | (Some (selectedExp, selectedMantissa), m1) \<Rightarrow>
               let (sent, m2) = send_rtcp env (BuildRembPacket (rb_senderSsrc remb) sourceSsrc selectedExp
                     selectedMantissa sourceSsrc) publisherEndpoint m1
               in (updated \<or> sent, m2)))"

definition control_remb ::
  "('ssl, 's) media_env \<Rightarrow> Endpoint \<Rightarrow> RtcpRembFeedback \<Rightarrow>
   bool \<times> ('ssl, 's) MediaIngress \<Rightarrow> bool \<times> ('ssl, 's) MediaIngress" where
  "control_remb env from remb um = fold (control_remb_target env from remb) (rb_targetSsrcs remb) um"

definition HandleControlPacket ::
  "('ssl, 's) media_env \<Rightarrow> bytes \<Rightarrow> Endpoint \<Rightarrow> ('ssl, 's) MediaIngress \<Rightarrow> bool \<times> ('ssl, 's) MediaIngress" where
  "HandleControlPacket env data from m =
     (let (now, m0) = steady_now env m;
          s1 = fold (control_sender_report env from now) (decoded (ParseSenderReports data)) (False, m0);
          s2 = fold (control_reception_report now) (decoded (ParseReceptionReports data)) s1;
          s3 = fold (control_nack env from) (decoded (ParseNackFeedback data)) s2;
          s4 = fold (control_pli env from now) (decoded (ParsePliFeedback data)) s3
      in fold (control_remb env from) (decoded (ParseRembFeedback data)) s4)"

section \<open>Media packets and the dispatch of a datagram\<close>

text \<open>The bookkeeping for an accepted media packet, and its forwarding.\<close>

definition deliver_media ::
  "('ssl, 's) media_env \<Rightarrow> bytes \<Rightarrow> RtpHeader \<Rightarrow> Endpoint \<Rightarrow> ('ssl, 's) MediaIngress \<Rightarrow> bool \<times> ('ssl, 's) MediaIngress" where
  "deliver_media env media header from m =
     (case ResolvePublisher (rtp_ssrc header) m of
        None \<Rightarrow> (False, m)
      | Some location \<Rightarrow>
          let key = PublisherTrafficKey (loc_meetingId location) (loc_userId location);
              counters = (case map_of (mi_publisherTraffic m) key of
                Some c \<Rightarrow> c
              | None \<Rightarrow> \<lparr> pc_meetingId = [], pc_userId = [], pc_packetCount = 0, pc_byteCount = 0,
                          pc_packetLoss = 0, pc_jitterMs = 0, pc_rttMs = 0 \<rparr>);
              m1 = m\<lparr> mi_publisherEndpoints := AList.update (rtp_ssrc header) from (mi_publisherEndpoints m),
                      mi_lastObservation := \<lparr> po_meetingId = loc_meetingId location,
                        po_userId = loc_userId location, po_ssrc = rtp_ssrc header,
                        po_sequence = rtp_sequence header, po_timestamp = rtp_timestamp header,
                        po_bytes = length media \<rparr>,
                      mi_publisherTraffic := AList.update key
                        (counters\<lparr> pc_meetingId := loc_meetingId location, pc_userId := loc_userId location,
                           pc_packetCount := pc_packetCount counters + 1,
                           pc_byteCount := pc_byteCount counters + of_nat (length media) \<rparr>)
                        (mi_publisherTraffic m),
                      mi_packetCount := mi_packetCount m + 1 \<rparr>;
              (ok, router, calls) = Route media (mi_router m1)
          in (ok, fold (run_forward env) calls (m1\<lparr>mi_router := router\<rparr>)))"

definition HandleMediaPacket ::
  "('ssl, 's) media_env \<Rightarrow> bytes \<Rightarrow> Endpoint \<Rightarrow> ('ssl, 's) MediaIngress \<Rightarrow> bool \<times> ('ssl, 's) MediaIngress" where
  "HandleMediaPacket env data from m =
     (case rtp_parse data of
        None \<Rightarrow> (False, m)
      | Some parsed \<Rightarrow>
          let ssrc = rtp_ssrc (pkt_header parsed) in
          if \<not> TransportAllowsRtp ssrc from m then (False, m)
          else if TransportRequiresSrtp ssrc m
          then if \<not> SrtpReadyForSsrcFrom ssrc from (mi_transportRegistry m) then (False, m)
               else
                 let (ok, media, registry) = UnprotectRtpFromEndpoint (env_libsrtp env) from data (mi_transportRegistry m);
                     m1 = m\<lparr>mi_transportRegistry := registry\<rparr>
                 in if \<not> ok then (False, m1)
                    else case rtp_parse media of
                      None \<Rightarrow> (False, m1)
                    | Some parsed' \<Rightarrow> deliver_media env media (pkt_header parsed') from m1
          else deliver_media env data (pkt_header parsed) from m)"

text \<open>
  The RTCP part of \<open>HandlePacket\<close>: \<open>None\<close> in the first component means that the datagram is
  tried as a media packet next.
\<close>

definition HandleRtcpPacket ::
  "('ssl, 's) media_env \<Rightarrow> bytes \<Rightarrow> Endpoint \<Rightarrow> ('ssl, 's) MediaIngress \<Rightarrow> bool option \<times> ('ssl, 's) MediaIngress" where
  "HandleRtcpPacket env data from m =
     (let (ok, control, m1) =
        (if EndpointRequiresSecureMedia from m
         then let (ok, plain, registry) = UnprotectRtcpFromEndpoint (env_libsrtp env) from data (mi_transportRegistry m)
              in (ok, plain, m\<lparr>mi_transportRegistry := registry\<rparr>)
         else (True, data, m))
      in if \<not> ok then (Some False, m1)
         else
           let packets = decoded (ParseCompound control);
               consumed = sum_list (map rp_packetSize packets)
           in if packets \<noteq> [] \<and> consumed = length control
              then (Some True, snd (HandleControlPacket env control from m1))
              else (None, m1))"

definition HandlePacket ::
  "('ssl, 's) media_env \<Rightarrow> bytes \<Rightarrow> Endpoint \<Rightarrow> ('ssl, 's) MediaIngress \<Rightarrow> bool \<times> ('ssl, 's) MediaIngress" where
  "HandlePacket env data from m =
     (if flag (IsStunPacket data) then HandleStunPacket env data from m
      else if flag (LooksLikeDtlsRecord data) then HandleDtlsPacket env data from m
      else if flag (LooksLikeRtcp data)
      then case HandleRtcpPacket env data from m of
             (Some result, m1) \<Rightarrow> (result, m1)
           | (None, m1) \<Rightarrow> HandleMediaPacket env data from m1
      else HandleMediaPacket env data from m)"

end
