(* ===== verification/MediaSafety.thy ===== *)
theory MediaSafety
  imports MediaHandlers
begin

text \<open>
  The invariant of the whole media ingress over every sequence of control calls and datagrams,
  and what follows from it: rooms within their limits, sound routing tables, and media that is
  accepted for a transport's SSRC only from a peer whose certificate was verified.
\<close>

section \<open>The invariant\<close>

definition tables_ok :: "('ssl, 's) MediaIngress \<Rightarrow> bool" where
  "tables_ok m \<longleftrightarrow> um_ok (mi_publisherTraffic m) \<and> um_ok (mi_senderReports m) \<and> um_ok (mi_feedbackRoutes m) \<and>
     um_ok (mi_publisherEndpoints m) \<and> um_ok (mi_pliForwardBySource m) \<and> um_ok (mi_rembFeedbackBySource m) \<and>
     um_ok (mi_estimatedRembBySource m) \<and>
     (\<forall>s p. map_of (mi_rembFeedbackBySource m) s = Some p \<longrightarrow> um_ok p)"

definition ingress_inv :: "('ssl, 's) media_env \<Rightarrow> ('ssl, 's) MediaIngress \<Rightarrow> bool" where
  "ingress_inv env m \<longleftrightarrow> manager_inv (mi_roomManager m) \<and> router_inv (mi_router m) \<and>
     registry_inv (mi_transportRegistry m) \<and> registry_secure (env_openssl env) (mi_transportRegistry m) \<and>
     tables_ok m"

text \<open>What the theorems assume of OpenSSL (see \<open>DtlsTransport\<close>).\<close>

definition trusted_ssl :: "('ssl, 's) media_env \<Rightarrow> bool" where
  "trusted_ssl env \<longleftrightarrow> handshake_stays_complete (env_openssl env) \<and> peer_certificate_fixed (env_openssl env)"

lemma trusted_sslD: "trusted_ssl env \<Longrightarrow> handshake_stays_complete (env_openssl env)"
  "trusted_ssl env \<Longrightarrow> peer_certificate_fixed (env_openssl env)"
  by (simp_all add: trusted_ssl_def)

lemma fold_invariant:
  assumes "P s" "\<And>x s. P s \<Longrightarrow> P (f x s)"
  shows "P (fold f xs s)"
  using assms(1) by (induction xs arbitrary: s) (simp_all add: assms(2))

lemma inv_new:
  assumes "manager_inv rooms"
  shows "ingress_inv env (MediaIngress_new rooms started port cap)"
  using assms by (simp add: ingress_inv_def MediaIngress_new_def tables_ok_def registry_inv_def registry_secure_def)

lemma inv_sent [simp]: "ingress_inv env (m\<lparr>mi_sent := x\<rparr>) = ingress_inv env m"
  by (simp add: ingress_inv_def tables_ok_def)

lemma inv_clock [simp]: "ingress_inv env (m\<lparr>mi_clockReads := x\<rparr>) = ingress_inv env m"
  by (simp add: ingress_inv_def tables_ok_def)

lemma inv_random [simp]: "ingress_inv env (m\<lparr>mi_randomCalls := x\<rparr>) = ingress_inv env m"
  by (simp add: ingress_inv_def tables_ok_def)

lemma inv_SendTo [simp]: "ingress_inv env (UdpServer_SendTo p ep m) = ingress_inv env m"
  by (simp add: UdpServer_SendTo_def)

lemma inv_registry:
  "ingress_inv env m \<Longrightarrow> registry_inv r \<Longrightarrow> registry_secure (env_openssl env) r \<Longrightarrow>
     ingress_inv env (m\<lparr>mi_transportRegistry := r\<rparr>)"
  by (simp add: ingress_inv_def tables_ok_def)

lemma inv_rooms: "ingress_inv env m \<Longrightarrow> manager_inv r \<Longrightarrow> ingress_inv env (m\<lparr>mi_roomManager := r\<rparr>)"
  by (simp add: ingress_inv_def tables_ok_def)

lemma inv_router: "ingress_inv env m \<Longrightarrow> router_inv r \<Longrightarrow> ingress_inv env (m\<lparr>mi_router := r\<rparr>)"
  by (simp add: ingress_inv_def tables_ok_def)

lemma inv_parts:
  assumes "ingress_inv env m"
  shows "manager_inv (mi_roomManager m)" "router_inv (mi_router m)" "registry_inv (mi_transportRegistry m)"
    "registry_secure (env_openssl env) (mi_transportRegistry m)" "tables_ok m"
  using assms by (simp_all add: ingress_inv_def)

lemma inv_traffic:
  "ingress_inv env m \<Longrightarrow> um_ok t \<Longrightarrow> ingress_inv env (m\<lparr>mi_publisherTraffic := t\<rparr>)"
  by (simp add: ingress_inv_def tables_ok_def)

lemma inv_senderReports:
  "ingress_inv env m \<Longrightarrow> um_ok t \<Longrightarrow> ingress_inv env (m\<lparr>mi_senderReports := t\<rparr>)"
  by (simp add: ingress_inv_def tables_ok_def)

lemma tables_um_ok:
  assumes "ingress_inv env m"
  shows "um_ok (mi_publisherTraffic m)" "um_ok (mi_senderReports m)" "um_ok (mi_feedbackRoutes m)"
    "um_ok (mi_publisherEndpoints m)" "um_ok (mi_pliForwardBySource m)" "um_ok (mi_rembFeedbackBySource m)"
    "um_ok (mi_estimatedRembBySource m)"
    "map_of (mi_rembFeedbackBySource m) s = Some p \<Longrightarrow> um_ok p"
  using assms by (auto simp: ingress_inv_def tables_ok_def)

section \<open>Sending keeps the invariant\<close>

lemma registry_inv_protect:
  assumes "registry_inv r"
  shows "registry_inv (snd (snd (ProtectRtpToEndpoint lib ep p r)))"
    "registry_inv (snd (snd (ProtectRtcpToEndpoint lib ep p r)))"
    "registry_inv (snd (snd (UnprotectRtpFromEndpoint lib ep p r)))"
    "registry_inv (snd (snd (UnprotectRtcpFromEndpoint lib ep p r)))"
  unfolding endpoint_op_defs by (simp_all add: assms registry_inv_with_endpoint)

lemma inv_secure_send:
  assumes "ingress_inv env m" "trusted_ssl env"
    and "protect \<in> {ProtectRtpToEndpoint (env_libsrtp env), ProtectRtcpToEndpoint (env_libsrtp env)}"
  shows "ingress_inv env (snd (secure_send protect p ep m))"
proof -
  have "registry_inv (snd (snd (protect ep p (mi_transportRegistry m))))"
    "registry_secure (env_openssl env) (snd (snd (protect ep p (mi_transportRegistry m))))"
    using assms(3) inv_parts(3,4) [OF assms(1)] trusted_sslD [OF assms(2)]
    by (auto simp: registry_inv_protect registry_secure_ops)
  then show ?thesis
    using assms(1) by (simp add: secure_send_def case_prod_beta Let_def inv_registry)
qed

lemmas inv_send = inv_secure_send [OF _ _ insertI1] inv_secure_send [OF _ _ insertI2 [OF insertI1]]

lemma inv_run_forward:
  "ingress_inv env m \<Longrightarrow> trusted_ssl env \<Longrightarrow> ingress_inv env (run_forward env call m)"
  unfolding run_forward_def by (rule inv_send(1))

section \<open>Control calls keep the invariant\<close>

lemma inv_add_route:
  assumes "ingress_inv env m"
  shows "ingress_inv env (add_route env meetingId s video n skip sub m)"
  using inv_parts [OF assms] router_inv_Add [of "mi_router m" s]
  by (auto simp: add_route_eq ingress_inv_def tables_ok_def split: option.split)

lemma inv_RefreshPublisherRoutes:
  assumes "ingress_inv env m"
  shows "ingress_inv env (RefreshPublisherRoutes env meetingId s m)"
proof -
  have "ingress_inv env (m\<lparr>mi_feedbackRoutes := um_erase_if (\<lambda>key x. x = s) (mi_feedbackRoutes m),
           mi_router := RemoveSubscribers s (mi_router m)\<rparr>)"
    using inv_parts [OF assms] router_inv_Remove [of "mi_router m" s]
    by (simp add: ingress_inv_def tables_ok_def)
  then have "ingress_inv env (fold (add_route env meetingId s video n skip) subs
      (m\<lparr>mi_feedbackRoutes := um_erase_if (\<lambda>key x. x = s) (mi_feedbackRoutes m),
         mi_router := RemoveSubscribers s (mi_router m)\<rparr>))" for video n skip subs
    by (rule fold_invariant [where P = "ingress_inv env"]) (rule inv_add_route)
  then show ?thesis
    unfolding RefreshPublisherRoutes_def Let_def using assms by (simp split: option.split)
qed

lemma inv_refresh_publisher: "ingress_inv env m \<Longrightarrow> ingress_inv env (refresh_publisher env meetingId p m)"
  by (simp add: refresh_publisher_def Let_def inv_RefreshPublisherRoutes)

lemma inv_RefreshRoomRoutes: "ingress_inv env m \<Longrightarrow> ingress_inv env (RefreshRoomRoutes env meetingId m)"
  by (simp add: RefreshRoomRoutes_def fold_invariant [where P = "ingress_inv env"] inv_refresh_publisher
      split: option.split)

lemma inv_RemovePublisherRoutes:
  assumes "ingress_inv env m"
  shows "ingress_inv env (RemovePublisherRoutes s m)"
  using inv_parts [OF assms] router_inv_Remove [of "mi_router m" s] router_inv_Unregister
  by (auto simp: RemovePublisherRoutes_def ingress_inv_def tables_ok_def table_simps)

lemma inv_in_room:
  "ingress_inv env m \<Longrightarrow> keeps_room f \<Longrightarrow> ingress_inv env (in_room meetingId f m)"
  by (simp add: in_room_def inv_rooms inv_parts manager_inv_ModifyRoom)

lemma inv_if:
  "(c \<Longrightarrow> ingress_inv env (snd x)) \<Longrightarrow> (\<not> c \<Longrightarrow> ingress_inv env (snd y)) \<Longrightarrow> ingress_inv env (snd (if c then x else y))"
  "(c \<Longrightarrow> ingress_inv env u) \<Longrightarrow> (\<not> c \<Longrightarrow> ingress_inv env v) \<Longrightarrow> ingress_inv env (if c then u else v)"
  by simp_all

lemma inv_register_source: "ingress_inv env m \<Longrightarrow> ingress_inv env (register_source s m)"
  by (simp add: register_source_def inv_router inv_parts router_inv_Register)

lemma inv_erase_sender_report: "ingress_inv env m \<Longrightarrow> ingress_inv env (erase_sender_report s m)"
  by (simp add: erase_sender_report_def inv_senderReports tables_um_ok)

lemma inv_BindPublisher:
  assumes "ingress_inv env m"
  shows "ingress_inv env (snd (BindPublisher env meetingId userId a v m))"
proof -
  have r: "ingress_inv env (in_room meetingId (\<lambda>r. snd (Room_AddPublisher p r)) m)" for p
    by (simp add: assms inv_in_room keeps_room_ops)
  show ?thesis
  proof (cases "RoomManager_GetRoomShared meetingId (mi_roomManager m)")
    case None
    then show ?thesis by (simp add: BindPublisher_def assms)
  next
    case (Some room)
    show ?thesis
      unfolding BindPublisher_def Let_def Some option.case
      by (intro inv_if inv_RefreshRoomRoutes inv_register_source inv_RemovePublisherRoutes r)
        (simp_all only: snd_conv assms, intro inv_if inv_RefreshRoomRoutes inv_register_source inv_RemovePublisherRoutes r)
  qed
qed

lemma inv_BindSubscriber:
  assumes "ingress_inv env m"
  shows "ingress_inv env (snd (BindSubscriber env meetingId userId a v m))"
  unfolding BindSubscriber_def Let_def
  by (simp add: assms inv_RefreshRoomRoutes inv_in_room keeps_room_ops split: option.split)

lemma inv_RemovePublisher:
  assumes "ingress_inv env m"
  shows "ingress_inv env (snd (RemovePublisher meetingId userId m))"
proof -
  let ?m1 = "in_room meetingId (\<lambda>r. snd (Room_RemovePublisher userId r)) m"
  have m1: "ingress_inv env ?m1" by (simp add: assms inv_in_room keeps_room_ops)
  show ?thesis
    unfolding RemovePublisher_def Let_def
    by (simp add: assms m1 inv_RemovePublisherRoutes inv_traffic inv_erase_sender_report tables_um_ok [OF m1]
        split: option.split)
qed

lemma inv_RemoveSubscriber:
  assumes "ingress_inv env m"
  shows "ingress_inv env (snd (RemoveSubscriber env meetingId userId m))"
  unfolding RemoveSubscriber_def Let_def
  by (simp add: assms inv_RefreshRoomRoutes inv_in_room keeps_room_ops split: option.split)

lemma inv_TrickleIceCandidate:
  assumes "ingress_inv env m" "trusted_ssl env"
  shows "ingress_inv env (snd (TrickleIceCandidate meetingId userId c e m))"
  using inv_parts [OF assms(1)] trusted_sslD [OF assms(2)]
  by (simp add: TrickleIceCandidate_def case_prod_beta Let_def assms(1) inv_registry registry_inv_ops
      registry_secure_ops)

lemma inv_CloseTransport:
  assumes "ingress_inv env m" "trusted_ssl env"
  shows "ingress_inv env (snd (CloseTransport env meetingId userId m))"
  using inv_parts [OF assms(1)] trusted_sslD [OF assms(2)]
  by (simp add: CloseTransport_def Let_def assms(1) inv_registry registry_inv_ops registry_secure_ops
      inv_RemovePublisher inv_RemoveSubscriber)

lemma inv_install_transport:
  assumes "ingress_inv env m" "trusted_ssl env" "ice_inv (pt_iceSession t)"
    "transport_inv (env_openssl env) (pt_clientDtlsFingerprint t) t"
  shows "ingress_inv env (snd (install_transport env t m))"
proof -
  let ?m1 = "m\<lparr>mi_transportRegistry := Upsert t (Kind (pt_publishAudio t) (pt_publishVideo t)) (mi_transportRegistry m)\<rparr>"
  have "ingress_inv env ?m1"
    using inv_parts [OF assms(1)] trusted_sslD [OF assms(2)] assms
    by (simp add: inv_registry registry_inv_ops registry_secure_ops)
  then show ?thesis
    by (simp add: install_transport_def case_prod_beta Let_def inv_BindSubscriber inv_BindPublisher)
qed

lemma inv_MakeRandomIceToken: "ingress_inv env (snd (MakeRandomIceToken e n m)) = ingress_inv env m"
  by (simp add: MakeRandomIceToken_def Let_def split: option.split)

lemma inv_MakeRandomSsrc: "MakeRandomSsrc e m = Some (v, m') \<Longrightarrow> ingress_inv env m' = ingress_inv env m"
  by (auto simp: MakeRandomSsrc_def)

lemma inv_SetupTransport:
  assumes "ingress_inv env m" "trusted_ssl env"
    and "SetupTransport env mid uid pa pv cu cp fp cc adv m = Some (ok, res, m')"
  shows "ingress_inv env m'"
proof (cases "mid = [] \<or> uid = [] \<or> cu = [] \<or> cp = [] \<or> fp = [] \<or>
    RoomManager_GetRoomShared mid (mi_roomManager m) = None \<or> \<not> env_dtls_initialize env")
  case True
  then have "m' = m" using assms(3) by (auto simp: SetupTransport_def split: if_splits)
  then show ?thesis using assms(1) by simp
next
  case False
  then obtain a m1 where a: "(if pa then MakeRandomSsrc env m else Some (0, m)) = Some (a, m1)"
    using assms(3) by (auto simp: SetupTransport_def split: if_splits bind_splits)
  obtain v m2 where v: "(if pv then MakeRandomSsrc env m1 else Some (0, m1)) = Some (v, m2)"
    using assms(3) False a by (auto simp: SetupTransport_def split: if_splits bind_splits)
  obtain uf m3 where t1: "MakeRandomIceToken env 8 m2 = (uf, m3)" by (metis prod.exhaust)
  obtain pw m4 where t2: "MakeRandomIceToken env 24 m3 = (pw, m4)" by (metis prod.exhaust)
  obtain st out d where st: "DtlsTransport_Start (env_openssl env) True fp False (DtlsTransport_new RoleServer) = (st, out, d)"
    by (metis prod_cases3)
  have "ingress_inv env m1" using a assms(1) by (auto split: if_splits dest: inv_MakeRandomSsrc)
  then have "ingress_inv env m2" using v by (auto split: if_splits dest: inv_MakeRandomSsrc)
  then have m4: "ingress_inv env m4"
    using inv_MakeRandomIceToken [of env env 8 m2] inv_MakeRandomIceToken [of env env 24 m3] by (simp add: t1 t2)
  define ice where "ice = IceLiteSession_Configure cu cp cc uf pw
    [MakeHostCandidate (if HostFromAdvertisedAddress adv = [] then ''127.0.0.1'' else HostFromAdvertisedAddress adv) (mi_port m4)]
    IceLiteSession_new"
  define t :: "('a, 'b) ParticipantTransport" where "t = ParticipantTransport_new mid uid pa pv fp a v ice (Some d)"
  obtain ok1 m5 where ins: "install_transport env t m4 = (ok1, m5)" by (metis prod.exhaust)
  have m': "m' = (if st then m5 else m4)"
    using assms(3) False a v t1 t2 st ins
    by (auto simp: SetupTransport_def Let_def t_def ice_def split: if_splits)
  have "ingress_inv env m5" if st
  proof -
    have "started_transport (env_openssl env) RoleServer fp t"
      unfolding started_transport_def t_def
      by (intro exI conjI, rule st [unfolded eqTrueI [OF that]], rule refl)
    then have "transport_inv (env_openssl env) fp t" by (rule transport_inv_init)
    moreover have "pt_clientDtlsFingerprint t = fp" "ice_inv (pt_iceSession t)"
      by (simp_all add: t_def ice_def ParticipantTransport_new_def)
    ultimately show ?thesis
      using inv_install_transport [OF m4 assms(2), of t] ins by simp
  qed
  then show ?thesis using m' m4 by simp
qed

lemma inv_Snapshot: "ingress_inv env m \<Longrightarrow> ingress_inv env (snd (SnapshotPublisherTraffic m))"
  by (simp add: SnapshotPublisherTraffic_def Let_def inv_traffic tables_um_ok)

lemma inv_reserve:
  "ingress_inv env m \<Longrightarrow> ingress_inv env (m\<lparr>mi_estimatedRembBySource :=
     snd (reserve_estimate s b t (mi_estimatedRembBySource m))\<rparr>)"
  by (simp add: ingress_inv_def tables_ok_def reserve_estimate_def Let_def)

lemma inv_SendEstimatedRemb:
  assumes "ingress_inv env m" "trusted_ssl env"
  shows "ingress_inv env (snd (SendEstimatedRembToPublisher env mid uid kbps m))"
proof -
  let ?m1 = "m\<lparr>mi_clockReads := mi_clockReads m + 1\<rparr>"
  have "ingress_inv env (?m1\<lparr>mi_estimatedRembBySource := snd (reserve_estimate s b t (mi_estimatedRembBySource ?m1))\<rparr>)" for s b t
    by (rule inv_reserve) (simp add: assms(1))
  then show ?thesis
    unfolding SendEstimatedRembToPublisher_def Let_def steady_now_def
    by (simp add: assms inv_send case_prod_beta split: option.split)
qed

section \<open>Datagrams keep the invariant\<close>

lemma keeps_room_seen: "keeps_room (Room_ModifySubscriber u (subscriber_seen_at k e))"
proof -
  have "sbs_userId (subscriber_seen_at k e s) = sbs_userId s" for s by (simp add: subscriber_seen_at_def)
  then show ?thesis
    by (auto simp: keeps_room_def room_inv_Modify) (auto simp: Room_ModifySubscriber_def split: option.split)
qed

lemma inv_update_subscriber_endpoint:
  "ingress_inv env m \<Longrightarrow> ingress_inv env (update_subscriber_endpoint env mid uid kind e m)"
  by (simp add: update_subscriber_endpoint_def inv_RefreshRoomRoutes inv_in_room keeps_room_seen split: option.split)

lemma inv_HandleStunPacket:
  assumes "ingress_inv env m" "trusted_ssl env"
  shows "ingress_inv env (snd (HandleStunPacket env data from m))"
proof -
  have "ingress_inv env (m\<lparr>mi_transportRegistry := r\<rparr>)" if "SelectEndpointForUsername u from (mi_transportRegistry m) = (x, r)" for u x r
    using inv_parts [OF assms(1)] trusted_sslD [OF assms(2)] that
      registry_inv_ops(4) [of "mi_transportRegistry m" u "from"] registry_secure_ops(4) [of "env_openssl env" "mi_transportRegistry m" u "from"]
    by (simp add: assms inv_registry)
  then show ?thesis
    unfolding HandleStunPacket_def Let_def
    by (auto simp: assms(1) inv_update_subscriber_endpoint split: option.split prod.split)
qed

lemma inv_HandleDtlsPacket:
  assumes "ingress_inv env m" "trusted_ssl env"
  shows "ingress_inv env (snd (HandleDtlsPacket env data from m))"
proof -
  let ?h = "HandleDtlsFromEndpoint (env_openssl env) (env_libsrtp env) from data (mi_transportRegistry m)"
  have m1: "ingress_inv env (m\<lparr>mi_transportRegistry := snd (snd ?h)\<rparr>)"
    using inv_parts [OF assms(1)] trusted_sslD [OF assms(2)]
    by (simp add: assms inv_registry registry_inv_ops registry_secure_ops)
  have "ingress_inv env (fold (\<lambda>packet. UdpServer_SendTo packet from) ps x)" if "ingress_inv env x" for ps and x :: "('a, 'b) MediaIngress"
    using that by (rule fold_invariant) simp
  then show ?thesis using m1 by (simp add: HandleDtlsPacket_def case_prod_beta Let_def)
qed

section \<open>RTCP and media packets keep the invariant\<close>

text \<open>The loops carry a flag beside the state.\<close>

abbreviation loop_inv :: "('ssl, 's) media_env \<Rightarrow> bool \<times> ('ssl, 's) MediaIngress \<Rightarrow> bool" where
  "loop_inv env um \<equiv> ingress_inv env (snd um)"

lemma inv_control_sender_report:
  assumes "loop_inv env um" "trusted_ssl env"
  shows "loop_inv env (control_sender_report env from now report um)"
proof -
  have "ingress_inv env (snd um\<lparr>mi_senderReports := AList.update k x (mi_senderReports (snd um))\<rparr>)" for k x
    using assms(1) by (intro inv_senderReports um_ok_update tables_um_ok(2))
  then show ?thesis
    using assms by (simp add: control_sender_report_def case_prod_beta Let_def inv_send)
qed

lemma inv_control_reception_report:
  assumes "loop_inv env um"
  shows "loop_inv env (control_reception_report now report um)"
proof -
  have "ingress_inv env (snd um\<lparr>mi_publisherTraffic := AList.update k x (mi_publisherTraffic (snd um))\<rparr>)" for k x
    using assms by (intro inv_traffic um_ok_update tables_um_ok(1))
  then show ?thesis
    using assms by (simp add: control_reception_report_def case_prod_beta Let_def split: option.split)
qed

lemma inv_retransmit:
  "loop_inv env um \<Longrightarrow> trusted_ssl env \<Longrightarrow> loop_inv env (retransmit env from s w q um)"
  by (simp add: retransmit_def case_prod_beta Let_def inv_send split: option.split)

lemma inv_control_nack:
  "loop_inv env um \<Longrightarrow> trusted_ssl env \<Longrightarrow> loop_inv env (control_nack env from nack um)"
  by (simp add: control_nack_def case_prod_beta Let_def fold_invariant [where P = "loop_inv env"] inv_retransmit)

lemma inv_control_pli:
  assumes "loop_inv env um" "trusted_ssl env"
  shows "loop_inv env (control_pli env from now pli um)"
proof -
  have "ingress_inv env (snd um\<lparr>mi_pliForwardBySource := snd (ShouldForwardPli s now (mi_pliForwardBySource (snd um)))\<rparr>)" for s
    using assms(1) by (simp add: ingress_inv_def tables_ok_def ShouldForwardPli_def split: option.split)
  then show ?thesis
    using assms by (simp add: control_pli_def case_prod_beta Let_def inv_send split: option.split)
qed

lemma inv_remb_table:
  "ingress_inv env m \<Longrightarrow> um_ok t \<Longrightarrow> (\<And>s p. map_of t s = Some p \<Longrightarrow> um_ok p) \<Longrightarrow>
     ingress_inv env (m\<lparr>mi_rembFeedbackBySource := t\<rparr>)"
  by (simp add: ingress_inv_def tables_ok_def)

lemma inv_SelectAggregatedRemb:
  assumes "ingress_inv env m"
  shows "ingress_inv env (snd (SelectAggregatedRembForSource env s from remb m))"
proof -
  let ?m1 = "m\<lparr>mi_clockReads := Suc (mi_clockReads m)\<rparr>"
  have m1: "ingress_inv env ?m1" using assms by simp
  have per: "um_ok (case map_of (mi_rembFeedbackBySource m) s of None \<Rightarrow> [] | Some p \<Rightarrow> p)"
    using tables_um_ok(8) [OF assms] by (auto split: option.split)
  have del: "ingress_inv env (?m1\<lparr>mi_rembFeedbackBySource := AList.delete s (mi_rembFeedbackBySource m)\<rparr>)"
    using assms by (intro inv_remb_table [OF m1]) (auto simp: tables_um_ok table_simps split: if_splits)
  have upd: "ingress_inv env (?m1\<lparr>mi_rembFeedbackBySource := AList.update s f (mi_rembFeedbackBySource m)\<rparr>)" if "um_ok f" for f
    using assms that by (intro inv_remb_table [OF m1]) (auto simp: tables_um_ok table_simps split: if_splits)
  have ok: "um_ok (um_erase_if P (AList.update k x (case map_of (mi_rembFeedbackBySource m) s of None \<Rightarrow> [] | Some p \<Rightarrow> p)))" for P k x
    using per by simp
  have upd': "ingress_inv env (?m1\<lparr>mi_rembFeedbackBySource := AList.update s ((a, b) # r) (mi_rembFeedbackBySource m)\<rparr>)"
    if "um_erase_if P (AList.update k x (case map_of (mi_rembFeedbackBySource m) s of None \<Rightarrow> [] | Some p \<Rightarrow> p)) = (a, b) # r"
    for P k x a b r
    by (rule upd) (use ok [of P k x] that in simp)
  show ?thesis
    unfolding SelectAggregatedRembForSource_def steady_now_def Let_def
    by (auto simp: assms m1 del upd' split: list.splits)
qed

lemma inv_control_remb_target:
  assumes "loop_inv env um" "trusted_ssl env"
  shows "loop_inv env (control_remb_target env from remb target um)"
proof -
  have "ingress_inv env m'" if "SelectAggregatedRembForSource env s from remb (snd um) = (x, m')" for s x m'
    using inv_SelectAggregatedRemb [OF assms(1), of s "from" remb] that by simp
  then show ?thesis
    unfolding control_remb_target_def Let_def
    using assms by (auto simp: case_prod_beta inv_send split: option.split) (metis inv_send(2) prod.collapse snd_conv)+
qed

lemma inv_control_remb:
  "loop_inv env um \<Longrightarrow> trusted_ssl env \<Longrightarrow> loop_inv env (control_remb env from remb um)"
  unfolding control_remb_def
  by (rule fold_invariant [where P = "loop_inv env"]) (simp_all add: inv_control_remb_target)

lemma inv_HandleControlPacket:
  assumes "ingress_inv env m" "trusted_ssl env"
  shows "ingress_inv env (snd (HandleControlPacket env data from m))"
  unfolding HandleControlPacket_def Let_def steady_now_def prod.case
  by (intro fold_invariant [where P = "loop_inv env"] inv_control_remb inv_control_pli inv_control_nack
      inv_control_reception_report inv_control_sender_report assms(2)) (simp add: assms(1))

lemma inv_deliver_media:
  assumes "ingress_inv env m" "trusted_ssl env"
  shows "ingress_inv env (snd (deliver_media env media header from m))"
proof (cases "ResolvePublisher (rtp_ssrc header) m")
  case (Some location)
  have router: "router_inv (fst (snd (Route media (mi_router m))))"
    by (rule router_inv_Route) (rule inv_parts(2) [OF assms(1)])
  have "\<exists>pe lo tr n. um_ok pe \<and> um_ok tr \<and> snd (deliver_media env media header from m) =
      fold (run_forward env) (snd (snd (Route media (mi_router m))))
        (m\<lparr>mi_publisherEndpoints := pe, mi_lastObservation := lo, mi_publisherTraffic := tr, mi_packetCount := n,
           mi_router := fst (snd (Route media (mi_router m)))\<rparr>)"
    using Some tables_um_ok [OF assms(1)]
    by (intro exI conjI) (auto simp: deliver_media_def case_prod_beta Let_def)
  moreover have "ingress_inv env (m\<lparr>mi_publisherEndpoints := pe, mi_lastObservation := lo, mi_publisherTraffic := tr,
      mi_packetCount := n, mi_router := fst (snd (Route media (mi_router m)))\<rparr>)" if "um_ok pe" "um_ok tr" for pe lo tr n
    using assms(1) router that by (simp add: ingress_inv_def tables_ok_def)
  ultimately show ?thesis
    using assms(2) by (metis fold_invariant [where P = "ingress_inv env"] inv_run_forward)
qed (simp add: deliver_media_def assms)

lemma inv_unprotect:
  assumes "ingress_inv env m" "trusted_ssl env"
  shows "ingress_inv env (m\<lparr>mi_transportRegistry := snd (snd (UnprotectRtpFromEndpoint (env_libsrtp env) ep p (mi_transportRegistry m)))\<rparr>)"
    "ingress_inv env (m\<lparr>mi_transportRegistry := snd (snd (UnprotectRtcpFromEndpoint (env_libsrtp env) ep p (mi_transportRegistry m)))\<rparr>)"
  using inv_parts [OF assms(1)] trusted_sslD [OF assms(2)]
  by (simp_all add: assms(1) inv_registry registry_inv_protect registry_secure_ops)

lemma inv_HandleMediaPacket:
  assumes "ingress_inv env m" "trusted_ssl env"
  shows "ingress_inv env (snd (HandleMediaPacket env data from m))"
  unfolding HandleMediaPacket_def Let_def case_prod_beta
  by (simp add: assms inv_unprotect inv_deliver_media split: option.split)

lemma inv_HandleRtcpPacket:
  assumes "ingress_inv env m" "trusted_ssl env"
  shows "ingress_inv env (snd (HandleRtcpPacket env data from m))"
  unfolding HandleRtcpPacket_def Let_def case_prod_beta
  by (simp add: assms inv_unprotect inv_HandleControlPacket)

lemma inv_HandlePacket:
  assumes "ingress_inv env m" "trusted_ssl env"
  shows "ingress_inv env (snd (HandlePacket env data from m))"
proof -
  obtain r m1 where r: "HandleRtcpPacket env data from m = (r, m1)" by (metis prod.exhaust)
  have "ingress_inv env m1" using inv_HandleRtcpPacket [OF assms, of data "from"] r by simp
  then show ?thesis
    unfolding HandlePacket_def r
    by (simp add: assms inv_HandleStunPacket inv_HandleDtlsPacket inv_HandleMediaPacket split: option.split)
qed

section \<open>Reachable states\<close>

text \<open>
  Every entry point of the media ingress, and the calls of the RPC service on the shared room
  manager, as steps over all their arguments; \<open>rtcp\<close> is the part of a datagram's handling before
  it is tried as a media packet.
\<close>

inductive ingress_step :: "('ssl, 's) media_env \<Rightarrow> ('ssl, 's) MediaIngress \<Rightarrow> ('ssl, 's) MediaIngress \<Rightarrow> bool"
  for env where
  create_room: "ingress_step env m (m\<lparr>mi_roomManager := snd (RoomManager_CreateRoom i n (mi_roomManager m))\<rparr>)"
| destroy_room: "ingress_step env m (m\<lparr>mi_roomManager := snd (RoomManager_DestroyRoom i (mi_roomManager m))\<rparr>)"
| bind_publisher: "ingress_step env m (snd (BindPublisher env mid uid a v m))"
| bind_subscriber: "ingress_step env m (snd (BindSubscriber env mid uid a v m))"
| remove_publisher: "ingress_step env m (snd (RemovePublisher mid uid m))"
| remove_subscriber: "ingress_step env m (snd (RemoveSubscriber env mid uid m))"
| setup_transport: "SetupTransport env mid uid pa pv cu cp fp cc adv m = Some (ok, res, m') \<Longrightarrow> ingress_step env m m'"
| trickle: "ingress_step env m (snd (TrickleIceCandidate mid uid c e m))"
| close_transport: "ingress_step env m (snd (CloseTransport env mid uid m))"
| snapshot: "ingress_step env m (snd (SnapshotPublisherTraffic m))"
| estimate: "ingress_step env m (snd (SendEstimatedRembToPublisher env mid uid kbps m))"
| clock: "ingress_step env m (snd (steady_now env m))"
| rtcp: "ingress_step env m (snd (HandleRtcpPacket env data from m))"
| datagram: "ingress_step env m (snd (HandlePacket env data from m))"

definition ingress_reachable :: "('ssl, 's) media_env \<Rightarrow> ('ssl, 's) MediaIngress \<Rightarrow> bool" where
  "ingress_reachable env m \<longleftrightarrow>
     (\<exists>started port cap. (ingress_step env)\<^sup>*\<^sup>* (MediaIngress_new RoomManager_new started port cap) m)"

lemma ingress_step_inv: "ingress_step env m m' \<Longrightarrow> trusted_ssl env \<Longrightarrow> ingress_inv env m \<Longrightarrow> ingress_inv env m'"
proof (induction rule: ingress_step.induct)
  case (setup_transport mid uid pa pv cu cp fp cc adv m ok res m')
  then show ?case using inv_SetupTransport by blast
qed (simp_all add: inv_rooms inv_parts manager_inv_ops inv_BindPublisher inv_BindSubscriber inv_RemovePublisher
    inv_RemoveSubscriber inv_TrickleIceCandidate inv_CloseTransport inv_Snapshot inv_SendEstimatedRemb
    inv_HandleRtcpPacket inv_HandlePacket steady_now_def)

interpretation ingress: state_machine "\<lambda>m. \<exists>started port cap. m = MediaIngress_new RoomManager_new started port cap"
  "ingress_step env" "\<lambda>m. trusted_ssl env \<longrightarrow> ingress_inv env m" for env
  by unfold_locales (auto simp: inv_new intro: ingress_step_inv)

lemma ingress_reachable_inv:
  assumes "trusted_ssl env" "ingress_reachable env m"
  shows "ingress_inv env m"
  using assms ingress.reachable_inv [of _ env m] by (auto simp: ingress_reachable_def)

text \<open>
  C2. The invariant of the whole ingress. After any sequence of control calls and datagrams,
  from any peers, with any contents: every room keeps its publisher limit and files its members
  under their ids; every route of the packet router belongs to a non-zero source, forwards to
  an endpoint and writes a non-zero SSRC; every retransmission buffer is within its capacity;
  and every lookup table has each key once.
\<close>

theorem ingress_invariant:
  assumes "trusted_ssl env" "ingress_reachable env m"
  shows "(\<forall>i r. RoomManager_GetRoomShared i (mi_roomManager m) = Some r \<longrightarrow>
      room_inv r \<and> Room_PublisherCount r \<le> room_maxPublishers r) \<and>
    (\<forall>s r. map_of (rt_publishers (mi_router m)) s = Some r \<longrightarrow> s \<noteq> 0 \<and> nack_inv (route_nack r) \<and>
      (\<forall>(w, ep) \<in> set (routes_of s (mi_router m)). w \<noteq> 0)) \<and>
    um_ok (mi_transportRegistry m) \<and> um_ok (mi_feedbackRoutes m) \<and> um_ok (mi_publisherEndpoints m) \<and>
    um_ok (mi_publisherTraffic m)"
proof -
  have inv: "ingress_inv env m" using assms by (rule ingress_reachable_inv)
  have "room_inv r \<and> Room_PublisherCount r \<le> room_maxPublishers r"
    if "RoomManager_GetRoomShared i (mi_roomManager m) = Some r" for i r
    using manager_room [OF inv_parts(1) [OF inv] that] by simp
  moreover have "s \<noteq> 0 \<and> nack_inv (route_nack r) \<and> (\<forall>(w, ep) \<in> set (routes_of s (mi_router m)). w \<noteq> 0)"
    if "map_of (rt_publishers (mi_router m)) s = Some r" for s r
    using router_invD [OF inv_parts(2) [OF inv] that] that by (auto simp: route_ok_def routes_of_def)
  ultimately show ?thesis
    using tables_um_ok [OF inv] inv_parts(3) [OF inv] by (auto simp: registry_inv_def)
qed

section \<open>Media comes from verified peers only\<close>

lemma SrtpReady_transport:
  assumes "SrtpReadyForSsrcFrom ssrc ep r"
  shows "\<exists>key t. (key, t) \<in> set r \<and> OwnsSsrc ssrc t \<and> selected_for ep t \<and> pt_srtpReady t"
  using assms by (auto simp: SrtpReadyForSsrcFrom_def find_Some_iff split: option.splits) (metis nth_mem)

lemma ready_transport_verified:
  assumes "registry_secure api r" "(key, t) \<in> set r" "pt_srtpReady t"
  shows "\<exists>d ssl digest. pt_dtlsTransport t = Some d \<and> dtls_ssl d = Some ssl \<and> SSL_is_init_finished api ssl \<and>
    X509_peer_digest api ssl = Some digest \<and>
    (NormalizeFingerprint (pt_clientDtlsFingerprint t) = [] \<or>
     NormalizeFingerprint (pt_clientDtlsFingerprint t) = FormatFingerprint digest)"
proof -
  have inv: "transport_inv api (pt_clientDtlsFingerprint t) t" using registry_secureD [OF assms(1,2)] .
  then obtain d where d: "pt_dtlsTransport t = Some d" "dtls_checked api d"
    using assms(3) by (auto simp: transport_inv_def)
  then have "dtls_expectedPeerFingerprint d = NormalizeFingerprint (pt_clientDtlsFingerprint t)"
    using inv by (auto simp: transport_inv_def dtls_checked_def)
  then show ?thesis using d by (auto simp: dtls_checked_def peer_verified_def Normalize_Format)
qed

lemma HandleMediaPacket_accepted:
  assumes "HandleMediaPacket env data from m = (True, m')" "rtp_parse data = Some parsed"
    and "TransportRequiresSrtp (rtp_ssrc (pkt_header parsed)) m"
  shows "SrtpReadyForSsrcFrom (rtp_ssrc (pkt_header parsed)) from (mi_transportRegistry m) \<and>
    fst (UnprotectRtpFromEndpoint (env_libsrtp env) from data (mi_transportRegistry m))"
  using assms by (auto simp: HandleMediaPacket_def Let_def case_prod_beta split: if_splits)

text \<open>
  C1. The media path is authenticated end to end. In every reachable state, when the ingress
  accepts a media packet whose SSRC belongs to a transport, the packet came from the endpoint
  that transport selected, was decrypted successfully, and the transport's DTLS peer presented
  the certificate whose fingerprint the signaling announced when the transport was set up. A
  packet from any other address, before the handshake, or after a handshake with a wrong
  certificate, is refused.
\<close>

theorem media_only_from_verified_peer:
  assumes "trusted_ssl env" "ingress_reachable env m"
    and "HandleMediaPacket env data from m = (True, m')" "rtp_parse data = Some parsed"
    and "ssrc = rtp_ssrc (pkt_header parsed)" "(key0, t0) \<in> set (mi_transportRegistry m)" "OwnsSsrc ssrc t0"
  shows "fst (UnprotectRtpFromEndpoint (env_libsrtp env) from data (mi_transportRegistry m)) \<and>
    (\<exists>key t d ssl digest. (key, t) \<in> set (mi_transportRegistry m) \<and> OwnsSsrc ssrc t \<and>
       ice_selectedEndpoint (pt_iceSession t) = from \<and> pt_srtpReady t \<and>
       pt_dtlsTransport t = Some d \<and> dtls_ssl d = Some ssl \<and> X509_peer_digest (env_openssl env) ssl = Some digest \<and>
       (NormalizeFingerprint (pt_clientDtlsFingerprint t) = [] \<or>
        NormalizeFingerprint (pt_clientDtlsFingerprint t) = FormatFingerprint digest))"
proof -
  have inv: "ingress_inv env m" using assms(1,2) by (rule ingress_reachable_inv)
  have "ssrc \<noteq> 0" using assms(7) by (simp add: OwnsSsrc_def)
  moreover have "\<exists>p \<in> set (mi_transportRegistry m). OwnsSsrc ssrc (snd p)"
    using assms(6,7) by (auto intro!: bexI [of _ "(key0, t0)"])
  ultimately have "TransportRequiresSrtp ssrc m"
    by (auto simp: TransportRequiresSrtp_def HasTransportForSsrc_def list_ex_iff)
  then have ready: "SrtpReadyForSsrcFrom ssrc from (mi_transportRegistry m)"
    and dec: "fst (UnprotectRtpFromEndpoint (env_libsrtp env) from data (mi_transportRegistry m))"
    using HandleMediaPacket_accepted [OF assms(3,4)] assms(5) by auto
  obtain key t where t: "(key, t) \<in> set (mi_transportRegistry m)" "OwnsSsrc ssrc t" "selected_for from t" "pt_srtpReady t"
    using SrtpReady_transport [OF ready] by blast
  then show ?thesis
    using dec ready_transport_verified [OF inv_parts(4) [OF inv] t(1,4)]
    by (fastforce simp: selected_for_def SameEndpoint_eq)
qed

text \<open>
  A run of the whole system: a room is created, a participant sets up an audio transport with
  the fingerprint of its certificate, proves its address by STUN and completes the DTLS
  handshake; its first SRTP packet is then accepted.
\<close>

definition demo_peer :: Endpoint where
  "demo_peer = \<lparr> sin_family = AF_INET, sin_port = 5, sin_addr = 0x0A000002 \<rparr>"

definition demo_created :: "(nat, unit) MediaIngress" where
  "demo_created = (MediaIngress_new RoomManager_new True 4 3)
     \<lparr>mi_roomManager := snd (RoomManager_CreateRoom ''m'' 2 RoomManager_new)\<rparr>"

definition demo_setup :: "(bool \<times> TransportSetupResult \<times> (nat, unit) MediaIngress) option" where
  "demo_setup = SetupTransport demo_env ''m'' ''u'' True False ''c'' ''p'' ''ab:01'' [] ''h:1'' demo_created"

definition demo_offered :: "(nat, unit) MediaIngress" where
  "demo_offered = snd (snd (the demo_setup))"

definition demo_addressed :: "(nat, unit) MediaIngress" where
  "demo_addressed = snd (HandlePacket demo_env
     (stun_message 0 1 (replicate 12 9) [(6, map of_char ''0000000000000002:c'')]) demo_peer demo_offered)"

definition demo_live :: "(nat, unit) MediaIngress" where
  "demo_live = snd (HandlePacket demo_env ([22, 0xFE, 0xFD] @ replicate 13 0) demo_peer demo_addressed)"

definition demo_media :: bytes where
  "demo_media = [0x80, 0x60, 0, 7, 0, 0, 0, 1, 0, 0, 0, 1, 0xAB, 0]"

lemma demo_trusted: "trusted_ssl demo_env"
  using demo_ssl_ok by (simp add: trusted_ssl_def demo_env_def)

lemma demo_reachable: "ingress_reachable demo_env demo_live"
proof -
  have "ingress_step demo_env (MediaIngress_new RoomManager_new True 4 3) demo_created"
    using ingress_step.create_room [of demo_env "MediaIngress_new RoomManager_new True 4 3" "''m''" 2]
    by (simp add: demo_created_def MediaIngress_new_def)
  moreover have "demo_setup \<noteq> None" by code_simp
  then have "demo_setup = Some (fst (the demo_setup), fst (snd (the demo_setup)), demo_offered)"
    by (auto simp: demo_offered_def)
  then have "ingress_step demo_env demo_created demo_offered"
    unfolding demo_setup_def by (rule ingress_step.setup_transport)
  moreover have "ingress_step demo_env demo_offered demo_addressed"
    unfolding demo_addressed_def by (rule ingress_step.datagram)
  moreover have "ingress_step demo_env demo_addressed demo_live"
    unfolding demo_live_def by (rule ingress_step.datagram)
  ultimately show ?thesis
    unfolding ingress_reachable_def by (meson rtranclp.rtrancl_into_rtrancl rtranclp.rtrancl_refl)
qed

theorem ingress_invariant_witness:
  "um_ok (mi_transportRegistry demo_live) \<and> length (mi_transportRegistry demo_live) = 1 \<and>
   (\<exists>r. RoomManager_GetRoomShared ''m'' (mi_roomManager demo_live) = Some r \<and> Room_PublisherCount r \<le> room_maxPublishers r)"
proof -
  have "length (mi_transportRegistry demo_live) = 1" by code_simp
  moreover have "RoomManager_GetRoomShared ''m'' (mi_roomManager demo_live) \<noteq> None" by code_simp
  then obtain r where "RoomManager_GetRoomShared ''m'' (mi_roomManager demo_live) = Some r" by auto
  ultimately show ?thesis using ingress_invariant [OF demo_trusted demo_reachable] by blast
qed

theorem media_only_from_verified_peer_witness:
  "fst (HandleMediaPacket demo_env demo_media demo_peer demo_live) \<and>
   (\<exists>key t. (key, t) \<in> set (mi_transportRegistry demo_live) \<and> OwnsSsrc 1 t \<and>
      ice_selectedEndpoint (pt_iceSession t) = demo_peer \<and> pt_srtpReady t)"
proof -
  let ?parsed = "the (rtp_parse demo_media)"
  have "fst (HandleMediaPacket demo_env demo_media demo_peer demo_live)" by code_simp
  then have acc: "HandleMediaPacket demo_env demo_media demo_peer demo_live =
      (True, snd (HandleMediaPacket demo_env demo_media demo_peer demo_live))"
    by (cases "HandleMediaPacket demo_env demo_media demo_peer demo_live") simp
  have "rtp_parse demo_media \<noteq> None" by code_simp
  then have parsed: "rtp_parse demo_media = Some ?parsed" by auto
  have ssrc: "1 = rtp_ssrc (pkt_header ?parsed)" by code_simp
  have "list_ex (\<lambda>p. OwnsSsrc 1 (snd p)) (mi_transportRegistry demo_live)" by code_simp
  then obtain key t where "(key, t) \<in> set (mi_transportRegistry demo_live)" "OwnsSsrc 1 t"
    by (auto simp: list_ex_iff)
  from media_only_from_verified_peer [OF demo_trusted demo_reachable acc parsed ssrc this]
  show ?thesis using acc by (metis fst_conv)
qed

end
