(* ===== verification/MediaFeedback.thy ===== *)
theory MediaFeedback
  imports MediaHandlers
begin

text \<open>
  Properties of the feedback the media ingress relays: the rate limits on picture-loss
  indications and bandwidth estimates, the aggregation of the subscribers' bandwidth messages,
  and the retransmission of lost packets.
\<close>

section \<open>Rate limits\<close>

text \<open>
  The contract of a rate limiter that remembers the time of the last granted request per key.
  \<open>valid\<close> says which clock readings it can remember.
\<close>

locale rate_limiter =
  fixes attempt :: "'k \<Rightarrow> int \<Rightarrow> 'st \<Rightarrow> bool \<times> 'st"
    and granted_at :: "'st \<Rightarrow> 'k \<Rightarrow> int option"
    and gap :: int
    and valid :: "int \<Rightarrow> bool"
  assumes spaced: "attempt k t s = (True, s') \<Longrightarrow> granted_at s k = Some t0 \<Longrightarrow> gap \<le> t - t0"
    and records: "attempt k t s = (True, s') \<Longrightarrow> valid t \<Longrightarrow> granted_at s' k = Some t"
    and refused: "attempt k t s = (False, s') \<Longrightarrow> granted_at s' k = granted_at s k"
    and others: "attempt k t s = (b, s') \<Longrightarrow> k' \<noteq> k \<Longrightarrow> granted_at s' k' = granted_at s k'"

text \<open>The times at which the requests of one key are granted, over a sequence of requests.\<close>

fun grants :: "('k \<Rightarrow> int \<Rightarrow> 'st \<Rightarrow> bool \<times> 'st) \<Rightarrow> 'k \<Rightarrow> ('k \<times> int) list \<Rightarrow> 'st \<Rightarrow> int list" where
  "grants attempt k [] s = []"
| "grants attempt k ((k', t) # rest) s =
     (let (b, s') = attempt k' t s
      in if b \<and> k' = k then t # grants attempt k rest s' else grants attempt k rest s')"

context rate_limiter
begin

lemma grants_after:
  assumes "granted_at s k = Some t0" "\<forall>(k', t) \<in> set reqs. valid t"
  shows "successively (\<lambda>a b. gap \<le> b - a) (t0 # grants attempt k reqs s)"
  using assms
proof (induction reqs arbitrary: s t0)
  case (Cons r reqs)
  obtain k' t where r: "r = (k', t)" by (cases r)
  obtain b s' where a: "attempt k' t s = (b, s')" by (metis prod.exhaust)
  show ?case
  proof (cases "b \<and> k' = k")
    case True
    then have "attempt k t s = (True, s')" using a by simp
    then have "gap \<le> t - t0" "granted_at s' k = Some t"
      using spaced records Cons.prems r by auto
    then show ?thesis using Cons.IH [of s' t] Cons.prems(2) True a r by simp
  next
    case False
    then have "granted_at s' k = Some t0"
      using a refused others Cons.prems(1) by (metis (full_types))
    then show ?thesis using Cons.IH [of s' t0] Cons.prems(2) False a r by auto
  qed
qed simp

lemma grants_spaced:
  assumes "\<forall>(k', t) \<in> set reqs. valid t"
  shows "successively (\<lambda>a b. gap \<le> b - a) (grants attempt k reqs s)"
  using assms
proof (induction reqs arbitrary: s)
  case (Cons r reqs)
  obtain k' t where r: "r = (k', t)" by (cases r)
  obtain b s' where a: "attempt k' t s = (b, s')" by (metis prod.exhaust)
  show ?case
  proof (cases "b \<and> k' = k")
    case True
    then have "granted_at s' k = Some t" using a records Cons.prems r by auto
    then show ?thesis using grants_after [of s' k t reqs] Cons.prems True a r by auto
  next
    case False
    then show ?thesis using Cons a r by auto
  qed
qed simp

end

interpretation pli: rate_limiter ShouldForwardPli map_of 200000000 "\<lambda>t. True"
  by unfold_locales (auto simp: ShouldForwardPli_def table_simps split: if_splits option.splits)

text \<open>
  Bandwidth estimates of one rate: the limiter remembers the time unless it is 0, which the
  code uses for "never sent".
\<close>

definition estimate_sent :: "u32 \<Rightarrow> (u32, EstimatedRembState) umap \<Rightarrow> u32 \<Rightarrow> int option" where
  "estimate_sent bitrate states s = (case map_of states s of
     None \<Rightarrow> None
   | Some e \<Rightarrow> if er_sentAt e \<noteq> 0 \<and> er_bitrateBps e = bitrate \<and> bitrate \<noteq> 0 then Some (er_sentAt e) else None)"

lemma reserve_estimate_refused:
  "reserve_estimate s b t states = (False, states') \<Longrightarrow> map_of states' = map_of states"
  by (auto simp: reserve_estimate_def estimate_due_def Let_def table_simps fun_eq_iff
      split: if_splits option.splits)

lemma reserve_estimate_granted:
  "reserve_estimate s b t states = (True, states') \<Longrightarrow>
     states' = AList.update s \<lparr> er_bitrateBps = b, er_sentAt = t \<rparr> states \<and>
     (\<forall>e. map_of states s = Some e \<longrightarrow> estimate_due b t e)"
  by (auto simp: reserve_estimate_def Let_def split: if_splits option.splits)

interpretation estimate: rate_limiter "\<lambda>s t states. reserve_estimate s bitrate t states"
  "estimate_sent bitrate" 500000000 "\<lambda>t. t \<noteq> 0 \<and> bitrate \<noteq> 0"
  for bitrate
proof
  fix k t and s :: "(u32, EstimatedRembState) umap" and s' t0
  assume "reserve_estimate k bitrate t s = (True, s')" "estimate_sent bitrate s k = Some t0"
  then obtain e where "map_of s k = Some e" "er_sentAt e = t0" "er_bitrateBps e = bitrate" "t0 \<noteq> 0" "bitrate \<noteq> 0"
    "estimate_due bitrate t e"
    using reserve_estimate_granted by (auto simp: estimate_sent_def split: option.splits if_splits)
  then show "500000000 \<le> t - t0" by (auto simp: estimate_due_def Let_def split: if_splits)
next
  fix k t and s :: "(u32, EstimatedRembState) umap" and s'
  assume "reserve_estimate k bitrate t s = (True, s')" "t \<noteq> 0 \<and> bitrate \<noteq> 0"
  then show "estimate_sent bitrate s' k = Some t"
    using reserve_estimate_granted [of k bitrate t s s'] by (simp add: estimate_sent_def table_simps)
next
  fix k t and s :: "(u32, EstimatedRembState) umap" and s'
  assume "reserve_estimate k bitrate t s = (False, s')"
  then show "estimate_sent bitrate s' k = estimate_sent bitrate s k"
    by (simp add: estimate_sent_def reserve_estimate_refused)
next
  fix k t and s :: "(u32, EstimatedRembState) umap" and b s' k'
  assume "reserve_estimate k bitrate t s = (b, s')" "k' \<noteq> k"
  then show "estimate_sent bitrate s' k' = estimate_sent bitrate s k'"
    using reserve_estimate_granted [of k bitrate t s s'] reserve_estimate_refused [of k bitrate t s s']
    by (cases b) (auto simp: estimate_sent_def table_simps)
qed

text \<open>
  Picture-loss indications are forwarded to a publisher at most once every 200 ms: over any
  sequence of requests, for any sources and at any clock readings, from any state of the table,
  consecutive forwards for one source are at least 200 ms apart.
\<close>

theorem pli_rate_limited:
  "successively (\<lambda>a b. 200000000 \<le> b - a) (grants ShouldForwardPli s reqs table)"
  by (rule pli.grants_spaced) simp

text \<open>
  Bandwidth estimates of an unchanged, non-zero rate are sent to a publisher at most once
  every 500 ms: over any sequence of send attempts at clock readings other than 0, the value the
  code reserves for "never sent".
\<close>

theorem estimate_rate_limited:
  assumes "bitrate \<noteq> 0" "\<forall>(s', t) \<in> set reqs. t \<noteq> 0"
  shows "successively (\<lambda>a b. 500000000 \<le> b - a)
    (grants (\<lambda>s t states. reserve_estimate s bitrate t states) s reqs states)"
  by (rule estimate.grants_spaced) (use assms in auto)

theorem estimate_rate_limited_witness:
  "successively (\<lambda>a b. 500000000 \<le> b - a)
    (grants (\<lambda>s t states. reserve_estimate s 1000 t states) 7 [(7, 1), (7, 100), (8, 200), (7, 600000000)] [])"
  by (rule estimate_rate_limited) simp_all

section \<open>The least bandwidth of the subscribers\<close>

lemma least_sample_props:
  "(least_sample x rest = x \<or> least_sample x rest \<in> snd ` set rest) \<and>
   rs_bitrateBps (least_sample x rest) \<le> rs_bitrateBps x \<and>
   (\<forall>(k, y) \<in> set rest. rs_bitrateBps (least_sample x rest) \<le> rs_bitrateBps y)"
proof (induction rest arbitrary: x)
  case (Cons ky rest)
  obtain k y where ky: "ky = (k, y)" by (cases ky)
  show ?case
  proof (cases "rs_bitrateBps y < rs_bitrateBps x")
    case True
    then show ?thesis using Cons.IH [of y] by (auto simp: ky)
  next
    case False
    then show ?thesis using Cons.IH [of x] by (auto simp: ky)
  qed
qed simp

text \<open>
  The bandwidth message relayed to a publisher carries the least rate any subscriber still
  asks for: it is the rate of one of the retained samples and no retained sample is lower; the
  retained samples are exactly those of the last 3 seconds, the newest from the sender of this
  message among them; and the samples of other sources are untouched.
\<close>

theorem SelectAggregatedRemb_least:
  assumes "SelectAggregatedRembForSource env src from remb m = (Some (e, man), m')"
    and "samples = (case map_of (mi_rembFeedbackBySource m) src of None \<Rightarrow> [] | Some p \<Rightarrow> p)" "um_ok samples"
    and "now = env_now env (mi_clockReads m)"
  shows "\<exists>fresh. map_of (mi_rembFeedbackBySource m') src = Some fresh \<and>
    (\<exists>key sample. map_of fresh key = Some sample \<and> rs_bitrateExp sample = e \<and> rs_bitrateMantissa sample = man \<and>
       (\<forall>key' sample'. map_of fresh key' = Some sample' \<longrightarrow> rs_bitrateBps sample \<le> rs_bitrateBps sample')) \<and>
    (\<exists>sample. map_of fresh (EndpointKey (env_inet_ntop env) from) = Some sample \<and>
       rs_bitrateBps sample = rb_bitrateBps remb \<and> rs_observedAt sample = now) \<and>
    (\<forall>key. key \<noteq> EndpointKey (env_inet_ntop env) from \<longrightarrow> map_of fresh key =
       (case map_of samples key of None \<Rightarrow> None
        | Some y \<Rightarrow> if now - rs_observedAt y > 3000000000 then None else Some y)) \<and>
    (\<forall>s. s \<noteq> src \<longrightarrow> map_of (mi_rembFeedbackBySource m') s = map_of (mi_rembFeedbackBySource m) s)"
proof -
  let ?ek = "EndpointKey (env_inet_ntop env) from"
  define new where "new = \<lparr> rs_bitrateExp = rb_bitrateExp remb, rs_bitrateMantissa = rb_bitrateMantissa remb,
    rs_bitrateBps = rb_bitrateBps remb, rs_observedAt = now \<rparr>"
  define fresh where "fresh = um_erase_if (\<lambda>key sample. now - rs_observedAt sample > 3000000000)
    (AList.update ?ek new samples)"
  have ok: "um_ok fresh" using assms(3) by (simp add: fresh_def)
  have guards: "src \<noteq> 0" "?ek \<noteq> []"
    using assms(1) by (auto simp: SelectAggregatedRembForSource_def Let_def split: if_splits)
  obtain k0 x0 rest where f: "fresh = (k0, x0) # rest"
    and em: "e = rs_bitrateExp (least_sample x0 fresh)" "man = rs_bitrateMantissa (least_sample x0 fresh)"
    and m': "mi_rembFeedbackBySource m' = AList.update src fresh (mi_rembFeedbackBySource m)"
    using assms(1) guards
    by (auto simp: SelectAggregatedRembForSource_def Let_def steady_now_def new_def [symmetric]
        assms(2,4) [symmetric] fresh_def [symmetric] split: list.splits prod.splits)
  have least: "least_sample x0 fresh \<in> snd ` set fresh"
    "\<forall>(k, y) \<in> set fresh. rs_bitrateBps (least_sample x0 fresh) \<le> rs_bitrateBps y"
    using least_sample_props [of x0 fresh] f by auto
  obtain key where "(key, least_sample x0 fresh) \<in> set fresh" using least(1) by auto
  then have sel: "map_of fresh key = Some (least_sample x0 fresh)" using um_in_find [OF ok] by blast
  have min: "\<forall>key' sample'. map_of fresh key' = Some sample' \<longrightarrow> rs_bitrateBps (least_sample x0 fresh) \<le> rs_bitrateBps sample'"
    using least(2) map_of_SomeD by fastforce
  have found: "map_of fresh key' = (if key' = ?ek then Some new else case map_of samples key' of None \<Rightarrow> None
        | Some y \<Rightarrow> if now - rs_observedAt y > 3000000000 then None else Some y)" for key'
    using assms(3) by (simp add: fresh_def table_simps new_def)
  show ?thesis
  proof (intro exI [of _ fresh] conjI)
    show "map_of (mi_rembFeedbackBySource m') src = Some fresh" by (simp add: m' table_simps)
    show "\<exists>key sample. map_of fresh key = Some sample \<and> rs_bitrateExp sample = e \<and> rs_bitrateMantissa sample = man \<and>
       (\<forall>key' sample'. map_of fresh key' = Some sample' \<longrightarrow> rs_bitrateBps sample \<le> rs_bitrateBps sample')"
      using sel em min by blast
    show "\<exists>sample. map_of fresh ?ek = Some sample \<and> rs_bitrateBps sample = rb_bitrateBps remb \<and> rs_observedAt sample = now"
      by (simp add: found new_def)
  qed (simp_all add: found m' table_simps)
qed

theorem SelectAggregatedRemb_least_witness:
  "\<exists>fresh. map_of (mi_rembFeedbackBySource (snd (SelectAggregatedRembForSource demo_env 9 demo_bob
      \<lparr> rb_senderSsrc = 4, rb_mediaSsrc = 0, rb_bitrateExp = 1, rb_bitrateMantissa = 32, rb_bitrateBps = 64, rb_targetSsrcs = [9] \<rparr>
      demo_ingress))) 9 = Some fresh \<and> (\<exists>key sample. map_of fresh key = Some sample \<and> rs_bitrateExp sample = 1)"
proof -
  let ?r = "\<lparr> rb_senderSsrc = 4, rb_mediaSsrc = 0, rb_bitrateExp = 1, rb_bitrateMantissa = 32, rb_bitrateBps = 64, rb_targetSsrcs = [9] \<rparr>"
  let ?res = "SelectAggregatedRembForSource demo_env 9 demo_bob ?r demo_ingress"
  have "EndpointKey (env_inet_ntop demo_env) demo_bob \<noteq> []"
    by (simp add: EndpointKey_def demo_env_def demo_bob_def)
  then have "fst ?res = Some (1, 32)"
    by (simp add: SelectAggregatedRembForSource_def Let_def steady_now_def demo_ingress_def MediaIngress_new_def um_erase_if_def)
  then have "?res = (Some (1, 32), snd ?res)" by (cases ?res) simp
  moreover have "um_ok (case map_of (mi_rembFeedbackBySource demo_ingress) 9 of None \<Rightarrow> [] | Some p \<Rightarrow> p)"
    by (simp add: demo_ingress_def MediaIngress_new_def)
  ultimately show ?thesis
    using SelectAggregatedRemb_least [of demo_env 9 demo_bob ?r demo_ingress 1 32 "snd ?res", OF _ refl _ refl] by fast
qed

end
