(* ===== verification/RpcProtocol.thy ===== *)
theory RpcProtocol
  imports Prelude
begin

text \<open>
  The framing of the control channel between the signaling server and the media server
  (\<open>meeting-server/sfu/server/RpcProtocol.cpp\<close>). \<open>RpcMethod\<close> is an enumeration with a fixed
  underlying type: a frame may carry any 16-bit value (\<open>RpcService::Dispatch\<close> rejects the
  unknown ones), so a method is a \<open>u16\<close> and the enumerators are its named values. The two
  kinds are kept as their byte, because \<open>EncodeRpcFrame\<close> checks it.
\<close>

abbreviation kCreateRoom :: u16 where "kCreateRoom \<equiv> 1"
abbreviation kDestroyRoom :: u16 where "kDestroyRoom \<equiv> 2"
abbreviation kAddPublisher :: u16 where "kAddPublisher \<equiv> 3"
abbreviation kRemovePublisher :: u16 where "kRemovePublisher \<equiv> 4"
abbreviation kGetNodeStatus :: u16 where "kGetNodeStatus \<equiv> 5"
abbreviation kReportNodeStatus :: u16 where "kReportNodeStatus \<equiv> 6"
abbreviation kQualityReport :: u16 where "kQualityReport \<equiv> 7"
abbreviation kSetupTransport :: u16 where "kSetupTransport \<equiv> 8"
abbreviation kTrickleIceCandidate :: u16 where "kTrickleIceCandidate \<equiv> 9"
abbreviation kCloseTransport :: u16 where "kCloseTransport \<equiv> 10"
abbreviation kAddSubscriber :: u16 where "kAddSubscriber \<equiv> 11"
abbreviation kRemoveSubscriber :: u16 where "kRemoveSubscriber \<equiv> 12"

abbreviation kRequest :: u8 where "kRequest \<equiv> 1"
abbreviation kResponse :: u8 where "kResponse \<equiv> 2"

record RpcFrame =
  frm_method :: u16
  frm_kind :: u8
  frm_status :: u16
  frm_payload :: bytes

definition kRpcMagic :: u32 where "kRpcMagic = 0x53465552"
definition kRpcVersion :: u8 where "kRpcVersion = 1"
definition kRpcHeaderSize :: nat where "kRpcHeaderSize = 14"
definition kRpcMaxPayloadSize :: nat where "kRpcMaxPayloadSize = 1024 * 1024"

definition IsValidKind :: "u8 \<Rightarrow> bool" where
  "IsValidKind kind \<longleftrightarrow> kind = kRequest \<or> kind = kResponse"

text \<open>\<open>None\<close> is the result \<open>false\<close>.\<close>

definition EncodeRpcFrame :: "RpcFrame \<Rightarrow> bytes option" where
  "EncodeRpcFrame frame =
     (if length (frm_payload frame) > kRpcMaxPayloadSize \<or> \<not> IsValidKind (frm_kind frame) then None
      else Some (AppendU32 kRpcMagic @ [kRpcVersion] @ [frm_kind frame] @ AppendU16 (frm_method frame)
        @ AppendU16 (frm_status frame) @ AppendU32 (of_nat (length (frm_payload frame)))
        @ frm_payload frame))"

text \<open>The outer option is the memory safety of the reads, the inner one the result \<open>false\<close>.\<close>

definition DecodeRpcFrame :: "bytes \<Rightarrow> RpcFrame option mem" where
  "DecodeRpcFrame data =
     (if length data < kRpcHeaderSize then Some None
      else do {
        magic \<leftarrow> ReadU32 data 0;
        version \<leftarrow> byte_at data 4;
        kind \<leftarrow> byte_at data 5;
        method \<leftarrow> ReadU16 data 6;
        status \<leftarrow> ReadU16 data 8;
        payloadSize \<leftarrow> ReadU32 data 10;
        if magic \<noteq> kRpcMagic \<or> version \<noteq> kRpcVersion \<or> \<not> IsValidKind kind
           \<or> unat payloadSize > kRpcMaxPayloadSize
        then Some None
        else if length data \<noteq> kRpcHeaderSize + unat payloadSize then Some None
        else Some (Some \<lparr> frm_method = method, frm_kind = kind, frm_status = status,
                          frm_payload = drop kRpcHeaderSize data \<rparr>) })"

lemmas rpc_consts = kRpcHeaderSize_def kRpcMaxPayloadSize_def

section \<open>Reading a frame back\<close>

lemma unat_payload_size:
  "n \<le> kRpcMaxPayloadSize \<Longrightarrow> unat (of_nat n :: u32) = n"
  by (simp add: unat_of_nat take_bit_nat_eq_self rpc_consts)

lemma DecodeRpcFrame_safe: "DecodeRpcFrame data \<noteq> None"
  by (auto simp: DecodeRpcFrame_def rpc_consts Let_def)

lemma Decode_Encode:
  assumes "EncodeRpcFrame frame = Some out"
  shows "DecodeRpcFrame out = Some (Some frame)"
proof -
  obtain n :: u32 where n: "n = of_nat (length (frm_payload frame))" by simp
  have p: "length (frm_payload frame) \<le> kRpcMaxPayloadSize" "IsValidKind (frm_kind frame)"
    and out: "out = AppendU32 kRpcMagic @ kRpcVersion # frm_kind frame # AppendU16 (frm_method frame)
        @ AppendU16 (frm_status frame) @ AppendU32 n @ frm_payload frame"
    using assms by (auto simp: EncodeRpcFrame_def n split: if_splits)
  have sz: "unat n = length (frm_payload frame)" using p(1) n by (simp add: unat_payload_size)
  have len: "length out = 14 + length (frm_payload frame)" by (simp add: out)
  have rd: "ReadU32 out 0 = Some kRpcMagic" "byte_at out 4 = Some kRpcVersion"
    "byte_at out 5 = Some (frm_kind frame)" "ReadU16 out 6 = Some (frm_method frame)"
    "ReadU16 out 8 = Some (frm_status frame)" "ReadU32 out 10 = Some n"
    by (simp_all add: out AppendU32_def AppendU16_def)
  have "drop kRpcHeaderSize out = frm_payload frame"
    by (simp add: out AppendU32_def AppendU16_def rpc_consts)
  then show ?thesis
    using p len sz by (simp add: DecodeRpcFrame_def rd rpc_consts)
qed

lemma list_split_at: "n \<le> length xs \<Longrightarrow> xs = map ((!) xs) [0..<n] @ drop n xs"
proof -
  assume "n \<le> length xs"
  then have "take n xs = map ((!) xs) [0..<n]" by (simp add: list_eq_iff_nth_eq)
  then show ?thesis by (metis append_take_drop_id)
qed

lemma list_14:
  assumes "14 \<le> length data"
  shows "data = [data ! 0, data ! 1, data ! 2, data ! 3, data ! 4, data ! 5, data ! 6, data ! 7,
    data ! 8, data ! 9, data ! 10, data ! 11, data ! 12, data ! 13] @ drop 14 data"
proof -
  have "[0..<14] = [0,1,2,3,4,5,6,7,8,9,10,11,12,13::nat]" by (simp add: upt_rec)
  then show ?thesis using list_split_at [OF assms] by (simp only: list.map)
qed

lemma Encode_Decode:
  assumes "DecodeRpcFrame data = Some (Some frame)"
  shows "EncodeRpcFrame frame = Some data"
proof -
  have len: "length data \<ge> 14"
    using assms by (auto simp: DecodeRpcFrame_def rpc_consts split: if_splits)
  define n where "n = be32 (data ! 10) (data ! 11) (data ! 12) (data ! 13)"
  have ok: "be32 (data ! 0) (data ! 1) (data ! 2) (data ! 3) = kRpcMagic" "data ! 4 = kRpcVersion"
    "IsValidKind (data ! 5)" "unat n \<le> kRpcMaxPayloadSize" "length data = 14 + unat n"
    and frame: "frame = \<lparr> frm_method = be16 (data ! 6) (data ! 7), frm_kind = data ! 5,
       frm_status = be16 (data ! 8) (data ! 9), frm_payload = drop 14 data \<rparr>"
    using assms len by (auto simp: DecodeRpcFrame_def rpc_consts n_def numeral_2_eq_2 split: if_splits)
  have "of_nat (length (drop 14 data)) = n" using ok(5) by simp
  moreover have "length (drop 14 data) \<le> kRpcMaxPayloadSize" using ok by simp
  ultimately have "EncodeRpcFrame frame = Some (AppendU32 kRpcMagic @ [kRpcVersion] @ [data ! 5]
      @ AppendU16 (be16 (data ! 6) (data ! 7)) @ AppendU16 (be16 (data ! 8) (data ! 9)) @ AppendU32 n
      @ drop 14 data)"
    using ok(3) by (simp add: EncodeRpcFrame_def frame)
  also have "\<dots> = Some data"
    using list_14 [OF len] by (simp add: ok(1) [symmetric] ok(2) [symmetric] n_def AppendU16_be16 AppendU32_be32)
  finally show ?thesis .
qed

text \<open>
  Encoding and decoding of control frames are inverse to each other: a byte string is the
  encoding of a frame exactly when it decodes to that frame, so no frame has two encodings and
  no encoding reads as two frames; the decoder never reads outside its buffer, and the encoder
  refuses exactly the payloads over one mebibyte and the kinds other than request and response.
\<close>

theorem RpcFrame_roundtrip:
  "(EncodeRpcFrame frame = Some data) = (DecodeRpcFrame data = Some (Some frame)) \<and>
   DecodeRpcFrame data \<noteq> None \<and>
   (EncodeRpcFrame frame = None) =
     (length (frm_payload frame) > 1048576 \<or> frm_kind frame \<notin> {1, 2})"
proof (intro conjI)
  show "(EncodeRpcFrame frame = Some data) = (DecodeRpcFrame data = Some (Some frame))"
    using Decode_Encode Encode_Decode by blast
  show "DecodeRpcFrame data \<noteq> None" by (rule DecodeRpcFrame_safe)
  show "(EncodeRpcFrame frame = None) = (length (frm_payload frame) > 1048576 \<or> frm_kind frame \<notin> {1, 2})"
    by (simp add: EncodeRpcFrame_def IsValidKind_def kRpcMaxPayloadSize_def)
qed

theorem RpcFrame_roundtrip_witness:
  "\<exists>data. EncodeRpcFrame \<lparr> frm_method = kCreateRoom, frm_kind = kRequest, frm_status = 0, frm_payload = [7] \<rparr> = Some data \<and>
     DecodeRpcFrame data =
       Some (Some \<lparr> frm_method = kCreateRoom, frm_kind = kRequest, frm_status = 0, frm_payload = [7] \<rparr>)"
proof -
  let ?f = "\<lparr> frm_method = kCreateRoom, frm_kind = kRequest, frm_status = 0, frm_payload = [7] \<rparr>"
  have "EncodeRpcFrame ?f \<noteq> None" by (simp add: RpcFrame_roundtrip [THEN conjunct2, THEN conjunct2])
  then obtain data where "EncodeRpcFrame ?f = Some data" by auto
  then show ?thesis using RpcFrame_roundtrip [of ?f data] by blast
qed

end
