(* ===== verification/RpcService.thy ===== *)
theory RpcService
  imports MediaSafety RpcProtocol
begin

text \<open>
  The control service of the media server (\<open>meeting-server/sfu/server/RpcService.cpp\<close>): one
  handler per RPC method and \<open>Dispatch\<close>, which parses the request, calls the handler and
  serialises the response. The messages are those of \<open>meeting-server/proto/sfu_rpc.proto\<close>;
  messages with the same fields share a record. The generated parsers and serialisers are
  fields of the \<open>protobuf\<close> argument: a parser gives the contents of the message after
  \<open>ParseFromArray\<close>, whose verdict \<open>Dispatch\<close> ignores, and a serialiser gives \<open>None\<close> where
  \<open>SerializeToString\<close> fails. The constructor makes both shared pointers non-null, and every caller
  passes a response object, so the null tests of the handlers are not repeated; the room manager
  is the one of the media ingress, as \<open>SfuDaemon\<close> builds it. A handler returns the response; it
  gives \<open>None\<close> only where the loop that draws SSRCs does not return.
\<close>

section \<open>Messages\<close>

record CreateRoomReq =
  cr_meeting_id :: string
  cr_max_publishers :: int

record CreateRoomRsp =
  cp_success :: bool
  cp_sfu_address :: string

text \<open>The requests with a meeting and a user: close transport, remove publisher, remove subscriber.\<close>

record MemberReq =
  mr_meeting_id :: string
  mr_user_id :: string

text \<open>The requests that bind SSRCs: add publisher, add subscriber.\<close>

record BindReq =
  br_meeting_id :: string
  br_user_id :: string
  br_audio_ssrc :: u32
  br_video_ssrc :: u32

record SetupTransportReq =
  sr_meeting_id :: string
  sr_user_id :: string
  sr_publish_audio :: bool
  sr_publish_video :: bool
  sr_client_ice_ufrag :: string
  sr_client_ice_pwd :: string
  sr_client_dtls_fingerprint :: string
  sr_client_candidates :: "string list"

record SetupTransportRsp =
  sp_success :: bool
  sp_server_ice_ufrag :: string
  sp_server_ice_pwd :: string
  sp_server_dtls_fingerprint :: string
  sp_server_candidates :: "string list"
  sp_assigned_audio_ssrc :: u32
  sp_assigned_video_ssrc :: u32

record TrickleIceCandidateReq =
  tr_meeting_id :: string
  tr_user_id :: string
  tr_candidate :: string
  tr_end_of_candidates :: bool

record GetNodeStatusRsp =
  ns_success :: bool
  ns_sfu_address :: string
  ns_media_port :: u32
  ns_room_count :: u32
  ns_publisher_count :: u32
  ns_packet_count :: u64

record ReportNodeStatusReq =
  rn_node_id :: string
  rn_rpc_address :: string
  rn_sfu_address :: string
  rn_max_meetings :: u32
  rn_media_port :: u32
  rn_room_count :: u32
  rn_publisher_count :: u32
  rn_packet_count :: u64

record QualityReport =
  qr_meeting_id :: string
  qr_user_id :: string
  qr_packet_loss :: rat
  qr_rtt_ms :: u32
  qr_jitter_ms :: u32
  qr_bitrate_kbps :: u32

text \<open>
  The generated code. A response whose only field is \<open>success\<close> is that \<open>bool\<close>; the last parser
  also reports whether \<open>ParseFromArray\<close> succeeded, because its caller asks.
\<close>

record protobuf =
  pb_CreateRoomReq :: "bytes \<Rightarrow> CreateRoomReq"
  pb_DestroyRoomReq :: "bytes \<Rightarrow> string"
  pb_BindReq :: "bytes \<Rightarrow> BindReq"
  pb_SetupTransportReq :: "bytes \<Rightarrow> SetupTransportReq"
  pb_TrickleIceCandidateReq :: "bytes \<Rightarrow> TrickleIceCandidateReq"
  pb_MemberReq :: "bytes \<Rightarrow> MemberReq"
  pb_CreateRoomRsp :: "CreateRoomRsp \<Rightarrow> bytes option"
  pb_SuccessRsp :: "bool \<Rightarrow> bytes option"
  pb_SetupTransportRsp :: "SetupTransportRsp \<Rightarrow> bytes option"
  pb_GetNodeStatusRsp :: "GetNodeStatusRsp \<Rightarrow> bytes option"
  pb_ReportNodeStatusReq :: "ReportNodeStatusReq \<Rightarrow> bytes option"
  pb_QualityReport :: "QualityReport \<Rightarrow> bytes option"
  pb_ReportNodeStatusRsp :: "bytes \<Rightarrow> bool option"

section \<open>State\<close>

record ('ssl, 's) RpcService =
  svc_mediaIngress :: "('ssl, 's) MediaIngress"
  svc_advertisedAddress :: string

definition RpcService_new :: "('ssl, 's) MediaIngress \<Rightarrow> ('ssl, 's) RpcService" where
  "RpcService_new mediaIngress =
     \<lparr> svc_mediaIngress = mediaIngress, svc_advertisedAddress = ''127.0.0.1:0'' \<rparr>"

definition SetAdvertisedAddress :: "string \<Rightarrow> ('ssl, 's) RpcService \<Rightarrow> ('ssl, 's) RpcService" where
  "SetAdvertisedAddress address s = s\<lparr>svc_advertisedAddress := address\<rparr>"

definition kDefaultMaxPublishers :: nat where "kDefaultMaxPublishers = 16"

text \<open>The rooms as the service sees them, and a call of a method of the ingress.\<close>

abbreviation svc_rooms :: "('ssl, 's) RpcService \<Rightarrow> RoomManager" where
  "svc_rooms s \<equiv> mi_roomManager (svc_mediaIngress s)"

definition on_rooms ::
  "(RoomManager \<Rightarrow> 'r \<times> RoomManager) \<Rightarrow> ('ssl, 's) RpcService \<Rightarrow> 'r \<times> ('ssl, 's) RpcService" where
  "on_rooms f s =
     (let (r, rooms) = f (svc_rooms s)
      in (r, s\<lparr>svc_mediaIngress := (svc_mediaIngress s)\<lparr>mi_roomManager := rooms\<rparr>\<rparr>))"

definition on_ingress ::
  "(('ssl, 's) MediaIngress \<Rightarrow> 'r \<times> ('ssl, 's) MediaIngress) \<Rightarrow> ('ssl, 's) RpcService \<Rightarrow>
   'r \<times> ('ssl, 's) RpcService" where
  "on_ingress f s = (let (r, m) = f (svc_mediaIngress s) in (r, s\<lparr>svc_mediaIngress := m\<rparr>))"

section \<open>Handlers\<close>

definition HandleCreateRoom ::
  "CreateRoomReq \<Rightarrow> ('ssl, 's) RpcService \<Rightarrow> CreateRoomRsp \<times> ('ssl, 's) RpcService" where
  "HandleCreateRoom req s =
     (if cr_meeting_id req = []
      then (\<lparr> cp_success = False, cp_sfu_address = svc_advertisedAddress s \<rparr>, s)
      else
        let maxPublishers = (if cr_max_publishers req \<le> 0 then int kDefaultMaxPublishers else cr_max_publishers req);
            (created, s') = on_rooms (RoomManager_CreateRoom (cr_meeting_id req) (nat maxPublishers)) s
        in (\<lparr> cp_success = created, cp_sfu_address = svc_advertisedAddress s \<rparr>, s'))"

definition HandleDestroyRoom :: "string \<Rightarrow> ('ssl, 's) RpcService \<Rightarrow> bool \<times> ('ssl, 's) RpcService" where
  "HandleDestroyRoom meeting_id s = on_rooms (RoomManager_DestroyRoom meeting_id) s"

definition setup_refused :: SetupTransportRsp where
  "setup_refused = \<lparr> sp_success = False, sp_server_ice_ufrag = [], sp_server_ice_pwd = [],
     sp_server_dtls_fingerprint = [], sp_server_candidates = [], sp_assigned_audio_ssrc = 0,
     sp_assigned_video_ssrc = 0 \<rparr>"

definition HandleSetupTransport ::
  "('ssl, 's) media_env \<Rightarrow> SetupTransportReq \<Rightarrow> ('ssl, 's) RpcService \<Rightarrow>
   (SetupTransportRsp \<times> ('ssl, 's) RpcService) option" where
  "HandleSetupTransport env req s =
     (if sr_meeting_id req = [] \<or> sr_user_id req = [] then Some (setup_refused, s)
      else do {
        (success, setup, m) \<leftarrow> SetupTransport env (sr_meeting_id req) (sr_user_id req) (sr_publish_audio req)
          (sr_publish_video req) (sr_client_ice_ufrag req) (sr_client_ice_pwd req)
          (sr_client_dtls_fingerprint req) (sr_client_candidates req) (svc_advertisedAddress s) (svc_mediaIngress s);
        Some (if \<not> (success \<and> ts_success setup) then setup_refused
              else \<lparr> sp_success = True, sp_server_ice_ufrag = ts_serverIceUfrag setup,
                sp_server_ice_pwd = ts_serverIcePwd setup,
                sp_server_dtls_fingerprint = ts_serverDtlsFingerprint setup,
                sp_server_candidates = ts_serverCandidates setup,
                sp_assigned_audio_ssrc = ts_assignedAudioSsrc setup,
                sp_assigned_video_ssrc = ts_assignedVideoSsrc setup \<rparr>,
              s\<lparr>svc_mediaIngress := m\<rparr>) })"

definition HandleTrickleIceCandidate ::
  "TrickleIceCandidateReq \<Rightarrow> ('ssl, 's) RpcService \<Rightarrow> bool \<times> ('ssl, 's) RpcService" where
  "HandleTrickleIceCandidate req s =
     (if tr_meeting_id req = [] \<or> tr_user_id req = [] then (False, s)
      else on_ingress (TrickleIceCandidate (tr_meeting_id req) (tr_user_id req) (tr_candidate req)
             (tr_end_of_candidates req)) s)"

definition HandleCloseTransport ::
  "('ssl, 's) media_env \<Rightarrow> MemberReq \<Rightarrow> ('ssl, 's) RpcService \<Rightarrow> bool \<times> ('ssl, 's) RpcService" where
  "HandleCloseTransport env req s =
     (if mr_meeting_id req = [] \<or> mr_user_id req = [] then (False, s)
      else on_ingress (CloseTransport env (mr_meeting_id req) (mr_user_id req)) s)"

definition HandleAddPublisher ::
  "('ssl, 's) media_env \<Rightarrow> BindReq \<Rightarrow> ('ssl, 's) RpcService \<Rightarrow> bool \<times> ('ssl, 's) RpcService" where
  "HandleAddPublisher env req s =
     (if br_meeting_id req = [] \<or> br_user_id req = [] then (False, s)
      else on_ingress (BindPublisher env (br_meeting_id req) (br_user_id req) (br_audio_ssrc req)
             (br_video_ssrc req)) s)"

definition HandleAddSubscriber ::
  "('ssl, 's) media_env \<Rightarrow> BindReq \<Rightarrow> ('ssl, 's) RpcService \<Rightarrow> bool \<times> ('ssl, 's) RpcService" where
  "HandleAddSubscriber env req s =
     (if br_meeting_id req = [] \<or> br_user_id req = [] then (False, s)
      else on_ingress (BindSubscriber env (br_meeting_id req) (br_user_id req) (br_audio_ssrc req)
             (br_video_ssrc req)) s)"

definition HandleRemovePublisher ::
  "MemberReq \<Rightarrow> ('ssl, 's) RpcService \<Rightarrow> bool \<times> ('ssl, 's) RpcService" where
  "HandleRemovePublisher req s =
     (if mr_meeting_id req = [] \<or> mr_user_id req = [] then (False, s)
      else on_ingress (RemovePublisher (mr_meeting_id req) (mr_user_id req)) s)"

definition HandleRemoveSubscriber ::
  "('ssl, 's) media_env \<Rightarrow> MemberReq \<Rightarrow> ('ssl, 's) RpcService \<Rightarrow> bool \<times> ('ssl, 's) RpcService" where
  "HandleRemoveSubscriber env req s =
     (if mr_meeting_id req = [] \<or> mr_user_id req = [] then (False, s)
      else on_ingress (RemoveSubscriber env (mr_meeting_id req) (mr_user_id req)) s)"

definition HandleGetNodeStatus :: "('ssl, 's) RpcService \<Rightarrow> GetNodeStatusRsp" where
  "HandleGetNodeStatus s =
     \<lparr> ns_success = True, ns_sfu_address = svc_advertisedAddress s,
       ns_media_port = ucast (mi_port (svc_mediaIngress s)),
       ns_room_count = of_nat (RoomManager_RoomCount (svc_rooms s)),
       ns_publisher_count = of_nat (RoomManager_PublisherCount (svc_rooms s)),
       ns_packet_count = of_nat (mi_packetCount (svc_mediaIngress s)) \<rparr>"

section \<open>Dispatch\<close>

text \<open>
  One case of the switch: an empty payload leaves the default message. The result is the
  serialised response, with \<open>None\<close> for the result \<open>false\<close>.
\<close>

definition answer ::
  "('rsp \<Rightarrow> bytes option) \<Rightarrow> 'rsp \<times> ('ssl, 's) RpcService \<Rightarrow> bytes option \<times> ('ssl, 's) RpcService" where
  "answer SerializeMessage = (\<lambda>(rsp, s). (SerializeMessage rsp, s))"

definition parse_request :: "(bytes \<Rightarrow> 'req) \<Rightarrow> 'req \<Rightarrow> bytes \<Rightarrow> 'req" where
  "parse_request ParseFromArray dflt payload = (if payload \<noteq> [] then ParseFromArray payload else dflt)"

definition bind_request :: "protobuf \<Rightarrow> bytes \<Rightarrow> BindReq" where
  "bind_request pb = parse_request (pb_BindReq pb)
     \<lparr> br_meeting_id = [], br_user_id = [], br_audio_ssrc = 0, br_video_ssrc = 0 \<rparr>"

definition member_request :: "protobuf \<Rightarrow> bytes \<Rightarrow> MemberReq" where
  "member_request pb = parse_request (pb_MemberReq pb) \<lparr> mr_meeting_id = [], mr_user_id = [] \<rparr>"

definition Dispatch ::
  "('ssl, 's) media_env \<Rightarrow> protobuf \<Rightarrow> u16 \<Rightarrow> bytes \<Rightarrow> ('ssl, 's) RpcService \<Rightarrow>
   (bytes option \<times> ('ssl, 's) RpcService) option" where
  "Dispatch env pb method payload s =
     (if method = kCreateRoom then
        Some (answer (pb_CreateRoomRsp pb) (HandleCreateRoom (parse_request (pb_CreateRoomReq pb)
          \<lparr> cr_meeting_id = [], cr_max_publishers = 0 \<rparr> payload) s))
      else if method = kDestroyRoom then
        Some (answer (pb_SuccessRsp pb) (HandleDestroyRoom (parse_request (pb_DestroyRoomReq pb) [] payload) s))
      else if method = kAddPublisher then
        Some (answer (pb_SuccessRsp pb) (HandleAddPublisher env (bind_request pb payload) s))
      else if method = kSetupTransport then
        map_option (answer (pb_SetupTransportRsp pb)) (HandleSetupTransport env (parse_request (pb_SetupTransportReq pb)
          \<lparr> sr_meeting_id = [], sr_user_id = [], sr_publish_audio = False, sr_publish_video = False,
            sr_client_ice_ufrag = [], sr_client_ice_pwd = [], sr_client_dtls_fingerprint = [],
            sr_client_candidates = [] \<rparr> payload) s)
      else if method = kTrickleIceCandidate then
        Some (answer (pb_SuccessRsp pb) (HandleTrickleIceCandidate (parse_request (pb_TrickleIceCandidateReq pb)
          \<lparr> tr_meeting_id = [], tr_user_id = [], tr_candidate = [], tr_end_of_candidates = False \<rparr> payload) s))
      else if method = kCloseTransport then
        Some (answer (pb_SuccessRsp pb) (HandleCloseTransport env (member_request pb payload) s))
      else if method = kAddSubscriber then
        Some (answer (pb_SuccessRsp pb) (HandleAddSubscriber env (bind_request pb payload) s))
      else if method = kRemovePublisher then
        Some (answer (pb_SuccessRsp pb) (HandleRemovePublisher (member_request pb payload) s))
      else if method = kRemoveSubscriber then
        Some (answer (pb_SuccessRsp pb) (HandleRemoveSubscriber env (member_request pb payload) s))
      else if method = kGetNodeStatus then
        Some (answer (pb_GetNodeStatusRsp pb) (HandleGetNodeStatus s, s))
      else Some (None, s))"

section \<open>The service drives the ingress only through its operations\<close>

lemma on_rooms_snd: "svc_mediaIngress (snd (on_rooms f s)) =
    (svc_mediaIngress s)\<lparr>mi_roomManager := snd (f (svc_rooms s))\<rparr>"
  by (simp add: on_rooms_def case_prod_beta Let_def)

lemma on_ingress_snd: "svc_mediaIngress (snd (on_ingress f s)) = snd (f (svc_mediaIngress s))"
  by (simp add: on_ingress_def case_prod_beta Let_def)

lemma answer_snd: "snd (answer f p) = snd p"
  by (simp add: answer_def case_prod_beta)

text \<open>The state of the ingress after one request: the old one or a single step of it.\<close>

definition ingress_step_eq ::
  "('ssl, 's) media_env \<Rightarrow> ('ssl, 's) RpcService \<Rightarrow> ('ssl, 's) RpcService \<Rightarrow> bool" where
  "ingress_step_eq env s s' \<longleftrightarrow> (ingress_step env)\<^sup>=\<^sup>= (svc_mediaIngress s) (svc_mediaIngress s')"

lemma handler_steps:
  "ingress_step_eq env s (snd (HandleCreateRoom creq s))"
  "ingress_step_eq env s (snd (HandleDestroyRoom i s))"
  "ingress_step_eq env s (snd (HandleTrickleIceCandidate treq s))"
  "ingress_step_eq env s (snd (HandleCloseTransport env mreq s))"
  "ingress_step_eq env s (snd (HandleAddPublisher env breq s))"
  "ingress_step_eq env s (snd (HandleAddSubscriber env breq s))"
  "ingress_step_eq env s (snd (HandleRemovePublisher mreq s))"
  "ingress_step_eq env s (snd (HandleRemoveSubscriber env mreq s))"
  by (auto simp: ingress_step_eq_def HandleCreateRoom_def HandleDestroyRoom_def HandleTrickleIceCandidate_def HandleCloseTransport_def
      HandleAddPublisher_def HandleAddSubscriber_def HandleRemovePublisher_def HandleRemoveSubscriber_def
      on_rooms_snd on_ingress_snd case_prod_beta Let_def intro: ingress_step.intros)

lemma HandleSetupTransport_steps:
  "HandleSetupTransport env req s = Some (rsp, s') \<Longrightarrow> ingress_step_eq env s s'"
  by (auto simp: ingress_step_eq_def HandleSetupTransport_def split: if_splits bind_splits intro: ingress_step.setup_transport)

lemma Dispatch_steps:
  assumes "Dispatch env pb method payload s = Some (r, s')"
  shows "ingress_step_eq env s s'"
proof -
  have "ingress_step_eq env s s" by (simp add: ingress_step_eq_def)
  then show ?thesis
    using assms HandleSetupTransport_steps unfolding Dispatch_def
    by (auto simp: answer_def case_prod_beta handler_steps split: if_splits)
qed

end
