(* ===== verification/RpcServer.thy ===== *)
theory RpcServer
  imports RpcService
begin

text \<open>
  The TCP side of the control channel (\<open>meeting-server/sfu/server/RpcServer.cpp\<close>): the exact
  reads and writes over a stream socket and the service of one connection by the accept thread,
  which takes the connections one after the other. A socket that is read is the list of the
  chunks its successive \<open>recv\<close> calls find: a call takes at most the bytes asked for and leaves the
  rest of the chunk; an empty chunk, or the end of the list, is a result \<open>\<le> 0\<close>. A socket that is
  written is the list of the byte counts its successive \<open>send\<close> calls accept, 0 for an error.
\<close>

section \<open>Exact reads and writes\<close>

fun ReadExact :: "nat \<Rightarrow> bytes list \<Rightarrow> bytes option \<times> bytes list" where
  "ReadExact 0 chunks = (Some [], chunks)"
| "ReadExact n [] = (None, [])"
| "ReadExact n (chunk # chunks) =
     (if chunk = [] then (None, chunks)
      else if length chunk > n then (Some (take n chunk), drop n chunk # chunks)
      else let (rest, left) = ReadExact (n - length chunk) chunks in (map_option (append chunk) rest, left))"

fun WriteExact :: "bytes \<Rightarrow> nat list \<Rightarrow> bool \<times> bytes" where
  "WriteExact [] accepted = (True, [])"
| "WriteExact buffer [] = (False, [])"
| "WriteExact buffer (n # accepted) =
     (if n = 0 then (False, [])
      else let (ok, sent) = WriteExact (drop n buffer) accepted in (ok, take n buffer @ sent))"

lemma ReadExact_concat:
  assumes "[] \<notin> set chunks"
  shows "fst (ReadExact n chunks) = (if n \<le> length (concat chunks) then Some (take n (concat chunks)) else None)"
    and "n \<le> length (concat chunks) \<Longrightarrow> concat (snd (ReadExact n chunks)) = drop n (concat chunks)"
    and "[] \<notin> set (snd (ReadExact n chunks))"
  using assms by (induction n chunks rule: ReadExact.induct) (auto simp: Let_def split: prod.splits)

lemma WriteExact_prefix: "\<exists>rest. buffer = snd (WriteExact buffer accepted) @ rest"
  by (induction buffer accepted rule: WriteExact.induct)
    (auto simp: Let_def split: prod.splits, metis append.assoc append_take_drop_id)

lemma WriteExact_complete: "fst (WriteExact buffer accepted) \<Longrightarrow> snd (WriteExact buffer accepted) = buffer"
  by (induction buffer accepted rule: WriteExact.induct) (auto simp: Let_def split: prod.splits if_splits)

section \<open>One connection\<close>

text \<open>
  A frame from a stream, read in two parts because the header says how long the payload is. The
  first component is the C++ variable \<open>ok\<close> after \<open>DecodeRpcFrame\<close>; the frame is the default
  object where nothing was decoded. The 14 bytes of the header have been read when the size is
  computed from them.
\<close>

definition RpcFrame_default :: RpcFrame where
  "RpcFrame_default = \<lparr> frm_method = kCreateRoom, frm_kind = kRequest, frm_status = 0, frm_payload = [] \<rparr>"

definition header_payload_size :: "bytes \<Rightarrow> nat" where
  "header_payload_size h = unat (be32 (h ! 10) (h ! 11) (h ! 12) (h ! 13))"

definition read_frame :: "bytes list \<Rightarrow> RpcFrame option" where
  "read_frame chunks =
     (case ReadExact kRpcHeaderSize chunks of
        (None, _) \<Rightarrow> None
      | (Some headerBytes, chunks1) \<Rightarrow>
          let payloadSize = header_payload_size headerBytes in
          case (if payloadSize > 0 then fst (ReadExact payloadSize chunks1) else Some []) of
            None \<Rightarrow> None
          | Some payload \<Rightarrow> Option.bind (DecodeRpcFrame (headerBytes @ payload)) (\<lambda>f. f))"

text \<open>
  The body of the accept loop: the bytes written to the client and the new state. \<open>None\<close> as the
  whole result is a handler that does not return.
\<close>

definition serve_connection ::
  "('ssl, 's) media_env \<Rightarrow> protobuf \<Rightarrow> bytes list \<Rightarrow> nat list \<Rightarrow> ('ssl, 's) RpcService \<Rightarrow>
   (bytes \<times> ('ssl, 's) RpcService) option" where
  "serve_connection env pb incoming accepted s =
     (let requestFrame = (case read_frame incoming of None \<Rightarrow> RpcFrame_default | Some f \<Rightarrow> f);
          ok = (read_frame incoming \<noteq> None \<and> frm_kind requestFrame = kRequest);
          responseFrame = \<lparr> frm_method = frm_method requestFrame, frm_kind = kResponse, frm_status = 1, frm_payload = [] \<rparr>
      in do {
        (responseFrame, s') \<leftarrow>
          (if ok then map_option (\<lambda>(result, s'). case result of
               None \<Rightarrow> (responseFrame, s')
             | Some responsePayload \<Rightarrow> (responseFrame\<lparr>frm_status := 0, frm_payload := responsePayload\<rparr>, s'))
             (Dispatch env pb (frm_method requestFrame) (frm_payload requestFrame) s)
           else Some (responseFrame, s));
        Some (case EncodeRpcFrame responseFrame of
                None \<Rightarrow> []
              | Some responseBytes \<Rightarrow> snd (WriteExact responseBytes accepted), s') })"

section \<open>What a connection does\<close>

lemma Encode_header:
  assumes "EncodeRpcFrame f = Some data"
  shows "14 \<le> length data" "header_payload_size (take 14 data) = length data - 14"
proof -
  have dec: "DecodeRpcFrame data = Some (Some f)" using assms by (rule Decode_Encode)
  then show len: "14 \<le> length data" by (auto simp: DecodeRpcFrame_def rpc_consts split: if_splits)
  then show "header_payload_size (take 14 data) = length data - 14"
    using dec by (auto simp: DecodeRpcFrame_def header_payload_size_def rpc_consts split: if_splits)
qed

lemma guarded_join: "(if b then Option.bind x (\<lambda>f. f) else None) = Some f \<Longrightarrow> x = Some (Some f)"
  by (cases x) (auto split: if_splits)

text \<open>
  Reading a frame does not depend on how the stream was cut into chunks: it succeeds exactly when
  the stream begins with the encoding of the frame.
\<close>

lemma read_frame_iff:
  assumes "[] \<notin> set chunks"
  shows "read_frame chunks = Some f \<longleftrightarrow> (\<exists>data rest. concat chunks = data @ rest \<and> EncodeRpcFrame f = Some data)"
    (is "?l \<longleftrightarrow> ?r")
proof
  let ?s = "concat chunks"
  let ?n = "header_payload_size (take 14 ?s)"
  note h = ReadExact_concat [OF assms, of 14]
  have eq: "read_frame chunks = (if 14 + ?n \<le> length ?s
      then Option.bind (DecodeRpcFrame (take (14 + ?n) ?s)) (\<lambda>f. f) else None)"
  proof (cases "14 \<le> length ?s")
    case True
    then obtain c1 where r: "ReadExact 14 chunks = (Some (take 14 ?s), c1)"
      using h(1) by (cases "ReadExact 14 chunks") auto
    have c: "concat c1 = drop 14 ?s" "[] \<notin> set c1" using h(2,3) True by (simp_all add: r)
    have t: "take (14 + ?n) ?s = take 14 ?s @ take ?n (drop 14 ?s)" by (simp add: take_add)
    have q: "(if ?n > 0 then fst (ReadExact ?n c1) else Some []) =
        (if 14 + ?n \<le> length ?s then Some (take ?n (drop 14 ?s)) else None)"
      using ReadExact_concat(1) [OF c(2), of ?n] True unfolding c by auto
    show ?thesis
      unfolding read_frame_def kRpcHeaderSize_def r prod.case option.case Let_def q t by (cases "14 + ?n \<le> length ?s") simp_all
  next
    case False
    then have "fst (ReadExact 14 chunks) = None" using h(1) by simp
    then show ?thesis using False by (cases "ReadExact 14 chunks") (simp add: read_frame_def rpc_consts)
  qed
  show ?r if ?l
  proof -
    have "(if 14 + ?n \<le> length ?s then Option.bind (DecodeRpcFrame (take (14 + ?n) ?s)) (\<lambda>f. f) else None) = Some f"
      using that unfolding eq .
    then have "DecodeRpcFrame (take (14 + ?n) ?s) = Some (Some f)"
      by (rule guarded_join)
    then show ?thesis using Encode_Decode append_take_drop_id [of "14 + ?n" ?s, symmetric] by blast
  qed
  show ?l if r: ?r
  proof -
    from r obtain data rest where d: "?s = data @ rest" "EncodeRpcFrame f = Some data" by blast
    have n: "14 + header_payload_size (take 14 (data @ rest)) = length data" using Encode_header [OF d(2)] by simp
    show ?thesis unfolding eq d(1) n by (simp add: Decode_Encode [OF d(2)])
  qed
qed

text \<open>The response the protocol promises for a request and the verdict of the service.\<close>

definition rpc_response :: "u16 \<Rightarrow> bytes option \<Rightarrow> RpcFrame" where
  "rpc_response method result = \<lparr> frm_method = method, frm_kind = kResponse,
     frm_status = (case result of None \<Rightarrow> 1 | Some _ \<Rightarrow> 0),
     frm_payload = (case result of None \<Rightarrow> [] | Some payload \<Rightarrow> payload) \<rparr>"

definition begins_with_request :: "bytes \<Rightarrow> RpcFrame \<Rightarrow> bool" where
  "begins_with_request stream f \<longleftrightarrow>
     (\<exists>data rest. stream = data @ rest \<and> EncodeRpcFrame f = Some data) \<and> frm_kind f = kRequest"

definition written :: "RpcFrame \<Rightarrow> nat list \<Rightarrow> bytes" where
  "written f accepted = (case EncodeRpcFrame f of None \<Rightarrow> [] | Some out \<Rightarrow> snd (WriteExact out accepted))"

lemma read_frame_request:
  assumes "[] \<notin> set incoming"
  shows "begins_with_request (concat incoming) f \<longleftrightarrow> read_frame incoming = Some f \<and> frm_kind f = kRequest"
  using read_frame_iff [OF assms] by (simp add: begins_with_request_def)

lemma serve_request:
  assumes "read_frame incoming = Some f" "frm_kind f = kRequest"
  shows "serve_connection env pb incoming accepted s =
    map_option (\<lambda>(result, s'). (written (rpc_response (frm_method f) result) accepted, s'))
      (Dispatch env pb (frm_method f) (frm_payload f) s)"
  using assms
  by (cases "Dispatch env pb (frm_method f) (frm_payload f) s")
    (auto simp: serve_connection_def Let_def written_def rpc_response_def split: option.splits)

lemma serve_refused:
  assumes "\<And>f. \<not> (read_frame incoming = Some f \<and> frm_kind f = kRequest)"
  shows "\<exists>method. serve_connection env pb incoming accepted s = Some (written (rpc_response method None) accepted, s)"
proof -
  have "\<not> (read_frame incoming \<noteq> None \<and>
      frm_kind (case read_frame incoming of None \<Rightarrow> RpcFrame_default | Some f \<Rightarrow> f) = kRequest)"
    using assms by (auto split: option.splits)
  then show ?thesis by (auto simp: serve_connection_def Let_def written_def rpc_response_def simp del: not_None_eq)
qed

lemma written_complete:
  assumes "length (frm_payload f) \<le> kRpcMaxPayloadSize" "IsValidKind (frm_kind f)"
    and "fst (WriteExact (the (EncodeRpcFrame f)) accepted)"
  shows "DecodeRpcFrame (written f accepted) = Some (Some f)"
proof -
  obtain out where "EncodeRpcFrame f = Some out" using assms(1,2) by (auto simp: EncodeRpcFrame_def)
  then show ?thesis using assms(3) WriteExact_complete Decode_Encode by (simp add: written_def)
qed

text \<open>
  C21. The control channel serves what the client sent, however the network cuts the stream.
  If the bytes of a connection begin with the encoding of a request frame, that request and no
  other is dispatched, and the bytes written back are (a prefix of, when the socket fails) the
  frame that echoes the method and carries the service's response with status 0, or an empty
  payload with status 1 when the service refused; a client that receives all of them decodes
  exactly that frame. If they do not, nothing is dispatched, the state is unchanged and a frame
  of status 1 is written.
\<close>

theorem RpcServer_serves:
  assumes "[] \<notin> set incoming"
  shows "(\<forall>f. begins_with_request (concat incoming) f \<longrightarrow>
      serve_connection env pb incoming accepted s =
        map_option (\<lambda>(result, s'). (written (rpc_response (frm_method f) result) accepted, s'))
          (Dispatch env pb (frm_method f) (frm_payload f) s)) \<and>
    ((\<nexists>f. begins_with_request (concat incoming) f) \<longrightarrow>
      (\<exists>method. serve_connection env pb incoming accepted s =
        Some (written (rpc_response method None) accepted, s))) \<and>
    (\<forall>f. length (frm_payload f) \<le> kRpcMaxPayloadSize \<and> IsValidKind (frm_kind f) \<longrightarrow>
      (\<exists>rest. the (EncodeRpcFrame f) = written f accepted @ rest) \<and>
      (fst (WriteExact (the (EncodeRpcFrame f)) accepted) \<longrightarrow> DecodeRpcFrame (written f accepted) = Some (Some f)))"
proof (intro conjI allI impI)
  fix f assume "begins_with_request (concat incoming) f"
  then show "serve_connection env pb incoming accepted s =
      map_option (\<lambda>(result, s'). (written (rpc_response (frm_method f) result) accepted, s'))
        (Dispatch env pb (frm_method f) (frm_payload f) s)"
    using serve_request read_frame_request [OF assms] by blast
next
  assume "\<nexists>f. begins_with_request (concat incoming) f"
  then show "\<exists>method. serve_connection env pb incoming accepted s =
      Some (written (rpc_response method None) accepted, s)"
    using serve_refused read_frame_request [OF assms] by blast
next
  fix f :: RpcFrame
  assume f: "length (frm_payload f) \<le> kRpcMaxPayloadSize \<and> IsValidKind (frm_kind f)"
  then obtain out where "EncodeRpcFrame f = Some out" by (auto simp: EncodeRpcFrame_def)
  then show "\<exists>rest. the (EncodeRpcFrame f) = written f accepted @ rest"
    using WriteExact_prefix by (simp add: written_def)
  show "DecodeRpcFrame (written f accepted) = Some (Some f)" if "fst (WriteExact (the (EncodeRpcFrame f)) accepted)"
    using f that by (simp add: written_complete)
qed

text \<open>A node status request, received in two chunks and answered in two writes.\<close>

definition demo_pb :: protobuf where
  "demo_pb = \<lparr> pb_CreateRoomReq = (\<lambda>_. \<lparr> cr_meeting_id = ''m'', cr_max_publishers = 2 \<rparr>),
     pb_DestroyRoomReq = (\<lambda>_. ''m''),
     pb_BindReq = (\<lambda>_. \<lparr> br_meeting_id = ''m'', br_user_id = ''u'', br_audio_ssrc = 9, br_video_ssrc = 0 \<rparr>),
     pb_SetupTransportReq = (\<lambda>_. \<lparr> sr_meeting_id = ''m'', sr_user_id = ''u'', sr_publish_audio = True,
       sr_publish_video = False, sr_client_ice_ufrag = ''c'', sr_client_ice_pwd = ''p'',
       sr_client_dtls_fingerprint = ''ab:01'', sr_client_candidates = [] \<rparr>),
     pb_TrickleIceCandidateReq = (\<lambda>_. \<lparr> tr_meeting_id = ''m'', tr_user_id = ''u'', tr_candidate = ''x'',
       tr_end_of_candidates = False \<rparr>),
     pb_MemberReq = (\<lambda>_. \<lparr> mr_meeting_id = ''m'', mr_user_id = ''u'' \<rparr>),
     pb_CreateRoomRsp = (\<lambda>r. Some [if cp_success r then 1 else 0]),
     pb_SuccessRsp = (\<lambda>b. Some [if b then 1 else 0]),
     pb_SetupTransportRsp = (\<lambda>r. Some [if sp_success r then 1 else 0]),
     pb_GetNodeStatusRsp = (\<lambda>r. Some [ucast (ns_room_count r)]),
     pb_ReportNodeStatusReq = (\<lambda>r. Some [ucast (rn_room_count r)]),
     pb_QualityReport = (\<lambda>r. Some [ucast (qr_bitrate_kbps r)]),
     pb_ReportNodeStatusRsp = (\<lambda>d. Some (d \<noteq> [])) \<rparr>"

theorem RpcServer_serves_witness:
  "serve_connection demo_env demo_pb
     [[0x53, 0x46, 0x55, 0x52, 1, 1, 0, 5, 0, 0, 0, 0], [0, 0, 99]] [10, 10] (RpcService_new demo_live) =
   Some ([0x53, 0x46, 0x55, 0x52, 1, 2, 0, 5, 0, 0, 0, 0, 0, 1, 1], RpcService_new demo_live)"
proof -
  let ?in = "[[0x53, 0x46, 0x55, 0x52, 1, 1, 0, 5, 0, 0, 0, 0], [0, 0, 99]] :: bytes list"
  let ?f = "\<lparr> frm_method = kGetNodeStatus, frm_kind = kRequest, frm_status = 0, frm_payload = [] \<rparr>"
  have app: "AppendU32 kRpcMagic = [0x53, 0x46, 0x55, 0x52]" "AppendU16 kGetNodeStatus = [0, 5]"
    "AppendU16 0 = [0, 0]" "AppendU32 0 = [0, 0, 0, 0]" "AppendU32 1 = [0, 0, 0, 1]"
    by code_simp+
  have enc: "EncodeRpcFrame ?f = Some [0x53, 0x46, 0x55, 0x52, 1, 1, 0, 5, 0, 0, 0, 0, 0, 0]"
    by (simp add: EncodeRpcFrame_def rpc_consts IsValidKind_def app kRpcVersion_def)
  have "begins_with_request (concat ?in) ?f"
    unfolding begins_with_request_def enc by (simp add: exI [of _ "[99]"])
  moreover have "fst (the (Dispatch demo_env demo_pb kGetNodeStatus [] (RpcService_new demo_live))) = Some [1]"
    by code_simp
  then have "Dispatch demo_env demo_pb kGetNodeStatus [] (RpcService_new demo_live) =
      Some (Some [1], RpcService_new demo_live)"
    by (simp add: Dispatch_def answer_def)
  moreover have "written (rpc_response kGetNodeStatus (Some [1])) [10, 10] =
      [0x53, 0x46, 0x55, 0x52, 1, 2, 0, 5, 0, 0, 0, 0, 0, 1, 1]"
    by (simp add: written_def rpc_response_def EncodeRpcFrame_def rpc_consts IsValidKind_def app kRpcVersion_def)
  ultimately show ?thesis
    using RpcServer_serves [of ?in demo_env demo_pb "[10, 10]" "RpcService_new demo_live"] by simp
qed

end
