(* ===== verification/Float32.thy ===== *)
theory Float32
  imports Prelude "HOL-Library.Log_Nat"
begin

text \<open>
  The single-precision arithmetic the bandwidth estimators use: conversion of an unsigned
  integer to \<open>float\<close>, multiplication by a literal factor, and truncation back to \<open>uint32_t\<close>.
  A non-negative \<open>float\<close> is a multiple \<open>n\<close> of a power of two, and \<open>round24 n\<close> is \<open>n\<close> rounded
  to the 24 significant bits of the format, ties to even: rounding does not depend on the
  scale, and no value here comes near the limits of the exponent. A literal such as \<open>0.85F\<close>
  is its exact value \<open>mantissa / 2 ^ shift\<close>.
\<close>

definition round24 :: "nat \<Rightarrow> nat" where
  "round24 n =
     (if n < 2 ^ 24 then n
      else
        let s = floorlog 2 n - 24; q = n div 2 ^ s; r = n mod 2 ^ s
        in (if r > 2 ^ (s - 1) \<or> (r = 2 ^ (s - 1) \<and> odd q) then q + 1 else q) * 2 ^ s)"

record float_factor =
  ff_mantissa :: nat
  ff_shift :: nat

text \<open>
  \<open>static_cast<uint32_t>(static_cast<float>(b) * factor)\<close>; a product of \<open>2 ^ 32\<close> or more is
  undefined behaviour (\<open>None\<close>).
\<close>

definition float_scale :: "u32 \<Rightarrow> float_factor \<Rightarrow> u32 mem" where
  "float_scale b f =
     (let product = round24 (round24 (unat b) * ff_mantissa f) div 2 ^ ff_shift f
      in if product < 2 ^ 32 then Some (of_nat product) else None)"

lemma round24_small [simp]: "n < 2 ^ 24 \<Longrightarrow> round24 n = n"
  by (simp add: round24_def)

text \<open>The rounding error is at most one part in \<open>2 ^ 24\<close>.\<close>

lemma round24_upper: "round24 n * 2 ^ 24 \<le> n * (2 ^ 24 + 1)"
proof (cases "n < 2 ^ 24")
  case False
  define s where "s = floorlog 2 n - 24"
  define q where "q = n div 2 ^ s"
  define r where "r = n mod 2 ^ s"
  have "25 \<le> floorlog 2 n" using False floorlog_ge_SucI [of 2 24 n] by simp
  then have s: "s \<ge> 1" "floorlog 2 n - 1 = s - 1 + 24" by (simp_all add: s_def)
  have "2 ^ (s - 1 + 24) \<le> n"
    using floorlog_bounds [of n 2] False s(2) by auto
  then have half: "2 ^ (s - 1) * 2 ^ 24 \<le> n" by (simp add: power_add)
  have n: "n = q * 2 ^ s + r" unfolding q_def r_def by (rule div_mult_mod_eq [symmetric])
  have two: "2 ^ s = 2 * (2::nat) ^ (s - 1)" using s(1) by (cases s) auto
  have "round24 n = (if r > 2 ^ (s - 1) \<or> (r = 2 ^ (s - 1) \<and> odd q) then q + 1 else q) * 2 ^ s"
    using False by (simp add: round24_def Let_def s_def q_def r_def)
  also have "\<dots> \<le> n + 2 ^ (s - 1)"
    unfolding n two by (auto simp: algebra_simps)
  finally have "round24 n * 2 ^ 24 \<le> (n + 2 ^ (s - 1)) * 2 ^ 24" by simp
  also have "\<dots> = n * 2 ^ 24 + 2 ^ (s - 1) * 2 ^ 24" by (simp add: algebra_simps)
  also have "\<dots> \<le> n * 2 ^ 24 + n" using half by simp
  finally show ?thesis by (simp add: algebra_simps)
qed simp

text \<open>A product with a factor is off by at most two such errors.\<close>

lemma float_product_upper:
  "round24 (round24 n * m) * 2 ^ 48 \<le> n * m * (2 ^ 24 + 1) ^ 2"
proof -
  have "round24 (round24 n * m) * 2 ^ 24 * 2 ^ 24 \<le> round24 n * m * (2 ^ 24 + 1) * 2 ^ 24"
    using round24_upper [of "round24 n * m"] by (rule mult_right_mono) simp
  also have "\<dots> = round24 n * 2 ^ 24 * (m * (2 ^ 24 + 1))" by simp
  also have "\<dots> \<le> n * (2 ^ 24 + 1) * (m * (2 ^ 24 + 1))"
    using round24_upper [of n] by (rule mult_right_mono) simp
  finally show ?thesis by (simp add: power2_eq_square algebra_simps)
qed

text \<open>A factor sufficiently below one never increases its argument.\<close>

lemma float_scale_shrinks:
  assumes "ff_mantissa f * (2 ^ 24 + 1) ^ 2 \<le> 2 ^ ff_shift f * 2 ^ 48"
  shows "\<exists>c. float_scale b f = Some c \<and> c \<le> b"
proof -
  let ?p = "round24 (round24 (unat b) * ff_mantissa f)"
  have "?p * 2 ^ 48 \<le> unat b * (ff_mantissa f * (2 ^ 24 + 1) ^ 2)"
    using float_product_upper [of "unat b" "ff_mantissa f"] by (simp add: mult.assoc)
  also have "\<dots> \<le> unat b * (2 ^ ff_shift f * 2 ^ 48)"
    using assms by (rule mult_left_mono) simp
  finally have "?p \<le> unat b * 2 ^ ff_shift f" by simp
  then have le: "?p div 2 ^ ff_shift f \<le> unat b"
    by (metis div_le_mono nonzero_mult_div_cancel_right power_eq_0_iff zero_neq_numeral)
  moreover have "unat b < 2 ^ 32" using unsigned_less [of b] by simp
  ultimately have "?p div 2 ^ ff_shift f < 2 ^ 32" by linarith
  with le show ?thesis
    by (auto simp: float_scale_def Let_def word_le_nat_alt unat_of_nat)
qed

text \<open>An upper bound for any factor, as long as the product fits.\<close>

lemma float_scale_bound:
  assumes "unat b * ff_mantissa f * (2 ^ 24 + 1) ^ 2 < N * (2 ^ ff_shift f * 2 ^ 48)" "N \<le> 2 ^ 32"
  shows "\<exists>c. float_scale b f = Some c \<and> unat c < N"
proof -
  let ?p = "round24 (round24 (unat b) * ff_mantissa f)"
  have "?p * 2 ^ 48 < N * 2 ^ ff_shift f * 2 ^ 48"
    using float_product_upper [of "unat b" "ff_mantissa f"] assms(1) by (simp add: mult.assoc)
  then have "?p < N * 2 ^ ff_shift f" by simp
  then have lt: "?p div 2 ^ ff_shift f < N" by (simp add: less_mult_imp_div_less)
  then have "?p div 2 ^ ff_shift f < 2 ^ 32" using assms(2) by linarith
  with lt show ?thesis by (auto simp: float_scale_def Let_def unat_of_nat)
qed

end
