(* ===== verification/BandwidthEstimator.thy ===== *)
theory BandwidthEstimator
  imports Float32
begin

text \<open>
  The bandwidth estimator of the media server (\<open>meeting-server/sfu/bwe/BandwidthEstimator.h\<close>,
  \<open>.cpp\<close>). \<open>Update\<close> holds the mutex for its whole body. The packet loss of a sample is the
  exact value of the \<open>float\<close>; the estimator's factors and thresholds are the exact values of
  the literals in the source. \<open>None\<close> is undefined behaviour: a product that does not fit
  \<open>uint32_t\<close> when it is converted back.
\<close>

record bwe_sample =
  s_packetLoss :: rat
  s_rttMs :: u32
  s_jitterMs :: u32
  s_measuredBitrateKbps :: u32

record bandwidth_estimator =
  be_minBitrateKbps :: u32
  be_maxBitrateKbps :: u32
  be_recommendedBitrateKbps :: u32

definition Clamp :: "bandwidth_estimator \<Rightarrow> u32 \<Rightarrow> u32" where
  "Clamp e b = max (be_minBitrateKbps e) (min (be_maxBitrateKbps e) b)"

definition BandwidthEstimator_new :: "u32 \<Rightarrow> u32 \<Rightarrow> u32 \<Rightarrow> bandwidth_estimator" where
  "BandwidthEstimator_new minBitrateKbps maxBitrateKbps initialBitrateKbps =
     (let mn = max 1 minBitrateKbps; mx = max mn maxBitrateKbps;
          e = \<lparr> be_minBitrateKbps = mn, be_maxBitrateKbps = mx, be_recommendedBitrateKbps = 0 \<rparr>
      in e\<lparr>be_recommendedBitrateKbps := Clamp e initialBitrateKbps\<rparr>)"

definition Downscale :: "bandwidth_estimator \<Rightarrow> u32 \<Rightarrow> float_factor \<Rightarrow> u32 mem" where
  "Downscale e b factor =
     (if \<not> (ff_mantissa factor > 0 \<and> ff_mantissa factor < 2 ^ ff_shift factor) then Some (Clamp e b)
      else map_option (Clamp e) (float_scale b factor))"

definition Upscale :: "bandwidth_estimator \<Rightarrow> u32 \<Rightarrow> float_factor \<Rightarrow> u32 mem" where
  "Upscale e b factor =
     (if ff_mantissa factor \<le> 2 ^ ff_shift factor then Some (Clamp e b)
      else map_option (Clamp e) (float_scale b factor))"

text \<open>The literals 0.50F, 0.70F, 0.85F and 1.10F, and the loss thresholds.\<close>

definition f_050 :: float_factor where "f_050 = \<lparr> ff_mantissa = 1, ff_shift = 1 \<rparr>"
definition f_070 :: float_factor where "f_070 = \<lparr> ff_mantissa = 11744051, ff_shift = 24 \<rparr>"
definition f_085 :: float_factor where "f_085 = \<lparr> ff_mantissa = 7130317, ff_shift = 23 \<rparr>"
definition f_110 :: float_factor where "f_110 = \<lparr> ff_mantissa = 9227469, ff_shift = 23 \<rparr>"

definition loss_030 :: rat where "loss_030 = 5033165 / 16777216"
definition loss_015 :: rat where "loss_015 = 5033165 / 33554432"
definition loss_005 :: rat where "loss_005 = 13421773 / 268435456"
definition loss_002 :: rat where "loss_002 = 5368709 / 268435456"

definition Update :: "bwe_sample \<Rightarrow> bandwidth_estimator \<Rightarrow> (u32 \<times> bandwidth_estimator) mem" where
  "Update sample e = do {
     let measured = (if s_measuredBitrateKbps sample = 0 then be_recommendedBitrateKbps e
                     else Clamp e (s_measuredBitrateKbps sample));
     let candidate = min (be_recommendedBitrateKbps e) measured;
     candidate \<leftarrow>
       (if s_packetLoss sample > loss_030 \<or> s_rttMs sample > 800 then Downscale e candidate f_050
        else if s_packetLoss sample > loss_015 \<or> s_rttMs sample > 500 then Downscale e candidate f_070
        else if s_packetLoss sample > loss_005 \<or> s_rttMs sample > 300 \<or> s_jitterMs sample > 120
        then Downscale e candidate f_085
        else if s_packetLoss sample < loss_002 \<and> s_rttMs sample < 150 \<and> s_jitterMs sample < 60
        then Upscale e candidate f_110
        else Some (ucast (((ucast candidate :: u64) * 3 + ucast measured) div 4)));
     let recommended = Clamp e candidate;
     Some (recommended, e\<lparr>be_recommendedBitrateKbps := recommended\<rparr>) }"

section \<open>The invariant\<close>

definition bwe_inv :: "bandwidth_estimator \<Rightarrow> bool" where
  "bwe_inv e \<longleftrightarrow> 1 \<le> be_minBitrateKbps e \<and> be_minBitrateKbps e \<le> be_recommendedBitrateKbps e \<and>
     be_recommendedBitrateKbps e \<le> be_maxBitrateKbps e"

lemma Clamp_range:
  "be_minBitrateKbps e \<le> be_maxBitrateKbps e \<Longrightarrow>
     be_minBitrateKbps e \<le> Clamp e b \<and> Clamp e b \<le> be_maxBitrateKbps e"
  by (auto simp: Clamp_def)

lemma Clamp_id: "be_minBitrateKbps e \<le> b \<Longrightarrow> b \<le> be_maxBitrateKbps e \<Longrightarrow> Clamp e b = b"
  by (simp add: Clamp_def)

lemma Clamp_mono: "b \<le> c \<Longrightarrow> Clamp e b \<le> Clamp e c"
  by (auto simp: Clamp_def max_def min_def)

lemma Clamp_idem: "Clamp e (Clamp e b) = Clamp e b"
  by (auto simp: Clamp_def max_def min_def)

lemma bwe_inv_new: "bwe_inv (BandwidthEstimator_new mn mx init)"
  by (auto simp: BandwidthEstimator_new_def Let_def bwe_inv_def Clamp_def)

lemma bwe_inv_range: "bwe_inv e \<Longrightarrow> be_minBitrateKbps e \<le> be_maxBitrateKbps e"
  by (auto simp: bwe_inv_def)

lemma Update_fields:
  "Update s e = Some (r, e') \<Longrightarrow> e' = e\<lparr>be_recommendedBitrateKbps := r\<rparr> \<and> (\<exists>c. r = Clamp e c)"
  by (auto simp: Update_def Let_def split: bind_splits)

lemma Update_keeps_inv: "bwe_inv e \<Longrightarrow> Update s e = Some (r, e') \<Longrightarrow> bwe_inv e'"
  using Update_fields [of s e r e'] Clamp_range [of e] by (auto simp: bwe_inv_def)

section \<open>Definedness\<close>

lemma Downscale_shrinks:
  assumes "f \<in> {f_050, f_070, f_085}"
  shows "\<exists>c. Downscale e b f = Some (Clamp e c) \<and> c \<le> b"
proof -
  have "ff_mantissa f * (2 ^ 24 + 1) ^ 2 \<le> 2 ^ ff_shift f * 2 ^ 48"
    using assms by (auto simp: f_050_def f_070_def f_085_def)
  then show ?thesis
    using float_scale_shrinks [of f b] by (auto simp: Downscale_def)
qed

lemma Upscale_defined:
  assumes "unat b \<le> 3900000000"
  shows "\<exists>c. Upscale e b f_110 = Some (Clamp e c)"
proof -
  have "\<exists>c. float_scale b f_110 = Some c \<and> unat c < 2 ^ 32"
    using assms by (intro float_scale_bound) (simp_all add: f_110_def)
  then show ?thesis by (auto simp: Upscale_def)
qed

lemma Upscale_grows:
  assumes "unat b \<le> 6000000"
  shows "\<exists>c. Upscale e b f_110 = Some (Clamp e c) \<and> 10 * unat c \<le> 11 * unat b + 20"
proof -
  have "\<exists>c. float_scale b f_110 = Some c \<and> unat c < (11 * unat b + 20) div 10 + 1"
  proof (rule float_scale_bound)
    have "unat b * 9227469 * (2 ^ 24 + 1) ^ 2 * 10 < (11 * unat b + 10) * (2 ^ 23 * 2 ^ 48)"
      using assms by simp
    also have "\<dots> \<le> 10 * ((11 * unat b + 20) div 10 + 1) * (2 ^ 23 * 2 ^ 48)"
      by (intro mult_right_mono) auto
    finally show "unat b * ff_mantissa f_110 * (2 ^ 24 + 1) ^ 2 <
        ((11 * unat b + 20) div 10 + 1) * (2 ^ ff_shift f_110 * 2 ^ 48)"
      by (simp add: f_110_def)
    show "(11 * unat b + 20) div 10 + 1 \<le> 2 ^ 32" using assms by simp
  qed
  then obtain c where "float_scale b f_110 = Some c" "unat c < (11 * unat b + 20) div 10 + 1"
    by blast
  then show ?thesis
    by (auto simp: Upscale_def f_110_def intro!: exI [of _ c])
qed

text \<open>The weighted average of two rates lies between them.\<close>

lemma average_range:
  assumes "c \<le> (m :: u32)"
  shows "c \<le> ucast (((ucast c :: u64) * 3 + ucast m) div 4)"
    and "ucast (((ucast c :: u64) * 3 + ucast m) div 4) \<le> m"
proof -
  have c: "unat c \<le> unat m" and m: "unat m < 2 ^ 32" and c': "unat c < 2 ^ 32"
    using assms unsigned_less [of m] unsigned_less [of c] by (simp_all add: word_le_nat_alt)
  have "unat (((ucast c :: u64) * 3 + ucast m) div 4) = (unat c * 3 + unat m) div 4"
    using m c' by (simp add: unat_div unat_word_ariths unsigned_ucast_eq take_bit_nat_eq_self)
  moreover have "(unat c * 3 + unat m) div 4 < 2 ^ 32" using m c' by linarith
  ultimately have "unat (ucast (((ucast c :: u64) * 3 + ucast m) div 4) :: u32) =
      (unat c * 3 + unat m) div 4"
    by (simp add: unsigned_ucast_eq take_bit_nat_eq_self)
  with c show "c \<le> ucast (((ucast c :: u64) * 3 + ucast m) div 4)"
    and "ucast (((ucast c :: u64) * 3 + ucast m) div 4) \<le> m"
    by (simp_all add: word_le_nat_alt)
qed

text \<open>The rate the estimator starts a sample from: never above the current recommendation.\<close>

definition start_rate :: "bwe_sample \<Rightarrow> bandwidth_estimator \<Rightarrow> u32" where
  "start_rate s e = min (be_recommendedBitrateKbps e)
     (if s_measuredBitrateKbps s = 0 then be_recommendedBitrateKbps e
      else Clamp e (s_measuredBitrateKbps s))"

definition congested :: "bwe_sample \<Rightarrow> bool" where
  "congested s \<longleftrightarrow> s_packetLoss s > loss_005 \<or> s_rttMs s > 300 \<or> s_jitterMs s > 120"

definition healthy :: "bwe_sample \<Rightarrow> bool" where
  "healthy s \<longleftrightarrow> s_packetLoss s < loss_002 \<and> s_rttMs s < 150 \<and> s_jitterMs s < 60"

lemma loss_order: "loss_005 \<le> loss_015" "loss_015 \<le> loss_030" "loss_002 \<le> loss_005"
  by (simp_all add: loss_030_def loss_015_def loss_005_def loss_002_def)

lemma start_rate_le: "start_rate s e \<le> be_recommendedBitrateKbps e"
  by (simp add: start_rate_def)

text \<open>The shape of an update, by the state of the network.\<close>

lemma Update_congested:
  assumes "congested s"
  shows "\<exists>c. Update s e = Some (Clamp e c, e\<lparr>be_recommendedBitrateKbps := Clamp e c\<rparr>) \<and>
    c \<le> start_rate s e"
proof -
  have "\<exists>f \<in> {f_050, f_070, f_085}. Update s e = do {
      d \<leftarrow> Downscale e (start_rate s e) f;
      Some (Clamp e d, e\<lparr>be_recommendedBitrateKbps := Clamp e d\<rparr>) }"
  proof -
    consider "s_packetLoss s > loss_030 \<or> s_rttMs s > 800"
      | "\<not> (s_packetLoss s > loss_030 \<or> s_rttMs s > 800)" "s_packetLoss s > loss_015 \<or> s_rttMs s > 500"
      | "\<not> (s_packetLoss s > loss_030 \<or> s_rttMs s > 800)"
        "\<not> (s_packetLoss s > loss_015 \<or> s_rttMs s > 500)" by blast
    then show ?thesis
      using assms
      by cases (auto simp: Update_def Let_def start_rate_def congested_def simp del: split_paired_Ex)
  qed
  then obtain f where f: "f \<in> {f_050, f_070, f_085}" and u: "Update s e = do {
      d \<leftarrow> Downscale e (start_rate s e) f;
      Some (Clamp e d, e\<lparr>be_recommendedBitrateKbps := Clamp e d\<rparr>) }" by blast
  obtain c where "Downscale e (start_rate s e) f = Some (Clamp e c)" "c \<le> start_rate s e"
    using Downscale_shrinks [OF f] by blast
  then show ?thesis using u by (auto simp: Clamp_idem)
qed

lemma Update_healthy:
  assumes "healthy s" "unat (start_rate s e) \<le> 3900000000"
  shows "\<exists>c. Upscale e (start_rate s e) f_110 = Some (Clamp e c) \<and>
    Update s e = Some (Clamp e c, e\<lparr>be_recommendedBitrateKbps := Clamp e c\<rparr>)"
proof -
  obtain c where c: "Upscale e (start_rate s e) f_110 = Some (Clamp e c)"
    using Upscale_defined [OF assms(2)] by blast
  have "\<not> s_packetLoss s > loss_005" "\<not> s_rttMs s > 300" "\<not> s_jitterMs s > 120"
    "\<not> s_packetLoss s > loss_015" "\<not> s_rttMs s > 500" "\<not> s_packetLoss s > loss_030" "\<not> s_rttMs s > 800"
    using assms(1) loss_order unfolding healthy_def by (auto simp: word_less_nat_alt)
  then have "Update s e = do {
      d \<leftarrow> Upscale e (start_rate s e) f_110;
      Some (Clamp e d, e\<lparr>be_recommendedBitrateKbps := Clamp e d\<rparr>) }"
    using assms(1) by (simp add: Update_def Let_def start_rate_def healthy_def)
  with c show ?thesis by (auto simp: Clamp_idem)
qed

lemma Update_defined:
  assumes "bwe_inv e" "unat (be_maxBitrateKbps e) \<le> 3900000000"
  shows "\<exists>r. Update s e = Some (r, e\<lparr>be_recommendedBitrateKbps := r\<rparr>)"
proof -
  have "start_rate s e \<le> be_maxBitrateKbps e"
    using assms(1) start_rate_le [of s e] by (auto simp: bwe_inv_def)
  then have le: "unat (start_rate s e) \<le> 3900000000"
    using assms(2) by (simp add: word_le_nat_alt)
  consider "congested s" | "healthy s" | "\<not> congested s" "\<not> healthy s" by blast
  then show ?thesis
  proof cases
    case 3
    then have "\<not> s_packetLoss s > loss_030" "\<not> s_rttMs s > 800" "\<not> s_packetLoss s > loss_015"
      "\<not> s_rttMs s > 500"
      using loss_order unfolding congested_def by (auto simp: word_less_nat_alt)
    with 3 show ?thesis by (auto simp: Update_def Let_def congested_def healthy_def)
  qed (use Update_congested [of s e] Update_healthy [OF _ le] in auto)
qed

fun bwe_run :: "bwe_sample list \<Rightarrow> bandwidth_estimator \<Rightarrow> bandwidth_estimator mem" where
  "bwe_run [] e = Some e"
| "bwe_run (s # ss) e = do { (r, e') \<leftarrow> Update s e; bwe_run ss e' }"

lemma bwe_run_ok:
  assumes "bwe_inv e" "unat (be_maxBitrateKbps e) \<le> 3900000000"
  shows "\<exists>r. bwe_run ss e = Some (e\<lparr>be_recommendedBitrateKbps := r\<rparr>) \<and>
    bwe_inv (e\<lparr>be_recommendedBitrateKbps := r\<rparr>)"
  using assms
proof (induction ss arbitrary: e)
  case Nil
  then show ?case by (auto intro!: exI [of _ "be_recommendedBitrateKbps e"])
next
  case (Cons s ss)
  obtain r where r: "Update s e = Some (r, e\<lparr>be_recommendedBitrateKbps := r\<rparr>)"
    using Update_defined [OF Cons.prems] by blast
  show ?case
    using Cons.IH [OF Update_keeps_inv [OF Cons.prems(1) r]] Cons.prems(2) r by auto
qed

text \<open>
  For every configuration whose bounds are below 3.9 Tbit/s (the default maximum is
  2500 kbit/s) and every sequence of samples, the estimator's arithmetic is defined and its
  recommendation stays between the configured bounds (the minimum raised to 1, the maximum
  raised to the minimum).
\<close>

theorem bwe_recommendation_in_bounds:
  assumes "unat mn \<le> 3900000000" "unat mx \<le> 3900000000"
  shows "\<exists>e. bwe_run ss (BandwidthEstimator_new mn mx init) = Some e \<and>
    max 1 mn \<le> be_recommendedBitrateKbps e \<and> be_recommendedBitrateKbps e \<le> max (max 1 mn) mx"
proof -
  let ?e = "BandwidthEstimator_new mn mx init"
  have f: "be_maxBitrateKbps ?e = max (max 1 mn) mx" "be_minBitrateKbps ?e = max 1 mn"
    by (simp_all add: BandwidthEstimator_new_def Let_def)
  have "unat (be_maxBitrateKbps ?e) \<le> 3900000000"
    using assms unfolding f by (auto simp: max_def)
  then show ?thesis
    using bwe_run_ok [OF bwe_inv_new, of mn mx init ss] f by (auto simp: bwe_inv_def)
qed

theorem bwe_recommendation_in_bounds_witness:
  "\<exists>e. bwe_run [\<lparr> s_packetLoss = 1 / 2, s_rttMs = 10, s_jitterMs = 0, s_measuredBitrateKbps = 0 \<rparr>]
      (BandwidthEstimator_new 150 2500 800) = Some e \<and>
    150 \<le> be_recommendedBitrateKbps e \<and> be_recommendedBitrateKbps e \<le> 2500"
  using bwe_recommendation_in_bounds [of 150 2500
      "[\<lparr> s_packetLoss = 1 / 2, s_rttMs = 10, s_jitterMs = 0, s_measuredBitrateKbps = 0 \<rparr>]" 800]
  by (simp add: max_def)

text \<open>
  Congestion never raises the recommendation: when a sample reports a loss above 5%, a
  round trip above 300 ms or a jitter above 120 ms, the new recommendation is at most the old
  one and, unless it is already the minimum, at most the measured rate.
\<close>

theorem bwe_congestion_never_raises:
  assumes "bwe_inv e" "congested s"
  shows "\<exists>r. Update s e = Some (r, e\<lparr>be_recommendedBitrateKbps := r\<rparr>) \<and>
    r \<le> be_recommendedBitrateKbps e \<and>
    (s_measuredBitrateKbps s = 0 \<or> r \<le> max (be_minBitrateKbps e) (s_measuredBitrateKbps s))"
proof -
  obtain c where c: "Update s e = Some (Clamp e c, e\<lparr>be_recommendedBitrateKbps := Clamp e c\<rparr>)"
    "c \<le> start_rate s e"
    using Update_congested [OF assms(2)] by blast
  have "Clamp e c \<le> Clamp e (be_recommendedBitrateKbps e)"
    using c(2) start_rate_le [of s e] by (intro Clamp_mono) auto
  then have "Clamp e c \<le> be_recommendedBitrateKbps e"
    using assms(1) by (simp add: Clamp_id bwe_inv_def)
  moreover have "Clamp e c \<le> max (be_minBitrateKbps e) (s_measuredBitrateKbps s)"
    if "s_measuredBitrateKbps s \<noteq> 0"
  proof -
    have "c \<le> Clamp e (s_measuredBitrateKbps s)"
      using c(2) that by (simp add: start_rate_def)
    then show ?thesis by (auto simp: Clamp_def max_def min_def split: if_splits)
  qed
  ultimately show ?thesis using c(1) by blast
qed

theorem bwe_congestion_never_raises_witness:
  "\<exists>r. Update \<lparr> s_packetLoss = 1 / 10, s_rttMs = 10, s_jitterMs = 0, s_measuredBitrateKbps = 400 \<rparr>
        (BandwidthEstimator_new 150 2500 800) =
      Some (r, (BandwidthEstimator_new 150 2500 800)\<lparr>be_recommendedBitrateKbps := r\<rparr>) \<and> r \<le> 400"
  using bwe_congestion_never_raises [OF bwe_inv_new, of
      "\<lparr> s_packetLoss = 1 / 10, s_rttMs = 10, s_jitterMs = 0, s_measuredBitrateKbps = 400 \<rparr>" 150 2500 800]
  by (auto simp: congested_def loss_005_def BandwidthEstimator_new_def Let_def max_def)

text \<open>
  Recovery is bounded: on a healthy sample the recommendation grows by at most a tenth,
  up to a rounding of 2 kbit/s, for every rate up to 6 Gbit/s.
\<close>

theorem bwe_growth_bounded:
  assumes "bwe_inv e" "healthy s" "unat (be_recommendedBitrateKbps e) \<le> 6000000"
  shows "\<exists>r. Update s e = Some (r, e\<lparr>be_recommendedBitrateKbps := r\<rparr>) \<and>
    10 * unat r \<le> 11 * unat (be_recommendedBitrateKbps e) + 20"
proof -
  have le: "unat (start_rate s e) \<le> unat (be_recommendedBitrateKbps e)"
    using start_rate_le [of s e] by (simp add: word_le_nat_alt)
  then have "unat (start_rate s e) \<le> 6000000" and big: "unat (start_rate s e) \<le> 3900000000"
    using assms(3) by simp_all
  then obtain c where c: "Upscale e (start_rate s e) f_110 = Some (Clamp e c)"
    "10 * unat c \<le> 11 * unat (start_rate s e) + 20"
    using Upscale_grows [of "start_rate s e" e] by blast
  have u: "Update s e = Some (Clamp e c, e\<lparr>be_recommendedBitrateKbps := Clamp e c\<rparr>)"
    using Update_healthy [OF assms(2) big] c(1) by auto
  have "unat (Clamp e c) \<le> max (unat (be_minBitrateKbps e)) (unat c)"
    by (auto simp: Clamp_def max_def min_def word_le_nat_alt)
  moreover have "unat (be_minBitrateKbps e) \<le> unat (be_recommendedBitrateKbps e)"
    using assms(1) by (simp add: bwe_inv_def word_le_nat_alt)
  ultimately have "10 * unat (Clamp e c) \<le> 11 * unat (be_recommendedBitrateKbps e) + 20"
    using c(2) le by linarith
  with u show ?thesis by blast
qed

theorem bwe_growth_bounded_witness:
  "\<exists>r. Update \<lparr> s_packetLoss = 0, s_rttMs = 10, s_jitterMs = 0, s_measuredBitrateKbps = 0 \<rparr>
        (BandwidthEstimator_new 150 2500 800) =
      Some (r, (BandwidthEstimator_new 150 2500 800)\<lparr>be_recommendedBitrateKbps := r\<rparr>) \<and>
    10 * unat r \<le> 8820"
  using bwe_growth_bounded [OF bwe_inv_new, of
      "\<lparr> s_packetLoss = 0, s_rttMs = 10, s_jitterMs = 0, s_measuredBitrateKbps = 0 \<rparr>" 150 2500 800]
  by (simp add: healthy_def loss_002_def BandwidthEstimator_new_def Let_def Clamp_def max_def min_def)

end
