(* ===== verification/SfuDaemon.thy ===== *)
theory SfuDaemon
  imports RpcServer BandwidthEstimator
begin

text \<open>
  The daemon (\<open>meeting-server/sfu/server/SfuDaemon.cpp\<close>): configuration from the environment,
  construction and start of its parts, and the reporter, which sends the node status and one
  quality report per publisher to the signaling server and feeds the bandwidth estimators.

  Parameters of the model: \<open>getenv\<close>; \<open>net\<close>, which gives for the n-th connection and its address
  \<open>None\<close> (no socket, or the connection failed) or the byte counts \<open>send\<close> accepts together with
  the chunks that come back for the bytes sent; and the result of binding the listening socket.
  \<open>dmn_reported\<close> records the quality reports handed to \<open>SerializeToString\<close> and \<open>dmn_sent\<close> the bytes
  written to the signaling server.
\<close>

section \<open>Configuration\<close>

record SfuDaemonConfig =
  cfg_nodeId :: string
  cfg_advertisedHost :: string
  cfg_rpcListenPort :: u16
  cfg_mediaListenPort :: u16
  cfg_signalingReportAddress :: string
  cfg_heartbeatIntervalMs :: u32

definition SfuDaemonConfig_default :: SfuDaemonConfig where
  "SfuDaemonConfig_default = \<lparr> cfg_nodeId = ''sfu-node-01'', cfg_advertisedHost = ''127.0.0.1'',
     cfg_rpcListenPort = 9000, cfg_mediaListenPort = 10000, cfg_signalingReportAddress = [],
     cfg_heartbeatIntervalMs = 5000 \<rparr>"

text \<open>
  The conversion that \<open>GetEnvPort\<close>, \<open>GetEnvUInt32\<close> and \<open>ParseEndpoint\<close> share: \<open>strtoul\<close> must
  consume at least one character and all of them, and the value must not exceed the maximum.
\<close>

definition parse_unsigned :: "nat \<Rightarrow> string \<Rightarrow> u64 option" where
  "parse_unsigned maximum text =
     (let (parsed, rest) = strtoul10 text
      in if rest = c_str text \<or> rest \<noteq> [] \<or> unat parsed > maximum then None else Some parsed)"

definition GetEnvPort :: "(string \<Rightarrow> string option) \<Rightarrow> string \<Rightarrow> u16 \<Rightarrow> u16" where
  "GetEnvPort getenv key fallback =
     (case getenv key of
        None \<Rightarrow> fallback
      | Some value \<Rightarrow>
          if value = [] then fallback
          else case parse_unsigned 65535 value of None \<Rightarrow> fallback | Some parsed \<Rightarrow> ucast parsed)"

definition GetEnvString :: "(string \<Rightarrow> string option) \<Rightarrow> string \<Rightarrow> string \<Rightarrow> string" where
  "GetEnvString getenv key fallback =
     (case getenv key of None \<Rightarrow> fallback | Some value \<Rightarrow> if value = [] then fallback else value)"

definition BuildAddress :: "string \<Rightarrow> u16 \<Rightarrow> string" where
  "BuildAddress host port = host @ '':'' @ nat_to_string (unat port)"

definition GetEnvUInt32 :: "(string \<Rightarrow> string option) \<Rightarrow> string \<Rightarrow> u32 \<Rightarrow> u32" where
  "GetEnvUInt32 getenv key fallback =
     (case getenv key of
        None \<Rightarrow> fallback
      | Some value \<Rightarrow>
          if value = [] then fallback
          else case parse_unsigned 4294967295 value of None \<Rightarrow> fallback | Some parsed \<Rightarrow> ucast parsed)"

definition SfuDaemon_ParseEndpoint :: "(string \<Rightarrow> u32 option) \<Rightarrow> string \<Rightarrow> Endpoint option" where
  "SfuDaemon_ParseEndpoint inet_pton endpointText =
     (case str_rfind (CHR '':'') endpointText of
        None \<Rightarrow> None
      | Some colon \<Rightarrow>
          if colon = 0 \<or> colon + 1 \<ge> length endpointText then None
          else case parse_unsigned 65535 (drop (colon + 1) endpointText) of
            None \<Rightarrow> None
          | Some parsedPort \<Rightarrow>
              map_option (\<lambda>address. \<lparr> sin_family = AF_INET, sin_port = ucast parsedPort, sin_addr = address \<rparr>)
                (inet_pton (c_str (take colon endpointText))))"

definition LoadDaemonConfigFromEnv :: "(string \<Rightarrow> string option) \<Rightarrow> SfuDaemonConfig" where
  "LoadDaemonConfigFromEnv getenv =
     (let config = SfuDaemonConfig_default in config\<lparr>
        cfg_nodeId := GetEnvString getenv ''SFU_NODE_ID'' (cfg_nodeId config),
        cfg_advertisedHost := GetEnvString getenv ''SFU_ADVERTISED_HOST'' (cfg_advertisedHost config),
        cfg_rpcListenPort := GetEnvPort getenv ''SFU_RPC_LISTEN_PORT'' (cfg_rpcListenPort config),
        cfg_mediaListenPort := GetEnvPort getenv ''SFU_MEDIA_LISTEN_PORT'' (cfg_mediaListenPort config),
        cfg_signalingReportAddress := GetEnvString getenv ''SFU_SIGNALING_REPORT_ADDR'' (cfg_signalingReportAddress config),
        cfg_heartbeatIntervalMs := GetEnvUInt32 getenv ''SFU_HEARTBEAT_INTERVAL_MS'' (cfg_heartbeatIntervalMs config)\<rparr>)"

section \<open>State\<close>

record QualityReportBaseline =
  qb_packetCount :: u64
  qb_byteCount :: u64
  qb_observedAt :: int

record ('ssl, 's) SfuDaemon =
  dmn_config :: SfuDaemonConfig
  dmn_service :: "('ssl, 's) RpcService"
  dmn_actualPort :: u16
  dmn_rpcRunning :: bool
  dmn_reporterRunning :: bool
  dmn_qualityBaselines :: "(string, QualityReportBaseline) umap"
  dmn_qualityEstimators :: "(string, bandwidth_estimator) umap"
  dmn_exchanges :: nat
  dmn_sent :: "bytes list"
  dmn_reported :: "QualityReport list"

type_synonym net = "nat \<Rightarrow> Endpoint \<Rightarrow> (nat list \<times> (bytes \<Rightarrow> bytes list)) option"

abbreviation dmn_ingress :: "('ssl, 's) SfuDaemon \<Rightarrow> ('ssl, 's) MediaIngress" where
  "dmn_ingress d \<equiv> svc_mediaIngress (dmn_service d)"

text \<open>The media socket is bound by the constructor; \<open>started\<close> and \<open>port\<close> are its results.\<close>

definition SfuDaemon_new :: "SfuDaemonConfig \<Rightarrow> bool \<Rightarrow> u16 \<Rightarrow> ('ssl, 's) SfuDaemon" where
  "SfuDaemon_new config started port =
     \<lparr> dmn_config = config,
       dmn_service = RpcService_new (MediaIngress_new RoomManager_new started port 500),
       dmn_actualPort = 0, dmn_rpcRunning = False, dmn_reporterRunning = False,
       dmn_qualityBaselines = [], dmn_qualityEstimators = [], dmn_exchanges = 0, dmn_sent = [], dmn_reported = [] \<rparr>"

definition RpcPort :: "('ssl, 's) SfuDaemon \<Rightarrow> u16" where
  "RpcPort d = (if dmn_actualPort d \<noteq> 0 then dmn_actualPort d else cfg_rpcListenPort (dmn_config d))"

definition AdvertisedMediaAddress :: "('ssl, 's) SfuDaemon \<Rightarrow> string" where
  "AdvertisedMediaAddress d = BuildAddress (cfg_advertisedHost (dmn_config d)) (mi_port (dmn_ingress d))"

text \<open>
  \<open>RpcServer::Start\<close>: \<open>bound\<close> is the local port after socket, bind, listen and getsockname, \<open>None\<close>
  if one of them fails. The host is the advertised one, or the default when that is empty.
\<close>

definition RpcServer_Start :: "u16 option \<Rightarrow> ('ssl, 's) SfuDaemon \<Rightarrow> bool \<times> ('ssl, 's) SfuDaemon" where
  "RpcServer_Start bound d =
     (if dmn_rpcRunning d then (True, d)
      else case bound of
        None \<Rightarrow> (False, d)
      | Some port \<Rightarrow>
          let host = (if cfg_advertisedHost (dmn_config d) = [] then ''127.0.0.1'' else cfg_advertisedHost (dmn_config d))
          in (True, d\<lparr>dmn_rpcRunning := True, dmn_actualPort := port,
                dmn_service := SetAdvertisedAddress (BuildAddress host port) (dmn_service d)\<rparr>))"

definition SfuDaemon_Start :: "u16 option \<Rightarrow> ('ssl, 's) SfuDaemon \<Rightarrow> bool \<times> ('ssl, 's) SfuDaemon" where
  "SfuDaemon_Start bound d =
     (if \<not> mi_running (dmn_ingress d) then (False, d)
      else
        let (ok, d1) = RpcServer_Start bound d
        in if \<not> ok then (False, d1)
           else
             let d2 = d1\<lparr>dmn_service := SetAdvertisedAddress (AdvertisedMediaAddress d1) (dmn_service d1)\<rparr>
             in (True, if cfg_signalingReportAddress (dmn_config d2) \<noteq> [] then d2\<lparr>dmn_reporterRunning := True\<rparr> else d2))"

definition SfuDaemon_Stop :: "('ssl, 's) SfuDaemon \<Rightarrow> ('ssl, 's) SfuDaemon" where
  "SfuDaemon_Stop d = d\<lparr>dmn_reporterRunning := False, dmn_rpcRunning := False\<rparr>"

section \<open>Exchanging a frame with the signaling server\<close>

definition ExchangeRpcFrame ::
  "('ssl, 's) media_env \<Rightarrow> net \<Rightarrow> string \<Rightarrow> RpcFrame \<Rightarrow> ('ssl, 's) SfuDaemon \<Rightarrow>
   RpcFrame option \<times> ('ssl, 's) SfuDaemon" where
  "ExchangeRpcFrame env net endpointText request d =
     (case SfuDaemon_ParseEndpoint (env_inet_pton env) endpointText of
        None \<Rightarrow> (None, d)
      | Some endpoint \<Rightarrow>
          let d1 = d\<lparr>dmn_exchanges := dmn_exchanges d + 1\<rparr> in
          case net (dmn_exchanges d) endpoint of
            None \<Rightarrow> (None, d1)
          | Some (accepted, reply) \<Rightarrow>
              (case EncodeRpcFrame request of
                 None \<Rightarrow> (None, d1)
               | Some requestBytes \<Rightarrow>
                   let (ok, sent) = WriteExact requestBytes accepted
                   in (if ok then read_frame (reply sent) else None, d1\<lparr>dmn_sent := dmn_sent d1 @ [sent]\<rparr>)))"

text \<open>The test both callers make of the response.\<close>

definition accepted_response :: "u16 \<Rightarrow> RpcFrame option \<Rightarrow> bool" where
  "accepted_response method response =
     (case response of
        None \<Rightarrow> False
      | Some r \<Rightarrow> frm_method r = method \<and> frm_kind r = kResponse \<and> frm_status r = 0)"

definition report_request :: "u16 \<Rightarrow> bytes \<Rightarrow> RpcFrame" where
  "report_request method payload =
     \<lparr> frm_method = method, frm_kind = kRequest, frm_status = 0, frm_payload = payload \<rparr>"

definition sendNodeStatusReport ::
  "('ssl, 's) media_env \<Rightarrow> protobuf \<Rightarrow> net \<Rightarrow> ('ssl, 's) SfuDaemon \<Rightarrow> bool \<times> ('ssl, 's) SfuDaemon" where
  "sendNodeStatusReport env pb net d =
     (if cfg_signalingReportAddress (dmn_config d) = [] then (False, d)
      else
        let statusRsp = HandleGetNodeStatus (dmn_service d) in
        if \<not> ns_success statusRsp then (False, d)
        else case pb_ReportNodeStatusReq pb
               \<lparr> rn_node_id = cfg_nodeId (dmn_config d),
                 rn_rpc_address = BuildAddress (cfg_advertisedHost (dmn_config d)) (RpcPort d),
                 rn_sfu_address = AdvertisedMediaAddress d, rn_max_meetings = 0,
                 rn_media_port = ns_media_port statusRsp, rn_room_count = ns_room_count statusRsp,
                 rn_publisher_count = ns_publisher_count statusRsp, rn_packet_count = ns_packet_count statusRsp \<rparr> of
          None \<Rightarrow> (False, d)
        | Some payload \<Rightarrow>
            let (response, d1) = ExchangeRpcFrame env net (cfg_signalingReportAddress (dmn_config d))
                  (report_request kReportNodeStatus payload) d
            in (accepted_response kReportNodeStatus response \<and>
                pb_ReportNodeStatusRsp pb (frm_payload (the response)) = Some True, d1))"

section \<open>Quality reports\<close>

definition QualityReportKey :: "string \<Rightarrow> string \<Rightarrow> string" where
  "QualityReportKey meetingId userId = meetingId @ [char_of (10::nat)] @ userId"

definition sendQualityReportFrame ::
  "('ssl, 's) media_env \<Rightarrow> protobuf \<Rightarrow> net \<Rightarrow> QualityReport \<Rightarrow> ('ssl, 's) SfuDaemon \<Rightarrow> bool \<times> ('ssl, 's) SfuDaemon" where
  "sendQualityReportFrame env pb net report d =
     (if cfg_signalingReportAddress (dmn_config d) = [] \<or> qr_meeting_id report = [] \<or> qr_user_id report = [] then (False, d)
      else
        let d1 = d\<lparr>dmn_reported := dmn_reported d @ [report]\<rparr> in
        case pb_QualityReport pb report of
          None \<Rightarrow> (False, d1)
        | Some payload \<Rightarrow>
            let (response, d2) = ExchangeRpcFrame env net (cfg_signalingReportAddress (dmn_config d1))
                  (report_request kQualityReport payload) d1
            in (accepted_response kQualityReport response, d2))"

definition measured_bitrate :: "int \<Rightarrow> u64 \<Rightarrow> QualityReportBaseline option \<Rightarrow> u32" where
  "measured_bitrate now byteCount prev =
     (case prev of
        None \<Rightarrow> 0
      | Some b \<Rightarrow>
          if byteCount \<ge> qb_byteCount b \<and> now > qb_observedAt b
          then let elapsedMs = (now - qb_observedAt b) div 1000000
               in if elapsedMs > 0
                  then ucast (((byteCount - qb_byteCount b) * 8 + of_int (elapsedMs div 2)) div of_int elapsedMs)
                  else 0
          else 0)"

text \<open>
  One round of the loop over the snapshots. The baselines of the next round grow by \<open>emplace\<close>,
  which keeps an entry that is already there. \<open>None\<close> is undefined behaviour in the estimator.
\<close>

definition report_snapshot ::
  "('ssl, 's) media_env \<Rightarrow> protobuf \<Rightarrow> net \<Rightarrow> int \<Rightarrow> PublisherTrafficCounters \<Rightarrow>
   (string, QualityReportBaseline) umap \<times> bool \<times> ('ssl, 's) SfuDaemon \<Rightarrow>
   ((string, QualityReportBaseline) umap \<times> bool \<times> ('ssl, 's) SfuDaemon) mem" where
  "report_snapshot env pb net now snapshot = (\<lambda>(nextBaselines, anySent, d). do {
     let key = QualityReportKey (pc_meetingId snapshot) (pc_userId snapshot);
     let measured = measured_bitrate now (pc_byteCount snapshot) (map_of (dmn_qualityBaselines d) key);
     let estimator = (case map_of (dmn_qualityEstimators d) key of
           Some e \<Rightarrow> e | None \<Rightarrow> BandwidthEstimator_new 150 2500 800);
     (recommended, estimator') \<leftarrow> Update \<lparr> s_packetLoss = pc_packetLoss snapshot, s_rttMs = pc_rttMs snapshot,
           s_jitterMs = pc_jitterMs snapshot, s_measuredBitrateKbps = measured \<rparr> estimator;
     let d1 = d\<lparr>dmn_qualityEstimators := AList.update key estimator' (dmn_qualityEstimators d)\<rparr>;
     let nextBaselines' = (if map_of nextBaselines key = None
           then AList.update key \<lparr> qb_packetCount = pc_packetCount snapshot, qb_byteCount = pc_byteCount snapshot,
                  qb_observedAt = now \<rparr> nextBaselines
           else nextBaselines);
     let d2 = (if recommended > 0
           then d1\<lparr>dmn_service := snd (on_ingress (SendEstimatedRembToPublisher env (pc_meetingId snapshot)
                     (pc_userId snapshot) recommended) (dmn_service d1))\<rparr>
           else d1);
     let (sent, d3) = sendQualityReportFrame env pb net
           \<lparr> qr_meeting_id = pc_meetingId snapshot, qr_user_id = pc_userId snapshot,
             qr_packet_loss = pc_packetLoss snapshot, qr_rtt_ms = pc_rttMs snapshot,
             qr_jitter_ms = pc_jitterMs snapshot, qr_bitrate_kbps = recommended \<rparr> d2;
     Some (nextBaselines', sent \<or> anySent, d3) })"

fun report_snapshots ::
  "('ssl, 's) media_env \<Rightarrow> protobuf \<Rightarrow> net \<Rightarrow> int \<Rightarrow> PublisherTrafficCounters list \<Rightarrow>
   (string, QualityReportBaseline) umap \<times> bool \<times> ('ssl, 's) SfuDaemon \<Rightarrow>
   ((string, QualityReportBaseline) umap \<times> bool \<times> ('ssl, 's) SfuDaemon) mem" where
  "report_snapshots env pb net now [] acc = Some acc"
| "report_snapshots env pb net now (snapshot # rest) acc =
     Option.bind (report_snapshot env pb net now snapshot acc) (report_snapshots env pb net now rest)"

definition sendQualityReports ::
  "('ssl, 's) media_env \<Rightarrow> protobuf \<Rightarrow> net \<Rightarrow> ('ssl, 's) SfuDaemon \<Rightarrow> (bool \<times> ('ssl, 's) SfuDaemon) mem" where
  "sendQualityReports env pb net d =
     (if cfg_signalingReportAddress (dmn_config d) = [] then Some (False, d)
      else do {
        let (snapshots, service1) = on_ingress SnapshotPublisherTraffic (dmn_service d);
        let (now, service2) = on_ingress (steady_now env) service1;
        (nextBaselines, anySent, d1) \<leftarrow> report_snapshots env pb net now snapshots ([], False, d\<lparr>dmn_service := service2\<rparr>);
        Some (anySent, d1\<lparr>
          dmn_qualityEstimators := um_erase_if (\<lambda>key e. map_of nextBaselines key = None) (dmn_qualityEstimators d1),
          dmn_qualityBaselines := nextBaselines\<rparr>) })"

text \<open>One round of \<open>runReporter\<close>, and its sleep: slices of 100 ms while the flag is set.\<close>

definition reporter_round ::
  "('ssl, 's) media_env \<Rightarrow> protobuf \<Rightarrow> net \<Rightarrow> ('ssl, 's) SfuDaemon \<Rightarrow> ('ssl, 's) SfuDaemon mem" where
  "reporter_round env pb net d = map_option snd (sendQualityReports env pb net (snd (sendNodeStatusReport env pb net d)))"

definition total_sleep :: "SfuDaemonConfig \<Rightarrow> nat" where
  "total_sleep config = (if cfg_heartbeatIntervalMs config = 0 then 5000 else unat (cfg_heartbeatIntervalMs config))"

function reporter_sleep :: "(nat \<Rightarrow> bool) \<Rightarrow> nat \<Rightarrow> nat \<Rightarrow> nat" where
  "reporter_sleep running totalSleep waited =
     (if running waited \<and> waited < totalSleep then reporter_sleep running totalSleep (waited + 100) else waited)"
  by auto
termination by (relation "measure (\<lambda>(running, totalSleep, waited). totalSleep - waited)") auto

declare reporter_sleep.simps [simp del]

section \<open>The reporter keeps the rest of the state\<close>

lemma Exchange_keeps [simp]:
  "dmn_config (snd (ExchangeRpcFrame env net t f d)) = dmn_config d"
  "dmn_service (snd (ExchangeRpcFrame env net t f d)) = dmn_service d"
  "dmn_qualityBaselines (snd (ExchangeRpcFrame env net t f d)) = dmn_qualityBaselines d"
  "dmn_qualityEstimators (snd (ExchangeRpcFrame env net t f d)) = dmn_qualityEstimators d"
  "dmn_reported (snd (ExchangeRpcFrame env net t f d)) = dmn_reported d"
  by (auto simp: ExchangeRpcFrame_def Let_def case_prod_beta split: option.splits)

lemma sendNodeStatusReport_keeps [simp]:
  "dmn_config (snd (sendNodeStatusReport env pb net d)) = dmn_config d"
  "dmn_service (snd (sendNodeStatusReport env pb net d)) = dmn_service d"
  "dmn_qualityBaselines (snd (sendNodeStatusReport env pb net d)) = dmn_qualityBaselines d"
  "dmn_qualityEstimators (snd (sendNodeStatusReport env pb net d)) = dmn_qualityEstimators d"
  "dmn_reported (snd (sendNodeStatusReport env pb net d)) = dmn_reported d"
  by (auto simp: sendNodeStatusReport_def Let_def case_prod_beta split: option.splits)

lemma sendQualityReportFrame_keeps [simp]:
  "dmn_config (snd (sendQualityReportFrame env pb net r d)) = dmn_config d"
  "dmn_service (snd (sendQualityReportFrame env pb net r d)) = dmn_service d"
  "dmn_qualityBaselines (snd (sendQualityReportFrame env pb net r d)) = dmn_qualityBaselines d"
  "dmn_qualityEstimators (snd (sendQualityReportFrame env pb net r d)) = dmn_qualityEstimators d"
  "set (dmn_reported (snd (sendQualityReportFrame env pb net r d))) \<subseteq> insert r (set (dmn_reported d))"
  by (auto simp: sendQualityReportFrame_def Let_def case_prod_beta split: option.splits)

section \<open>The reports stay within the estimator's bounds\<close>

definition estimator_ok :: "bandwidth_estimator \<Rightarrow> bool" where
  "estimator_ok e \<longleftrightarrow> bwe_inv e \<and> be_minBitrateKbps e = 150 \<and> be_maxBitrateKbps e = 2500"

definition report_ok :: "QualityReport \<Rightarrow> bool" where
  "report_ok r \<longleftrightarrow> 150 \<le> qr_bitrate_kbps r \<and> qr_bitrate_kbps r \<le> 2500"

lemma estimator_ok_new: "estimator_ok (BandwidthEstimator_new 150 2500 800)"
  using bwe_inv_new [of 150 2500 800]
  by (simp add: estimator_ok_def BandwidthEstimator_new_def Let_def max_def)

lemma estimator_ok_Update:
  assumes "estimator_ok e"
  obtains r where "Update s e = Some (r, e\<lparr>be_recommendedBitrateKbps := r\<rparr>)"
    and "150 \<le> r" "r \<le> 2500" "estimator_ok (e\<lparr>be_recommendedBitrateKbps := r\<rparr>)"
proof -
  have inv: "bwe_inv e" and b: "be_minBitrateKbps e = 150" "be_maxBitrateKbps e = 2500"
    using assms by (simp_all add: estimator_ok_def)
  obtain r where r: "Update s e = Some (r, e\<lparr>be_recommendedBitrateKbps := r\<rparr>)"
    using Update_defined [OF inv, of s] b by auto
  then have "bwe_inv (e\<lparr>be_recommendedBitrateKbps := r\<rparr>)" using Update_keeps_inv [OF inv] by blast
  then show ?thesis using that [OF r] b by (simp add: bwe_inv_def estimator_ok_def)
qed

definition reporter_inv :: "('ssl, 's) SfuDaemon \<Rightarrow> bool" where
  "reporter_inv d \<longleftrightarrow> um_ok (dmn_qualityEstimators d) \<and>
     (\<forall>key e. map_of (dmn_qualityEstimators d) key = Some e \<longrightarrow> estimator_ok e) \<and>
     (\<forall>r \<in> set (dmn_reported d). report_ok r)"

lemma reporter_inv_cong:
  assumes "reporter_inv d" "dmn_qualityEstimators d' = dmn_qualityEstimators d"
    "\<forall>r \<in> set (dmn_reported d'). report_ok r"
  shows "reporter_inv d'"
  using assms by (simp add: reporter_inv_def)

lemma reporter_inv_update:
  assumes "reporter_inv d" "estimator_ok e"
  shows "reporter_inv (d\<lparr>dmn_qualityEstimators := AList.update key e (dmn_qualityEstimators d)\<rparr>)"
  using assms by (simp add: reporter_inv_def AList.update_conv')

abbreviation report_key :: "PublisherTrafficCounters \<Rightarrow> string" where
  "report_key snapshot \<equiv> QualityReportKey (pc_meetingId snapshot) (pc_userId snapshot)"

text \<open>What one round, and then the whole loop, does to the state of the daemon.\<close>

definition reported_to ::
  "('ssl, 's) media_env \<Rightarrow> string set \<Rightarrow> (string, QualityReportBaseline) umap \<Rightarrow> ('ssl, 's) SfuDaemon \<Rightarrow>
   (string, QualityReportBaseline) umap \<Rightarrow> ('ssl, 's) SfuDaemon \<Rightarrow> bool" where
  "reported_to env keys baselines d baselines' d' \<longleftrightarrow>
     reporter_inv d' \<and> (ingress_step env)\<^sup>*\<^sup>* (dmn_ingress d) (dmn_ingress d') \<and> dmn_config d' = dmn_config d \<and>
     dom (map_of (dmn_qualityEstimators d')) = keys \<union> dom (map_of (dmn_qualityEstimators d)) \<and>
     dom (map_of baselines') = keys \<union> dom (map_of baselines)"

lemma report_snapshot_ok:
  assumes inv: "reporter_inv d"
  obtains b' sent d' where "report_snapshot env pb net now snapshot (b, anySent, d) = Some (b', sent, d')"
    and "reported_to env {report_key snapshot} b d b' d'"
proof -
  let ?key = "report_key snapshot"
  let ?e = "case map_of (dmn_qualityEstimators d) ?key of Some e \<Rightarrow> e | None \<Rightarrow> BandwidthEstimator_new 150 2500 800"
  let ?s = "\<lparr> s_packetLoss = pc_packetLoss snapshot, s_rttMs = pc_rttMs snapshot, s_jitterMs = pc_jitterMs snapshot,
      s_measuredBitrateKbps = measured_bitrate now (pc_byteCount snapshot) (map_of (dmn_qualityBaselines d) ?key) \<rparr>"
  have "estimator_ok ?e" using inv estimator_ok_new by (auto simp: reporter_inv_def split: option.splits)
  then obtain r where r: "Update ?s ?e = Some (r, ?e\<lparr>be_recommendedBitrateKbps := r\<rparr>)"
    and b: "150 \<le> r" "r \<le> 2500" and e: "estimator_ok (?e\<lparr>be_recommendedBitrateKbps := r\<rparr>)"
    by (rule estimator_ok_Update)
  define d1 where "d1 = d\<lparr>dmn_qualityEstimators :=
    AList.update ?key (?e\<lparr>be_recommendedBitrateKbps := r\<rparr>) (dmn_qualityEstimators d)\<rparr>"
  define d2 where "d2 = (if r > 0 then d1\<lparr>dmn_service := snd (on_ingress (SendEstimatedRembToPublisher env
      (pc_meetingId snapshot) (pc_userId snapshot) r) (dmn_service d1))\<rparr> else d1)"
  define q where "q = \<lparr> qr_meeting_id = pc_meetingId snapshot, qr_user_id = pc_userId snapshot,
      qr_packet_loss = pc_packetLoss snapshot, qr_rtt_ms = pc_rttMs snapshot, qr_jitter_ms = pc_jitterMs snapshot,
      qr_bitrate_kbps = r \<rparr>"
  define b' where "b' = (if map_of b ?key = None then AList.update ?key \<lparr> qb_packetCount = pc_packetCount snapshot,
      qb_byteCount = pc_byteCount snapshot, qb_observedAt = now \<rparr> b else b)"
  let ?d3 = "snd (sendQualityReportFrame env pb net q d2)"
  have run: "report_snapshot env pb net now snapshot (b, anySent, d) =
      Some (b', fst (sendQualityReportFrame env pb net q d2) \<or> anySent, ?d3)"
    unfolding report_snapshot_def Let_def prod.case r bind.bind_lunit
    by (simp add: d1_def d2_def q_def b'_def case_prod_beta)
  have d2: "dmn_qualityEstimators d2 = dmn_qualityEstimators d1" "dmn_reported d2 = dmn_reported d"
    "dmn_config d2 = dmn_config d"
    by (simp_all add: d2_def d1_def)
  have "(ingress_step env)\<^sup>*\<^sup>* (dmn_ingress d) (dmn_ingress d2)"
    by (simp add: d2_def d1_def on_ingress_snd r_into_rtranclp ingress_step.estimate)
  moreover have "reporter_inv ?d3"
  proof (rule reporter_inv_cong [OF reporter_inv_update [OF inv e]])
    show "dmn_qualityEstimators ?d3 = dmn_qualityEstimators (d\<lparr>dmn_qualityEstimators :=
      AList.update ?key (?e\<lparr>be_recommendedBitrateKbps := r\<rparr>) (dmn_qualityEstimators d)\<rparr>)"
      by (simp add: d2(1)) (simp add: d1_def)
    show "\<forall>x \<in> set (dmn_reported ?d3). report_ok x"
      using sendQualityReportFrame_keeps(5) [of env pb net q d2] inv b
      by (auto simp: d2 reporter_inv_def report_ok_def q_def)
  qed
  moreover have "dom (map_of b') = insert ?key (dom (map_of b))"
    by (auto simp: b'_def AList.update_conv' split: if_splits)
  ultimately have "reported_to env {?key} b d b' ?d3"
    by (simp add: reported_to_def d2) (simp add: d1_def AList.update_conv')
  with run show ?thesis by (rule that)
qed

lemma report_snapshots_ok:
  assumes "reporter_inv d"
  shows "\<exists>b' sent d'. report_snapshots env pb net now snapshots (b, anySent, d) = Some (b', sent, d') \<and>
    reported_to env (report_key ` set snapshots) b d b' d'"
  using assms
proof (induction snapshots arbitrary: b anySent d)
  case Nil
  then show ?case by (simp add: reported_to_def)
next
  case (Cons snapshot rest)
  obtain b1 sent1 d1 where 1: "report_snapshot env pb net now snapshot (b, anySent, d) = Some (b1, sent1, d1)"
    "reported_to env {report_key snapshot} b d b1 d1"
    using report_snapshot_ok [OF Cons.prems] by blast
  then obtain b2 sent2 d2 where 2: "report_snapshots env pb net now rest (b1, sent1, d1) = Some (b2, sent2, d2)"
    "reported_to env (report_key ` set rest) b1 d1 b2 d2"
    using Cons.IH [of d1 b1 sent1] by (auto simp: reported_to_def)
  have "reported_to env (report_key ` set (snapshot # rest)) b d b2 d2"
    using 1(2) 2(2) unfolding reported_to_def by (auto intro: rtranclp_trans)
  then show ?case using 1(1) 2(1) by auto
qed

lemma sendQualityReports_ok:
  assumes "reporter_inv d"
  shows "\<exists>anySent d'. sendQualityReports env pb net d = Some (anySent, d') \<and> reporter_inv d' \<and>
    (ingress_step env)\<^sup>*\<^sup>* (dmn_ingress d) (dmn_ingress d') \<and> dmn_config d' = dmn_config d \<and>
    (cfg_signalingReportAddress (dmn_config d) \<noteq> [] \<longrightarrow>
      dom (map_of (dmn_qualityBaselines d')) = report_key ` set (fst (SnapshotPublisherTraffic (dmn_ingress d))) \<and>
      dom (map_of (dmn_qualityEstimators d')) = dom (map_of (dmn_qualityBaselines d')))"
proof (cases "cfg_signalingReportAddress (dmn_config d) = []")
  case True
  then have "sendQualityReports env pb net d = Some (False, d)" by (simp add: sendQualityReports_def)
  then show ?thesis using assms True by blast
next
  case False
  let ?s1 = "snd (on_ingress SnapshotPublisherTraffic (dmn_service d))"
  let ?s2 = "snd (on_ingress (steady_now env) ?s1)"
  let ?now = "fst (on_ingress (steady_now env) ?s1)"
  let ?snaps = "fst (SnapshotPublisherTraffic (dmn_ingress d))"
  let ?d0 = "d\<lparr>dmn_service := ?s2\<rparr>"
  have fst: "fst (on_ingress SnapshotPublisherTraffic (dmn_service d)) = ?snaps"
    by (simp add: on_ingress_def case_prod_beta Let_def)
  have steps0: "(ingress_step env)\<^sup>*\<^sup>* (dmn_ingress d) (dmn_ingress ?d0)"
  proof (rule converse_rtranclp_into_rtranclp)
    show "ingress_step env (dmn_ingress d) (svc_mediaIngress ?s1)"
      unfolding on_ingress_snd by (rule ingress_step.snapshot)
    show "(ingress_step env)\<^sup>*\<^sup>* (svc_mediaIngress ?s1) (dmn_ingress ?d0)"
      by (simp add: on_ingress_snd [of "steady_now env"] r_into_rtranclp ingress_step.clock)
  qed
  have inv0: "reporter_inv ?d0" using assms by (simp add: reporter_inv_def)
  obtain b sent d1 where run: "report_snapshots env pb net ?now ?snaps ([], False, ?d0) = Some (b, sent, d1)"
    and to: "reported_to env (report_key ` set ?snaps) [] ?d0 b d1"
    using report_snapshots_ok [OF inv0] by blast
  let ?est = "um_erase_if (\<lambda>key e. map_of b key = None) (dmn_qualityEstimators d1)"
  let ?d' = "d1\<lparr>dmn_qualityEstimators := ?est, dmn_qualityBaselines := b\<rparr>"
  have ok1: "um_ok (dmn_qualityEstimators d1)" "reporter_inv d1" using to by (auto simp: reported_to_def reporter_inv_def)
  have est: "map_of ?est key = (case map_of (dmn_qualityEstimators d1) key of None \<Rightarrow> None
      | Some e \<Rightarrow> if map_of b key = None then None else Some e)" for key
    using ok1(1) by (simp add: table_simps)
  have "sendQualityReports env pb net d = Some (sent, ?d')"
    using False run unfolding sendQualityReports_def by (simp add: case_prod_beta fst Let_def)
  moreover have "reporter_inv ?d'"
    using ok1 by (auto simp: reporter_inv_def est split: option.splits if_splits)
  moreover have "(ingress_step env)\<^sup>*\<^sup>* (dmn_ingress d) (dmn_ingress ?d')"
    using rtranclp_trans [OF steps0] to by (simp add: reported_to_def)
  moreover have "dmn_config ?d' = dmn_config d" "dom (map_of b) = report_key ` set ?snaps"
    using to by (simp_all add: reported_to_def)
  moreover have "dom (map_of ?est) = dom (map_of b) \<inter> dom (map_of (dmn_qualityEstimators d1))"
    by (auto simp: est dom_def split: option.splits if_splits)
  moreover have "dom (map_of b) \<subseteq> dom (map_of (dmn_qualityEstimators d1))" using to by (simp add: reported_to_def)
  ultimately show ?thesis by (auto simp: Int_absorb2)
qed

section \<open>Runs of the daemon\<close>

text \<open>
  The threads of the process: the accept thread serves a connection, the receive thread handles a
  datagram, the reporter makes a round; the main thread starts and stops the daemon. Each is one
  step, in any order.
\<close>

inductive daemon_step ::
  "('ssl, 's) media_env \<Rightarrow> protobuf \<Rightarrow> net \<Rightarrow> ('ssl, 's) SfuDaemon \<Rightarrow> ('ssl, 's) SfuDaemon \<Rightarrow> bool"
  for env pb net where
  start: "daemon_step env pb net d (snd (SfuDaemon_Start bound d))"
| stop: "daemon_step env pb net d (SfuDaemon_Stop d)"
| connection: "serve_connection env pb incoming accepted (dmn_service d) = Some (out, s') \<Longrightarrow>
    daemon_step env pb net d (d\<lparr>dmn_service := s'\<rparr>)"
| datagram: "daemon_step env pb net d
    (d\<lparr>dmn_service := snd (on_ingress (HandlePacket env data from) (dmn_service d))\<rparr>)"
| report: "reporter_round env pb net d = Some d' \<Longrightarrow> daemon_step env pb net d d'"

definition daemon_reachable ::
  "('ssl, 's) media_env \<Rightarrow> protobuf \<Rightarrow> net \<Rightarrow> ('ssl, 's) SfuDaemon \<Rightarrow> bool" where
  "daemon_reachable env pb net d \<longleftrightarrow>
     (\<exists>config started port. (daemon_step env pb net)\<^sup>*\<^sup>* (SfuDaemon_new config started port) d)"

lemma SfuDaemon_Start_keeps:
  "dmn_ingress (snd (SfuDaemon_Start bound d)) = dmn_ingress d"
  "dmn_qualityEstimators (snd (SfuDaemon_Start bound d)) = dmn_qualityEstimators d"
  "dmn_reported (snd (SfuDaemon_Start bound d)) = dmn_reported d"
  by (auto simp: SfuDaemon_Start_def RpcServer_Start_def Let_def SetAdvertisedAddress_def case_prod_beta split: option.splits)

lemma serve_connection_steps:
  assumes "serve_connection env pb incoming accepted s = Some (out, s')"
  shows "(ingress_step env)\<^sup>*\<^sup>* (svc_mediaIngress s) (svc_mediaIngress s')"
proof -
  have "s' = s \<or> (\<exists>m p r. Dispatch env pb m p s = Some (r, s'))"
    using assms by (auto simp: serve_connection_def Let_def split: bind_splits if_splits option.splits)
  then have "s' = s \<or> ingress_step_eq env s s'" using Dispatch_steps by blast
  then show ?thesis by (auto simp: ingress_step_eq_def)
qed

lemma reporter_round_ok:
  assumes "reporter_inv d" "reporter_round env pb net d = Some d'"
  shows "reporter_inv d' \<and> (ingress_step env)\<^sup>*\<^sup>* (dmn_ingress d) (dmn_ingress d')"
proof -
  let ?d = "snd (sendNodeStatusReport env pb net d)"
  have "reporter_inv ?d" using assms(1) by (simp add: reporter_inv_def)
  then show ?thesis
    using sendQualityReports_ok [of ?d env pb net] assms(2) by (auto simp: reporter_round_def)
qed

lemma daemon_step_ok:
  assumes "daemon_step env pb net d d'" "reporter_inv d"
  shows "reporter_inv d' \<and> (ingress_step env)\<^sup>*\<^sup>* (dmn_ingress d) (dmn_ingress d')"
  using assms
proof (induction rule: daemon_step.induct)
  case (start d bound)
  then show ?case by (simp add: SfuDaemon_Start_keeps reporter_inv_def)
next
  case (stop d)
  then show ?case by (simp add: SfuDaemon_Stop_def reporter_inv_def)
next
  case (connection incoming accepted d out s')
  then show ?case using serve_connection_steps by (fastforce simp: reporter_inv_def)
next
  case (datagram d data "from")
  then show ?case by (simp add: reporter_inv_def on_ingress_snd r_into_rtranclp ingress_step.datagram)
next
  case (report d d')
  then show ?case by (simp add: reporter_round_ok)
qed

lemma SfuDaemon_new_ok:
  "reporter_inv (SfuDaemon_new config started port)"
  "dmn_ingress (SfuDaemon_new config started port) = MediaIngress_new RoomManager_new started port 500"
  by (simp_all add: SfuDaemon_new_def RpcService_new_def reporter_inv_def)

text \<open>The daemon keeps the invariant of its reporter and implements the media ingress.\<close>

interpretation process: simulation "\<lambda>d. \<exists>config started port. d = SfuDaemon_new config started port"
  "daemon_step env pb net" reporter_inv "\<lambda>d. dmn_ingress d"
  "\<lambda>m. \<exists>started port cap. m = MediaIngress_new RoomManager_new started port cap" "ingress_step env"
  for env pb net
proof (unfold_locales, goal_cases)
  case (1 d)
  then show ?case using SfuDaemon_new_ok(1) by blast
next
  case (2 d d')
  then show ?case using daemon_step_ok by blast
next
  case (3 d)
  then obtain config started port where "d = SfuDaemon_new config started port" by blast
  then have "dmn_ingress d = MediaIngress_new RoomManager_new started port 500" using SfuDaemon_new_ok(2) by simp
  then show ?case by blast
next
  case (4 d d')
  then show ?case using daemon_step_ok by blast
qed

lemma daemon_reachable_ok:
  assumes "daemon_reachable env pb net d"
  shows "reporter_inv d" "ingress_reachable env (dmn_ingress d)"
proof -
  obtain d0 where d0: "\<exists>config started port. d0 = SfuDaemon_new config started port" "(daemon_step env pb net)\<^sup>*\<^sup>* d0 d"
    using assms unfolding daemon_reachable_def by blast
  show "reporter_inv d" by (rule process.reachable_inv [OF d0])
  show "ingress_reachable env (dmn_ingress d)"
    using process.reachable_simulated [OF d0] unfolding ingress_reachable_def by blast
qed

lemma reporter_sleep_bounds:
  assumes "waited \<le> totalSleep + 99"
  shows "reporter_sleep running totalSleep waited \<le> totalSleep + 99" "waited \<le> reporter_sleep running totalSleep waited"
proof -
  have "reporter_sleep running totalSleep waited \<le> totalSleep + 99 \<and> waited \<le> reporter_sleep running totalSleep waited"
    using assms
  proof (induction running totalSleep waited rule: reporter_sleep.induct)
    case (1 running totalSleep waited)
    show ?case
    proof (cases "running waited \<and> waited < totalSleep")
      case True
      then show ?thesis using 1 by (simp add: reporter_sleep.simps [of running totalSleep waited])
    next
      case False
      then have "reporter_sleep running totalSleep waited = waited" by (subst reporter_sleep.simps) auto
      then show ?thesis using 1 by simp
    qed
  qed
  then show "reporter_sleep running totalSleep waited \<le> totalSleep + 99" "waited \<le> reporter_sleep running totalSleep waited"
    by simp_all
qed

text \<open>
  C22. Every report of a publisher's quality the daemon ever sends recommends between 150 and
  2500 kbit/s. In every state the daemon can reach, a round of the reporter is defined (no
  arithmetic of an estimator overflows), and when a signaling server is configured the estimators
  and baselines afterwards are exactly those of the publishers of the traffic snapshot: nothing is
  kept for a publisher that left.
\<close>

theorem quality_reports_bounded:
  assumes "daemon_reachable env pb net d"
  shows "\<exists>anySent d'. sendQualityReports env pb net d = Some (anySent, d') \<and>
    (\<forall>r \<in> set (dmn_reported d'). 150 \<le> qr_bitrate_kbps r \<and> qr_bitrate_kbps r \<le> 2500) \<and>
    (cfg_signalingReportAddress (dmn_config d) \<noteq> [] \<longrightarrow>
      dom (map_of (dmn_qualityBaselines d')) =
        (\<lambda>s. QualityReportKey (pc_meetingId s) (pc_userId s)) ` set (fst (SnapshotPublisherTraffic (dmn_ingress d))) \<and>
      dom (map_of (dmn_qualityEstimators d')) = dom (map_of (dmn_qualityBaselines d')))"
proof -
  obtain anySent d' where run: "sendQualityReports env pb net d = Some (anySent, d')"
    and inv: "\<forall>r \<in> set (dmn_reported d'). report_ok r"
    and keys: "cfg_signalingReportAddress (dmn_config d) \<noteq> [] \<longrightarrow>
      dom (map_of (dmn_qualityBaselines d')) = report_key ` set (fst (SnapshotPublisherTraffic (dmn_ingress d))) \<and>
      dom (map_of (dmn_qualityEstimators d')) = dom (map_of (dmn_qualityBaselines d'))"
    using sendQualityReports_ok [OF daemon_reachable_ok(1) [OF assms], of env pb net] by (auto simp: reporter_inv_def)
  from inv have "\<forall>r \<in> set (dmn_reported d'). 150 \<le> qr_bitrate_kbps r \<and> qr_bitrate_kbps r \<le> 2500"
    by (simp add: report_ok_def)
  with run keys show ?thesis by (intro exI conjI)
qed

theorem quality_reports_bounded_witness:
  "\<exists>anySent d'. sendQualityReports demo_env demo_pb (\<lambda>_ _. None)
     (SfuDaemon_new (SfuDaemonConfig_default\<lparr>cfg_signalingReportAddress := ''10.0.0.1:7''\<rparr>) True 4) = Some (anySent, d') \<and>
   dom (map_of (dmn_qualityBaselines d')) = {}"
proof -
  let ?d = "SfuDaemon_new (SfuDaemonConfig_default\<lparr>cfg_signalingReportAddress := ''10.0.0.1:7''\<rparr>) True 4 ::
    (nat, unit) SfuDaemon"
  have "daemon_reachable demo_env demo_pb (\<lambda>_ _. None) ?d" unfolding daemon_reachable_def by blast
  moreover have "fst (SnapshotPublisherTraffic (dmn_ingress ?d)) = []" "cfg_signalingReportAddress (dmn_config ?d) \<noteq> []"
    by (simp_all add: SfuDaemon_new_def RpcService_new_def MediaIngress_new_def SnapshotPublisherTraffic_def um_erase_if_def)
  ultimately show ?thesis using quality_reports_bounded [of demo_env demo_pb "\<lambda>_ _. None" ?d] by auto
qed

end
