(* ===== verification/Signaling.thy ===== *)
theory Signaling
  imports Prelude
begin

text \<open>
  The client's end of the signaling connection (\<open>plasma-hawking/src/net/signaling\<close>): the frame
  format (\<open>SignalProtocol.cpp\<close>), the client itself (\<open>SignalingClient.cpp\<close>) and the back-off
  between attempts to reconnect (\<open>Reconnector.cpp\<close>).

  Text is kept as its UTF-8 bytes. The generated message code is a parameter, \<open>signal_pb\<close>: one
  function per message, \<open>None\<close> where serialising or parsing fails. The socket is a parameter too:
  its answers to \<open>write\<close>, \<open>flush\<close> and \<open>errorString\<close> are \<open>tcp\<close>, its state is a field that the
  events of the network set, and what the client asks of it is recorded in \<open>sc_calls\<close>. The signals
  the client emits are recorded in \<open>sc_signals\<close>, in order. Diagnostic output is left out.
\<close>

section \<open>Frames\<close>

definition kVersion :: u8 where "kVersion = 0x01"
definition kMagicHigh :: u8 where "kMagicHigh = 0xAB"
definition kMagicLow :: u8 where "kMagicLow = 0xCD"
definition kSignalHeaderSize :: nat where "kSignalHeaderSize = 9"

record FrameHeader =
  fh_type :: u16
  fh_length :: u32

definition encodeFrame :: "u16 \<Rightarrow> bytes \<Rightarrow> bytes" where
  "encodeFrame ty payload =
     [kMagicHigh, kMagicLow, kVersion] @ AppendU16 ty @ AppendU32 (of_nat (length payload)) @ payload"

text \<open>The reads of \<open>decodeHeader\<close> are within the vector, whose size it checks first.\<close>

definition decodeHeader :: "bytes \<Rightarrow> u32 \<Rightarrow> FrameHeader option" where
  "decodeHeader bs maxPayloadLen =
     (if length bs \<noteq> kSignalHeaderSize then None
      else if bs ! 0 \<noteq> kMagicHigh \<or> bs ! 1 \<noteq> kMagicLow \<or> bs ! 2 \<noteq> kVersion then None
      else
        let ty = be16 (bs ! 3) (bs ! 4);
            len = be32 (bs ! 5) (bs ! 6) (bs ! 7) (bs ! 8)
        in if len > maxPayloadLen then None else Some \<lparr> fh_type = ty, fh_length = len \<rparr>)"

section \<open>Messages\<close>

record ErrorInfo =
  err_code :: int
  err_message :: string

record AuthLoginReq =
  alr_username :: string
  alr_password_hash :: string
  alr_device_id :: string
  alr_platform :: string
  alr_resume_token :: string

record AuthLoginRsp =
  lrsp_success :: bool
  lrsp_error :: "ErrorInfo option"
  lrsp_token :: string
  lrsp_user_id :: string
  lrsp_display_name :: string
  lrsp_avatar_url :: string

record MeetCreateReq =
  mcr_title :: string
  mcr_password :: string
  mcr_max_participants :: int

record MeetCreateRsp =
  mcrsp_success :: bool
  mcrsp_error :: "ErrorInfo option"
  mcrsp_meeting_id :: string

record IceServer =
  ics_urls :: string
  ics_username :: string
  ics_credential :: string

record Participant =
  prt_user_id :: string
  prt_display_name :: string
  prt_avatar_url :: string
  prt_role :: int
  prt_is_audio_on :: bool
  prt_is_video_on :: bool
  prt_is_sharing :: bool
  prt_audio_ssrc :: u32
  prt_video_ssrc :: u32

record MeetJoinRsp =
  mjr_success :: bool
  mjr_error :: "ErrorInfo option"
  mjr_meeting_id :: string
  mjr_title :: string
  mjr_sfu_address :: string
  mjr_ice_servers :: "IceServer list"
  mjr_participants :: "Participant list"

record MediaOffer =
  mof_meeting_id :: string
  mof_publish_audio :: bool
  mof_publish_video :: bool
  mof_client_ice_ufrag :: string
  mof_client_ice_pwd :: string
  mof_client_dtls_fingerprint :: string
  mof_client_candidates :: "string list"

record MediaAnswer =
  man_meeting_id :: string
  man_server_ice_ufrag :: string
  man_server_ice_pwd :: string
  man_server_dtls_fingerprint :: string
  man_server_candidates :: "string list"
  man_assigned_audio_ssrc :: u32
  man_assigned_video_ssrc :: u32

record MediaIceCandidate =
  mic_meeting_id :: string
  mic_candidate :: string
  mic_sdp_mid :: string
  mic_sdp_mline_index :: int
  mic_end_of_candidates :: bool

record ChatSendReq =
  csr_type :: int
  csr_content :: string
  csr_reply_to_id :: string

record ChatSendRsp =
  crsp_success :: bool
  crsp_error :: "ErrorInfo option"
  crsp_message_id :: string
  crsp_timestamp :: int

record ChatRecvNotify =
  crn_message_id :: string
  crn_sender_id :: string
  crn_sender_name :: string
  crn_type :: int
  crn_content :: string
  crn_reply_to_id :: string
  crn_timestamp :: int

record ChatHistoryReq =
  chr_meeting_id :: string
  chr_limit :: int
  chr_before_timestamp :: int

record ChatHistoryRsp =
  chrsp_success :: bool
  chrsp_error :: "ErrorInfo option"
  chrsp_messages :: "ChatRecvNotify list"

record signal_pb =
  sp_AuthLoginReq :: "AuthLoginReq \<Rightarrow> bytes option"
  sp_AuthHeartbeatReq :: "int \<Rightarrow> bytes option"
  sp_MeetCreateReq :: "MeetCreateReq \<Rightarrow> bytes option"
  sp_MeetJoinReq :: "string \<Rightarrow> string \<Rightarrow> bytes option"
  sp_MeetLeaveReq :: "bytes option"
  sp_ChatSendReq :: "ChatSendReq \<Rightarrow> bytes option"
  sp_ChatHistoryReq :: "ChatHistoryReq \<Rightarrow> bytes option"
  sp_MediaOffer :: "MediaOffer \<Rightarrow> bytes option"
  sp_MediaIceCandidate :: "MediaIceCandidate \<Rightarrow> bytes option"
  sp_MediaMuteToggle :: "int \<Rightarrow> bool \<Rightarrow> bytes option"
  sp_MediaScreenShare :: "bool \<Rightarrow> bytes option"
  sp_AuthLoginRsp :: "bytes \<Rightarrow> AuthLoginRsp option"
  sp_AuthHeartbeatRsp :: "bytes \<Rightarrow> int option"
  sp_AuthKickNotify :: "bytes \<Rightarrow> string option"
  sp_MeetCreateRsp :: "bytes \<Rightarrow> MeetCreateRsp option"
  sp_MeetJoinRsp :: "bytes \<Rightarrow> MeetJoinRsp option"
  sp_MeetLeaveRsp :: "bytes \<Rightarrow> bool option"
  sp_MediaAnswer :: "bytes \<Rightarrow> MediaAnswer option"
  sp_ChatSendRsp :: "bytes \<Rightarrow> ChatSendRsp option"
  sp_ChatRecvNotify :: "bytes \<Rightarrow> ChatRecvNotify option"
  sp_ChatHistoryRsp :: "bytes \<Rightarrow> ChatHistoryRsp option"
  sp_number :: "int \<Rightarrow> string"

section \<open>The client\<close>

datatype SocketState = UnconnectedState | ConnectedState | OtherState

datatype socket_call = SockAbort | SockConnect string u16 | SockDisconnect | SockWrite bytes

datatype signal =
    ConnectedChanged bool
  | ProtocolError string
  | LoginFinished bool string string string
  | HeartbeatReceived int
  | CreateMeetingFinished bool string string
  | JoinMeetingFinished bool string string string "string list" "string list" string string
  | LeaveMeetingFinished bool string
  | Kicked string
  | ChatSendFinished bool string int string
  | ChatReceived ChatRecvNotify
  | ChatHistoryReceived ChatRecvNotify
  | ChatHistoryFinished bool int string
  | MediaTransportAnswerReceived MediaAnswer
  | ProtobufMessageReceived u16 bytes

record SignalingClient =
  sc_state :: SocketState
  sc_readBuffer :: bytes
  sc_maxPayloadBytes :: u32
  sc_host :: string
  sc_port :: u16
  sc_calls :: "socket_call list"
  sc_signals :: "signal list"

record tcp =
  tcp_write :: "bytes \<Rightarrow> int"
  tcp_flush :: bool
  tcp_errorString :: string

definition SignalingClient_new :: SignalingClient where
  "SignalingClient_new = \<lparr> sc_state = UnconnectedState, sc_readBuffer = [], sc_maxPayloadBytes = 4 * 1024 * 1024,
     sc_host = [], sc_port = 0, sc_calls = [], sc_signals = [] \<rparr>"

definition sig_emit :: "signal \<Rightarrow> SignalingClient \<Rightarrow> SignalingClient" where
  "sig_emit s c = c\<lparr>sc_signals := sc_signals c @ [s]\<rparr>"

definition sock_call :: "socket_call \<Rightarrow> SignalingClient \<Rightarrow> SignalingClient" where
  "sock_call s c = c\<lparr>sc_calls := sc_calls c @ [s]\<rparr>"

definition isConnected :: "SignalingClient \<Rightarrow> bool" where
  "isConnected c \<longleftrightarrow> sc_state c = ConnectedState"

definition connectToServer :: "string \<Rightarrow> u16 \<Rightarrow> SignalingClient \<Rightarrow> SignalingClient" where
  "connectToServer host port c =
     (let c1 = c\<lparr>sc_host := host, sc_port := port\<rparr>;
          c2 = (if sc_state c1 \<noteq> UnconnectedState then sock_call SockAbort c1 else c1)
      in sock_call (SockConnect host port) c2)"

definition sig_reconnect :: "SignalingClient \<Rightarrow> SignalingClient" where
  "sig_reconnect c =
     (if sc_host c = [] \<or> sc_port c = 0 then sig_emit (ProtocolError ''No known server endpoint for reconnect'') c
      else connectToServer (sc_host c) (sc_port c) c)"

definition disconnectFromServer :: "SignalingClient \<Rightarrow> SignalingClient" where
  "disconnectFromServer c = sock_call SockDisconnect c"

definition sendRawFrame :: "tcp \<Rightarrow> u16 \<Rightarrow> bytes \<Rightarrow> SignalingClient \<Rightarrow> SignalingClient" where
  "sendRawFrame net signalType payload c =
     (if \<not> isConnected c then sig_emit (ProtocolError ''Socket is not connected'') c
      else
        let frame = encodeFrame signalType payload; c1 = sock_call (SockWrite frame) c
        in if tcp_write net frame < 0 then sig_emit (ProtocolError (tcp_errorString net)) c1
           else if \<not> tcp_flush net then sig_emit (ProtocolError ''Failed to flush signaling frame'') c1
           else c1)"

text \<open>The common end of the requests: a message that cannot be serialised is reported by its name.\<close>

definition send_message :: "tcp \<Rightarrow> u16 \<Rightarrow> string \<Rightarrow> bytes option \<Rightarrow> SignalingClient \<Rightarrow> SignalingClient" where
  "send_message net signalType name payload c =
     (case payload of
        None \<Rightarrow> sig_emit (ProtocolError (''Failed to serialize '' @ name)) c
      | Some p \<Rightarrow> sendRawFrame net signalType p c)"

definition sig_login ::
  "signal_pb \<Rightarrow> tcp \<Rightarrow> string \<Rightarrow> string \<Rightarrow> string \<Rightarrow> string \<Rightarrow> bool \<Rightarrow> SignalingClient \<Rightarrow> SignalingClient" where
  "sig_login pb net username passwordHash deviceId platform useResumeToken c =
     send_message net 0x0101 ''AuthLoginReq'' (sp_AuthLoginReq pb \<lparr> alr_username = username,
       alr_password_hash = (if useResumeToken then [] else passwordHash), alr_device_id = deviceId,
       alr_platform = platform, alr_resume_token = (if useResumeToken then passwordHash else []) \<rparr>) c"

definition sendHeartbeat :: "signal_pb \<Rightarrow> tcp \<Rightarrow> int \<Rightarrow> int \<Rightarrow> SignalingClient \<Rightarrow> SignalingClient" where
  "sendHeartbeat pb net nowMs clientTimestampMs c =
     (if \<not> isConnected c then c
      else
        let timestamp = (if clientTimestampMs \<le> 0 then nowMs else clientTimestampMs)
        in send_message net 0x0105 ''AuthHeartbeatReq'' (sp_AuthHeartbeatReq pb timestamp) c)"

definition createMeeting :: "signal_pb \<Rightarrow> tcp \<Rightarrow> string \<Rightarrow> string \<Rightarrow> int \<Rightarrow> SignalingClient \<Rightarrow> SignalingClient" where
  "createMeeting pb net title password maxParticipants c =
     send_message net 0x0201 ''MeetCreateReq''
       (sp_MeetCreateReq pb \<lparr> mcr_title = title, mcr_password = password, mcr_max_participants = maxParticipants \<rparr>) c"

definition joinMeeting :: "signal_pb \<Rightarrow> tcp \<Rightarrow> string \<Rightarrow> string \<Rightarrow> SignalingClient \<Rightarrow> SignalingClient" where
  "joinMeeting pb net meetingId password c =
     send_message net 0x0203 ''MeetJoinReq'' (sp_MeetJoinReq pb meetingId password) c"

definition leaveMeeting :: "signal_pb \<Rightarrow> tcp \<Rightarrow> SignalingClient \<Rightarrow> SignalingClient" where
  "leaveMeeting pb net c = send_message net 0x0205 ''MeetLeaveReq'' (sp_MeetLeaveReq pb) c"

definition sendChat :: "signal_pb \<Rightarrow> tcp \<Rightarrow> int \<Rightarrow> string \<Rightarrow> string \<Rightarrow> SignalingClient \<Rightarrow> SignalingClient" where
  "sendChat pb net ty content replyToId c =
     send_message net 0x0401 ''ChatSendReq''
       (sp_ChatSendReq pb \<lparr> csr_type = ty, csr_content = content, csr_reply_to_id = replyToId \<rparr>) c"

definition requestChatHistory :: "signal_pb \<Rightarrow> tcp \<Rightarrow> string \<Rightarrow> int \<Rightarrow> int \<Rightarrow> SignalingClient \<Rightarrow> SignalingClient" where
  "requestChatHistory pb net meetingId limit beforeTimestamp c =
     send_message net 0x0404 ''ChatHistoryReq''
       (sp_ChatHistoryReq pb \<lparr> chr_meeting_id = meetingId, chr_limit = (if limit \<le> 0 then 50 else limit),
          chr_before_timestamp = (if beforeTimestamp > 0 then beforeTimestamp else 0) \<rparr>) c"

definition sendTransportOffer :: "signal_pb \<Rightarrow> tcp \<Rightarrow> MediaOffer \<Rightarrow> SignalingClient \<Rightarrow> SignalingClient" where
  "sendTransportOffer pb net offer c = send_message net 0x0301 ''MediaOffer'' (sp_MediaOffer pb offer) c"

definition sendTransportIceCandidate :: "signal_pb \<Rightarrow> tcp \<Rightarrow> MediaIceCandidate \<Rightarrow> SignalingClient \<Rightarrow> SignalingClient" where
  "sendTransportIceCandidate pb net candidate c =
     send_message net 0x0303 ''MediaIceCandidate'' (sp_MediaIceCandidate pb candidate) c"

definition sendMediaMuteToggle :: "signal_pb \<Rightarrow> tcp \<Rightarrow> int \<Rightarrow> bool \<Rightarrow> SignalingClient \<Rightarrow> SignalingClient" where
  "sendMediaMuteToggle pb net mediaType muted c =
     send_message net 0x0304 ''MediaMuteToggle'' (sp_MediaMuteToggle pb mediaType muted) c"

definition sendMediaScreenShare :: "signal_pb \<Rightarrow> tcp \<Rightarrow> bool \<Rightarrow> SignalingClient \<Rightarrow> SignalingClient" where
  "sendMediaScreenShare pb net sharing c =
     send_message net 0x0305 ''MediaScreenShare'' (sp_MediaScreenShare pb sharing) c"

definition protobufError :: "signal_pb \<Rightarrow> ErrorInfo \<Rightarrow> string" where
  "protobufError pb err =
     (if err_message err = [] then ''code='' @ sp_number pb (err_code err)
      else err_message err @ '' (code='' @ sp_number pb (err_code err) @ '')'')"

definition error_text :: "signal_pb \<Rightarrow> ErrorInfo option \<Rightarrow> string" where
  "error_text pb e = (case e of None \<Rightarrow> [] | Some err \<Rightarrow> protobufError pb err)"

text \<open>The last participant with role 1 is the host.\<close>

definition host_of :: "Participant list \<Rightarrow> string" where
  "host_of ps = foldl (\<lambda>host p. if prt_role p = 1 then prt_user_id p else host) [] ps"

definition joined_signal :: "signal_pb \<Rightarrow> MeetJoinRsp \<Rightarrow> signal" where
  "joined_signal pb rsp =
     JoinMeetingFinished (mjr_success rsp) (mjr_meeting_id rsp) (mjr_title rsp) (mjr_sfu_address rsp)
       (map (\<lambda>s. ics_urls s @ ''|'' @ ics_username s @ ''|'' @ ics_credential s) (mjr_ice_servers rsp))
       (map (\<lambda>p. prt_display_name p @ '' ('' @ prt_user_id p @ '')'') (mjr_participants rsp))
       (host_of (mjr_participants rsp)) (error_text pb (mjr_error rsp))"

definition history_signals :: "signal_pb \<Rightarrow> ChatHistoryRsp \<Rightarrow> signal list" where
  "history_signals pb rsp =
     (if \<not> chrsp_success rsp then
        let err = (case chrsp_error rsp of None \<Rightarrow> ''Load chat history failed'' | Some e \<Rightarrow> protobufError pb e)
        in [ChatHistoryFinished False 0 err, ProtocolError err]
      else map ChatHistoryReceived (chrsp_messages rsp) @ [ChatHistoryFinished True (int (length (chrsp_messages rsp))) []])"

text \<open>A message that does not parse is reported by its name.\<close>

definition parsed_signals :: "string \<Rightarrow> 'a option \<Rightarrow> ('a \<Rightarrow> signal list) \<Rightarrow> signal list" where
  "parsed_signals name m f = (case m of None \<Rightarrow> [ProtocolError (''Failed to parse '' @ name)] | Some x \<Rightarrow> f x)"

definition handlePayload :: "signal_pb \<Rightarrow> u16 \<Rightarrow> bytes \<Rightarrow> signal list" where
  "handlePayload pb signalType payload =
     (if signalType = 0x0102 then parsed_signals ''AuthLoginRsp'' (sp_AuthLoginRsp pb payload)
        (\<lambda>rsp. [LoginFinished (lrsp_success rsp) (lrsp_user_id rsp) (lrsp_token rsp) (error_text pb (lrsp_error rsp))])
      else if signalType = 0x0106 then parsed_signals ''AuthHeartbeatRsp'' (sp_AuthHeartbeatRsp pb payload)
        (\<lambda>t. [HeartbeatReceived t])
      else if signalType = 0x0107 then parsed_signals ''AuthKickNotify'' (sp_AuthKickNotify pb payload)
        (\<lambda>reason. [Kicked reason])
      else if signalType = 0x0202 then parsed_signals ''MeetCreateRsp'' (sp_MeetCreateRsp pb payload)
        (\<lambda>rsp. [CreateMeetingFinished (mcrsp_success rsp) (mcrsp_meeting_id rsp) (error_text pb (mcrsp_error rsp))])
      else if signalType = 0x0204 then parsed_signals ''MeetJoinRsp'' (sp_MeetJoinRsp pb payload)
        (\<lambda>rsp. [joined_signal pb rsp])
      else if signalType = 0x0206 then parsed_signals ''MeetLeaveRsp'' (sp_MeetLeaveRsp pb payload)
        (\<lambda>success. [LeaveMeetingFinished success (if success then [] else ''Leave meeting failed'')])
      else if signalType = 0x0301 then [ProtobufMessageReceived signalType payload]
      else if signalType = 0x0302 then parsed_signals ''MediaAnswer'' (sp_MediaAnswer pb payload)
        (\<lambda>answer. if man_meeting_id answer = [] then [ProtobufMessageReceived signalType payload]
                  else [MediaTransportAnswerReceived answer])
      else if signalType = 0x0402 then parsed_signals ''ChatSendRsp'' (sp_ChatSendRsp pb payload)
        (\<lambda>rsp. [ChatSendFinished (crsp_success rsp) (crsp_message_id rsp) (crsp_timestamp rsp) (error_text pb (crsp_error rsp))])
      else if signalType = 0x0403 then parsed_signals ''ChatRecvNotify'' (sp_ChatRecvNotify pb payload)
        (\<lambda>notify. [ChatReceived notify])
      else if signalType = 0x0405 then parsed_signals ''ChatHistoryRsp'' (sp_ChatHistoryRsp pb payload) (history_signals pb)
      else [ProtobufMessageReceived signalType payload])"

function processIncomingFrames :: "signal_pb \<Rightarrow> SignalingClient \<Rightarrow> SignalingClient" where
  "processIncomingFrames pb c =
     (if length (sc_readBuffer c) < kSignalHeaderSize then c
      else case decodeHeader (take kSignalHeaderSize (sc_readBuffer c)) (sc_maxPayloadBytes c) of
        None \<Rightarrow>
          (sock_call SockDisconnect (sig_emit (ProtocolError ''Invalid signaling frame header'') c))\<lparr>sc_readBuffer := []\<rparr>
      | Some decoded \<Rightarrow>
          let frameSize = kSignalHeaderSize + unat (fh_length decoded) in
          if length (sc_readBuffer c) < frameSize then c
          else
            let payload = take (unat (fh_length decoded)) (drop kSignalHeaderSize (sc_readBuffer c));
                c1 = c\<lparr>sc_readBuffer := drop frameSize (sc_readBuffer c)\<rparr>
            in processIncomingFrames pb (c1\<lparr>sc_signals := sc_signals c1 @ handlePayload pb (fh_type decoded) payload\<rparr>))"
  by pat_completeness auto
termination
  by (relation "measure (\<lambda>(pb, c). length (sc_readBuffer c))") (auto simp: kSignalHeaderSize_def)

declare processIncomingFrames.simps [simp del]

text \<open>The handlers of the socket's events.\<close>

definition onSocketConnected :: "SignalingClient \<Rightarrow> SignalingClient" where
  "onSocketConnected c = sig_emit (ConnectedChanged True) (c\<lparr>sc_state := ConnectedState\<rparr>)"

definition onSocketDisconnected :: "SignalingClient \<Rightarrow> SignalingClient" where
  "onSocketDisconnected c = sig_emit (ConnectedChanged False) (c\<lparr>sc_state := UnconnectedState\<rparr>)"

definition onReadyRead :: "signal_pb \<Rightarrow> bytes \<Rightarrow> SignalingClient \<Rightarrow> SignalingClient" where
  "onReadyRead pb chunk c = processIncomingFrames pb (c\<lparr>sc_readBuffer := sc_readBuffer c @ chunk\<rparr>)"

definition onSocketError :: "bool \<Rightarrow> string \<Rightarrow> SignalingClient \<Rightarrow> SignalingClient" where
  "onSocketError remoteHostClosed errorString c =
     (let c1 = (if \<not> remoteHostClosed then sig_emit (ProtocolError errorString) c else c)
      in if sc_state c1 = UnconnectedState then sig_emit (ConnectedChanged False) c1 else c1)"

section \<open>Waiting before the next attempt\<close>

datatype reconnect_signal = ActiveChanged bool | ReconnectRequested

record Reconnector =
  rc_timerActive :: bool
  rc_delays :: "int list"
  rc_signals :: "reconnect_signal list"
  rc_initialDelayMs :: int
  rc_maxDelayMs :: int
  rc_nextDelayMs :: int

text \<open>\<open>rc_delays\<close> records the delays the timer was started with, \<open>rc_signals\<close> the signals emitted.\<close>

definition Reconnector_new :: Reconnector where
  "Reconnector_new = \<lparr> rc_timerActive = False, rc_delays = [], rc_signals = [],
     rc_initialDelayMs = 1000, rc_maxDelayMs = 30000, rc_nextDelayMs = 1000 \<rparr>"

definition rc_configure :: "int \<Rightarrow> int \<Rightarrow> Reconnector \<Rightarrow> Reconnector" where
  "rc_configure initialDelayMs maxDelayMs r =
     (let initial = max 100 initialDelayMs
      in r\<lparr>rc_initialDelayMs := initial, rc_maxDelayMs := max initial maxDelayMs, rc_nextDelayMs := initial\<rparr>)"

text \<open>The product is computed in \<open>int\<close>; \<open>None\<close> is its overflow.\<close>

definition rc_schedule :: "Reconnector \<Rightarrow> Reconnector mem" where
  "rc_schedule r =
     (if rc_timerActive r then Some r
      else if rc_nextDelayMs r * 2 > 2147483647 then None
      else Some (r\<lparr>rc_timerActive := True, rc_delays := rc_delays r @ [rc_nextDelayMs r],
             rc_signals := rc_signals r @ [ActiveChanged True],
             rc_nextDelayMs := min (rc_nextDelayMs r * 2) (rc_maxDelayMs r)\<rparr>))"

definition rc_stop :: "Reconnector \<Rightarrow> Reconnector" where
  "rc_stop r = (if rc_timerActive r
     then r\<lparr>rc_timerActive := False, rc_signals := rc_signals r @ [ActiveChanged False]\<rparr> else r)"

definition rc_reset :: "Reconnector \<Rightarrow> Reconnector" where
  "rc_reset r = (rc_stop r)\<lparr>rc_nextDelayMs := rc_initialDelayMs r\<rparr>"

definition rc_timeout :: "Reconnector \<Rightarrow> Reconnector" where
  "rc_timeout r = (if rc_timerActive r
     then r\<lparr>rc_timerActive := False, rc_signals := rc_signals r @ [ActiveChanged False, ReconnectRequested]\<rparr>
     else r)"


section \<open>A stream of frames, however it is cut\<close>

lemma length_encodeFrame [simp]: "length (encodeFrame ty payload) = kSignalHeaderSize + length payload"
  by (simp add: encodeFrame_def kSignalHeaderSize_def)

definition fits :: "u32 \<Rightarrow> u16 \<times> bytes \<Rightarrow> bool" where
  "fits maxLen f \<longleftrightarrow> length (snd f) \<le> unat maxLen"

definition wire :: "(u16 \<times> bytes) list \<Rightarrow> bytes" where
  "wire fs = concat (map (\<lambda>f. encodeFrame (fst f) (snd f)) fs)"

lemma wire_simps [simp]: "wire [] = []" "wire (f # fs) = encodeFrame (fst f) (snd f) @ wire fs"
  by (simp_all add: wire_def)

lemma header_decoded:
  assumes "fits maxLen (ty, payload)" and "take kSignalHeaderSize b = take kSignalHeaderSize (encodeFrame ty payload)"
  shows "\<exists>h. decodeHeader (take kSignalHeaderSize b) maxLen = Some h \<and> fh_type h = ty \<and> unat (fh_length h) = length payload"
proof -
  let ?n = "of_nat (length payload) :: u32"
  have n: "unat ?n = length payload"
    using assms(1) unsigned_less [of maxLen, where 'a = nat] by (simp add: fits_def unat_of_nat take_bit_nat_eq_self)
  have "?n \<le> maxLen" using assms(1) by (simp add: word_le_nat_alt n fits_def)
  moreover have "take kSignalHeaderSize (encodeFrame ty payload) =
      [kMagicHigh, kMagicLow, kVersion] @ AppendU16 ty @ AppendU32 ?n"
    by (simp add: encodeFrame_def kSignalHeaderSize_def)
  ultimately show ?thesis
    unfolding assms(2) by (simp add: decodeHeader_def kSignalHeaderSize_def AppendU16_def AppendU32_def Let_def n not_less)
qed

text \<open>What is left over when no complete frame is in the buffer: a part of a header, or a header that waits for its payload.\<close>

definition awaiting :: "u32 \<Rightarrow> bytes \<Rightarrow> bool" where
  "awaiting maxLen b \<longleftrightarrow> length b < kSignalHeaderSize \<or>
     (\<exists>h. decodeHeader (take kSignalHeaderSize b) maxLen = Some h \<and> length b < kSignalHeaderSize + unat (fh_length h))"

lemma awaiting_prefix:
  assumes "awaiting maxLen (y @ z)"
  shows "awaiting maxLen y"
proof (cases "length y < kSignalHeaderSize")
  case False
  then have "take kSignalHeaderSize (y @ z) = take kSignalHeaderSize y" by simp
  then show ?thesis using assms False by (auto simp: awaiting_def)
qed (simp add: awaiting_def)

lemma awaiting_part:
  assumes "fits maxLen (ty, payload)" and "y @ z = encodeFrame ty payload" and "z \<noteq> []"
  shows "awaiting maxLen y"
proof (cases "length y < kSignalHeaderSize")
  case False
  then have "take kSignalHeaderSize y = take kSignalHeaderSize (encodeFrame ty payload)"
    unfolding assms(2) [symmetric] by simp
  from header_decoded [OF assms(1) this] obtain h where
    h: "decodeHeader (take kSignalHeaderSize y) maxLen = Some h" "unat (fh_length h) = length payload" by blast
  have "length (y @ z) = kSignalHeaderSize + length payload" by (simp only: assms(2) length_encodeFrame)
  then have "length y < kSignalHeaderSize + unat (fh_length h)" using assms(3) by (cases z) (simp_all add: h(2))
  then show ?thesis using h(1) by (auto simp: awaiting_def)
qed (simp add: awaiting_def)

lemma process_awaiting: "awaiting (sc_maxPayloadBytes c) (sc_readBuffer c) \<Longrightarrow> processIncomingFrames pb c = c"
  by (subst processIncomingFrames.simps) (auto simp: awaiting_def Let_def)

definition dispatched :: "signal_pb \<Rightarrow> (u16 \<times> bytes) list \<Rightarrow> signal list" where
  "dispatched pb fs = concat (map (\<lambda>f. handlePayload pb (fst f) (snd f)) fs)"

lemma process_wire:
  assumes "list_all (fits (sc_maxPayloadBytes c)) fs" and "sc_readBuffer c = wire fs @ rest"
  shows "processIncomingFrames pb c =
    processIncomingFrames pb (c\<lparr>sc_readBuffer := rest, sc_signals := sc_signals c @ dispatched pb fs\<rparr>)"
  using assms
proof (induction fs arbitrary: c)
  case (Cons f fs)
  obtain ty payload where f: "f = (ty, payload)" by (cases f)
  let ?b = "sc_readBuffer c"
  have b: "?b = encodeFrame ty payload @ (wire fs @ rest)" using Cons.prems(2) by (simp add: f)
  have "take kSignalHeaderSize ?b = take kSignalHeaderSize (encodeFrame ty payload)" by (simp add: b)
  then obtain h where h: "decodeHeader (take kSignalHeaderSize ?b) (sc_maxPayloadBytes c) = Some h"
    "fh_type h = ty" "unat (fh_length h) = length payload"
    using header_decoded Cons.prems(1) f by fastforce
  have payload: "drop kSignalHeaderSize ?b = payload @ wire fs @ rest"
    by (simp add: b encodeFrame_def kSignalHeaderSize_def AppendU16_def AppendU32_def)
  have rest: "drop (kSignalHeaderSize + length payload) ?b = wire fs @ rest" by (simp add: b)
  have len: "\<not> length ?b < kSignalHeaderSize" "\<not> length ?b < kSignalHeaderSize + length payload" by (simp_all add: b)
  let ?c = "c\<lparr>sc_readBuffer := wire fs @ rest, sc_signals := sc_signals c @ handlePayload pb ty payload\<rparr>"
  have "processIncomingFrames pb c = processIncomingFrames pb ?c"
    by (subst processIncomingFrames.simps) (simp add: h len payload rest)
  also have "\<dots> = processIncomingFrames pb (?c\<lparr>sc_readBuffer := rest, sc_signals := sc_signals ?c @ dispatched pb fs\<rparr>)"
    using Cons.prems(1) by (intro Cons.IH) simp_all
  finally show ?case by (simp add: f dispatched_def)
next
  case Nil
  then have "c\<lparr>sc_readBuffer := rest, sc_signals := sc_signals c @ dispatched pb []\<rparr> = c"
    by (cases c) (simp add: dispatched_def)
  then show ?case by simp
qed

lemma wire_prefix:
  assumes "list_all (fits maxLen) fs" and "awaiting maxLen tail" and "y @ z = wire fs @ tail"
  shows "\<exists>fs1 fs2 t. fs = fs1 @ fs2 \<and> y = wire fs1 @ t \<and> t @ z = wire fs2 @ tail \<and> awaiting maxLen t"
  using assms
proof (induction fs arbitrary: y)
  case Nil
  then have "awaiting maxLen y" using awaiting_prefix [of maxLen y z] by simp
  then show ?case using Nil.prems(3) by (intro exI [of _ "[]"] exI [of _ y]) simp
next
  case (Cons f fs)
  let ?e = "encodeFrame (fst f) (snd f)"
  have eq: "y @ z = ?e @ (wire fs @ tail)" using Cons.prems(3) by simp
  show ?case
  proof (cases "length y < length ?e")
    case True
    then obtain w where w: "y @ w = ?e" using eq by (auto simp: append_eq_append_conv2)
    have "w \<noteq> []" using True w by force
    then have "awaiting maxLen y" using awaiting_part [OF _ w] Cons.prems(1) by simp
    then show ?thesis using Cons.prems(3) by (intro exI [of _ "[]"] exI [of _ "f # fs"] exI [of _ y]) simp
  next
    case False
    have "take (length ?e) y = ?e" using arg_cong [OF eq, of "take (length ?e)"] False by simp
    then obtain y' where y: "y = ?e @ y'" by (metis append_take_drop_id)
    then have "y' @ z = wire fs @ tail" using eq by simp
    from Cons.IH [OF _ Cons.prems(2) this] Cons.prems(1) obtain fs1 fs2 t where
      "fs = fs1 @ fs2" "y' = wire fs1 @ t" "t @ z = wire fs2 @ tail" "awaiting maxLen t" by auto
    then show ?thesis using y by (intro exI [of _ "f # fs1"] exI [of _ fs2] exI [of _ t]) simp
  qed
qed

lemma stream_chunks:
  assumes "list_all (fits (sc_maxPayloadBytes c)) fs" and "awaiting (sc_maxPayloadBytes c) tail"
    and "sc_readBuffer c @ concat chunks = wire fs @ tail" and "awaiting (sc_maxPayloadBytes c) (sc_readBuffer c)"
  shows "fold (onReadyRead pb) chunks c = c\<lparr>sc_readBuffer := tail, sc_signals := sc_signals c @ dispatched pb fs\<rparr>"
  using assms
proof (induction chunks arbitrary: c fs)
  case Nil
  have "c = processIncomingFrames pb c" using process_awaiting [OF Nil.prems(4)] by simp
  also have "\<dots> = processIncomingFrames pb (c\<lparr>sc_readBuffer := tail, sc_signals := sc_signals c @ dispatched pb fs\<rparr>)"
    using Nil.prems by (intro process_wire) simp_all
  also have "\<dots> = c\<lparr>sc_readBuffer := tail, sc_signals := sc_signals c @ dispatched pb fs\<rparr>"
    using Nil.prems(2) by (intro process_awaiting) simp
  finally show ?case by simp
next
  case (Cons x chunks)
  have "(sc_readBuffer c @ x) @ concat chunks = wire fs @ tail" using Cons.prems(3) by simp
  from wire_prefix [OF Cons.prems(1,2) this] obtain fs1 fs2 t where split:
    "fs = fs1 @ fs2" "sc_readBuffer c @ x = wire fs1 @ t" "t @ concat chunks = wire fs2 @ tail"
    "awaiting (sc_maxPayloadBytes c) t" by blast
  let ?c = "c\<lparr>sc_readBuffer := t, sc_signals := sc_signals c @ dispatched pb fs1\<rparr>"
  have "onReadyRead pb x c = processIncomingFrames pb ?c"
    unfolding onReadyRead_def
    using process_wire [of "c\<lparr>sc_readBuffer := sc_readBuffer c @ x\<rparr>" fs1 t pb] Cons.prems(1) split(1,2) by simp
  also have "\<dots> = ?c" using split(4) by (intro process_awaiting) simp
  finally have "fold (onReadyRead pb) (x # chunks) c = fold (onReadyRead pb) chunks ?c" by simp
  also have "\<dots> = ?c\<lparr>sc_readBuffer := tail, sc_signals := sc_signals ?c @ dispatched pb fs2\<rparr>"
    using Cons.prems(1,2) split by (intro Cons.IH) simp_all
  finally show ?case by (simp add: split(1) dispatched_def)
qed

text \<open>
  C18. The client sees the messages the server sends, not the pieces the network delivers. Whatever
  frames, none longer than the limit, are written to the connection, and into whatever chunks the
  bytes are cut, the client emits for each frame, in order, exactly the signals its type and payload
  ask for; what is left in its buffer is the part of the next frame that has arrived, and it makes no
  call on the socket.
\<close>

theorem signaling_stream:
  assumes "list_all (fits (sc_maxPayloadBytes c)) fs" "sc_readBuffer c = []"
    and "concat chunks = wire fs @ tail" "awaiting (sc_maxPayloadBytes c) tail"
  shows "fold (onReadyRead pb) chunks c =
    c\<lparr>sc_readBuffer := tail, sc_signals := sc_signals c @ concat (map (\<lambda>f. handlePayload pb (fst f) (snd f)) fs)\<rparr>"
proof -
  have "awaiting (sc_maxPayloadBytes c) (sc_readBuffer c)" by (simp add: assms(2) awaiting_def kSignalHeaderSize_def)
  then show ?thesis using stream_chunks [OF assms(1,4), of chunks pb] assms(2,3) by (simp add: dispatched_def)
qed

text \<open>The messages of a server that sends nothing but heartbeats of one byte.\<close>

definition demo_signal_pb :: signal_pb where
  "demo_signal_pb = \<lparr> sp_AuthLoginReq = \<lambda>_. None, sp_AuthHeartbeatReq = \<lambda>_. None, sp_MeetCreateReq = \<lambda>_. None,
     sp_MeetJoinReq = \<lambda>_ _. None, sp_MeetLeaveReq = None, sp_ChatSendReq = \<lambda>_. None, sp_ChatHistoryReq = \<lambda>_. None,
     sp_MediaOffer = \<lambda>_. None, sp_MediaIceCandidate = \<lambda>_. None, sp_MediaMuteToggle = \<lambda>_ _. None,
     sp_MediaScreenShare = \<lambda>_. None, sp_AuthLoginRsp = \<lambda>_. None,
     sp_AuthHeartbeatRsp = \<lambda>b. if b = [] then None else Some (uint (hd b)), sp_AuthKickNotify = \<lambda>_. None,
     sp_MeetCreateRsp = \<lambda>_. None, sp_MeetJoinRsp = \<lambda>_. None, sp_MeetLeaveRsp = \<lambda>_. None, sp_MediaAnswer = \<lambda>_. None,
     sp_ChatSendRsp = \<lambda>_. None, sp_ChatRecvNotify = \<lambda>_. None, sp_ChatHistoryRsp = \<lambda>_. None, sp_number = \<lambda>_. ''0'' \<rparr>"

theorem signaling_stream_witness:
  "sc_signals (fold (onReadyRead demo_signal_pb)
     [[0xAB, 0xCD, 1, 1], [6, 0, 0, 0, 1, 5, 0xAB, 0xCD], [1, 7, 7, 0, 0, 0, 0, 0xAB]] SignalingClient_new) =
   [HeartbeatReceived 5, ProtobufMessageReceived 0x0707 []]"
proof -
  let ?c = SignalingClient_new and ?fs = "[(0x0106, [5]), (0x0707, [])] :: (u16 \<times> bytes) list"
  have "list_all (fits (sc_maxPayloadBytes ?c)) ?fs" by (simp add: fits_def SignalingClient_new_def)
  moreover have "concat [[0xAB, 0xCD, 1, 1], [6, 0, 0, 0, 1, 5, 0xAB, 0xCD], [1, 7, 7, 0, 0, 0, 0, 0xAB]] = wire ?fs @ [0xAB]"
    by (simp add: encodeFrame_def kMagicHigh_def kMagicLow_def kVersion_def AppendU16_def AppendU32_def)
  moreover have "awaiting (sc_maxPayloadBytes ?c) [0xAB]" by (simp add: awaiting_def kSignalHeaderSize_def)
  moreover have "sc_readBuffer ?c = []" by (simp add: SignalingClient_new_def)
  moreover have "concat (map (\<lambda>f. handlePayload demo_signal_pb (fst f) (snd f)) ?fs) =
      [HeartbeatReceived 5, ProtobufMessageReceived 0x0707 []]"
    by (simp add: handlePayload_def parsed_signals_def demo_signal_pb_def)
  ultimately show ?thesis
    using signaling_stream [of ?c ?fs _ "[0xAB]" demo_signal_pb] by (simp only:) (simp add: SignalingClient_new_def)
qed

text \<open>
  C19. A broken stream is given up at once. When what follows some complete frames cannot be a header
  (a wrong magic number or version, or a length beyond the limit), the client handles those frames,
  reports the error, asks for the connection to be closed and discards its buffer: nothing after the
  broken header is taken for a message.
\<close>

theorem signaling_rejects:
  assumes "list_all (fits (sc_maxPayloadBytes c)) fs" "sc_readBuffer c @ chunk = wire fs @ bad" "9 \<le> length bad"
    and "bad ! 0 \<noteq> 0xAB \<or> bad ! 1 \<noteq> 0xCD \<or> bad ! 2 \<noteq> 1 \<or>
         be32 (bad ! 5) (bad ! 6) (bad ! 7) (bad ! 8) > sc_maxPayloadBytes c"
  shows "onReadyRead pb chunk c = c\<lparr>sc_readBuffer := [], sc_calls := sc_calls c @ [SockDisconnect],
    sc_signals := sc_signals c @ concat (map (\<lambda>f. handlePayload pb (fst f) (snd f)) fs) @
      [ProtocolError ''Invalid signaling frame header'']\<rparr>"
proof -
  let ?c = "c\<lparr>sc_readBuffer := bad, sc_signals := sc_signals c @ dispatched pb fs\<rparr>"
  have "onReadyRead pb chunk c = processIncomingFrames pb ?c"
    unfolding onReadyRead_def
    using process_wire [of "c\<lparr>sc_readBuffer := sc_readBuffer c @ chunk\<rparr>" fs bad pb] assms(1,2) by simp
  moreover have "decodeHeader (take kSignalHeaderSize bad) (sc_maxPayloadBytes c) = None"
    using assms(3,4) by (auto simp: decodeHeader_def kSignalHeaderSize_def kMagicHigh_def kMagicLow_def kVersion_def)
  then have "processIncomingFrames pb ?c =
      (sock_call SockDisconnect (sig_emit (ProtocolError ''Invalid signaling frame header'') ?c))\<lparr>sc_readBuffer := []\<rparr>"
    using assms(3) by (subst processIncomingFrames.simps) (simp add: kSignalHeaderSize_def)
  ultimately show ?thesis by (cases c) (simp add: sock_call_def sig_emit_def dispatched_def)
qed

theorem signaling_rejects_witness:
  "sc_signals (onReadyRead demo_signal_pb ([0xAB, 0xCD, 1, 7, 7, 0, 0, 0, 0] @ replicate 9 0) SignalingClient_new) =
    [ProtobufMessageReceived 0x0707 [], ProtocolError ''Invalid signaling frame header'']"
proof -
  let ?c = SignalingClient_new and ?fs = "[(0x0707, [])] :: (u16 \<times> bytes) list"
  have "list_all (fits (sc_maxPayloadBytes ?c)) ?fs" by (simp add: fits_def)
  moreover have "sc_readBuffer ?c @ [0xAB, 0xCD, 1, 7, 7, 0, 0, 0, 0] @ replicate 9 0 = wire ?fs @ replicate 9 0"
    by (simp add: SignalingClient_new_def encodeFrame_def kMagicHigh_def kMagicLow_def kVersion_def AppendU16_def AppendU32_def)
  moreover have "concat (map (\<lambda>f. handlePayload demo_signal_pb (fst f) (snd f)) ?fs) = [ProtobufMessageReceived 0x0707 []]"
    by (simp add: handlePayload_def)
  moreover have "9 \<le> length (replicate 9 0 :: bytes)" "replicate 9 0 ! 0 \<noteq> (0xAB :: u8)" by simp_all
  ultimately show ?thesis
    using signaling_rejects [of ?c ?fs _ "replicate 9 0" demo_signal_pb] by (simp only:) (simp add: SignalingClient_new_def)
qed

text \<open>
  A new connection does not start with an empty buffer: what a broken connection left behind is put
  in front of the first bytes of the next one, whose first frame is then rejected.
\<close>

lemma stale_buffer_after_reconnect:
  fixes pb h p
  defines "c \<equiv> onSocketDisconnected (onReadyRead pb [0xAB] (onSocketConnected (connectToServer h p SignalingClient_new)))"
  shows "sc_calls (onReadyRead pb (encodeFrame ty []) (onSocketConnected (connectToServer h p c))) =
    [SockConnect h p, SockConnect h p, SockDisconnect]"
proof -
  have "onReadyRead pb [0xAB] c' = c'\<lparr>sc_readBuffer := [0xAB]\<rparr>" if "sc_readBuffer c' = []" for c'
    using that by (simp add: onReadyRead_def processIncomingFrames.simps kSignalHeaderSize_def)
  then have b: "sc_readBuffer c = [0xAB]" "sc_maxPayloadBytes c = 4 * 1024 * 1024" "sc_state c = UnconnectedState"
    "sc_calls c = [SockConnect h p]"
    by (simp_all add: c_def onSocketConnected_def onSocketDisconnected_def connectToServer_def sock_call_def sig_emit_def
        SignalingClient_new_def Let_def)
  let ?d = "onSocketConnected (connectToServer h p c)"
  have d: "sc_readBuffer ?d = [0xAB]" "sc_calls ?d = [SockConnect h p, SockConnect h p]"
    using b by (simp_all add: onSocketConnected_def connectToServer_def sock_call_def sig_emit_def Let_def)
  have "decodeHeader (take kSignalHeaderSize (0xAB # encodeFrame ty [])) m = None" for m
    by (simp add: decodeHeader_def kSignalHeaderSize_def encodeFrame_def kMagicHigh_def kMagicLow_def)
  then show ?thesis
    unfolding onReadyRead_def using d
    by (subst processIncomingFrames.simps) (simp add: sock_call_def sig_emit_def kSignalHeaderSize_def)
qed

section \<open>The back-off\<close>

definition rc_inv :: "Reconnector \<Rightarrow> bool" where
  "rc_inv r \<longleftrightarrow> 100 \<le> rc_initialDelayMs r \<and> rc_initialDelayMs r \<le> rc_nextDelayMs r \<and> rc_nextDelayMs r \<le> rc_maxDelayMs r"

lemma rc_inv_ops:
  "rc_inv Reconnector_new" "rc_inv (rc_configure i m r)"
  "rc_schedule r = Some r' \<Longrightarrow> rc_inv r \<Longrightarrow> rc_inv r'" "rc_inv r \<Longrightarrow> rc_inv (rc_stop r)"
  "rc_inv r \<Longrightarrow> rc_inv (rc_reset r)" "rc_inv r \<Longrightarrow> rc_inv (rc_timeout r)"
  by (auto simp: rc_inv_def Reconnector_new_def rc_configure_def rc_schedule_def rc_stop_def rc_reset_def rc_timeout_def Let_def
      split: if_splits)

text \<open>Failed attempts one after the other: the timer is started, and fires.\<close>

primrec rc_attempts :: "nat \<Rightarrow> Reconnector \<Rightarrow> Reconnector mem" where
  "rc_attempts 0 r = Some r"
| "rc_attempts (Suc k) r = do { r1 \<leftarrow> rc_attempts k r; r2 \<leftarrow> rc_schedule r1; Some (rc_timeout r2) }"

lemma min_double: "min (min (x * a) m * 2) m = min (x * (2 * a)) (m :: int)" if "0 \<le> m"
  using that by (auto simp: min_def)

lemma rc_rounds:
  assumes "\<not> rc_timerActive r" and "rc_nextDelayMs r = min (i * 2 ^ j) (rc_maxDelayMs r)" and "0 \<le> rc_maxDelayMs r"
    and "rc_maxDelayMs r < 2 ^ 30"
  shows "\<exists>r'. rc_attempts k r = Some r' \<and> \<not> rc_timerActive r' \<and> rc_maxDelayMs r' = rc_maxDelayMs r \<and>
    rc_nextDelayMs r' = min (i * 2 ^ (j + k)) (rc_maxDelayMs r) \<and>
    rc_delays r' = rc_delays r @ map (\<lambda>n. min (i * 2 ^ (j + n)) (rc_maxDelayMs r)) [0..<k] \<and>
    rc_signals r' = rc_signals r @ concat (replicate k [ActiveChanged True, ActiveChanged False, ReconnectRequested])"
proof (induction k)
  case (Suc k)
  then obtain r' where r': "rc_attempts k r = Some r'" "\<not> rc_timerActive r'" "rc_maxDelayMs r' = rc_maxDelayMs r"
    "rc_nextDelayMs r' = min (i * 2 ^ (j + k)) (rc_maxDelayMs r)"
    "rc_delays r' = rc_delays r @ map (\<lambda>n. min (i * 2 ^ (j + n)) (rc_maxDelayMs r)) [0..<k]"
    "rc_signals r' = rc_signals r @ concat (replicate k [ActiveChanged True, ActiveChanged False, ReconnectRequested])" by blast
  have rep: "replicate (Suc k) x = replicate k x @ [x]" for x :: "reconnect_signal list" by (simp add: replicate_append_same)
  have "rc_nextDelayMs r' \<le> rc_maxDelayMs r" using r'(4) by simp
  then have fits: "\<not> rc_nextDelayMs r' * 2 > 2147483647" using assms(4) by simp
  show ?case
    unfolding rep using r' fits assms(3) min_double [of "rc_maxDelayMs r" i "2 ^ (j + k)"]
    by (simp add: rc_schedule_def rc_timeout_def del: replicate.simps)
qed (use assms in simp)

text \<open>
  C20. Attempts to reconnect back off and never stop. After the delays are configured, both below
  \<open>2 ^ 30\<close> milliseconds, \<open>k\<close> failed attempts in a row wait for exactly the initial delay, twice, four
  times the initial delay and so on, never more than the maximum, without an overflow, and each of
  them ends with a request to reconnect; the next delay always lies between the initial delay, which
  is at least a tenth of a second, and the maximum.
\<close>

theorem reconnect_backoff:
  assumes "initialMs < 2 ^ 30" "maxMs < 2 ^ 30"
  shows "\<exists>r. rc_attempts k (rc_configure initialMs maxMs Reconnector_new) = Some r \<and>
     rc_delays r = map (\<lambda>n. min (max 100 initialMs * 2 ^ n) (max (max 100 initialMs) maxMs)) [0..<k] \<and>
     rc_signals r = concat (replicate k [ActiveChanged True, ActiveChanged False, ReconnectRequested]) \<and> rc_inv r"
proof -
  define i where "i = max 100 initialMs"
  define r where "r = rc_configure initialMs maxMs Reconnector_new"
  have inv: "rc_inv r'" if "rc_attempts k r = Some r'" for k r'
    using that by (induction k arbitrary: r') (auto simp: r_def rc_inv_ops bind_eq_Some_conv)
  have "\<not> rc_timerActive r" "rc_nextDelayMs r = min (i * 2 ^ 0) (rc_maxDelayMs r)" "rc_maxDelayMs r = max i maxMs"
    "0 \<le> rc_maxDelayMs r" "rc_maxDelayMs r < 2 ^ 30" "rc_delays r = []" "rc_signals r = []"
    using assms by (simp_all add: r_def i_def rc_configure_def Reconnector_new_def Let_def)
  then show ?thesis using rc_rounds [of r i 0 k] inv unfolding i_def [symmetric] r_def [symmetric] by auto
qed

theorem reconnect_backoff_witness:
  "map_option rc_delays (rc_attempts 4 (rc_configure 1000 5000 Reconnector_new)) = Some [1000, 2000, 4000, 5000]"
  using reconnect_backoff [of 1000 5000 4] by (auto simp: eval_nat_numeral)

text \<open>With a larger maximum the doubling overflows: from one second on, at the twenty-second attempt.\<close>

lemma backoff_overflows: "rc_attempts 22 (rc_configure 1000 2147483647 Reconnector_new) = None"
  by code_simp

end
