(* ===== verification/ClientSecurity.thy ===== *)
theory ClientSecurity
  imports ParticipantTransport
begin

text \<open>
  The client's half of the secure transport: the DTLS client
  (\<open>plasma-hawking/src/net/media/DtlsTransportClient.cpp\<close>) and one direction of SRTP
  (\<open>plasma-hawking/src/security/SRTPContext.cpp\<close>). OpenSSL and libsrtp2 are the same
  parameters as on the server; what the client calls besides is in \<open>client_openssl\<close>. Texts are
  Latin-1 (\<open>QString\<close> of announced fingerprints and of messages), where \<open>QChar::isDigit\<close> holds of
  the ten digits and \<open>QChar::toUpper\<close> has a value between A and F for the letters a to f and A
  to F only. The pointers \<open>m_impl\<close> and the out parameters are never null; an output list that
  may be null is a flag \<open>want\<close>.
\<close>

section \<open>The DTLS client\<close>

record 'ssl client_openssl =
  ssl_api :: "'ssl openssl"
  generateCertificate_ok :: bool
  X509_local_digest :: "bytes option"
  SSL_CTX_new_ok :: bool
  SSL_CTX_configure_ok :: bool

text \<open>
  \<open>generateCertificate_ok\<close>: the key and the self-signed certificate were created;
  \<open>X509_local_digest\<close>: the SHA-256 digest of that certificate, \<open>None\<close> when \<open>X509_digest\<close> fails
  or gives no byte; \<open>SSL_CTX_configure_ok\<close>: certificate, key, key check and SRTP profile were
  accepted.
\<close>

definition formatFingerprint :: "bytes \<Rightarrow> string" where
  "formatFingerprint = FormatFingerprint"

definition QChar_isDigit :: "char \<Rightarrow> bool" where
  "QChar_isDigit ch \<longleftrightarrow> CHR ''0'' \<le> ch \<and> ch \<le> CHR ''9''"

definition normalizeFingerprint :: "string \<Rightarrow> string" where
  "normalizeFingerprint fingerprint =
     concat (map (\<lambda>ch. if ch = CHR '':'' \<or> QChar_isDigit ch \<or>
                          (CHR ''A'' \<le> toupper ch \<and> toupper ch \<le> CHR ''F'')
                       then [toupper ch] else []) fingerprint)"

definition currentSslError :: "string option \<Rightarrow> string \<Rightarrow> string" where
  "currentSslError = CurrentSslError"

definition drainBio :: "'ssl openssl \<Rightarrow> bool \<Rightarrow> 'ssl \<Rightarrow> bool \<times> bytes list \<times> 'ssl" where
  "drainBio = DrainBio"

definition exportPeerFingerprint :: "'ssl openssl \<Rightarrow> 'ssl \<Rightarrow> string option" where
  "exportPeerFingerprint api ssl = map_option formatFingerprint (X509_peer_digest api ssl)"

text \<open>\<open>dc_identity\<close>: \<open>key\<close> and \<open>cert\<close> are set.\<close>

record 'ssl DtlsTransportClient =
  dc_identity :: bool
  dc_ssl :: "'ssl option"
  dc_started :: bool
  dc_connected :: bool
  dc_expectedServerFingerprint :: string
  dc_localFingerprint :: string
  dc_peerFingerprint :: string
  dc_selectedSrtpProfile :: string
  dc_lastError :: string

definition DtlsTransportClient_new :: "'ssl DtlsTransportClient" where
  "DtlsTransportClient_new =
     \<lparr> dc_identity = False, dc_ssl = None, dc_started = False, dc_connected = False,
       dc_expectedServerFingerprint = [], dc_localFingerprint = [], dc_peerFingerprint = [],
       dc_selectedSrtpProfile = [], dc_lastError = [] \<rparr>"

definition ensureLocalIdentity ::
  "'ssl client_openssl \<Rightarrow> 'ssl DtlsTransportClient \<Rightarrow> bool \<times> 'ssl DtlsTransportClient" where
  "ensureLocalIdentity capi c =
     (if dc_identity c \<and> dc_localFingerprint c \<noteq> [] then (True, c)
      else if \<not> generateCertificate_ok capi
      then (False, c\<lparr>dc_lastError := ''DTLS certificate generation failed''\<rparr>)
      else case X509_local_digest capi of
        None \<Rightarrow> (False, c\<lparr>dc_lastError := ''DTLS fingerprint export failed''\<rparr>)
      | Some digest \<Rightarrow>
          if digest = [] then (False, c\<lparr>dc_lastError := ''DTLS fingerprint export failed''\<rparr>)
          else (True, c\<lparr>dc_identity := True, dc_localFingerprint := formatFingerprint digest,
                        dc_lastError := []\<rparr>))"

definition prepareLocalFingerprint ::
  "'ssl client_openssl \<Rightarrow> 'ssl DtlsTransportClient \<Rightarrow> bool \<times> 'ssl DtlsTransportClient" where
  "prepareLocalFingerprint = ensureLocalIdentity"

definition client_drain ::
  "'ssl openssl \<Rightarrow> bool \<Rightarrow> 'ssl \<Rightarrow> 'ssl DtlsTransportClient \<Rightarrow> bool \<times> bytes list \<times> 'ssl DtlsTransportClient" where
  "client_drain api want ssl c =
     (case drainBio api want ssl of
        (True, outgoing, ssl') \<Rightarrow> (True, outgoing, c\<lparr>dc_ssl := Some ssl'\<rparr>)
      | (False, outgoing, ssl') \<Rightarrow>
          (False, outgoing, c\<lparr>dc_ssl := Some ssl', dc_lastError := ''DTLS write BIO drain failed''\<rparr>))"

definition DtlsTransportClient_start ::
  "'ssl client_openssl \<Rightarrow> string \<Rightarrow> bool \<Rightarrow> 'ssl DtlsTransportClient \<Rightarrow>
   bool \<times> bytes list \<times> 'ssl DtlsTransportClient" where
  "DtlsTransportClient_start capi expectedServerFingerprint want c0 =
     (let api = ssl_api capi in
      if dc_started c0 then (True, [], c0)
      else case ensureLocalIdentity capi c0 of
        (False, c) \<Rightarrow> (False, [], c)
      | (True, c) \<Rightarrow>
          if \<not> SSL_CTX_new_ok capi
          then (False, [], c\<lparr>dc_lastError := currentSslError (ERR_reason api None) ''SSL_CTX_new''\<rparr>)
          else if \<not> SSL_CTX_configure_ok capi
          then (False, [], c\<lparr>dc_lastError := currentSslError (ERR_reason api None) ''SSL_CTX configure''\<rparr>)
          else case SSL_new api of
            None \<Rightarrow> (False, [], c\<lparr>dc_lastError := currentSslError (ERR_reason api None) ''SSL_new''\<rparr>)
          | Some rawSsl \<Rightarrow>
              if \<not> BIO_new api then (False, [], c\<lparr>dc_lastError := ''BIO_new failed''\<rparr>)
              else
                let ssl = SSL_set_state api RoleClient rawSsl;
                    c1 = c\<lparr>dc_ssl := Some ssl,
                           dc_expectedServerFingerprint := normalizeFingerprint expectedServerFingerprint,
                           dc_started := True, dc_lastError := []\<rparr>;
                    (ret, ssl1) = SSL_do_handshake api ssl;
                    error = SSL_get_error api ret ssl1
                in if ret \<noteq> 1 \<and> error \<noteq> SSL_ERROR_WANT_READ \<and> error \<noteq> SSL_ERROR_WANT_WRITE
                   then (False, [], c1\<lparr>dc_ssl := Some ssl1, dc_lastError :=
                           currentSslError (ERR_reason api (Some ssl1)) ''SSL_do_handshake''\<rparr>)
                   else client_drain api want ssl1 c1)"

text \<open>The part of \<open>handleIncomingDatagram\<close> after \<open>SSL_do_handshake\<close> returned 1.\<close>

definition check_server ::
  "'ssl openssl \<Rightarrow> bool \<Rightarrow> 'ssl \<Rightarrow> 'ssl DtlsTransportClient \<Rightarrow> bool \<times> bytes list \<times> 'ssl DtlsTransportClient" where
  "check_server api want ssl c =
     (case exportPeerFingerprint api ssl of
        None \<Rightarrow> (False, [], c\<lparr>dc_lastError := ''DTLS server fingerprint export failed''\<rparr>)
      | Some fingerprint \<Rightarrow>
          let c1 = c\<lparr>dc_peerFingerprint := fingerprint\<rparr>
          in if dc_expectedServerFingerprint c1 \<noteq> [] \<and>
                normalizeFingerprint (dc_peerFingerprint c1) \<noteq> dc_expectedServerFingerprint c1
             then (False, [], c1\<lparr>dc_lastError := ''DTLS server fingerprint mismatch''\<rparr>)
             else case SSL_get_selected_srtp_profile api ssl of
               Some profile \<Rightarrow> client_drain api want ssl (c1\<lparr>dc_selectedSrtpProfile := profile\<rparr>)
             | None \<Rightarrow> (False, [], c1\<lparr>dc_lastError := ''DTLS SRTP profile was not negotiated''\<rparr>))"

definition handleIncomingDatagram ::
  "'ssl client_openssl \<Rightarrow> bytes \<Rightarrow> bool \<Rightarrow> 'ssl DtlsTransportClient \<Rightarrow>
   bool \<times> bytes list \<times> 'ssl DtlsTransportClient" where
  "handleIncomingDatagram capi datagram want c =
     (let api = ssl_api capi;
          not_ready = (False, [], c\<lparr>dc_lastError := ''DTLS client is not ready for incoming datagrams''\<rparr>) in
      case dc_ssl c of
        None \<Rightarrow> not_ready
      | Some ssl \<Rightarrow>
          if \<not> dc_started c \<or> datagram = [] then not_ready
          else
            let (written, ssl1) = BIO_write api datagram ssl
            in if written \<noteq> int (length datagram)
               then (False, [], c\<lparr>dc_ssl := Some ssl1, dc_lastError := ''BIO_write failed for DTLS datagram''\<rparr>)
               else
                 let (ret, ssl2) = SSL_do_handshake api ssl1;
                     c2 = c\<lparr>dc_ssl := Some ssl2\<rparr>;
                     error = SSL_get_error api ret ssl2
                 in if ret = 1 then check_server api want ssl2 (c2\<lparr>dc_connected := True\<rparr>)
                    else if error \<noteq> SSL_ERROR_WANT_READ \<and> error \<noteq> SSL_ERROR_WANT_WRITE
                    then (False, [], c2\<lparr>dc_lastError :=
                            currentSslError (ERR_reason api (Some ssl2)) ''SSL_do_handshake''\<rparr>)
                    else client_drain api want ssl2 c2)"

definition exportSrtpKeyMaterial ::
  "'ssl client_openssl \<Rightarrow> nat \<Rightarrow> nat \<Rightarrow> 'ssl DtlsTransportClient \<Rightarrow> SrtpKeyMaterial option" where
  "exportSrtpKeyMaterial capi keyLen saltLen c =
     (if \<not> dc_connected c \<or> keyLen = 0 \<or> saltLen = 0 then None
      else case dc_ssl c of
        None \<Rightarrow> None
      | Some ssl \<Rightarrow>
          let totalLen = (keyLen + saltLen) * 2
          in case SSL_export_keying_material (ssl_api capi) ssl ''EXTRACTOR-dtls_srtp'' totalLen of
            None \<Rightarrow> None
          | Some exporter \<Rightarrow>
              let clientKey = take keyLen exporter;
                  serverKey = take keyLen (drop keyLen exporter);
                  clientSalt = take saltLen (drop (keyLen * 2) exporter);
                  serverSalt = take saltLen (drop (keyLen * 2 + saltLen) exporter)
              in Some \<lparr> localKey = clientKey, remoteKey = serverKey,
                        localSalt = clientSalt, remoteSalt = serverSalt \<rparr>)"

definition looksLikeDtlsRecord :: "bytes \<Rightarrow> bool mem" where
  "looksLikeDtlsRecord datagram =
     (if length datagram < 13 then Some False
      else do {
        b0 \<leftarrow> byte_at datagram 0;
        if b0 \<notin> {20, 21, 22, 23, 24} then Some False
        else do {
          b1 \<leftarrow> byte_at datagram 1;
          if b1 \<noteq> 0xFE then Some False
          else do {
            b2 \<leftarrow> byte_at datagram 2;
            Some (b2 = 0xFF \<or> b2 = 0xFD \<or> b2 = 0xFC) } } })"

section \<open>One direction of SRTP\<close>

definition srtp_err_status_replay_fail :: int where [simp]: "srtp_err_status_replay_fail = 9"
definition srtp_err_status_replay_old :: int where [simp]: "srtp_err_status_replay_old = 10"

record 's SRTPContext =
  sc_masterKey :: bytes
  sc_masterSalt :: bytes
  sc_lastError :: string
  sc_lastStatusCode :: int
  sc_session :: "'s option"
  sc_direction :: Direction
  sc_ssrc :: u32

definition SRTPContext_new :: "'s SRTPContext" where
  "SRTPContext_new =
     \<lparr> sc_masterKey = [], sc_masterSalt = [], sc_lastError = [], sc_lastStatusCode = 0,
       sc_session = None, sc_direction = Outbound, sc_ssrc = 0 \<rparr>"

definition SRTPContext_clear :: "'s SRTPContext \<Rightarrow> 's SRTPContext" where
  "SRTPContext_clear s =
     s\<lparr>sc_masterKey := [], sc_masterSalt := [], sc_lastError := [], sc_lastStatusCode := 0,
       sc_session := None, sc_ssrc := 0\<rparr>"

definition SRTPContext_configured :: "'s SRTPContext \<Rightarrow> bool" where
  "SRTPContext_configured s \<longleftrightarrow> sc_masterKey s \<noteq> [] \<and> sc_masterSalt s \<noteq> []"

definition key_length_error :: "nat \<Rightarrow> nat \<Rightarrow> nat \<Rightarrow> nat \<Rightarrow> string" where
  "key_length_error expectedKey expectedSalt gotKey gotSalt =
     ''SRTP key lengths mismatch: expected '' @ nat_to_string expectedKey @ ''+'' @ nat_to_string expectedSalt @
     '' got '' @ nat_to_string gotKey @ ''+'' @ nat_to_string gotSalt"

definition SRTPContext_configure ::
  "'s libsrtp \<Rightarrow> bytes \<Rightarrow> bytes \<Rightarrow> Direction \<Rightarrow> u32 \<Rightarrow> 's SRTPContext \<Rightarrow> bool \<times> 's SRTPContext" where
  "SRTPContext_configure lib masterKey masterSalt direction ssrc s0 =
     (let s = SRTPContext_clear s0 in
      if masterKey = [] \<or> masterSalt = []
      then (False, s\<lparr>sc_lastError := ''SRTP keying material is empty''\<rparr>)
      else if \<not> have_libsrtp2 lib
      then (True, s\<lparr>sc_masterKey := masterKey, sc_masterSalt := masterSalt\<rparr>)
      else if length masterKey \<noteq> srtp_master_key_length lib \<or> length masterSalt \<noteq> srtp_master_salt_length lib
      then (False, s\<lparr>sc_lastError := key_length_error (srtp_master_key_length lib) (srtp_master_salt_length lib)
                      (length masterKey) (length masterSalt)\<rparr>)
      else case srtp_library lib of
        Some err \<Rightarrow> (False, s\<lparr>sc_lastError := err\<rparr>)
      | None \<Rightarrow>
          case SetPolicyFromProfile lib of
            Some err \<Rightarrow> (False, s\<lparr>sc_lastError := err\<rparr>)
          | None \<Rightarrow>
              let (createStatus, rawSession) = srtp_create lib (masterKey @ masterSalt) direction ssrc
              in if createStatus \<noteq> srtp_err_status_ok \<or> rawSession = None
                 then (False, s\<lparr>sc_lastError := StatusToString createStatus ''srtp_create''\<rparr>)
                 else (True, s\<lparr>sc_masterKey := masterKey, sc_masterSalt := masterSalt,
                               sc_session := rawSession, sc_direction := direction, sc_ssrc := ssrc\<rparr>))"

definition keyFingerprint :: "(bytes \<Rightarrow> string) \<Rightarrow> 's SRTPContext \<Rightarrow> string" where
  "keyFingerprint sha256Hex s =
     (if \<not> SRTPContext_configured s then [] else take 16 (sha256Hex (sc_masterKey s @ sc_masterSalt s)))"

definition lastFailureWasReplay :: "'s libsrtp \<Rightarrow> 's SRTPContext \<Rightarrow> bool" where
  "lastFailureWasReplay lib s \<longleftrightarrow> have_libsrtp2 lib \<and>
     (sc_lastStatusCode s = srtp_err_status_replay_fail \<or> sc_lastStatusCode s = srtp_err_status_replay_old)"

text \<open>
  The common text of \<open>protectRtp\<close> and \<open>protectRtcp\<close>, and of \<open>unprotectRtp\<close> and
  \<open>unprotectRtcp\<close>.
\<close>

definition context_protect ::
  "'s libsrtp \<Rightarrow> (bytes \<Rightarrow> 's \<Rightarrow> int \<times> int \<times> bytes \<times> 's) \<Rightarrow> string \<Rightarrow> string \<Rightarrow>
   bytes \<Rightarrow> 's SRTPContext \<Rightarrow> bool \<times> bytes \<times> 's SRTPContext" where
  "context_protect lib native operation emptyError packet s =
     (if packet = [] then (False, packet, s\<lparr>sc_lastError := emptyError\<rparr>)
      else if \<not> SRTPContext_configured s
      then (False, packet, s\<lparr>sc_lastError := ''SRTP context not configured''\<rparr>)
      else if \<not> have_libsrtp2 lib
      then (False, packet, s\<lparr>sc_lastError := ''libsrtp2 is not available''\<rparr>)
      else case sc_session s of
        None \<Rightarrow> (False, packet, s\<lparr>sc_lastError := ''SRTP session is not ready'', sc_lastStatusCode := 0\<rparr>)
      | Some session \<Rightarrow>
          let originalSize = length packet;
              (status, protectedSize, buffer, session') = native packet session
          in if status \<noteq> srtp_err_status_ok \<or> protectedSize \<le> int originalSize
             then (False, resize originalSize buffer,
                   s\<lparr>sc_session := Some session', sc_lastError := StatusToString status operation,
                     sc_lastStatusCode := status\<rparr>)
             else (True, resize (nat protectedSize) buffer,
                   s\<lparr>sc_session := Some session', sc_lastError := [], sc_lastStatusCode := 0\<rparr>))"

definition context_unprotect ::
  "'s libsrtp \<Rightarrow> (bytes \<Rightarrow> 's \<Rightarrow> int \<times> int \<times> bytes \<times> 's) \<Rightarrow> string \<Rightarrow> string \<Rightarrow>
   bytes \<Rightarrow> 's SRTPContext \<Rightarrow> bool \<times> bytes \<times> 's SRTPContext" where
  "context_unprotect lib native operation emptyError packet s =
     (if packet = [] then (False, packet, s\<lparr>sc_lastError := emptyError\<rparr>)
      else if \<not> SRTPContext_configured s
      then (False, packet, s\<lparr>sc_lastError := ''SRTP context not configured''\<rparr>)
      else if \<not> have_libsrtp2 lib
      then (False, packet, s\<lparr>sc_lastError := ''libsrtp2 is not available''\<rparr>)
      else case sc_session s of
        None \<Rightarrow> (False, packet, s\<lparr>sc_lastError := ''SRTP session is not ready'', sc_lastStatusCode := 0\<rparr>)
      | Some session \<Rightarrow>
          let (status, plainSize, buffer, session') = native packet session
          in if status \<noteq> srtp_err_status_ok \<or> plainSize \<le> 0
             then (False, resize (length packet) buffer,
                   s\<lparr>sc_session := Some session', sc_lastError := StatusToString status operation,
                     sc_lastStatusCode := status\<rparr>)
             else (True, resize (nat plainSize) buffer,
                   s\<lparr>sc_session := Some session', sc_lastError := [], sc_lastStatusCode := 0\<rparr>))"

definition protectRtp :: "'s libsrtp \<Rightarrow> bytes \<Rightarrow> 's SRTPContext \<Rightarrow> bool \<times> bytes \<times> 's SRTPContext" where
  "protectRtp lib = context_protect lib (srtp_protect lib) ''srtp_protect'' ''SRTP RTP packet is empty''"

definition unprotectRtp :: "'s libsrtp \<Rightarrow> bytes \<Rightarrow> 's SRTPContext \<Rightarrow> bool \<times> bytes \<times> 's SRTPContext" where
  "unprotectRtp lib = context_unprotect lib (srtp_unprotect lib) ''srtp_unprotect'' ''SRTP RTP packet is empty''"

definition protectRtcp :: "'s libsrtp \<Rightarrow> bytes \<Rightarrow> 's SRTPContext \<Rightarrow> bool \<times> bytes \<times> 's SRTPContext" where
  "protectRtcp lib = context_protect lib (srtp_protect_rtcp lib) ''srtp_protect_rtcp'' ''SRTCP packet is empty''"

definition unprotectRtcp :: "'s libsrtp \<Rightarrow> bytes \<Rightarrow> 's SRTPContext \<Rightarrow> bool \<times> bytes \<times> 's SRTPContext" where
  "unprotectRtcp lib = context_unprotect lib (srtp_unprotect_rtcp lib) ''srtp_unprotect_rtcp'' ''SRTCP packet is empty''"

definition masterKeyLength :: "'s libsrtp \<Rightarrow> nat" where
  "masterKeyLength lib = (if have_libsrtp2 lib then srtp_master_key_length lib else 16)"

definition masterSaltLength :: "'s libsrtp \<Rightarrow> nat" where
  "masterSaltLength lib = (if have_libsrtp2 lib then srtp_master_salt_length lib else 14)"

section \<open>The client's code does what the server's does\<close>

text \<open>
  The two implementations of the handshake are separate code. The client's state, seen as a
  server-side transport in the client role without its error text, makes exactly the moves of
  that transport, so that everything shown of the one holds of the other.
\<close>

definition dtls_view :: "'ssl DtlsTransportClient \<Rightarrow> 'ssl DtlsTransport" where
  "dtls_view c =
     \<lparr> dtls_role = RoleClient, dtls_ssl = dc_ssl c, dtls_started = dc_started c,
       dtls_connected = dc_connected c, dtls_expectedPeerFingerprint = dc_expectedServerFingerprint c,
       dtls_peerFingerprint = dc_peerFingerprint c, dtls_selectedSrtpProfile = dc_selectedSrtpProfile c,
       dtls_lastError = [] \<rparr>"

abbreviation erase_error :: "'ssl DtlsTransport \<Rightarrow> 'ssl DtlsTransport" where
  "erase_error d \<equiv> d\<lparr>dtls_lastError := []\<rparr>"

lemma fingerprint_char:
  "(ch = CHR '':'' \<or> QChar_isDigit ch \<or> (CHR ''A'' \<le> toupper ch \<and> toupper ch \<le> CHR ''F'')) =
   (ch = CHR '':'' \<or> isxdigit ch)"
proof -
  define n :: nat where "n = of_char ch"
  have eq: "ch = c \<longleftrightarrow> n = of_char c" for c by (simp add: n_def)
  have ch: "ch = char_of n" by (simp add: n_def)
  have up: "of_char (toupper ch) = (if 97 \<le> n \<and> n \<le> 122 then n - 32 else n)"
    by (auto simp: toupper_def less_eq_char_def n_def)
  have dig: "QChar_isDigit ch \<longleftrightarrow> 48 \<le> n \<and> n \<le> 57"
    by (simp add: QChar_isDigit_def less_eq_char_def n_def)
  have "isxdigit ch \<longleftrightarrow> 48 \<le> n \<and> n \<le> 57 \<or> 65 \<le> n \<and> n \<le> 70 \<or> 97 \<le> n \<and> n \<le> 102"
    by (simp add: isxdigit_def eq) presburger
  then show ?thesis
    unfolding dig by (simp add: less_eq_char_def up) auto
qed

lemma normalizeFingerprint_eq: "normalizeFingerprint = NormalizeFingerprint"
proof
  fix fp show "normalizeFingerprint fp = NormalizeFingerprint fp"
    by (induction fp) (simp_all add: normalizeFingerprint_def NormalizeFingerprint_def fingerprint_char)
qed

abbreviation server_result :: "bool \<times> bytes list \<times> 'ssl DtlsTransport \<Rightarrow> bool \<times> bytes list \<times> 'ssl DtlsTransport" where
  "server_result \<equiv> map_prod id (map_prod id (\<lambda>d. erase_error d))"

abbreviation client_result ::
  "bool \<times> bytes list \<times> 'ssl DtlsTransportClient \<Rightarrow> bool \<times> bytes list \<times> 'ssl DtlsTransport" where
  "client_result \<equiv> map_prod id (map_prod id dtls_view)"

lemma dtls_view_sel [simp]:
  "dtls_role (dtls_view c) = RoleClient" "dtls_ssl (dtls_view c) = dc_ssl c"
  "dtls_started (dtls_view c) = dc_started c" "dtls_connected (dtls_view c) = dc_connected c"
  "dtls_expectedPeerFingerprint (dtls_view c) = dc_expectedServerFingerprint c"
  "dtls_peerFingerprint (dtls_view c) = dc_peerFingerprint c"
  by (simp_all add: dtls_view_def)

lemma dtls_view_upd [simp]:
  "dtls_view (c\<lparr>dc_identity := i\<rparr>) = dtls_view c"
  "dtls_view (c\<lparr>dc_localFingerprint := f\<rparr>) = dtls_view c"
  "dtls_view (c\<lparr>dc_lastError := e\<rparr>) = dtls_view c"
  "dtls_view (c\<lparr>dc_ssl := s\<rparr>) = (dtls_view c)\<lparr>dtls_ssl := s\<rparr>"
  "dtls_view (c\<lparr>dc_started := b\<rparr>) = (dtls_view c)\<lparr>dtls_started := b\<rparr>"
  "dtls_view (c\<lparr>dc_connected := b\<rparr>) = (dtls_view c)\<lparr>dtls_connected := b\<rparr>"
  "dtls_view (c\<lparr>dc_expectedServerFingerprint := f\<rparr>) = (dtls_view c)\<lparr>dtls_expectedPeerFingerprint := f\<rparr>"
  "dtls_view (c\<lparr>dc_peerFingerprint := f\<rparr>) = (dtls_view c)\<lparr>dtls_peerFingerprint := f\<rparr>"
  "dtls_view (c\<lparr>dc_selectedSrtpProfile := f\<rparr>) = (dtls_view c)\<lparr>dtls_selectedSrtpProfile := f\<rparr>"
  by (simp_all add: dtls_view_def)

lemma erase_dtls_view [simp]: "erase_error (dtls_view c) = dtls_view c"
  by (simp add: dtls_view_def)

lemma client_drain_view:
  "server_result (finish_drain api want ssl (dtls_view c)) = client_result (client_drain api want ssl c)"
  by (cases "DrainBio api want ssl"; cases "fst (DrainBio api want ssl)")
    (auto simp: finish_drain_def client_drain_def drainBio_def dtls_view_def)

lemma check_server_view:
  "server_result (check_peer api want ssl (dtls_view c)) = client_result (check_server api want ssl c)"
  using client_drain_view [of api want ssl "c\<lparr>dc_peerFingerprint := f, dc_selectedSrtpProfile := p\<rparr>" for f p]
  by (auto simp: check_peer_def check_server_def exportPeerFingerprint_def formatFingerprint_def
      normalizeFingerprint_eq Let_def dtls_view_def split: option.split)

lemma ensureLocalIdentity_view:
  "ensureLocalIdentity capi c = (ok, c') \<Longrightarrow> dtls_view c' = dtls_view c"
  by (auto simp: ensureLocalIdentity_def split: if_splits option.splits)

text \<open>The context the server has ready before it starts a transport.\<close>

definition client_context_ready :: "'ssl client_openssl \<Rightarrow> 'ssl DtlsTransportClient \<Rightarrow> bool" where
  "client_context_ready capi c \<longleftrightarrow>
     fst (ensureLocalIdentity capi c) \<and> SSL_CTX_new_ok capi \<and> SSL_CTX_configure_ok capi"

lemma start_view:
  assumes "\<not> dc_started c"
  shows "server_result (DtlsTransport_Start (ssl_api capi) (client_context_ready capi c) fp want (dtls_view c)) =
    client_result (DtlsTransportClient_start capi fp want c)"
proof -
  obtain ok c1 where id: "ensureLocalIdentity capi c = (ok, c1)" by fastforce
  then have v: "dtls_view c1 = dtls_view c" by (rule ensureLocalIdentity_view)
  have drain: "server_result (finish_drain (ssl_api capi) want ssl
      ((dtls_view c)\<lparr>dtls_ssl := s, dtls_expectedPeerFingerprint := f, dtls_started := b, dtls_lastError := []\<rparr>)) =
    client_result (client_drain (ssl_api capi) want ssl
      (c1\<lparr>dc_ssl := s, dc_expectedServerFingerprint := f, dc_started := b, dc_lastError := []\<rparr>))" for ssl s f b
    using client_drain_view [of "ssl_api capi" want ssl
        "c1\<lparr>dc_ssl := s, dc_expectedServerFingerprint := f, dc_started := b, dc_lastError := []\<rparr>"]
    by (simp add: v) (simp add: dtls_view_def)
  show ?thesis
    using assms id v
    by (cases ok; cases "SSL_new (ssl_api capi)")
      (auto simp: DtlsTransport_Start_def DtlsTransportClient_start_def client_context_ready_def
        normalizeFingerprint_eq Let_def drain split: prod.split, auto simp: dtls_view_def)
qed

lemma handleIncomingDatagram_view:
  "server_result (DtlsTransport_HandleIncomingDatagram (ssl_api capi) data want (dtls_view c)) =
   client_result (handleIncomingDatagram capi data want c)"
proof (cases "\<not> dc_started c \<or> data = [] \<or> dc_ssl c = None")
  case True
  then show ?thesis
    by (cases "dc_ssl c") (auto simp: DtlsTransport_HandleIncomingDatagram_def handleIncomingDatagram_def Let_def)
next
  case False
  then obtain ssl where ssl: "dc_ssl c = Some ssl" "dc_started c" "data \<noteq> []" by auto
  obtain w ssl1 where w: "BIO_write (ssl_api capi) data ssl = (w, ssl1)" by (metis prod.exhaust)
  obtain r ssl2 where r: "SSL_do_handshake (ssl_api capi) ssl1 = (r, ssl2)" by (metis prod.exhaust)
  show ?thesis
    using ssl w r client_drain_view [of "ssl_api capi" want ssl2 "c\<lparr>dc_ssl := Some ssl2\<rparr>"]
      check_server_view [of "ssl_api capi" want ssl2 "c\<lparr>dc_ssl := Some ssl2, dc_connected := True\<rparr>"]
    by (simp add: DtlsTransport_HandleIncomingDatagram_def handleIncomingDatagram_def Let_def)
      (simp add: dtls_view_def)
qed

lemma exportSrtpKeyMaterial_view:
  "exportSrtpKeyMaterial capi k n c = ExportSrtpKeyMaterial (ssl_api capi) k n (dtls_view c)"
  by (auto simp: exportSrtpKeyMaterial_def ExportSrtpKeyMaterial_def Let_def mult.commute split: option.split)

lemma looksLikeDtlsRecord_eq: "looksLikeDtlsRecord = LooksLikeDtlsRecord"
  by (rule ext) (auto simp: looksLikeDtlsRecord_def LooksLikeDtlsRecord_def byte_at_def)

lemma dtls_inv_erase [simp]: "dtls_inv api (erase_error d) = dtls_inv api d"
  by (simp add: dtls_inv_def)

lemma dtls_checked_erase [simp]: "dtls_checked api (erase_error d) = dtls_checked api d"
  by (simp add: dtls_checked_def peer_verified_def)

lemma client_handle_props:
  assumes "handleIncomingDatagram capi data want c = (ok, out, c')"
    and "handshake_stays_complete (ssl_api capi)" "peer_certificate_fixed (ssl_api capi)"
    and "dtls_inv (ssl_api capi) (dtls_view c)"
  shows "dtls_inv (ssl_api capi) (dtls_view c')"
    "ok \<Longrightarrow> dc_connected c' \<Longrightarrow> dtls_checked (ssl_api capi) (dtls_view c')"
    "dtls_checked (ssl_api capi) (dtls_view c) \<Longrightarrow> dtls_checked (ssl_api capi) (dtls_view c')"
    "dc_expectedServerFingerprint c' = dc_expectedServerFingerprint c"
    "dc_ssl c = None \<Longrightarrow> dc_ssl c' = None"
proof -
  obtain ok1 out1 d where h: "DtlsTransport_HandleIncomingDatagram (ssl_api capi) data want (dtls_view c) = (ok1, out1, d)"
    by (metis prod_cases3)
  then have eq: "ok1 = ok" "dtls_view c' = erase_error d"
    using handleIncomingDatagram_view [of capi data want c] assms(1) by auto
  note props = HandleIncoming_props [OF h assms(2-4)]
  show "dtls_inv (ssl_api capi) (dtls_view c')"
    "ok \<Longrightarrow> dc_connected c' \<Longrightarrow> dtls_checked (ssl_api capi) (dtls_view c')"
    "dtls_checked (ssl_api capi) (dtls_view c) \<Longrightarrow> dtls_checked (ssl_api capi) (dtls_view c')"
    using props eq dtls_view_sel(4) [of c'] by auto
  show "dc_expectedServerFingerprint c' = dc_expectedServerFingerprint c" "dc_ssl c = None \<Longrightarrow> dc_ssl c' = None"
    using HandleIncoming_expected [OF h] eq dtls_view_sel(2,5) [of c'] by auto
qed

section \<open>The SRTP context and the server's SRTP session\<close>

definition srtp_view :: "'s SRTPContext \<Rightarrow> 's SrtpSession" where
  "srtp_view s =
     \<lparr> srs_masterKey = sc_masterKey s, srs_masterSalt = sc_masterSalt s, srs_lastError = [],
       srs_session = sc_session s \<rparr>"

abbreviation erase_srtp :: "'s SrtpSession \<Rightarrow> 's SrtpSession" where
  "erase_srtp s \<equiv> s\<lparr>srs_lastError := []\<rparr>"

lemma configure_view:
  "map_prod id srtp_view (SRTPContext_configure lib k n dir ssrc s) =
   map_prod id (\<lambda>s. erase_srtp s) (SrtpSession_Configure lib k n dir ssrc (srtp_view s))"
  by (auto simp: SRTPContext_configure_def SrtpSession_Configure_def SRTPContext_clear_def
      SrtpSession_Reset_def srtp_view_def Let_def split: option.split prod.split)

lemma context_protect_view:
  "map_prod id (map_prod id srtp_view) (context_protect lib native opn e p s) =
   map_prod id (map_prod id (\<lambda>s. erase_srtp s)) (protect_packet lib native opn e p (srtp_view s))"
  by (auto simp: context_protect_def protect_packet_def SRTPContext_configured_def
      SrtpSession_IsConfigured_def srtp_view_def Let_def split: option.split prod.split)

lemma context_unprotect_view:
  "map_prod id (map_prod id srtp_view) (context_unprotect lib native opn e p s) =
   map_prod id (map_prod id (\<lambda>s. erase_srtp s)) (unprotect_packet lib native opn e p (srtp_view s))"
  by (auto simp: context_unprotect_def unprotect_packet_def SRTPContext_configured_def
      SrtpSession_IsConfigured_def srtp_view_def Let_def split: option.split prod.split)

lemma configured_iff_keys:
  "SRTPContext_configured s \<longleftrightarrow> SrtpSession_IsConfigured (srtp_view s)"
  by (simp add: SRTPContext_configured_def SrtpSession_IsConfigured_def srtp_view_def)

text \<open>A replay is reported exactly when libsrtp refused the last packet as replayed.\<close>

lemma unprotect_replay:
  assumes "sc_session s = Some session" "SRTPContext_configured s" "have_libsrtp2 lib" "p \<noteq> []"
    "native p session = (status, n, buf, session')" "n > 0"
  shows "lastFailureWasReplay lib (snd (snd (context_unprotect lib native opn e p s))) \<longleftrightarrow> status = 9 \<or> status = 10"
  using assms by (simp add: context_unprotect_def lastFailureWasReplay_def)

end
