(* ===== verification/IceClient.thy ===== *)
theory IceClient
  imports MediaCodec
begin

text \<open>
  The client's side of connectivity establishment (\<open>plasma-hawking/src/net/ice\<close>): STUN binding
  requests (\<open>StunClient.cpp\<close>) and the messages of a TURN allocation (\<open>TurnClient.cpp\<close>). Text is
  kept as its UTF-8 bytes. Parameters stand for Qt: \<open>qt_text\<close> holds the text functions the URL
  parsers call, \<open>qt_crypto\<close> the two hash functions, and \<open>udp\<close> the outcomes of the socket calls of a
  binding request. The reads of a datagram are checked: \<open>None\<close> is a read outside it.
\<close>

section \<open>Addresses and attributes\<close>

datatype QHostAddress = NullAddress | IPv4 u32 | IPv6 string

record StunEndpoint =
  se_address :: QHostAddress
  se_port :: u16

definition StunEndpoint_new :: StunEndpoint where
  "StunEndpoint_new = \<lparr> se_address = NullAddress, se_port = 0 \<rparr>"

definition StunEndpoint_isValid :: "StunEndpoint \<Rightarrow> bool" where
  "StunEndpoint_isValid e \<longleftrightarrow> se_address e \<noteq> NullAddress \<and> se_port e \<noteq> 0"

definition kMagicCookie :: u32 where "kMagicCookie = 0x2112A442"
definition kStunHeaderSize :: nat where "kStunHeaderSize = 20"
definition kAttrMappedAddress :: u16 where "kAttrMappedAddress = 0x0001"
definition kAttrXorMappedAddress :: u16 where "kAttrXorMappedAddress = 0x0020"

definition paddedLength :: "nat \<Rightarrow> nat" where
  "paddedLength n = (n + 3) div 4 * 4"

text \<open>The address attribute at \<open>value\<close>, of \<open>length\<close> bytes; \<open>None\<close> inside is the result \<open>false\<close>.\<close>

definition stun_parseAddressAttribute :: "u16 \<Rightarrow> bytes \<Rightarrow> nat \<Rightarrow> nat \<Rightarrow> StunEndpoint option mem" where
  "stun_parseAddressAttribute attrType data value len =
     (if len < 8 then Some None
      else do {
        family \<leftarrow> byte_at data (value + 1);
        if family \<noteq> 0x01 then Some None
        else do {
          port \<leftarrow> ReadU16 data (value + 2);
          address \<leftarrow> ReadU32 data (value + 4);
          let port = (if attrType = kAttrXorMappedAddress then port XOR ucast (drop_bit 16 kMagicCookie) else port);
          let address = (if attrType = kAttrXorMappedAddress then address XOR kMagicCookie else address);
          let endpoint = \<lparr> se_address = IPv4 address, se_port = port \<rparr>;
          Some (if StunEndpoint_isValid endpoint then Some endpoint else None) } })"

section \<open>STUN\<close>

record StunClient =
  st_timeoutMs :: int
  st_retryCount :: int

definition StunClient_new :: StunClient where
  "StunClient_new = \<lparr> st_timeoutMs = 250, st_retryCount = 2 \<rparr>"

definition setTimeoutMs :: "int \<Rightarrow> StunClient \<Rightarrow> StunClient" where
  "setTimeoutMs timeoutMs s = s\<lparr>st_timeoutMs := min (max timeoutMs 50) 5000\<rparr>"

definition setRetryCount :: "int \<Rightarrow> StunClient \<Rightarrow> StunClient" where
  "setRetryCount retryCount s = s\<lparr>st_retryCount := min (max retryCount 1) 5\<rparr>"

text \<open>The argument is the sequence of values the random generator returns.\<close>

definition makeTransactionId :: "(nat \<Rightarrow> u32) \<Rightarrow> bytes" where
  "makeTransactionId rnd = map (\<lambda>i. ucast (rnd i AND 0xFF)) [0..<12]"

definition buildBindingRequest :: "bytes \<Rightarrow> bytes" where
  "buildBindingRequest transactionId =
     (if length transactionId \<noteq> 12 then []
      else AppendU16 0x0001 @ AppendU16 0 @ AppendU32 kMagicCookie @ transactionId)"

text \<open>The loop over the attributes; the last argument is the fallback address found so far.\<close>

function binding_from :: "bytes \<Rightarrow> nat \<Rightarrow> nat \<Rightarrow> StunEndpoint \<Rightarrow> (string + StunEndpoint) mem" where
  "binding_from data msgEnd offset fallback =
     (if offset + 4 \<le> msgEnd then do {
        attrType \<leftarrow> ReadU16 data offset;
        attrLen \<leftarrow> ReadU16 data (offset + 2);
        let attrLength = unat attrLen;
        let offset' = offset + 4;
        if offset' + attrLength > msgEnd
        then Some (if StunEndpoint_isValid fallback then Inr fallback else Inl ''STUN response missing mapped address'')
        else if attrType = kAttrXorMappedAddress \<or> attrType = kAttrMappedAddress then do {
          parsed \<leftarrow> stun_parseAddressAttribute attrType data offset' attrLength;
          case parsed of
            Some endpoint \<Rightarrow>
              if attrType = kAttrXorMappedAddress then Some (Inr endpoint)
              else binding_from data msgEnd (offset' + paddedLength attrLength) endpoint
          | None \<Rightarrow> binding_from data msgEnd (offset' + paddedLength attrLength) fallback }
        else binding_from data msgEnd (offset' + paddedLength attrLength) fallback }
      else Some (if StunEndpoint_isValid fallback then Inr fallback else Inl ''STUN response missing mapped address''))"
  by pat_completeness auto
termination
  by (relation "measure (\<lambda>(data, msgEnd, offset, fallback). msgEnd - offset)") auto

declare binding_from.simps [simp del]

definition parseBindingResponse :: "bytes \<Rightarrow> bytes \<Rightarrow> (string + StunEndpoint) mem" where
  "parseBindingResponse datagram expectedTransactionId =
     (if length datagram < kStunHeaderSize \<or> length expectedTransactionId \<noteq> 12
      then Some (Inl ''short STUN response'')
      else do {
        ty \<leftarrow> ReadU16 datagram 0;
        cookie \<leftarrow> ReadU32 datagram 4;
        if ty \<noteq> 0x0101 \<or> cookie \<noteq> kMagicCookie then Some (Inl ''not a STUN binding success response'')
        else if take 12 (drop 8 datagram) \<noteq> expectedTransactionId then Some (Inl ''STUN transaction id mismatch'')
        else do {
          messageLength \<leftarrow> ReadU16 datagram 2;
          if length datagram < kStunHeaderSize + unat messageLength then Some (Inl ''truncated STUN attributes'')
          else binding_from datagram (kStunHeaderSize + unat messageLength) kStunHeaderSize StunEndpoint_new } })"

text \<open>
  One attempt of a binding request, as the socket sees it: the number of bytes sent, the text of an
  error, whether something arrived in time, and the datagrams that are pending then.
\<close>

record udp_attempt =
  ua_transactionId :: bytes
  ua_sent :: "bytes \<Rightarrow> int"
  ua_errorString :: string
  ua_ready :: "int \<Rightarrow> bool"
  ua_pending :: "bytes list"

record StunBindingResult =
  br_success :: bool
  br_mappedAddress :: StunEndpoint
  br_error :: string

definition StunBindingResult_new :: StunBindingResult where
  "StunBindingResult_new = \<lparr> br_success = False, br_mappedAddress = StunEndpoint_new, br_error = [] \<rparr>"

fun read_pending :: "bytes \<Rightarrow> bytes list \<Rightarrow> StunBindingResult \<Rightarrow> StunBindingResult mem" where
  "read_pending transactionId [] result = Some result"
| "read_pending transactionId (datagram # pending) result = do {
     parsed \<leftarrow> parseBindingResponse datagram transactionId;
     case parsed of
       Inr mapped \<Rightarrow> Some \<lparr> br_success = True, br_mappedAddress = mapped, br_error = [] \<rparr>
     | Inl parseError \<Rightarrow> read_pending transactionId pending (result\<lparr>br_error := parseError\<rparr>) }"

fun binding_attempts :: "StunClient \<Rightarrow> udp_attempt list \<Rightarrow> StunBindingResult \<Rightarrow> StunBindingResult mem" where
  "binding_attempts s [] result = Some result"
| "binding_attempts s (a # as) result =
     (let request = buildBindingRequest (ua_transactionId a) in
      if ua_sent a request \<noteq> int (length request) then binding_attempts s as (result\<lparr>br_error := ua_errorString a\<rparr>)
      else if \<not> ua_ready a (st_timeoutMs s) then binding_attempts s as (result\<lparr>br_error := ''STUN binding timeout''\<rparr>)
      else do {
        result' \<leftarrow> read_pending (ua_transactionId a) (ua_pending a) result;
        if br_success result' then Some result' else binding_attempts s as result' })"

record qt_text =
  qt_trimmed :: "string \<Rightarrow> string"
  qt_toUShort :: "string \<Rightarrow> u16 option"
  qt_startsWithCI :: "string \<Rightarrow> string \<Rightarrow> bool"
  qt_hostAddress :: "string \<Rightarrow> QHostAddress"
  qt_hostText :: "QHostAddress \<Rightarrow> string"

definition bindingRequest ::
  "qt_text \<Rightarrow> (u16 \<Rightarrow> string option) \<Rightarrow> udp_attempt list \<Rightarrow> string \<Rightarrow> u16 \<Rightarrow> u16 \<Rightarrow> StunClient \<Rightarrow> StunBindingResult mem" where
  "bindingRequest qt bindSocket attempts host port localPort s =
     (if qt_trimmed qt host = [] \<or> port = 0 then Some (StunBindingResult_new\<lparr>br_error := ''invalid STUN endpoint''\<rparr>)
      else case bindSocket localPort of
        Some errorString \<Rightarrow> Some (StunBindingResult_new\<lparr>br_error := errorString\<rparr>)
      | None \<Rightarrow>
          if qt_hostAddress qt (qt_trimmed qt host) = NullAddress
          then Some (StunBindingResult_new\<lparr>br_error := ''STUN host must be an IPv4 address''\<rparr>)
          else binding_attempts s (take (nat (st_retryCount s)) attempts) StunBindingResult_new)"

text \<open>Host and port of a URL without its scheme.\<close>

definition host_and_port :: "qt_text \<Rightarrow> string \<Rightarrow> (string \<times> u16) option" where
  "host_and_port qt url =
     (let normalized = takeWhile (\<lambda>c. c \<noteq> CHR ''?'') url;
          colon = str_rfind (CHR '':'') normalized;
          parsedPort = (case colon of Some i \<Rightarrow> qt_toUShort qt (drop (i + 1) normalized) | None \<Rightarrow> Some 3478);
          parsedHost = (case colon of Some i \<Rightarrow> take i normalized | None \<Rightarrow> normalized)
      in case parsedPort of
           None \<Rightarrow> None
         | Some port \<Rightarrow> if qt_trimmed qt parsedHost = [] \<or> port = 0 then None else Some (qt_trimmed qt parsedHost, port))"

definition parseStunServerUrl :: "qt_text \<Rightarrow> string \<Rightarrow> (string \<times> u16) option" where
  "parseStunServerUrl qt url =
     (let normalized = qt_trimmed qt url
      in host_and_port qt (if qt_startsWithCI qt normalized ''stun:'' then drop 5 normalized else normalized))"

definition makeServerReflexiveCandidate :: "qt_text \<Rightarrow> QHostAddress \<Rightarrow> u16 \<Rightarrow> u32 \<Rightarrow> string" where
  "makeServerReflexiveCandidate qt host port priority =
     (if host = NullAddress \<or> port = 0 then []
      else ''candidate:2 1 udp '' @ nat_to_string (unat priority) @ '' '' @ qt_hostText qt host @ '' '' @
           nat_to_string (unat port) @ '' typ srflx'')"

section \<open>TURN\<close>

definition kAllocateRequest :: u16 where "kAllocateRequest = 0x0003"
definition kAllocateSuccess :: u16 where "kAllocateSuccess = 0x0103"
definition kAllocateError :: u16 where "kAllocateError = 0x0113"
definition kCreatePermissionRequest :: u16 where "kCreatePermissionRequest = 0x0008"
definition kCreatePermissionSuccess :: u16 where "kCreatePermissionSuccess = 0x0108"
definition kCreatePermissionError :: u16 where "kCreatePermissionError = 0x0118"
definition kSendIndication :: u16 where "kSendIndication = 0x0016"
definition kDataIndication :: u16 where "kDataIndication = 0x0017"
definition kAttrUsername :: u16 where "kAttrUsername = 0x0006"
definition kAttrMessageIntegrity :: u16 where "kAttrMessageIntegrity = 0x0008"
definition kAttrErrorCode :: u16 where "kAttrErrorCode = 0x0009"
definition kAttrRealm :: u16 where "kAttrRealm = 0x0014"
definition kAttrNonce :: u16 where "kAttrNonce = 0x0015"
definition kAttrXorRelayedAddress :: u16 where "kAttrXorRelayedAddress = 0x0016"
definition kAttrRequestedTransport :: u16 where "kAttrRequestedTransport = 0x0019"
definition kAttrXorPeerAddress :: u16 where "kAttrXorPeerAddress = 0x0012"
definition kAttrData :: u16 where "kAttrData = 0x0013"

lemmas turn_consts = kAllocateRequest_def kAllocateSuccess_def kAllocateError_def kCreatePermissionRequest_def
  kCreatePermissionSuccess_def kCreatePermissionError_def kSendIndication_def kDataIndication_def
  kAttrUsername_def kAttrMessageIntegrity_def kAttrErrorCode_def kAttrRealm_def kAttrNonce_def
  kAttrXorRelayedAddress_def kAttrRequestedTransport_def kAttrXorPeerAddress_def kAttrData_def
  kMagicCookie_def kStunHeaderSize_def kAttrMappedAddress_def kAttrXorMappedAddress_def

definition updateLength :: "bytes \<Rightarrow> bytes" where
  "updateLength packet =
     (if length packet < kStunHeaderSize then packet
      else take 2 packet @ AppendU16 (of_nat (length packet - kStunHeaderSize)) @ drop 4 packet)"

definition appendHeader :: "bytes \<Rightarrow> u16 \<Rightarrow> bytes \<Rightarrow> bytes" where
  "appendHeader packet messageType transactionId =
     packet @ AppendU16 messageType @ AppendU16 0 @ AppendU32 kMagicCookie @ transactionId"

definition appendAttribute :: "u16 \<Rightarrow> bytes \<Rightarrow> bytes \<Rightarrow> bytes" where
  "appendAttribute ty value packet =
     updateLength (packet @ AppendU16 ty @ AppendU16 (of_nat (length value)) @ value @
                   replicate (paddedLength (length value) - length value) 0)"

definition addressAttributeValue :: "QHostAddress \<Rightarrow> u16 \<Rightarrow> bytes" where
  "addressAttributeValue address port =
     (case address of
        IPv4 a \<Rightarrow> if port = 0 then []
          else [0, 0x01] @ AppendU16 (port XOR ucast (drop_bit 16 kMagicCookie)) @ AppendU32 (a XOR kMagicCookie)
      | _ \<Rightarrow> [])"

definition turn_parseAddressAttribute :: "bytes \<Rightarrow> StunEndpoint option mem" where
  "turn_parseAddressAttribute value = stun_parseAddressAttribute kAttrXorMappedAddress value 0 (length value)"

record qt_crypto =
  qc_md5 :: "bytes \<Rightarrow> bytes"
  qc_hmacSha1 :: "bytes \<Rightarrow> bytes \<Rightarrow> bytes"

definition toUtf8 :: "string \<Rightarrow> bytes" where
  "toUtf8 s = map (\<lambda>c. of_nat (of_char c)) s"

definition longTermKey :: "qt_crypto \<Rightarrow> string \<Rightarrow> string \<Rightarrow> string \<Rightarrow> bytes" where
  "longTermKey qc username realm credential = qc_md5 qc (toUtf8 (username @ '':'' @ realm @ '':'' @ credential))"

text \<open>The digest of SHA-1 has 20 bytes, which are copied over the zeroes.\<close>

definition appendMessageIntegrity :: "qt_crypto \<Rightarrow> string \<Rightarrow> string \<Rightarrow> string \<Rightarrow> bytes \<Rightarrow> bytes" where
  "appendMessageIntegrity qc username realm credential packet =
     (let attrOffset = length packet;
          packet' = updateLength (packet @ AppendU16 kAttrMessageIntegrity @ AppendU16 20 @ replicate 20 0);
          hmac = qc_hmacSha1 qc (take attrOffset packet') (longTermKey qc username realm credential)
      in take (attrOffset + 4) packet' @ take 20 hmac @ drop (attrOffset + 24) packet')"

definition parseErrorCode :: "bytes \<Rightarrow> string mem" where
  "parseErrorCode value =
     (if length value < 4 then Some ''TURN error response''
      else do {
        b2 \<leftarrow> byte_at value 2;
        b3 \<leftarrow> byte_at value 3;
        let code = nat_to_string (unat b2 * 100 + unat b3);
        let reason = bytes_to_string (drop 4 value);
        Some (if reason = [] then ''TURN error '' @ code else ''TURN error '' @ code @ '': '' @ reason) })"

function attrs_from :: "bytes \<Rightarrow> nat \<Rightarrow> nat \<Rightarrow> (u16 \<rightharpoonup> bytes) \<Rightarrow> (u16 \<rightharpoonup> bytes) mem" where
  "attrs_from data msgEnd offset attrs =
     (if offset + 4 \<le> msgEnd then do {
        attrType \<leftarrow> ReadU16 data offset;
        attrLen \<leftarrow> ReadU16 data (offset + 2);
        let attrLength = unat attrLen;
        let offset' = offset + 4;
        if offset' + attrLength > msgEnd then Some attrs
        else if offset' + attrLength > length data then None
        else attrs_from data msgEnd (offset' + paddedLength attrLength)
               (attrs(attrType \<mapsto> take attrLength (drop offset' data))) }
      else Some attrs)"
  by pat_completeness auto
termination
  by (relation "measure (\<lambda>(data, msgEnd, offset, attrs). msgEnd - offset)") auto

declare attrs_from.simps [simp del]

definition parseAttributes :: "bytes \<Rightarrow> (string + (u16 \<rightharpoonup> bytes)) mem" where
  "parseAttributes datagram =
     (if length datagram < kStunHeaderSize then Some (Inl ''invalid TURN/STUN header'')
      else do {
        cookie \<leftarrow> ReadU32 datagram 4;
        if cookie \<noteq> kMagicCookie then Some (Inl ''invalid TURN/STUN header'')
        else do {
          messageLength \<leftarrow> ReadU16 datagram 2;
          if length datagram < kStunHeaderSize + unat messageLength then Some (Inl ''truncated TURN/STUN message'')
          else map_option Inr (attrs_from datagram (kStunHeaderSize + unat messageLength) kStunHeaderSize (\<lambda>_. None)) } })"

definition transactionMatches :: "bytes \<Rightarrow> bytes \<Rightarrow> bool" where
  "transactionMatches datagram expectedTransactionId \<longleftrightarrow>
     length datagram \<ge> kStunHeaderSize \<and> length expectedTransactionId = 12 \<and>
     take 12 (drop 8 datagram) = expectedTransactionId"

definition parseTurnServerUrl :: "qt_text \<Rightarrow> string \<Rightarrow> (string \<times> u16) option" where
  "parseTurnServerUrl qt url =
     (let normalized = qt_trimmed qt url
      in if qt_startsWithCI qt normalized ''turn:'' then host_and_port qt (drop 5 normalized)
         else if qt_startsWithCI qt normalized ''turns:'' then host_and_port qt (drop 6 normalized)
         else None)"

text \<open>
  \<open>transport.resize(4)\<close> leaves the new bytes unset and only the first is written, so the other
  three, \<open>unset\<close>, are whatever the memory held.
\<close>

definition buildAllocateRequest :: "bytes \<Rightarrow> bytes \<Rightarrow> bytes" where
  "buildAllocateRequest unset transactionId =
     (if length transactionId \<noteq> 12 then []
      else appendAttribute kAttrRequestedTransport (17 # take 3 unset) (appendHeader [] kAllocateRequest transactionId))"

definition buildAuthenticatedAllocateRequest ::
  "qt_crypto \<Rightarrow> bytes \<Rightarrow> bytes \<Rightarrow> string \<Rightarrow> string \<Rightarrow> string \<Rightarrow> string \<Rightarrow> bytes" where
  "buildAuthenticatedAllocateRequest qc unset transactionId username realm nonce credential =
     (let packet = buildAllocateRequest unset transactionId
      in if packet = [] \<or> username = [] \<or> realm = [] \<or> nonce = [] then []
         else appendMessageIntegrity qc username realm credential
                (appendAttribute kAttrNonce (toUtf8 nonce)
                  (appendAttribute kAttrRealm (toUtf8 realm)
                    (appendAttribute kAttrUsername (toUtf8 username) packet))))"

definition is_ipv4 :: "QHostAddress \<Rightarrow> bool" where
  "is_ipv4 a \<longleftrightarrow> (case a of IPv4 _ \<Rightarrow> True | _ \<Rightarrow> False)"

definition buildCreatePermissionRequest ::
  "qt_crypto \<Rightarrow> bytes \<Rightarrow> QHostAddress \<Rightarrow> string \<Rightarrow> string \<Rightarrow> string \<Rightarrow> string \<Rightarrow> bytes" where
  "buildCreatePermissionRequest qc transactionId peerAddress username realm nonce credential =
     (if length transactionId \<noteq> 12 \<or> \<not> is_ipv4 peerAddress then []
      else appendMessageIntegrity qc username realm credential
             (appendAttribute kAttrNonce (toUtf8 nonce)
               (appendAttribute kAttrRealm (toUtf8 realm)
                 (appendAttribute kAttrUsername (toUtf8 username)
                   (appendAttribute kAttrXorPeerAddress (addressAttributeValue peerAddress 1)
                     (appendHeader [] kCreatePermissionRequest transactionId))))))"

definition buildSendIndication :: "(nat \<Rightarrow> u32) \<Rightarrow> QHostAddress \<Rightarrow> u16 \<Rightarrow> bytes \<Rightarrow> bytes" where
  "buildSendIndication rnd peerAddress peerPort payload =
     (let transactionId = makeTransactionId rnd
      in if \<not> is_ipv4 peerAddress \<or> peerPort = 0 \<or> payload = [] then []
         else appendAttribute kAttrData payload
                (appendAttribute kAttrXorPeerAddress (addressAttributeValue peerAddress peerPort)
                  (appendHeader [] kSendIndication transactionId)))"

record TurnAllocateResult =
  ta_success :: bool
  ta_relayedAddress :: StunEndpoint
  ta_mappedAddress :: StunEndpoint
  ta_realm :: string
  ta_nonce :: string
  ta_error :: string

definition TurnAllocateResult_new :: TurnAllocateResult where
  "TurnAllocateResult_new = \<lparr> ta_success = False, ta_relayedAddress = StunEndpoint_new,
     ta_mappedAddress = StunEndpoint_new, ta_realm = [], ta_nonce = [], ta_error = [] \<rparr>"

definition attr_value :: "(u16 \<rightharpoonup> bytes) \<Rightarrow> u16 \<Rightarrow> bytes" where
  "attr_value attrs ty = (case attrs ty of None \<Rightarrow> [] | Some v \<Rightarrow> v)"

definition parseAllocateResponse :: "bytes \<Rightarrow> bytes \<Rightarrow> TurnAllocateResult mem" where
  "parseAllocateResponse datagram expectedTransactionId =
     (if \<not> transactionMatches datagram expectedTransactionId
      then Some (TurnAllocateResult_new\<lparr>ta_error := ''TURN transaction id mismatch''\<rparr>)
      else do {
        parsed \<leftarrow> parseAttributes datagram;
        case parsed of
          Inl err \<Rightarrow> Some (TurnAllocateResult_new\<lparr>ta_error := err\<rparr>)
        | Inr attrs \<Rightarrow> do {
            messageType \<leftarrow> ReadU16 datagram 0;
            if messageType = kAllocateError then do {
              err \<leftarrow> (case attrs kAttrErrorCode of None \<Rightarrow> Some [] | Some v \<Rightarrow> parseErrorCode v);
              Some (TurnAllocateResult_new\<lparr>ta_realm := bytes_to_string (attr_value attrs kAttrRealm),
                ta_nonce := bytes_to_string (attr_value attrs kAttrNonce), ta_error := err\<rparr>) }
            else if messageType \<noteq> kAllocateSuccess
            then Some (TurnAllocateResult_new\<lparr>ta_error := ''unexpected TURN Allocate response''\<rparr>)
            else do {
              relay \<leftarrow> turn_parseAddressAttribute (attr_value attrs kAttrXorRelayedAddress);
              mapped \<leftarrow> turn_parseAddressAttribute (attr_value attrs kAttrXorMappedAddress);
              Some (case relay of
                      None \<Rightarrow> TurnAllocateResult_new\<lparr>ta_error := ''TURN Allocate missing relayed address''\<rparr>
                    | Some r \<Rightarrow> TurnAllocateResult_new\<lparr>ta_success := True, ta_relayedAddress := r,
                        ta_mappedAddress := (case mapped of None \<Rightarrow> StunEndpoint_new | Some m \<Rightarrow> m)\<rparr>) } } })"

definition parseCreatePermissionResponse :: "bytes \<Rightarrow> bytes \<Rightarrow> (string + unit) mem" where
  "parseCreatePermissionResponse datagram expectedTransactionId =
     (if \<not> transactionMatches datagram expectedTransactionId
      then Some (Inl ''TURN CreatePermission transaction id mismatch'')
      else do {
        parsed \<leftarrow> parseAttributes datagram;
        case parsed of
          Inl err \<Rightarrow> Some (Inl err)
        | Inr attrs \<Rightarrow> do {
            messageType \<leftarrow> ReadU16 datagram 0;
            if messageType = kCreatePermissionSuccess then Some (Inr ())
            else case attrs kAttrErrorCode of
              Some v \<Rightarrow> if messageType = kCreatePermissionError then map_option Inl (parseErrorCode v)
                        else Some (Inl ''unexpected TURN CreatePermission response'')
            | None \<Rightarrow> Some (Inl ''unexpected TURN CreatePermission response'') } })"

definition parseDataIndication :: "bytes \<Rightarrow> (string + StunEndpoint \<times> bytes) mem" where
  "parseDataIndication datagram =
     (if length datagram < kStunHeaderSize then Some (Inl ''not a TURN Data indication'')
      else do {
        messageType \<leftarrow> ReadU16 datagram 0;
        if messageType \<noteq> kDataIndication then Some (Inl ''not a TURN Data indication'')
        else do {
          parsed \<leftarrow> parseAttributes datagram;
          case parsed of
            Inl err \<Rightarrow> Some (Inl err)
          | Inr attrs \<Rightarrow> do {
              peer \<leftarrow> turn_parseAddressAttribute (attr_value attrs kAttrXorPeerAddress);
              Some (case (peer, attrs kAttrData) of
                      (Some p, Some payload) \<Rightarrow> Inr (p, payload)
                    | _ \<Rightarrow> Inl ''TURN Data indication missing peer or data'') } } })"

definition makeRelayCandidate :: "qt_text \<Rightarrow> QHostAddress \<Rightarrow> u16 \<Rightarrow> u32 \<Rightarrow> string" where
  "makeRelayCandidate qt host port priority =
     (if host = NullAddress \<or> port = 0 then []
      else ''candidate:3 1 udp '' @ nat_to_string (unat priority) @ '' '' @ qt_hostText qt host @ '' '' @
           nat_to_string (unat port) @ '' typ relay'')"


section \<open>Memory safety\<close>

lemma address_attribute_safe:
  "value + len \<le> length data \<Longrightarrow> stun_parseAddressAttribute ty data value len \<noteq> None"
  by (auto simp: stun_parseAddressAttribute_def Let_def)

lemma binding_from_safe: "msgEnd \<le> length data \<Longrightarrow> binding_from data msgEnd offset fallback \<noteq> None"
proof (induction data msgEnd offset fallback rule: binding_from.induct)
  case (1 data msgEnd offset fallback)
  show ?case
  proof (cases "offset + 4 \<le> msgEnd")
    case True
    then obtain t l where r: "ReadU16 data offset = Some t" "ReadU16 data (offset + 2) = Some l"
      using "1.prems" by simp
    show ?thesis
    proof (cases "offset + 4 + unat l > msgEnd")
      case True
      then show ?thesis using r by (subst binding_from.simps) simp
    next
      case False
      then obtain e where e: "stun_parseAddressAttribute t data (offset + 4) (unat l) = Some e"
        using address_attribute_safe "1.prems" by (metis le_trans not_less option.exhaust)
      show ?thesis
        using "1.IH" "1.prems" True False r e
        by (subst binding_from.simps) (auto simp: Let_def split: option.splits)
    qed
  qed (simp add: binding_from.simps)
qed

lemma parseBindingResponse_safe: "parseBindingResponse d tid \<noteq> None"
  using binding_from_safe [of _ d kStunHeaderSize StunEndpoint_new]
  by (auto simp: parseBindingResponse_def kStunHeaderSize_def not_less)

lemma attrs_from_safe: "msgEnd \<le> length data \<Longrightarrow> attrs_from data msgEnd offset attrs \<noteq> None"
proof (induction data msgEnd offset attrs rule: attrs_from.induct)
  case (1 data msgEnd offset attrs)
  show ?case
  proof (cases "offset + 4 \<le> msgEnd")
    case True
    then obtain t l where r: "ReadU16 data offset = Some t" "ReadU16 data (offset + 2) = Some l"
      using "1.prems" by simp
    then show ?thesis
      using "1.IH" [OF True r refl refl] "1.prems" True by (subst attrs_from.simps) (simp add: Let_def fun_upd_def)
  qed (simp add: attrs_from.simps)
qed

lemma parseAttributes_safe: "parseAttributes d \<noteq> None"
  using attrs_from_safe [of _ d kStunHeaderSize "\<lambda>_. None"]
  by (auto simp: parseAttributes_def kStunHeaderSize_def not_less)

lemma turn_address_safe: "turn_parseAddressAttribute v \<noteq> None"
  unfolding turn_parseAddressAttribute_def by (rule address_attribute_safe) simp

lemma parseErrorCode_safe: "parseErrorCode v \<noteq> None"
  by (auto simp: parseErrorCode_def Let_def)

lemma ice_parse_safe:
  "parseAllocateResponse datagram tid \<noteq> None"
  "parseCreatePermissionResponse datagram tid \<noteq> None"
  "parseDataIndication datagram \<noteq> None"
proof -
  obtain r where r: "parseAttributes datagram = Some r" using parseAttributes_safe by blast
  have addr: "\<exists>e. turn_parseAddressAttribute v = Some e" for v using turn_address_safe by blast
  have code: "\<exists>t. parseErrorCode v = Some t" for v using parseErrorCode_safe by blast
  show "parseAllocateResponse datagram tid \<noteq> None"
  proof (cases r)
    case (Inr attrs)
    obtain relay mapped where "turn_parseAddressAttribute (attr_value attrs kAttrXorRelayedAddress) = Some relay"
      "turn_parseAddressAttribute (attr_value attrs kAttrXorMappedAddress) = Some mapped" using addr by metis
    moreover obtain t where "(case attrs kAttrErrorCode of None \<Rightarrow> Some [] | Some v \<Rightarrow> parseErrorCode v) = Some t"
      using code by (cases "attrs kAttrErrorCode") auto
    ultimately show ?thesis
      using r Inr by (auto simp: parseAllocateResponse_def transactionMatches_def kStunHeaderSize_def)
  qed (simp add: parseAllocateResponse_def r)
  show "parseCreatePermissionResponse datagram tid \<noteq> None"
    using r code
    by (cases r) (auto simp: parseCreatePermissionResponse_def transactionMatches_def kStunHeaderSize_def bind_eq_Some_conv
        split: option.splits)
  show "parseDataIndication datagram \<noteq> None"
    using r addr by (cases r) (auto simp: parseDataIndication_def kStunHeaderSize_def bind_eq_Some_conv)
qed

text \<open>
  No datagram makes the client read outside its buffer while it establishes connectivity:
  whatever arrives in answer to a STUN or TURN request, or as a TURN indication, each of the four
  parsers returns a result, an address or an error.
\<close>

theorem ice_parsers_memory_safe:
  "parseBindingResponse datagram tid \<noteq> None \<and> parseAllocateResponse datagram tid \<noteq> None \<and>
   parseCreatePermissionResponse datagram tid \<noteq> None \<and> parseDataIndication datagram \<noteq> None"
  by (simp add: parseBindingResponse_safe ice_parse_safe)

section \<open>Messages that are read back\<close>

lemma cookie_port: "ucast (drop_bit 16 kMagicCookie) = (0x2112 :: u16)"
  by (simp add: kMagicCookie_def)

lemma address_roundtrip:
  assumes "port \<noteq> 0"
  shows "turn_parseAddressAttribute (addressAttributeValue (IPv4 a) port) = Some (Some \<lparr> se_address = IPv4 a, se_port = port \<rparr>)"
proof -
  let ?v = "[0, 0x01] @ AppendU16 (port XOR 0x2112) @ AppendU32 (a XOR kMagicCookie) @ []"
  have "ReadU16 ?v 2 = Some (port XOR 0x2112)" by (rule ReadU16_append) simp
  moreover have "ReadU32 (([0, 0x01] @ AppendU16 (port XOR 0x2112)) @ AppendU32 (a XOR kMagicCookie) @ []) 4 = Some (a XOR kMagicCookie)"
    by (rule ReadU32_append) simp
  moreover have "addressAttributeValue (IPv4 a) port = ?v" using assms by (simp add: addressAttributeValue_def cookie_port)
  ultimately show ?thesis
    using assms
    by (simp add: turn_parseAddressAttribute_def stun_parseAddressAttribute_def cookie_port StunEndpoint_isValid_def
        xor.assoc byte_at_def numeral_2_eq_2 [symmetric] Let_def del: ReadU16_in ReadU32_in)
qed

definition turn_packet :: "u16 \<Rightarrow> bytes \<Rightarrow> (u16 \<times> bytes) list \<Rightarrow> bytes" where
  "turn_packet ty tid attrs =
     (let body = concat (map stun_attr attrs)
      in AppendU16 ty @ AppendU16 (of_nat (length body)) @ AppendU32 kMagicCookie @ tid @ body)"

lemma appendHeader_packet: "appendHeader [] ty tid = turn_packet ty tid []"
  by (simp add: appendHeader_def turn_packet_def)

lemma appendAttribute_packet:
  assumes "length tid = 12"
  shows "appendAttribute t v (turn_packet ty tid attrs) = turn_packet ty tid (attrs @ [(t, v)])"
  using assms
  by (simp add: appendAttribute_def updateLength_def turn_packet_def Let_def stun_attr_def paddedLength_def
      kStunHeaderSize_def AppendU16_def AppendU32_def)

lemma attrs_from_attrs:
  assumes "\<forall>(t, v) \<in> set attrs. length v < 2 ^ 16" "length pre = offset" "data = pre @ concat (map stun_attr attrs)"
  shows "attrs_from data (length data) offset m = Some (m ++ map_of (rev attrs))"
  using assms
proof (induction attrs arbitrary: pre offset m)
  case Nil
  then show ?case by (simp add: attrs_from.simps)
next
  case (Cons a attrs)
  obtain t v where a: "a = (t, v)" by (cases a)
  let ?rest = "concat (map stun_attr attrs)"
  let ?pad = "replicate ((length v + 3) div 4 * 4 - length v) 0 :: bytes"
  have vlen: "length v < 2 ^ 16" using Cons.prems(1) a by auto
  have data: "data = pre @ AppendU16 t @ AppendU16 (of_nat (length v)) @ v @ ?pad @ ?rest"
    using Cons.prems(3) by (simp add: a stun_attr_def)
  have t: "ReadU16 data offset = Some t" unfolding data by (rule ReadU16_append [OF Cons.prems(2)])
  have l: "ReadU16 data (offset + 2) = Some (of_nat (length v))"
    using ReadU16_append [of "pre @ AppendU16 t" "offset + 2" "of_nat (length v)" "v @ ?pad @ ?rest"] Cons.prems(2)
    by (simp add: data)
  have n: "unat (of_nat (length v) :: u16) = length v" using vlen by (simp add: unat_of_nat take_bit_nat_eq_self)
  have len: "length data = offset + 4 + paddedLength (length v) + length ?rest"
    using Cons.prems(2) by (simp add: data paddedLength_def)
  have v: "take (length v) (drop (offset + 4) data) = v" using Cons.prems(2) by (simp add: data)
  have pad: "length v \<le> paddedLength (length v)" by (simp add: paddedLength_def)
  have "attrs_from data (length data) offset m =
      attrs_from data (length data) (offset + 4 + paddedLength (length v)) (m(t \<mapsto> v))"
    using len v pad by (subst attrs_from.simps) (simp add: t l l [simplified] n Let_def del: ReadU16_in)
  also have "\<dots> = Some (m(t \<mapsto> v) ++ map_of (rev attrs))"
    by (rule Cons.IH [where pre = "pre @ stun_attr a"]) (use Cons.prems in \<open>auto simp: a stun_attr_def paddedLength_def\<close>)
  finally show ?case by (simp add: a map_add_def fun_eq_iff split: option.splits)
qed

lemma attr_lengths:
  assumes "length (concat (map stun_attr attrs)) < 2 ^ 16"
  shows "\<forall>(t, v) \<in> set attrs. length v < 2 ^ 16"
proof clarify
  fix t v
  assume "(t, v) \<in> set attrs"
  then have "length (stun_attr (t, v)) \<le> length (concat (map stun_attr attrs))"
    by (simp add: length_concat comp_def member_le_sum_list rev_image_eqI)
  then show "length v < 2 ^ 16" using assms by (simp add: stun_attr_def)
qed

lemma parseAttributes_packet:
  assumes "length tid = 12" and "length (concat (map stun_attr attrs)) < 2 ^ 16"
  shows "parseAttributes (turn_packet ty tid attrs) = Some (Inr (map_of (rev attrs)))"
proof -
  let ?body = "concat (map stun_attr attrs)"
  let ?l = "of_nat (length ?body) :: u16"
  let ?d = "turn_packet ty tid attrs"
  have l: "unat ?l = length ?body" using assms(2) by (simp add: unat_of_nat take_bit_nat_eq_self)
  have d: "?d = AppendU16 ty @ AppendU16 ?l @ AppendU32 kMagicCookie @ tid @ ?body" by (simp add: turn_packet_def Let_def)
  have len: "length ?d = 20 + length ?body" using assms(1) by (simp add: d)
  have "ReadU16 ?d 2 = Some ?l" unfolding d by (rule ReadU16_append) simp
  moreover have "ReadU32 ((AppendU16 ty @ AppendU16 ?l) @ AppendU32 kMagicCookie @ tid @ ?body) 4 = Some kMagicCookie"
    by (rule ReadU32_append) simp
  moreover have "attrs_from ?d (length ?d) 20 (\<lambda>_. None) = Some ((\<lambda>_. None) ++ map_of (rev attrs))"
    using assms(1)
    by (intro attrs_from_attrs [OF attr_lengths [OF assms(2)],
          where pre = "AppendU16 ty @ AppendU16 ?l @ AppendU32 kMagicCookie @ tid"]) (simp_all add: d)
  ultimately show ?thesis
    using len l by (simp add: parseAttributes_def kStunHeaderSize_def d [symmetric] del: ReadU16_in ReadU32_in)
qed

text \<open>
  What a TURN server delivers is read back: the client takes from a Data indication exactly the peer's
  address and port and the payload, for every payload that fits a message.
\<close>

lemma data_indication_parsed:
  assumes "length tid = 12" "port \<noteq> 0" "length payload \<le> 65516"
  shows "parseDataIndication (turn_packet kDataIndication tid
      [(kAttrXorPeerAddress, addressAttributeValue (IPv4 a) port), (kAttrData, payload)]) =
    Some (Inr (\<lparr> se_address = IPv4 a, se_port = port \<rparr>, payload))"
proof -
  let ?addr = "addressAttributeValue (IPv4 a) port"
  let ?attrs = "[(kAttrXorPeerAddress, ?addr), (kAttrData, payload)]"
  have addr: "length ?addr = 8" using assms(2) by (simp add: addressAttributeValue_def)
  have "(length payload + 3) div 4 * 4 \<le> 65516" using assms(3) by presburger
  then have "length (concat (map stun_attr ?attrs)) < 2 ^ 16" using addr by (simp add: stun_attr_def)
  then have "parseAttributes (turn_packet kDataIndication tid ?attrs) = Some (Inr (map_of (rev ?attrs)))"
    by (rule parseAttributes_packet [OF assms(1)])
  moreover have "20 \<le> length (turn_packet kDataIndication tid ?attrs)" by (simp add: turn_packet_def Let_def assms(1))
  moreover have "ReadU16 ([] @ AppendU16 kDataIndication @ zs) 0 = Some kDataIndication" for zs
    by (rule ReadU16_append) simp
  ultimately show ?thesis
    unfolding parseDataIndication_def
    by (simp add: kStunHeaderSize_def attr_value_def kAttrData_def kAttrXorPeerAddress_def address_roundtrip [OF assms(2)])
      (simp add: turn_packet_def Let_def del: ReadU16_in)
qed

text \<open>
  The message integrity of an authenticated request: the digest is computed over everything before
  the attribute, with a length in the header that counts the attribute, and is the value of the
  attribute.
\<close>

lemma message_integrity:
  assumes "length tid = 12" and "\<And>m k. length (qc_hmacSha1 qc m k) = 20"
  shows "appendMessageIntegrity qc username realm credential (turn_packet ty tid attrs) =
    (let covered = AppendU16 ty @ AppendU16 (of_nat (24 + length (concat (map stun_attr attrs)))) @
           AppendU32 kMagicCookie @ tid @ concat (map stun_attr attrs)
     in turn_packet ty tid (attrs @
          [(kAttrMessageIntegrity, qc_hmacSha1 qc covered (longTermKey qc username realm credential))]))"
proof -
  let ?b = "concat (map stun_attr attrs)"
  let ?covered = "AppendU16 ty @ AppendU16 (of_nat (24 + length ?b)) @ AppendU32 kMagicCookie @ tid @ ?b"
  let ?p = "turn_packet ty tid attrs"
  have len: "length ?p = 20 + length ?b" using assms(1) by (simp add: turn_packet_def Let_def)
  have "updateLength (?p @ AppendU16 kAttrMessageIntegrity @ AppendU16 20 @ replicate 20 0) =
      ?covered @ AppendU16 kAttrMessageIntegrity @ AppendU16 20 @ replicate 20 0"
    using assms(1)
    by (simp add: updateLength_def turn_packet_def Let_def kStunHeaderSize_def AppendU16_def AppendU32_def)
  moreover have "take (20 + length ?b) (?covered @ xs) = ?covered" "take (24 + length ?b) (?covered @ AppendU16 x @ AppendU16 y @ xs) =
      ?covered @ AppendU16 x @ AppendU16 y" "drop (44 + length ?b) (?covered @ AppendU16 x @ AppendU16 y @ replicate 20 0) = []"
    for xs x y using assms(1) by simp_all
  ultimately show ?thesis
    using assms(2) by (simp add: appendMessageIntegrity_def Let_def len turn_packet_def stun_attr_def add.commute)
qed

text \<open>
  An authenticated TURN request as the protocol has it: the attributes of the request, then the user
  name, the realm and the nonce, and last the digest of everything before it under the long-term key.
\<close>

definition authenticated_request ::
  "qt_crypto \<Rightarrow> u16 \<Rightarrow> bytes \<Rightarrow> (u16 \<times> bytes) list \<Rightarrow> string \<Rightarrow> string \<Rightarrow> string \<Rightarrow> string \<Rightarrow> bytes" where
  "authenticated_request qc ty tid attrs username realm nonce credential =
     (let body = attrs @ [(0x0006, toUtf8 username), (0x0014, toUtf8 realm), (0x0015, toUtf8 nonce)];
          covered = AppendU16 ty @ AppendU16 (of_nat (24 + length (concat (map stun_attr body)))) @
            AppendU32 0x2112A442 @ tid @ concat (map stun_attr body);
          key = qc_md5 qc (toUtf8 (username @ '':'' @ realm @ '':'' @ credential))
      in turn_packet ty tid (body @ [(0x0008, qc_hmacSha1 qc covered key)]))"

lemma allocate_authenticated:
  assumes "\<And>m k. length (qc_hmacSha1 qc m k) = 20"
    and "buildAuthenticatedAllocateRequest qc unset tid username realm nonce credential \<noteq> []"
  shows "buildAuthenticatedAllocateRequest qc unset tid username realm nonce credential =
    authenticated_request qc 0x0003 tid [(0x0019, 17 # take 3 unset)] username realm nonce credential"
proof -
  have tid: "length tid = 12"
    using assms(2) by (auto simp: buildAuthenticatedAllocateRequest_def buildAllocateRequest_def Let_def split: if_splits)
  show ?thesis using assms(2) tid
    by (simp add: buildAuthenticatedAllocateRequest_def buildAllocateRequest_def appendHeader_packet appendAttribute_packet
        message_integrity [OF tid assms(1)] authenticated_request_def longTermKey_def turn_consts kMagicCookie_def Let_def
        split: if_splits)
qed

lemma permission_authenticated:
  assumes "\<And>m k. length (qc_hmacSha1 qc m k) = 20"
    and "buildCreatePermissionRequest qc tid peerAddress username realm nonce credential \<noteq> []"
  shows "\<exists>value. buildCreatePermissionRequest qc tid peerAddress username realm nonce credential =
      authenticated_request qc 0x0008 tid [(0x0012, value)] username realm nonce credential \<and>
    turn_parseAddressAttribute value = Some (Some \<lparr> se_address = peerAddress, se_port = 1 \<rparr>)"
proof -
  have tid: "length tid = 12" and "is_ipv4 peerAddress"
    using assms(2) by (auto simp: buildCreatePermissionRequest_def split: if_splits)
  then obtain a where a: "peerAddress = IPv4 a" by (cases peerAddress) (auto simp: is_ipv4_def)
  have "buildCreatePermissionRequest qc tid peerAddress username realm nonce credential =
      authenticated_request qc 0x0008 tid [(0x0012, addressAttributeValue peerAddress 1)] username realm nonce credential"
    using tid a
    by (simp add: buildCreatePermissionRequest_def appendHeader_packet appendAttribute_packet
        message_integrity [OF tid assms(1)] authenticated_request_def longTermKey_def turn_consts kMagicCookie_def Let_def
        is_ipv4_def)
  then show ?thesis using address_roundtrip [of 1 a] a by auto
qed

section \<open>Asking the server for the own address\<close>

lemma be32_cookie: "AppendU32 kMagicCookie = [0x21, 0x12, 0xA4, 0x42]"
  by (simp add: AppendU32_def kMagicCookie_def)

lemma binding_answer_parsed:
  fixes addr :: u32
  assumes "length tid = 12" and "port \<noteq> 0"
  defines "d \<equiv> [0x01, 0x01, 0x00, 0x0C, 0x21, 0x12, 0xA4, 0x42] @ tid @
    [0x00, 0x20, 0x00, 0x08, 0x00, 0x01] @ AppendU16 (port XOR 0x2112) @ AppendU32 (addr XOR 0x2112A442)"
  shows "parseBindingResponse d tid' = Some (if length tid' \<noteq> 12 then Inl ''short STUN response''
    else if tid' \<noteq> tid then Inl ''STUN transaction id mismatch'' else Inr \<lparr> se_address = IPv4 addr, se_port = port \<rparr>)"
proof -
  let ?pre = "[0x01, 0x01, 0x00, 0x0C, 0x21, 0x12, 0xA4, 0x42] @ tid"
  have len: "length d = 32" by (simp add: d_def assms(1))
  have "ReadU16 (?pre @ AppendU16 0x0020 @ AppendU16 8 @ [0, 1] @ AppendU16 (port XOR 0x2112) @ AppendU32 (addr XOR 0x2112A442)) 20 = Some 0x0020"
    by (rule ReadU16_append) (simp add: assms(1))
  then have ty: "ReadU16 d 20 = Some 0x0020" by (simp add: d_def AppendU16_def [of "0x20"] AppendU16_def [of 8])
  have "ReadU16 ((?pre @ AppendU16 0x0020) @ AppendU16 8 @ [0, 1] @ AppendU16 (port XOR 0x2112) @ AppendU32 (addr XOR 0x2112A442)) 22 = Some 8"
    by (rule ReadU16_append) (simp add: assms(1))
  then have l: "ReadU16 d 22 = Some 8" by (simp add: d_def AppendU16_def [of "0x20"] AppendU16_def [of 8])
  have "ReadU16 ((?pre @ [0, 0x20, 0, 8, 0, 1]) @ AppendU16 (port XOR 0x2112) @ AppendU32 (addr XOR 0x2112A442)) 26 = Some (port XOR 0x2112)"
    by (rule ReadU16_append) (simp add: assms(1))
  then have p: "ReadU16 d 26 = Some (port XOR 0x2112)" by (simp add: d_def)
  have "ReadU32 ((?pre @ [0, 0x20, 0, 8, 0, 1] @ AppendU16 (port XOR 0x2112)) @ AppendU32 (addr XOR 0x2112A442) @ []) 28 = Some (addr XOR 0x2112A442)"
    by (rule ReadU32_append) (simp add: assms(1))
  then have a: "ReadU32 d 28 = Some (addr XOR 0x2112A442)" by (simp add: d_def)
  have "byte_at d 25 = Some 1" using assms(1) by (simp add: byte_at_def d_def nth_append)
  then have attr: "stun_parseAddressAttribute kAttrXorMappedAddress d 24 8 = Some (Some \<lparr> se_address = IPv4 addr, se_port = port \<rparr>)"
    using assms(2) p a
    by (simp add: stun_parseAddressAttribute_def cookie_port StunEndpoint_isValid_def xor.assoc Let_def kMagicCookie_def
        del: ReadU16_in ReadU32_in byte_at_in)
  have answer: "binding_from d 32 20 StunEndpoint_new = Some (Inr \<lparr> se_address = IPv4 addr, se_port = port \<rparr>)"
    using ty l attr
    by (subst binding_from.simps) (simp add: Let_def kAttrXorMappedAddress_def kAttrMappedAddress_def del: ReadU16_in)
  have "ReadU16 d 0 = Some 0x0101" "ReadU16 d 2 = Some 12" "ReadU32 d 4 = Some kMagicCookie" "take 12 (drop 8 d) = tid"
    using assms(1) by (simp_all add: d_def be16_def be32_def kMagicCookie_def)
  then show ?thesis
    using len answer by (auto simp: parseBindingResponse_def kStunHeaderSize_def simp del: ReadU16_in ReadU32_in)
qed

text \<open>
  C15. The client learns its own address. The media server takes the client's binding request for
  a STUN packet and answers it; the client reads from the answer exactly the address and port the
  server saw the request come from, and does not accept the answer as one to any other request.
\<close>

theorem stun_binding_answered:
  assumes "length tid = 12" "sin_port from \<noteq> 0"
  shows "\<exists>response. BuildStunBindingResponse (buildBindingRequest tid) from = Some response \<and>
    parseBindingResponse response tid = Some (Inr \<lparr> se_address = IPv4 (sin_addr from), se_port = sin_port from \<rparr>) \<and>
    (\<forall>tid'. length tid' = 12 \<and> tid' \<noteq> tid \<longrightarrow>
       parseBindingResponse response tid' = Some (Inl ''STUN transaction id mismatch''))"
proof -
  let ?request = "[0, 1, 0, 0, 0x21, 0x12, 0xA4, 0x42] @ tid"
  have request: "buildBindingRequest tid = ?request"
    using assms(1) by (simp add: buildBindingRequest_def be32_cookie AppendU16_def)
  have "IsStunPacket ?request = Some True" using assms(1) by (simp add: IsStunPacket_def)
  then have "BuildStunBindingResponse ?request from =
      Some ([0x01, 0x01, 0x00, 0x0C, 0x21, 0x12, 0xA4, 0x42] @ tid @
        [0x00, 0x20, 0x00, 0x08, 0x00, 0x01] @ AppendU16 (sin_port from XOR 0x2112) @ AppendU32 (sin_addr from XOR 0x2112A442))"
    using assms(1) by (simp add: BuildStunBindingResponse_def)
  then show ?thesis unfolding request using binding_answer_parsed [OF assms] assms(1) by auto
qed

theorem stun_binding_answered_witness:
  "\<exists>response. BuildStunBindingResponse (buildBindingRequest (replicate 12 9)) \<lparr> sin_family = 2, sin_port = 4000, sin_addr = 5 \<rparr> =
       Some response \<and>
     parseBindingResponse response (replicate 12 9) = Some (Inr \<lparr> se_address = IPv4 5, se_port = 4000 \<rparr>)"
  using stun_binding_answered [of "replicate 12 9" "\<lparr> sin_family = 2, sin_port = 4000, sin_addr = 5 \<rparr>"] by auto

text \<open>
  A binding request as a whole: it succeeds exactly when, within the allowed attempts, a datagram
  arrives that answers the attempt's own request, and the address it reports is taken from such a
  datagram.
\<close>

definition answer_to :: "StunClient \<Rightarrow> udp_attempt \<Rightarrow> StunEndpoint \<Rightarrow> bool" where
  "answer_to s a e \<longleftrightarrow>
     (let request = buildBindingRequest (ua_transactionId a) in ua_sent a request = int (length request)) \<and>
     ua_ready a (st_timeoutMs s) \<and>
     (\<exists>d \<in> set (ua_pending a). parseBindingResponse d (ua_transactionId a) = Some (Inr e))"

lemma read_pending_spec:
  "\<not> br_success r \<Longrightarrow> \<exists>r'. read_pending tid ds r = Some r' \<and>
     (br_success r' \<longleftrightarrow> (\<exists>d \<in> set ds. \<exists>e. parseBindingResponse d tid = Some (Inr e))) \<and>
     (br_success r' \<longrightarrow> (\<exists>d \<in> set ds. parseBindingResponse d tid = Some (Inr (br_mappedAddress r'))))"
proof (induction ds arbitrary: r)
  case (Cons d ds)
  obtain x where x: "parseBindingResponse d tid = Some x" using parseBindingResponse_safe by blast
  then show ?case using Cons.IH [of "r\<lparr>br_error := projl x\<rparr>"] Cons.prems by (cases x) auto
qed simp

lemma binding_attempts_spec:
  "\<not> br_success r \<Longrightarrow> \<exists>r'. binding_attempts s as r = Some r' \<and>
     (br_success r' \<longleftrightarrow> (\<exists>a \<in> set as. \<exists>e. answer_to s a e)) \<and>
     (br_success r' \<longrightarrow> (\<exists>a \<in> set as. answer_to s a (br_mappedAddress r')))"
proof (induction as arbitrary: r)
  case (Cons a as)
  let ?request = "buildBindingRequest (ua_transactionId a)"
  show ?case
  proof (cases "ua_sent a ?request = int (length ?request) \<and> ua_ready a (st_timeoutMs s)")
    case True
    obtain r' where r': "read_pending (ua_transactionId a) (ua_pending a) r = Some r'"
      "br_success r' \<longleftrightarrow> (\<exists>e. answer_to s a e)" "br_success r' \<longrightarrow> answer_to s a (br_mappedAddress r')"
      using read_pending_spec [OF Cons.prems, of "ua_transactionId a" "ua_pending a"] True by (auto simp: answer_to_def Let_def)
    then show ?thesis using True Cons.IH [of r'] by (cases "br_success r'") (auto simp: Let_def)
  next
    case False
    then have "\<not> answer_to s a e" for e by (auto simp: answer_to_def Let_def)
    then show ?thesis
      using False Cons.prems Cons.IH [of "r\<lparr>br_error := ua_errorString a\<rparr>"] Cons.IH [of "r\<lparr>br_error := ''STUN binding timeout''\<rparr>"]
      by (auto simp: Let_def)
  qed
qed simp

text \<open>Three attempts, five at most: \<open>setRetryCount\<close> keeps the loop bounded.\<close>

lemma retry_bounds: "1 \<le> st_retryCount (setRetryCount n s) \<and> st_retryCount (setRetryCount n s) \<le> 5"
  by (simp add: setRetryCount_def)

end
