(* ===== verification/UdpPeerSocket.thy ===== *)
theory UdpPeerSocket
  imports IceClient
begin

text \<open>
  The client's media socket (\<open>plasma-hawking/src/net/media/UdpPeerSocket.h\<close>): a bound UDP socket
  with a remembered peer, a queue the I/O thread fills, and an optional TURN relay between the
  socket and its users. \<open>qt_socket\<close> holds the calls of \<open>QHostAddress\<close> and \<open>QUdpSocket\<close>. The
  pointers \<open>m_ioThread\<close> and \<open>m_ioContext\<close> are set together with the flag \<open>m_useSocketThread\<close>. A
  native socket exists only behind that flag (\<open>us_inv\<close>), so that the code for a socket without a
  thread only ever finds the null pointer. \<open>us_written\<close> is the log of the datagrams given to
  \<open>writeDatagram\<close>. Output pointers are never null.
\<close>

record UdpEndpoint =
  ue_address :: QHostAddress
  ue_port :: u16

definition UdpEndpoint_new :: UdpEndpoint where
  "UdpEndpoint_new = \<lparr> ue_address = NullAddress, ue_port = 0 \<rparr>"

definition UdpEndpoint_isValid :: "UdpEndpoint \<Rightarrow> bool" where
  "UdpEndpoint_isValid e \<longleftrightarrow> ue_address e \<noteq> NullAddress \<and> ue_port e \<noteq> 0"

datatype SocketError =
    UnknownSocketError | SocketTimeoutError | TemporaryError | OperationError
  | SocketAddressNotAvailableError | NativeSocketError nat

record TurnRelayState =
  tr_enabled :: bool
  tr_server :: UdpEndpoint
  tr_peer :: UdpEndpoint
  tr_relayedAddress :: StunEndpoint

definition TurnRelayState_new :: TurnRelayState where
  "TurnRelayState_new = \<lparr> tr_enabled = False, tr_server = UdpEndpoint_new, tr_peer = UdpEndpoint_new,
     tr_relayedAddress = StunEndpoint_new \<rparr>"

type_synonym datagram = "bytes \<times> UdpEndpoint"

record UdpPeerSocket =
  us_socket :: bool
  us_useSocketThread :: bool
  us_readTimeoutMs :: int
  us_peer :: UdpEndpoint
  us_peerValid :: bool
  us_turnRelay :: TurnRelayState
  us_pendingDatagrams :: "datagram list"
  us_waitInterrupted :: bool
  us_lastSocketError :: SocketError
  us_lastErrorString :: string
  us_written :: "datagram list"

definition UdpPeerSocket_new :: UdpPeerSocket where
  "UdpPeerSocket_new =
     \<lparr> us_socket = False, us_useSocketThread = False, us_readTimeoutMs = 50, us_peer = UdpEndpoint_new,
       us_peerValid = False, us_turnRelay = TurnRelayState_new, us_pendingDatagrams = [],
       us_waitInterrupted = False, us_lastSocketError = UnknownSocketError, us_lastErrorString = [],
       us_written = [] \<rparr>"

text \<open>
  \<open>qs_setAddress\<close>: the address of a text, if it is one; \<open>qs_bind\<close>: the error of binding, if any;
  \<open>qs_writeDatagram\<close>: its result; \<open>qs_error\<close>: error and text of the native socket.
\<close>

record qt_socket =
  qs_setAddress :: "string \<Rightarrow> QHostAddress option"
  qs_bind :: "QHostAddress \<Rightarrow> u16 \<Rightarrow> (SocketError \<times> string) option"
  qs_writeDatagram :: "bytes \<Rightarrow> UdpEndpoint \<Rightarrow> int"
  qs_error :: "SocketError \<times> string"
  qs_localPort :: u16

section \<open>Small operations\<close>

definition setSocketError :: "SocketError \<Rightarrow> string \<Rightarrow> UdpPeerSocket \<Rightarrow> UdpPeerSocket" where
  "setSocketError error message s = s\<lparr>us_lastSocketError := error, us_lastErrorString := message\<rparr>"

definition captureSocketError :: "qt_socket \<Rightarrow> UdpPeerSocket \<Rightarrow> UdpPeerSocket" where
  "captureSocketError qs s =
     (if us_socket s then setSocketError (fst (qs_error qs)) (snd (qs_error qs)) s
      else setSocketError UnknownSocketError ''socket not open'' s)"

definition clearSocketError :: "UdpPeerSocket \<Rightarrow> UdpPeerSocket" where
  "clearSocketError s = setSocketError UnknownSocketError [] s"

definition isTransientSocketError :: "UdpPeerSocket \<Rightarrow> bool" where
  "isTransientSocketError s \<longleftrightarrow> us_lastSocketError s = SocketTimeoutError \<or>
     us_lastSocketError s = TemporaryError \<or> us_lastSocketError s = OperationError"

definition endpoint_isIpv4 :: "UdpEndpoint \<Rightarrow> bool" where
  "endpoint_isIpv4 e \<longleftrightarrow> ue_port e \<noteq> 0 \<and> is_ipv4 (ue_address e)"

definition sameIpv4Endpoint :: "UdpEndpoint \<Rightarrow> UdpEndpoint \<Rightarrow> bool \<Rightarrow> bool" where
  "sameIpv4Endpoint lhs rhs matchPort =
     (if \<not> endpoint_isIpv4 lhs \<or> \<not> endpoint_isIpv4 rhs then False
      else if ue_address lhs \<noteq> ue_address rhs then False
      else \<not> matchPort \<or> ue_port lhs = ue_port rhs)"

definition resolveIpv4PeerAddress :: "qt_socket \<Rightarrow> string \<Rightarrow> u16 \<Rightarrow> UdpEndpoint option" where
  "resolveIpv4PeerAddress qs address port =
     (if address = [] \<or> port = 0 then None
      else case qs_setAddress qs address of
        None \<Rightarrow> None
      | Some parsed \<Rightarrow> if \<not> is_ipv4 parsed then None else Some \<lparr> ue_address = parsed, ue_port = port \<rparr>)"

definition setReadTimeoutMs :: "int \<Rightarrow> UdpPeerSocket \<Rightarrow> UdpPeerSocket" where
  "setReadTimeoutMs timeoutMs s = s\<lparr>us_readTimeoutMs := max 0 timeoutMs\<rparr>"

definition interruptWaiters :: "UdpPeerSocket \<Rightarrow> UdpPeerSocket" where
  "interruptWaiters s = s\<lparr>us_waitInterrupted := True\<rparr>"

definition socket_localPort :: "qt_socket \<Rightarrow> UdpPeerSocket \<Rightarrow> u16" where
  "socket_localPort qs s = (if \<not> us_socket s then 0 else qs_localPort qs)"

section \<open>Opening and closing\<close>

definition socket_close :: "UdpPeerSocket \<Rightarrow> UdpPeerSocket" where
  "socket_close s =
     (interruptWaiters s)\<lparr>us_socket := False, us_useSocketThread := False, us_peer := UdpEndpoint_new,
       us_peerValid := False, us_lastSocketError := UnknownSocketError, us_lastErrorString := [],
       us_pendingDatagrams := [], us_waitInterrupted := False\<rparr>"

text \<open>The result is the error message for the caller, if opening failed.\<close>

definition socket_open :: "qt_socket \<Rightarrow> string \<Rightarrow> u16 \<Rightarrow> UdpPeerSocket \<Rightarrow> string option \<times> UdpPeerSocket" where
  "socket_open qs localAddress localPort s0 =
     (let s = socket_close s0;
          bindAddress = (if localAddress \<noteq> [] \<and> localAddress \<noteq> ''0.0.0.0''
            then (case qs_setAddress qs localAddress of
                    None \<Rightarrow> None
                  | Some parsed \<Rightarrow> if \<not> is_ipv4 parsed then None else Some parsed)
            else Some (IPv4 0))
      in case bindAddress of
        None \<Rightarrow>
          let s1 = setSocketError SocketAddressNotAvailableError ''invalid local address'' s
          in (Some (us_lastErrorString s1), s1)
      | Some address \<Rightarrow>
          let s1 = s\<lparr>us_socket := False, us_useSocketThread := True, us_peer := UdpEndpoint_new,
                     us_peerValid := False, us_pendingDatagrams := [], us_waitInterrupted := False\<rparr>
          in case qs_bind qs address localPort of
               Some (bindError, bindErrorString) \<Rightarrow>
                 let s2 = setSocketError bindError bindErrorString s1
                 in (Some (us_lastErrorString s2), socket_close s2)
             | None \<Rightarrow>
                 let s2 = clearSocketError (s1\<lparr>us_socket := True\<rparr>)
                 in (None, setReadTimeoutMs (us_readTimeoutMs s2) s2))"

definition socket_setPeer :: "qt_socket \<Rightarrow> string \<Rightarrow> u16 \<Rightarrow> UdpPeerSocket \<Rightarrow> bool \<times> UdpPeerSocket" where
  "socket_setPeer qs address port s =
     (case resolveIpv4PeerAddress qs address port of
        None \<Rightarrow> (False, s\<lparr>us_peerValid := False, us_turnRelay := (us_turnRelay s)\<lparr>tr_enabled := False\<rparr>\<rparr>)
      | Some endpoint \<Rightarrow> (True, s\<lparr>us_peer := endpoint, us_peerValid := True\<rparr>))"

definition disableTurnRelay :: "UdpPeerSocket \<Rightarrow> UdpPeerSocket" where
  "disableTurnRelay s = s\<lparr>us_turnRelay := TurnRelayState_new\<rparr>"

definition acceptSender :: "UdpEndpoint \<Rightarrow> UdpPeerSocket \<Rightarrow> bool" where
  "acceptSender sender s =
     (if \<not> us_peerValid s then True else sameIpv4Endpoint sender (us_peer s) True)"

definition acceptRtcpFromPeerHost :: "UdpEndpoint \<Rightarrow> UdpPeerSocket \<Rightarrow> bool" where
  "acceptRtcpFromPeerHost sender s =
     (if \<not> us_peerValid s then True else sameIpv4Endpoint sender (us_peer s) False)"

section \<open>Sending\<close>

text \<open>\<open>writeDatagram\<close> on the socket thread.\<close>

definition native_write :: "qt_socket \<Rightarrow> bytes \<Rightarrow> UdpEndpoint \<Rightarrow> UdpPeerSocket \<Rightarrow> int \<times> UdpPeerSocket" where
  "native_write qs data target s =
     (if \<not> us_socket s then (-1, setSocketError OperationError ''socket not open'' s)
      else
        let s1 = s\<lparr>us_written := us_written s @ [(data, target)]\<rparr>;
            sent = qs_writeDatagram qs data target
        in if sent < 0 then (-1, captureSocketError qs s1) else (sent, clearSocketError s1))"

definition sendTo ::
  "qt_socket \<Rightarrow> (nat \<Rightarrow> u32) \<Rightarrow> bytes \<Rightarrow> UdpEndpoint \<Rightarrow> UdpPeerSocket \<Rightarrow> int \<times> UdpPeerSocket" where
  "sendTo qs rnd data target s =
     (if data = [] \<or> \<not> UdpEndpoint_isValid target then (-1, s)
      else
        let relay = us_turnRelay s;
            relayViaTurn = tr_enabled relay \<and> sameIpv4Endpoint target (tr_peer relay) True
        in if relayViaTurn
           then
             let turnPayload = buildSendIndication rnd (ue_address (tr_peer relay)) (ue_port (tr_peer relay)) data
             in if turnPayload = []
                then (-1, setSocketError OperationError ''TURN Send indication build failed'' s)
                else
                  let (sent, s1) = native_write qs turnPayload (tr_server relay) s
                  in if sent < 0 then (sent, s1) else (int (length data), s1)
           else native_write qs data target s)"

definition sendToPeer ::
  "qt_socket \<Rightarrow> (nat \<Rightarrow> u32) \<Rightarrow> bytes \<Rightarrow> UdpPeerSocket \<Rightarrow> int \<times> UdpPeerSocket" where
  "sendToPeer qs rnd data s = (if \<not> us_peerValid s then (-1, s) else sendTo qs rnd data (us_peer s) s)"

section \<open>Receiving\<close>

definition maybeUnwrapTurnDataIndication :: "datagram \<Rightarrow> UdpPeerSocket \<Rightarrow> datagram mem" where
  "maybeUnwrapTurnDataIndication d s =
     (let relay = us_turnRelay s; (payload, sender) = d
      in if \<not> tr_enabled relay \<or> \<not> sameIpv4Endpoint sender (tr_server relay) True then Some d
         else do {
           parsed \<leftarrow> parseDataIndication payload;
           Some (case parsed of
                   Inl _ \<Rightarrow> d
                 | Inr (peer, data) \<Rightarrow> (data, \<lparr> ue_address = se_address peer, ue_port = se_port peer \<rparr>)) })"

text \<open>\<open>Inl\<close> is the result -1; \<open>Inr\<close> the copied bytes and the sender.\<close>

definition recvFrom :: "nat \<Rightarrow> UdpPeerSocket \<Rightarrow> ((unit + datagram) \<times> UdpPeerSocket) mem" where
  "recvFrom len s =
     (if len = 0 then Some (Inl (), s)
      else if us_useSocketThread s
      then (case us_pendingDatagrams s of
              [] \<Rightarrow> Some (Inl (), setSocketError TemporaryError ''no pending datagram'' s)
            | pending # rest \<Rightarrow> do {
                (payload, sender) \<leftarrow> maybeUnwrapTurnDataIndication pending (s\<lparr>us_pendingDatagrams := rest\<rparr>);
                Some (Inr (take len payload, sender), clearSocketError (s\<lparr>us_pendingDatagrams := rest\<rparr>)) })
      else Some (Inl (), setSocketError OperationError ''socket not open'' s))"

text \<open>
  \<open>readyRead\<close>: the datagrams that are pending in the native socket, \<open>None\<close> for an invalid one.
\<close>

definition enqueuePendingDatagramsFromSocket ::
  "qt_socket \<Rightarrow> datagram option list \<Rightarrow> UdpPeerSocket \<Rightarrow> UdpPeerSocket" where
  "enqueuePendingDatagramsFromSocket qs arrived s =
     (if \<not> us_socket s then s
      else
        let s1 = (if None \<in> set arrived then captureSocketError qs s else s);
            accepted = List.map_filter (\<lambda>d. d) arrived
        in if accepted = [] then s1
           else clearSocketError (s1\<lparr>us_pendingDatagrams := us_pendingDatagrams s1 @ accepted\<rparr>))"

text \<open>
  While the thread waits on the condition variable others change the socket (\<open>others\<close>); \<open>woke\<close> is
  the result of the timed wait.
\<close>

datatype WaitOutcome = Ready | Interrupted | Timeout | SpuriousWake

definition waitForReadable ::
  "int \<Rightarrow> bool \<Rightarrow> (UdpPeerSocket \<Rightarrow> UdpPeerSocket) \<Rightarrow> UdpPeerSocket \<Rightarrow> int \<times> UdpPeerSocket" where
  "waitForReadable timeoutMs woke others s =
     (if us_useSocketThread s
      then
        let (outcome, s1) =
              (if us_pendingDatagrams s \<noteq> [] then (Ready, s)
               else if us_waitInterrupted s then (Interrupted, s\<lparr>us_waitInterrupted := False\<rparr>)
               else
                 let s' = others s; woke' = (timeoutMs < 0 \<or> woke)
                 in if us_waitInterrupted s' then (Interrupted, s'\<lparr>us_waitInterrupted := False\<rparr>)
                    else if us_pendingDatagrams s' \<noteq> [] then (Ready, s')
                    else if \<not> woke' then (Timeout, s')
                    else (SpuriousWake, s'))
        in (case outcome of
              Ready \<Rightarrow> (1, clearSocketError s1)
            | Interrupted \<Rightarrow> (0, clearSocketError s1)
            | Timeout \<Rightarrow> (0, setSocketError SocketTimeoutError ''wait timeout'' s1)
            | SpuriousWake \<Rightarrow> (0, setSocketError TemporaryError ''spurious wake without datagram'' s1))
      else (-1, setSocketError OperationError ''socket not open'' s))"

section \<open>Setting up a relay\<close>

definition turnTransactionMatches :: "bytes \<Rightarrow> bytes \<Rightarrow> bool" where
  "turnTransactionMatches datagram transactionId \<longleftrightarrow>
     length datagram \<ge> 20 \<and> length transactionId = 12 \<and> take 12 (drop 8 datagram) = transactionId"

text \<open>
  The two waiting loops take datagrams from the queue until one is the answer or the deadline has
  passed. The argument is what is in the queue and what arrives in it before the deadline; the
  result also has the datagrams that were not taken.
\<close>

fun waitForTurnAllocateResponse ::
  "bytes \<Rightarrow> UdpEndpoint \<Rightarrow> datagram list \<Rightarrow> (TurnAllocateResult option \<times> datagram list) mem" where
  "waitForTurnAllocateResponse transactionId turnServer [] = Some (None, [])"
| "waitForTurnAllocateResponse transactionId turnServer ((payload, sender) # queue) =
     (if \<not> sameIpv4Endpoint sender turnServer True \<or> \<not> turnTransactionMatches payload transactionId
      then waitForTurnAllocateResponse transactionId turnServer queue
      else do {
        parsed \<leftarrow> parseAllocateResponse payload transactionId;
        if ta_success parsed then Some (Some parsed, queue)
        else if ta_realm parsed \<noteq> [] \<or> ta_nonce parsed \<noteq> [] then Some (Some parsed, queue)
        else waitForTurnAllocateResponse transactionId turnServer queue })"

fun waitForTurnCreatePermissionResponse ::
  "bytes \<Rightarrow> UdpEndpoint \<Rightarrow> datagram list \<Rightarrow> string \<Rightarrow> (bool \<times> string \<times> datagram list) mem" where
  "waitForTurnCreatePermissionResponse transactionId turnServer [] error = Some (False, error, [])"
| "waitForTurnCreatePermissionResponse transactionId turnServer ((payload, sender) # queue) error =
     (if \<not> sameIpv4Endpoint sender turnServer True \<or> \<not> turnTransactionMatches payload transactionId
      then waitForTurnCreatePermissionResponse transactionId turnServer queue error
      else do {
        parsed \<leftarrow> parseCreatePermissionResponse payload transactionId;
        case parsed of
          Inr _ \<Rightarrow> Some (True, error, queue)
        | Inl parseError \<Rightarrow> waitForTurnCreatePermissionResponse transactionId turnServer queue parseError })"

text \<open>
  What one request meets: its transaction id, the memory its uninitialised bytes have, the random
  values of a send indication, and the datagrams that arrive before the deadline of its answer.
\<close>

record turn_round =
  rd_transactionId :: bytes
  rd_unset :: bytes
  rd_rnd :: "nat \<Rightarrow> u32"
  rd_arrivals :: "datagram list"

definition turn_exchange ::
  "qt_socket \<Rightarrow> turn_round \<Rightarrow> bytes \<Rightarrow> UdpEndpoint \<Rightarrow> UdpPeerSocket \<Rightarrow> bool \<times> UdpPeerSocket" where
  "turn_exchange qs r request turnServer s =
     (let (sent, s1) = sendTo qs (rd_rnd r) request turnServer s
      in if sent \<noteq> int (length request) then (False, s1)
         else (True, s1\<lparr>us_pendingDatagrams := us_pendingDatagrams s1 @ rd_arrivals r\<rparr>))"

text \<open>The loop for the challenge; its result is the challenge, or an error.\<close>

fun turn_challenge ::
  "qt_socket \<Rightarrow> turn_round list \<Rightarrow> UdpEndpoint \<Rightarrow> TurnAllocateResult \<Rightarrow> UdpPeerSocket \<Rightarrow>
   ((string + TurnAllocateResult) \<times> UdpPeerSocket) mem" where
  "turn_challenge qs [] turnServer challenge s =
     Some (Inl (if ta_error challenge = [] then ''TURN Allocate challenge failed'' else ta_error challenge), s)"
| "turn_challenge qs (r # rs) turnServer challenge s =
     (let (ok, s1) = turn_exchange qs r (buildAllocateRequest (rd_unset r) (rd_transactionId r)) turnServer s
      in if \<not> ok then Some (Inl ''TURN Allocate challenge send failed'', s1)
         else do {
           (answer, rest) \<leftarrow> waitForTurnAllocateResponse (rd_transactionId r) turnServer (us_pendingDatagrams s1);
           let s2 = s1\<lparr>us_pendingDatagrams := rest\<rparr>;
           let challenge' = (case answer of None \<Rightarrow> TurnAllocateResult_new | Some c \<Rightarrow> c);
           if answer \<noteq> None \<and> ta_realm challenge' \<noteq> [] \<and> ta_nonce challenge' \<noteq> []
           then Some (Inr challenge', s2)
           else turn_challenge qs rs turnServer challenge' s2 })"

definition configureTurnRelay ::
  "qt_socket \<Rightarrow> qt_crypto \<Rightarrow> turn_round list \<Rightarrow> turn_round \<Rightarrow> turn_round \<Rightarrow> string \<Rightarrow> u16 \<Rightarrow> string \<Rightarrow> string \<Rightarrow>
   string \<Rightarrow> u16 \<Rightarrow> UdpPeerSocket \<Rightarrow> (string option \<times> UdpPeerSocket) mem" where
  "configureTurnRelay qs qc challenges auth permission turnAddress turnPort username credential
     peerAddress peerPort s =
     (case (resolveIpv4PeerAddress qs turnAddress turnPort, resolveIpv4PeerAddress qs peerAddress peerPort) of
        (Some turnServer, Some logicalPeer) \<Rightarrow>
          if username = [] \<or> credential = [] then Some (Some ''invalid TURN relay config'', s)
          else if \<not> us_socket s then Some (Some ''socket not open'', s)
          else do {
            (challenged, s1) \<leftarrow> turn_challenge qs (take 3 challenges) turnServer TurnAllocateResult_new s;
            case challenged of
              Inl error \<Rightarrow> Some (Some error, s1)
            | Inr challenge \<Rightarrow>
                let authReq = buildAuthenticatedAllocateRequest qc (rd_unset auth) (rd_transactionId auth) username
                      (ta_realm challenge) (ta_nonce challenge) credential;
                    (ok, s2) = turn_exchange qs auth authReq turnServer s1
                in if \<not> ok then Some (Some ''TURN Allocate authenticated send failed'', s2)
                   else do {
                     (answer, rest) \<leftarrow> waitForTurnAllocateResponse (rd_transactionId auth) turnServer (us_pendingDatagrams s2);
                     let s3 = s2\<lparr>us_pendingDatagrams := rest\<rparr>;
                     let allocated = (case answer of None \<Rightarrow> TurnAllocateResult_new | Some a \<Rightarrow> a);
                     if answer = None \<or> \<not> ta_success allocated
                     then Some (Some (if ta_error allocated = [] then ''TURN Allocate authenticated response failed''
                                      else ta_error allocated), s3)
                     else
                       let permissionReq = buildCreatePermissionRequest qc (rd_transactionId permission)
                             (ue_address logicalPeer) username (ta_realm challenge) (ta_nonce challenge) credential;
                           (ok, s4) = turn_exchange qs permission permissionReq turnServer s3
                       in if \<not> ok then Some (Some ''TURN CreatePermission send failed'', s4)
                          else do {
                            (granted, permissionError, rest) \<leftarrow> waitForTurnCreatePermissionResponse
                              (rd_transactionId permission) turnServer (us_pendingDatagrams s4) [];
                            let s5 = s4\<lparr>us_pendingDatagrams := rest\<rparr>;
                            if \<not> granted
                            then Some (Some (if permissionError = [] then ''TURN CreatePermission response failed''
                                             else permissionError), s5)
                            else Some (None, clearSocketError (s5\<lparr>us_peer := logicalPeer, us_peerValid := True,
                                   us_turnRelay := \<lparr> tr_enabled = True, tr_server = turnServer,
                                     tr_peer = logicalPeer, tr_relayedAddress = ta_relayedAddress allocated \<rparr>\<rparr>)) } } }
      | _ \<Rightarrow> Some (Some ''invalid TURN relay config'', s))"

section \<open>Invariant\<close>

definition us_inv :: "UdpPeerSocket \<Rightarrow> bool" where
  "us_inv s \<longleftrightarrow> (us_socket s \<longrightarrow> us_useSocketThread s) \<and>
     (us_peerValid s \<longrightarrow> endpoint_isIpv4 (us_peer s)) \<and>
     (tr_enabled (us_turnRelay s) \<longrightarrow> endpoint_isIpv4 (tr_peer (us_turnRelay s)) \<and>
        endpoint_isIpv4 (tr_server (us_turnRelay s)))"

text \<open>What sending, receiving and waiting never touch.\<close>

definition same_routing :: "UdpPeerSocket \<Rightarrow> UdpPeerSocket \<Rightarrow> bool" where
  "same_routing s s' \<longleftrightarrow> us_socket s' = us_socket s \<and> us_useSocketThread s' = us_useSocketThread s \<and>
     us_peer s' = us_peer s \<and> us_peerValid s' = us_peerValid s \<and> us_turnRelay s' = us_turnRelay s"

lemma same_routing_refl [simp]: "same_routing s s"
  by (simp add: same_routing_def)

lemma same_routing_trans: "same_routing a b \<Longrightarrow> same_routing b c \<Longrightarrow> same_routing a c"
  by (simp add: same_routing_def)

lemma same_routing_inv: "same_routing s s' \<Longrightarrow> us_inv s' = us_inv s"
  by (simp add: same_routing_def us_inv_def)

lemma error_routing [simp]:
  "same_routing a (setSocketError e m s) = same_routing a s"
  "same_routing a (clearSocketError s) = same_routing a s"
  "same_routing a (captureSocketError qs s) = same_routing a s"
  "same_routing a (s\<lparr>us_pendingDatagrams := q\<rparr>) = same_routing a s"
  "same_routing a (s\<lparr>us_waitInterrupted := b\<rparr>) = same_routing a s"
  "same_routing a (s\<lparr>us_written := w\<rparr>) = same_routing a s"
  by (simp_all add: same_routing_def clearSocketError_def captureSocketError_def setSocketError_def)

lemma error_queue [simp]:
  "us_pendingDatagrams (setSocketError e m s) = us_pendingDatagrams s"
  "us_pendingDatagrams (clearSocketError s) = us_pendingDatagrams s"
  "us_pendingDatagrams (captureSocketError qs s) = us_pendingDatagrams s"
  "us_written (setSocketError e m s) = us_written s"
  "us_written (clearSocketError s) = us_written s"
  "us_written (captureSocketError qs s) = us_written s"
  by (simp_all add: clearSocketError_def captureSocketError_def setSocketError_def)

lemma native_write_keeps:
  "native_write qs d t s = (n, s') \<Longrightarrow> same_routing s s' \<and> us_pendingDatagrams s' = us_pendingDatagrams s"
  by (auto simp: native_write_def Let_def split: if_splits)

lemma sendTo_keeps:
  "sendTo qs rnd d t s = (n, s') \<Longrightarrow> same_routing s s' \<and> us_pendingDatagrams s' = us_pendingDatagrams s"
  by (auto simp: sendTo_def Let_def native_write_keeps split: if_splits prod.splits dest: native_write_keeps)

lemma recvFrom_keeps: "recvFrom len s = Some (r, s') \<Longrightarrow> same_routing s s'"
  by (auto simp: recvFrom_def split: if_splits list.splits prod.splits bind_splits)

lemma turn_exchange_keeps:
  assumes "turn_exchange qs r request server s = (ok, s')"
  shows "same_routing s s'"
    "set (us_pendingDatagrams s') \<subseteq> set (us_pendingDatagrams s) \<union> set (rd_arrivals r)"
  using assms
  by (auto simp: turn_exchange_def Let_def split: if_splits prod.splits dest: sendTo_keeps)

text \<open>
  What a request that was sent is on the wire: the request itself to the server, or, if the socket already has a relay whose
  peer is the server, a Send indication to that relay.
\<close>

definition on_wire :: "TurnRelayState \<Rightarrow> turn_round \<Rightarrow> bytes \<Rightarrow> UdpEndpoint \<Rightarrow> datagram" where
  "on_wire relay r request server =
     (if tr_enabled relay \<and> sameIpv4Endpoint server (tr_peer relay) True
      then (buildSendIndication (rd_rnd r) (ue_address (tr_peer relay)) (ue_port (tr_peer relay)) request, tr_server relay)
      else (request, server))"

lemma native_write_written:
  "native_write qs d t s = (n, s') \<Longrightarrow> \<exists>ws. us_written s' = us_written s @ ws \<and> (0 \<le> n \<longrightarrow> ws = [(d, t)])"
  by (auto simp: native_write_def Let_def split: if_splits)

lemma sendTo_written:
  assumes "sendTo qs rnd d t s = (n, s')"
  shows "\<exists>ws. us_written s' = us_written s @ ws"
  using assms native_write_written by (fastforce simp: sendTo_def Let_def split: if_splits prod.splits)

lemma turn_exchange_written:
  assumes "turn_exchange qs r request server s = (ok, s')"
  shows "\<exists>ws. us_written s' = us_written s @ ws \<and> (ok \<longrightarrow> request \<noteq> [] \<and> ws = [on_wire (us_turnRelay s) r request server])"
proof -
  obtain n s1 where x: "sendTo qs (rd_rnd r) request server s = (n, s1)" by fastforce
  have s': "us_written s' = us_written s1" "ok \<longleftrightarrow> n = int (length request)"
    using assms x by (auto simp: turn_exchange_def split: if_splits)
  show ?thesis
  proof (cases ok)
    case False
    then show ?thesis using s' sendTo_written [OF x] by simp
  next
    case True
    with s' have "0 \<le> n" by simp
    then have "request \<noteq> [] \<and> us_written s1 = us_written s @ [on_wire (us_turnRelay s) r request server]"
      using x by (auto simp: sendTo_def on_wire_def Let_def split: if_splits prod.splits dest: native_write_written)
    then show ?thesis using s' by simp
  qed
qed

text \<open>The waiting loops: they return, and what they take is an answer of the server.\<close>

definition answered :: "datagram set \<Rightarrow> UdpEndpoint \<Rightarrow> (bytes \<Rightarrow> bool) \<Rightarrow> bool" where
  "answered queue server accepts \<longleftrightarrow>
     (\<exists>payload sender. (payload, sender) \<in> queue \<and> sameIpv4Endpoint sender server True \<and> accepts payload)"

lemma answered_insert: "answered (insert (payload, sender) q) server P \<longleftrightarrow>
    answered q server P \<or> sameIpv4Endpoint sender server True \<and> P payload"
  unfolding answered_def by blast

lemma answered_mono: "answered q server P \<Longrightarrow> q \<subseteq> q' \<Longrightarrow> answered q' server P"
  unfolding answered_def by blast

lemma allocate_wait:
  "\<exists>answer rest. waitForTurnAllocateResponse tid server q = Some (answer, rest) \<and> set rest \<subseteq> set q \<and>
     (\<forall>a. answer = Some a \<longrightarrow> answered (set q) server (\<lambda>p. parseAllocateResponse p tid = Some a))"
proof (induction q)
  case (Cons d q)
  obtain payload sender where d: "d = (payload, sender)" by fastforce
  obtain a where a: "parseAllocateResponse payload tid = Some a" using ice_parse_safe(1) by blast
  let ?skip = "\<not> sameIpv4Endpoint sender server True \<or> \<not> turnTransactionMatches payload tid \<or>
    \<not> ta_success a \<and> ta_realm a = [] \<and> ta_nonce a = []"
  have step: "waitForTurnAllocateResponse tid server (d # q) =
      (if ?skip then waitForTurnAllocateResponse tid server q else Some (Some a, q))"
    by (auto simp: d a)
  show ?case
  proof (cases ?skip)
    case True
    then show ?thesis using Cons.IH unfolding step by (force simp: d answered_insert)
  next
    case False
    then show ?thesis unfolding step using a by (auto simp: d answered_insert)
  qed
qed simp

lemma permission_wait:
  "\<exists>granted error' rest. waitForTurnCreatePermissionResponse tid server q error = Some (granted, error', rest) \<and>
     set rest \<subseteq> set q \<and>
     (granted \<longrightarrow> answered (set q) server (\<lambda>p. parseCreatePermissionResponse p tid = Some (Inr ())))"
proof (induction q arbitrary: error)
  case (Cons d q)
  obtain payload sender where d: "d = (payload, sender)" by fastforce
  obtain a where a: "parseCreatePermissionResponse payload tid = Some a" using ice_parse_safe(2) by blast
  let ?skip = "\<not> sameIpv4Endpoint sender server True \<or> \<not> turnTransactionMatches payload tid"
  show ?case
  proof (cases "?skip \<or> isl a")
    case True
    then have "\<exists>e. waitForTurnCreatePermissionResponse tid server (d # q) error =
        waitForTurnCreatePermissionResponse tid server q e"
      using a by (cases ?skip; cases a) (auto simp: d)
    then obtain e where "waitForTurnCreatePermissionResponse tid server (d # q) error =
        waitForTurnCreatePermissionResponse tid server q e" ..
    then show ?thesis using Cons.IH [of e] by (force simp: d answered_insert)
  next
    case False
    then show ?thesis using a by (cases a) (auto simp: d answered_insert)
  qed
qed auto

lemma turn_challenge_props:
  fixes rs s
  defines "heard \<equiv> set (us_pendingDatagrams s) \<union> \<Union> (set ` rd_arrivals ` set rs)"
  shows "\<exists>r s'. turn_challenge qs rs server c s = Some (r, s') \<and> same_routing s s' \<and>
     (\<exists>ws. us_written s' = us_written s @ ws) \<and> set (us_pendingDatagrams s') \<subseteq> heard \<and>
     (\<forall>a. r = Inr a \<longrightarrow> ta_realm a \<noteq> [] \<and> ta_nonce a \<noteq> [] \<and>
        (\<exists>x \<in> set rs. answered heard server (\<lambda>p. parseAllocateResponse p (rd_transactionId x) = Some a)))"
  unfolding heard_def
proof (induction rs arbitrary: c s)
  case (Cons r rs)
  let ?req = "buildAllocateRequest (rd_unset r) (rd_transactionId r)"
  let ?heard = "set (us_pendingDatagrams s) \<union> \<Union> (set ` rd_arrivals ` set (r # rs))"
  obtain ok s1 where x: "turn_exchange qs r ?req server s = (ok, s1)" by fastforce
  note keeps = turn_exchange_keeps [OF x]
  obtain ws where ws: "us_written s1 = us_written s @ ws" using turn_exchange_written [OF x] by blast
  obtain answer rest where w: "waitForTurnAllocateResponse (rd_transactionId r) server (us_pendingDatagrams s1) =
      Some (answer, rest)" "set rest \<subseteq> set (us_pendingDatagrams s1)"
    "\<forall>a. answer = Some a \<longrightarrow> answered (set (us_pendingDatagrams s1)) server
       (\<lambda>p. parseAllocateResponse p (rd_transactionId r) = Some a)"
    using allocate_wait by blast
  define s2 where "s2 = s1\<lparr>us_pendingDatagrams := rest\<rparr>"
  define c' where "c' = (case answer of None \<Rightarrow> TurnAllocateResult_new | Some c \<Rightarrow> c)"
  have s2: "same_routing s s2" "set (us_pendingDatagrams s2) \<subseteq> set (us_pendingDatagrams s) \<union> set (rd_arrivals r)"
    using keeps w(2) by (auto simp: s2_def)
  obtain r' s' where ih: "turn_challenge qs rs server c' s2 = Some (r', s')" "same_routing s2 s'"
    "\<exists>ws. us_written s' = us_written s2 @ ws"
    "set (us_pendingDatagrams s') \<subseteq> set (us_pendingDatagrams s2) \<union> \<Union> (set ` rd_arrivals ` set rs)"
    "\<forall>a. r' = Inr a \<longrightarrow> ta_realm a \<noteq> [] \<and> ta_nonce a \<noteq> [] \<and> (\<exists>x \<in> set rs.
       answered (set (us_pendingDatagrams s2) \<union> \<Union> (set ` rd_arrivals ` set rs)) server
         (\<lambda>p. parseAllocateResponse p (rd_transactionId x) = Some a))"
    using Cons.IH by blast
  have eq: "turn_challenge qs (r # rs) server c s =
    (if \<not> ok then Some (Inl ''TURN Allocate challenge send failed'', s1)
     else if answer \<noteq> None \<and> ta_realm c' \<noteq> [] \<and> ta_nonce c' \<noteq> [] then Some (Inr c', s2)
     else Some (r', s'))"
    using x w(1) ih(1) by (cases ok; cases answer) (simp_all add: s2_def c'_def Let_def)
  have sub: "set (us_pendingDatagrams s1) \<subseteq> ?heard"
    "set (us_pendingDatagrams s2) \<union> \<Union> (set ` rd_arrivals ` set rs) \<subseteq> ?heard"
    using keeps(2) s2(2) by auto
  have first: "answered ?heard server (\<lambda>p. parseAllocateResponse p (rd_transactionId r) = Some c')" if "answer \<noteq> None"
    using that w(3) answered_mono [OF _ sub(1)] by (auto simp: c'_def)
  have later: "\<exists>x \<in> set rs. answered ?heard server (\<lambda>p. parseAllocateResponse p (rd_transactionId x) = Some a)"
    if "r' = Inr a" for a using that ih(5) answered_mono [OF _ sub(2)] by blast
  have written: "\<exists>ws. us_written s' = us_written s @ ws" "us_written s2 = us_written s @ ws"
    using ws ih(3) by (auto simp: s2_def)
  show ?case
    unfolding eq using keeps s2 ih(4,5) sub same_routing_trans [OF s2(1) ih(2)] ws written first later by auto
qed simp

text \<open>The outcome of setting up a relay.\<close>

definition relay_state :: "UdpEndpoint \<Rightarrow> UdpEndpoint \<Rightarrow> StunEndpoint \<Rightarrow> TurnRelayState" where
  "relay_state server peer relayed =
     \<lparr> tr_enabled = True, tr_server = server, tr_peer = peer, tr_relayedAddress = relayed \<rparr>"

definition heard_datagrams ::
  "turn_round list \<Rightarrow> turn_round \<Rightarrow> turn_round \<Rightarrow> UdpPeerSocket \<Rightarrow> datagram set" where
  "heard_datagrams challenges auth permission s =
     set (us_pendingDatagrams s) \<union> \<Union> (set ` rd_arrivals ` set (take 3 challenges)) \<union>
    set (rd_arrivals auth) \<union> set (rd_arrivals permission)"

text \<open>The two authenticated requests, with the realm and the nonce of the challenge.\<close>

definition allocate_request :: "qt_crypto \<Rightarrow> turn_round \<Rightarrow> string \<Rightarrow> string \<Rightarrow> TurnAllocateResult \<Rightarrow> bytes" where
  "allocate_request qc auth username credential challenge =
     buildAuthenticatedAllocateRequest qc (rd_unset auth) (rd_transactionId auth) username
       (ta_realm challenge) (ta_nonce challenge) credential"

definition permission_request :: "qt_crypto \<Rightarrow> turn_round \<Rightarrow> string \<Rightarrow> string \<Rightarrow> TurnAllocateResult \<Rightarrow> UdpEndpoint \<Rightarrow> bytes" where
  "permission_request qc permission username credential challenge peer =
     buildCreatePermissionRequest qc (rd_transactionId permission) (ue_address peer) username
       (ta_realm challenge) (ta_nonce challenge) credential"

lemma configureTurnRelay_outcome:
  fixes auth permission challenges s
  defines "heard \<equiv> heard_datagrams challenges auth permission s"
  shows "\<exists>r s'. configureTurnRelay qs qc challenges auth permission turnAddress turnPort username credential
      peerAddress peerPort s = Some (r, s') \<and>
    (r \<noteq> None \<longrightarrow> same_routing s s') \<and>
    (r = None \<longrightarrow> (\<exists>server peer allocated.
       resolveIpv4PeerAddress qs turnAddress turnPort = Some server \<and>
       resolveIpv4PeerAddress qs peerAddress peerPort = Some peer \<and> us_socket s \<and>
       us_peer s' = peer \<and> us_peerValid s' \<and> us_socket s' = us_socket s \<and>
       us_useSocketThread s' = us_useSocketThread s \<and>
       us_turnRelay s' = relay_state server peer (ta_relayedAddress allocated) \<and> ta_success allocated \<and>
       answered heard server (\<lambda>p. parseAllocateResponse p (rd_transactionId auth) = Some allocated) \<and>
       answered heard server (\<lambda>p. parseCreatePermissionResponse p (rd_transactionId permission) = Some (Inr ())) \<and>
       (\<exists>x earlier challenge. x \<in> set (take 3 challenges) \<and>
          answered heard server (\<lambda>p. parseAllocateResponse p (rd_transactionId x) = Some challenge) \<and>
          allocate_request qc auth username credential challenge \<noteq> [] \<and>
          permission_request qc permission username credential challenge peer \<noteq> [] \<and>
          us_written s' = us_written s @ earlier @
            [on_wire (us_turnRelay s) auth (allocate_request qc auth username credential challenge) server,
             on_wire (us_turnRelay s) permission (permission_request qc permission username credential challenge peer) server])))"
proof (cases "resolveIpv4PeerAddress qs turnAddress turnPort = None \<or>
    resolveIpv4PeerAddress qs peerAddress peerPort = None \<or> username = [] \<or> credential = [] \<or> \<not> us_socket s")
  case True
  then show ?thesis by (auto simp: configureTurnRelay_def split: option.splits)
next
  case False
  then obtain server peer where res: "resolveIpv4PeerAddress qs turnAddress turnPort = Some server"
    "resolveIpv4PeerAddress qs peerAddress peerPort = Some peer" by auto
  obtain c s1 where c: "turn_challenge qs (take 3 challenges) server TurnAllocateResult_new s = Some (c, s1)"
    "same_routing s s1"
    "set (us_pendingDatagrams s1) \<subseteq> set (us_pendingDatagrams s) \<union> \<Union> (set ` rd_arrivals ` set (take 3 challenges))"
    "\<exists>ws. us_written s1 = us_written s @ ws"
    "\<forall>a. c = Inr a \<longrightarrow> ta_realm a \<noteq> [] \<and> ta_nonce a \<noteq> [] \<and> (\<exists>x \<in> set (take 3 challenges).
       answered (set (us_pendingDatagrams s) \<union> \<Union> (set ` rd_arrivals ` set (take 3 challenges))) server
         (\<lambda>p. parseAllocateResponse p (rd_transactionId x) = Some a))"
    using turn_challenge_props by blast
  show ?thesis
  proof (cases c)
    case (Inl e)
    then show ?thesis using False res c by (auto simp: configureTurnRelay_def)
  next
    case (Inr challenge)
    let ?authReq = "allocate_request qc auth username credential challenge"
    obtain ok2 s2 where x2: "turn_exchange qs auth ?authReq server s1 = (ok2, s2)" by fastforce
    note k2 = turn_exchange_keeps [OF x2]
    obtain answer rest where w: "waitForTurnAllocateResponse (rd_transactionId auth) server (us_pendingDatagrams s2) =
        Some (answer, rest)" "set rest \<subseteq> set (us_pendingDatagrams s2)"
      "\<forall>a. answer = Some a \<longrightarrow> answered (set (us_pendingDatagrams s2)) server
         (\<lambda>p. parseAllocateResponse p (rd_transactionId auth) = Some a)"
      using allocate_wait by blast
    define s3 where "s3 = s2\<lparr>us_pendingDatagrams := rest\<rparr>"
    let ?permReq = "permission_request qc permission username credential challenge peer"
    obtain ok4 s4 where x4: "turn_exchange qs permission ?permReq server s3 = (ok4, s4)" by fastforce
    note k4 = turn_exchange_keeps [OF x4]
    obtain granted err rest' where v: "waitForTurnCreatePermissionResponse (rd_transactionId permission) server
        (us_pendingDatagrams s4) [] = Some (granted, err, rest')" "set rest' \<subseteq> set (us_pendingDatagrams s4)"
      "granted \<longrightarrow> answered (set (us_pendingDatagrams s4)) server
         (\<lambda>p. parseCreatePermissionResponse p (rd_transactionId permission) = Some (Inr ()))"
      using permission_wait by blast
    have r2: "same_routing s s2" and r4: "same_routing s s4"
      using c(2) k2(1) k4(1) by (auto simp: s3_def same_routing_def)
    have h1: "set (us_pendingDatagrams s) \<union> \<Union> (set ` rd_arrivals ` set (take 3 challenges)) \<subseteq> heard"
      by (auto simp: heard_def heard_datagrams_def)
    have h2: "set (us_pendingDatagrams s2) \<subseteq> heard" and h4: "set (us_pendingDatagrams s4) \<subseteq> heard"
      using c(3) k2(2) k4(2) w(2) by (auto simp: s3_def heard_def heard_datagrams_def)
    let ?goal_args = "configureTurnRelay qs qc challenges auth permission turnAddress turnPort username credential
      peerAddress peerPort s"
    consider (send2) "\<not> ok2" | (none) "ok2" "answer = None"
      | (failed) a where "ok2" "answer = Some a" "\<not> ta_success a"
      | (send4) a where "ok2" "answer = Some a" "ta_success a" "\<not> ok4"
      | (denied) a where "ok2" "answer = Some a" "ta_success a" "ok4" "\<not> granted"
      | (fin) a where "ok2" "answer = Some a" "ta_success a" "ok4" "granted"
      by (cases answer) auto
    then show ?thesis
    proof cases
      case (fin a)
      have "?goal_args = Some (None, clearSocketError (s4\<lparr>us_pendingDatagrams := rest', us_peer := peer,
          us_peerValid := True, us_turnRelay := relay_state server peer (ta_relayedAddress a)\<rparr>))"
        using False res c(1) Inr x2 w(1) x4 v(1) fin
        by (simp add: configureTurnRelay_def s3_def Let_def relay_state_def allocate_request_def permission_request_def)
      moreover have "answered heard server (\<lambda>p. parseAllocateResponse p (rd_transactionId auth) = Some a)"
        "answered heard server (\<lambda>p. parseCreatePermissionResponse p (rd_transactionId permission) = Some (Inr ()))"
        using w(3) v(3) fin answered_mono [OF _ h2] answered_mono [OF _ h4] by auto
      moreover have "\<exists>x earlier. x \<in> set (take 3 challenges) \<and>
          answered heard server (\<lambda>p. parseAllocateResponse p (rd_transactionId x) = Some challenge) \<and>
          ?authReq \<noteq> [] \<and> ?permReq \<noteq> [] \<and>
          us_written s4 = us_written s @ earlier @
            [on_wire (us_turnRelay s) auth ?authReq server, on_wire (us_turnRelay s) permission ?permReq server]"
      proof -
        obtain x where x: "x \<in> set (take 3 challenges)"
          "answered heard server (\<lambda>p. parseAllocateResponse p (rd_transactionId x) = Some challenge)"
          using c(5) Inr answered_mono [OF _ h1] by blast
        obtain earlier where "us_written s1 = us_written s @ earlier" using c(4) by blast
        moreover have "us_turnRelay s1 = us_turnRelay s" "us_turnRelay s3 = us_turnRelay s" "us_written s3 = us_written s2"
          using c(2) r2 by (simp_all add: same_routing_def s3_def)
        ultimately show ?thesis using turn_exchange_written [OF x2] turn_exchange_written [OF x4] fin x by auto
      qed
      ultimately show ?thesis
        using fin False res r4
        by (auto simp: clearSocketError_def setSocketError_def same_routing_def)
    qed (use False res c Inr x2 w(1) x4 v(1) r2 r4 in
      \<open>simp_all add: configureTurnRelay_def s3_def Let_def allocate_request_def permission_request_def\<close>)
  qed
qed

text \<open>
  What a relay that was set up rests on: the server and the peer are the requested ones; a challenge of the server; an allocation over
  UDP and a permission for the address of the peer, each requested with the challenge's realm and
  nonce, the last two datagrams that were sent; and the server's answers to them.
\<close>

definition relay_established ::
  "qt_socket \<Rightarrow> qt_crypto \<Rightarrow> turn_round list \<Rightarrow> turn_round \<Rightarrow> turn_round \<Rightarrow> string \<Rightarrow> u16 \<Rightarrow> string \<Rightarrow> string \<Rightarrow>
   string \<Rightarrow> u16 \<Rightarrow> UdpPeerSocket \<Rightarrow> UdpPeerSocket \<Rightarrow> bool" where
  "relay_established qs qc challenges auth permission turnAddress turnPort username credential peerAddress peerPort s s' \<longleftrightarrow>
     (\<exists>server peer allocated x challenge earlier peerValue.
        let heard = heard_datagrams challenges auth permission s in
        resolveIpv4PeerAddress qs turnAddress turnPort = Some server \<and>
        resolveIpv4PeerAddress qs peerAddress peerPort = Some peer \<and> us_peer s' = peer \<and> us_peerValid s' \<and>
        us_turnRelay s' = relay_state server peer (ta_relayedAddress allocated) \<and> ta_success allocated \<and>
        x \<in> set (take 3 challenges) \<and>
        answered heard server (\<lambda>p. parseAllocateResponse p (rd_transactionId x) = Some challenge) \<and>
        answered heard server (\<lambda>p. parseAllocateResponse p (rd_transactionId auth) = Some allocated) \<and>
        answered heard server (\<lambda>p. parseCreatePermissionResponse p (rd_transactionId permission) = Some (Inr ())) \<and>
        us_written s' = us_written s @ earlier @
          [on_wire (us_turnRelay s) auth (authenticated_request qc 0x0003 (rd_transactionId auth)
             [(0x0019, 17 # take 3 (rd_unset auth))] username (ta_realm challenge) (ta_nonce challenge) credential) server,
           on_wire (us_turnRelay s) permission (authenticated_request qc 0x0008 (rd_transactionId permission)
             [(0x0012, peerValue)] username (ta_realm challenge) (ta_nonce challenge) credential) server] \<and>
        turn_parseAddressAttribute peerValue = Some (Some \<lparr> se_address = ue_address peer, se_port = 1 \<rparr>))"

text \<open>
  C8. Setting up a relay is all or nothing. It always comes to an end after at most three requests
  for a challenge, one allocation and one permission. When it reports an error, the peer, its
  validity and the relay in use are what they were. When it succeeds, packets for the requested
  peer go through the requested server from then on; the last two requests were an allocation over
  UDP and a permission for the very address of the peer, both with the realm and the nonce of a
  challenge of the server and with the user's digest over the whole message under the long-term key;
  and the challenge, the allocation and the permission were each answered by a datagram that came
  from the server's own address and port and carried the transaction id of the request.
\<close>

theorem turn_relay_setup:
  assumes "\<And>m k. length (qc_hmacSha1 qc m k) = 20"
  shows "\<exists>r s'. configureTurnRelay qs qc challenges auth permission turnAddress turnPort username credential
      peerAddress peerPort s = Some (r, s') \<and>
    (case r of
       Some error \<Rightarrow> us_peer s' = us_peer s \<and> us_peerValid s' = us_peerValid s \<and> us_turnRelay s' = us_turnRelay s
     | None \<Rightarrow> relay_established qs qc challenges auth permission turnAddress turnPort username credential peerAddress peerPort s s')"
proof -
  define heard where "heard = heard_datagrams challenges auth permission s"
  obtain r s' where run: "configureTurnRelay qs qc challenges auth permission turnAddress turnPort username credential
      peerAddress peerPort s = Some (r, s')" and kept: "r \<noteq> None \<longrightarrow> same_routing s s'"
    and outcome: "r = None \<longrightarrow> (\<exists>server peer allocated.
       resolveIpv4PeerAddress qs turnAddress turnPort = Some server \<and>
       resolveIpv4PeerAddress qs peerAddress peerPort = Some peer \<and>
       us_peer s' = peer \<and> us_peerValid s' \<and>
       us_turnRelay s' = relay_state server peer (ta_relayedAddress allocated) \<and> ta_success allocated \<and>
       answered heard server (\<lambda>p. parseAllocateResponse p (rd_transactionId auth) = Some allocated) \<and>
       answered heard server (\<lambda>p. parseCreatePermissionResponse p (rd_transactionId permission) = Some (Inr ())) \<and>
       (\<exists>x earlier challenge. x \<in> set (take 3 challenges) \<and>
          answered heard server (\<lambda>p. parseAllocateResponse p (rd_transactionId x) = Some challenge) \<and>
          allocate_request qc auth username credential challenge \<noteq> [] \<and>
          permission_request qc permission username credential challenge peer \<noteq> [] \<and>
          us_written s' = us_written s @ earlier @
            [on_wire (us_turnRelay s) auth (allocate_request qc auth username credential challenge) server,
             on_wire (us_turnRelay s) permission (permission_request qc permission username credential challenge peer) server]))"
    using configureTurnRelay_outcome [of qs qc challenges auth permission turnAddress turnPort username credential
      peerAddress peerPort s] unfolding heard_def by blast
  show ?thesis
  proof (cases r)
    case (Some e)
    then show ?thesis using run kept by (auto simp: same_routing_def)
  next
    case None
    with outcome obtain server peer allocated x earlier challenge where
      facts: "resolveIpv4PeerAddress qs turnAddress turnPort = Some server"
      "resolveIpv4PeerAddress qs peerAddress peerPort = Some peer" "us_peer s' = peer" "us_peerValid s'"
      "us_turnRelay s' = relay_state server peer (ta_relayedAddress allocated)" "ta_success allocated"
      "x \<in> set (take 3 challenges)"
      "answered heard server (\<lambda>p. parseAllocateResponse p (rd_transactionId x) = Some challenge)"
      "answered heard server (\<lambda>p. parseAllocateResponse p (rd_transactionId auth) = Some allocated)"
      "answered heard server (\<lambda>p. parseCreatePermissionResponse p (rd_transactionId permission) = Some (Inr ()))"
      and sent: "allocate_request qc auth username credential challenge \<noteq> []"
        "permission_request qc permission username credential challenge peer \<noteq> []"
        "us_written s' = us_written s @ earlier @
            [on_wire (us_turnRelay s) auth (allocate_request qc auth username credential challenge) server,
             on_wire (us_turnRelay s) permission (permission_request qc permission username credential challenge peer) server]"
      by blast
    obtain v where v: "permission_request qc permission username credential challenge peer =
        authenticated_request qc 0x0008 (rd_transactionId permission) [(0x0012, v)] username (ta_realm challenge)
          (ta_nonce challenge) credential"
      "turn_parseAddressAttribute v = Some (Some \<lparr> se_address = ue_address peer, se_port = 1 \<rparr>)"
      using permission_authenticated [OF assms(1) sent(2) [unfolded permission_request_def]]
      unfolding permission_request_def by blast
    note a = allocate_authenticated [OF assms(1) sent(1) [unfolded allocate_request_def], folded allocate_request_def]
    note written = sent(3) [unfolded a v(1)]
    have "relay_established qs qc challenges auth permission turnAddress turnPort username credential peerAddress peerPort s s'"
      unfolding relay_established_def Let_def heard_def [symmetric]
      by (intro exI conjI) (rule facts | rule written | rule v(2))+
    then show ?thesis using run None by simp
  qed
qed

section \<open>Reachable sockets\<close>

inductive socket_step :: "qt_socket \<Rightarrow> UdpPeerSocket \<Rightarrow> UdpPeerSocket \<Rightarrow> bool" for qs where
  opened: "socket_open qs a p s = (r, s') \<Longrightarrow> socket_step qs s s'"
| closed: "socket_step qs s (socket_close s)"
| peer: "socket_setPeer qs a p s = (r, s') \<Longrightarrow> socket_step qs s s'"
| relay_off: "socket_step qs s (disableTurnRelay s)"
| relay_on: "configureTurnRelay qs qc cs a p ta tp u c pa pp s = Some (r, s') \<Longrightarrow> socket_step qs s s'"
| timeout: "socket_step qs s (setReadTimeoutMs t s)"
| interrupt: "socket_step qs s (interruptWaiters s)"
| send: "sendTo qs rnd d t s = (n, s') \<Longrightarrow> socket_step qs s s'"
| recv: "recvFrom len s = Some (r, s') \<Longrightarrow> socket_step qs s s'"
| arrive: "socket_step qs s (enqueuePendingDatagramsFromSocket qs ds s)"
| wait: "socket_step qs s (others s) \<Longrightarrow> waitForReadable t woke others s = (n, s') \<Longrightarrow> socket_step qs s s'"

lemma resolve_ipv4: "resolveIpv4PeerAddress qs a p = Some e \<Longrightarrow> endpoint_isIpv4 e"
  by (auto simp: resolveIpv4PeerAddress_def endpoint_isIpv4_def split: if_splits option.splits)

lemma us_inv_close: "us_inv s \<Longrightarrow> us_inv (socket_close s)"
  by (simp add: socket_close_def interruptWaiters_def us_inv_def)

lemma us_inv_open:
  assumes "socket_open qs a p s = (r, s')" "us_inv s"
  shows "us_inv s'"
proof -
  have "us_inv (socket_close s)" using assms(2) by (rule us_inv_close)
  then show ?thesis
    using assms(1)
    by (auto simp: socket_open_def Let_def us_inv_def socket_close_def interruptWaiters_def setSocketError_def
        clearSocketError_def setReadTimeoutMs_def split: if_splits option.splits)
qed

lemma wait_cases:
  assumes "waitForReadable t woke others s = (n, s')"
  shows "same_routing s s' \<or> same_routing (others s) s'"
  using assms
  by (auto simp: waitForReadable_def Let_def split: if_splits prod.splits WaitOutcome.splits)

lemma us_inv_step: "socket_step qs s s' \<Longrightarrow> us_inv s \<Longrightarrow> us_inv s'"
proof (induction rule: socket_step.induct)
  case (relay_on qc cs a p ta tp u c pa pp s r s')
  then show ?case
    using configureTurnRelay_outcome [of qs qc cs a p ta tp u c pa pp s] resolve_ipv4 [of qs]
    by (cases r) (auto simp: same_routing_inv us_inv_def relay_state_def same_routing_def)
next
  case (wait s others t woke n s')
  then show ?case using wait_cases [OF wait(2)] by (auto simp: same_routing_inv)
next
  case (send rnd d t s n s')
  then show ?case using sendTo_keeps same_routing_inv by blast
next
  case (recv len s r s')
  then show ?case using recvFrom_keeps same_routing_inv by blast
next
  case (arrive s ds)
  have "same_routing s (enqueuePendingDatagramsFromSocket qs ds s)"
    by (simp add: enqueuePendingDatagramsFromSocket_def Let_def)
  then show ?case using arrive same_routing_inv by blast
next
  case (peer a p s r s')
  then show ?case
    by (auto simp: socket_setPeer_def us_inv_def dest: resolve_ipv4 split: option.splits)
next
  case (opened a p s r s')
  then show ?case by (rule us_inv_open)
next
  case (closed s)
  then show ?case by (rule us_inv_close)
qed (auto simp: us_inv_def disableTurnRelay_def TurnRelayState_new_def setReadTimeoutMs_def interruptWaiters_def)

lemma us_inv_new: "us_inv UdpPeerSocket_new"
  by (simp add: us_inv_def UdpPeerSocket_new_def TurnRelayState_new_def)

interpretation socket: state_machine "\<lambda>s. s = UdpPeerSocket_new" "socket_step qs" us_inv for qs
  by unfold_locales (auto simp: us_inv_new intro: us_inv_step)

lemma socket_reachable_inv: "(socket_step qs)\<^sup>*\<^sup>* UdpPeerSocket_new s \<Longrightarrow> us_inv s"
  by (rule socket.reachable_inv) simp_all

section \<open>Packets through the relay\<close>

definition turn_indication :: "u16 \<Rightarrow> bytes \<Rightarrow> UdpEndpoint \<Rightarrow> bytes \<Rightarrow> bytes" where
  "turn_indication ty tid peer payload =
     turn_packet ty tid [(kAttrXorPeerAddress, addressAttributeValue (ue_address peer) (ue_port peer)), (kAttrData, payload)]"

lemma relayed_send:
  assumes "us_inv s" "us_socket s" "tr_enabled (us_turnRelay s)" "payload \<noteq> []"
    and "qs_writeDatagram qs (turn_indication kSendIndication (makeTransactionId rnd) (tr_peer (us_turnRelay s)) payload)
        (tr_server (us_turnRelay s)) \<ge> 0"
  shows "\<exists>s'. sendTo qs rnd payload (tr_peer (us_turnRelay s)) s = (int (length payload), s') \<and>
      us_written s' = us_written s @
        [(turn_indication kSendIndication (makeTransactionId rnd) (tr_peer (us_turnRelay s)) payload,
          tr_server (us_turnRelay s))]"
proof -
  let ?relay = "us_turnRelay s"
  let ?m = "turn_indication kSendIndication (makeTransactionId rnd) (tr_peer ?relay) payload"
  have ip: "endpoint_isIpv4 (tr_peer ?relay)" using assms(1,3) by (simp add: us_inv_def)
  have tid: "length (makeTransactionId rnd) = 12" by (simp add: makeTransactionId_def)
  have "buildSendIndication rnd (ue_address (tr_peer ?relay)) (ue_port (tr_peer ?relay)) payload = ?m"
    using assms(4) ip
    by (simp add: buildSendIndication_def turn_indication_def endpoint_isIpv4_def appendHeader_packet
        appendAttribute_packet [OF tid])
  moreover have "?m \<noteq> []" by (simp add: turn_indication_def turn_packet_def Let_def AppendU16_def)
  moreover have "UdpEndpoint_isValid (tr_peer ?relay)" "sameIpv4Endpoint (tr_peer ?relay) (tr_peer ?relay) True"
    using ip by (auto simp: UdpEndpoint_isValid_def endpoint_isIpv4_def sameIpv4Endpoint_def is_ipv4_def)
  ultimately show ?thesis
    using assms(2-5) by (simp add: sendTo_def native_write_def Let_def)
qed

lemma relayed_recv:
  assumes "us_inv s" "us_socket s" "tr_enabled (us_turnRelay s)"
    and "length tid = 12" "endpoint_isIpv4 origin" "length payload \<le> 65516" "0 < len"
    and "us_pendingDatagrams s = (turn_indication kDataIndication tid origin payload, tr_server (us_turnRelay s)) # rest"
  shows "\<exists>s'. recvFrom len s = Some (Inr (take len payload, origin), s')"
proof -
  let ?server = "tr_server (us_turnRelay s)"
  obtain a where a: "ue_address origin = IPv4 a" "ue_port origin \<noteq> 0"
    using assms(5) by (auto simp: endpoint_isIpv4_def is_ipv4_def split: QHostAddress.splits)
  have "parseDataIndication (turn_indication kDataIndication tid origin payload) =
      Some (Inr (\<lparr> se_address = IPv4 a, se_port = ue_port origin \<rparr>, payload))"
    using assms(4,6) a by (simp add: turn_indication_def data_indication_parsed)
  moreover have "\<lparr> ue_address = IPv4 a, ue_port = ue_port origin \<rparr> = origin" using a(1) by simp
  moreover have "sameIpv4Endpoint ?server ?server True" "us_useSocketThread s"
    using assms(1-3) by (auto simp: us_inv_def sameIpv4Endpoint_def)
  ultimately show ?thesis
    using assms(3,7,8) by (simp add: recvFrom_def maybeUnwrapTurnDataIndication_def)
qed

text \<open>
  C9. The relay is transparent. With a relay set up, what a client sends to its peer leaves as one
  Send indication for the peer, addressed to the relay server, and is reported as sent with its own
  length. When the server delivers a payload in a Data indication, the receiving client gets exactly the
  payload, cut to the caller's buffer, with the address of the client it comes from. A datagram
  from any other sender is never unwrapped: nobody but the relay can speak in the name of the peer.
\<close>

theorem relay_transparent:
  assumes "(socket_step qs)\<^sup>*\<^sup>* UdpPeerSocket_new s" "us_socket s" "tr_enabled (us_turnRelay s)"
    and "us_turnRelay s = relay_state server peer relayed"
    and "payload \<noteq> []" "length payload \<le> 65516" "0 < len"
  shows "(qs_writeDatagram qs (turn_indication kSendIndication (makeTransactionId rnd) peer payload) server \<ge> 0 \<longrightarrow>
      (\<exists>s'. sendTo qs rnd payload peer s = (int (length payload), s') \<and> us_written s' = us_written s @
        [(turn_indication kSendIndication (makeTransactionId rnd) peer payload, server)])) \<and>
    (length tid = 12 \<and> endpoint_isIpv4 origin \<longrightarrow>
      (\<exists>s'. recvFrom len (s\<lparr>us_pendingDatagrams := (turn_indication kDataIndication tid origin payload, server) # rest\<rparr>) =
        Some (Inr (take len payload, origin), s'))) \<and>
    (\<not> sameIpv4Endpoint sender server True \<longrightarrow>
      (\<exists>s'. recvFrom len (s\<lparr>us_pendingDatagrams := (payload, sender) # rest\<rparr>) =
        Some (Inr (take len payload, sender), s')))"
proof (intro conjI impI)
  have inv: "us_inv s" using assms(1) by (rule socket_reachable_inv)
  let ?s = "\<lambda>d. s\<lparr>us_pendingDatagrams := d # rest\<rparr>"
  have invq: "us_inv (?s d)" "us_socket (?s d)" "tr_enabled (us_turnRelay (?s d))" for d
    using inv assms(2,3) by (auto simp: us_inv_def)
  have r: "tr_server (us_turnRelay s) = server" "tr_peer (us_turnRelay s) = peer"
    using assms(4) by (auto simp: relay_state_def)
  show "\<exists>s'. sendTo qs rnd payload peer s = (int (length payload), s') \<and> us_written s' = us_written s @
        [(turn_indication kSendIndication (makeTransactionId rnd) peer payload, server)]"
    if "qs_writeDatagram qs (turn_indication kSendIndication (makeTransactionId rnd) peer payload) server \<ge> 0"
    using relayed_send [OF inv assms(2,3,5), of qs rnd] that r by simp
  show "\<exists>s'. recvFrom len (?s (turn_indication kDataIndication tid origin payload, server)) =
        Some (Inr (take len payload, origin), s')" if "length tid = 12 \<and> endpoint_isIpv4 origin"
    using relayed_recv [OF invq, of tid origin payload len] that assms(6,7) r by simp
  show "\<exists>s'. recvFrom len (?s (payload, sender)) = Some (Inr (take len payload, sender), s')"
    if "\<not> sameIpv4Endpoint sender server True"
    using that inv assms(2,7) r by (simp add: recvFrom_def maybeUnwrapTurnDataIndication_def us_inv_def)
qed

text \<open>A server that challenges, allocates and grants, and the socket after the setup.\<close>

definition demo_qs :: qt_socket where
  "demo_qs = \<lparr> qs_setAddress = (\<lambda>a. Some (IPv4 (if a = ''s'' then 1 else 2))), qs_bind = (\<lambda>_ _. None),
     qs_writeDatagram = (\<lambda>d _. int (length d)), qs_error = (UnknownSocketError, []), qs_localPort = 5000 \<rparr>"

definition demo_turn_server :: UdpEndpoint where
  "demo_turn_server = \<lparr> ue_address = IPv4 1, ue_port = 3478 \<rparr>"

definition demo_round :: "u8 \<Rightarrow> bytes \<Rightarrow> turn_round" where
  "demo_round n answer = \<lparr> rd_transactionId = replicate 12 n, rd_unset = [0, 0, 0], rd_rnd = (\<lambda>_. 0),
     rd_arrivals = [([1, 2], \<lparr> ue_address = IPv4 9, ue_port = 9 \<rparr>), (answer, demo_turn_server)] \<rparr>"

definition demo_challenge :: turn_round where
  "demo_challenge = demo_round 1 (turn_packet kAllocateError (replicate 12 1) [(kAttrRealm, [114]), (kAttrNonce, [110])])"

definition demo_auth :: turn_round where
  "demo_auth = demo_round 2 (turn_packet kAllocateSuccess (replicate 12 2)
     [(kAttrXorRelayedAddress, addressAttributeValue (IPv4 1) 50000)])"

definition demo_permission :: turn_round where
  "demo_permission = demo_round 3 (turn_packet kCreatePermissionSuccess (replicate 12 3) [])"

definition demo_qc :: qt_crypto where
  "demo_qc = \<lparr> qc_md5 = (\<lambda>_. replicate 16 0), qc_hmacSha1 = (\<lambda>_ _. replicate 20 0) \<rparr>"

definition demo_open :: UdpPeerSocket where
  "demo_open = snd (socket_open demo_qs [] 0 UdpPeerSocket_new)"

definition demo_relay :: "(string option \<times> UdpPeerSocket) mem" where
  "demo_relay = configureTurnRelay demo_qs demo_qc [demo_challenge] demo_auth demo_permission
     ''s'' 3478 ''u'' ''c'' ''p'' 4000 demo_open"

lemma demo_relay_ok: "map_option (\<lambda>(r, s). (r, us_socket s, us_turnRelay s)) demo_relay =
    Some (None, True, relay_state demo_turn_server \<lparr> ue_address = IPv4 2, ue_port = 4000 \<rparr> \<lparr> se_address = IPv4 1, se_port = 50000 \<rparr>)"
  by code_simp

theorem turn_relay_setup_witness:
  "\<exists>s'. demo_relay = Some (None, s') \<and> relay_established demo_qs demo_qc [demo_challenge] demo_auth demo_permission
     ''s'' 3478 ''u'' ''c'' ''p'' 4000 demo_open s'"
proof -
  obtain s where s: "demo_relay = Some (None, s)" using demo_relay_ok by auto
  have hmac: "length (qc_hmacSha1 demo_qc m k) = 20" for m k by (simp add: demo_qc_def)
  show ?thesis
    using turn_relay_setup [OF hmac, of demo_qs "[demo_challenge]" demo_auth demo_permission "''s''" 3478 "''u''" "''c''"
        "''p''" 4000 demo_open]
    unfolding demo_relay_def [symmetric] s by simp
qed

theorem relay_transparent_witness:
  "\<exists>s s'. demo_relay = Some (None, s) \<and>
     recvFrom 1500 (s\<lparr>us_pendingDatagrams := [(turn_indication kDataIndication (replicate 12 7)
       \<lparr> ue_address = IPv4 2, ue_port = 4000 \<rparr> [5, 6, 7], demo_turn_server)]\<rparr>) =
       Some (Inr (take 1500 [5, 6, 7], \<lparr> ue_address = IPv4 2, ue_port = 4000 \<rparr>), s')"
proof -
  obtain s where s: "demo_relay = Some (None, s)" "us_socket s"
    "us_turnRelay s = relay_state demo_turn_server \<lparr> ue_address = IPv4 2, ue_port = 4000 \<rparr> \<lparr> se_address = IPv4 1, se_port = 50000 \<rparr>"
    using demo_relay_ok by auto
  have "socket_step demo_qs UdpPeerSocket_new demo_open"
    unfolding demo_open_def by (rule socket_step.opened) (rule surjective_pairing)
  moreover have "socket_step demo_qs demo_open s"
    using s(1) unfolding demo_relay_def by (rule socket_step.relay_on)
  ultimately have reach: "(socket_step demo_qs)\<^sup>*\<^sup>* UdpPeerSocket_new s" by simp
  show ?thesis
    using relay_transparent [OF reach s(2) _ s(3), of "[5, 6, 7]" 1500 "\<lambda>_. 0" "replicate 12 7"
        "\<lparr> ue_address = IPv4 2, ue_port = 4000 \<rparr>" "[]" demo_turn_server] s(1,3)
    by (auto simp: relay_state_def endpoint_isIpv4_def is_ipv4_def)
qed

text \<open>
  Closing a socket forgets its peer but not its relay: a socket that is opened again and given the
  same peer wraps its packets for an allocation of the earlier life.
\<close>

lemma relay_survives_reopen:
  assumes "tr_enabled (us_turnRelay s)" "socket_open qs a p (socket_close s) = (None, s1)"
  shows "us_socket s1 \<and> us_turnRelay s1 = us_turnRelay s"
  using assms
  by (auto simp: socket_open_def socket_close_def interruptWaiters_def setReadTimeoutMs_def clearSocketError_def
      setSocketError_def Let_def split: if_splits option.splits)

end
