(* ===== verification/ClientRtp.thy ===== *)
theory ClientRtp
  imports RtpParser
begin

text \<open>
  The RTP layer of the client (\<open>plasma-hawking/src/net/media/RTPSender.cpp\<close> and
  \<open>RTPReceiver.cpp\<close>): building, parsing and unpacking of packets. \<open>None\<close> as the outer result is
  a read outside the packet, the inner \<open>None\<close> the result \<open>false\<close>. The sequence counter is an
  atomic that \<open>buildPacket\<close> increments modulo \<open>2 ^ 16\<close>. \<open>readBE16\<close>, \<open>readBE32\<close>, \<open>writeBE16\<close> and
  \<open>writeBE32\<close> are the readers and writers of the prelude.
\<close>

record RTPHeader =
  h_version :: u8
  h_padding :: bool
  h_extension :: bool
  h_csrcCount :: u8
  h_marker :: bool
  h_payloadType :: u8
  h_sequenceNumber :: u16
  h_timestamp :: u32
  h_ssrc :: u32

record RTPPacket =
  p_header :: RTPHeader
  p_payload :: bytes

definition kRtpMinHeaderSize :: nat where "kRtpMinHeaderSize = 12"

definition parseRTPHeader :: "bytes \<Rightarrow> (RTPHeader \<times> nat) option mem" where
  "parseRTPHeader data =
     (if length data < kRtpMinHeaderSize then Some None
      else do {
        b0 \<leftarrow> byte_at data 0;
        b1 \<leftarrow> byte_at data 1;
        sequenceNumber \<leftarrow> ReadU16 data 2;
        timestamp \<leftarrow> ReadU32 data 4;
        ssrc \<leftarrow> ReadU32 data 8;
        let header = \<lparr> h_version = drop_bit 6 b0 AND 0x03, h_padding = (b0 AND 0x20 \<noteq> 0),
              h_extension = (b0 AND 0x10 \<noteq> 0), h_csrcCount = b0 AND 0x0F, h_marker = (b1 AND 0x80 \<noteq> 0),
              h_payloadType = b1 AND 0x7F, h_sequenceNumber = sequenceNumber, h_timestamp = timestamp,
              h_ssrc = ssrc \<rparr>;
        if h_version header \<noteq> 2 then Some None
        else do {
          let payloadOffset = kRtpMinHeaderSize + unat (h_csrcCount header) * 4;
          if payloadOffset > length data then Some None
          else do {
            afterExtension \<leftarrow>
              (if h_extension header then
                 (if length data < payloadOffset + 4 then Some None
                  else do {
                    extLengthWords \<leftarrow> ReadU16 data (payloadOffset + 2);
                    let payloadOffset = payloadOffset + (4 + unat extLengthWords * 4);
                    Some (if payloadOffset > length data then None else Some payloadOffset) })
               else Some (Some payloadOffset));
            case afterExtension of
              None \<Rightarrow> Some None
            | Some payloadOffset \<Rightarrow>
                if h_padding header
                then do {
                  padLen \<leftarrow> byte_at data (length data - 1);
                  Some (if padLen = 0 \<or> unat padLen > length data - payloadOffset then None
                        else Some (header, payloadOffset)) }
                else Some (Some (header, payloadOffset)) } } })"

definition parsePacket :: "bytes \<Rightarrow> RTPPacket option mem" where
  "parsePacket data = do {
     parsed \<leftarrow> parseRTPHeader data;
     case parsed of
       None \<Rightarrow> Some None
     | Some (header, payloadOffset) \<Rightarrow> do {
         let payloadLen = length data - payloadOffset;
         trimmed \<leftarrow>
           (if h_padding header \<and> payloadLen > 0
            then do {
              padLen \<leftarrow> byte_at data (length data - 1);
              Some (if padLen = 0 \<or> unat padLen > payloadLen then None else Some (payloadLen - unat padLen)) }
            else Some (Some payloadLen));
         Some (map_option (\<lambda>payloadLen. \<lparr> p_header = header, p_payload = take payloadLen (drop payloadOffset data) \<rparr>)
                 trimmed) } }"

section \<open>The sender\<close>

record RTPSender =
  snd_ssrc :: u32
  snd_sequence :: u16

definition setSSRC :: "u32 \<Rightarrow> RTPSender \<Rightarrow> RTPSender" where
  "setSSRC ssrc s = s\<lparr>snd_ssrc := ssrc\<rparr>"

definition setSequence :: "u16 \<Rightarrow> RTPSender \<Rightarrow> RTPSender" where
  "setSequence sequence s = s\<lparr>snd_sequence := sequence\<rparr>"

definition buildPacket :: "u8 \<Rightarrow> bool \<Rightarrow> u32 \<Rightarrow> bytes \<Rightarrow> RTPSender \<Rightarrow> bytes \<times> RTPSender" where
  "buildPacket payloadType marker timestamp payload s =
     ([0x80, if marker then (payloadType AND 0x7F) OR 0x80 else payloadType AND 0x7F]
        @ AppendU16 (snd_sequence s) @ AppendU32 timestamp @ AppendU32 (snd_ssrc s) @ payload,
      s\<lparr>snd_sequence := snd_sequence s + 1\<rparr>)"

section \<open>Client and server read packets alike\<close>

text \<open>The client's view of a packet the server parsed.\<close>

definition client_view :: "bytes \<Rightarrow> ParsedRtpPacket \<Rightarrow> RTPPacket" where
  "client_view data p =
     (let h = pkt_header p in
      \<lparr> p_header = \<lparr> h_version = rtp_version h, h_padding = rtp_padding h, h_extension = rtp_extension h,
          h_csrcCount = rtp_csrcCount h, h_marker = rtp_marker h, h_payloadType = rtp_payloadType h,
          h_sequenceNumber = rtp_sequence h, h_timestamp = rtp_timestamp h, h_ssrc = rtp_ssrc h \<rparr>,
        p_payload = take (pkt_payloadSize p) (drop (pkt_payload p) data) \<rparr>)"

lemma parsePacket_eq: "parsePacket data = Some (map_option (client_view data) (rtp_parse data))"
proof (cases "length data < 12")
  case True
  then show ?thesis
    by (simp add: parsePacket_def parseRTPHeader_def rtp_parse_def RtpParser_Parse_def kRtpMinHeaderSize_def kMinHeaderSize_def)
next
  case False
  then have "0 < length data" "1 < length data" "length data - 1 < length data" by linarith+
  then have reads: "byte_at data 0 = Some (data ! 0)" "byte_at data (Suc 0) = Some (data ! 1)"
    "byte_at data (length data - 1) = Some (data ! (length data - 1))"
    "byte_at data (length data - Suc 0) = Some (data ! (length data - 1))"
    by (simp_all only: byte_at_in One_nat_def)
  show ?thesis
    using False
    by (auto simp: parsePacket_def parseRTPHeader_def rtp_parse_def RtpParser_Parse_def kRtpMinHeaderSize_def
        kMinHeaderSize_def reads skip_extension_def trim_padding_def client_view_def Let_def unsigned_eq_0_iff)
qed

text \<open>
  The client's parser and the media server's parser agree on every byte string: they accept
  the same packets and read the same header fields and the same payload from them, and neither
  reads outside the packet.
\<close>

theorem client_and_server_parse_alike:
  "parsePacket data = Some (map_option (client_view data) (rtp_parse data)) \<and>
   RtpParser_Parse data = Some (rtp_parse data)"
  using parsePacket_eq Parse_eq by blast

section \<open>What the sender builds\<close>

lemma buildPacket_length [simp]: "length (fst (buildPacket pt m ts payload s)) = 12 + length payload"
  by (simp add: buildPacket_def)

lemma marker_byte:
  fixes pt :: u8
  shows "((pt AND 0x7F) OR 0x80) AND 0x80 \<noteq> 0" "(pt AND 0x7F) AND 0x80 = 0"
    "((pt AND 0x7F) OR 0x80) AND 0x7F = pt AND 0x7F" "(pt AND 0x7F) AND 0x7F = pt AND 0x7F"
proof -
  have e: "(0x7F :: u8) AND 0x80 = 0" "(0x80 :: u8) AND 0x7F = 0" by simp_all
  show "((pt AND 0x7F) OR 0x80) AND 0x80 \<noteq> 0" "(pt AND 0x7F) AND 0x80 = 0"
    "((pt AND 0x7F) OR 0x80) AND 0x7F = pt AND 0x7F" "(pt AND 0x7F) AND 0x7F = pt AND 0x7F"
    by (simp_all add: and.assoc bit.conj_disj_distrib2 e)
qed

lemma parse_built:
  "rtp_parse (fst (buildPacket pt m ts payload s)) =
     Some \<lparr> pkt_header = \<lparr> rtp_version = 2, rtp_padding = False, rtp_extension = False, rtp_csrcCount = 0,
         rtp_marker = m, rtp_payloadType = pt AND 0x7F, rtp_sequence = snd_sequence s, rtp_timestamp = ts,
         rtp_ssrc = snd_ssrc s, rtp_headerSize = 12 \<rparr>, pkt_payload = 12, pkt_payloadSize = length payload \<rparr>"
  by (simp add: rtp_parse_def RtpParser_Parse_def kMinHeaderSize_def buildPacket_def AppendU16_def AppendU32_def
      skip_extension_def trim_padding_def Let_def marker_byte)

lemma RewriteSsrc_built:
  "RewriteSsrc w (fst (buildPacket pt m ts payload s)) = fst (buildPacket pt m ts payload (setSSRC w s))"
  by (simp add: RewriteSsrc_def kMinHeaderSize_def buildPacket_def setSSRC_def AppendU16_def AppendU32_def)

lemma parsePacket_built:
  "parsePacket (fst (buildPacket pt m ts payload s)) =
     Some (Some \<lparr> p_header = \<lparr> h_version = 2, h_padding = False, h_extension = False, h_csrcCount = 0, h_marker = m,
         h_payloadType = pt AND 0x7F, h_sequenceNumber = snd_sequence s, h_timestamp = ts, h_ssrc = snd_ssrc s \<rparr>,
       p_payload = payload \<rparr>)"
proof -
  have "drop 12 (fst (buildPacket pt m ts payload s)) = payload"
    by (simp add: buildPacket_def AppendU16_def AppendU32_def)
  then show ?thesis by (simp add: parsePacket_eq parse_built client_view_def)
qed

end
