(* ===== verification/JitterBuffer.thy ===== *)
theory JitterBuffer
  imports ClientRtp "HOL-Library.Multiset"
begin

text \<open>
  The jitter buffer of the client (\<open>plasma-hawking/src/net/media/JitterBuffer.cpp\<close>). The
  \<open>std::map\<close> from sequence numbers to packets is the list of its entries in iteration order, that
  is with strictly increasing keys. Times are nanoseconds of the steady clock; 0 is the default
  time point. Every public operation holds the mutex; \<open>pop\<close> reads the clock once.
\<close>

record JitterBuffer =
  jb_packets :: "(u16 \<times> RTPPacket) list"
  jb_expectedSeq :: "u16 option"
  jb_gapWaitStartedAt :: int
  jb_maxPackets :: nat
  jb_minBufferedPackets :: nat
  jb_gapTimeout :: int
  jb_playoutStarted :: bool

definition JitterBuffer_new :: "nat \<Rightarrow> nat \<Rightarrow> int \<Rightarrow> JitterBuffer" where
  "JitterBuffer_new maxPackets minBufferedPackets gapTimeout =
     (let m = (if maxPackets = 0 then 1 else maxPackets) in
      \<lparr> jb_packets = [], jb_expectedSeq = None, jb_gapWaitStartedAt = 0, jb_maxPackets = m,
        jb_minBufferedPackets = max 1 (min minBufferedPackets m), jb_gapTimeout = max 0 gapTimeout,
        jb_playoutStarted = False \<rparr>)"

text \<open>\<open>std::map::operator[]\<close> with an assignment.\<close>

fun map_assign :: "u16 \<Rightarrow> 'v \<Rightarrow> (u16 \<times> 'v) list \<Rightarrow> (u16 \<times> 'v) list" where
  "map_assign k v [] = [(k, v)]"
| "map_assign k v ((k', v') # m) =
     (if k < k' then (k, v) # (k', v') # m
      else if k = k' then (k, v) # m
      else (k', v') # map_assign k v m)"

definition trimLocked :: "JitterBuffer \<Rightarrow> JitterBuffer" where
  "trimLocked b = b\<lparr>jb_packets := drop (length (jb_packets b) - jb_maxPackets b) (jb_packets b)\<rparr>"

definition setMaxPackets :: "nat \<Rightarrow> JitterBuffer \<Rightarrow> JitterBuffer" where
  "setMaxPackets maxPackets b =
     (let m = (if maxPackets = 0 then 1 else maxPackets);
          n = min (jb_minBufferedPackets b) m
      in trimLocked (b\<lparr>jb_maxPackets := m, jb_minBufferedPackets := (if n = 0 then 1 else n)\<rparr>))"

definition setMinBufferedPackets :: "nat \<Rightarrow> JitterBuffer \<Rightarrow> JitterBuffer" where
  "setMinBufferedPackets n b = b\<lparr>jb_minBufferedPackets := max 1 (min n (jb_maxPackets b))\<rparr>"

definition setGapTimeout :: "int \<Rightarrow> JitterBuffer \<Rightarrow> JitterBuffer" where
  "setGapTimeout timeout b = b\<lparr>jb_gapTimeout := max 0 timeout, jb_gapWaitStartedAt := 0\<rparr>"

definition JitterBuffer_push :: "RTPPacket \<Rightarrow> JitterBuffer \<Rightarrow> bool \<times> JitterBuffer" where
  "JitterBuffer_push packet b =
     (let sequence = h_sequenceNumber (p_header packet);
          b1 = b\<lparr>jb_packets := map_assign sequence packet (jb_packets b)\<rparr>;
          b2 = (if jb_expectedSeq b1 = None then b1\<lparr>jb_expectedSeq := Some sequence\<rparr> else b1)
      in (True, trimLocked b2))"

text \<open>The timeout is in milliseconds.\<close>

definition readyToPopLocked :: "int \<Rightarrow> JitterBuffer \<Rightarrow> bool \<times> JitterBuffer" where
  "readyToPopLocked now b =
     (if jb_packets b = [] then (False, b)
      else if \<not> jb_playoutStarted b \<and> length (jb_packets b) < jb_minBufferedPackets b \<and>
              length (jb_packets b) < jb_maxPackets b
      then (False, b)
      else
        let b1 = b\<lparr>jb_playoutStarted := True\<rparr> in
        if (case jb_expectedSeq b1 of None \<Rightarrow> True | Some e \<Rightarrow> map_of (jb_packets b1) e \<noteq> None)
        then (True, b1\<lparr>jb_gapWaitStartedAt := 0\<rparr>)
        else if length (jb_packets b1) \<ge> jb_maxPackets b1 \<or> jb_gapTimeout b1 = 0 then (True, b1)
        else if jb_gapWaitStartedAt b1 = 0 then (False, b1\<lparr>jb_gapWaitStartedAt := now\<rparr>)
        else (now - jb_gapWaitStartedAt b1 \<ge> jb_gapTimeout b1 * 1000000, b1))"

text \<open>The entry \<open>popLocked\<close> takes: the expected one when it is there, the first one otherwise.\<close>

definition pop_choice :: "JitterBuffer \<Rightarrow> u16 \<times> RTPPacket" where
  "pop_choice b =
     (case jb_expectedSeq b of
        None \<Rightarrow> hd (jb_packets b)
      | Some e \<Rightarrow> (case map_of (jb_packets b) e of None \<Rightarrow> hd (jb_packets b) | Some p \<Rightarrow> (e, p)))"

definition popLocked :: "int \<Rightarrow> JitterBuffer \<Rightarrow> RTPPacket option \<times> JitterBuffer" where
  "popLocked now b =
     (let (ready, b1) = readyToPopLocked now b in
      if \<not> ready then (None, b1)
      else
        let (consumedSeq, packet) = pop_choice b1
        in (Some packet, b1\<lparr>jb_packets := AList.delete consumedSeq (jb_packets b1),
              jb_expectedSeq := Some (consumedSeq + 1), jb_gapWaitStartedAt := 0\<rparr>))"

definition JitterBuffer_clear :: "JitterBuffer \<Rightarrow> JitterBuffer" where
  "JitterBuffer_clear b = b\<lparr>jb_packets := [], jb_expectedSeq := None, jb_gapWaitStartedAt := 0, jb_playoutStarted := False\<rparr>"

definition JitterBuffer_size :: "JitterBuffer \<Rightarrow> nat" where
  "JitterBuffer_size b = length (jb_packets b)"

text \<open>
  \<open>popWait\<close>. A round of its loop reads the clock for the readiness test and again for the
  deadline, then waits on the condition variable, during which other threads use the buffer: an
  entry of the list holds the two readings and what the others did. The last argument of a
  round that finds the buffer ready is the reading \<open>popLocked\<close> makes. \<open>None\<close> means that the thread
  still waits at the end of the list.
\<close>

record wakeup =
  wk_ready :: int
  wk_deadline :: int
  wk_pop :: int
  wk_others :: "JitterBuffer \<Rightarrow> JitterBuffer"

fun popWait :: "int \<Rightarrow> wakeup list \<Rightarrow> JitterBuffer \<Rightarrow> (RTPPacket option \<times> JitterBuffer) option" where
  "popWait deadline [] b = None"
| "popWait deadline (w # ws) b =
     (let (ready, b1) = readyToPopLocked (wk_ready w) b in
      if ready then Some (popLocked (wk_pop w) b1)
      else if wk_deadline w \<ge> deadline then Some (None, b1)
      else
        let remaining = (deadline - wk_deadline w) div 1000000;
            waitSlice = (if jb_gapTimeout b1 > 0 then min remaining (jb_gapTimeout b1) else remaining)
        in if waitSlice \<le> 0 then Some (None, b1)
           else popWait deadline ws (wk_others w b1))"

section \<open>The sorted map\<close>

lemma map_assign_find: "map_of (map_assign k v m) x = (if x = k then Some v else map_of m x)"
  by (induction m) auto

lemma map_assign_keys: "fst ` set (map_assign k v m) = insert k (fst ` set m)"
  using map_assign_find [of k v m] by (auto simp: set_eq_iff dom_map_of_conv_image_fst [symmetric] dom_def)

lemma map_assign_entries: "set (map_assign k v m) \<subseteq> insert (k, v) (set m)"
  by (induction m) (auto split: if_splits)

lemma map_assign_length: "k \<notin> fst ` set m \<Longrightarrow> length (map_assign k v m) = Suc (length m)"
  by (induction m) auto

lemma map_assign_sorted: "sorted_wrt (<) (map fst m) \<Longrightarrow> sorted_wrt (<) (map fst (map_assign k v m))"
proof (induction m)
  case (Cons e m)
  obtain k' v' where e: "e = (k', v')" by force
  show ?case
  proof (cases "k < k' \<or> k = k'")
    case True
    then show ?thesis using Cons.prems e by auto
  next
    case False
    then have "\<forall>x \<in> fst ` set (map_assign k v m). k' < x"
      using Cons.prems e unfolding map_assign_keys by auto
    then show ?thesis using False Cons e by auto
  qed
qed simp

lemma sorted_distinct: "sorted_wrt (<) (xs :: u16 list) \<Longrightarrow> distinct xs"
  by (induction xs) auto

section \<open>The invariant\<close>

definition jitter_inv :: "JitterBuffer \<Rightarrow> bool" where
  "jitter_inv b \<longleftrightarrow> sorted_wrt (<) (map fst (jb_packets b)) \<and> length (jb_packets b) \<le> jb_maxPackets b \<and>
     1 \<le> jb_minBufferedPackets b \<and> jb_minBufferedPackets b \<le> jb_maxPackets b \<and> 0 \<le> jb_gapTimeout b \<and>
     (\<forall>(k, p) \<in> set (jb_packets b). h_sequenceNumber (p_header p) = k) \<and>
     (jb_packets b \<noteq> [] \<longrightarrow> jb_expectedSeq b \<noteq> None)"

inductive jitter_step :: "JitterBuffer \<Rightarrow> JitterBuffer \<Rightarrow> bool" where
  max_packets: "jitter_step b (setMaxPackets n b)"
| min_packets: "jitter_step b (setMinBufferedPackets n b)"
| gap_timeout: "jitter_step b (setGapTimeout t b)"
| pushed: "jitter_step b (snd (JitterBuffer_push p b))"
| popped: "jitter_step b (snd (popLocked now b))"
| tested: "jitter_step b (snd (readyToPopLocked now b))"
| cleared: "jitter_step b (JitterBuffer_clear b)"

definition jitter_reachable :: "JitterBuffer \<Rightarrow> bool" where
  "jitter_reachable b \<longleftrightarrow> (\<exists>m n t. jitter_step\<^sup>*\<^sup>* (JitterBuffer_new m n t) b)"

lemma jitter_inv_new: "jitter_inv (JitterBuffer_new m n t)"
  by (auto simp: jitter_inv_def JitterBuffer_new_def Let_def)

lemma sorted_drop: "sorted_wrt (<) (map fst m) \<Longrightarrow> sorted_wrt (<) (map fst (drop n m))"
  by (metis drop_map sorted_wrt_drop)

lemma trim_inv:
  assumes "sorted_wrt (<) (map fst (jb_packets b))" "1 \<le> jb_minBufferedPackets b"
    "jb_minBufferedPackets b \<le> jb_maxPackets b" "0 \<le> jb_gapTimeout b"
    "\<forall>(k, p) \<in> set (jb_packets b). h_sequenceNumber (p_header p) = k" "jb_packets b \<noteq> [] \<longrightarrow> jb_expectedSeq b \<noteq> None"
  shows "jitter_inv (trimLocked b)"
  using assms sorted_drop by (auto simp: jitter_inv_def trimLocked_def dest!: in_set_dropD)

lemma ready_keeps:
  "jb_packets (snd (readyToPopLocked now b)) = jb_packets b"
  "jb_expectedSeq (snd (readyToPopLocked now b)) = jb_expectedSeq b"
  "jb_maxPackets (snd (readyToPopLocked now b)) = jb_maxPackets b"
  "jb_minBufferedPackets (snd (readyToPopLocked now b)) = jb_minBufferedPackets b"
  "jb_gapTimeout (snd (readyToPopLocked now b)) = jb_gapTimeout b"
  by (auto simp: readyToPopLocked_def Let_def)

lemma jitter_inv_ready: "jitter_inv b \<Longrightarrow> jitter_inv (snd (readyToPopLocked now b))"
  by (simp add: jitter_inv_def ready_keeps)

lemma sorted_delete: "sorted_wrt (<) (map fst m) \<Longrightarrow> sorted_wrt (<) (map fst (AList.delete k m))"
  by (simp add: keys_delete sorted_wrt_filter)

lemma jitter_inv_step: "jitter_step b b' \<Longrightarrow> jitter_inv b \<Longrightarrow> jitter_inv b'"
proof (induction rule: jitter_step.induct)
  case (max_packets b n)
  then show ?case unfolding setMaxPackets_def Let_def by (intro trim_inv) (auto simp: jitter_inv_def)
next
  case (pushed b p)
  let ?k = "h_sequenceNumber (p_header p)"
  show ?case
    using pushed map_assign_sorted [of "jb_packets b" ?k p] map_assign_entries [of ?k p "jb_packets b"]
    unfolding JitterBuffer_push_def Let_def snd_conv
    by (intro trim_inv) (auto simp: jitter_inv_def)
next
  case (popped b now)
  let ?b1 = "snd (readyToPopLocked now b)"
  have "jitter_inv ?b1" using popped by (rule jitter_inv_ready)
  moreover have "length (AList.delete k m) \<le> length m" for k and m :: "(u16 \<times> RTPPacket) list"
    by (simp add: AList.delete_eq)
  ultimately show ?case
    using set_delete_subset
    by (fastforce simp: popLocked_def jitter_inv_def Let_def case_prod_beta intro: sorted_delete le_trans)
next
  case (tested b now)
  then show ?case by (rule jitter_inv_ready)
qed (auto simp: jitter_inv_def setMinBufferedPackets_def setGapTimeout_def JitterBuffer_clear_def)

interpretation jitter: state_machine "\<lambda>b. \<exists>m n t. b = JitterBuffer_new m n t" jitter_step jitter_inv
  by unfold_locales (auto simp: jitter_inv_new intro: jitter_inv_step)

lemma jitter_reachable_inv: "jitter_reachable b \<Longrightarrow> jitter_inv b"
  using jitter.reachable_inv [of _ b] by (auto simp: jitter_reachable_def)

section \<open>What \<open>pop\<close> returns\<close>

lemma choice_stored:
  assumes "jitter_inv b" and "jb_packets b \<noteq> []"
  shows "map_of (jb_packets b) (fst (pop_choice b)) = Some (snd (pop_choice b))"
    and "h_sequenceNumber (p_header (snd (pop_choice b))) = fst (pop_choice b)"
    and "jb_expectedSeq b = Some (fst (pop_choice b)) \<or>
         (\<forall>e. jb_expectedSeq b = Some e \<longrightarrow> map_of (jb_packets b) e = None) \<and>
         (\<forall>k \<in> fst ` set (jb_packets b). fst (pop_choice b) \<le> k)"
proof -
  obtain k p m where m: "jb_packets b = (k, p) # m" using assms(2) by (metis list.exhaust surj_pair)
  have least: "\<forall>x \<in> fst ` set (jb_packets b). k \<le> x" using assms(1) m by (auto simp: jitter_inv_def)
  show stored: "map_of (jb_packets b) (fst (pop_choice b)) = Some (snd (pop_choice b))"
    by (auto simp: pop_choice_def m split: option.splits)
  then show "h_sequenceNumber (p_header (snd (pop_choice b))) = fst (pop_choice b)"
    using assms(1) by (auto simp: jitter_inv_def dest!: map_of_SomeD)
  show "jb_expectedSeq b = Some (fst (pop_choice b)) \<or>
         (\<forall>e. jb_expectedSeq b = Some e \<longrightarrow> map_of (jb_packets b) e = None) \<and>
         (\<forall>k \<in> fst ` set (jb_packets b). fst (pop_choice b) \<le> k)"
    using least by (auto simp: pop_choice_def m split: option.splits if_splits)
qed

lemma ready_nonempty: "fst (readyToPopLocked now b) \<Longrightarrow> jb_packets b \<noteq> []"
  by (auto simp: readyToPopLocked_def)

lemma choice_ready: "pop_choice (snd (readyToPopLocked now b)) = pop_choice b"
  unfolding pop_choice_def ready_keeps ..

lemma popLocked_cases:
  "popLocked now b =
     (if fst (readyToPopLocked now b)
      then (Some (snd (pop_choice b)),
            (snd (readyToPopLocked now b))\<lparr>jb_packets := AList.delete (fst (pop_choice b)) (jb_packets b),
               jb_expectedSeq := Some (fst (pop_choice b) + 1), jb_gapWaitStartedAt := 0\<rparr>)
      else (None, snd (readyToPopLocked now b)))"
  by (simp add: popLocked_def Let_def case_prod_beta choice_ready ready_keeps)

text \<open>
  C26. On every buffer the operations can produce, whatever was pushed, popped and configured: the stored
  packets are at most the configured maximum, each is filed under its own sequence number, in
  increasing order without repetition, and there is an expected number while packets are stored.
  \<open>pop\<close> hands out only a stored packet: the one with the expected sequence number when it is stored,
  otherwise the stored packet with the smallest number; exactly that packet leaves the buffer, and
  the next expected number is its successor modulo 65536. When \<open>pop\<close> returns nothing the stored
  packets are unchanged.
\<close>

theorem JitterBuffer_pop_correct:
  assumes "jitter_reachable b" and "popLocked now b = (r, b')"
  shows "length (jb_packets b) \<le> jb_maxPackets b \<and> sorted_wrt (<) (map fst (jb_packets b)) \<and>
    map (h_sequenceNumber \<circ> p_header \<circ> snd) (jb_packets b) = map fst (jb_packets b) \<and>
    (jb_packets b = [] \<or> (\<exists>e. jb_expectedSeq b = Some e)) \<and>
    (case r of
      None \<Rightarrow> jb_packets b' = jb_packets b \<and> jb_expectedSeq b' = jb_expectedSeq b
    | Some p \<Rightarrow>
        let s = h_sequenceNumber (p_header p) in
        map_of (jb_packets b) s = Some p \<and>
        (jb_expectedSeq b = Some s \<or>
          (\<forall>e. jb_expectedSeq b = Some e \<longrightarrow> map_of (jb_packets b) e = None) \<and>
          (\<forall>k \<in> fst ` set (jb_packets b). s \<le> k)) \<and>
        map_of (jb_packets b') = (map_of (jb_packets b))(s := None) \<and>
        jb_expectedSeq b' = Some (s + 1))"
proof (intro conjI)
  note inv = jitter_reachable_inv [OF assms(1)]
  show "length (jb_packets b) \<le> jb_maxPackets b" "sorted_wrt (<) (map fst (jb_packets b))"
    "jb_packets b = [] \<or> (\<exists>e. jb_expectedSeq b = Some e)"
    "map (h_sequenceNumber \<circ> p_header \<circ> snd) (jb_packets b) = map fst (jb_packets b)"
    using inv by (auto simp: jitter_inv_def)
  show "case r of
      None \<Rightarrow> jb_packets b' = jb_packets b \<and> jb_expectedSeq b' = jb_expectedSeq b
    | Some p \<Rightarrow>
        let s = h_sequenceNumber (p_header p) in
        map_of (jb_packets b) s = Some p \<and>
        (jb_expectedSeq b = Some s \<or>
          (\<forall>e. jb_expectedSeq b = Some e \<longrightarrow> map_of (jb_packets b) e = None) \<and>
          (\<forall>k \<in> fst ` set (jb_packets b). s \<le> k)) \<and>
        map_of (jb_packets b') = (map_of (jb_packets b))(s := None) \<and>
        jb_expectedSeq b' = Some (s + 1)"
  proof (cases "fst (readyToPopLocked now b)")
    case True
    note choice = choice_stored [OF inv ready_nonempty [OF True]]
    have r: "r = Some (snd (pop_choice b))" and "jb_packets b' = AList.delete (fst (pop_choice b)) (jb_packets b)"
      and "jb_expectedSeq b' = Some (fst (pop_choice b) + 1)"
      using True assms(2) by (auto simp: popLocked_cases)
    then show ?thesis unfolding r option.case Let_def choice(2) using choice(1,3) by (simp add: delete_conv')
  next
    case False
    then show ?thesis using assms(2) by (auto simp: popLocked_cases ready_keeps)
  qed
qed

definition seq_packet :: "u16 \<Rightarrow> RTPPacket" where
  "seq_packet s = \<lparr> p_header = \<lparr> h_version = 2, h_padding = False, h_extension = False, h_csrcCount = 0,
     h_marker = False, h_payloadType = 96, h_sequenceNumber = s, h_timestamp = 0, h_ssrc = 7 \<rparr>, p_payload = [1] \<rparr>"

definition demo_buffer :: JitterBuffer where
  "demo_buffer = snd (JitterBuffer_push (seq_packet 65535) (snd (JitterBuffer_push (seq_packet 3)
     (JitterBuffer_new 8 1 20))))"

lemma demo_buffer_reachable: "jitter_reachable demo_buffer"
  unfolding jitter_reachable_def demo_buffer_def
  by (intro exI [of _ 8] exI [of _ 1] exI [of _ 20])
     (rule rtranclp.rtrancl_into_rtrancl [OF rtranclp.rtrancl_into_rtrancl [OF rtranclp.rtrancl_refl]]; rule jitter_step.pushed)

theorem JitterBuffer_pop_correct_witness:
  "jitter_reachable demo_buffer \<and> fst (popLocked 5 demo_buffer) = Some (seq_packet 3) \<and>
   jb_expectedSeq (snd (popLocked 5 demo_buffer)) = Some 4 \<and>
   map_of (jb_packets (snd (popLocked 5 demo_buffer))) 3 = None"
proof -
  have "fst (popLocked 5 demo_buffer) = Some (seq_packet 3)" by code_simp
  then have "popLocked 5 demo_buffer = (Some (seq_packet 3), snd (popLocked 5 demo_buffer))"
    by (metis prod.collapse)
  from JitterBuffer_pop_correct [OF demo_buffer_reachable this] show ?thesis
    using demo_buffer_reachable \<open>fst (popLocked 5 demo_buffer) = Some (seq_packet 3)\<close>
    by (simp add: Let_def seq_packet_def)
qed

section \<open>Playout in order\<close>

abbreviation seq_of :: "RTPPacket \<Rightarrow> u16" where
  "seq_of p \<equiv> h_sequenceNumber (p_header p)"

text \<open>Packets arriving and calls of \<open>pop\<close> at given times, in any order, and what the calls return.\<close>

datatype jitter_event = Arrive RTPPacket | Pop int

fun playout :: "jitter_event list \<Rightarrow> JitterBuffer \<Rightarrow> RTPPacket option list" where
  "playout [] b = []"
| "playout (Arrive p # es) b = playout es (snd (JitterBuffer_push p b))"
| "playout (Pop now # es) b = (let (r, b1) = popLocked now b in r # playout es b1)"

primrec arrived :: "jitter_event \<Rightarrow> RTPPacket list" where
  "arrived (Arrive p) = [p]"
| "arrived (Pop now) = []"

primrec popped_at :: "jitter_event \<Rightarrow> int list" where
  "popped_at (Arrive p) = []"
| "popped_at (Pop now) = [now]"

abbreviation arrivals :: "jitter_event list \<Rightarrow> RTPPacket list" where
  "arrivals es \<equiv> concat (map arrived es)"

abbreviation pop_times :: "jitter_event list \<Rightarrow> int list" where
  "pop_times es \<equiv> concat (map popped_at es)"

lemma push_free:
  assumes "seq_of p \<notin> fst ` set (jb_packets b)" and "length (jb_packets b) < jb_maxPackets b"
  shows "snd (JitterBuffer_push p b) = b\<lparr>jb_packets := map_assign (seq_of p) p (jb_packets b),
           jb_expectedSeq := (if jb_expectedSeq b = None then Some (seq_of p) else jb_expectedSeq b)\<rparr>"
  using assms by (auto simp: JitterBuffer_push_def Let_def trimLocked_def map_assign_length)

lemma of_nat_u16_inj: "of_nat i = (of_nat j :: u16) \<Longrightarrow> i < 65536 \<Longrightarrow> j < 65536 \<Longrightarrow> i = j"
  by (simp add: word_of_nat_eq_iff take_bit_eq_mod)

lemma pop_expected:
  assumes "jb_expectedSeq b = Some e" and "map_of (jb_packets b) e = Some p"
    and "jb_playoutStarted b \<or> jb_minBufferedPackets b \<le> length (jb_packets b)"
  shows "popLocked now b = (Some p, b\<lparr>jb_packets := AList.delete e (jb_packets b), jb_expectedSeq := Some (e + 1),
           jb_gapWaitStartedAt := 0, jb_playoutStarted := True\<rparr>)"
proof -
  have "jb_packets b \<noteq> []" using assms(2) by auto
  then have "readyToPopLocked now b = (True, b\<lparr>jb_playoutStarted := True, jb_gapWaitStartedAt := 0\<rparr>)"
    using assms by (auto simp: readyToPopLocked_def Let_def)
  moreover have "pop_choice b = (e, p)" using assms by (simp add: pop_choice_def)
  ultimately show ?thesis by (simp add: popLocked_cases)
qed

text \<open>A call that finds neither the expected packet nor the buffer full, before the time-out, waits.\<close>

lemma pop_waits:
  assumes "jb_expectedSeq b = Some e" and "map_of (jb_packets b) e = None" and "jb_playoutStarted b"
    and "length (jb_packets b) < jb_maxPackets b" and "0 < jb_gapTimeout b"
    and "jb_gapWaitStartedAt b = 0 \<or> now - jb_gapWaitStartedAt b < jb_gapTimeout b * 1000000"
  shows "\<exists>w. popLocked now b = (None, b\<lparr>jb_gapWaitStartedAt := w\<rparr>) \<and> (w = jb_gapWaitStartedAt b \<or> w = now)"
proof -
  have "b\<lparr>jb_playoutStarted := True\<rparr> = b" using assms(3) by simp
  then have "readyToPopLocked now b = (False, b) \<or> readyToPopLocked now b = (False, b\<lparr>jb_gapWaitStartedAt := now\<rparr>)"
    using assms by (auto simp: readyToPopLocked_def Let_def)
  moreover have "b\<lparr>jb_gapWaitStartedAt := jb_gapWaitStartedAt b\<rparr> = b" by simp
  ultimately show ?thesis by (metis popLocked_cases fst_conv snd_conv)
qed

text \<open>
  The state of a playout of the numbers \<open>e\<close> to \<open>e + n - 1\<close> of which \<open>j\<close> were handed out; the events \<open>es\<close>
  are still to come.
\<close>

definition numbers :: "u16 \<Rightarrow> nat \<Rightarrow> nat \<Rightarrow> u16 set" where
  "numbers e j n = (\<lambda>i. e + of_nat i) ` {j..<n}"

definition playing :: "u16 \<Rightarrow> nat \<Rightarrow> int \<Rightarrow> nat \<Rightarrow> jitter_event list \<Rightarrow> JitterBuffer \<Rightarrow> bool" where
  "playing e n t0 j es b \<longleftrightarrow> jitter_inv b \<and> jb_expectedSeq b = Some (e + of_nat j) \<and> jb_playoutStarted b \<and>
     (jb_gapWaitStartedAt b = 0 \<or> t0 \<le> jb_gapWaitStartedAt b) \<and> n \<le> jb_maxPackets b \<and> 0 < jb_gapTimeout b \<and> j \<le> n \<and>
     fst ` set (jb_packets b) \<subseteq> numbers e j n \<and> distinct (map seq_of (arrivals es)) \<and>
     seq_of ` set (arrivals es) \<subseteq> numbers e j n \<and> seq_of ` set (arrivals es) \<inter> fst ` set (jb_packets b) = {} \<and>
     (\<forall>t \<in> set (pop_times es). t0 \<le> t \<and> t < t0 + jb_gapTimeout b * 1000000)"

lemma numbers_finite [simp]: "finite (numbers e j n)"
  by (simp add: numbers_def)

lemma numbers_card: "card (numbers e j n) \<le> n - j"
  unfolding numbers_def by (rule order_trans [OF card_image_le]) simp_all

lemma numbers_mem: "n < 65536 \<Longrightarrow> i < 65536 \<Longrightarrow> e + of_nat i \<in> numbers e j n \<Longrightarrow> j \<le> i \<and> i < n"
proof -
  assume "n < 65536" "i < 65536" "e + of_nat i \<in> numbers e j n"
  moreover from this(3) obtain k where "of_nat i = (of_nat k :: u16)" "j \<le> k" "k < n" by (auto simp: numbers_def)
  ultimately show ?thesis using of_nat_u16_inj [of i k] by simp
qed

lemma numbers_next: "numbers e j n - {e + of_nat j} \<subseteq> numbers e (Suc j) n"
proof -
  have "{j..<n} \<subseteq> insert j {Suc j..<n}" by auto
  then show ?thesis unfolding numbers_def by blast
qed

lemma subset_next: "A \<subseteq> N \<Longrightarrow> x \<notin> A \<Longrightarrow> N - {x} \<subseteq> M \<Longrightarrow> A \<subseteq> M"
  by auto

lemma disjoint_subset: "A \<inter> B = {} \<Longrightarrow> C \<subseteq> B \<Longrightarrow> A \<inter> C = {}"
  by auto

lemma subset_through: "S \<subseteq> A \<union> B \<Longrightarrow> B \<subseteq> insert p C \<Longrightarrow> S \<subseteq> insert p A \<union> C"
  by auto

lemma subset_insert_through: "set xs \<subseteq> A \<union> B \<Longrightarrow> B \<subseteq> C \<Longrightarrow> p \<in> C \<Longrightarrow> set (p # xs) \<subseteq> A \<union> C"
  by auto

lemma playing_room:
  assumes "playing e n t0 j es b" "x \<in> numbers e j n" "x \<notin> fst ` set (jb_packets b)"
  shows "length (jb_packets b) < jb_maxPackets b"
proof -
  have d: "distinct (map fst (jb_packets b))" using assms(1) sorted_distinct by (simp add: playing_def jitter_inv_def)
  have "insert x (fst ` set (jb_packets b)) \<subseteq> numbers e j n" using assms by (simp add: playing_def)
  then have "card (insert x (fst ` set (jb_packets b))) \<le> n - j" using numbers_card card_mono numbers_finite by (meson order_trans)
  moreover have "card (insert x (fst ` set (jb_packets b))) = Suc (length (jb_packets b))"
    using assms(3) distinct_card [OF d] by simp
  moreover have "n \<le> jb_maxPackets b" using assms(1) by (simp add: playing_def)
  ultimately show ?thesis by linarith
qed

lemma playing_arrive:
  assumes "playing e n t0 j (Arrive p # es) b"
  shows "playing e n t0 j es (snd (JitterBuffer_push p b))"
    "fst ` set (jb_packets (snd (JitterBuffer_push p b))) = insert (seq_of p) (fst ` set (jb_packets b))"
    "snd ` set (jb_packets (snd (JitterBuffer_push p b))) \<subseteq> insert p (snd ` set (jb_packets b))"
proof -
  have p: "seq_of p \<in> numbers e j n" "seq_of p \<notin> fst ` set (jb_packets b)" "seq_of p \<notin> seq_of ` set (arrivals es)"
    using assms by (auto simp: playing_def)
  have b: "snd (JitterBuffer_push p b) = b\<lparr>jb_packets := map_assign (seq_of p) p (jb_packets b)\<rparr>"
    using push_free [OF p(2) playing_room [OF assms p(1,2)]] assms by (auto simp: playing_def)
  show "fst ` set (jb_packets (snd (JitterBuffer_push p b))) = insert (seq_of p) (fst ` set (jb_packets b))"
    by (simp add: b map_assign_keys)
  show "snd ` set (jb_packets (snd (JitterBuffer_push p b))) \<subseteq> insert p (snd ` set (jb_packets b))"
    using map_assign_entries [of "seq_of p" p "jb_packets b"] by (force simp: b)
  have "jitter_inv (snd (JitterBuffer_push p b))"
    using jitter_inv_step [OF jitter_step.pushed] assms by (simp add: playing_def)
  then show "playing e n t0 j es (snd (JitterBuffer_push p b))"
    using assms p unfolding b playing_def by (auto simp: map_assign_keys)
qed

lemma playing_pop:
  assumes "playing e n t0 j (Pop t # es) b" "n < 65536" "0 < t0" "popLocked t b = (r, b')"
  obtains (delivered) p where "r = Some p" "map_of (jb_packets b) (e + of_nat j) = Some p" "j < n" "seq_of p = e + of_nat j"
      "playing e n t0 (Suc j) es b'" "jb_packets b' = AList.delete (e + of_nat j) (jb_packets b)"
  | (waiting) "r = None" "map_of (jb_packets b) (e + of_nat j) = None" "playing e n t0 j es b'" "jb_packets b' = jb_packets b"
proof (cases "map_of (jb_packets b) (e + of_nat j)")
  case (Some p)
  have x: "jb_expectedSeq b = Some (e + of_nat j)" "jb_playoutStarted b" "jitter_inv b" using assms(1) by (simp_all add: playing_def)
  have mem: "(e + of_nat j, p) \<in> set (jb_packets b)" using Some by (rule map_of_SomeD)
  then have "e + of_nat j \<in> fst ` set (jb_packets b)" by (metis fst_conv image_eqI)
  moreover have "fst ` set (jb_packets b) \<subseteq> numbers e j n" "seq_of ` set (arrivals es) \<inter> fst ` set (jb_packets b) = {}"
    using assms(1) by (simp_all add: playing_def)
  ultimately have k: "e + of_nat j \<in> numbers e j n" "e + of_nat j \<notin> seq_of ` set (arrivals es)" by blast+
  have "j \<le> n" using assms(1) by (simp add: playing_def)
  then have j: "j < n" using numbers_mem [OF assms(2) _ k(1)] assms(2) by simp
  have p: "seq_of p = e + of_nat j" using x(3) mem by (auto simp: jitter_inv_def)
  note pop = pop_expected [OF x(1) Some, of t]
  have b': "r = Some p" "b' = b\<lparr>jb_packets := AList.delete (e + of_nat j) (jb_packets b), jb_expectedSeq := Some (e + of_nat j + 1),
      jb_gapWaitStartedAt := 0, jb_playoutStarted := True\<rparr>"
    using pop x(2) assms(4) by auto
  have "jitter_inv b'" using jitter_inv_step [OF jitter_step.popped x(3), of t] assms(4) by simp
  moreover have "fst ` set (jb_packets b') \<subseteq> numbers e (Suc j) n"
  proof -
    have "fst ` set (jb_packets b') \<subseteq> fst ` set (jb_packets b) - {e + of_nat j}" by (auto simp: b' AList.delete_eq)
    moreover have "fst ` set (jb_packets b) \<subseteq> numbers e j n" using assms(1) by (simp add: playing_def)
    ultimately show ?thesis using numbers_next [of e j n] by blast
  qed
  moreover have "seq_of ` set (arrivals es) \<subseteq> numbers e (Suc j) n"
  proof -
    have "seq_of ` set (arrivals es) \<subseteq> numbers e j n" using assms(1) by (simp add: playing_def)
    then show ?thesis by (rule subset_next [OF _ k(2) numbers_next])
  qed
  moreover have "seq_of ` set (arrivals es) \<inter> fst ` set (jb_packets b') = {}"
  proof (rule disjoint_subset)
    show "seq_of ` set (arrivals es) \<inter> fst ` set (jb_packets b) = {}" using assms(1) by (simp add: playing_def)
    show "fst ` set (jb_packets b') \<subseteq> fst ` set (jb_packets b)" unfolding b' by (auto simp: AList.delete_eq)
  qed
  moreover have "jb_expectedSeq b' = Some (e + of_nat (Suc j))" "jb_gapWaitStartedAt b' = 0" "jb_playoutStarted b'"
    "jb_maxPackets b' = jb_maxPackets b" "jb_gapTimeout b' = jb_gapTimeout b"
    by (simp_all add: b' algebra_simps)
  ultimately have "playing e n t0 (Suc j) es b'"
    using assms(1) j by (simp add: playing_def)
  then show thesis using that(1) Some j p b' by simp
next
  case None
  have x: "jb_expectedSeq b = Some (e + of_nat j)" "jb_playoutStarted b" "0 < jb_gapTimeout b"
    and t: "t0 \<le> t" "t < t0 + jb_gapTimeout b * 1000000" "jb_gapWaitStartedAt b = 0 \<or> t0 \<le> jb_gapWaitStartedAt b"
    using assms(1) by (simp_all add: playing_def)
  obtain w where w: "r = None" "b' = b\<lparr>jb_gapWaitStartedAt := w\<rparr>" "w = jb_gapWaitStartedAt b \<or> w = t"
  proof (cases "j < n")
    case True
    then have "e + of_nat j \<in> numbers e j n" by (auto simp: numbers_def)
    moreover have "e + of_nat j \<notin> fst ` set (jb_packets b)" using None by (metis domIff dom_map_of_conv_image_fst)
    ultimately have "length (jb_packets b) < jb_maxPackets b" by (rule playing_room [OF assms(1)])
    moreover have "jb_gapWaitStartedAt b = 0 \<or> t - jb_gapWaitStartedAt b < jb_gapTimeout b * 1000000" using t by linarith
    ultimately obtain w where "popLocked t b = (None, b\<lparr>jb_gapWaitStartedAt := w\<rparr>)" "w = jb_gapWaitStartedAt b \<or> w = t"
      using pop_waits [OF x(1) None x(2) _ x(3), of t] by blast
    then show thesis using assms(4) by (intro that [of w]) simp_all
  next
    case False
    then have "jb_packets b = []" using assms(1) by (auto simp: playing_def numbers_def)
    then have "popLocked t b = (None, b)" by (simp add: popLocked_def readyToPopLocked_def)
    then show thesis using that [of "jb_gapWaitStartedAt b"] assms(4) by simp
  qed
  have "jitter_inv b'" using assms(1) unfolding w by (simp add: playing_def jitter_inv_def)
  then have "playing e n t0 j es b'" using assms(1,3) t w(3) unfolding w(2) playing_def by auto
  then show thesis using that(2) None w by simp
qed

lemma playout_run:
  assumes "playing e n t0 j es b" "n < 65536" "0 < t0" "got = List.map_filter id (playout es b)"
  shows "j + length got \<le> n \<and> map seq_of got = map (\<lambda>i. e + of_nat i) [j..<j + length got] \<and>
    set got \<subseteq> set (arrivals es) \<union> snd ` set (jb_packets b) \<and>
    (es \<noteq> [] \<and> popped_at (last es) \<noteq> [] \<and> last (playout es b) = None \<longrightarrow>
       e + of_nat (j + length got) \<notin> seq_of ` set (arrivals es) \<union> fst ` set (jb_packets b))"
  using assms
proof (induction es arbitrary: b j got)
  case Nil
  then show ?case by (simp add: playing_def)
next
  case (Cons ev es)
  show ?case
  proof (cases ev)
    case (Arrive p)
    note a = playing_arrive [OF Cons.prems(1) [unfolded Arrive]]
    have "got = List.map_filter id (playout es (snd (JitterBuffer_push p b)))"
      using Cons.prems(4) Arrive unfolding id_def by simp
    note ih = Cons.IH [OF a(1) Cons.prems(2,3) this]
    have arr: "set (arrivals (ev # es)) = insert p (set (arrivals es))" by (simp add: Arrive)
    have got: "set got \<subseteq> set (arrivals (ev # es)) \<union> snd ` set (jb_packets b)"
      unfolding arr using ih subset_through [OF _ a(3)] by simp
    have ahead: "e + of_nat (j + length got) \<notin> seq_of ` set (arrivals (ev # es)) \<union> fst ` set (jb_packets b)"
      if "popped_at (last (ev # es)) \<noteq> []" "last (playout (ev # es) b) = None"
    proof -
      have es: "es \<noteq> []" using that(1) by (auto simp: Arrive)
      then have "e + of_nat (j + length got) \<notin> seq_of ` set (arrivals es) \<union> insert (seq_of p) (fst ` set (jb_packets b))"
        using ih that unfolding a(2) by (simp add: Arrive)
      then show ?thesis unfolding arr image_insert Un_insert_left Un_insert_right by simp
    qed
    show ?thesis using ih got ahead by simp
  next
    case (Pop t)
    obtain r b' where r: "popLocked t b = (r, b')" by fastforce
    have ne: "playout es b' \<noteq> []" if "es \<noteq> []" "popped_at (last es) \<noteq> []"
    proof -
      have "playout es x \<noteq> []" if "Pop u \<in> set es" for u x
        using that by (induction es x rule: playout.induct) (auto split: prod.splits)
      moreover have "\<exists>u. Pop u \<in> set es" using that by (metis last_in_set popped_at.simps(1) jitter_event.exhaust)
      ultimately show ?thesis by blast
    qed
    from Cons.prems(1) [unfolded Pop] Cons.prems(2,3) r show ?thesis
    proof (cases rule: playing_pop)
      case (delivered p)
      define got' where "got' = List.map_filter id (playout es b')"
      have g: "got = p # got'" using Cons.prems(4) r delivered(1) by (simp add: Pop got'_def List.map_filter_simps id_def)
      note ih = Cons.IH [OF delivered(5) Cons.prems(2,3) got'_def]
      have mem: "(e + of_nat j, p) \<in> set (jb_packets b)" using delivered(2) by (rule map_of_SomeD)
      have sub: "set (jb_packets b') \<subseteq> set (jb_packets b)" unfolding delivered(6) by (rule set_delete_subset)
      have keys: "fst ` set (jb_packets b) = insert (e + of_nat j) (fst ` set (jb_packets b'))"
        using mem unfolding delivered(6) by (force simp: AList.delete_eq)
      have fresh: "e + of_nat (Suc j + length got') \<noteq> e + of_nat j"
        using ih Cons.prems(2) of_nat_u16_inj [of "Suc j + length got'" j] by auto
      have len: "j + length got = Suc j + length got'" by (simp add: g)
      have upt: "[j..<j + length got] = j # [Suc j..<Suc j + length got']" unfolding len by (rule upt_conv_Cons) simp
      have arr: "set (arrivals (ev # es)) = set (arrivals es)" by (simp add: Pop)
      have "map seq_of got = map (\<lambda>i. e + of_nat i) [j..<j + length got]"
        using ih delivered(4) unfolding upt by (simp only: g list.map)
      moreover have "p \<in> snd ` set (jb_packets b)" using mem by force
      then have "set got \<subseteq> set (arrivals (ev # es)) \<union> snd ` set (jb_packets b)"
        unfolding g arr using ih by (intro subset_insert_through [OF _ image_mono [OF sub]]) blast+
      moreover have "e + of_nat (j + length got) \<notin> seq_of ` set (arrivals (ev # es)) \<union> fst ` set (jb_packets b)"
        if "popped_at (last (ev # es)) \<noteq> []" "last (playout (ev # es) b) = None"
      proof -
        have es: "es \<noteq> []" using that(2) by (auto simp: Pop r delivered(1))
        then have last: "popped_at (last es) \<noteq> []" using that(1) by simp
        then have "last (playout es b') = None" using that(2) ne [OF es] by (simp add: Pop r)
        then have "e + of_nat (Suc j + length got') \<notin> seq_of ` set (arrivals es) \<union> fst ` set (jb_packets b')"
          using ih es last by blast
        then show ?thesis unfolding len arr keys using fresh by simp
      qed
      ultimately show ?thesis using ih len by simp
    next
      case waiting
      have g: "got = List.map_filter id (playout es b')" using Cons.prems(4) r waiting(1)
        by (simp add: Pop List.map_filter_simps id_def)
      note ih = Cons.IH [OF waiting(3) Cons.prems(2,3) g]
      have held: "e + of_nat j \<notin> fst ` set (jb_packets b)" using waiting(2) by (metis domIff dom_map_of_conv_image_fst)
      have arr: "set (arrivals (ev # es)) = set (arrivals es)" by (simp add: Pop)
      have "e + of_nat (j + length got) \<notin> seq_of ` set (arrivals (ev # es)) \<union> fst ` set (jb_packets b)"
        if "popped_at (last (ev # es)) \<noteq> []" "last (playout (ev # es) b) = None"
      proof (cases "es = []")
        case True
        then show ?thesis using held g by (simp add: Pop List.map_filter_simps)
      next
        case False
        then have last: "popped_at (last es) \<noteq> []" using that(1) by simp
        then have "last (playout es b') = None" using that(2) ne [OF False] by (simp add: Pop r)
        then show ?thesis using ih False last waiting(4) unfolding arr by simp
      qed
      then show ?thesis using ih waiting(4) arr by simp
    qed
  qed
qed

text \<open>
  C27. Reordering is undone. Take a buffer that plays out, holds nothing and expects \<open>e\<close>. Let packets with
  different numbers out of \<open>e\<close> to \<open>e + n - 1\<close>, modulo 65536, arrive in any order, \<open>n\<close> within the capacity,
  with calls of \<open>pop\<close> before, between and after the arrivals, all less than the gap time-out after the time
  \<open>t0\<close>. Then the calls return arrived packets in the order of their numbers, beginning with \<open>e\<close> and
  without leaving one out, also across the wrap-around; and a last call that returns nothing means
  that the next number has not arrived: no packet that can be played is held back.
\<close>

theorem JitterBuffer_reorders:
  assumes "jitter_reachable b" "jb_playoutStarted b" "jb_packets b = []" "jb_expectedSeq b = Some e"
    and "jb_gapWaitStartedAt b = 0" "0 < jb_gapTimeout b" "n \<le> jb_maxPackets b" "n < 65536"
    and "distinct (map seq_of (arrivals es))" "seq_of ` set (arrivals es) \<subseteq> (\<lambda>i. e + of_nat i) ` {0..<n}"
    and "0 < t0" "\<forall>t \<in> set (pop_times es). t0 \<le> t \<and> t < t0 + jb_gapTimeout b * 1000000"
  shows "let got = List.map_filter id (playout es b) in
    map seq_of got = map (\<lambda>i. e + of_nat i) [0..<length got] \<and> set got \<subseteq> set (arrivals es) \<and>
    (es \<noteq> [] \<and> popped_at (last es) \<noteq> [] \<and> last (playout es b) = None \<longrightarrow>
       e + of_nat (length got) \<notin> seq_of ` set (arrivals es))"
proof -
  have "playing e n t0 0 es b"
    using assms jitter_reachable_inv [OF assms(1)] by (simp add: playing_def numbers_def)
  from playout_run [OF this assms(8,11) refl] show ?thesis using assms(3) by (simp add: Let_def)
qed

text \<open>A buffer that has played out one packet.\<close>

definition demo_playing :: JitterBuffer where
  "demo_playing = snd (popLocked 5 (snd (JitterBuffer_push (seq_packet 65533) (JitterBuffer_new 8 1 20))))"

lemma demo_playing_reachable: "jitter_reachable demo_playing"
  unfolding jitter_reachable_def demo_playing_def
  by (intro exI [of _ 8] exI [of _ 1] exI [of _ 20])
     (rule rtranclp.rtrancl_into_rtrancl [OF r_into_rtranclp [where r = jitter_step]], rule jitter_step.pushed, rule jitter_step.popped)

theorem JitterBuffer_reorders_witness:
  "let es = [Arrive (seq_packet 65535), Pop 7, Arrive (seq_packet 0), Arrive (seq_packet 65534), Pop 8, Pop 9, Pop 10, Pop 11]
   in map seq_of (List.map_filter id (playout es demo_playing)) = [65534, 65535, 0]"
proof -
  let ?es = "[Arrive (seq_packet 65535), Pop 7, Arrive (seq_packet 0), Arrive (seq_packet 65534), Pop 8, Pop 9, Pop 10, Pop 11]"
  have s: "jb_playoutStarted demo_playing" "jb_packets demo_playing = []" "jb_expectedSeq demo_playing = Some 65534"
    "jb_gapWaitStartedAt demo_playing = 0" "jb_gapTimeout demo_playing = 20" "jb_maxPackets demo_playing = 8"
    "length (List.map_filter id (playout ?es demo_playing)) = 3"
    by code_simp+
  have r: "{0..<4} = {0, 1, 2, 3 :: nat}" by auto
  have "map seq_of (List.map_filter id (playout ?es demo_playing)) = map (\<lambda>i. 65534 + of_nat i) [0..<3]"
    using JitterBuffer_reorders [OF demo_playing_reachable s(1-4), of 4 ?es 6] s(5-7)
    by (simp add: Let_def r seq_packet_def)
  then show ?thesis by (simp add: upt_conv_Cons Let_def)
qed

section \<open>Waiting\<close>

lemma popWait_returns: "\<exists>w \<in> set ws. deadline \<le> wk_deadline w \<Longrightarrow> \<exists>r. popWait deadline ws b = Some r"
  by (induction ws arbitrary: b) (auto simp: Let_def split: prod.splits)

text \<open>
  The map is ordered by the plain numeric order of the sequence numbers, so the packet trimmed after the numbers
  have wrapped is the newest one.
\<close>

lemma trim_drops_newest_after_wrap:
  "let b = snd (JitterBuffer_push (seq_packet 0) (snd (JitterBuffer_push (seq_packet 65535)
       (snd (JitterBuffer_push (seq_packet 65534) (JitterBuffer_new 2 1 20))))))
   in map fst (jb_packets b) = [65534, 65535]"
  by code_simp

text \<open>
  A gap ends by time-out only when the time-out is left alone: setting it forgets since when the
  buffer waits, so that a reader that sets it before every call, each time, waits on.
\<close>

lemma gap_timeout_reset:
  assumes "jb_packets b \<noteq> []" "jb_expectedSeq b = Some e" "map_of (jb_packets b) e = None" "jb_playoutStarted b"
    and "length (jb_packets b) < jb_maxPackets b" "0 < timeout"
  shows "fst (popLocked now (setGapTimeout timeout b)) = None"
  using pop_waits [of "setGapTimeout timeout b" e now] assms by (auto simp: setGapTimeout_def)

end
