(* ===== verification/ClientRtcp.thy ===== *)
theory ClientRtcp
  imports MediaCodec
begin

text \<open>
  The RTCP packets of the client (\<open>plasma-hawking/src/net/media/RTCPHandler.h\<close>). A parser reads the
  packet that starts at its \<open>data\<close> pointer; its result is \<open>None\<close> for a read outside the buffer, \<open>Some None\<close> for
  \<open>false\<close> and \<open>Some (Some r)\<close> for \<open>true\<close> with the out parameter \<open>r\<close>. The callers pass a fresh
  out parameter and do not look at it when the parser returns \<open>false\<close>.
\<close>

record RTCPHeader =
  rh_version :: u8
  rh_padding :: bool
  rh_countOrFormat :: u8
  rh_packetType :: u8
  rh_lengthWords :: u16

record RTCPPacketSlice =
  sl_header :: RTCPHeader
  sl_offset :: nat
  sl_size :: nat

record RTCPReportBlock =
  blk_sourceSsrc :: u32
  blk_fractionLost :: u8
  blk_cumulativeLost :: int
  blk_highestSeq :: u32
  blk_jitter :: u32
  blk_lastSenderReport :: u32
  blk_delaySinceLastSenderReport :: u32

record RTCPSenderReport =
  csr_senderSsrc :: u32
  csr_ntpTimestamp :: u64
  csr_rtpTimestamp :: u32
  csr_packetCount :: u32
  csr_octetCount :: u32
  csr_reportBlocks :: "RTCPReportBlock list"

record RTCPReceiverReport =
  crr_receiverSsrc :: u32
  crr_reportBlocks :: "RTCPReportBlock list"

record RTCPNackFeedback =
  cnk_senderSsrc :: u32
  cnk_mediaSsrc :: u32
  cnk_lostSequences :: "u16 list"

record RTCPPliFeedback =
  cpli_senderSsrc :: u32
  cpli_mediaSsrc :: u32

record RTCPRembFeedback =
  crb_senderSsrc :: u32
  crb_mediaSsrc :: u32
  crb_bitrateExp :: u8
  crb_bitrateMantissa :: u32
  crb_bitrateBps :: u32
  crb_targetSsrcs :: "u32 list"

section \<open>Headers and compound packets\<close>

definition packetSizeBytes :: "RTCPHeader \<Rightarrow> nat" where
  "packetSizeBytes header = (unat (rh_lengthWords header) + 1) * 4"

definition parseHeader :: "bytes \<Rightarrow> RTCPHeader option mem" where
  "parseHeader data =
     (if length data < 4 then Some None
      else do {
        b0 \<leftarrow> byte_at data 0;
        b1 \<leftarrow> byte_at data 1;
        b2 \<leftarrow> byte_at data 2;
        b3 \<leftarrow> byte_at data 3;
        let header = \<lparr> rh_version = drop_bit 6 b0 AND 0x03, rh_padding = (b0 AND 0x20 \<noteq> 0),
              rh_countOrFormat = b0 AND 0x1F, rh_packetType = b1,
              rh_lengthWords = push_bit 8 (ucast b2) OR ucast b3 \<rparr>;
        let packetBytes = packetSizeBytes header;
        Some (if rh_version header \<noteq> 2 then None
              else if packetBytes < 4 \<or> packetBytes > length data then None
              else Some header) })"

definition isReceiverReport :: "RTCPHeader \<Rightarrow> bool" where
  "isReceiverReport header \<longleftrightarrow> rh_packetType header = 201"

definition isSenderReport :: "RTCPHeader \<Rightarrow> bool" where
  "isSenderReport header \<longleftrightarrow> rh_packetType header = 200"

definition isFeedbackPacket :: "RTCPHeader \<Rightarrow> bool" where
  "isFeedbackPacket header \<longleftrightarrow> rh_packetType header = 205 \<or> rh_packetType header = 206"

definition parsePacketSlice :: "bytes \<Rightarrow> RTCPPacketSlice option mem" where
  "parsePacketSlice data = do {
     h \<leftarrow> parseHeader data;
     Some (case h of
        None \<Rightarrow> None
      | Some header \<Rightarrow>
          let sl = \<lparr> sl_header = header, sl_offset = 0, sl_size = packetSizeBytes header \<rparr>
          in if sl_size sl \<le> length data then Some sl else None) }"

lemma slice_size: "parsePacketSlice data = Some (Some s) \<Longrightarrow> 4 \<le> sl_size s \<and> sl_size s \<le> length data"
  by (auto simp: parsePacketSlice_def packetSizeBytes_def Let_def split: bind_splits option.splits if_splits)

function slices_from :: "bytes \<Rightarrow> nat \<Rightarrow> RTCPPacketSlice list option mem" where
  "slices_from data offset =
     (if offset < length data then
        (case parsePacketSlice (drop offset data) of
           None \<Rightarrow> None
         | Some None \<Rightarrow> Some None
         | Some (Some sl) \<Rightarrow> do {
             rest \<leftarrow> slices_from data (offset + sl_size sl);
             Some (map_option (\<lambda>ss. sl\<lparr>sl_offset := offset\<rparr> # ss) rest) })
      else Some (Some []))"
  by pat_completeness auto
termination
  by (relation "measure (\<lambda>(data, offset). length data - offset)") (auto dest!: slice_size)

declare slices_from.simps [simp del]

definition parseCompoundPacket :: "bytes \<Rightarrow> RTCPPacketSlice list option mem" where
  "parseCompoundPacket data =
     (if data = [] then Some None
      else map_option (\<lambda>r. case r of None \<Rightarrow> None | Some ss \<Rightarrow> if ss = [] then None else Some ss)
             (slices_from data 0))"

section \<open>Reports\<close>

text \<open>The 24 bits of \<open>cumulativeLost\<close> are assembled in an \<open>int32_t\<close> and sign-extended.\<close>

definition report_block :: "bytes \<Rightarrow> nat \<Rightarrow> RTCPReportBlock mem" where
  "report_block data blockPtr = do {
     sourceSsrc \<leftarrow> ReadU32 data blockPtr;
     fractionLost \<leftarrow> byte_at data (blockPtr + 4);
     b5 \<leftarrow> byte_at data (blockPtr + 5);
     b6 \<leftarrow> byte_at data (blockPtr + 6);
     b7 \<leftarrow> byte_at data (blockPtr + 7);
     let lost = (push_bit 16 (ucast b5) OR push_bit 8 (ucast b6) OR ucast b7 :: u32);
     let cumulativeLost = (if lost AND 0x00800000 \<noteq> 0 then lost OR NOT 0x00FFFFFF else lost);
     highestSeq \<leftarrow> ReadU32 data (blockPtr + 8);
     jitter \<leftarrow> ReadU32 data (blockPtr + 12);
     lastSenderReport \<leftarrow> ReadU32 data (blockPtr + 16);
     delaySince \<leftarrow> ReadU32 data (blockPtr + 20);
     Some \<lparr> blk_sourceSsrc = sourceSsrc, blk_fractionLost = fractionLost,
       blk_cumulativeLost = sint cumulativeLost, blk_highestSeq = highestSeq, blk_jitter = jitter,
       blk_lastSenderReport = lastSenderReport, blk_delaySinceLastSenderReport = delaySince \<rparr> }"

fun report_blocks :: "bytes \<Rightarrow> nat \<Rightarrow> nat \<Rightarrow> nat \<Rightarrow> RTCPReportBlock list option mem" where
  "report_blocks data packetBytes blockPtr 0 = Some (Some [])"
| "report_blocks data packetBytes blockPtr (Suc n) =
     (if blockPtr + 24 > packetBytes then Some None
      else do {
        block \<leftarrow> report_block data blockPtr;
        rest \<leftarrow> report_blocks data packetBytes (blockPtr + 24) n;
        Some (map_option (\<lambda>bs. block # bs) rest) })"

definition parseSenderReport :: "bytes \<Rightarrow> RTCPSenderReport option mem" where
  "parseSenderReport data = do {
     h \<leftarrow> parseHeader data;
     case h of
       None \<Rightarrow> Some None
     | Some header \<Rightarrow>
         if \<not> isSenderReport header then Some None
         else
           let packetBytes = packetSizeBytes header in
           if packetBytes < 28 \<or> length data < packetBytes then Some None
           else do {
             let body = 4;
             senderSsrc \<leftarrow> ReadU32 data body;
             ntpMsw \<leftarrow> ReadU32 data (body + 4);
             ntpLsw \<leftarrow> ReadU32 data (body + 8);
             rtpTimestamp \<leftarrow> ReadU32 data (body + 12);
             packetCount \<leftarrow> ReadU32 data (body + 16);
             octetCount \<leftarrow> ReadU32 data (body + 20);
             blocks \<leftarrow> report_blocks data packetBytes (body + 24) (unat (rh_countOrFormat header));
             Some (map_option (\<lambda>bs. \<lparr> csr_senderSsrc = senderSsrc,
               csr_ntpTimestamp = push_bit 32 (ucast ntpMsw) OR ucast ntpLsw, csr_rtpTimestamp = rtpTimestamp,
               csr_packetCount = packetCount, csr_octetCount = octetCount, csr_reportBlocks = bs \<rparr>) blocks) } }"

definition parseReceiverReport :: "bytes \<Rightarrow> RTCPReceiverReport option mem" where
  "parseReceiverReport data = do {
     h \<leftarrow> parseHeader data;
     case h of
       None \<Rightarrow> Some None
     | Some header \<Rightarrow>
         if \<not> isReceiverReport header then Some None
         else
           let packetBytes = packetSizeBytes header in
           if packetBytes < 8 \<or> length data < packetBytes then Some None
           else do {
             let body = 4;
             receiverSsrc \<leftarrow> ReadU32 data body;
             blocks \<leftarrow> report_blocks data packetBytes (body + 4) (unat (rh_countOrFormat header));
             Some (map_option (\<lambda>bs. \<lparr> crr_receiverSsrc = receiverSsrc, crr_reportBlocks = bs \<rparr>) blocks) } }"

text \<open>The bytes one block is written as: \<open>cumulativeLost\<close> is converted to 32 bits and masked to 24.\<close>

definition block_bytes :: "RTCPReportBlock \<Rightarrow> bytes" where
  "block_bytes block =
     (let lost = (word_of_int (blk_cumulativeLost block) :: u32) AND 0x00FFFFFF in
      AppendU32 (blk_sourceSsrc block) @ [blk_fractionLost block] @
      [ucast (drop_bit 16 lost AND 0xFF), ucast (drop_bit 8 lost AND 0xFF), ucast (lost AND 0xFF)] @
      AppendU32 (blk_highestSeq block) @ AppendU32 (blk_jitter block) @
      AppendU32 (blk_lastSenderReport block) @ AppendU32 (blk_delaySinceLastSenderReport block))"

definition report_header :: "u8 \<Rightarrow> nat \<Rightarrow> nat \<Rightarrow> bytes" where
  "report_header packetType count packetBytes =
     (let lengthWords = (of_nat (packetBytes div 4 - 1) :: u16) in
      [push_bit 6 2 OR (of_nat count AND 0x1F), packetType,
       ucast (drop_bit 8 lengthWords AND 0xFF), ucast (lengthWords AND 0xFF)])"

definition ntp_bytes :: "u64 \<Rightarrow> bytes" where
  "ntp_bytes t = map (\<lambda>s. ucast (drop_bit s t AND 0xFF)) [56, 48, 40, 32, 24, 16, 8, 0]"

definition buildSenderReport :: "RTCPSenderReport \<Rightarrow> bytes" where
  "buildSenderReport report =
     (if length (csr_reportBlocks report) > 31 then []
      else
        let packetBytes = 28 + length (csr_reportBlocks report) * 24
        in report_header 200 (length (csr_reportBlocks report)) packetBytes @
           AppendU32 (csr_senderSsrc report) @ ntp_bytes (csr_ntpTimestamp report) @
           AppendU32 (csr_rtpTimestamp report) @ AppendU32 (csr_packetCount report) @
           AppendU32 (csr_octetCount report) @ concat (map block_bytes (csr_reportBlocks report)))"

definition buildReceiverReport :: "RTCPReceiverReport \<Rightarrow> bytes" where
  "buildReceiverReport report =
     (if length (crr_reportBlocks report) > 31 then []
      else
        let packetBytes = 8 + length (crr_reportBlocks report) * 24
        in report_header 201 (length (crr_reportBlocks report)) packetBytes @
           AppendU32 (crr_receiverSsrc report) @ concat (map block_bytes (crr_reportBlocks report)))"

section \<open>Feedback\<close>

definition lost_sequences :: "u16 \<Rightarrow> u16 \<Rightarrow> u16 list" where
  "lost_sequences pid blp =
     pid # concat (map (\<lambda>bit. if blp AND push_bit bit 1 = 0 then [] else [pid + of_nat bit + 1]) [0..<16])"

function lost_blocks :: "bytes \<Rightarrow> nat \<Rightarrow> nat \<Rightarrow> u16 list mem" where
  "lost_blocks data packetBytes offset =
     (if offset + 4 \<le> packetBytes then do {
        pid \<leftarrow> ReadU16 data offset;
        blp \<leftarrow> ReadU16 data (offset + 2);
        rest \<leftarrow> lost_blocks data packetBytes (offset + 4);
        Some (lost_sequences pid blp @ rest) }
      else Some [])"
  by pat_completeness auto
termination
  by (relation "measure (\<lambda>(data, packetBytes, offset). packetBytes - offset)") auto

declare lost_blocks.simps [simp del]

definition parseNackFeedback :: "bytes \<Rightarrow> RTCPNackFeedback option mem" where
  "parseNackFeedback data = do {
     h \<leftarrow> parseHeader data;
     case h of
       None \<Rightarrow> Some None
     | Some header \<Rightarrow>
         if rh_packetType header \<noteq> 205 \<or> rh_countOrFormat header \<noteq> 1 then Some None
         else
           let packetBytes = packetSizeBytes header in
           if packetBytes < 12 \<or> length data < packetBytes then Some None
           else do {
             senderSsrc \<leftarrow> ReadU32 data 4;
             mediaSsrc \<leftarrow> ReadU32 data 8;
             lostSequences \<leftarrow> lost_blocks data packetBytes 12;
             Some (if lostSequences = [] then None
                   else Some \<lparr> cnk_senderSsrc = senderSsrc, cnk_mediaSsrc = mediaSsrc,
                          cnk_lostSequences = lostSequences \<rparr>) } }"

definition parsePliFeedback :: "bytes \<Rightarrow> RTCPPliFeedback option mem" where
  "parsePliFeedback data = do {
     h \<leftarrow> parseHeader data;
     case h of
       None \<Rightarrow> Some None
     | Some header \<Rightarrow>
         if rh_packetType header \<noteq> 206 \<or> rh_countOrFormat header \<noteq> 1 then Some None
         else
           let packetBytes = packetSizeBytes header in
           if packetBytes < 12 \<or> length data < packetBytes then Some None
           else do {
             senderSsrc \<leftarrow> ReadU32 data 4;
             mediaSsrc \<leftarrow> ReadU32 data 8;
             Some (Some \<lparr> cpli_senderSsrc = senderSsrc, cpli_mediaSsrc = mediaSsrc \<rparr>) } }"

definition client_remb_bitrate :: "u8 \<Rightarrow> u32 \<Rightarrow> u32" where
  "client_remb_bitrate bitrateExp bitrateMantissa =
     (let bitrate = push_bit (unat bitrateExp) (ucast bitrateMantissa :: u64)
      in if bitrate > 0xFFFFFFFF then 0xFFFFFFFF else ucast bitrate)"

definition parseRembFeedback :: "bytes \<Rightarrow> RTCPRembFeedback option mem" where
  "parseRembFeedback data = do {
     h \<leftarrow> parseHeader data;
     case h of
       None \<Rightarrow> Some None
     | Some header \<Rightarrow>
         if rh_packetType header \<noteq> 206 \<or> rh_countOrFormat header \<noteq> 15 then Some None
         else
           let packetBytes = packetSizeBytes header in
           if packetBytes < 20 \<or> length data < packetBytes then Some None
           else do {
             let body = 4;
             let fci = body + 8;
             c0 \<leftarrow> byte_at data fci; c1 \<leftarrow> byte_at data (fci + 1);
             c2 \<leftarrow> byte_at data (fci + 2); c3 \<leftarrow> byte_at data (fci + 3);
             if c0 \<noteq> 0x52 \<or> c1 \<noteq> 0x45 \<or> c2 \<noteq> 0x4D \<or> c3 \<noteq> 0x42 then Some None
             else do {
               ssrcCount \<leftarrow> byte_at data (fci + 4);
               let requiredBytes = 20 + unat ssrcCount * 4;
               if packetBytes < requiredBytes \<or> length data < requiredBytes then Some None
               else do {
                 senderSsrc \<leftarrow> ReadU32 data body;
                 mediaSsrc \<leftarrow> ReadU32 data (body + 4);
                 f5 \<leftarrow> byte_at data (fci + 5); f6 \<leftarrow> byte_at data (fci + 6); f7 \<leftarrow> byte_at data (fci + 7);
                 let bitrateExp = drop_bit 2 f5 AND 0x3F;
                 let bitrateMantissa = push_bit 16 (ucast (f5 AND 0x03)) OR push_bit 8 (ucast f6) OR ucast f7;
                 targetSsrcs \<leftarrow> mem_concat (\<lambda>i. map_option (\<lambda>s. [s]) (ReadU32 data (fci + 8 + i * 4)))
                                  [0..<unat ssrcCount];
                 Some (if targetSsrcs = [] then None
                       else Some \<lparr> crb_senderSsrc = senderSsrc, crb_mediaSsrc = mediaSsrc,
                              crb_bitrateExp = bitrateExp, crb_bitrateMantissa = bitrateMantissa,
                              crb_bitrateBps = client_remb_bitrate bitrateExp bitrateMantissa,
                              crb_targetSsrcs = targetSsrcs \<rparr>) } } } }"

section \<open>Agreement with the media server\<close>

definition summary_of :: "bytes \<Rightarrow> RTCPHeader \<Rightarrow> RtcpPacketSummary" where
  "summary_of data h = \<lparr> rp_type = ToRtcpType (rh_packetType h), rp_fmt = rh_countOrFormat h,
     rp_lengthWords = rh_lengthWords h,
     rp_senderSsrc = (if 8 \<le> packetSizeBytes h then be32 (data ! 4) (data ! 5) (data ! 6) (data ! 7) else 0),
     rp_offset = 0, rp_packetSize = packetSizeBytes h \<rparr>"



definition remb_view :: "RtcpRembFeedback \<Rightarrow> RTCPRembFeedback" where
  "remb_view f = \<lparr> crb_senderSsrc = rb_senderSsrc f, crb_mediaSsrc = rb_mediaSsrc f,
     crb_bitrateExp = rb_bitrateExp f, crb_bitrateMantissa = rb_bitrateMantissa f,
     crb_bitrateBps = rb_bitrateBps f, crb_targetSsrcs = rb_targetSsrcs f \<rparr>"


text \<open>What a decoder of the media server gives for the packet at the start of the buffer.\<close>

definition server_first ::
  "(RtcpPacketSummary \<Rightarrow> 'a list mem) \<Rightarrow> ('a \<Rightarrow> 'b) \<Rightarrow> bytes \<Rightarrow> 'b option mem" where
  "server_first decode view data =
     (if length data < 4 then Some None
      else compound_packet data 0 \<bind> (\<lambda>r. case r of
         None \<Rightarrow> Some None
       | Some p \<Rightarrow> map_option (\<lambda>l. case l of [] \<Rightarrow> None | x # _ \<Rightarrow> Some (view x)) (decode p)))"

lemma byte_at_first: "4 \<le> length data \<Longrightarrow> byte_at data 0 = Some (data ! 0)"
  by (rule byte_at_in) linarith

lemma parseHeader_safe: "\<exists>h. parseHeader data = Some h"
  by (auto simp: parseHeader_def Let_def byte_at_first not_less)

lemma header_size: "parseHeader data = Some (Some h) \<Longrightarrow> 4 \<le> packetSizeBytes h \<and> packetSizeBytes h \<le> length data"
  by (auto simp: parseHeader_def Let_def byte_at_first not_less split: if_splits)

lemma compound_header:
  assumes "4 \<le> length data" and "parseHeader data = Some r"
  shows "compound_packet data 0 = Some (map_option (summary_of data) r)"
  using assms
  by (auto simp: parseHeader_def compound_packet_def Let_def summary_of_def packetSizeBytes_def be16_def
      byte_at_first not_less numeral_2_eq_2 numeral_3_eq_3 split: if_splits)

lemma server_first_header:
  "server_first decode view data = parseHeader data \<bind> (\<lambda>r. case r of
     None \<Rightarrow> Some None
   | Some h \<Rightarrow> map_option (\<lambda>l. case l of [] \<Rightarrow> None | x # _ \<Rightarrow> Some (view x)) (decode (summary_of data h)))"
proof (cases "length data < 4")
  case True
  then show ?thesis by (simp add: server_first_def parseHeader_def)
next
  case False
  obtain r where r: "parseHeader data = Some r" using parseHeader_safe by blast
  then show ?thesis using False compound_header [OF _ r] by (cases r) (auto simp: server_first_def)
qed

lemma ToRtcpType_iff [simp]:
  "ToRtcpType t = SR \<longleftrightarrow> t = 200" "ToRtcpType t = RR \<longleftrightarrow> t = 201"
  "ToRtcpType t = RTPFB \<longleftrightarrow> t = 205" "ToRtcpType t = PSFB \<longleftrightarrow> t = 206"
  by (auto simp: ToRtcpType_def)

lemma lost_sequences_eq: "lost_sequences pid blp = nack_sequences pid blp"
proof -
  have "concat (map (\<lambda>b. if P b then [] else [f b]) xs) = map f (filter (\<lambda>b. \<not> P b) xs)"
    for P and f :: "nat \<Rightarrow> u16" and xs by (induction xs) auto
  then show ?thesis unfolding lost_sequences_def nack_sequences_def by simp
qed

lemma lost_blocks_eq: "lost_blocks data e off = nack_blocks data e off"
  by (induction data e off rule: nack_blocks.induct)
     (subst lost_blocks.simps, subst nack_blocks.simps, auto simp: lost_sequences_eq split: bind_splits)

lemma client_remb_bitrate_eq: "client_remb_bitrate e m = remb_bitrate e m"
  by (simp add: client_remb_bitrate_def remb_bitrate_def)

lemma summary_simps [simp]:
  "rp_offset (summary_of data h) = 0" "rp_packetSize (summary_of data h) = packetSizeBytes h"
  "rp_type (summary_of data h) = ToRtcpType (rh_packetType h)" "rp_fmt (summary_of data h) = rh_countOrFormat h"
  by (simp_all add: summary_of_def)



lemma remb_agrees: "parseRembFeedback data = server_first (remb_of_packet data) remb_view data"
proof -
  obtain r where r: "parseHeader data = Some r" using parseHeader_safe by blast
  show ?thesis
  proof (cases r)
    case (Some h)
    then show ?thesis using header_size [of data h] r
      by (auto simp: parseRembFeedback_def server_first_header remb_of_packet_def Let_def client_remb_bitrate_eq
          remb_view_def split: bind_splits)
  qed (simp add: parseRembFeedback_def server_first_header r)
qed







section \<open>Round trips of the reports\<close>

lemma byte_at_shift: "byte_at (xs @ ys) (length xs + k) = byte_at ys k"
  by (simp add: byte_at_def)

lemma ReadU32_shift: "ReadU32 (xs @ ys) (length xs + k) = ReadU32 ys k"
  unfolding ReadU32_def add.assoc byte_at_shift ..

lemma report_block_shift: "report_block (xs @ ys) (length xs + k) = report_block ys k"
  unfolding report_block_def add.assoc byte_at_shift ReadU32_shift ..

lemma report_blocks_shift:
  "report_blocks (xs @ ys) (length xs + pb) (length xs + k) n = report_blocks ys pb k n"
  by (induction n arbitrary: k) (simp_all add: report_block_shift add.assoc)

lemma length_block [simp]: "length (block_bytes b) = 24"
  by (simp add: block_bytes_def Let_def)

lemma be24_bytes:
  fixes v :: u32
  shows "be24 (ucast (drop_bit 16 (v AND 0xFFFFFF) AND 0xFF)) (ucast (drop_bit 8 (v AND 0xFFFFFF) AND 0xFF))
           (ucast ((v AND 0xFFFFFF) AND 0xFF)) = v AND 0xFFFFFF"
proof (rule bit_word_eqI)
  fix n
  assume "n < LENGTH(32)"
  then consider "n < 8" | "8 \<le> n" "n < 16" | "16 \<le> n" "n < 24" | "24 \<le> n" "n < 32"
    by fastforce
  moreover have m: "(0xFFFFFF :: u32) = mask 24" "(0xFF :: u32) = mask 8" by (simp_all add: mask_eq_exp_minus_1)
  ultimately show "bit (be24 (ucast (drop_bit 16 (v AND 0xFFFFFF) AND 0xFF))
      (ucast (drop_bit 8 (v AND 0xFFFFFF) AND 0xFF)) (ucast ((v AND 0xFFFFFF) AND 0xFF))) n = bit (v AND 0xFFFFFF) n"
    unfolding be24_def m by cases (auto simp: bit_simps)
qed

lemma sign_extended:
  fixes c :: int
  assumes "- (2 ^ 23) \<le> c" and "c < 2 ^ 23"
  defines "w \<equiv> (word_of_int c :: u32) AND 0xFFFFFF"
  shows "sint (if w AND 0x800000 \<noteq> 0 then w OR NOT 0xFFFFFF else w) = c"
proof -
  have c: "signed_take_bit 23 c = c" using assms(1,2) by (simp add: signed_take_bit_int_eq_self_iff)
  have high: "bit c n = bit c 23" if "23 \<le> n" for n
    using that by (subst c [symmetric]) (simp add: bit_signed_take_bit_iff)
  have m: "(0xFFFFFF :: u32) = mask 24" by (simp add: mask_eq_exp_minus_1)
  have e: "(0x800000 :: u32) = 2 ^ 23" by simp
  have sign: "w AND 0x800000 \<noteq> 0 \<longleftrightarrow> bit c 23"
    unfolding w_def e and_exp_eq_0_iff_not_bit m by (simp add: bit_simps)
  have "(if w AND 0x800000 \<noteq> 0 then w OR NOT 0xFFFFFF else w) = word_of_int c"
    unfolding sign
  proof (rule bit_word_eqI)
    fix n
    assume "n < LENGTH(32)"
    then show "bit (if bit c 23 then w OR NOT 0xFFFFFF else w) n = bit (word_of_int c :: u32) n"
      using high [of n] by (cases "n < 24") (auto simp: w_def m bit_simps)
  qed
  then show ?thesis using assms(1,2)
    by (simp add: signed_take_bit_int_eq_self_iff sint_sbintrunc')
qed

definition block_ok :: "RTCPReportBlock \<Rightarrow> bool" where
  "block_ok b \<longleftrightarrow> - (2 ^ 23) \<le> blk_cumulativeLost b \<and> blk_cumulativeLost b < 2 ^ 23"

lemma report_block_bytes: "block_ok b \<Longrightarrow> report_block (block_bytes b @ ys) 0 = Some b"
  using sign_extended [of "blk_cumulativeLost b"] be24_bytes [of "word_of_int (blk_cumulativeLost b)"]
  by (cases b) (auto simp: block_ok_def report_block_def block_bytes_def Let_def AppendU32_def be24_def byte_at_def
      split: if_splits)

lemma report_blocks_bytes:
  assumes "list_all block_ok bs"
  shows "report_blocks (concat (map block_bytes bs) @ ys) (24 * length bs) 0 (length bs) = Some (Some bs)"
  using assms
proof (induction bs)
  case (Cons b bs)
  let ?tail = "concat (map block_bytes bs) @ ys"
  have "report_blocks (block_bytes b @ ?tail) (length (block_bytes b) + 24 * length bs) (length (block_bytes b) + 0) (length bs)
      = Some (Some bs)"
    using Cons unfolding report_blocks_shift by simp
  then show ?case using Cons.prems report_block_bytes [of b ?tail] by simp
qed simp

lemma report_header_bits:
  assumes "n \<le> 31"
  shows "drop_bit 6 (push_bit 6 2 OR (of_nat n AND 0x1F) :: u8) AND 0x03 = 2"
    and "(push_bit 6 2 OR (of_nat n AND 0x1F) :: u8) AND 0x20 = 0"
    and "(push_bit 6 2 OR (of_nat n AND 0x1F) :: u8) AND 0x1F = of_nat n"
proof -
  have "\<forall>n \<in> set [0..<32]. drop_bit 6 (push_bit 6 2 OR (of_nat n AND 0x1F) :: u8) AND 0x03 = 2 \<and>
      (push_bit 6 2 OR (of_nat n AND 0x1F) :: u8) AND 0x20 = 0 \<and>
      (push_bit 6 2 OR (of_nat n AND 0x1F) :: u8) AND 0x1F = of_nat n"
    by code_simp
  then show "drop_bit 6 (push_bit 6 2 OR (of_nat n AND 0x1F) :: u8) AND 0x03 = 2"
    "(push_bit 6 2 OR (of_nat n AND 0x1F) :: u8) AND 0x20 = 0"
    "(push_bit 6 2 OR (of_nat n AND 0x1F) :: u8) AND 0x1F = of_nat n"
    using assms by auto
qed

lemma parse_report_header:
  assumes "n \<le> 31" and "pb = 4 * (k + 1)" and "k < 65536" and "pb \<le> 4 + length ys"
  shows "parseHeader (report_header t n pb @ ys) = Some (Some \<lparr> rh_version = 2, rh_padding = False,
           rh_countOrFormat = of_nat n, rh_packetType = t, rh_lengthWords = of_nat k \<rparr>)"
    and "packetSizeBytes \<lparr> rh_version = 2, rh_padding = False, rh_countOrFormat = of_nat n, rh_packetType = t,
           rh_lengthWords = of_nat k \<rparr> = pb"
proof -
  have k: "pb div 4 - 1 = k" using assms(2) by simp
  show size: "packetSizeBytes \<lparr> rh_version = 2, rh_padding = False, rh_countOrFormat = of_nat n, rh_packetType = t,
           rh_lengthWords = of_nat k \<rparr> = pb"
    using assms(2,3) by (simp add: packetSizeBytes_def unat_of_nat)
  have len: "push_bit 8 (ucast (ucast (drop_bit 8 (of_nat k :: u16) AND 0xFF) :: u8)) OR
      ucast (ucast ((of_nat k :: u16) AND 0xFF) :: u8) = (of_nat k :: u16)"
    using be16_bytes [of "of_nat k"] unfolding be16_def .
  show "parseHeader (report_header t n pb @ ys) = Some (Some \<lparr> rh_version = 2, rh_padding = False,
           rh_countOrFormat = of_nat n, rh_packetType = t, rh_lengthWords = of_nat k \<rparr>)"
    unfolding parseHeader_def report_header_def Let_def k
    using assms size report_header_bits [OF assms(1)] len by (simp add: byte_at_def)
qed

lemma length_report_header [simp]: "length (report_header t n pb) = 4"
  by (simp add: report_header_def Let_def)

lemma length_blocks [simp]: "length (concat (map block_bytes bs)) = 24 * length bs"
  by (induction bs) simp_all

lemma unat_count: "n \<le> 31 \<Longrightarrow> unat (of_nat n :: u8) = n"
  by (simp add: unat_of_nat)

lemma ntp_split: "ntp_bytes t = AppendU32 (ucast (drop_bit 32 t)) @ AppendU32 (ucast t)"
proof -
  have b: "ucast (drop_bit s (ucast (drop_bit 32 t) :: u32) AND 0xFF) = (ucast (drop_bit (32 + s) t AND 0xFF) :: u8)"
    "ucast (drop_bit s (ucast t :: u32) AND 0xFF) = (ucast (drop_bit s t AND 0xFF) :: u8)" if "s \<le> 24" for s
    using that unfolding mask_0xFF by (auto intro!: bit_word_eqI simp: bit_simps add.assoc)
  show ?thesis
    using b(1) [of 24] b(1) [of 16] b(1) [of 8] b(1) [of 0] b(2) [of 24] b(2) [of 16] b(2) [of 8] b(2) [of 0]
    by (simp add: ntp_bytes_def AppendU32_def)
qed

lemma ntp_joined: "push_bit 32 (ucast (ucast (drop_bit 32 t) :: u32)) OR ucast (ucast t :: u32) = (t :: u64)"
  by (rule bit_word_eqI) (auto simp: bit_simps not_less dest: bit_imp_le_length)

lemma receiver_report_read_back:
  assumes "length (crr_reportBlocks r) \<le> 31" and "list_all block_ok (crr_reportBlocks r)"
  shows "parseReceiverReport (buildReceiverReport r @ rest) = Some (Some r)"
proof -
  let ?bs = "crr_reportBlocks r" and ?n = "length (crr_reportBlocks r)"
  let ?pb = "8 + length (crr_reportBlocks r) * 24"
  let ?hdr = "report_header 201 ?n ?pb" and ?tail = "concat (map block_bytes ?bs) @ rest"
  let ?data = "?hdr @ AppendU32 (crr_receiverSsrc r) @ ?tail"
  have d: "buildReceiverReport r @ rest = ?data" using assms(1) by (simp add: buildReceiverReport_def Let_def)
  note h = parse_report_header [OF assms(1), of ?pb "1 + 6 * ?n" "AppendU32 (crr_receiverSsrc r) @ ?tail" 201]
  have blocks: "report_blocks ?data ?pb 8 ?n = Some (Some ?bs)"
    using report_blocks_shift [of "?hdr @ AppendU32 (crr_receiverSsrc r)" ?tail "24 * ?n" 0 ?n]
      report_blocks_bytes [OF assms(2), of rest] by (simp add: mult.commute)
  have ssrc: "ReadU32 ?data 4 = Some (crr_receiverSsrc r)" by (rule ReadU32_append) simp
  show ?thesis
    unfolding d parseReceiverReport_def using assms(1) h ssrc blocks
    by (simp add: isReceiverReport_def Let_def unat_count)
qed

lemma sender_report_read_back:
  assumes "length (csr_reportBlocks r) \<le> 31" and "list_all block_ok (csr_reportBlocks r)"
  shows "parseSenderReport (buildSenderReport r @ rest) = Some (Some r)"
proof -
  let ?bs = "csr_reportBlocks r" and ?n = "length (csr_reportBlocks r)"
  let ?pb = "28 + length (csr_reportBlocks r) * 24"
  let ?hdr = "report_header 200 ?n ?pb" and ?tail = "concat (map block_bytes ?bs) @ rest"
  let ?t = "csr_ntpTimestamp r"
  let ?body = "AppendU32 (csr_senderSsrc r) @ AppendU32 (ucast (drop_bit 32 ?t)) @ AppendU32 (ucast ?t) @
     AppendU32 (csr_rtpTimestamp r) @ AppendU32 (csr_packetCount r) @ AppendU32 (csr_octetCount r)"
  let ?data = "?hdr @ ?body @ ?tail"
  have d: "buildSenderReport r @ rest = ?data"
    using assms(1) by (simp add: buildSenderReport_def Let_def ntp_split)
  note h = parse_report_header [OF assms(1), of ?pb "6 + 6 * ?n" "?body @ ?tail" 200]
  have blocks: "report_blocks ?data ?pb 28 ?n = Some (Some ?bs)"
    using report_blocks_shift [of "?hdr @ ?body" ?tail "24 * ?n" 0 ?n]
      report_blocks_bytes [OF assms(2), of rest] by (simp add: mult.commute)
  have fields: "ReadU32 ?data 4 = Some (csr_senderSsrc r)" "ReadU32 ?data 8 = Some (ucast (drop_bit 32 ?t))"
    "ReadU32 ?data 12 = Some (ucast ?t)" "ReadU32 ?data 16 = Some (csr_rtpTimestamp r)"
    "ReadU32 ?data 20 = Some (csr_packetCount r)" "ReadU32 ?data 24 = Some (csr_octetCount r)"
    using ReadU32_append [of "?hdr" 4 "csr_senderSsrc r"]
      ReadU32_append [of "?hdr @ AppendU32 (csr_senderSsrc r)" 8 "ucast (drop_bit 32 ?t)"]
      ReadU32_append [of "?hdr @ AppendU32 (csr_senderSsrc r) @ AppendU32 (ucast (drop_bit 32 ?t))" 12 "ucast ?t"]
      ReadU32_append [of "?hdr @ AppendU32 (csr_senderSsrc r) @ AppendU32 (ucast (drop_bit 32 ?t)) @ AppendU32 (ucast ?t)" 16 "csr_rtpTimestamp r"]
      ReadU32_append [of "?hdr @ AppendU32 (csr_senderSsrc r) @ AppendU32 (ucast (drop_bit 32 ?t)) @ AppendU32 (ucast ?t) @ AppendU32 (csr_rtpTimestamp r)" 20 "csr_packetCount r"]
      ReadU32_append [of "?hdr @ AppendU32 (csr_senderSsrc r) @ AppendU32 (ucast (drop_bit 32 ?t)) @ AppendU32 (ucast ?t) @ AppendU32 (csr_rtpTimestamp r) @ AppendU32 (csr_packetCount r)" 24 "csr_octetCount r"]
    by simp_all
  show ?thesis
    unfolding d parseSenderReport_def using assms(1) h fields blocks
    by (simp add: isSenderReport_def Let_def unat_count ntp_joined)
qed

section \<open>Compound packets\<close>








definition demo_block :: RTCPReportBlock where
  "demo_block = \<lparr> blk_sourceSsrc = 0x0A0B0C0D, blk_fractionLost = 5, blk_cumulativeLost = -2,
     blk_highestSeq = 0x12345678, blk_jitter = 9, blk_lastSenderReport = 0x01020304,
     blk_delaySinceLastSenderReport = 0x05060708 \<rparr>"

definition demo_receiver_report :: RTCPReceiverReport where
  "demo_receiver_report = \<lparr> crr_receiverSsrc = 0xAABBCCDD, crr_reportBlocks = [demo_block] \<rparr>"

definition demo_sender_report :: RTCPSenderReport where
  "demo_sender_report = \<lparr> csr_senderSsrc = 0x01020304, csr_ntpTimestamp = 0x1111222233334444,
     csr_rtpTimestamp = 0x55556666, csr_packetCount = 42, csr_octetCount = 2048, csr_reportBlocks = [demo_block] \<rparr>"


lemma length_buildSenderReport:
  "length (csr_reportBlocks s) \<le> 31 \<Longrightarrow> length (buildSenderReport s) = 28 + 24 * length (csr_reportBlocks s)"
  by (simp add: buildSenderReport_def Let_def ntp_bytes_def)

lemma length_buildReceiverReport:
  "length (crr_reportBlocks r) \<le> 31 \<Longrightarrow> length (buildReceiverReport r) = 8 + 24 * length (crr_reportBlocks r)"
  by (simp add: buildReceiverReport_def Let_def)

lemma report_slice:
  assumes "n \<le> 31" and "pb = 4 * (k + 1)" and "k < 65536" and "pb \<le> 4 + length ys"
  shows "\<exists>sl. parsePacketSlice (report_header t n pb @ ys) = Some (Some sl) \<and> sl_size sl = pb \<and> rh_packetType (sl_header sl) = t"
  using assms(4) parse_report_header [OF assms] by (simp add: parsePacketSlice_def Let_def)

lemma slice_of_sender:
  assumes "length (csr_reportBlocks s) \<le> 31"
  shows "\<exists>sl. parsePacketSlice (buildSenderReport s @ ys) = Some (Some sl) \<and> sl_size sl = length (buildSenderReport s) \<and>
           isSenderReport (sl_header sl)"
proof -
  let ?n = "length (csr_reportBlocks s)"
  obtain body where body: "buildSenderReport s = report_header 200 ?n (28 + 24 * ?n) @ body"
    using assms by (auto simp: buildSenderReport_def Let_def mult.commute)
  then have "28 + 24 * ?n \<le> 4 + length (body @ ys)" using length_buildSenderReport [OF assms] by simp
  from report_slice [OF assms _ _ this, of "6 + 6 * ?n" 200] assms show ?thesis
    using length_buildSenderReport [OF assms] by (simp add: body isSenderReport_def)
qed

lemma slice_of_receiver:
  assumes "length (crr_reportBlocks r) \<le> 31"
  shows "\<exists>sl. parsePacketSlice (buildReceiverReport r @ ys) = Some (Some sl) \<and> sl_size sl = length (buildReceiverReport r) \<and>
           isReceiverReport (sl_header sl)"
proof -
  let ?n = "length (crr_reportBlocks r)"
  obtain body where body: "buildReceiverReport r = report_header 201 ?n (8 + 24 * ?n) @ body"
    using assms by (auto simp: buildReceiverReport_def Let_def mult.commute)
  then have "8 + 24 * ?n \<le> 4 + length (body @ ys)" using length_buildReceiverReport [OF assms] by simp
  from report_slice [OF assms _ _ this, of "1 + 6 * ?n" 201] assms show ?thesis
    using length_buildReceiverReport [OF assms] by (simp add: body isReceiverReport_def)
qed

text \<open>
  C30. Reports survive the wire: a sender report and a receiver report with at most 31 blocks each and
  loss counts that fit 24 bits, built and sent as one compound packet, are cut into exactly two packets of the right kinds,
  and each is parsed back into the report it was built from, all fields and blocks included.
\<close>

theorem report_roundtrip:
  assumes "length (csr_reportBlocks s) \<le> 31" and "list_all block_ok (csr_reportBlocks s)"
    and "length (crr_reportBlocks r) \<le> 31" and "list_all block_ok (crr_reportBlocks r)"
  shows "let compound = buildSenderReport s @ buildReceiverReport r in
    \<exists>s1 s2. parseCompoundPacket compound = Some (Some [s1, s2]) \<and>
      isSenderReport (sl_header s1) \<and> isReceiverReport (sl_header s2) \<and>
      parseSenderReport (take (sl_size s1) (drop (sl_offset s1) compound)) = Some (Some s) \<and>
      parseReceiverReport (take (sl_size s2) (drop (sl_offset s2) compound)) = Some (Some r)"
proof -
  let ?S = "buildSenderReport s" and ?R = "buildReceiverReport r"
  obtain s1 where s1: "parsePacketSlice (?S @ ?R) = Some (Some s1)" "sl_size s1 = length ?S" "isSenderReport (sl_header s1)"
    using slice_of_sender [OF assms(1)] by blast
  obtain s2 where s2: "parsePacketSlice ?R = Some (Some s2)" "sl_size s2 = length ?R" "isReceiverReport (sl_header s2)"
    using slice_of_receiver [OF assms(3), of "[]"] by auto
  have ne: "0 < length ?S" "0 < length ?R"
    using length_buildSenderReport [OF assms(1)] length_buildReceiverReport [OF assms(3)] by simp_all
  have third: "slices_from (?S @ ?R) (length ?S + length ?R) = Some (Some [])" by (simp add: slices_from.simps)
  have second: "slices_from (?S @ ?R) (length ?S) = Some (Some [s2\<lparr>sl_offset := length ?S\<rparr>])"
    using ne third s2 by (subst slices_from.simps) simp
  have "slices_from (?S @ ?R) 0 = Some (Some [s1\<lparr>sl_offset := 0\<rparr>, s2\<lparr>sl_offset := length ?S\<rparr>])"
    using ne second s1 by (subst slices_from.simps) simp
  then have "parseCompoundPacket (?S @ ?R) = Some (Some [s1\<lparr>sl_offset := 0\<rparr>, s2\<lparr>sl_offset := length ?S\<rparr>])"
    using ne by (simp add: parseCompoundPacket_def)
  then show ?thesis
    using s1 s2 sender_report_read_back [OF assms(1,2), of "[]"] receiver_report_read_back [OF assms(3,4), of "[]"]
    by (simp add: Let_def)
qed

theorem report_roundtrip_witness:
  "let compound = buildSenderReport demo_sender_report @ buildReceiverReport demo_receiver_report in
    \<exists>s1 s2. parseCompoundPacket compound = Some (Some [s1, s2]) \<and>
      isSenderReport (sl_header s1) \<and> isReceiverReport (sl_header s2) \<and>
      parseSenderReport (take (sl_size s1) (drop (sl_offset s1) compound)) = Some (Some demo_sender_report) \<and>
      parseReceiverReport (take (sl_size s2) (drop (sl_offset s2) compound)) = Some (Some demo_receiver_report)"
  by (rule report_roundtrip) (simp_all add: demo_sender_report_def demo_receiver_report_def demo_block_def block_ok_def)

text \<open>
  The client understands what the media server sends back: a picture-loss indication, a bandwidth
  limit and a receiver report built by the server are parsed into the values the server put in; the bit rate
  of the limit is the mantissa shifted by the exponent as the server's own decoder reads it.
\<close>

theorem server_feedback_understood:
  "parsePliFeedback (BuildPliPacket a b) = Some (Some \<lparr> cpli_senderSsrc = a, cpli_mediaSsrc = b \<rparr>) \<and>
   parseRembFeedback (BuildRembPacket a b e m t) = Some (Some \<lparr> crb_senderSsrc = a, crb_mediaSsrc = b,
     crb_bitrateExp = e AND 0x3F, crb_bitrateMantissa = m AND 0x3FFFF,
     crb_bitrateBps = remb_bitrate (e AND 0x3F) (m AND 0x3FFFF), crb_targetSsrcs = [t] \<rparr>) \<and>
   parseReceiverReport (BuildReceiverReportPacket a b l d) = Some (Some \<lparr> crr_receiverSsrc = a,
     crr_reportBlocks = [\<lparr> blk_sourceSsrc = b, blk_fractionLost = 0, blk_cumulativeLost = 0, blk_highestSeq = 0,
       blk_jitter = 0, blk_lastSenderReport = l, blk_delaySinceLastSenderReport = d \<rparr>] \<rparr>)"
proof (intro conjI)
  show "parsePliFeedback (BuildPliPacket a b) = Some (Some \<lparr> cpli_senderSsrc = a, cpli_mediaSsrc = b \<rparr>)"
    by (simp add: parsePliFeedback_def parseHeader_def BuildPliPacket_def byte_at_def packetSizeBytes_def AppendU32_def Let_def)
  let ?d = "BuildRembPacket a b e m t"
  have "length ?d = 24" by (simp add: BuildRembPacket_def Let_def)
  then have "remb_of_packet ?d \<lparr> rp_type = PSFB, rp_fmt = 15, rp_lengthWords = 5, rp_senderSsrc = a, rp_offset = 0, rp_packetSize = 24 \<rparr>
      = ParseRembFeedback ?d"
    using compound_single [OF _ _ BuildRemb_header, of a b e m t 24]
    by (simp add: ParseRembFeedback_def split: bind_split)
  then show "parseRembFeedback ?d = Some (Some \<lparr> crb_senderSsrc = a, crb_mediaSsrc = b,
     crb_bitrateExp = e AND 0x3F, crb_bitrateMantissa = m AND 0x3FFFF,
     crb_bitrateBps = remb_bitrate (e AND 0x3F) (m AND 0x3FFFF), crb_targetSsrcs = [t] \<rparr>)"
    using Parse_BuildRemb [of a b e m t] \<open>length ?d = 24\<close>
    by (simp add: remb_agrees server_first_def BuildRemb_header remb_view_def)
  have zero: "be32 0 0 0 0 = 0" by (simp add: be32_def)
  show "parseReceiverReport (BuildReceiverReportPacket a b l d) = Some (Some \<lparr> crr_receiverSsrc = a,
     crr_reportBlocks = [\<lparr> blk_sourceSsrc = b, blk_fractionLost = 0, blk_cumulativeLost = 0, blk_highestSeq = 0,
       blk_jitter = 0, blk_lastSenderReport = l, blk_delaySinceLastSenderReport = d \<rparr>] \<rparr>)"
    by (simp add: parseReceiverReport_def parseHeader_def BuildReceiverReportPacket_def byte_at_def packetSizeBytes_def
        AppendU32_def isReceiverReport_def report_block_def zero Let_def)
qed

section \<open>Memory safety\<close>

lemma slices_safe: "\<exists>r. slices_from d off = Some r"
proof (induction d off rule: slices_from.induct)
  case (1 d off)
  show ?case
  proof (cases "off < length d")
    case True
    obtain r where r: "parsePacketSlice (drop off d) = Some r"
      using parseHeader_safe [of "drop off d"] by (auto simp: parsePacketSlice_def)
    then show ?thesis using "1.IH" [OF True r] True by (cases r) (subst slices_from.simps, auto)+
  qed (simp add: slices_from.simps)
qed

lemma report_blocks_safe: "pb \<le> length d \<Longrightarrow> \<exists>r. report_blocks d pb off n = Some r"
proof (induction n arbitrary: off)
  case (Suc n)
  show ?case
  proof (cases "off + 24 \<le> pb")
    case True
    obtain b where "report_block d off = Some b" using True Suc.prems by (simp add: report_block_def Let_def)
    then show ?thesis using True Suc.IH [of "off + 24"] Suc.prems by auto
  qed simp
qed simp

lemma client_parsers_safe:
  "parseSenderReport d \<noteq> None" "parseReceiverReport d \<noteq> None" "parseNackFeedback d \<noteq> None"
  "parsePliFeedback d \<noteq> None" "parseRembFeedback d \<noteq> None" "parseCompoundPacket d \<noteq> None"
proof -
  obtain r where r: "parseHeader d = Some r" using parseHeader_safe by blast
  show "parseCompoundPacket d \<noteq> None" using slices_safe [of d 0] by (auto simp: parseCompoundPacket_def)
  have blocks: "\<exists>bs. report_blocks d (packetSizeBytes h) off n = Some bs" if "\<not> length d < packetSizeBytes h" for h off n
    using that by (intro report_blocks_safe) simp
  show "parseSenderReport d \<noteq> None"
  proof (cases r)
    case (Some h)
    with r blocks [of h 28 "unat (rh_countOrFormat h)"] show ?thesis
      by (cases "packetSizeBytes h < 28 \<or> length d < packetSizeBytes h") (auto simp: parseSenderReport_def Let_def)
  qed (simp add: r parseSenderReport_def)
  show "parseReceiverReport d \<noteq> None"
  proof (cases r)
    case (Some h)
    with r blocks [of h 8 "unat (rh_countOrFormat h)"] show ?thesis
      by (cases "packetSizeBytes h < 8 \<or> length d < packetSizeBytes h") (auto simp: parseReceiverReport_def Let_def)
  qed (simp add: r parseReceiverReport_def)
  show "parseNackFeedback d \<noteq> None"
    using r nack_blocks_safe [of "packetSizeBytes (the r)" d 12]
    by (cases r) (auto simp: parseNackFeedback_def lost_blocks_eq Let_def not_less split: bind_splits)
  show "parsePliFeedback d \<noteq> None" using r by (cases r) (auto simp: parsePliFeedback_def Let_def)
  show "parseRembFeedback d \<noteq> None"
    using r remb_targets_safe [of 20 "unat (d ! 16)" d]
    by (cases r) (auto simp: parseRembFeedback_def Let_def split: bind_splits)
qed

end
