(* ===== verification/ClientBandwidth.thy ===== *)
theory ClientBandwidth
  imports BandwidthEstimator
begin

text \<open>
  The bandwidth estimator of the client's audio session
  (\<open>plasma-hawking/src/net/media/BandwidthEstimator.cpp\<close>). Every public operation holds the mutex
  and reads the steady clock at most once; times are nanoseconds. A loss rate is \<open>fractionLost / 256\<close>,
  exact in single precision. \<open>None\<close> is undefined behaviour of a float conversion. \<open>size_t\<close> and
  \<open>uint64_t\<close> are 64-bit words.
\<close>

record ClientBwe =
  cb_minBitrateKbps :: u32
  cb_maxBitrateKbps :: u32
  cb_initialBitrateKbps :: u32
  cb_sampleWindowMs :: u32
  cb_windowStart :: int
  cb_windowBytes :: u64
  cb_bitrateKbps :: u32
  cb_rttMs :: u32
  cb_lossRate :: rat

definition ClientBwe_new :: "u32 \<Rightarrow> u32 \<Rightarrow> u32 \<Rightarrow> u32 \<Rightarrow> int \<Rightarrow> ClientBwe" where
  "ClientBwe_new minBitrateKbps maxBitrateKbps initialBitrateKbps sampleWindowMs now =
     (let mn = (if minBitrateKbps = 0 then 1 else minBitrateKbps);
          mx = (if maxBitrateKbps < mn then mn else maxBitrateKbps);
          ini = (if initialBitrateKbps < mn \<or> initialBitrateKbps > mx then max mn (min mx initialBitrateKbps)
                 else initialBitrateKbps)
      in \<lparr> cb_minBitrateKbps = mn, cb_maxBitrateKbps = mx, cb_initialBitrateKbps = ini,
           cb_sampleWindowMs = (if sampleWindowMs < 100 then 100 else sampleWindowMs),
           cb_windowStart = now, cb_windowBytes = 0, cb_bitrateKbps = ini, cb_rttMs = 0, cb_lossRate = 0 \<rparr>)"

definition clampBitrateLocked :: "ClientBwe \<Rightarrow> u32 \<Rightarrow> u32" where
  "clampBitrateLocked e bitrateKbps = max (cb_minBitrateKbps e) (min (cb_maxBitrateKbps e) bitrateKbps)"

text \<open>\<open>duration_cast\<close> to milliseconds truncates; the steady clock never goes back.\<close>

definition refreshWindowLocked :: "int \<Rightarrow> ClientBwe \<Rightarrow> ClientBwe" where
  "refreshWindowLocked now e =
     (let elapsed = (now - cb_windowStart e) div 1000000
      in if elapsed < int (unat (cb_sampleWindowMs e)) then e
         else
           let e1 = (if elapsed > 0
             then
               let bitsPerSecond = cb_windowBytes e * 8 * 1000 div word_of_int elapsed;
                   kbps = (ucast (bitsPerSecond div 1000) :: u32)
               in if kbps > 0 then e\<lparr>cb_bitrateKbps := clampBitrateLocked e kbps\<rparr> else e
             else e)
           in e1\<lparr>cb_windowStart := now, cb_windowBytes := 0\<rparr>)"

definition bwe_reset :: "int \<Rightarrow> ClientBwe \<Rightarrow> ClientBwe" where
  "bwe_reset now e =
     e\<lparr>cb_windowStart := now, cb_windowBytes := 0, cb_bitrateKbps := cb_initialBitrateKbps e,
       cb_rttMs := 0, cb_lossRate := 0\<rparr>"

definition bwe_onPacketSent :: "int \<Rightarrow> u64 \<Rightarrow> ClientBwe \<Rightarrow> ClientBwe" where
  "bwe_onPacketSent now bytes e =
     (let e1 = refreshWindowLocked now e in e1\<lparr>cb_windowBytes := cb_windowBytes e1 + bytes\<rparr>)"

text \<open>The literal 1.08F.\<close>

definition f_108 :: float_factor where "f_108 = \<lparr> ff_mantissa = 9059697, ff_shift = 23 \<rparr>"

definition adjusted_bitrate :: "rat \<Rightarrow> u32 \<Rightarrow> u32 \<Rightarrow> u32 mem" where
  "adjusted_bitrate lossRate rttMs adjusted =
     (if lossRate > loss_030 \<or> rttMs > 800 then float_scale adjusted f_050
      else if lossRate > loss_015 \<or> rttMs > 500 then float_scale adjusted f_070
      else if lossRate > loss_005 \<or> rttMs > 300 then float_scale adjusted f_085
      else if lossRate < loss_002 \<and> rttMs < 120 then float_scale adjusted f_108
      else Some adjusted)"

definition bwe_onReceiverReport :: "u8 \<Rightarrow> u32 \<Rightarrow> ClientBwe \<Rightarrow> ClientBwe mem" where
  "bwe_onReceiverReport fractionLost rttMs e = do {
     let lossRate = of_nat (unat fractionLost) / 256;
     adjusted \<leftarrow> adjusted_bitrate lossRate rttMs (cb_bitrateKbps e);
     Some (e\<lparr>cb_lossRate := lossRate, cb_rttMs := rttMs, cb_bitrateKbps := clampBitrateLocked e adjusted\<rparr>) }"

definition bwe_estimateBitrateKbps :: "int \<Rightarrow> ClientBwe \<Rightarrow> u32 \<times> ClientBwe" where
  "bwe_estimateBitrateKbps now e = (let e1 = refreshWindowLocked now e in (cb_bitrateKbps e1, e1))"

section \<open>The estimate stays in its range\<close>

definition cb_inv :: "ClientBwe \<Rightarrow> bool" where
  "cb_inv e \<longleftrightarrow> 1 \<le> cb_minBitrateKbps e \<and>
     cb_minBitrateKbps e \<le> cb_initialBitrateKbps e \<and> cb_initialBitrateKbps e \<le> cb_maxBitrateKbps e \<and>
     cb_minBitrateKbps e \<le> cb_bitrateKbps e \<and> cb_bitrateKbps e \<le> cb_maxBitrateKbps e"

definition same_range :: "ClientBwe \<Rightarrow> ClientBwe \<Rightarrow> bool" where
  "same_range e e' \<longleftrightarrow> cb_minBitrateKbps e' = cb_minBitrateKbps e \<and> cb_maxBitrateKbps e' = cb_maxBitrateKbps e \<and>
     cb_initialBitrateKbps e' = cb_initialBitrateKbps e"

lemma clampBitrate_range: "cb_minBitrateKbps e \<le> cb_maxBitrateKbps e \<Longrightarrow>
    cb_minBitrateKbps e \<le> clampBitrateLocked e b \<and> clampBitrateLocked e b \<le> cb_maxBitrateKbps e"
  by (auto simp: clampBitrateLocked_def)

lemma cb_inv_new: "cb_inv (ClientBwe_new mn mx ini w now)"
  by (auto simp: ClientBwe_new_def cb_inv_def Let_def word_le_nat_alt word_less_nat_alt unat_gt_0 Suc_le_eq unat_eq_0)

lemma refresh_keeps: "cb_inv e \<Longrightarrow> cb_inv (refreshWindowLocked now e) \<and> same_range e (refreshWindowLocked now e)"
  using clampBitrate_range [of e]
  by (auto simp: refreshWindowLocked_def Let_def cb_inv_def same_range_def)

lemma reset_keeps: "cb_inv e \<Longrightarrow> cb_inv (bwe_reset now e) \<and> same_range e (bwe_reset now e)"
  by (auto simp: bwe_reset_def cb_inv_def same_range_def)

lemma sent_keeps: "cb_inv e \<Longrightarrow> cb_inv (bwe_onPacketSent now n e) \<and> same_range e (bwe_onPacketSent now n e)"
  using refresh_keeps [of e now] by (auto simp: bwe_onPacketSent_def Let_def cb_inv_def same_range_def)

lemma estimate_keeps:
  assumes "cb_inv e" "bwe_estimateBitrateKbps now e = (k, e')"
  shows "cb_inv e' \<and> same_range e e' \<and> cb_minBitrateKbps e \<le> k \<and> k \<le> cb_maxBitrateKbps e"
  using refresh_keeps [OF assms(1), of now] assms(2)
  by (auto simp: bwe_estimateBitrateKbps_def Let_def cb_inv_def same_range_def)

lemma report_keeps:
  assumes "cb_inv e" "bwe_onReceiverReport f r e = Some e'"
  shows "cb_inv e' \<and> same_range e e'"
proof -
  obtain b l where "e' = e\<lparr>cb_lossRate := l, cb_rttMs := r, cb_bitrateKbps := clampBitrateLocked e b\<rparr>"
    using assms(2) by (auto simp: bwe_onReceiverReport_def Let_def bind_eq_Some_conv)
  then show ?thesis
    using assms(1) clampBitrate_range [of e b] by (auto simp: cb_inv_def same_range_def)
qed

lemma scale_down:
  assumes "g = f_050 \<or> g = f_070 \<or> g = f_085"
  shows "\<exists>c. float_scale b g = Some c \<and> c \<le> b"
proof (rule float_scale_shrinks)
  show "ff_mantissa g * (2 ^ 24 + 1) ^ 2 \<le> 2 ^ ff_shift g * 2 ^ 48"
    using assms by (auto simp: f_050_def f_070_def f_085_def)
qed

lemma scale_up:
  assumes "unat b \<le> 3900000000"
  shows "\<exists>c. float_scale b f_108 = Some c"
proof -
  have "\<exists>c. float_scale b f_108 = Some c \<and> unat c < 2 ^ 32"
    using assms by (intro float_scale_bound) (simp_all add: f_108_def)
  then show ?thesis by blast
qed

lemma adjusted_congested:
  assumes "l > loss_005 \<or> r > 300"
  shows "\<exists>c. adjusted_bitrate l r b = Some c \<and> c \<le> b"
  unfolding adjusted_bitrate_def
  using assms scale_down [of f_050 b] scale_down [of f_070 b] scale_down [of f_085 b] by presburger

lemma adjusted_defined:
  assumes "unat b \<le> 3900000000"
  shows "\<exists>c. adjusted_bitrate l r b = Some c"
proof (cases "l > loss_005 \<or> r > 300")
  case True
  then show ?thesis using adjusted_congested by blast
next
  case False
  then show ?thesis
    unfolding adjusted_bitrate_def
    using scale_up [OF assms] scale_down [of f_050 b] scale_down [of f_070 b] by (simp split: if_split) blast
qed

lemma report_defined:
  assumes "cb_inv e" "unat (cb_maxBitrateKbps e) \<le> 3900000000"
  shows "bwe_onReceiverReport f r e \<noteq> None"
proof -
  have "unat (cb_bitrateKbps e) \<le> 3900000000"
    using assms by (simp add: cb_inv_def word_le_nat_alt)
  then show ?thesis
    using adjusted_defined [of "cb_bitrateKbps e" "of_nat (unat f) / 256" r]
    by (auto simp: bwe_onReceiverReport_def simp del: of_nat_unat)
qed

text \<open>Loss above five percent, or a round trip above 300 ms, never raises the estimate.\<close>

lemma congestion_lowers:
  assumes "cb_inv e" "bwe_onReceiverReport f r e = Some e'" "of_nat (unat f) / 256 > loss_005 \<or> r > 300"
  shows "cb_bitrateKbps e' \<le> cb_bitrateKbps e"
proof -
  obtain c where c: "adjusted_bitrate (of_nat (unat f) / 256) r (cb_bitrateKbps e) = Some c" "c \<le> cb_bitrateKbps e"
    using adjusted_congested [OF assms(3)] by blast
  then have "cb_bitrateKbps e' = clampBitrateLocked e c"
    using assms(2) by (auto simp: bwe_onReceiverReport_def simp del: of_nat_unat)
  also have "\<dots> \<le> clampBitrateLocked e (cb_bitrateKbps e)"
    using c(2) by (auto simp: clampBitrateLocked_def max_def min_def)
  also have "\<dots> = cb_bitrateKbps e" using assms(1) by (auto simp: cb_inv_def clampBitrateLocked_def)
  finally show ?thesis .
qed

end
