(* ===== verification/AudioSession.thy ===== *)
theory AudioSession
  imports ClientSecurity UdpPeerSocket JitterBuffer ClientRtcp ClientBandwidth
begin

text \<open>
  The audio call of the client (\<open>plasma-hawking/src/av/session/AudioCallSession.cpp\<close>): how it
  secures its transport, what it sends and what it does with the datagrams it receives. Every
  function runs to its end before another changes the state (the mutex, or the single thread
  that uses the data). An iteration of the receive loop and of the send loop is one function.

  The environment \<open>audio_env\<close> holds what the session calls: the socket, OpenSSL, libsrtp2, and the
  audio codec, capture processing and player, which wrap FFmpeg and the sound devices and are
  parameters here. The echo canceller's reference signal and log output are left out. Clock
  readings are arguments, in nanoseconds; a function that reads the clock several times takes the
  sequence of readings. Sample values are only moved.
\<close>

section \<open>Data\<close>

record AudioFrame =
  af_sampleRate :: int
  af_channels :: int
  af_pts :: int
  af_samples :: "rat list"

definition AudioFrame_new :: AudioFrame where
  "AudioFrame_new = \<lparr> af_sampleRate = 48000, af_channels = 1, af_pts = 0, af_samples = [] \<rparr>"

record EncodedAudioFrame =
  ef_sampleRate :: int
  ef_channels :: int
  ef_pts :: int
  ef_frameSamples :: int
  ef_payloadType :: u8
  ef_payload :: bytes

definition EncodedAudioFrame_new :: EncodedAudioFrame where
  "EncodedAudioFrame_new = \<lparr> ef_sampleRate = 48000, ef_channels = 1, ef_pts = 0, ef_frameSamples = 960,
     ef_payloadType = 111, ef_payload = [] \<rparr>"

record SenderReportLedger =
  lg_ssrc :: u32
  lg_compactNtp :: u32
  lg_observedAt :: int

definition SenderReportLedger_new :: SenderReportLedger where
  "SenderReportLedger_new = \<lparr> lg_ssrc = 0, lg_compactNtp = 0, lg_observedAt = 0 \<rparr>"

record AudioCallSessionConfig =
  cfg_localAddress :: string
  cfg_localPort :: u16
  cfg_peerAddress :: string
  cfg_peerPort :: u16
  cfg_sampleRate :: int
  cfg_channels :: int
  cfg_frameSamples :: int
  cfg_bitrate :: int
  cfg_jitterPackets :: nat
  cfg_allowSelfPlayback :: bool

record ('ssl, 's, 'd) AudioCallSession =
  as_config :: AudioCallSessionConfig
  as_sender :: RTPSender
  as_audioBwe :: ClientBwe
  as_jitter :: JitterBuffer
  as_decoder :: 'd
  as_playoutAssembler :: AudioFrame
  as_played :: "AudioFrame list"
  as_lastError :: string
  as_threads :: bool
  as_running :: bool
  as_captureMuted :: bool
  as_lastRttMs :: u32
  as_targetBitrateBps :: u32
  as_lastReceivedSequence :: u32
  as_receivedPacketCount :: u32
  as_sentPacketCount :: u32
  as_sentOctetCount :: u32
  as_dtlsStarted :: bool
  as_iceConnected :: bool
  as_dtlsConnected :: bool
  as_srtpReady :: bool
  as_mediaSocket :: UdpPeerSocket
  as_dtlsTransport :: "'ssl DtlsTransportClient"
  as_dtlsHandshakePackets :: "bytes list"
  as_lastDtlsHandshakeSendAt :: int
  as_inboundSrtp :: "'s SRTPContext"
  as_outboundSrtp :: "'s SRTPContext"
  as_localSenderReport :: SenderReportLedger
  as_remoteSenderReport :: SenderReportLedger

text \<open>\<open>as_played\<close> is what was given to the player, in order; \<open>as_threads\<close>: the worker threads exist.\<close>

record ('ssl, 's, 'd) audio_env =
  ae_qs :: qt_socket
  ae_rnd :: "nat \<Rightarrow> u32"
  ae_ssl :: "'ssl client_openssl"
  ae_srtp :: "'s libsrtp"
  ae_decode :: "EncodedAudioFrame \<Rightarrow> 'd \<Rightarrow> (string + AudioFrame) \<times> 'd"
  ae_enqueueFrame :: "AudioFrame \<Rightarrow> bool"
  ae_playerFrameSamples :: int

definition AudioCallSession_new ::
  "AudioCallSessionConfig \<Rightarrow> int \<Rightarrow> 'd \<Rightarrow> ('ssl, 's, 'd) AudioCallSession" where
  "AudioCallSession_new config now decoder =
     \<lparr> as_config = config\<lparr>cfg_frameSamples := (if cfg_frameSamples config \<le> 0 then 960 else cfg_frameSamples config),
         cfg_channels := (if cfg_channels config \<noteq> 1 \<and> cfg_channels config \<noteq> 2 then 1 else cfg_channels config)\<rparr>,
       as_sender = \<lparr> snd_ssrc = 0, snd_sequence = 0 \<rparr>, as_audioBwe = ClientBwe_new 16 64 32 500 now,
       as_jitter = JitterBuffer_new (if cfg_jitterPackets config = 0 then 32 else cfg_jitterPackets config) 3 20,
       as_decoder = decoder, as_playoutAssembler = AudioFrame_new, as_played = [], as_lastError = [],
       as_threads = False, as_running = False, as_captureMuted = False, as_lastRttMs = 0,
       as_targetBitrateBps = 32000, as_lastReceivedSequence = 0, as_receivedPacketCount = 0,
       as_sentPacketCount = 0, as_sentOctetCount = 0, as_dtlsStarted = False, as_iceConnected = False,
       as_dtlsConnected = False, as_srtpReady = False, as_mediaSocket = UdpPeerSocket_new,
       as_dtlsTransport = DtlsTransportClient_new, as_dtlsHandshakePackets = [],
       as_lastDtlsHandshakeSendAt = 0, as_inboundSrtp = SRTPContext_new, as_outboundSrtp = SRTPContext_new,
       as_localSenderReport = SenderReportLedger_new, as_remoteSenderReport = SenderReportLedger_new \<rparr>"

section \<open>Classifying datagrams\<close>

definition looksLikeStunPacket :: "bytes \<Rightarrow> bool mem" where
  "looksLikeStunPacket data =
     (if length data < 20 then Some False
      else do {
        b0 \<leftarrow> byte_at data 0;
        if b0 AND 0xC0 \<noteq> 0 then Some False
        else do {
          b4 \<leftarrow> byte_at data 4; b5 \<leftarrow> byte_at data 5; b6 \<leftarrow> byte_at data 6; b7 \<leftarrow> byte_at data 7;
          Some (b4 = 0x21 \<and> b5 = 0x12 \<and> b6 = 0xA4 \<and> b7 = 0x42) } })"

definition looksLikeRtcpPacket :: "bytes \<Rightarrow> bool mem" where
  "looksLikeRtcpPacket data =
     (if length data < 4 then Some False
      else do {
        b0 \<leftarrow> byte_at data 0;
        if drop_bit 6 b0 AND 0x03 \<noteq> 2 then Some False
        else do {
          packetType \<leftarrow> byte_at data 1;
          Some (packetType \<ge> 192 \<and> packetType \<le> 223) } })"

section \<open>Time stamps\<close>

definition currentNtpTimestamp :: "u64 \<Rightarrow> u64 \<Rightarrow> u64" where
  "currentNtpTimestamp seconds nanoseconds =
     (let ntpSeconds = 2208988800 + seconds;
          ntpFraction = push_bit 32 nanoseconds div 1000000000
      in push_bit 32 ntpSeconds OR ntpFraction)"

definition compactNtpFromTimestamp :: "u64 \<Rightarrow> u32" where
  "compactNtpFromTimestamp ntpTimestamp = ucast (drop_bit 16 ntpTimestamp AND 0xFFFFFFFF)"

definition compactNtpFromElapsed :: "int \<Rightarrow> u32" where
  "compactNtpFromElapsed elapsed =
     (let micros = elapsed div 1000
      in if micros \<le> 0 then 0 else ucast ((word_of_int micros :: u64) * 65536 div 1000000))"

definition compactNtpToMs :: "u32 \<Rightarrow> u32" where
  "compactNtpToMs compactNtp =
     (if compactNtp = 0 then 0 else ucast (((ucast compactNtp :: u64) * 1000 + 65535) div 65536))"

section \<open>Starting and stopping\<close>

text \<open>What starting meets: the results of the parts it configures and starts, and a random number.\<close>

record start_results =
  sr_encoder :: bool
  sr_decoderPlayer :: bool
  sr_aec :: bool
  sr_ns :: bool
  sr_agc :: bool
  sr_capture :: bool
  sr_player :: bool
  sr_threads :: bool
  sr_random :: u32
  sr_now :: int

definition openSocketLocked ::
  "('ssl, 's, 'd) audio_env \<Rightarrow> ('ssl, 's, 'd) AudioCallSession \<Rightarrow> bool \<times> ('ssl, 's, 'd) AudioCallSession" where
  "openSocketLocked env s =
     (case socket_open (ae_qs env) (cfg_localAddress (as_config s)) (cfg_localPort (as_config s)) (as_mediaSocket s) of
        (Some socketError, sock) \<Rightarrow>
          (False, s\<lparr>as_mediaSocket := socket_close sock,
                    as_lastError := (if socketError = [] then ''socket setup failed'' else socketError)\<rparr>)
      | (None, sock) \<Rightarrow>
          let (_, sock1) = socket_setPeer (ae_qs env) (cfg_peerAddress (as_config s)) (cfg_peerPort (as_config s)) sock
          in (True, s\<lparr>as_mediaSocket := setReadTimeoutMs 50 sock1\<rparr>))"

text \<open>The assignments of \<open>start\<close> between the configuration of the audio chain and its start.\<close>

definition reset_call ::
  "start_results \<Rightarrow> ('ssl, 's, 'd) AudioCallSession \<Rightarrow> ('ssl, 's, 'd) AudioCallSession" where
  "reset_call r s =
     s\<lparr>as_playoutAssembler := AudioFrame_new, as_jitter := JitterBuffer_clear (as_jitter s),
       as_sender := setSSRC (sr_random r) (setSequence 0 (as_sender s)), as_lastRttMs := 0,
       as_targetBitrateBps := word_of_int (cfg_bitrate (as_config s)), as_lastReceivedSequence := 0,
       as_receivedPacketCount := 0, as_sentPacketCount := 0, as_sentOctetCount := 0,
       as_dtlsStarted := False, as_iceConnected := False, as_dtlsConnected := False, as_srtpReady := False,
       as_inboundSrtp := SRTPContext_clear (as_inboundSrtp s),
       as_outboundSrtp := SRTPContext_clear (as_outboundSrtp s), as_dtlsHandshakePackets := [],
       as_lastDtlsHandshakeSendAt := 0, as_audioBwe := bwe_reset (sr_now r) (as_audioBwe s),
       as_localSenderReport := SenderReportLedger_new, as_remoteSenderReport := SenderReportLedger_new\<rparr>"

definition AudioCallSession_start ::
  "('ssl, 's, 'd) audio_env \<Rightarrow> start_results \<Rightarrow> ('ssl, 's, 'd) AudioCallSession \<Rightarrow>
   bool \<times> ('ssl, 's, 'd) AudioCallSession" where
  "AudioCallSession_start env r s =
     (if as_running s \<or> as_threads s then (False, s)
      else if \<not> sr_encoder r then (False, s\<lparr>as_lastError := ''encoder configure failed''\<rparr>)
      else
        let captureFrameSamples = (if cfg_frameSamples (as_config s) > 0 then cfg_frameSamples (as_config s) else 960);
            s1 = s\<lparr>as_config := (as_config s)\<lparr>cfg_frameSamples := captureFrameSamples\<rparr>\<rparr>
        in if \<not> sr_decoderPlayer r then (False, s1\<lparr>as_lastError := ''decoder/player configure failed''\<rparr>)
           else if \<not> sr_aec r then (False, s1\<lparr>as_lastError := ''aec configure failed''\<rparr>)
           else if \<not> sr_ns r then (False, s1\<lparr>as_lastError := ''ns configure failed''\<rparr>)
           else if \<not> sr_agc r then (False, s1\<lparr>as_lastError := ''agc configure failed''\<rparr>)
           else
             let s2 = reset_call r s1
             in if \<not> sr_capture r then (False, s2\<lparr>as_lastError := ''audio capture start failed''\<rparr>)
                else if \<not> sr_player r then (False, s2\<lparr>as_lastError := ''audio player start failed''\<rparr>)
                else
                  let (opened, s3) = openSocketLocked env (s2\<lparr>as_lastError := []\<rparr>)
                  in if \<not> opened then (False, s3)
                     else if \<not> sr_threads r
                     then (False, s3\<lparr>as_running := False, as_lastError := ''audio worker thread alloc failed'',
                                     as_mediaSocket := socket_close (as_mediaSocket s3)\<rparr>)
                     else (True, s3\<lparr>as_running := True, as_threads := True\<rparr>))"

definition AudioCallSession_stop :: "('ssl, 's, 'd) AudioCallSession \<Rightarrow> ('ssl, 's, 'd) AudioCallSession" where
  "AudioCallSession_stop s =
     (if \<not> as_running s \<and> \<not> as_threads s then s
      else s\<lparr>as_running := False, as_threads := False,
             as_mediaSocket := socket_close (interruptWaiters (as_mediaSocket s))\<rparr>)"

section \<open>The secure transport\<close>

definition setErrorLocked :: "string \<Rightarrow> ('ssl, 's, 'd) AudioCallSession \<Rightarrow> ('ssl, 's, 'd) AudioCallSession" where
  "setErrorLocked message s = s\<lparr>as_lastError := message\<rparr>"

definition session_send ::
  "('ssl, 's, 'd) audio_env \<Rightarrow> bytes \<Rightarrow> UdpEndpoint \<Rightarrow> ('ssl, 's, 'd) AudioCallSession \<Rightarrow>
   int \<times> ('ssl, 's, 'd) AudioCallSession" where
  "session_send env data target s =
     (let (sent, sock) = sendTo (ae_qs env) (ae_rnd env) data target (as_mediaSocket s)
      in (sent, s\<lparr>as_mediaSocket := sock\<rparr>))"

definition AudioCallSession_setPeer ::
  "('ssl, 's, 'd) audio_env \<Rightarrow> string \<Rightarrow> u16 \<Rightarrow> ('ssl, 's, 'd) AudioCallSession \<Rightarrow> ('ssl, 's, 'd) AudioCallSession" where
  "AudioCallSession_setPeer env address port s =
     (let sock = disableTurnRelay (as_mediaSocket s)
      in s\<lparr>as_config := (as_config s)\<lparr>cfg_peerAddress := address, cfg_peerPort := port\<rparr>,
           as_mediaSocket := (if us_socket sock then snd (socket_setPeer (ae_qs env) address port sock) else sock)\<rparr>)"

definition AudioCallSession_configureTurnRelay ::
  "('ssl, 's, 'd) audio_env \<Rightarrow> qt_crypto \<Rightarrow> turn_round list \<Rightarrow> turn_round \<Rightarrow> turn_round \<Rightarrow> string \<Rightarrow> u16 \<Rightarrow> string \<Rightarrow>
   string \<Rightarrow> string \<Rightarrow> u16 \<Rightarrow> ('ssl, 's, 'd) AudioCallSession \<Rightarrow> (bool \<times> ('ssl, 's, 'd) AudioCallSession) mem" where
  "AudioCallSession_configureTurnRelay env qc challenges auth permission turnAddress turnPort username credential
     peerAddress peerPort s =
     (if \<not> us_socket (as_mediaSocket s)
      then Some (False, setErrorLocked ''audio TURN relay skipped: socket not open'' s)
      else do {
        (error, sock) \<leftarrow> configureTurnRelay (ae_qs env) qc challenges auth permission turnAddress turnPort username
          credential peerAddress peerPort (as_mediaSocket s);
        let s1 = s\<lparr>as_config := (as_config s)\<lparr>cfg_peerAddress := peerAddress, cfg_peerPort := peerPort\<rparr>,
                   as_mediaSocket := sock\<rparr>;
        Some (case error of
                Some e \<Rightarrow> (False, setErrorLocked (if e = [] then ''audio TURN relay configure failed'' else e) s1)
              | None \<Rightarrow> (True, s1)) })"

definition setAudioSsrc :: "u32 \<Rightarrow> ('ssl, 's, 'd) AudioCallSession \<Rightarrow> ('ssl, 's, 'd) AudioCallSession" where
  "setAudioSsrc ssrc s = (if ssrc = 0 then s else s\<lparr>as_sender := setSSRC ssrc (as_sender s)\<rparr>)"

definition prepareDtlsFingerprint ::
  "('ssl, 's, 'd) audio_env \<Rightarrow> ('ssl, 's, 'd) AudioCallSession \<Rightarrow> string \<times> ('ssl, 's, 'd) AudioCallSession" where
  "prepareDtlsFingerprint env s =
     (let (ok, c) = prepareLocalFingerprint (ae_ssl env) (as_dtlsTransport s);
          s1 = s\<lparr>as_dtlsTransport := c\<rparr>
      in if \<not> ok then ([], setErrorLocked (dc_lastError c) s1) else (dc_localFingerprint c, s1))"

text \<open>\<open>QString::trimmed\<close> for Latin-1 text.\<close>

definition QChar_isSpace :: "char \<Rightarrow> bool" where
  "QChar_isSpace ch \<longleftrightarrow> (let n = (of_char ch :: nat) in 9 \<le> n \<and> n \<le> 13 \<or> n = 32 \<or> n = 0x85 \<or> n = 0xA0)"

definition QString_trimmed :: "string \<Rightarrow> string" where
  "QString_trimmed t = rev (dropWhile QChar_isSpace (rev (dropWhile QChar_isSpace t)))"

fun send_packets ::
  "('ssl, 's, 'd) audio_env \<Rightarrow> string \<Rightarrow> bytes list \<Rightarrow> UdpEndpoint \<Rightarrow> ('ssl, 's, 'd) AudioCallSession \<Rightarrow>
   bool \<times> ('ssl, 's, 'd) AudioCallSession" where
  "send_packets env error [] target s = (True, s)"
| "send_packets env error (packet # packets) target s =
     (let (sent, s1) = session_send env packet target s
      in if sent \<noteq> int (length packet) then (False, setErrorLocked error s1)
         else send_packets env error packets target s1)"

definition sendCachedDtlsHandshakeLocked ::
  "('ssl, 's, 'd) audio_env \<Rightarrow> int \<Rightarrow> UdpEndpoint \<Rightarrow> ('ssl, 's, 'd) AudioCallSession \<Rightarrow>
   bool \<times> ('ssl, 's, 'd) AudioCallSession" where
  "sendCachedDtlsHandshakeLocked env now peer s =
     (if as_srtpReady s \<or> \<not> UdpEndpoint_isValid peer \<or> as_dtlsHandshakePackets s = [] then (True, s)
      else if as_lastDtlsHandshakeSendAt s \<noteq> 0 \<and> now - as_lastDtlsHandshakeSendAt s < 100 * 1000000 then (True, s)
      else
        let (ok, s1) = send_packets env ''DTLS handshake send failed'' (as_dtlsHandshakePackets s) peer s
        in if \<not> ok then (False, s1) else (True, s1\<lparr>as_lastDtlsHandshakeSendAt := now\<rparr>))"

definition startDtlsSrtp ::
  "('ssl, 's, 'd) audio_env \<Rightarrow> int \<Rightarrow> string \<Rightarrow> ('ssl, 's, 'd) AudioCallSession \<Rightarrow>
   bool \<times> ('ssl, 's, 'd) AudioCallSession" where
  "startDtlsSrtp env now serverFingerprint s =
     (if QString_trimmed serverFingerprint = [] \<or> \<not> us_socket (as_mediaSocket s) \<or> \<not> us_peerValid (as_mediaSocket s)
      then (False, s)
      else if dc_connected (as_dtlsTransport s) \<and> as_srtpReady s then (True, s)
      else
        let (ok, outgoing, c) = DtlsTransportClient_start (ae_ssl env) serverFingerprint True (as_dtlsTransport s);
            s1 = s\<lparr>as_dtlsTransport := c\<rparr>
        in if \<not> ok then (False, setErrorLocked (dc_lastError c) s1)
           else
             let s2 = (if outgoing \<noteq> [] \<or> \<not> as_dtlsStarted s1 then s1\<lparr>as_dtlsHandshakePackets := outgoing\<rparr> else s1)
             in sendCachedDtlsHandshakeLocked env now (us_peer (as_mediaSocket s2)) (s2\<lparr>as_dtlsStarted := True\<rparr>))"

definition sendTransportProbe ::
  "('ssl, 's, 'd) audio_env \<Rightarrow> bytes \<Rightarrow> ('ssl, 's, 'd) AudioCallSession \<Rightarrow> bool \<times> ('ssl, 's, 'd) AudioCallSession" where
  "sendTransportProbe env packet s =
     (if packet = [] then (False, s)
      else if \<not> us_socket (as_mediaSocket s) \<or> \<not> us_peerValid (as_mediaSocket s) then (False, s)
      else
        let (sent, s1) = session_send env packet (us_peer (as_mediaSocket s)) s
        in (sent = int (length packet), s1))"

definition configureSrtpLocked ::
  "('ssl, 's, 'd) audio_env \<Rightarrow> ('ssl, 's, 'd) AudioCallSession \<Rightarrow> bool \<times> ('ssl, 's, 'd) AudioCallSession" where
  "configureSrtpLocked env s =
     (if as_srtpReady s then (True, s)
      else if \<not> dc_connected (as_dtlsTransport s) then (False, s)
      else case exportSrtpKeyMaterial (ae_ssl env) (masterKeyLength (ae_srtp env)) (masterSaltLength (ae_srtp env))
                  (as_dtlsTransport s) of
        None \<Rightarrow> (False, setErrorLocked ''DTLS SRTP exporter failed'' s)
      | Some keying \<Rightarrow>
          let (okIn, inb) = SRTPContext_configure (ae_srtp env) (remoteKey keying) (remoteSalt keying) Inbound 0
                (as_inboundSrtp s);
              (okOut, outb) = (if okIn
                then SRTPContext_configure (ae_srtp env) (localKey keying) (localSalt keying) Outbound 0 (as_outboundSrtp s)
                else (False, as_outboundSrtp s));
              s1 = s\<lparr>as_inboundSrtp := inb, as_outboundSrtp := outb\<rparr>
          in if \<not> okIn \<or> \<not> okOut
             then (False, setErrorLocked (if sc_lastError inb \<noteq> [] then sc_lastError inb else sc_lastError outb) s1)
             else (True, s1\<lparr>as_dtlsConnected := True, as_srtpReady := True\<rparr>))"

definition handleDtlsPacketLocked ::
  "('ssl, 's, 'd) audio_env \<Rightarrow> bytes \<Rightarrow> UdpEndpoint \<Rightarrow> ('ssl, 's, 'd) AudioCallSession \<Rightarrow>
   bool \<times> ('ssl, 's, 'd) AudioCallSession" where
  "handleDtlsPacketLocked env data sender s =
     (if data = [] \<or> \<not> acceptSender sender (as_mediaSocket s) then (False, s)
      else
        let (ok, outgoing, c) = handleIncomingDatagram (ae_ssl env) data True (as_dtlsTransport s);
            s1 = s\<lparr>as_dtlsTransport := c\<rparr>
        in if \<not> ok then (False, setErrorLocked (dc_lastError c) s1)
           else
             let (sent, s2) = send_packets env ''DTLS response send failed'' outgoing sender s1
             in if \<not> sent then (False, s2) else configureSrtpLocked env s2)"

text \<open>
  The four packet functions. Before DTLS was started they leave the packet as it is; the result
  is the packet, or \<open>None\<close> for \<open>false\<close>.
\<close>

definition protectRtpLocked ::
  "('ssl, 's, 'd) audio_env \<Rightarrow> bytes \<Rightarrow> ('ssl, 's, 'd) AudioCallSession \<Rightarrow> bytes option \<times> ('ssl, 's, 'd) AudioCallSession" where
  "protectRtpLocked env packet s =
     (if \<not> as_dtlsStarted s then (Some packet, s)
      else if \<not> as_srtpReady s then (None, s)
      else
        let (ok, bytes, c) = protectRtp (ae_srtp env) packet (as_outboundSrtp s); s1 = s\<lparr>as_outboundSrtp := c\<rparr>
        in if \<not> ok then (None, setErrorLocked (sc_lastError c) s1) else (Some bytes, s1))"

definition protectRtcpLocked ::
  "('ssl, 's, 'd) audio_env \<Rightarrow> bytes \<Rightarrow> ('ssl, 's, 'd) AudioCallSession \<Rightarrow> bytes option \<times> ('ssl, 's, 'd) AudioCallSession" where
  "protectRtcpLocked env packet s =
     (if \<not> as_dtlsStarted s then (Some packet, s)
      else if \<not> as_srtpReady s then (None, s)
      else
        let (ok, bytes, c) = protectRtcp (ae_srtp env) packet (as_outboundSrtp s); s1 = s\<lparr>as_outboundSrtp := c\<rparr>
        in if \<not> ok then (None, setErrorLocked (sc_lastError c) s1) else (Some bytes, s1))"

definition unprotectRtpLocked ::
  "('ssl, 's, 'd) audio_env \<Rightarrow> bytes \<Rightarrow> ('ssl, 's, 'd) AudioCallSession \<Rightarrow> bytes option \<times> ('ssl, 's, 'd) AudioCallSession" where
  "unprotectRtpLocked env packet s =
     (if \<not> as_dtlsStarted s then (Some packet, s)
      else if \<not> as_srtpReady s then (None, s)
      else
        let (ok, bytes, c) = unprotectRtp (ae_srtp env) packet (as_inboundSrtp s); s1 = s\<lparr>as_inboundSrtp := c\<rparr>
        in if \<not> ok then (None, setErrorLocked (sc_lastError c) s1) else (Some bytes, s1))"

definition unprotectRtcpLocked ::
  "('ssl, 's, 'd) audio_env \<Rightarrow> bytes \<Rightarrow> ('ssl, 's, 'd) AudioCallSession \<Rightarrow> bytes option \<times> ('ssl, 's, 'd) AudioCallSession" where
  "unprotectRtcpLocked env packet s =
     (if \<not> as_dtlsStarted s then (Some packet, s)
      else if \<not> as_srtpReady s then (None, s)
      else
        let (ok, bytes, c) = unprotectRtcp (ae_srtp env) packet (as_inboundSrtp s); s1 = s\<lparr>as_inboundSrtp := c\<rparr>
        in if \<not> ok then (None, setErrorLocked (sc_lastError c) s1) else (Some bytes, s1))"

section \<open>Invariants of the transport\<close>

text \<open>
  The DTLS client of a session that was told the fingerprint \<open>fp\<close>: its handshake is for that
  fingerprint, and the media keys are in place only when the server's certificate was checked.
\<close>

definition secure_inv ::
  "('ssl, 's, 'd) audio_env \<Rightarrow> string \<Rightarrow> ('ssl, 's, 'd) AudioCallSession \<Rightarrow> bool" where
  "secure_inv env fp s \<longleftrightarrow>
     (let api = ssl_api (ae_ssl env); d = dtls_view (as_dtlsTransport s) in
      dtls_inv api d \<and> (\<not> dtls_started d \<longrightarrow> dtls_ssl d = None) \<and>
      (dtls_ssl d = None \<or> dtls_expectedPeerFingerprint d = NormalizeFingerprint fp) \<and>
      (as_srtpReady s \<longrightarrow> dtls_checked api d \<and>
         SRTPContext_configured (as_inboundSrtp s) \<and> SRTPContext_configured (as_outboundSrtp s)))"

definition rate_inv :: "('ssl, 's, 'd) AudioCallSession \<Rightarrow> bool" where
  "rate_inv s \<longleftrightarrow> cb_inv (as_audioBwe s) \<and> cb_minBitrateKbps (as_audioBwe s) = 16 \<and>
     cb_maxBitrateKbps (as_audioBwe s) = 64 \<and>
     (as_targetBitrateBps s = word_of_int (cfg_bitrate (as_config s)) \<or> as_targetBitrateBps s = 32000 \<or>
      16000 \<le> as_targetBitrateBps s \<and> as_targetBitrateBps s \<le> 64000)"

definition audio_inv ::
  "('ssl, 's, 'd) audio_env \<Rightarrow> string \<Rightarrow> ('ssl, 's, 'd) AudioCallSession \<Rightarrow> bool" where
  "audio_inv env fp s \<longleftrightarrow> secure_inv env fp s \<and> rate_inv s \<and> jitter_inv (as_jitter s) \<and> us_inv (as_mediaSocket s)"

text \<open>The parts of the state the invariant reads.\<close>

definition inv_part where
  "inv_part s = (dtls_view (as_dtlsTransport s), as_srtpReady s, SRTPContext_configured (as_inboundSrtp s),
     SRTPContext_configured (as_outboundSrtp s), as_audioBwe s, as_targetBitrateBps s, cfg_bitrate (as_config s),
     as_jitter s)"

lemma audio_inv_part:
  "inv_part s' = inv_part s \<Longrightarrow> us_inv (as_mediaSocket s') = us_inv (as_mediaSocket s) \<Longrightarrow>
     audio_inv env fp s' = audio_inv env fp s"
  unfolding audio_inv_def secure_inv_def rate_inv_def inv_part_def Let_def by simp

lemma audio_inv_socket:
  "audio_inv env fp s \<Longrightarrow> inv_part s' = inv_part s \<Longrightarrow> us_inv (as_mediaSocket s') \<Longrightarrow> audio_inv env fp s'"
  using audio_inv_part [of s' s] by (simp add: audio_inv_def)

lemma audio_inv_sock: "audio_inv env fp s \<Longrightarrow> us_inv (as_mediaSocket s)"
  by (simp add: audio_inv_def)

lemma context_keys:
  "SRTPContext_configured (snd (snd (context_protect lib native opn e p c))) = SRTPContext_configured c"
  "SRTPContext_configured (snd (snd (context_unprotect lib native opn e p c))) = SRTPContext_configured c"
  by (auto simp: context_protect_def context_unprotect_def SRTPContext_configured_def Let_def
      split: option.split prod.split)

lemma configure_keys:
  "SRTPContext_configure lib k n dir ssrc c = (True, c') \<Longrightarrow> SRTPContext_configured c'"
  by (auto simp: SRTPContext_configure_def SRTPContext_configured_def Let_def
      split: if_splits option.splits prod.splits)

lemma setErrorLocked_simps [simp]:
  "inv_part (setErrorLocked m s) = inv_part s" "as_mediaSocket (setErrorLocked m s) = as_mediaSocket s"
  "as_dtlsStarted (setErrorLocked m s) = as_dtlsStarted s" "as_srtpReady (setErrorLocked m s) = as_srtpReady s"
  "as_jitter (setErrorLocked m s) = as_jitter s" "as_config (setErrorLocked m s) = as_config s"
  by (simp_all add: setErrorLocked_def inv_part_def)

lemma session_send_keeps:
  assumes "session_send env d t s = (n, s')"
  shows "inv_part s' = inv_part s" "us_inv (as_mediaSocket s') = us_inv (as_mediaSocket s)"
    "as_dtlsStarted s' = as_dtlsStarted s" "as_config s' = as_config s"
  using assms
  by (auto simp: session_send_def inv_part_def same_routing_inv split: prod.splits dest!: sendTo_keeps)

lemma send_packets_keeps:
  "send_packets env err ps t s = (ok, s') \<Longrightarrow>
     inv_part s' = inv_part s \<and> us_inv (as_mediaSocket s') = us_inv (as_mediaSocket s) \<and>
     as_dtlsStarted s' = as_dtlsStarted s \<and> as_config s' = as_config s"
proof (induction env err ps t s rule: send_packets.induct)
  case (2 env err p ps t s)
  obtain n s1 where x: "session_send env p t s = (n, s1)" by fastforce
  show ?case
    using 2 session_send_keeps [OF x] x by (auto split: if_splits)
qed simp

lemma cached_keeps:
  assumes "sendCachedDtlsHandshakeLocked env now peer s = (ok, s')"
  shows "inv_part s' = inv_part s" "us_inv (as_mediaSocket s') = us_inv (as_mediaSocket s)"
    "as_dtlsStarted s' = as_dtlsStarted s" "as_config s' = as_config s"
  using assms
  by (auto simp: sendCachedDtlsHandshakeLocked_def Let_def inv_part_def split: if_splits prod.splits
      dest!: send_packets_keeps)

lemma client_start_props:
  assumes "DtlsTransportClient_start capi fp want c = (ok, out, c')" "\<not> dc_started c" "dc_ssl c = None"
    "dtls_inv (ssl_api capi) (dtls_view c)"
  shows "dtls_inv (ssl_api capi) (dtls_view c')" "\<not> dc_started c' \<longrightarrow> dc_ssl c' = None"
    "dc_ssl c' = None \<or> dc_expectedServerFingerprint c' = NormalizeFingerprint fp"
    "\<not> dc_connected c \<longrightarrow> \<not> dc_connected c'"
proof -
  obtain ok1 out1 d where st: "DtlsTransport_Start (ssl_api capi) (client_context_ready capi c) fp want (dtls_view c) =
      (ok1, out1, d)" by (metis prod_cases3)
  have v: "dtls_view c' = erase_error d"
    using start_view [OF assms(2), of capi fp want] st assms(1) by auto
  have nc: "\<not> dc_connected c" using assms(3,4) by (auto simp: dtls_inv_def)
  then have "\<not> dtls_connected d" using Start_props [OF st] by simp
  then show "dtls_inv (ssl_api capi) (dtls_view c')" "\<not> dc_connected c \<longrightarrow> \<not> dc_connected c'"
    using v dtls_view_sel(4) [of c'] by (auto simp: dtls_inv_def)
  show "dc_ssl c' = None \<or> dc_expectedServerFingerprint c' = NormalizeFingerprint fp"
    using Start_expected [OF st] assms(2,3) v dtls_view_sel(2,5) [of c'] by auto
  show "\<not> dc_started c' \<longrightarrow> dc_ssl c' = None"
    using assms(1-3)
    by (auto simp: DtlsTransportClient_start_def Let_def client_drain_def ensureLocalIdentity_def
        split: if_splits option.splits prod.splits bool.splits)
qed

lemmas packet_functions = protectRtpLocked_def protectRtcpLocked_def unprotectRtpLocked_def unprotectRtcpLocked_def

lemma packet_call_keys:
  "SRTPContext_configured (snd (snd (protectRtp lib p c))) = SRTPContext_configured c"
  "SRTPContext_configured (snd (snd (protectRtcp lib p c))) = SRTPContext_configured c"
  "SRTPContext_configured (snd (snd (unprotectRtp lib p c))) = SRTPContext_configured c"
  "SRTPContext_configured (snd (snd (unprotectRtcp lib p c))) = SRTPContext_configured c"
  by (simp_all add: protectRtp_def protectRtcp_def unprotectRtp_def unprotectRtcp_def context_keys)

lemma packet_keeps:
  assumes "f \<in> {protectRtpLocked, protectRtcpLocked, unprotectRtpLocked, unprotectRtcpLocked}"
    and "f env p s = (r, s')"
  shows "inv_part s' = inv_part s" "as_mediaSocket s' = as_mediaSocket s" "as_dtlsStarted s' = as_dtlsStarted s"
    "as_config s' = as_config s" "as_sender s' = as_sender s" "as_jitter s' = as_jitter s"
    "as_receivedPacketCount s' = as_receivedPacketCount s"
proof -
  have "inv_part s' = inv_part s \<and> as_mediaSocket s' = as_mediaSocket s \<and> as_dtlsStarted s' = as_dtlsStarted s \<and>
    as_config s' = as_config s \<and> as_sender s' = as_sender s \<and> as_jitter s' = as_jitter s \<and>
    as_receivedPacketCount s' = as_receivedPacketCount s"
    using assms
    by (auto simp: packet_functions inv_part_def setErrorLocked_def Let_def case_prod_beta packet_call_keys split: if_splits)
  then show "inv_part s' = inv_part s" "as_mediaSocket s' = as_mediaSocket s" "as_dtlsStarted s' = as_dtlsStarted s"
    "as_config s' = as_config s" "as_sender s' = as_sender s" "as_jitter s' = as_jitter s"
    "as_receivedPacketCount s' = as_receivedPacketCount s" by auto
qed

section \<open>Each operation keeps the invariant\<close>

lemma secure_inv_upd:
  assumes "as_dtlsTransport s' = as_dtlsTransport s" "as_srtpReady s' \<longrightarrow> as_srtpReady s \<and>
      SRTPContext_configured (as_inboundSrtp s') \<and> SRTPContext_configured (as_outboundSrtp s')"
    "secure_inv env fp s"
  shows "secure_inv env fp s'"
  using assms by (auto simp: secure_inv_def Let_def)

lemma audio_inv_new: "audio_inv env fp (AudioCallSession_new config now d)"
proof -
  have "cb_inv (ClientBwe_new 16 64 32 500 now)" by (rule cb_inv_new)
  then show ?thesis
    by (simp add: audio_inv_def secure_inv_def rate_inv_def AudioCallSession_new_def DtlsTransportClient_new_def
        dtls_inv_def jitter_inv_new us_inv_new) (simp add: ClientBwe_new_def Let_def)
qed

lemma openSocket_inv:
  assumes "openSocketLocked env s = (r, s')" "audio_inv env fp s"
  shows "audio_inv env fp s'"
proof -
  obtain r1 k where o: "socket_open (ae_qs env) (cfg_localAddress (as_config s)) (cfg_localPort (as_config s))
      (as_mediaSocket s) = (r1, k)" by fastforce
  have k: "us_inv k" using us_inv_open [OF o] audio_inv_sock [OF assms(2)] .
  obtain r2 k2 where q: "socket_setPeer (ae_qs env) (cfg_peerAddress (as_config s)) (cfg_peerPort (as_config s)) k = (r2, k2)"
    by fastforce
  have k2: "us_inv k2" using us_inv_step [OF socket_step.peer [OF q] k] .
  have "us_inv (setReadTimeoutMs 50 k2)" "us_inv (socket_close k)"
    using us_inv_step [OF socket_step.timeout k2] us_inv_close [OF k] by auto
  moreover have "as_mediaSocket s' = setReadTimeoutMs 50 k2 \<or> as_mediaSocket s' = socket_close k"
    "inv_part s' = inv_part s"
    using assms(1) o q by (cases r1; simp add: openSocketLocked_def inv_part_def; fastforce)+
  ultimately show ?thesis using assms(2) audio_inv_socket by metis
qed

lemma jitter_inv_clear: "jitter_inv j \<Longrightarrow> jitter_inv (JitterBuffer_clear j)"
  by (simp add: jitter_inv_def JitterBuffer_clear_def)

lemma reset_call_inv:
  assumes "audio_inv env fp s"
  shows "audio_inv env fp (reset_call r s)"
  using assms reset_keeps [of "as_audioBwe s" "sr_now r"]
  by (auto simp: audio_inv_def reset_call_def secure_inv_def rate_inv_def Let_def jitter_inv_clear same_range_def)

lemma audio_start_inv:
  assumes "AudioCallSession_start env r s = (ok, s')" "audio_inv env fp s"
  shows "audio_inv env fp s'"
proof -
  define s1 where "s1 = s\<lparr>as_config := (as_config s)\<lparr>cfg_frameSamples :=
    (if cfg_frameSamples (as_config s) > 0 then cfg_frameSamples (as_config s) else 960)\<rparr>\<rparr>"
  have err: "audio_inv env fp (t\<lparr>as_lastError := m\<rparr>) = audio_inv env fp t" for t m
    by (rule audio_inv_part) (simp_all add: inv_part_def)
  have s1: "audio_inv env fp s1"
    using assms(2) audio_inv_part [of s1 s] by (simp add: s1_def inv_part_def)
  define s2 where "s2 = reset_call r s1"
  have s2: "audio_inv env fp s2" unfolding s2_def using s1 by (rule reset_call_inv)
  obtain op s3 where o: "openSocketLocked env (s2\<lparr>as_lastError := []\<rparr>) = (op, s3)" by fastforce
  have s3: "audio_inv env fp s3" using openSocket_inv [OF o] s2 err by simp
  have "audio_inv env fp (s3\<lparr>as_running := False, as_lastError := m, as_mediaSocket := socket_close (as_mediaSocket s3)\<rparr>)"
    "audio_inv env fp (s3\<lparr>as_running := True, as_threads := True\<rparr>)" for m
    using s3 us_inv_close by (auto simp: audio_inv_def secure_inv_def rate_inv_def)
  then show ?thesis
    using assms s1 s2 s3 o err
    unfolding AudioCallSession_start_def Let_def s1_def [symmetric] s2_def [symmetric]
    by (auto split: if_splits prod.splits)
qed

lemma audio_stop_inv: "audio_inv env fp s \<Longrightarrow> audio_inv env fp (AudioCallSession_stop s)"
  using us_inv_close [of "interruptWaiters (as_mediaSocket s)"]
  by (auto simp: AudioCallSession_stop_def audio_inv_def secure_inv_def rate_inv_def us_inv_def interruptWaiters_def)

lemma audio_setPeer_inv:
  assumes "audio_inv env fp s"
  shows "audio_inv env fp (AudioCallSession_setPeer env a p s)"
proof -
  have "us_inv (disableTurnRelay (as_mediaSocket s))"
    using assms us_inv_step [OF socket_step.relay_off] by (auto simp: audio_inv_def)
  then have "us_inv (as_mediaSocket (AudioCallSession_setPeer env a p s))"
    using us_inv_step [OF socket_step.peer [OF surjective_pairing]]
    by (auto simp: AudioCallSession_setPeer_def Let_def)
  moreover have "inv_part (AudioCallSession_setPeer env a p s) = inv_part s"
    by (simp add: AudioCallSession_setPeer_def inv_part_def Let_def)
  ultimately show ?thesis
    using assms audio_inv_part [of "AudioCallSession_setPeer env a p s" s] by (auto simp: audio_inv_def)
qed

lemma audio_relay_inv:
  assumes "AudioCallSession_configureTurnRelay env qc cs a p ta tp u c pa pp s = Some (ok, s')" "audio_inv env fp s"
  shows "audio_inv env fp s'"
proof (cases "us_socket (as_mediaSocket s)")
  case False
  then show ?thesis using assms audio_inv_part [of s' s] by (simp add: AudioCallSession_configureTurnRelay_def) auto
next
  case True
  then obtain e k where k: "configureTurnRelay (ae_qs env) qc cs a p ta tp u c pa pp (as_mediaSocket s) = Some (e, k)"
    using assms(1) by (auto simp: AudioCallSession_configureTurnRelay_def bind_eq_Some_conv)
  have inv: "us_inv k" using us_inv_step [OF socket_step.relay_on [OF k]] assms(2) by (simp add: audio_inv_def)
  have "inv_part s' = inv_part s" "as_mediaSocket s' = k"
    using assms(1) True k
    by (auto simp: AudioCallSession_configureTurnRelay_def inv_part_def setErrorLocked_def Let_def split: option.splits)
  then show ?thesis using assms(2) inv audio_inv_part [of s' s] by (auto simp: audio_inv_def)
qed

lemma audio_prepare_inv:
  assumes "prepareDtlsFingerprint env s = (f, s')" "audio_inv env fp s"
  shows "audio_inv env fp s'"
proof -
  obtain ok c where c: "prepareLocalFingerprint (ae_ssl env) (as_dtlsTransport s) = (ok, c)" by fastforce
  then have v: "dtls_view c = dtls_view (as_dtlsTransport s)"
    by (auto simp: prepareLocalFingerprint_def dest: ensureLocalIdentity_view)
  have "s' = s\<lparr>as_dtlsTransport := c\<rparr> \<or> s' = setErrorLocked (dc_lastError c) (s\<lparr>as_dtlsTransport := c\<rparr>)"
    using assms(1) c by (auto simp: prepareDtlsFingerprint_def Let_def split: if_splits)
  then have "inv_part s' = inv_part s" "as_mediaSocket s' = as_mediaSocket s"
    using v by (auto simp: inv_part_def setErrorLocked_def)
  then show ?thesis using assms(2) audio_inv_part by metis
qed

lemma audio_dtls_inv:
  assumes "startDtlsSrtp env now fp s = (ok, s')" "audio_inv env fp s"
  shows "audio_inv env fp s'"
proof (cases "QString_trimmed fp = [] \<or> \<not> us_socket (as_mediaSocket s) \<or> \<not> us_peerValid (as_mediaSocket s) \<or>
    dc_connected (as_dtlsTransport s) \<and> as_srtpReady s")
  case True
  then show ?thesis using assms by (auto simp: startDtlsSrtp_def split: if_splits)
next
  case False
  obtain ok1 out c where st: "DtlsTransportClient_start (ae_ssl env) fp True (as_dtlsTransport s) = (ok1, out, c)"
    by (metis prod_cases3)
  define s1 where "s1 = s\<lparr>as_dtlsTransport := c\<rparr>"
  have ready: "\<not> as_srtpReady s" using False assms(2) by (auto simp: audio_inv_def secure_inv_def Let_def dtls_checked_def)
  have "secure_inv env fp s1"
  proof (cases "dc_started (as_dtlsTransport s)")
    case True
    then have "c = as_dtlsTransport s" using st by (simp add: DtlsTransportClient_start_def Let_def)
    then show ?thesis using assms(2) by (simp add: audio_inv_def s1_def)
  next
    case False
    then show ?thesis
      using client_start_props [OF st] assms(2) ready
      by (auto simp: audio_inv_def secure_inv_def Let_def s1_def)
  qed
  then have s1: "audio_inv env fp s1" using assms(2) by (simp add: audio_inv_def s1_def rate_inv_def)
  define s2 where "s2 = (if out \<noteq> [] \<or> \<not> as_dtlsStarted s1 then s1\<lparr>as_dtlsHandshakePackets := out\<rparr> else s1)\<lparr>as_dtlsStarted := True\<rparr>"
  have s2: "audio_inv env fp s2"
    using s1 audio_inv_part [of s2 s1] by (auto simp: s2_def inv_part_def)
  obtain ok3 s3 where h: "sendCachedDtlsHandshakeLocked env now (us_peer (as_mediaSocket s2)) s2 = (ok3, s3)" by fastforce
  have "s' = (if \<not> ok1 then setErrorLocked (dc_lastError c) s1 else s3)"
    using assms(1) False st h unfolding startDtlsSrtp_def s2_def s1_def by (auto simp: Let_def split: if_splits)
  then show ?thesis
    using s1 s2 cached_keeps [OF h] audio_inv_part [of s3 s2] audio_inv_part [of s' s1] by auto
qed

lemma configureSrtp_inv:
  assumes "configureSrtpLocked env s = (ok, s')" "audio_inv env fp s"
    and "dc_connected (as_dtlsTransport s) \<longrightarrow> dtls_checked (ssl_api (ae_ssl env)) (dtls_view (as_dtlsTransport s))"
  shows "audio_inv env fp s'"
proof (cases "as_srtpReady s \<or> \<not> dc_connected (as_dtlsTransport s)")
  case True
  then have "s' = s" using assms(1) by (auto simp: configureSrtpLocked_def split: if_splits)
  then show ?thesis using assms(2) by simp
next
  case False
  have "audio_inv env fp s' \<longleftrightarrow> secure_inv env fp s'"
    using assms(1,2) False
    by (auto simp: configureSrtpLocked_def audio_inv_def rate_inv_def setErrorLocked_def Let_def
        split: if_splits option.splits prod.splits)
  moreover have "dtls_view (as_dtlsTransport s') = dtls_view (as_dtlsTransport s)"
    using assms(1) False
    by (auto simp: configureSrtpLocked_def setErrorLocked_def Let_def split: if_splits option.splits prod.splits)
  moreover have "as_srtpReady s' \<longrightarrow> SRTPContext_configured (as_inboundSrtp s') \<and> SRTPContext_configured (as_outboundSrtp s')"
    using assms(1) False configure_keys [of "ae_srtp env"]
    by (auto simp: configureSrtpLocked_def setErrorLocked_def Let_def split: if_splits option.splits prod.splits)
  ultimately show ?thesis
    using assms(2,3) False by (simp add: audio_inv_def secure_inv_def Let_def)
qed

lemma handleDtls_inv:
  assumes "handleDtlsPacketLocked env data sender s = (ok, s')" "audio_inv env fp s"
    and "handshake_stays_complete (ssl_api (ae_ssl env))" "peer_certificate_fixed (ssl_api (ae_ssl env))"
  shows "audio_inv env fp s'"
proof (cases "data = [] \<or> \<not> acceptSender sender (as_mediaSocket s)")
  case True
  then show ?thesis using assms(1,2) by (auto simp: handleDtlsPacketLocked_def split: if_splits)
next
  case False
  obtain ok1 out c where h: "handleIncomingDatagram (ae_ssl env) data True (as_dtlsTransport s) = (ok1, out, c)"
    by (metis prod_cases3)
  have inv: "dtls_inv (ssl_api (ae_ssl env)) (dtls_view (as_dtlsTransport s))"
    using assms(2) by (simp add: audio_inv_def secure_inv_def Let_def)
  note props = client_handle_props [OF h assms(3,4) inv]
  define s1 where "s1 = s\<lparr>as_dtlsTransport := c\<rparr>"
  have "dc_started c = dc_started (as_dtlsTransport s)"
    using h by (auto simp: handleIncomingDatagram_def check_server_def client_drain_def Let_def
        split: if_splits option.splits prod.splits bool.splits)
  then have "secure_inv env fp s1"
    using assms(2) props by (auto simp: audio_inv_def secure_inv_def Let_def s1_def)
  then have s1: "audio_inv env fp s1" using assms(2) by (simp add: audio_inv_def s1_def rate_inv_def)
  obtain sent s2 where p: "send_packets env ''DTLS response send failed'' out sender s1 = (sent, s2)" by fastforce
  note keeps = send_packets_keeps [OF p]
  have s2: "audio_inv env fp s2" using s1 keeps audio_inv_part by metis
  have v: "dtls_view (as_dtlsTransport s2) = dtls_view c" using keeps by (simp add: inv_part_def s1_def)
  have "s' = (if \<not> ok1 then setErrorLocked (dc_lastError c) s1 else if \<not> sent then s2 else snd (configureSrtpLocked env s2))"
    using assms(1) False h p by (auto simp: handleDtlsPacketLocked_def Let_def s1_def split: if_splits)
  moreover have "audio_inv env fp (snd (configureSrtpLocked env s2))" if "ok1"
  proof (rule configureSrtp_inv [OF surjective_pairing s2])
    show "dc_connected (as_dtlsTransport s2) \<longrightarrow> dtls_checked (ssl_api (ae_ssl env)) (dtls_view (as_dtlsTransport s2))"
      using props(2) that v dtls_view_sel(4) [of "as_dtlsTransport s2"] dtls_view_sel(4) [of c] by auto
  qed
  moreover have "audio_inv env fp (setErrorLocked m s1)" for m
    using s1 audio_inv_part [of "setErrorLocked m s1" s1] by simp
  ultimately show ?thesis using s2 by simp
qed

end
