(* ===== verification/AudioMedia.thy ===== *)
theory AudioMedia
  imports AudioSession
begin

text \<open>
  The media of the audio call (\<open>AudioCallSession.cpp\<close>, from \<open>encodeAndSend\<close> on): sending encoded
  audio and reports, handling reports, handing decoded audio to the player, and one iteration of
  the send and of the receive loop. The encoder of the send loop has a state \<open>'e\<close> of its own.
\<close>

section \<open>Sending\<close>

record 'e audio_encoder =
  en_encode :: "AudioFrame \<Rightarrow> 'e \<Rightarrow> (string + EncodedAudioFrame) \<times> 'e"
  en_frameSamples :: "'e \<Rightarrow> int"
  en_channels :: "'e \<Rightarrow> int"
  en_sampleRate :: "'e \<Rightarrow> int"
  en_bitrate :: "'e \<Rightarrow> int"
  en_setBitrate :: "int \<Rightarrow> 'e \<Rightarrow> bool \<times> 'e"

definition encode_error :: "'e audio_encoder \<Rightarrow> AudioFrame \<Rightarrow> string \<Rightarrow> 'e \<Rightarrow> string" where
  "encode_error en frame encodeError e =
     ''encode failed sr='' @ int_to_string (af_sampleRate frame) @ '' ch='' @ int_to_string (af_channels frame) @
     '' samples='' @ nat_to_string (length (af_samples frame)) @ '' pts='' @ int_to_string (af_pts frame) @
     '' expected='' @ int_to_string (en_frameSamples en e) @ '' encoder_ch='' @ int_to_string (en_channels en e) @
     '' encoder_sr='' @ int_to_string (en_sampleRate en e) @
     (if encodeError = [] then [] else '' details='' @ encodeError)"

text \<open>
  The result: whether it succeeded, the frame that was sent (the default one when the encoder has
  no output yet), and the states of the encoder and the session.
\<close>

definition encodeAndSend ::
  "('ssl, 's, 'd) audio_env \<Rightarrow> 'e audio_encoder \<Rightarrow> int \<Rightarrow> AudioFrame \<Rightarrow> UdpEndpoint \<Rightarrow> 'e \<Rightarrow>
   ('ssl, 's, 'd) AudioCallSession \<Rightarrow> bool \<times> EncodedAudioFrame \<times> 'e \<times> ('ssl, 's, 'd) AudioCallSession" where
  "encodeAndSend env en now frame peer e s =
     (case en_encode en frame e of
        (Inl encodeError, e1) \<Rightarrow>
          if str_contains ''Resource temporarily unavailable'' encodeError then (True, EncodedAudioFrame_new, e1, s)
          else (False, EncodedAudioFrame_new, e1, setErrorLocked (encode_error en frame encodeError e1) s)
      | (Inr encoded, e1) \<Rightarrow>
          let (packet, sender) = buildPacket (ef_payloadType encoded) True (word_of_int (ef_pts encoded))
                (ef_payload encoded) (as_sender s);
              s1 = s\<lparr>as_sender := sender\<rparr>
          in if packet = [] then (False, EncodedAudioFrame_new, e1, setErrorLocked ''RTP build failed'' s1)
             else case protectRtpLocked env packet s1 of
               (None, s2) \<Rightarrow> (False, EncodedAudioFrame_new, e1, s2)
             | (Some packet', s2) \<Rightarrow>
                 let (sent, s3) = session_send env packet' peer s2
                 in if sent \<noteq> int (length packet')
                    then (False, EncodedAudioFrame_new, e1, setErrorLocked ''sendto failed'' s3)
                    else (True, encoded, e1,
                      s3\<lparr>as_sentPacketCount := as_sentPacketCount s3 + 1,
                         as_sentOctetCount := as_sentOctetCount s3 + of_nat (length (ef_payload encoded)),
                         as_audioBwe := bwe_onPacketSent now (of_nat (length (ef_payload encoded))) (as_audioBwe s3)\<rparr>))"

text \<open>\<open>wall\<close> are the seconds and nanoseconds of the system clock.\<close>

definition sendSenderReportLocked ::
  "('ssl, 's, 'd) audio_env \<Rightarrow> int \<Rightarrow> u64 \<times> u64 \<Rightarrow> UdpEndpoint \<Rightarrow> u32 \<Rightarrow> ('ssl, 's, 'd) AudioCallSession \<Rightarrow>
   bool \<times> ('ssl, 's, 'd) AudioCallSession" where
  "sendSenderReportLocked env now wall peer rtpTimestamp s =
     (if \<not> us_socket (as_mediaSocket s) \<or> rtpTimestamp = 0 \<or> as_sentPacketCount s = 0 then (False, s)
      else if lg_compactNtp (as_localSenderReport s) \<noteq> 0 \<and> now > lg_observedAt (as_localSenderReport s) \<and>
              now - lg_observedAt (as_localSenderReport s) < 500 * 1000000
      then (False, s)
      else
        let report = \<lparr> csr_senderSsrc = snd_ssrc (as_sender s),
              csr_ntpTimestamp = currentNtpTimestamp (fst wall) (snd wall), csr_rtpTimestamp = rtpTimestamp,
              csr_packetCount = as_sentPacketCount s, csr_octetCount = as_sentOctetCount s, csr_reportBlocks = [] \<rparr>;
            packet = buildSenderReport report
        in if packet = [] then (False, setErrorLocked ''RTCP SR build failed'' s)
           else case protectRtcpLocked env packet s of
             (None, s1) \<Rightarrow> (False, s1)
           | (Some packet', s1) \<Rightarrow>
               let (sent, s2) = session_send env packet' peer s1
               in if sent \<noteq> int (length packet') then (False, setErrorLocked ''sendto RTCP SR failed'' s2)
                  else (True, s2\<lparr>as_localSenderReport := \<lparr> lg_ssrc = csr_senderSsrc report,
                     lg_compactNtp = compactNtpFromTimestamp (csr_ntpTimestamp report), lg_observedAt = now \<rparr>\<rparr>))"

definition sendReceiverReportLocked ::
  "('ssl, 's, 'd) audio_env \<Rightarrow> UdpEndpoint \<Rightarrow> u32 \<Rightarrow> u32 \<Rightarrow> u32 \<Rightarrow> ('ssl, 's, 'd) AudioCallSession \<Rightarrow>
   bool \<times> ('ssl, 's, 'd) AudioCallSession" where
  "sendReceiverReportLocked env peer remoteSsrc lastSenderReport delaySinceLastSenderReport s =
     (if \<not> us_socket (as_mediaSocket s) \<or> remoteSsrc = 0 \<or> lastSenderReport = 0 then (False, s)
      else
        let packet = buildReceiverReport \<lparr> crr_receiverSsrc = snd_ssrc (as_sender s),
              crr_reportBlocks = [\<lparr> blk_sourceSsrc = remoteSsrc, blk_fractionLost = 0, blk_cumulativeLost = 0,
                blk_highestSeq = as_lastReceivedSequence s, blk_jitter = 0, blk_lastSenderReport = lastSenderReport,
                blk_delaySinceLastSenderReport = delaySinceLastSenderReport \<rparr>] \<rparr>
        in if packet = [] then (False, setErrorLocked ''RTCP RR build failed'' s)
           else case protectRtcpLocked env packet s of
             (None, s1) \<Rightarrow> (False, s1)
           | (Some packet', s1) \<Rightarrow>
               let (sent, s2) = session_send env packet' peer s1
               in if sent \<noteq> int (length packet') then (False, setErrorLocked ''sendto RTCP RR failed'' s2)
                  else (True, s2))"

section \<open>Reports from the peer\<close>

text \<open>One report block: \<open>None\<close> for a block that is skipped, else the round trip time in milliseconds.\<close>

definition block_rtt :: "int \<Rightarrow> u32 \<Rightarrow> SenderReportLedger \<Rightarrow> RTCPReportBlock \<Rightarrow> u32 option" where
  "block_rtt now ssrc ledger block =
     (if blk_sourceSsrc block \<noteq> ssrc \<or> blk_lastSenderReport block = 0 \<or> lg_compactNtp ledger = 0 \<or>
         blk_lastSenderReport block \<noteq> lg_compactNtp ledger \<or> now \<le> lg_observedAt ledger
      then None
      else
        let arrivalCompactNtp = lg_compactNtp ledger + compactNtpFromElapsed (now - lg_observedAt ledger);
            reflectedDelay = (ucast (blk_lastSenderReport block) :: u64) + ucast (blk_delaySinceLastSenderReport block)
        in if (ucast arrivalCompactNtp :: u64) \<le> reflectedDelay then None
           else Some (compactNtpToMs (ucast ((ucast arrivalCompactNtp :: u64) - reflectedDelay))))"

fun handle_blocks ::
  "int \<Rightarrow> (nat \<Rightarrow> int) \<Rightarrow> RTCPReportBlock list \<Rightarrow> bool \<Rightarrow> ('ssl, 's, 'd) AudioCallSession \<Rightarrow>
   (bool \<times> ('ssl, 's, 'd) AudioCallSession) mem" where
  "handle_blocks now clock [] handled s = Some (handled, s)"
| "handle_blocks now clock (block # blocks) handled s =
     (case block_rtt now (snd_ssrc (as_sender s)) (as_localSenderReport s) block of
        None \<Rightarrow> handle_blocks now (\<lambda>i. clock (Suc i)) blocks handled s
      | Some rttMs \<Rightarrow> do {
          bwe \<leftarrow> bwe_onReceiverReport (blk_fractionLost block) rttMs (as_audioBwe s);
          let (estimatedKbps, bwe') = bwe_estimateBitrateKbps (clock 0) bwe;
          let estimatedBps = max 16000 (min 64000 (estimatedKbps * 1000));
          handle_blocks now (\<lambda>i. clock (Suc i)) blocks True
            (s\<lparr>as_lastRttMs := rttMs, as_audioBwe := bwe', as_targetBitrateBps := estimatedBps\<rparr>) })"

fun handle_slices ::
  "('ssl, 's, 'd) audio_env \<Rightarrow> int \<Rightarrow> (nat \<Rightarrow> nat \<Rightarrow> int) \<Rightarrow> bytes \<Rightarrow> UdpEndpoint \<Rightarrow> RTCPPacketSlice list \<Rightarrow> bool \<Rightarrow>
   ('ssl, 's, 'd) AudioCallSession \<Rightarrow> (bool \<times> ('ssl, 's, 'd) AudioCallSession) mem" where
  "handle_slices env now clock data sender [] handled s = Some (handled, s)"
| "handle_slices env now clock data sender (part # slices) handled s =
     (let packet = take (sl_size part) (drop (sl_offset part) data); next = (\<lambda>i. clock (Suc i)) in
      if isSenderReport (sl_header part) then do {
        parsed \<leftarrow> parseSenderReport packet;
        case parsed of
          None \<Rightarrow> handle_slices env now next data sender slices handled s
        | Some report \<Rightarrow>
            let s1 = s\<lparr>as_remoteSenderReport := \<lparr> lg_ssrc = csr_senderSsrc report,
                  lg_compactNtp = compactNtpFromTimestamp (csr_ntpTimestamp report), lg_observedAt = now \<rparr>\<rparr>;
                dlsr = compactNtpFromElapsed (clock 0 0 - now);
                (replied, s2) = sendReceiverReportLocked env sender (csr_senderSsrc report)
                  (lg_compactNtp (as_remoteSenderReport s1)) dlsr s1
            in handle_slices env now next data sender slices (replied \<or> handled) s2 }
      else if isReceiverReport (sl_header part) then do {
        parsed \<leftarrow> parseReceiverReport packet;
        case parsed of
          None \<Rightarrow> handle_slices env now next data sender slices handled s
        | Some report \<Rightarrow> do {
            (handled', s1) \<leftarrow> handle_blocks now (clock 0) (crr_reportBlocks report) handled s;
            handle_slices env now next data sender slices handled' s1 } }
      else handle_slices env now next data sender slices handled s)"

definition handleRtcpPacketLocked ::
  "('ssl, 's, 'd) audio_env \<Rightarrow> int \<Rightarrow> (nat \<Rightarrow> nat \<Rightarrow> int) \<Rightarrow> bytes \<Rightarrow> UdpEndpoint \<Rightarrow>
   ('ssl, 's, 'd) AudioCallSession \<Rightarrow> (bool \<times> ('ssl, 's, 'd) AudioCallSession) mem" where
  "handleRtcpPacketLocked env now clock data sender s = do {
     slices \<leftarrow> parseCompoundPacket data;
     case slices of
       None \<Rightarrow> Some (False, s)
     | Some ss \<Rightarrow> handle_slices env now clock data sender ss False s }"

section \<open>Playing\<close>

text \<open>
  The loop that cuts the assembled samples into frames for the player. \<open>targetSamples\<close> is positive
  where it is called. The flag is \<open>False\<close> when the player refused a frame.
\<close>

function playout_loop ::
  "('ssl, 's, 'd) audio_env \<Rightarrow> nat \<Rightarrow> int \<Rightarrow> ('ssl, 's, 'd) AudioCallSession \<Rightarrow> bool \<times> ('ssl, 's, 'd) AudioCallSession" where
  "playout_loop env targetSamples targetFrameSamples s =
     (let asm = as_playoutAssembler s in
      if 0 < targetSamples \<and> targetSamples \<le> length (af_samples asm)
      then
        let playout = asm\<lparr>af_samples := take targetSamples (af_samples asm)\<rparr>
        in if \<not> ae_enqueueFrame env playout then (False, setErrorLocked ''player enqueue failed'' s)
           else playout_loop env targetSamples targetFrameSamples
                  (s\<lparr>as_played := as_played s @ [playout],
                     as_playoutAssembler := asm\<lparr>af_samples := drop targetSamples (af_samples asm),
                       af_pts := af_pts asm + targetFrameSamples\<rparr>\<rparr>)
      else (True, s))"
  by pat_completeness auto
termination
  by (relation "measure (\<lambda>(env, n, m, s). length (af_samples (as_playoutAssembler s)))") auto

declare playout_loop.simps [simp del]

definition queueDecodedFrameForPlayback ::
  "('ssl, 's, 'd) audio_env \<Rightarrow> AudioFrame \<Rightarrow> ('ssl, 's, 'd) AudioCallSession \<Rightarrow> ('ssl, 's, 'd) AudioCallSession" where
  "queueDecodedFrameForPlayback env frame s =
     (let channels = (if cfg_channels (as_config s) > 0 then cfg_channels (as_config s) else 1);
          targetFrameSamples = (if ae_playerFrameSamples env > 0 then ae_playerFrameSamples env else 960);
          targetSamples = nat targetFrameSamples * nat channels
      in if af_sampleRate frame \<noteq> cfg_sampleRate (as_config s) \<or> af_channels frame \<noteq> channels \<or> af_samples frame = []
         then setErrorLocked ''decoded frame metadata mismatch'' s
         else if targetSamples = 0 \<or> length (af_samples frame) mod nat channels \<noteq> 0
         then setErrorLocked ''decoded frame sample count mismatch'' s
         else
           let asm = as_playoutAssembler s;
               fresh = \<lparr> af_sampleRate = af_sampleRate frame, af_channels = af_channels frame,
                         af_pts = af_pts frame, af_samples = [] \<rparr>;
               asm1 = (if af_samples asm = [] then fresh
                       else if af_sampleRate asm \<noteq> af_sampleRate frame \<or> af_channels asm \<noteq> af_channels frame
                       then fresh else asm);
               asm2 = asm1\<lparr>af_samples := af_samples asm1 @ af_samples frame\<rparr>;
               (ok, s1) = playout_loop env targetSamples targetFrameSamples (s\<lparr>as_playoutAssembler := asm2\<rparr>)
           in if \<not> ok then s1
              else if af_samples (as_playoutAssembler s1) = []
              then s1\<lparr>as_playoutAssembler := \<lparr> af_sampleRate = af_sampleRate frame, af_channels = af_channels frame,
                     af_pts = af_pts frame + int (length (af_samples frame) div nat channels), af_samples = [] \<rparr>\<rparr>
              else s1)"

definition play_packet ::
  "('ssl, 's, 'd) audio_env \<Rightarrow> RTPPacket \<Rightarrow> ('ssl, 's, 'd) AudioCallSession \<Rightarrow> ('ssl, 's, 'd) AudioCallSession" where
  "play_packet env packet s =
     (if \<not> cfg_allowSelfPlayback (as_config s) \<and> h_ssrc (p_header packet) = snd_ssrc (as_sender s) then s
      else
        let encoded = EncodedAudioFrame_new\<lparr>ef_sampleRate := cfg_sampleRate (as_config s),
              ef_channels := cfg_channels (as_config s), ef_pts := uint (h_timestamp (p_header packet)),
              ef_payloadType := h_payloadType (p_header packet), ef_payload := p_payload packet\<rparr>;
            (decoded, d) = ae_decode env encoded (as_decoder s);
            s1 = s\<lparr>as_decoder := d\<rparr>
        in case decoded of
             Inl decodeError \<Rightarrow>
               if str_contains ''Resource temporarily unavailable'' decodeError then s1
               else setErrorLocked (if decodeError = [] then ''decode failed'' else ''decode failed: '' @ decodeError) s1
           | Inr frame \<Rightarrow> queueDecodedFrameForPlayback env frame s1)"

text \<open>The fuel is the number of stored packets and one: every round but the last takes one out.\<close>

fun drain_jitter ::
  "('ssl, 's, 'd) audio_env \<Rightarrow> (nat \<Rightarrow> int) \<Rightarrow> nat \<Rightarrow> ('ssl, 's, 'd) AudioCallSession \<Rightarrow> ('ssl, 's, 'd) AudioCallSession option" where
  "drain_jitter env clock 0 s = None"
| "drain_jitter env clock (Suc fuel) s =
     (case popLocked (clock 0) (as_jitter s) of
        (None, j) \<Rightarrow> Some (s\<lparr>as_jitter := j\<rparr>)
      | (Some packet, j) \<Rightarrow>
          drain_jitter env (\<lambda>i. clock (Suc i)) fuel (play_packet env packet (s\<lparr>as_jitter := j\<rparr>)))"

definition drainReceivedPackets ::
  "('ssl, 's, 'd) audio_env \<Rightarrow> (nat \<Rightarrow> int) \<Rightarrow> ('ssl, 's, 'd) AudioCallSession \<Rightarrow> ('ssl, 's, 'd) AudioCallSession option" where
  "drainReceivedPackets env clock s = drain_jitter env clock (Suc (length (jb_packets (as_jitter s)))) s"

section \<open>One iteration of the loops\<close>

text \<open>
  The body of the receive loop. \<open>others\<close> is what happens to the socket while the thread waits.
\<close>

definition recv_datagram ::
  "('ssl, 's, 'd) audio_env \<Rightarrow> int \<Rightarrow> (nat \<Rightarrow> nat \<Rightarrow> int) \<Rightarrow> bytes \<Rightarrow> UdpEndpoint \<Rightarrow>
   ('ssl, 's, 'd) AudioCallSession \<Rightarrow> ('ssl, 's, 'd) AudioCallSession mem" where
  "recv_datagram env now clock data sender s = do {
     dtls \<leftarrow> looksLikeDtlsRecord data;
     if dtls then Some (snd (handleDtlsPacketLocked env data sender s))
     else do {
       stun \<leftarrow> looksLikeStunPacket data;
       if stun then Some (s\<lparr>as_iceConnected := True\<rparr>)
       else do {
         rtcp \<leftarrow> looksLikeRtcpPacket data;
         if rtcp
         then (case unprotectRtcpLocked env data s of
                 (None, s1) \<Rightarrow> Some s1
               | (Some packet, s1) \<Rightarrow> map_option snd (handleRtcpPacketLocked env now clock packet sender s1))
         else (case unprotectRtpLocked env data s of
                 (None, s1) \<Rightarrow> Some s1
               | (Some mediaPacket, s1) \<Rightarrow> do {
                   parsed \<leftarrow> parsePacket mediaPacket;
                   case parsed of
                     None \<Rightarrow> Some (setErrorLocked ''RTP parse failed'' s1)
                   | Some packet \<Rightarrow>
                       let s2 = s1\<lparr>as_receivedPacketCount := as_receivedPacketCount s1 + 1,
                             as_lastReceivedSequence := ucast (h_sequenceNumber (p_header packet))\<rparr>;
                           (pushed, j) = JitterBuffer_push packet (as_jitter s2);
                           s3 = s2\<lparr>as_jitter := j\<rparr>
                       in if \<not> pushed then Some (setErrorLocked ''jitter push failed'' s3)
                          else drainReceivedPackets env (clock 0) s3 }) } } }"

definition recvLoop_iteration ::
  "('ssl, 's, 'd) audio_env \<Rightarrow> (UdpPeerSocket \<Rightarrow> UdpPeerSocket) \<Rightarrow> int \<Rightarrow> (nat \<Rightarrow> nat \<Rightarrow> int) \<Rightarrow>
   ('ssl, 's, 'd) AudioCallSession \<Rightarrow> ('ssl, 's, 'd) AudioCallSession mem" where
  "recvLoop_iteration env others now clock s =
     (let (waitResult, sock) = waitForReadable (-1) True others (as_mediaSocket s); s1 = s\<lparr>as_mediaSocket := sock\<rparr> in
      if waitResult = 0 then Some s1
      else if waitResult < 0
      then Some (if \<not> as_running s1 \<or> isTransientSocketError sock then s1 else setErrorLocked ''wait readable failed'' s1)
      else do {
        (received, sock2) \<leftarrow> recvFrom 1500 sock;
        let s2 = s1\<lparr>as_mediaSocket := sock2\<rparr>;
        let failed = Some (if \<not> as_running s2 \<or> isTransientSocketError sock2 then s2 else setErrorLocked ''recvfrom failed'' s2);
        case received of
          Inl _ \<Rightarrow> failed
        | Inr (data, sender) \<Rightarrow> if data = [] then failed else recv_datagram env now clock data sender s2 })"

text \<open>
  The body of the send loop after a peer is known: the captured frame, \<open>None\<close> when none came in
  time; the result of the echo canceller, noise suppressor and gain control on it, an error text
  or the processed frame. \<open>clock i\<close> and \<open>wall i\<close> are the clocks for the i-th chunk.
\<close>

fun send_chunks ::
  "('ssl, 's, 'd) audio_env \<Rightarrow> 'e audio_encoder \<Rightarrow> (nat \<Rightarrow> int) \<Rightarrow> (nat \<Rightarrow> u64 \<times> u64) \<Rightarrow> AudioFrame \<Rightarrow> int \<Rightarrow> nat \<Rightarrow>
   UdpEndpoint \<Rightarrow> nat list \<Rightarrow> 'e \<Rightarrow> ('ssl, 's, 'd) AudioCallSession \<Rightarrow> 'e \<times> ('ssl, 's, 'd) AudioCallSession" where
  "send_chunks env en clock wall frame encoderFrameSamples chunkSamples peer [] e s = (e, s)"
| "send_chunks env en clock wall frame encoderFrameSamples chunkSamples peer (chunkIndex # rest) e s =
     (if as_dtlsStarted s \<and> \<not> as_srtpReady s
      then (e, snd (sendCachedDtlsHandshakeLocked env (clock chunkIndex) peer s))
      else
        let chunk = \<lparr> af_sampleRate = af_sampleRate frame, af_channels = af_channels frame,
              af_pts = af_pts frame + int chunkIndex * encoderFrameSamples,
              af_samples = take chunkSamples (drop (chunkIndex * chunkSamples) (af_samples frame)) \<rparr>
        in case encodeAndSend env en (clock chunkIndex) chunk peer e s of
             (False, _, e1, s1) \<Rightarrow> (e1, s1)
           | (True, sentFrame, e1, s1) \<Rightarrow>
               let (_, s2) = sendSenderReportLocked env (clock chunkIndex) (wall chunkIndex) peer
                     (word_of_int (ef_pts sentFrame)) s1
               in send_chunks env en clock wall frame encoderFrameSamples chunkSamples peer rest e1 s2)"

definition sendLoop_iteration ::
  "('ssl, 's, 'd) audio_env \<Rightarrow> 'e audio_encoder \<Rightarrow> (nat \<Rightarrow> int) \<Rightarrow> (nat \<Rightarrow> u64 \<times> u64) \<Rightarrow> AudioFrame option \<Rightarrow>
   (AudioFrame \<Rightarrow> string + AudioFrame) \<Rightarrow> 'e \<Rightarrow> ('ssl, 's, 'd) AudioCallSession \<Rightarrow> 'e \<times> ('ssl, 's, 'd) AudioCallSession" where
  "sendLoop_iteration env en clock wall captured process e s =
     (let peer = us_peer (as_mediaSocket s) in
      case captured of
        None \<Rightarrow> (e, s)
      | Some raw \<Rightarrow>
          if as_captureMuted s then (e, s)
          else case process raw of
            Inl processError \<Rightarrow> (e, setErrorLocked processError s)
          | Inr frame \<Rightarrow>
              let targetBitrate = as_targetBitrateBps s;
                  (ok, e1) = (if targetBitrate \<ge> 16000 \<and> sint targetBitrate \<noteq> en_bitrate en e
                              then en_setBitrate en (sint targetBitrate) e else (True, e))
              in if \<not> ok then (e1, setErrorLocked ''audio encoder bitrate update failed'' s)
                 else
                   let encoderFrameSamples = (if en_frameSamples en e1 > 0 then en_frameSamples en e1
                         else cfg_frameSamples (as_config s));
                       chunkSamples = nat encoderFrameSamples * nat (cfg_channels (as_config s))
                   in if encoderFrameSamples \<le> 0 \<or> chunkSamples = 0 \<or> length (af_samples frame) mod chunkSamples \<noteq> 0
                      then (e1, setErrorLocked ''capture frame not divisible by encoder frame size'' s)
                      else send_chunks env en clock wall frame encoderFrameSamples chunkSamples peer
                             [0..<length (af_samples frame) div chunkSamples] e1 s)"

section \<open>Sending keeps the invariant\<close>

lemma audio_inv_sent:
  assumes "audio_inv env fp s"
  shows "audio_inv env fp (s\<lparr>as_sentPacketCount := a, as_sentOctetCount := b, as_audioBwe := bwe_onPacketSent now n (as_audioBwe s)\<rparr>)"
  using assms sent_keeps [of "as_audioBwe s" now n]
  by (auto simp: audio_inv_def secure_inv_def rate_inv_def same_range_def Let_def)

lemma inv_part_sender: "inv_part (s\<lparr>as_sender := x\<rparr>) = inv_part s"
  by (simp add: inv_part_def)

lemma audio_inv_same:
  "audio_inv env fp s \<Longrightarrow> inv_part s' = inv_part s \<Longrightarrow> as_mediaSocket s' = as_mediaSocket s \<Longrightarrow> audio_inv env fp s'"
  using audio_inv_part by metis

lemma protect_then_send:
  assumes "f \<in> {protectRtpLocked, protectRtcpLocked}" "f env packet s = (r, s1)" "audio_inv env fp s"
  shows "audio_inv env fp s1" "session_send env wire peer s1 = (n, s2) \<Longrightarrow> audio_inv env fp s2"
proof -
  have f: "f \<in> {protectRtpLocked, protectRtcpLocked, unprotectRtpLocked, unprotectRtcpLocked}" using assms(1) by auto
  show s1: "audio_inv env fp s1"
    using assms(3) packet_keeps(1,2) [OF f assms(2)] by (rule audio_inv_same)
  show "audio_inv env fp s2" if "session_send env wire peer s1 = (n, s2)"
    using s1 session_send_keeps(1,2) [OF that] audio_inv_sock [OF s1] by (auto intro: audio_inv_socket)
qed

lemma audio_inv_error [simp]: "audio_inv env fp (setErrorLocked m s) = audio_inv env fp s"
  by (rule audio_inv_part) simp_all

lemma encodeAndSend_inv:
  assumes "encodeAndSend env en now frame peer e s = (ok, f, e', s')" "audio_inv env fp s"
  shows "audio_inv env fp s'"
proof (cases "fst (en_encode en frame e)")
  case (Inl err)
  then show ?thesis using assms by (cases "en_encode en frame e") (auto simp: encodeAndSend_def split: if_splits)
next
  case (Inr encoded)
  obtain e1 where en: "en_encode en frame e = (Inr encoded, e1)" using Inr by (metis prod.collapse)
  obtain packet sender where b: "buildPacket (ef_payloadType encoded) True (word_of_int (ef_pts encoded))
      (ef_payload encoded) (as_sender s) = (packet, sender)" by fastforce
  define s1 where "s1 = s\<lparr>as_sender := sender\<rparr>"
  have s1: "audio_inv env fp s1" using assms(2) by (rule audio_inv_same) (simp_all add: s1_def inv_part_sender)
  obtain r s2 where p: "protectRtpLocked env packet s1 = (r, s2)" by fastforce
  have s2: "audio_inv env fp s2" by (rule protect_then_send(1) [where f = protectRtpLocked, OF _ p s1]) simp
  show ?thesis
  proof (cases r)
    case None
    then show ?thesis using assms(1) en b p s1 s2 by (auto simp: encodeAndSend_def Let_def s1_def split: if_splits)
  next
    case (Some wire)
    obtain n s3 where n: "session_send env wire peer s2 = (n, s3)" by fastforce
    have "audio_inv env fp s3" by (rule protect_then_send(2) [where f = protectRtpLocked, OF _ p s1 n]) simp
    then show ?thesis
      using assms(1) en b p n Some s1 audio_inv_sent [of env fp s3]
      by (auto simp: encodeAndSend_def Let_def s1_def split: if_splits)
  qed
qed

lemma report_sent_inv:
  assumes "protectRtcpLocked env packet s = (r, s1)" "audio_inv env fp s"
  shows "audio_inv env fp s1" "session_send env wire peer s1 = (n, s2) \<Longrightarrow> audio_inv env fp s2"
  using protect_then_send [where f = protectRtcpLocked, OF _ assms] by auto

lemma audio_inv_ledgers [simp]:
  "audio_inv env fp (s\<lparr>as_localSenderReport := l\<rparr>) = audio_inv env fp s"
  "audio_inv env fp (s\<lparr>as_remoteSenderReport := l\<rparr>) = audio_inv env fp s"
  by (rule audio_inv_part; simp add: inv_part_def)+

lemma sendSenderReport_inv:
  assumes "sendSenderReportLocked env now wall peer ts s = (ok, s')" "audio_inv env fp s"
  shows "audio_inv env fp s'"
  using assms
  by (auto simp: sendSenderReportLocked_def Let_def split: if_splits prod.splits option.splits
      dest: report_sent_inv(1) report_sent_inv(2))

lemma sendReceiverReport_inv:
  assumes "sendReceiverReportLocked env peer a b c s = (ok, s')" "audio_inv env fp s"
  shows "audio_inv env fp s'"
  using assms
  by (auto simp: sendReceiverReportLocked_def Let_def split: if_splits prod.splits option.splits
      dest: report_sent_inv(1) report_sent_inv(2))

section \<open>Receiving keeps the invariant and always returns\<close>

lemma handle_blocks_inv:
  "audio_inv env fp s \<Longrightarrow> \<exists>h s'. handle_blocks now clock blocks handled s = Some (h, s') \<and> audio_inv env fp s'"
proof (induction blocks arbitrary: clock handled s)
  case (Cons block blocks)
  show ?case
  proof (cases "block_rtt now (snd_ssrc (as_sender s)) (as_localSenderReport s) block")
    case None
    then show ?thesis using Cons by simp
  next
    case (Some rtt)
    have rate: "cb_inv (as_audioBwe s)" "cb_minBitrateKbps (as_audioBwe s) = 16" "cb_maxBitrateKbps (as_audioBwe s) = 64"
      using Cons.prems by (auto simp: audio_inv_def rate_inv_def)
    then obtain b where b: "bwe_onReceiverReport (blk_fractionLost block) rtt (as_audioBwe s) = Some b"
      using report_defined [of "as_audioBwe s"] by fastforce
    obtain k b' where k: "bwe_estimateBitrateKbps (clock 0) b = (k, b')" by fastforce
    have b': "cb_inv b'" "cb_minBitrateKbps b' = 16" "cb_maxBitrateKbps b' = 64"
      using report_keeps [OF rate(1) b] estimate_keeps [OF _ k] rate by (auto simp: same_range_def)
    define s1 where "s1 = s\<lparr>as_lastRttMs := rtt, as_audioBwe := b', as_targetBitrateBps := max 16000 (min 64000 (k * 1000))\<rparr>"
    have "audio_inv env fp s1"
      using Cons.prems b' by (auto simp: audio_inv_def secure_inv_def rate_inv_def s1_def Let_def)
    then show ?thesis using Cons.IH [of s1] Some b k by (simp add: s1_def Let_def)
  qed
qed simp

lemma handle_slices_inv:
  "audio_inv env fp s \<Longrightarrow>
     \<exists>h s'. handle_slices env now clock data sender slices handled s = Some (h, s') \<and> audio_inv env fp s'"
proof (induction slices arbitrary: clock handled s)
  case (Cons part slices)
  let ?packet = "take (sl_size part) (drop (sl_offset part) data)"
  obtain sr rr where p: "parseSenderReport ?packet = Some sr" "parseReceiverReport ?packet = Some rr"
    using client_parsers_safe by blast
  have sent: "\<exists>replied s2. sendReceiverReportLocked env sender a b c (s\<lparr>as_remoteSenderReport := l\<rparr>) = (replied, s2) \<and> audio_inv env fp s2"
    for a b c l
    using sendReceiverReport_inv [of env sender a b c "s\<lparr>as_remoteSenderReport := l\<rparr>"] Cons.prems
    by (metis audio_inv_ledgers(2) prod.exhaust)
  consider (sr) "isSenderReport (sl_header part)" | (rr) "\<not> isSenderReport (sl_header part)" "isReceiverReport (sl_header part)"
    | (other) "\<not> isSenderReport (sl_header part)" "\<not> isReceiverReport (sl_header part)" by blast
  then show ?case
  proof cases
    case sr
    show ?thesis
    proof (cases "sr")
      case None
      then show ?thesis using \<open>isSenderReport (sl_header part)\<close> p(1) Cons by simp
    next
      case (Some report)
      obtain replied s2 where "sendReceiverReportLocked env sender (csr_senderSsrc report)
          (compactNtpFromTimestamp (csr_ntpTimestamp report)) (compactNtpFromElapsed (clock 0 0 - now))
          (s\<lparr>as_remoteSenderReport := \<lparr> lg_ssrc = csr_senderSsrc report,
             lg_compactNtp = compactNtpFromTimestamp (csr_ntpTimestamp report), lg_observedAt = now \<rparr>\<rparr>) = (replied, s2)"
        "audio_inv env fp s2" using sent by blast
      then show ?thesis using Cons.IH [of s2] \<open>isSenderReport (sl_header part)\<close> p(1) Some by (simp add: Let_def)
    qed
  next
    case rr
    show ?thesis
    proof (cases "rr")
      case None
      then show ?thesis using rr p(2) Cons by simp
    next
      case (Some report)
      obtain h s1 where "handle_blocks now (clock 0) (crr_reportBlocks report) handled s = Some (h, s1)" "audio_inv env fp s1"
        using handle_blocks_inv [OF Cons.prems] by blast
      then show ?thesis using Cons.IH [of s1] rr p(2) Some by (simp add: Let_def)
    qed
  next
    case other
    then show ?thesis using Cons by simp
  qed
qed simp

lemma handleRtcp_inv:
  assumes "audio_inv env fp s"
  shows "\<exists>h s'. handleRtcpPacketLocked env now clock data sender s = Some (h, s') \<and> audio_inv env fp s'"
proof -
  obtain r where r: "parseCompoundPacket data = Some r" using client_parsers_safe(6) by blast
  show ?thesis
    using handle_slices_inv [OF assms] assms by (cases r) (auto simp: handleRtcpPacketLocked_def r)
qed

lemma audio_inv_jitter: "audio_inv env fp s \<Longrightarrow> jitter_inv j \<Longrightarrow> audio_inv env fp (s\<lparr>as_jitter := j\<rparr>)"
  by (simp add: audio_inv_def secure_inv_def rate_inv_def Let_def)

text \<open>What playing a packet leaves alone.\<close>

definition play_part where
  "play_part s = (inv_part s, as_mediaSocket s, as_dtlsStarted s, as_config s, as_receivedPacketCount s)"

lemma play_part_error [simp]: "play_part (setErrorLocked m s) = play_part s"
  by (simp add: play_part_def setErrorLocked_def inv_part_def)

lemma play_part_upd [simp]:
  "play_part (s\<lparr>as_playoutAssembler := a\<rparr>) = play_part s" "play_part (s\<lparr>as_played := p\<rparr>) = play_part s"
  "play_part (s\<lparr>as_decoder := d\<rparr>) = play_part s"
  by (simp_all add: play_part_def inv_part_def)

lemma playout_part: "play_part (snd (playout_loop env n m s)) = play_part s"
proof (induction env n m s rule: playout_loop.induct)
  case (1 env n m s)
  then show ?case by (subst playout_loop.simps) (simp add: Let_def)
qed

lemma queue_part: "play_part (queueDecodedFrameForPlayback env frame s) = play_part s"
  using playout_part [of env _ _ "s\<lparr>as_playoutAssembler := a\<rparr>" for a]
  by (auto simp: queueDecodedFrameForPlayback_def Let_def case_prod_beta)

lemma play_packet_part: "play_part (play_packet env packet s) = play_part s"
  by (auto simp: play_packet_def Let_def queue_part split: prod.split sum.split)

lemma play_packet_inv: "audio_inv env fp s \<Longrightarrow> audio_inv env fp (play_packet env packet s)"
  using play_packet_part [of env packet s] by (auto simp: play_part_def intro: audio_inv_same)

lemma play_packet_jitter: "as_jitter (play_packet env packet s) = as_jitter s"
  using play_packet_part [of env packet s] by (simp add: play_part_def inv_part_def)

lemma pop_shrinks:
  assumes "jitter_inv b" "popLocked now b = (Some p, b')"
  shows "length (jb_packets b') < length (jb_packets b)"
proof -
  have ready: "fst (readyToPopLocked now b)" using assms(2) by (auto simp: popLocked_cases split: if_splits)
  note choice = choice_stored [OF assms(1) ready_nonempty [OF ready]]
  have "jb_packets b' = AList.delete (fst (pop_choice b)) (jb_packets b)"
    using assms(2) ready by (auto simp: popLocked_cases)
  moreover have "fst (pop_choice b) \<in> fst ` set (jb_packets b)"
    using choice(1) by (metis map_of_SomeD fst_conv image_eqI)
  ultimately show ?thesis
    by (auto simp: AList.delete_eq intro!: length_filter_less)
qed

lemma drain_jitter_inv:
  "audio_inv env fp s \<Longrightarrow> length (jb_packets (as_jitter s)) < fuel \<Longrightarrow>
     \<exists>s'. drain_jitter env clock fuel s = Some s' \<and> audio_inv env fp s'"
proof (induction fuel arbitrary: clock s)
  case (Suc fuel)
  obtain r j where pop: "popLocked (clock 0) (as_jitter s) = (r, j)" by fastforce
  have jit: "jitter_inv (as_jitter s)" using Suc.prems(1) by (simp add: audio_inv_def)
  then have "jitter_inv j" using jitter_inv_step [OF jitter_step.popped [of "as_jitter s" "clock 0"]] pop by simp
  then have sj: "audio_inv env fp (s\<lparr>as_jitter := j\<rparr>)" using Suc.prems(1) audio_inv_jitter by blast
  show ?case
  proof (cases r)
    case None
    then show ?thesis using pop sj by simp
  next
    case (Some packet)
    let ?s = "play_packet env packet (s\<lparr>as_jitter := j\<rparr>)"
    have "length (jb_packets (as_jitter ?s)) < fuel"
      using pop_shrinks [OF jit] pop Some Suc.prems(2) by (force simp: play_packet_jitter)
    then show ?thesis using Suc.IH [OF play_packet_inv [OF sj]] pop Some by simp
  qed
qed simp

lemma drainReceived_inv:
  assumes "audio_inv env fp s"
  shows "\<exists>s'. drainReceivedPackets env clock s = Some s' \<and> audio_inv env fp s'"
  unfolding drainReceivedPackets_def by (rule drain_jitter_inv [OF assms]) simp

lemma classifiers_safe: "looksLikeDtlsRecord d \<noteq> None" "looksLikeStunPacket d \<noteq> None" "looksLikeRtcpPacket d \<noteq> None"
  by (auto simp: looksLikeDtlsRecord_def looksLikeStunPacket_def looksLikeRtcpPacket_def byte_at_def)

lemma unprotect_inv:
  assumes "f \<in> {unprotectRtpLocked, unprotectRtcpLocked}" "f env packet s = (r, s1)" "audio_inv env fp s"
  shows "audio_inv env fp s1"
proof -
  have f: "f \<in> {protectRtpLocked, protectRtcpLocked, unprotectRtpLocked, unprotectRtcpLocked}" using assms(1) by auto
  show ?thesis using assms(3) packet_keeps(1,2) [OF f assms(2)] by (rule audio_inv_same)
qed

lemma recv_media_inv:
  assumes "audio_inv env fp s"
  shows "\<exists>s'. drainReceivedPackets env clock (s\<lparr>as_receivedPacketCount := a, as_lastReceivedSequence := b,
      as_jitter := snd (JitterBuffer_push packet (as_jitter s))\<rparr>) = Some s' \<and> audio_inv env fp s'"
proof (rule drainReceived_inv)
  have "jitter_inv (snd (JitterBuffer_push packet (as_jitter s)))"
    using assms jitter_inv_step [OF jitter_step.pushed] by (auto simp: audio_inv_def)
  then have "audio_inv env fp (s\<lparr>as_jitter := snd (JitterBuffer_push packet (as_jitter s))\<rparr>)"
    using assms by (rule audio_inv_jitter [rotated])
  then show "audio_inv env fp (s\<lparr>as_receivedPacketCount := a, as_lastReceivedSequence := b,
      as_jitter := snd (JitterBuffer_push packet (as_jitter s))\<rparr>)"
    by (rule audio_inv_same) (simp_all add: inv_part_def)
qed

lemma push_accepts: "fst (JitterBuffer_push packet j)"
  by (simp add: JitterBuffer_push_def Let_def)

lemma recv_datagram_inv:
  assumes "audio_inv env fp s"
    and "handshake_stays_complete (ssl_api (ae_ssl env))" "peer_certificate_fixed (ssl_api (ae_ssl env))"
  shows "\<exists>s'. recv_datagram env now clock data sender s = Some s' \<and> audio_inv env fp s'"
proof -
  obtain d st rc where cls: "looksLikeDtlsRecord data = Some d" "looksLikeStunPacket data = Some st"
    "looksLikeRtcpPacket data = Some rc" using classifiers_safe by blast
  consider (dtls) "d" | (stun) "\<not> d" "st" | (rtcp) "\<not> d" "\<not> st" "rc" | (rtp) "\<not> d" "\<not> st" "\<not> rc" by blast
  then show ?thesis
  proof cases
    case dtls
    then show ?thesis
      using cls handleDtls_inv [OF surjective_pairing assms] by (simp add: recv_datagram_def)
  next
    case stun
    have "audio_inv env fp (s\<lparr>as_iceConnected := True\<rparr>)"
      using assms(1) by (rule audio_inv_same) (simp_all add: inv_part_def)
    then show ?thesis using stun cls by (simp add: recv_datagram_def)
  next
    case rtcp
    obtain r s1 where u: "unprotectRtcpLocked env data s = (r, s1)" by fastforce
    have s1: "audio_inv env fp s1" by (rule unprotect_inv [where f = unprotectRtcpLocked, OF _ u assms(1)]) simp
    show ?thesis
    proof (cases r)
      case None
      then show ?thesis using rtcp cls u s1 by (simp add: recv_datagram_def)
    next
      case (Some packet)
      then show ?thesis
        using rtcp cls u handleRtcp_inv [OF s1, of now clock packet sender] by (auto simp: recv_datagram_def)
    qed
  next
    case rtp
    obtain r s1 where u: "unprotectRtpLocked env data s = (r, s1)" by fastforce
    have s1: "audio_inv env fp s1" by (rule unprotect_inv [where f = unprotectRtpLocked, OF _ u assms(1)]) simp
    show ?thesis
    proof (cases r)
      case None
      then show ?thesis using rtp cls u s1 by (simp add: recv_datagram_def)
    next
      case (Some media)
      obtain parsed where parsed: "parsePacket media = Some parsed" by (simp add: parsePacket_eq)
      show ?thesis
      proof (cases parsed)
        case None
        then show ?thesis using rtp cls u s1 Some parsed by (simp add: recv_datagram_def)
      next
        case pk: (Some packet)
        have "fst (JitterBuffer_push packet (as_jitter s1))" by (rule push_accepts)
        then show ?thesis
          using rtp cls u Some parsed pk recv_media_inv [OF s1, where clock = "clock 0" and a = "as_receivedPacketCount s1 + 1"
              and b = "ucast (h_sequenceNumber (p_header packet))" and packet = packet]
          by (auto simp: recv_datagram_def Let_def case_prod_beta)
      qed
    qed
  qed
qed

lemma recvFrom_total: "recvFrom len s \<noteq> None"
proof -
  have "maybeUnwrapTurnDataIndication d t \<noteq> None" for d t
    using ice_parse_safe(3) [of "fst d"] by (cases d) (auto simp: maybeUnwrapTurnDataIndication_def Let_def)
  then show ?thesis
    by (auto simp: recvFrom_def Option.bind_eq_None_conv simp del: not_None_eq split: list.split prod.splits)
qed

lemma recvLoop_inv:
  assumes "audio_inv env fp s" "socket_step (ae_qs env) (as_mediaSocket s) (others (as_mediaSocket s))"
    and "handshake_stays_complete (ssl_api (ae_ssl env))" "peer_certificate_fixed (ssl_api (ae_ssl env))"
  shows "\<exists>s'. recvLoop_iteration env others now clock s = Some s' \<and> audio_inv env fp s'"
proof -
  obtain w sock where w: "waitForReadable (-1) True others (as_mediaSocket s) = (w, sock)" by fastforce
  have "us_inv sock"
    using us_inv_step [OF socket_step.wait [OF assms(2) w]] audio_inv_sock [OF assms(1)] by blast
  then have s1: "audio_inv env fp (s\<lparr>as_mediaSocket := sock\<rparr>)"
    using assms(1) by (intro audio_inv_socket [OF assms(1)]) (simp_all add: inv_part_def)
  obtain r sock2 where r: "recvFrom 1500 sock = Some (r, sock2)" using recvFrom_total by fast
  have "us_inv sock2" using recvFrom_keeps [OF r] \<open>us_inv sock\<close> same_routing_inv by blast
  then have s2: "audio_inv env fp (s\<lparr>as_mediaSocket := sock2\<rparr>)"
    using assms(1) by (intro audio_inv_socket [OF assms(1)]) (simp_all add: inv_part_def)
  show ?thesis
    using w r s1 s2 recv_datagram_inv [OF s2 assms(3,4)]
    by (cases r) (auto simp: recvLoop_iteration_def Let_def)
qed

section \<open>The send loop\<close>

lemma send_chunks_inv:
  "send_chunks env en clock wall frame efs cs peer idx e s = (e', s') \<Longrightarrow> audio_inv env fp s \<Longrightarrow> audio_inv env fp s'"
proof (induction idx arbitrary: e s)
  case (Cons i idx)
  show ?case
  proof (cases "as_dtlsStarted s \<and> \<not> as_srtpReady s")
    case True
    obtain ok s1 where c: "sendCachedDtlsHandshakeLocked env (clock i) peer s = (ok, s1)" by fastforce
    have "s' = s1" using Cons.prems(1) True c by simp
    then show ?thesis using cached_keeps(1,2) [OF c] Cons.prems(2) audio_inv_part by metis
  next
    case False
    let ?chunk = "\<lparr> af_sampleRate = af_sampleRate frame, af_channels = af_channels frame,
       af_pts = af_pts frame + int i * efs, af_samples = take cs (drop (i * cs) (af_samples frame)) \<rparr>"
    obtain ok f e1 s1 where x: "encodeAndSend env en (clock i) ?chunk peer e s = (ok, f, e1, s1)" by (metis prod_cases4)
    have s1: "audio_inv env fp s1" using encodeAndSend_inv [OF x Cons.prems(2)] .
    obtain ok2 s2 where y: "sendSenderReportLocked env (clock i) (wall i) peer (word_of_int (ef_pts f)) s1 = (ok2, s2)" by fastforce
    have s2: "audio_inv env fp s2" using sendSenderReport_inv [OF y s1] .
    show ?thesis using Cons.prems(1) Cons.IH [OF _ s2] False x y s1 by (cases ok) (auto simp: Let_def)
  qed
qed simp

lemma sendLoop_inv:
  assumes "sendLoop_iteration env en clock wall captured process e s = (e', s')" "audio_inv env fp s"
  shows "audio_inv env fp s'"
  using assms
  by (auto simp: sendLoop_iteration_def Let_def split: option.splits if_splits sum.splits prod.splits
      dest: send_chunks_inv [OF _ assms(2)])

section \<open>The life of a session\<close>

inductive audio_step ::
  "('ssl, 's, 'd) audio_env \<Rightarrow> 'e audio_encoder \<Rightarrow> string \<Rightarrow> ('ssl, 's, 'd) AudioCallSession \<Rightarrow>
   ('ssl, 's, 'd) AudioCallSession \<Rightarrow> bool" for env en fp where
  start: "AudioCallSession_start env r s = (ok, s') \<Longrightarrow> audio_step env en fp s s'"
| stop: "audio_step env en fp s (AudioCallSession_stop s)"
| set_peer: "audio_step env en fp s (AudioCallSession_setPeer env a p s)"
| relay: "AudioCallSession_configureTurnRelay env qc cs a p ta tp u c pa pp s = Some (ok, s') \<Longrightarrow> audio_step env en fp s s'"
| ssrc: "audio_step env en fp s (setAudioSsrc n s)"
| mute: "audio_step env en fp s (s\<lparr>as_captureMuted := b\<rparr>)"
| prepare: "prepareDtlsFingerprint env s = (f, s') \<Longrightarrow> audio_step env en fp s s'"
| dtls: "startDtlsSrtp env now fp s = (ok, s') \<Longrightarrow> audio_step env en fp s s'"
| probe: "sendTransportProbe env packet s = (ok, s') \<Longrightarrow> audio_step env en fp s s'"
| io: "audio_step env en fp s (s\<lparr>as_mediaSocket := enqueuePendingDatagramsFromSocket (ae_qs env) ds (as_mediaSocket s)\<rparr>)"
| send: "sendLoop_iteration env en clock wall captured process e s = (e', s') \<Longrightarrow> audio_step env en fp s s'"
| recv: "socket_step (ae_qs env) (as_mediaSocket s) (others (as_mediaSocket s)) \<Longrightarrow>
    recvLoop_iteration env others now clck s = Some s' \<Longrightarrow> audio_step env en fp s s'"

lemma audio_inv_step:
  assumes "handshake_stays_complete (ssl_api (ae_ssl env))" "peer_certificate_fixed (ssl_api (ae_ssl env))"
  shows "audio_step env en fp s s' \<Longrightarrow> audio_inv env fp s \<Longrightarrow> audio_inv env fp s'"
proof (induction rule: audio_step.induct)
  case (ssrc s n)
  then show ?case by (rule audio_inv_same) (simp_all add: setAudioSsrc_def inv_part_def)
next
  case (mute s b)
  then show ?case by (rule audio_inv_same) (simp_all add: inv_part_def)
next
  case (probe packet s ok s')
  show ?case
  proof (cases "s' = s")
    case False
    then obtain n where "session_send env packet (us_peer (as_mediaSocket s)) s = (n, s')"
      using probe(1) by (auto simp: sendTransportProbe_def split: if_splits prod.splits)
    then show ?thesis using session_send_keeps(1,2) probe(2) audio_inv_part by metis
  qed (use probe in simp)
next
  case (io s ds)
  have "us_inv (enqueuePendingDatagramsFromSocket (ae_qs env) ds (as_mediaSocket s))"
    using us_inv_step [OF socket_step.arrive] audio_inv_sock [OF io] by blast
  then show ?case using io by (intro audio_inv_socket [OF io]) (simp_all add: inv_part_def)
next
  case (recv s others now clck s')
  then show ?case using recvLoop_inv [where others = others, OF recv(3,1) assms, of now clck] by auto
next
  case (start r s ok s')
  then show ?case by (rule audio_start_inv)
next
  case (stop s)
  then show ?case by (rule audio_stop_inv)
next
  case (set_peer s a p)
  then show ?case by (rule audio_setPeer_inv)
next
  case (relay qc cs a p ta tp u c pa pp s ok s')
  then show ?case by (rule audio_relay_inv)
next
  case (prepare s f s')
  then show ?case by (rule audio_prepare_inv)
next
  case (dtls now s ok s')
  then show ?case by (rule audio_dtls_inv)
next
  case (send clock wall captured process e s e' s')
  then show ?case by (rule sendLoop_inv)
qed

interpretation audio: state_machine "\<lambda>s. \<exists>config now d. s = AudioCallSession_new config now d" "audio_step env en fp"
  "\<lambda>s. handshake_stays_complete (ssl_api (ae_ssl env)) \<and> peer_certificate_fixed (ssl_api (ae_ssl env)) \<longrightarrow> audio_inv env fp s"
  for env en fp
  by unfold_locales (auto simp: audio_inv_new intro: audio_inv_step)

lemma audio_reachable_inv:
  assumes "handshake_stays_complete (ssl_api (ae_ssl env))" "peer_certificate_fixed (ssl_api (ae_ssl env))"
    and "(audio_step env en fp)\<^sup>*\<^sup>* (AudioCallSession_new config now d) s"
  shows "audio_inv env fp s"
  using audio.reachable_inv [of "AudioCallSession_new config now d" env en fp s] assms by blast

text \<open>
  C10. No datagram stops the receive loop. In every state a session can reach, whatever is waiting in
  the socket and whatever happens to the socket while the thread waits, one iteration of the loop
  comes to an end and reads nothing outside the datagram: the relay, DTLS, STUN, RTCP and RTP paths
  all return, the jitter buffer is drained, and no conversion of the bandwidth estimator is undefined.
  The bitrate the encoder is given afterwards lies between 16 and 64 kbit/s whenever the configured
  one does.
\<close>

theorem audio_receive_total:
  assumes "handshake_stays_complete (ssl_api (ae_ssl env))" "peer_certificate_fixed (ssl_api (ae_ssl env))"
    and "(audio_step env en fp)\<^sup>*\<^sup>* (AudioCallSession_new config start d) s"
    and "socket_step (ae_qs env) (as_mediaSocket s) (others (as_mediaSocket s))"
  shows "\<exists>s'. recvLoop_iteration env others now clock s = Some s' \<and>
    (16000 \<le> cfg_bitrate (as_config s') \<and> cfg_bitrate (as_config s') \<le> 64000 \<longrightarrow>
     16000 \<le> as_targetBitrateBps s' \<and> as_targetBitrateBps s' \<le> 64000)"
proof -
  have inv: "audio_inv env fp s" by (rule audio_reachable_inv [OF assms(1-3)])
  obtain s' where s': "recvLoop_iteration env others now clock s = Some s'" "audio_inv env fp s'"
    using recvLoop_inv [where others = others, OF inv assms(4,1,2)] by blast
  have "16000 \<le> as_targetBitrateBps s' \<and> as_targetBitrateBps s' \<le> 64000"
    if "16000 \<le> cfg_bitrate (as_config s')" "cfg_bitrate (as_config s') \<le> 64000"
  proof -
    have "uint (word_of_int (cfg_bitrate (as_config s')) :: u32) = cfg_bitrate (as_config s')"
      using that by (simp add: uint_word_of_int_eq take_bit_int_eq_self)
    then show ?thesis using s'(2) that by (auto simp: audio_inv_def rate_inv_def word_le_def)
  qed
  then show ?thesis using s'(1) by blast
qed

section \<open>Nothing in the clear\<close>

lemma encodeAndSend_wire:
  assumes "encodeAndSend env en now frame peer e s = (ok, f, e', s')" "as_dtlsStarted s"
  shows "as_mediaSocket s' = as_mediaSocket s \<or>
    as_srtpReady s \<and> (\<exists>packet wire c. protectRtp (ae_srtp env) packet (as_outboundSrtp s) = (True, wire, c) \<and>
      as_mediaSocket s' = snd (sendTo (ae_qs env) (ae_rnd env) wire peer (as_mediaSocket s)))"
proof (cases "fst (en_encode en frame e)")
  case (Inl err)
  then show ?thesis using assms by (cases "en_encode en frame e") (auto simp: encodeAndSend_def split: if_splits)
next
  case (Inr encoded)
  obtain e1 where en: "en_encode en frame e = (Inr encoded, e1)" using Inr by (metis prod.collapse)
  obtain packet sender where b: "buildPacket (ef_payloadType encoded) True (word_of_int (ef_pts encoded))
      (ef_payload encoded) (as_sender s) = (packet, sender)" by fastforce
  obtain p q c where p: "protectRtp (ae_srtp env) packet (as_outboundSrtp s) = (p, q, c)" by (metis prod_cases3)
  show ?thesis
  proof (cases "as_srtpReady s \<and> p \<and> packet \<noteq> []")
    case False
    then have "as_mediaSocket s' = as_mediaSocket s"
      using assms en b p by (auto simp: encodeAndSend_def protectRtpLocked_def Let_def split: if_splits)
    then show ?thesis by simp
  next
    case True
    then have "as_mediaSocket s' = snd (sendTo (ae_qs env) (ae_rnd env) q peer (as_mediaSocket s))"
      using assms en b p
      by (auto simp: encodeAndSend_def protectRtpLocked_def session_send_def Let_def split: if_splits prod.splits)
    then show ?thesis using True p by auto
  qed
qed

text \<open>The received media: what was stored, played and counted.\<close>

definition media_part where
  "media_part s = (as_jitter s, as_played s, as_receivedPacketCount s)"

lemma media_part_upd [simp]:
  "media_part (s\<lparr>as_mediaSocket := k\<rparr>) = media_part s" "media_part (s\<lparr>as_dtlsTransport := c\<rparr>) = media_part s"
  "media_part (s\<lparr>as_inboundSrtp := i\<rparr>) = media_part s" "media_part (s\<lparr>as_outboundSrtp := i\<rparr>) = media_part s"
  "media_part (s\<lparr>as_dtlsConnected := b\<rparr>) = media_part s" "media_part (s\<lparr>as_srtpReady := b\<rparr>) = media_part s"
  "media_part (s\<lparr>as_remoteSenderReport := l\<rparr>) = media_part s" "media_part (s\<lparr>as_iceConnected := b\<rparr>) = media_part s"
  "media_part (s\<lparr>as_lastRttMs := r, as_audioBwe := e, as_targetBitrateBps := t\<rparr>) = media_part s"
  "media_part (setErrorLocked m s) = media_part s"
  by (simp_all add: media_part_def setErrorLocked_def)

lemma media_part_send [simp]: "media_part (snd (session_send env d t s)) = media_part s"
  by (simp add: session_send_def case_prod_beta Let_def)

lemma media_part_sends [simp]: "media_part (snd (send_packets env err ps t s)) = media_part s"
  by (induction ps arbitrary: s) (simp_all add: case_prod_beta Let_def)

lemma media_part_configure [simp]: "media_part (snd (configureSrtpLocked env s)) = media_part s"
  by (simp add: configureSrtpLocked_def case_prod_beta Let_def split: option.split)

lemma media_part_dtls [simp]: "media_part (snd (handleDtlsPacketLocked env data sender s)) = media_part s"
  by (simp add: handleDtlsPacketLocked_def case_prod_beta Let_def)

lemma media_part_packet [simp]:
  "media_part (snd (protectRtcpLocked env p s)) = media_part s"
  "media_part (snd (unprotectRtpLocked env p s)) = media_part s"
  "media_part (snd (unprotectRtcpLocked env p s)) = media_part s"
  by (simp_all add: packet_functions case_prod_beta Let_def)

lemma media_part_rr [simp]: "media_part (snd (sendReceiverReportLocked env peer a b c s)) = media_part s"
proof -
  have "media_part s1 = media_part s" if "protectRtcpLocked env p s = (r, s1)" for p r s1
    using media_part_packet(1) [of env p s] that by simp
  then show ?thesis
    by (auto simp: sendReceiverReportLocked_def Let_def case_prod_beta split: prod.split option.split)
qed

lemma media_part_blocks: "handle_blocks now clock blocks handled s = Some (h, s') \<Longrightarrow> media_part s' = media_part s"
proof (induction blocks arbitrary: clock handled s)
  case (Cons block blocks)
  show ?case
  proof (cases "block_rtt now (snd_ssrc (as_sender s)) (as_localSenderReport s) block")
    case None
    then show ?thesis using Cons by simp
  next
    case (Some rtt)
    then obtain b where b: "bwe_onReceiverReport (blk_fractionLost block) rtt (as_audioBwe s) = Some b"
      using Cons.prems by (auto simp: bind_eq_Some_conv)
    obtain k b' where k: "bwe_estimateBitrateKbps (clock 0) b = (k, b')" by fastforce
    have "handle_blocks now (\<lambda>i. clock (Suc i)) blocks True (s\<lparr>as_lastRttMs := rtt, as_audioBwe := b',
        as_targetBitrateBps := max 16000 (min 64000 (k * 1000))\<rparr>) = Some (h, s')"
      using Cons.prems Some b k by (simp add: Let_def)
    from Cons.IH [OF this] show ?thesis by simp
  qed
qed simp

lemma media_part_slices:
  "handle_slices env now clock data sender slices handled s = Some (h, s') \<Longrightarrow> media_part s' = media_part s"
proof (induction slices arbitrary: clock handled s)
  case (Cons part slices)
  let ?next = "\<lambda>i. clock (Suc i)"
  have "\<exists>handled' s1. handle_slices env now ?next data sender slices handled' s1 = Some (h, s') \<and> media_part s1 = media_part s"
    using Cons.prems
    by (simp add: Let_def bind_eq_Some_conv case_prod_beta split: if_splits)
      (force split: option.splits dest: media_part_blocks simp: bind_eq_Some_conv)+
  then show ?case using Cons.IH by force
qed simp

lemma recv_datagram_media:
  assumes "recv_datagram env now clock data sender s = Some s'" "as_dtlsStarted s"
    and "\<not> (as_srtpReady s \<and> fst (unprotectRtp (ae_srtp env) data (as_inboundSrtp s)))"
  shows "media_part s' = media_part s"
proof -
  obtain r1 s1 where u: "unprotectRtcpLocked env data s = (r1, s1)" by fastforce
  obtain r2 s2 where v: "unprotectRtpLocked env data s = (r2, s2)" by fastforce
  have none: "r2 = None" using v assms(2,3) by (auto simp: unprotectRtpLocked_def Let_def split: if_splits prod.splits)
  have s1: "media_part s1 = media_part s" and s2: "media_part s2 = media_part s"
    using media_part_packet(2,3) [of env data s] u v by simp_all
  have h: "media_part t = media_part s1" if "handleRtcpPacketLocked env now clock p sender s1 = Some (b, t)" for p b t
    using that by (auto simp: handleRtcpPacketLocked_def bind_eq_Some_conv dest: media_part_slices split: option.splits)
  show ?thesis
    using assms(1) u v none s1 s2 h
    by (auto simp: recv_datagram_def bind_eq_Some_conv split: if_splits option.splits)
qed

text \<open>
  C4. A call that has started DTLS exchanges media with nobody but the server whose certificate the
  signaling announced. In every state a session can reach after it was told the fingerprint: when
  SRTP is ready, the handshake is complete and the server's certificate has the announced SHA-256
  fingerprint (when the announcement has a hexadecimal digit at all). Whatever frame is sent, the
  datagram on the wire is the output of SRTP protection, and nothing is sent before SRTP is ready.
  Whatever datagram arrives, it changes the stored, played and counted audio only when SRTP
  authenticated it.
\<close>

theorem audio_media_secured:
  assumes "handshake_stays_complete (ssl_api (ae_ssl env))" "peer_certificate_fixed (ssl_api (ae_ssl env))"
    and "(audio_step env en fp)\<^sup>*\<^sup>* (AudioCallSession_new config start d) s" and "as_dtlsStarted s"
  shows "(as_srtpReady s \<longrightarrow> (\<exists>ssl digest. dc_ssl (as_dtlsTransport s) = Some ssl \<and>
      SSL_is_init_finished (ssl_api (ae_ssl env)) ssl \<and> X509_peer_digest (ssl_api (ae_ssl env)) ssl = Some digest \<and>
      (NormalizeFingerprint fp = [] \<or> NormalizeFingerprint fp = FormatFingerprint digest))) \<and>
    (\<forall>now frame peer e ok f e' s'. encodeAndSend env en now frame peer e s = (ok, f, e', s') \<longrightarrow>
      as_mediaSocket s' = as_mediaSocket s \<or> as_srtpReady s \<and>
      (\<exists>packet wire c. protectRtp (ae_srtp env) packet (as_outboundSrtp s) = (True, wire, c) \<and>
        as_mediaSocket s' = snd (sendTo (ae_qs env) (ae_rnd env) wire peer (as_mediaSocket s)))) \<and>
    (\<forall>now clock data sender s'. recv_datagram env now clock data sender s = Some s' \<longrightarrow>
      as_srtpReady s \<and> fst (unprotectRtp (ae_srtp env) data (as_inboundSrtp s)) \<or>
      as_jitter s' = as_jitter s \<and> as_played s' = as_played s \<and>
      as_receivedPacketCount s' = as_receivedPacketCount s)"
proof (intro conjI allI impI)
  have inv: "secure_inv env fp s" using audio_reachable_inv [OF assms(1-3)] by (simp add: audio_inv_def)
  show "\<exists>ssl digest. dc_ssl (as_dtlsTransport s) = Some ssl \<and>
      SSL_is_init_finished (ssl_api (ae_ssl env)) ssl \<and> X509_peer_digest (ssl_api (ae_ssl env)) ssl = Some digest \<and>
      (NormalizeFingerprint fp = [] \<or> NormalizeFingerprint fp = FormatFingerprint digest)" if "as_srtpReady s"
    using inv that by (auto simp: secure_inv_def Let_def dtls_checked_def peer_verified_def Normalize_Format)
  show "as_mediaSocket s' = as_mediaSocket s \<or> as_srtpReady s \<and>
      (\<exists>packet wire c. protectRtp (ae_srtp env) packet (as_outboundSrtp s) = (True, wire, c) \<and>
        as_mediaSocket s' = snd (sendTo (ae_qs env) (ae_rnd env) wire peer (as_mediaSocket s)))"
    if "encodeAndSend env en now frame peer e s = (ok, f, e', s')" for now frame peer e ok f e' s'
    using encodeAndSend_wire [OF that assms(4)] .
  show "as_srtpReady s \<and> fst (unprotectRtp (ae_srtp env) data (as_inboundSrtp s)) \<or>
      as_jitter s' = as_jitter s \<and> as_played s' = as_played s \<and>
      as_receivedPacketCount s' = as_receivedPacketCount s"
    if "recv_datagram env now clock data sender s = Some s'" for now clock data sender s'
    using recv_datagram_media [OF that assms(4)] by (auto simp: media_part_def)
qed

section \<open>Playing loses nothing\<close>

lemma playout_loop_frames:
  "\<exists>fs. as_played (snd (playout_loop env n m s)) = as_played s @ fs \<and> (\<forall>f \<in> set fs. length (af_samples f) = n) \<and>
     concat (map af_samples fs) @ af_samples (as_playoutAssembler (snd (playout_loop env n m s))) =
       af_samples (as_playoutAssembler s) \<and>
     af_sampleRate (as_playoutAssembler (snd (playout_loop env n m s))) = af_sampleRate (as_playoutAssembler s) \<and>
     af_channels (as_playoutAssembler (snd (playout_loop env n m s))) = af_channels (as_playoutAssembler s) \<and>
     (0 < n \<and> fst (playout_loop env n m s) \<longrightarrow>
       length (af_samples (as_playoutAssembler (snd (playout_loop env n m s)))) < n)"
proof (induction env n m s rule: playout_loop.induct)
  case (1 env n m s)
  let ?asm = "as_playoutAssembler s"
  let ?f = "?asm\<lparr>af_samples := take n (af_samples ?asm)\<rparr>"
  let ?s = "s\<lparr>as_played := as_played s @ [?f], as_playoutAssembler := ?asm\<lparr>af_samples := drop n (af_samples ?asm),
      af_pts := af_pts ?asm + m\<rparr>\<rparr>"
  show ?case
  proof (cases "0 < n \<and> n \<le> length (af_samples ?asm) \<and> ae_enqueueFrame env ?f")
    case False
    then show ?thesis by (subst (1 2 3 4 5 6) playout_loop.simps) (auto simp: Let_def setErrorLocked_def)
  next
    case True
    then have step: "playout_loop env n m s = playout_loop env n m ?s"
      by (subst playout_loop.simps) (simp add: Let_def)
    obtain fs where fs: "as_played (snd (playout_loop env n m ?s)) = as_played ?s @ fs"
      "\<forall>f \<in> set fs. length (af_samples f) = n"
      "concat (map af_samples fs) @ af_samples (as_playoutAssembler (snd (playout_loop env n m ?s))) = drop n (af_samples ?asm)"
      "af_sampleRate (as_playoutAssembler (snd (playout_loop env n m ?s))) = af_sampleRate ?asm"
      "af_channels (as_playoutAssembler (snd (playout_loop env n m ?s))) = af_channels ?asm"
      "0 < n \<and> fst (playout_loop env n m ?s) \<longrightarrow>
        length (af_samples (as_playoutAssembler (snd (playout_loop env n m ?s)))) < n"
      using "1.IH" [of ?asm ?f] True by auto
    show ?thesis unfolding step using fs True by (intro exI [of _ "?f # fs"]) auto
  qed
qed

lemma playout_accepted: "\<forall>f. ae_enqueueFrame env f \<Longrightarrow> fst (playout_loop env n m s)"
proof (induction env n m s rule: playout_loop.induct)
  case (1 env n m s)
  then show ?case by (subst playout_loop.simps) (auto simp: Let_def)
qed

definition player_frame_size :: "('ssl, 's, 'd) audio_env \<Rightarrow> ('ssl, 's, 'd) AudioCallSession \<Rightarrow> nat" where
  "player_frame_size env s = nat (ae_playerFrameSamples env) * nat (cfg_channels (as_config s))"

definition playable :: "('ssl, 's, 'd) AudioCallSession \<Rightarrow> AudioFrame \<Rightarrow> bool" where
  "playable s f \<longleftrightarrow> af_sampleRate f = cfg_sampleRate (as_config s) \<and> af_channels f = cfg_channels (as_config s) \<and>
     af_samples f \<noteq> [] \<and> length (af_samples f) mod nat (cfg_channels (as_config s)) = 0"

text \<open>The samples that wait are those of a frame with the session's own parameters.\<close>

definition assembler_ok :: "('ssl, 's, 'd) AudioCallSession \<Rightarrow> bool" where
  "assembler_ok s \<longleftrightarrow> af_samples (as_playoutAssembler s) = [] \<or>
     af_sampleRate (as_playoutAssembler s) = cfg_sampleRate (as_config s) \<and>
     af_channels (as_playoutAssembler s) = cfg_channels (as_config s)"

lemma queue_one:
  assumes "\<forall>f. ae_enqueueFrame env f" "0 < cfg_channels (as_config s)" "0 < ae_playerFrameSamples env"
    "playable s frame" "assembler_ok s"
  defines "n \<equiv> nat (ae_playerFrameSamples env) * nat (cfg_channels (as_config s))"
  shows "\<exists>fs. as_played (queueDecodedFrameForPlayback env frame s) = as_played s @ fs \<and>
      (\<forall>f \<in> set fs. length (af_samples f) = n) \<and>
      concat (map af_samples fs) @ af_samples (as_playoutAssembler (queueDecodedFrameForPlayback env frame s)) =
        af_samples (as_playoutAssembler s) @ af_samples frame \<and>
      length (af_samples (as_playoutAssembler (queueDecodedFrameForPlayback env frame s))) < n \<and>
      assembler_ok (queueDecodedFrameForPlayback env frame s) \<and>
      as_config (queueDecodedFrameForPlayback env frame s) = as_config s"
proof -
  let ?asm = "as_playoutAssembler s"
  define asm2 where "asm2 = (if af_samples ?asm = [] then \<lparr> af_sampleRate = af_sampleRate frame,
      af_channels = af_channels frame, af_pts = af_pts frame, af_samples = af_samples frame \<rparr>
    else ?asm\<lparr>af_samples := af_samples ?asm @ af_samples frame\<rparr>)"
  define r where "r = playout_loop env n (ae_playerFrameSamples env) (s\<lparr>as_playoutAssembler := asm2\<rparr>)"
  have n: "0 < n" using assms(2,3) by (simp add: n_def)
  have ok: "fst r" unfolding r_def by (rule playout_accepted [OF assms(1)])
  obtain fs where fs: "as_played (snd r) = as_played s @ fs" "\<forall>f \<in> set fs. length (af_samples f) = n"
    "concat (map af_samples fs) @ af_samples (as_playoutAssembler (snd r)) = af_samples asm2"
    "af_sampleRate (as_playoutAssembler (snd r)) = af_sampleRate asm2"
    "af_channels (as_playoutAssembler (snd r)) = af_channels asm2"
    "length (af_samples (as_playoutAssembler (snd r))) < n"
    using playout_loop_frames [of env n "ae_playerFrameSamples env" "s\<lparr>as_playoutAssembler := asm2\<rparr>"] n ok
    by (auto simp: r_def)
  have asm2: "af_samples asm2 = af_samples ?asm @ af_samples frame"
    "af_sampleRate asm2 = cfg_sampleRate (as_config s)" "af_channels asm2 = cfg_channels (as_config s)"
    using assms(4,5) by (auto simp: asm2_def playable_def assembler_ok_def)
  have conf: "as_config (snd r) = as_config s"
    using playout_part [of env n "ae_playerFrameSamples env" "s\<lparr>as_playoutAssembler := asm2\<rparr>"]
    by (simp add: r_def play_part_def)
  let ?done = "\<lparr> af_sampleRate = af_sampleRate frame, af_channels = af_channels frame,
      af_pts = af_pts frame + int (length (af_samples frame) div nat (cfg_channels (as_config s))), af_samples = [] \<rparr>"
  have q: "queueDecodedFrameForPlayback env frame s =
      (if af_samples (as_playoutAssembler (snd r)) = [] then (snd r)\<lparr>as_playoutAssembler := ?done\<rparr> else snd r)"
  proof -
    have eq: "(if af_samples ?asm = [] then \<lparr> af_sampleRate = af_sampleRate frame, af_channels = af_channels frame,
          af_pts = af_pts frame, af_samples = [] \<rparr>
        else if af_sampleRate ?asm \<noteq> af_sampleRate frame \<or> af_channels ?asm \<noteq> af_channels frame
        then \<lparr> af_sampleRate = af_sampleRate frame, af_channels = af_channels frame, af_pts = af_pts frame, af_samples = [] \<rparr>
        else ?asm)\<lparr>af_samples := af_samples (if af_samples ?asm = [] then
            \<lparr> af_sampleRate = af_sampleRate frame, af_channels = af_channels frame, af_pts = af_pts frame, af_samples = [] \<rparr>
          else if af_sampleRate ?asm \<noteq> af_sampleRate frame \<or> af_channels ?asm \<noteq> af_channels frame
          then \<lparr> af_sampleRate = af_sampleRate frame, af_channels = af_channels frame, af_pts = af_pts frame, af_samples = [] \<rparr>
          else ?asm) @ af_samples frame\<rparr> = asm2"
      using assms(4,5) by (auto simp: asm2_def playable_def assembler_ok_def)
    show ?thesis
      using assms(2,3,4) n ok
      unfolding queueDecodedFrameForPlayback_def Let_def eq
      by (simp add: playable_def n_def [symmetric] r_def [symmetric] case_prod_beta)
  qed
  show ?thesis
    using fs asm2 conf assms(4) n unfolding q by (auto simp: assembler_ok_def playable_def)
qed

text \<open>
  C11. Playing loses no sample. Decoded frames of any length, as long as they have the session's
  sample rate and channels, are cut into frames of exactly the player's size: the samples the player
  gets, followed by the fewer than one frame that wait for more, are the samples of the decoded
  frames, in order and each exactly once.
\<close>

theorem playout_lossless:
  assumes "\<forall>f. ae_enqueueFrame env f" "0 < cfg_channels (as_config s)" "0 < ae_playerFrameSamples env"
    and "af_samples (as_playoutAssembler s) = []" and "\<forall>f \<in> set frames. playable s f"
  shows "\<exists>fs. as_played (fold (queueDecodedFrameForPlayback env) frames s) = as_played s @ fs \<and>
      (\<forall>f \<in> set fs. length (af_samples f) = player_frame_size env s) \<and>
      concat (map af_samples fs) @ af_samples (as_playoutAssembler (fold (queueDecodedFrameForPlayback env) frames s)) =
        concat (map af_samples frames) \<and>
      length (af_samples (as_playoutAssembler (fold (queueDecodedFrameForPlayback env) frames s))) < player_frame_size env s"
proof -
  define n where "n = player_frame_size env s"
  have "\<exists>fs. as_played (fold (queueDecodedFrameForPlayback env) frames s) = as_played s @ fs \<and>
      (\<forall>f \<in> set fs. length (af_samples f) = n) \<and>
      concat (map af_samples fs) @ af_samples (as_playoutAssembler (fold (queueDecodedFrameForPlayback env) frames s)) =
        af_samples (as_playoutAssembler s) @ concat (map af_samples frames) \<and>
      length (af_samples (as_playoutAssembler (fold (queueDecodedFrameForPlayback env) frames s))) < n"
    if "\<forall>f \<in> set frames. playable s f" "assembler_ok s" "length (af_samples (as_playoutAssembler s)) < n"
      "0 < cfg_channels (as_config s)" "n = player_frame_size env s" for s
    using that
  proof (induction frames arbitrary: s)
    case (Cons frame frames)
    let ?s = "queueDecodedFrameForPlayback env frame s"
    obtain fs where fs: "as_played ?s = as_played s @ fs" "\<forall>f \<in> set fs. length (af_samples f) = n"
      "concat (map af_samples fs) @ af_samples (as_playoutAssembler ?s) = af_samples (as_playoutAssembler s) @ af_samples frame"
      "length (af_samples (as_playoutAssembler ?s)) < n" "assembler_ok ?s" "as_config ?s = as_config s"
      using queue_one [OF assms(1) Cons.prems(4) assms(3), of frame] Cons.prems by (auto simp: player_frame_size_def)
    have "\<forall>f \<in> set frames. playable ?s f" using Cons.prems(1) fs(6) by (simp add: playable_def)
    then obtain gs where gs: "as_played (fold (queueDecodedFrameForPlayback env) frames ?s) = as_played ?s @ gs"
      "\<forall>f \<in> set gs. length (af_samples f) = n"
      "concat (map af_samples gs) @ af_samples (as_playoutAssembler (fold (queueDecodedFrameForPlayback env) frames ?s)) =
        af_samples (as_playoutAssembler ?s) @ concat (map af_samples frames)"
      "length (af_samples (as_playoutAssembler (fold (queueDecodedFrameForPlayback env) frames ?s))) < n"
      using Cons.IH [of ?s] fs(4-6) Cons.prems(4,5) by (auto simp: player_frame_size_def)
    have "concat (map af_samples (fs @ gs)) @ af_samples (as_playoutAssembler (fold (queueDecodedFrameForPlayback env) frames ?s)) =
        (concat (map af_samples fs) @ af_samples (as_playoutAssembler ?s)) @ concat (map af_samples frames)"
      using gs(3) by simp
    then show ?case
      using fs(1,2) gs(1,2,4) unfolding fs(3) by (intro exI [of _ "fs @ gs"]) auto
  qed simp
  from this [of s] assms show ?thesis by (simp add: assembler_ok_def n_def player_frame_size_def)
qed

section \<open>A call in operation\<close>

definition demo_capi :: "nat client_openssl" where
  "demo_capi = \<lparr> ssl_api = demo_ssl, generateCertificate_ok = True, X509_local_digest = Some [1],
     SSL_CTX_new_ok = True, SSL_CTX_configure_ok = True \<rparr>"

definition demo_audio :: "(nat, unit, unit) audio_env" where
  "demo_audio = \<lparr> ae_qs = demo_qs, ae_rnd = (\<lambda>_. 0), ae_ssl = demo_capi, ae_srtp = demo_srtp,
     ae_decode = (\<lambda>f d. (Inr \<lparr> af_sampleRate = 48000, af_channels = 1, af_pts = ef_pts f, af_samples = [1, 2] \<rparr>, d)),
     ae_enqueueFrame = (\<lambda>_. True), ae_playerFrameSamples = 3 \<rparr>"

definition demo_encoder :: "unit audio_encoder" where
  "demo_encoder = \<lparr> en_encode = (\<lambda>f e. (Inr EncodedAudioFrame_new, e)), en_frameSamples = (\<lambda>_. 960),
     en_channels = (\<lambda>_. 1), en_sampleRate = (\<lambda>_. 48000), en_bitrate = (\<lambda>_. 32000), en_setBitrate = (\<lambda>_ e. (True, e)) \<rparr>"

definition demo_config :: AudioCallSessionConfig where
  "demo_config = \<lparr> cfg_localAddress = [], cfg_localPort = 0, cfg_peerAddress = ''p'', cfg_peerPort = 4000,
     cfg_sampleRate = 48000, cfg_channels = 1, cfg_frameSamples = 960, cfg_bitrate = 32000, cfg_jitterPackets = 32,
     cfg_allowSelfPlayback = False \<rparr>"

definition demo_start :: start_results where
  "demo_start = \<lparr> sr_encoder = True, sr_decoderPlayer = True, sr_aec = True, sr_ns = True, sr_agc = True,
     sr_capture = True, sr_player = True, sr_threads = True, sr_random = 77, sr_now = 0 \<rparr>"

definition demo_call :: "(nat, unit, unit) AudioCallSession" where
  "demo_call = snd (startDtlsSrtp demo_audio 0 ''ab:01''
     (snd (AudioCallSession_start demo_audio demo_start (AudioCallSession_new demo_config 0 ()))))"

text \<open>A DTLS record from the server, on its way into the socket.\<close>

definition demo_arrival :: "UdpPeerSocket \<Rightarrow> UdpPeerSocket" where
  "demo_arrival = enqueuePendingDatagramsFromSocket demo_qs
     [Some ([22, 0xFE, 0xFD, 0, 0, 0, 0, 0, 0, 0, 0, 0, 0], \<lparr> ue_address = IPv4 2, ue_port = 4000 \<rparr>)]"

definition demo_secured :: "(nat, unit, unit) AudioCallSession mem" where
  "demo_secured = recvLoop_iteration demo_audio demo_arrival 0 (\<lambda>_ _. 0) demo_call"

lemma demo_call_reachable: "(audio_step demo_audio demo_encoder ''ab:01'')\<^sup>*\<^sup>* (AudioCallSession_new demo_config 0 ()) demo_call"
  unfolding demo_call_def
  by (rule rtranclp.rtrancl_into_rtrancl [OF r_into_rtranclp])
    (rule audio_step.start [OF surjective_pairing], rule audio_step.dtls [OF surjective_pairing])

lemma demo_secured_ok: "map_option (\<lambda>s. (as_srtpReady s, as_dtlsStarted s)) demo_secured = Some (True, True)"
  by code_simp

lemma demo_audio_ssl: "handshake_stays_complete (ssl_api (ae_ssl demo_audio))" "peer_certificate_fixed (ssl_api (ae_ssl demo_audio))"
  using demo_ssl_ok by (simp_all add: demo_audio_def demo_capi_def)

lemma demo_arrives: "socket_step (ae_qs demo_audio) k (demo_arrival k)"
  unfolding demo_arrival_def demo_audio_def by (simp add: socket_step.arrive)

theorem audio_media_secured_witness:
  "\<exists>s ssl digest. demo_secured = Some s \<and> as_srtpReady s \<and> dc_ssl (as_dtlsTransport s) = Some ssl \<and>
     X509_peer_digest demo_ssl ssl = Some digest \<and> NormalizeFingerprint ''ab:01'' = FormatFingerprint digest"
proof -
  obtain s where s: "demo_secured = Some s" "as_srtpReady s" "as_dtlsStarted s" using demo_secured_ok by auto
  have "audio_step demo_audio demo_encoder ''ab:01'' demo_call s"
    by (rule audio_step.recv [where others = demo_arrival, OF demo_arrives]) (use s(1) in \<open>simp add: demo_secured_def\<close>)
  then have reach: "(audio_step demo_audio demo_encoder ''ab:01'')\<^sup>*\<^sup>* (AudioCallSession_new demo_config 0 ()) s"
    using demo_call_reachable by simp
  have "NormalizeFingerprint ''ab:01'' \<noteq> []" by code_simp
  then show ?thesis
    using audio_media_secured [OF demo_audio_ssl reach s(3)] s(1,2)
    by (auto simp: demo_audio_def demo_capi_def)
qed

theorem audio_receive_total_witness:
  "\<exists>s'. recvLoop_iteration demo_audio demo_arrival 0 (\<lambda>_ _. 0) demo_call = Some s' \<and> as_srtpReady s'"
proof -
  obtain s' where "recvLoop_iteration demo_audio demo_arrival 0 (\<lambda>_ _. 0) demo_call = Some s'"
    using audio_receive_total [where others = demo_arrival, OF demo_audio_ssl demo_call_reachable demo_arrives, of 0 "\<lambda>_ _. 0"]
    by blast
  then show ?thesis using demo_secured_ok by (simp add: demo_secured_def)
qed

definition demo_frame :: "rat list \<Rightarrow> AudioFrame" where
  "demo_frame xs = \<lparr> af_sampleRate = 48000, af_channels = 1, af_pts = 0, af_samples = xs \<rparr>"

theorem playout_lossless_witness:
  "\<exists>fs. as_played (fold (queueDecodedFrameForPlayback demo_audio) [demo_frame [1, 2], demo_frame [3, 4, 5]]
       (AudioCallSession_new demo_config 0 ())) = fs \<and> (\<forall>f \<in> set fs. length (af_samples f) = 3)"
  using playout_lossless [of demo_audio "AudioCallSession_new demo_config 0 ()" "[demo_frame [1, 2], demo_frame [3, 4, 5]]"]
  by (auto simp: demo_audio_def AudioCallSession_new_def demo_config_def demo_frame_def playable_def AudioFrame_new_def
      player_frame_size_def)

section \<open>What starting a call forgets\<close>

text \<open>
  The synchronisation source the signaling assigned before the call is started is replaced by a
  random one.
\<close>

lemma start_overwrites_ssrc:
  assumes "AudioCallSession_start env r (setAudioSsrc assigned s) = (True, s')"
  shows "snd_ssrc (as_sender s') = sr_random r"
  using assms
  by (auto simp: AudioCallSession_start_def reset_call_def openSocketLocked_def setSSRC_def setSequence_def Let_def
      split: if_splits option.splits prod.splits)

text \<open>
  A session that is stopped and started again keeps the DTLS client of its first life, so starting
  DTLS again sends nothing and leaves the call without keys: it waits for a handshake that never begins.
\<close>

lemma restarted_call_stays_silent:
  assumes "dc_started (as_dtlsTransport s)" "AudioCallSession_start env r s = (True, s1)"
    "startDtlsSrtp env now fp s1 = (ok, s2)"
  shows "as_mediaSocket s2 = as_mediaSocket s1 \<and> \<not> as_srtpReady s2"
proof -
  have s1: "as_dtlsTransport s1 = as_dtlsTransport s" "\<not> as_srtpReady s1" "as_dtlsHandshakePackets s1 = []" "\<not> as_dtlsStarted s1"
    using assms(2)
    by (auto simp: AudioCallSession_start_def reset_call_def openSocketLocked_def Let_def
        split: if_splits option.splits prod.splits)
  then have "DtlsTransportClient_start (ae_ssl env) fp True (as_dtlsTransport s1) = (True, [], as_dtlsTransport s1)"
    using assms(1) by (simp add: DtlsTransportClient_start_def)
  then show ?thesis
    using assms(3) s1 by (auto simp: startDtlsSrtp_def sendCachedDtlsHandshakeLocked_def Let_def split: if_splits)
qed

text \<open>An announced fingerprint without a hexadecimal digit passes the test for text and turns the certificate check off.\<close>

lemma fingerprint_without_digits: "QString_trimmed ''??'' \<noteq> [] \<and> normalizeFingerprint ''??'' = []"
  by code_simp

end
