(* ===== verification/SecureChannel.thy ===== *)
theory SecureChannel
  imports AudioMedia
begin

text \<open>
  The two ends of the secure transport together: the audio session of a client
  (\<open>AudioCallSession.cpp\<close>) and the participant transport of the media server
  (\<open>ParticipantTransport.h\<close>), after the handshake they share. The keys each side derives with its
  own code fit together, and what one protects the other reads back, packet by packet, in both
  directions.

  \<open>srtp_channel\<close> is what libsrtp2 documents of two sessions for one key: a relation \<open>R\<close> between the
  packets sent so far, each known by its SSRC and sequence number, the state of the sender and the state of the receiver. It holds when both
  were created. A packet the sender protects is accepted by the receiver and gives back its bytes if no packet of
  its SSRC and sequence number was sent before: the policies of both sides set \<open>allow_repeat_tx\<close>, so the sender would protect
  such a repetition too, and the receiver would refuse it as a replay. A datagram that arrives a second time is refused, and
  that does not disturb the receiver.
\<close>

type_synonym packet_id = "u32 \<times> u16"

definition rtp_id :: "bytes \<Rightarrow> packet_id" where
  "rtp_id packet = (be32 (packet ! 8) (packet ! 9) (packet ! 10) (packet ! 11), be16 (packet ! 2) (packet ! 3))"

definition srtp_channel :: "'s libsrtp \<Rightarrow> (packet_id list \<Rightarrow> 's \<Rightarrow> 's \<Rightarrow> bool) \<Rightarrow> bool" where
  "srtp_channel lib R \<longleftrightarrow>
     (\<forall>key a b. srtp_create lib key Outbound 0 = (0, Some a) \<and> srtp_create lib key Inbound 0 = (0, Some b) \<longrightarrow> R [] a b) \<and>
     (\<forall>sent a b packet n buffer a'. R sent a b \<and> 12 \<le> length packet \<and> rtp_id packet \<notin> set sent \<and>
          srtp_protect lib packet a = (0, n, buffer, a') \<longrightarrow>
        (\<exists>plain b'. srtp_unprotect lib (resize (nat n) buffer) b = (0, int (length packet), plain, b') \<and>
           take (length packet) plain = packet \<and> length packet \<le> length plain \<and> R (rtp_id packet # sent) a' b' \<and>
           (\<exists>status m rest b''. srtp_unprotect lib (resize (nat n) buffer) b' = (status, m, rest, b'') \<and> status \<noteq> 0 \<and>
              R (rtp_id packet # sent) a' b'')))"

text \<open>A sending and a receiving SRTP session whose native states are related.\<close>

definition linked ::
  "'s libsrtp \<Rightarrow> (packet_id list \<Rightarrow> 's \<Rightarrow> 's \<Rightarrow> bool) \<Rightarrow> packet_id list \<Rightarrow> 's SrtpSession \<Rightarrow> 's SrtpSession \<Rightarrow> bool" where
  "linked lib R sent out inb \<longleftrightarrow> have_libsrtp2 lib \<and> SrtpSession_IsConfigured out \<and> SrtpSession_IsConfigured inb \<and>
     (\<exists>a b. srs_session out = Some a \<and> srs_session inb = Some b \<and> R sent a b)"

lemma linked_erase [simp]:
  "linked lib R sent (erase_srtp out) inb = linked lib R sent out inb"
  "linked lib R sent out (erase_srtp inb) = linked lib R sent out inb"
  by (simp_all add: linked_def SrtpSession_IsConfigured_def)

lemma packet_through:
  assumes "srtp_channel lib R" "linked lib R sent out inb" "12 \<le> length packet" "rtp_id packet \<notin> set sent"
    and "protect_packet lib (srtp_protect lib) opn e packet out = (True, wire, out')"
  obtains inb' rest inb'' where "unprotect_packet lib (srtp_unprotect lib) opn' e' wire inb = (True, packet, inb')"
    "linked lib R (rtp_id packet # sent) out' inb'"
    "unprotect_packet lib (srtp_unprotect lib) opn' e' wire inb' = (False, rest, inb'')"
    "linked lib R (rtp_id packet # sent) out' inb''"
proof -
  obtain a b where ab: "srs_session out = Some a" "srs_session inb = Some b" "R sent a b"
    using assms(2) by (auto simp: linked_def)
  obtain a' n buffer where p: "srtp_protect lib packet a = (0, int n, buffer, a')" "wire = resize n buffer"
    "srs_session out' = Some a'" "length packet < length wire"
    using protect_packet_success [OF assms(5)] ab(1) by auto
  obtain plain b' status m rest b'' where u: "srtp_unprotect lib wire b = (0, int (length packet), plain, b')"
    "take (length packet) plain = packet" "length packet \<le> length plain" "R (rtp_id packet # sent) a' b'"
    and again: "srtp_unprotect lib wire b' = (status, m, rest, b'')" "status \<noteq> 0" "R (rtp_id packet # sent) a' b''"
    using assms(1,3,4) ab(3) p(1,2) unfolding srtp_channel_def by (metis nat_int)
  have plain: "resize (length packet) plain = packet" using u(2,3) by (simp add: resize_def)
  have out': "SrtpSession_IsConfigured out'"
    using protect_packet_keys(1) [of lib "srtp_protect lib" opn e packet out] assms(2,5) by (simp add: linked_def)
  have ne: "wire \<noteq> []" "packet \<noteq> []" using p(4) assms(3) by auto
  let ?inb' = "inb\<lparr>srs_session := Some b', srs_lastError := []\<rparr>"
  have first: "unprotect_packet lib (srtp_unprotect lib) opn' e' wire inb = (True, packet, ?inb')"
    using assms(2) ab(2) u(1) ne plain by (simp add: unprotect_packet_def linked_def)
  let ?inb'' = "?inb'\<lparr>srs_session := Some b'', srs_lastError := StatusToString status opn'\<rparr>"
  have second: "unprotect_packet lib (srtp_unprotect lib) opn' e' wire ?inb' = (False, resize (length wire) rest, ?inb'')"
    using assms(2) again(1,2) ne by (simp add: unprotect_packet_def linked_def SrtpSession_IsConfigured_def)
  have "linked lib R (rtp_id packet # sent) out' ?inb'" "linked lib R (rtp_id packet # sent) out' ?inb''"
    using assms(2) out' p(3) u(4) again(3) by (simp_all add: linked_def SrtpSession_IsConfigured_def)
  with first second show thesis by (intro that)
qed

text \<open>Fresh sessions for one key are linked.\<close>

lemma configured_linked:
  assumes "srtp_channel lib R" "have_libsrtp2 lib"
    and "SrtpSession_Configure lib k n Outbound 0 s = (True, out)" "SrtpSession_Configure lib k n Inbound 0 t = (True, inb)"
  shows "linked lib R [] out inb"
proof -
  obtain a b where "srtp_create lib (k @ n) Outbound 0 = (0, Some a)" "srs_session out = Some a"
    "srtp_create lib (k @ n) Inbound 0 = (0, Some b)" "srs_session inb = Some b"
    using assms(2-4)
    by (auto simp: SrtpSession_Configure_def Let_def split: if_splits option.splits prod.splits)
  then show ?thesis
    using assms Configure_keys [OF assms(3)] Configure_keys [OF assms(4)]
    unfolding linked_def srtp_channel_def by blast
qed

section \<open>Keys of client and server\<close>

lemma context_configured:
  assumes "SRTPContext_configure lib k n dir ssrc s = (True, c)"
  shows "\<exists>out. SrtpSession_Configure lib k n dir ssrc (srtp_view s) = (True, out) \<and> erase_srtp out = srtp_view c"
  using configure_view [of lib k n dir ssrc s] assms
  by (cases "SrtpSession_Configure lib k n dir ssrc (srtp_view s)") auto

definition connected_ends ::
  "('ssl, 's, 'd) audio_env \<Rightarrow> 'ssl openssl \<Rightarrow> ('ssl, 's, 'd) AudioCallSession \<Rightarrow> ('ssl, 's) ParticipantTransport \<Rightarrow> bool" where
  "connected_ends env api s t \<longleftrightarrow>
     (\<exists>d sa sb. dc_ssl (as_dtlsTransport s) = Some sa \<and> pt_dtlsTransport t = Some d \<and> dtls_role d = RoleServer \<and>
        dtls_ssl d = Some sb \<and>
        (\<forall>label n. SSL_export_keying_material (ssl_api (ae_ssl env)) sa label n = SSL_export_keying_material api sb label n))"

lemma client_keys:
  assumes "configureSrtpLocked env s = (True, s')" "\<not> as_srtpReady s"
    and "have_libsrtp2 (ae_srtp env)" "srtp_master_key_length (ae_srtp env) = 16" "srtp_master_salt_length (ae_srtp env) = 14"
  shows "\<exists>m inb outb. exportSrtpKeyMaterial (ae_ssl env) 16 14 (as_dtlsTransport s) = Some m \<and>
    SrtpSession_Configure (ae_srtp env) (remoteKey m) (remoteSalt m) Inbound 0 (srtp_view (as_inboundSrtp s)) = (True, inb) \<and>
    SrtpSession_Configure (ae_srtp env) (localKey m) (localSalt m) Outbound 0 (srtp_view (as_outboundSrtp s)) = (True, outb) \<and>
    erase_srtp inb = srtp_view (as_inboundSrtp s') \<and> erase_srtp outb = srtp_view (as_outboundSrtp s') \<and> as_srtpReady s'"
proof -
  obtain m where m: "exportSrtpKeyMaterial (ae_ssl env) 16 14 (as_dtlsTransport s) = Some m"
    using assms by (auto simp: configureSrtpLocked_def masterKeyLength_def masterSaltLength_def split: if_splits option.splits)
  obtain c1 where c1: "SRTPContext_configure (ae_srtp env) (remoteKey m) (remoteSalt m) Inbound 0 (as_inboundSrtp s) = (True, c1)"
    using assms m
    by (auto simp: configureSrtpLocked_def masterKeyLength_def masterSaltLength_def Let_def split: if_splits prod.splits)
  obtain c2 where c2: "SRTPContext_configure (ae_srtp env) (localKey m) (localSalt m) Outbound 0 (as_outboundSrtp s) = (True, c2)"
    using assms m c1
    by (auto simp: configureSrtpLocked_def masterKeyLength_def masterSaltLength_def Let_def split: if_splits prod.splits)
  have "as_inboundSrtp s' = c1" "as_outboundSrtp s' = c2" "as_srtpReady s'"
    using assms m c1 c2
    by (auto simp: configureSrtpLocked_def masterKeyLength_def masterSaltLength_def Let_def split: if_splits)
  then show ?thesis using m context_configured [OF c1] context_configured [OF c2] by blast
qed

lemma server_keys:
  assumes "ConfigureSrtpSessions api lib t = (True, t')" "pt_dtlsTransport t = Some d"
  shows "\<exists>m. ExportSrtpKeyMaterial api 16 14 d = Some m \<and>
    SrtpSession_Configure lib (remoteKey m) (remoteSalt m) Inbound 0 (pt_inboundSrtp t) = (True, pt_inboundSrtp t') \<and>
    SrtpSession_Configure lib (localKey m) (localSalt m) Outbound 0 (pt_outboundSrtp t) = (True, pt_outboundSrtp t') \<and>
    pt_srtpReady t'"
  using assms
  by (auto simp: ConfigureSrtpSessions_def kMasterKeyLen_def kMasterSaltLen_def Let_def
      split: if_splits option.splits prod.splits)

text \<open>Both directions of a call, client to server and back, with the packets sent in each.\<close>

definition call_linked ::
  "('ssl, 's, 'd) audio_env \<Rightarrow> (packet_id list \<Rightarrow> 's \<Rightarrow> 's \<Rightarrow> bool) \<Rightarrow> packet_id list \<Rightarrow> packet_id list \<Rightarrow>
   ('ssl, 's, 'd) AudioCallSession \<Rightarrow> ('ssl, 's) ParticipantTransport \<Rightarrow> bool" where
  "call_linked env R up down s t \<longleftrightarrow> as_srtpReady s \<and> pt_srtpReady t \<and>
     linked (ae_srtp env) R up (srtp_view (as_outboundSrtp s)) (pt_inboundSrtp t) \<and>
     linked (ae_srtp env) R down (pt_outboundSrtp t) (srtp_view (as_inboundSrtp s))"

lemma keys_fit:
  assumes "srtp_channel (ae_srtp env) R" "have_libsrtp2 (ae_srtp env)"
    and "srtp_master_key_length (ae_srtp env) = 16" "srtp_master_salt_length (ae_srtp env) = 14"
    and "connected_ends env api s t" "\<not> as_srtpReady s" "configureSrtpLocked env s = (True, s')"
    and "ConfigureSrtpSessions api (ae_srtp env) t = (True, t')"
  shows "call_linked env R [] [] s' t'"
proof -
  obtain d sa sb where ends: "dc_ssl (as_dtlsTransport s) = Some sa" "pt_dtlsTransport t = Some d" "dtls_role d = RoleServer"
    "dtls_ssl d = Some sb"
    "\<And>label n. SSL_export_keying_material (ssl_api (ae_ssl env)) sa label n = SSL_export_keying_material api sb label n"
    using assms(5) by (auto simp: connected_ends_def)
  obtain m inb outb where c: "exportSrtpKeyMaterial (ae_ssl env) 16 14 (as_dtlsTransport s) = Some m"
    "SrtpSession_Configure (ae_srtp env) (remoteKey m) (remoteSalt m) Inbound 0 (srtp_view (as_inboundSrtp s)) = (True, inb)"
    "SrtpSession_Configure (ae_srtp env) (localKey m) (localSalt m) Outbound 0 (srtp_view (as_outboundSrtp s)) = (True, outb)"
    "erase_srtp inb = srtp_view (as_inboundSrtp s')" "erase_srtp outb = srtp_view (as_outboundSrtp s')" "as_srtpReady s'"
    using client_keys [OF assms(7,6,2-4)] by blast
  obtain n where v: "ExportSrtpKeyMaterial api 16 14 d = Some n"
    "SrtpSession_Configure (ae_srtp env) (remoteKey n) (remoteSalt n) Inbound 0 (pt_inboundSrtp t) = (True, pt_inboundSrtp t')"
    "SrtpSession_Configure (ae_srtp env) (localKey n) (localSalt n) Outbound 0 (pt_outboundSrtp t) = (True, pt_outboundSrtp t')"
    "pt_srtpReady t'"
    using server_keys [OF assms(8) ends(2)] by blast
  have "localKey m = remoteKey n \<and> localSalt m = remoteSalt n \<and> remoteKey m = localKey n \<and> remoteSalt m = localSalt n"
    using c(1) v(1) ends
    by (auto simp: exportSrtpKeyMaterial_def ExportSrtpKeyMaterial_def Let_def mult.commute split: if_splits option.splits)
  then have "linked (ae_srtp env) R [] (erase_srtp outb) (pt_inboundSrtp t')"
    "linked (ae_srtp env) R [] (pt_outboundSrtp t') (erase_srtp inb)"
    using configured_linked [OF assms(1,2) c(3), of _ "pt_inboundSrtp t'"] configured_linked [OF assms(1,2) v(3), of _ inb]
      c(2) v(2) by auto
  then show ?thesis using c(4-6) v(4) by (simp add: call_linked_def)
qed

section \<open>Packets of client and server\<close>

lemma client_to_server:
  assumes "srtp_channel (ae_srtp env) R" "call_linked env R up down s t" "as_dtlsStarted s"
    and "12 \<le> length packet" "rtp_id packet \<notin> set up" "protectRtpLocked env packet s = (Some wire, s')"
  obtains t' rest t'' where "ParticipantTransport_UnprotectRtp (ae_srtp env) wire t = (True, packet, t')"
    "call_linked env R (rtp_id packet # up) down s' t'"
    "ParticipantTransport_UnprotectRtp (ae_srtp env) wire t' = (False, rest, t'')"
    "call_linked env R (rtp_id packet # up) down s' t''" "as_dtlsStarted s'"
proof -
  let ?opn = "''srtp_unprotect''" and ?e = "''SRTP RTP packet is empty''"
  obtain c where c: "protectRtp (ae_srtp env) packet (as_outboundSrtp s) = (True, wire, c)" "s' = s\<lparr>as_outboundSrtp := c\<rparr>"
    using assms(2,3,6) by (auto simp: protectRtpLocked_def call_linked_def Let_def split: if_splits prod.splits)
  obtain out where p: "protect_packet (ae_srtp env) (srtp_protect (ae_srtp env)) ''srtp_protect'' ?e packet
      (srtp_view (as_outboundSrtp s)) = (True, wire, out)" "erase_srtp out = srtp_view c"
    using context_protect_view [of "ae_srtp env" "srtp_protect (ae_srtp env)" "''srtp_protect''" ?e packet "as_outboundSrtp s"] c(1)
    by (cases "protect_packet (ae_srtp env) (srtp_protect (ae_srtp env)) ''srtp_protect'' ?e packet
      (srtp_view (as_outboundSrtp s))") (auto simp: protectRtp_def)
  have linked: "linked (ae_srtp env) R up (srtp_view (as_outboundSrtp s)) (pt_inboundSrtp t)"
    using assms(2) by (simp add: call_linked_def)
  obtain inb rest inb' where
    u: "unprotect_packet (ae_srtp env) (srtp_unprotect (ae_srtp env)) ?opn ?e wire (pt_inboundSrtp t) = (True, packet, inb)"
    "unprotect_packet (ae_srtp env) (srtp_unprotect (ae_srtp env)) ?opn ?e wire inb = (False, rest, inb')"
    and l: "linked (ae_srtp env) R (rtp_id packet # up) out inb" "linked (ae_srtp env) R (rtp_id packet # up) out inb'"
    using packet_through [OF assms(1) linked assms(4,5) p(1)] by blast
  have l': "linked (ae_srtp env) R (rtp_id packet # up) (srtp_view c) inb"
    "linked (ae_srtp env) R (rtp_id packet # up) (srtp_view c) inb'"
    using l p(2) [symmetric] by simp_all
  let ?t' = "t\<lparr>pt_inboundSrtp := inb, pt_lastError := []\<rparr>"
  show thesis
    by (rule that [of ?t' rest "?t'\<lparr>pt_inboundSrtp := inb', pt_lastError := srs_lastError inb'\<rparr>"])
      (use u l' assms(2,3) c(2) in
        \<open>simp_all add: ParticipantTransport_UnprotectRtp_def SrtpSession_UnprotectRtp_def call_linked_def Let_def\<close>)
qed

lemma unprotect_view:
  assumes "unprotect_packet lib (srtp_unprotect lib) ''srtp_unprotect'' ''SRTP RTP packet is empty'' wire (srtp_view c) = (ok, plain, inb)"
  obtains c' where "unprotectRtp lib wire c = (ok, plain, c')" "srtp_view c' = erase_srtp inb"
  using context_unprotect_view [of lib "srtp_unprotect lib" "''srtp_unprotect''" "''SRTP RTP packet is empty''" wire c] assms
  by (cases "context_unprotect lib (srtp_unprotect lib) ''srtp_unprotect'' ''SRTP RTP packet is empty'' wire c")
    (auto simp: unprotectRtp_def)

lemma unprotect_erased:
  "map_prod id (map_prod id erase_srtp) (unprotect_packet lib native opn e wire (erase_srtp s)) =
   map_prod id (map_prod id erase_srtp) (unprotect_packet lib native opn e wire s)"
  by (auto simp: unprotect_packet_def SrtpSession_IsConfigured_def Let_def split: option.split prod.split)

lemma server_to_client:
  assumes "srtp_channel (ae_srtp env) R" "call_linked env R up down s t" "as_dtlsStarted s"
    and "12 \<le> length packet" "rtp_id packet \<notin> set down" "ParticipantTransport_ProtectRtp (ae_srtp env) packet t = (True, wire, t')"
  obtains s' s'' where "unprotectRtpLocked env wire s = (Some packet, s')"
    "call_linked env R up (rtp_id packet # down) s' t'"
    "unprotectRtpLocked env wire s' = (None, s'')"
    "call_linked env R up (rtp_id packet # down) s'' t'" "as_dtlsStarted s'" "as_dtlsStarted s''"
proof -
  let ?opn = "''srtp_unprotect''" and ?e = "''SRTP RTP packet is empty''" and ?lib = "ae_srtp env"
  let ?un = "unprotect_packet ?lib (srtp_unprotect ?lib) ?opn ?e wire" and ?sent = "rtp_id packet # down"
  obtain out where p: "protect_packet ?lib (srtp_protect ?lib) ''srtp_protect'' ?e packet (pt_outboundSrtp t) = (True, wire, out)"
      "pt_outboundSrtp t' = out" "pt_inboundSrtp t' = pt_inboundSrtp t" "pt_srtpReady t' = pt_srtpReady t"
    using assms(6)
    by (auto simp: ParticipantTransport_ProtectRtp_def SrtpSession_ProtectRtp_def Let_def split: if_splits prod.splits)
  have linked: "linked ?lib R down (pt_outboundSrtp t) (srtp_view (as_inboundSrtp s))"
    using assms(2) by (simp add: call_linked_def)
  obtain inb rest inb' where u: "?un (srtp_view (as_inboundSrtp s)) = (True, packet, inb)" "?un inb = (False, rest, inb')"
    and l: "linked ?lib R ?sent out inb" "linked ?lib R ?sent out inb'"
    using packet_through [OF assms(1) linked assms(4,5) p(1)] by blast
  from u(1) obtain c where c: "unprotectRtp ?lib wire (as_inboundSrtp s) = (True, packet, c)" "srtp_view c = erase_srtp inb"
    by (rule unprotect_view)
  obtain inb'' where v: "?un (srtp_view c) = (False, rest, inb'')" "erase_srtp inb'' = erase_srtp inb'"
    using unprotect_erased [of ?lib "srtp_unprotect ?lib" ?opn ?e wire inb] u(2) c(2) by (cases "?un (erase_srtp inb)") auto
  from v(1) obtain c' where c': "unprotectRtp ?lib wire c = (False, rest, c')" "srtp_view c' = erase_srtp inb''"
    by (rule unprotect_view)
  have l': "linked ?lib R ?sent out (srtp_view c)" "linked ?lib R ?sent out (srtp_view c')"
    using l by (simp_all add: c(2) c'(2) v(2))
  show thesis
    by (rule that [of "s\<lparr>as_inboundSrtp := c\<rparr>" "setErrorLocked (sc_lastError c') (s\<lparr>as_inboundSrtp := c'\<rparr>)"])
      (use c c' l' assms(2,3) p(2-4) in \<open>simp_all add: unprotectRtpLocked_def call_linked_def Let_def setErrorLocked_def\<close>)
qed

text \<open>
  A conversation: packets of the client and of the server in any order, each read by the other end. The network may
  deliver a datagram a second time; what the other end hears is then two results.
\<close>

datatype turn = ClientSays bool bytes | ServerSays bool bytes

fun conversation ::
  "('ssl, 's, 'd) audio_env \<Rightarrow> turn list \<Rightarrow> ('ssl, 's, 'd) AudioCallSession \<Rightarrow> ('ssl, 's) ParticipantTransport \<Rightarrow>
   (bytes option list) option" where
  "conversation env [] s t = Some []"
| "conversation env (ClientSays twice packet # turns) s t =
     (case protectRtpLocked env packet s of
        (None, _) \<Rightarrow> None
      | (Some wire, s') \<Rightarrow>
          let (ok, plain, t1) = ParticipantTransport_UnprotectRtp (ae_srtp env) wire t;
              (again, plain', t2) = ParticipantTransport_UnprotectRtp (ae_srtp env) wire t1;
              first = (if ok then Some plain else None); second = (if again then Some plain' else None)
          in if twice then map_option (\<lambda>heard. first # second # heard) (conversation env turns s' t2)
             else map_option (\<lambda>heard. first # heard) (conversation env turns s' t1))"
| "conversation env (ServerSays twice packet # turns) s t =
     (case ParticipantTransport_ProtectRtp (ae_srtp env) packet t of
        (False, _, _) \<Rightarrow> None
      | (True, wire, t') \<Rightarrow>
          let (first, s1) = unprotectRtpLocked env wire s; (second, s2) = unprotectRtpLocked env wire s1
          in if twice then map_option (\<lambda>heard. first # second # heard) (conversation env turns s2 t')
             else map_option (\<lambda>heard. first # heard) (conversation env turns s1 t'))"

fun said :: "turn \<Rightarrow> bytes" where
  "said (ClientSays twice p) = p"
| "said (ServerSays twice p) = p"

text \<open>What the other end should hear: every packet once, and nothing for a copy.\<close>

fun expected :: "turn \<Rightarrow> bytes option list" where
  "expected (ClientSays twice p) = Some p # (if twice then [None] else [])"
| "expected (ServerSays twice p) = Some p # (if twice then [None] else [])"

fun by_client :: "turn \<Rightarrow> bool" where
  "by_client (ClientSays twice p) = True"
| "by_client (ServerSays twice p) = False"

definition ids :: "bool \<Rightarrow> turn list \<Rightarrow> packet_id list" where
  "ids client turns = map (\<lambda>x. rtp_id (said x)) (filter (\<lambda>x. by_client x = client) turns)"

lemma ids_Cons: "ids c (x # xs) = (if by_client x = c then [rtp_id (said x)] else []) @ ids c xs"
  by (simp add: ids_def)

lemma conversation_heard:
  assumes "srtp_channel (ae_srtp env) R"
  shows "call_linked env R up down s t \<Longrightarrow> as_dtlsStarted s \<Longrightarrow> list_all (\<lambda>x. 12 \<le> length (said x)) turns \<Longrightarrow>
    distinct (rev up @ ids True turns) \<Longrightarrow> distinct (rev down @ ids False turns) \<Longrightarrow>
    conversation env turns s t = Some heard \<Longrightarrow> heard = concat (map expected turns)"
proof (induction turns arbitrary: up down s t heard)
  case (Cons x turns)
  note prems = Cons.prems
  show ?case
  proof (cases x)
    case (ClientSays twice packet)
    then obtain wire s' where w: "protectRtpLocked env packet s = (Some wire, s')"
      using prems(6) by (auto split: prod.splits option.splits)
    have new: "12 \<le> length packet" "rtp_id packet \<notin> set up"
      using prems(3,4) ClientSays by (auto simp: ids_Cons)
    from assms prems(1,2) new w obtain t' rest t'' where
      u: "ParticipantTransport_UnprotectRtp (ae_srtp env) wire t = (True, packet, t')"
        "ParticipantTransport_UnprotectRtp (ae_srtp env) wire t' = (False, rest, t'')"
      and l: "call_linked env R (rtp_id packet # up) down s' t'" "call_linked env R (rtp_id packet # up) down s' t''"
        "as_dtlsStarted s'"
      by (rule client_to_server)
    have d: "distinct (rev (rtp_id packet # up) @ ids True turns)" "distinct (rev down @ ids False turns)"
      using prems(4,5) ClientSays by (auto simp: ids_Cons)
    have ih: "heard' = concat (map expected turns)"
      if "conversation env turns s' (if twice then t'' else t') = Some heard'" for heard'
      using that Cons.IH [OF l(1,3) _ d] Cons.IH [OF l(2,3) _ d] prems(3) by (cases twice) simp_all
    show ?thesis using prems(6) ClientSays w u ih by (cases twice) auto
  next
    case (ServerSays twice packet)
    then obtain wire t' where w: "ParticipantTransport_ProtectRtp (ae_srtp env) packet t = (True, wire, t')"
      using prems(6) by (auto split: prod.splits bool.splits)
    have new: "12 \<le> length packet" "rtp_id packet \<notin> set down"
      using prems(3,5) ServerSays by (auto simp: ids_Cons)
    from assms prems(1,2) new w obtain s' s'' where
      u: "unprotectRtpLocked env wire s = (Some packet, s')" "unprotectRtpLocked env wire s' = (None, s'')"
      and l: "call_linked env R up (rtp_id packet # down) s' t'" "call_linked env R up (rtp_id packet # down) s'' t'"
        "as_dtlsStarted s'" "as_dtlsStarted s''"
      by (rule server_to_client)
    have d: "distinct (rev up @ ids True turns)" "distinct (rev (rtp_id packet # down) @ ids False turns)"
      using prems(4,5) ServerSays by (auto simp: ids_Cons)
    have ih: "heard' = concat (map expected turns)"
      if "conversation env turns (if twice then s'' else s') t' = Some heard'" for heard'
      using that Cons.IH [OF l(1,3) _ d] Cons.IH [OF l(2,4) _ d] prems(3) by (cases twice) simp_all
    show ?thesis using prems(6) ServerSays w u ih by (cases twice) auto
  qed
qed simp

text \<open>
  C7. Client and server understand each other. The client's session and the server's participant transport,
  written separately, derive their SRTP keys from the two ends of one DTLS handshake. After both
  have configured SRTP, take any conversation of RTP packets from the client and from the server in any order, in
  which no sender uses an SSRC and sequence number a second time. As long as each sender's protection succeeds, every packet is
  accepted by the other side and read back byte for byte, and the copy of a datagram that arrives a second time is
  refused without harm to the packets after it.
\<close>

theorem secure_channel:
  assumes "srtp_channel (ae_srtp env) R" "have_libsrtp2 (ae_srtp env)"
    and "srtp_master_key_length (ae_srtp env) = 16" "srtp_master_salt_length (ae_srtp env) = 14"
    and "connected_ends env api s t" "as_dtlsStarted s" "\<not> as_srtpReady s"
    and "configureSrtpLocked env s = (True, s')" "ConfigureSrtpSessions api (ae_srtp env) t = (True, t')"
    and "list_all (\<lambda>x. 12 \<le> length (said x)) turns" "distinct (ids True turns)" "distinct (ids False turns)"
    and "conversation env turns s' t' = Some heard"
  shows "heard = concat (map expected turns)"
proof (rule conversation_heard [OF assms(1) _ _ assms(10) _ _ assms(13)])
  show "call_linked env R [] [] s' t'" using keys_fit [OF assms(1-5,7-9)] .
  show "as_dtlsStarted s'"
    using assms(6-8)
    by (auto simp: configureSrtpLocked_def setErrorLocked_def Let_def split: if_splits option.splits prod.splits)
qed (use assms(11,12) in simp_all)

text \<open>
  A library with replay protection: the state of a session is the list of packets it has seen, and unprotecting one of them
  again fails with \<open>srtp_err_status_replay_fail\<close>, while protecting one again succeeds.
\<close>

definition replay_srtp :: "packet_id list libsrtp" where
  "replay_srtp = \<lparr> have_libsrtp2 = True, srtp_master_key_length = 16, srtp_master_salt_length = 14,
     srtp_library = None, srtp_policy_rtp = 0, srtp_policy_rtcp = 0,
     srtp_create = (\<lambda>_ _ _. (0, Some [])),
     srtp_protect = (\<lambda>p seen. if length p < 12 then (2, 0, p, seen)
       else (0, int (length p) + 10, p @ replicate 10 0, rtp_id p # seen)),
     srtp_unprotect = (\<lambda>p seen. if length p < 22 then (2, 0, p, seen)
       else if rtp_id p \<in> set seen then (9, 0, p, seen)
       else (0, int (length p) - 10, p, rtp_id p # seen)),
     srtp_protect_rtcp = (\<lambda>p seen. (0, int (length p) + 14, p @ replicate 14 0, seen)),
     srtp_unprotect_rtcp = (\<lambda>p seen. (0, int (length p) - 14, p, seen)) \<rparr>"

lemma rtp_id_append: "12 \<le> length p \<Longrightarrow> rtp_id (p @ q) = rtp_id p"
  by (simp add: rtp_id_def nth_append)

lemma replay_srtp_channel: "srtp_channel replay_srtp (\<lambda>sent a b. set b \<subseteq> set sent)"
  unfolding srtp_channel_def
  by (auto simp: replay_srtp_def resize_def nat_add_distrib rtp_id_append split: if_splits)

definition demo_ends :: "(nat, packet_id list, unit) audio_env" where
  "demo_ends = \<lparr> ae_qs = demo_qs, ae_rnd = (\<lambda>_. 0), ae_ssl = demo_capi, ae_srtp = replay_srtp,
     ae_decode = (\<lambda>f d. (Inl [], d)), ae_enqueueFrame = (\<lambda>_. True), ae_playerFrameSamples = 3 \<rparr>"

definition demo_client :: "(nat, packet_id list, unit) AudioCallSession" where
  "demo_client =
     (let s = snd (startDtlsSrtp demo_ends 0 ''ab:01''
           (snd (AudioCallSession_start demo_ends demo_start (AudioCallSession_new demo_config 0 ()))))
      in s\<lparr>as_dtlsTransport := (as_dtlsTransport s)\<lparr>dc_connected := True, dc_ssl := Some 1\<rparr>\<rparr>)"

definition demo_participant :: "(nat, packet_id list) ParticipantTransport" where
  "demo_participant = ParticipantTransport_new ''m'' ''u'' True True ''ab:01'' 7 8 IceLiteSession_new
     (Some ((DtlsTransport_new RoleServer)\<lparr>dtls_connected := True, dtls_ssl := Some 1\<rparr>))"

definition demo_rtp :: "u8 \<Rightarrow> bytes" where
  "demo_rtp n = [0x80, 111, 0, n, 0, 0, 0, 0, 0, 0, 0, 7, n, n]"

definition demo_talk :: "turn list" where
  "demo_talk = [ClientSays False (demo_rtp 1), ServerSays True (demo_rtp 1), ClientSays True (demo_rtp 3),
     ServerSays False (demo_rtp 2), ClientSays False (demo_rtp 2)]"

definition demo_heard :: "(bytes option list) option" where
  "demo_heard = conversation demo_ends demo_talk (snd (configureSrtpLocked demo_ends demo_client))
     (snd (ConfigureSrtpSessions demo_ssl replay_srtp demo_participant))"

lemma demo_channel_ok:
  "fst (configureSrtpLocked demo_ends demo_client)"
  "fst (ConfigureSrtpSessions demo_ssl replay_srtp demo_participant)"
  "as_dtlsStarted demo_client \<and> \<not> as_srtpReady demo_client"
  "demo_heard \<noteq> None"
  "dc_ssl (as_dtlsTransport demo_client) = Some 1"
  "list_all (\<lambda>x. 12 \<le> length (said x)) demo_talk" "distinct (ids True demo_talk)" "distinct (ids False demo_talk)"
  by code_simp+

theorem secure_channel_witness:
  "demo_heard = Some [Some (demo_rtp 1), Some (demo_rtp 1), None, Some (demo_rtp 3), None, Some (demo_rtp 2), Some (demo_rtp 2)]"
proof -
  obtain heard where h: "demo_heard = Some heard" using demo_channel_ok(4) by blast
  have ends: "connected_ends demo_ends demo_ssl demo_client demo_participant"
    using demo_channel_ok(5)
    by (simp add: connected_ends_def demo_participant_def demo_ends_def demo_capi_def DtlsTransport_new_def ParticipantTransport_new_def)
  have srtp: "ae_srtp demo_ends = replay_srtp" by (simp add: demo_ends_def)
  have lens: "have_libsrtp2 replay_srtp" "srtp_master_key_length replay_srtp = 16" "srtp_master_salt_length replay_srtp = 14"
    by (simp_all add: replay_srtp_def)
  have a: "configureSrtpLocked demo_ends demo_client = (True, snd (configureSrtpLocked demo_ends demo_client))"
    using demo_channel_ok(1) by (metis prod.collapse)
  have b: "ConfigureSrtpSessions demo_ssl replay_srtp demo_participant =
      (True, snd (ConfigureSrtpSessions demo_ssl replay_srtp demo_participant))"
    using demo_channel_ok(2) by (metis prod.collapse)
  have "heard = concat (map expected demo_talk)"
    using secure_channel [where env = demo_ends, unfolded srtp, OF replay_srtp_channel lens ends _ _ a b demo_channel_ok(6-8)]
      demo_channel_ok(3) h by (simp add: demo_heard_def)
  then show ?thesis using h by (simp add: demo_talk_def)
qed

end
