(* ===== verification/VideoFeedback.thy ===== *)
theory VideoFeedback
  imports ClientRtcp
begin

text \<open>
  The RTCP feedback of the client's video session (\<open>plasma-hawking/src/av/session/\<close>): what it sends,
  negative acknowledgements, picture-loss indications and retransmissions from the cache of sent packets
  (\<open>VideoRtcpActionPipeline.cpp\<close>), when it asks for a key frame (\<open>VideoRecvKeyFramePipeline.cpp\<close>), and how what it receives
  becomes a plan of actions (\<open>VideoRtcpFeedbackPipeline.cpp\<close>, \<open>VideoRtcpFeedbackDispatchPipeline.cpp\<close>,
  \<open>VideoRecvRtcpPipeline.cpp\<close>). The socket is a parameter: whether it is open and has a peer, and what
  sending a datagram returns; the operations that send also yield the datagrams they handed to it.
\<close>

record peer_socket =
  ps_isOpen :: bool
  ps_hasPeer :: bool
  ps_sendToPeer :: "bytes \<Rightarrow> int"

section \<open>Sending\<close>

record VideoRtcpActionPipeline =
  ap_retransmitCacheLimit :: nat
  ap_sentPacketCache :: "(u16 \<times> bytes) list"

definition VideoRtcpActionPipeline_new :: "nat \<Rightarrow> VideoRtcpActionPipeline" where
  "VideoRtcpActionPipeline_new limit = \<lparr> ap_retransmitCacheLimit = max 1 limit, ap_sentPacketCache = [] \<rparr>"

definition VideoRtcpActionPipeline_reset :: "VideoRtcpActionPipeline \<Rightarrow> VideoRtcpActionPipeline" where
  "VideoRtcpActionPipeline_reset a = a\<lparr>ap_sentPacketCache := []\<rparr>"

text \<open>The loop that pops the front while the cache is too long drops the surplus.\<close>

definition cacheSentPacket :: "u16 \<Rightarrow> bytes \<Rightarrow> VideoRtcpActionPipeline \<Rightarrow> VideoRtcpActionPipeline" where
  "cacheSentPacket sequenceNumber packetBytes a =
     (if packetBytes = [] then a
      else
        let c = ap_sentPacketCache a @ [(sequenceNumber, packetBytes)]
        in a\<lparr>ap_sentPacketCache := drop (length c - ap_retransmitCacheLimit a) c\<rparr>)"

type_synonym send_result = "bool \<times> string \<times> bytes list"

definition retransmitPacket :: "u16 \<Rightarrow> peer_socket \<Rightarrow> VideoRtcpActionPipeline \<Rightarrow> send_result" where
  "retransmitPacket sequenceNumber socket a =
     (if \<not> ps_isOpen socket \<or> \<not> ps_hasPeer socket then (False, '''', [])
      else case List.find (\<lambda>(s, _). s = sequenceNumber) (rev (ap_sentPacketCache a)) of
        None \<Rightarrow> (False, '''', [])
      | Some (_, packetBytes) \<Rightarrow>
          if ps_sendToPeer socket packetBytes = int (length packetBytes) then (True, '''', [packetBytes])
          else (False, ''retransmit sendto failed'', [packetBytes]))"

definition buildPictureLossIndication :: "u32 \<Rightarrow> u32 \<Rightarrow> bytes" where
  "buildPictureLossIndication senderSsrc mediaSsrc =
     (if mediaSsrc = 0 then []
      else [push_bit 6 2 OR 1, 206, 0, 2] @ AppendU32 senderSsrc @ AppendU32 mediaSsrc)"

text \<open>The inner loop of \<open>buildNackFeedback\<close>: the sequence numbers that fit the bit mask of one block.\<close>

fun nack_fill :: "u16 \<Rightarrow> u16 \<Rightarrow> u16 list \<Rightarrow> u16 \<times> u16 list" where
  "nack_fill pid blp [] = (blp, [])"
| "nack_fill pid blp (s # ss) =
     (let delta = s - pid in
      if delta = 0 then nack_fill pid blp ss
      else if delta > 16 then (blp, s # ss)
      else nack_fill pid (blp OR push_bit (unat (delta - 1)) 1) ss)"

lemma nack_fill_length: "length (snd (nack_fill pid blp ss)) \<le> length ss"
  by (induction ss arbitrary: blp) (simp_all add: Let_def le_SucI)

function nack_group :: "u16 list \<Rightarrow> (u16 \<times> u16) list" where
  "nack_group [] = []"
| "nack_group (pid # ss) = (let (blp, rest) = nack_fill pid 0 ss in (pid, blp) # nack_group rest)"
  by pat_completeness auto
termination
proof (relation "measure length")
  fix pid and ss :: "u16 list" and x blp rest
  assume "x = nack_fill pid 0 ss" "(blp, rest) = x"
  then show "(rest, pid # ss) \<in> measure length"
    using nack_fill_length [of pid 0 ss] by (metis in_measure le_imp_less_Suc length_Cons snd_conv)
qed simp

definition nack_block_bytes :: "u16 \<times> u16 \<Rightarrow> bytes" where
  "nack_block_bytes b = AppendU16 (fst b) @ AppendU16 (snd b)"

definition buildNackFeedback :: "u32 \<Rightarrow> u32 \<Rightarrow> u16 list \<Rightarrow> bytes" where
  "buildNackFeedback senderSsrc mediaSsrc lostSequences =
     (if mediaSsrc = 0 \<or> lostSequences = [] then []
      else
        let sequences = remdups_adj (sort lostSequences) in
        if sequences = [] then []
        else
          let blocks = nack_group sequences;
              packetBytes = 12 + length blocks * 4
          in if packetBytes > 0xFFFF * 4 then []
             else [push_bit 6 2 OR 1, 205] @ AppendU16 (of_nat (packetBytes div 4 - 1)) @
                  AppendU32 senderSsrc @ AppendU32 mediaSsrc @ concat (map nack_block_bytes blocks))"

definition send_feedback :: "peer_socket \<Rightarrow> u32 \<Rightarrow> bytes \<Rightarrow> string \<Rightarrow> send_result" where
  "send_feedback socket mediaSsrc packet failure =
     (if \<not> ps_isOpen socket \<or> \<not> ps_hasPeer socket \<or> mediaSsrc = 0 then (False, '''', [])
      else if packet = [] then (False, '''', [])
      else if ps_sendToPeer socket packet = int (length packet) then (True, '''', [packet])
      else (False, failure, [packet]))"

definition sendPictureLossIndication :: "peer_socket \<Rightarrow> u32 \<Rightarrow> u32 \<Rightarrow> send_result" where
  "sendPictureLossIndication socket senderSsrc mediaSsrc =
     send_feedback socket mediaSsrc (buildPictureLossIndication senderSsrc mediaSsrc) ''PLI sendto failed''"

definition sendNackFeedback :: "peer_socket \<Rightarrow> u32 \<Rightarrow> u32 \<Rightarrow> u16 list \<Rightarrow> send_result" where
  "sendNackFeedback socket senderSsrc mediaSsrc lostSequences =
     send_feedback socket mediaSsrc (buildNackFeedback senderSsrc mediaSsrc lostSequences) ''NACK sendto failed''"

section \<open>Asking for key frames\<close>

record VideoRecvKeyFramePipeline =
  kp_cooldownMs :: u64
  kp_lastPliRequestedAtMsBySsrc :: "(u32, u64) umap"

definition shouldSendPli :: "u32 \<Rightarrow> u64 \<Rightarrow> VideoRecvKeyFramePipeline \<Rightarrow> bool" where
  "shouldSendPli mediaSsrc nowMs k \<longleftrightarrow>
     (if mediaSsrc = 0 then False
      else case map_of (kp_lastPliRequestedAtMsBySsrc k) mediaSsrc of
        None \<Rightarrow> True
      | Some lastPliRequestedAtMs \<Rightarrow>
          \<not> (lastPliRequestedAtMs \<noteq> 0 \<and> nowMs - lastPliRequestedAtMs < kp_cooldownMs k))"

definition markPliSent :: "u32 \<Rightarrow> u64 \<Rightarrow> VideoRecvKeyFramePipeline \<Rightarrow> VideoRecvKeyFramePipeline" where
  "markPliSent mediaSsrc nowMs k =
     (if mediaSsrc = 0 then k
      else k\<lparr>kp_lastPliRequestedAtMsBySsrc := AList.update mediaSsrc nowMs (kp_lastPliRequestedAtMsBySsrc k)\<rparr>)"

definition VideoRecvKeyFramePipeline_reset :: "u32 \<Rightarrow> VideoRecvKeyFramePipeline \<Rightarrow> VideoRecvKeyFramePipeline" where
  "VideoRecvKeyFramePipeline_reset mediaSsrc k =
     (if mediaSsrc = 0 then k\<lparr>kp_lastPliRequestedAtMsBySsrc := []\<rparr>
      else k\<lparr>kp_lastPliRequestedAtMsBySsrc := AList.delete mediaSsrc (kp_lastPliRequestedAtMsBySsrc k)\<rparr>)"

section \<open>Receiving\<close>

datatype VideoRtcpFeedbackEventKind = Nack | Pli | Remb | ReceiverReport

record VideoRtcpFeedbackEvent =
  ev_kind :: VideoRtcpFeedbackEventKind
  ev_sequenceNumber :: u16
  ev_mediaSsrc :: u32
  ev_bitrateBps :: u32
  ev_fractionLost :: u8
  ev_lastSenderReport :: u32
  ev_delaySinceLastSenderReport :: u32

definition event0 :: "VideoRtcpFeedbackEventKind \<Rightarrow> u32 \<Rightarrow> VideoRtcpFeedbackEvent" where
  "event0 kind mediaSsrc = \<lparr> ev_kind = kind, ev_sequenceNumber = 0, ev_mediaSsrc = mediaSsrc, ev_bitrateBps = 0,
     ev_fractionLost = 0, ev_lastSenderReport = 0, ev_delaySinceLastSenderReport = 0 \<rparr>"

text \<open>One iteration of the loop of \<open>parseFeedback\<close>; \<open>data + offset\<close> with the size of the slice is the slice itself.\<close>

definition slice_events :: "bytes \<Rightarrow> u32 \<Rightarrow> RTCPPacketSlice \<Rightarrow> VideoRtcpFeedbackEvent list mem" where
  "slice_events data localSsrc sl =
     (let packet = take (sl_size sl) (drop (sl_offset sl) data); h = sl_header sl in
      if isReceiverReport h then
        map_option (\<lambda>r. case r of
            None \<Rightarrow> []
          | Some rr \<Rightarrow>
              map (\<lambda>block. (event0 ReceiverReport (blk_sourceSsrc block))\<lparr>ev_fractionLost := blk_fractionLost block,
                     ev_lastSenderReport := blk_lastSenderReport block,
                     ev_delaySinceLastSenderReport := blk_delaySinceLastSenderReport block\<rparr>)
                (filter (\<lambda>block. \<not> (localSsrc = 0 \<or> blk_sourceSsrc block \<noteq> localSsrc)) (crr_reportBlocks rr)))
          (parseReceiverReport packet)
      else if \<not> isFeedbackPacket h then Some []
      else if rh_packetType h = 205 \<and> rh_countOrFormat h = 1 then
        map_option (\<lambda>r. case r of
            None \<Rightarrow> []
          | Some nack \<Rightarrow>
              if localSsrc = 0 \<or> (cnk_mediaSsrc nack \<noteq> 0 \<and> cnk_mediaSsrc nack \<noteq> localSsrc) then []
              else map (\<lambda>s. (event0 Nack (cnk_mediaSsrc nack))\<lparr>ev_sequenceNumber := s\<rparr>) (cnk_lostSequences nack))
          (parseNackFeedback packet)
      else if rh_packetType h = 206 \<and> rh_countOrFormat h = 1 then
        map_option (\<lambda>r. case r of
            None \<Rightarrow> []
          | Some pli \<Rightarrow>
              if localSsrc = 0 \<or> (cpli_mediaSsrc pli \<noteq> 0 \<and> cpli_mediaSsrc pli \<noteq> localSsrc) then []
              else [event0 Pli (cpli_mediaSsrc pli)])
          (parsePliFeedback packet)
      else if rh_packetType h = 206 \<and> rh_countOrFormat h = 15 then
        map_option (\<lambda>r. case r of
            None \<Rightarrow> []
          | Some remb \<Rightarrow>
              if localSsrc = 0 \<or> localSsrc \<notin> set (crb_targetSsrcs remb) then []
              else [(event0 Remb (crb_mediaSsrc remb))\<lparr>ev_bitrateBps := crb_bitrateBps remb\<rparr>])
          (parseRembFeedback packet)
      else Some [])"

definition parseFeedback :: "bytes \<Rightarrow> u32 \<Rightarrow> VideoRtcpFeedbackEvent list option mem" where
  "parseFeedback data localSsrc = do {
     slices \<leftarrow> parseCompoundPacket data;
     case slices of
       None \<Rightarrow> Some None
     | Some ss \<Rightarrow> map_option Some (mem_concat (slice_events data localSsrc) ss) }"

record VideoRtcpReceiverReportSample =
  smp_fractionLost :: u8
  smp_lastSenderReport :: u32
  smp_delaySinceLastSenderReport :: u32

record VideoRtcpFeedbackDispatchPlan =
  pl_retransmitSequenceNumbers :: "u16 list"
  pl_receiverReports :: "VideoRtcpReceiverReportSample list"
  pl_requestKeyFrame :: bool
  pl_hasTargetBitrate :: bool
  pl_targetBitrateBps :: u32

definition kMinAdaptiveBitrateBps :: u32 where "kMinAdaptiveBitrateBps = 100000"
definition kMaxAdaptiveBitrateBps :: u32 where "kMaxAdaptiveBitrateBps = 8000000"

definition empty_plan :: VideoRtcpFeedbackDispatchPlan where
  "empty_plan = \<lparr> pl_retransmitSequenceNumbers = [], pl_receiverReports = [], pl_requestKeyFrame = False,
     pl_hasTargetBitrate = False, pl_targetBitrateBps = 0 \<rparr>"

definition hasActions :: "VideoRtcpFeedbackDispatchPlan \<Rightarrow> bool" where
  "hasActions plan \<longleftrightarrow> pl_requestKeyFrame plan \<or> pl_hasTargetBitrate plan \<or> pl_retransmitSequenceNumbers plan \<noteq> [] \<or>
     pl_receiverReports plan \<noteq> []"

definition plan_event :: "VideoRtcpFeedbackEvent \<Rightarrow> VideoRtcpFeedbackDispatchPlan \<Rightarrow> VideoRtcpFeedbackDispatchPlan" where
  "plan_event event plan = (case ev_kind event of
     Nack \<Rightarrow> plan\<lparr>pl_retransmitSequenceNumbers := pl_retransmitSequenceNumbers plan @ [ev_sequenceNumber event]\<rparr>
   | Pli \<Rightarrow> plan\<lparr>pl_requestKeyFrame := True\<rparr>
   | Remb \<Rightarrow> plan\<lparr>pl_hasTargetBitrate := True,
       pl_targetBitrateBps := min (max (ev_bitrateBps event) kMinAdaptiveBitrateBps) kMaxAdaptiveBitrateBps\<rparr>
   | ReceiverReport \<Rightarrow> plan\<lparr>pl_receiverReports := pl_receiverReports plan @
       [\<lparr> smp_fractionLost = ev_fractionLost event, smp_lastSenderReport = ev_lastSenderReport event,
          smp_delaySinceLastSenderReport = ev_delaySinceLastSenderReport event \<rparr>]\<rparr>)"

definition buildPlan :: "VideoRtcpFeedbackEvent list \<Rightarrow> VideoRtcpFeedbackDispatchPlan" where
  "buildPlan events = fold plan_event events empty_plan"

definition parseDispatchPlan :: "bytes \<Rightarrow> u32 \<Rightarrow> (bool \<times> VideoRtcpFeedbackDispatchPlan) mem" where
  "parseDispatchPlan data localSsrc =
     map_option (\<lambda>r. case r of
         None \<Rightarrow> (False, empty_plan)
       | Some events \<Rightarrow> let plan = buildPlan events in (hasActions plan, plan))
       (parseFeedback data localSsrc)"

section \<open>The blocks of a negative acknowledgement\<close>

lemma nack_sequences_bits:
  "nack_sequences pid blp = pid # map (\<lambda>i. pid + of_nat i + 1) (filter (bit blp) [0..<16])"
  by (simp add: nack_sequences_def and_exp_eq_0_iff_not_bit)

lemma nack_sequences_add:
  assumes "k < 16" and "\<forall>i. bit blp i \<longrightarrow> i < k"
  shows "nack_sequences pid (blp OR push_bit k 1) = nack_sequences pid blp @ [pid + of_nat k + 1]"
proof -
  have upt: "[0..<16] = [0..<k] @ k # [Suc k..<16]"
    using upt_add_eq_append [of 0 k "16 - k"] assms(1) by (simp add: upt_conv_Cons)
  have "filter (bit (blp OR push_bit k 1)) [0..<k] = filter (bit blp) [0..<k]"
    by (rule filter_cong) (auto simp: bit_simps)
  moreover have "filter (bit (blp OR push_bit k 1)) [Suc k..<16] = []" "filter (bit blp) [Suc k..<16] = []"
    using assms(2) by (auto simp: filter_empty_conv bit_simps)
  moreover have "bit (blp OR push_bit k 1) k" "\<not> bit blp k" using assms by (auto simp: bit_simps)
  ultimately show ?thesis by (simp add: nack_sequences_bits upt)
qed

lemma delta_bounds:
  assumes "pid < (s :: u16)" and "\<not> s - pid > 16"
  shows "unat (s - pid - 1) < 16" "unat (s - pid - 1) + 1 = unat s - unat pid" "pid + of_nat (unat (s - pid - 1)) + 1 = s"
proof -
  have d: "unat (s - pid) = unat s - unat pid" using assms(1) by (simp add: unat_sub less_imp_le)
  have pos: "0 < unat (s - pid)" using assms(1) d by (simp add: word_less_nat_alt)
  have "1 \<le> s - pid" using pos by (simp add: word_le_nat_alt)
  then have e: "unat (s - pid - 1) = unat (s - pid) - 1" by (simp add: unat_sub)
  have "unat (s - pid) \<le> 16" using assms(2) by (simp add: word_less_nat_alt not_less)
  then show "unat (s - pid - 1) < 16" "unat (s - pid - 1) + 1 = unat s - unat pid" using e d pos by linarith+
  show "pid + of_nat (unat (s - pid - 1)) + 1 = s" by simp
qed

lemma nack_fill_spec:
  assumes "sorted_wrt (<) ss" and "\<forall>s \<in> set ss. pid < s"
    and "\<forall>i. bit blp i \<longrightarrow> (\<forall>s \<in> set ss. i + 1 < unat s - unat pid)" and "\<forall>i. bit blp i \<longrightarrow> i < 16"
    and "nack_fill pid blp ss = (blp', rest)"
  shows "nack_sequences pid blp' @ rest = nack_sequences pid blp @ ss \<and> sorted_wrt (<) rest \<and>
    (\<forall>s \<in> set rest. unat pid + 17 \<le> unat s)"
  using assms
proof (induction ss arbitrary: blp)
  case (Cons s ss)
  have pid: "pid < s" using Cons.prems(2) by simp
  then have ne: "s \<noteq> pid" by auto
  have d: "unat (s - pid) = unat s - unat pid" using pid by (simp add: unat_sub less_imp_le)
  show ?case
  proof (cases "s - pid > 16")
    case True
    then have "blp' = blp" "rest = s # ss" using Cons.prems(5) True ne by (simp_all add: Let_def)
    moreover have "unat pid + 17 \<le> unat s" using True d by (simp add: word_less_nat_alt)
    moreover have "\<forall>s' \<in> set ss. unat s < unat s'" using Cons.prems(1) by (simp add: word_less_nat_alt)
    ultimately show ?thesis using Cons.prems(1) by auto
  next
    case False
    let ?k = "unat (s - pid - 1)"
    note k = delta_bounds [OF pid False]
    have "nack_fill pid (blp OR push_bit ?k 1) ss = (blp', rest)"
      using Cons.prems(5) False ne by (simp add: Let_def)
    moreover have "\<forall>i. bit (blp OR push_bit ?k 1) i \<longrightarrow> i < 16" using Cons.prems(4) k(1) by (auto simp: bit_simps)
    moreover have "i + 1 < unat s' - unat pid" if "bit (blp OR push_bit ?k 1) i" "s' \<in> set ss" for i s'
    proof -
      have "unat s < unat s'" using Cons.prems(1) that(2) by (simp add: word_less_nat_alt)
      then have "?k + 1 < unat s' - unat pid" using k(2) pid by (simp add: word_less_nat_alt)
      moreover have "i = ?k \<or> bit blp i" using that(1) by (auto simp: bit_simps)
      ultimately show ?thesis using Cons.prems(3) that(2) by auto
    qed
    ultimately have "nack_sequences pid blp' @ rest = nack_sequences pid (blp OR push_bit ?k 1) @ ss \<and> sorted_wrt (<) rest \<and>
        (\<forall>s \<in> set rest. unat pid + 17 \<le> unat s)"
      using Cons.prems(1,2) by (intro Cons.IH) auto
    moreover have "nack_sequences pid (blp OR push_bit ?k 1) = nack_sequences pid blp @ [s]"
      using nack_sequences_add [OF k(1), of blp pid] Cons.prems(3) k by fastforce
    ultimately show ?thesis by simp
  qed
qed simp

lemma nack_group_spec:
  "sorted_wrt (<) ss \<Longrightarrow> concat (map (\<lambda>(pid, blp). nack_sequences pid blp) (nack_group ss)) = ss \<and>
     (ss \<noteq> [] \<longrightarrow> unat (hd ss) + 17 * length (nack_group ss) \<le> 65552)"
proof (induction ss rule: nack_group.induct)
  case (2 pid ss)
  obtain blp rest where f: "nack_fill pid 0 ss = (blp, rest)" by force
  have spec: "nack_sequences pid blp @ rest = nack_sequences pid 0 @ ss \<and> sorted_wrt (<) rest \<and>
      (\<forall>s \<in> set rest. unat pid + 17 \<le> unat s)"
    using "2.prems" f by (intro nack_fill_spec) auto
  then have IH: "concat (map (\<lambda>(pid, blp). nack_sequences pid blp) (nack_group rest)) = rest \<and>
     (rest \<noteq> [] \<longrightarrow> unat (hd rest) + 17 * length (nack_group rest) \<le> 65552)"
    using "2.IH" f by auto
  have "unat pid < 65536" using unsigned_less [of pid, where 'a = nat] by simp
  then have "unat pid + 17 * length (nack_group (pid # ss)) \<le> 65552"
    using IH spec by (cases rest) (auto simp: f)
  moreover have "nack_sequences pid 0 = [pid]" by (simp add: nack_sequences_bits)
  ultimately show ?case using IH spec by (simp add: f)
qed simp

lemma sorted_unique: "sorted xs \<Longrightarrow> sorted_wrt (<) (remdups_adj xs)" for xs :: "u16 list"
  by (induction xs rule: remdups_adj.induct) fastforce+

lemma nack_bytes_shift:
  "lost_blocks (xs @ ys) (length xs + e) (length xs + k) = lost_blocks ys e k"
proof (induction ys e k rule: lost_blocks.induct)
  case (1 ys e k)
  have r: "ReadU16 (xs @ ys) (length xs + j) = ReadU16 ys j" for j
    unfolding ReadU16_def add.assoc byte_at_shift ..
  show ?case using "1.IH" r [of k] r [of "k + 2"]
    by (subst (1 2) lost_blocks.simps) (auto simp: add.assoc split: bind_splits)
qed

lemma nack_bytes_parse:
  "lost_blocks (concat (map nack_block_bytes bs) @ ys) (4 * length bs) 0 =
     Some (concat (map (\<lambda>(pid, blp). nack_sequences pid blp) bs))"
proof (induction bs)
  case (Cons b bs)
  let ?tail = "concat (map nack_block_bytes bs) @ ys"
  have "lost_blocks (nack_block_bytes b @ ?tail) (length (nack_block_bytes b) + 4 * length bs) (length (nack_block_bytes b) + 0) =
      Some (concat (map (\<lambda>(pid, blp). nack_sequences pid blp) bs))"
    using Cons.IH unfolding nack_bytes_shift .
  then have rest: "lost_blocks (nack_block_bytes b @ ?tail) (4 * length (b # bs)) 4 =
      Some (concat (map (\<lambda>(pid, blp). nack_sequences pid blp) bs))"
    by (simp add: nack_block_bytes_def)
  have "ReadU16 (nack_block_bytes b @ ?tail) 0 = Some (fst b)" "ReadU16 (nack_block_bytes b @ ?tail) 2 = Some (snd b)"
    using ReadU16_append [of "[]" 0 "fst b"] ReadU16_append [of "AppendU16 (fst b)" 2 "snd b"]
    by (simp_all add: nack_block_bytes_def)
  with rest show ?case
    by (subst lost_blocks.simps) (simp add: lost_sequences_eq case_prod_beta numeral_2_eq_2)
qed (simp add: lost_blocks.simps)

lemma parse_feedback_header:
  assumes "d = [0x81, t] @ AppendU16 len @ rest" and "length d = (unat len + 1) * 4"
  defines "h \<equiv> \<lparr> rh_version = 2, rh_padding = False, rh_countOrFormat = 1, rh_packetType = t, rh_lengthWords = len \<rparr>"
  shows "parseHeader d = Some (Some h)" and "packetSizeBytes h = length d"
proof -
  show size: "packetSizeBytes h = length d" by (simp add: h_def packetSizeBytes_def assms(2))
  have bytes: "byte_at d 0 = Some 0x81" "byte_at d 1 = Some t" "d ! Suc 0 = t" "byte_at d 2 = Some (ucast (drop_bit 8 len AND 0xFF))"
    "byte_at d 3 = Some (ucast (len AND 0xFF))"
    by (simp_all add: assms(1) byte_at_def AppendU16_def)
  have "push_bit 8 (ucast (ucast (drop_bit 8 len AND 0xFF) :: u8)) OR ucast (ucast (len AND 0xFF) :: u8) = len"
    using be16_bytes [of len] unfolding be16_def .
  then show "parseHeader d = Some (Some h)"
    using size assms(2) unfolding parseHeader_def h_def by (simp add: bytes Let_def)
qed

lemma sorted_lost: "remdups_adj (sort lost) = sorted_list_of_set (set lost)" for lost :: "u16 list"
proof -
  have "sorted_wrt (<) (remdups_adj (sort lost))" by (rule sorted_unique) simp
  then show ?thesis
    by (metis List.finite_set remdups_adj_set set_sort sorted_list_of_set.idem_if_sorted_distinct strict_sorted_iff)
qed

text \<open>The packet \<open>buildNackFeedback\<close> makes: its header, and the sequence numbers its blocks stand for.\<close>

lemma nack_built:
  fixes lost :: "u16 list" and senderSsrc :: u32
  assumes "mediaSsrc \<noteq> 0" and "lost \<noteq> []"
  defines "d \<equiv> buildNackFeedback senderSsrc mediaSsrc lost"
  obtains h where "parseHeader d = Some (Some h)" "rh_packetType h = 205" "rh_countOrFormat h = 1"
    "packetSizeBytes h = length d" "12 \<le> length d" "ReadU32 d 4 = Some senderSsrc" "ReadU32 d 8 = Some mediaSsrc"
    "lost_blocks d (length d) 12 = Some (sorted_list_of_set (set lost))"
proof -
  let ?seqs = "remdups_adj (sort lost)"
  let ?blocks = "nack_group ?seqs"
  have sorted: "sorted_wrt (<) ?seqs" by (rule sorted_unique) simp
  have ne: "?seqs \<noteq> []" using assms(2) by (metis remdups_adj_Nil_iff set_empty set_sort)
  note g = nack_group_spec [OF sorted]
  have n: "length ?blocks \<le> 3856" using g ne by linarith
  define len where "len = (of_nat ((12 + length ?blocks * 4) div 4 - 1) :: u16)"
  have "(12 + length ?blocks * 4) div 4 - 1 = length ?blocks + 2" by simp
  then have len: "unat len = length ?blocks + 2" unfolding len_def using n by (subst unat_of_nat) simp
  let ?hdr = "[0x81, 205] @ AppendU16 len" and ?body = "concat (map nack_block_bytes ?blocks)"
  let ?rest = "AppendU32 senderSsrc @ AppendU32 mediaSsrc @ ?body"
  have d: "d = ?hdr @ ?rest"
    using assms(1,2) ne n by (simp add: d_def buildNackFeedback_def Let_def len_def)
  have bl: "length (concat (map nack_block_bytes bs)) = 4 * length bs" for bs
    by (induction bs) (simp_all add: nack_block_bytes_def)
  have ld: "length d = 12 + 4 * length ?blocks" by (simp add: d bl)
  then have size: "length d = (unat len + 1) * 4" by (simp add: len)
  have "lost_blocks d (length d) 12 = Some ?seqs"
    using nack_bytes_shift [of "?hdr @ AppendU32 senderSsrc @ AppendU32 mediaSsrc" ?body "4 * length ?blocks" 0]
      nack_bytes_parse [of ?blocks "[]"] g by (simp add: d bl)
  then have lost: "lost_blocks d (length d) 12 = Some (sorted_list_of_set (set lost))" by (simp add: sorted_lost)
  have reads: "ReadU32 d 4 = Some senderSsrc" "ReadU32 d 8 = Some mediaSsrc"
    by (simp_all add: d AppendU16_def AppendU32_def)
  have "d = [0x81, 205] @ AppendU16 len @ ?rest" using d by simp
  from that [OF parse_feedback_header(1) [OF this size] _ _ parse_feedback_header(2) [OF this size] _ reads lost] ld
  show thesis by simp
qed

lemma nack_parsed:
  assumes "mediaSsrc \<noteq> 0" and "lost \<noteq> []"
  shows "parseNackFeedback (buildNackFeedback senderSsrc mediaSsrc lost) = Some (Some \<lparr> cnk_senderSsrc = senderSsrc,
           cnk_mediaSsrc = mediaSsrc, cnk_lostSequences = sorted_list_of_set (set lost) \<rparr>)"
  by (rule nack_built [OF assms, of senderSsrc]) (use assms(2) in \<open>simp add: parseNackFeedback_def Let_def\<close>)

text \<open>
  C28. A negative acknowledgement reports what is missing, on both ends: whatever list of lost
  sequence numbers, in any order and with repetitions, the client packs into the blocks of one
  packet for a stream, the media server's decoder and the client's own parser read back exactly
  these numbers, each once and in increasing order.
\<close>

theorem nack_feedback_roundtrip:
  assumes "mediaSsrc \<noteq> 0" and "lost \<noteq> []"
  shows "ParseNackFeedback (buildNackFeedback senderSsrc mediaSsrc lost) = Some [\<lparr> nk_senderSsrc = senderSsrc,
           nk_mediaSsrc = mediaSsrc, nk_lostSequences = sorted_list_of_set (set lost) \<rparr>] \<and>
         parseNackFeedback (buildNackFeedback senderSsrc mediaSsrc lost) = Some (Some \<lparr> cnk_senderSsrc = senderSsrc,
           cnk_mediaSsrc = mediaSsrc, cnk_lostSequences = sorted_list_of_set (set lost) \<rparr>)"
proof -
  let ?d = "buildNackFeedback senderSsrc mediaSsrc lost"
  from assms obtain h where h: "parseHeader ?d = Some (Some h)" "rh_packetType h = 205" "rh_countOrFormat h = 1"
    "packetSizeBytes h = length ?d" "12 \<le> length ?d" "ReadU32 ?d 4 = Some senderSsrc" "ReadU32 ?d 8 = Some mediaSsrc"
    "lost_blocks ?d (length ?d) 12 = Some (sorted_list_of_set (set lost))"
    by (rule nack_built)
  let ?p = "summary_of ?d h"
  have "compound_packet ?d 0 = Some (Some ?p)" using compound_header [OF _ h(1)] h(5) by simp
  then have pc: "ParseCompound ?d = Some [?p]" using h(4,5) by (intro compound_single [OF refl]) simp_all
  have "ParseNackFeedback ?d = nack_of_packet ?d ?p" unfolding ParseNackFeedback_def pc by simp
  also have "\<dots> = Some [\<lparr> nk_senderSsrc = senderSsrc, nk_mediaSsrc = mediaSsrc,
      nk_lostSequences = sorted_list_of_set (set lost) \<rparr>]"
    using h assms(2) by (simp add: nack_of_packet_def IsNack_def Let_def lost_blocks_eq)
  finally show ?thesis using nack_parsed [OF assms] by simp
qed

theorem nack_feedback_roundtrip_witness:
  "ParseNackFeedback (buildNackFeedback 7 9 [40, 5, 3, 5]) = Some [\<lparr> nk_senderSsrc = 7, nk_mediaSsrc = 9,
     nk_lostSequences = sorted_list_of_set {3, 5, 40} \<rparr>]"
proof -
  have "set [40, 5, 3, 5] = {3, 5, 40 :: u16}" by auto
  then show ?thesis using nack_feedback_roundtrip [of 9 "[40, 5, 3, 5]" 7] by simp
qed

section \<open>Memory safety of the whole receiving path\<close>











definition sample_of :: "VideoRtcpFeedbackEvent \<Rightarrow> VideoRtcpReceiverReportSample" where
  "sample_of e = \<lparr> smp_fractionLost = ev_fractionLost e, smp_lastSenderReport = ev_lastSenderReport e,
     smp_delaySinceLastSenderReport = ev_delaySinceLastSenderReport e \<rparr>"

definition clamped_rate :: "u32 \<Rightarrow> u32" where
  "clamped_rate rate = min (max rate 100000) 8000000"

lemma plan_fold:
  "let plan' = fold plan_event es plan; estimates = filter (\<lambda>e. ev_kind e = Remb) es in
     pl_retransmitSequenceNumbers plan' = pl_retransmitSequenceNumbers plan @ map ev_sequenceNumber (filter (\<lambda>e. ev_kind e = Nack) es) \<and>
     (pl_requestKeyFrame plan' \<longleftrightarrow> pl_requestKeyFrame plan \<or> (\<exists>e \<in> set es. ev_kind e = Pli)) \<and>
     (pl_hasTargetBitrate plan' \<longleftrightarrow> pl_hasTargetBitrate plan \<or> estimates \<noteq> []) \<and>
     (estimates \<noteq> [] \<longrightarrow> pl_targetBitrateBps plan' = clamped_rate (ev_bitrateBps (last estimates))) \<and>
     (estimates = [] \<longrightarrow> pl_targetBitrateBps plan' = pl_targetBitrateBps plan) \<and>
     pl_receiverReports plan' = pl_receiverReports plan @ map sample_of (filter (\<lambda>e. ev_kind e = ReceiverReport) es)"
  by (induction es arbitrary: plan)
    (auto simp: plan_event_def Let_def sample_of_def clamped_rate_def kMinAdaptiveBitrateBps_def kMaxAdaptiveBitrateBps_def
      split: VideoRtcpFeedbackEventKind.splits)





text \<open>A packet that fills a datagram is its only slice, so a NACK the receiver sends gives one event per number.\<close>

lemma single_slice:
  assumes "parseHeader d = Some (Some h)" and "packetSizeBytes h = length d" and "d \<noteq> []"
  shows "parseCompoundPacket d = Some (Some [\<lparr> sl_header = h, sl_offset = 0, sl_size = length d \<rparr>])"
proof -
  have "parsePacketSlice d = Some (Some \<lparr> sl_header = h, sl_offset = 0, sl_size = length d \<rparr>)"
    using assms by (simp add: parsePacketSlice_def Let_def)
  then have "slices_from d 0 = Some (Some [\<lparr> sl_header = h, sl_offset = 0, sl_size = length d \<rparr>])"
    using assms(3) by (subst slices_from.simps) (simp add: slices_from.simps [of d "length d"])
  then show ?thesis using assms(3) by (simp add: parseCompoundPacket_def)
qed

lemma nack_events:
  assumes "ssrc \<noteq> 0" and "lost \<noteq> []"
  shows "parseFeedback (buildNackFeedback senderSsrc ssrc lost) ssrc =
    Some (Some (map (\<lambda>s. (event0 Nack ssrc)\<lparr>ev_sequenceNumber := s\<rparr>) (sorted_list_of_set (set lost))))"
proof -
  let ?d = "buildNackFeedback senderSsrc ssrc lost"
  from assms obtain h where h: "parseHeader ?d = Some (Some h)" "rh_packetType h = 205" "rh_countOrFormat h = 1"
    "packetSizeBytes h = length ?d" "12 \<le> length ?d"
    by (rule nack_built)
  then have "parseCompoundPacket ?d = Some (Some [\<lparr> sl_header = h, sl_offset = 0, sl_size = length ?d \<rparr>])"
    by (intro single_slice) auto
  then show ?thesis
    using h nack_parsed [OF assms, of senderSsrc] assms(1)
    by (simp add: parseFeedback_def slice_events_def isReceiverReport_def isFeedbackPacket_def)
qed

lemma nack_plan:
  assumes "ssrc \<noteq> 0" and "lost \<noteq> []"
  shows "\<exists>plan. parseDispatchPlan (buildNackFeedback senderSsrc ssrc lost) ssrc = Some (True, plan) \<and>
    pl_retransmitSequenceNumbers plan = sorted_list_of_set (set lost)"
proof -
  let ?ev = "\<lambda>s. (event0 Nack ssrc)\<lparr>ev_sequenceNumber := s\<rparr>"
  let ?es = "map ?ev (sorted_list_of_set (set lost))"
  have "filter (\<lambda>e. ev_kind e = Nack) ?es = ?es" by (simp add: filter_id_conv event0_def)
  then have "pl_retransmitSequenceNumbers (buildPlan ?es) = sorted_list_of_set (set lost)"
    using plan_fold [of ?es empty_plan] by (simp add: buildPlan_def Let_def empty_plan_def comp_def)
  then show ?thesis
    using nack_events [OF assms, of senderSsrc] assms(2)
    by (auto simp: parseDispatchPlan_def Let_def hasActions_def)
qed

section \<open>The cache of sent packets\<close>

lemma cacheSentPacket_limit [simp]: "ap_retransmitCacheLimit (cacheSentPacket s b a) = ap_retransmitCacheLimit a"
  by (simp add: cacheSentPacket_def Let_def)

lemma cache_all:
  assumes "\<forall>p \<in> set ps. snd p \<noteq> []" and "length (ap_sentPacketCache a) \<le> ap_retransmitCacheLimit a"
  shows "ap_sentPacketCache (fold (\<lambda>(s, b). cacheSentPacket s b) ps a) =
    (let c = ap_sentPacketCache a @ ps in drop (length c - ap_retransmitCacheLimit a) c)"
  using assms
proof (induction ps arbitrary: a)
  case (Cons p ps)
  let ?a = "cacheSentPacket (fst p) (snd p) a"
  let ?c = "ap_sentPacketCache a" and ?l = "ap_retransmitCacheLimit a"
  have c: "ap_sentPacketCache ?a = drop (length ?c + 1 - ?l) (?c @ [p])"
    using Cons.prems(1) by (simp add: cacheSentPacket_def)
  have "length (ap_sentPacketCache ?a) \<le> ap_retransmitCacheLimit ?a" using Cons.prems(2) by (simp add: c)
  then have "ap_sentPacketCache (fold (\<lambda>(s, b). cacheSentPacket s b) (p # ps) a) =
      drop (length (ap_sentPacketCache ?a @ ps) - ?l) (ap_sentPacketCache ?a @ ps)"
    using Cons.IH [of ?a] Cons.prems(1) by (cases p) (simp add: Let_def)
  also have "ap_sentPacketCache ?a @ ps = drop (length ?c + 1 - ?l) (?c @ p # ps)"
    using Cons.prems(2) by (cases "ap_retransmitCacheLimit a") (simp_all add: c)
  finally show ?case
    using Cons.prems(2) by (cases "length ?c < ?l") (simp_all add: Let_def del: drop_append)
qed simp

lemma find_distinct:
  "distinct (map fst xs) \<Longrightarrow> (k, v) \<in> set xs \<Longrightarrow> List.find (\<lambda>(k', _). k' = k) xs = Some (k, v)"
  by (induction xs) (auto simp: rev_image_eqI)

text \<open>While no more packets were sent than the cache holds, each can be sent again, byte for byte.\<close>

lemma retransmit_cached:
  assumes "\<forall>p \<in> set ps. snd p \<noteq> []" and "distinct (map fst ps)" and "length ps \<le> limit" and "(s, b) \<in> set ps"
    and "ps_isOpen socket" and "ps_hasPeer socket" and "ps_sendToPeer socket b = int (length b)"
  shows "retransmitPacket s socket (fold (\<lambda>(s, b). cacheSentPacket s b) ps (VideoRtcpActionPipeline_new limit)) =
    (True, '''', [b])"
proof -
  have "ap_sentPacketCache (fold (\<lambda>(s, b). cacheSentPacket s b) ps (VideoRtcpActionPipeline_new limit)) = ps"
    using assms(1,3) by (subst cache_all) (simp_all add: VideoRtcpActionPipeline_new_def Let_def)
  then show ?thesis using assms(2,4-7) find_distinct [of "rev ps" s b]
    by (simp add: retransmitPacket_def rev_map [symmetric])
qed

end
