(* ===== verification/ClientQueues.thy ===== *)
theory ClientQueues
  imports Prelude "HOL-Library.Sublist"
begin

text \<open>
  The two bounded queues that connect the threads of the client: \<open>common::RingBuffer\<close>
  (\<open>plasma-hawking/src/common/RingBuffer.h\<close>), which refuses an element when it is full, and
  \<open>VideoSendFrameRingBuffer\<close> (\<open>av/session/VideoSendFrameRingBuffer.cpp\<close>), which then drops its oldest
  one. Every operation holds the mutex of the queue, so a run of the threads is a sequence of operations. The
  contract both keep is the locale \<open>bounded_channel\<close>, in which the facts on whole runs are proved once.
\<close>

record 'a RingBuffer =
  rg_capacity :: nat
  rg_queue :: "'a list"
  rg_closed :: bool

definition RingBuffer_new :: "nat \<Rightarrow> 'a RingBuffer" where
  "RingBuffer_new capacity =
     \<lparr> rg_capacity = (if capacity = 0 then 1 else capacity), rg_queue = [], rg_closed = False \<rparr>"

definition RingBuffer_push :: "'a \<Rightarrow> 'a RingBuffer \<Rightarrow> bool \<times> 'a RingBuffer" where
  "RingBuffer_push v b =
     (if rg_closed b \<or> length (rg_queue b) \<ge> rg_capacity b then (False, b)
      else (True, b\<lparr>rg_queue := rg_queue b @ [v]\<rparr>))"

definition RingBuffer_pop :: "'a RingBuffer \<Rightarrow> 'a option \<times> 'a RingBuffer" where
  "RingBuffer_pop b =
     (case rg_queue b of [] \<Rightarrow> (None, b) | x # xs \<Rightarrow> (Some x, b\<lparr>rg_queue := xs\<rparr>))"

definition RingBuffer_clear :: "'a RingBuffer \<Rightarrow> 'a RingBuffer" where
  "RingBuffer_clear b = b\<lparr>rg_queue := []\<rparr>"

definition RingBuffer_reset :: "'a RingBuffer \<Rightarrow> 'a RingBuffer" where
  "RingBuffer_reset b = b\<lparr>rg_queue := [], rg_closed := False\<rparr>"

definition RingBuffer_close :: "'a RingBuffer \<Rightarrow> 'a RingBuffer" where
  "RingBuffer_close b = b\<lparr>rg_closed := True\<rparr>"

text \<open>
  \<open>popWait\<close>: \<open>wait_for\<close> with a predicate. An entry of the list is one wait on the condition variable: whether it
  ended by the timeout, and what the other threads did to the queue meanwhile. \<open>None\<close> means that the
  thread still waits after the last entry.
\<close>

fun RingBuffer_popWait ::
  "(bool \<times> ('a RingBuffer \<Rightarrow> 'a RingBuffer)) list \<Rightarrow> 'a RingBuffer \<Rightarrow> ('a option \<times> 'a RingBuffer) option" where
  "RingBuffer_popWait ws b =
     (if rg_closed b \<or> rg_queue b \<noteq> [] then Some (RingBuffer_pop b)
      else case ws of
        [] \<Rightarrow> None
      | (timed_out, others) # ws' \<Rightarrow>
          let b1 = others b in
          if timed_out
          then Some (if rg_closed b1 \<or> rg_queue b1 \<noteq> [] then RingBuffer_pop b1 else (None, b1))
          else RingBuffer_popWait ws' b1)"

declare RingBuffer_popWait.simps [simp del]

record 'a VideoSendFrameRingBuffer =
  vf_capacity :: nat
  vf_frames :: "'a list"
  vf_closed :: bool

definition VideoSendFrameRingBuffer_new :: "nat \<Rightarrow> 'a VideoSendFrameRingBuffer" where
  "VideoSendFrameRingBuffer_new capacity = \<lparr> vf_capacity = max capacity 1, vf_frames = [], vf_closed = False \<rparr>"

definition frames_push :: "'a \<Rightarrow> 'a VideoSendFrameRingBuffer \<Rightarrow> bool \<times> 'a VideoSendFrameRingBuffer" where
  "frames_push frame b =
     (if vf_closed b then (False, b)
      else
        let fs = (if length (vf_frames b) \<ge> vf_capacity b then tl (vf_frames b) else vf_frames b)
        in (True, b\<lparr>vf_frames := fs @ [frame]\<rparr>))"

definition frames_clear :: "'a VideoSendFrameRingBuffer \<Rightarrow> 'a VideoSendFrameRingBuffer" where
  "frames_clear b = b\<lparr>vf_frames := []\<rparr>"

definition frames_reset :: "'a VideoSendFrameRingBuffer \<Rightarrow> 'a VideoSendFrameRingBuffer" where
  "frames_reset b = b\<lparr>vf_frames := [], vf_closed := False\<rparr>"

definition frames_close :: "'a VideoSendFrameRingBuffer \<Rightarrow> 'a VideoSendFrameRingBuffer" where
  "frames_close b = b\<lparr>vf_closed := True\<rparr>"

text \<open>The last lines of \<open>popWait\<close>, after its loop.\<close>

definition frames_take :: "'a VideoSendFrameRingBuffer \<Rightarrow> 'a option \<times> 'a VideoSendFrameRingBuffer" where
  "frames_take b =
     (if vf_frames b = [] then (None, b) else (Some (hd (vf_frames b)), b\<lparr>vf_frames := tl (vf_frames b)\<rparr>))"

fun frames_popWait ::
  "(bool \<times> ('a VideoSendFrameRingBuffer \<Rightarrow> 'a VideoSendFrameRingBuffer)) list \<Rightarrow> 'a VideoSendFrameRingBuffer \<Rightarrow>
   ('a option \<times> 'a VideoSendFrameRingBuffer) option" where
  "frames_popWait ws b =
     (if vf_frames b = [] \<and> \<not> vf_closed b
      then (case ws of
          [] \<Rightarrow> None
        | (timed_out, others) # ws' \<Rightarrow>
            if timed_out then Some (None, others b) else frames_popWait ws' (others b))
      else Some (frames_take b))"

declare frames_popWait.simps [simp del]

section \<open>The contract\<close>

datatype 'a channel_op = Push 'a | Pop | Clear | Reset | Close

fun pushed_by :: "'a channel_op list \<Rightarrow> 'a list" where
  "pushed_by [] = []"
| "pushed_by (Push x # ops) = x # pushed_by ops"
| "pushed_by (_ # ops) = pushed_by ops"

text \<open>A run: the operations of all threads in the order in which they took the mutex; the result is what the
  successful calls of \<open>pop\<close> returned, and the queue at the end.\<close>

fun run_ops :: "('a \<Rightarrow> 'q \<Rightarrow> bool \<times> 'q) \<Rightarrow> ('q \<Rightarrow> 'a option \<times> 'q) \<Rightarrow> ('q \<Rightarrow> 'q) \<Rightarrow> ('q \<Rightarrow> 'q) \<Rightarrow> ('q \<Rightarrow> 'q) \<Rightarrow>
    'a channel_op list \<Rightarrow> 'q \<Rightarrow> 'a list \<times> 'q" where
  "run_ops push pop clear reset close [] q = ([], q)"
| "run_ops push pop clear reset close (op # ops) q =
     (let r = (case op of Push x \<Rightarrow> (None, snd (push x q)) | Pop \<Rightarrow> pop q | Clear \<Rightarrow> (None, clear q)
                 | Reset \<Rightarrow> (None, reset q) | Close \<Rightarrow> (None, close q));
          rest = run_ops push pop clear reset close ops (snd r)
      in (case fst r of None \<Rightarrow> fst rest | Some x \<Rightarrow> x # fst rest, snd rest))"

abbreviation RingBuffer_run :: "'a channel_op list \<Rightarrow> 'a RingBuffer \<Rightarrow> 'a list \<times> 'a RingBuffer" where
  "RingBuffer_run \<equiv> run_ops RingBuffer_push RingBuffer_pop RingBuffer_clear RingBuffer_reset RingBuffer_close"

abbreviation frames_run :: "'a channel_op list \<Rightarrow> 'a VideoSendFrameRingBuffer \<Rightarrow> 'a list \<times> 'a VideoSendFrameRingBuffer" where
  "frames_run \<equiv> run_ops frames_push frames_take frames_clear frames_reset frames_close"

text \<open>A run of pushes and pops that never meets a full queue loses nothing: it is a first-in first-out queue.\<close>

fun lossless :: "'a channel_op list \<Rightarrow> nat \<Rightarrow> nat \<Rightarrow> bool" where
  "lossless [] n c \<longleftrightarrow> True"
| "lossless (Push x # ops) n c \<longleftrightarrow> n < c \<and> lossless ops (Suc n) c"
| "lossless (Pop # ops) n c \<longleftrightarrow> lossless ops (n - 1) c"
| "lossless (_ # ops) n c \<longleftrightarrow> False"

locale bounded_channel =
  fixes items :: "'q \<Rightarrow> 'a list" and cap :: "'q \<Rightarrow> nat" and closed :: "'q \<Rightarrow> bool"
    and push :: "'a \<Rightarrow> 'q \<Rightarrow> bool \<times> 'q" and pop :: "'q \<Rightarrow> 'a option \<times> 'q"
    and clear :: "'q \<Rightarrow> 'q" and reset :: "'q \<Rightarrow> 'q" and close :: "'q \<Rightarrow> 'q"
  assumes push_closed: "closed q \<Longrightarrow> push x q = (False, q)"
    and push_room: "\<not> closed q \<Longrightarrow> length (items q) < cap q \<Longrightarrow> fst (push x q) \<and> items (snd (push x q)) = items q @ [x]"
    and push_full: "\<not> closed q \<Longrightarrow> cap q \<le> length (items q) \<Longrightarrow>
      items (snd (push x q)) = items q \<or> items (snd (push x q)) = tl (items q) @ [x]"
    and pop_item: "fst (pop q) = (case items q of [] \<Rightarrow> None | x # xs \<Rightarrow> Some x)"
    and pop_rest: "items (snd (pop q)) = tl (items q)"
    and emptied: "items (clear q) = []" "items (reset q) = []" "items (close q) = items q"
    and cap_kept: "cap (snd (push x q)) = cap q" "cap (snd (pop q)) = cap q" "cap (clear q) = cap q" "cap (reset q) = cap q"
      "cap (close q) = cap q"
    and closed_kept: "closed (snd (push x q)) = closed q" "closed (snd (pop q)) = closed q"
begin

abbreviation run :: "'a channel_op list \<Rightarrow> 'q \<Rightarrow> 'a list \<times> 'q" where
  "run \<equiv> run_ops push pop clear reset close"

lemma push_subseq: "subseq (items (snd (push x q))) (items q @ [x])"
proof -
  consider "closed q" | "\<not> closed q" "length (items q) < cap q" | "\<not> closed q" "cap q \<le> length (items q)" by linarith
  then show ?thesis
  proof cases
    case 3
    have "subseq (tl (items q) @ [x]) (items q @ [x])" by (cases "items q") (auto intro: list_emb_append_mono)
    then show ?thesis using push_full [OF 3, of x] by auto
  qed (auto simp: push_closed push_room)
qed

lemma push_bound: "length (items q) \<le> cap q \<Longrightarrow> 0 < cap q \<Longrightarrow> length (items (snd (push x q))) \<le> cap q"
  using push_closed [of q x] push_room [of q x] push_full [of q x]
  by (cases "closed q"; cases "length (items q) < cap q") (auto simp: Suc_le_eq)

text \<open>Whatever the threads do, what comes out went in, once and in that order, and the bound holds.\<close>

lemma run_subseq: "subseq (fst (run ops q) @ items (snd (run ops q))) (items q @ pushed_by ops)"
proof (induction ops arbitrary: q)
  case (Cons op ops)
  show ?case
  proof (cases op)
    case (Push x)
    have "subseq (items (snd (push x q)) @ pushed_by ops) ((items q @ [x]) @ pushed_by ops)"
      by (intro list_emb_append_mono push_subseq) simp
    then show ?thesis using Cons.IH [of "snd (push x q)"] by (auto simp: Push Let_def intro: subseq_order.order_trans)
  next
    case Pop
    then show ?thesis using Cons.IH [of "snd (pop q)"] pop_item [of q] pop_rest [of q]
      by (cases "items q") (auto simp: Let_def)
  qed (use Cons.IH [of "clear q"] Cons.IH [of "reset q"] Cons.IH [of "close q"] in
      \<open>auto simp: Let_def emptied intro: list_emb_append2\<close>)
qed simp

lemma run_bound: "length (items q) \<le> cap q \<Longrightarrow> 0 < cap q \<Longrightarrow> length (items (snd (run ops q))) \<le> cap q"
proof (induction ops arbitrary: q)
  case (Cons op ops)
  show ?case
  proof (cases op)
    case (Push x)
    then show ?thesis using Cons push_bound [of q x] Cons.IH [of "snd (push x q)"] by (simp add: cap_kept Let_def)
  next
    case Pop
    then show ?thesis using Cons.prems Cons.IH [of "snd (pop q)"] pop_rest [of q] by (simp add: cap_kept Let_def)
  qed (use Cons.prems Cons.IH [of "clear q"] Cons.IH [of "reset q"] Cons.IH [of "close q"] in \<open>auto simp: emptied cap_kept Let_def\<close>)
qed simp

lemma run_lossless:
  "lossless ops (length (items q)) (cap q) \<Longrightarrow> \<not> closed q \<Longrightarrow>
     fst (run ops q) @ items (snd (run ops q)) = items q @ pushed_by ops"
proof (induction ops arbitrary: q)
  case (Cons op ops)
  show ?case
  proof (cases op)
    case (Push x)
    then show ?thesis using Cons push_room [of q x] by (simp add: cap_kept closed_kept Let_def)
  next
    case Pop
    then show ?thesis using Cons pop_item [of q] pop_rest [of q]
      by (cases "items q") (simp_all add: cap_kept closed_kept Let_def)
  qed (use Cons.prems in auto)
qed simp

end

section \<open>Both queues keep the contract\<close>

interpretation ring: bounded_channel rg_queue rg_capacity rg_closed RingBuffer_push RingBuffer_pop
  RingBuffer_clear RingBuffer_reset RingBuffer_close
  by unfold_locales
     (auto simp: RingBuffer_push_def RingBuffer_pop_def RingBuffer_clear_def RingBuffer_reset_def RingBuffer_close_def
       split: list.splits)

interpretation frames: bounded_channel vf_frames vf_capacity vf_closed frames_push frames_take
  frames_clear frames_reset frames_close
  by unfold_locales
     (auto simp: frames_push_def frames_take_def frames_clear_def frames_reset_def frames_close_def Let_def
       split: list.splits)

text \<open>
  C33. Whatever the producer and consumer threads do with one of the two queues, from its creation on, in any interleaving, with
  clearing, closing and reopening: what has been popped, followed by what is still stored, is a
  subsequence of what was pushed, so nothing is duplicated, invented or reordered, and the capacity
  (at least 1) is never exceeded.
\<close>

theorem client_queues_in_order:
  "(let (out, b) = RingBuffer_run ops (RingBuffer_new n)
    in subseq (out @ rg_queue b) (pushed_by ops) \<and> length (rg_queue b) \<le> max n 1) \<and>
   (let (out, b) = frames_run ops (VideoSendFrameRingBuffer_new n)
    in subseq (out @ vf_frames b) (pushed_by ops) \<and> length (vf_frames b) \<le> max n 1)"
  using ring.run_subseq [of ops "RingBuffer_new n"] ring.run_bound [of "RingBuffer_new n" ops]
    frames.run_subseq [of ops "VideoSendFrameRingBuffer_new n"] frames.run_bound [of "VideoSendFrameRingBuffer_new n" ops]
  by (auto simp: RingBuffer_new_def VideoSendFrameRingBuffer_new_def case_prod_beta max_def split: if_splits)

text \<open>
  As long as no push meets a full queue and nobody clears or closes it, both are exactly first-in first-out: the
  elements popped, followed by those stored, are all the elements pushed, in order.
\<close>

theorem client_queues_lossless:
  assumes "lossless ops 0 (max n 1)"
  shows "fst (RingBuffer_run ops (RingBuffer_new n)) @ rg_queue (snd (RingBuffer_run ops (RingBuffer_new n))) = pushed_by ops \<and>
    fst (frames_run ops (VideoSendFrameRingBuffer_new n)) @ vf_frames (snd (frames_run ops (VideoSendFrameRingBuffer_new n)))
      = pushed_by ops"
proof -
  have "rg_capacity (RingBuffer_new n) = max n 1" by (auto simp: RingBuffer_new_def)
  then show ?thesis
    using assms ring.run_lossless [of ops "RingBuffer_new n"] frames.run_lossless [of ops "VideoSendFrameRingBuffer_new n"]
    by (simp add: RingBuffer_new_def VideoSendFrameRingBuffer_new_def)
qed

theorem client_queues_lossless_witness:
  "fst (RingBuffer_run [Push 1, Push 2, Pop, Push (3::nat), Pop] (RingBuffer_new 2)) = [1, 2]"
proof -
  let ?ops = "[Push 1, Push 2, Pop, Push (3::nat), Pop]"
  have "lossless ?ops 0 (max 2 1)" by simp
  from client_queues_lossless [OF this]
  have "fst (RingBuffer_run ?ops (RingBuffer_new 2)) @ rg_queue (snd (RingBuffer_run ?ops (RingBuffer_new 2))) = [1, 2, 3]"
    by simp
  moreover have "rg_queue (snd (RingBuffer_run ?ops (RingBuffer_new 2))) = [3]" by code_simp
  ultimately show ?thesis by simp
qed

section \<open>The waiting operations\<close>

text \<open>A waiting pop is the plain one at the moment it stops to wait, after what the other threads did until then.\<close>

lemma RingBuffer_popWait_unfold [simp]:
  "RingBuffer_popWait [] b = (if rg_closed b \<or> rg_queue b \<noteq> [] then Some (RingBuffer_pop b) else None)"
  "RingBuffer_popWait ((timed_out, others) # ws) b =
     (if rg_closed b \<or> rg_queue b \<noteq> [] then Some (RingBuffer_pop b)
      else if timed_out then Some (RingBuffer_pop (others b))
      else RingBuffer_popWait ws (others b))"
  by (subst RingBuffer_popWait.simps, simp add: Let_def RingBuffer_pop_def)+

lemma frames_popWait_unfold [simp]:
  "frames_popWait [] b = (if vf_frames b = [] \<and> \<not> vf_closed b then None else Some (frames_take b))"
  "frames_popWait ((timed_out, others) # ws) b =
     (if vf_frames b = [] \<and> \<not> vf_closed b
      then if timed_out then Some (None, others b) else frames_popWait ws (others b)
      else Some (frames_take b))"
  by (subst frames_popWait.simps, simp)+

lemma RingBuffer_popWait_pop:
  "RingBuffer_popWait ws b = Some r \<Longrightarrow> \<exists>k \<le> length ws. r = RingBuffer_pop (fold snd (take k ws) b)"
proof (induction ws arbitrary: b)
  case (Cons w ws)
  obtain timed_out others where w: "w = (timed_out, others)" by force
  have "r = RingBuffer_pop b \<or> r = RingBuffer_pop (others b) \<or> RingBuffer_popWait ws (others b) = Some r"
    using Cons.prems unfolding w RingBuffer_popWait_unfold by (metis option.inject)
  then consider "r = RingBuffer_pop b" | "r = RingBuffer_pop (others b)" | "RingBuffer_popWait ws (others b) = Some r"
    by blast
  then show ?case
  proof cases
    case 1
    then show ?thesis by (intro exI [of _ 0]) simp
  next
    case 2
    then show ?thesis by (intro exI [of _ 1]) (simp add: w)
  next
    case 3
    from Cons.IH [OF this] obtain k where "k \<le> length ws" "r = RingBuffer_pop (fold snd (take k ws) (others b))" by blast
    then show ?thesis by (intro exI [of _ "Suc k"]) (simp add: w)
  qed
qed (auto split: if_splits)

lemma RingBuffer_popWait_ends: "\<exists>w \<in> set ws. fst w \<Longrightarrow> \<exists>r. RingBuffer_popWait ws b = Some r"
proof (induction ws arbitrary: b)
  case (Cons w ws)
  then show ?case by (cases w) auto
qed simp

lemma frames_popWait_ends: "\<exists>w \<in> set ws. fst w \<Longrightarrow> \<exists>r. frames_popWait ws b = Some r"
proof (induction ws arbitrary: b)
  case (Cons w ws)
  then show ?case by (cases w) auto
qed simp

end
