(* ===== verification/H264Payload.thy ===== *)
theory H264Payload
  imports ClientRtp "HOL-Library.Signed_Division"
begin

text \<open>
  The H.264 payload format of the client: splitting an Annex B byte stream into NAL units, their
  packetisation (single NAL units and FU-A fragments), the packets of an encoded frame
  (\<open>plasma-hawking/src/net/media/H264RtpPayload.cpp\<close> and \<open>packetizeEncodedFrame\<close> of
  \<open>av/session/VideoSendPipeline.cpp\<close>), and the assembler of access units. A NAL unit is the list of
  its bytes where the code has a pointer into the frame and a size; every subscript of the code is
  guarded by the loop condition next to it.
\<close>

section \<open>Splitting a byte stream\<close>

function findStartCode :: "bytes \<Rightarrow> nat \<Rightarrow> nat \<times> nat" where
  "findStartCode payload i =
     (if i + 3 < length payload then
        if payload ! i = 0 \<and> payload ! (i + 1) = 0 \<and> payload ! (i + 2) = 1 then (i, 3)
        else if payload ! i = 0 \<and> payload ! (i + 1) = 0 \<and> payload ! (i + 2) = 0 \<and> payload ! (i + 3) = 1 then (i, 4)
        else findStartCode payload (i + 1)
      else (length payload, 0))"
  by pat_completeness auto
termination by (relation "measure (\<lambda>(payload, i). length payload - i)") auto

declare findStartCode.simps [simp del]

lemma findStartCode_bounds:
  "findStartCode payload i = (start, prefix) \<Longrightarrow> prefix \<noteq> 0 \<Longrightarrow> i \<le> start \<and> start + 3 < length payload \<and> prefix \<le> 4"
proof (induction payload i rule: findStartCode.induct)
  case (1 payload i)
  then show ?case by (subst (asm) findStartCode.simps) (auto split: if_splits)
qed

text \<open>The loop over the start codes: \<open>start\<close> and \<open>prefix\<close> are those of the code found last.\<close>

function nalus_from :: "bytes \<Rightarrow> nat \<Rightarrow> nat \<Rightarrow> bytes list" where
  "nalus_from payload start prefix =
     (if prefix = 0 then []
      else
        let naluStart = start + prefix;
            nextStart = fst (findStartCode payload naluStart);
            nextPrefix = snd (findStartCode payload naluStart);
            naluEnd = (if nextPrefix = 0 then length payload else nextStart)
        in (if naluEnd > naluStart then [take (naluEnd - naluStart) (drop naluStart payload)] else [])
           @ nalus_from payload nextStart nextPrefix)"
  by pat_completeness auto
termination
proof (relation "measure (\<lambda>(payload, start, prefix). if prefix = 0 then 0 else Suc (length payload - start))", goal_cases)
  case (2 payload start prefix x xa xb xc)
  then show ?case
    using findStartCode_bounds [of payload "start + prefix" "fst (findStartCode payload (start + prefix))"
        "snd (findStartCode payload (start + prefix))"]
    by (auto simp: case_prod_beta)
qed simp

declare nalus_from.simps [simp del]

definition splitAnnexBNalus :: "bytes \<Rightarrow> bytes list" where
  "splitAnnexBNalus payload =
     (if payload = [] then []
      else
        let (start, prefix) = findStartCode payload 0
        in if prefix = 0 then [payload] else nalus_from payload start prefix)"

section \<open>Packetisation\<close>

function fu_fragments :: "bytes \<Rightarrow> nat \<Rightarrow> nat \<Rightarrow> bytes list" where
  "fu_fragments nalu fragmentBytes offset =
     (if offset < length nalu \<and> fragmentBytes > 0 then
        let nalHeader = nalu ! 0;
            fuIndicator = (nalHeader AND 0xE0) OR 28;
            chunk = min fragmentBytes (length nalu - offset);
            fuHeader = nalHeader AND 0x1F;
            fuHeader = (if offset = 1 then fuHeader OR 0x80 else fuHeader);
            fuHeader = (if offset + chunk \<ge> length nalu then fuHeader OR 0x40 else fuHeader)
        in ([fuIndicator, fuHeader] @ take chunk (drop offset nalu)) # fu_fragments nalu fragmentBytes (offset + chunk)
      else [])"
  by pat_completeness auto
termination by (relation "measure (\<lambda>(nalu, fragmentBytes, offset). length nalu - offset)") auto

declare fu_fragments.simps [simp del]

definition packetize_nalu :: "nat \<Rightarrow> bytes \<Rightarrow> bytes list" where
  "packetize_nalu maxPayloadBytes nalu =
     (if nalu = [] then []
      else if length nalu \<le> maxPayloadBytes then [nalu]
      else fu_fragments nalu (if maxPayloadBytes > 2 then maxPayloadBytes - 2 else 0) 1)"

definition packetizeH264AnnexB :: "bytes \<Rightarrow> nat \<Rightarrow> bytes list" where
  "packetizeH264AnnexB encodedFrame maxPayloadBytes =
     concat (map (packetize_nalu maxPayloadBytes) (splitAnnexBNalus encodedFrame))"

text \<open>
  The packets of a frame, of which the last carries the marker: the loop sets the marker when the
  index reaches the last payload. An empty packet would end the loop with an error; the sequence
  number of each packet is read back from its bytes.
\<close>

definition parseRtpSequenceNumber :: "bytes \<Rightarrow> u16 mem" where
  "parseRtpSequenceNumber data = (if length data < 12 then Some 0 else ReadU16 data 2)"

record VideoSendPipelinePacket =
  vp_sequenceNumber :: u16
  vp_timestamp :: u32
  vp_bytes :: bytes

fun build_packets :: "u8 \<Rightarrow> u32 \<Rightarrow> bytes list \<Rightarrow> RTPSender \<Rightarrow> (string + VideoSendPipelinePacket list) \<times> RTPSender" where
  "build_packets payloadType timestamp [] s = (Inr [], s)"
| "build_packets payloadType timestamp (payload # payloads) s =
     (let (packet, s1) = buildPacket payloadType (payloads = []) timestamp payload s
      in if packet = [] then (Inl ''RTP packet build failed'', s1)
         else case build_packets payloadType timestamp payloads s1 of
                (Inl err, s2) \<Rightarrow> (Inl err, s2)
              | (Inr packets, s2) \<Rightarrow>
                  (Inr (\<lparr> vp_sequenceNumber = the (parseRtpSequenceNumber packet), vp_timestamp = timestamp,
                          vp_bytes = packet \<rparr> # packets), s2))"

record EncodedVideoFrame =
  ef_width :: int
  ef_height :: int
  ef_frameRate :: int
  ef_pts :: int
  ef_keyFrame :: bool
  ef_payloadType :: u8
  ef_payload :: bytes

definition frame_timestamp :: "EncodedVideoFrame \<Rightarrow> int \<Rightarrow> u32" where
  "frame_timestamp encoded fallbackFrameRate =
     (let frameRate = (if ef_frameRate encoded > 0 then ef_frameRate encoded else fallbackFrameRate)
      in of_int ((ef_pts encoded * 90000) sdiv max 1 frameRate))"

definition packetizeEncodedFrame ::
  "EncodedVideoFrame \<Rightarrow> int \<Rightarrow> nat \<Rightarrow> RTPSender \<Rightarrow> (string + VideoSendPipelinePacket list) \<times> RTPSender" where
  "packetizeEncodedFrame encoded fallbackFrameRate maxPayloadBytes s =
     (let payloads = packetizeH264AnnexB (ef_payload encoded) maxPayloadBytes
      in if payloads = [] then (Inl ''no RTP payloads produced from H264 frame'', s)
         else build_packets (ef_payloadType encoded) (frame_timestamp encoded fallbackFrameRate) payloads s)"

text \<open>
  No packet is empty, so the loop cannot fail, and the sequence number read from a packet is the
  one the sender numbered it with.
\<close>

fun sent_bytes :: "u8 \<Rightarrow> u32 \<Rightarrow> bytes list \<Rightarrow> RTPSender \<Rightarrow> bytes list" where
  "sent_bytes payloadType timestamp [] s = []"
| "sent_bytes payloadType timestamp (payload # payloads) s =
     fst (buildPacket payloadType (payloads = []) timestamp payload s) #
     sent_bytes payloadType timestamp payloads (snd (buildPacket payloadType (payloads = []) timestamp payload s))"

lemma sent_bytes_length [simp]: "length (sent_bytes pt ts payloads s) = length payloads"
  by (induction payloads arbitrary: s) simp_all

lemma buildPacket_nonempty [simp]: "fst (buildPacket pt m ts payload s) \<noteq> []"
  by (simp add: buildPacket_def)

lemma parseRtpSequenceNumber_built [simp]:
  "parseRtpSequenceNumber (fst (buildPacket pt m ts payload s)) = Some (snd_sequence s)"
  by (simp add: parseRtpSequenceNumber_def buildPacket_def AppendU16_def)

lemma snd_buildPacket [simp]: "snd (buildPacket pt m ts payload s) = s\<lparr>snd_sequence := snd_sequence s + 1\<rparr>"
  by (simp add: buildPacket_def)

lemma build_packets_total:
  "\<exists>packets. build_packets pt ts payloads s =
       (Inr packets, s\<lparr>snd_sequence := snd_sequence s + of_nat (length payloads)\<rparr>) \<and>
     map vp_bytes packets = sent_bytes pt ts payloads s \<and>
     map vp_sequenceNumber packets = map (\<lambda>i. snd_sequence s + of_nat i) [0..<length payloads] \<and>
     (\<forall>p \<in> set packets. vp_timestamp p = ts)"
proof (induction payloads arbitrary: s)
  case (Cons payload payloads)
  from Cons.IH [of "s\<lparr>snd_sequence := snd_sequence s + 1\<rparr>"] obtain packets where ih:
    "build_packets pt ts payloads (s\<lparr>snd_sequence := snd_sequence s + 1\<rparr>) =
       (Inr packets, s\<lparr>snd_sequence := snd_sequence s + 1 + of_nat (length payloads)\<rparr>)"
    "map vp_bytes packets = sent_bytes pt ts payloads (s\<lparr>snd_sequence := snd_sequence s + 1\<rparr>)"
    "map vp_sequenceNumber packets = map (\<lambda>i. snd_sequence s + 1 + of_nat i) [0..<length payloads]"
    "\<forall>p \<in> set packets. vp_timestamp p = ts"
    by auto
  have "map (\<lambda>i. snd_sequence s + of_nat i) [0..<Suc (length payloads)] =
      snd_sequence s # map (\<lambda>i. snd_sequence s + 1 + of_nat i) [0..<length payloads]"
    by (simp add: map_Suc_upt [symmetric] upt_conv_Cons add.assoc comp_def del: upt_Suc)
  with ih show ?case by (simp add: Let_def case_prod_beta add.assoc del: upt_Suc)
qed simp

section \<open>The assembler\<close>

record H264AccessUnit =
  au_payload :: bytes
  au_pts :: int
  au_payloadType :: u8

record H264AccessUnitAssembler =
  asm_timestamp :: u32
  asm_hasTimestamp :: bool
  asm_expectedSequence :: u16
  asm_hasExpectedSequence :: bool
  asm_accessUnitCorrupted :: bool
  asm_accessUnit :: bytes
  asm_fragmentedNalu :: bytes

definition H264AccessUnitAssembler_new :: H264AccessUnitAssembler where
  "H264AccessUnitAssembler_new = \<lparr> asm_timestamp = 0, asm_hasTimestamp = False, asm_expectedSequence = 0,
     asm_hasExpectedSequence = False, asm_accessUnitCorrupted = False, asm_accessUnit = [], asm_fragmentedNalu = [] \<rparr>"

definition isForwardSequenceGap :: "u16 \<Rightarrow> u16 \<Rightarrow> bool" where
  "isForwardSequenceGap expected actual = (let delta = actual - expected in delta \<noteq> 0 \<and> delta < 0x8000)"

text \<open>The first argument is the room left in the list, which the caller has just cleared.\<close>

fun missing_sequences :: "nat \<Rightarrow> u16 \<Rightarrow> u16 \<Rightarrow> u16 list" where
  "missing_sequences 0 sequence actual = []"
| "missing_sequences (Suc n) sequence actual =
     (if sequence \<noteq> actual then sequence # missing_sequences n (sequence + 1) actual else [])"

definition appendMissingSequences :: "u16 \<Rightarrow> u16 \<Rightarrow> u16 list" where
  "appendMissingSequences expected actual = missing_sequences 32 expected actual"

definition start_code :: bytes where "start_code = [0, 0, 0, 1]"

definition appendCompleteNalu :: "bytes \<Rightarrow> bytes \<Rightarrow> bytes" where
  "appendCompleteNalu target nalu = (if nalu = [] then target else target @ start_code @ nalu)"

text \<open>
  The result of \<open>consume\<close>: the access unit when it returns \<open>true\<close>, the flag
  \<open>packetLossDetected\<close>, the missing sequence numbers and the new state. \<open>sequence_checked\<close> is the
  state after the sequence number and the time stamp were looked at, with the flag \<open>packetLoss\<close>.
\<close>

definition sequence_checked :: "RTPHeader \<Rightarrow> H264AccessUnitAssembler \<Rightarrow> bool \<times> H264AccessUnitAssembler" where
  "sequence_checked h a =
     (let gap = (asm_hasExpectedSequence a \<and> h_sequenceNumber h \<noteq> asm_expectedSequence a);
          newTimestamp = (\<not> asm_hasTimestamp a \<or> h_timestamp h \<noteq> asm_timestamp a);
          a1 = (if gap then a\<lparr>asm_accessUnitCorrupted := True, asm_fragmentedNalu := [],
                  asm_accessUnit := (if newTimestamp then [] else asm_accessUnit a)\<rparr> else a);
          a2 = a1\<lparr>asm_expectedSequence := h_sequenceNumber h + 1, asm_hasExpectedSequence := True\<rparr>
      in if newTimestamp
         then (gap \<or> asm_hasTimestamp a2 \<and> (asm_accessUnit a2 \<noteq> [] \<or> asm_fragmentedNalu a2 \<noteq> []),
               a2\<lparr>asm_fragmentedNalu := [], asm_accessUnit := [], asm_timestamp := h_timestamp h,
                  asm_hasTimestamp := True, asm_accessUnitCorrupted := False\<rparr>)
         else (gap, a2))"

definition finish_packet ::
  "RTPPacket \<Rightarrow> bool \<Rightarrow> H264AccessUnitAssembler \<Rightarrow> H264AccessUnit option \<times> bool \<times> H264AccessUnitAssembler" where
  "finish_packet packet packetLoss a =
     (if \<not> h_marker (p_header packet) \<or> asm_accessUnit a = [] then (None, packetLoss, a)
      else
        let corrupted = (asm_accessUnitCorrupted a \<or> asm_fragmentedNalu a \<noteq> []);
            a' = a\<lparr>asm_accessUnit := [], asm_fragmentedNalu := [], asm_accessUnitCorrupted := False\<rparr>
        in (if corrupted then None
            else Some \<lparr> au_payload = asm_accessUnit a, au_pts = uint (h_timestamp (p_header packet)),
                        au_payloadType = h_payloadType (p_header packet) \<rparr>,
            packetLoss \<or> corrupted, a'))"

definition consume_payload ::
  "RTPPacket \<Rightarrow> bool \<Rightarrow> H264AccessUnitAssembler \<Rightarrow> H264AccessUnit option \<times> bool \<times> H264AccessUnitAssembler" where
  "consume_payload packet packetLoss a =
     (let payload = p_payload packet in
      if payload = [] then (None, packetLoss, a)
      else if payload ! 0 AND 0x1F = 28 then
        if length payload < 2 then (None, True, a\<lparr>asm_accessUnitCorrupted := True\<rparr>)
        else
          let fuIndicator = payload ! 0; fuHeader = payload ! 1;
              start = (fuHeader AND 0x80 \<noteq> 0); final = (fuHeader AND 0x40 \<noteq> 0);
              reconstructedHeader = (fuIndicator AND 0xE0) OR (fuHeader AND 0x1F);
              fragmented = (if start then [reconstructedHeader] else asm_fragmentedNalu a)
          in if fragmented = [] then (None, True, a\<lparr>asm_accessUnitCorrupted := True\<rparr>)
             else
               let fragmented = fragmented @ drop 2 payload
               in finish_packet packet packetLoss
                    (if final then a\<lparr>asm_accessUnit := appendCompleteNalu (asm_accessUnit a) fragmented,
                                     asm_fragmentedNalu := []\<rparr>
                     else a\<lparr>asm_fragmentedNalu := fragmented\<rparr>)
      else
        let a1 = (if asm_fragmentedNalu a \<noteq> [] then a\<lparr>asm_accessUnitCorrupted := True, asm_fragmentedNalu := []\<rparr> else a)
        in finish_packet packet packetLoss (a1\<lparr>asm_accessUnit := appendCompleteNalu (asm_accessUnit a1) payload\<rparr>))"

definition consume ::
  "RTPPacket \<Rightarrow> H264AccessUnitAssembler \<Rightarrow> H264AccessUnit option \<times> bool \<times> u16 list \<times> H264AccessUnitAssembler" where
  "consume packet a =
     (let sequence = h_sequenceNumber (p_header packet);
          gap = (asm_hasExpectedSequence a \<and> sequence \<noteq> asm_expectedSequence a)
      in if gap \<and> \<not> isForwardSequenceGap (asm_expectedSequence a) sequence then (None, False, [], a)
         else
           let missing = (if gap then appendMissingSequences (asm_expectedSequence a) sequence else []);
               (packetLoss, a1) = sequence_checked (p_header packet) a;
               (result, lossDetected, a2) = consume_payload packet packetLoss a1
           in (result, lossDetected, missing, a2))"

section \<open>Every frame arrives as it was sent\<close>

text \<open>The NAL unit header is split over the two header bytes of a fragment and put together again.\<close>

lemma and_or_distrib: "(x OR y) AND z = (x AND z) OR (y AND (z :: u8))"
  by (simp add: bit.conj_disj_distrib2)

lemma fu_bytes:
  fixes h :: u8
  shows "((h AND 0xE0) OR 28) AND 0x1F = 28" "((h AND 0xE0) OR 28) AND 0xE0 = h AND 0xE0"
    "(h AND 0x1F) AND 0x80 = 0" "((h AND 0x1F) OR 0x40) AND 0x80 = 0"
    "(h AND 0x1F) AND 0x40 = 0" "((h AND 0x1F) OR 0x80) AND 0x40 = 0"
    "((h AND 0x1F) OR 0x80) AND 0x80 \<noteq> 0" "(((h AND 0x1F) OR 0x80) OR 0x40) AND 0x80 \<noteq> 0"
    "((h AND 0x1F) OR 0x40) AND 0x40 \<noteq> 0" "(((h AND 0x1F) OR 0x80) OR 0x40) AND 0x40 \<noteq> 0"
    "((h AND 0x1F) OR 0x80) AND 0x1F = h AND 0x1F" "((h AND 0x1F) OR 0x40) AND 0x1F = h AND 0x1F"
    "(((h AND 0x1F) OR 0x80) OR 0x40) AND 0x1F = h AND 0x1F" "(h AND 0x1F) AND 0x1F = h AND 0x1F"
  by (simp_all add: and_or_distrib and.assoc)

lemma fu_header_joined: "(h AND 0xE0) OR (h AND 0x1F) = (h :: u8)"
proof -
  have "(h AND 0xE0) OR (h AND 0x1F) = h AND ((0xE0 :: u8) OR 0x1F)" by (simp only: bit.conj_disj_distrib)
  also have "(0xE0 :: u8) OR 0x1F = - 1" by simp
  finally show ?thesis by simp
qed

text \<open>
  The effect of one payload, and of a list of them, on the access unit and the fragment built so
  far; \<open>None\<close> where the assembler would mark the unit corrupted.
\<close>

fun absorb1 :: "bytes \<Rightarrow> bytes \<times> bytes \<Rightarrow> (bytes \<times> bytes) option" where
  "absorb1 payload (au, frag) =
     (if payload = [] then None
      else if payload ! 0 AND 0x1F = 28 then
        if length payload < 2 then None
        else
          let frag1 = (if payload ! 1 AND 0x80 \<noteq> 0 then [(payload ! 0 AND 0xE0) OR (payload ! 1 AND 0x1F)] else frag)
          in if frag1 = [] then None
             else if payload ! 1 AND 0x40 \<noteq> 0 then Some (appendCompleteNalu au (frag1 @ drop 2 payload), [])
             else Some (au, frag1 @ drop 2 payload)
      else if frag \<noteq> [] then None
      else Some (appendCompleteNalu au payload, []))"

fun absorb :: "bytes list \<Rightarrow> bytes \<times> bytes \<Rightarrow> (bytes \<times> bytes) option" where
  "absorb [] st = Some st"
| "absorb (p # ps) st = Option.bind (absorb1 p st) (absorb ps)"

lemma absorb_append: "absorb (xs @ ys) st = Option.bind (absorb xs st) (absorb ys)"
  by (induction xs arbitrary: st) (auto split: bind_splits)

declare absorb1.simps [simp del]

lemma absorb_fragments:
  assumes "0 < fb" "1 \<le> offset" "offset < length nalu" "frag = (if offset = 1 then [] else take offset nalu)"
  shows "absorb (fu_fragments nalu fb offset) (au, frag) = Some (appendCompleteNalu au nalu, [])"
  using assms
proof (induction nalu fb offset arbitrary: frag rule: fu_fragments.induct)
  case (1 nalu fb offset)
  define chunk where "chunk = min fb (length nalu - offset)"
  let ?h = "nalu ! 0"
  let ?piece = "take chunk (drop offset nalu)"
  let ?last = "offset + chunk \<ge> length nalu"
  let ?fh = "if ?last then (if offset = 1 then (?h AND 0x1F) OR 0x80 else ?h AND 0x1F) OR 0x40
    else (if offset = 1 then (?h AND 0x1F) OR 0x80 else ?h AND 0x1F)"
  have frags: "fu_fragments nalu fb offset = ([(?h AND 0xE0) OR 28, ?fh] @ ?piece) # fu_fragments nalu fb (offset + chunk)"
    using "1.prems" by (subst fu_fragments.simps) (simp add: Let_def chunk_def [symmetric])
  have first: "take 1 nalu = [?h]" using "1.prems"(3) by (cases nalu) auto
  have acc: "take offset nalu @ ?piece = take (offset + chunk) nalu" by (simp add: take_add)
  have step: "absorb1 ([(?h AND 0xE0) OR 28, ?fh] @ ?piece) (au, frag) =
      Some (if ?last then (appendCompleteNalu au nalu, []) else (au, take (offset + chunk) nalu))"
    using "1.prems"(2,3,4) acc first by (auto simp: absorb1.simps Let_def fu_bytes fu_header_joined)
  show ?case
  proof (cases ?last)
    case True
    then have "fu_fragments nalu fb (offset + chunk) = []" by (subst fu_fragments.simps) simp
    then show ?thesis using step True by (simp add: frags del: append.simps)
  next
    case False
    have "0 < chunk" using "1.prems" by (simp add: chunk_def)
    then have "absorb (fu_fragments nalu fb (offset + chunk)) (au, take (offset + chunk) nalu) =
        Some (appendCompleteNalu au nalu, [])"
      using "1.IH" [where frag = "take (offset + chunk) nalu", OF _ refl refl refl refl refl] "1.prems" False
      by (simp add: chunk_def Let_def)
    then show ?thesis using step False by (simp add: frags del: append.simps)
  qed
qed

lemma absorb_nalu:
  assumes "nalu \<noteq> []" "nalu ! 0 AND 0x1F \<noteq> 28" "2 < maxBytes"
  shows "absorb (packetize_nalu maxBytes nalu) (au, []) = Some (au @ start_code @ nalu, [])"
proof (cases "length nalu \<le> maxBytes")
  case True
  then show ?thesis using assms by (simp add: packetize_nalu_def absorb1.simps appendCompleteNalu_def)
next
  case False
  then have "absorb (fu_fragments nalu (maxBytes - 2) 1) (au, []) = Some (appendCompleteNalu au nalu, [])"
    using assms by (intro absorb_fragments) auto
  then show ?thesis using assms False by (simp add: packetize_nalu_def appendCompleteNalu_def)
qed

lemma absorb_nalus:
  assumes "\<forall>n \<in> set nalus. n \<noteq> [] \<and> n ! 0 AND 0x1F \<noteq> 28" "2 < maxBytes"
  shows "absorb (concat (map (packetize_nalu maxBytes) nalus)) (au, []) =
    Some (au @ concat (map (append start_code) nalus), [])"
  using assms by (induction nalus arbitrary: au) (simp_all add: absorb_append absorb_nalu)

lemma nalus_from_nonempty: "n \<in> set (nalus_from payload start prefix) \<Longrightarrow> n \<noteq> []"
proof (induction payload start prefix rule: nalus_from.induct)
  case (1 payload start prefix)
  let ?f = "findStartCode payload (start + prefix)"
  consider "prefix = 0" | "prefix \<noteq> 0" "n \<in> set (nalus_from payload (fst ?f) (snd ?f))"
    | "n = take ((if snd ?f = 0 then length payload else fst ?f) - (start + prefix)) (drop (start + prefix) payload)"
      "(if snd ?f = 0 then length payload else fst ?f) > start + prefix"
    using "1.prems" by (subst (asm) nalus_from.simps) (auto simp: Let_def split: if_splits)
  then show ?case
  proof cases
    case 1
    then show ?thesis using "1.prems" by (subst (asm) nalus_from.simps) simp
  next
    case 2
    then show ?thesis using "1.IH" by simp
  next
    case 3
    have "(if snd ?f = 0 then length payload else fst ?f) \<le> length payload"
      using findStartCode_bounds [of payload "start + prefix" "fst ?f" "snd ?f"] by auto
    then show ?thesis using 3 by auto
  qed
qed

lemma splitAnnexBNalus_nonempty: "n \<in> set (splitAnnexBNalus payload) \<Longrightarrow> n \<noteq> []"
  using nalus_from_nonempty by (auto simp: splitAnnexBNalus_def split: if_splits prod.splits)

text \<open>A receiver in the middle of the access unit with time stamp \<open>ts\<close>, expecting \<open>sequence\<close>.\<close>

definition unit_state :: "u32 \<Rightarrow> u16 \<Rightarrow> bytes \<Rightarrow> bytes \<Rightarrow> H264AccessUnitAssembler" where
  "unit_state ts sequence au frag = \<lparr> asm_timestamp = ts, asm_hasTimestamp = True, asm_expectedSequence = sequence,
     asm_hasExpectedSequence = True, asm_accessUnitCorrupted = False, asm_accessUnit = au, asm_fragmentedNalu = frag \<rparr>"

lemma unit_state_update:
  "(unit_state ts q au frag)\<lparr>asm_accessUnit := au', asm_fragmentedNalu := frag'\<rparr> = unit_state ts q au' frag'"
  "(unit_state ts q au frag)\<lparr>asm_fragmentedNalu := frag'\<rparr> = unit_state ts q au frag'"
  "(unit_state ts q au frag)\<lparr>asm_accessUnit := au'\<rparr> = unit_state ts q au' frag"
  "asm_accessUnit (unit_state ts q au frag) = au" "asm_fragmentedNalu (unit_state ts q au frag) = frag"
  "\<not> asm_accessUnitCorrupted (unit_state ts q au frag)"
  by (simp_all add: unit_state_def)

lemma consume_payload_absorb:
  assumes "absorb1 (p_payload p) (au, frag) = Some (au', frag')"
  shows "consume_payload p False (unit_state ts q au frag) = finish_packet p False (unit_state ts q au' frag')"
  using assms
  by (auto simp: consume_payload_def absorb1.simps Let_def unit_state_update split: if_splits)

lemma consume_in_unit:
  assumes "h_sequenceNumber (p_header p) = q" "h_timestamp (p_header p) = ts"
    and "absorb1 (p_payload p) (au, frag) = Some (au', frag')"
  shows "consume p (unit_state ts q au frag) =
    (let (r, l, a) = finish_packet p False (unit_state ts (q + 1) au' frag') in (r, l, [], a))"
proof -
  have "sequence_checked (p_header p) (unit_state ts q au frag) = (False, unit_state ts (q + 1) au frag)"
    using assms(1,2) by (simp add: sequence_checked_def unit_state_def)
  then show ?thesis
    using assms(1) consume_payload_absorb [OF assms(3)] by (simp add: consume_def Let_def unit_state_def)
qed

text \<open>A receiver between access units that has missed nothing.\<close>

definition awaits :: "H264AccessUnitAssembler \<Rightarrow> u16 \<Rightarrow> u32 \<Rightarrow> bool" where
  "awaits a sequence ts \<longleftrightarrow> (asm_hasExpectedSequence a \<longrightarrow> asm_expectedSequence a = sequence) \<and>
     (asm_hasTimestamp a \<longrightarrow> asm_timestamp a \<noteq> ts) \<and> asm_accessUnit a = [] \<and> asm_fragmentedNalu a = []"

lemma consume_first:
  assumes "awaits a (h_sequenceNumber (p_header p)) (h_timestamp (p_header p))"
  shows "consume p a = consume p (unit_state (h_timestamp (p_header p)) (h_sequenceNumber (p_header p)) [] [])"
proof -
  let ?q = "h_sequenceNumber (p_header p)" and ?ts = "h_timestamp (p_header p)"
  have "sequence_checked (p_header p) a = (False, unit_state ?ts (?q + 1) [] [])"
    using assms by (auto simp: sequence_checked_def awaits_def unit_state_def Let_def)
  moreover have "sequence_checked (p_header p) (unit_state ?ts ?q [] []) = (False, unit_state ?ts (?q + 1) [] [])"
    by (simp add: sequence_checked_def unit_state_def)
  ultimately show ?thesis using assms by (auto simp: consume_def awaits_def Let_def unit_state_def)
qed

text \<open>The receive path: each datagram is parsed and given to the assembler.\<close>

fun receive_all ::
  "bytes list \<Rightarrow> H264AccessUnitAssembler \<Rightarrow> (H264AccessUnit option \<times> bool \<times> u16 list) list \<times> H264AccessUnitAssembler" where
  "receive_all [] a = ([], a)"
| "receive_all (wire # wires) a =
     (case parsePacket wire of
        Some (Some p) \<Rightarrow>
          let (r, l, m, a1) = consume p a; (rs, a2) = receive_all wires a1 in ((r, l, m) # rs, a2)
      | _ \<Rightarrow> receive_all wires a)"

lemma receive_unit:
  assumes "absorb payloads (au, frag) = Some (au', [])" "au' \<noteq> []" "payloads \<noteq> []"
  shows "receive_all (sent_bytes pt ts payloads s) (unit_state ts (snd_sequence s) au frag) =
    (replicate (length payloads - 1) (None, False, []) @
       [(Some \<lparr> au_payload = au', au_pts = uint ts, au_payloadType = pt AND 0x7F \<rparr>, False, [])],
     unit_state ts (snd_sequence s + of_nat (length payloads)) [] [])"
  using assms
proof (induction payloads arbitrary: s au frag)
  case (Cons payload payloads)
  obtain au1 frag1 where a1: "absorb1 payload (au, frag) = Some (au1, frag1)"
    "absorb payloads (au1, frag1) = Some (au', [])"
    using Cons.prems(1) by (auto split: bind_splits)
  let ?s1 = "snd (buildPacket pt (payloads = []) ts payload s)"
  let ?p = "\<lparr> p_header = \<lparr> h_version = 2, h_padding = False, h_extension = False, h_csrcCount = 0,
      h_marker = (payloads = []), h_payloadType = pt AND 0x7F, h_sequenceNumber = snd_sequence s, h_timestamp = ts,
      h_ssrc = snd_ssrc s \<rparr>, p_payload = payload \<rparr>"
  have s1: "snd_sequence ?s1 = snd_sequence s + 1" by (simp add: buildPacket_def)
  have step: "consume ?p (unit_state ts (snd_sequence s) au frag) =
      (let (r, l, a) = finish_packet ?p False (unit_state ts (snd_sequence s + 1) au1 frag1) in (r, l, [], a))"
    using a1(1) by (intro consume_in_unit) simp_all
  show ?case
  proof (cases "payloads = []")
    case True
    then show ?thesis
      using a1 Cons.prems(2) step
      by (simp add: parsePacket_built Let_def case_prod_beta finish_packet_def unit_state_update)
  next
    case False
    have "finish_packet ?p False (unit_state ts (snd_sequence s + 1) au1 frag1) =
        (None, False, unit_state ts (snd_sequence s + 1) au1 frag1)"
      using False by (simp add: finish_packet_def)
    moreover have "receive_all (sent_bytes pt ts payloads ?s1) (unit_state ts (snd_sequence s + 1) au1 frag1) =
      (replicate (length payloads - 1) (None, False, []) @
         [(Some \<lparr> au_payload = au', au_pts = uint ts, au_payloadType = pt AND 0x7F \<rparr>, False, [])],
       unit_state ts (snd_sequence s + 1 + of_nat (length payloads)) [] [])"
      using Cons.IH [OF a1(2) Cons.prems(2) False, of ?s1] s1 by simp
    moreover have "x # replicate (length payloads - 1) x @ ys = replicate (length payloads) x @ ys"
      for x and ys :: "(H264AccessUnit option \<times> bool \<times> u16 list) list"
      using False by (cases payloads) simp_all
    ultimately show ?thesis
      using step by (simp add: parsePacket_built Let_def case_prod_beta add.assoc)
  qed
qed simp

lemma receive_first:
  assumes "awaits a (snd_sequence s) ts" "payloads \<noteq> []"
  shows "receive_all (sent_bytes pt ts payloads s) a =
    receive_all (sent_bytes pt ts payloads s) (unit_state ts (snd_sequence s) [] [])"
proof (cases payloads)
  case (Cons payload rest)
  then show ?thesis
    using consume_first [of a "\<lparr> p_header = \<lparr> h_version = 2, h_padding = False, h_extension = False, h_csrcCount = 0,
      h_marker = (rest = []), h_payloadType = pt AND 0x7F, h_sequenceNumber = snd_sequence s, h_timestamp = ts,
      h_ssrc = snd_ssrc s \<rparr>, p_payload = payload \<rparr>"] assms(1)
    by (simp add: parsePacket_built Let_def case_prod_beta)
qed (use assms(2) in simp)

lemma receive_frame:
  assumes "payloads = packetizeH264AnnexB frame maxBytes" "payloads \<noteq> []" "3 \<le> maxBytes"
    and "\<forall>n \<in> set (splitAnnexBNalus frame). n ! 0 AND 0x1F \<noteq> 28" "awaits a (snd_sequence s) ts"
  shows "receive_all (sent_bytes pt ts payloads s) a =
      (replicate (length payloads - 1) (None, False, []) @
        [(Some \<lparr> au_payload = concat (map (append start_code) (splitAnnexBNalus frame)),
                 au_pts = uint ts, au_payloadType = pt AND 0x7F \<rparr>, False, [])],
       unit_state ts (snd_sequence s + of_nat (length payloads)) [] [])"
proof -
  let ?nalus = "splitAnnexBNalus frame"
  have "absorb payloads ([], []) = Some (concat (map (append start_code) ?nalus), [])"
    unfolding assms(1) packetizeH264AnnexB_def
    using absorb_nalus [of ?nalus maxBytes "[]"] assms(3,4) splitAnnexBNalus_nonempty by auto
  moreover have "concat (map (append start_code) ?nalus) \<noteq> []"
    using assms(1,2) by (auto simp: packetizeH264AnnexB_def start_code_def)
  ultimately show ?thesis
    using receive_unit [of payloads "[]" "[]" _ pt ts s] assms(2,5) receive_first [of a s ts payloads pt] by simp
qed

text \<open>The packets of a frame as bytes.\<close>

lemma packetize_bytes:
  assumes "packetizeEncodedFrame encoded frameRate maxBytes s = (Inr packets, s')"
  defines "payloads \<equiv> packetizeH264AnnexB (ef_payload encoded) maxBytes"
  shows "payloads \<noteq> []" and "length packets = length payloads"
    and "map vp_bytes packets = sent_bytes (ef_payloadType encoded) (frame_timestamp encoded frameRate) payloads s"
    and "map vp_sequenceNumber packets = map (\<lambda>i. snd_sequence s + of_nat i) [0..<length payloads]"
    and "s' = s\<lparr>snd_sequence := snd_sequence s + of_nat (length payloads)\<rparr>"
proof -
  show "payloads \<noteq> []" using assms(1) unfolding payloads_def
    by (auto simp: packetizeEncodedFrame_def Let_def split: if_splits)
  then have "build_packets (ef_payloadType encoded) (frame_timestamp encoded frameRate) payloads s = (Inr packets, s')"
    using assms(1) unfolding payloads_def by (simp add: packetizeEncodedFrame_def Let_def)
  with build_packets_total [of "ef_payloadType encoded" "frame_timestamp encoded frameRate" payloads s]
  show bytes: "map vp_bytes packets = sent_bytes (ef_payloadType encoded) (frame_timestamp encoded frameRate) payloads s"
    and "map vp_sequenceNumber packets = map (\<lambda>i. snd_sequence s + of_nat i) [0..<length payloads]"
    and "s' = s\<lparr>snd_sequence := snd_sequence s + of_nat (length payloads)\<rparr>" by auto
  from bytes show "length packets = length payloads" by (metis length_map sent_bytes_length)
qed

text \<open>
  C25. Video survives packetisation. When a frame is cut into RTP packets of at least 3 payload
  bytes and the packets arrive in order at a receiver that awaits them, the receiver reports no
  loss, delivers nothing before the last packet, and with it delivers one access unit: exactly the
  NAL units of the frame, each with a start code before it, with the frame's time stamp and payload
  type. Afterwards it awaits the next frame. The only condition on the frame is that none of its
  units has the type 28, which the payload format reserves for fragments.
\<close>

theorem h264_frame_roundtrip:
  assumes "packetizeEncodedFrame encoded frameRate maxBytes s = (Inr packets, s')" "3 \<le> maxBytes"
    and "\<forall>n \<in> set (splitAnnexBNalus (ef_payload encoded)). n ! 0 AND 0x1F \<noteq> 28"
    and "ts = frame_timestamp encoded frameRate" "awaits a (snd_sequence s) ts"
  shows "\<exists>a'. receive_all (map vp_bytes packets) a =
      (replicate (length packets - 1) (None, False, []) @
        [(Some \<lparr> au_payload = concat (map (append start_code) (splitAnnexBNalus (ef_payload encoded))),
                 au_pts = uint ts, au_payloadType = ef_payloadType encoded AND 0x7F \<rparr>, False, [])], a') \<and>
    (\<forall>ts'. ts' \<noteq> ts \<longrightarrow> awaits a' (snd_sequence s') ts')"
proof -
  let ?payloads = "packetizeH264AnnexB (ef_payload encoded) maxBytes"
  note packets = packetize_bytes [OF assms(1)]
  have "receive_all (map vp_bytes packets) a =
      (replicate (length packets - 1) (None, False, []) @
        [(Some \<lparr> au_payload = concat (map (append start_code) (splitAnnexBNalus (ef_payload encoded))), au_pts = uint ts,
                 au_payloadType = ef_payloadType encoded AND 0x7F \<rparr>, False, [])],
       unit_state ts (snd_sequence s') [] [])"
    using receive_frame [OF refl packets(1) assms(2,3,5)] by (simp add: packets(2,3,5) assms(4))
  moreover have "\<forall>ts'. ts' \<noteq> ts \<longrightarrow> awaits (unit_state ts (snd_sequence s') [] []) (snd_sequence s') ts'"
    by (auto simp: awaits_def unit_state_def)
  ultimately show ?thesis by blast
qed

text \<open>A frame of one NAL unit of five bytes, sent in packets of at most three payload bytes.\<close>

definition demo_frame :: EncodedVideoFrame where
  "demo_frame = \<lparr> ef_width = 2, ef_height = 2, ef_frameRate = 30, ef_pts = 2, ef_keyFrame = True, ef_payloadType = 96,
     ef_payload = [0, 0, 0, 1, 0x65, 1, 2, 3, 4] \<rparr>"

definition demo_sender :: RTPSender where
  "demo_sender = \<lparr> snd_ssrc = 7, snd_sequence = 0xFFFE \<rparr>"

theorem h264_frame_roundtrip_witness:
  "fst (receive_all (map vp_bytes (projr (fst (packetizeEncodedFrame demo_frame 30 3 demo_sender)))) H264AccessUnitAssembler_new) =
    [(None, False, []), (None, False, []), (None, False, []),
     (Some \<lparr> au_payload = [0, 0, 0, 1, 0x65, 1, 2, 3, 4], au_pts = 6000, au_payloadType = 96 \<rparr>, False, [])]"
proof -
  let ?r = "packetizeEncodedFrame demo_frame 30 3 demo_sender"
  have "isl (fst ?r) = False" by code_simp
  then have r: "?r = (Inr (projr (fst ?r)), snd ?r)" by (cases ?r) (auto simp: isl_def split: sum.splits)
  have split: "splitAnnexBNalus (ef_payload demo_frame) = [[0x65, 1, 2, 3, 4]]" by code_simp
  have "length (projr (fst ?r)) = 4" "frame_timestamp demo_frame 30 = 6000" by code_simp+
  moreover have "awaits H264AccessUnitAssembler_new (snd_sequence demo_sender) (frame_timestamp demo_frame 30)"
    by (simp add: awaits_def H264AccessUnitAssembler_new_def)
  moreover have "ef_payloadType demo_frame = 96" by (simp add: demo_frame_def)
  moreover have "replicate (4 - 1) x = [x, x, x]" for x :: "H264AccessUnit option \<times> bool \<times> u16 list"
    by (simp add: numeral_3_eq_3)
  ultimately show ?thesis
    using h264_frame_roundtrip [OF r _ _ refl, of H264AccessUnitAssembler_new] by (auto simp: split start_code_def)
qed

end
