(* ===== verification/VideoBwePolicy.thy ===== *)
theory VideoBwePolicy
  imports Prelude Complex_Main "HOL-Library.Log_Nat"
begin

text \<open>
  The degradation policy of the client's video sender (\<open>plasma-hawking/src/av/session/VideoBwePolicy.cpp\<close>): it turns the
  receiver reports and bandwidth limits that arrive over RTCP into a target resolution, frame rate and bit
  rate. An \<open>int\<close> is an integer and the bit rates and clocks are words. \<open>lossPercent\<close> multiplies and divides by powers of two
  and by 100 numbers of at most 15 bits, which \<open>double\<close> does exactly, so it is a rational number;
  the one inexact computation, the width that belongs to 360 lines, is done with the rounding of the format.
\<close>

datatype VideoBweDegradationLevel = Normal | Moderate | Severe | AudioOnly

record VideoBwePolicyConfig =
  bc_baselineWidth :: int
  bc_baselineHeight :: int
  bc_baselineFrameRate :: int
  bc_baselineBitrateBps :: u32

record VideoBwePolicySample =
  bs_fractionLost :: u8
  bs_hasRtt :: bool
  bs_rttMs :: u32
  bs_nowMs :: u64

record VideoBwePolicyTarget =
  bt_level :: VideoBweDegradationLevel
  bt_width :: int
  bt_height :: int
  bt_frameRate :: int
  bt_bitrateBps :: u32
  bt_videoSuspended :: bool
  bt_jitterTargetMs :: u32
  bt_requestTurnRelay :: bool
  bt_version :: u64

record VideoBwePolicy =
  bp_config :: VideoBwePolicyConfig
  bp_target :: VideoBwePolicyTarget
  bp_policyBitrateBps :: u32
  bp_rembLimitBps :: u32
  bp_lastRestoreAtMs :: u64
  bp_turnRelayRequested :: bool

definition kMinVideoBitrateBps :: u32 where "kMinVideoBitrateBps = 100000"
definition kSevereVideoBitrateBps :: u32 where "kSevereVideoBitrateBps = 300000"
definition kDegradedFrameRate :: int where "kDegradedFrameRate = 15"
definition kHighRttJitterTargetMs :: u32 where "kHighRttJitterTargetMs = 100"
definition kRestoreIntervalMs :: u64 where "kRestoreIntervalMs = 5000"

definition evenAtLeastTwo :: "int \<Rightarrow> int" where
  "evenAtLeastTwo v = max 2 (max 2 v AND NOT 1)"

definition normalizeConfig :: "VideoBwePolicyConfig \<Rightarrow> VideoBwePolicyConfig" where
  "normalizeConfig c = c\<lparr>bc_baselineWidth := evenAtLeastTwo (bc_baselineWidth c),
     bc_baselineHeight := evenAtLeastTwo (bc_baselineHeight c),
     bc_baselineFrameRate := max 1 (bc_baselineFrameRate c),
     bc_baselineBitrateBps := max kMinVideoBitrateBps (bc_baselineBitrateBps c)\<rparr>"

definition lossPercent :: "u8 \<Rightarrow> rat" where
  "lossPercent fractionLost = (of_nat (unat fractionLost) * 100) / 256"

section \<open>The width for 360 lines\<close>

text \<open>
  Double precision: a positive number is a multiple of a power of two, \<open>round53\<close> rounds to 53 significant bits, ties to
  even; \<open>ratio360 h\<close> is the quotient of 360 and \<open>h\<close>, as a multiple of \<open>2 ^ - ratio_shift h\<close>: its
  first bits and one that says whether any non-zero bits follow decide the rounding.
\<close>

definition round53 :: "nat \<Rightarrow> nat" where
  "round53 n =
     (if n < 2 ^ 53 then n
      else
        let s = floorlog 2 n - 53; q = n div 2 ^ s; r = n mod 2 ^ s
        in (if r > 2 ^ (s - 1) \<or> (r = 2 ^ (s - 1) \<and> odd q) then q + 1 else q) * 2 ^ s)"

definition ratio_shift :: "nat \<Rightarrow> nat" where
  "ratio_shift h = 55 + floorlog 2 h + 1"

definition ratio360 :: "nat \<Rightarrow> nat" where
  "ratio360 h =
     (let n = 360 * 2 ^ (ratio_shift h - 1)
      in round53 (2 * (n div h) + (if n mod h = 0 then 0 else 1)))"

text \<open>\<open>std::round\<close> of the product: to the nearest integer, halves away from zero.\<close>

definition scaledWidthFor360p :: "VideoBwePolicyConfig \<Rightarrow> int" where
  "scaledWidthFor360p c =
     (if bc_baselineHeight c \<le> 360 then bc_baselineWidth c
      else
        let h = nat (bc_baselineHeight c); t = ratio_shift h;
            product = round53 (nat (bc_baselineWidth c) * ratio360 h)
        in evenAtLeastTwo (int ((product + 2 ^ (t - 1)) div 2 ^ t)))"

definition scaledHeightFor360p :: "VideoBwePolicyConfig \<Rightarrow> int" where
  "scaledHeightFor360p c = (if bc_baselineHeight c \<le> 360 then bc_baselineHeight c else 360)"

section \<open>The policy\<close>

definition reduceByThirtyPercent :: "u32 \<Rightarrow> u32" where
  "reduceByThirtyPercent bitrateBps =
     (let reduced = (ucast bitrateBps * 70 :: u64) div 100 in ucast (max (ucast kMinVideoBitrateBps) reduced))"

definition restoreByTenPercent :: "u32 \<Rightarrow> u32 \<Rightarrow> u32" where
  "restoreByTenPercent bitrateBps baselineBitrateBps =
     (let restored = (ucast bitrateBps * 110 + 99 :: u64) div 100 in ucast (min (ucast baselineBitrateBps) restored))"

definition effectiveBitrate :: "VideoBwePolicy \<Rightarrow> u32 \<Rightarrow> u32" where
  "effectiveBitrate p policyBitrateBps =
     (let bitrate = min (max policyBitrateBps kMinVideoBitrateBps) (bc_baselineBitrateBps (bp_config p))
      in if bp_rembLimitBps p \<ge> kMinVideoBitrateBps then min bitrate (bp_rembLimitBps p) else bitrate)"

definition publishTarget ::
  "VideoBweDegradationLevel \<Rightarrow> int \<Rightarrow> int \<Rightarrow> int \<Rightarrow> u32 \<Rightarrow> bool \<Rightarrow> u32 \<Rightarrow> bool \<Rightarrow> VideoBwePolicy \<Rightarrow> VideoBwePolicy" where
  "publishTarget level width height frameRate policyBitrateBps videoSuspended jitterTargetMs requestTurnRelay p =
     (let width = evenAtLeastTwo width;
          height = evenAtLeastTwo height;
          frameRate = max 1 frameRate;
          bitrateBps = (if videoSuspended then 0 else effectiveBitrate p policyBitrateBps);
          t = bp_target p
      in if bt_level t = level \<and> bt_width t = width \<and> bt_height t = height \<and> bt_frameRate t = frameRate \<and>
            bt_bitrateBps t = bitrateBps \<and> bt_videoSuspended t = videoSuspended \<and>
            bt_jitterTargetMs t = jitterTargetMs \<and> bt_requestTurnRelay t = requestTurnRelay
         then p
         else p\<lparr>bp_target := \<lparr> bt_level = level, bt_width = width, bt_height = height, bt_frameRate = frameRate,
                bt_bitrateBps = bitrateBps, bt_videoSuspended = videoSuspended, bt_jitterTargetMs = jitterTargetMs,
                bt_requestTurnRelay = requestTurnRelay, bt_version = bt_version t + 1 \<rparr>\<rparr>)"

definition VideoBwePolicy_reset :: "VideoBwePolicyConfig \<Rightarrow> u64 \<Rightarrow> VideoBwePolicy" where
  "VideoBwePolicy_reset config nowMs =
     (let c = normalizeConfig config;
          p = \<lparr> bp_config = c,
                bp_target = \<lparr> bt_level = Normal, bt_width = 1280, bt_height = 720, bt_frameRate = 30,
                  bt_bitrateBps = 1500000, bt_videoSuspended = False, bt_jitterTargetMs = 0,
                  bt_requestTurnRelay = False, bt_version = 0 \<rparr>,
                bp_policyBitrateBps = bc_baselineBitrateBps c, bp_rembLimitBps = 0, bp_lastRestoreAtMs = nowMs,
                bp_turnRelayRequested = False \<rparr>
      in publishTarget Normal (bc_baselineWidth c) (bc_baselineHeight c) (bc_baselineFrameRate c)
           (bp_policyBitrateBps p) False 0 False p)"

definition VideoBwePolicy_new :: "VideoBwePolicyConfig \<Rightarrow> VideoBwePolicy" where
  "VideoBwePolicy_new config = VideoBwePolicy_reset config 0"

text \<open>The step every low-loss report makes towards the baseline, at most once per restore interval.\<close>

definition restore_step :: "u64 \<Rightarrow> VideoBwePolicy \<Rightarrow> VideoBwePolicy" where
  "restore_step nowMs p =
     (if nowMs \<ge> bp_lastRestoreAtMs p \<and> nowMs - bp_lastRestoreAtMs p \<ge> kRestoreIntervalMs
      then p\<lparr>bp_lastRestoreAtMs := nowMs,
             bp_policyBitrateBps :=
               (if bp_policyBitrateBps p = 0 then kSevereVideoBitrateBps
                else restoreByTenPercent (bp_policyBitrateBps p) (bc_baselineBitrateBps (bp_config p)))\<rparr>
      else p)"

definition onReceiverReport :: "VideoBwePolicySample \<Rightarrow> VideoBwePolicy \<Rightarrow> bool \<times> VideoBwePolicy" where
  "onReceiverReport sample p0 =
     (let previous = bp_target p0;
          loss = lossPercent (bs_fractionLost sample);
          highRtt = (bs_hasRtt sample \<and> bs_rttMs sample > 300);
          turnRtt = (bs_hasRtt sample \<and> bs_rttMs sample > 500);
          jitterTargetMs = (if highRtt then kHighRttJitterTargetMs else 0);
          requestTurnRelay = (turnRtt \<and> \<not> bp_turnRelayRequested p0);
          p = (if requestTurnRelay then p0\<lparr>bp_turnRelayRequested := True\<rparr> else p0);
          t = bp_target p;
          c = bp_config p;
          p' =
            (if loss > 30 then
               publishTarget AudioOnly (bt_width t) (bt_height t) kDegradedFrameRate 0 True jitterTargetMs requestTurnRelay p
             else if loss > 15 then
               let p1 = p\<lparr>bp_policyBitrateBps := min (bp_policyBitrateBps p) kSevereVideoBitrateBps\<rparr>
               in publishTarget Severe (scaledWidthFor360p c) (scaledHeightFor360p c) kDegradedFrameRate
                    (bp_policyBitrateBps p1) False jitterTargetMs requestTurnRelay p1
             else if loss > 5 then
               let p1 = p\<lparr>bp_policyBitrateBps := reduceByThirtyPercent
                            (if bp_policyBitrateBps p = 0 then bc_baselineBitrateBps c else bp_policyBitrateBps p)\<rparr>
               in publishTarget Moderate (bc_baselineWidth c) (bc_baselineHeight c) kDegradedFrameRate
                    (bp_policyBitrateBps p1) False jitterTargetMs requestTurnRelay p1
             else if loss < 2 then
               let p1 = restore_step (bs_nowMs sample) p;
                   fullyRestored = (bp_policyBitrateBps p1 \<ge> bc_baselineBitrateBps c)
               in publishTarget (if fullyRestored then Normal else Moderate)
                    (if fullyRestored then bc_baselineWidth c else bt_width t)
                    (if fullyRestored then bc_baselineHeight c else bt_height t)
                    (if fullyRestored then bc_baselineFrameRate c else kDegradedFrameRate)
                    (bp_policyBitrateBps p1) False jitterTargetMs requestTurnRelay p1
             else if bt_jitterTargetMs t \<noteq> jitterTargetMs \<or> requestTurnRelay then
               publishTarget (bt_level t) (bt_width t) (bt_height t) (bt_frameRate t) (bp_policyBitrateBps p)
                 (bt_videoSuspended t) jitterTargetMs requestTurnRelay p
             else p)
      in (bt_version previous \<noteq> bt_version (bp_target p') \<or> requestTurnRelay, p'))"

definition onRembTarget :: "u32 \<Rightarrow> VideoBwePolicy \<Rightarrow> bool \<times> VideoBwePolicy" where
  "onRembTarget bitrateBps p =
     (let previous = bp_target p;
          p1 = p\<lparr>bp_rembLimitBps := max kMinVideoBitrateBps bitrateBps\<rparr>;
          t = bp_target p1;
          p2 = publishTarget (bt_level t) (bt_width t) (bt_height t) (bt_frameRate t) (bp_policyBitrateBps p1)
                 (bt_videoSuspended t) (bt_jitterTargetMs t) False p1
      in (bt_version previous \<noteq> bt_version (bp_target p2), p2))"

section \<open>The arithmetic\<close>

lemma clear_bit0: "(v :: int) AND - 2 = 2 * (v div 2)"
  by (subst and_rec) simp

lemma even_two: "even (evenAtLeastTwo v)" "2 \<le> evenAtLeastTwo v"
  by (auto simp: evenAtLeastTwo_def clear_bit0 max_def)

lemma even_two_le: "2 \<le> b \<Longrightarrow> v \<le> b \<Longrightarrow> evenAtLeastTwo v \<le> b"
  by (auto simp: evenAtLeastTwo_def clear_bit0 max_def)

lemma even_two_id: "even v \<Longrightarrow> 2 \<le> v \<Longrightarrow> evenAtLeastTwo v = v"
  by (auto simp: evenAtLeastTwo_def clear_bit0 max_def)

text \<open>Rounding does not pass a number of at most 53 significant bits.\<close>

lemma round53_le:
  assumes "n \<le> a * 2 ^ k" and "a < 2 ^ 53"
  shows "round53 n \<le> a * 2 ^ k"
proof (cases "n < 2 ^ 53")
  case True
  then show ?thesis using assms(1) by (simp add: round53_def)
next
  case False
  define s where "s = floorlog 2 n - 53"
  define q where "q = n div 2 ^ s"
  define r where "r = n mod 2 ^ s"
  have "54 \<le> floorlog 2 n" using False floorlog_ge_SucI [of 2 53 n] by simp
  then have "floorlog 2 n - 1 = s + 52" by (simp add: s_def)
  then have low: "2 ^ (s + 52) \<le> n" using floorlog_bounds [of n 2] False by auto
  have n: "n = q * 2 ^ s + r" "r < 2 ^ s" unfolding q_def r_def by (auto simp: div_mult_mod_eq)
  have "s \<le> k"
  proof (rule ccontr)
    assume "\<not> s \<le> k"
    then have "(2::nat) ^ (53 + k) \<le> 2 ^ (s + 52)" by (intro power_increasing) auto
    moreover have "a * 2 ^ k < 2 ^ (53 + k)" using assms(2) by (simp add: power_add)
    ultimately show False using low assms(1) by linarith
  qed
  then have m: "a * 2 ^ k = (a * 2 ^ (k - s)) * 2 ^ s" by (simp add: power_add [symmetric])
  have "(if r > 2 ^ (s - 1) \<or> (r = 2 ^ (s - 1) \<and> odd q) then q + 1 else q) \<le> a * 2 ^ (k - s)"
  proof (cases "r = 0")
    case True
    then have "q * 2 ^ s \<le> (a * 2 ^ (k - s)) * 2 ^ s" using assms(1) n m by simp
    then show ?thesis using True by simp
  next
    case False
    then have "q * 2 ^ s < (a * 2 ^ (k - s)) * 2 ^ s" using assms(1) n(1) m by linarith
    then have "q < a * 2 ^ (k - s)" by (metis mult_less_cancel2)
    then show ?thesis by simp
  qed
  then have "(if r > 2 ^ (s - 1) \<or> (r = 2 ^ (s - 1) \<and> odd q) then q + 1 else q) * 2 ^ s \<le> a * 2 ^ k"
    unfolding m by (rule mult_le_mono1)
  then show ?thesis using False unfolding round53_def Let_def s_def [symmetric] q_def [symmetric] r_def [symmetric] by simp
qed

lemma ratio360_le: "360 < h \<Longrightarrow> ratio360 h \<le> 2 ^ ratio_shift h"
proof -
  assume h: "360 < h"
  let ?n = "360 * 2 ^ (ratio_shift h - 1) :: nat"
  have two: "2 ^ ratio_shift h = 2 * (2::nat) ^ (ratio_shift h - 1)"
    unfolding ratio_shift_def by (metis add_diff_cancel_right' power_add power_one_right mult.commute)
  have "?n < 2 ^ (ratio_shift h - 1) * h" using h by simp
  then have "?n div h < 2 ^ (ratio_shift h - 1)" using h by (simp add: less_mult_imp_div_less)
  then have "2 * (?n div h) + (if ?n mod h = 0 then 0 else 1) \<le> 1 * 2 ^ ratio_shift h"
    using two by auto
  then show ?thesis using round53_le [of _ 1 "ratio_shift h"] by (simp add: ratio360_def Let_def)
qed

lemma scaledWidth_bounds:
  assumes "2 \<le> bc_baselineWidth c" and "even (bc_baselineWidth c)" and "bc_baselineWidth c < 2 ^ 31"
  shows "even (scaledWidthFor360p c)" "2 \<le> scaledWidthFor360p c" "scaledWidthFor360p c \<le> bc_baselineWidth c"
proof -
  let ?h = "nat (bc_baselineHeight c)" and ?w = "nat (bc_baselineWidth c)"
  let ?t = "ratio_shift ?h"
  have "(round53 (?w * ratio360 ?h) + 2 ^ (?t - 1)) div 2 ^ ?t \<le> ?w" if "360 < bc_baselineHeight c"
  proof -
    have "?w * ratio360 ?h \<le> ?w * 2 ^ ?t" using ratio360_le [of ?h] that by (intro mult_le_mono2) simp
    then have "round53 (?w * ratio360 ?h) \<le> ?w * 2 ^ ?t" using assms(3) by (intro round53_le) auto
    moreover have "(2::nat) ^ (?t - 1) < 2 ^ ?t" by (simp add: ratio_shift_def)
    ultimately have "round53 (?w * ratio360 ?h) + 2 ^ (?t - 1) < Suc ?w * 2 ^ ?t" unfolding mult_Suc by linarith
    then show ?thesis using less_mult_imp_div_less less_Suc_eq_le by blast
  qed
  then have "int ((round53 (?w * ratio360 ?h) + 2 ^ (?t - 1)) div 2 ^ ?t) \<le> bc_baselineWidth c"
    if "360 < bc_baselineHeight c"
    using that assms(1) by (metis int_nat_eq le_nat_iff linorder_linear of_nat_le_iff order_trans zero_le_numeral)
  then show "scaledWidthFor360p c \<le> bc_baselineWidth c"
    using assms(1) by (simp add: scaledWidthFor360p_def Let_def even_two_le not_le)
  show "even (scaledWidthFor360p c)" "2 \<le> scaledWidthFor360p c"
    using assms even_two by (auto simp: scaledWidthFor360p_def Let_def)
qed

lemma unat_reduce: "unat (reduceByThirtyPercent b) = max 100000 (unat b * 70 div 100)"
proof -
  have b: "unat b < 2 ^ 32" using unsigned_less [of b, where 'a = nat] by simp
  have "unat ((ucast b * 70 :: u64) div 100) = unat b * 70 div 100"
    using b by (simp add: unat_div unat_word_ariths unsigned_ucast_eq take_bit_nat_eq_self)
  then have "unat (max (ucast kMinVideoBitrateBps) ((ucast b * 70 :: u64) div 100)) = max 100000 (unat b * 70 div 100)"
    by (simp add: kMinVideoBitrateBps_def max_def word_le_nat_alt)
  then show ?thesis using b unfolding reduceByThirtyPercent_def Let_def
    by (simp add: unsigned_ucast_eq take_bit_nat_eq_self)
qed

lemma unat_restore: "unat (restoreByTenPercent b m) = min (unat m) ((unat b * 110 + 99) div 100)"
proof -
  have b: "unat b < 2 ^ 32" "unat m < 2 ^ 32"
    using unsigned_less [of b, where 'a = nat] unsigned_less [of m, where 'a = nat] by simp_all
  have r: "unat ((ucast b * 110 + 99 :: u64) div 100) = (unat b * 110 + 99) div 100"
    using b by (simp add: unat_div unat_word_ariths unsigned_ucast_eq take_bit_nat_eq_self)
  have "unat (ucast m :: u64) = unat m" using b by (simp add: unsigned_ucast_eq take_bit_nat_eq_self)
  then have "unat (min (ucast m) ((ucast b * 110 + 99 :: u64) div 100)) = min (unat m) ((unat b * 110 + 99) div 100)"
    using r by (simp add: min_def word_le_nat_alt)
  then show ?thesis using b unfolding restoreByTenPercent_def Let_def
    by (simp add: unsigned_ucast_eq take_bit_nat_eq_self)
qed

section \<open>What a published target is\<close>

lemma publish_fields [simp]:
  "bt_level (bp_target (publishTarget l w h f b s j r p)) = l"
  "bt_width (bp_target (publishTarget l w h f b s j r p)) = evenAtLeastTwo w"
  "bt_height (bp_target (publishTarget l w h f b s j r p)) = evenAtLeastTwo h"
  "bt_frameRate (bp_target (publishTarget l w h f b s j r p)) = max 1 f"
  "bt_bitrateBps (bp_target (publishTarget l w h f b s j r p)) = (if s then 0 else effectiveBitrate p b)"
  "bt_videoSuspended (bp_target (publishTarget l w h f b s j r p)) = s"
  "bt_jitterTargetMs (bp_target (publishTarget l w h f b s j r p)) = j"
  "bt_requestTurnRelay (bp_target (publishTarget l w h f b s j r p)) = r"
  "bp_config (publishTarget l w h f b s j r p) = bp_config p"
  "bp_policyBitrateBps (publishTarget l w h f b s j r p) = bp_policyBitrateBps p"
  "bp_rembLimitBps (publishTarget l w h f b s j r p) = bp_rembLimitBps p"
  "bp_lastRestoreAtMs (publishTarget l w h f b s j r p) = bp_lastRestoreAtMs p"
  "bp_turnRelayRequested (publishTarget l w h f b s j r p) = bp_turnRelayRequested p"
  by (auto simp: publishTarget_def Let_def)

lemma effective_cong [simp]:
  "effectiveBitrate (publishTarget l w h f b s j r p) x = effectiveBitrate p x"
  "effectiveBitrate (p\<lparr>bp_policyBitrateBps := y\<rparr>) x = effectiveBitrate p x"
  "effectiveBitrate (p\<lparr>bp_turnRelayRequested := z\<rparr>) x = effectiveBitrate p x"
  "effectiveBitrate (p\<lparr>bp_lastRestoreAtMs := y'\<rparr>) x = effectiveBitrate p x"
  by (simp_all add: effectiveBitrate_def Let_def)

definition config_ok :: "VideoBwePolicyConfig \<Rightarrow> bool" where
  "config_ok c \<longleftrightarrow> even (bc_baselineWidth c) \<and> 2 \<le> bc_baselineWidth c \<and> bc_baselineWidth c < 2 ^ 31 \<and>
     even (bc_baselineHeight c) \<and> 2 \<le> bc_baselineHeight c \<and> 1 \<le> bc_baselineFrameRate c \<and>
     kMinVideoBitrateBps \<le> bc_baselineBitrateBps c"

definition rate_ok :: "VideoBwePolicy \<Rightarrow> bool" where
  "rate_ok p \<longleftrightarrow> config_ok (bp_config p) \<and> kMinVideoBitrateBps \<le> bp_policyBitrateBps p \<and>
     bp_policyBitrateBps p \<le> bc_baselineBitrateBps (bp_config p) \<and>
     (bp_rembLimitBps p = 0 \<or> kMinVideoBitrateBps \<le> bp_rembLimitBps p)"

definition target_ok :: "VideoBwePolicy \<Rightarrow> bool" where
  "target_ok p \<longleftrightarrow>
     (let t = bp_target p; c = bp_config p in
      even (bt_width t) \<and> 2 \<le> bt_width t \<and> bt_width t \<le> bc_baselineWidth c \<and>
      even (bt_height t) \<and> 2 \<le> bt_height t \<and> bt_height t \<le> bc_baselineHeight c \<and>
      1 \<le> bt_frameRate t \<and> bt_frameRate t \<le> max kDegradedFrameRate (bc_baselineFrameRate c) \<and>
      (bt_level t = AudioOnly \<longleftrightarrow> bt_videoSuspended t) \<and>
      bt_bitrateBps t = (if bt_videoSuspended t then 0 else effectiveBitrate p (bp_policyBitrateBps p)) \<and>
      (bt_level t = Normal \<longrightarrow> bp_policyBitrateBps p = bc_baselineBitrateBps c \<and> bt_width t = bc_baselineWidth c \<and>
         bt_height t = bc_baselineHeight c \<and> bt_frameRate t = bc_baselineFrameRate c))"

abbreviation bwe_ok :: "VideoBwePolicy \<Rightarrow> bool" where
  "bwe_ok p \<equiv> rate_ok p \<and> target_ok p"

lemma normalize_ok: "bc_baselineWidth c < 2 ^ 31 \<Longrightarrow> config_ok (normalizeConfig c)"
  using even_two even_two_le [of "2 ^ 31 - 1" "bc_baselineWidth c"]
  by (fastforce simp: config_ok_def normalizeConfig_def max_def)

lemma effective_bounds:
  assumes "rate_ok p"
  shows "kMinVideoBitrateBps \<le> effectiveBitrate p b" "effectiveBitrate p b \<le> bc_baselineBitrateBps (bp_config p)"
    "bp_rembLimitBps p \<noteq> 0 \<Longrightarrow> effectiveBitrate p b \<le> bp_rembLimitBps p"
  using assms by (auto simp: effectiveBitrate_def rate_ok_def config_ok_def Let_def min_def max_def)

lemma effective_le: "b \<le> m \<Longrightarrow> kMinVideoBitrateBps \<le> m \<Longrightarrow> effectiveBitrate p b \<le> m"
  by (auto simp: effectiveBitrate_def Let_def min_le_iff_disj)

lemma publish_ok:
  assumes "rate_ok p" and "2 \<le> w" "w \<le> bc_baselineWidth (bp_config p)" and "2 \<le> h" "h \<le> bc_baselineHeight (bp_config p)"
    and "f \<le> max kDegradedFrameRate (bc_baselineFrameRate (bp_config p))" and "l = AudioOnly \<longleftrightarrow> s"
    and "s \<or> b = bp_policyBitrateBps p"
    and "l = Normal \<Longrightarrow> bp_policyBitrateBps p = bc_baselineBitrateBps (bp_config p) \<and> w = bc_baselineWidth (bp_config p) \<and>
           h = bc_baselineHeight (bp_config p) \<and> f = bc_baselineFrameRate (bp_config p)"
  shows "bwe_ok (publishTarget l w h f b s j r p)"
  using assms even_two even_two_le even_two_id
  by (auto simp: rate_ok_def target_ok_def config_ok_def Let_def kDegradedFrameRate_def max_def)

lemma reset_ok: "bc_baselineWidth c < 2 ^ 31 \<Longrightarrow> bwe_ok (VideoBwePolicy_reset c now)"
  unfolding VideoBwePolicy_reset_def Let_def
  using normalize_ok [of c] by (intro publish_ok) (auto simp: rate_ok_def config_ok_def)

lemma reduce_bounds:
  "kMinVideoBitrateBps \<le> reduceByThirtyPercent b"
  "kMinVideoBitrateBps \<le> b \<Longrightarrow> reduceByThirtyPercent b \<le> b"
  by (auto simp: word_le_nat_alt unat_reduce kMinVideoBitrateBps_def)

lemma restore_bounds:
  assumes "kMinVideoBitrateBps \<le> b" "b \<le> m"
  shows "kMinVideoBitrateBps \<le> restoreByTenPercent b m" "b \<le> restoreByTenPercent b m" "restoreByTenPercent b m \<le> m"
  using assms by (auto simp: word_le_nat_alt unat_restore kMinVideoBitrateBps_def)

lemma min_positive: "kMinVideoBitrateBps \<le> b \<Longrightarrow> b \<noteq> 0"
  by (auto simp: kMinVideoBitrateBps_def)

lemma restore_step_fields [simp]:
  "bp_config (restore_step now p) = bp_config p" "bp_rembLimitBps (restore_step now p) = bp_rembLimitBps p"
  "bp_target (restore_step now p) = bp_target p"
  by (simp_all add: restore_step_def)

lemma restore_step_ok: "rate_ok p \<Longrightarrow> rate_ok (restore_step now p) \<and> bp_policyBitrateBps p \<le> bp_policyBitrateBps (restore_step now p)"
  using restore_bounds [of "bp_policyBitrateBps p" "bc_baselineBitrateBps (bp_config p)"] min_positive [of "bp_policyBitrateBps p"]
  by (auto simp: rate_ok_def restore_step_def)

lemma severe_ok: "rate_ok p \<Longrightarrow> rate_ok (p\<lparr>bp_policyBitrateBps := min (bp_policyBitrateBps p) kSevereVideoBitrateBps\<rparr>)"
  by (auto simp: rate_ok_def min_def kMinVideoBitrateBps_def kSevereVideoBitrateBps_def)

lemma reduced_ok: "rate_ok p \<Longrightarrow> rate_ok (p\<lparr>bp_policyBitrateBps := reduceByThirtyPercent (bp_policyBitrateBps p)\<rparr>)"
  using reduce_bounds [of "bp_policyBitrateBps p"] by (auto simp: rate_ok_def)

lemma relay_flag_ok: "bwe_ok p \<Longrightarrow> bwe_ok (p\<lparr>bp_turnRelayRequested := True\<rparr>)"
  by (simp add: rate_ok_def target_ok_def Let_def)

lemma scaledHeight_bounds: "2 \<le> bc_baselineHeight c \<Longrightarrow> 2 \<le> scaledHeightFor360p c \<and> scaledHeightFor360p c \<le> bc_baselineHeight c"
  by (simp add: scaledHeightFor360p_def)

lemma report_ok:
  assumes "bwe_ok p0"
  shows "bwe_ok (snd (onReceiverReport s p0))"
proof -
  define relay where "relay = (bs_hasRtt s \<and> bs_rttMs s > 500 \<and> \<not> bp_turnRelayRequested p0)"
  define p where "p = (if relay then p0\<lparr>bp_turnRelayRequested := True\<rparr> else p0)"
  have p: "rate_ok p" "target_ok p" using assms relay_flag_ok by (auto simp: p_def)
  have c: "config_ok (bp_config p)" using p by (simp add: rate_ok_def)
  note t = p(2) [unfolded target_ok_def Let_def]
  note w = scaledWidth_bounds [of "bp_config p"] scaledHeight_bounds [of "bp_config p"]
  have pos: "bp_policyBitrateBps p \<noteq> 0" using p(1) min_positive by (simp add: rate_ok_def)
  let ?j = "if bs_hasRtt s \<and> bs_rttMs s > 300 then kHighRttJitterTargetMs else 0"
  have "bwe_ok (publishTarget AudioOnly (bt_width (bp_target p)) (bt_height (bp_target p)) kDegradedFrameRate 0 True ?j relay p)"
    using p(1) t by (intro publish_ok) (auto simp: kDegradedFrameRate_def)
  moreover have "bwe_ok (publishTarget Severe (scaledWidthFor360p (bp_config p)) (scaledHeightFor360p (bp_config p)) kDegradedFrameRate
        (min (bp_policyBitrateBps p) kSevereVideoBitrateBps) False ?j relay
        (p\<lparr>bp_policyBitrateBps := min (bp_policyBitrateBps p) kSevereVideoBitrateBps\<rparr>))"
    using severe_ok [OF p(1)] c w by (intro publish_ok) (auto simp: config_ok_def kDegradedFrameRate_def)
  moreover have "bwe_ok (publishTarget Moderate (bc_baselineWidth (bp_config p)) (bc_baselineHeight (bp_config p)) kDegradedFrameRate
        (reduceByThirtyPercent (bp_policyBitrateBps p)) False ?j relay
        (p\<lparr>bp_policyBitrateBps := reduceByThirtyPercent (bp_policyBitrateBps p)\<rparr>))"
    using reduced_ok [OF p(1)] c by (intro publish_ok) (auto simp: config_ok_def kDegradedFrameRate_def)
  moreover have "bwe_ok (let p1 = restore_step (bs_nowMs s) p;
          full = (bp_policyBitrateBps p1 \<ge> bc_baselineBitrateBps (bp_config p))
      in publishTarget (if full then Normal else Moderate)
           (if full then bc_baselineWidth (bp_config p) else bt_width (bp_target p))
           (if full then bc_baselineHeight (bp_config p) else bt_height (bp_target p))
           (if full then bc_baselineFrameRate (bp_config p) else kDegradedFrameRate)
           (bp_policyBitrateBps p1) False ?j relay p1)"
    using restore_step_ok [OF p(1), of "bs_nowMs s"] c t unfolding Let_def
    by (intro publish_ok) (auto simp: config_ok_def kDegradedFrameRate_def rate_ok_def)
  moreover have "bwe_ok (publishTarget (bt_level (bp_target p)) (bt_width (bp_target p)) (bt_height (bp_target p))
        (bt_frameRate (bp_target p)) (bp_policyBitrateBps p) (bt_videoSuspended (bp_target p)) ?j relay p)"
    using p(1) t by (intro publish_ok) auto
  ultimately show ?thesis
    using p pos unfolding onReceiverReport_def Let_def relay_def [symmetric] conj_assoc p_def [symmetric]
    by simp
qed

lemma remb_ok:
  assumes "bwe_ok p"
  shows "bwe_ok (snd (onRembTarget b p))"
proof -
  let ?p = "p\<lparr>bp_rembLimitBps := max kMinVideoBitrateBps b\<rparr>"
  have "rate_ok ?p" using assms by (auto simp: rate_ok_def)
  then show ?thesis using assms unfolding onRembTarget_def Let_def snd_conv
    by (intro publish_ok) (auto simp: target_ok_def Let_def)
qed

section \<open>Every reachable target\<close>

text \<open>A configuration is given in \<open>int\<close>s of 32 bits.\<close>

inductive bwe_step :: "VideoBwePolicy \<Rightarrow> VideoBwePolicy \<Rightarrow> bool" where
  report: "bwe_step p (snd (onReceiverReport s p))"
| remb: "bwe_step p (snd (onRembTarget b p))"
| reset: "bc_baselineWidth c < 2 ^ 31 \<Longrightarrow> bwe_step p (VideoBwePolicy_reset c now)"

definition bwe_reachable :: "VideoBwePolicy \<Rightarrow> bool" where
  "bwe_reachable p \<longleftrightarrow> (\<exists>c. bc_baselineWidth c < 2 ^ 31 \<and> bwe_step\<^sup>*\<^sup>* (VideoBwePolicy_new c) p)"

lemma bwe_step_ok: "bwe_step p p' \<Longrightarrow> bwe_ok p \<Longrightarrow> bwe_ok p'"
  by (induction rule: bwe_step.induct) (use report_ok remb_ok reset_ok in blast)+

interpretation policy: state_machine "\<lambda>p. \<exists>c. bc_baselineWidth c < 2 ^ 31 \<and> p = VideoBwePolicy_new c" bwe_step bwe_ok
  by unfold_locales (use reset_ok bwe_step_ok in \<open>auto simp: VideoBwePolicy_new_def\<close>)

lemma bwe_reachable_ok: "bwe_reachable p \<Longrightarrow> bwe_ok p"
  using policy.reachable_inv [of _ p] unfolding bwe_reachable_def by blast

text \<open>
  C31. After any sequence of receiver reports, bandwidth limits and resets the published target is one the encoder
  can take: the dimensions are even, at least 2 and at most the baseline's, the frame rate is at
  least 1, and the video is suspended, with bit rate 0, exactly on level audio-only; otherwise the bit rate lies between 100 kbit/s and the
  baseline and never above the last limit received.
\<close>

theorem bwe_target_bounded:
  assumes "bwe_reachable p"
  shows "let t = bp_target p; c = bp_config p in
    even (bt_width t) \<and> 2 \<le> bt_width t \<and> bt_width t \<le> bc_baselineWidth c \<and>
    even (bt_height t) \<and> 2 \<le> bt_height t \<and> bt_height t \<le> bc_baselineHeight c \<and> 1 \<le> bt_frameRate t \<and>
    (bt_level t = AudioOnly \<longleftrightarrow> bt_videoSuspended t) \<and>
    (if bt_videoSuspended t then bt_bitrateBps t = 0
     else kMinVideoBitrateBps \<le> bt_bitrateBps t \<and> bt_bitrateBps t \<le> bc_baselineBitrateBps c \<and>
          (bp_rembLimitBps p = 0 \<or> bt_bitrateBps t \<le> bp_rembLimitBps p))"
  using bwe_reachable_ok [OF assms] effective_bounds [of p "bp_policyBitrateBps p"] by (auto simp: target_ok_def Let_def)

definition demo_config :: VideoBwePolicyConfig where
  "demo_config = \<lparr> bc_baselineWidth = 1280, bc_baselineHeight = 720, bc_baselineFrameRate = 30,
     bc_baselineBitrateBps = 400000 \<rparr>"

definition demo_sample :: "u8 \<Rightarrow> u64 \<Rightarrow> VideoBwePolicySample" where
  "demo_sample lost now = \<lparr> bs_fractionLost = lost, bs_hasRtt = False, bs_rttMs = 0, bs_nowMs = now \<rparr>"

definition demo_degraded :: VideoBwePolicy where
  "demo_degraded = snd (onReceiverReport (demo_sample 20 1000) (VideoBwePolicy_new demo_config))"

lemma demo_degraded_reachable: "bwe_reachable demo_degraded"
  unfolding bwe_reachable_def demo_degraded_def
  by (intro exI [of _ demo_config] conjI r_into_rtranclp bwe_step.report) (simp add: demo_config_def)

theorem bwe_target_bounded_witness:
  "bwe_reachable demo_degraded \<and> bt_level (bp_target demo_degraded) = Moderate \<and>
   bt_bitrateBps (bp_target demo_degraded) = 280000 \<and>
   bt_bitrateBps (bp_target demo_degraded) \<le> bc_baselineBitrateBps (bp_config demo_degraded)"
proof -
  have "bt_level (bp_target demo_degraded) = Moderate" "bt_videoSuspended (bp_target demo_degraded) = False"
    "bt_bitrateBps (bp_target demo_degraded) = 280000" by code_simp+
  then show ?thesis using bwe_target_bounded [OF demo_degraded_reachable] demo_degraded_reachable by (simp add: Let_def)
qed

section \<open>Reaction to loss\<close>

text \<open>
  A receiver report moves a reachable policy to the level its loss calls for, above 30, 15 and 5 percent: audio-only,
  severe (at most 360 lines, 15 frames and 300 kbit/s), moderate (15 frames, the
  rate cut by 30 percent, not below 100 kbit/s); the rate of the policy never grows then. Below 2 percent the video is
  on again and the rate of the policy does not shrink. Between 2 and 5 percent level, dimensions
  and rate stay.
\<close>

theorem bwe_reacts_to_loss:
  assumes "bwe_reachable p"
  shows "let loss = lossPercent (bs_fractionLost s); p' = snd (onReceiverReport s p); t = bp_target p; t' = bp_target p';
             r = bp_policyBitrateBps p; r' = bp_policyBitrateBps p' in
    (loss > 30 \<longrightarrow> bt_level t' = AudioOnly \<and> bt_bitrateBps t' = 0 \<and> r' = r) \<and>
    (15 < loss \<and> loss \<le> 30 \<longrightarrow> bt_level t' = Severe \<and> bt_height t' \<le> 360 \<and> bt_frameRate t' = 15 \<and> r' \<le> r \<and>
       bt_bitrateBps t' \<le> kSevereVideoBitrateBps) \<and>
    (5 < loss \<and> loss \<le> 15 \<longrightarrow> bt_level t' = Moderate \<and> bt_frameRate t' = 15 \<and>
       unat r' = max 100000 (unat r * 70 div 100)) \<and>
    (2 \<le> loss \<and> loss \<le> 5 \<longrightarrow> bt_level t' = bt_level t \<and> bt_width t' = bt_width t \<and> bt_height t' = bt_height t \<and>
       bt_frameRate t' = bt_frameRate t \<and> bt_bitrateBps t' = bt_bitrateBps t \<and> r' = r) \<and>
    (loss < 2 \<longrightarrow> (bt_level t' = Normal \<or> bt_level t' = Moderate) \<and> \<not> bt_videoSuspended t' \<and> r \<le> r')"
proof -
  have ok: "rate_ok p" "target_ok p" using bwe_reachable_ok [OF assms] by auto
  have pos: "bp_policyBitrateBps p \<noteq> 0" using ok(1) min_positive by (simp add: rate_ok_def)
  have dims: "even (bt_width (bp_target p))" "2 \<le> bt_width (bp_target p)" "even (bt_height (bp_target p))" "2 \<le> bt_height (bp_target p)"
    "1 \<le> bt_frameRate (bp_target p)"
    "bt_bitrateBps (bp_target p) = (if bt_videoSuspended (bp_target p) then 0 else effectiveBitrate p (bp_policyBitrateBps p))"
    using ok(2) by (auto simp: target_ok_def Let_def)
  define q where "q = (if bs_hasRtt s \<and> bs_rttMs s > 500 \<and> \<not> bp_turnRelayRequested p then p\<lparr>bp_turnRelayRequested := True\<rparr> else p)"
  have q: "bp_target q = bp_target p" "bp_config q = bp_config p" "bp_policyBitrateBps q = bp_policyBitrateBps p"
    "effectiveBitrate q x = effectiveBitrate p x" "rate_ok q" for x
    using ok(1) by (auto simp: q_def rate_ok_def)
  let ?loss = "lossPercent (bs_fractionLost s)" and ?p' = "snd (onReceiverReport s p)"
  note rep = onReceiverReport_def Let_def conj_assoc q_def [symmetric]
  have "?loss > 30 \<Longrightarrow> bt_level (bp_target ?p') = AudioOnly \<and> bt_bitrateBps (bp_target ?p') = 0 \<and>
      bp_policyBitrateBps ?p' = bp_policyBitrateBps p"
    unfolding rep by (simp add: q)
  moreover have "15 < ?loss \<Longrightarrow> ?loss \<le> 30 \<Longrightarrow> bt_level (bp_target ?p') = Severe \<and> bt_height (bp_target ?p') \<le> 360 \<and>
      bt_frameRate (bp_target ?p') = 15 \<and> bp_policyBitrateBps ?p' \<le> bp_policyBitrateBps p \<and>
      bt_bitrateBps (bp_target ?p') \<le> kSevereVideoBitrateBps"
    unfolding rep using even_two_le [of 360 "scaledHeightFor360p (bp_config p)"]
      effective_le [of "min (bp_policyBitrateBps p) kSevereVideoBitrateBps" kSevereVideoBitrateBps p]
    by (simp add: q kDegradedFrameRate_def scaledHeightFor360p_def kSevereVideoBitrateBps_def kMinVideoBitrateBps_def)
  moreover have "5 < ?loss \<Longrightarrow> ?loss \<le> 15 \<Longrightarrow> bt_level (bp_target ?p') = Moderate \<and> bt_frameRate (bp_target ?p') = 15 \<and>
      unat (bp_policyBitrateBps ?p') = max 100000 (unat (bp_policyBitrateBps p) * 70 div 100)"
    unfolding rep by (simp add: q pos kDegradedFrameRate_def unat_reduce)
  moreover have "2 \<le> ?loss \<Longrightarrow> ?loss \<le> 5 \<Longrightarrow> bt_level (bp_target ?p') = bt_level (bp_target p) \<and>
      bt_width (bp_target ?p') = bt_width (bp_target p) \<and> bt_height (bp_target ?p') = bt_height (bp_target p) \<and>
      bt_frameRate (bp_target ?p') = bt_frameRate (bp_target p) \<and> bt_bitrateBps (bp_target ?p') = bt_bitrateBps (bp_target p) \<and>
      bp_policyBitrateBps ?p' = bp_policyBitrateBps p"
    unfolding rep using dims by (simp add: q even_two_id)
  moreover have "?loss < 2 \<Longrightarrow> (bt_level (bp_target ?p') = Normal \<or> bt_level (bp_target ?p') = Moderate) \<and>
      \<not> bt_videoSuspended (bp_target ?p') \<and> bp_policyBitrateBps p \<le> bp_policyBitrateBps ?p'"
    unfolding rep using restore_step_ok [OF q(5), of "bs_nowMs s"] by (simp add: q)
  ultimately show ?thesis unfolding Let_def by blast
qed

theorem bwe_reacts_to_loss_witness:
  "lossPercent 100 > 30 \<and> bt_level (bp_target (snd (onReceiverReport (demo_sample 100 2000) demo_degraded))) = AudioOnly \<and>
   bp_policyBitrateBps (snd (onReceiverReport (demo_sample 100 2000) demo_degraded)) = 280000"
proof -
  have "lossPercent (bs_fractionLost (demo_sample 100 2000)) > 30" by code_simp
  moreover have "bp_policyBitrateBps demo_degraded = 280000" by code_simp
  ultimately show ?thesis
    using bwe_reacts_to_loss [OF demo_degraded_reachable, of "demo_sample 100 2000"] by (simp add: Let_def demo_sample_def)
qed

section \<open>Recovery\<close>

fun feed :: "VideoBwePolicySample list \<Rightarrow> VideoBwePolicy \<Rightarrow> VideoBwePolicy" where
  "feed [] p = p"
| "feed (s # ss) p = feed ss (snd (onReceiverReport s p))"

text \<open>Reports with little loss, each at least the restore interval after the one before it, the first after \<open>since\<close>.\<close>

fun good_reports :: "nat \<Rightarrow> VideoBwePolicySample list \<Rightarrow> bool" where
  "good_reports since [] \<longleftrightarrow> True"
| "good_reports since (s # ss) \<longleftrightarrow>
     lossPercent (bs_fractionLost s) < 2 \<and> since + 5000 \<le> unat (bs_nowMs s) \<and> good_reports (unat (bs_nowMs s)) ss"

lemma restore_due:
  assumes "rate_ok p" and "unat (bp_lastRestoreAtMs p) + 5000 \<le> unat now"
  shows "bp_policyBitrateBps (restore_step now p) = restoreByTenPercent (bp_policyBitrateBps p) (bc_baselineBitrateBps (bp_config p))"
    and "bp_lastRestoreAtMs (restore_step now p) = now"
proof -
  have "bp_lastRestoreAtMs p \<le> now" using assms(2) by (simp add: word_le_nat_alt)
  moreover from this have "kRestoreIntervalMs \<le> now - bp_lastRestoreAtMs p"
    using assms(2) by (simp add: word_le_nat_alt unat_sub_if_size kRestoreIntervalMs_def)
  moreover have "bp_policyBitrateBps p \<noteq> 0" using assms(1) min_positive by (simp add: rate_ok_def)
  ultimately show "bp_policyBitrateBps (restore_step now p) = restoreByTenPercent (bp_policyBitrateBps p) (bc_baselineBitrateBps (bp_config p))"
    "bp_lastRestoreAtMs (restore_step now p) = now"
    by (simp_all add: restore_step_def)
qed

lemma good_report:
  assumes "bwe_ok p" and "lossPercent (bs_fractionLost s) < 2" and "unat (bp_lastRestoreAtMs p) + 5000 \<le> unat (bs_nowMs s)"
  defines "p' \<equiv> snd (onReceiverReport s p)"
  shows "bwe_ok p'" "bp_config p' = bp_config p" "bp_rembLimitBps p' = bp_rembLimitBps p" "bp_lastRestoreAtMs p' = bs_nowMs s"
    "min (unat (bc_baselineBitrateBps (bp_config p))) (unat (bp_policyBitrateBps p) + 10000) \<le> unat (bp_policyBitrateBps p')"
    "bp_policyBitrateBps p' = bc_baselineBitrateBps (bp_config p) \<Longrightarrow> bt_level (bp_target p') = Normal"
proof -
  define q where "q = (if bs_hasRtt s \<and> bs_rttMs s > 500 \<and> \<not> bp_turnRelayRequested p then p\<lparr>bp_turnRelayRequested := True\<rparr> else p)"
  have q: "bp_config q = bp_config p" "bp_policyBitrateBps q = bp_policyBitrateBps p" "bp_rembLimitBps q = bp_rembLimitBps p"
    "bp_lastRestoreAtMs q = bp_lastRestoreAtMs p" by (auto simp: q_def)
  have ok: "rate_ok q" using assms(1) by (auto simp: q_def rate_ok_def)
  note due = restore_due [OF ok, of "bs_nowMs s"]
  note rep = onReceiverReport_def Let_def conj_assoc q_def [symmetric]
  show "bwe_ok p'" unfolding p'_def using assms(1) by (rule report_ok)
  have r: "bp_policyBitrateBps p' = restoreByTenPercent (bp_policyBitrateBps p) (bc_baselineBitrateBps (bp_config p))"
    and "bp_config p' = bp_config p" "bp_rembLimitBps p' = bp_rembLimitBps p" "bp_lastRestoreAtMs p' = bs_nowMs s"
    and normal: "bp_policyBitrateBps p' = bc_baselineBitrateBps (bp_config p) \<Longrightarrow> bt_level (bp_target p') = Normal"
    unfolding p'_def rep using assms(2,3) due by (simp_all add: q)
  then show "bp_config p' = bp_config p" "bp_rembLimitBps p' = bp_rembLimitBps p" "bp_lastRestoreAtMs p' = bs_nowMs s"
    "bp_policyBitrateBps p' = bc_baselineBitrateBps (bp_config p) \<Longrightarrow> bt_level (bp_target p') = Normal" by simp_all
  have "100000 \<le> unat (bp_policyBitrateBps p)"
    using assms(1) by (simp add: rate_ok_def word_le_nat_alt kMinVideoBitrateBps_def)
  then show "min (unat (bc_baselineBitrateBps (bp_config p))) (unat (bp_policyBitrateBps p) + 10000) \<le> unat (bp_policyBitrateBps p')"
    unfolding r unat_restore by simp
qed

lemma feed_good:
  assumes "bwe_ok p" and "good_reports (unat (bp_lastRestoreAtMs p)) ss"
  defines "p' \<equiv> feed ss p"
  shows "bwe_ok p' \<and> bp_config p' = bp_config p \<and> bp_rembLimitBps p' = bp_rembLimitBps p \<and>
    min (unat (bc_baselineBitrateBps (bp_config p))) (unat (bp_policyBitrateBps p) + 10000 * length ss) \<le> unat (bp_policyBitrateBps p') \<and>
    (ss \<noteq> [] \<longrightarrow> bp_policyBitrateBps p' = bc_baselineBitrateBps (bp_config p) \<longrightarrow> bt_level (bp_target p') = Normal)"
  using assms(1,2) unfolding p'_def
proof (induction ss arbitrary: p)
  case (Cons s ss)
  let ?p = "snd (onReceiverReport s p)"
  note g = good_report [OF Cons.prems(1), of s]
  from Cons.prems(2) have s: "lossPercent (bs_fractionLost s) < 2" "unat (bp_lastRestoreAtMs p) + 5000 \<le> unat (bs_nowMs s)"
    "good_reports (unat (bs_nowMs s)) ss" by simp_all
  have IH: "bwe_ok (feed ss ?p) \<and> bp_config (feed ss ?p) = bp_config ?p \<and> bp_rembLimitBps (feed ss ?p) = bp_rembLimitBps ?p \<and>
    min (unat (bc_baselineBitrateBps (bp_config ?p))) (unat (bp_policyBitrateBps ?p) + 10000 * length ss) \<le> unat (bp_policyBitrateBps (feed ss ?p)) \<and>
    (ss \<noteq> [] \<longrightarrow> bp_policyBitrateBps (feed ss ?p) = bc_baselineBitrateBps (bp_config ?p) \<longrightarrow> bt_level (bp_target (feed ss ?p)) = Normal)"
    using g(1,4) [OF s(1,2)] s(3) by (intro Cons.IH) auto
  then show ?case using g [OF s(1,2)] by (cases ss) auto
qed simp

text \<open>
  C32. The video comes back: from every reachable policy, enough consecutive reports with less than 2 percent
  loss, each at least 5 seconds after the last restoring step, one per 10 kbit/s of the baseline above 100
  kbit/s and at least one, lead back to level normal, with the resolution and frame
  rate of the baseline and its bit rate, or the received limit when that is lower.
\<close>

theorem bwe_recovers:
  assumes "bwe_reachable p" and "good_reports (unat (bp_lastRestoreAtMs p)) ss" and "ss \<noteq> []"
    and "unat (bc_baselineBitrateBps (bp_config p)) \<le> 100000 + 10000 * length ss"
  shows "let p' = feed ss p; t = bp_target p'; c = bp_config p in
    bt_level t = Normal \<and> \<not> bt_videoSuspended t \<and> bt_width t = bc_baselineWidth c \<and> bt_height t = bc_baselineHeight c \<and>
    bt_frameRate t = bc_baselineFrameRate c \<and>
    bt_bitrateBps t = (if bp_rembLimitBps p = 0 then bc_baselineBitrateBps c
                       else min (bc_baselineBitrateBps c) (bp_rembLimitBps p))"
proof -
  let ?p' = "feed ss p"
  have ok: "bwe_ok p" using assms(1) by (rule bwe_reachable_ok)
  note f = feed_good [OF ok assms(2)]
  have "100000 \<le> unat (bp_policyBitrateBps p)" using ok by (simp add: rate_ok_def word_le_nat_alt kMinVideoBitrateBps_def)
  then have "unat (bc_baselineBitrateBps (bp_config p)) \<le> unat (bp_policyBitrateBps ?p')" using f assms(4) by linarith
  then have full: "bp_policyBitrateBps ?p' = bc_baselineBitrateBps (bp_config p)"
    using f by (intro antisym) (auto simp: rate_ok_def word_le_nat_alt)
  then have normal: "bt_level (bp_target ?p') = Normal" using f assms(3) by blast
  have cfg: "bp_config ?p' = bp_config p" "bp_rembLimitBps ?p' = bp_rembLimitBps p" "rate_ok ?p'" "target_ok ?p'" using f by auto
  have "effectiveBitrate ?p' (bc_baselineBitrateBps (bp_config p)) = (if bp_rembLimitBps p = 0 then bc_baselineBitrateBps (bp_config p)
      else min (bc_baselineBitrateBps (bp_config p)) (bp_rembLimitBps p))"
    using cfg(3) by (auto simp: effectiveBitrate_def cfg(1,2) rate_ok_def config_ok_def Let_def max_def min_def kMinVideoBitrateBps_def)
  then show ?thesis using cfg(4) normal full by (simp add: target_ok_def Let_def cfg(1))
qed

definition demo_good :: "VideoBwePolicySample list" where
  "demo_good = map (\<lambda>i. demo_sample 0 (5000 * i)) [1, 2, 3, 4, 5, 6, 7, 8, 9, 10, 11, 12, 13, 14, 15, 16,
     17, 18, 19, 20, 21, 22, 23, 24, 25, 26, 27, 28, 29, 30]"

theorem bwe_recovers_witness:
  "bt_level (bp_target demo_degraded) = Moderate \<and> bt_level (bp_target (feed demo_good demo_degraded)) = Normal \<and>
   bt_bitrateBps (bp_target (feed demo_good demo_degraded)) = 400000"
proof -
  have d: "bp_rembLimitBps demo_degraded = 0" "bc_baselineBitrateBps (bp_config demo_degraded) = 400000"
    "bp_lastRestoreAtMs demo_degraded = 0" "bt_level (bp_target demo_degraded) = Moderate" by code_simp+
  have "good_reports (unat (bp_lastRestoreAtMs demo_degraded)) demo_good"
    unfolding d(3) demo_good_def by (simp add: demo_sample_def lossPercent_def)
  then show ?thesis using bwe_recovers [OF demo_degraded_reachable, of demo_good] d
    by (simp add: Let_def demo_good_def)
qed

text \<open>The frame rate of the degraded levels is a constant, also for a baseline below it.\<close>

lemma degraded_frame_rate_above_baseline:
  "let c = demo_config\<lparr>bc_baselineFrameRate := 10\<rparr>; p = snd (onReceiverReport (demo_sample 20 1000) (VideoBwePolicy_new c))
   in bt_frameRate (bp_target p) = 15 \<and> bc_baselineFrameRate (bp_config p) = 10"
  by code_simp

end
