(* ===== verification/VideoFrames.thy ===== *)
theory VideoFrames
  imports VideoBwePolicy
begin

text \<open>
  The frames of the client's video pipeline: a decoded frame and what may be rendered of it
  (\<open>plasma-hawking/src/av/codec/VideoDecoder.h\<close>), the pipeline profile
  (\<open>av/VideoPipelineProfile.h\<close>), and the preview the sender makes of its own screen or camera
  (\<open>av/session/ScreenShareSessionTransport.cpp\<close>, \<open>ScreenShareSessionCamera.cpp\<close>).

  An \<open>AVFrame\<close> of FFmpeg is the record of the members the code reads: \<open>avf_data\<close> gives the bytes a
  plane pointer points to, \<open>None\<close> for a null pointer. A texture handle is \<open>None\<close> when it is null.
  Pixels are read with checked access.
\<close>

section \<open>The pipeline profile\<close>

datatype VideoPipelineProfile = SoftwareE2E | HardwareE2E

definition isHardwareE2E :: "VideoPipelineProfile \<Rightarrow> bool" where
  "isHardwareE2E profile \<longleftrightarrow> profile = HardwareE2E"

text \<open>\<open>std::isspace\<close> and \<open>std::tolower\<close> in the C locale.\<close>

definition c_isspace :: "char \<Rightarrow> bool" where
  "c_isspace ch \<longleftrightarrow> (let n = (of_char ch :: nat) in n = 32 \<or> 9 \<le> n \<and> n \<le> 13)"

definition c_tolower :: "char \<Rightarrow> char" where
  "c_tolower ch = (let n = (of_char ch :: nat) in if 65 \<le> n \<and> n \<le> 90 then char_of (n + 32) else ch)"

definition normalizeVideoPipelineProfileValue :: "string option \<Rightarrow> string" where
  "normalizeVideoPipelineProfileValue rawValue =
     (case rawValue of None \<Rightarrow> [] | Some v \<Rightarrow> map c_tolower (filter (\<lambda>ch. \<not> c_isspace ch) v))"

definition parseVideoPipelineProfile :: "string option \<Rightarrow> VideoPipelineProfile \<Rightarrow> VideoPipelineProfile" where
  "parseVideoPipelineProfile rawValue defaultProfile =
     (let normalized = normalizeVideoPipelineProfileValue rawValue in
      if normalized = [] \<or> normalized = ''auto'' \<or> normalized = ''default'' then defaultProfile
      else if normalized \<in> {''hardware'', ''hardwaree2e'', ''hw'', ''gpu''} then HardwareE2E
      else if normalized \<in> {''software'', ''softwaree2e'', ''sw'', ''cpu''} then SoftwareE2E
      else defaultProfile)"

definition videoPipelineProfileExplicitlySet :: "string option \<Rightarrow> bool" where
  "videoPipelineProfileExplicitlySet rawValue \<longleftrightarrow> normalizeVideoPipelineProfileValue rawValue \<noteq> []"

section \<open>Decoded frames\<close>

datatype AVPixelFormat = PIX_FMT_NONE | PIX_FMT_NV12 | PIX_FMT_YUV420P | PIX_FMT_YUVJ420P | PIX_FMT_D3D11 | PIX_FMT_OTHER nat

record AVFrame =
  avf_width :: int
  avf_height :: int
  avf_format :: AVPixelFormat
  avf_pts :: int
  avf_data :: "nat \<Rightarrow> bytes option"
  avf_linesize :: "nat \<Rightarrow> int"
  avf_hw_frames_ctx :: bool

datatype HardwareFrameKind = NoHardware | D3d11Texture2D

datatype StorageKind = EmptyStorage | SoftwareStorage | HardwareStorage

record VideoPipelineTelemetry =
  tl_profile :: VideoPipelineProfile
  tl_hardwareDecode :: bool
  tl_hardwareTextureInterop :: bool
  tl_cpuFrameTransfer :: bool
  tl_cpuFrameCopy :: bool
  tl_cpuTextureUpload :: bool
  tl_backendName :: string

record DecodedVideoFrame =
  df_width :: int
  df_height :: int
  df_pts :: int
  df_yPlane :: bytes
  df_uvPlane :: bytes
  df_uPlane :: bytes
  df_vPlane :: bytes
  df_avFrame :: "AVFrame option"
  df_hardwareAvFrame :: "AVFrame option"
  df_pixelFormat :: AVPixelFormat
  df_hardwareFrameKind :: HardwareFrameKind
  df_hardwareTextureHandle :: "nat option"
  df_hardwareSubresourceIndex :: u32
  df_storageKind :: StorageKind
  df_telemetry :: VideoPipelineTelemetry

definition VideoPipelineTelemetry_new :: VideoPipelineTelemetry where
  "VideoPipelineTelemetry_new = \<lparr> tl_profile = SoftwareE2E, tl_hardwareDecode = False,
     tl_hardwareTextureInterop = False, tl_cpuFrameTransfer = False, tl_cpuFrameCopy = False,
     tl_cpuTextureUpload = False, tl_backendName = [] \<rparr>"

definition DecodedVideoFrame_new :: DecodedVideoFrame where
  "DecodedVideoFrame_new = \<lparr> df_width = 0, df_height = 0, df_pts = 0, df_yPlane = [], df_uvPlane = [],
     df_uPlane = [], df_vPlane = [], df_avFrame = None, df_hardwareAvFrame = None, df_pixelFormat = PIX_FMT_NONE,
     df_hardwareFrameKind = NoHardware, df_hardwareTextureHandle = None, df_hardwareSubresourceIndex = 0,
     df_storageKind = EmptyStorage, df_telemetry = VideoPipelineTelemetry_new \<rparr>"

definition markSoftwareFrame :: "bool \<Rightarrow> bool \<Rightarrow> DecodedVideoFrame \<Rightarrow> DecodedVideoFrame" where
  "markSoftwareFrame copied transferredFromHardware f =
     f\<lparr>df_storageKind := SoftwareStorage, df_hardwareAvFrame := None, df_hardwareFrameKind := NoHardware,
       df_hardwareTextureHandle := None, df_hardwareSubresourceIndex := 0,
       df_telemetry := (df_telemetry f)\<lparr>tl_cpuFrameCopy := (tl_cpuFrameCopy (df_telemetry f) \<or> copied),
         tl_cpuFrameTransfer := (tl_cpuFrameTransfer (df_telemetry f) \<or> transferredFromHardware),
         tl_hardwareTextureInterop := False\<rparr>\<rparr>"

definition markHardwareFrame :: "HardwareFrameKind \<Rightarrow> DecodedVideoFrame \<Rightarrow> DecodedVideoFrame" where
  "markHardwareFrame kind f =
     f\<lparr>df_storageKind := HardwareStorage, df_avFrame := None, df_yPlane := [], df_uvPlane := [], df_uPlane := [],
       df_vPlane := [], df_hardwareFrameKind := kind, df_telemetry := (df_telemetry f)\<lparr>tl_hardwareDecode := True\<rparr>\<rparr>"

definition containsSoftwarePayload :: "DecodedVideoFrame \<Rightarrow> bool" where
  "containsSoftwarePayload f \<longleftrightarrow>
     df_avFrame f \<noteq> None \<or> df_yPlane f \<noteq> [] \<or> df_uvPlane f \<noteq> [] \<or> df_uPlane f \<noteq> [] \<or> df_vPlane f \<noteq> []"

definition containsHardwarePayload :: "DecodedVideoFrame \<Rightarrow> bool" where
  "containsHardwarePayload f \<longleftrightarrow>
     df_hardwareFrameKind f \<noteq> NoHardware \<and> df_hardwareAvFrame f \<noteq> None \<and> df_hardwareTextureHandle f \<noteq> None"

definition isSoftwareFrame :: "DecodedVideoFrame \<Rightarrow> bool" where
  "isSoftwareFrame f \<longleftrightarrow>
     df_storageKind f = SoftwareStorage \<or> df_storageKind f = EmptyStorage \<and> containsSoftwarePayload f"

definition isHardwareFrame :: "DecodedVideoFrame \<Rightarrow> bool" where
  "isHardwareFrame f \<longleftrightarrow>
     df_storageKind f = HardwareStorage \<or>
     df_storageKind f = EmptyStorage \<and> containsHardwarePayload f \<and> \<not> containsSoftwarePayload f"

definition hasCpuNv12Planes :: "DecodedVideoFrame \<Rightarrow> bool" where
  "hasCpuNv12Planes f \<longleftrightarrow> \<not> isHardwareFrame f \<and> df_yPlane f \<noteq> [] \<and> df_uvPlane f \<noteq> []"

definition hasCpuYuv420pPlanes :: "DecodedVideoFrame \<Rightarrow> bool" where
  "hasCpuYuv420pPlanes f \<longleftrightarrow> \<not> isHardwareFrame f \<and> df_yPlane f \<noteq> [] \<and> df_uPlane f \<noteq> [] \<and> df_vPlane f \<noteq> []"

definition hasCpuPlanes :: "DecodedVideoFrame \<Rightarrow> bool" where
  "hasCpuPlanes f \<longleftrightarrow> hasCpuNv12Planes f \<or> hasCpuYuv420pPlanes f"

text \<open>A plane of the \<open>AVFrame\<close> that is there and has a positive line size.\<close>

definition av_plane :: "AVFrame \<Rightarrow> nat \<Rightarrow> bool" where
  "av_plane a i \<longleftrightarrow> avf_data a i \<noteq> None \<and> avf_linesize a i > 0"

definition hasAvFrameNv12Planes :: "DecodedVideoFrame \<Rightarrow> bool" where
  "hasAvFrameNv12Planes f \<longleftrightarrow>
     (if isHardwareFrame f then False
      else case df_avFrame f of
        None \<Rightarrow> False
      | Some a \<Rightarrow> df_pixelFormat f = PIX_FMT_NV12 \<and> av_plane a 0 \<and> av_plane a 1)"

definition hasAvFrameYuv420pPlanes :: "DecodedVideoFrame \<Rightarrow> bool" where
  "hasAvFrameYuv420pPlanes f \<longleftrightarrow>
     (if isHardwareFrame f then False
      else case df_avFrame f of
        None \<Rightarrow> False
      | Some a \<Rightarrow> (df_pixelFormat f = PIX_FMT_YUV420P \<or> df_pixelFormat f = PIX_FMT_YUVJ420P) \<and>
          av_plane a 0 \<and> av_plane a 1 \<and> av_plane a 2)"

definition hasAvFramePlanes :: "DecodedVideoFrame \<Rightarrow> bool" where
  "hasAvFramePlanes f \<longleftrightarrow> hasAvFrameNv12Planes f \<or> hasAvFrameYuv420pPlanes f"

definition hasHardwareTextureShareCandidate :: "DecodedVideoFrame \<Rightarrow> bool" where
  "hasHardwareTextureShareCandidate f \<longleftrightarrow> \<not> isSoftwareFrame f \<and> containsHardwarePayload f"

definition hasRenderableData :: "DecodedVideoFrame \<Rightarrow> bool" where
  "hasRenderableData f \<longleftrightarrow>
     (if df_width f \<le> 0 \<or> df_height f \<le> 0 then False
      else case df_storageKind f of
        HardwareStorage \<Rightarrow> hasHardwareTextureShareCandidate f
      | SoftwareStorage \<Rightarrow> hasAvFramePlanes f \<or> hasCpuPlanes f
      | EmptyStorage \<Rightarrow> hasAvFramePlanes f \<or> hasCpuPlanes f \<or> hasHardwareTextureShareCandidate f)"

text \<open>The accessors; \<open>av_data f i\<close> and \<open>av_linesize f i\<close> are \<open>avFrame->data[i]\<close> and \<open>avFrame->linesize[i]\<close>.\<close>

definition av_data :: "DecodedVideoFrame \<Rightarrow> nat \<Rightarrow> bytes option" where
  "av_data f i = (case df_avFrame f of None \<Rightarrow> None | Some a \<Rightarrow> avf_data a i)"

definition av_linesize :: "DecodedVideoFrame \<Rightarrow> nat \<Rightarrow> int" where
  "av_linesize f i = (case df_avFrame f of None \<Rightarrow> 0 | Some a \<Rightarrow> avf_linesize a i)"

definition yData :: "DecodedVideoFrame \<Rightarrow> bytes option" where
  "yData f =
     (if hasAvFramePlanes f then av_data f 0
      else if hasCpuNv12Planes f \<or> hasCpuYuv420pPlanes f then Some (df_yPlane f) else None)"

definition uvData :: "DecodedVideoFrame \<Rightarrow> bytes option" where
  "uvData f =
     (if hasAvFrameNv12Planes f then av_data f 1 else if hasCpuNv12Planes f then Some (df_uvPlane f) else None)"

definition uData :: "DecodedVideoFrame \<Rightarrow> bytes option" where
  "uData f =
     (if hasAvFrameYuv420pPlanes f then av_data f 1 else if hasCpuYuv420pPlanes f then Some (df_uPlane f) else None)"

definition vData :: "DecodedVideoFrame \<Rightarrow> bytes option" where
  "vData f =
     (if hasAvFrameYuv420pPlanes f then av_data f 2 else if hasCpuYuv420pPlanes f then Some (df_vPlane f) else None)"

definition yStride :: "DecodedVideoFrame \<Rightarrow> int" where
  "yStride f =
     (if hasAvFramePlanes f then av_linesize f 0
      else if hasCpuNv12Planes f \<or> hasCpuYuv420pPlanes f then df_width f else 0)"

definition uvStride :: "DecodedVideoFrame \<Rightarrow> int" where
  "uvStride f =
     (if hasAvFrameNv12Planes f then av_linesize f 1 else if hasCpuNv12Planes f then df_width f else 0)"

definition uStride :: "DecodedVideoFrame \<Rightarrow> int" where
  "uStride f =
     (if hasAvFrameYuv420pPlanes f then av_linesize f 1 else if hasCpuYuv420pPlanes f then df_width f div 2 else 0)"

definition vStride :: "DecodedVideoFrame \<Rightarrow> int" where
  "vStride f =
     (if hasAvFrameYuv420pPlanes f then av_linesize f 2 else if hasCpuYuv420pPlanes f then df_width f div 2 else 0)"

lemmas frame_tests = isSoftwareFrame_def isHardwareFrame_def hasCpuNv12Planes_def hasCpuYuv420pPlanes_def
  hasCpuPlanes_def hasAvFrameNv12Planes_def hasAvFrameYuv420pPlanes_def hasAvFramePlanes_def
  hasHardwareTextureShareCandidate_def containsSoftwarePayload_def containsHardwarePayload_def av_plane_def

lemmas frame_accessors = yData_def uvData_def uData_def vData_def yStride_def uvStride_def uStride_def vStride_def
  av_data_def av_linesize_def

text \<open>What a renderer relies on: the planes of one format, all there and with positive strides.\<close>

definition planes_complete :: "DecodedVideoFrame \<Rightarrow> bool" where
  "planes_complete f \<longleftrightarrow>
     yData f \<noteq> None \<and> 0 < yStride f \<and>
     (uvData f \<noteq> None \<and> 0 < uvStride f \<or> uData f \<noteq> None \<and> vData f \<noteq> None \<and> 0 < uStride f \<and> 0 < vStride f)"

lemma renderable_planes:
  assumes "hasRenderableData f" "2 \<le> df_width f"
  shows "hasHardwareTextureShareCandidate f \<or> planes_complete f"
proof -
  have "planes_complete f" if "hasAvFrameNv12Planes f"
    using that by (auto simp: planes_complete_def frame_accessors hasAvFramePlanes_def)
      (auto simp: hasAvFrameNv12Planes_def av_plane_def split: if_splits option.splits)
  moreover have "planes_complete f" if "hasAvFrameYuv420pPlanes f"
    using that by (auto simp: planes_complete_def frame_accessors hasAvFramePlanes_def)
      (auto simp: hasAvFrameYuv420pPlanes_def av_plane_def split: if_splits option.splits)
  moreover have "planes_complete f" if "hasCpuPlanes f" "\<not> hasAvFramePlanes f"
    using that assms(2) by (auto simp: planes_complete_def frame_accessors hasAvFramePlanes_def hasCpuPlanes_def)
  ultimately show ?thesis
    using assms(1) by (auto simp: hasRenderableData_def hasAvFramePlanes_def split: if_splits StorageKind.splits)
qed

section \<open>Colours\<close>

text \<open>A shift to the right by 8 of a negative \<open>int\<close> rounds down, as \<open>div\<close> does.\<close>

definition clampToByte :: "int \<Rightarrow> u8" where
  "clampToByte value = word_of_int (max 0 (min 255 value))"

definition lumaFromBgra :: "u8 \<Rightarrow> u8 \<Rightarrow> u8 \<Rightarrow> u8" where
  "lumaFromBgra b g r = clampToByte ((66 * uint r + 129 * uint g + 25 * uint b + 128) div 256 + 16)"

definition chromaUFromBgra :: "u8 \<Rightarrow> u8 \<Rightarrow> u8 \<Rightarrow> u8" where
  "chromaUFromBgra b g r = clampToByte ((- 38 * uint r - 74 * uint g + 112 * uint b + 128) div 256 + 128)"

definition chromaVFromBgra :: "u8 \<Rightarrow> u8 \<Rightarrow> u8 \<Rightarrow> u8" where
  "chromaVFromBgra b g r = clampToByte ((112 * uint r - 94 * uint g - 18 * uint b + 128) div 256 + 128)"

section \<open>The preview of a captured picture\<close>

text \<open>
  A picture is given by its rows; \<open>pixel row x\<close> is the pointer to a pixel with its three reads.
  The four pixels of a block are averaged.
\<close>

definition pixel :: "(u8 \<Rightarrow> u8 \<Rightarrow> u8 \<Rightarrow> u8) \<Rightarrow> bytes \<Rightarrow> nat \<Rightarrow> u8 mem" where
  "pixel convert row x = do {
     b \<leftarrow> byte_at row (x * 4); g \<leftarrow> byte_at row (x * 4 + 1); r \<leftarrow> byte_at row (x * 4 + 2);
     Some (convert b g r) }"

definition block_average :: "(u8 \<Rightarrow> u8 \<Rightarrow> u8 \<Rightarrow> u8) \<Rightarrow> bytes \<Rightarrow> bytes \<Rightarrow> nat \<Rightarrow> nat \<Rightarrow> u8 mem" where
  "block_average convert row0 row1 x x1 = do {
     a \<leftarrow> pixel convert row0 x; b \<leftarrow> pixel convert row0 x1; c \<leftarrow> pixel convert row1 x; d \<leftarrow> pixel convert row1 x1;
     Some (clampToByte ((uint a + uint b + uint c + uint d + 2) div 4)) }"

definition luma_plane :: "(nat \<Rightarrow> bytes) \<Rightarrow> nat \<Rightarrow> nat \<Rightarrow> bytes mem" where
  "luma_plane rows w h = those (map (\<lambda>(y, x). pixel lumaFromBgra (rows y) x) (List.product [0..<h] [0..<w]))"

definition chroma_plane :: "(nat \<Rightarrow> bytes) \<Rightarrow> nat \<Rightarrow> nat \<Rightarrow> bytes mem" where
  "chroma_plane rows w h =
     mem_concat (\<lambda>(j, i).
       let y = 2 * j; x = 2 * i; x1 = min (x + 1) (w - 1); row0 = rows y; row1 = rows (min (y + 1) (h - 1))
       in do {
         u \<leftarrow> block_average chromaUFromBgra row0 row1 x x1;
         v \<leftarrow> block_average chromaVFromBgra row0 row1 x x1;
         Some [u, v] }) (List.product [0..<h div 2] [0..<w div 2])"

record ScreenFrame =
  sf_width :: int
  sf_height :: int
  sf_pts :: int
  sf_bgra :: bytes
  sf_nv12 :: bytes

text \<open>The stride is computed in \<open>int\<close>; its overflow is undefined behaviour.\<close>

definition makeSoftwarePreviewFrame :: "ScreenFrame \<Rightarrow> DecodedVideoFrame option mem" where
  "makeSoftwarePreviewFrame frame =
     (if sf_width frame \<le> 0 \<or> sf_height frame \<le> 0 \<or> odd (sf_width frame) \<or> odd (sf_height frame) then Some None
      else
        let w = nat (sf_width frame); h = nat (sf_height frame) in
        if length (sf_bgra frame) \<noteq> w * h * 4 then Some None
        else if sf_width frame * 4 > 2147483647 then None
        else
          let rows = (\<lambda>y. drop (y * (w * 4)) (sf_bgra frame))
          in do {
            ys \<leftarrow> luma_plane rows w h;
            uvs \<leftarrow> chroma_plane rows w h;
            Some (Some (markSoftwareFrame True True (DecodedVideoFrame_new\<lparr>df_width := sf_width frame,
              df_height := sf_height frame, df_pts := sf_pts frame, df_pixelFormat := PIX_FMT_NV12,
              df_yPlane := ys, df_uvPlane := uvs, df_telemetry := VideoPipelineTelemetry_new\<lparr>
                tl_profile := SoftwareE2E, tl_cpuFrameCopy := True, tl_backendName := ''dxgi-readback-screen-preview''\<rparr>\<rparr>))) })"

text \<open>A \<open>QImage\<close>; \<open>constScanLine\<close> gives the bytes of a row.\<close>

record QImage =
  qi_isNull :: bool
  qi_formatArgb32 :: bool
  qi_width :: int
  qi_height :: int
  qi_constScanLine :: "nat \<Rightarrow> bytes"

definition fillNv12PreviewFromArgb32Image :: "QImage \<Rightarrow> DecodedVideoFrame option mem" where
  "fillNv12PreviewFromArgb32Image img =
     (if qi_isNull img \<or> \<not> qi_formatArgb32 img \<or> qi_width img \<le> 0 \<or> qi_height img \<le> 0 \<or>
         odd (qi_width img) \<or> odd (qi_height img) then Some None
      else
        let w = nat (qi_width img); h = nat (qi_height img) in do {
          ys \<leftarrow> luma_plane (qi_constScanLine img) w h;
          uvs \<leftarrow> chroma_plane (qi_constScanLine img) w h;
          Some (Some (DecodedVideoFrame_new\<lparr>df_width := qi_width img, df_height := qi_height img,
            df_pixelFormat := PIX_FMT_NV12, df_yPlane := ys, df_uvPlane := uvs\<rparr>)) })"

section \<open>Dimensions\<close>

definition normalizeEvenDimension :: "int \<Rightarrow> int" where
  "normalizeEvenDimension value = max 2 (max 2 value AND (- 2))"

definition kMaxScreenShareWidth :: int where [simp]: "kMaxScreenShareWidth = 2560"
definition kMaxScreenShareHeight :: int where [simp]: "kMaxScreenShareHeight = 1600"
definition kMaxScreenShareFrameRate :: int where [simp]: "kMaxScreenShareFrameRate = 30"

text \<open>
  The quotient of two positive \<open>int\<close> values in double precision, as a multiple of \<open>2 ^ - 88\<close>: the
  quotient is at least \<open>2 ^ - 31\<close>, so its first 55 bits and one that says whether any non-zero bits
  follow are there to decide the rounding.
\<close>

definition double_quotient :: "nat \<Rightarrow> nat \<Rightarrow> nat" where
  "double_quotient a b = (let n = a * 2 ^ 87 in round53 (2 * (n div b) + (if n mod b = 0 then 0 else 1)))"

definition clampScreenShareDimensions :: "int \<Rightarrow> int \<Rightarrow> int \<times> int" where
  "clampScreenShareDimensions width height =
     (let w = normalizeEvenDimension width; h = normalizeEvenDimension height in
      if w \<le> kMaxScreenShareWidth \<and> h \<le> kMaxScreenShareHeight then (w, h)
      else
        let scale = min (double_quotient (nat kMaxScreenShareWidth) (nat w)) (double_quotient (nat kMaxScreenShareHeight) (nat h));
            scaled = (\<lambda>v. normalizeEvenDimension (int (round53 (nat v * scale) div 2 ^ 88)))
        in (min kMaxScreenShareWidth (scaled w), min kMaxScreenShareHeight (scaled h)))"

lemma normalizeEven: "even (normalizeEvenDimension v)" "2 \<le> normalizeEvenDimension v"
  by (auto simp: normalizeEvenDimension_def clear_bit0 max_def)

lemma clamped_dimensions:
  assumes "clampScreenShareDimensions width height = (w, h)"
  shows "even w" "even h" "2 \<le> w" "2 \<le> h" "w \<le> kMaxScreenShareWidth" "h \<le> kMaxScreenShareHeight"
proof -
  have m: "even (min k (normalizeEvenDimension v)) \<and> 2 \<le> min k (normalizeEvenDimension v) \<and>
      min k (normalizeEvenDimension v) \<le> k" if "even k" "2 \<le> k" for k v
    using that normalizeEven [of v] by (auto simp: min_def)
  let ?n = normalizeEvenDimension
  have "(w = ?n width \<and> h = ?n height \<and> w \<le> 2560 \<and> h \<le> 1600) \<or> (\<exists>a b. w = min 2560 (?n a) \<and> h = min 1600 (?n b))"
    using assms unfolding clampScreenShareDimensions_def Let_def kMaxScreenShareWidth_def kMaxScreenShareHeight_def
    by (simp only: prod.inject split: if_splits) blast+
  then show "even w" "even h" "2 \<le> w" "2 \<le> h" "w \<le> kMaxScreenShareWidth" "h \<le> kMaxScreenShareHeight"
    using m [of 2560] m [of 1600] normalizeEven [of width] normalizeEven [of height] by auto
qed

section \<open>Previews are complete pictures\<close>

text \<open>No colour is clamped: the weights keep every value in the range of the format.\<close>

lemma uint_u8: "0 \<le> uint (x :: u8)" "uint x \<le> 255"
  using uint_lt2p [of x] by simp_all

lemma uint_clamp: "0 \<le> v \<Longrightarrow> v \<le> 255 \<Longrightarrow> uint (clampToByte v) = v"
  by (simp add: clampToByte_def uint_word_of_int take_bit_int_eq_self)

lemma luma_range: "16 \<le> uint (lumaFromBgra b g r)" "uint (lumaFromBgra b g r) \<le> 235"
proof -
  let ?n = "66 * uint r + 129 * uint g + 25 * uint b + 128"
  have "0 \<le> ?n" "?n \<le> 220 * 255 + 128" using uint_u8 [of r] uint_u8 [of g] uint_u8 [of b] by linarith+
  then have "0 \<le> ?n div 256" "?n div 256 \<le> 219" by linarith+
  then show "16 \<le> uint (lumaFromBgra b g r)" "uint (lumaFromBgra b g r) \<le> 235"
    unfolding lumaFromBgra_def by (simp_all add: uint_clamp)
qed

lemma chroma_range:
  "16 \<le> uint (chromaUFromBgra b g r)" "uint (chromaUFromBgra b g r) \<le> 240"
  "16 \<le> uint (chromaVFromBgra b g r)" "uint (chromaVFromBgra b g r) \<le> 240"
proof -
  let ?u = "- 38 * uint r - 74 * uint g + 112 * uint b + 128" and ?v = "112 * uint r - 94 * uint g - 18 * uint b + 128"
  have "- 28432 \<le> ?u" "?u \<le> 28688" "- 28432 \<le> ?v" "?v \<le> 28688"
    using uint_u8 [of r] uint_u8 [of g] uint_u8 [of b] by linarith+
  then have "- 112 \<le> ?u div 256" "?u div 256 \<le> 112" "- 112 \<le> ?v div 256" "?v div 256 \<le> 112" by linarith+
  then show "16 \<le> uint (chromaUFromBgra b g r)" "uint (chromaUFromBgra b g r) \<le> 240"
    "16 \<le> uint (chromaVFromBgra b g r)" "uint (chromaVFromBgra b g r) \<le> 240"
    unfolding chromaUFromBgra_def chromaVFromBgra_def by (simp_all add: uint_clamp)
qed

lemma those_map_safe: "(\<And>x. x \<in> set xs \<Longrightarrow> f x \<noteq> None) \<Longrightarrow> those (map f xs) = Some (map (the \<circ> f) xs)"
  by (induction xs) (force split: option.split)+

lemma pixel_safe: "x * 4 + 2 < length row \<Longrightarrow> pixel c row x = Some (c (row ! (x * 4)) (row ! (x * 4 + 1)) (row ! (x * 4 + 2)))"
  by (simp add: pixel_def)

definition range3 :: "(u8 \<Rightarrow> u8 \<Rightarrow> u8 \<Rightarrow> u8) \<Rightarrow> u8 set" where
  "range3 c = {c b g r | b g r. True}"

lemma block_average_range:
  assumes "\<And>b g r. lo \<le> uint (c b g r)" "\<And>b g r. uint (c b g r) \<le> hi" "0 \<le> lo" "hi \<le> 255"
    and "x * 4 + 2 < length row0" "x1 * 4 + 2 < length row0" "x * 4 + 2 < length row1" "x1 * 4 + 2 < length row1"
  shows "\<exists>v. block_average c row0 row1 x x1 = Some v \<and> lo \<le> uint v \<and> uint v \<le> hi"
proof -
  have avg: "lo \<le> (uint p + uint q + uint r + uint s + 2) div 4 \<and> (uint p + uint q + uint r + uint s + 2) div 4 \<le> hi"
    if "lo \<le> uint p" "uint p \<le> hi" "lo \<le> uint q" "uint q \<le> hi" "lo \<le> uint r" "uint r \<le> hi" "lo \<le> uint s" "uint s \<le> hi"
    for p q r s :: u8 using that by linarith
  have "\<exists>p q r s. block_average c row0 row1 x x1 = Some (clampToByte ((uint p + uint q + uint r + uint s + 2) div 4)) \<and>
      p \<in> range3 c \<and> q \<in> range3 c \<and> r \<in> range3 c \<and> s \<in> range3 c"
    unfolding block_average_def pixel_safe [OF assms(5)] pixel_safe [OF assms(6)] pixel_safe [OF assms(7)]
      pixel_safe [OF assms(8)] Option.bind.bind_lunit range3_def by blast
  then obtain p q r s where v: "block_average c row0 row1 x x1 = Some (clampToByte ((uint p + uint q + uint r + uint s + 2) div 4))"
    and rng: "p \<in> range3 c" "q \<in> range3 c" "r \<in> range3 c" "s \<in> range3 c" by blast
  have "lo \<le> uint z \<and> uint z \<le> hi" if "z \<in> range3 c" for z
    using that assms(1,2) by (auto simp: range3_def)
  then have "lo \<le> (uint p + uint q + uint r + uint s + 2) div 4 \<and> (uint p + uint q + uint r + uint s + 2) div 4 \<le> hi"
    using avg rng by blast
  then show ?thesis using v assms(3,4) uint_clamp by auto
qed

lemma luma_plane_ok:
  assumes "\<And>y. y < h \<Longrightarrow> w * 4 \<le> length (rows y)"
  shows "\<exists>p. luma_plane rows w h = Some p \<and> length p = w * h \<and> (\<forall>v \<in> set p. 16 \<le> uint v \<and> uint v \<le> 235)"
proof -
  have px: "pixel lumaFromBgra (rows y) x \<noteq> None \<and> 16 \<le> uint (the (pixel lumaFromBgra (rows y) x)) \<and>
      uint (the (pixel lumaFromBgra (rows y) x)) \<le> 235" if "y < h" "x < w" for y x
    using assms [OF that(1)] that(2) by (simp add: pixel_safe luma_range)
  have "luma_plane rows w h = Some (map (the \<circ> (\<lambda>(y, x). pixel lumaFromBgra (rows y) x)) (List.product [0..<h] [0..<w]))"
    unfolding luma_plane_def by (rule those_map_safe) (use px in auto)
  then show ?thesis using px by (auto simp: mult.commute)
qed

lemma mem_concat_pairs:
  assumes "\<And>x. x \<in> set xs \<Longrightarrow> \<exists>l. f x = Some l \<and> length l = 2 \<and> set l \<subseteq> V"
  shows "\<exists>l. mem_concat f xs = Some l \<and> length l = 2 * length xs \<and> set l \<subseteq> V"
  using assms
proof (induction xs)
  case (Cons x xs)
  obtain l where "f x = Some l" "length l = 2" "set l \<subseteq> V" using Cons.prems by auto
  moreover obtain m where "mem_concat f xs = Some m" "length m = 2 * length xs" "set m \<subseteq> V"
    using Cons by force
  ultimately show ?case by auto
qed simp

lemma chroma_plane_ok:
  assumes "\<And>y. y < h \<Longrightarrow> w * 4 \<le> length (rows y)" "even w" "even h"
  shows "\<exists>p. chroma_plane rows w h = Some p \<and> length p = w * (h div 2) \<and> (\<forall>v \<in> set p. 16 \<le> uint v \<and> uint v \<le> 240)"
proof -
  let ?V = "{v :: u8. 16 \<le> uint v \<and> uint v \<le> 240}"
  have "\<exists>l. chroma_plane rows w h = Some l \<and> length l = 2 * length (List.product [0..<h div 2] [0..<w div 2]) \<and> set l \<subseteq> ?V"
    unfolding chroma_plane_def
  proof (rule mem_concat_pairs, clarify)
    fix j i assume ji: "(j, i) \<in> set (List.product [0..<h div 2] [0..<w div 2])"
    let ?x1 = "min (2 * i + 1) (w - 1)" and ?r0 = "rows (2 * j)" and ?r1 = "rows (min (2 * j + 1) (h - 1))"
    have "2 * j < h" "min (2 * j + 1) (h - 1) < h" "2 * i < w" "?x1 < w" using ji by auto
    then have r: "w * 4 \<le> length ?r0" "w * 4 \<le> length ?r1" and x: "2 * i < w" "?x1 < w" using assms(1) by auto
    have q: "k * 4 + 2 < l" if "k < w" "w * 4 \<le> l" for k l :: nat using that by linarith
    note b = q [OF x(1) r(1)] q [OF x(2) r(1)] q [OF x(1) r(2)] q [OF x(2) r(2)]
    obtain u v where "block_average chromaUFromBgra ?r0 ?r1 (2 * i) ?x1 = Some u" "16 \<le> uint u" "uint u \<le> 240"
      "block_average chromaVFromBgra ?r0 ?r1 (2 * i) ?x1 = Some v" "16 \<le> uint v" "uint v \<le> 240"
      using block_average_range [of 16 chromaUFromBgra 240, OF chroma_range(1,2) _ _ b]
        block_average_range [of 16 chromaVFromBgra 240, OF chroma_range(3,4) _ _ b] by auto
    then show "\<exists>l. (let y = 2 * j; x = 2 * i; x1 = min (x + 1) (w - 1); row0 = rows y; row1 = rows (min (y + 1) (h - 1))
       in do { u \<leftarrow> block_average chromaUFromBgra row0 row1 x x1; v \<leftarrow> block_average chromaVFromBgra row0 row1 x x1;
         Some [u, v] }) = Some l \<and> length l = 2 \<and> set l \<subseteq> ?V"
      by (auto simp: Let_def)
  qed
  moreover have "2 * (h div 2 * (w div 2)) = w * (h div 2)" using assms(2) by auto
  ultimately show ?thesis by auto
qed

lemma preview_renderable:
  assumes "0 < w" "0 < h" "even h" "length ys = nat w * nat h" "length uvs = nat w * (nat h div 2)"
    and "df_width f = w" "df_height f = h" "df_yPlane f = ys" "df_uvPlane f = uvs" "df_hardwareFrameKind f = NoHardware"
    "df_storageKind f \<noteq> HardwareStorage"
  shows "hasRenderableData f \<and> hasCpuNv12Planes f"
proof -
  have "2 \<le> h" using assms(2,3) by presburger
  then have "0 < nat w * nat h" "0 < nat w * (nat h div 2)" using assms(1,2) by auto
  then have "ys \<noteq> []" "uvs \<noteq> []" using assms(4,5) by auto
  then show ?thesis
    using assms by (cases "df_storageKind f") (auto simp: hasRenderableData_def frame_tests)
qed

text \<open>
  C17. A preview is a complete picture. Making the preview of a captured screen less than \<open>2 ^ 29\<close> pixels
  wide reads no byte outside the captured picture and no arithmetic overflows, whatever its contents; it fails exactly when the dimensions are not
  positive and even or the buffer has not exactly four bytes for each pixel. The preview has the
  dimensions and time stamp of the picture, one luma byte for each pixel and one pair of chroma
  bytes for each block of four, can be rendered, and every byte is in the range of its plane (16 to
  235, 16 to 240), so that no colour was cut off.
\<close>

theorem preview_complete:
  assumes "sf_width frame < 2 ^ 29"
  shows "\<exists>r. makeSoftwarePreviewFrame frame = Some r \<and>
     (r = None \<longleftrightarrow> \<not> (0 < sf_width frame \<and> 0 < sf_height frame \<and> even (sf_width frame) \<and> even (sf_height frame) \<and>
        length (sf_bgra frame) = nat (sf_width frame) * nat (sf_height frame) * 4)) \<and>
     (case r of None \<Rightarrow> True | Some f \<Rightarrow>
        hasRenderableData f \<and> hasCpuNv12Planes f \<and> df_width f = sf_width frame \<and> df_height f = sf_height frame \<and>
        df_pts f = sf_pts frame \<and> length (df_yPlane f) = nat (sf_width frame) * nat (sf_height frame) \<and>
        length (df_uvPlane f) = nat (sf_width frame) * (nat (sf_height frame) div 2) \<and>
        list_all (\<lambda>v. 16 \<le> uint v \<and> uint v \<le> 235) (df_yPlane f) \<and>
        list_all (\<lambda>v. 16 \<le> uint v \<and> uint v \<le> 240) (df_uvPlane f))"
proof (cases "0 < sf_width frame \<and> 0 < sf_height frame \<and> even (sf_width frame) \<and> even (sf_height frame) \<and>
    length (sf_bgra frame) = nat (sf_width frame) * nat (sf_height frame) * 4")
  case True
  define w where "w = nat (sf_width frame)"
  define h where "h = nat (sf_height frame)"
  let ?rows = "\<lambda>y. drop (y * (w * 4)) (sf_bgra frame)"
  have rows: "w * 4 \<le> length (?rows y)" if "y < h" for y
  proof -
    have "Suc y * (w * 4) \<le> h * (w * 4)" using that by (intro mult_le_mono1) simp
    then show ?thesis using True by (simp add: w_def h_def algebra_simps)
  qed
  have ev: "even w" "even h" using True by (auto simp: w_def h_def even_nat_iff)
  obtain ys where ys: "luma_plane ?rows w h = Some ys" "length ys = w * h" "\<forall>v \<in> set ys. 16 \<le> uint v \<and> uint v \<le> 235"
    using luma_plane_ok [of h w ?rows, OF rows] by auto
  obtain uvs where uvs: "chroma_plane ?rows w h = Some uvs" "length uvs = w * (h div 2)"
    "\<forall>v \<in> set uvs. 16 \<le> uint v \<and> uint v \<le> 240"
    using chroma_plane_ok [of h w ?rows, OF rows ev] by auto
  obtain f where f: "makeSoftwarePreviewFrame frame = Some (Some f)" "df_width f = sf_width frame"
    "df_height f = sf_height frame" "df_pts f = sf_pts frame" "df_yPlane f = ys" "df_uvPlane f = uvs"
    "df_hardwareFrameKind f = NoHardware" "df_storageKind f = SoftwareStorage"
    using True assms ys(1) uvs(1)
    by (auto simp: makeSoftwarePreviewFrame_def Let_def markSoftwareFrame_def w_def h_def)
  have "hasRenderableData f \<and> hasCpuNv12Planes f"
    by (rule preview_renderable [where ys = ys and uvs = uvs]) (use True f ys(2) uvs(2) in \<open>auto simp: w_def h_def\<close>)
  then show ?thesis using f ys uvs True by (auto simp: list_all_iff w_def h_def)
qed (auto simp: makeSoftwarePreviewFrame_def Let_def)

definition demo_picture :: ScreenFrame where
  "demo_picture = \<lparr> sf_width = 2, sf_height = 2, sf_pts = 5, sf_bgra = replicate 16 200, sf_nv12 = [] \<rparr>"

theorem preview_complete_witness:
  "\<exists>f. makeSoftwarePreviewFrame demo_picture = Some (Some f) \<and> hasRenderableData f \<and> length (df_yPlane f) = 4 \<and>
     length (df_uvPlane f) = 2"
  using preview_complete [of demo_picture] by (auto simp: demo_picture_def split: option.splits)

text \<open>A wider picture, with all its bytes, makes the code overflow.\<close>

lemma preview_overflows:
  assumes "sf_width frame = 2 ^ 29" "0 < sf_height frame" "even (sf_height frame)"
    "length (sf_bgra frame) = 2 ^ 29 * nat (sf_height frame) * 4"
  shows "makeSoftwarePreviewFrame frame = None"
  using assms by (simp add: makeSoftwarePreviewFrame_def)

end
