(* ===== verification/VideoSources.thy ===== *)
theory VideoSources
  imports ClientQueues H264Payload VideoFrames
begin

text \<open>
  Where the sent video comes from: the plans of what to do when a source is switched on or off
  (\<open>plasma-hawking/src/av/session/VideoSessionStateMachine.cpp\<close>,
  \<open>VideoThreadLifecycleStateMachine.cpp\<close>), the queue between the camera and the sender
  (\<open>CameraFrameRelay.cpp\<close>), the choice and the fetching of a frame (\<open>VideoSendLoopPipeline.cpp\<close>,
  \<open>VideoSendSourcePipeline.cpp\<close>), the adaptation of the encoder
  (\<open>VideoSendControlActions.cpp\<close>) and encoding into packets (\<open>VideoSendPipeline.cpp\<close>).

  A captured camera frame is any value, with a test for its validity. The queue is shared by three
  threads; each section that holds its mutex is one step, and so is each change of an atomic variable outside it. Times of the steady clock are
  nanoseconds, 0 the default time point. The encoder is a parameter.
\<close>

section \<open>Plans\<close>

datatype VideoSendSource = NoSource | Screen | Camera

record VideoToggleEnablePlan =
  en_alreadyEnabled :: bool
  en_shouldStartSendThread :: bool
  en_shouldRequestKeyFrame :: bool

record VideoToggleDisablePlan =
  di_alreadyDisabled :: bool
  di_shouldJoinSendThread :: bool
  di_shouldSetForceKeyFrame :: bool
  di_forceKeyFrameValue :: bool

definition planEnableSharing :: "bool \<Rightarrow> bool \<Rightarrow> VideoToggleEnablePlan" where
  "planEnableSharing sharingEnabled cameraSendingEnabled =
     (if sharingEnabled
      then \<lparr> en_alreadyEnabled = True, en_shouldStartSendThread = False, en_shouldRequestKeyFrame = False \<rparr>
      else \<lparr> en_alreadyEnabled = False, en_shouldStartSendThread = \<not> cameraSendingEnabled,
             en_shouldRequestKeyFrame = True \<rparr>)"

definition planEnableCamera :: "bool \<Rightarrow> bool \<Rightarrow> VideoToggleEnablePlan" where
  "planEnableCamera cameraSendingEnabled sharingEnabled =
     (if cameraSendingEnabled
      then \<lparr> en_alreadyEnabled = True, en_shouldStartSendThread = False, en_shouldRequestKeyFrame = False \<rparr>
      else \<lparr> en_alreadyEnabled = False, en_shouldStartSendThread = \<not> sharingEnabled,
             en_shouldRequestKeyFrame = \<not> sharingEnabled \<rparr>)"

definition planDisableSharing :: "bool \<Rightarrow> bool \<Rightarrow> VideoToggleDisablePlan" where
  "planDisableSharing sharingEnabled cameraSendingEnabled =
     (if \<not> sharingEnabled
      then \<lparr> di_alreadyDisabled = True, di_shouldJoinSendThread = False, di_shouldSetForceKeyFrame = False,
             di_forceKeyFrameValue = False \<rparr>
      else \<lparr> di_alreadyDisabled = False, di_shouldJoinSendThread = \<not> cameraSendingEnabled,
             di_shouldSetForceKeyFrame = True, di_forceKeyFrameValue = cameraSendingEnabled \<rparr>)"

definition planDisableCamera :: "bool \<Rightarrow> bool \<Rightarrow> VideoToggleDisablePlan" where
  "planDisableCamera cameraSendingEnabled sharingEnabled =
     (if \<not> cameraSendingEnabled
      then \<lparr> di_alreadyDisabled = True, di_shouldJoinSendThread = False, di_shouldSetForceKeyFrame = False,
             di_forceKeyFrameValue = False \<rparr>
      else \<lparr> di_alreadyDisabled = False, di_shouldJoinSendThread = \<not> sharingEnabled,
             di_shouldSetForceKeyFrame = \<not> sharingEnabled, di_forceKeyFrameValue = False \<rparr>)"

definition resolveSendSource :: "bool \<Rightarrow> bool \<Rightarrow> VideoSendSource" where
  "resolveSendSource sharingEnabled cameraSendingEnabled =
     (if sharingEnabled then Screen else if cameraSendingEnabled then Camera else NoSource)"

record VideoSessionStartPlan =
  ss_alreadyRunning :: bool
  ss_shouldStartRecvThread :: bool

record VideoSessionStopPlan =
  sp_shouldReturnEarly :: bool
  sp_shouldJoinSendBeforeCleanup :: bool
  sp_shouldJoinRecvAfterCleanup :: bool

record VideoSendThreadStartPlan =
  st_shouldStartSendThread :: bool
  st_shouldJoinExistingSendThread :: bool

definition planSessionStart :: "bool \<Rightarrow> VideoSessionStartPlan" where
  "planSessionStart running = \<lparr> ss_alreadyRunning = running, ss_shouldStartRecvThread = \<not> running \<rparr>"

definition planSessionStop :: "bool \<Rightarrow> bool \<Rightarrow> bool \<Rightarrow> VideoSessionStopPlan" where
  "planSessionStop wasRunning sendThreadJoinable recvThreadJoinable =
     \<lparr> sp_shouldReturnEarly = (\<not> wasRunning \<and> \<not> sendThreadJoinable \<and> \<not> recvThreadJoinable),
       sp_shouldJoinSendBeforeCleanup = sendThreadJoinable, sp_shouldJoinRecvAfterCleanup = recvThreadJoinable \<rparr>"

definition planSendThreadStart :: "bool \<Rightarrow> bool \<Rightarrow> VideoSendThreadStartPlan" where
  "planSendThreadStart requestStartSendThread sendThreadJoinable =
     \<lparr> st_shouldStartSendThread = requestStartSendThread,
       st_shouldJoinExistingSendThread = (requestStartSendThread \<and> sendThreadJoinable) \<rparr>"

text \<open>The plan for stopping the send thread has one member.\<close>

definition planSendThreadStop :: "bool \<Rightarrow> bool \<Rightarrow> bool" where
  "planSendThreadStop requestJoinSendThread sendThreadJoinable \<longleftrightarrow> requestJoinSendThread \<and> sendThreadJoinable"

section \<open>The camera relay\<close>

record 'f CameraFrameRelay =
  cr_width :: int
  cr_height :: int
  cr_targetFrameRate :: int
  cr_frameInterval :: int
  cr_frames :: "('f \<times> int) list"
  cr_lastAcceptedAt :: int
  cr_ptsOriginAt :: int
  cr_lastAssignedPts :: int
  cr_cameraEnabled :: bool
  cr_sharingEnabled :: bool
  cr_generation :: u64

datatype EnqueueDropReason = NoDrop | InvalidFrame | DisabledOrSharing | GenerationMismatch | Throttled | ConvertFailed

definition kCapacity :: nat where [simp]: "kCapacity = 3"

definition CameraFrameRelay_new :: "int \<Rightarrow> int \<Rightarrow> int \<Rightarrow> 'f CameraFrameRelay" where
  "CameraFrameRelay_new targetWidth targetHeight targetFrameRate =
     \<lparr> cr_width = max 2 (targetWidth AND - 2), cr_height = max 2 (targetHeight AND - 2),
       cr_targetFrameRate = max 1 targetFrameRate, cr_frameInterval = max 1 (1000 sdiv max 1 targetFrameRate),
       cr_frames = [], cr_lastAcceptedAt = 0, cr_ptsOriginAt = 0, cr_lastAssignedPts = -1,
       cr_cameraEnabled = False, cr_sharingEnabled = False, cr_generation = 0 \<rparr>"

text \<open>The lines \<open>beginCapture\<close> and \<open>setCameraEnabled\<close> share.\<close>

definition relay_clear :: "'f CameraFrameRelay \<Rightarrow> 'f CameraFrameRelay" where
  "relay_clear r = r\<lparr>cr_frames := [], cr_lastAcceptedAt := 0, cr_ptsOriginAt := 0, cr_lastAssignedPts := -1\<rparr>"

text \<open>
  Both first change an atomic variable without the mutex and then empty the queue under it; other threads may act in between.
  The two parts are named apart.
\<close>

definition relay_nextGeneration :: "'f CameraFrameRelay \<Rightarrow> 'f CameraFrameRelay" where
  "relay_nextGeneration r = r\<lparr>cr_generation := cr_generation r + 1\<rparr>"

definition relay_storeEnabled :: "bool \<Rightarrow> 'f CameraFrameRelay \<Rightarrow> 'f CameraFrameRelay" where
  "relay_storeEnabled enabled r = r\<lparr>cr_cameraEnabled := enabled\<rparr>"

definition beginCapture :: "'f CameraFrameRelay \<Rightarrow> u64 \<times> 'f CameraFrameRelay" where
  "beginCapture r =
     (let r1 = relay_nextGeneration r; nextGeneration = cr_generation r1
      in (nextGeneration, relay_clear r1))"

definition setCameraEnabled :: "bool \<Rightarrow> 'f CameraFrameRelay \<Rightarrow> 'f CameraFrameRelay" where
  "setCameraEnabled enabled r =
     (let r1 = relay_storeEnabled enabled r in if \<not> enabled then relay_clear r1 else r1)"

definition relay_invalidate :: "'f CameraFrameRelay \<Rightarrow> 'f CameraFrameRelay" where
  "relay_invalidate r = setCameraEnabled False (relay_nextGeneration r)"

definition relay_setSharingEnabled :: "bool \<Rightarrow> 'f CameraFrameRelay \<Rightarrow> 'f CameraFrameRelay" where
  "relay_setSharingEnabled enabled r = r\<lparr>cr_sharingEnabled := enabled\<rparr>"

text \<open>The three parts of \<open>enqueueFrame\<close>: the test before the lock, and the two sections that hold it.\<close>

definition enqueue_check :: "bool \<Rightarrow> u64 \<Rightarrow> 'f CameraFrameRelay \<Rightarrow> EnqueueDropReason option" where
  "enqueue_check valid expectedGeneration r =
     (if \<not> valid \<or> \<not> cr_cameraEnabled r \<or> cr_sharingEnabled r \<or> cr_generation r \<noteq> expectedGeneration
      then Some (if \<not> valid then InvalidFrame
                 else if cr_generation r \<noteq> expectedGeneration then GenerationMismatch else DisabledOrSharing)
      else None)"

definition enqueue_admit ::
  "u64 \<Rightarrow> int \<Rightarrow> EnqueueDropReason \<Rightarrow> 'f CameraFrameRelay \<Rightarrow> (bool \<times> EnqueueDropReason) \<times> 'f CameraFrameRelay" where
  "enqueue_admit expectedGeneration now dropReason r =
     (if \<not> cr_cameraEnabled r \<or> cr_sharingEnabled r \<or> cr_generation r \<noteq> expectedGeneration then ((False, dropReason), r)
      else if cr_lastAcceptedAt r \<noteq> 0 \<and> now - cr_lastAcceptedAt r < cr_frameInterval r * 1000000 then ((False, Throttled), r)
      else ((True, dropReason), r\<lparr>cr_lastAcceptedAt := now\<rparr>))"

definition enqueue_push :: "int \<Rightarrow> 'f \<Rightarrow> 'f CameraFrameRelay \<Rightarrow> 'f CameraFrameRelay" where
  "enqueue_push ptsNow frame r =
     (let origin = (if cr_ptsOriginAt r = 0 then ptsNow else cr_ptsOriginAt r);
          elapsedMs = (ptsNow - origin) sdiv 1000000;
          computedPts = (elapsedMs * cr_targetFrameRate r) sdiv 1000;
          pts = (if computedPts \<le> cr_lastAssignedPts r then cr_lastAssignedPts r + 1 else computedPts);
          frames = (if length (cr_frames r) \<ge> kCapacity then tl (cr_frames r) else cr_frames r)
      in r\<lparr>cr_ptsOriginAt := origin, cr_lastAssignedPts := pts, cr_frames := frames @ [(frame, pts)]\<rparr>)"

definition enqueue_store ::
  "u64 \<Rightarrow> int \<Rightarrow> 'f \<Rightarrow> 'f CameraFrameRelay \<Rightarrow> (bool \<times> EnqueueDropReason) \<times> 'f CameraFrameRelay" where
  "enqueue_store expectedGeneration ptsNow frame r =
     (if \<not> cr_cameraEnabled r \<or> cr_sharingEnabled r \<or> cr_generation r \<noteq> expectedGeneration
      then ((False, if cr_generation r \<noteq> expectedGeneration then GenerationMismatch else DisabledOrSharing), r)
      else ((True, NoDrop), enqueue_push ptsNow frame r))"

text \<open>The whole operation, with what other threads do between its parts.\<close>

definition enqueueFrame ::
  "('f \<Rightarrow> bool) \<Rightarrow> u64 \<Rightarrow> 'f \<Rightarrow> int \<Rightarrow> int \<Rightarrow> ('f CameraFrameRelay \<Rightarrow> 'f CameraFrameRelay) \<Rightarrow>
   ('f CameraFrameRelay \<Rightarrow> 'f CameraFrameRelay) \<Rightarrow> EnqueueDropReason \<Rightarrow> 'f CameraFrameRelay \<Rightarrow>
   (bool \<times> EnqueueDropReason) \<times> 'f CameraFrameRelay" where
  "enqueueFrame isValid expectedGeneration frame now ptsNow others1 others2 dropReason r =
     (case enqueue_check (isValid frame) expectedGeneration r of
        Some reason \<Rightarrow> ((False, reason), r)
      | None \<Rightarrow>
          let ((admitted, reason), r1) = enqueue_admit expectedGeneration now dropReason (others1 r)
          in if \<not> admitted then ((False, reason), r1)
             else enqueue_store expectedGeneration ptsNow frame (others2 r1))"

text \<open>
  The waiting part of \<open>popFrame\<close> and \<open>popFrameForEncode\<close>: each round is late (the deadline has
  passed or the wait timed out) or is woken up after changes by other threads.
\<close>

definition relay_take :: "'f CameraFrameRelay \<Rightarrow> ('f \<times> int) option \<times> 'f CameraFrameRelay" where
  "relay_take r =
     (case cr_frames r of [] \<Rightarrow> (None, r) | queued # rest \<Rightarrow> (Some queued, r\<lparr>cr_frames := rest\<rparr>))"

fun relay_popWait ::
  "(bool \<times> ('f CameraFrameRelay \<Rightarrow> 'f CameraFrameRelay)) list \<Rightarrow> 'f CameraFrameRelay \<Rightarrow>
   (('f \<times> int) option \<times> 'f CameraFrameRelay) option" where
  "relay_popWait rounds r =
     (if cr_frames r = [] \<and> cr_cameraEnabled r \<and> \<not> cr_sharingEnabled r
      then (case rounds of
          [] \<Rightarrow> None
        | (late, others) # rest \<Rightarrow> if late then Some (None, others r) else relay_popWait rest (others r))
      else Some (relay_take r))"

declare relay_popWait.simps [simp del]

section \<open>Choosing and fetching a frame\<close>

record VideoSendPipelineInputFrame =
  if_screenFrame :: ScreenFrame
  if_avFrame :: "AVFrame option"

definition ScreenFrame_new :: ScreenFrame where
  "ScreenFrame_new = \<lparr> sf_width = 0, sf_height = 0, sf_pts = 0, sf_bgra = [], sf_nv12 = [] \<rparr>"

definition VideoSendPipelineInputFrame_new :: VideoSendPipelineInputFrame where
  "VideoSendPipelineInputFrame_new = \<lparr> if_screenFrame = ScreenFrame_new, if_avFrame = None \<rparr>"

definition hasAvFrame :: "VideoSendPipelineInputFrame \<Rightarrow> bool" where
  "hasAvFrame f \<longleftrightarrow> if_avFrame f \<noteq> None"

definition hasScreenFrame :: "VideoSendPipelineInputFrame \<Rightarrow> bool" where
  "hasScreenFrame f \<longleftrightarrow> sf_bgra (if_screenFrame f) \<noteq> []"

definition hasHardwareD3D11Frame :: "VideoSendPipelineInputFrame \<Rightarrow> bool" where
  "hasHardwareD3D11Frame f \<longleftrightarrow>
     (case if_avFrame f of None \<Rightarrow> False | Some a \<Rightarrow> avf_format a = PIX_FMT_D3D11 \<and> avf_hw_frames_ctx a)"

text \<open>Which of the captures a snapshot points to; the captures themselves are elsewhere.\<close>

record VideoSendSourceSnapshot =
  sn_source :: VideoSendSource
  sn_screenCapture :: bool
  sn_cameraFallbackCapture :: bool
  sn_cameraRelay :: bool
  sn_cameraCaptureRunning :: bool
  sn_preferredCameraName :: string
  sn_sharingEnabled :: bool
  sn_cameraSendingEnabled :: bool

record VideoSendLoopState =
  ls_source :: VideoSendSource
  ls_sharingEnabled :: bool
  ls_cameraSendingEnabled :: bool
  ls_screenCapture :: bool
  ls_cameraFallbackCapture :: bool
  ls_cameraRelay :: bool
  ls_cameraCaptureRunning :: bool
  ls_preferredCameraName :: string
  ls_peerReady :: bool

text \<open>The snapshot and whether the peer is ready.\<close>

definition makeSnapshot :: "VideoSendLoopState \<Rightarrow> VideoSendSourceSnapshot \<times> bool" where
  "makeSnapshot state =
     (let sn = \<lparr> sn_source = ls_source state, sn_screenCapture = False, sn_cameraFallbackCapture = False,
                 sn_cameraRelay = False, sn_cameraCaptureRunning = False, sn_preferredCameraName = [],
                 sn_sharingEnabled = ls_sharingEnabled state, sn_cameraSendingEnabled = ls_cameraSendingEnabled state \<rparr>
      in (case ls_source state of
            Screen \<Rightarrow> sn\<lparr>sn_screenCapture := ls_screenCapture state\<rparr>
          | NoSource \<Rightarrow> sn
          | Camera \<Rightarrow>
              (if ls_cameraCaptureRunning state
               then sn\<lparr>sn_cameraRelay := ls_cameraRelay state, sn_cameraCaptureRunning := True\<rparr>
               else sn\<lparr>sn_cameraFallbackCapture := ls_cameraFallbackCapture state\<rparr>)
              \<lparr>sn_preferredCameraName := ls_preferredCameraName state\<rparr>, ls_peerReady state))"

record CameraFrameTimeoutState =
  ct_timeoutReported :: bool
  ct_waitStartedAtMs :: u64

definition CameraFrameTimeoutState_new :: CameraFrameTimeoutState where
  "CameraFrameTimeoutState_new = \<lparr> ct_timeoutReported = False, ct_waitStartedAtMs = 0 \<rparr>"

definition shouldReportCameraFrameTimeout ::
  "u64 \<Rightarrow> u64 \<Rightarrow> CameraFrameTimeoutState \<Rightarrow> bool \<times> CameraFrameTimeoutState" where
  "shouldReportCameraFrameTimeout nowMs timeoutMs state =
     (if ct_waitStartedAtMs state = 0 then (False, state\<lparr>ct_waitStartedAtMs := nowMs\<rparr>)
      else if ct_timeoutReported state then (False, state)
      else if nowMs - ct_waitStartedAtMs state < timeoutMs then (False, state)
      else (True, state\<lparr>ct_timeoutReported := True\<rparr>))"

definition resetCameraFrameTimeout :: "CameraFrameTimeoutState \<Rightarrow> CameraFrameTimeoutState" where
  "resetCameraFrameTimeout state = state\<lparr>ct_timeoutReported := False, ct_waitStartedAtMs := 0\<rparr>"

definition kCameraFrameWarnTimeoutMs :: u64 where [simp]: "kCameraFrameWarnTimeoutMs = 2000"
definition kCameraFrameAbortTimeoutMs :: u64 where [simp]: "kCameraFrameAbortTimeoutMs = 3000"

datatype VideoSendFrameFetchResult = FetchReady | FetchRetry | FetchAbort

definition camera_details :: "VideoSendSourceSnapshot \<Rightarrow> string" where
  "camera_details sn =
     '' capture_running='' @ (if sn_cameraCaptureRunning sn then ''1'' else ''0'') @
     '' fallback='' @ (if sn_cameraFallbackCapture sn then ''1'' else ''0'') @
     '' preferred='' @ (if sn_preferredCameraName sn = [] then ''<default>'' else sn_preferredCameraName sn)"

text \<open>
  \<open>pullFrame\<close>. What the capture of the source gave within the time, if anything: \<open>screenPop\<close>,
  \<open>relayPop\<close>, \<open>fallbackPop\<close>; the time read after waiting for the relay in vain: \<open>nowMs\<close>. The results are
  the outcome, the frame, the status message and the new state of the timeout.
\<close>

definition pullFrame ::
  "VideoSendSourceSnapshot \<Rightarrow> ScreenFrame option \<Rightarrow> VideoSendPipelineInputFrame option \<Rightarrow> ScreenFrame option \<Rightarrow> u64 \<Rightarrow>
   CameraFrameTimeoutState \<Rightarrow> VideoSendFrameFetchResult \<times> VideoSendPipelineInputFrame \<times> string \<times> CameraFrameTimeoutState" where
  "pullFrame sn screenPop relayPop fallbackPop nowMs timeoutState =
     (let empty = VideoSendPipelineInputFrame_new in
      case sn_source sn of
        Screen \<Rightarrow>
          (if \<not> sn_screenCapture sn then (FetchRetry, empty, [], timeoutState)
           else case screenPop of
             None \<Rightarrow> (FetchRetry, empty, [], timeoutState)
           | Some f \<Rightarrow> (if sn_sharingEnabled sn then FetchReady else FetchRetry, empty\<lparr>if_screenFrame := f\<rparr>, [], timeoutState))
      | Camera \<Rightarrow>
          (let given = (if sn_sharingEnabled sn \<or> \<not> sn_cameraSendingEnabled sn then FetchRetry else FetchReady) in
           if sn_cameraRelay sn then
             (case relayPop of
                None \<Rightarrow>
                  let (report, state) = shouldReportCameraFrameTimeout nowMs kCameraFrameWarnTimeoutMs timeoutState;
                      status = (if report then ''Video camera frame timeout:'' @ camera_details sn else [])
                  in if ct_waitStartedAtMs state \<noteq> 0 \<and> nowMs - ct_waitStartedAtMs state \<ge> kCameraFrameAbortTimeoutMs
                     then (FetchAbort, empty, ''camera capture produced no frames:'' @ camera_details sn, state)
                     else (FetchRetry, empty, status, state)
              | Some f \<Rightarrow> (given, f, [], resetCameraFrameTimeout timeoutState))
           else if sn_cameraFallbackCapture sn then
             (case fallbackPop of
                None \<Rightarrow> (FetchRetry, empty, [], timeoutState)
              | Some f \<Rightarrow> (given, empty\<lparr>if_screenFrame := f\<rparr>, [], resetCameraFrameTimeout timeoutState))
           else (FetchAbort, empty, [], timeoutState))
      | NoSource \<Rightarrow> (FetchAbort, empty, [], timeoutState))"

section \<open>The encoder\<close>

datatype VideoEncoderPreset = Realtime | Balanced | Quality

text \<open>
  The encoder: its properties, \<open>ve_configure\<close> (with the hardware flag) and \<open>ve_setBitrate\<close> with their
  results, requests, and encoding of a picture, which gives a frame or an error text.
\<close>

record 'e video_encoder =
  ve_width :: "'e \<Rightarrow> int"
  ve_height :: "'e \<Rightarrow> int"
  ve_frameRate :: "'e \<Rightarrow> int"
  ve_bitrate :: "'e \<Rightarrow> int"
  ve_configure :: "bool \<Rightarrow> int \<Rightarrow> int \<Rightarrow> int \<Rightarrow> int \<Rightarrow> u8 \<Rightarrow> VideoEncoderPreset \<Rightarrow> 'e \<Rightarrow> bool \<times> 'e"
  ve_setBitrate :: "int \<Rightarrow> 'e \<Rightarrow> bool \<times> 'e"
  ve_setPayloadType :: "u8 \<Rightarrow> 'e \<Rightarrow> 'e"
  ve_requestKeyframe :: "'e \<Rightarrow> 'e"
  ve_encode :: "ScreenFrame + AVFrame \<Rightarrow> 'e \<Rightarrow> (string + EncodedVideoFrame) \<times> 'e"

text \<open>The counters and rates the send thread shares with the session.\<close>

record send_stats =
  ks_keyframeRequestCount :: u64
  ks_retransmitPacketCount :: u64
  ks_bitrateReconfigureCount :: u64
  ks_targetBitrateBps :: u32
  ks_appliedBitrateBps :: u32
  ks_lastBitrateApplyDelayMs :: u32
  ks_targetBitrateUpdatedAtMs :: u64

definition storeApplyDelay :: "u64 \<Rightarrow> send_stats \<Rightarrow> send_stats" where
  "storeApplyDelay nowMs k =
     (if ks_targetBitrateUpdatedAtMs k = 0 \<or> nowMs < ks_targetBitrateUpdatedAtMs k then k
      else
        let delayMs = nowMs - ks_targetBitrateUpdatedAtMs k
        in k\<lparr>ks_lastBitrateApplyDelayMs := (if delayMs > 0xFFFFFFFF then 0xFFFFFFFF else ucast delayMs)\<rparr>)"

text \<open>A conversion of an unsigned 32-bit value to \<open>int\<close>.\<close>

definition int_of_u32 :: "u32 \<Rightarrow> int" where
  "int_of_u32 w = sint (w :: 32 word)"

text \<open>The lines after the encoder took a new rate.\<close>

definition rate_applied :: "'e video_encoder \<Rightarrow> u64 \<Rightarrow> 'e \<Rightarrow> send_stats \<Rightarrow> send_stats" where
  "rate_applied ve nowMs e k =
     storeApplyDelay nowMs
       (k\<lparr>ks_appliedBitrateBps := word_of_int (ve_bitrate ve e),
          ks_bitrateReconfigureCount := ks_bitrateReconfigureCount k + 1\<rparr>)"

definition maybeApplyTargetBitrate ::
  "'e video_encoder \<Rightarrow> u64 \<Rightarrow> 'e \<Rightarrow> send_stats \<Rightarrow> string option \<times> 'e \<times> send_stats" where
  "maybeApplyTargetBitrate ve nowMs e k =
     (let targetBitrate = ks_targetBitrateBps k in
      if targetBitrate < 100000 \<or> int_of_u32 targetBitrate = ve_bitrate ve e then (None, e, k)
      else
        let (ok, e1) = ve_setBitrate ve (int_of_u32 targetBitrate) e
        in if \<not> ok then (Some ''video encoder bitrate update failed'', e1, k)
           else (None, e1, rate_applied ve nowMs e1 k))"

definition maybeApplyAdaptiveEncoderProfile ::
  "'e video_encoder \<Rightarrow> int \<Rightarrow> int \<Rightarrow> int \<Rightarrow> u32 \<Rightarrow> u8 \<Rightarrow> VideoEncoderPreset \<Rightarrow> VideoPipelineProfile \<Rightarrow> u64 \<Rightarrow> 'e \<Rightarrow>
   send_stats \<Rightarrow> string option \<times> 'e \<times> send_stats" where
  "maybeApplyAdaptiveEncoderProfile ve width height frameRate targetBitrateBps payloadType preset profile nowMs e k =
     (let targetWidth = normalizeEvenDimension width;
          targetHeight = normalizeEvenDimension height;
          targetFrameRate = max 1 frameRate;
          boundedBitrate = max 100000 targetBitrateBps
      in if ve_width ve e = targetWidth \<and> ve_height ve e = targetHeight \<and> ve_frameRate ve e = targetFrameRate
         then if int_of_u32 boundedBitrate = ve_bitrate ve e then (None, e, k)
              else
                let (ok, e1) = ve_setBitrate ve (int_of_u32 boundedBitrate) e
                in if \<not> ok then (Some ''video encoder bitrate update failed'', e1, k)
                   else (None, e1, rate_applied ve nowMs e1 k)
         else
           let (configured, e1) = ve_configure ve (isHardwareE2E profile) targetWidth targetHeight targetFrameRate
                 (int_of_u32 boundedBitrate) payloadType preset e
           in if \<not> configured
              then (Some (if isHardwareE2E profile then ''video hardware encoder adaptive profile reconfigure failed''
                          else ''video encoder adaptive profile reconfigure failed''), e1, k)
              else
                let e2 = ve_requestKeyframe ve e1 in (None, e2, rate_applied ve nowMs e2 k))"

text \<open>\<open>scaleAvFrame\<close> and \<open>scaleScreenFrame\<close> scale with libswscale and Qt: parameters, \<open>None\<close> for a failure.\<close>

definition adaptVideoSendInputFrame ::
  "(int \<Rightarrow> int \<Rightarrow> AVFrame \<Rightarrow> AVFrame option) \<Rightarrow> (int \<Rightarrow> int \<Rightarrow> ScreenFrame \<Rightarrow> ScreenFrame option) \<Rightarrow> bool \<Rightarrow> int \<Rightarrow> int \<Rightarrow>
   VideoPipelineProfile \<Rightarrow> VideoSendPipelineInputFrame \<Rightarrow> string option \<times> bool \<times> VideoSendPipelineInputFrame" where
  "adaptVideoSendInputFrame scaleAvFrame scaleScreenFrame cloned width height profile f =
     (let targetWidth = normalizeEvenDimension width;
          targetHeight = normalizeEvenDimension height;
          empty = VideoSendPipelineInputFrame_new
      in if isHardwareE2E profile then
           (let sameAvFrameSize = (case if_avFrame f of None \<Rightarrow> False
                  | Some a \<Rightarrow> avf_width a = targetWidth \<and> avf_height a = targetHeight);
                sameScreenFrameSize = (hasScreenFrame f \<and> sf_width (if_screenFrame f) = targetWidth \<and>
                  sf_height (if_screenFrame f) = targetHeight)
            in if \<not> sameAvFrameSize \<and> \<not> sameScreenFrameSize
               then (Some ''hardware video pipeline forbids CPU scaling'', False, empty)
               else if hasAvFrame f
               then if \<not> cloned then (Some ''hardware video pipeline input clone failed'', False, empty)
                    else (None, True, empty\<lparr>if_avFrame := if_avFrame f\<rparr>)
               else (None, hasScreenFrame f, empty\<lparr>if_screenFrame := if_screenFrame f\<rparr>))
         else case if_avFrame f of
           Some a \<Rightarrow>
             (case scaleAvFrame targetWidth targetHeight a of
                None \<Rightarrow> (Some ''video adaptive AVFrame scale failed'', False, empty)
              | Some b \<Rightarrow> (None, True, empty\<lparr>if_avFrame := Some b\<rparr>))
         | None \<Rightarrow>
             if hasScreenFrame f then
               (case scaleScreenFrame targetWidth targetHeight (if_screenFrame f) of
                  None \<Rightarrow> (Some ''video adaptive screen frame scale failed'', False, empty)
                | Some g \<Rightarrow> (None, True, empty\<lparr>if_screenFrame := g\<rparr>))
             else (Some ''empty video send input frame'', False, empty))"

section \<open>Encoding into packets\<close>

record VideoSendPipelineConfig =
  pc_frameRate :: int
  pc_maxPayloadBytes :: nat
  pc_profile :: VideoPipelineProfile

text \<open>The common end of the two overloads for a picture: the packets and whether it is a key frame, or an error text.\<close>

definition encode_picture ::
  "'e video_encoder \<Rightarrow> VideoSendPipelineConfig \<Rightarrow> ScreenFrame + AVFrame \<Rightarrow> u8 \<Rightarrow> bool \<Rightarrow> 'e \<Rightarrow> RTPSender \<Rightarrow>
   (string + VideoSendPipelinePacket list) \<times> bool \<times> 'e \<times> RTPSender" where
  "encode_picture ve cfg picture payloadType forceKeyFrame e sender =
     (let e1 = ve_setPayloadType ve payloadType e;
          e2 = (if forceKeyFrame then ve_requestKeyframe ve e1 else e1)
      in case ve_encode ve picture e2 of
           (Inl encodeError, e3) \<Rightarrow> (Inl encodeError, False, e3, sender)
         | (Inr encoded, e3) \<Rightarrow>
             let (packets, sender1) = packetizeEncodedFrame encoded (pc_frameRate cfg) (pc_maxPayloadBytes cfg) sender
             in (packets, ef_keyFrame encoded, e3, sender1))"

definition encode_screen ::
  "'e video_encoder \<Rightarrow> VideoSendPipelineConfig \<Rightarrow> ScreenFrame \<Rightarrow> u8 \<Rightarrow> bool \<Rightarrow> 'e \<Rightarrow> RTPSender \<Rightarrow>
   (string + VideoSendPipelinePacket list) \<times> bool \<times> 'e \<times> RTPSender" where
  "encode_screen ve cfg frame payloadType forceKeyFrame e sender =
     (if isHardwareE2E (pc_profile cfg)
      then (Inl ''hardware video pipeline requires GPU capture/encoder input; screen frame path is software-only'',
            False, e, sender)
      else encode_picture ve cfg (Inl frame) payloadType forceKeyFrame e sender)"

definition encode_avFrame ::
  "'e video_encoder \<Rightarrow> VideoSendPipelineConfig \<Rightarrow> AVFrame \<Rightarrow> u8 \<Rightarrow> bool \<Rightarrow> 'e \<Rightarrow> RTPSender \<Rightarrow>
   (string + VideoSendPipelinePacket list) \<times> bool \<times> 'e \<times> RTPSender" where
  "encode_avFrame ve cfg frame payloadType forceKeyFrame e sender =
     (if isHardwareE2E (pc_profile cfg) \<and> (avf_format frame \<noteq> PIX_FMT_D3D11 \<or> \<not> avf_hw_frames_ctx frame)
      then (Inl ''hardware video pipeline requires D3D11 GPU AVFrame input; software AVFrame path is disabled'',
            False, e, sender)
      else encode_picture ve cfg (Inr frame) payloadType forceKeyFrame e sender)"

definition encodeAndPacketize ::
  "'e video_encoder \<Rightarrow> VideoSendPipelineConfig \<Rightarrow> VideoSendPipelineInputFrame \<Rightarrow> u8 \<Rightarrow> bool \<Rightarrow> 'e \<Rightarrow> RTPSender \<Rightarrow>
   (string + VideoSendPipelinePacket list) \<times> bool \<times> 'e \<times> RTPSender" where
  "encodeAndPacketize ve cfg inputFrame payloadType forceKeyFrame e sender =
     (case if_avFrame inputFrame of
        Some a \<Rightarrow>
          if isHardwareE2E (pc_profile cfg) \<and> \<not> hasHardwareD3D11Frame inputFrame
          then (Inl ''hardware video pipeline requires D3D11 GPU AVFrame input; CPU AVFrame input disabled'', False, e, sender)
          else encode_avFrame ve cfg a payloadType forceKeyFrame e sender
      | None \<Rightarrow>
          if hasScreenFrame inputFrame then
            if isHardwareE2E (pc_profile cfg)
            then (Inl ''hardware video pipeline requires GPU capture/encoder input; CPU screen frame input disabled'',
                  False, e, sender)
            else encode_screen ve cfg (if_screenFrame inputFrame) payloadType forceKeyFrame e sender
          else (Inl ''empty video send input frame'', False, e, sender))"

section \<open>What the relay hands out\<close>

text \<open>
  The steps of the threads on a relay. The generation and the two flags are atomic variables that are changed without
  the mutex (\<open>flag_step\<close>); the number that goes with the relay counts the operations that have changed the generation or
  switched the camera off and have not yet emptied the queue, and \<open>invalidate\<close> does both and empties it once.
\<close>

inductive flag_step :: "nat \<times> 'f CameraFrameRelay \<Rightarrow> nat \<times> 'f CameraFrameRelay \<Rightarrow> bool" where
  generation: "flag_step (pending, r) (Suc pending, relay_nextGeneration r)"
| off: "flag_step (pending, r) (Suc pending, relay_storeEnabled False r)"
| off_too: "flag_step (Suc pending, r) (Suc pending, relay_storeEnabled False r)"
| on: "flag_step (pending, r) (pending, relay_storeEnabled True r)"
| sharing: "flag_step (pending, r) (pending, relay_setSharingEnabled enabled r)"

text \<open>
  The sections that hold the mutex: emptying the queue, admitting a picture, storing it and taking one. Storing loads
  the three variables one after the other before it changes the queue, and any of them may be changed in
  between: the section works with the values it loaded
  (\<open>with_flags\<close>). The list is what was handed out since the queue was last emptied. A picture belongs to the capture whose
  generation \<open>origin\<close> gives; the callback of a capture passes on the generation it was created with.
\<close>

definition with_flags :: "'f CameraFrameRelay \<Rightarrow> 'f CameraFrameRelay \<Rightarrow> 'f CameraFrameRelay \<Rightarrow> 'f CameraFrameRelay \<Rightarrow> 'f CameraFrameRelay" where
  "with_flags camera sharing generation r =
     r\<lparr>cr_cameraEnabled := cr_cameraEnabled camera, cr_sharingEnabled := cr_sharingEnabled sharing,
       cr_generation := cr_generation generation\<rparr>"

type_synonym 'f relay_run = "nat \<times> ('f \<times> int) list \<times> 'f CameraFrameRelay"

inductive relay_step :: "('f \<Rightarrow> u64) \<Rightarrow> 'f relay_run \<Rightarrow> 'f relay_run \<Rightarrow> bool" for origin where
  flag: "flag_step (pending, r) (pending', r') \<Longrightarrow> relay_step origin (pending, taken, r) (pending', taken, r')"
| clear: "relay_step origin (Suc pending, taken, r) (pending, [], relay_clear r)"
| admit: "enqueue_admit g now reason r = (ok, r') \<Longrightarrow> relay_step origin (pending, taken, r) (pending, taken, r')"
| store: "flag_step\<^sup>*\<^sup>* (pending, r) (pending1, r1) \<Longrightarrow> flag_step\<^sup>*\<^sup>* (pending1, r1) (pending2, r2) \<Longrightarrow>
    flag_step\<^sup>*\<^sup>* (pending2, r2) (pending', r') \<Longrightarrow>
    enqueue_store (origin f) ptsNow f (with_flags r r1 r2 r') = (ok, q) \<Longrightarrow>
    relay_step origin (pending, taken, r) (pending', taken, with_flags r' r' r' q)"
| take: "relay_take r = (Some x, r') \<Longrightarrow> relay_step origin (pending, taken, r) (pending, taken @ [x], r')"

definition relay_inv :: "('f \<Rightarrow> u64) \<Rightarrow> 'f relay_run \<Rightarrow> bool" where
  "relay_inv origin = (\<lambda>(pending, taken, r).
     length (cr_frames r) \<le> 3 \<and> sorted_wrt (<) (map snd (taken @ cr_frames r)) \<and> - 1 \<le> cr_lastAssignedPts r \<and>
     (\<forall>x \<in> set (taken @ cr_frames r). 0 \<le> snd x \<and> snd x \<le> cr_lastAssignedPts r) \<and>
     (pending = 0 \<longrightarrow> (\<forall>x \<in> set (taken @ cr_frames r). origin (fst x) = cr_generation r) \<and>
        (cr_frames r \<noteq> [] \<longrightarrow> cr_cameraEnabled r)))"

lemma relay_inv_cleared: "relay_inv origin (pending, [], relay_clear r)"
  by (simp add: relay_inv_def relay_clear_def)

lemma flag_inv: "flag_step x y \<Longrightarrow> relay_inv origin (fst x, taken, snd x) \<Longrightarrow> relay_inv origin (fst y, taken, snd y)"
  by (induction rule: flag_step.induct)
    (auto simp: relay_inv_def relay_nextGeneration_def relay_storeEnabled_def relay_setSharingEnabled_def)

lemma flags_inv: "flag_step\<^sup>*\<^sup>* x y \<Longrightarrow> relay_inv origin (fst x, taken, snd x) \<Longrightarrow> relay_inv origin (fst y, taken, snd y)"
  by (induction rule: rtranclp_induct) (auto intro: flag_inv)

text \<open>If nothing is pending at the end, nothing was in between, and the generation and the camera are as before.\<close>

lemma flag_pending:
  "flag_step x y \<Longrightarrow> fst y = 0 \<Longrightarrow>
     fst x = 0 \<and> cr_generation (snd y) = cr_generation (snd x) \<and> (cr_cameraEnabled (snd x) \<longrightarrow> cr_cameraEnabled (snd y))"
  by (induction rule: flag_step.induct) (auto simp: relay_storeEnabled_def relay_setSharingEnabled_def)

lemma flags_pending:
  "flag_step\<^sup>*\<^sup>* x y \<Longrightarrow> fst y = 0 \<Longrightarrow>
     fst x = 0 \<and> cr_generation (snd y) = cr_generation (snd x) \<and> (cr_cameraEnabled (snd x) \<longrightarrow> cr_cameraEnabled (snd y))"
  by (induction rule: rtranclp_induct) (auto dest: flag_pending)

lemma with_flags_again [simp]: "with_flags r r r (with_flags a b c r) = r"
  by (simp add: with_flags_def)

lemma push_with_flags: "with_flags r r r (enqueue_push ptsNow f (with_flags a b c r)) = enqueue_push ptsNow f r"
  by (simp add: with_flags_def enqueue_push_def Let_def)

lemma sorted_drop_middle: "sorted_wrt P (xs @ x # ys) \<Longrightarrow> sorted_wrt P (xs @ ys)"
  by (simp add: sorted_wrt_append)

lemma relay_push_inv:
  assumes "relay_inv origin (pending, taken, r)"
    and "pending = 0 \<Longrightarrow> cr_cameraEnabled r \<and> cr_generation r = origin f"
  shows "relay_inv origin (pending, taken, enqueue_push ptsNow f r)"
proof -
  define frames where "frames = (if length (cr_frames r) \<ge> kCapacity then tl (cr_frames r) else cr_frames r)"
  define og where "og = (if cr_ptsOriginAt r = 0 then ptsNow else cr_ptsOriginAt r)"
  define computed where "computed = ((ptsNow - og) sdiv 1000000 * cr_targetFrameRate r) sdiv 1000"
  define pts where "pts = (if computed \<le> cr_lastAssignedPts r then cr_lastAssignedPts r + 1 else computed)"
  have r': "enqueue_push ptsNow f r = r\<lparr>cr_ptsOriginAt := og, cr_lastAssignedPts := pts, cr_frames := frames @ [(f, pts)]\<rparr>"
    unfolding enqueue_push_def Let_def og_def [symmetric] computed_def [symmetric] pts_def [symmetric] frames_def [symmetric]
    by simp
  have pts: "cr_lastAssignedPts r < pts" by (simp add: pts_def)
  have "length frames \<le> 2" using assms(1) by (cases "cr_frames r") (auto simp: frames_def relay_inv_def)
  moreover have sub: "set frames \<subseteq> set (cr_frames r)" by (cases "cr_frames r") (auto simp: frames_def)
  moreover have so: "sorted_wrt (<) (map snd (taken @ frames))"
    using assms(1) sorted_drop_middle [of "(<)" "map snd taken" "snd (hd (cr_frames r))" "map snd (tl (cr_frames r))"]
    by (cases "cr_frames r") (auto simp: frames_def relay_inv_def)
  moreover have all: "\<forall>x \<in> set (taken @ frames). 0 \<le> snd x \<and> snd x < pts" "0 \<le> pts"
  proof -
    have "\<forall>x \<in> set (taken @ cr_frames r). 0 \<le> snd x \<and> snd x \<le> cr_lastAssignedPts r" "- 1 \<le> cr_lastAssignedPts r"
      using assms(1) by (simp_all add: relay_inv_def)
    then show "\<forall>x \<in> set (taken @ frames). 0 \<le> snd x \<and> snd x < pts" "0 \<le> pts"
      using pts sub by (force simp del: set_append simp: set_append)+
  qed
  moreover have "sorted_wrt (<) (map snd (taken @ frames @ [(f, pts)]))"
    using so all(1) by (simp add: sorted_wrt_append)
  moreover have "\<forall>x \<in> set (taken @ frames). origin (fst x) = origin f" if "pending = 0"
  proof
    fix x assume "x \<in> set (taken @ frames)"
    then have "x \<in> set (taken @ cr_frames r)" using sub by auto
    then show "origin (fst x) = origin f" using assms that by (simp add: relay_inv_def)
  qed
  ultimately show ?thesis
    using assms(2) by (simp add: relay_inv_def r' ball_Un less_imp_le)
qed

lemma relay_step_inv: "relay_step origin s s' \<Longrightarrow> relay_inv origin s \<Longrightarrow> relay_inv origin s'"
proof (induction rule: relay_step.induct)
  case (flag pending r pending' r' taken)
  then show ?case using flag_inv [of "(pending, r)" "(pending', r')"] by simp
next
  case (clear pending taken r)
  show ?case by (rule relay_inv_cleared)
next
  case (admit g now reason r ok r' pending taken)
  then have "r' = r \<or> r' = r\<lparr>cr_lastAcceptedAt := now\<rparr>" by (auto simp: enqueue_admit_def split: if_splits)
  then show ?case using admit by (elim disjE) (simp_all add: relay_inv_def)
next
  case (store pending r pending1 r1 pending2 r2 pending' r' f ptsNow ok q taken)
  have "flag_step\<^sup>*\<^sup>* (pending, r) (pending', r')" using store.hyps(1-3) by (meson rtranclp_trans)
  then have inv: "relay_inv origin (pending', taken, r')"
    using flags_inv [of "(pending, r)" "(pending', r')"] store.prems by simp
  show ?case
  proof (cases "\<not> cr_cameraEnabled r \<or> cr_sharingEnabled r1 \<or> cr_generation r2 \<noteq> origin f")
    case True
    then have "q = with_flags r r1 r2 r'" using store.hyps(4) by (auto simp: enqueue_store_def with_flags_def split: if_splits)
    then show ?thesis using inv by (simp add: with_flags_again)
  next
    case False
    then have "q = enqueue_push ptsNow f (with_flags r r1 r2 r')"
      using store.hyps(4) by (auto simp: enqueue_store_def with_flags_def split: if_splits)
    moreover have "cr_cameraEnabled r' \<and> cr_generation r' = origin f" if "pending' = 0"
      using flags_pending [OF store.hyps(1)] flags_pending [OF store.hyps(2)] flags_pending [OF store.hyps(3)] False that by simp
    ultimately show ?thesis using relay_push_inv [OF inv] by (simp add: push_with_flags)
  qed
next
  case (take r x r' pending taken)
  then obtain rest where "cr_frames r = x # rest" "r' = r\<lparr>cr_frames := rest\<rparr>"
    by (auto simp: relay_take_def split: list.splits)
  then show ?case using take.prems by (simp add: relay_inv_def)
qed

lemma relay_inv_new: "relay_inv origin (0, [], CameraFrameRelay_new w h fps)"
  by (simp add: relay_inv_def CameraFrameRelay_new_def)

interpretation relay: state_machine "\<lambda>s. \<exists>w h fps. s = (0, [], CameraFrameRelay_new w h fps)" "relay_step origin" "relay_inv origin"
  for origin
  by unfold_locales (auto simp: relay_inv_new intro: relay_step_inv)

lemma relay_reachable_inv:
  "(relay_step origin)\<^sup>*\<^sup>* (0, [], CameraFrameRelay_new w h fps) s \<Longrightarrow> relay_inv origin s"
  by (rule relay.reachable_inv) blast+

text \<open>
  Every operation is made of such steps, with whatever the other threads do between its parts.
\<close>

lemma beginCapture_steps:
  assumes "(relay_step origin)\<^sup>*\<^sup>* (Suc pending, taken, relay_nextGeneration r) (Suc pending', taken', r')"
  shows "(relay_step origin)\<^sup>*\<^sup>* (pending, taken, r) (pending', [], relay_clear r')"
  using relay_step.flag [OF flag_step.generation] assms relay_step.clear
  by (meson converse_rtranclp_into_rtranclp rtranclp.rtrancl_into_rtrancl)

lemma camera_off_steps:
  assumes "(relay_step origin)\<^sup>*\<^sup>* (Suc pending, taken, relay_storeEnabled False r) (Suc pending', taken', r')"
  shows "(relay_step origin)\<^sup>*\<^sup>* (pending, taken, r) (pending', [], relay_clear r')"
  using relay_step.flag [OF flag_step.off] assms relay_step.clear
  by (meson converse_rtranclp_into_rtranclp rtranclp.rtrancl_into_rtrancl)

lemma invalidate_steps:
  assumes "(relay_step origin)\<^sup>*\<^sup>* (Suc pending, taken, relay_nextGeneration r) (Suc pending1, taken1, r1)"
    and "(relay_step origin)\<^sup>*\<^sup>* (Suc pending1, taken1, relay_storeEnabled False r1) (Suc pending', taken', r')"
  shows "(relay_step origin)\<^sup>*\<^sup>* (pending, taken, r) (pending', [], relay_clear r')"
proof -
  have "(relay_step origin)\<^sup>*\<^sup>* (Suc pending, taken, relay_nextGeneration r) (Suc pending1, taken1, relay_storeEnabled False r1)"
    using assms(1) relay_step.flag [OF flag_step.off_too] by (rule rtranclp.rtrancl_into_rtrancl)
  then show ?thesis using assms(2) by (intro beginCapture_steps) (rule rtranclp_trans)
qed

lemma store_undisturbed:
  assumes "enqueue_store (origin f) ptsNow f r = (ok, r')"
  shows "relay_step origin (pending, taken, r) (pending, taken, r')"
proof -
  have "with_flags r r r r = r" by (simp add: with_flags_def)
  moreover have "with_flags r r r r' = r'"
    using assms by (auto simp: enqueue_store_def enqueue_push_def with_flags_def Let_def split: if_splits)
  ultimately show ?thesis
    using relay_step.store [of pending r pending r pending r pending r origin f ptsNow ok r' taken] assms by simp
qed

lemma enqueueFrame_steps:
  assumes "enqueueFrame isValid (origin f) f now ptsNow others1 others2 reason r = (ok, r')"
    and "\<And>s. (relay_step origin)\<^sup>*\<^sup>* (pending, taken, s) (pending, taken, others1 s)"
    and "\<And>s. (relay_step origin)\<^sup>*\<^sup>* (pending, taken, s) (pending, taken, others2 s)"
  shows "(relay_step origin)\<^sup>*\<^sup>* (pending, taken, r) (pending, taken, r')"
proof (cases "enqueue_check (isValid f) (origin f) r")
  case None
  obtain ok1 r1 where a: "enqueue_admit (origin f) now reason (others1 r) = (ok1, r1)" by fastforce
  obtain ok2 r2 where b: "enqueue_store (origin f) ptsNow f (others2 r1) = (ok2, r2)" by fastforce
  have s1: "(relay_step origin)\<^sup>*\<^sup>* (pending, taken, r) (pending, taken, r1)"
    using assms(2) [of r] relay_step.admit [OF a] by (rule rtranclp.rtrancl_into_rtrancl)
  have s2: "(relay_step origin)\<^sup>*\<^sup>* (pending, taken, r1) (pending, taken, r2)"
    using assms(3) [of r1] store_undisturbed [where origin = origin and f = f, OF b] by (rule rtranclp.rtrancl_into_rtrancl)
  have "r' = r1 \<or> r' = r2"
    using assms(1) None a b by (auto simp: enqueueFrame_def split: prod.splits if_splits)
  then show ?thesis using s1 rtranclp_trans [OF s1 s2] by auto
qed (use assms(1) in \<open>auto simp: enqueueFrame_def\<close>)

section \<open>Properties\<close>

text \<open>
  C5. The camera queue hands out current pictures, in order. Whatever the threads do, in whatever order, an operation's
  change of an atomic variable and its emptying of the queue being separate steps: at most three
  pictures wait, and the time stamps of the pictures handed out and waiting since the queue was last
  emptied strictly increase, from 0 on. And whenever no operation is between its change and its emptying, all these pictures come from the
  current capture, so that no picture of a camera that was switched off or changed is left, and none waits
  while the camera is off.
\<close>

theorem camera_relay_current:
  assumes "(relay_step origin)\<^sup>*\<^sup>* (0, [], CameraFrameRelay_new w h fps) (pending, taken, r)"
  shows "length (cr_frames r) \<le> 3 \<and>
    sorted_wrt (<) (map snd (taken @ cr_frames r)) \<and> (\<forall>x \<in> set (taken @ cr_frames r). 0 \<le> snd x) \<and>
    (pending = 0 \<longrightarrow> (\<forall>x \<in> set (taken @ cr_frames r). origin (fst x) = cr_generation r) \<and>
       (\<not> cr_cameraEnabled r \<longrightarrow> cr_frames r = []))"
  using relay_reachable_inv [OF assms] by (auto simp: relay_inv_def)

definition demo_origin :: "nat \<Rightarrow> u64" where
  "demo_origin f = of_nat f"

definition demo_capturing :: "nat CameraFrameRelay" where
  "demo_capturing = relay_storeEnabled True (relay_clear (relay_nextGeneration (CameraFrameRelay_new 640 480 30)))"

definition demo_relay_state :: "nat CameraFrameRelay" where
  "demo_relay_state = snd (enqueue_store 1 140000000 1 (snd (enqueue_store 1 100000000 1 demo_capturing)))"

lemma demo_relay_reachable: "(relay_step demo_origin)\<^sup>*\<^sup>* (0, [], CameraFrameRelay_new 640 480 30) (0, [], demo_relay_state)"
proof -
  let ?r0 = "CameraFrameRelay_new 640 480 30 :: nat CameraFrameRelay"
  have st: "relay_step demo_origin (0, [], r) (0, [], snd (enqueue_store 1 t 1 r))" for t r
    using store_undisturbed [of demo_origin 1 t r "fst (enqueue_store 1 t 1 r)" "snd (enqueue_store 1 t 1 r)"]
    by (simp add: demo_origin_def)
  have "(relay_step demo_origin)\<^sup>*\<^sup>* (0, [], ?r0) (0, [], relay_clear (relay_nextGeneration ?r0))"
    by (rule beginCapture_steps) (rule rtranclp.rtrancl_refl)
  moreover have "relay_step demo_origin (0, [], relay_clear (relay_nextGeneration ?r0)) (0, [], demo_capturing)"
    unfolding demo_capturing_def by (rule relay_step.flag [OF flag_step.on])
  ultimately show ?thesis unfolding demo_relay_state_def using st by (meson rtranclp.rtrancl_into_rtrancl)
qed

theorem camera_relay_current_witness:
  "(relay_step demo_origin)\<^sup>*\<^sup>* (0, [], CameraFrameRelay_new 640 480 30) (0, [], demo_relay_state) \<and>
   cr_frames demo_relay_state = [(1, 0), (1, 1)] \<and> map (\<lambda>x. demo_origin (fst x)) (cr_frames demo_relay_state) = [1, 1]"
proof -
  have f: "cr_frames demo_relay_state = [(1, 0), (1, 1)]" "cr_generation demo_relay_state = 1" by code_simp+
  show ?thesis using camera_relay_current [OF demo_relay_reachable] demo_relay_reachable f by simp
qed

text \<open>
  Between the two parts an old picture is still handed out: after the generation of the next capture has begun, the queue
  still has the pictures of the last, and after the camera was switched off it still gives them to the encoder.
\<close>

lemma stale_picture_in_between:
  "\<exists>x r. (relay_step demo_origin)\<^sup>*\<^sup>* (0, [], CameraFrameRelay_new 640 480 30) (2, [x], r) \<and>
     demo_origin (fst x) \<noteq> cr_generation r \<and> \<not> cr_cameraEnabled r"
proof -
  let ?r1 = "relay_storeEnabled False (relay_nextGeneration demo_relay_state)"
  have t: "relay_take ?r1 = (Some (1, 0), snd (relay_take ?r1))" "cr_generation (snd (relay_take ?r1)) = 2"
    "\<not> cr_cameraEnabled (snd (relay_take ?r1))"
    by code_simp+
  have "relay_step demo_origin (0, [], demo_relay_state) (1, [], relay_nextGeneration demo_relay_state)"
    unfolding One_nat_def by (rule relay_step.flag [OF flag_step.generation])
  moreover have "relay_step demo_origin (1, [], relay_nextGeneration demo_relay_state) (2, [], ?r1)"
    unfolding numeral_2_eq_2 One_nat_def by (rule relay_step.flag [OF flag_step.off])
  moreover have "relay_step demo_origin (2, [], ?r1) (2, [(1, 0)], snd (relay_take ?r1))"
    using relay_step.take [OF t(1), of demo_origin 2 "[]"] by simp
  ultimately have "(relay_step demo_origin)\<^sup>*\<^sup>* (0, [], CameraFrameRelay_new 640 480 30) (2, [(1, 0)], snd (relay_take ?r1))"
    using demo_relay_reachable by (meson rtranclp.rtrancl_into_rtrancl)
  moreover have "demo_origin 1 \<noteq> 2" by (simp add: demo_origin_def)
  ultimately show ?thesis using t by (metis fst_conv)
qed

text \<open>A camera that gives no pictures: the results and status messages of fetching at the given times.\<close>

fun starve :: "VideoSendSourceSnapshot \<Rightarrow> u64 list \<Rightarrow> CameraFrameTimeoutState \<Rightarrow> (VideoSendFrameFetchResult \<times> string) list" where
  "starve sn [] state = []"
| "starve sn (nowMs # moments) state =
     (let (result, frame, status, state1) = pullFrame sn None None None nowMs state
      in (result, status) # starve sn moments state1)"

lemma starve_waiting:
  assumes "sn_source sn = Camera" "sn_cameraRelay sn" "ct_waitStartedAtMs state = t" "t \<noteq> 0"
  shows "map fst (starve sn moments state) = map (\<lambda>x. if 3000 \<le> x - t then FetchAbort else FetchRetry) moments \<and>
    length (filter (\<lambda>(r, m). r = FetchRetry \<and> m \<noteq> []) (starve sn moments state)) \<le> (if ct_timeoutReported state then 0 else 1)"
  using assms(3)
proof (induction moments arbitrary: state)
  case (Cons x moments)
  show ?case
    using assms(1,2,4) Cons.prems Cons.IH [of state] Cons.IH [of "state\<lparr>ct_timeoutReported := True\<rparr>"]
    by (auto simp: pullFrame_def shouldReportCameraFrameTimeout_def Let_def)
qed simp

text \<open>
  C6. A camera that gives no pictures is given up. From the first vain attempt on, fetching asks to try
  again for less than three seconds and aborts from then on, however often and at whatever times it
  is tried; the user is warned at most once in between.
\<close>

theorem camera_starvation_ends:
  assumes "sn_source sn = Camera" "sn_cameraRelay sn" "t \<noteq> 0"
  shows "map fst (starve sn (t # moments) CameraFrameTimeoutState_new) =
      FetchRetry # map (\<lambda>x. if 3000 \<le> x - t then FetchAbort else FetchRetry) moments \<and>
    length (filter (\<lambda>(r, m). r = FetchRetry \<and> m \<noteq> []) (starve sn (t # moments) CameraFrameTimeoutState_new)) \<le> 1"
  using starve_waiting [of sn "\<lparr> ct_timeoutReported = False, ct_waitStartedAtMs = t \<rparr>" t moments] assms
  by (auto simp: pullFrame_def shouldReportCameraFrameTimeout_def CameraFrameTimeoutState_new_def Let_def)

definition demo_snapshot :: VideoSendSourceSnapshot where
  "demo_snapshot = fst (makeSnapshot \<lparr> ls_source = resolveSendSource False True, ls_sharingEnabled = False,
     ls_cameraSendingEnabled = True, ls_screenCapture = False, ls_cameraFallbackCapture = False, ls_cameraRelay = True,
     ls_cameraCaptureRunning = True, ls_preferredCameraName = [], ls_peerReady = True \<rparr>)"

theorem camera_starvation_ends_witness:
  "map fst (starve demo_snapshot [7, 107, 2100, 2200, 3006, 3007] CameraFrameTimeoutState_new) =
     [FetchRetry, FetchRetry, FetchRetry, FetchRetry, FetchRetry, FetchAbort]"
proof -
  have "sn_source demo_snapshot = Camera" "sn_cameraRelay demo_snapshot" by code_simp+
  then show ?thesis
    using camera_starvation_ends [of demo_snapshot 7 "[107, 2100, 2200, 3006, 3007]"] by simp
qed

text \<open>
  Adapting the encoder leaves it, when it reports no error, with exactly the dimensions, frame rate and
  bit rate of the target, normalised, provided the encoder takes over what it is told.
\<close>

lemma adapted_encoder:
  assumes "maybeApplyAdaptiveEncoderProfile ve width height frameRate rate pt preset profile nowMs e k = (None, e', k')"
    and "\<And>hw w h f b e1 e2. ve_configure ve hw w h f b pt preset e1 = (True, e2) \<Longrightarrow>
           ve_width ve e2 = w \<and> ve_height ve e2 = h \<and> ve_frameRate ve e2 = f \<and> ve_bitrate ve e2 = b"
    and "\<And>b e1 e2. ve_setBitrate ve b e1 = (True, e2) \<Longrightarrow>
           ve_width ve e2 = ve_width ve e1 \<and> ve_height ve e2 = ve_height ve e1 \<and> ve_frameRate ve e2 = ve_frameRate ve e1 \<and>
           ve_bitrate ve e2 = b"
    and "\<And>e1. ve_width ve (ve_requestKeyframe ve e1) = ve_width ve e1 \<and> ve_height ve (ve_requestKeyframe ve e1) = ve_height ve e1 \<and>
           ve_frameRate ve (ve_requestKeyframe ve e1) = ve_frameRate ve e1 \<and> ve_bitrate ve (ve_requestKeyframe ve e1) = ve_bitrate ve e1"
  shows "ve_width ve e' = normalizeEvenDimension width \<and> ve_height ve e' = normalizeEvenDimension height \<and>
    ve_frameRate ve e' = max 1 frameRate \<and> ve_bitrate ve e' = int_of_u32 (max 100000 rate)"
  using assms(1) unfolding maybeApplyAdaptiveEncoderProfile_def Let_def
  by (auto split: if_splits prod.splits dest!: assms(2,3) simp: assms(4))

text \<open>
  A frame that reaches the encoder in the hardware profile is in GPU memory, and whatever fails
  leaves the RTP sender as it was.
\<close>

lemma hardware_input_only:
  assumes "encodeAndPacketize ve cfg f pt force e sender = (r, key, e', sender')" "isHardwareE2E (pc_profile cfg)"
    "\<not> hasHardwareD3D11Frame f"
  shows "\<exists>m. r = Inl m \<and> e' = e \<and> sender' = sender"
  using assms by (auto simp: encodeAndPacketize_def split: option.splits if_splits)

end
