(* ===== verification/VideoSession.thy ===== *)
theory VideoSession
  imports AudioMedia VideoFeedback VideoSources
begin

text \<open>
  The client's video session (\<open>plasma-hawking/src/av/session/ScreenShareSession.cpp\<close>, with the parts
  in \<open>ScreenShareSessionCamera.cpp\<close> and \<open>ScreenShareSessionTransport.cpp\<close>, and
  \<open>VideoSessionControlActions.cpp\<close>, \<open>VideoThreadRuntime.cpp\<close>): starting and stopping, switching screen
  and camera on and off, the peer, the TURN relay, DTLS and SRTP, and the reaction to RTCP feedback.

  The capture devices are present or not and running or not; starting them succeeds or fails as the
  argument says. A thread exists or not; joining it is left out of the state, since an operation is
  described by the state in which it returns. Log lines and status callbacks are left out.
\<close>

section \<open>State\<close>

record ScreenShareSessionConfig =
  vc_localAddress :: string
  vc_localPort :: u16
  vc_peerAddress :: string
  vc_peerPort :: u16
  vc_width :: int
  vc_height :: int
  vc_frameRate :: int
  vc_bitrate :: int
  vc_encoderPreset :: VideoEncoderPreset
  vc_cameraPayloadType :: u8
  vc_payloadType :: u8
  vc_maxPayloadBytes :: nat

record ScreenCaptureConfig =
  sc_targetWidth :: int
  sc_targetHeight :: int
  sc_frameRate :: int
  sc_ringCapacity :: nat

text \<open>The members \<open>m_adaptive...\<close>.\<close>

record adaptive_state =
  ad_width :: int
  ad_height :: int
  ad_frameRate :: int
  ad_suspended :: bool
  ad_jitterTargetMs :: u32
  ad_turnRelayRequested :: bool
  ad_profileVersion :: u64

type_synonym captured = "VideoSendSource \<times> VideoSendPipelineInputFrame"

record ('ssl, 's, 'f) ScreenShareSession =
  vs_config :: ScreenShareSessionConfig
  vs_captureThread :: bool
  vs_sendThread :: bool
  vs_recvThread :: bool
  vs_lastError :: string
  vs_running :: bool
  vs_sharingEnabled :: bool
  vs_cameraSendingEnabled :: bool
  vs_disableHardwareScreenCapture :: bool
  vs_preferredCameraDeviceName :: string
  vs_cameraDeviceGeneration :: u64
  vs_sentPacketCount :: u64
  vs_receivedPacketCount :: u64
  vs_stats :: send_stats
  vs_adaptive :: adaptive_state
  vs_forceKeyFramePending :: bool
  vs_expectedRemoteVideoSsrc :: u32
  vs_remoteVideoStreamResetRequests :: "u32 list"
  vs_configuredVideoSsrc :: u32
  vs_dtlsStarted :: bool
  vs_iceConnected :: bool
  vs_dtlsConnected :: bool
  vs_srtpReady :: bool
  vs_capture :: "(bool \<times> ScreenCaptureConfig) option"
  vs_cameraCapture :: "bool option"
  vs_cameraFallbackCapture :: "(bool \<times> ScreenCaptureConfig) option"
  vs_cameraRelay :: "'f CameraFrameRelay"
  vs_sender :: RTPSender
  vs_rtcpActionPipeline :: VideoRtcpActionPipeline
  vs_videoBwePolicy :: VideoBwePolicy
  vs_sendFrameRingBuffer :: "captured VideoSendFrameRingBuffer"
  vs_mediaSocket :: UdpPeerSocket
  vs_dtlsTransport :: "'ssl DtlsTransportClient"
  vs_dtlsHandshakePackets :: "bytes list"
  vs_lastDtlsHandshakeSendAt :: int
  vs_inboundSrtp :: "'s SRTPContext"
  vs_outboundSrtp :: "'s SRTPContext"

text \<open>\<open>vn_profile\<close> and \<open>vn_syntheticCamera\<close> are read from the environment of the process.\<close>

record ('ssl, 's) video_env =
  vn_qs :: qt_socket
  vn_rnd :: "nat \<Rightarrow> u32"
  vn_ssl :: "'ssl client_openssl"
  vn_srtp :: "'s libsrtp"
  vn_profile :: VideoPipelineProfile
  vn_syntheticCamera :: bool

text \<open>Whether the captures can be started, and the text of a failing camera.\<close>

record capture_results =
  cp_screen :: bool
  cp_camera :: bool
  cp_fallback :: bool
  cp_cameraError :: string

definition policy_config :: "ScreenShareSessionConfig \<Rightarrow> VideoBwePolicyConfig" where
  "policy_config config =
     \<lparr> bc_baselineWidth = vc_width config, bc_baselineHeight = vc_height config,
       bc_baselineFrameRate = vc_frameRate config, bc_baselineBitrateBps = word_of_int (max 1000 (vc_bitrate config)) \<rparr>"

definition ScreenShareSession_new :: "ScreenShareSessionConfig \<Rightarrow> u64 \<Rightarrow> ('ssl, 's, 'f) ScreenShareSession" where
  "ScreenShareSession_new config nowMs =
     (let initialBitrate = word_of_int (max 1000 (vc_bitrate config)) in
      \<lparr> vs_config = config, vs_captureThread = False, vs_sendThread = False, vs_recvThread = False,
        vs_lastError = [], vs_running = False, vs_sharingEnabled = False, vs_cameraSendingEnabled = False,
        vs_disableHardwareScreenCapture = False, vs_preferredCameraDeviceName = [], vs_cameraDeviceGeneration = 0,
        vs_sentPacketCount = 0, vs_receivedPacketCount = 0,
        vs_stats = \<lparr> ks_keyframeRequestCount = 0, ks_retransmitPacketCount = 0, ks_bitrateReconfigureCount = 0,
          ks_targetBitrateBps = initialBitrate, ks_appliedBitrateBps = initialBitrate,
          ks_lastBitrateApplyDelayMs = 0, ks_targetBitrateUpdatedAtMs = nowMs \<rparr>,
        vs_adaptive = \<lparr> ad_width = vc_width config, ad_height = vc_height config, ad_frameRate = vc_frameRate config,
          ad_suspended = False, ad_jitterTargetMs = 0, ad_turnRelayRequested = False, ad_profileVersion = 0 \<rparr>,
        vs_forceKeyFramePending = False, vs_expectedRemoteVideoSsrc = 0, vs_remoteVideoStreamResetRequests = [],
        vs_configuredVideoSsrc = 0, vs_dtlsStarted = False, vs_iceConnected = False, vs_dtlsConnected = False,
        vs_srtpReady = False, vs_capture = None, vs_cameraCapture = None, vs_cameraFallbackCapture = None,
        vs_cameraRelay = CameraFrameRelay_new (vc_width config) (vc_height config) (vc_frameRate config),
        vs_sender = \<lparr> snd_ssrc = 0, snd_sequence = 0 \<rparr>,
        vs_rtcpActionPipeline = VideoRtcpActionPipeline_new 512,
        vs_videoBwePolicy = VideoBwePolicy_new (policy_config config),
        vs_sendFrameRingBuffer = VideoSendFrameRingBuffer_new 4, vs_mediaSocket = UdpPeerSocket_new,
        vs_dtlsTransport = DtlsTransportClient_new, vs_dtlsHandshakePackets = [], vs_lastDtlsHandshakeSendAt = 0,
        vs_inboundSrtp = SRTPContext_new, vs_outboundSrtp = SRTPContext_new \<rparr>)"

definition video_setError :: "string \<Rightarrow> ('ssl, 's, 'f) ScreenShareSession \<Rightarrow> ('ssl, 's, 'f) ScreenShareSession" where
  "video_setError message s = s\<lparr>vs_lastError := message\<rparr>"

section \<open>Starting and stopping\<close>

definition configureSocketBuffers :: "UdpPeerSocket \<Rightarrow> string option \<times> UdpPeerSocket" where
  "configureSocketBuffers sock =
     (if \<not> us_socket sock then (Some ''socket not open'', setSocketError OperationError ''socket not open'' sock)
      else (None, clearSocketError sock))"

definition video_openSocket ::
  "('ssl, 's) video_env \<Rightarrow> ('ssl, 's, 'f) ScreenShareSession \<Rightarrow> bool \<times> ('ssl, 's, 'f) ScreenShareSession" where
  "video_openSocket env s =
     (case socket_open (vn_qs env) (vc_localAddress (vs_config s)) (vc_localPort (vs_config s)) (vs_mediaSocket s) of
        (Some socketError, sock) \<Rightarrow>
          (False, video_setError (if socketError = [] then ''socket setup failed'' else socketError)
                    (s\<lparr>vs_mediaSocket := socket_close sock\<rparr>))
      | (None, sock) \<Rightarrow>
          let (optionError, sock1) = configureSocketBuffers sock;
              s1 = (case optionError of None \<Rightarrow> s
                    | Some e \<Rightarrow> video_setError (if e = [] then ''socket buffer setup failed'' else e) s);
              (_, sock2) = socket_setPeer (vn_qs env) (vc_peerAddress (vs_config s)) (vc_peerPort (vs_config s)) sock1
          in (True, s1\<lparr>vs_mediaSocket := setReadTimeoutMs 50 sock2\<rparr>))"

definition ScreenShareSession_start ::
  "('ssl, 's) video_env \<Rightarrow> ('ssl, 's, 'f) ScreenShareSession \<Rightarrow> bool \<times> ('ssl, 's, 'f) ScreenShareSession" where
  "ScreenShareSession_start env s =
     (let startPlan = planSessionStart (vs_running s) in
      if ss_alreadyRunning startPlan then (True, s)
      else
        let (opened, s1) = video_openSocket env (s\<lparr>vs_lastError := []\<rparr>)
        in if \<not> opened then (False, s1)
           else (True, s1\<lparr>vs_running := True, vs_recvThread := ss_shouldStartRecvThread startPlan \<or> vs_recvThread s1\<rparr>))"

definition stopCaptureLocked :: "('ssl, 's, 'f) ScreenShareSession \<Rightarrow> ('ssl, 's, 'f) ScreenShareSession" where
  "stopCaptureLocked s = s\<lparr>vs_capture := None\<rparr>"

definition stopCameraFallbackCaptureLocked :: "('ssl, 's, 'f) ScreenShareSession \<Rightarrow> ('ssl, 's, 'f) ScreenShareSession" where
  "stopCameraFallbackCaptureLocked s = s\<lparr>vs_cameraFallbackCapture := None\<rparr>"

definition stopCameraCaptureLocked :: "('ssl, 's, 'f) ScreenShareSession \<Rightarrow> ('ssl, 's, 'f) ScreenShareSession" where
  "stopCameraCaptureLocked s =
     stopCameraFallbackCaptureLocked
       (s\<lparr>vs_cameraRelay := relay_invalidate (vs_cameraRelay s), vs_cameraCapture := None\<rparr>)"

text \<open>The assignments of \<open>stop\<close> before it waits for the threads.\<close>

definition stop_flags :: "('ssl, 's, 'f) ScreenShareSession \<Rightarrow> ('ssl, 's, 'f) ScreenShareSession" where
  "stop_flags s =
     s\<lparr>vs_sharingEnabled := False, vs_cameraSendingEnabled := False, vs_disableHardwareScreenCapture := False,
       vs_mediaSocket := interruptWaiters (vs_mediaSocket s),
       vs_sendFrameRingBuffer := frames_close (vs_sendFrameRingBuffer s), vs_forceKeyFramePending := False,
       vs_expectedRemoteVideoSsrc := 0, vs_dtlsStarted := False, vs_iceConnected := False,
       vs_dtlsConnected := False, vs_srtpReady := False, vs_inboundSrtp := SRTPContext_clear (vs_inboundSrtp s),
       vs_outboundSrtp := SRTPContext_clear (vs_outboundSrtp s), vs_dtlsHandshakePackets := [],
       vs_lastDtlsHandshakeSendAt := 0,
       vs_cameraRelay := relay_invalidate (relay_setSharingEnabled False (vs_cameraRelay s))\<rparr>"

definition ScreenShareSession_stop :: "('ssl, 's, 'f) ScreenShareSession \<Rightarrow> ('ssl, 's, 'f) ScreenShareSession" where
  "ScreenShareSession_stop s =
     (let stopPlan = planSessionStop (vs_running s) (vs_sendThread s) (vs_recvThread s);
          s1 = s\<lparr>vs_running := False\<rparr>
      in if sp_shouldReturnEarly stopPlan then s1
         else
           let s2 = (stop_flags s1)\<lparr>vs_captureThread := False,
                 vs_sendThread := vs_sendThread s \<and> \<not> sp_shouldJoinSendBeforeCleanup stopPlan,
                 vs_recvThread := vs_recvThread s \<and> \<not> sp_shouldJoinRecvAfterCleanup stopPlan\<rparr>;
               s3 = stopCameraCaptureLocked (stopCaptureLocked s2)
           in s3\<lparr>vs_sender := setSSRC 0 (vs_sender s3),
                 vs_rtcpActionPipeline := VideoRtcpActionPipeline_reset (vs_rtcpActionPipeline s3),
                 vs_mediaSocket := socket_close (vs_mediaSocket s3)\<rparr>)"

section \<open>Switching the sources\<close>

text \<open>\<open>makeSsrc\<close> draws random numbers until one is not zero.\<close>

fun makeSsrc :: "u32 list \<Rightarrow> u32 option" where
  "makeSsrc [] = None"
| "makeSsrc (value # values) = (if value = 0 then makeSsrc values else Some value)"

definition chooseConfiguredOrRandomSsrc :: "u32 \<Rightarrow> u32 list \<Rightarrow> u32 option" where
  "chooseConfiguredOrRandomSsrc configuredSsrc values =
     (if configuredSsrc \<noteq> 0 then Some configuredSsrc else makeSsrc values)"

definition resetSenderForFreshStream ::
  "u32 \<Rightarrow> ('ssl, 's, 'f) ScreenShareSession \<Rightarrow> ('ssl, 's, 'f) ScreenShareSession" where
  "resetSenderForFreshStream ssrc s =
     (let previousSsrc = snd_ssrc (vs_sender s);
          sender = setSSRC ssrc (vs_sender s);
          sender1 = (if previousSsrc = 0 \<or> previousSsrc \<noteq> ssrc then setSequence 0 sender else sender)
      in s\<lparr>vs_sender := sender1, vs_rtcpActionPipeline := VideoRtcpActionPipeline_reset (vs_rtcpActionPipeline s)\<rparr>)"

definition resetSendThreadStats :: "u32 \<Rightarrow> u64 \<Rightarrow> send_stats" where
  "resetSendThreadStats bitrateBps nowMs =
     \<lparr> ks_keyframeRequestCount = 0, ks_retransmitPacketCount = 0, ks_bitrateReconfigureCount = 0,
       ks_targetBitrateBps = bitrateBps, ks_appliedBitrateBps = bitrateBps, ks_lastBitrateApplyDelayMs = 0,
       ks_targetBitrateUpdatedAtMs = nowMs \<rparr>"

definition startCaptureLocked ::
  "('ssl, 's) video_env \<Rightarrow> capture_results \<Rightarrow> bool \<Rightarrow> ('ssl, 's, 'f) ScreenShareSession \<Rightarrow>
   bool \<times> ('ssl, 's, 'f) ScreenShareSession" where
  "startCaptureLocked env cp allowHardwareBypass s =
     (if (case vs_capture s of Some (running, _) \<Rightarrow> running | None \<Rightarrow> False) then (True, s)
      else if allowHardwareBypass \<and> isHardwareE2E (vn_profile env) then (True, s\<lparr>vs_capture := None\<rparr>)
      else
        let (targetWidth, targetHeight) = clampScreenShareDimensions (vc_width (vs_config s)) (vc_height (vs_config s));
            captureConfig = \<lparr> sc_targetWidth = targetWidth, sc_targetHeight = targetHeight,
              sc_frameRate = min (max 1 (vc_frameRate (vs_config s))) kMaxScreenShareFrameRate, sc_ringCapacity = 3 \<rparr>
        in if \<not> cp_screen cp then (False, video_setError ''screen capture start failed'' s)
           else (True, s\<lparr>vs_capture := Some (True, captureConfig)\<rparr>))"

definition startSyntheticFallback ::
  "capture_results \<Rightarrow> ('ssl, 's, 'f) ScreenShareSession \<Rightarrow> bool \<times> ('ssl, 's, 'f) ScreenShareSession" where
  "startSyntheticFallback cp s =
     (let fallbackConfig = \<lparr> sc_targetWidth = vc_width (vs_config s), sc_targetHeight = vc_height (vs_config s),
            sc_frameRate = vc_frameRate (vs_config s), sc_ringCapacity = 3 \<rparr>
      in if \<not> cp_fallback cp then (False, video_setError ''camera fallback capture start failed'' s)
         else (True, s\<lparr>vs_cameraCapture := None, vs_cameraFallbackCapture := Some (True, fallbackConfig)\<rparr>))"

definition startCameraCaptureLocked ::
  "('ssl, 's) video_env \<Rightarrow> capture_results \<Rightarrow> bool \<Rightarrow> ('ssl, 's, 'f) ScreenShareSession \<Rightarrow>
   bool \<times> ('ssl, 's, 'f) ScreenShareSession" where
  "startCameraCaptureLocked env cp allowHardwareBypass s =
     (if allowHardwareBypass \<and> isHardwareE2E (vn_profile env)
      then (True, stopCameraFallbackCaptureLocked (s\<lparr>vs_cameraCapture := None\<rparr>))
      else if vs_cameraCapture s = Some True then (True, s)
      else if (case vs_cameraFallbackCapture s of Some (running, _) \<Rightarrow> running | None \<Rightarrow> False) then (True, s)
      else if vn_syntheticCamera env
      then startSyntheticFallback cp (s\<lparr>vs_cameraRelay := relay_invalidate (vs_cameraRelay s)\<rparr>)
      else
        let s1 = s\<lparr>vs_cameraRelay := snd (beginCapture (vs_cameraRelay s))\<rparr>
        in if cp_camera cp then (True, s1\<lparr>vs_cameraFallbackCapture := None, vs_cameraCapture := Some True\<rparr>)
           else (False, video_setError (cp_cameraError cp) (s1\<lparr>vs_cameraRelay := relay_invalidate (vs_cameraRelay s1)\<rparr>)))"

text \<open>The end of both switches when the send thread is to be started, with the two times it reads.\<close>

definition start_sending ::
  "u64 \<Rightarrow> u64 \<Rightarrow> ('ssl, 's, 'f) ScreenShareSession \<Rightarrow> ('ssl, 's, 'f) ScreenShareSession" where
  "start_sending statsMs nowMs s =
     (let policy = VideoBwePolicy_reset (policy_config (vs_config s)) nowMs;
          target = bp_target policy;
          sendStartPlan = planSendThreadStart True (vs_sendThread s);
          s1 = s\<lparr>vs_stats := resetSendThreadStats (word_of_int (vc_bitrate (vs_config s))) statsMs,
                 vs_videoBwePolicy := policy,
                 vs_adaptive := \<lparr> ad_width = bt_width target, ad_height = bt_height target,
                   ad_frameRate = bt_frameRate target, ad_suspended = bt_videoSuspended target,
                   ad_jitterTargetMs = bt_jitterTargetMs target, ad_turnRelayRequested = False,
                   ad_profileVersion = bt_version target \<rparr>\<rparr>
      in if st_shouldStartSendThread sendStartPlan
         then s1\<lparr>vs_sendFrameRingBuffer := frames_reset (vs_sendFrameRingBuffer s1),
                 vs_captureThread := True, vs_sendThread := True\<rparr>
         else s1)"

text \<open>The end of both switches when a source goes off: the send thread is joined, or only the capture thread.\<close>

definition stop_sending ::
  "VideoToggleDisablePlan \<Rightarrow> ('ssl, 's, 'f) ScreenShareSession \<Rightarrow> ('ssl, 's, 'f) ScreenShareSession" where
  "stop_sending disablePlan s =
     (let s1 =
        (if planSendThreadStop (di_shouldJoinSendThread disablePlan) (vs_sendThread s)
         then s\<lparr>vs_sendFrameRingBuffer := frames_close (vs_sendFrameRingBuffer s), vs_captureThread := False,
                vs_sendThread := False\<rparr>
         else if vs_captureThread s
         then s\<lparr>vs_sendFrameRingBuffer := frames_close (vs_sendFrameRingBuffer s), vs_captureThread := False\<rparr>
         else s)
      in if di_shouldSetForceKeyFrame disablePlan
         then s1\<lparr>vs_forceKeyFramePending := di_forceKeyFrameValue disablePlan\<rparr> else s1)"

definition setSharingEnabled ::
  "('ssl, 's) video_env \<Rightarrow> capture_results \<Rightarrow> u32 list \<Rightarrow> u64 \<Rightarrow> u64 \<Rightarrow> bool \<Rightarrow> ('ssl, 's, 'f) ScreenShareSession \<Rightarrow>
   (bool \<times> ('ssl, 's, 'f) ScreenShareSession) option" where
  "setSharingEnabled env cp values statsMs nowMs enabled s =
     (if enabled then
        let (started, s0) = (if vs_running s then (True, s) else ScreenShareSession_start env s) in
        if \<not> started then Some (False, s0)
        else
          let enablePlan = planEnableSharing (vs_sharingEnabled s0) (vs_cameraSendingEnabled s0) in
          if en_alreadyEnabled enablePlan then Some (True, s0)
          else
            let (ok, s1) = startCaptureLocked env cp True (s0\<lparr>vs_disableHardwareScreenCapture := False\<rparr>) in
            if \<not> ok then Some (False, s1)
            else do {
              s2 \<leftarrow> (if en_shouldStartSendThread enablePlan
                    then map_option (\<lambda>ssrc. resetSenderForFreshStream ssrc s1)
                           (chooseConfiguredOrRandomSsrc (vs_configuredVideoSsrc s1) values)
                    else Some s1);
              let s3 = s2\<lparr>vs_sharingEnabled := True, vs_cameraRelay := relay_setSharingEnabled True (vs_cameraRelay s2),
                          vs_forceKeyFramePending := en_shouldRequestKeyFrame enablePlan \<or> vs_forceKeyFramePending s2\<rparr>;
              Some (True, if en_shouldStartSendThread enablePlan then start_sending statsMs nowMs s3 else s3) }
      else if \<not> vs_sharingEnabled s then Some (True, s)
      else
        let s1 = s\<lparr>vs_sharingEnabled := False, vs_disableHardwareScreenCapture := False,
                   vs_cameraRelay := relay_setSharingEnabled False (vs_cameraRelay s)\<rparr>
        in Some (True, stopCaptureLocked (stop_sending (planDisableSharing True (vs_cameraSendingEnabled s1)) s1)))"

definition setCameraSendingEnabled ::
  "('ssl, 's) video_env \<Rightarrow> capture_results \<Rightarrow> u32 list \<Rightarrow> u64 \<Rightarrow> u64 \<Rightarrow> bool \<Rightarrow> ('ssl, 's, 'f) ScreenShareSession \<Rightarrow>
   (bool \<times> ('ssl, 's, 'f) ScreenShareSession) option" where
  "setCameraSendingEnabled env cp values statsMs nowMs enabled s =
     (if enabled then
        let (started, s0) = (if vs_running s then (True, s) else ScreenShareSession_start env s) in
        if \<not> started then Some (False, s0)
        else
          let enablePlan = planEnableCamera (vs_cameraSendingEnabled s0) (vs_sharingEnabled s0) in
          if en_alreadyEnabled enablePlan then Some (True, s0)
          else
            let (ok, s1) = startCameraCaptureLocked env cp True s0 in
            if \<not> ok then Some (False, s1)
            else do {
              s2 \<leftarrow> (if en_shouldStartSendThread enablePlan
                    then map_option (\<lambda>ssrc. resetSenderForFreshStream ssrc s1)
                           (chooseConfiguredOrRandomSsrc (vs_configuredVideoSsrc s1) values)
                    else Some s1);
              let s3 = s2\<lparr>vs_cameraSendingEnabled := True,
                          vs_cameraRelay := relay_setSharingEnabled (vs_sharingEnabled s2)
                            (setCameraEnabled True (vs_cameraRelay s2)),
                          vs_forceKeyFramePending := en_shouldRequestKeyFrame enablePlan \<or> vs_forceKeyFramePending s2\<rparr>;
              Some (True, if en_shouldStartSendThread enablePlan then start_sending statsMs nowMs s3 else s3) }
      else if \<not> vs_cameraSendingEnabled s then Some (True, s)
      else
        let s1 = s\<lparr>vs_cameraSendingEnabled := False, vs_cameraRelay := setCameraEnabled False (vs_cameraRelay s)\<rparr>
        in Some (True, stopCameraCaptureLocked (stop_sending (planDisableCamera True (vs_sharingEnabled s1)) s1)))"

text \<open>
  Choosing a camera: \<open>switched\<close> tells whether a running capture could be switched, and with which
  error text it failed.
\<close>

definition setPreferredCameraDeviceName ::
  "string + unit \<Rightarrow> string \<Rightarrow> ('ssl, 's, 'f) ScreenShareSession \<Rightarrow> bool \<times> ('ssl, 's, 'f) ScreenShareSession" where
  "setPreferredCameraDeviceName switched deviceName s =
     (let requestedDeviceName = QString_trimmed deviceName in
      if vs_preferredCameraDeviceName s = requestedDeviceName then (True, s)
      else
        let s1 = s\<lparr>vs_preferredCameraDeviceName := requestedDeviceName, vs_lastError := [],
                   vs_cameraDeviceGeneration := vs_cameraDeviceGeneration s + 1\<rparr>
        in if vs_cameraCapture s1 \<noteq> Some True then (True, s1)
           else case switched of
             Inl lastError \<Rightarrow> (False, video_setError (''camera device switch failed: '' @ lastError) s1)
           | Inr _ \<Rightarrow> (True, s1))"

definition setExpectedRemoteVideoSsrc :: "u32 \<Rightarrow> ('ssl, 's, 'f) ScreenShareSession \<Rightarrow> ('ssl, 's, 'f) ScreenShareSession" where
  "setExpectedRemoteVideoSsrc ssrc s = s\<lparr>vs_expectedRemoteVideoSsrc := ssrc\<rparr>"

definition resetRemoteVideoStream :: "u32 \<Rightarrow> ('ssl, 's, 'f) ScreenShareSession \<Rightarrow> ('ssl, 's, 'f) ScreenShareSession" where
  "resetRemoteVideoStream ssrc s =
     (if ssrc = 0 then s
      else s\<lparr>vs_remoteVideoStreamResetRequests :=
               (if ssrc \<in> set (vs_remoteVideoStreamResetRequests s) then vs_remoteVideoStreamResetRequests s
                else vs_remoteVideoStreamResetRequests s @ [ssrc]),
             vs_mediaSocket := interruptWaiters (vs_mediaSocket s)\<rparr>)"

definition setVideoSsrc :: "u32 \<Rightarrow> ('ssl, 's, 'f) ScreenShareSession \<Rightarrow> ('ssl, 's, 'f) ScreenShareSession" where
  "setVideoSsrc ssrc s =
     (if ssrc = 0 then s else s\<lparr>vs_configuredVideoSsrc := ssrc, vs_sender := setSSRC ssrc (vs_sender s)\<rparr>)"

section \<open>The secure transport\<close>

definition ScreenShareSession_setPeer ::
  "('ssl, 's) video_env \<Rightarrow> string \<Rightarrow> u16 \<Rightarrow> ('ssl, 's, 'f) ScreenShareSession \<Rightarrow> ('ssl, 's, 'f) ScreenShareSession" where
  "ScreenShareSession_setPeer env address port s =
     (if us_peerValid (vs_mediaSocket s) \<and> vc_peerAddress (vs_config s) = address \<and> vc_peerPort (vs_config s) = port then s
      else
        let sock = disableTurnRelay (vs_mediaSocket s)
        in s\<lparr>vs_config := (vs_config s)\<lparr>vc_peerAddress := address, vc_peerPort := port\<rparr>,
             vs_mediaSocket := (if us_socket sock then snd (socket_setPeer (vn_qs env) address port sock) else sock)\<rparr>)"

definition ScreenShareSession_configureTurnRelay ::
  "('ssl, 's) video_env \<Rightarrow> qt_crypto \<Rightarrow> turn_round list \<Rightarrow> turn_round \<Rightarrow> turn_round \<Rightarrow> string \<Rightarrow> u16 \<Rightarrow> string \<Rightarrow>
   string \<Rightarrow> string \<Rightarrow> u16 \<Rightarrow> ('ssl, 's, 'f) ScreenShareSession \<Rightarrow> (bool \<times> ('ssl, 's, 'f) ScreenShareSession) mem" where
  "ScreenShareSession_configureTurnRelay env qc challenges auth permission turnAddress turnPort username credential
     peerAddress peerPort s =
     (if \<not> us_socket (vs_mediaSocket s)
      then Some (False, video_setError ''video TURN relay skipped: socket not open'' s)
      else do {
        (error, sock) \<leftarrow> configureTurnRelay (vn_qs env) qc challenges auth permission turnAddress turnPort username
          credential peerAddress peerPort (vs_mediaSocket s);
        let s1 = s\<lparr>vs_config := (vs_config s)\<lparr>vc_peerAddress := peerAddress, vc_peerPort := peerPort\<rparr>,
                   vs_mediaSocket := sock\<rparr>;
        Some (case error of
                Some e \<Rightarrow> (False, video_setError (if e = [] then ''video TURN relay configure failed'' else e) s1)
              | None \<Rightarrow> (True, s1)) })"

definition video_prepareDtlsFingerprint ::
  "('ssl, 's) video_env \<Rightarrow> ('ssl, 's, 'f) ScreenShareSession \<Rightarrow> string \<times> ('ssl, 's, 'f) ScreenShareSession" where
  "video_prepareDtlsFingerprint env s =
     (let (ok, c) = prepareLocalFingerprint (vn_ssl env) (vs_dtlsTransport s);
          s1 = s\<lparr>vs_dtlsTransport := c\<rparr>
      in if \<not> ok then ([], video_setError (dc_lastError c) s1) else (dc_localFingerprint c, s1))"

definition video_send ::
  "('ssl, 's) video_env \<Rightarrow> bytes \<Rightarrow> UdpEndpoint \<Rightarrow> ('ssl, 's, 'f) ScreenShareSession \<Rightarrow>
   int \<times> ('ssl, 's, 'f) ScreenShareSession" where
  "video_send env data target s =
     (let (sent, sock) = sendTo (vn_qs env) (vn_rnd env) data target (vs_mediaSocket s)
      in (sent, s\<lparr>vs_mediaSocket := sock\<rparr>))"

fun video_send_packets ::
  "('ssl, 's) video_env \<Rightarrow> string \<Rightarrow> bytes list \<Rightarrow> UdpEndpoint \<Rightarrow> ('ssl, 's, 'f) ScreenShareSession \<Rightarrow>
   bool \<times> ('ssl, 's, 'f) ScreenShareSession" where
  "video_send_packets env error [] target s = (True, s)"
| "video_send_packets env error (packet # packets) target s =
     (let (sent, s1) = video_send env packet target s
      in if sent \<noteq> int (length packet) then (False, video_setError error s1)
         else video_send_packets env error packets target s1)"

definition video_sendCachedDtlsHandshake ::
  "('ssl, 's) video_env \<Rightarrow> int \<Rightarrow> UdpEndpoint \<Rightarrow> ('ssl, 's, 'f) ScreenShareSession \<Rightarrow>
   bool \<times> ('ssl, 's, 'f) ScreenShareSession" where
  "video_sendCachedDtlsHandshake env now peer s =
     (if vs_srtpReady s \<or> \<not> UdpEndpoint_isValid peer \<or> vs_dtlsHandshakePackets s = [] then (True, s)
      else if vs_lastDtlsHandshakeSendAt s \<noteq> 0 \<and> now - vs_lastDtlsHandshakeSendAt s < 100 * 1000000 then (True, s)
      else
        let (ok, s1) = video_send_packets env ''video DTLS handshake send failed'' (vs_dtlsHandshakePackets s) peer s
        in if \<not> ok then (False, s1) else (True, s1\<lparr>vs_lastDtlsHandshakeSendAt := now\<rparr>))"

definition video_startDtlsSrtp ::
  "('ssl, 's) video_env \<Rightarrow> int \<Rightarrow> string \<Rightarrow> ('ssl, 's, 'f) ScreenShareSession \<Rightarrow>
   bool \<times> ('ssl, 's, 'f) ScreenShareSession" where
  "video_startDtlsSrtp env now serverFingerprint s =
     (if QString_trimmed serverFingerprint = [] \<or> \<not> us_socket (vs_mediaSocket s) \<or> \<not> us_peerValid (vs_mediaSocket s)
      then (False, s)
      else if dc_connected (vs_dtlsTransport s) \<and> vs_srtpReady s then (True, s)
      else
        let (ok, outgoing, c) = DtlsTransportClient_start (vn_ssl env) serverFingerprint True (vs_dtlsTransport s);
            s1 = s\<lparr>vs_dtlsTransport := c\<rparr>
        in if \<not> ok then (False, video_setError (dc_lastError c) s1)
           else
             let s2 = (if outgoing \<noteq> [] \<or> \<not> vs_dtlsStarted s1 then s1\<lparr>vs_dtlsHandshakePackets := outgoing\<rparr> else s1)
             in video_sendCachedDtlsHandshake env now (us_peer (vs_mediaSocket s2)) (s2\<lparr>vs_dtlsStarted := True\<rparr>))"

definition video_sendTransportProbe ::
  "('ssl, 's) video_env \<Rightarrow> bytes \<Rightarrow> ('ssl, 's, 'f) ScreenShareSession \<Rightarrow> (bool \<times> ('ssl, 's, 'f) ScreenShareSession) mem" where
  "video_sendTransportProbe env packet s =
     (if packet = [] then Some (False, s)
      else if \<not> us_socket (vs_mediaSocket s) \<or> \<not> us_peerValid (vs_mediaSocket s) then Some (False, s)
      else do {
        parsed \<leftarrow> parsePacket packet;
        let s1 = (case parsed of
               None \<Rightarrow> s
             | Some rtpProbe \<Rightarrow>
                 if h_ssrc (p_header rtpProbe) = snd_ssrc (vs_sender s)
                 then s\<lparr>vs_rtcpActionPipeline :=
                        cacheSentPacket (h_sequenceNumber (p_header rtpProbe)) packet (vs_rtcpActionPipeline s)\<rparr>
                 else s);
        let (sent, s2) = video_send env packet (us_peer (vs_mediaSocket s1)) s1;
        Some (sent = int (length packet), s2) })"

definition video_configureSrtp ::
  "('ssl, 's) video_env \<Rightarrow> ('ssl, 's, 'f) ScreenShareSession \<Rightarrow> bool \<times> ('ssl, 's, 'f) ScreenShareSession" where
  "video_configureSrtp env s =
     (if vs_srtpReady s then (True, s)
      else if \<not> dc_connected (vs_dtlsTransport s) then (False, s)
      else case exportSrtpKeyMaterial (vn_ssl env) (masterKeyLength (vn_srtp env)) (masterSaltLength (vn_srtp env))
                  (vs_dtlsTransport s) of
        None \<Rightarrow> (False, video_setError ''video DTLS SRTP exporter failed'' s)
      | Some keying \<Rightarrow>
          let (okIn, inb) = SRTPContext_configure (vn_srtp env) (remoteKey keying) (remoteSalt keying) Inbound 0
                (vs_inboundSrtp s);
              (okOut, outb) = (if okIn
                then SRTPContext_configure (vn_srtp env) (localKey keying) (localSalt keying) Outbound 0 (vs_outboundSrtp s)
                else (False, vs_outboundSrtp s));
              s1 = s\<lparr>vs_inboundSrtp := inb, vs_outboundSrtp := outb\<rparr>
          in if \<not> okIn \<or> \<not> okOut
             then (False, video_setError (if sc_lastError inb \<noteq> [] then sc_lastError inb else sc_lastError outb) s1)
             else (True, s1\<lparr>vs_dtlsConnected := True, vs_srtpReady := True, vs_forceKeyFramePending := True\<rparr>))"

definition video_handleDtlsPacket ::
  "('ssl, 's) video_env \<Rightarrow> bytes \<Rightarrow> UdpEndpoint \<Rightarrow> ('ssl, 's, 'f) ScreenShareSession \<Rightarrow>
   bool \<times> ('ssl, 's, 'f) ScreenShareSession" where
  "video_handleDtlsPacket env data sender s =
     (if data = [] \<or> \<not> acceptSender sender (vs_mediaSocket s) then (False, s)
      else
        let (ok, outgoing, c) = handleIncomingDatagram (vn_ssl env) data True (vs_dtlsTransport s);
            s1 = s\<lparr>vs_dtlsTransport := c\<rparr>
        in if \<not> ok then (False, video_setError (dc_lastError c) s1)
           else
             let (sent, s2) = video_send_packets env ''video DTLS response send failed'' outgoing sender s1
             in if \<not> sent then (False, s2) else video_configureSrtp env s2)"

definition video_protectRtp ::
  "('ssl, 's) video_env \<Rightarrow> bytes \<Rightarrow> ('ssl, 's, 'f) ScreenShareSession \<Rightarrow> bytes option \<times> ('ssl, 's, 'f) ScreenShareSession" where
  "video_protectRtp env packet s =
     (if \<not> vs_dtlsStarted s then (Some packet, s)
      else if \<not> vs_srtpReady s then (None, s)
      else
        let (ok, bytes, c) = protectRtp (vn_srtp env) packet (vs_outboundSrtp s); s1 = s\<lparr>vs_outboundSrtp := c\<rparr>
        in if \<not> ok then (None, video_setError (sc_lastError c) s1) else (Some bytes, s1))"

definition video_protectRtcp ::
  "('ssl, 's) video_env \<Rightarrow> bytes \<Rightarrow> ('ssl, 's, 'f) ScreenShareSession \<Rightarrow> bytes option \<times> ('ssl, 's, 'f) ScreenShareSession" where
  "video_protectRtcp env packet s =
     (if \<not> vs_dtlsStarted s then (Some packet, s)
      else if \<not> vs_srtpReady s then (None, s)
      else
        let (ok, bytes, c) = protectRtcp (vn_srtp env) packet (vs_outboundSrtp s); s1 = s\<lparr>vs_outboundSrtp := c\<rparr>
        in if \<not> ok then (None, video_setError (sc_lastError c) s1) else (Some bytes, s1))"

text \<open>The text of a failed decryption: the library's error, the length and the first two bytes.\<close>

definition unprotect_error :: "string \<Rightarrow> string \<Rightarrow> bytes \<Rightarrow> string" where
  "unprotect_error label lastError packet =
     lastError @ label @ nat_to_string (length packet) @
     '' first='' @ nat_to_string (unat (if packet = [] then 0 else hd packet)) @
     '' second='' @ nat_to_string (unat (if length packet > 1 then packet ! 1 else 0))"

definition video_unprotectRtp ::
  "('ssl, 's) video_env \<Rightarrow> bytes \<Rightarrow> ('ssl, 's, 'f) ScreenShareSession \<Rightarrow> bytes option \<times> ('ssl, 's, 'f) ScreenShareSession" where
  "video_unprotectRtp env packet s =
     (if \<not> vs_dtlsStarted s then (Some packet, s)
      else if \<not> vs_srtpReady s then (None, s)
      else
        let (ok, bytes, c) = unprotectRtp (vn_srtp env) packet (vs_inboundSrtp s); s1 = s\<lparr>vs_inboundSrtp := c\<rparr>
        in if ok then (Some bytes, s1)
           else if lastFailureWasReplay (vn_srtp env) c then (None, s1)
           else (None, video_setError (unprotect_error '' rtp_len='' (sc_lastError c) packet) s1))"

definition video_unprotectRtcp ::
  "('ssl, 's) video_env \<Rightarrow> bytes \<Rightarrow> ('ssl, 's, 'f) ScreenShareSession \<Rightarrow> bytes option \<times> ('ssl, 's, 'f) ScreenShareSession" where
  "video_unprotectRtcp env packet s =
     (if \<not> vs_dtlsStarted s then (Some packet, s)
      else if \<not> vs_srtpReady s then (None, s)
      else
        let (ok, bytes, c) = unprotectRtcp (vn_srtp env) packet (vs_inboundSrtp s); s1 = s\<lparr>vs_inboundSrtp := c\<rparr>
        in if ok then (Some bytes, s1)
           else (None, video_setError (unprotect_error '' rtcp_len='' (sc_lastError c) packet) s1))"

section \<open>Reacting to feedback\<close>

text \<open>\<open>ntpNow\<close> and \<open>compactNtp\<close> are those of the audio session; \<open>arrival\<close> is the compact time of reading.\<close>

definition computeRttFromReceiverReport :: "u32 \<Rightarrow> u32 \<Rightarrow> u32 \<Rightarrow> u32 option" where
  "computeRttFromReceiverReport arrival lastSenderReport delaySinceLastSenderReport =
     (if lastSenderReport = 0 then None
      else
        let rttUnits = arrival - lastSenderReport - delaySinceLastSenderReport;
            rttMs = (ucast rttUnits * 1000 div 65536 :: u64)
        in Some (if rttMs > 0xFFFFFFFF then 0xFFFFFFFF else ucast rttMs))"

definition publishAdaptiveTarget :: "u64 \<Rightarrow> ('ssl, 's, 'f) ScreenShareSession \<Rightarrow> ('ssl, 's, 'f) ScreenShareSession" where
  "publishAdaptiveTarget nowMs s =
     (let target = bp_target (vs_videoBwePolicy s);
          k = vs_stats s;
          a = vs_adaptive s
      in s\<lparr>vs_stats := k\<lparr>ks_targetBitrateBps := bt_bitrateBps target,
             ks_targetBitrateUpdatedAtMs := (if ks_targetBitrateBps k \<noteq> bt_bitrateBps target then nowMs
               else ks_targetBitrateUpdatedAtMs k)\<rparr>,
           vs_adaptive := a\<lparr>ad_width := bt_width target, ad_height := bt_height target,
             ad_frameRate := bt_frameRate target, ad_suspended := bt_videoSuspended target,
             ad_jitterTargetMs := bt_jitterTargetMs target, ad_profileVersion := bt_version target,
             ad_turnRelayRequested := bt_requestTurnRelay target \<or> ad_turnRelayRequested a\<rparr>,
           vs_forceKeyFramePending := ad_suspended a \<and> \<not> bt_videoSuspended target \<or> vs_forceKeyFramePending s\<rparr>)"

text \<open>The socket as the retransmission sees it, and what is left of it after the packets were sent.\<close>

definition peer_view :: "('ssl, 's) video_env \<Rightarrow> UdpPeerSocket \<Rightarrow> peer_socket" where
  "peer_view env sock =
     \<lparr> ps_isOpen = us_socket sock, ps_hasPeer = us_peerValid sock,
       ps_sendToPeer = (\<lambda>data. fst (sendToPeer (vn_qs env) (vn_rnd env) data sock)) \<rparr>"

fun video_retransmit ::
  "('ssl, 's) video_env \<Rightarrow> u16 list \<Rightarrow> bool \<Rightarrow> ('ssl, 's, 'f) ScreenShareSession \<Rightarrow>
   bool \<times> ('ssl, 's, 'f) ScreenShareSession" where
  "video_retransmit env [] handled s = (handled, s)"
| "video_retransmit env (sequenceNumber # rest) handled s =
     (let (ok, error, packets) = retransmitPacket sequenceNumber (peer_view env (vs_mediaSocket s)) (vs_rtcpActionPipeline s);
          s1 = s\<lparr>vs_mediaSocket := fold (\<lambda>data sock. snd (sendToPeer (vn_qs env) (vn_rnd env) data sock)) packets (vs_mediaSocket s)\<rparr>
      in if \<not> ok then video_retransmit env rest handled (if error \<noteq> [] then video_setError error s1 else s1)
         else video_retransmit env rest True
                (s1\<lparr>vs_stats := (vs_stats s1)\<lparr>ks_retransmitPacketCount := ks_retransmitPacketCount (vs_stats s1) + 1\<rparr>\<rparr>))"

text \<open>One receiver report, with the times read: compact NTP, for the sample, for publishing.\<close>

definition apply_report ::
  "u32 \<Rightarrow> u64 \<Rightarrow> u64 \<Rightarrow> VideoRtcpReceiverReportSample \<Rightarrow> ('ssl, 's, 'f) ScreenShareSession \<Rightarrow> ('ssl, 's, 'f) ScreenShareSession" where
  "apply_report arrival sampleMs nowMs report s =
     (let rtt = computeRttFromReceiverReport arrival (smp_lastSenderReport report) (smp_delaySinceLastSenderReport report);
          sample = \<lparr> bs_fractionLost = smp_fractionLost report, bs_hasRtt = (rtt \<noteq> None),
            bs_rttMs = (case rtt of None \<Rightarrow> 0 | Some r \<Rightarrow> r), bs_nowMs = sampleMs \<rparr>
      in publishAdaptiveTarget nowMs (s\<lparr>vs_videoBwePolicy := snd (onReceiverReport sample (vs_videoBwePolicy s))\<rparr>))"

definition applyRtcpDispatchPlan ::
  "('ssl, 's) video_env \<Rightarrow> u32 \<Rightarrow> u64 \<Rightarrow> VideoRtcpFeedbackDispatchPlan \<Rightarrow> ('ssl, 's, 'f) ScreenShareSession \<Rightarrow>
   bool \<times> ('ssl, 's, 'f) ScreenShareSession" where
  "applyRtcpDispatchPlan env arrival nowMs plan s =
     (if \<not> hasActions plan then (False, s)
      else
        let (handled, s1) = video_retransmit env (pl_retransmitSequenceNumbers plan) False s;
            s2 = (if pl_requestKeyFrame plan
                  then s1\<lparr>vs_forceKeyFramePending := True,
                          vs_stats := (vs_stats s1)\<lparr>ks_keyframeRequestCount := ks_keyframeRequestCount (vs_stats s1) + 1\<rparr>\<rparr>
                  else s1);
            s3 = (if pl_hasTargetBitrate plan
                  then publishAdaptiveTarget nowMs
                         (s2\<lparr>vs_videoBwePolicy := snd (onRembTarget (pl_targetBitrateBps plan) (vs_videoBwePolicy s2))\<rparr>)
                  else s2);
            s4 = fold (apply_report arrival nowMs nowMs) (pl_receiverReports plan) s3
        in (handled \<or> pl_requestKeyFrame plan \<or> pl_hasTargetBitrate plan \<or> pl_receiverReports plan \<noteq> [], s4))"

end
