(* ===== verification/VideoSecurity.thy ===== *)
theory VideoSecurity
  imports VideoSession
begin

text \<open>
  What holds of a video session whatever is done with it. The transport of the video session is
  separate code from that of the audio session; seen as an audio session without its error text it
  makes the same moves, so that what was shown of the one holds of the other.
\<close>

section \<open>The video session as an audio session\<close>

definition call_env :: "('ssl, 's) video_env \<Rightarrow> ('ssl, 's, unit) audio_env" where
  "call_env env = \<lparr> ae_qs = vn_qs env, ae_rnd = vn_rnd env, ae_ssl = vn_ssl env, ae_srtp = vn_srtp env,
     ae_decode = \<lambda>_ d. (Inl [], d), ae_enqueueFrame = \<lambda>_. True, ae_playerFrameSamples = 960 \<rparr>"

lemma call_env_sel [simp]:
  "ae_qs (call_env env) = vn_qs env" "ae_rnd (call_env env) = vn_rnd env" "ae_ssl (call_env env) = vn_ssl env"
  "ae_srtp (call_env env) = vn_srtp env"
  by (simp_all add: call_env_def)

definition quiet_call :: "('ssl, 's, unit) AudioCallSession" where
  "quiet_call = AudioCallSession_new \<lparr> cfg_localAddress = [], cfg_localPort = 0, cfg_peerAddress = [], cfg_peerPort = 0,
     cfg_sampleRate = 48000, cfg_channels = 1, cfg_frameSamples = 960, cfg_bitrate = 32000, cfg_jitterPackets = 32,
     cfg_allowSelfPlayback = False \<rparr> 0 ()"

definition call_view :: "('ssl, 's, 'f) ScreenShareSession \<Rightarrow> ('ssl, 's, unit) AudioCallSession" where
  "call_view s = quiet_call\<lparr>as_lastError := [], as_dtlsStarted := vs_dtlsStarted s, as_iceConnected := vs_iceConnected s,
     as_dtlsConnected := vs_dtlsConnected s, as_srtpReady := vs_srtpReady s, as_mediaSocket := vs_mediaSocket s,
     as_dtlsTransport := vs_dtlsTransport s, as_dtlsHandshakePackets := vs_dtlsHandshakePackets s,
     as_lastDtlsHandshakeSendAt := vs_lastDtlsHandshakeSendAt s, as_inboundSrtp := vs_inboundSrtp s,
     as_outboundSrtp := vs_outboundSrtp s\<rparr>"

text \<open>An audio session that looks like the transport of the video session.\<close>

definition sees :: "('ssl, 's, unit) AudioCallSession \<Rightarrow> ('ssl, 's, 'f) ScreenShareSession \<Rightarrow> bool" where
  "sees a s \<longleftrightarrow> as_dtlsStarted a = vs_dtlsStarted s \<and> as_iceConnected a = vs_iceConnected s \<and>
     as_dtlsConnected a = vs_dtlsConnected s \<and> as_srtpReady a = vs_srtpReady s \<and> as_mediaSocket a = vs_mediaSocket s \<and>
     as_dtlsTransport a = vs_dtlsTransport s \<and> as_dtlsHandshakePackets a = vs_dtlsHandshakePackets s \<and>
     as_lastDtlsHandshakeSendAt a = vs_lastDtlsHandshakeSendAt s \<and> as_inboundSrtp a = vs_inboundSrtp s \<and>
     as_outboundSrtp a = vs_outboundSrtp s"

definition sees_result :: "'r \<times> ('ssl, 's, unit) AudioCallSession \<Rightarrow> 'r \<times> ('ssl, 's, 'f) ScreenShareSession \<Rightarrow> bool" where
  "sees_result x y \<longleftrightarrow> fst x = fst y \<and> sees (snd x) (snd y)"

lemma sees_call_view: "sees (call_view s) s"
  by (simp add: sees_def call_view_def)

lemma sees_sel:
  assumes "sees a s"
  shows "as_dtlsStarted a = vs_dtlsStarted s" "as_iceConnected a = vs_iceConnected s"
    "as_dtlsConnected a = vs_dtlsConnected s" "as_srtpReady a = vs_srtpReady s" "as_mediaSocket a = vs_mediaSocket s"
    "as_dtlsTransport a = vs_dtlsTransport s" "as_dtlsHandshakePackets a = vs_dtlsHandshakePackets s"
    "as_lastDtlsHandshakeSendAt a = vs_lastDtlsHandshakeSendAt s" "as_inboundSrtp a = vs_inboundSrtp s"
    "as_outboundSrtp a = vs_outboundSrtp s"
  using assms by (simp_all add: sees_def)

lemma sees_upd:
  assumes "sees a s"
  shows "sees (a\<lparr>as_mediaSocket := k\<rparr>) (s\<lparr>vs_mediaSocket := k\<rparr>)"
    "sees (a\<lparr>as_dtlsTransport := c\<rparr>) (s\<lparr>vs_dtlsTransport := c\<rparr>)"
    "sees (a\<lparr>as_dtlsHandshakePackets := ps\<rparr>) (s\<lparr>vs_dtlsHandshakePackets := ps\<rparr>)"
    "sees (a\<lparr>as_lastDtlsHandshakeSendAt := t\<rparr>) (s\<lparr>vs_lastDtlsHandshakeSendAt := t\<rparr>)"
    "sees (a\<lparr>as_dtlsStarted := b\<rparr>) (s\<lparr>vs_dtlsStarted := b\<rparr>)"
    "sees (a\<lparr>as_inboundSrtp := i, as_outboundSrtp := j\<rparr>) (s\<lparr>vs_inboundSrtp := i, vs_outboundSrtp := j\<rparr>)"
    "sees (a\<lparr>as_outboundSrtp := j\<rparr>) (s\<lparr>vs_outboundSrtp := j\<rparr>)"
    "sees (a\<lparr>as_inboundSrtp := i\<rparr>) (s\<lparr>vs_inboundSrtp := i\<rparr>)"
    "sees (a\<lparr>as_dtlsConnected := b, as_srtpReady := d\<rparr>) (s\<lparr>vs_dtlsConnected := b, vs_srtpReady := d, vs_forceKeyFramePending := e\<rparr>)"
    "sees (setErrorLocked m a) (video_setError m' s)"
  using assms by (simp_all add: sees_def setErrorLocked_def video_setError_def)

section \<open>The same moves\<close>

lemma sees_send: "sees a s \<Longrightarrow> sees_result (session_send (call_env env) d t a) (video_send env d t s)"
  by (auto simp: sees_result_def session_send_def video_send_def sees_sel(5) intro: sees_upd split: prod.split)

lemma sees_send_packets:
  "sees a s \<Longrightarrow> sees_result (send_packets (call_env env) e ps t a) (video_send_packets env e' ps t s)"
proof (induction ps arbitrary: a s)
  case (Cons p ps)
  obtain n a1 where x: "session_send (call_env env) p t a = (n, a1)" by fastforce
  obtain s1 where y: "video_send env p t s = (n, s1)" and s: "sees a1 s1"
    using sees_send [OF Cons.prems, of env p t] x by (cases "video_send env p t s") (auto simp: sees_result_def)
  show ?case using x y s Cons.IH [OF s] sees_upd(10) [OF s] by (auto simp: sees_result_def)
qed (simp add: sees_result_def)

lemma sees_cached:
  assumes "sees a s"
  shows "sees_result (sendCachedDtlsHandshakeLocked (call_env env) now peer a) (video_sendCachedDtlsHandshake env now peer s)"
proof -
  obtain ok a1 where x: "send_packets (call_env env) ''DTLS handshake send failed'' (vs_dtlsHandshakePackets s) peer a = (ok, a1)"
    by fastforce
  obtain s1 where y: "video_send_packets env ''video DTLS handshake send failed'' (vs_dtlsHandshakePackets s) peer s = (ok, s1)"
    and s: "sees a1 s1"
    using sees_send_packets [OF assms, of env "''DTLS handshake send failed''" "vs_dtlsHandshakePackets s" peer
        "''video DTLS handshake send failed''"] x
    by (cases "video_send_packets env ''video DTLS handshake send failed'' (vs_dtlsHandshakePackets s) peer s")
      (auto simp: sees_result_def)
  show ?thesis
    using x y s assms sees_upd(4) [OF s]
    by (auto simp: sees_result_def sendCachedDtlsHandshakeLocked_def video_sendCachedDtlsHandshake_def sees_sel [OF assms] Let_def)
qed

lemma sees_dtls:
  assumes "sees a s"
  shows "sees_result (startDtlsSrtp (call_env env) now fp a) (video_startDtlsSrtp env now fp s)"
proof -
  obtain ok out c where st: "DtlsTransportClient_start (vn_ssl env) fp True (vs_dtlsTransport s) = (ok, out, c)"
    by (metis prod_cases3)
  note f = sees_sel [OF assms]
  have s1: "sees (a\<lparr>as_dtlsTransport := c\<rparr>) (s\<lparr>vs_dtlsTransport := c\<rparr>)" using assms by (rule sees_upd)
  have s2: "sees (a\<lparr>as_dtlsTransport := c, as_dtlsHandshakePackets := out\<rparr>) (s\<lparr>vs_dtlsTransport := c, vs_dtlsHandshakePackets := out\<rparr>)"
    using sees_upd(3) [OF s1] by simp
  show ?thesis
    using sees_cached [OF sees_upd(5) [OF s1, of True], of env now "us_peer (vs_mediaSocket s)"]
      sees_cached [OF sees_upd(5) [OF s2, of True], of env now "us_peer (vs_mediaSocket s)"] sees_upd(10) [OF s1] assms st f
    by (auto simp: startDtlsSrtp_def video_startDtlsSrtp_def sees_result_def Let_def)
qed

lemma sees_configure:
  assumes "sees a s"
  shows "sees_result (configureSrtpLocked (call_env env) a) (video_configureSrtp env s)"
proof -
  note f = sees_sel [OF assms]
  show ?thesis
  proof (cases "vs_srtpReady s \<or> \<not> dc_connected (vs_dtlsTransport s)")
    case True
    then show ?thesis using assms f by (auto simp: configureSrtpLocked_def video_configureSrtp_def sees_result_def)
  next
    case False
    show ?thesis
    proof (cases "exportSrtpKeyMaterial (vn_ssl env) (masterKeyLength (vn_srtp env)) (masterSaltLength (vn_srtp env)) (vs_dtlsTransport s)")
      case None
      then show ?thesis
        using False f sees_upd(10) [OF assms] by (simp add: configureSrtpLocked_def video_configureSrtp_def sees_result_def)
    next
      case (Some keying)
      obtain okIn i where i: "SRTPContext_configure (vn_srtp env) (remoteKey keying) (remoteSalt keying) Inbound 0 (vs_inboundSrtp s) = (okIn, i)"
        by fastforce
      obtain okOut j where j: "(if okIn then SRTPContext_configure (vn_srtp env) (localKey keying) (localSalt keying) Outbound 0 (vs_outboundSrtp s)
          else (False, vs_outboundSrtp s)) = (okOut, j)" by fastforce
      note up = sees_upd(6) [OF assms, of j i]
      have "sees (a\<lparr>as_inboundSrtp := i, as_outboundSrtp := j, as_dtlsConnected := True, as_srtpReady := True\<rparr>)
        (s\<lparr>vs_inboundSrtp := i, vs_outboundSrtp := j, vs_dtlsConnected := True, vs_srtpReady := True, vs_forceKeyFramePending := True\<rparr>)"
        using sees_upd(9) [OF up] by simp
      moreover have "sees (setErrorLocked m (a\<lparr>as_inboundSrtp := i, as_outboundSrtp := j\<rparr>))
        (video_setError m' (s\<lparr>vs_inboundSrtp := i, vs_outboundSrtp := j\<rparr>))" for m m'
        by (rule sees_upd(10) [OF up])
      ultimately show ?thesis
        using False j by (cases okIn) (auto simp: configureSrtpLocked_def video_configureSrtp_def sees_result_def f Some i Let_def)
    qed
  qed
qed

lemma sees_handle:
  assumes "sees a s"
  shows "sees_result (handleDtlsPacketLocked (call_env env) data sender a) (video_handleDtlsPacket env data sender s)"
proof -
  obtain ok out c where h: "handleIncomingDatagram (vn_ssl env) data True (vs_dtlsTransport s) = (ok, out, c)"
    by (metis prod_cases3)
  note f = sees_sel [OF assms]
  have s1: "sees (a\<lparr>as_dtlsTransport := c\<rparr>) (s\<lparr>vs_dtlsTransport := c\<rparr>)" using assms by (rule sees_upd)
  obtain ok1 a2 where x: "send_packets (call_env env) ''DTLS response send failed'' out sender (a\<lparr>as_dtlsTransport := c\<rparr>) = (ok1, a2)"
    by fastforce
  obtain s2 where y: "video_send_packets env ''video DTLS response send failed'' out sender (s\<lparr>vs_dtlsTransport := c\<rparr>) = (ok1, s2)"
    and s2: "sees a2 s2"
    using sees_send_packets [OF s1, of env "''DTLS response send failed''" out sender "''video DTLS response send failed''"] x
    by (cases "video_send_packets env ''video DTLS response send failed'' out sender (s\<lparr>vs_dtlsTransport := c\<rparr>)")
      (auto simp: sees_result_def)
  show ?thesis
    using sees_configure [OF s2, of env] sees_upd(10) [OF s1] s2 assms h x y f
    by (auto simp: handleDtlsPacketLocked_def video_handleDtlsPacket_def sees_result_def Let_def)
qed

section \<open>Invariant of the session\<close>

text \<open>What the send loop reads of the policy's target was published.\<close>

definition published :: "('ssl, 's, 'f) ScreenShareSession \<Rightarrow> bool" where
  "published s \<longleftrightarrow> (let a = vs_adaptive s; t = bp_target (vs_videoBwePolicy s) in
     ad_width a = bt_width t \<and> ad_height a = bt_height t \<and> ad_frameRate a = bt_frameRate t \<and>
     ad_suspended a = bt_videoSuspended t \<and> ad_jitterTargetMs a = bt_jitterTargetMs t)"

definition capture_ok :: "ScreenCaptureConfig \<Rightarrow> bool" where
  "capture_ok c \<longleftrightarrow> 2 \<le> sc_targetWidth c \<and> sc_targetWidth c \<le> 2560 \<and> 2 \<le> sc_targetHeight c \<and>
     sc_targetHeight c \<le> 1600 \<and> 1 \<le> sc_frameRate c \<and> sc_frameRate c \<le> 30"

definition control_inv :: "('ssl, 's, 'f) ScreenShareSession \<Rightarrow> bool" where
  "control_inv s \<longleftrightarrow> vc_width (vs_config s) < 2 ^ 31 \<and> bwe_ok (vs_videoBwePolicy s) \<and>
     (vs_running s \<longrightarrow> us_socket (vs_mediaSocket s) \<and> vs_recvThread s) \<and>
     (vs_sharingEnabled s \<or> vs_cameraSendingEnabled s \<longrightarrow>
        vs_running s \<and> vs_sendThread s \<and> snd_ssrc (vs_sender s) \<noteq> 0 \<and> published s) \<and>
     (\<forall>r c. vs_capture s = Some (r, c) \<longrightarrow> capture_ok c)"

definition control_part where
  "control_part s = (vc_width (vs_config s), vs_videoBwePolicy s, vs_running s, us_socket (vs_mediaSocket s),
     vs_recvThread s, vs_sharingEnabled s, vs_cameraSendingEnabled s, vs_sendThread s, snd_ssrc (vs_sender s),
     vs_adaptive s, vs_capture s)"

lemma control_part_inv: "control_part s' = control_part s \<Longrightarrow> control_inv s' = control_inv s"
  by (simp add: control_part_def control_inv_def published_def Let_def)

definition video_inv :: "('ssl, 's) video_env \<Rightarrow> string \<Rightarrow> ('ssl, 's, 'f) ScreenShareSession \<Rightarrow> bool" where
  "video_inv env fp s \<longleftrightarrow> audio_inv (call_env env) fp (call_view s) \<and> control_inv s"

lemma quiet_inv: "rate_inv (call_view s)" "jitter_inv (as_jitter (call_view s))"
proof -
  have "audio_inv undefined [] (quiet_call :: ('a, 'b, unit) AudioCallSession)" unfolding quiet_call_def by (rule audio_inv_new)
  then show "rate_inv (call_view s)" "jitter_inv (as_jitter (call_view s))"
    by (simp_all add: audio_inv_def rate_inv_def call_view_def)
qed

lemma view_inv:
  assumes "sees a s" "audio_inv env fp a"
  shows "audio_inv env fp (call_view s)"
  using assms(2) quiet_inv [of s] sees_sel [OF assms(1)]
  by (simp add: audio_inv_def secure_inv_def Let_def call_view_def)

text \<open>Operations that move like the audio session's, and operations that leave the keys alone.\<close>

lemma video_inv_move:
  assumes "sees_result x y" "snd x = a" "audio_inv (call_env env) fp a" "control_part (snd y) = control_part s" "video_inv env fp s"
  shows "video_inv env fp (snd y)"
  using assms view_inv [of a "snd y"] control_part_inv [of "snd y" s] by (auto simp: video_inv_def sees_result_def)

definition key_part where
  "key_part s = (dtls_view (vs_dtlsTransport s), vs_srtpReady s, SRTPContext_configured (vs_inboundSrtp s),
     SRTPContext_configured (vs_outboundSrtp s))"

lemma view_same:
  assumes "key_part s' = key_part s" "us_inv (vs_mediaSocket s')" "audio_inv env fp (call_view s)"
  shows "audio_inv env fp (call_view s')"
  using assms quiet_inv [of s'] by (simp add: audio_inv_def secure_inv_def Let_def call_view_def key_part_def)

lemma video_inv_same:
  assumes "key_part s' = key_part s" "us_inv (vs_mediaSocket s')" "control_inv s'" "video_inv env fp s"
  shows "video_inv env fp s'"
  using assms view_same by (auto simp: video_inv_def)

lemma video_sock: "video_inv env fp s \<Longrightarrow> us_inv (vs_mediaSocket s)"
  by (simp add: video_inv_def audio_inv_def call_view_def)

lemma video_inv_quiet:
  assumes "key_part s' = key_part s" "vs_mediaSocket s' = vs_mediaSocket s" "control_part s' = control_part s" "video_inv env fp s"
  shows "video_inv env fp s'"
  using assms video_inv_same [OF assms(1) _ _ assms(4)] video_sock [OF assms(4)] control_part_inv [OF assms(3)]
  by (simp add: video_inv_def)

lemma video_inv_error [simp]: "video_inv env fp (video_setError m s) = video_inv env fp s"
  by (rule iffI; erule video_inv_quiet [rotated 3]) (simp_all add: video_setError_def key_part_def control_part_def)

lemma control_error [simp]:
  "control_part (video_setError m s) = control_part s" "key_part (video_setError m s) = key_part s"
  "vs_mediaSocket (video_setError m s) = vs_mediaSocket s"
  by (simp_all add: video_setError_def key_part_def control_part_def)

lemma video_send_keeps:
  assumes "video_send env d t s = (n, s')"
  shows "control_part s' = control_part s" "key_part s' = key_part s" "us_inv (vs_mediaSocket s') = us_inv (vs_mediaSocket s)"
proof -
  obtain m k where k: "sendTo (vn_qs env) (vn_rnd env) d t (vs_mediaSocket s) = (m, k)" by fastforce
  have s': "s' = s\<lparr>vs_mediaSocket := k\<rparr>" using assms k by (simp add: video_send_def)
  have r: "same_routing (vs_mediaSocket s) k" using sendTo_keeps [OF k] by simp
  show "control_part s' = control_part s" "key_part s' = key_part s"
    using r by (simp_all add: s' control_part_def key_part_def same_routing_def)
  show "us_inv (vs_mediaSocket s') = us_inv (vs_mediaSocket s)" using same_routing_inv [OF r] by (simp add: s')
qed

lemma video_send_inv: "video_send env d t s = (n, s') \<Longrightarrow> video_inv env fp s \<Longrightarrow> video_inv env fp s'"
  using video_inv_same [of s' s env fp] video_send_keeps [of env d t s n s'] video_sock [of env fp s] control_part_inv [of s' s]
  by (simp add: video_inv_def)

lemma control_send_packets: "control_part (snd (video_send_packets env e ps t s)) = control_part s"
proof (induction ps arbitrary: s)
  case (Cons p ps)
  obtain n s1 where x: "video_send env p t s = (n, s1)" by fastforce
  show ?case using Cons.IH [of s1] video_send_keeps(1) [OF x] x by auto
qed simp

lemma control_cached: "control_part (snd (video_sendCachedDtlsHandshake env now peer s)) = control_part s"
proof -
  obtain ok s1 where x: "video_send_packets env ''video DTLS handshake send failed'' (vs_dtlsHandshakePackets s) peer s = (ok, s1)"
    by fastforce
  have "control_part s1 = control_part s"
    using control_send_packets [of env "''video DTLS handshake send failed''" "vs_dtlsHandshakePackets s" peer s] x by simp
  moreover have "control_part (s1\<lparr>vs_lastDtlsHandshakeSendAt := t\<rparr>) = control_part s1" for t by (simp add: control_part_def)
  ultimately show ?thesis using x by (auto simp: video_sendCachedDtlsHandshake_def)
qed

lemma control_dtls: "control_part (snd (video_startDtlsSrtp env now fp s)) = control_part s"
proof -
  have "control_part (snd (video_sendCachedDtlsHandshake env now peer (s1\<lparr>vs_dtlsStarted := True\<rparr>))) = control_part s1" for peer and s1 :: "('a, 'b, 'c) ScreenShareSession"
    using control_cached [of env now peer "s1\<lparr>vs_dtlsStarted := True\<rparr>"] by (simp add: control_part_def)
  then show ?thesis
    by (auto simp: video_startDtlsSrtp_def Let_def control_part_def video_setError_def split: prod.split)
qed

lemma control_configure: "control_part (snd (video_configureSrtp env s)) = control_part s"
  by (auto simp: video_configureSrtp_def Let_def control_part_def video_setError_def split: prod.split option.split)

lemma control_handle: "control_part (snd (video_handleDtlsPacket env data sender s)) = control_part s"
proof -
  obtain ok out c where h: "handleIncomingDatagram (vn_ssl env) data True (vs_dtlsTransport s) = (ok, out, c)"
    by (metis prod_cases3)
  obtain sent s2 where x: "video_send_packets env ''video DTLS response send failed'' out sender (s\<lparr>vs_dtlsTransport := c\<rparr>) = (sent, s2)"
    by fastforce
  have c1: "control_part (s\<lparr>vs_dtlsTransport := c\<rparr>) = control_part s" by (simp add: control_part_def)
  have "control_part s2 = control_part s"
    using control_send_packets [of env "''video DTLS response send failed''" out sender "s\<lparr>vs_dtlsTransport := c\<rparr>"] x c1 by simp
  then show ?thesis
    using h x c1 control_configure [of env s2] by (simp add: video_handleDtlsPacket_def Let_def)
qed

lemma video_dtls_inv:
  assumes "video_startDtlsSrtp env now fp s = (ok, s')" "video_inv env fp s"
  shows "video_inv env fp s'"
proof -
  have "audio_inv (call_env env) fp (snd (startDtlsSrtp (call_env env) now fp (call_view s)))"
    by (rule audio_dtls_inv [OF surjective_pairing]) (use assms(2) in \<open>simp add: video_inv_def\<close>)
  then show ?thesis
    using video_inv_move [OF sees_dtls [OF sees_call_view] refl _ control_dtls assms(2)] assms(1) by (metis snd_conv)
qed

lemma video_handle_inv:
  assumes "handshake_stays_complete (ssl_api (vn_ssl env))" "peer_certificate_fixed (ssl_api (vn_ssl env))"
    and "video_handleDtlsPacket env data sender s = (ok, s')" "video_inv env fp s"
  shows "video_inv env fp s'"
proof -
  have "audio_inv (call_env env) fp (snd (handleDtlsPacketLocked (call_env env) data sender (call_view s)))"
    by (rule handleDtls_inv [OF surjective_pairing]) (use assms(1,2,4) in \<open>simp_all add: video_inv_def\<close>)
  then show ?thesis
    using video_inv_move [OF sees_handle [OF sees_call_view] refl _ control_handle assms(4)] assms(3) by (metis snd_conv)
qed

section \<open>The other operations\<close>

definition session_part where
  "session_part s = (key_part s, vs_mediaSocket s, control_part s, vs_dtlsStarted s, vs_srtpReady s)"

lemma session_part_error [simp]: "session_part (video_setError m s) = session_part s"
  by (simp add: session_part_def video_setError_def key_part_def control_part_def)

lemma session_part_srtp:
  "SRTPContext_configured c = SRTPContext_configured (vs_outboundSrtp s) \<Longrightarrow> session_part (s\<lparr>vs_outboundSrtp := c\<rparr>) = session_part s"
  "SRTPContext_configured c = SRTPContext_configured (vs_inboundSrtp s) \<Longrightarrow> session_part (s\<lparr>vs_inboundSrtp := c\<rparr>) = session_part s"
  by (simp_all add: session_part_def key_part_def control_part_def)

lemma video_packet_part:
  "session_part (snd (video_protectRtp env p s)) = session_part s"
  "session_part (snd (video_protectRtcp env p s)) = session_part s"
  "session_part (snd (video_unprotectRtp env p s)) = session_part s"
  "session_part (snd (video_unprotectRtcp env p s)) = session_part s"
  by (simp_all add: video_protectRtp_def video_protectRtcp_def video_unprotectRtp_def video_unprotectRtcp_def Let_def
      case_prod_beta session_part_srtp packet_call_keys)

lemma session_part_inv: "session_part s' = session_part s \<Longrightarrow> video_inv env fp s \<Longrightarrow> video_inv env fp s'"
  by (rule video_inv_quiet [of s' s]) (simp_all add: session_part_def)

lemma video_setPeer_inv:
  assumes "video_inv env fp s"
  shows "video_inv env fp (ScreenShareSession_setPeer env a p s)"
proof (cases "us_peerValid (vs_mediaSocket s) \<and> vc_peerAddress (vs_config s) = a \<and> vc_peerPort (vs_config s) = p")
  case False
  define k where "k = disableTurnRelay (vs_mediaSocket s)"
  define k' where "k' = (if us_socket k then snd (socket_setPeer (vn_qs env) a p k) else k)"
  have s': "ScreenShareSession_setPeer env a p s =
      s\<lparr>vs_config := (vs_config s)\<lparr>vc_peerAddress := a, vc_peerPort := p\<rparr>, vs_mediaSocket := k'\<rparr>"
    using False unfolding ScreenShareSession_setPeer_def k'_def k_def Let_def by (simp only: if_False)
  have "us_inv k" using us_inv_step [OF socket_step.relay_off] video_sock [OF assms] by (auto simp: k_def)
  then have "us_inv k'" using us_inv_step [OF socket_step.peer [OF surjective_pairing]] by (auto simp: k'_def)
  moreover have "us_socket k' = us_socket (vs_mediaSocket s)"
    by (auto simp: k'_def k_def disableTurnRelay_def socket_setPeer_def split: option.split)
  ultimately show ?thesis
    using assms unfolding s'
    by (intro video_inv_same [OF _ _ _ assms])
      (simp_all add: key_part_def video_inv_def control_inv_def published_def)
qed (use assms in \<open>simp add: ScreenShareSession_setPeer_def\<close>)

lemma video_relay_inv:
  assumes "ScreenShareSession_configureTurnRelay env qc cs a p ta tp u c pa pp s = Some (ok, s')" "video_inv env fp s"
  shows "video_inv env fp s'"
proof (cases "us_socket (vs_mediaSocket s)")
  case True
  then obtain e k where k: "configureTurnRelay (vn_qs env) qc cs a p ta tp u c pa pp (vs_mediaSocket s) = Some (e, k)"
    using assms(1) by (auto simp: ScreenShareSession_configureTurnRelay_def bind_eq_Some_conv)
  define s1 where "s1 = s\<lparr>vs_config := (vs_config s)\<lparr>vc_peerAddress := pa, vc_peerPort := pp\<rparr>, vs_mediaSocket := k\<rparr>"
  have "us_socket k = us_socket (vs_mediaSocket s)"
    using configureTurnRelay_outcome [of "vn_qs env" qc cs a p ta tp u c pa pp "vs_mediaSocket s"] k
    by (cases e) (auto simp: same_routing_def)
  then have "video_inv env fp s1"
    using us_inv_step [OF socket_step.relay_on [OF k] video_sock [OF assms(2)]] assms(2)
    by (intro video_inv_same [OF _ _ _ assms(2)])
      (simp_all add: s1_def key_part_def video_inv_def control_inv_def published_def)
  moreover have "s' = s1 \<or> (\<exists>m. s' = video_setError m s1)"
    using assms(1) True k by (cases e) (auto simp: ScreenShareSession_configureTurnRelay_def s1_def Let_def)
  ultimately show ?thesis by auto
qed (use assms in \<open>simp add: ScreenShareSession_configureTurnRelay_def, auto\<close>)

lemma video_prepare_inv:
  assumes "video_prepareDtlsFingerprint env s = (f, s')" "video_inv env fp s"
  shows "video_inv env fp s'"
proof -
  obtain ok c where c: "prepareLocalFingerprint (vn_ssl env) (vs_dtlsTransport s) = (ok, c)" by fastforce
  then have v: "dtls_view c = dtls_view (vs_dtlsTransport s)"
    by (auto simp: prepareLocalFingerprint_def dest: ensureLocalIdentity_view)
  have "video_inv env fp (s\<lparr>vs_dtlsTransport := c\<rparr>)"
    by (rule video_inv_quiet [OF _ _ _ assms(2)]) (simp_all add: key_part_def control_part_def v)
  then show ?thesis using assms(1) c by (auto simp: video_prepareDtlsFingerprint_def Let_def split: if_splits)
qed

lemma video_probe_inv:
  assumes "video_sendTransportProbe env packet s = Some (ok, s')" "video_inv env fp s"
  shows "video_inv env fp s'"
proof -
  have c: "video_inv env fp (s\<lparr>vs_rtcpActionPipeline := x\<rparr>)" for x
    by (rule video_inv_quiet [OF _ _ _ assms(2)]) (simp_all add: key_part_def control_part_def)
  show ?thesis
  proof (cases "packet = [] \<or> \<not> us_socket (vs_mediaSocket s) \<or> \<not> us_peerValid (vs_mediaSocket s)")
    case False
    then obtain parsed where p: "parsePacket packet = Some parsed"
      using assms(1) by (auto simp: video_sendTransportProbe_def bind_eq_Some_conv)
    define s1 where "s1 = (case parsed of None \<Rightarrow> s
             | Some rtpProbe \<Rightarrow>
                 if h_ssrc (p_header rtpProbe) = snd_ssrc (vs_sender s)
                 then s\<lparr>vs_rtcpActionPipeline :=
                        cacheSentPacket (h_sequenceNumber (p_header rtpProbe)) packet (vs_rtcpActionPipeline s)\<rparr>
                 else s)"
    have "video_inv env fp s1" using c assms(2) by (simp add: s1_def split: option.split)
    moreover have "s' = snd (video_send env packet (us_peer (vs_mediaSocket s1)) s1)"
      using assms(1) False p by (simp add: video_sendTransportProbe_def Let_def case_prod_beta flip: s1_def)
    ultimately show ?thesis using video_send_inv [OF surjective_pairing] by blast
  qed (use assms in \<open>auto simp: video_sendTransportProbe_def split: if_splits\<close>)
qed

lemma video_ssrc_inv: "video_inv env fp s \<Longrightarrow> video_inv env fp (setVideoSsrc n s)"
  by (rule video_inv_same [of _ s])
    (auto simp: setVideoSsrc_def key_part_def video_inv_def control_inv_def published_def setSSRC_def dest: video_sock
      intro: video_sock)

lemma socket_opened: "socket_open qs a p k = (None, k') \<Longrightarrow> us_socket k'"
  by (auto simp: socket_open_def Let_def clearSocketError_def setReadTimeoutMs_def setSocketError_def split: if_splits option.splits)

lemma control_idle:
  "control_inv s \<Longrightarrow> \<not> vs_running s \<Longrightarrow> \<not> vs_sharingEnabled s \<and> \<not> vs_cameraSendingEnabled s"
  by (auto simp: control_inv_def)

lemma video_start_inv:
  assumes "ScreenShareSession_start env s = (ok, s')" "video_inv env fp s"
  shows "video_inv env fp s' \<and> (ok \<longrightarrow> vs_running s')"
proof (cases "vs_running s")
  case False
  define s0 where "s0 = s\<lparr>vs_lastError := []\<rparr>"
  have idle: "\<not> vs_sharingEnabled s \<and> \<not> vs_cameraSendingEnabled s"
    using control_idle False assms(2) by (auto simp: video_inv_def)
  have ci: "control_inv s" using assms(2) by (simp add: video_inv_def)
  obtain e k where o: "socket_open (vn_qs env) (vc_localAddress (vs_config s0)) (vc_localPort (vs_config s0)) (vs_mediaSocket s0) = (e, k)"
    by fastforce
  have k: "us_inv k" using us_inv_open [OF o] video_sock [OF assms(2)] by (simp add: s0_def)
  show ?thesis
  proof (cases e)
    case (Some m)
    then have "s' = video_setError (if m = [] then ''socket setup failed'' else m) (s0\<lparr>vs_mediaSocket := socket_close k\<rparr>)" "\<not> ok"
      using assms(1) False o by (auto simp: ScreenShareSession_start_def planSessionStart_def video_openSocket_def s0_def)
    moreover have "video_inv env fp (s0\<lparr>vs_mediaSocket := socket_close k\<rparr>)"
      using us_inv_close [OF k] ci False idle
      by (intro video_inv_same [OF _ _ _ assms(2)]) (simp_all add: s0_def key_part_def control_inv_def)
    ultimately show ?thesis by simp
  next
    case None
    have o1: "us_socket k" using o None by (auto dest: socket_opened)
    obtain r k2 where q: "socket_setPeer (vn_qs env) (vc_peerAddress (vs_config s0)) (vc_peerPort (vs_config s0)) (clearSocketError k) = (r, k2)"
      by fastforce
    have "us_inv (clearSocketError k)" using k by (simp add: us_inv_def clearSocketError_def setSocketError_def)
    then have "us_inv (setReadTimeoutMs 50 k2)"
      using us_inv_step [OF socket_step.peer [OF q]] us_inv_step [OF socket_step.timeout] by blast
    moreover have "us_socket (setReadTimeoutMs 50 k2)"
      using q o1 by (auto simp: socket_setPeer_def setReadTimeoutMs_def clearSocketError_def setSocketError_def split: option.splits)
    moreover have "s' = s0\<lparr>vs_mediaSocket := setReadTimeoutMs 50 k2, vs_running := True, vs_recvThread := True\<rparr>" "ok"
      using assms(1) False o None o1 q
      by (auto simp: ScreenShareSession_start_def planSessionStart_def video_openSocket_def configureSocketBuffers_def s0_def Let_def)
    ultimately show ?thesis
      using ci idle by (auto intro!: video_inv_same [OF _ _ _ assms(2)] simp: s0_def key_part_def control_inv_def)
  qed
qed (use assms in \<open>simp add: ScreenShareSession_start_def planSessionStart_def\<close>)

lemma video_stop_inv:
  assumes "video_inv env fp s"
  shows "video_inv env fp (ScreenShareSession_stop s) \<and> \<not> vs_running (ScreenShareSession_stop s)"
proof -
  let ?s = "ScreenShareSession_stop s"
  have ci: "control_inv s" using assms by (simp add: video_inv_def)
  show ?thesis
  proof (cases "\<not> vs_running s \<and> \<not> vs_sendThread s \<and> \<not> vs_recvThread s")
    case True
    then have "?s = s\<lparr>vs_running := False\<rparr>" by (simp add: ScreenShareSession_stop_def planSessionStop_def Let_def)
    moreover have "s\<lparr>vs_running := False\<rparr> = s" using True by simp
    ultimately show ?thesis using assms True by simp
  next
    case False
    have f: "vs_dtlsTransport ?s = vs_dtlsTransport s" "\<not> vs_srtpReady ?s"
      "vs_mediaSocket ?s = socket_close (interruptWaiters (vs_mediaSocket s))" "vs_config ?s = vs_config s"
      "vs_videoBwePolicy ?s = vs_videoBwePolicy s" "\<not> vs_running ?s" "\<not> vs_sharingEnabled ?s" "\<not> vs_cameraSendingEnabled ?s"
      "vs_capture ?s = None"
      using False
      by (auto simp: ScreenShareSession_stop_def planSessionStop_def Let_def stop_flags_def stopCaptureLocked_def
          stopCameraCaptureLocked_def stopCameraFallbackCaptureLocked_def)
    have "us_inv (vs_mediaSocket ?s)"
      using us_inv_close [OF us_inv_step [OF socket_step.interrupt video_sock [OF assms]]] f by simp
    then have "audio_inv (call_env env) fp (call_view ?s)"
      using assms quiet_inv [of ?s] f by (simp add: video_inv_def audio_inv_def secure_inv_def Let_def call_view_def)
    then show ?thesis using ci f by (simp add: video_inv_def control_inv_def)
  qed
qed

lemma capture_part:
  assumes "startCaptureLocked env cp hw s = (ok, s')" "video_inv env fp s"
  shows "video_inv env fp s' \<and> vs_running s' = vs_running s \<and> vs_configuredVideoSsrc s' = vs_configuredVideoSsrc s \<and>
    vs_sharingEnabled s' = vs_sharingEnabled s \<and> vs_cameraSendingEnabled s' = vs_cameraSendingEnabled s"
proof -
  obtain w h where d: "clampScreenShareDimensions (vc_width (vs_config s)) (vc_height (vs_config s)) = (w, h)" by fastforce
  define c where "c = \<lparr> sc_targetWidth = w, sc_targetHeight = h, sc_frameRate = min (max 1 (vc_frameRate (vs_config s))) kMaxScreenShareFrameRate,
    sc_ringCapacity = 3 \<rparr>"
  have "capture_ok c" using clamped_dimensions [OF d] by (simp add: capture_ok_def c_def)
  then have "video_inv env fp (s\<lparr>vs_capture := Some (True, c)\<rparr>)" "video_inv env fp (s\<lparr>vs_capture := None\<rparr>)"
    using assms(2) video_sock [OF assms(2)]
    by (simp_all add: video_inv_same [OF _ _ _ assms(2)] key_part_def video_inv_def control_inv_def published_def call_view_def)
  moreover have "s' = s \<or> s' = s\<lparr>vs_capture := None\<rparr> \<or> (\<exists>m. s' = video_setError m s) \<or> s' = s\<lparr>vs_capture := Some (True, c)\<rparr>"
    using assms(1) d by (auto simp: startCaptureLocked_def c_def split: if_splits)
  ultimately show ?thesis using assms(2) by (auto simp: video_setError_def dest: video_inv_error [THEN iffD2])
qed

lemma camera_part:
  assumes "startCameraCaptureLocked env cp hw s = (ok, s')"
  shows "session_part s' = session_part s" "vs_configuredVideoSsrc s' = vs_configuredVideoSsrc s"
proof -
  have "session_part s' = session_part s \<and> vs_configuredVideoSsrc s' = vs_configuredVideoSsrc s"
    using assms
    by (auto simp: startCameraCaptureLocked_def startSyntheticFallback_def stopCameraFallbackCaptureLocked_def Let_def
        video_setError_def session_part_def key_part_def control_part_def split: if_splits)
  then show "session_part s' = session_part s" "vs_configuredVideoSsrc s' = vs_configuredVideoSsrc s" by auto
qed

lemma fresh_ssrc: "chooseConfiguredOrRandomSsrc c vals = Some ssrc \<Longrightarrow> ssrc \<noteq> 0"
proof -
  have "makeSsrc vals = Some ssrc \<Longrightarrow> ssrc \<noteq> 0" by (induction vals) (auto split: if_splits)
  then show "chooseConfiguredOrRandomSsrc c vals = Some ssrc \<Longrightarrow> ssrc \<noteq> 0"
    by (auto simp: chooseConfiguredOrRandomSsrc_def split: if_splits)
qed

lemma start_sending_part:
  "key_part (start_sending t1 t2 s) = key_part s" "vs_mediaSocket (start_sending t1 t2 s) = vs_mediaSocket s"
  by (simp_all add: start_sending_def Let_def planSendThreadStart_def key_part_def)

lemma start_sending_control:
  assumes "control_inv s0" "vs_running s0"
    and "vs_config s = vs_config s0" "vs_running s = vs_running s0" "vs_mediaSocket s = vs_mediaSocket s0"
      "vs_recvThread s = vs_recvThread s0" "vs_capture s = vs_capture s0" "snd_ssrc (vs_sender s) \<noteq> 0"
  shows "control_inv (start_sending t1 t2 s)"
proof -
  have w: "bc_baselineWidth (policy_config (vs_config s)) < 2 ^ 31"
    using assms(1,3) by (simp add: control_inv_def policy_config_def)
  show ?thesis
    using assms reset_ok [OF w, of t2]
    by (simp add: control_inv_def start_sending_def Let_def planSendThreadStart_def published_def)
qed

text \<open>Switching a source on, from a running session whose capture was started.\<close>

lemma switched_on:
  assumes inv: "video_inv env fp s1" and run: "vs_running s1"
    and s2: "(if fresh then map_option (\<lambda>ssrc. resetSenderForFreshStream ssrc s1) (chooseConfiguredOrRandomSsrc c vals) else Some s1) = Some s2"
    and old: "\<not> fresh \<Longrightarrow> vs_sharingEnabled s1 \<or> vs_cameraSendingEnabled s1"
    and s3: "s3 = s2\<lparr>vs_sharingEnabled := sh, vs_cameraSendingEnabled := ca, vs_cameraRelay := relay, vs_forceKeyFramePending := force\<rparr>"
  shows "video_inv env fp (if fresh then start_sending t1 t2 s3 else s3)"
proof (cases fresh)
  case True
  then obtain ssrc where r: "s2 = resetSenderForFreshStream ssrc s1" "ssrc \<noteq> 0" using s2 fresh_ssrc by auto
  have k: "key_part s3 = key_part s1" "vs_mediaSocket s3 = vs_mediaSocket s1" "vs_config s3 = vs_config s1"
    "vs_running s3 = vs_running s1" "vs_recvThread s3 = vs_recvThread s1" "vs_capture s3 = vs_capture s1"
    "snd_ssrc (vs_sender s3) \<noteq> 0"
    using r by (simp_all add: s3 resetSenderForFreshStream_def Let_def key_part_def setSSRC_def setSequence_def)
  have "control_inv (start_sending t1 t2 s3)"
    by (rule start_sending_control [of s1]) (use inv run k in \<open>simp_all add: video_inv_def\<close>)
  then show ?thesis
    using True start_sending_part [of t1 t2 s3] k video_sock [OF inv] by (intro video_inv_same [OF _ _ _ inv]) simp_all
next
  case False
  then have "s2 = s1" using s2 by simp
  then have "key_part s3 = key_part s1" "vs_mediaSocket s3 = vs_mediaSocket s1" "control_inv s3"
    using inv run old [OF False] by (simp_all add: s3 key_part_def video_inv_def control_inv_def published_def)
  then show ?thesis using False video_sock [OF inv] by (intro video_inv_same [OF _ _ _ inv]) simp_all
qed

lemma stop_sending_part:
  "key_part (stop_sending plan s) = key_part s" "vs_mediaSocket (stop_sending plan s) = vs_mediaSocket s"
  "control_inv s \<Longrightarrow> di_shouldJoinSendThread plan \<Longrightarrow> \<not> vs_sharingEnabled s \<and> \<not> vs_cameraSendingEnabled s \<Longrightarrow>
     control_inv (stop_sending plan s)"
  "\<not> di_shouldJoinSendThread plan \<Longrightarrow> control_part (stop_sending plan s) = control_part s"
  by (simp_all add: stop_sending_def Let_def planSendThreadStop_def key_part_def control_inv_def control_part_def published_def)

lemma switched_off:
  assumes inv: "video_inv env fp s" and s1: "s1 = s\<lparr>vs_sharingEnabled := sh, vs_cameraSendingEnabled := ca,
        vs_disableHardwareScreenCapture := d, vs_cameraRelay := relay\<rparr>"
    and off: "sh \<longrightarrow> vs_sharingEnabled s" "ca \<longrightarrow> vs_cameraSendingEnabled s" "di_shouldJoinSendThread plan \<longleftrightarrow> \<not> sh \<and> \<not> ca"
  shows "video_inv env fp (stop_sending plan s1)"
proof -
  have c: "control_inv s1" using inv off by (auto simp: s1 video_inv_def control_inv_def published_def)
  then have "control_inv (stop_sending plan s1)"
    using stop_sending_part(3) [OF c] stop_sending_part(4) [of plan s1] control_part_inv [of "stop_sending plan s1" s1] off(3)
    by (cases "di_shouldJoinSendThread plan") (simp_all add: s1)
  then show ?thesis
    using video_sock [OF inv] stop_sending_part(1,2) [of plan s1]
    by (intro video_inv_same [OF _ _ _ inv]) (simp_all add: s1 key_part_def)
qed

lemma video_uncaptured: "video_inv env fp s \<Longrightarrow> video_inv env fp (stopCaptureLocked s)"
  by (rule video_inv_same [of _ s])
    (simp_all add: stopCaptureLocked_def key_part_def video_sock, simp add: video_inv_def control_inv_def published_def)

lemma ensure_started:
  assumes "(if vs_running s then (True, s) else ScreenShareSession_start env s) = (started, s0)" "video_inv env fp s"
  shows "video_inv env fp s0" "started \<Longrightarrow> vs_running s0"
  using assms video_start_inv [of env s started s0 fp] by (auto split: if_splits)

lemma fresh_flags:
  assumes "(if fresh then map_option (\<lambda>ssrc. resetSenderForFreshStream ssrc s1) v else Some s1) = Some s2"
  shows "vs_sharingEnabled s2 = vs_sharingEnabled s1" "vs_cameraSendingEnabled s2 = vs_cameraSendingEnabled s1"
proof -
  have "s2 = s1 \<or> (\<exists>n. s2 = resetSenderForFreshStream n s1)" using assms by (cases fresh) auto
  then show "vs_sharingEnabled s2 = vs_sharingEnabled s1" "vs_cameraSendingEnabled s2 = vs_cameraSendingEnabled s1"
    by (elim disjE exE; simp add: resetSenderForFreshStream_def Let_def)+
qed

lemma video_sharing_inv:
  assumes "setSharingEnabled env cp vals t1 t2 enabled s = Some (ok, s')" "video_inv env fp s"
  shows "video_inv env fp s'"
proof (cases enabled)
  case True
  obtain started s0 where st: "(if vs_running s then (True, s) else ScreenShareSession_start env s) = (started, s0)" by fastforce
  note s0 = ensure_started [OF st assms(2)]
  obtain ok1 s1 where c: "startCaptureLocked env cp True (s0\<lparr>vs_disableHardwareScreenCapture := False\<rparr>) = (ok1, s1)" by fastforce
  have "video_inv env fp (s0\<lparr>vs_disableHardwareScreenCapture := False\<rparr>)"
    by (rule session_part_inv [OF _ s0(1)]) (simp add: session_part_def key_part_def control_part_def)
  note s1 = capture_part [OF c this]
  show ?thesis
  proof (cases "\<not> started \<or> vs_sharingEnabled s0 \<or> \<not> ok1")
    case True
    then have "s' = s0 \<or> s' = s1"
      using assms(1) \<open>enabled\<close> st c by (auto simp: setSharingEnabled_def planEnableSharing_def split: if_splits)
    then show ?thesis using s0 s1 by auto
  next
    case False
    let ?fresh = "\<not> vs_cameraSendingEnabled s0"
    define m where "m = (if ?fresh then map_option (\<lambda>ssrc. resetSenderForFreshStream ssrc s1)
        (chooseConfiguredOrRandomSsrc (vs_configuredVideoSsrc s1) vals) else Some s1)"
    have "Option.bind m (\<lambda>s2. let s3 = s2\<lparr>vs_sharingEnabled := True, vs_cameraRelay := relay_setSharingEnabled True (vs_cameraRelay s2),
        vs_forceKeyFramePending := True\<rparr> in Some (True, if ?fresh then start_sending t1 t2 s3 else s3)) = Some (ok, s')"
      using assms(1) \<open>enabled\<close> False st c
      unfolding setSharingEnabled_def planEnableSharing_def m_def by (simp split del: if_split)
    then obtain s2 where s2: "m = Some s2"
      and s': "s' = (let s3 = s2\<lparr>vs_sharingEnabled := True, vs_cameraRelay := relay_setSharingEnabled True (vs_cameraRelay s2),
        vs_forceKeyFramePending := True\<rparr> in if ?fresh then start_sending t1 t2 s3 else s3)"
      by (cases m) (simp_all add: Let_def)
    note s2 = s2 [unfolded m_def]
    have cam: "vs_cameraSendingEnabled s2 = vs_cameraSendingEnabled s1"
      using fresh_flags [OF s2] by simp
    show ?thesis
      unfolding s' Let_def
      by (rule switched_on [OF _ _ s2, where sh = True and ca = "vs_cameraSendingEnabled s2" and
            relay = "relay_setSharingEnabled True (vs_cameraRelay s2)" and force = True])
        (use s1 s0(2) False cam in simp_all)
  qed
next
  case False
  show ?thesis
  proof (cases "vs_sharingEnabled s")
    case True
    let ?s1 = "s\<lparr>vs_sharingEnabled := False, vs_disableHardwareScreenCapture := False,
        vs_cameraRelay := relay_setSharingEnabled False (vs_cameraRelay s)\<rparr>"
    have "video_inv env fp (stop_sending (planDisableSharing True (vs_cameraSendingEnabled s)) ?s1)" (is "video_inv _ _ ?s2")
      by (rule switched_off [OF assms(2), where sh = False and ca = "vs_cameraSendingEnabled s"]) (simp_all add: planDisableSharing_def)
    then have "video_inv env fp (stopCaptureLocked ?s2)" by (rule video_uncaptured)
    then show ?thesis using assms(1) \<open>\<not> enabled\<close> True by (auto simp: setSharingEnabled_def)
  qed (use assms \<open>\<not> enabled\<close> in \<open>auto simp: setSharingEnabled_def\<close>)
qed

lemma video_camera_inv:
  assumes "setCameraSendingEnabled env cp vals t1 t2 enabled s = Some (ok, s')" "video_inv env fp s"
  shows "video_inv env fp s'"
proof (cases enabled)
  case True
  obtain started s0 where st: "(if vs_running s then (True, s) else ScreenShareSession_start env s) = (started, s0)" by fastforce
  note s0 = ensure_started [OF st assms(2)]
  obtain ok1 s1 where c: "startCameraCaptureLocked env cp True s0 = (ok1, s1)" by fastforce
  note p = camera_part(1) [OF c]
  have s1: "video_inv env fp s1" using session_part_inv [OF p s0(1)] .
  have flags: "vs_running s1 = vs_running s0" "vs_sharingEnabled s1 = vs_sharingEnabled s0" "vs_cameraSendingEnabled s1 = vs_cameraSendingEnabled s0"
    using p by (simp_all add: session_part_def control_part_def)
  show ?thesis
  proof (cases "\<not> started \<or> vs_cameraSendingEnabled s0 \<or> \<not> ok1")
    case True
    then have "s' = s0 \<or> s' = s1"
      using assms(1) \<open>enabled\<close> st c by (auto simp: setCameraSendingEnabled_def planEnableCamera_def split: if_splits)
    then show ?thesis using s0 s1 by auto
  next
    case False
    let ?fresh = "\<not> vs_sharingEnabled s0"
    define m where "m = (if ?fresh then map_option (\<lambda>ssrc. resetSenderForFreshStream ssrc s1)
        (chooseConfiguredOrRandomSsrc (vs_configuredVideoSsrc s1) vals) else Some s1)"
    have "Option.bind m (\<lambda>s2. let s3 = s2\<lparr>vs_cameraSendingEnabled := True, vs_cameraRelay := relay_setSharingEnabled (vs_sharingEnabled s2)
          (setCameraEnabled True (vs_cameraRelay s2)),
        vs_forceKeyFramePending := ?fresh \<or> vs_forceKeyFramePending s2\<rparr> in Some (True, if ?fresh then start_sending t1 t2 s3 else s3)) = Some (ok, s')"
      using assms(1) \<open>enabled\<close> False st c
      unfolding setCameraSendingEnabled_def planEnableCamera_def m_def by (simp split del: if_split)
    then obtain s2 where s2: "m = Some s2"
      and s': "s' = (let s3 = s2\<lparr>vs_cameraSendingEnabled := True, vs_cameraRelay := relay_setSharingEnabled (vs_sharingEnabled s2)
          (setCameraEnabled True (vs_cameraRelay s2)),
        vs_forceKeyFramePending := ?fresh \<or> vs_forceKeyFramePending s2\<rparr> in if ?fresh then start_sending t1 t2 s3 else s3)"
      by (cases m) (simp_all add: Let_def)
    note s2 = s2 [unfolded m_def]
    have sh: "vs_sharingEnabled s2 = vs_sharingEnabled s1"
      using fresh_flags [OF s2] by simp
    show ?thesis
      unfolding s' Let_def
      by (rule switched_on [OF s1 _ s2, where sh = "vs_sharingEnabled s2" and ca = True and
            relay = "relay_setSharingEnabled (vs_sharingEnabled s2) (setCameraEnabled True (vs_cameraRelay s2))" and
            force = "?fresh \<or> vs_forceKeyFramePending s2"])
        (use flags s0(2) False sh in simp_all)
  qed
next
  case False
  show ?thesis
  proof (cases "vs_cameraSendingEnabled s")
    case True
    let ?s1 = "s\<lparr>vs_cameraSendingEnabled := False, vs_cameraRelay := setCameraEnabled False (vs_cameraRelay s)\<rparr>"
    have "video_inv env fp (stop_sending (planDisableCamera True (vs_sharingEnabled s)) ?s1)" (is "video_inv _ _ ?s2")
      by (rule switched_off [OF assms(2), where sh = "vs_sharingEnabled s" and ca = False and d = "vs_disableHardwareScreenCapture s"])
        (simp_all add: planDisableCamera_def)
    then have "video_inv env fp (stopCameraCaptureLocked ?s2)"
      by (rule session_part_inv [rotated])
        (simp add: stopCameraCaptureLocked_def stopCameraFallbackCaptureLocked_def session_part_def key_part_def control_part_def)
    then show ?thesis using assms(1) \<open>\<not> enabled\<close> True by (auto simp: setCameraSendingEnabled_def)
  qed (use assms \<open>\<not> enabled\<close> in \<open>auto simp: setCameraSendingEnabled_def\<close>)
qed

text \<open>Reacting to feedback.\<close>

lemma sendToPeer_keeps: "same_routing k (snd (sendToPeer qs rnd d k))"
  using sendTo_keeps [of qs rnd d "us_peer k" k] by (cases "sendTo qs rnd d (us_peer k) k") (auto simp: sendToPeer_def)

lemma sends_keep: "same_routing k (fold (\<lambda>d k. snd (sendToPeer qs rnd d k)) ds k)"
proof (induction ds arbitrary: k)
  case (Cons d ds)
  then show ?case using same_routing_trans [OF sendToPeer_keeps [of k qs rnd d]] by simp
qed simp

lemma video_socket_inv:
  assumes "same_routing (vs_mediaSocket s) k" "video_inv env fp s"
  shows "video_inv env fp (s\<lparr>vs_mediaSocket := k\<rparr>)"
  using assms video_sock [OF assms(2)] same_routing_inv [OF assms(1)]
  by (intro video_inv_same [OF _ _ _ assms(2)])
    (simp_all add: key_part_def video_inv_def control_inv_def published_def same_routing_def)

lemma retransmit_inv: "video_inv env fp s \<Longrightarrow> video_inv env fp (snd (video_retransmit env seqs handled s))"
proof (induction seqs arbitrary: handled s)
  case (Cons n seqs)
  obtain ok e ps where r: "retransmitPacket n (peer_view env (vs_mediaSocket s)) (vs_rtcpActionPipeline s) = (ok, e, ps)"
    by (metis prod_cases3)
  define s1 where "s1 = s\<lparr>vs_mediaSocket := fold (\<lambda>d k. snd (sendToPeer (vn_qs env) (vn_rnd env) d k)) ps (vs_mediaSocket s)\<rparr>"
  have s1: "video_inv env fp s1" unfolding s1_def by (rule video_socket_inv [OF sends_keep Cons.prems])
  have "video_inv env fp (s1\<lparr>vs_stats := k\<rparr>)" for k
    by (rule session_part_inv [OF _ s1]) (simp add: session_part_def key_part_def control_part_def)
  then show ?case using Cons.IH s1 r by (auto simp: Let_def simp flip: s1_def)
qed simp

lemma publish_inv:
  assumes "video_inv env fp s" "bwe_ok p"
  shows "video_inv env fp (publishAdaptiveTarget t (s\<lparr>vs_videoBwePolicy := p\<rparr>))"
  using assms video_sock [OF assms(1)]
  by (intro video_inv_same [OF _ _ _ assms(1)])
    (simp_all add: publishAdaptiveTarget_def Let_def key_part_def video_inv_def control_inv_def published_def)

lemma video_policy: "video_inv env fp s \<Longrightarrow> bwe_ok (vs_videoBwePolicy s)"
  by (simp add: video_inv_def control_inv_def)

lemma reports_inv:
  "video_inv env fp s \<Longrightarrow> video_inv env fp (fold (apply_report a t1 t2) rs s)"
proof (induction rs arbitrary: s)
  case (Cons r rs)
  have "video_inv env fp (apply_report a t1 t2 r s)"
    unfolding apply_report_def Let_def
    using publish_inv [OF Cons.prems] report_ok [OF video_policy [OF Cons.prems]] by simp
  then show ?case using Cons.IH by simp
qed simp

lemma video_plan_inv:
  assumes "applyRtcpDispatchPlan env a t plan s = (handled, s')" "video_inv env fp s"
  shows "video_inv env fp s'"
proof (cases "hasActions plan")
  case True
  obtain h s1 where r: "video_retransmit env (pl_retransmitSequenceNumbers plan) False s = (h, s1)" by fastforce
  have s1: "video_inv env fp s1" using retransmit_inv [OF assms(2)] r by (metis snd_conv)
  define s2 where "s2 = (if pl_requestKeyFrame plan
      then s1\<lparr>vs_forceKeyFramePending := True, vs_stats := (vs_stats s1)\<lparr>ks_keyframeRequestCount := ks_keyframeRequestCount (vs_stats s1) + 1\<rparr>\<rparr>
      else s1)"
  have s2: "video_inv env fp s2"
    by (rule session_part_inv [OF _ s1]) (simp add: s2_def session_part_def key_part_def control_part_def)
  define s3 where "s3 = (if pl_hasTargetBitrate plan
      then publishAdaptiveTarget t (s2\<lparr>vs_videoBwePolicy := snd (onRembTarget (pl_targetBitrateBps plan) (vs_videoBwePolicy s2))\<rparr>)
      else s2)"
  have s3: "video_inv env fp s3"
    using publish_inv [OF s2] remb_ok [OF video_policy [OF s2]] s2 by (simp add: s3_def)
  have "s' = fold (apply_report a t t) (pl_receiverReports plan) s3"
    using assms(1) True r unfolding s3_def s2_def by (simp add: applyRtcpDispatchPlan_def Let_def)
  then show ?thesis using reports_inv [OF s3] by simp
qed (use assms in \<open>simp add: applyRtcpDispatchPlan_def\<close>)

lemma video_inv_new:
  assumes "vc_width config < 2 ^ 31"
  shows "video_inv env fp (ScreenShareSession_new config now)"
proof -
  have "audio_inv (call_env env) fp (call_view (ScreenShareSession_new config now))"
    using audio_inv_new [of "call_env env" fp] quiet_inv [of "ScreenShareSession_new config now"]
    by (simp add: audio_inv_def secure_inv_def Let_def call_view_def ScreenShareSession_new_def DtlsTransportClient_new_def
        AudioCallSession_new_def us_inv_new)
  moreover have "bc_baselineWidth (policy_config config) < 2 ^ 31" using assms by (simp add: policy_config_def)
  ultimately show ?thesis
    using assms reset_ok [of "policy_config config" 0]
    by (simp add: video_inv_def control_inv_def ScreenShareSession_new_def Let_def VideoBwePolicy_new_def)
qed

end
