(* ===== verification/VideoSendLoop.thy ===== *)
theory VideoSendLoop
  imports VideoSecurity
begin

text \<open>
  The two threads of the client that send video, in the build for systems other than Windows:
  \<open>captureLoop\<close>, which fetches pictures of the active source into the ring, and \<open>sendLoop\<close>, which
  encodes, packetises, encrypts and sends them (\<open>plasma-hawking/src/av/session/ScreenShareSessionTransport.cpp\<close>).

  A loop is described by one iteration; the Boolean of its result says that the loop goes on. Where a
  thread waits on a condition variable that is not yet satisfied the iteration ends without a change.
  \<open>None\<close> means that the thread still waits for the ring or the relay. The telemetry and the status
  callbacks are left out; the pictures given to the preview callback are kept.
\<close>

section \<open>Fetching pictures\<close>

definition sending_enabled :: "('ssl, 's, 'f) ScreenShareSession \<Rightarrow> bool" where
  "sending_enabled s \<longleftrightarrow> vs_running s \<and> (vs_sharingEnabled s \<or> vs_cameraSendingEnabled s)"

definition capture_runs :: "(bool \<times> ScreenCaptureConfig) option \<Rightarrow> bool" where
  "capture_runs c \<longleftrightarrow> (case c of None \<Rightarrow> False | Some (running, _) \<Rightarrow> running)"

definition bypassCpuCapture :: "VideoSendSource \<Rightarrow> ('ssl, 's, 'f) ScreenShareSession \<Rightarrow> bool" where
  "bypassCpuCapture source s \<longleftrightarrow>
     (if source = Camera
      then vs_cameraCapture s \<noteq> Some True \<and> \<not> capture_runs (vs_cameraFallbackCapture s)
      else source = Screen \<and> \<not> vs_disableHardwareScreenCapture s)"

definition captureLoop_snapshot :: "VideoSendSource \<Rightarrow> ('ssl, 's, 'f) ScreenShareSession \<Rightarrow> VideoSendSourceSnapshot" where
  "captureLoop_snapshot source s =
     fst (makeSnapshot \<lparr> ls_source = source, ls_sharingEnabled = vs_sharingEnabled s,
       ls_cameraSendingEnabled = vs_cameraSendingEnabled s, ls_screenCapture = (vs_capture s \<noteq> None),
       ls_cameraFallbackCapture = (vs_cameraFallbackCapture s \<noteq> None), ls_cameraRelay = True,
       ls_cameraCaptureRunning = (vs_cameraCapture s = Some True),
       ls_preferredCameraName = vs_preferredCameraDeviceName s,
       ls_peerReady = us_peerValid (vs_mediaSocket s) \<rparr>)"

text \<open>
  What the captures give: a picture of the screen, one of the synthetic camera, and how the wait for
  the camera relay goes; \<open>forEncode\<close> is the conversion of a queued camera picture, which may fail.
\<close>

record 'f capture_input =
  ci_screen :: "ScreenFrame option"
  ci_fallback :: "ScreenFrame option"
  ci_relay :: "(bool \<times> ('f CameraFrameRelay \<Rightarrow> 'f CameraFrameRelay)) list"
  ci_forEncode :: "'f \<times> int \<Rightarrow> VideoSendPipelineInputFrame option"
  ci_nowMs :: u64

text \<open>The relay is asked only when the snapshot points to it.\<close>

definition relay_input ::
  "'f capture_input \<Rightarrow> VideoSendSourceSnapshot \<Rightarrow> 'f CameraFrameRelay \<Rightarrow>
   (VideoSendPipelineInputFrame option \<times> 'f CameraFrameRelay) option" where
  "relay_input ci sn r =
     (if sn_source sn = Camera \<and> sn_cameraRelay sn
      then map_option (\<lambda>(queued, r1). (Option.bind queued (ci_forEncode ci), r1)) (relay_popWait (ci_relay ci) r)
      else Some (None, r))"

text \<open>Leaving the loop closes the ring.\<close>

definition capture_end :: "('ssl, 's, 'f) ScreenShareSession \<Rightarrow> ('ssl, 's, 'f) ScreenShareSession" where
  "capture_end s = s\<lparr>vs_sendFrameRingBuffer := frames_close (vs_sendFrameRingBuffer s)\<rparr>"

definition capture_abort :: "VideoSendSource \<Rightarrow> string \<Rightarrow> ('ssl, 's, 'f) ScreenShareSession \<Rightarrow> ('ssl, 's, 'f) ScreenShareSession" where
  "capture_abort source message s =
     (if source = Camera
      then stopCameraCaptureLocked
             ((video_setError (if message = [] then ''camera capture produced no frames'' else message) s)
               \<lparr>vs_cameraSendingEnabled := False\<rparr>)
      else s)"

definition captureLoop_iteration ::
  "('ssl, 's) video_env \<Rightarrow> 'f capture_input \<Rightarrow> CameraFrameTimeoutState \<Rightarrow> ('ssl, 's, 'f) ScreenShareSession \<Rightarrow>
   (bool \<times> CameraFrameTimeoutState \<times> ('ssl, 's, 'f) ScreenShareSession) option" where
  "captureLoop_iteration env ci timeoutState s =
     (if \<not> sending_enabled s then Some (False, timeoutState, capture_end s)
      else if \<not> us_peerValid (vs_mediaSocket s) then Some (True, timeoutState, s)
      else
        let source = resolveSendSource (vs_sharingEnabled s) (vs_cameraSendingEnabled s) in
        if isHardwareE2E (vn_profile env) \<and> bypassCpuCapture source s then Some (True, timeoutState, s)
        else
          let sn = captureLoop_snapshot source s in do {
            (relayPop, r) \<leftarrow> relay_input ci sn (vs_cameraRelay s);
            let s1 = s\<lparr>vs_cameraRelay := r\<rparr>;
            let (result, frame, message, state) =
              pullFrame sn (ci_screen ci) relayPop (ci_fallback ci) (ci_nowMs ci) timeoutState;
            Some (case result of
                FetchRetry \<Rightarrow> (True, state, s1)
              | FetchAbort \<Rightarrow> (False, state, capture_end (capture_abort source message s1))
              | FetchReady \<Rightarrow>
                  let (pushed, ring) = frames_push (source, frame) (vs_sendFrameRingBuffer s1);
                      s2 = s1\<lparr>vs_sendFrameRingBuffer := ring\<rparr>
                  in if pushed then (True, state, s2) else (False, state, capture_end s2)) })"

section \<open>The send loop\<close>

text \<open>
  The encoder, whether the profile was set by the user, whether there is a preview callback, and the
  scaling functions.
\<close>

record 'e send_env =
  se_encoder :: "'e video_encoder"
  se_profileForced :: bool
  se_preview :: bool
  se_scaleAvFrame :: "int \<Rightarrow> int \<Rightarrow> AVFrame \<Rightarrow> AVFrame option"
  se_scaleScreenFrame :: "int \<Rightarrow> int \<Rightarrow> ScreenFrame \<Rightarrow> ScreenFrame option"
  se_cloned :: bool

text \<open>The local variables of the loop.\<close>

record 'e send_loop =
  sl_encoder :: 'e
  sl_profile :: VideoPipelineProfile
  sl_lastSenderReportAtMs :: u64
  sl_lastRtpTimestamp :: u32
  sl_rtpPacketCount :: u32
  sl_rtpOctetCount :: u32
  sl_previews :: "DecodedVideoFrame list"

text \<open>The clock readings of one iteration.\<close>

record send_times =
  tm_profileMs :: u64
  tm_reportMs :: u64
  tm_wall :: "u64 \<times> u64"
  tm_cached :: "nat \<Rightarrow> int"

definition configureEncoderForProfile ::
  "'e send_env \<Rightarrow> VideoPipelineProfile \<Rightarrow> int \<Rightarrow> int \<Rightarrow> int \<Rightarrow> int \<Rightarrow> u8 \<Rightarrow> VideoEncoderPreset \<Rightarrow> 'e \<Rightarrow> bool \<times> 'e" where
  "configureEncoderForProfile se profile width height frameRate bitrate payloadType preset e =
     (if isHardwareE2E profile then (False, e)
      else ve_configure (se_encoder se) False width height frameRate bitrate payloadType preset e)"

text \<open>The lines before the loop: no loop state when the thread returns at once.\<close>

definition sendLoop_begin ::
  "('ssl, 's) video_env \<Rightarrow> 'e send_env \<Rightarrow> capture_results \<Rightarrow> 'e \<Rightarrow> ('ssl, 's, 'f) ScreenShareSession \<Rightarrow>
   'e send_loop option \<times> ('ssl, 's, 'f) ScreenShareSession" where
  "sendLoop_begin env se cp e s =
     (let c = vs_config s;
          configure = (\<lambda>profile. configureEncoderForProfile se profile (vc_width c) (vc_height c) (vc_frameRate c)
            (vc_bitrate c) (vc_cameraPayloadType c) (vc_encoderPreset c));
          (ok, e1) = configure (vn_profile env) e;
          ((configured, e2), profile, s1) =
            (if \<not> ok \<and> isHardwareE2E (vn_profile env) \<and> \<not> se_profileForced se
             then let s2 = snd (startCaptureLocked env cp False (s\<lparr>vs_disableHardwareScreenCapture := True\<rparr>));
                      s3 = (if vs_cameraSendingEnabled s2 then snd (startCameraCaptureLocked env cp False s2) else s2)
                  in (configure SoftwareE2E e1, SoftwareE2E, s3)
             else ((ok, e1), vn_profile env, s))
      in if \<not> configured
         then (None, video_setError (if isHardwareE2E profile then ''hardware video pipeline unsupported on this platform''
                                     else ''video encoder configure failed'') s1)
         else (Some \<lparr> sl_encoder = e2, sl_profile = profile, sl_lastSenderReportAtMs = 0, sl_lastRtpTimestamp = 0,
                      sl_rtpPacketCount = 0, sl_rtpOctetCount = 0, sl_previews = [] \<rparr>,
               s1\<lparr>vs_stats := (vs_stats s1)\<lparr>ks_appliedBitrateBps := word_of_int (ve_bitrate (se_encoder se) e2)\<rparr>\<rparr>))"

definition kVideoSenderReportIntervalMs :: u64 where [simp]: "kVideoSenderReportIntervalMs = 1000"

definition maybeSendSenderReport ::
  "('ssl, 's) video_env \<Rightarrow> send_times \<Rightarrow> UdpEndpoint \<Rightarrow> 'e send_loop \<Rightarrow> ('ssl, 's, 'f) ScreenShareSession \<Rightarrow>
   'e send_loop \<times> ('ssl, 's, 'f) ScreenShareSession" where
  "maybeSendSenderReport env tm peer l s =
     (if \<not> UdpEndpoint_isValid peer then (l, s)
      else if sl_lastSenderReportAtMs l \<noteq> 0 \<and> tm_reportMs tm - sl_lastSenderReportAtMs l < kVideoSenderReportIntervalMs
      then (l, s)
      else if snd_ssrc (vs_sender s) = 0 then (l, s)
      else
        let senderReport = buildSenderReport \<lparr> csr_senderSsrc = snd_ssrc (vs_sender s),
              csr_ntpTimestamp = currentNtpTimestamp (fst (tm_wall tm)) (snd (tm_wall tm)),
              csr_rtpTimestamp = sl_lastRtpTimestamp l, csr_packetCount = sl_rtpPacketCount l,
              csr_octetCount = sl_rtpOctetCount l, csr_reportBlocks = [] \<rparr>
        in if senderReport = [] then (l, s)
           else case video_protectRtcp env senderReport s of
             (None, s1) \<Rightarrow> (l, s1)
           | (Some wire, s1) \<Rightarrow>
               let (sent, s2) = video_send env wire peer s1
               in (if sent = int (length wire) then l\<lparr>sl_lastSenderReportAtMs := tm_reportMs tm\<rparr> else l, s2))"

text \<open>The loop over the packets of a frame.\<close>

fun send_frame_packets ::
  "('ssl, 's) video_env \<Rightarrow> (nat \<Rightarrow> int) \<Rightarrow> UdpEndpoint \<Rightarrow> VideoSendPipelinePacket list \<Rightarrow> 'e send_loop \<Rightarrow>
   ('ssl, 's, 'f) ScreenShareSession \<Rightarrow> 'e send_loop \<times> ('ssl, 's, 'f) ScreenShareSession" where
  "send_frame_packets env clock peer [] l s = (l, s)"
| "send_frame_packets env clock peer (packet # packets) l s =
     (if vs_dtlsStarted s \<and> \<not> vs_srtpReady s
      then send_frame_packets env (\<lambda>i. clock (Suc i)) peer packets l (snd (video_sendCachedDtlsHandshake env (clock 0) peer s))
      else case video_protectRtp env (vp_bytes packet) s of
        (None, s1) \<Rightarrow> send_frame_packets env (\<lambda>i. clock (Suc i)) peer packets l s1
      | (Some outboundPacket, s1) \<Rightarrow>
          let (sent, s2) = video_send env outboundPacket peer s1
          in if sent \<noteq> int (length outboundPacket) then (l, video_setError ''sendto failed'' s2)
             else
               let payloadOctets = (if length (vp_bytes packet) > 12 then of_nat (length (vp_bytes packet) - 12) else 0);
                   l1 = l\<lparr>sl_rtpPacketCount := sl_rtpPacketCount l + 1,
                          sl_rtpOctetCount := sl_rtpOctetCount l + payloadOctets,
                          sl_lastRtpTimestamp := vp_timestamp packet\<rparr>;
                   s3 = s2\<lparr>vs_sentPacketCount := vs_sentPacketCount s2 + 1,
                           vs_rtcpActionPipeline :=
                             cacheSentPacket (vp_sequenceNumber packet) outboundPacket (vs_rtcpActionPipeline s2)\<rparr>
               in send_frame_packets env (\<lambda>i. clock (Suc i)) peer packets l1 s3)"

text \<open>What the loop aims at: dimensions and frame rate for the source.\<close>

definition send_target :: "VideoSendSource \<Rightarrow> ('ssl, 's, 'f) ScreenShareSession \<Rightarrow> int \<times> int \<times> int" where
  "send_target source s =
     (let a = vs_adaptive s; c = vs_config s;
          targetWidth = (if ad_width a > 0 then ad_width a else vc_width c);
          targetHeight = (if ad_height a > 0 then ad_height a else vc_height c);
          targetFrameRate = (if ad_frameRate a > 0 then ad_frameRate a else vc_frameRate c)
      in if source = Screen
         then let (cappedWidth, cappedHeight) = clampScreenShareDimensions targetWidth targetHeight
              in (cappedWidth, cappedHeight, min (max 1 targetFrameRate) kMaxScreenShareFrameRate)
         else (targetWidth, targetHeight, targetFrameRate))"

definition send_payloadType :: "VideoSendSource \<Rightarrow> ScreenShareSessionConfig \<Rightarrow> u8" where
  "send_payloadType source c = (if source = Screen then vc_payloadType c else vc_cameraPayloadType c)"

text \<open>The bit rate of a fallback to the software encoder.\<close>

definition fallback_bitrate :: "('ssl, 's, 'f) ScreenShareSession \<Rightarrow> int" where
  "fallback_bitrate s =
     int_of_u32 (if ks_targetBitrateBps (vs_stats s) > 0 then ks_targetBitrateBps (vs_stats s)
                 else word_of_int (vc_bitrate (vs_config s)))"

definition frameAlreadyMatches :: "'e video_encoder \<Rightarrow> 'e \<Rightarrow> VideoSendPipelineInputFrame \<Rightarrow> bool" where
  "frameAlreadyMatches ve e f \<longleftrightarrow>
     (case if_avFrame f of None \<Rightarrow> False | Some a \<Rightarrow> avf_width a = ve_width ve e \<and> avf_height a = ve_height ve e) \<or>
     hasScreenFrame f \<and> sf_width (if_screenFrame f) = ve_width ve e \<and> sf_height (if_screenFrame f) = ve_height ve e"

text \<open>After \<open>encodeAndPacketize\<close>.\<close>

definition send_encoded ::
  "('ssl, 's) video_env \<Rightarrow> send_times \<Rightarrow> UdpEndpoint \<Rightarrow> bool \<Rightarrow>
   (string + VideoSendPipelinePacket list) \<times> bool \<times> 'e \<times> RTPSender \<Rightarrow> 'e send_loop \<Rightarrow> ('ssl, 's, 'f) ScreenShareSession \<Rightarrow>
   'e send_loop \<times> ('ssl, 's, 'f) ScreenShareSession" where
  "send_encoded env tm peer forceKeyFrame result l s =
     (let (packets, encodedKeyFrame, e, sender) = result;
          l1 = l\<lparr>sl_encoder := e\<rparr>;
          s1 = s\<lparr>vs_sender := sender\<rparr>
      in case packets of
           Inl pipelineError \<Rightarrow> (l1, if pipelineError = [] then s1 else video_setError pipelineError s1)
         | Inr ps \<Rightarrow>
             let s2 = (if forceKeyFrame \<and> \<not> encodedKeyFrame then s1\<lparr>vs_forceKeyFramePending := True\<rparr> else s1);
                 (l2, s3) = send_frame_packets env (tm_cached tm) peer ps l1 s2
             in maybeSendSenderReport env tm peer l2 s3)"

text \<open>
  From the key-frame request on: the frame is brought to the size of the encoder, encoded and sent.
  In the hardware profile a frame that is not in GPU memory may make the loop change the profile.
\<close>

definition send_frame ::
  "('ssl, 's) video_env \<Rightarrow> 'e send_env \<Rightarrow> send_times \<Rightarrow> VideoSendSource \<Rightarrow> VideoSendPipelineInputFrame \<Rightarrow> UdpEndpoint \<Rightarrow>
   'e send_loop \<Rightarrow> ('ssl, 's, 'f) ScreenShareSession \<Rightarrow> 'e send_loop \<times> ('ssl, 's, 'f) ScreenShareSession" where
  "send_frame env se tm source f peer l s0 =
     (let ve = se_encoder se; c = vs_config s0;
          (width, height, frameRate) = send_target source s0;
          payloadType = send_payloadType source c;
          forceKeyFrame = vs_forceKeyFramePending s0;
          s = s0\<lparr>vs_forceKeyFramePending := False\<rparr>;
          matches = frameAlreadyMatches ve (sl_encoder l) f;
          fallback = isHardwareE2E (sl_profile l) \<and> \<not> hasHardwareD3D11Frame f \<and> \<not> se_profileForced se \<and>
            \<not> isHardwareE2E (vn_profile env);
          (configured, e) = (if fallback
            then configureEncoderForProfile se SoftwareE2E width height frameRate (fallback_bitrate s) payloadType
                   (vc_encoderPreset c) (sl_encoder l)
            else (True, sl_encoder l));
          l1 = l\<lparr>sl_encoder := e, sl_profile := (if fallback then SoftwareE2E else sl_profile l)\<rparr>
      in if \<not> configured then (l1, video_setError ''video software fallback encoder configure failed'' s)
         else
           let (adaptError, adapted, g) =
             (if matches then (None, True, f)
              else adaptVideoSendInputFrame (se_scaleAvFrame se) (se_scaleScreenFrame se) (se_cloned se)
                     (ve_width ve e) (ve_height ve e) (sl_profile l1) f)
           in if \<not> adapted
              then (l1, video_setError (case adaptError of None \<Rightarrow> ''video adaptive frame prepare failed''
                     | Some m \<Rightarrow> if m = [] then ''video adaptive frame prepare failed'' else m) s)
              else
                let cfg = \<lparr> pc_frameRate = frameRate, pc_maxPayloadBytes = vc_maxPayloadBytes c, pc_profile = sl_profile l1 \<rparr>
                in send_encoded env tm peer forceKeyFrame
                     (encodeAndPacketize ve cfg g payloadType forceKeyFrame e (vs_sender s)) l1 s)"

text \<open>
  From the choice of the peer on. \<open>unsupported\<close>: one of the branches for capturing on the GPU was
  chosen, which this build answers with an error.
\<close>

definition send_captured ::
  "('ssl, 's) video_env \<Rightarrow> 'e send_env \<Rightarrow> send_times \<Rightarrow> string option \<Rightarrow> VideoSendSource \<Rightarrow> VideoSendPipelineInputFrame \<Rightarrow>
   'e send_loop \<Rightarrow> ('ssl, 's, 'f) ScreenShareSession \<Rightarrow> ('e send_loop \<times> ('ssl, 's, 'f) ScreenShareSession) mem" where
  "send_captured env se tm unsupported source f l s =
     (let ve = se_encoder se; c = vs_config s;
          peer = (if us_peerValid (vs_mediaSocket s) then us_peer (vs_mediaSocket s) else UdpEndpoint_new);
          (width, height, frameRate) = send_target source s;
          videoSuspended = ad_suspended (vs_adaptive s)
      in if videoSuspended \<and> \<not> (source = Screen \<and> se_preview se) then Some (maybeSendSenderReport env tm peer l s)
         else
           let (bitrateError, e, k) = maybeApplyAdaptiveEncoderProfile ve width height frameRate
                 (ks_targetBitrateBps (vs_stats s)) (send_payloadType source c) (vc_encoderPreset c) (sl_profile l)
                 (tm_profileMs tm) (sl_encoder l) (vs_stats s);
               l1 = l\<lparr>sl_encoder := e\<rparr>; s1 = s\<lparr>vs_stats := k\<rparr>
           in case bitrateError of
                Some m \<Rightarrow> Some (l1, video_setError (if m = [] then ''video encoder adaptive profile update failed'' else m) s1)
              | None \<Rightarrow>
                  (case unsupported of
                     Some m \<Rightarrow> Some (l1, video_setError m s1)
                   | None \<Rightarrow> do {
                       preview \<leftarrow> (if source = Screen \<and> se_preview se \<and> hasScreenFrame f
                                  then makeSoftwarePreviewFrame (if_screenFrame f) else Some None);
                       let l2 = l1\<lparr>sl_previews := sl_previews l1 @ (case preview of None \<Rightarrow> [] | Some p \<Rightarrow> [p])\<rparr>;
                       Some (if \<not> UdpEndpoint_isValid peer \<or> videoSuspended then maybeSendSenderReport env tm peer l2 s1
                             else send_frame env se tm source f peer l2 s1) }))"

definition sendLoop_iteration_video ::
  "('ssl, 's) video_env \<Rightarrow> 'e send_env \<Rightarrow> send_times \<Rightarrow>
   (bool \<times> (captured VideoSendFrameRingBuffer \<Rightarrow> captured VideoSendFrameRingBuffer)) list \<Rightarrow>
   'e send_loop \<Rightarrow> ('ssl, 's, 'f) ScreenShareSession \<Rightarrow> (bool \<times> 'e send_loop \<times> ('ssl, 's, 'f) ScreenShareSession) option" where
  "sendLoop_iteration_video env se tm rounds l s =
     (if \<not> sending_enabled s then Some (False, l, s)
      else if \<not> us_peerValid (vs_mediaSocket s) \<and> (\<not> vs_sharingEnabled s \<or> \<not> se_preview se) then Some (True, l, s)
      else
        let currentSource = resolveSendSource (vs_sharingEnabled s) (vs_cameraSendingEnabled s);
            useHardwareScreenCapture = isHardwareE2E (sl_profile l) \<and> currentSource = Screen \<and> \<not> vs_disableHardwareScreenCapture s;
            useGpuReadbackScreenCapture = isHardwareE2E (vn_profile env) \<and> \<not> se_profileForced se \<and> currentSource = Screen \<and>
              vs_disableHardwareScreenCapture s;
            useHardwareCameraCapture = isHardwareE2E (sl_profile l) \<and> currentSource = Camera;
            go_on = map_option (\<lambda>(l1, s1). (True, l1, s1))
        in if currentSource = NoSource then Some (True, l, s)
           else if useHardwareScreenCapture \<or> useHardwareCameraCapture
           then go_on (send_captured env se tm (Some ''hardware video pipeline unsupported on this platform'')
                        currentSource VideoSendPipelineInputFrame_new l s)
           else if useGpuReadbackScreenCapture
           then go_on (send_captured env se tm (Some ''DXGI readback screen capture unsupported on this platform'')
                        currentSource VideoSendPipelineInputFrame_new l s)
           else case frames_popWait rounds (vs_sendFrameRingBuffer s) of
             None \<Rightarrow> None
           | Some (None, ring) \<Rightarrow> Some (\<not> vf_closed ring, l, s\<lparr>vs_sendFrameRingBuffer := ring\<rparr>)
           | Some (Some (source, f), ring) \<Rightarrow>
               let s1 = s\<lparr>vs_sendFrameRingBuffer := ring\<rparr>
               in if source = NoSource \<or> currentSource \<noteq> source then Some (True, l, s1)
                  else go_on (send_captured env se tm None source f l s1))"

section \<open>The session stays in order\<close>

lemma video_cached_inv:
  assumes "video_inv env fp s"
  shows "video_inv env fp (snd (video_sendCachedDtlsHandshake env now peer s))"
proof -
  obtain ok a where c: "sendCachedDtlsHandshakeLocked (call_env env) now peer (call_view s) = (ok, a)" by fastforce
  have "audio_inv (call_env env) fp a"
    using cached_keeps(1,2) [OF c] assms audio_inv_part [of a "call_view s"] by (simp add: video_inv_def)
  then show ?thesis
    using video_inv_move [OF sees_cached [OF sees_call_view, of env now peer] refl _ control_cached assms] c by simp
qed

lemma video_protected_inv:
  assumes "video_inv env fp s"
  shows "video_inv env fp (snd (video_protectRtp env p s))" "video_inv env fp (snd (video_protectRtcp env p s))"
    "video_inv env fp (snd (video_unprotectRtp env p s))" "video_inv env fp (snd (video_unprotectRtcp env p s))"
  by (rule session_part_inv [OF video_packet_part(1) assms], rule session_part_inv [OF video_packet_part(2) assms],
      rule session_part_inv [OF video_packet_part(3) assms], rule session_part_inv [OF video_packet_part(4) assms])

lemma session_part_upd [simp]:
  "session_part (s\<lparr>vs_stats := k\<rparr>) = session_part s"
  "session_part (s\<lparr>vs_sendFrameRingBuffer := b\<rparr>) = session_part s"
  "session_part (s\<lparr>vs_cameraRelay := r\<rparr>) = session_part s"
  "session_part (s\<lparr>vs_forceKeyFramePending := v\<rparr>) = session_part s"
  "session_part (s\<lparr>vs_sentPacketCount := n, vs_rtcpActionPipeline := a\<rparr>) = session_part s"
  "session_part (s\<lparr>vs_disableHardwareScreenCapture := v\<rparr>) = session_part s"
  "snd_ssrc x = snd_ssrc (vs_sender s) \<Longrightarrow> session_part (s\<lparr>vs_sender := x\<rparr>) = session_part s"
  by (simp_all add: session_part_def key_part_def control_part_def)

lemmas session_upd_inv = session_part_upd [THEN session_part_inv]

lemma report_inv:
  assumes "maybeSendSenderReport env tm peer l s = (l', s')" "video_inv env fp s"
  shows "video_inv env fp s'"
proof -
  have p: "video_inv env fp s1" if "video_protectRtcp env d s = (r, s1)" for d r s1
    using video_protected_inv(2) [OF assms(2), of d] that by simp
  have "video_inv env fp s2" if "video_protectRtcp env d s = (Some w, s1)" "video_send env w peer s1 = (n, s2)" for d w s1 n s2
    by (rule video_send_inv [OF that(2) p [OF that(1)]])
  then show ?thesis
    using assms p unfolding maybeSendSenderReport_def Let_def by (auto split: if_splits option.splits prod.splits)
qed

lemma send_packets_inv:
  "send_frame_packets env clock peer ps l s = (l', s') \<Longrightarrow> video_inv env fp s \<Longrightarrow> video_inv env fp s'"
proof (induction ps arbitrary: clock l s)
  case (Cons p ps)
  show ?case
  proof (cases "vs_dtlsStarted s \<and> \<not> vs_srtpReady s")
    case True
    then show ?thesis using Cons.prems(1) Cons.IH [OF _ video_cached_inv [OF Cons.prems(2)]] by simp
  next
    case False
    obtain r s1 where r: "video_protectRtp env (vp_bytes p) s = (r, s1)" by fastforce
    have s1: "video_inv env fp s1" using video_protected_inv(1) [OF Cons.prems(2), of "vp_bytes p"] r by simp
    show ?thesis
    proof (cases r)
      case None
      then show ?thesis using Cons.prems(1) Cons.IH False r s1 by auto
    next
      case (Some w)
      obtain n s2 where n: "video_send env w peer s1 = (n, s2)" by fastforce
      have s2: "video_inv env fp s2" by (rule video_send_inv [OF n s1])
      show ?thesis
        using Cons.prems(1) Cons.IH [OF _ session_upd_inv(5) [OF s2]] False r Some n s2
        by (auto simp: Let_def split: if_splits)
    qed
  qed
qed simp

lemma packets_ssrc: "build_packets pt ts payloads s = (r, s') \<Longrightarrow> snd_ssrc s' = snd_ssrc s"
  by (induction payloads arbitrary: s r s') (auto simp: buildPacket_def Let_def split: if_splits sum.splits prod.splits)

lemma encoded_ssrc: "encodeAndPacketize ve cfg f pt force e s = (r, key, e', s') \<Longrightarrow> snd_ssrc s' = snd_ssrc s"
  by (auto simp: encodeAndPacketize_def encode_screen_def encode_avFrame_def encode_picture_def packetizeEncodedFrame_def Let_def
      split: option.splits if_splits sum.splits prod.splits dest: packets_ssrc)

lemma send_encoded_inv:
  assumes "send_encoded env tm peer force (r, key, e, x) l s = (l', s')" "snd_ssrc x = snd_ssrc (vs_sender s)" "video_inv env fp s"
  shows "video_inv env fp s'"
proof (cases r)
  case (Inl m)
  then show ?thesis using assms(1) session_upd_inv(7) [OF assms(2,3)] by (auto simp: send_encoded_def Let_def split: if_splits)
next
  case (Inr ps)
  define s2 where "s2 = (if force \<and> \<not> key then s\<lparr>vs_sender := x, vs_forceKeyFramePending := True\<rparr> else s\<lparr>vs_sender := x\<rparr>)"
  have s2: "video_inv env fp s2"
    using session_upd_inv(7) [OF assms(2,3)] session_upd_inv(4) [OF session_upd_inv(7) [OF assms(2,3)], of True]
    by (simp add: s2_def)
  obtain l2 s3 where p: "send_frame_packets env (tm_cached tm) peer ps (l\<lparr>sl_encoder := e\<rparr>) s2 = (l2, s3)" by fastforce
  have "maybeSendSenderReport env tm peer l2 s3 = (l', s')"
    using assms(1) Inr p by (simp add: send_encoded_def Let_def s2_def split: if_splits)
  then show ?thesis using report_inv send_packets_inv [OF p s2] by blast
qed

lemma send_frame_cases:
  assumes "send_frame env se tm source f peer l s = (l', s')"
  obtains m where "s' = video_setError m (s\<lparr>vs_forceKeyFramePending := False\<rparr>)"
  | cfg g pt e l1 where "send_encoded env tm peer (vs_forceKeyFramePending s)
      (encodeAndPacketize (se_encoder se) cfg g pt (vs_forceKeyFramePending s) e (vs_sender s)) l1
      (s\<lparr>vs_forceKeyFramePending := False\<rparr>) = (l', s')"
  using assms unfolding send_frame_def Let_def case_prod_beta by (simp split: if_splits) fastforce+

lemma send_frame_inv:
  assumes "send_frame env se tm source f peer l s = (l', s')" "video_inv env fp s"
  shows "video_inv env fp s'"
proof -
  have s: "video_inv env fp (s\<lparr>vs_forceKeyFramePending := False\<rparr>)" by (rule session_upd_inv(4) [OF assms(2)])
  show ?thesis using assms(1)
  proof (cases rule: send_frame_cases)
    case (1 m)
    then show ?thesis using s by simp
  next
    case (2 cfg g pt e l1)
    obtain r key e1 x where x: "encodeAndPacketize (se_encoder se) cfg g pt (vs_forceKeyFramePending s) e (vs_sender s) = (r, key, e1, x)"
      by (metis prod_cases4)
    show ?thesis by (rule send_encoded_inv [OF 2 [unfolded x] _ s]) (use encoded_ssrc [OF x] in simp)
  qed
qed

lemma send_captured_cases:
  assumes "send_captured env se tm unsupported source f l s = Some (l', s')"
  obtains peer l1 k where "maybeSendSenderReport env tm peer l1 (s\<lparr>vs_stats := k\<rparr>) = (l', s')"
  | m k where "s' = video_setError m (s\<lparr>vs_stats := k\<rparr>)"
  | l1 k where "us_peerValid (vs_mediaSocket s)"
      "send_frame env se tm source f (us_peer (vs_mediaSocket s)) l1 (s\<lparr>vs_stats := k\<rparr>) = (l', s')"
proof -
  have "thesis" if "maybeSendSenderReport env tm peer l1 s = (l', s')" for peer l1
    using \<open>\<And>peer l1 k. maybeSendSenderReport env tm peer l1 (s\<lparr>vs_stats := k\<rparr>) = (l', s') \<Longrightarrow> thesis\<close>
      [of peer l1 "vs_stats s"] that by simp
  then show thesis
    using assms that unfolding send_captured_def Let_def case_prod_beta
    by (auto simp: bind_eq_Some_conv UdpEndpoint_isValid_def UdpEndpoint_new_def split: if_splits option.splits)
qed

lemma send_captured_inv:
  assumes "send_captured env se tm unsupported source f l s = Some (l', s')" "video_inv env fp s"
  shows "video_inv env fp s'"
proof -
  have s1: "video_inv env fp (s\<lparr>vs_stats := k\<rparr>)" for k by (rule session_upd_inv(1) [OF assms(2)])
  show ?thesis using assms(1)
    by (cases rule: send_captured_cases) (use s1 in \<open>simp_all add: report_inv [OF _ s1] send_frame_inv [OF _ s1]\<close>)
qed

lemma go_on: "map_option (\<lambda>(l1, s1). (True, l1, s1)) x = Some (b, l', s') \<longleftrightarrow> b \<and> x = Some (l', s')"
  by (cases x) auto

lemma send_iteration_cases:
  assumes "sendLoop_iteration_video env se tm rounds l s = Some (b, l', s')"
  obtains ring where "s' = s\<lparr>vs_sendFrameRingBuffer := ring\<rparr>" "l' = l"
  | unsupported source f ring where
      "send_captured env se tm unsupported source f l (s\<lparr>vs_sendFrameRingBuffer := ring\<rparr>) = Some (l', s')"
proof -
  have same: "s\<lparr>vs_sendFrameRingBuffer := vs_sendFrameRingBuffer s\<rparr> = s" by simp
  have "s' = s \<and> l' = l \<or> (\<exists>ring. s' = s\<lparr>vs_sendFrameRingBuffer := ring\<rparr> \<and> l' = l) \<or>
      (\<exists>u src f. send_captured env se tm u src f l s = Some (l', s')) \<or>
      (\<exists>u src f ring. send_captured env se tm u src f l (s\<lparr>vs_sendFrameRingBuffer := ring\<rparr>) = Some (l', s'))"
    using assms unfolding sendLoop_iteration_video_def Let_def go_on
    by (simp only: go_on split: if_splits option.splits prod.splits) (blast+)?
  then show thesis using that same by metis
qed

lemma send_iteration_inv:
  assumes "sendLoop_iteration_video env se tm rounds l s = Some (b, l', s')" "video_inv env fp s"
  shows "video_inv env fp s'"
proof -
  have s1: "video_inv env fp (s\<lparr>vs_sendFrameRingBuffer := r\<rparr>)" for r by (rule session_upd_inv(2) [OF assms(2)])
  show ?thesis using assms(1)
    by (cases rule: send_iteration_cases) (use s1 in \<open>simp_all add: send_captured_inv [OF _ s1]\<close>)
qed

lemma send_begin_inv:
  assumes "sendLoop_begin env se cp e s = (r, s')" "video_inv env fp s"
  shows "video_inv env fp s'"
proof -
  define s2 where "s2 = snd (startCaptureLocked env cp False (s\<lparr>vs_disableHardwareScreenCapture := True\<rparr>))"
  define s3 where "s3 = (if vs_cameraSendingEnabled s2 then snd (startCameraCaptureLocked env cp False s2) else s2)"
  have s2: "video_inv env fp s2"
    unfolding s2_def using capture_part [OF surjective_pairing session_upd_inv(6) [OF assms(2)]] by blast
  have s3: "video_inv env fp s3"
    unfolding s3_def using s2 session_part_inv [OF camera_part(1) [OF surjective_pairing] s2] by simp
  have "video_inv env fp (s3\<lparr>vs_stats := k\<rparr>)" "video_inv env fp (s\<lparr>vs_stats := k\<rparr>)" for k
    by (rule session_upd_inv(1) [OF s3], rule session_upd_inv(1) [OF assms(2)])
  then show ?thesis
    using assms s3 unfolding sendLoop_begin_def Let_def case_prod_beta s2_def [symmetric] s3_def [symmetric]
    by (auto split: if_splits)
qed

lemma capture_end_inv: "video_inv env fp s \<Longrightarrow> video_inv env fp (capture_end s)"
  unfolding capture_end_def by (rule session_upd_inv(2))

lemma capture_abort_inv:
  assumes "video_inv env fp s"
  shows "video_inv env fp (capture_abort source m s)"
proof -
  have "video_inv env fp (s\<lparr>vs_cameraSendingEnabled := False\<rparr>)"
    using assms video_sock [OF assms]
    by (intro video_inv_same [OF _ _ _ assms]) (simp_all add: key_part_def video_inv_def control_inv_def published_def)
  moreover have "(video_setError e s)\<lparr>vs_cameraSendingEnabled := False\<rparr> = video_setError e (s\<lparr>vs_cameraSendingEnabled := False\<rparr>)" for e
    by (simp add: video_setError_def)
  ultimately have "video_inv env fp ((video_setError e s)\<lparr>vs_cameraSendingEnabled := False\<rparr>)" for e
    by simp
  moreover have "video_inv env fp (stopCameraCaptureLocked t)" if "video_inv env fp t" for t :: "('a, 'b, 'c) ScreenShareSession"
    by (rule session_part_inv [OF _ that])
      (simp add: stopCameraCaptureLocked_def stopCameraFallbackCaptureLocked_def session_part_def key_part_def control_part_def)
  ultimately show ?thesis using assms by (simp add: capture_abort_def)
qed

lemma capture_iteration_inv:
  assumes "captureLoop_iteration env ci ts s = Some (b, ts', s')" "video_inv env fp s"
  shows "video_inv env fp s'"
proof -
  have r: "video_inv env fp (s\<lparr>vs_cameraRelay := r\<rparr>)" for r by (rule session_upd_inv(3) [OF assms(2)])
  have rr: "video_inv env fp (s\<lparr>vs_cameraRelay := r, vs_sendFrameRingBuffer := q\<rparr>)" for r q
    using session_upd_inv(2) [OF r] by simp
  show ?thesis
    using assms capture_end_inv [OF assms(2)] r rr capture_end_inv [OF rr] capture_end_inv [OF capture_abort_inv [OF r]]
    unfolding captureLoop_iteration_def Let_def case_prod_beta
    by (auto simp: bind_eq_Some_conv split: if_splits VideoSendFrameFetchResult.splits)
qed

section \<open>What leaves the client\<close>

text \<open>
  A datagram on the wire carries some bytes: it is the bytes, or a TURN Send indication around them.
  \<open>written_only\<close>: whatever was written between two states of the socket satisfies a predicate.
\<close>

definition carries :: "('ssl, 's) video_env \<Rightarrow> bytes \<Rightarrow> datagram \<Rightarrow> bool" where
  "carries env data d \<longleftrightarrow> fst d = data \<or> (\<exists>address port. fst d = buildSendIndication (vn_rnd env) address port data)"

definition written_only :: "(datagram \<Rightarrow> bool) \<Rightarrow> UdpPeerSocket \<Rightarrow> UdpPeerSocket \<Rightarrow> bool" where
  "written_only P k k' \<longleftrightarrow> (\<exists>ds. us_written k' = us_written k @ ds \<and> (\<forall>d \<in> set ds. P d))"

lemma written_refl [simp]: "written_only P k k"
  by (simp add: written_only_def)

lemma written_trans:
  assumes "written_only P a b" "written_only P b c"
  shows "written_only P a c"
proof -
  obtain ds es where "us_written b = us_written a @ ds" "us_written c = us_written b @ es" "\<forall>d \<in> set ds. P d" "\<forall>d \<in> set es. P d"
    using assms unfolding written_only_def by blast
  then show ?thesis unfolding written_only_def by (intro exI [of _ "ds @ es"]) auto
qed

lemma written_mono: "written_only P a b \<Longrightarrow> (\<And>d. P d \<Longrightarrow> Q d) \<Longrightarrow> written_only Q a b"
  unfolding written_only_def by blast

lemma written_write: "written_only (\<lambda>d. fst d = data) k (snd (native_write qs data target k))"
  by (auto simp: written_only_def native_write_def Let_def setSocketError_def captureSocketError_def clearSocketError_def)

lemma written_sendTo: "written_only (carries env data) k (snd (sendTo (vn_qs env) (vn_rnd env) data target k))"
proof -
  let ?i = "buildSendIndication (vn_rnd env) (ue_address (tr_peer (us_turnRelay k))) (ue_port (tr_peer (us_turnRelay k))) data"
  have "written_only (carries env data) k (snd (native_write (vn_qs env) ?i t k))"
    "written_only (carries env data) k (snd (native_write (vn_qs env) data t k))" for t
    by (rule written_mono [OF written_write], force simp: carries_def)+
  moreover have "written_only (carries env data) k (setSocketError e m k)" for e m
    by (simp add: written_only_def setSocketError_def)
  ultimately show ?thesis by (auto simp: sendTo_def Let_def case_prod_beta)
qed

text \<open>
  The bytes came out of the outbound SRTP context, or of one that arises from it by encrypting
  packets.
\<close>

inductive protecting :: "'s libsrtp \<Rightarrow> 's SRTPContext \<Rightarrow> 's SRTPContext \<Rightarrow> bool" for srtp where
  rtp: "protecting srtp c (snd (snd (protectRtp srtp packet c)))"
| rtcp: "protecting srtp c (snd (snd (protectRtcp srtp packet c)))"

definition encrypted :: "('ssl, 's) video_env \<Rightarrow> 's SRTPContext \<Rightarrow> bytes \<Rightarrow> bool" where
  "encrypted env c0 data \<longleftrightarrow> (\<exists>c c' packet. (protecting (vn_srtp env))\<^sup>*\<^sup>* c0 c \<and>
     (protectRtp (vn_srtp env) packet c = (True, data, c') \<or> protectRtcp (vn_srtp env) packet c = (True, data, c')))"

text \<open>What a session that has started DTLS may write: handshake messages until the keys are there, encrypted packets from then on.\<close>

definition may_write :: "('ssl, 's) video_env \<Rightarrow> ('ssl, 's, 'f) ScreenShareSession \<Rightarrow> datagram \<Rightarrow> bool" where
  "may_write env s d \<longleftrightarrow>
     (if vs_srtpReady s then \<exists>data. encrypted env (vs_outboundSrtp s) data \<and> carries env data d
      else \<exists>data \<in> set (vs_dtlsHandshakePackets s). carries env data d)"

definition writes_well :: "('ssl, 's) video_env \<Rightarrow> ('ssl, 's, 'f) ScreenShareSession \<Rightarrow> ('ssl, 's, 'f) ScreenShareSession \<Rightarrow> bool" where
  "writes_well env s s' \<longleftrightarrow> vs_dtlsStarted s' = vs_dtlsStarted s \<and> vs_srtpReady s' = vs_srtpReady s \<and>
     vs_dtlsHandshakePackets s' = vs_dtlsHandshakePackets s \<and>
     (protecting (vn_srtp env))\<^sup>*\<^sup>* (vs_outboundSrtp s) (vs_outboundSrtp s') \<and>
     (vs_dtlsStarted s \<longrightarrow> written_only (may_write env s) (vs_mediaSocket s) (vs_mediaSocket s'))"

lemma encrypted_later: "(protecting (vn_srtp env))\<^sup>*\<^sup>* c c1 \<Longrightarrow> encrypted env c1 data \<Longrightarrow> encrypted env c data"
  unfolding encrypted_def by (meson rtranclp_trans)

lemma writes_trans:
  assumes "writes_well env s1 s2" "writes_well env s2 s3"
  shows "writes_well env s1 s3"
proof -
  have p: "(protecting (vn_srtp env))\<^sup>*\<^sup>* (vs_outboundSrtp s1) (vs_outboundSrtp s3)"
    using assms unfolding writes_well_def by (meson rtranclp_trans)
  have "encrypted env (vs_outboundSrtp s1) data" if "encrypted env (vs_outboundSrtp s2) data" for data
    using assms(1) encrypted_later that unfolding writes_well_def by blast
  moreover have "vs_srtpReady s2 = vs_srtpReady s1" "vs_dtlsHandshakePackets s2 = vs_dtlsHandshakePackets s1"
    using assms(1) by (simp_all add: writes_well_def)
  ultimately have "may_write env s1 d" if "may_write env s2 d" for d
    using that unfolding may_write_def by (simp split: if_splits) blast
  then have "written_only (may_write env s1) (vs_mediaSocket s2) (vs_mediaSocket s3)" if "vs_dtlsStarted s2"
    using assms(2) that written_mono unfolding writes_well_def by blast
  then show ?thesis using assms p written_trans unfolding writes_well_def by metis
qed

definition wire_part where
  "wire_part s = (vs_dtlsStarted s, vs_srtpReady s, vs_dtlsHandshakePackets s, vs_outboundSrtp s, vs_mediaSocket s)"

lemma writes_same: "wire_part s' = wire_part s \<Longrightarrow> writes_well env s s'"
  by (simp add: writes_well_def wire_part_def)

lemma writes_from: "wire_part s1 = wire_part s \<Longrightarrow> writes_well env s1 s' \<Longrightarrow> writes_well env s s'"
  using writes_trans [OF writes_same] by blast

lemma wire_part_upd [simp]:
  "wire_part (s\<lparr>vs_stats := k\<rparr>) = wire_part s" "wire_part (video_setError m s) = wire_part s"
  "wire_part (s\<lparr>vs_sendFrameRingBuffer := b\<rparr>) = wire_part s"
  "wire_part (s\<lparr>vs_forceKeyFramePending := v\<rparr>) = wire_part s"
  "wire_part (s\<lparr>vs_sender := x\<rparr>) = wire_part s"
  "wire_part (s\<lparr>vs_sentPacketCount := n, vs_rtcpActionPipeline := a\<rparr>) = wire_part s"
  by (simp_all add: wire_part_def video_setError_def)

lemma video_send_wire:
  assumes "video_send env data peer s = (n, s')"
  shows "written_only (carries env data) (vs_mediaSocket s) (vs_mediaSocket s')"
    "vs_dtlsStarted s' = vs_dtlsStarted s" "vs_srtpReady s' = vs_srtpReady s"
    "vs_dtlsHandshakePackets s' = vs_dtlsHandshakePackets s" "vs_outboundSrtp s' = vs_outboundSrtp s"
  using assms written_sendTo [of env data "vs_mediaSocket s" peer]
  by (auto simp: video_send_def split: prod.splits)

text \<open>A packet that was encrypted and then sent, whichever way; when encrypting failed nothing was sent.\<close>

lemma protected_state:
  assumes "video_protectRtp env p s = (r, s1) \<or> video_protectRtcp env p s = (r, s1)"
  shows "vs_dtlsStarted s1 = vs_dtlsStarted s" "vs_srtpReady s1 = vs_srtpReady s"
    "vs_dtlsHandshakePackets s1 = vs_dtlsHandshakePackets s" "vs_mediaSocket s1 = vs_mediaSocket s"
    "(protecting (vn_srtp env))\<^sup>*\<^sup>* (vs_outboundSrtp s) (vs_outboundSrtp s1)"
    "r = Some w \<Longrightarrow> vs_dtlsStarted s \<Longrightarrow> vs_srtpReady s \<and> encrypted env (vs_outboundSrtp s) w"
proof -
  have "(protecting (vn_srtp env))\<^sup>*\<^sup>* (vs_outboundSrtp s) c" if "protectRtp (vn_srtp env) p (vs_outboundSrtp s) = (ok, b, c)" for ok b c
    using protecting.rtp [of "vn_srtp env" "vs_outboundSrtp s" p] that by (simp add: r_into_rtranclp)
  moreover have "(protecting (vn_srtp env))\<^sup>*\<^sup>* (vs_outboundSrtp s) c" if "protectRtcp (vn_srtp env) p (vs_outboundSrtp s) = (ok, b, c)" for ok b c
    using protecting.rtcp [of "vn_srtp env" "vs_outboundSrtp s" p] that by (simp add: r_into_rtranclp)
  ultimately show "(protecting (vn_srtp env))\<^sup>*\<^sup>* (vs_outboundSrtp s) (vs_outboundSrtp s1)"
    using assms by (auto simp: video_protectRtp_def video_protectRtcp_def video_setError_def Let_def split: if_splits prod.splits)
  show "vs_srtpReady s \<and> encrypted env (vs_outboundSrtp s) w" if "r = Some w" "vs_dtlsStarted s"
    using assms that unfolding encrypted_def
    by (auto simp: video_protectRtp_def video_protectRtcp_def video_setError_def Let_def split: if_splits prod.splits)
qed (use assms in \<open>auto simp: video_protectRtp_def video_protectRtcp_def video_setError_def Let_def split: if_splits prod.splits\<close>)

lemma writes_protected:
  assumes "video_protectRtp env p s = (r, s1) \<or> video_protectRtcp env p s = (r, s1)"
  shows "writes_well env s s1"
  using protected_state(1-5) [OF assms] by (simp add: writes_well_def)

lemma writes_sent:
  assumes "video_protectRtp env p s = (Some w, s1) \<or> video_protectRtcp env p s = (Some w, s1)" "video_send env w peer s1 = (n, s2)"
  shows "writes_well env s s2"
proof -
  note q = protected_state [OF assms(1)] and t = video_send_wire [OF assms(2)]
  have "written_only (may_write env s) (vs_mediaSocket s) (vs_mediaSocket s2)" if "vs_dtlsStarted s"
    using written_mono [OF t(1), of "may_write env s"] q(4) q(6) [OF refl that] by (auto simp: may_write_def)
  then show ?thesis using q(1-5) t(2-5) by (simp add: writes_well_def)
qed

lemma sent_packets_wire:
  assumes "video_send_packets env e ps t s = (ok, s')"
  shows "written_only (\<lambda>d. \<exists>p \<in> set ps. carries env p d) (vs_mediaSocket s) (vs_mediaSocket s') \<and>
    vs_dtlsStarted s' = vs_dtlsStarted s \<and> vs_srtpReady s' = vs_srtpReady s \<and>
    vs_dtlsHandshakePackets s' = vs_dtlsHandshakePackets s \<and> vs_outboundSrtp s' = vs_outboundSrtp s"
  using assms
proof (induction ps arbitrary: s)
  case (Cons p ps)
  obtain n s1 where x: "video_send env p t s = (n, s1)" by fastforce
  note w = video_send_wire [OF x]
  have one: "written_only (\<lambda>d. \<exists>q \<in> set (p # ps). carries env q d) (vs_mediaSocket s) (vs_mediaSocket s1)"
    by (rule written_mono [OF w(1)]) simp
  show ?case
  proof (cases "n = int (length p)")
    case True
    have r: "video_send_packets env e ps t s1 = (ok, s')" using Cons.prems x True by simp
    note ih = Cons.IH [OF r]
    have "written_only (\<lambda>d. \<exists>q \<in> set (p # ps). carries env q d) (vs_mediaSocket s1) (vs_mediaSocket s')"
      by (rule written_mono [OF conjunct1 [OF ih]]) auto
    then show ?thesis using written_trans [OF one] ih w(2-5) by simp
  next
    case False
    then show ?thesis using one Cons.prems x w(2-5) by (auto simp: video_setError_def)
  qed
qed simp

lemma writes_cached:
  assumes "\<not> vs_srtpReady s"
  shows "writes_well env s (snd (video_sendCachedDtlsHandshake env now peer s))"
proof -
  obtain ok s1 where x: "video_send_packets env ''video DTLS handshake send failed'' (vs_dtlsHandshakePackets s) peer s = (ok, s1)"
    by fastforce
  have s1: "writes_well env s s1"
    using sent_packets_wire [OF x] assms by (simp add: writes_well_def may_write_def [abs_def])
  have "writes_well env s (s1\<lparr>vs_lastDtlsHandshakeSendAt := now\<rparr>)"
    using s1 by (simp add: writes_well_def)
  then show ?thesis using s1 x writes_same [of s s] by (auto simp: video_sendCachedDtlsHandshake_def Let_def)
qed

lemma writes_report:
  assumes "maybeSendSenderReport env tm peer l s = (l', s')"
  shows "writes_well env s s'"
proof -
  have "writes_well env s s1" if "video_protectRtcp env d s = (r, s1)" for d r s1
    using writes_protected that by blast
  moreover have "writes_well env s s2" if "video_protectRtcp env d s = (Some w, s1)" "video_send env w peer s1 = (n, s2)" for d w s1 n s2
    using writes_sent that by blast
  ultimately show ?thesis
    using assms writes_same [of s s] unfolding maybeSendSenderReport_def Let_def
    by (auto split: if_splits option.splits prod.splits)
qed

lemma writes_frame_packets:
  "send_frame_packets env clock peer ps l s = (l', s') \<Longrightarrow> writes_well env s s'"
proof (induction ps arbitrary: clock l s)
  case Nil
  then show ?case using writes_same [of s s] by simp
next
  case (Cons p ps)
  show ?case
  proof (cases "vs_dtlsStarted s \<and> \<not> vs_srtpReady s")
    case True
    then show ?thesis using Cons.prems writes_trans [OF writes_cached Cons.IH] by simp
  next
    case False
    obtain r s1 where r: "video_protectRtp env (vp_bytes p) s = (r, s1)" by fastforce
    show ?thesis
    proof (cases r)
      case None
      have "writes_well env s s1" using writes_protected r by blast
      moreover have "send_frame_packets env (\<lambda>i. clock (Suc i)) peer ps l s1 = (l', s')"
        using None Cons.prems False r by simp
      ultimately show ?thesis using writes_trans Cons.IH by blast
    next
      case (Some w)
      obtain n s2 where n: "video_send env w peer s1 = (n, s2)" by fastforce
      have w: "writes_well env s s2" using writes_sent [OF _ n] r Some by blast
      have up: "writes_well env s s3" if "wire_part s3 = wire_part s2" for s3
        using writes_trans [OF w writes_same [OF that]] .
      show ?thesis
        using Cons.prems False r Some n writes_trans [OF up [OF wire_part_upd(6)] Cons.IH] up [OF wire_part_upd(2)]
        by (auto simp: Let_def split: if_splits)
    qed
  qed
qed

lemma writes_encoded:
  assumes "send_encoded env tm peer force result l s = (l', s')"
  shows "writes_well env s s'"
proof -
  obtain r key e x where res: "result = (r, key, e, x)" by (metis prod_cases4)
  show ?thesis
  proof (cases r)
    case (Inl m)
    then have "wire_part s' = wire_part s" using assms res by (auto simp: send_encoded_def Let_def split: if_splits)
    then show ?thesis by (rule writes_same)
  next
    case (Inr ps)
    define s2 where "s2 = (if force \<and> \<not> key then s\<lparr>vs_sender := x, vs_forceKeyFramePending := True\<rparr> else s\<lparr>vs_sender := x\<rparr>)"
    obtain l2 s3 where p: "send_frame_packets env (tm_cached tm) peer ps (l\<lparr>sl_encoder := e\<rparr>) s2 = (l2, s3)" by fastforce
    have "maybeSendSenderReport env tm peer l2 s3 = (l', s')"
      using assms res Inr p by (simp add: send_encoded_def Let_def s2_def split: if_splits)
    moreover have "writes_well env s s2" by (rule writes_same) (simp add: s2_def wire_part_def)
    ultimately show ?thesis using writes_trans [OF writes_trans [OF _ writes_frame_packets [OF p]] writes_report] by blast
  qed
qed

lemma writes_frame:
  assumes "send_frame env se tm source f peer l s = (l', s')"
  shows "writes_well env s s'"
  using assms
proof (cases rule: send_frame_cases)
  case (1 m)
  then show ?thesis by (simp add: writes_same)
next
  case (2 cfg g pt e l1)
  show ?thesis by (rule writes_from [OF _ writes_encoded [OF 2]]) simp
qed

lemma writes_captured:
  assumes "send_captured env se tm u source f l s = Some (l', s')"
  shows "writes_well env s s'"
  using assms
proof (cases rule: send_captured_cases)
  case (1 peer l1 k)
  show ?thesis by (rule writes_from [OF _ writes_report [OF 1]]) simp
next
  case (2 m k)
  then show ?thesis by (simp add: writes_same)
next
  case (3 l1 k)
  show ?thesis by (rule writes_from [OF _ writes_frame [OF 3(2)]]) simp
qed

lemma writes_iteration:
  assumes "sendLoop_iteration_video env se tm rounds l s = Some (b, l', s')"
  shows "writes_well env s s'"
  using assms
proof (cases rule: send_iteration_cases)
  case (1 ring)
  then show ?thesis by (simp add: writes_same)
next
  case (2 u source f ring)
  show ?thesis by (rule writes_from [OF _ writes_captured [OF 2]]) simp
qed

text \<open>
  A key-frame request that comes before a picture which cannot be brought to the size of the encoder
  is lost: the flag is gone and the encoder was not told.
\<close>

lemma key_frame_request_lost:
  assumes "send_frame env se tm source f peer l s = (l', s')" "vs_forceKeyFramePending s" "sl_profile l = SoftwareE2E"
    and "\<not> frameAlreadyMatches (se_encoder se) (sl_encoder l) f" "if_avFrame f = Some a"
    and "\<And>w h. se_scaleAvFrame se w h a = None"
  shows "\<not> vs_forceKeyFramePending s' \<and> sl_encoder l' = sl_encoder l"
  using assms
  by (auto simp: send_frame_def Let_def adaptVideoSendInputFrame_def isHardwareE2E_def video_setError_def case_prod_beta)

end
