(* ===== verification/VideoReceive.thy ===== *)
theory VideoReceive
  imports AudioSession H264Payload VideoFrames VideoFeedback
begin

text \<open>
  How the client receives video: the decoding thread of a stream and the table of streams
  (\<open>plasma-hawking/src/av/session/VideoRecvPipeline.cpp\<close>), the decision what to do with a packet
  (\<open>VideoRecvConsumePipeline.cpp\<close>, \<open>VideoRecvErrorPipeline.cpp\<close>), and the worker of one remote
  stream (\<open>VideoRecvPeerRuntime\<close> in \<open>ScreenShareSessionTransport.cpp\<close>).

  The decoder wraps FFmpeg and is a parameter. A decoding thread takes one step at a time
  (\<open>decode_step\<close>); while another thread waits for it, any number of its steps may happen. Clock
  readings in milliseconds are arguments.
\<close>

section \<open>The decoding thread\<close>

record 'd video_decoder =
  vd_configure :: "VideoPipelineProfile \<Rightarrow> 'd option"
  vd_decode :: "EncodedVideoFrame \<Rightarrow> 'd \<Rightarrow> (string + DecodedVideoFrame) \<times> 'd"
  vd_profileSet :: bool

record DecodeResult =
  dr_frame :: DecodedVideoFrame
  dr_error :: string
  dr_remoteMediaSsrc :: u32

definition hasFrame :: "DecodeResult \<Rightarrow> bool" where
  "hasFrame r \<longleftrightarrow> hasRenderableData (dr_frame r)"

record DecodeTask =
  dt_accessUnit :: H264AccessUnit
  dt_frameRate :: int

text \<open>The thread has not yet configured its decoder, decodes, or has returned.\<close>

datatype 'd decode_thread = Configuring | Decoding 'd | Returned

record 'd VideoRecvDecodeWorker =
  dw_remoteMediaSsrc :: u32
  dw_profile :: VideoPipelineProfile
  dw_tasks :: "DecodeTask list"
  dw_results :: "DecodeResult list"
  dw_thread :: "'d decode_thread"
  dw_stopping :: bool

definition kMaxPendingDecodeTasks :: nat where [simp]: "kMaxPendingDecodeTasks = 8"
definition kMaxPendingDecodeResults :: nat where [simp]: "kMaxPendingDecodeResults = 8"
definition kMaxTrackedRecvStreams :: nat where [simp]: "kMaxTrackedRecvStreams = 8"
definition kRecvStreamIdleTimeoutMs :: u64 where [simp]: "kRecvStreamIdleTimeoutMs = 30000"

definition VideoRecvDecodeWorker_new :: "u32 \<Rightarrow> VideoPipelineProfile \<Rightarrow> 'd VideoRecvDecodeWorker" where
  "VideoRecvDecodeWorker_new remoteMediaSsrc profile =
     \<lparr> dw_remoteMediaSsrc = remoteMediaSsrc, dw_profile = profile, dw_tasks = [], dw_results = [],
       dw_thread = Configuring, dw_stopping = False \<rparr>"

definition worker_enqueue :: "H264AccessUnit \<Rightarrow> int \<Rightarrow> 'd VideoRecvDecodeWorker \<Rightarrow> 'd VideoRecvDecodeWorker" where
  "worker_enqueue accessUnit frameRate w =
     (if dw_stopping w then w
      else
        let tasks = (if length (dw_tasks w) \<ge> kMaxPendingDecodeTasks then tl (dw_tasks w) else dw_tasks w)
        in w\<lparr>dw_tasks := tasks @ [\<lparr> dt_accessUnit = accessUnit, dt_frameRate = frameRate \<rparr>]\<rparr>)"

definition tryDequeue :: "'d VideoRecvDecodeWorker \<Rightarrow> DecodeResult option \<times> 'd VideoRecvDecodeWorker" where
  "tryDequeue w =
     (case dw_results w of [] \<Rightarrow> (None, w) | r # rs \<Rightarrow> (Some r, w\<lparr>dw_results := rs\<rparr>))"

text \<open>Waiting ends with a result, with the end of the worker or after the timeout; \<open>others\<close> is what happens meanwhile.\<close>

definition waitDequeue ::
  "('d VideoRecvDecodeWorker \<Rightarrow> 'd VideoRecvDecodeWorker) \<Rightarrow> 'd VideoRecvDecodeWorker \<Rightarrow>
   DecodeResult option \<times> 'd VideoRecvDecodeWorker" where
  "waitDequeue others w = tryDequeue (if dw_results w = [] then others w else w)"

definition pushResult :: "DecodeResult \<Rightarrow> 'd VideoRecvDecodeWorker \<Rightarrow> 'd VideoRecvDecodeWorker" where
  "pushResult result w =
     (let results = (if length (dw_results w) \<ge> kMaxPendingDecodeResults then tl (dw_results w) else dw_results w)
      in w\<lparr>dw_results := results @ [result]\<rparr>)"

text \<open>\<open>run\<close>: the configuration of the decoder, and one round of the loop.\<close>

definition configure_decoder :: "'d video_decoder \<Rightarrow> 'd VideoRecvDecodeWorker \<Rightarrow> 'd VideoRecvDecodeWorker" where
  "configure_decoder dec w =
     (let first = vd_configure dec (dw_profile w);
          decoder = (if first = None \<and> isHardwareE2E (dw_profile w) \<and> \<not> vd_profileSet dec
                     then vd_configure dec SoftwareE2E else first)
      in case decoder of
           None \<Rightarrow> (pushResult \<lparr> dr_frame = DecodedVideoFrame_new, dr_error = ''video decoder configure failed'',
                     dr_remoteMediaSsrc = dw_remoteMediaSsrc w \<rparr> w)\<lparr>dw_thread := Returned\<rparr>
         | Some d \<Rightarrow> w\<lparr>dw_thread := Decoding d\<rparr>)"

definition encoded_of :: "DecodeTask \<Rightarrow> EncodedVideoFrame" where
  "encoded_of task =
     \<lparr> ef_width = 0, ef_height = 0, ef_frameRate = dt_frameRate task, ef_pts = au_pts (dt_accessUnit task),
       ef_keyFrame = False, ef_payloadType = au_payloadType (dt_accessUnit task),
       ef_payload = au_payload (dt_accessUnit task) \<rparr>"

definition decode_task :: "'d video_decoder \<Rightarrow> DecodeTask \<Rightarrow> 'd \<Rightarrow> 'd VideoRecvDecodeWorker \<Rightarrow> 'd VideoRecvDecodeWorker" where
  "decode_task dec task d w =
     (let (decoded, d1) = vd_decode dec (encoded_of task) d; w1 = w\<lparr>dw_thread := Decoding d1\<rparr>
      in case decoded of
           Inl decodeError \<Rightarrow>
             if str_contains ''Resource temporarily unavailable'' decodeError then w1
             else pushResult \<lparr> dr_frame = DecodedVideoFrame_new,
                    dr_error = (if decodeError = [] then ''video decode failed'' else decodeError),
                    dr_remoteMediaSsrc = dw_remoteMediaSsrc w \<rparr> w1
         | Inr frame \<Rightarrow>
             pushResult \<lparr> dr_frame = frame, dr_error = [], dr_remoteMediaSsrc = dw_remoteMediaSsrc w \<rparr> w1)"

definition decode_step :: "'d video_decoder \<Rightarrow> 'd VideoRecvDecodeWorker \<Rightarrow> 'd VideoRecvDecodeWorker" where
  "decode_step dec w =
     (case dw_thread w of
        Configuring \<Rightarrow> configure_decoder dec w
      | Returned \<Rightarrow> w
      | Decoding d \<Rightarrow>
          (case dw_tasks w of
             [] \<Rightarrow> if dw_stopping w then w\<lparr>dw_thread := Returned\<rparr> else w
           | task # tasks \<Rightarrow> decode_task dec task d (w\<lparr>dw_tasks := tasks\<rparr>)))"

section \<open>The table of streams\<close>

record VideoRecvPipelineConfig =
  rc_screenPayloadType :: u8
  rc_cameraPayloadType :: u8
  rc_frameRate :: int
  rc_profile :: VideoPipelineProfile

record 'd StreamState =
  st_assembler :: H264AccessUnitAssembler
  st_decodeWorker :: "'d VideoRecvDecodeWorker"
  st_lastSeenAtMs :: u64

record 'd VideoRecvPipeline =
  rp_config :: VideoRecvPipelineConfig
  rp_streamStates :: "(u32, 'd StreamState) umap"

definition VideoRecvPipeline_new :: "VideoRecvPipelineConfig \<Rightarrow> 'd VideoRecvPipeline" where
  "VideoRecvPipeline_new config = \<lparr> rp_config = config, rp_streamStates = [] \<rparr>"

datatype VideoRecvPacketResult = Ignored | NeedMore | PacketLoss | DecodePending | DecodeFailed | FrameReady

datatype VideoRecvDatagramKind = IgnoreDatagram | RtcpDatagram | RtpDatagram

record VideoRecvDatagram =
  vg_kind :: VideoRecvDatagramKind
  vg_rtpPacket :: "RTPPacket option"

text \<open>The packet of a datagram is empty (\<open>None\<close>) when it was not parsed.\<close>

definition classifyDatagram :: "bytes \<Rightarrow> bool \<Rightarrow> bool \<Rightarrow> VideoRecvDatagram mem" where
  "classifyDatagram data senderAccepted rtcpAccepted = do {
     isRtcp \<leftarrow> looksLikeRtcpPacket data;
     if \<not> senderAccepted \<and> (\<not> isRtcp \<or> \<not> rtcpAccepted)
     then Some \<lparr> vg_kind = IgnoreDatagram, vg_rtpPacket = None \<rparr>
     else if isRtcp then Some \<lparr> vg_kind = RtcpDatagram, vg_rtpPacket = None \<rparr>
     else do {
       parsed \<leftarrow> parsePacket data;
       Some (case parsed of
               None \<Rightarrow> \<lparr> vg_kind = IgnoreDatagram, vg_rtpPacket = None \<rparr>
             | Some packet \<Rightarrow> \<lparr> vg_kind = RtpDatagram, vg_rtpPacket = Some packet \<rparr>) } }"

text \<open>The oldest entry: the first one with the least time, provided the time is less than the greatest value.\<close>

definition oldest_stream :: "('v \<Rightarrow> u64) \<Rightarrow> (u32, 'v) umap \<Rightarrow> u32 option" where
  "oldest_stream seen m =
     fst (fold (\<lambda>(k, v) (oldest, oldestSeenAt). if seen v < oldestSeenAt then (Some k, seen v) else (oldest, oldestSeenAt))
       m (None, - 1))"

lemma oldest_stream_fold:
  assumes "fold (\<lambda>(k, v) (oldest, oldestSeenAt). if seen v < oldestSeenAt then (Some k, seen v) else (oldest, oldestSeenAt))
      m (o0, t0) = (o1, t1)"
  shows "o1 = o0 \<or> (\<exists>k v. (k, v) \<in> set m \<and> o1 = Some k)"
  using assms by (induction m arbitrary: o0 t0) (auto split: if_splits, blast+)

lemma oldest_stream_in: "oldest_stream seen m = Some k \<Longrightarrow> k \<in> fst ` set m"
  using oldest_stream_fold [of seen m None "- 1"]
  by (force simp: oldest_stream_def prod_eq_iff split: prod.splits)

lemma delete_shrinks: "k \<in> fst ` set m \<Longrightarrow> length (AList.delete k m) < length m"
  by (auto simp: AList.delete_eq intro!: length_filter_less)

function evict_oldest :: "(u32, 'd StreamState) umap \<Rightarrow> (u32, 'd StreamState) umap" where
  "evict_oldest m =
     (if length m \<ge> kMaxTrackedRecvStreams
      then case oldest_stream st_lastSeenAtMs m of
             None \<Rightarrow> m
           | Some k \<Rightarrow> evict_oldest (AList.delete k m)
      else m)"
  by pat_completeness auto
termination by (relation "measure length") (auto intro: delete_shrinks dest: oldest_stream_in)

declare evict_oldest.simps [simp del]

definition pruneStreamStates :: "u64 \<Rightarrow> u32 \<Rightarrow> (u32, 'd StreamState) umap \<Rightarrow> (u32, 'd StreamState) umap" where
  "pruneStreamStates nowMs expectedRemoteSsrc m =
     evict_oldest
       (if expectedRemoteSsrc \<noteq> 0 then um_erase_if (\<lambda>k _. k \<noteq> expectedRemoteSsrc) m
        else um_erase_if (\<lambda>_ v. nowMs \<ge> st_lastSeenAtMs v \<and> nowMs - st_lastSeenAtMs v > kRecvStreamIdleTimeoutMs) m)"

definition findOrCreateStreamState ::
  "u32 \<Rightarrow> u64 \<Rightarrow> u32 \<Rightarrow> 'd VideoRecvPipeline \<Rightarrow> 'd StreamState option \<times> 'd VideoRecvPipeline" where
  "findOrCreateStreamState ssrc nowMs expectedRemoteSsrc p =
     (if ssrc = 0 then (None, p)
      else case map_of (rp_streamStates p) ssrc of
        Some st \<Rightarrow>
          let st1 = st\<lparr>st_lastSeenAtMs := nowMs\<rparr>
          in (Some st1, p\<lparr>rp_streamStates := AList.update ssrc st1 (rp_streamStates p)\<rparr>)
      | None \<Rightarrow>
          let st1 = \<lparr> st_assembler = H264AccessUnitAssembler_new,
                      st_decodeWorker = VideoRecvDecodeWorker_new ssrc (rc_profile (rp_config p)),
                      st_lastSeenAtMs = nowMs \<rparr>
          in (Some st1, p\<lparr>rp_streamStates :=
                AList.update ssrc st1 (pruneStreamStates nowMs expectedRemoteSsrc (rp_streamStates p))\<rparr>))"

text \<open>The output parameters of the following functions.\<close>

record recv_out =
  ro_frame :: DecodedVideoFrame
  ro_remoteMediaSsrc :: u32
  ro_error :: string
  ro_lossInfo :: "u16 list"

definition recv_out_new :: recv_out where
  "recv_out_new = \<lparr> ro_frame = DecodedVideoFrame_new, ro_remoteMediaSsrc = 0, ro_error = [], ro_lossInfo = [] \<rparr>"

definition mapResult :: "DecodeResult \<Rightarrow> recv_out \<Rightarrow> VideoRecvPacketResult \<times> recv_out" where
  "mapResult result out =
     (let out1 = out\<lparr>ro_remoteMediaSsrc := dr_remoteMediaSsrc result\<rparr>
      in if dr_error result \<noteq> [] then (DecodeFailed, out1\<lparr>ro_error := dr_error result\<rparr>)
         else if \<not> hasFrame result then (NeedMore, out1)
         else (FrameReady, out1\<lparr>ro_frame := dr_frame result\<rparr>))"

fun pop_first :: "u32 \<Rightarrow> (u32, 'd StreamState) umap \<Rightarrow> (DecodeResult \<times> (u32, 'd StreamState) umap) option" where
  "pop_first preferredSsrc [] = None"
| "pop_first preferredSsrc ((ssrc, st) # m) =
     (let next_stream = map_option (\<lambda>(r, m'). (r, (ssrc, st) # m')) (pop_first preferredSsrc m) in
      if ssrc = preferredSsrc then next_stream
      else case tryDequeue (st_decodeWorker st) of
             (None, w) \<Rightarrow> next_stream
           | (Some r, w) \<Rightarrow> Some (r, (ssrc, st\<lparr>st_decodeWorker := w\<rparr>) # m))"

definition popDecodedFrameResult ::
  "u32 \<Rightarrow> recv_out \<Rightarrow> 'd VideoRecvPipeline \<Rightarrow> VideoRecvPacketResult \<times> recv_out \<times> 'd VideoRecvPipeline" where
  "popDecodedFrameResult preferredSsrc out p =
     (let others = (case pop_first preferredSsrc (rp_streamStates p) of
            None \<Rightarrow> (NeedMore, out, p)
          | Some (r, m) \<Rightarrow> let (result, out1) = mapResult r out in (result, out1, p\<lparr>rp_streamStates := m\<rparr>))
      in if preferredSsrc = 0 then others
         else case map_of (rp_streamStates p) preferredSsrc of
           None \<Rightarrow> others
         | Some st \<Rightarrow>
             (case tryDequeue (st_decodeWorker st) of
                (None, w) \<Rightarrow> others
              | (Some r, w) \<Rightarrow>
                  let (result, out1) = mapResult r out
                  in (result, out1, p\<lparr>rp_streamStates :=
                        AList.update preferredSsrc (st\<lparr>st_decodeWorker := w\<rparr>) (rp_streamStates p)\<rparr>)))"

definition pollDecodedFrame ::
  "recv_out \<Rightarrow> 'd VideoRecvPipeline \<Rightarrow> VideoRecvPacketResult \<times> recv_out \<times> 'd VideoRecvPipeline" where
  "pollDecodedFrame out p = popDecodedFrameResult 0 (out\<lparr>ro_error := []\<rparr>) p"

definition consumePacket ::
  "('d VideoRecvDecodeWorker \<Rightarrow> 'd VideoRecvDecodeWorker) \<Rightarrow> u64 \<Rightarrow> RTPPacket \<Rightarrow> u32 \<Rightarrow> recv_out \<Rightarrow>
   'd VideoRecvPipeline \<Rightarrow> VideoRecvPacketResult \<times> recv_out \<times> 'd VideoRecvPipeline" where
  "consumePacket others nowMs packet expectedRemoteSsrc out0 p =
     (let out = out0\<lparr>ro_error := [], ro_lossInfo := []\<rparr>; h = p_header packet in
      if h_payloadType h \<noteq> rc_screenPayloadType (rp_config p) \<and> h_payloadType h \<noteq> rc_cameraPayloadType (rp_config p)
      then (Ignored, out\<lparr>ro_remoteMediaSsrc := 0\<rparr>, p)
      else if expectedRemoteSsrc \<noteq> 0 \<and> h_ssrc h \<noteq> expectedRemoteSsrc
      then (Ignored, out\<lparr>ro_remoteMediaSsrc := 0\<rparr>, p)
      else
        let remoteMediaSsrc = (if expectedRemoteSsrc \<noteq> 0 then expectedRemoteSsrc else h_ssrc h);
            out1 = out\<lparr>ro_remoteMediaSsrc := remoteMediaSsrc\<rparr>
        in case findOrCreateStreamState remoteMediaSsrc nowMs expectedRemoteSsrc p of
             (None, p1) \<Rightarrow> (DecodeFailed, out1\<lparr>ro_error := ''video decoder stream state unavailable''\<rparr>, p1)
           | (Some st, p1) \<Rightarrow>
               (case consume packet (st_assembler st) of
                  (None, packetLossDetected, localLossInfo, asm) \<Rightarrow>
                    let p2 = p1\<lparr>rp_streamStates :=
                          AList.update remoteMediaSsrc (st\<lparr>st_assembler := asm\<rparr>) (rp_streamStates p1)\<rparr>;
                        (popResult, out2, p3) = popDecodedFrameResult remoteMediaSsrc (out1\<lparr>ro_lossInfo := localLossInfo\<rparr>) p2
                    in (if popResult \<noteq> NeedMore then popResult
                        else if packetLossDetected then PacketLoss else NeedMore, out2, p3)
                | (Some accessUnit, packetLossDetected, localLossInfo, asm) \<Rightarrow>
                    let (dequeued, w) = waitDequeue others (worker_enqueue accessUnit (rc_frameRate (rp_config p1)) (st_decodeWorker st));
                        p2 = p1\<lparr>rp_streamStates := AList.update remoteMediaSsrc
                              (st\<lparr>st_assembler := asm, st_decodeWorker := w\<rparr>) (rp_streamStates p1)\<rparr>
                    in case map_option (\<lambda>r. mapResult r out1) dequeued of
                         Some (DecodeFailed, out2) \<Rightarrow> (DecodeFailed, out2, p2)
                       | Some (FrameReady, out2) \<Rightarrow> (FrameReady, out2, p2)
                       | pending \<Rightarrow>
                           let out2 = (case pending of None \<Rightarrow> out1 | Some (_, out2) \<Rightarrow> out2);
                               (popResult, out3, p3) = popDecodedFrameResult remoteMediaSsrc out2 p2
                           in (if popResult \<noteq> NeedMore then popResult else DecodePending, out3, p3)))"

definition decodeWorkerCount :: "'d VideoRecvPipeline \<Rightarrow> nat" where
  "decodeWorkerCount p = length (rp_streamStates p)"

section \<open>What to do with the result\<close>

datatype VideoRecvHandlingAction = Continue | RequestRetransmit | RequestKeyFrame | RequestKeyFrameAndError | DeliverFrame

record VideoRecvHandlingDecision =
  hd_action :: VideoRecvHandlingAction
  hd_keyFrameReason :: "string option"
  hd_retransmitSequenceNumbers :: "u16 list"
  hd_errorMessage :: string

definition decision :: "VideoRecvHandlingAction \<Rightarrow> string option \<Rightarrow> VideoRecvHandlingDecision" where
  "decision action reason =
     \<lparr> hd_action = action, hd_keyFrameReason = reason, hd_retransmitSequenceNumbers = [], hd_errorMessage = [] \<rparr>"

definition makeHandlingDecision :: "VideoRecvPacketResult \<Rightarrow> string \<Rightarrow> VideoRecvHandlingDecision" where
  "makeHandlingDecision result pipelineError =
     (case result of
        PacketLoss \<Rightarrow> decision RequestKeyFrame (Some ''packet loss'')
      | DecodeFailed \<Rightarrow>
          if str_contains ''Invalid data found when processing input'' pipelineError
          then decision RequestKeyFrame (Some ''decode recovery'')
          else (decision RequestKeyFrameAndError (Some ''decode failure''))\<lparr>hd_errorMessage :=
                 (if pipelineError = [] then ''video decode failed'' else pipelineError)\<rparr>
      | FrameReady \<Rightarrow> decision DeliverFrame None
      | _ \<Rightarrow> decision Continue None)"

record VideoRecvConsumeOutcome =
  co_ignored :: bool
  co_remoteMediaSsrc :: u32
  co_missingSequences :: "u16 list"
  co_decision :: VideoRecvHandlingDecision

text \<open>\<open>None\<close> is the result \<open>false\<close>; otherwise the outcome and the frame.\<close>

definition consumeAndDecide ::
  "('d VideoRecvDecodeWorker \<Rightarrow> 'd VideoRecvDecodeWorker) \<Rightarrow> u64 \<Rightarrow> RTPPacket \<Rightarrow> u32 \<Rightarrow> 'd VideoRecvPipeline \<Rightarrow>
   (VideoRecvConsumeOutcome \<times> DecodedVideoFrame) option \<times> 'd VideoRecvPipeline" where
  "consumeAndDecide others nowMs packet expectedRemoteSsrc p =
     (let (result, out, p1) = consumePacket others nowMs packet expectedRemoteSsrc recv_out_new p
      in if result = Ignored then (None, p1)
         else
           let d = makeHandlingDecision result (ro_error out);
               d1 = (if result = PacketLoss \<and> ro_lossInfo out \<noteq> []
                     then d\<lparr>hd_action := RequestRetransmit, hd_keyFrameReason := Some ''packet loss'',
                            hd_retransmitSequenceNumbers := ro_lossInfo out\<rparr>
                     else d)
           in (Some (\<lparr> co_ignored = False, co_remoteMediaSsrc = ro_remoteMediaSsrc out,
                       co_missingSequences = ro_lossInfo out, co_decision = d1 \<rparr>, ro_frame out), p1))"

definition pollAndDecide ::
  "'d VideoRecvPipeline \<Rightarrow> (VideoRecvConsumeOutcome \<times> DecodedVideoFrame) option \<times> 'd VideoRecvPipeline" where
  "pollAndDecide p =
     (let (result, out, p1) = pollDecodedFrame recv_out_new p
      in if result \<in> {Ignored, NeedMore, DecodePending} then (None, p1)
         else (Some (\<lparr> co_ignored = False, co_remoteMediaSsrc = ro_remoteMediaSsrc out, co_missingSequences = [],
                       co_decision = makeHandlingDecision result (ro_error out) \<rparr>, ro_frame out), p1))"

definition shouldReportSocketError :: "bool \<Rightarrow> bool \<Rightarrow> bool" where
  "shouldReportSocketError running transientSocketError \<longleftrightarrow> running \<and> \<not> transientSocketError"

definition extractDecisionError :: "VideoRecvHandlingDecision \<Rightarrow> string option" where
  "extractDecisionError d =
     (if hd_action d \<noteq> RequestKeyFrameAndError then None
      else Some (if hd_errorMessage d = [] then ''video decode failed'' else hd_errorMessage d))"

section \<open>The worker of a remote stream\<close>

record 'd VideoRecvPeerRuntime =
  pr_remoteMediaSsrc :: u32
  pr_expectedFrameRate :: int
  pr_recvPipeline :: "'d VideoRecvPipeline"
  pr_jitterBuffer :: JitterBuffer
  pr_thread :: bool
  pr_stopping :: bool
  pr_lastActiveAtMs :: u64

definition kMaxRecvPeerQueuedPackets :: nat where [simp]: "kMaxRecvPeerQueuedPackets = 64"
definition kMinRecvPeerBufferedPackets :: nat where [simp]: "kMinRecvPeerBufferedPackets = 3"
definition kRecvPeerJitterGapTimeoutMs :: int where [simp]: "kRecvPeerJitterGapTimeoutMs = 20"
definition kRecvWorkerPollBudgetAfterPacket :: nat where [simp]: "kRecvWorkerPollBudgetAfterPacket = 2"
definition kRecvWorkerPollBudgetWhenIdle :: nat where [simp]: "kRecvWorkerPollBudgetWhenIdle = 2"
definition kRecvWorkerPollBudgetOnStop :: nat where [simp]: "kRecvWorkerPollBudgetOnStop = 8"

definition VideoRecvPeerRuntime_new :: "u32 \<Rightarrow> VideoRecvPipelineConfig \<Rightarrow> u64 \<Rightarrow> 'd VideoRecvPeerRuntime" where
  "VideoRecvPeerRuntime_new remoteMediaSsrc config now =
     \<lparr> pr_remoteMediaSsrc = remoteMediaSsrc, pr_expectedFrameRate = max 1 (rc_frameRate config),
       pr_recvPipeline = VideoRecvPipeline_new config,
       pr_jitterBuffer = JitterBuffer_new kMaxRecvPeerQueuedPackets kMinRecvPeerBufferedPackets kRecvPeerJitterGapTimeoutMs,
       pr_thread = False, pr_stopping = False, pr_lastActiveAtMs = now \<rparr>"

definition peer_start :: "'d VideoRecvPeerRuntime \<Rightarrow> 'd VideoRecvPeerRuntime" where
  "peer_start r = (if pr_thread r then r else r\<lparr>pr_stopping := False, pr_thread := True\<rparr>)"

definition peer_enqueue :: "u64 \<Rightarrow> RTPPacket \<Rightarrow> 'd VideoRecvPeerRuntime \<Rightarrow> bool \<times> 'd VideoRecvPeerRuntime" where
  "peer_enqueue now packet r =
     (if \<not> pr_thread r \<or> pr_stopping r then (False, r)
      else (True, r\<lparr>pr_jitterBuffer := snd (JitterBuffer_push packet (pr_jitterBuffer r)), pr_lastActiveAtMs := now\<rparr>))"

text \<open>
  What the thread reports to its callbacks: the packet that was processed (\<open>None\<close> when a frame was
  polled), the outcome and the frame. \<open>active\<close> is the clock reading when the thread reports.
\<close>

type_synonym peer_event = "RTPPacket option \<times> VideoRecvConsumeOutcome \<times> DecodedVideoFrame"

fun pollDecodedFrames :: "u64 \<Rightarrow> nat \<Rightarrow> 'd VideoRecvPeerRuntime \<Rightarrow> peer_event list \<times> 'd VideoRecvPeerRuntime" where
  "pollDecodedFrames active 0 r = ([], r)"
| "pollDecodedFrames active (Suc budget) r =
     (case pollAndDecide (pr_recvPipeline r) of
        (None, p) \<Rightarrow> ([], r\<lparr>pr_recvPipeline := p\<rparr>)
      | (Some (outcome, frame), p) \<Rightarrow>
          let (events, r1) = pollDecodedFrames active budget (r\<lparr>pr_recvPipeline := p, pr_lastActiveAtMs := active\<rparr>)
          in ((None, outcome, frame) # events, r1))"

definition processPacket ::
  "('d VideoRecvDecodeWorker \<Rightarrow> 'd VideoRecvDecodeWorker) \<Rightarrow> u64 \<Rightarrow> u64 \<Rightarrow> RTPPacket \<Rightarrow> 'd VideoRecvPeerRuntime \<Rightarrow>
   peer_event list \<times> 'd VideoRecvPeerRuntime" where
  "processPacket others now active packet r =
     (case consumeAndDecide others now packet (pr_remoteMediaSsrc r) (pr_recvPipeline r) of
        (None, p) \<Rightarrow> ([], r\<lparr>pr_recvPipeline := p\<rparr>)
      | (Some (outcome, frame), p) \<Rightarrow>
          let (events, r1) = pollDecodedFrames active kRecvWorkerPollBudgetAfterPacket
                (r\<lparr>pr_recvPipeline := p, pr_lastActiveAtMs := active\<rparr>)
          in ((Some packet, outcome, frame) # events, r1))"

text \<open>
  One round of \<open>run\<close>: the adaptive jitter target, how the wait of \<open>popWait\<close> goes, what the decoding
  thread does meanwhile, and the clock readings. The product in \<open>minBufferedPackets\<close> is taken in
  32 bits. The Boolean of the result says that the loop was left.
\<close>

record 'd peer_round =
  ro_jitterTargetMs :: u32
  ro_deadline :: int
  ro_wakeups :: "wakeup list"
  ro_decoding :: "'d VideoRecvDecodeWorker \<Rightarrow> 'd VideoRecvDecodeWorker"
  ro_now :: u64
  ro_active :: u64

definition minBufferedPackets :: "bool \<Rightarrow> u32 \<Rightarrow> int \<Rightarrow> nat" where
  "minBufferedPackets stopping jitterTargetMs expectedFrameRate =
     (if stopping then 1
      else if jitterTargetMs \<ge> 100
      then max kMinRecvPeerBufferedPackets (unat ((word_of_int expectedFrameRate * jitterTargetMs + 999) div 1000))
      else kMinRecvPeerBufferedPackets)"

definition peer_run_round ::
  "'d peer_round \<Rightarrow> 'd VideoRecvPeerRuntime \<Rightarrow> (bool \<times> peer_event list \<times> 'd VideoRecvPeerRuntime) option" where
  "peer_run_round x r =
     (let n = minBufferedPackets (pr_stopping r) (ro_jitterTargetMs x) (pr_expectedFrameRate r);
          b = setGapTimeout kRecvPeerJitterGapTimeoutMs (setMinBufferedPackets n (pr_jitterBuffer r));
          r1 = r\<lparr>pr_jitterBuffer := b\<rparr>
      in if pr_stopping r1 \<and> JitterBuffer_size b = 0
         then let (events, r2) = pollDecodedFrames (ro_active x) kRecvWorkerPollBudgetOnStop r1 in Some (True, events, r2)
         else case popWait (ro_deadline x) (ro_wakeups x) b of
           None \<Rightarrow> None
         | Some (None, b1) \<Rightarrow>
             let (events, r2) = pollDecodedFrames (ro_active x) kRecvWorkerPollBudgetWhenIdle (r1\<lparr>pr_jitterBuffer := b1\<rparr>)
             in Some (False, events, r2)
         | Some (Some packet, b1) \<Rightarrow>
             let (events, r2) = processPacket (ro_decoding x) (ro_now x) (ro_active x) packet (r1\<lparr>pr_jitterBuffer := b1\<rparr>)
             in Some (False, events, r2))"

text \<open>\<open>stop\<close> waits for the thread, which goes through its rounds; \<open>None\<close> when it still runs after the given rounds.\<close>

fun peer_run :: "'d peer_round list \<Rightarrow> 'd VideoRecvPeerRuntime \<Rightarrow> (peer_event list \<times> 'd VideoRecvPeerRuntime) option" where
  "peer_run [] r = None"
| "peer_run (x # xs) r =
     (case peer_run_round x r of
        None \<Rightarrow> None
      | Some (left, events, r1) \<Rightarrow>
          if left then Some (events, r1)
          else map_option (\<lambda>(events', r2). (events @ events', r2)) (peer_run xs r1))"

definition peer_stop :: "'d peer_round list \<Rightarrow> 'd VideoRecvPeerRuntime \<Rightarrow> (peer_event list \<times> 'd VideoRecvPeerRuntime) option" where
  "peer_stop xs r =
     (if \<not> pr_thread r then Some ([], r)
      else map_option (\<lambda>(events, r1). (events, r1\<lparr>pr_jitterBuffer := JitterBuffer_clear (pr_jitterBuffer r1)\<rparr>))
             (peer_run xs (r\<lparr>pr_stopping := True, pr_thread := False\<rparr>)))"

section \<open>Streams are kept apart\<close>

text \<open>
  Where a frame comes from: an assembler that was fed packets of the source \<open>k\<close> only, an access unit
  such an assembler completed, a frame the decoder made of such a unit.
\<close>

inductive assembled :: "u32 \<Rightarrow> H264AccessUnitAssembler \<Rightarrow> bool" for k where
  start: "assembled k H264AccessUnitAssembler_new"
| packet: "assembled k a \<Longrightarrow> h_ssrc (p_header packet) = k \<Longrightarrow> consume packet a = (r, loss, missing, a') \<Longrightarrow> assembled k a'"

definition unit_of :: "u32 \<Rightarrow> H264AccessUnit \<Rightarrow> bool" where
  "unit_of k au \<longleftrightarrow> (\<exists>packet a rest. assembled k a \<and> h_ssrc (p_header packet) = k \<and> consume packet a = (Some au, rest))"

definition frame_of :: "'d video_decoder \<Rightarrow> u32 \<Rightarrow> DecodedVideoFrame \<Rightarrow> bool" where
  "frame_of dec k f \<longleftrightarrow>
     (\<exists>task d d'. unit_of k (dt_accessUnit task) \<and> vd_decode dec (encoded_of task) d = (Inr f, d'))"

definition result_ok :: "'d video_decoder \<Rightarrow> u32 \<Rightarrow> DecodeResult \<Rightarrow> bool" where
  "result_ok dec k r \<longleftrightarrow> dr_remoteMediaSsrc r = k \<and> (dr_error r = [] \<longrightarrow> frame_of dec k (dr_frame r))"

definition worker_ok :: "'d video_decoder \<Rightarrow> u32 \<Rightarrow> 'd VideoRecvDecodeWorker \<Rightarrow> bool" where
  "worker_ok dec k w \<longleftrightarrow>
     dw_remoteMediaSsrc w = k \<and> length (dw_tasks w) \<le> kMaxPendingDecodeTasks \<and>
     length (dw_results w) \<le> kMaxPendingDecodeResults \<and>
     (\<forall>t \<in> set (dw_tasks w). unit_of k (dt_accessUnit t)) \<and> (\<forall>r \<in> set (dw_results w). result_ok dec k r)"

definition stream_ok :: "'d video_decoder \<Rightarrow> u32 \<Rightarrow> 'd StreamState \<Rightarrow> bool" where
  "stream_ok dec k st \<longleftrightarrow>
     k \<noteq> 0 \<and> assembled k (st_assembler st) \<and> worker_ok dec k (st_decodeWorker st) \<and> st_lastSeenAtMs st \<noteq> - 1"

definition streams_ok :: "'d video_decoder \<Rightarrow> (u32, 'd StreamState) umap \<Rightarrow> bool" where
  "streams_ok dec m \<longleftrightarrow> um_ok m \<and> (\<forall>(k, st) \<in> set m. stream_ok dec k st)"

definition recv_inv :: "'d video_decoder \<Rightarrow> 'd VideoRecvPipeline \<Rightarrow> bool" where
  "recv_inv dec p \<longleftrightarrow> streams_ok dec (rp_streamStates p) \<and> length (rp_streamStates p) \<le> kMaxTrackedRecvStreams"

lemma in_tl: "x \<in> set (tl xs) \<Longrightarrow> x \<in> set xs"
  by (cases xs) auto

lemma worker_ok_new: "worker_ok dec k (VideoRecvDecodeWorker_new k profile)"
  by (simp add: worker_ok_def VideoRecvDecodeWorker_new_def)

lemma worker_ok_enqueue: "worker_ok dec k w \<Longrightarrow> unit_of k au \<Longrightarrow> worker_ok dec k (worker_enqueue au rate w)"
  by (auto simp: worker_ok_def worker_enqueue_def Let_def dest: in_tl split: if_splits)

lemma worker_ok_push: "worker_ok dec k w \<Longrightarrow> result_ok dec k r \<Longrightarrow> worker_ok dec k (pushResult r w)"
  by (auto simp: worker_ok_def pushResult_def Let_def dest: in_tl)

lemma worker_ok_thread: "worker_ok dec k (w\<lparr>dw_thread := t\<rparr>) = worker_ok dec k w"
  by (simp add: worker_ok_def)

lemma tryDequeue_ok:
  "worker_ok dec k w \<Longrightarrow> tryDequeue w = (r, w') \<Longrightarrow> worker_ok dec k w' \<and> (\<forall>x. r = Some x \<longrightarrow> result_ok dec k x)"
  by (auto simp: tryDequeue_def worker_ok_def split: list.splits)

lemma decode_task_ok:
  assumes "worker_ok dec k w" "unit_of k (dt_accessUnit task)"
  shows "worker_ok dec k (decode_task dec task d w)"
proof -
  obtain res d1 where dcd: "vd_decode dec (encoded_of task) d = (res, d1)" by fastforce
  have k: "dw_remoteMediaSsrc w = k" using assms(1) by (simp add: worker_ok_def)
  have w1: "worker_ok dec k (w\<lparr>dw_thread := Decoding d1\<rparr>)" using assms(1) by (simp add: worker_ok_thread)
  show ?thesis
  proof (cases res)
    case (Inl e)
    have "result_ok dec k \<lparr> dr_frame = DecodedVideoFrame_new, dr_error = (if e = [] then ''video decode failed'' else e),
        dr_remoteMediaSsrc = dw_remoteMediaSsrc w \<rparr>" using k by (simp add: result_ok_def)
    from worker_ok_push [OF w1 this] w1 show ?thesis by (simp add: decode_task_def dcd Inl Let_def)
  next
    case (Inr f)
    have "frame_of dec k f" using assms(2) dcd Inr by (auto simp: frame_of_def)
    then have "result_ok dec k \<lparr> dr_frame = f, dr_error = [], dr_remoteMediaSsrc = dw_remoteMediaSsrc w \<rparr>"
      using k by (simp add: result_ok_def)
    from worker_ok_push [OF w1 this] show ?thesis by (simp add: decode_task_def dcd Inr Let_def)
  qed
qed

lemma decode_step_ok:
  assumes "worker_ok dec k w"
  shows "worker_ok dec k (decode_step dec w)"
proof (cases "dw_thread w")
  case Configuring
  have "result_ok dec k \<lparr> dr_frame = DecodedVideoFrame_new, dr_error = ''video decoder configure failed'',
      dr_remoteMediaSsrc = dw_remoteMediaSsrc w \<rparr>"
    using assms by (simp add: result_ok_def worker_ok_def)
  from worker_ok_push [OF assms this] assms show ?thesis
    by (simp add: decode_step_def configure_decoder_def Configuring Let_def worker_ok_thread split: option.split)
next
  case (Decoding d)
  show ?thesis
  proof (cases "dw_tasks w")
    case (Cons t ts)
    have "worker_ok dec k (w\<lparr>dw_tasks := ts\<rparr>)" "unit_of k (dt_accessUnit t)"
      using assms Cons by (auto simp: worker_ok_def)
    from decode_task_ok [OF this] show ?thesis by (simp add: decode_step_def Decoding Cons)
  qed (use assms in \<open>simp add: decode_step_def Decoding worker_ok_thread\<close>)
qed (use assms in \<open>simp add: decode_step_def\<close>)

lemma decode_steps_ok: "worker_ok dec k w \<Longrightarrow> worker_ok dec k ((decode_step dec ^^ n) w)"
  by (induction n) (simp_all add: decode_step_ok)

lemma waitDequeue_ok:
  "worker_ok dec k w \<Longrightarrow> waitDequeue (decode_step dec ^^ n) w = (r, w') \<Longrightarrow>
     worker_ok dec k w' \<and> (\<forall>x. r = Some x \<longrightarrow> result_ok dec k x)"
  unfolding waitDequeue_def by (rule tryDequeue_ok) (auto simp: decode_steps_ok)

section \<open>The table stays small\<close>

lemma oldest_none:
  assumes "oldest_stream seen m = None" "(k, v) \<in> set m"
  shows "seen v = - 1"
proof -
  have "(\<forall>(k, v) \<in> set m. t \<le> seen v) \<and> o0 = None"
    if "fst (fold (\<lambda>(k, v) (oldest, oldestSeenAt). if seen v < oldestSeenAt then (Some k, seen v) else (oldest, oldestSeenAt))
      m (o0, t)) = None" for o0 and t :: u64
    using that
  proof (induction m arbitrary: o0 t)
    case (Cons e m)
    obtain k v where e: "e = (k, v)" by force
    show ?case
    proof (cases "seen v < t")
      case True
      then have "Some k = None" using Cons.prems Cons.IH [of "Some k" "seen v"] e by auto
      then show ?thesis by simp
    next
      case False
      then show ?thesis using Cons.prems Cons.IH [of o0 t] e by auto
    qed
  qed simp
  then have "- 1 \<le> seen v" using assms unfolding oldest_stream_def by blast
  then show ?thesis by (simp add: word_order.extremum_unique)
qed

lemma streams_ok_sub: "streams_ok dec m \<Longrightarrow> um_ok m' \<Longrightarrow> set m' \<subseteq> set m \<Longrightarrow> streams_ok dec m'"
  by (auto simp: streams_ok_def)

lemma streams_ok_delete: "streams_ok dec m \<Longrightarrow> streams_ok dec (AList.delete k m)"
  by (rule streams_ok_sub [OF _ _ set_delete_subset]) (auto simp: streams_ok_def)

lemma streams_ok_update:
  "streams_ok dec m \<Longrightarrow> stream_ok dec k st \<Longrightarrow> streams_ok dec (AList.update k st m)"
  using set_update_subset [of k st m] by (auto simp: streams_ok_def)

lemma streams_ok_find: "streams_ok dec m \<Longrightarrow> map_of m k = Some st \<Longrightarrow> stream_ok dec k st"
  by (auto simp: streams_ok_def dest: um_find_in)

lemma evict_ok: "streams_ok dec m \<Longrightarrow> streams_ok dec (evict_oldest m) \<and> length (evict_oldest m) < kMaxTrackedRecvStreams"
proof (induction m rule: evict_oldest.induct)
  case (1 m)
  show ?case
  proof (cases "oldest_stream st_lastSeenAtMs m")
    case None
    have "m = []"
    proof (rule ccontr)
      assume "m \<noteq> []"
      then obtain k st where "(k, st) \<in> set m" by (metis list.set_intros(1) neq_Nil_conv surj_pair)
      then show False using oldest_none [OF None] 1(2) by (auto simp: streams_ok_def stream_ok_def)
    qed
    then show ?thesis using 1(2) by (simp add: evict_oldest.simps)
  next
    case (Some k)
    then show ?thesis
      using 1 streams_ok_delete [OF 1(2)] by (subst (1 2) evict_oldest.simps) (simp add: not_le)
  qed
qed

lemma prune_ok:
  assumes "streams_ok dec m"
  shows "streams_ok dec (pruneStreamStates now e m) \<and> length (pruneStreamStates now e m) < kMaxTrackedRecvStreams"
proof -
  have "streams_ok dec (um_erase_if P m)" for P
    by (rule streams_ok_sub [OF assms]) (use assms in \<open>auto simp: streams_ok_def um_erase_if_def\<close>)
  then have "streams_ok dec (if e \<noteq> 0 then um_erase_if (\<lambda>k _. k \<noteq> e) m
        else um_erase_if (\<lambda>_ v. now \<ge> st_lastSeenAtMs v \<and> now - st_lastSeenAtMs v > kRecvStreamIdleTimeoutMs) m)"
    by simp
  then show ?thesis unfolding pruneStreamStates_def by (rule evict_ok)
qed

lemma length_update_le: "length (AList.update k v m) \<le> Suc (length m)"
  by (induction m) auto

lemma findOrCreate_ok:
  assumes "findOrCreateStreamState k now e p = (r, p')" "recv_inv dec p" "now \<noteq> - 1"
  shows "recv_inv dec p' \<and> (\<forall>st. r = Some st \<longrightarrow> stream_ok dec k st \<and> map_of (rp_streamStates p') k = Some st) \<and>
    rp_config p' = rp_config p"
proof (cases "k = 0")
  case False
  show ?thesis
  proof (cases "map_of (rp_streamStates p) k")
    case (Some st)
    then have st: "stream_ok dec k (st\<lparr>st_lastSeenAtMs := now\<rparr>)"
      using streams_ok_find [of dec "rp_streamStates p" k st] assms(2,3) by (simp add: recv_inv_def stream_ok_def)
    show ?thesis
      using assms st Some False streams_ok_update [OF _ st] size_update_present [OF Some]
      by (auto simp: findOrCreateStreamState_def recv_inv_def Let_def update_Some_unfold)
  next
    case None
    let ?st = "\<lparr> st_assembler = H264AccessUnitAssembler_new, st_decodeWorker = VideoRecvDecodeWorker_new k (rc_profile (rp_config p)),
      st_lastSeenAtMs = now \<rparr>"
    have st: "stream_ok dec k ?st" using False assms(3) by (simp add: stream_ok_def worker_ok_new assembled.start)
    have pr: "streams_ok dec (pruneStreamStates now e (rp_streamStates p))"
      "length (pruneStreamStates now e (rp_streamStates p)) < 8"
      using prune_ok [of dec "rp_streamStates p" now e] assms(2) by (auto simp: recv_inv_def)
    show ?thesis
      using assms(1) None False st streams_ok_update [OF pr(1) st]
        length_update_le [of k ?st "pruneStreamStates now e (rp_streamStates p)"] pr(2)
      by (auto simp: findOrCreateStreamState_def recv_inv_def Let_def table_simps)
  qed
qed (use assms in \<open>simp add: findOrCreateStreamState_def\<close>)

section \<open>Every operation keeps the streams apart\<close>

text \<open>What a result says of the output parameters.\<close>

definition out_ok :: "'d video_decoder \<Rightarrow> VideoRecvPacketResult \<Rightarrow> recv_out \<Rightarrow> bool" where
  "out_ok dec result out \<longleftrightarrow>
     (result = FrameReady \<longrightarrow> ro_remoteMediaSsrc out \<noteq> 0 \<and> frame_of dec (ro_remoteMediaSsrc out) (ro_frame out) \<and>
        hasRenderableData (ro_frame out))"

lemma mapResult_ok: "result_ok dec k r \<Longrightarrow> k \<noteq> 0 \<Longrightarrow> mapResult r out = (result, out') \<Longrightarrow> out_ok dec result out'"
  by (auto simp: mapResult_def out_ok_def result_ok_def hasFrame_def Let_def split: if_splits)

lemma pop_first_ok:
  "pop_first k m = Some (r, m') \<Longrightarrow> \<forall>(k, st) \<in> set m. stream_ok dec k st \<Longrightarrow>
     map fst m' = map fst m \<and> (\<forall>(k, st) \<in> set m'. stream_ok dec k st) \<and> (\<exists>j. j \<noteq> 0 \<and> result_ok dec j r)"
proof (induction k m arbitrary: r m' rule: pop_first.induct)
  case (2 k j st m)
  obtain q w where q: "tryDequeue (st_decodeWorker st) = (q, w)" by fastforce
  have st: "stream_ok dec j st" using "2.prems"(2) by auto
  show ?case
  proof (cases "j = k \<or> q = None")
    case True
    then obtain m1 where m1: "pop_first k m = Some (r, m1)" "m' = (j, st) # m1"
      using "2.prems"(1) q by (auto simp: Let_def split: if_splits)
    have "map fst m1 = map fst m \<and> (\<forall>(k, st) \<in> set m1. stream_ok dec k st) \<and> (\<exists>j. j \<noteq> 0 \<and> result_ok dec j r)"
      using True q m1(1) "2.prems"(2) "2.IH" by (cases "j = k") (auto simp: Let_def)
    then show ?thesis using m1(2) st by auto
  next
    case False
    then obtain x where x: "q = Some x" "j \<noteq> k" by auto
    then have "r = x" "m' = (j, st\<lparr>st_decodeWorker := w\<rparr>) # m" using "2.prems"(1) q by (auto simp: Let_def)
    moreover have "worker_ok dec j w" "result_ok dec j x"
      using tryDequeue_ok [OF _ q, of dec j] st x(1) by (auto simp: stream_ok_def)
    ultimately show ?thesis using st "2.prems"(2) by (auto simp: stream_ok_def)
  qed
qed simp

lemma pop_ok:
  assumes "popDecodedFrameResult k out p = (result, out', p')" "recv_inv dec p"
  shows "recv_inv dec p' \<and> out_ok dec result out' \<and> rp_config p' = rp_config p"
proof -
  have others: "recv_inv dec p2 \<and> out_ok dec res out2 \<and> rp_config p2 = rp_config p"
    if "(case pop_first k (rp_streamStates p) of None \<Rightarrow> (NeedMore, out, p)
          | Some (r, m) \<Rightarrow> let (result, out1) = mapResult r out in (result, out1, p\<lparr>rp_streamStates := m\<rparr>)) = (res, out2, p2)"
    for res out2 p2
  proof (cases "pop_first k (rp_streamStates p)")
    case None
    then show ?thesis using that assms(2) by (simp add: out_ok_def)
  next
    case (Some rm)
    obtain r m where rm: "rm = (r, m)" by force
    have ok: "map fst m = map fst (rp_streamStates p)" "\<forall>(k, st) \<in> set m. stream_ok dec k st"
      and r: "\<exists>j. j \<noteq> 0 \<and> result_ok dec j r"
      using pop_first_ok [of k "rp_streamStates p" r m dec] assms(2) Some rm
      by (auto simp: recv_inv_def streams_ok_def)
    have "length m = length (rp_streamStates p)" using ok(1) by (metis length_map)
    then show ?thesis
      using that Some rm ok r assms(2) mapResult_ok
      by (auto simp: recv_inv_def streams_ok_def um_ok_def split: prod.splits)
  qed
  show ?thesis
  proof (cases "map_of (rp_streamStates p) k")
    case None
    then show ?thesis using others assms(1) by (simp add: popDecodedFrameResult_def Let_def split: if_splits)
  next
    case (Some st)
    obtain q w where q: "tryDequeue (st_decodeWorker st) = (q, w)" by fastforce
    have st: "stream_ok dec k st" using streams_ok_find [OF _ Some] assms(2) by (simp add: recv_inv_def)
    show ?thesis
    proof (cases "k = 0 \<or> q = None")
      case True
      then show ?thesis using others assms(1) Some q by (auto simp: popDecodedFrameResult_def Let_def split: if_splits)
    next
      case False
      then obtain x where x: "q = Some x" by auto
      have w: "worker_ok dec k w" "result_ok dec k x" using tryDequeue_ok [OF _ q, of dec k] st x by (auto simp: stream_ok_def)
      then have "stream_ok dec k (st\<lparr>st_decodeWorker := w\<rparr>)" using st by (simp add: stream_ok_def)
      then have "recv_inv dec (p\<lparr>rp_streamStates := AList.update k (st\<lparr>st_decodeWorker := w\<rparr>) (rp_streamStates p)\<rparr>)"
        using assms(2) size_update_present [OF Some] by (simp add: recv_inv_def streams_ok_update)
      then show ?thesis
        using assms(1) Some q x False mapResult_ok [OF w(2)]
        by (auto simp: popDecodedFrameResult_def Let_def split: prod.splits)
    qed
  qed
qed

lemma consumePacket_ok:
  assumes "consumePacket (decode_step dec ^^ n) now packet expected out p = (result, out', p')" "recv_inv dec p" "now \<noteq> - 1"
  shows "recv_inv dec p' \<and> out_ok dec result out' \<and> rp_config p' = rp_config p"
proof -
  let ?h = "p_header packet"
  let ?k = "if expected \<noteq> 0 then expected else h_ssrc ?h"
  let ?out = "out\<lparr>ro_error := [], ro_lossInfo := [], ro_remoteMediaSsrc := ?k\<rparr>"
  consider (ignored) "result = Ignored" "p' = p"
    | (handled) "h_ssrc ?h = ?k" "(h_payloadType ?h = rc_screenPayloadType (rp_config p) \<or> h_payloadType ?h = rc_cameraPayloadType (rp_config p))"
        "\<not> (expected \<noteq> 0 \<and> h_ssrc ?h \<noteq> expected)"
    using assms(1) unfolding consumePacket_def Let_def by (auto split: if_splits)
  then show ?thesis
  proof cases
    case ignored
    then show ?thesis using assms(2) by (simp add: out_ok_def)
  next
    case handled
    obtain r p1 where f: "findOrCreateStreamState ?k now expected p = (r, p1)" by fastforce
    note fc = findOrCreate_ok [OF f assms(2,3)]
    show ?thesis
    proof (cases r)
      case None
      then show ?thesis using assms(1) handled f fc by (auto simp: consumePacket_def Let_def out_ok_def split: if_splits)
    next
      case (Some st)
      have st: "stream_ok dec ?k st" "map_of (rp_streamStates p1) ?k = Some st" using fc Some by auto
      obtain au loss missing a where c: "consume packet (st_assembler st) = (au, loss, missing, a)" by (metis prod_cases4)
      have a: "assembled ?k a" using assembled.packet [OF _ handled(1) c] st(1) by (simp add: stream_ok_def)
      have upd: "recv_inv dec (p1\<lparr>rp_streamStates := AList.update ?k st' (rp_streamStates p1)\<rparr>)"
        if "stream_ok dec ?k st'" for st'
        using fc size_update_present [OF st(2), of st'] that by (simp add: recv_inv_def streams_ok_update)
      show ?thesis
      proof (cases au)
        case None
        let ?p2 = "p1\<lparr>rp_streamStates := AList.update ?k (st\<lparr>st_assembler := a\<rparr>) (rp_streamStates p1)\<rparr>"
        have "recv_inv dec ?p2" using upd st(1) a by (simp add: stream_ok_def)
        moreover obtain res o2 p3 where pp: "popDecodedFrameResult ?k (?out\<lparr>ro_lossInfo := missing\<rparr>) ?p2 = (res, o2, p3)"
          by (metis prod_cases3)
        ultimately have "recv_inv dec p3 \<and> out_ok dec res o2 \<and> rp_config p3 = rp_config ?p2" by (intro pop_ok [OF pp])
        moreover have "result = (if res \<noteq> NeedMore then res else if loss then PacketLoss else NeedMore)" "out' = o2" "p' = p3"
          using assms(1) handled f Some c None pp unfolding consumePacket_def Let_def by (auto split: if_splits)
        ultimately show ?thesis using fc by (auto simp: out_ok_def)
      next
        case (Some unit)
        let ?w = "worker_enqueue unit (rc_frameRate (rp_config p1)) (st_decodeWorker st)"
        obtain dq w where dq: "waitDequeue (decode_step dec ^^ n) ?w = (dq, w)" by fastforce
        have "assembled ?k (st_assembler st)" using st(1) by (simp add: stream_ok_def)
        then have "unit_of ?k unit" unfolding unit_of_def using handled(1) c Some by blast
        then have "worker_ok dec ?k ?w" using st(1) by (simp add: stream_ok_def worker_ok_enqueue)
        note w = waitDequeue_ok [OF this dq]
        let ?p2 = "p1\<lparr>rp_streamStates := AList.update ?k (st\<lparr>st_assembler := a, st_decodeWorker := w\<rparr>) (rp_streamStates p1)\<rparr>"
        have p2: "recv_inv dec ?p2" using upd st(1) a w by (simp add: stream_ok_def)
        obtain mr where mr: "map_option (\<lambda>r. mapResult r ?out) dq = mr" by simp
        have mr_ok: "mr = Some (res, o2) \<Longrightarrow> out_ok dec res o2" for res o2
          using mr w st(1) mapResult_ok by (auto simp: stream_ok_def)
        define o2 where "o2 = (case mr of None \<Rightarrow> ?out | Some (_, out2) \<Rightarrow> out2)"
        obtain res o3 p3 where pp: "popDecodedFrameResult ?k o2 ?p2 = (res, o3, p3)" by (metis prod_cases3)
        note pop = pop_ok [OF pp p2]
        have "(p' = ?p2 \<and> mr = Some (result, out')) \<or>
            (p' = p3 \<and> out' = o3 \<and> result = (if res \<noteq> NeedMore then res else DecodePending))"
          using assms(1) handled f \<open>r = Some st\<close> c Some dq mr pp unfolding consumePacket_def Let_def o2_def
          by (auto split: if_splits option.splits prod.splits VideoRecvPacketResult.splits)
        then show ?thesis using p2 pop fc mr_ok by (auto simp: out_ok_def split: if_splits)
      qed
    qed
  qed
qed

lemma consumeAndDecide_ok:
  assumes "consumeAndDecide (decode_step dec ^^ n) now packet expected p = (r, p')" "recv_inv dec p" "now \<noteq> - 1"
  shows "recv_inv dec p'"
    "r = Some (outcome, frame) \<Longrightarrow> hd_action (co_decision outcome) = DeliverFrame \<Longrightarrow>
       co_remoteMediaSsrc outcome \<noteq> 0 \<and> frame_of dec (co_remoteMediaSsrc outcome) frame \<and> hasRenderableData frame"
proof -
  obtain res out p1 where c: "consumePacket (decode_step dec ^^ n) now packet expected recv_out_new p = (res, out, p1)"
    by (metis prod_cases3)
  note ok = consumePacket_ok [OF c assms(2,3)]
  show "recv_inv dec p'" using assms(1) c ok by (auto simp: consumeAndDecide_def Let_def split: if_splits)
  show "co_remoteMediaSsrc outcome \<noteq> 0 \<and> frame_of dec (co_remoteMediaSsrc outcome) frame \<and> hasRenderableData frame"
    if "r = Some (outcome, frame)" "hd_action (co_decision outcome) = DeliverFrame"
    using assms(1) c ok that
    by (cases res) (auto simp: consumeAndDecide_def Let_def out_ok_def makeHandlingDecision_def decision_def split: if_splits)
qed

lemma pollAndDecide_ok:
  assumes "pollAndDecide p = (r, p')" "recv_inv dec p"
  shows "recv_inv dec p'"
    "r = Some (outcome, frame) \<Longrightarrow> hd_action (co_decision outcome) = DeliverFrame \<Longrightarrow>
       co_remoteMediaSsrc outcome \<noteq> 0 \<and> frame_of dec (co_remoteMediaSsrc outcome) frame \<and> hasRenderableData frame"
proof -
  obtain res out p1 where c: "pollDecodedFrame recv_out_new p = (res, out, p1)" by (metis prod_cases3)
  note ok = pop_ok [OF c [unfolded pollDecodedFrame_def] assms(2)]
  show "recv_inv dec p'" using assms(1) c ok by (auto simp: pollAndDecide_def split: if_splits)
  show "co_remoteMediaSsrc outcome \<noteq> 0 \<and> frame_of dec (co_remoteMediaSsrc outcome) frame \<and> hasRenderableData frame"
    if "r = Some (outcome, frame)" "hd_action (co_decision outcome) = DeliverFrame"
    using assms(1) c ok that
    by (cases res) (auto simp: pollAndDecide_def out_ok_def makeHandlingDecision_def decision_def split: if_splits)
qed

text \<open>The operations of the threads on one pipeline; the steady clock does not reach its greatest value.\<close>

inductive recv_step :: "'d video_decoder \<Rightarrow> 'd VideoRecvPipeline \<Rightarrow> 'd VideoRecvPipeline \<Rightarrow> bool" for dec where
  packet: "consumeAndDecide (decode_step dec ^^ n) now packet expected p = (r, p') \<Longrightarrow> now \<noteq> - 1 \<Longrightarrow> recv_step dec p p'"
| poll: "pollAndDecide p = (r, p') \<Longrightarrow> recv_step dec p p'"
| decode: "map_of (rp_streamStates p) k = Some st \<Longrightarrow>
    recv_step dec p (p\<lparr>rp_streamStates := AList.update k (st\<lparr>st_decodeWorker := decode_step dec (st_decodeWorker st)\<rparr>)
      (rp_streamStates p)\<rparr>)"

lemma recv_inv_new: "recv_inv dec (VideoRecvPipeline_new config)"
  by (simp add: recv_inv_def streams_ok_def VideoRecvPipeline_new_def)

lemma recv_inv_step: "recv_step dec p p' \<Longrightarrow> recv_inv dec p \<Longrightarrow> recv_inv dec p'"
proof (induction rule: recv_step.induct)
  case (decode p k st)
  have "stream_ok dec k st" using streams_ok_find [OF _ decode(1)] decode(2) by (simp add: recv_inv_def)
  then have "stream_ok dec k (st\<lparr>st_decodeWorker := decode_step dec (st_decodeWorker st)\<rparr>)"
    by (simp add: stream_ok_def decode_step_ok)
  then show ?case using decode(2) size_update_present [OF decode(1)] by (simp add: recv_inv_def streams_ok_update)
qed (auto intro: consumeAndDecide_ok(1) pollAndDecide_ok(1))

interpretation receiver: state_machine "\<lambda>p. \<exists>config. p = VideoRecvPipeline_new config" "recv_step dec" "recv_inv dec" for dec
  by unfold_locales (auto simp: recv_inv_new intro: recv_inv_step)

lemma recv_reachable_inv: "(recv_step dec)\<^sup>*\<^sup>* (VideoRecvPipeline_new config) p \<Longrightarrow> recv_inv dec p"
  by (rule receiver.reachable_inv) blast+

text \<open>
  C16. Nobody is shown with another's picture, and nobody can fill the receiver's memory. In every
  state the receiver can reach, however packets of any number of sources, polls and decoding steps
  are interleaved: at most eight streams are tracked, each with at most eight waiting access units
  and eight waiting results; and every frame that is delivered for a source can be rendered and was
  decoded from an access unit assembled from packets of that very source only.
\<close>

theorem video_streams_separate:
  assumes "(recv_step dec)\<^sup>*\<^sup>* (VideoRecvPipeline_new config) p" "now \<noteq> - 1"
  shows "decodeWorkerCount p \<le> 8 \<and>
    (\<forall>(k, st) \<in> set (rp_streamStates p). length (dw_tasks (st_decodeWorker st)) \<le> 8 \<and>
       length (dw_results (st_decodeWorker st)) \<le> 8) \<and>
    (\<forall>outcome frame p'. consumeAndDecide (decode_step dec ^^ n) now packet expected p = (Some (outcome, frame), p') \<or>
       pollAndDecide p = (Some (outcome, frame), p') \<longrightarrow> hd_action (co_decision outcome) = DeliverFrame \<longrightarrow>
         co_remoteMediaSsrc outcome \<noteq> 0 \<and> frame_of dec (co_remoteMediaSsrc outcome) frame \<and> hasRenderableData frame)"
proof (intro conjI allI impI)
  have inv: "recv_inv dec p" using assms(1) by (rule recv_reachable_inv)
  show "decodeWorkerCount p \<le> 8" using inv by (simp add: recv_inv_def decodeWorkerCount_def)
  show "\<forall>(k, st) \<in> set (rp_streamStates p). length (dw_tasks (st_decodeWorker st)) \<le> 8 \<and>
       length (dw_results (st_decodeWorker st)) \<le> 8"
    using inv by (auto simp: recv_inv_def streams_ok_def stream_ok_def worker_ok_def)
  fix outcome frame p'
  assume d: "consumeAndDecide (decode_step dec ^^ n) now packet expected p = (Some (outcome, frame), p') \<or>
       pollAndDecide p = (Some (outcome, frame), p')" "hd_action (co_decision outcome) = DeliverFrame"
  from d(1) have "co_remoteMediaSsrc outcome \<noteq> 0 \<and> frame_of dec (co_remoteMediaSsrc outcome) frame \<and> hasRenderableData frame"
    using consumeAndDecide_ok(2) [OF _ inv assms(2) refl d(2)] pollAndDecide_ok(2) [OF _ inv refl d(2)] by blast
  then show "co_remoteMediaSsrc outcome \<noteq> 0" "frame_of dec (co_remoteMediaSsrc outcome) frame" "hasRenderableData frame"
    by simp_all
qed

definition demo_picture :: DecodedVideoFrame where
  "demo_picture = DecodedVideoFrame_new\<lparr>df_width := 2, df_height := 2, df_yPlane := [16, 16, 16, 16], df_uvPlane := [128, 128]\<rparr>"

definition demo_decoder :: "unit video_decoder" where
  "demo_decoder = \<lparr> vd_configure = \<lambda>_. Some (), vd_decode = \<lambda>e d. (Inr (demo_picture\<lparr>df_pts := ef_pts e\<rparr>), d), vd_profileSet = False \<rparr>"

definition demo_recv_config :: VideoRecvPipelineConfig where
  "demo_recv_config = \<lparr> rc_screenPayloadType = 97, rc_cameraPayloadType = 96, rc_frameRate = 30, rc_profile = SoftwareE2E \<rparr>"

definition demo_video_packet :: RTPPacket where
  "demo_video_packet = \<lparr> p_header = \<lparr> h_version = 2, h_padding = False, h_extension = False, h_csrcCount = 0,
     h_marker = True, h_payloadType = 96, h_sequenceNumber = 9, h_timestamp = 6000, h_ssrc = 7 \<rparr>, p_payload = [0x65, 1, 2] \<rparr>"

theorem video_streams_separate_witness:
  "\<exists>outcome frame p'. consumeAndDecide (decode_step demo_decoder ^^ 2) 5 demo_video_packet 0
       (VideoRecvPipeline_new demo_recv_config) = (Some (outcome, frame), p') \<and>
     co_remoteMediaSsrc outcome = 7 \<and> frame_of demo_decoder 7 frame \<and> hasRenderableData frame"
proof -
  let ?p = "VideoRecvPipeline_new demo_recv_config :: unit VideoRecvPipeline"
  let ?r = "consumeAndDecide (decode_step demo_decoder ^^ 2) 5 demo_video_packet 0 ?p"
  have c: "map_option (\<lambda>(o1, f). (hd_action (co_decision o1), co_remoteMediaSsrc o1)) (fst ?r) = Some (DeliverFrame, 7)"
    by code_simp
  then obtain outcome frame where f: "fst ?r = Some (outcome, frame)" "hd_action (co_decision outcome) = DeliverFrame"
    "co_remoteMediaSsrc outcome = 7" by auto
  then have r: "?r = (Some (outcome, frame), snd ?r)" by (metis prod.collapse)
  have "co_remoteMediaSsrc outcome \<noteq> 0 \<and> frame_of demo_decoder (co_remoteMediaSsrc outcome) frame \<and> hasRenderableData frame"
    using video_streams_separate [of demo_decoder demo_recv_config ?p 5 2 demo_video_packet 0] r f(2) by auto
  then show ?thesis using r f(3) by auto
qed

section \<open>A complete frame is decoded and shown\<close>

text \<open>A pipeline with one stream whose decoding thread has nothing to do.\<close>

definition idle :: "u32 \<Rightarrow> H264AccessUnitAssembler \<Rightarrow> 'd \<Rightarrow> 'd VideoRecvPipeline \<Rightarrow> bool" where
  "idle k a d p \<longleftrightarrow>
     (\<exists>w t. rp_streamStates p = [(k, \<lparr> st_assembler = a, st_decodeWorker = w, st_lastSeenAtMs = t \<rparr>)] \<and>
       dw_tasks w = [] \<and> dw_results w = [] \<and> dw_thread w = Decoding d \<and> \<not> dw_stopping w)"

definition plays :: "'d VideoRecvPipeline \<Rightarrow> u8 \<Rightarrow> bool" where
  "plays p pt \<longleftrightarrow> pt = rc_screenPayloadType (rp_config p) \<or> pt = rc_cameraPayloadType (rp_config p)"

lemma consume_partial:
  assumes "idle k a d p" "h_ssrc (p_header packet) = k" "k \<noteq> 0" "plays p (h_payloadType (p_header packet))"
    and "consume packet a = (None, False, missing, a')"
  shows "\<exists>out' p'. consumePacket others now packet k out p = (NeedMore, out', p') \<and> idle k a' d p' \<and> rp_config p' = rp_config p"
  using assms
  by (auto simp: idle_def plays_def consumePacket_def findOrCreateStreamState_def popDecodedFrameResult_def tryDequeue_def Let_def)

lemma idle_steps:
  assumes "dw_thread w = Decoding d" "dw_tasks w = []" "\<not> dw_stopping w"
  shows "(decode_step dec ^^ n) w = w"
  using assms by (induction n) (simp_all add: decode_step_def)

lemma decode_one:
  assumes "dw_thread w = Decoding d" "dw_tasks w = [task]" "dw_results w = []" "\<not> dw_stopping w"
    and "vd_decode dec (encoded_of task) d = (Inr f, d')"
  shows "(decode_step dec ^^ Suc n) w = w\<lparr>dw_tasks := [], dw_thread := Decoding d',
    dw_results := [\<lparr> dr_frame = f, dr_error = [], dr_remoteMediaSsrc = dw_remoteMediaSsrc w \<rparr>]\<rparr>" (is "_ = ?w")
proof -
  have "decode_step dec w = ?w"
    using assms by (simp add: decode_step_def decode_task_def pushResult_def)
  moreover have "(decode_step dec ^^ n) ?w = ?w" using assms(4) by (intro idle_steps) simp_all
  ultimately show ?thesis by (simp add: funpow_swap1)
qed

lemma consume_complete:
  assumes "idle k a d p" "h_ssrc (p_header packet) = k" "k \<noteq> 0" "plays p (h_payloadType (p_header packet))"
    and "consume packet a = (Some au, loss, missing, a')"
    and "vd_decode dec (encoded_of \<lparr> dt_accessUnit = au, dt_frameRate = rc_frameRate (rp_config p) \<rparr>) d = (Inr f, d')"
    and "hasRenderableData f"
  shows "\<exists>out' p'. consumePacket (decode_step dec ^^ Suc n) now packet k out p = (FrameReady, out', p') \<and>
    ro_frame out' = f \<and> idle k a' d' p' \<and> rp_config p' = rp_config p"
proof -
  obtain w t where w: "rp_streamStates p = [(k, \<lparr> st_assembler = a, st_decodeWorker = w, st_lastSeenAtMs = t \<rparr>)]"
    "dw_tasks w = []" "dw_results w = []" "dw_thread w = Decoding d" "\<not> dw_stopping w"
    using assms(1) by (auto simp: idle_def)
  define task where "task = \<lparr> dt_accessUnit = au, dt_frameRate = rc_frameRate (rp_config p) \<rparr>"
  have enq: "worker_enqueue au (rc_frameRate (rp_config p)) w = w\<lparr>dw_tasks := [task]\<rparr>"
    using w by (simp add: worker_enqueue_def task_def)
  have steps: "(decode_step dec ^^ Suc n) (w\<lparr>dw_tasks := [task]\<rparr>) = w\<lparr>dw_tasks := [], dw_thread := Decoding d',
      dw_results := [\<lparr> dr_frame = f, dr_error = [], dr_remoteMediaSsrc = dw_remoteMediaSsrc w \<rparr>]\<rparr>"
    using decode_one [of "w\<lparr>dw_tasks := [task]\<rparr>" d task dec f d' n] w assms(6) by (simp add: task_def)
  show ?thesis
    using assms(2-5,7) w(1-3,5)
    by (auto simp: consumePacket_def findOrCreateStreamState_def plays_def Let_def waitDequeue_def enq steps tryDequeue_def
        mapResult_def hasFrame_def idle_def simp del: funpow.simps)
qed

text \<open>Datagrams of one stream, each parsed and given to the pipeline; the result and the frame of each.\<close>

fun show_all ::
  "'d video_decoder \<Rightarrow> nat \<Rightarrow> u64 \<Rightarrow> u32 \<Rightarrow> bytes list \<Rightarrow> 'd VideoRecvPipeline \<Rightarrow>
   (VideoRecvPacketResult \<times> DecodedVideoFrame) list \<times> 'd VideoRecvPipeline" where
  "show_all dec n now k [] p = ([], p)"
| "show_all dec n now k (wire # wires) p =
     (case parsePacket wire of
        Some (Some packet) \<Rightarrow>
          let (r, out, p1) = consumePacket (decode_step dec ^^ n) now packet k recv_out_new p;
              (rs, p2) = show_all dec n now k wires p1
          in ((r, ro_frame out) # rs, p2)
      | _ \<Rightarrow> show_all dec n now k wires p)"

definition of_stream :: "u32 \<Rightarrow> u8 \<Rightarrow> bytes \<Rightarrow> bool" where
  "of_stream k pt wire \<longleftrightarrow>
     (\<exists>packet. parsePacket wire = Some (Some packet) \<and> h_ssrc (p_header packet) = k \<and> h_payloadType (p_header packet) = pt)"

lemma sent_of_stream: "wire \<in> set (sent_bytes pt ts payloads s) \<Longrightarrow> of_stream (snd_ssrc s) (pt AND 0x7F) wire"
proof (induction payloads arbitrary: s)
  case (Cons payload payloads)
  let ?s = "s\<lparr>snd_sequence := snd_sequence s + 1\<rparr>"
  have first: "of_stream (snd_ssrc s) (pt AND 0x7F) (fst (buildPacket pt (payloads = []) ts payload s))"
    unfolding of_stream_def parsePacket_built by simp
  have "wire = fst (buildPacket pt (payloads = []) ts payload s) \<or> wire \<in> set (sent_bytes pt ts payloads ?s)"
    using Cons.prems by simp
  then show ?case using first Cons.IH [of ?s] by auto
qed simp

lemma receive_length: "\<forall>wire \<in> set wires. of_stream k pt wire \<Longrightarrow> length (fst (receive_all wires a)) = length wires"
  by (induction wires arbitrary: a) (auto simp: of_stream_def case_prod_beta Let_def)

lemma unit_shown:
  assumes "receive_all wires a = (replicate m (None, False, []) @ [(Some au, False, [])], a')"
    and "\<forall>wire \<in> set wires. of_stream k pt wire" "k \<noteq> 0" "plays p pt" "idle k a d p"
    and "vd_decode dec (encoded_of \<lparr> dt_accessUnit = au, dt_frameRate = rc_frameRate (rp_config p) \<rparr>) d = (Inr f, d')"
    and "hasRenderableData f"
  shows "\<exists>rs p'. show_all dec (Suc n) now k wires p = (rs, p') \<and> map fst rs = replicate m NeedMore @ [FrameReady] \<and>
    snd (last rs) = f \<and> idle k a' d' p'"
  using assms
proof (induction m arbitrary: wires a p)
  case 0
  have "length wires = 1" using receive_length [OF 0(2), of a] 0(1) by simp
  then obtain wire where w: "wires = [wire]" "of_stream k pt wire"
    using 0(2) by (metis One_nat_def length_0_conv length_Suc_conv list.set_intros(1))
  then obtain packet where packet: "parsePacket wire = Some (Some packet)" "h_ssrc (p_header packet) = k"
    "h_payloadType (p_header packet) = pt" by (auto simp: of_stream_def)
  have "consume packet a = (Some au, False, [], a')" using 0(1) w packet by (auto split: prod.splits)
  from consume_complete [OF 0(5) packet(2) 0(3) _ this 0(6,7), of n now recv_out_new] 0(4) packet
  show ?case by (auto simp: w simp del: funpow.simps)
next
  case (Suc m)
  obtain wire rest where w: "wires = wire # rest" using Suc.prems(1) by (cases wires) auto
  then obtain packet where packet: "parsePacket wire = Some (Some packet)" "h_ssrc (p_header packet) = k"
    "h_payloadType (p_header packet) = pt" using Suc.prems(2) by (auto simp: of_stream_def)
  obtain r l mi a1 where c: "consume packet a = (r, l, mi, a1)" by (metis prod_cases4)
  have r: "r = None" "l = False" "mi = []"
    "receive_all rest a1 = (replicate m (None, False, []) @ [(Some au, False, [])], a')"
    using Suc.prems(1) w packet c by (auto split: prod.splits)
  obtain out1 p1 where p1: "consumePacket (decode_step dec ^^ Suc n) now packet k recv_out_new p = (NeedMore, out1, p1)"
    "idle k a1 d p1" "rp_config p1 = rp_config p"
    using consume_partial [OF Suc.prems(5) packet(2) Suc.prems(3)] Suc.prems(4) packet(3) c r(1-3) by blast
  have "plays p1 pt" using Suc.prems(4) p1(3) by (simp add: plays_def)
  from Suc.IH [OF r(4) _ Suc.prems(3) this p1(2)] Suc.prems(2,6,7) p1(3) w
  obtain rs p' where ih: "show_all dec (Suc n) now k rest p1 = (rs, p')" "map fst rs = replicate m NeedMore @ [FrameReady]"
    "snd (last rs) = f" "idle k a' d' p'" by auto
  then have "rs \<noteq> []" by auto
  then show ?case using ih w packet p1(1) by (simp del: funpow.simps)
qed

section \<open>A gap that does not time out\<close>

text \<open>
  Each round of the worker sets the gap timeout anew, which forgets since when the buffer waits for a
  missing packet, and waits no longer than the gap timeout. So when the thread wakes up in time, the
  round gives up before the gap has timed out, and the next round starts all over.
\<close>

definition gap_waiting :: "JitterBuffer \<Rightarrow> bool" where
  "gap_waiting b \<longleftrightarrow> jb_packets b \<noteq> [] \<and> jb_playoutStarted b \<and> length (jb_packets b) < jb_maxPackets b \<and>
     0 < jb_gapTimeout b \<and> (\<exists>e. jb_expectedSeq b = Some e \<and> map_of (jb_packets b) e = None)"

lemma gap_ready:
  assumes "gap_waiting b" "jb_gapWaitStartedAt b = 0 \<or> t - jb_gapWaitStartedAt b < jb_gapTimeout b * 1000000"
  shows "readyToPopLocked t b = (False, b\<lparr>jb_gapWaitStartedAt := (if jb_gapWaitStartedAt b = 0 then t else jb_gapWaitStartedAt b)\<rparr>)"
  using assms by (auto simp: gap_waiting_def readyToPopLocked_def Let_def)

lemma gap_wait_in_time:
  assumes "gap_waiting b" "\<forall>w \<in> set ws. wk_others w = id \<and> start \<le> wk_ready w \<and> wk_ready w - start < jb_gapTimeout b * 1000000"
    and "0 < start" "jb_gapWaitStartedAt b = 0 \<or> start \<le> jb_gapWaitStartedAt b" "popWait deadline ws b = Some (r, b')"
  shows "r = None \<and> gap_waiting b' \<and> jb_packets b' = jb_packets b"
  using assms
proof (induction ws arbitrary: b)
  case (Cons w ws)
  define b1 where "b1 = b\<lparr>jb_gapWaitStartedAt := (if jb_gapWaitStartedAt b = 0 then wk_ready w else jb_gapWaitStartedAt b)\<rparr>"
  have rd: "readyToPopLocked (wk_ready w) b = (False, b1)"
    unfolding b1_def by (rule gap_ready) (use Cons.prems in auto)
  have b1: "gap_waiting b1" "jb_packets b1 = jb_packets b" "jb_gapTimeout b1 = jb_gapTimeout b"
    "start \<le> jb_gapWaitStartedAt b1"
    using Cons.prems by (auto simp: b1_def gap_waiting_def)
  show ?case
  proof (cases "popWait deadline ws b1 = Some (r, b')")
    case True
    then show ?thesis using Cons.IH [OF b1(1) _ Cons.prems(3) _ True] Cons.prems(2) b1 by auto
  next
    case False
    then have "r = None" "b' = b1" using Cons.prems(2,5) rd by (auto simp: Let_def split: if_splits)
    then show ?thesis using b1 by simp
  qed
qed simp

lemma poll_keeps:
  "pr_jitterBuffer (snd (pollDecodedFrames t n q)) = pr_jitterBuffer q \<and>
   pr_stopping (snd (pollDecodedFrames t n q)) = pr_stopping q"
proof (induction n arbitrary: q)
  case (Suc n)
  obtain r p where p: "pollAndDecide (pr_recvPipeline q) = (r, p)" by fastforce
  show ?case
  proof (cases r)
    case (Some x)
    obtain outcome frame where "x = (outcome, frame)" by force
    then show ?thesis using Suc [of "q\<lparr>pr_recvPipeline := p, pr_lastActiveAtMs := t\<rparr>"] p Some by (simp add: case_prod_beta Let_def)
  qed (simp add: p)
qed simp

definition wakes_in_time :: "int \<Rightarrow> wakeup list \<Rightarrow> bool" where
  "wakes_in_time start ws \<longleftrightarrow> 0 < start \<and>
     (\<forall>w \<in> set ws. wk_others w = id \<and> start \<le> wk_ready w \<and> wk_ready w - start < 20000000)"

lemma gap_round_in_time:
  assumes "gap_waiting (pr_jitterBuffer r)" "pr_stopping r" "wakes_in_time start (ro_wakeups x)"
    and "peer_run_round x r = Some (left, events, r')"
  shows "\<not> left \<and> gap_waiting (pr_jitterBuffer r') \<and> pr_stopping r' \<and>
    jb_packets (pr_jitterBuffer r') = jb_packets (pr_jitterBuffer r)"
proof -
  define b where "b = setGapTimeout 20 (setMinBufferedPackets 1 (pr_jitterBuffer r))"
  have b: "gap_waiting b" "jb_packets b = jb_packets (pr_jitterBuffer r)" "jb_gapWaitStartedAt b = 0" "jb_gapTimeout b = 20"
    "jb_packets b \<noteq> []"
    using assms(1) by (auto simp: b_def gap_waiting_def setGapTimeout_def setMinBufferedPackets_def)
  have "b = setGapTimeout kRecvPeerJitterGapTimeoutMs (setMinBufferedPackets
      (minBufferedPackets (pr_stopping r) (ro_jitterTargetMs x) (pr_expectedFrameRate r)) (pr_jitterBuffer r))"
    using assms(2) by (simp add: b_def minBufferedPackets_def)
  then have round: "peer_run_round x r = (case popWait (ro_deadline x) (ro_wakeups x) b of
           None \<Rightarrow> None
         | Some (None, b1) \<Rightarrow>
             let (events, r2) = pollDecodedFrames (ro_active x) 2 (r\<lparr>pr_jitterBuffer := b1\<rparr>) in Some (False, events, r2)
         | Some (Some packet, b1) \<Rightarrow>
             let (events, r2) = processPacket (ro_decoding x) (ro_now x) (ro_active x) packet (r\<lparr>pr_jitterBuffer := b1\<rparr>)
             in Some (False, events, r2))"
    using b(5) by (auto simp: peer_run_round_def Let_def JitterBuffer_size_def split: option.split)
  obtain q b1 where w: "popWait (ro_deadline x) (ro_wakeups x) b = Some (q, b1)"
    using assms(4) unfolding round by (cases "popWait (ro_deadline x) (ro_wakeups x) b") auto
  have q: "q = None \<and> gap_waiting b1 \<and> jb_packets b1 = jb_packets b"
    by (rule gap_wait_in_time [OF b(1) _ _ _ w, of start]) (use assms(3) b in \<open>auto simp: wakes_in_time_def\<close>)
  then have "\<not> left \<and> r' = snd (pollDecodedFrames (ro_active x) 2 (r\<lparr>pr_jitterBuffer := b1\<rparr>))"
    using assms(4) unfolding round w by (simp add: case_prod_beta Let_def)
  then show ?thesis
    using q b(2) assms(2) poll_keeps [of "ro_active x" 2 "r\<lparr>pr_jitterBuffer := b1\<rparr>"] by simp
qed

text \<open>So \<open>stop\<close>, which waits for the thread, does not return while the thread wakes up in time.\<close>

lemma stop_waits_for_gap:
  assumes "gap_waiting (pr_jitterBuffer r)" "pr_thread r"
    and "\<forall>x \<in> set xs. \<exists>start. wakes_in_time start (ro_wakeups x)"
  shows "peer_stop xs r = None"
proof -
  have "peer_run xs q = None" if "gap_waiting (pr_jitterBuffer q)" "pr_stopping q" for q
    using assms(3) that
  proof (induction xs arbitrary: q)
    case (Cons x xs)
    obtain start where start: "wakes_in_time start (ro_wakeups x)" using Cons.prems(1) by auto
    show ?case
    proof (cases "peer_run_round x q")
      case (Some y)
      obtain left events q' where y: "y = (left, events, q')" by (metis prod_cases3)
      have "\<not> left" "gap_waiting (pr_jitterBuffer q')" "pr_stopping q'"
        using gap_round_in_time [OF Cons.prems(2,3) start] Some y by auto
      then show ?thesis using Cons.IH [of q'] Cons.prems(1) Some y by simp
    qed simp
  qed simp
  then show ?thesis using assms(1,2) by (simp add: peer_stop_def)
qed

text \<open>
  Such a schedule: the first reading 1 microsecond after the call, a wait of 19 milliseconds that is
  50 microseconds late, after which less than a millisecond is left of the 20.
\<close>

definition prompt_wakeups :: "wakeup list" where
  "prompt_wakeups =
     [\<lparr> wk_ready = 1001000, wk_deadline = 1002000, wk_pop = 0, wk_others = id \<rparr>,
      \<lparr> wk_ready = 20052000, wk_deadline = 20053000, wk_pop = 0, wk_others = id \<rparr>]"

definition gap_buffer :: JitterBuffer where
  "gap_buffer = snd (JitterBuffer_push (seq_packet 5) (snd (popLocked 1 (snd (JitterBuffer_push (seq_packet 3)
     (JitterBuffer_new 64 1 20))))))"

lemma prompt_round_keeps_gap:
  "gap_waiting gap_buffer" "wakes_in_time 1001000 prompt_wakeups"
  "map_option fst (popWait 21000000 prompt_wakeups (setGapTimeout 20 gap_buffer)) = Some None"
proof -
  have "jb_packets gap_buffer = [(5, seq_packet 5)]" "jb_expectedSeq gap_buffer = Some 4" "jb_playoutStarted gap_buffer"
    "jb_maxPackets gap_buffer = 64" "jb_gapTimeout gap_buffer = 20" by code_simp+
  then show "gap_waiting gap_buffer" by (simp add: gap_waiting_def)
  show "wakes_in_time 1001000 prompt_wakeups" by (simp add: wakes_in_time_def prompt_wakeups_def)
  show "map_option fst (popWait 21000000 prompt_wakeups (setGapTimeout 20 gap_buffer)) = Some None" by code_simp
qed

end
