(* ===== verification/VideoRecvLoop.thy ===== *)
theory VideoRecvLoop
  imports VideoSendLoop VideoReceive
begin

text \<open>
  The receive thread of the video session: \<open>ScreenShareSession::recvLoop\<close>
  (\<open>plasma-hawking/src/av/session/ScreenShareSessionTransport.cpp\<close>) with \<open>VideoRecvIngressPipeline.cpp\<close>,
  \<open>VideoRecvFrameDispatchPipeline.cpp\<close> and \<open>VideoRecvTelemetryPipeline.cpp\<close>: requesting lost packets and
  key frames, the table of workers, and what happens to a datagram. The lambdas of the function are
  operations on a state that consists of its local variables and the session.
\<close>

section \<open>State\<close>

record PendingKeyFrameRequest =
  kq_remoteMediaSsrc :: u32
  kq_reason :: string

record PendingNackRequest =
  nq_remoteMediaSsrc :: u32
  nq_missingSequences :: "u16 list"
  nq_firstRequestedAtMs :: u64
  nq_lastSentAtMs :: u64
  nq_attempts :: u32

record ('ssl, 's, 'f, 'd) recv_loop =
  rl_session :: "('ssl, 's, 'f) ScreenShareSession"
  rl_workers :: "(u32, 'd VideoRecvPeerRuntime) umap"
  rl_keyFrames :: "PendingKeyFrameRequest list"
  rl_nacks :: "(u32, PendingNackRequest) umap"
  rl_keyFramePipeline :: VideoRecvKeyFramePipeline
  rl_delivered :: "(DecodedVideoFrame \<times> u32 option) list"

text \<open>
  Which callbacks are set, and which entry an iteration over the pending requests meets first: the
  order of an unordered map is not specified.
\<close>

record recv_env =
  rn_callbackWithSsrc :: bool
  rn_callback :: bool
  rn_first :: "(u32, PendingNackRequest) umap \<Rightarrow> u32"

text \<open>The clock readings of one iteration, and the rounds a worker goes through when it is stopped.\<close>

record 'd recv_io =
  ri_nackMs :: u64
  ri_keyMs :: "nat \<Rightarrow> u64"
  ri_pruneMs :: u64
  ri_workerMs :: u64
  ri_arrival :: u32
  ri_planMs :: u64
  ri_eventMs :: u64
  ri_rounds :: "u32 \<Rightarrow> 'd peer_round list"

definition kMaxRecvPeerWorkers :: nat where [simp]: "kMaxRecvPeerWorkers = 16"
definition kRecvPeerWorkerIdleTimeoutMs :: u64 where [simp]: "kRecvPeerWorkerIdleTimeoutMs = 30000"
definition kRecvLoopWaitTimeoutMs :: int where [simp]: "kRecvLoopWaitTimeoutMs = 20"
definition kNackRetryIntervalMs :: u64 where [simp]: "kNackRetryIntervalMs = 60"
definition kNackPliFallbackMs :: u64 where [simp]: "kNackPliFallbackMs = 1000"
definition kNackAttemptsBeforePli :: u32 where [simp]: "kNackAttemptsBeforePli = 3"
definition kMaxPendingNackRequests :: nat where [simp]: "kMaxPendingNackRequests = 64"

abbreviation on_session where
  "on_session f v \<equiv> rl_session_update f v"

section \<open>Requests to the sender\<close>

definition enqueueKeyFrameRequest ::
  "u32 \<Rightarrow> string \<Rightarrow> ('ssl, 's, 'f, 'd) recv_loop \<Rightarrow> ('ssl, 's, 'f, 'd) recv_loop" where
  "enqueueKeyFrameRequest remoteMediaSsrc reason v =
     (if remoteMediaSsrc = 0 then v
      else
        let pending = (if length (rl_keyFrames v) \<ge> 64 then tl (rl_keyFrames v) else rl_keyFrames v)
        in v\<lparr>rl_keyFrames := pending @ [\<lparr> kq_remoteMediaSsrc = remoteMediaSsrc, kq_reason = reason \<rparr>]\<rparr>)"

text \<open>The loop over the missing sequence numbers.\<close>

fun add_missing :: "u16 list \<Rightarrow> u16 list \<Rightarrow> u16 list" where
  "add_missing [] known = known"
| "add_missing (n # ns) known =
     (if n \<in> set known then add_missing ns known
      else if length (known @ [n]) \<ge> 32 then known @ [n]
      else add_missing ns (known @ [n]))"

definition enqueueNackRequest ::
  "recv_env \<Rightarrow> u64 \<Rightarrow> u32 \<Rightarrow> u16 list \<Rightarrow> ('ssl, 's, 'f, 'd) recv_loop \<Rightarrow> ('ssl, 's, 'f, 'd) recv_loop" where
  "enqueueNackRequest re nowMs remoteMediaSsrc missingSequences v =
     (if remoteMediaSsrc = 0 \<or> missingSequences = [] then v
      else
        let m = rl_nacks v;
            m1 = (if length m \<ge> kMaxPendingNackRequests \<and> map_of m remoteMediaSsrc = None
                  then AList.delete (rn_first re m) m else m);
            request = (case map_of m1 remoteMediaSsrc of
              Some q \<Rightarrow> q
            | None \<Rightarrow> \<lparr> nq_remoteMediaSsrc = 0, nq_missingSequences = [], nq_firstRequestedAtMs = 0,
                        nq_lastSentAtMs = 0, nq_attempts = 0 \<rparr>);
            q1 = request\<lparr>nq_remoteMediaSsrc := remoteMediaSsrc,
                   nq_firstRequestedAtMs := (if nq_firstRequestedAtMs request = 0 then nowMs else nq_firstRequestedAtMs request),
                   nq_missingSequences := add_missing missingSequences (nq_missingSequences request)\<rparr>
        in v\<lparr>rl_nacks := AList.update remoteMediaSsrc q1 m1\<rparr>)"

definition clearPendingNackRequest :: "u32 \<Rightarrow> ('ssl, 's, 'f, 'd) recv_loop \<Rightarrow> ('ssl, 's, 'f, 'd) recv_loop" where
  "clearPendingNackRequest remoteMediaSsrc v =
     (if remoteMediaSsrc = 0 then v else v\<lparr>rl_nacks := AList.delete remoteMediaSsrc (rl_nacks v)\<rparr>)"

text \<open>What \<open>flushPendingNackRequests\<close> does with one request.\<close>

datatype nack_action = NackDrop | NackFallback | NackSend | NackKeep

definition nack_decision :: "u64 \<Rightarrow> PendingNackRequest \<Rightarrow> nack_action" where
  "nack_decision nowMs q =
     (if nq_remoteMediaSsrc q = 0 \<or> nq_missingSequences q = [] then NackDrop
      else if nq_attempts q \<ge> kNackAttemptsBeforePli \<and> nowMs \<ge> nq_firstRequestedAtMs q \<and>
              nowMs - nq_firstRequestedAtMs q \<ge> kNackPliFallbackMs then NackFallback
      else if nq_attempts q = 0 \<or> nowMs \<ge> nq_lastSentAtMs q \<and> nowMs - nq_lastSentAtMs q \<ge> kNackRetryIntervalMs
      then NackSend else NackKeep)"

definition nack_after :: "u64 \<Rightarrow> u32 \<times> PendingNackRequest \<Rightarrow> (u32 \<times> PendingNackRequest) option" where
  "nack_after nowMs = (\<lambda>(k, q).
     case nack_decision nowMs q of
       NackSend \<Rightarrow> Some (k, q\<lparr>nq_lastSentAtMs := nowMs, nq_attempts := nq_attempts q + 1\<rparr>)
     | NackKeep \<Rightarrow> Some (k, q)
     | _ \<Rightarrow> None)"

text \<open>Sending a feedback packet; \<open>label\<close> is \<open>NACK\<close> or \<open>PLI\<close>.\<close>

definition send_protected_feedback ::
  "('ssl, 's) video_env \<Rightarrow> string \<Rightarrow> bytes \<Rightarrow> ('ssl, 's, 'f) ScreenShareSession \<Rightarrow> bool \<times> ('ssl, 's, 'f) ScreenShareSession" where
  "send_protected_feedback env label packet s =
     (if packet = [] then (False, video_setError (label @ '' packet build failed'') s)
      else case (if vs_dtlsStarted s then video_protectRtcp env packet s else (Some packet, s)) of
        (None, s1) \<Rightarrow> (False, video_setError (label @ '' SRTCP protect failed'') s1)
      | (Some wire, s1) \<Rightarrow>
          let (sent, sock) = sendToPeer (vn_qs env) (vn_rnd env) wire (vs_mediaSocket s1); s2 = s1\<lparr>vs_mediaSocket := sock\<rparr>
          in if sent = int (length wire) then (True, s2) else (False, video_setError (label @ '' sendto failed'') s2))"

definition send_nack ::
  "('ssl, 's) video_env \<Rightarrow> PendingNackRequest \<Rightarrow> ('ssl, 's, 'f) ScreenShareSession \<Rightarrow> ('ssl, 's, 'f) ScreenShareSession" where
  "send_nack env q s =
     snd (send_protected_feedback env ''NACK''
            (buildNackFeedback (snd_ssrc (vs_sender s)) (nq_remoteMediaSsrc q) (nq_missingSequences q)) s)"

definition flushPendingNackRequests ::
  "('ssl, 's) video_env \<Rightarrow> u64 \<Rightarrow> ('ssl, 's, 'f, 'd) recv_loop \<Rightarrow> ('ssl, 's, 'f, 'd) recv_loop" where
  "flushPendingNackRequests env nowMs v =
     (let qs = map snd (rl_nacks v);
          nackSends = filter (\<lambda>q. nack_decision nowMs q = NackSend) qs;
          fallbackKeyFrames = map nq_remoteMediaSsrc (filter (\<lambda>q. nack_decision nowMs q = NackFallback) qs);
          v1 = v\<lparr>rl_nacks := List.map_filter (nack_after nowMs) (rl_nacks v)\<rparr>;
          v2 = on_session (fold (send_nack env) nackSends) v1
      in fold (\<lambda>remoteMediaSsrc. enqueueKeyFrameRequest remoteMediaSsrc ''packet loss'') fallbackKeyFrames v2)"

definition flush_key_frame ::
  "('ssl, 's) video_env \<Rightarrow> u64 \<Rightarrow> PendingKeyFrameRequest \<Rightarrow> ('ssl, 's, 'f, 'd) recv_loop \<Rightarrow> ('ssl, 's, 'f, 'd) recv_loop" where
  "flush_key_frame env nowMs q v =
     (if kq_remoteMediaSsrc q = 0 then v
      else if \<not> shouldSendPli (kq_remoteMediaSsrc q) nowMs (rl_keyFramePipeline v) then v
      else
        let s = rl_session v;
            (pliSent, s1) = send_protected_feedback env ''PLI''
              (buildPictureLossIndication (snd_ssrc (vs_sender s)) (kq_remoteMediaSsrc q)) s
        in if \<not> pliSent then v\<lparr>rl_session := s1\<rparr>
           else v\<lparr>rl_session := s1\<lparr>vs_stats := (vs_stats s1)\<lparr>ks_keyframeRequestCount := ks_keyframeRequestCount (vs_stats s1) + 1\<rparr>\<rparr>,
                  rl_keyFramePipeline := markPliSent (kq_remoteMediaSsrc q) nowMs (rl_keyFramePipeline v)\<rparr>)"

fun flush_key_frames ::
  "('ssl, 's) video_env \<Rightarrow> (nat \<Rightarrow> u64) \<Rightarrow> PendingKeyFrameRequest list \<Rightarrow> ('ssl, 's, 'f, 'd) recv_loop \<Rightarrow>
   ('ssl, 's, 'f, 'd) recv_loop" where
  "flush_key_frames env clock [] v = v"
| "flush_key_frames env clock (q # qs) v =
     flush_key_frames env (\<lambda>i. clock (Suc i)) qs (flush_key_frame env (clock 0) q v)"

definition flushPendingKeyFrameRequests ::
  "('ssl, 's) video_env \<Rightarrow> (nat \<Rightarrow> u64) \<Rightarrow> ('ssl, 's, 'f, 'd) recv_loop \<Rightarrow> ('ssl, 's, 'f, 'd) recv_loop" where
  "flushPendingKeyFrameRequests env clock v = flush_key_frames env clock (rl_keyFrames v) (v\<lparr>rl_keyFrames := []\<rparr>)"

section \<open>The workers\<close>

definition dispatchFrame :: "recv_env \<Rightarrow> DecodedVideoFrame \<Rightarrow> u32 \<Rightarrow> ('ssl, 's, 'f, 'd) recv_loop \<Rightarrow> ('ssl, 's, 'f, 'd) recv_loop" where
  "dispatchFrame re frame remoteMediaSsrc v =
     v\<lparr>rl_delivered := rl_delivered v @
        (if rn_callbackWithSsrc re then [(frame, Some remoteMediaSsrc)] else if rn_callback re then [(frame, None)] else [])\<rparr>"

definition handleConsumeOutcome ::
  "recv_env \<Rightarrow> u64 \<Rightarrow> VideoRecvConsumeOutcome \<Rightarrow> DecodedVideoFrame \<Rightarrow> ('ssl, 's, 'f, 'd) recv_loop \<Rightarrow> ('ssl, 's, 'f, 'd) recv_loop" where
  "handleConsumeOutcome re nowMs outcome decoded v =
     (let d = co_decision outcome; ssrc = co_remoteMediaSsrc outcome in
      case hd_action d of
        Continue \<Rightarrow> v
      | RequestRetransmit \<Rightarrow> enqueueNackRequest re nowMs ssrc (hd_retransmitSequenceNumbers d) v
      | DeliverFrame \<Rightarrow> dispatchFrame re decoded ssrc (clearPendingNackRequest ssrc v)
      | _ \<Rightarrow>
          let v1 = enqueueKeyFrameRequest ssrc
                (case hd_keyFrameReason d of None \<Rightarrow> ''decode failure'' | Some reason \<Rightarrow> reason) v
          in case extractDecisionError d of
               None \<Rightarrow> v1
             | Some e \<Rightarrow> on_session (video_setError e) v1)"

text \<open>The two callbacks of a worker.\<close>

definition handle_event ::
  "recv_env \<Rightarrow> u64 \<Rightarrow> peer_event \<Rightarrow> ('ssl, 's, 'f, 'd) recv_loop \<Rightarrow> ('ssl, 's, 'f, 'd) recv_loop" where
  "handle_event re nowMs = (\<lambda>(packet, outcome, frame) v.
     handleConsumeOutcome re nowMs outcome frame
       (if packet = None then v
        else on_session (\<lambda>s. s\<lparr>vs_receivedPacketCount := vs_receivedPacketCount s + 1\<rparr>) v))"

definition worker_round ::
  "recv_env \<Rightarrow> u64 \<Rightarrow> u32 \<Rightarrow> 'd peer_round \<Rightarrow> ('ssl, 's, 'f, 'd) recv_loop \<Rightarrow> ('ssl, 's, 'f, 'd) recv_loop option" where
  "worker_round re nowMs k x v =
     (case map_of (rl_workers v) k of
        None \<Rightarrow> None
      | Some r \<Rightarrow>
          map_option (\<lambda>(left, events, r1).
              fold (handle_event re nowMs) events (v\<lparr>rl_workers := AList.update k r1 (rl_workers v)\<rparr>))
            (peer_run_round x r))"

definition stop_worker ::
  "recv_env \<Rightarrow> 'd recv_io \<Rightarrow> u32 \<Rightarrow> ('ssl, 's, 'f, 'd) recv_loop \<Rightarrow> ('ssl, 's, 'f, 'd) recv_loop option" where
  "stop_worker re io k v =
     (case map_of (rl_workers v) k of
        None \<Rightarrow> Some v
      | Some r \<Rightarrow>
          map_option (\<lambda>(events, r1).
              fold (handle_event re (ri_eventMs io)) events (v\<lparr>rl_workers := AList.delete k (rl_workers v)\<rparr>))
            (peer_stop (ri_rounds io k) r))"

fun stop_workers ::
  "recv_env \<Rightarrow> 'd recv_io \<Rightarrow> u32 list \<Rightarrow> ('ssl, 's, 'f, 'd) recv_loop \<Rightarrow> ('ssl, 's, 'f, 'd) recv_loop option" where
  "stop_workers re io [] v = Some v"
| "stop_workers re io (k # ks) v = do { v1 \<leftarrow> stop_worker re io k v; stop_workers re io ks v1 }"

definition stopAllRecvPeerWorkers ::
  "recv_env \<Rightarrow> 'd recv_io \<Rightarrow> ('ssl, 's, 'f, 'd) recv_loop \<Rightarrow> ('ssl, 's, 'f, 'd) recv_loop option" where
  "stopAllRecvPeerWorkers re io v = stop_workers re io (map fst (rl_workers v)) v"

definition worker_expired :: "u64 \<Rightarrow> u32 \<Rightarrow> u32 \<times> 'd VideoRecvPeerRuntime \<Rightarrow> bool" where
  "worker_expired nowMs expectedRemoteSsrc = (\<lambda>(k, r).
     expectedRemoteSsrc \<noteq> 0 \<and> k \<noteq> expectedRemoteSsrc \<or>
     expectedRemoteSsrc = 0 \<and> nowMs \<ge> pr_lastActiveAtMs r \<and> nowMs - pr_lastActiveAtMs r > kRecvPeerWorkerIdleTimeoutMs)"

definition pruneRecvPeerWorkers ::
  "recv_env \<Rightarrow> 'd recv_io \<Rightarrow> u32 \<Rightarrow> ('ssl, 's, 'f, 'd) recv_loop \<Rightarrow> ('ssl, 's, 'f, 'd) recv_loop option" where
  "pruneRecvPeerWorkers re io expectedRemoteSsrc v =
     stop_workers re io (map fst (filter (worker_expired (ri_pruneMs io) expectedRemoteSsrc) (rl_workers v))) v"

definition resetRequestedRecvPeerWorkers ::
  "recv_env \<Rightarrow> 'd recv_io \<Rightarrow> ('ssl, 's, 'f, 'd) recv_loop \<Rightarrow> ('ssl, 's, 'f, 'd) recv_loop option" where
  "resetRequestedRecvPeerWorkers re io v =
     stop_workers re io (vs_remoteVideoStreamResetRequests (rl_session v))
       (on_session (\<lambda>s. s\<lparr>vs_remoteVideoStreamResetRequests := []\<rparr>) v)"

definition recv_config :: "('ssl, 's) video_env \<Rightarrow> ScreenShareSessionConfig \<Rightarrow> VideoRecvPipelineConfig" where
  "recv_config env c =
     \<lparr> rc_screenPayloadType = vc_payloadType c, rc_cameraPayloadType = vc_cameraPayloadType c,
       rc_frameRate = vc_frameRate c, rc_profile = vn_profile env \<rparr>"

text \<open>The Boolean says that there is a worker for the source.\<close>

definition ensureRecvPeerWorker ::
  "('ssl, 's) video_env \<Rightarrow> recv_env \<Rightarrow> 'd recv_io \<Rightarrow> u32 \<Rightarrow> ('ssl, 's, 'f, 'd) recv_loop \<Rightarrow>
   (bool \<times> ('ssl, 's, 'f, 'd) recv_loop) option" where
  "ensureRecvPeerWorker env re io remoteMediaSsrc v =
     (if remoteMediaSsrc = 0 then Some (False, v)
      else if map_of (rl_workers v) remoteMediaSsrc \<noteq> None then Some (True, v)
      else do {
        v1 \<leftarrow> (if length (rl_workers v) \<ge> kMaxRecvPeerWorkers
              then (case oldest_stream pr_lastActiveAtMs (rl_workers v) of
                      None \<Rightarrow> Some v
                    | Some oldest \<Rightarrow> stop_worker re io oldest v)
              else Some v);
        let worker = peer_start (VideoRecvPeerRuntime_new remoteMediaSsrc (recv_config env (vs_config (rl_session v1))) (ri_workerMs io));
        Some (True, v1\<lparr>rl_workers := AList.update remoteMediaSsrc worker (rl_workers v1)\<rparr>) })"

section \<open>The loop\<close>

text \<open>What is in a datagram after decryption.\<close>

definition recv_media ::
  "('ssl, 's) video_env \<Rightarrow> recv_env \<Rightarrow> 'd recv_io \<Rightarrow> u32 \<Rightarrow> bytes \<Rightarrow> UdpEndpoint \<Rightarrow> ('ssl, 's, 'f, 'd) recv_loop \<Rightarrow>
   ('ssl, 's, 'f, 'd) recv_loop option" where
  "recv_media env re io expectedRemoteSsrc mediaPacket sender v =
     (let sock = vs_mediaSocket (rl_session v) in do {
        datagram \<leftarrow> classifyDatagram mediaPacket (acceptSender sender sock) (acceptRtcpFromPeerHost sender sock);
        case (vg_kind datagram, vg_rtpPacket datagram) of
          (RtcpDatagram, _) \<Rightarrow> do {
            (hasPlan, plan) \<leftarrow> parseDispatchPlan mediaPacket (snd_ssrc (vs_sender (rl_session v)));
            Some (if hasPlan
                  then on_session (\<lambda>s. snd (applyRtcpDispatchPlan env (ri_arrival io) (ri_planMs io) plan s)) v else v) }
        | (RtpDatagram, Some packet) \<Rightarrow>
            let packetSsrc = h_ssrc (p_header packet) in
            if expectedRemoteSsrc \<noteq> 0 \<and> packetSsrc \<noteq> expectedRemoteSsrc then Some v
            else do {
              (found, v1) \<leftarrow> ensureRecvPeerWorker env re io packetSsrc v;
              Some (case (found, map_of (rl_workers v1) packetSsrc) of
                  (True, Some worker) \<Rightarrow>
                    let (queued, worker1) = peer_enqueue (ri_workerMs io) packet worker;
                        v2 = v1\<lparr>rl_workers := AList.update packetSsrc worker1 (rl_workers v1)\<rparr>
                    in if queued then v2 else on_session (video_setError ''recv worker enqueue failed'') v2
                | _ \<Rightarrow> v1) }
        | _ \<Rightarrow> Some v })"

definition recv_video_datagram ::
  "('ssl, 's) video_env \<Rightarrow> recv_env \<Rightarrow> 'd recv_io \<Rightarrow> u32 \<Rightarrow> bytes \<Rightarrow> UdpEndpoint \<Rightarrow> ('ssl, 's, 'f, 'd) recv_loop \<Rightarrow>
   ('ssl, 's, 'f, 'd) recv_loop option" where
  "recv_video_datagram env re io expectedRemoteSsrc data sender v = do {
     dtls \<leftarrow> looksLikeDtlsRecord data;
     if dtls then Some (on_session (\<lambda>s. snd (video_handleDtlsPacket env data sender s)) v)
     else do {
       stun \<leftarrow> looksLikeStunPacket data;
       if stun then Some (on_session (\<lambda>s. s\<lparr>vs_iceConnected := True\<rparr>) v)
       else if \<not> vs_dtlsStarted (rl_session v) then recv_media env re io expectedRemoteSsrc data sender v
       else do {
         rtcp \<leftarrow> looksLikeRtcpPacket data;
         (case (if rtcp then video_unprotectRtcp env data (rl_session v) else video_unprotectRtp env data (rl_session v)) of
            (None, s1) \<Rightarrow> Some (v\<lparr>rl_session := s1\<rparr>)
          | (Some mediaPacket, s1) \<Rightarrow> recv_media env re io expectedRemoteSsrc mediaPacket sender (v\<lparr>rl_session := s1\<rparr>)) } } }"

definition report_socket_error :: "string \<Rightarrow> ('ssl, 's, 'f) ScreenShareSession \<Rightarrow> ('ssl, 's, 'f) ScreenShareSession" where
  "report_socket_error message s =
     (if shouldReportSocketError (vs_running s) (isTransientSocketError (vs_mediaSocket s)) then video_setError message s else s)"

text \<open>From the wait on; \<open>others\<close> is what happens to the socket meanwhile, \<open>woke\<close> whether the wait timed out.\<close>

definition recv_wait ::
  "('ssl, 's) video_env \<Rightarrow> recv_env \<Rightarrow> 'd recv_io \<Rightarrow> bool \<Rightarrow> (UdpPeerSocket \<Rightarrow> UdpPeerSocket) \<Rightarrow> u32 \<Rightarrow>
   ('ssl, 's, 'f, 'd) recv_loop \<Rightarrow> ('ssl, 's, 'f, 'd) recv_loop option" where
  "recv_wait env re io woke others expectedRemoteSsrc v =
     (let (waitResult, sock) = waitForReadable kRecvLoopWaitTimeoutMs woke others (vs_mediaSocket (rl_session v));
          v1 = on_session (\<lambda>s. s\<lparr>vs_mediaSocket := sock\<rparr>) v
      in if waitResult < 0 then Some (on_session (report_socket_error ''wait readable failed'') v1)
         else if waitResult = 0 then Some v1
         else do {
           (received, sock2) \<leftarrow> recvFrom 1500 sock;
           let v2 = on_session (\<lambda>s. s\<lparr>vs_mediaSocket := sock2\<rparr>) v1;
           let failed = Some (on_session (report_socket_error ''recvfrom failed'') v2);
           case received of
             Inl _ \<Rightarrow> failed
           | Inr (data, sender) \<Rightarrow>
               if data = [] then failed else recv_video_datagram env re io expectedRemoteSsrc data sender v2 })"

text \<open>One iteration; the Boolean says that the loop goes on. After the loop requests are flushed and the workers stopped.\<close>

definition recvLoop_iteration_video ::
  "('ssl, 's) video_env \<Rightarrow> recv_env \<Rightarrow> 'd recv_io \<Rightarrow> bool \<Rightarrow> (UdpPeerSocket \<Rightarrow> UdpPeerSocket) \<Rightarrow>
   ('ssl, 's, 'f, 'd) recv_loop \<Rightarrow> (bool \<times> ('ssl, 's, 'f, 'd) recv_loop) option" where
  "recvLoop_iteration_video env re io woke others v =
     (let v1 = flushPendingKeyFrameRequests env (ri_keyMs io) (flushPendingNackRequests env (ri_nackMs io) v) in
      if vs_running (rl_session v) then do {
        v2 \<leftarrow> resetRequestedRecvPeerWorkers re io v1;
        let expectedRemoteSsrc = vs_expectedRemoteVideoSsrc (rl_session v2);
        v3 \<leftarrow> pruneRecvPeerWorkers re io expectedRemoteSsrc v2;
        v4 \<leftarrow> recv_wait env re io woke others expectedRemoteSsrc v3;
        Some (True, v4) }
      else map_option (\<lambda>v2. (False, v2)) (stopAllRecvPeerWorkers re io v1))"

definition recv_loop_new :: "('ssl, 's, 'f) ScreenShareSession \<Rightarrow> ('ssl, 's, 'f, 'd) recv_loop" where
  "recv_loop_new s =
     \<lparr> rl_session = s, rl_workers = [], rl_keyFrames = [], rl_nacks = [], rl_keyFramePipeline = \<lparr> kp_cooldownMs = 2000, kp_lastPliRequestedAtMsBySsrc = [] \<rparr>,
       rl_delivered = [] \<rparr>"

section \<open>Feedback keeps the session in order\<close>

lemma writes_sent_peer:
  assumes "video_protectRtcp env p s = (Some w, s1)"
  shows "writes_well env s (s1\<lparr>vs_mediaSocket := snd (sendToPeer (vn_qs env) (vn_rnd env) w (vs_mediaSocket s1))\<rparr>)"
proof -
  have s1: "writes_well env s s1" using writes_protected assms by blast
  obtain n s2 where x: "video_send env w (us_peer (vs_mediaSocket s1)) s1 = (n, s2)" by fastforce
  have "writes_well env s s2" using writes_sent [OF _ x] assms by blast
  moreover have "s1\<lparr>vs_mediaSocket := snd (sendToPeer (vn_qs env) (vn_rnd env) w (vs_mediaSocket s1))\<rparr> =
      (if us_peerValid (vs_mediaSocket s1) then s2 else s1)"
    using x by (auto simp: sendToPeer_def video_send_def split: prod.splits)
  ultimately show ?thesis using s1 by simp
qed

lemma feedback_cases:
  assumes "send_protected_feedback env label packet s = (ok, s')"
  obtains "wire_part s' = wire_part s" "session_part s' = session_part s"
  | w where "\<not> vs_dtlsStarted s" "session_part s' = session_part (s\<lparr>vs_mediaSocket := snd (sendToPeer (vn_qs env) (vn_rnd env) w (vs_mediaSocket s))\<rparr>)"
      "vs_dtlsStarted s' = vs_dtlsStarted s" "vs_srtpReady s' = vs_srtpReady s" "vs_outboundSrtp s' = vs_outboundSrtp s"
      "vs_dtlsHandshakePackets s' = vs_dtlsHandshakePackets s"
  | s1 where "video_protectRtcp env packet s = (None, s1)" "wire_part s' = wire_part s1" "session_part s' = session_part s1"
  | w s1 s2 where "video_protectRtcp env packet s = (Some w, s1)"
      "s2 = s1\<lparr>vs_mediaSocket := snd (sendToPeer (vn_qs env) (vn_rnd env) w (vs_mediaSocket s1))\<rparr>"
      "wire_part s' = wire_part s2" "session_part s' = session_part s2"
proof (cases "packet = []")
  case True
  then show thesis using assms that(1) by (auto simp: send_protected_feedback_def)
next
  case False
  show thesis
  proof (cases "vs_dtlsStarted s")
    case True
    obtain r s1 where r: "video_protectRtcp env packet s = (r, s1)" by fastforce
    show thesis
    proof (cases r)
      case None
      then have "s' = video_setError (label @ '' SRTCP protect failed'') s1"
        using assms False True r by (simp add: send_protected_feedback_def)
      then show thesis using that(3) r None by simp
    next
      case (Some w)
      define s2 where "s2 = s1\<lparr>vs_mediaSocket := snd (sendToPeer (vn_qs env) (vn_rnd env) w (vs_mediaSocket s1))\<rparr>"
      have "s' = s2 \<or> s' = video_setError (label @ '' sendto failed'') s2"
        using assms False True r Some unfolding s2_def
        by (simp add: send_protected_feedback_def Let_def case_prod_beta split: if_splits)
      then have "wire_part s' = wire_part s2" "session_part s' = session_part s2" by auto
      then show thesis using that(4) r Some s2_def by simp
    qed
  next
    case notls: False
    then show thesis
      using assms False that(2) [of packet]
      by (auto simp: send_protected_feedback_def Let_def video_setError_def session_part_def key_part_def control_part_def
          split: if_splits prod.splits)
  qed
qed

lemma feedback_inv:
  assumes "send_protected_feedback env label packet s = (ok, s')" "video_inv env fp s"
  shows "video_inv env fp s'"
  using assms(1)
proof (cases rule: feedback_cases)
  case 1
  then show ?thesis using session_part_inv assms(2) by blast
next
  case (2 w)
  then show ?thesis using session_part_inv video_socket_inv [OF sendToPeer_keeps assms(2)] by blast
next
  case (3 s1)
  have "video_inv env fp s1" using video_protected_inv(2) [OF assms(2), of packet] 3(1) by simp
  then show ?thesis using session_part_inv 3(3) by blast
next
  case (4 w s1 s2)
  have "video_inv env fp s1" using video_protected_inv(2) [OF assms(2), of packet] 4(1) by simp
  then show ?thesis using session_part_inv video_socket_inv [OF sendToPeer_keeps] 4(2,4) by blast
qed

lemma writes_feedback:
  assumes "send_protected_feedback env label packet s = (ok, s')"
  shows "writes_well env s s'"
  using assms
proof (cases rule: feedback_cases)
  case 1
  then show ?thesis using writes_same by blast
next
  case (2 w)
  then show ?thesis by (simp add: writes_well_def)
next
  case (3 s1)
  then show ?thesis using writes_trans [OF writes_protected writes_same] by blast
next
  case (4 w s1 s2)
  then show ?thesis using writes_trans [OF writes_sent_peer writes_same] by blast
qed

lemma send_nack_ok:
  "video_inv env fp s \<Longrightarrow> video_inv env fp (send_nack env q s)" "writes_well env s (send_nack env q s)"
  unfolding send_nack_def by (rule feedback_inv [OF surjective_pairing], assumption) (rule writes_feedback [OF surjective_pairing])

lemma send_nacks_ok:
  "video_inv env fp s \<Longrightarrow> video_inv env fp (fold (send_nack env) qs s)" "writes_well env s (fold (send_nack env) qs s)"
proof -
  show "video_inv env fp s \<Longrightarrow> video_inv env fp (fold (send_nack env) qs s)"
    by (induction qs arbitrary: s) (auto intro: send_nack_ok(1))
  show "writes_well env s (fold (send_nack env) qs s)"
    by (induction qs arbitrary: s) (auto intro: writes_trans [OF send_nack_ok(2)] simp: writes_same)
qed

lemma request_key_frames_session [simp]:
  "rl_session (enqueueKeyFrameRequest k reason v) = rl_session v" "rl_workers (enqueueKeyFrameRequest k reason v) = rl_workers v"
  "rl_nacks (enqueueKeyFrameRequest k reason v) = rl_nacks v" "rl_delivered (enqueueKeyFrameRequest k reason v) = rl_delivered v"
  by (simp_all add: enqueueKeyFrameRequest_def Let_def)

lemma request_key_frames_fold [simp]:
  "rl_session (fold (\<lambda>k. enqueueKeyFrameRequest k reason) ks v) = rl_session v"
  "rl_workers (fold (\<lambda>k. enqueueKeyFrameRequest k reason) ks v) = rl_workers v"
  "rl_nacks (fold (\<lambda>k. enqueueKeyFrameRequest k reason) ks v) = rl_nacks v"
  "rl_delivered (fold (\<lambda>k. enqueueKeyFrameRequest k reason) ks v) = rl_delivered v"
  by (induction ks arbitrary: v) simp_all

lemma flush_nacks_session:
  "rl_session (flushPendingNackRequests env now v) =
     fold (send_nack env) (filter (\<lambda>q. nack_decision now q = NackSend) (map snd (rl_nacks v))) (rl_session v)"
  by (simp add: flushPendingNackRequests_def Let_def)

lemma flush_nacks_ok:
  "video_inv env fp (rl_session v) \<Longrightarrow> video_inv env fp (rl_session (flushPendingNackRequests env now v))"
  "writes_well env (rl_session v) (rl_session (flushPendingNackRequests env now v))"
  unfolding flush_nacks_session by (auto intro: send_nacks_ok)

lemma flush_key_frame_ok:
  "video_inv env fp (rl_session v) \<Longrightarrow> video_inv env fp (rl_session (flush_key_frame env now q v))"
  "writes_well env (rl_session v) (rl_session (flush_key_frame env now q v))"
proof -
  obtain ok s1 where x: "send_protected_feedback env ''PLI''
      (buildPictureLossIndication (snd_ssrc (vs_sender (rl_session v))) (kq_remoteMediaSsrc q)) (rl_session v) = (ok, s1)" by fastforce
  have "writes_well env (rl_session v) (s1\<lparr>vs_stats := k\<rparr>)" for k
    by (rule writes_trans [OF writes_feedback [OF x] writes_same]) simp
  then show "writes_well env (rl_session v) (rl_session (flush_key_frame env now q v))"
    using x writes_feedback [OF x] writes_same [of "rl_session v"] by (auto simp: flush_key_frame_def Let_def)
  show "video_inv env fp (rl_session (flush_key_frame env now q v))" if "video_inv env fp (rl_session v)"
    using x feedback_inv [OF x that] session_upd_inv(1) [OF feedback_inv [OF x that]] that by (auto simp: flush_key_frame_def Let_def)
qed

lemma flush_key_frames_ok:
  "video_inv env fp (rl_session v) \<Longrightarrow> video_inv env fp (rl_session (flush_key_frames env clock qs v))"
  "writes_well env (rl_session v) (rl_session (flush_key_frames env clock qs v))"
proof -
  show "video_inv env fp (rl_session v) \<Longrightarrow> video_inv env fp (rl_session (flush_key_frames env clock qs v))"
    by (induction qs arbitrary: clock v) (auto intro: flush_key_frame_ok(1))
  show "writes_well env (rl_session v) (rl_session (flush_key_frames env clock qs v))"
    by (induction qs arbitrary: clock v) (auto intro: writes_trans [OF flush_key_frame_ok(2)] simp: writes_same)
qed

lemma flush_ok:
  defines "flush \<equiv> \<lambda>env clock now v. flushPendingKeyFrameRequests env clock (flushPendingNackRequests env now v)"
  shows "video_inv env fp (rl_session v) \<Longrightarrow> video_inv env fp (rl_session (flush env clock now v))"
    "writes_well env (rl_session v) (rl_session (flush env clock now v))"
proof -
  let ?v = "flushPendingNackRequests env now v"
  show "video_inv env fp (rl_session (flush env clock now v))" if "video_inv env fp (rl_session v)"
    unfolding flush_def flushPendingKeyFrameRequests_def
    by (rule flush_key_frames_ok(1)) (use flush_nacks_ok(1) [OF that] in simp)
  show "writes_well env (rl_session v) (rl_session (flush env clock now v))"
    unfolding flush_def flushPendingKeyFrameRequests_def
    using writes_trans [OF flush_nacks_ok(2) [of env v now]] flush_key_frames_ok(2) [of env "?v\<lparr>rl_keyFrames := []\<rparr>" clock "rl_keyFrames ?v"]
    by simp
qed

section \<open>The tables stay small\<close>

definition nack_ok :: "u32 \<times> PendingNackRequest \<Rightarrow> bool" where
  "nack_ok = (\<lambda>(k, q). nq_remoteMediaSsrc q = k \<and> k \<noteq> 0 \<and> nq_missingSequences q \<noteq> [] \<and> distinct (nq_missingSequences q))"

definition nacks_inv :: "(u32, PendingNackRequest) umap \<Rightarrow> bool" where
  "nacks_inv m \<longleftrightarrow> um_ok m \<and> length m \<le> 64 \<and> (\<forall>e \<in> set m. nack_ok e)"

definition requests_inv :: "('ssl, 's, 'f, 'd) recv_loop \<Rightarrow> bool" where
  "requests_inv v \<longleftrightarrow> nacks_inv (rl_nacks v) \<and> length (rl_keyFrames v) \<le> 64"

definition workers_inv :: "(u32, 'd VideoRecvPeerRuntime) umap \<Rightarrow> bool" where
  "workers_inv m \<longleftrightarrow> um_ok m \<and> length m \<le> 16 \<and>
     (\<forall>(k, r) \<in> set m. k \<noteq> 0 \<and> pr_remoteMediaSsrc r = k \<and> pr_lastActiveAtMs r \<noteq> - 1)"

text \<open>The first entry of a table is one of its entries.\<close>

definition picks_entry :: "recv_env \<Rightarrow> bool" where
  "picks_entry re \<longleftrightarrow> (\<forall>m. m \<noteq> [] \<longrightarrow> rn_first re m \<in> fst ` set m)"

lemma add_missing_set: "set (add_missing ns known) \<subseteq> set known \<union> set ns" "distinct known \<Longrightarrow> distinct (add_missing ns known)"
  "set known \<subseteq> set (add_missing ns known)"
  by (induction ns arbitrary: known) (fastforce split: if_splits)+

lemma add_missing_some:
  assumes "ns \<noteq> []"
  shows "add_missing ns known \<noteq> []"
proof -
  obtain n rest where ns: "ns = n # rest" using assms by (cases ns) auto
  have more: "add_missing rest k \<noteq> []" if "x \<in> set k" for k x using add_missing_set(3) [of k rest] that by auto
  show ?thesis unfolding ns using more [of n known] more [of n "known @ [n]"] by simp
qed

lemma nacks_delete: "nacks_inv m \<Longrightarrow> nacks_inv (AList.delete k m)"
  by (auto simp: nacks_inv_def AList.delete_eq intro: order_trans [OF length_filter_le])

lemma nacks_update:
  assumes "nacks_inv m" "nack_ok (k, q)" "length m < 64 \<or> map_of m k \<noteq> None"
  shows "nacks_inv (AList.update k q m)"
proof -
  have "set (AList.update k q m) \<subseteq> insert (k, q) (set m)" by (induction m) auto
  moreover have "length (AList.update k q m) \<le> 64"
    using assms(1,3) length_update_le [of k q m] size_update_present [of m k _ q] by (fastforce simp: nacks_inv_def)
  ultimately show ?thesis using assms(1,2) by (auto simp: nacks_inv_def)
qed

lemma enqueue_nack_inv:
  assumes "requests_inv v" "picks_entry re"
  shows "requests_inv (enqueueNackRequest re now k ns v)"
proof (cases "k = 0 \<or> ns = []")
  case False
  define m1 where "m1 = (if length (rl_nacks v) \<ge> kMaxPendingNackRequests \<and> map_of (rl_nacks v) k = None
      then AList.delete (rn_first re (rl_nacks v)) (rl_nacks v) else rl_nacks v)"
  define q0 where "q0 = (case map_of m1 k of Some q \<Rightarrow> q
     | None \<Rightarrow> \<lparr> nq_remoteMediaSsrc = 0, nq_missingSequences = [], nq_firstRequestedAtMs = 0, nq_lastSentAtMs = 0, nq_attempts = 0 \<rparr>)"
  define q1 where "q1 = q0\<lparr>nq_remoteMediaSsrc := k,
     nq_firstRequestedAtMs := (if nq_firstRequestedAtMs q0 = 0 then now else nq_firstRequestedAtMs q0),
     nq_missingSequences := add_missing ns (nq_missingSequences q0)\<rparr>"
  have nm: "nacks_inv (rl_nacks v)" using assms(1) by (simp add: requests_inv_def)
  have m1: "nacks_inv m1" "length m1 < 64 \<or> map_of m1 k \<noteq> None"
  proof -
    show "nacks_inv m1" using nm nacks_delete by (simp add: m1_def)
    have "length (AList.delete (rn_first re (rl_nacks v)) (rl_nacks v)) < length (rl_nacks v)" if "rl_nacks v \<noteq> []"
      by (rule delete_shrinks) (use assms(2) that in \<open>simp add: picks_entry_def\<close>)
    moreover have "length (rl_nacks v) \<le> 64" using nm by (simp add: nacks_inv_def)
    ultimately have "length (AList.delete (rn_first re (rl_nacks v)) (rl_nacks v)) < 64"
      using length_filter_le [of _ "[]"] by (cases "rl_nacks v = []") (auto simp: AList.delete_eq)
    then show "length m1 < 64 \<or> map_of m1 k \<noteq> None" by (auto simp: m1_def not_less)
  qed
  have "distinct (nq_missingSequences q0)"
    using m1(1) by (auto simp: q0_def nacks_inv_def nack_ok_def split: option.splits dest!: map_of_SomeD)
  then have "nack_ok (k, q1)"
    using False add_missing_set(2) add_missing_some by (simp add: nack_ok_def q1_def)
  then have "nacks_inv (AList.update k q1 m1)" using nacks_update m1 by blast
  moreover have "enqueueNackRequest re now k ns v = v\<lparr>rl_nacks := AList.update k q1 m1\<rparr>"
    using False unfolding enqueueNackRequest_def Let_def m1_def [symmetric] q0_def [symmetric] q1_def [symmetric] by simp
  ultimately show ?thesis using assms(1) by (simp add: requests_inv_def)
qed (use assms in \<open>auto simp: enqueueNackRequest_def\<close>)

lemma enqueue_key_inv: "requests_inv v \<Longrightarrow> requests_inv (enqueueKeyFrameRequest k reason v)"
  by (auto simp: requests_inv_def enqueueKeyFrameRequest_def Let_def)

lemma requests_other [simp]:
  "requests_inv (on_session f v) = requests_inv v" "requests_inv (v\<lparr>rl_workers := m\<rparr>) = requests_inv v"
  "requests_inv (v\<lparr>rl_delivered := d\<rparr>) = requests_inv v" "requests_inv (v\<lparr>rl_keyFramePipeline := p\<rparr>) = requests_inv v"
  by (simp_all add: requests_inv_def)

lemma outcome_requests: "requests_inv v \<Longrightarrow> picks_entry re \<Longrightarrow> requests_inv (handleConsumeOutcome re now outcome f v)"
  by (auto simp: handleConsumeOutcome_def Let_def dispatchFrame_def clearPendingNackRequest_def enqueue_nack_inv
      split: VideoRecvHandlingAction.split option.split intro: enqueue_key_inv)
    (simp_all add: requests_inv_def nacks_delete)

lemma outcome_rest:
  "rl_workers (handleConsumeOutcome re now outcome f v) = rl_workers v"
  "session_part (rl_session (handleConsumeOutcome re now outcome f v)) = session_part (rl_session v)"
  "wire_part (rl_session (handleConsumeOutcome re now outcome f v)) = wire_part (rl_session v)"
  by (auto simp: handleConsumeOutcome_def Let_def dispatchFrame_def clearPendingNackRequest_def enqueueNackRequest_def
      split: VideoRecvHandlingAction.split option.split)

lemma count_part [simp]:
  "session_part (s\<lparr>vs_receivedPacketCount := n\<rparr>) = session_part s" "wire_part (s\<lparr>vs_receivedPacketCount := n\<rparr>) = wire_part s"
  by (simp_all add: session_part_def key_part_def control_part_def wire_part_def)

lemma event_rest:
  "rl_workers (handle_event re now e v) = rl_workers v"
  "session_part (rl_session (handle_event re now e v)) = session_part (rl_session v)"
  "wire_part (rl_session (handle_event re now e v)) = wire_part (rl_session v)"
  "requests_inv v \<Longrightarrow> picks_entry re \<Longrightarrow> requests_inv (handle_event re now e v)"
  by (simp_all add: handle_event_def case_prod_beta outcome_rest outcome_requests)

lemma events_rest:
  "rl_workers (fold (handle_event re now) es v) = rl_workers v"
  "session_part (rl_session (fold (handle_event re now) es v)) = session_part (rl_session v)"
  "wire_part (rl_session (fold (handle_event re now) es v)) = wire_part (rl_session v)"
  by (induction es arbitrary: v) (simp_all add: event_rest)

lemma events_requests: "requests_inv v \<Longrightarrow> picks_entry re \<Longrightarrow> requests_inv (fold (handle_event re now) es v)"
  by (induction es arbitrary: v) (simp_all add: event_rest)

definition seen_ok :: "u32 \<Rightarrow> 'd VideoRecvPeerRuntime \<Rightarrow> bool" where
  "seen_ok k r \<longleftrightarrow> pr_remoteMediaSsrc r = k \<and> pr_lastActiveAtMs r \<noteq> - 1"

lemma seen_ok_upd [simp]:
  "seen_ok k (r\<lparr>pr_recvPipeline := p\<rparr>) = seen_ok k r" "seen_ok k (r\<lparr>pr_jitterBuffer := b\<rparr>) = seen_ok k r"
  by (simp_all add: seen_ok_def)

lemma seen_ok_active: "seen_ok k r \<Longrightarrow> t \<noteq> - 1 \<Longrightarrow> seen_ok k (r\<lparr>pr_recvPipeline := p, pr_lastActiveAtMs := t\<rparr>)"
  by (simp add: seen_ok_def)

lemma poll_active: "pollDecodedFrames t n q = (es, q') \<Longrightarrow> t \<noteq> - 1 \<Longrightarrow> seen_ok k q \<Longrightarrow> seen_ok k q'"
proof (induction n arbitrary: q es q')
  case (Suc n)
  obtain r p where p: "pollAndDecide (pr_recvPipeline q) = (r, p)" by fastforce
  show ?case
  proof (cases r)
    case (Some x)
    obtain outcome frame where x: "x = (outcome, frame)" by force
    obtain es1 q1 where q1: "pollDecodedFrames t n (q\<lparr>pr_recvPipeline := p, pr_lastActiveAtMs := t\<rparr>) = (es1, q1)" by fastforce
    have "q' = q1" using Suc.prems(1) p Some x q1 by simp
    then show ?thesis using Suc.IH [OF q1 Suc.prems(2) seen_ok_active [OF Suc.prems(3,2)]] by simp
  qed (use Suc.prems p in auto)
qed simp

lemma process_active:
  assumes "processPacket others now t packet r = (es, r')" "t \<noteq> - 1" "seen_ok k r"
  shows "seen_ok k r'"
proof -
  obtain c p where c: "consumeAndDecide others now packet (pr_remoteMediaSsrc r) (pr_recvPipeline r) = (c, p)" by fastforce
  show ?thesis
  proof (cases c)
    case (Some x)
    obtain outcome frame where x: "x = (outcome, frame)" by force
    obtain es1 q1 where q1: "pollDecodedFrames t kRecvWorkerPollBudgetAfterPacket (r\<lparr>pr_recvPipeline := p, pr_lastActiveAtMs := t\<rparr>) = (es1, q1)"
      by fastforce
    have "r' = q1" using assms(1) c Some x q1 by (simp add: processPacket_def)
    then show ?thesis using poll_active [OF q1 assms(2) seen_ok_active [OF assms(3,2)]] by simp
  qed (use assms c in \<open>auto simp: processPacket_def\<close>)
qed

lemma round_active:
  assumes "peer_run_round x r = Some (left, es, r')" "ro_active x \<noteq> - 1" "seen_ok k r"
  shows "seen_ok k r'"
proof -
  have "seen_ok k r2" if "pollDecodedFrames (ro_active x) n (r\<lparr>pr_jitterBuffer := b\<rparr>) = (es2, r2)" for n b es2 r2
    by (rule poll_active [OF that assms(2)]) (use assms(3) in simp)
  moreover have "seen_ok k r2" if "processPacket f t (ro_active x) packet (r\<lparr>pr_jitterBuffer := b\<rparr>) = (es2, r2)" for f t packet b es2 r2
    by (rule process_active [OF that assms(2)]) (use assms(3) in simp)
  ultimately show ?thesis
    using assms(1) unfolding peer_run_round_def Let_def by (auto split: if_splits option.splits prod.splits)
qed

lemma workers_delete: "workers_inv m \<Longrightarrow> workers_inv (AList.delete k m)"
  by (auto simp: workers_inv_def AList.delete_eq intro: order_trans [OF length_filter_le])

lemma workers_update:
  assumes "workers_inv m" "k \<noteq> 0" "pr_remoteMediaSsrc r = k" "pr_lastActiveAtMs r \<noteq> - 1" "length m < 16 \<or> map_of m k \<noteq> None"
  shows "workers_inv (AList.update k r m)"
proof -
  have "set (AList.update k r m) \<subseteq> insert (k, r) (set m)" by (induction m) auto
  moreover have "length (AList.update k r m) \<le> 16"
    using assms(1,5) length_update_le [of k r m] size_update_present [of m k _ r] by (fastforce simp: workers_inv_def)
  ultimately show ?thesis using assms(1-4) by (auto simp: workers_inv_def)
qed

lemma workers_find: "workers_inv m \<Longrightarrow> map_of m k = Some r \<Longrightarrow> k \<noteq> 0 \<and> pr_remoteMediaSsrc r = k \<and> pr_lastActiveAtMs r \<noteq> - 1"
  by (auto simp: workers_inv_def dest!: map_of_SomeD)

text \<open>The invariant of the receive loop.\<close>

definition loop_inv :: "('ssl, 's) video_env \<Rightarrow> string \<Rightarrow> ('ssl, 's, 'f, 'd) recv_loop \<Rightarrow> bool" where
  "loop_inv env fp v \<longleftrightarrow> video_inv env fp (rl_session v) \<and> requests_inv v \<and> workers_inv (rl_workers v)"

lemma loop_inv_session: "loop_inv env fp v \<Longrightarrow> video_inv env fp (f (rl_session v)) \<Longrightarrow> loop_inv env fp (on_session f v)"
  by (simp add: loop_inv_def)

lemma events_inv:
  assumes "loop_inv env fp v" "picks_entry re"
  shows "loop_inv env fp (fold (handle_event re now) es v)"
  using assms events_requests session_part_inv [OF events_rest(2)] by (auto simp: loop_inv_def events_rest(1))

lemma worker_round_inv:
  assumes "worker_round re now k x v = Some v'" "loop_inv env fp v" "picks_entry re" "ro_active x \<noteq> - 1"
  shows "loop_inv env fp v'"
proof -
  obtain r where r: "map_of (rl_workers v) k = Some r" using assms(1) by (auto simp: worker_round_def split: option.splits)
  obtain left es r1 where x: "peer_run_round x r = Some (left, es, r1)"
    and v': "v' = fold (handle_event re now) es (v\<lparr>rl_workers := AList.update k r1 (rl_workers v)\<rparr>)"
    using assms(1) r by (auto simp: worker_round_def)
  have w: "workers_inv (rl_workers v)" using assms(2) by (simp add: loop_inv_def)
  have "workers_inv (AList.update k r1 (rl_workers v))"
    by (rule workers_update [OF w]) (use workers_find [OF w r] round_active [OF x assms(4), of k] r in \<open>auto simp: seen_ok_def\<close>)
  then have "loop_inv env fp (v\<lparr>rl_workers := AList.update k r1 (rl_workers v)\<rparr>)" using assms(2) by (simp add: loop_inv_def)
  then show ?thesis unfolding v' by (rule events_inv [OF _ assms(3)])
qed

lemma stop_worker_inv:
  assumes "stop_worker re io k v = Some v'" "loop_inv env fp v" "picks_entry re"
  shows "loop_inv env fp v' \<and> rl_workers v' = AList.delete k (rl_workers v) \<and> wire_part (rl_session v') = wire_part (rl_session v) \<and>
    session_part (rl_session v') = session_part (rl_session v)"
proof (cases "map_of (rl_workers v) k")
  case None
  then have "AList.delete k (rl_workers v) = rl_workers v" by (simp add: AList.delete_idem map_of_eq_None_iff)
  then show ?thesis using assms None by (simp add: stop_worker_def)
next
  case (Some r)
  then obtain es r1 where v': "v' = fold (handle_event re (ri_eventMs io)) es (v\<lparr>rl_workers := AList.delete k (rl_workers v)\<rparr>)"
    using assms(1) by (auto simp: stop_worker_def)
  have "loop_inv env fp (v\<lparr>rl_workers := AList.delete k (rl_workers v)\<rparr>)"
    using assms(2) workers_delete by (auto simp: loop_inv_def)
  then show ?thesis unfolding v' using events_inv [OF _ assms(3)] by (simp add: events_rest)
qed

lemma stop_workers_inv:
  "stop_workers re io ks v = Some v' \<Longrightarrow> loop_inv env fp v \<Longrightarrow> picks_entry re \<Longrightarrow>
     loop_inv env fp v' \<and> session_part (rl_session v') = session_part (rl_session v)"
  by (induction ks arbitrary: v) (fastforce simp: bind_eq_Some_conv dest: stop_worker_inv)+

lemma ensure_inv:
  assumes "ensureRecvPeerWorker env re io k v = Some (found, v')" "loop_inv env fp v" "picks_entry re" "ri_workerMs io \<noteq> - 1"
  shows "loop_inv env fp v' \<and> (found \<longrightarrow> map_of (rl_workers v') k \<noteq> None) \<and> session_part (rl_session v') = session_part (rl_session v)"
proof (cases "k = 0 \<or> map_of (rl_workers v) k \<noteq> None")
  case True
  then show ?thesis using assms(1,2) by (auto simp: ensureRecvPeerWorker_def split: if_splits)
next
  case False
  let ?full = "length (rl_workers v) \<ge> kMaxRecvPeerWorkers"
  let ?old = "oldest_stream pr_lastActiveAtMs (rl_workers v)"
  define worker :: "ScreenShareSessionConfig \<Rightarrow> 'd VideoRecvPeerRuntime" where "worker c = peer_start (VideoRecvPeerRuntime_new k (recv_config env c) (ri_workerMs io))" for c
  obtain v1 where v1: "(if ?full then (case ?old of None \<Rightarrow> Some v | Some o1 \<Rightarrow> stop_worker re io o1 v) else Some v) = Some v1"
    and v': "found" "v' = v1\<lparr>rl_workers := AList.update k (worker (vs_config (rl_session v1))) (rl_workers v1)\<rparr>"
    using assms(1) False unfolding ensureRecvPeerWorker_def worker_def by (auto simp: bind_eq_Some_conv split: if_splits)
  have w: "workers_inv (rl_workers v)" using assms(2) by (simp add: loop_inv_def)
  have "loop_inv env fp v1 \<and> length (rl_workers v1) < 16 \<and> session_part (rl_session v1) = session_part (rl_session v)"
  proof (cases ?full)
    case True
    obtain e where e: "e \<in> set (rl_workers v)" using True by (cases "rl_workers v") auto
    have "?old \<noteq> None" using oldest_none [of pr_lastActiveAtMs "rl_workers v" "fst e" "snd e"] w e by (force simp: workers_inv_def)
    then obtain o1 where o1: "?old = Some o1" by auto
    have "stop_worker re io o1 v = Some v1" using v1 True o1 by simp
    then show ?thesis
      using stop_worker_inv [OF _ assms(2,3)] delete_shrinks [OF oldest_stream_in [OF o1]] w by (force simp: workers_inv_def)
  qed (use v1 assms(2) in simp)
  moreover have "pr_remoteMediaSsrc (worker c) = k" "pr_lastActiveAtMs (worker c) \<noteq> - 1" for c
    using assms(4) by (simp_all add: worker_def peer_start_def VideoRecvPeerRuntime_new_def)
  ultimately show ?thesis
    using v' False workers_update [of "rl_workers v1" k "worker (vs_config (rl_session v1))"] by (simp add: loop_inv_def update_conv')
qed

text \<open>What a datagram does to the loop.\<close>

lemma loop_inv_part:
  "loop_inv env fp v \<Longrightarrow> session_part (f (rl_session v)) = session_part (rl_session v) \<Longrightarrow> loop_inv env fp (on_session f v)"
  by (rule loop_inv_session) (auto simp: loop_inv_def intro: session_part_inv)

lemma recv_video_media_inv:
  assumes "recv_media env re io e p sender v = Some v'" "loop_inv env fp v" "picks_entry re" "ri_workerMs io \<noteq> - 1"
  shows "loop_inv env fp v'"
proof -
  let ?sock = "vs_mediaSocket (rl_session v)"
  obtain d where d: "classifyDatagram p (acceptSender sender ?sock) (acceptRtcpFromPeerHost sender ?sock) = Some d"
    using assms(1) by (auto simp: recv_media_def Let_def bind_eq_Some_conv)
  consider (ignored) "v' = v"
    | (rtcp) plan where "v' = on_session (\<lambda>s. snd (applyRtcpDispatchPlan env (ri_arrival io) (ri_planMs io) plan s)) v"
    | (rtp) packet found v1 where "ensureRecvPeerWorker env re io (h_ssrc (p_header packet)) v = Some (found, v1)"
      "v' = (case (found, map_of (rl_workers v1) (h_ssrc (p_header packet))) of
          (True, Some worker) \<Rightarrow>
            let (queued, worker1) = peer_enqueue (ri_workerMs io) packet worker;
                v2 = v1\<lparr>rl_workers := AList.update (h_ssrc (p_header packet)) worker1 (rl_workers v1)\<rparr>
            in if queued then v2 else on_session (video_setError ''recv worker enqueue failed'') v2
        | _ \<Rightarrow> v1)"
    using assms(1) d unfolding recv_media_def Let_def
    by (cases "vg_kind d"; cases "vg_rtpPacket d") (auto simp: bind_eq_Some_conv split: if_splits)
  then show ?thesis
  proof cases
    case ignored
    then show ?thesis using assms(2) by simp
  next
    case rtcp
    have "video_inv env fp (snd (applyRtcpDispatchPlan env (ri_arrival io) (ri_planMs io) plan (rl_session v)))"
      by (rule video_plan_inv [OF surjective_pairing]) (use assms(2) in \<open>simp add: loop_inv_def\<close>)
    then show ?thesis using rtcp assms(2) loop_inv_session by auto
  next
    case rtp
    let ?k = "h_ssrc (p_header packet)"
    have v1: "loop_inv env fp v1" using ensure_inv [OF rtp(1) assms(2-4)] by blast
    show ?thesis
    proof (cases "found \<and> map_of (rl_workers v1) ?k \<noteq> None")
      case True
      then obtain w where w: "map_of (rl_workers v1) ?k = Some w" by auto
      obtain queued w1 where q: "peer_enqueue (ri_workerMs io) packet w = (queued, w1)" by fastforce
      have wi: "workers_inv (rl_workers v1)" using v1 by (simp add: loop_inv_def)
      have "pr_remoteMediaSsrc w1 = ?k \<and> pr_lastActiveAtMs w1 \<noteq> - 1"
        using workers_find [OF wi w] q assms(4) by (auto simp: peer_enqueue_def split: if_splits)
      then have "workers_inv (AList.update ?k w1 (rl_workers v1))"
        using workers_update [OF wi] workers_find [OF wi w] w by blast
      then have "loop_inv env fp (v1\<lparr>rl_workers := AList.update ?k w1 (rl_workers v1)\<rparr>)" using v1 by (simp add: loop_inv_def)
      then show ?thesis using rtp(2) True w q loop_inv_part [where f = "video_setError ''recv worker enqueue failed''"]
        by (auto simp: Let_def)
    next
      case False
      then have "v' = v1" using rtp(2) by (cases found; cases "map_of (rl_workers v1) ?k") auto
      then show ?thesis using v1 by simp
    qed
  qed
qed

lemma datagram_cases:
  assumes "recv_video_datagram env re io e data sender v = Some v'"
  obtains (dtls) "v' = on_session (\<lambda>s. snd (video_handleDtlsPacket env data sender s)) v"
  | (stun) "v' = on_session (\<lambda>s. s\<lparr>vs_iceConnected := True\<rparr>) v"
  | (clear) "\<not> vs_dtlsStarted (rl_session v)" "recv_media env re io e data sender v = Some v'"
  | (dropped) s1 where "video_unprotectRtp env data (rl_session v) = (None, s1) \<or> video_unprotectRtcp env data (rl_session v) = (None, s1)"
      "v' = v\<lparr>rl_session := s1\<rparr>"
  | (media) rtcp p s1 where "vs_dtlsStarted (rl_session v)"
      "(if rtcp then video_unprotectRtcp env data (rl_session v) else video_unprotectRtp env data (rl_session v)) = (Some p, s1)"
      "recv_media env re io e p sender (v\<lparr>rl_session := s1\<rparr>) = Some v'" "looksLikeRtcpPacket data = Some rtcp"
proof -
  obtain d where d: "looksLikeDtlsRecord data = Some d" using assms by (auto simp: recv_video_datagram_def bind_eq_Some_conv)
  show thesis
  proof (cases d)
    case True
    then show thesis using assms d that(1) by (simp add: recv_video_datagram_def)
  next
    case nodtls: False
    obtain t where t: "looksLikeStunPacket data = Some t" using assms d nodtls by (auto simp: recv_video_datagram_def bind_eq_Some_conv)
    show thesis
    proof (cases "t \<or> \<not> vs_dtlsStarted (rl_session v)")
      case True
      then show thesis using assms d nodtls t that(2,3) by (auto simp: recv_video_datagram_def split: if_splits)
    next
      case False
      obtain rtcp where r: "looksLikeRtcpPacket data = Some rtcp"
        using assms d nodtls t False by (auto simp: recv_video_datagram_def bind_eq_Some_conv)
      obtain u s1 where u: "(if rtcp then video_unprotectRtcp env data (rl_session v) else video_unprotectRtp env data (rl_session v)) = (u, s1)"
        by fastforce
      show thesis
      proof (cases u)
        case None
        then have "v' = v\<lparr>rl_session := s1\<rparr>" using assms d nodtls t False r u by (simp add: recv_video_datagram_def)
        then show thesis using that(4) u None by (cases rtcp) auto
      next
        case (Some p)
        then have "recv_media env re io e p sender (v\<lparr>rl_session := s1\<rparr>) = Some v'"
          using assms d nodtls t False r u by (simp add: recv_video_datagram_def)
        then show thesis using that(5) False u Some r by simp
      qed
    qed
  qed
qed

lemma recv_datagram_inv_video:
  assumes "handshake_stays_complete (ssl_api (vn_ssl env))" "peer_certificate_fixed (ssl_api (vn_ssl env))"
    and "recv_video_datagram env re io e data sender v = Some v'" "loop_inv env fp v" "picks_entry re" "ri_workerMs io \<noteq> - 1"
  shows "loop_inv env fp v'"
proof -
  have vi: "video_inv env fp (rl_session v)" using assms(4) by (simp add: loop_inv_def)
  have up: "loop_inv env fp (v\<lparr>rl_session := s1\<rparr>)"
    if "video_unprotectRtp env data (rl_session v) = (r, s1) \<or> video_unprotectRtcp env data (rl_session v) = (r, s1)" for r s1
    using that loop_inv_session [OF assms(4), of "\<lambda>_. s1"] video_protected_inv(3,4) [OF vi, of data] by auto
  from assms(3) show ?thesis
  proof (cases rule: datagram_cases)
    case dtls
    show ?thesis unfolding dtls
      by (rule loop_inv_session [OF assms(4)]) (rule video_handle_inv [OF assms(1,2) surjective_pairing vi])
  next
    case stun
    have "session_part (s\<lparr>vs_iceConnected := True\<rparr>) = session_part s" for s :: "('a, 'b, 'c) ScreenShareSession"
      by (simp add: session_part_def key_part_def control_part_def)
    then show ?thesis unfolding stun using loop_inv_part [OF assms(4)] by blast
  next
    case clear
    then show ?thesis using recv_video_media_inv assms(4-6) by blast
  next
    case dropped
    then show ?thesis using up by blast
  next
    case (media rtcp p s1)
    have "loop_inv env fp (v\<lparr>rl_session := s1\<rparr>)" using up [of "Some p" s1] media(2) by (cases rtcp) auto
    then show ?thesis using recv_video_media_inv media(3) assms(5,6) by blast
  qed
qed

lemma loop_inv_socket:
  assumes "loop_inv env fp v" "us_inv k" "us_socket k = us_socket (vs_mediaSocket (rl_session v))"
  shows "loop_inv env fp (on_session (\<lambda>s. s\<lparr>vs_mediaSocket := k\<rparr>) v)"
proof (rule loop_inv_session [OF assms(1)])
  have vi: "video_inv env fp (rl_session v)" using assms(1) by (simp add: loop_inv_def)
  show "video_inv env fp ((rl_session v)\<lparr>vs_mediaSocket := k\<rparr>)"
    using vi assms(2,3) by (intro video_inv_same [OF _ _ _ vi]) (simp_all add: key_part_def video_inv_def control_inv_def published_def)
qed

lemma loop_inv_report: "loop_inv env fp v \<Longrightarrow> loop_inv env fp (on_session (report_socket_error m) v)"
  by (rule loop_inv_part) (simp_all add: report_socket_error_def)

text \<open>Meanwhile the socket is not closed: the operations that close it wait for the thread first.\<close>

definition meanwhile :: "('ssl, 's) video_env \<Rightarrow> (UdpPeerSocket \<Rightarrow> UdpPeerSocket) \<Rightarrow> bool" where
  "meanwhile env others \<longleftrightarrow> (\<forall>k. socket_step (vn_qs env) k (others k) \<and> us_socket (others k) = us_socket k)"

lemma recv_wait_inv:
  assumes "handshake_stays_complete (ssl_api (vn_ssl env))" "peer_certificate_fixed (ssl_api (vn_ssl env))"
    and "recv_wait env re io woke others e v = Some v'" "loop_inv env fp v" "picks_entry re" "ri_workerMs io \<noteq> - 1" "meanwhile env others"
  shows "loop_inv env fp v'"
proof -
  let ?k = "vs_mediaSocket (rl_session v)"
  have uk: "us_inv ?k" using assms(4) video_sock by (auto simp: loop_inv_def)
  obtain w k where w: "waitForReadable kRecvLoopWaitTimeoutMs woke others ?k = (w, k)" by fastforce
  have k: "us_inv k" "us_socket k = us_socket ?k"
  proof -
    have "socket_step (vn_qs env) ?k (others ?k)" using assms(7) by (simp add: meanwhile_def)
    then show "us_inv k" using us_inv_step [OF socket_step.wait [OF _ w]] uk by blast
    have "us_socket (others ?k) = us_socket ?k" using assms(7) by (simp add: meanwhile_def)
    then show "us_socket k = us_socket ?k" using wait_cases [OF w] by (auto simp: same_routing_def)
  qed
  obtain r k2 where r: "recvFrom 1500 k = Some (r, k2)" using recvFrom_total by fast
  have sr: "same_routing k k2" by (rule recvFrom_keeps [OF r])
  have k2: "us_inv k2" "us_socket k2 = us_socket ?k"
    using same_routing_inv [OF sr] k sr by (simp_all add: same_routing_def)
  have v1: "loop_inv env fp (on_session (\<lambda>s. s\<lparr>vs_mediaSocket := k\<rparr>) v)" by (rule loop_inv_socket [OF assms(4) k])
  define v2 where "v2 = on_session (\<lambda>s. s\<lparr>vs_mediaSocket := k2\<rparr>) (on_session (\<lambda>s. s\<lparr>vs_mediaSocket := k\<rparr>) v)"
  have v2: "loop_inv env fp v2" unfolding v2_def by (rule loop_inv_socket [OF v1 k2(1)]) (use k k2 in simp)
  show ?thesis
    using assms(3) w r v1 loop_inv_report [OF v1] loop_inv_report [OF v2, unfolded v2_def]
      recv_datagram_inv_video [OF assms(1,2) _ v2 assms(5,6), unfolded v2_def]
    unfolding recv_wait_def Let_def by (cases r) (auto simp: o_def split: if_splits)
qed

lemma flush_loop_inv:
  assumes "loop_inv env fp v" "picks_entry re"
  shows "loop_inv env fp (flushPendingKeyFrameRequests env clock (flushPendingNackRequests env now v))"
    (is "loop_inv env fp ?v")
proof -
  have keys: "length (rl_keyFrames (fold (\<lambda>k. enqueueKeyFrameRequest k r) ks w)) \<le> 64" if "length (rl_keyFrames w) \<le> 64" for ks r w
    using that by (induction ks arbitrary: w) (auto simp: enqueueKeyFrameRequest_def Let_def)
  have one: "rl_nacks (flush_key_frame env t q w) = rl_nacks w" "rl_workers (flush_key_frame env t q w) = rl_workers w"
    "rl_keyFrames (flush_key_frame env t q w) = rl_keyFrames w" for t q w
    by (simp_all add: flush_key_frame_def Let_def case_prod_beta)
  have all: "rl_nacks (flush_key_frames env c qs w) = rl_nacks w" "rl_workers (flush_key_frames env c qs w) = rl_workers w"
    "rl_keyFrames (flush_key_frames env c qs w) = rl_keyFrames w" for c qs w
    by (induction qs arbitrary: c w) (simp_all add: one)
  have "rl_nacks ?v = List.map_filter (nack_after now) (rl_nacks v)" "rl_workers ?v = rl_workers v" "rl_keyFrames ?v = []"
    by (simp_all add: flushPendingKeyFrameRequests_def all flushPendingNackRequests_def Let_def)
  moreover have "nacks_inv (List.map_filter (nack_after now) m)" if "nacks_inv m" for m
  proof -
    have fst: "fst ` set (List.map_filter (nack_after now) m) \<subseteq> fst ` set m" for m
      by (induction m) (auto simp: List.map_filter_simps nack_after_def split: option.splits nack_action.splits)
    have "um_ok (List.map_filter (nack_after now) m)" if "um_ok m" for m
      using that fst by (induction m)
        (auto simp: List.map_filter_simps um_ok_def nack_after_def split: option.splits nack_action.splits, (force+)?)
    moreover have "length (List.map_filter (nack_after now) m) \<le> length m" for m
      by (induction m) (auto simp: List.map_filter_simps split: option.split)
    moreover have "\<forall>e \<in> set (List.map_filter (nack_after now) m). nack_ok e" if "\<forall>e \<in> set m. nack_ok e" for m
      using that by (induction m)
        (auto simp: List.map_filter_simps nack_after_def nack_ok_def split: option.splits nack_action.splits)
    ultimately show ?thesis using that le_trans unfolding nacks_inv_def by blast
  qed
  ultimately show ?thesis
    using assms(1) flush_ok(1) [of env fp v clock now] by (simp add: loop_inv_def requests_inv_def)
qed

lemma recv_iteration_inv:
  assumes "handshake_stays_complete (ssl_api (vn_ssl env))" "peer_certificate_fixed (ssl_api (vn_ssl env))"
    and "recvLoop_iteration_video env re io woke others v = Some (b, v')" "loop_inv env fp v" "picks_entry re"
    and "ri_workerMs io \<noteq> - 1" "meanwhile env others"
  shows "loop_inv env fp v'"
proof -
  let ?v1 = "flushPendingKeyFrameRequests env (ri_keyMs io) (flushPendingNackRequests env (ri_nackMs io) v)"
  have v1: "loop_inv env fp ?v1" by (rule flush_loop_inv [OF assms(4,5)])
  have r: "loop_inv env fp (on_session (\<lambda>s. s\<lparr>vs_remoteVideoStreamResetRequests := []\<rparr>) ?v1)"
    by (rule loop_inv_part [OF v1]) (simp add: session_part_def key_part_def control_part_def)
  have stop: "loop_inv env fp w'" if "stop_workers re io ks w = Some w'" "loop_inv env fp w" for ks w w'
    using stop_workers_inv [OF that assms(5)] by blast
  show ?thesis
  proof (cases "vs_running (rl_session v)")
    case True
    then obtain v2 v3 where "resetRequestedRecvPeerWorkers re io ?v1 = Some v2"
      "pruneRecvPeerWorkers re io (vs_expectedRemoteVideoSsrc (rl_session v2)) v2 = Some v3"
      and v': "recv_wait env re io woke others (vs_expectedRemoteVideoSsrc (rl_session v2)) v3 = Some v'"
      using assms(3) by (auto simp: recvLoop_iteration_video_def Let_def bind_eq_Some_conv)
    then have "loop_inv env fp v3"
      using stop r unfolding resetRequestedRecvPeerWorkers_def pruneRecvPeerWorkers_def by blast
    then show ?thesis using recv_wait_inv [OF assms(1,2) v' _ assms(5-7)] by blast
  next
    case False
    then show ?thesis
      using assms(3) stop v1 by (auto simp: recvLoop_iteration_video_def Let_def stopAllRecvPeerWorkers_def)
  qed
qed

end
