(* ===== verification/VideoCall.thy ===== *)
theory VideoCall
  imports VideoRecvLoop
begin

text \<open>
  The video session as a whole: its control operations, its three threads and the workers of the
  remote streams in any interleaving, what holds in every state they reach, and what becomes of a
  lost packet. The steps are those of \<open>VideoSession\<close>, \<open>VideoSendLoop\<close> and \<open>VideoRecvLoop\<close>; an iteration
  of a loop is one step.
\<close>

section \<open>All steps\<close>

inductive session_step ::
  "('ssl, 's) video_env \<Rightarrow> string \<Rightarrow> ('ssl, 's, 'f) ScreenShareSession \<Rightarrow> ('ssl, 's, 'f) ScreenShareSession \<Rightarrow> bool"
  for env fp where
  start: "ScreenShareSession_start env s = (ok, s') \<Longrightarrow> session_step env fp s s'"
| stop: "session_step env fp s (ScreenShareSession_stop s)"
| sharing: "setSharingEnabled env cp vals t1 t2 b s = Some (ok, s') \<Longrightarrow> session_step env fp s s'"
| camera: "setCameraSendingEnabled env cp vals t1 t2 b s = Some (ok, s') \<Longrightarrow> session_step env fp s s'"
| device: "setPreferredCameraDeviceName switched name s = (ok, s') \<Longrightarrow> session_step env fp s s'"
| expect: "session_step env fp s (setExpectedRemoteVideoSsrc n s)"
| reset: "session_step env fp s (resetRemoteVideoStream n s)"
| ssrc: "session_step env fp s (setVideoSsrc n s)"
| set_peer: "session_step env fp s (ScreenShareSession_setPeer env a p s)"
| relay: "ScreenShareSession_configureTurnRelay env qc cs a p ta tp u c pa pp s = Some (ok, s') \<Longrightarrow> session_step env fp s s'"
| prepare: "video_prepareDtlsFingerprint env s = (f, s') \<Longrightarrow> session_step env fp s s'"
| dtls: "video_startDtlsSrtp env now fp s = (ok, s') \<Longrightarrow> session_step env fp s s'"
| probe: "video_sendTransportProbe env packet s = Some (ok, s') \<Longrightarrow> session_step env fp s s'"
| io: "session_step env fp s (s\<lparr>vs_mediaSocket := enqueuePendingDatagramsFromSocket (vn_qs env) ds (vs_mediaSocket s)\<rparr>)"

inductive video_step ::
  "('ssl, 's) video_env \<Rightarrow> 'e send_env \<Rightarrow> recv_env \<Rightarrow> string \<Rightarrow> ('ssl, 's, 'f, 'd) recv_loop \<Rightarrow>
   ('ssl, 's, 'f, 'd) recv_loop \<Rightarrow> bool" for env se re fp where
  session: "session_step env fp (rl_session v) s' \<Longrightarrow> video_step env se re fp v (v\<lparr>rl_session := s'\<rparr>)"
| capture: "captureLoop_iteration env ci ts (rl_session v) = Some (b, ts', s') \<Longrightarrow>
    video_step env se re fp v (v\<lparr>rl_session := s'\<rparr>)"
| send_begin: "sendLoop_begin env se cp e (rl_session v) = (l, s') \<Longrightarrow> video_step env se re fp v (v\<lparr>rl_session := s'\<rparr>)"
| send: "sendLoop_iteration_video env se tm rounds l (rl_session v) = Some (b, l', s') \<Longrightarrow>
    video_step env se re fp v (v\<lparr>rl_session := s'\<rparr>)"
| recv_begin: "video_step env se re fp v (recv_loop_new (rl_session v))"
| recv: "recvLoop_iteration_video env re io woke others v = Some (b, v') \<Longrightarrow> ri_workerMs io \<noteq> - 1 \<Longrightarrow> meanwhile env others \<Longrightarrow>
    video_step env se re fp v v'"
| worker: "worker_round re now k x v = Some v' \<Longrightarrow> ro_active x \<noteq> - 1 \<Longrightarrow> video_step env se re fp v v'"

lemma session_step_inv:
  assumes "session_step env fp s s'" "video_inv env fp s"
  shows "video_inv env fp s'"
  using assms
proof (induction rule: session_step.induct)
  case (start s ok s')
  then show ?case using video_start_inv by blast
next
  case (stop s)
  then show ?case using video_stop_inv by blast
next
  case (device switched name s ok s')
  have "session_part s' = session_part s"
    using device(1)
    by (auto simp: setPreferredCameraDeviceName_def Let_def video_setError_def session_part_def key_part_def control_part_def
        split: if_splits sum.splits)
  then show ?case using session_part_inv device(2) by blast
next
  case (expect s n)
  then show ?case
    by (rule session_part_inv [rotated]) (simp add: setExpectedRemoteVideoSsrc_def session_part_def key_part_def control_part_def)
next
  case (reset s n)
  define k where "k = interruptWaiters (vs_mediaSocket s)"
  have "same_routing (vs_mediaSocket s) k" by (simp add: k_def interruptWaiters_def same_routing_def)
  then have "video_inv env fp (s\<lparr>vs_mediaSocket := k\<rparr>)" using video_socket_inv reset by blast
  then have "video_inv env fp (s\<lparr>vs_remoteVideoStreamResetRequests := x, vs_mediaSocket := k\<rparr>)" for x
    by (rule session_part_inv [rotated]) (simp add: session_part_def key_part_def control_part_def)
  then show ?case using reset by (simp add: resetRemoteVideoStream_def k_def)
next
  case (io s ds)
  have "same_routing (vs_mediaSocket s) (enqueuePendingDatagramsFromSocket (vn_qs env) ds (vs_mediaSocket s))"
    by (simp add: enqueuePendingDatagramsFromSocket_def Let_def)
  then show ?case using video_socket_inv io by blast
qed (auto intro: video_sharing_inv video_camera_inv video_ssrc_inv video_setPeer_inv video_relay_inv video_prepare_inv
    video_dtls_inv video_probe_inv)

lemma loop_inv_with: "loop_inv env fp v \<Longrightarrow> video_inv env fp s' \<Longrightarrow> loop_inv env fp (v\<lparr>rl_session := s'\<rparr>)"
  by (rule loop_inv_session [where f = "\<lambda>_. s'"])

lemma loop_inv_new: "video_inv env fp s \<Longrightarrow> loop_inv env fp (recv_loop_new s)"
  by (simp add: loop_inv_def recv_loop_new_def requests_inv_def nacks_inv_def workers_inv_def)

lemma video_step_inv:
  assumes "handshake_stays_complete (ssl_api (vn_ssl env))" "peer_certificate_fixed (ssl_api (vn_ssl env))" "picks_entry re"
    and "video_step env se re fp v v'" "loop_inv env fp v"
  shows "loop_inv env fp v'"
proof -
  have vi: "video_inv env fp (rl_session v)" using assms(5) by (simp add: loop_inv_def)
  note keep = loop_inv_with [OF assms(5)]
  from assms(4) show ?thesis
  proof cases
    case (session s')
    then show ?thesis using keep session_step_inv vi by blast
  next
    case (capture ci ts b ts' s')
    then show ?thesis using keep capture_iteration_inv vi by blast
  next
    case (send_begin cp e l s')
    then show ?thesis using keep [OF send_begin_inv [OF send_begin(2) vi]] by simp
  next
    case (send tm rounds l b l' s')
    then show ?thesis using keep send_iteration_inv vi by blast
  next
    case recv_begin
    then show ?thesis using loop_inv_new vi by blast
  next
    case (recv io woke others b)
    then show ?thesis using recv_iteration_inv [OF assms(1,2) _ assms(5,3)] by blast
  next
    case (worker now k x)
    then show ?thesis using worker_round_inv assms(3,5) by blast
  qed
qed

abbreviation video_reachable where
  "video_reachable env se re fp config start \<equiv>
     (video_step env se re fp)\<^sup>*\<^sup>* (recv_loop_new (ScreenShareSession_new config start))"

interpretation call: state_machine
  "\<lambda>v. \<exists>config start. vc_width config < 2 ^ 31 \<and> v = recv_loop_new (ScreenShareSession_new config start)"
  "video_step env se re fp"
  "\<lambda>v. handshake_stays_complete (ssl_api (vn_ssl env)) \<and> peer_certificate_fixed (ssl_api (vn_ssl env)) \<and> picks_entry re \<longrightarrow>
     loop_inv env fp v"
  for env se re fp
  by unfold_locales (use loop_inv_new video_inv_new video_step_inv in blast)+

lemma video_reachable_inv:
  assumes "handshake_stays_complete (ssl_api (vn_ssl env))" "peer_certificate_fixed (ssl_api (vn_ssl env))" "picks_entry re"
    and "vc_width config < 2 ^ 31" "video_reachable env se re fp config start v"
  shows "loop_inv env fp v"
  using call.reachable_inv [of "recv_loop_new (ScreenShareSession_new config start)" env se re fp v] assms by blast

lemma reachable_step:
  assumes "video_reachable env se re fp config start v" "video_step env se re fp v v'"
  shows "video_reachable env se re fp config start v'"
  using rtranclp.rtrancl_into_rtrancl [of "video_step env se re fp" _ v v'] assms by blast

lemma reachable_session:
  assumes "video_reachable env se re fp config start v" "session_step env fp (rl_session v) s'"
  shows "video_reachable env se re fp config start (v\<lparr>rl_session := s'\<rparr>)"
  by (rule reachable_step [OF assms(1) video_step.session [OF assms(2)]])

section \<open>The state of a session\<close>

text \<open>
  Whatever is done with a video session, in any interleaving of its operations and threads with
  the network: while it runs its socket is open and its receive thread exists; while screen or camera
  is on it runs, the send thread exists, the stream has a source identifier, and the send loop works
  with exactly the resolution, frame rate and suspension the bandwidth policy has decided on; the
  screen is captured with at most 2560 x 1600 pixels and 30 pictures a second; and a remote side cannot
  make the tables grow: at most 16 workers, 64 streams with lost packets and 64 key-frame requests.
\<close>

theorem video_session_invariant:
  assumes "handshake_stays_complete (ssl_api (vn_ssl env))" "peer_certificate_fixed (ssl_api (vn_ssl env))" "picks_entry re"
    and "vc_width config < 2 ^ 31" "video_reachable env se re fp config start v"
  shows "(let s = rl_session v; a = vs_adaptive s; t = bp_target (vs_videoBwePolicy s) in
      (vs_running s \<longrightarrow> us_socket (vs_mediaSocket s) \<and> vs_recvThread s) \<and>
      (vs_sharingEnabled s \<or> vs_cameraSendingEnabled s \<longrightarrow>
         vs_running s \<and> vs_sendThread s \<and> snd_ssrc (vs_sender s) \<noteq> 0 \<and> ad_width a = bt_width t \<and> ad_height a = bt_height t \<and>
         ad_frameRate a = bt_frameRate t \<and> ad_suspended a = bt_videoSuspended t) \<and>
      (\<forall>running c. vs_capture s = Some (running, c) \<longrightarrow>
         sc_targetWidth c \<le> 2560 \<and> sc_targetHeight c \<le> 1600 \<and> sc_frameRate c \<le> 30)) \<and>
    length (rl_workers v) \<le> 16 \<and> length (rl_nacks v) \<le> 64 \<and> length (rl_keyFrames v) \<le> 64"
  using video_reachable_inv [OF assms]
  by (auto simp: loop_inv_def video_inv_def control_inv_def published_def Let_def requests_inv_def nacks_inv_def
      workers_inv_def capture_ok_def)

section \<open>Nothing in the clear\<close>

text \<open>A datagram that the inbound SRTP context accepts, as media or as control packet.\<close>

definition authentic :: "('ssl, 's) video_env \<Rightarrow> ('ssl, 's, 'f) ScreenShareSession \<Rightarrow> bytes \<Rightarrow> bool" where
  "authentic env s data \<longleftrightarrow> vs_srtpReady s \<and>
     (fst (unprotectRtp (vn_srtp env) data (vs_inboundSrtp s)) \<or> fst (unprotectRtcp (vn_srtp env) data (vs_inboundSrtp s)))"

lemma forged_ignored:
  assumes "recv_video_datagram env re io e data sender v = Some v'" "vs_dtlsStarted (rl_session v)" "\<not> authentic env (rl_session v) data"
  shows "rl_workers v' = rl_workers v \<and> rl_delivered v' = rl_delivered v \<and>
    control_part (rl_session v') = control_part (rl_session v)"
  using assms(1)
proof (cases rule: datagram_cases)
  case dtls
  then show ?thesis by (simp add: control_handle)
next
  case stun
  then show ?thesis by (simp add: control_part_def)
next
  case clear
  then show ?thesis using assms(2) by simp
next
  case (dropped s1)
  have "session_part s1 = session_part (rl_session v)"
    using video_packet_part(3,4) [of env data "rl_session v"] dropped(1) by auto
  then show ?thesis using dropped(2) by (simp add: session_part_def)
next
  case (media rtcp p s1)
  have "authentic env (rl_session v) data"
    using media(1,2) unfolding authentic_def
    by (auto simp: video_unprotectRtp_def video_unprotectRtcp_def Let_def split: if_splits prod.splits)
  then show ?thesis using assms(3) by simp
qed

text \<open>
  No video in the clear, and none from a stranger. In every state a session can reach after DTLS
  was started: keys are in use only when the handshake is complete and the certificate of the server
  has the fingerprint that was announced; whatever an iteration of the send loop, a request for lost
  packets or for a key frame writes to the network came out of the outbound SRTP context, or, before
  there are keys, is a handshake message; and a datagram that does not authenticate under the inbound
  context changes neither the streams, nor the pictures delivered, nor anything the sending of
  video depends on.
\<close>

theorem video_media_secured:
  assumes "handshake_stays_complete (ssl_api (vn_ssl env))" "peer_certificate_fixed (ssl_api (vn_ssl env))" "picks_entry re"
    and "vc_width config < 2 ^ 31" "video_reachable env se re fp config start v" "vs_dtlsStarted (rl_session v)"
  shows "(vs_srtpReady (rl_session v) \<longrightarrow> (\<exists>ssl digest. dc_ssl (vs_dtlsTransport (rl_session v)) = Some ssl \<and>
      SSL_is_init_finished (ssl_api (vn_ssl env)) ssl \<and> X509_peer_digest (ssl_api (vn_ssl env)) ssl = Some digest \<and>
      (NormalizeFingerprint fp = [] \<or> NormalizeFingerprint fp = FormatFingerprint digest))) \<and>
    (\<forall>tm rounds l b l' s'. sendLoop_iteration_video env se tm rounds l (rl_session v) = Some (b, l', s') \<longrightarrow>
      written_only (may_write env (rl_session v)) (vs_mediaSocket (rl_session v)) (vs_mediaSocket s')) \<and>
    (\<forall>clock now. written_only (may_write env (rl_session v)) (vs_mediaSocket (rl_session v))
      (vs_mediaSocket (rl_session (flushPendingKeyFrameRequests env clock (flushPendingNackRequests env now v))))) \<and>
    (\<forall>io e data sender v'. recv_video_datagram env re io e data sender v = Some v' \<longrightarrow>
      authentic env (rl_session v) data \<or>
      rl_workers v' = rl_workers v \<and> rl_delivered v' = rl_delivered v \<and>
      vs_videoBwePolicy (rl_session v') = vs_videoBwePolicy (rl_session v) \<and>
      vs_adaptive (rl_session v') = vs_adaptive (rl_session v))"
proof (intro conjI allI impI)
  have "secure_inv (call_env env) fp (call_view (rl_session v))"
    using video_reachable_inv [OF assms(1-5)] by (simp add: loop_inv_def video_inv_def audio_inv_def)
  then show "\<exists>ssl digest. dc_ssl (vs_dtlsTransport (rl_session v)) = Some ssl \<and>
      SSL_is_init_finished (ssl_api (vn_ssl env)) ssl \<and> X509_peer_digest (ssl_api (vn_ssl env)) ssl = Some digest \<and>
      (NormalizeFingerprint fp = [] \<or> NormalizeFingerprint fp = FormatFingerprint digest)" if "vs_srtpReady (rl_session v)"
    using that by (auto simp: secure_inv_def Let_def dtls_checked_def peer_verified_def Normalize_Format call_view_def)
  show "written_only (may_write env (rl_session v)) (vs_mediaSocket (rl_session v)) (vs_mediaSocket s')"
    if "sendLoop_iteration_video env se tm rounds l (rl_session v) = Some (b, l', s')" for tm rounds l b l' s'
    using writes_iteration [OF that] assms(6) by (simp add: writes_well_def)
  show "written_only (may_write env (rl_session v)) (vs_mediaSocket (rl_session v))
      (vs_mediaSocket (rl_session (flushPendingKeyFrameRequests env clock (flushPendingNackRequests env now v))))" for clock now
    using flush_ok(2) [of env v clock now] assms(6) by (simp add: writes_well_def)
  show "authentic env (rl_session v) data \<or>
      rl_workers v' = rl_workers v \<and> rl_delivered v' = rl_delivered v \<and>
      vs_videoBwePolicy (rl_session v') = vs_videoBwePolicy (rl_session v) \<and>
      vs_adaptive (rl_session v') = vs_adaptive (rl_session v)"
    if "recv_video_datagram env re io e data sender v = Some v'" for io e data sender v'
    using forged_ignored [OF that assms(6)] by (auto simp: control_part_def)
qed

section \<open>A lost packet\<close>

text \<open>
  What becomes of one pending request at the flushes of the loop, at the given times: the decisions
  taken, until the request is gone.
\<close>

fun nack_run :: "u64 list \<Rightarrow> PendingNackRequest \<Rightarrow> (u64 \<times> nack_action) list" where
  "nack_run [] q = []"
| "nack_run (t # ts) q =
     (t, nack_decision t q) #
     (case nack_after t (nq_remoteMediaSsrc q, q) of None \<Rightarrow> [] | Some (_, q1) \<Rightarrow> nack_run ts q1)"

text \<open>The flush treats every stream by itself.\<close>

lemma flush_entry:
  assumes "um_ok (rl_nacks v)"
  shows "map_of (rl_nacks (flushPendingNackRequests env t v)) k =
    Option.bind (map_of (rl_nacks v) k) (\<lambda>q. map_option snd (nack_after t (k, q)))"
proof -
  have n: "rl_nacks (flushPendingNackRequests env t v) = List.map_filter (nack_after t) (rl_nacks v)"
    by (simp add: flushPendingNackRequests_def Let_def)
  have none: "map_of (List.map_filter (nack_after t) m) k = None" if "k \<notin> fst ` set m" for m
    using that by (induction m)
      (auto simp: List.map_filter_simps nack_after_def split: option.splits nack_action.splits)
  have "map_of (List.map_filter (nack_after t) m) k = Option.bind (map_of m k) (\<lambda>q. map_option snd (nack_after t (k, q)))"
    if "um_ok m" for m
    using that
  proof (induction m)
    case (Cons e m)
    obtain k' q where e: "e = (k', q)" by force
    have "map_of (List.map_filter (nack_after t) m) k' = None" if "k = k'"
      using none [of m] Cons.prems that e by (simp add: um_ok_def)
    then show ?case
      using Cons e by (auto simp: List.map_filter_simps nack_after_def um_ok_def split: option.splits nack_action.splits)
  qed (simp add: List.map_filter_simps)
  then show ?thesis using assms n by simp
qed

text \<open>The times of the flushes: the loop waits 20 ms at most and is then delayed by less than 80 ms.\<close>

fun steady :: "u64 \<Rightarrow> u64 list \<Rightarrow> bool" where
  "steady t [] \<longleftrightarrow> True"
| "steady t (x # xs) \<longleftrightarrow> t \<le> x \<and> x - t \<le> 100 \<and> steady x xs"

definition nacks_sent :: "(u64 \<times> nack_action) list \<Rightarrow> nat list" where
  "nacks_sent r = map (\<lambda>(t, a). unat t) (filter (\<lambda>(t, a). a = NackSend) r)"

lemma unat_diff: "a \<le> b \<Longrightarrow> unat (b - a) = unat b - unat a" for a b :: u64
  by (simp add: unat_sub)

lemma since: "(a \<le> b \<and> n \<le> b - a) \<longleftrightarrow> unat a + unat n \<le> unat b" for a b n :: u64
proof (cases "a \<le> b")
  case True
  then have "unat a \<le> unat b" by (simp add: word_le_nat_alt)
  then show ?thesis using True unat_diff [OF True] by (auto simp: word_le_nat_alt)
qed (auto simp: word_le_nat_alt)

lemma steady_step: "t \<le> x \<Longrightarrow> x - t \<le> 100 \<Longrightarrow> unat t \<le> unat x \<and> unat x \<le> unat t + 100" for t x :: u64
  using unat_diff [of t x] by (auto simp: word_le_nat_alt)

text \<open>A request that has been sent \<open>n\<close> times, \<open>T\<close> being the time of the first loss and \<open>t\<close> the last flush.\<close>

definition asked :: "nat \<Rightarrow> nat \<Rightarrow> u64 \<Rightarrow> PendingNackRequest \<Rightarrow> bool" where
  "asked T n t q \<longleftrightarrow> nq_remoteMediaSsrc q \<noteq> 0 \<and> nq_missingSequences q \<noteq> [] \<and> unat (nq_firstRequestedAtMs q) = T \<and>
     unat (nq_attempts q) = n \<and> 1 \<le> n \<and> T + 60 * (n - 1) \<le> unat (nq_lastSentAtMs q) \<and>
     unat (nq_lastSentAtMs q) \<le> unat t \<and> unat t < unat (nq_lastSentAtMs q) + 60 \<and>
     unat (nq_lastSentAtMs q) \<le> T + 100 + (n - 1) * 160 \<and> unat t < T + 1000"

lemma attempts_next: "unat (a :: u32) < 100 \<Longrightarrow> unat (a + 1) = unat a + 1"
  by (simp add: unat_word_ariths)

lemma asked_step:
  assumes "asked T n t q" "t \<le> x" "x - t \<le> 100"
  shows "T + 1000 \<le> unat x \<and> nack_decision x q = NackFallback \<or>
    unat x < T + 1000 \<and> unat (nq_lastSentAtMs q) + 60 \<le> unat x \<and> nack_decision x q = NackSend \<and> n < 17 \<and>
      asked T (Suc n) x (q\<lparr>nq_lastSentAtMs := x, nq_attempts := nq_attempts q + 1\<rparr>) \<or>
    unat x < T + 1000 \<and> nack_decision x q = NackKeep \<and> asked T n x q"
proof -
  let ?L = "unat (nq_lastSentAtMs q)"
  have x: "unat t \<le> unat x" "unat x \<le> unat t + 100" using steady_step [OF assms(2,3)] by simp_all
  note q = assms(1) [unfolded asked_def]
  have fb: "nq_firstRequestedAtMs q \<le> x \<and> 1000 \<le> x - nq_firstRequestedAtMs q \<longleftrightarrow> T + 1000 \<le> unat x"
    using since [of "nq_firstRequestedAtMs q" x 1000] q by simp
  have rs: "nq_lastSentAtMs q \<le> x \<and> 60 \<le> x - nq_lastSentAtMs q \<longleftrightarrow> ?L + 60 \<le> unat x"
    using since [of "nq_lastSentAtMs q" x 60] by simp
  have n3: "3 \<le> nq_attempts q \<longleftrightarrow> 3 \<le> n" using q by (simp add: word_le_nat_alt)
  have n0: "nq_attempts q \<noteq> 0" using q by auto
  have late: "3 \<le> n" if "T + 1000 \<le> unat x"
  proof -
    have "T + 900 \<le> unat t" using that x by linarith
    then show ?thesis using q by linarith
  qed
  have early: "n < 17" if "unat x < T + 1000" "?L + 60 \<le> unat x" using q that by linarith
  have d: "nack_decision x q = (if T + 1000 \<le> unat x then NackFallback else if ?L + 60 \<le> unat x then NackSend else NackKeep)"
    unfolding nack_decision_def kNackAttemptsBeforePli_def kNackPliFallbackMs_def kNackRetryIntervalMs_def
    using q fb rs n3 n0 late by auto
  show ?thesis
  proof (cases "T + 1000 \<le> unat x")
    case True
    then show ?thesis using d by simp
  next
    case False
    show ?thesis
    proof (cases "?L + 60 \<le> unat x")
      case True
      have n: "n < 17" using early False True by simp
      have "asked T (Suc n) x (q\<lparr>nq_lastSentAtMs := x, nq_attempts := nq_attempts q + 1\<rparr>)"
        unfolding asked_def using q x True False n attempts_next [of "nq_attempts q"] by (auto simp: algebra_simps)
      then show ?thesis using d False True n by simp
    next
      case keep: False
      have "asked T n x q" unfolding asked_def using q x keep False by auto
      then show ?thesis using d False keep by simp
    qed
  qed
qed

lemma nack_run_asked:
  "asked T n t q \<Longrightarrow> steady t ts \<Longrightarrow>
     (\<forall>x \<in> set (nacks_sent (nack_run ts q)). unat (nq_lastSentAtMs q) + 60 \<le> x) \<and>
     sorted_wrt (\<lambda>a b. a + 60 \<le> b) (nacks_sent (nack_run ts q)) \<and> n + length (nacks_sent (nack_run ts q)) \<le> max n 17 \<and>
     (ts \<noteq> [] \<and> T + 1000 \<le> unat (last ts) \<longrightarrow> snd (last (nack_run ts q)) = NackFallback)"
proof (induction ts arbitrary: n t q)
  case Nil
  then show ?case by (simp add: nacks_sent_def)
next
  case (Cons x xs)
  have st: "t \<le> x" "x - t \<le> 100" "steady x xs" using Cons.prems(2) by simp_all
  have more: "T + 1000 \<le> unat (last (x # xs)) \<Longrightarrow> unat x < T + 1000 \<Longrightarrow> xs \<noteq> [] \<and> T + 1000 \<le> unat (last xs)" by (cases "xs = []") auto
  from asked_step [OF Cons.prems(1) st(1,2)] consider
    (fallback) "nack_decision x q = NackFallback"
    | (send) "unat x < T + 1000" "unat (nq_lastSentAtMs q) + 60 \<le> unat x" "nack_decision x q = NackSend" "n < 17"
      "asked T (Suc n) x (q\<lparr>nq_lastSentAtMs := x, nq_attempts := nq_attempts q + 1\<rparr>)"
    | (keep) "unat x < T + 1000" "nack_decision x q = NackKeep" "asked T n x q" by blast
  then show ?case
  proof cases
    case fallback
    then show ?thesis by (simp add: nack_after_def nacks_sent_def)
  next
    case send
    let ?q = "q\<lparr>nq_lastSentAtMs := x, nq_attempts := nq_attempts q + 1\<rparr>"
    have r: "nack_run (x # xs) q = (x, NackSend) # nack_run xs ?q" using send(3) by (simp add: nack_after_def)
    have s: "nacks_sent (nack_run (x # xs) q) = unat x # nacks_sent (nack_run xs ?q)" unfolding r by (simp add: nacks_sent_def)
    have ne: "xs \<noteq> [] \<Longrightarrow> nack_run xs ?q \<noteq> []" by (cases xs) simp_all
    note ih = Cons.IH [OF send(5) st(3)]
    have "snd (last (nack_run (x # xs) q)) = NackFallback" if "T + 1000 \<le> unat (last (x # xs))"
      using ih ne more [OF that send(1)] unfolding r by auto
    then show ?thesis unfolding s using ih send(2,4) by fastforce
  next
    case keep
    have r: "nack_run (x # xs) q = (x, NackKeep) # nack_run xs q" using keep(2) by (simp add: nack_after_def)
    have s: "nacks_sent (nack_run (x # xs) q) = nacks_sent (nack_run xs q)" unfolding r by (simp add: nacks_sent_def)
    have ne: "xs \<noteq> [] \<Longrightarrow> nack_run xs q \<noteq> []" by (cases xs) simp_all
    note ih = Cons.IH [OF keep(3) st(3)]
    have "snd (last (nack_run (x # xs) q)) = NackFallback" if "T + 1000 \<le> unat (last (x # xs))"
      using ih ne more [OF that keep(1)] unfolding r by auto
    then show ?thesis unfolding s using ih by simp
  qed
qed

text \<open>
  A lost packet is asked for, but not for ever. When a packet of a stream is found missing at the
  time \<open>t\<close> and the receive loop comes round at least every 100 ms, retransmissions are requested at
  least 60 ms apart and at most 17 times; and unless the stream delivers a picture before, the loop
  gives up after one second and asks for a key frame instead.
\<close>

theorem nack_gives_way:
  assumes "nq_remoteMediaSsrc q \<noteq> 0" "nq_missingSequences q \<noteq> []" "nq_attempts q = 0" "nq_firstRequestedAtMs q = t" "steady t ts"
  shows "sorted_wrt (\<lambda>a b. a + 60 \<le> b) (nacks_sent (nack_run ts q)) \<and> length (nacks_sent (nack_run ts q)) \<le> 17 \<and>
    (ts \<noteq> [] \<and> unat t + 1000 \<le> unat (last ts) \<longrightarrow> snd (last (nack_run ts q)) = NackFallback)"
proof (cases ts)
  case Nil
  then show ?thesis by (simp add: nacks_sent_def)
next
  case (Cons x xs)
  let ?q = "q\<lparr>nq_lastSentAtMs := x, nq_attempts := 1\<rparr>"
  have st: "t \<le> x" "x - t \<le> 100" "steady x xs" using assms(5) Cons by simp_all
  have x: "unat t \<le> unat x" "unat x \<le> unat t + 100" using steady_step [OF st(1,2)] by simp_all
  have "nack_decision x q = NackSend" using assms(1-3) by (simp add: nack_decision_def)
  then have r: "nack_run ts q = (x, NackSend) # nack_run xs ?q" using Cons assms(3) by (simp add: nack_after_def)
  have a: "asked (unat t) 1 x ?q" using assms x by (simp add: asked_def)
  note run = nack_run_asked [OF a st(3)]
  have s: "nacks_sent (nack_run ts q) = unat x # nacks_sent (nack_run xs ?q)" unfolding r by (simp add: nacks_sent_def)
  have ne: "xs \<noteq> [] \<Longrightarrow> nack_run xs ?q \<noteq> []" by (cases xs) simp_all
  have "snd (last (nack_run ts q)) = NackFallback" if "unat t + 1000 \<le> unat (last ts)"
  proof -
    have "xs \<noteq> []" using that x Cons by auto
    moreover from this have "last ts = last xs" using Cons by simp
    ultimately show ?thesis using run ne that unfolding r by simp
  qed
  then show ?thesis unfolding s using run by simp
qed

section \<open>Examples\<close>

definition demo_video :: "(nat, unit) video_env" where
  "demo_video = \<lparr> vn_qs = demo_qs, vn_rnd = (\<lambda>_. 0), vn_ssl = demo_capi, vn_srtp = demo_srtp, vn_profile = SoftwareE2E,
     vn_syntheticCamera = False \<rparr>"

definition demo_video_config :: ScreenShareSessionConfig where
  "demo_video_config = \<lparr> vc_localAddress = [], vc_localPort = 0, vc_peerAddress = ''p'', vc_peerPort = 4000, vc_width = 1280,
     vc_height = 720, vc_frameRate = 30, vc_bitrate = 1500000, vc_encoderPreset = Realtime, vc_cameraPayloadType = 96,
     vc_payloadType = 97, vc_maxPayloadBytes = 1200 \<rparr>"

definition demo_callbacks :: recv_env where
  "demo_callbacks = \<lparr> rn_callbackWithSsrc = True, rn_callback = False, rn_first = (\<lambda>m. fst (hd m)) \<rparr>"

definition demo_video_encoder :: "unit video_encoder" where
  "demo_video_encoder = \<lparr> ve_width = \<lambda>_. 1280, ve_height = \<lambda>_. 720, ve_frameRate = \<lambda>_. 30, ve_bitrate = \<lambda>_. 1500000,
     ve_configure = \<lambda>_ _ _ _ _ _ _ e. (True, e), ve_setBitrate = \<lambda>_ e. (True, e), ve_setPayloadType = \<lambda>_ e. e,
     ve_requestKeyframe = \<lambda>e. e, ve_encode = \<lambda>_ e. (Inl [], e) \<rparr>"

definition demo_sending :: "unit send_env" where
  "demo_sending = \<lparr> se_encoder = demo_video_encoder, se_profileForced = False, se_preview = False,
     se_scaleAvFrame = (\<lambda>_ _ _. None), se_scaleScreenFrame = (\<lambda>_ _ _. None), se_cloned = True \<rparr>"

definition demo_new :: "(nat, unit, nat, unit) recv_loop" where
  "demo_new = recv_loop_new (ScreenShareSession_new demo_video_config 0)"

definition demo_captures :: capture_results where
  "demo_captures = \<lparr> cp_screen = True, cp_camera = False, cp_fallback = False, cp_cameraError = [] \<rparr>"

definition demo_shared :: "(bool \<times> (nat, unit, nat) ScreenShareSession) option" where
  "demo_shared = setSharingEnabled demo_video demo_captures [0, 7] 5 6 True (rl_session demo_new)"

lemma demo_shared_ok:
  "map_option (\<lambda>(ok, s). (ok, vs_sharingEnabled s, us_peerValid (vs_mediaSocket s))) demo_shared = Some (True, True, True)"
  by code_simp

lemma demo_video_ok:
  "handshake_stays_complete (ssl_api (vn_ssl demo_video))" "peer_certificate_fixed (ssl_api (vn_ssl demo_video))"
  "picks_entry demo_callbacks" "vc_width demo_video_config < 2 ^ 31"
  using demo_ssl_ok by (auto simp: demo_video_def demo_capi_def picks_entry_def demo_callbacks_def demo_video_config_def)

theorem video_session_invariant_witness:
  "\<exists>s. demo_shared = Some (True, s) \<and> vs_sharingEnabled s \<and> us_socket (vs_mediaSocket s) \<and> vs_sendThread s \<and>
     snd_ssrc (vs_sender s) \<noteq> 0"
proof -
  obtain s where s: "demo_shared = Some (True, s)" "vs_sharingEnabled s" using demo_shared_ok by auto
  have "session_step demo_video ''ab:01'' (rl_session demo_new) s"
    using session_step.sharing s(1) unfolding demo_shared_def by blast
  then have "video_step demo_video demo_sending demo_callbacks ''ab:01'' demo_new (demo_new\<lparr>rl_session := s\<rparr>)"
    by (rule video_step.session)
  then have "video_reachable demo_video demo_sending demo_callbacks ''ab:01'' demo_video_config 0 (demo_new\<lparr>rl_session := s\<rparr>)"
    unfolding demo_new_def by (rule r_into_rtranclp)
  from video_session_invariant [OF demo_video_ok this] show ?thesis using s by (auto simp: Let_def)
qed

text \<open>The session after the handshake: started, DTLS begun, and the server's answer read by the receive loop.\<close>

definition demo_io :: "unit recv_io" where
  "demo_io = \<lparr> ri_nackMs = 1, ri_keyMs = (\<lambda>_. 1), ri_pruneMs = 1, ri_workerMs = 1, ri_arrival = 0, ri_planMs = 1,
     ri_eventMs = 1, ri_rounds = (\<lambda>_. []) \<rparr>"

definition demo_started :: "(nat, unit, nat) ScreenShareSession" where
  "demo_started = snd (ScreenShareSession_start demo_video (rl_session demo_new))"

definition demo_keyed :: "(bool \<times> (nat, unit, nat, unit) recv_loop) option" where
  "demo_keyed = recvLoop_iteration_video demo_video demo_callbacks demo_io True demo_arrival
     (demo_new\<lparr>rl_session := snd (video_startDtlsSrtp demo_video 0 ''ab:01'' demo_started)\<rparr>)"

lemma demo_keyed_ok:
  "map_option (\<lambda>(b, v). (b, vs_srtpReady (rl_session v), vs_dtlsStarted (rl_session v))) demo_keyed = Some (True, True, True)"
  by code_simp

lemma demo_meanwhile: "meanwhile demo_video demo_arrival"
  using demo_arrives
  by (auto simp: meanwhile_def demo_video_def demo_audio_def demo_arrival_def enqueuePendingDatagramsFromSocket_def Let_def
      captureSocketError_def clearSocketError_def setSocketError_def)

theorem video_media_secured_witness:
  "\<exists>v ssl digest. demo_keyed = Some (True, v) \<and> vs_srtpReady (rl_session v) \<and>
     dc_ssl (vs_dtlsTransport (rl_session v)) = Some ssl \<and> X509_peer_digest demo_ssl ssl = Some digest \<and>
     NormalizeFingerprint ''ab:01'' = FormatFingerprint digest"
proof -
  let ?reach = "video_reachable demo_video demo_sending demo_callbacks ''ab:01'' demo_video_config 0"
  let ?s = "snd (video_startDtlsSrtp demo_video 0 ''ab:01'' demo_started)"
  have "?reach demo_new" unfolding demo_new_def by (rule rtranclp.rtrancl_refl)
  from reachable_session [OF this session_step.start [OF surjective_pairing]]
  have "?reach (demo_new\<lparr>rl_session := demo_started\<rparr>)" unfolding demo_started_def .
  from reachable_session [OF this session_step.dtls [where now = 0, OF surjective_pairing]]
  have r: "?reach (demo_new\<lparr>rl_session := ?s\<rparr>)" by simp
  obtain v where v: "demo_keyed = Some (True, v)" "vs_srtpReady (rl_session v)" "vs_dtlsStarted (rl_session v)"
    using demo_keyed_ok by auto
  have "video_step demo_video demo_sending demo_callbacks ''ab:01'' (demo_new\<lparr>rl_session := ?s\<rparr>) v"
    by (rule video_step.recv [OF v(1) [unfolded demo_keyed_def] _ demo_meanwhile]) (simp add: demo_io_def)
  from reachable_step [OF r this] have reach: "?reach v" .
  have "NormalizeFingerprint ''ab:01'' \<noteq> []" by code_simp
  then show ?thesis
    using video_media_secured [OF demo_video_ok reach v(3)] v(1,2) by (auto simp: demo_video_def demo_capi_def)
qed

definition demo_request :: PendingNackRequest where
  "demo_request = \<lparr> nq_remoteMediaSsrc = 7, nq_missingSequences = [4], nq_firstRequestedAtMs = 1000, nq_lastSentAtMs = 0,
     nq_attempts = 0 \<rparr>"

theorem nack_gives_way_witness:
  "snd (last (nack_run [1020, 1100, 1200, 1300, 1400, 1500, 1600, 1700, 1800, 1900, 2000] demo_request)) = NackFallback"
  using nack_gives_way [of demo_request 1000 "[1020, 1100, 1200, 1300, 1400, 1500, 1600, 1700, 1800, 1900, 2000]"]
  by (simp add: demo_request_def)

section \<open>Where the code falls short\<close>

text \<open>The limit of 32 sequence numbers for a request is none: a full request still grows by one with every report.\<close>

lemma missing_limit_exceeded: "32 \<le> length known \<Longrightarrow> n \<notin> set known \<Longrightarrow> length (add_missing [n] known) = Suc (length known)"
  by simp

text \<open>
  With screen and camera on, switching the screen off ends the thread that captures the camera and
  closes the ring for good: the camera stays switched on, and sharing the screen again starts no
  thread either.
\<close>

lemma camera_dies_with_sharing:
  assumes "vs_sharingEnabled s" "vs_cameraSendingEnabled s" "vs_captureThread s" "vs_running s"
    and "setSharingEnabled env cp vals t1 t2 False s = Some (ok, s')"
    and "setSharingEnabled env cp vals t1 t2 True s' = Some (True, s'')"
  shows "vs_cameraSendingEnabled s' \<and> \<not> vs_captureThread s' \<and> vf_closed (vs_sendFrameRingBuffer s') \<and>
    vs_sharingEnabled s'' \<and> \<not> vs_captureThread s'' \<and> vf_closed (vs_sendFrameRingBuffer s'')"
proof -
  have s': "vs_cameraSendingEnabled s' \<and> \<not> vs_captureThread s' \<and> vf_closed (vs_sendFrameRingBuffer s') \<and> \<not> vs_sharingEnabled s' \<and> vs_running s'"
    using assms(1-5)
    by (auto simp: setSharingEnabled_def Let_def stop_sending_def planDisableSharing_def planSendThreadStop_def
        stopCaptureLocked_def frames_close_def)
  have cap: "vs_captureThread s2 = vs_captureThread s1 \<and> vs_sendFrameRingBuffer s2 = vs_sendFrameRingBuffer s1"
    if "startCaptureLocked env cp True s1 = (ok1, s2)" for s1 s2 :: "('a, 'b, 'c) ScreenShareSession" and ok1
    using that by (auto simp: startCaptureLocked_def Let_def video_setError_def split: if_splits prod.splits)
  show ?thesis
    using s' assms(6) cap [of "s'\<lparr>vs_disableHardwareScreenCapture := False\<rparr>"]
    by (auto simp: setSharingEnabled_def Let_def planEnableSharing_def split: if_splits prod.splits)
qed

text \<open>
  A packet sent before DTLS was started is kept as it is, starting DTLS keeps it, and it is sent again
  unencrypted when the other side asks for it, although there may be keys by then.
\<close>

lemma cleartext_cached:
  assumes "\<not> vs_dtlsStarted s" "video_send env (vp_bytes p) peer s = (int (length (vp_bytes p)), s2)"
    "send_frame_packets env clock peer [p] l s = (l', s')"
  shows "vs_rtcpActionPipeline s' = cacheSentPacket (vp_sequenceNumber p) (vp_bytes p) (vs_rtcpActionPipeline s2)"
  using assms by (auto simp: video_protectRtp_def Let_def)

lemma cache_survives_dtls: "vs_rtcpActionPipeline (snd (video_startDtlsSrtp env now fp s)) = vs_rtcpActionPipeline s"
proof -
  have one: "vs_rtcpActionPipeline (snd (video_send env d t w)) = vs_rtcpActionPipeline w" for d t and w :: "('a, 'b, 'c) ScreenShareSession"
    by (simp add: video_send_def case_prod_beta Let_def)
  have all: "vs_rtcpActionPipeline (snd (video_send_packets env e ps t w)) = vs_rtcpActionPipeline w" for e ps t
    and w :: "('a, 'b, 'c) ScreenShareSession"
    by (induction ps arbitrary: w) (simp_all add: case_prod_beta Let_def one video_setError_def)
  have "vs_rtcpActionPipeline (snd (video_sendCachedDtlsHandshake env now t w)) = vs_rtcpActionPipeline w" for t
    and w :: "('a, 'b, 'c) ScreenShareSession"
    by (simp add: video_sendCachedDtlsHandshake_def case_prod_beta Let_def all)
  then show ?thesis by (simp add: video_startDtlsSrtp_def case_prod_beta Let_def video_setError_def)
qed

lemma retransmitted_as_cached:
  assumes "List.find (\<lambda>(n, _). n = number) (rev (ap_sentPacketCache (vs_rtcpActionPipeline s))) = Some (number, data)" "data \<noteq> []"
    and "us_socket (vs_mediaSocket s)" "us_peerValid (vs_mediaSocket s)" "UdpEndpoint_isValid (us_peer (vs_mediaSocket s))"
      "\<not> tr_enabled (us_turnRelay (vs_mediaSocket s))"
  shows "us_written (vs_mediaSocket (snd (video_retransmit env [number] handled s))) =
    us_written (vs_mediaSocket s) @ [(data, us_peer (vs_mediaSocket s))]"
  using assms
  by (auto simp: retransmitPacket_def peer_view_def sendToPeer_def sendTo_def native_write_def Let_def video_setError_def
      captureSocketError_def clearSocketError_def setSocketError_def split: prod.splits)

end
