(* ===== verification/Spec2Isabelle.thy ===== *)
theory Spec2Isabelle
  imports MediaSafety MediaFeedback SfuDaemon Signaling SecureChannel VideoCall ClientQueues
begin

text \<open>
  Verification of a video-conference system: its media server, a selective forwarding unit
  (\<open>meeting-server/sfu\<close>), and the media side of its desktop client (\<open>plasma-hawking/src\<close>). Paths
  below are relative to \<open>src/\<close> of the repository.

  \<^bold>\<open>The program.\<close> Clients join a room through a signaling server and exchange audio and video through
  the media server. A client has one audio session and one video session, each with a UDP socket, an
  optional TURN relay, a DTLS client and two SRTP contexts. It sends RTP to the media server, which
  decrypts a packet with the keys of the sender's transport, looks up the routes of its SSRC, rewrites
  the SSRC for each subscriber and encrypts it again. Receivers report losses and bandwidth by RTCP;
  the server retransmits from its buffers, limits and aggregates the reports and passes them on, and
  the sender adapts resolution, frame rate and bit rate. The signaling server controls the media server
  over a framed TCP channel, and the media server reports quality back to it.

  \<^bold>\<open>How code is translated.\<close> A class is a \<open>record\<close> with one field per member, an enumeration a
  \<open>datatype\<close>, and each method one function from the old state to results and new state. Unsigned
  integers are words of their width; \<open>int\<close> values are integers where their range excludes overflow.
  Buffers are lists of bytes read through \<open>byte_at\<close>: an outer \<open>None\<close> is a read outside the buffer, a
  null dereference or other undefined behaviour, so that a theorem stating \<open>Some\<close> states memory safety.
  Error returns are options or sums with the error text. An \<open>unordered_map\<close> is an association list;
  where the order of iteration or \<open>begin()\<close> matters it is a parameter (\<open>picks_entry\<close>). A section under
  a mutex is one step; where code releases a lock in between, the steps of other threads may come in
  between. The body of a thread is one iteration per step. Clock readings, random numbers and the
  results of socket calls are arguments.

  OpenSSL, libsrtp2, Qt, protobuf code, FFmpeg, the sound and capture devices are arguments (\<open>openssl\<close>,
  \<open>client_openssl\<close>, \<open>libsrtp\<close>, \<open>qt_text\<close>, \<open>qt_crypto\<close>, \<open>qt_socket\<close>, \<open>protobuf\<close>, \<open>signal_pb\<close>,
  \<open>video_encoder\<close> and others). What a theorem needs of them is a named hypothesis:
  \<open>handshake_stays_complete\<close> and \<open>peer_certificate_fixed\<close> (a finished handshake stays finished and its
  peer certificate does not change), \<open>srtp_channel\<close> (a receiving context for the same key reads what the
  sending one protected). Each is instantiated by concrete functions in the witnesses.

  \<^bold>\<open>Foundations.\<close>
  \<^item> \<open>Prelude\<close>: words, byte readers and writers, association lists, the simplification
    collections, and two locales: \<open>state_machine\<close> (initial states and steps keep an invariant), which every component with
    a step relation interprets and from which its facts on reachable states follow, and \<open>simulation\<close>, which
    extends it by an abstract machine and is interpreted for the daemon and the media ingress.
  \<^item> \<open>Float32\<close>: rounding of single-precision products, for the bandwidth estimators.

  \<^bold>\<open>Media server.\<close>
  \<^item> \<open>NackBuffer\<close>, \<open>RtpParser\<close>, \<open>RtcpHandler\<close>, \<open>RtpRouter\<close> (\<open>sfu/rtp\<close>): retransmission buffer,
    parsers and router. The buffer implements an abstract bounded store (locale \<open>packet_store\<close>); the
    parsers stay in bounds and the compound parser terminates and tiles a prefix of its input; routing
    reaches exactly the subscribers with only the SSRC changed.
  \<^item> \<open>BandwidthEstimator\<close> (\<open>sfu/bwe\<close>): arithmetic defined, recommendation within the bounds.
  \<^item> \<open>Room\<close>, \<open>RoomManager\<close> (\<open>sfu/room\<close>): members, subscriptions, publisher limit.
  \<^item> \<open>IceLiteSession\<close>, \<open>DtlsTransport\<close>, \<open>SrtpSession\<close>, \<open>ParticipantTransport\<close>, \<open>TransportRegistry\<close>
    (\<open>sfu/server\<close>): the secure transport of a participant; keys exist only after a handshake with
    the announced peer.
  \<^item> \<open>MediaCodec\<close>, \<open>MediaIngress\<close>, \<open>MediaHandlers\<close>, \<open>MediaFeedback\<close>, \<open>MediaSafety\<close>
    (\<open>sfu/server/MediaIngress.cpp\<close>): the object that joins rooms, transports and router, each control
    call and each datagram a step of \<open>ingress_reachable\<close>. The invariant \<open>ingress_inv\<close>; media of a
    transport's SSRC only from its verified peer; rate limits (locale \<open>rate_limiter\<close>, interpreted for
    picture-loss and bandwidth messages).
  \<^item> \<open>RpcProtocol\<close>, \<open>RpcService\<close>, \<open>RpcServer\<close>, \<open>SfuDaemon\<close> (\<open>sfu/server\<close>): control channel and
    process. A connection is served however its bytes are cut; every run of the daemon is a run of
    the ingress; quality reports are bounded.

  \<^bold>\<open>Client, shared parts.\<close>
  \<^item> \<open>Signaling\<close> (\<open>net/signaling\<close>): frames, connection, back-off; a stream of bytes gives the signals of
    its frames whatever the chunks, and an impossible header ends the connection.
  \<^item> \<open>ClientRtp\<close>, \<open>ClientRtcp\<close>, \<open>H264Payload\<close>, \<open>JitterBuffer\<close> (\<open>net/media\<close>): packets and their round trips,
    agreement with the server's parsers, packetisation of frames and their reassembly, reordering.
  \<^item> \<open>IceClient\<close>, \<open>UdpPeerSocket\<close> (\<open>net/ice\<close>, \<open>net/media/UdpPeerSocket.h\<close>): STUN, TURN and the media socket.
    The server's STUN codec answers the client; a relay is set up only after authenticated answers
    and is then transparent.
  \<^item> \<open>ClientSecurity\<close> (\<open>net/media/DtlsTransportClient.cpp\<close>, \<open>security/SRTPContext.cpp\<close>), \<open>ClientBandwidth\<close>,
    \<open>ClientQueues\<close> (locale \<open>bounded_channel\<close>, interpreted for both queues).

  \<^bold>\<open>Client, sessions\<close> (\<open>av/session\<close>).
  \<^item> \<open>AudioSession\<close>, \<open>AudioMedia\<close>: \<open>AudioCallSession.cpp\<close> with its two loops; nothing in the clear once
    DTLS was started, total receive loop, lossless playout. \<open>SecureChannel\<close> joins it to the server's
    transport: each side reads back what the other protects.
  \<^item> \<open>VideoFeedback\<close>, \<open>VideoBwePolicy\<close>: RTCP feedback of the video session and the policy that adapts it:
    bounded targets, reaction to loss, recovery.
  \<^item> \<open>VideoFrames\<close>, \<open>VideoReceive\<close>: pictures and previews; decoding threads and streams, which stay separate.
  \<^item> \<open>VideoSources\<close>, \<open>VideoSession\<close>, \<open>VideoSendLoop\<close>, \<open>VideoRecvLoop\<close>: what is sent and from where, the session
    \<open>ScreenShareSession\<close>, and its three threads. \<open>VideoSecurity\<close> shows that its transport makes the moves
    of the audio session's, so that the audio facts carry over. \<open>VideoCall\<close> takes operations, threads and
    workers in any interleaving (\<open>video_step\<close>, \<open>video_reachable\<close>): the invariant of the session, no video
    in the clear and none from strangers, and what becomes of a lost packet.

  This theory holds the properties that span components: the daemon refines the ingress, a frame travels
  from one client through the server to another, and a lost packet is repaired.

  \<^bold>\<open>Bounds and termination.\<close> There is no fuel: loops are structural or have a measure, and a thread
  is a relation between states. Waits with a time-out are lists of wake-ups, whose end is the time-out.
  Hypotheses on sizes come from the types: configured widths below \<open>2 ^ 31\<close>, lengths of datagrams.

  \<^bold>\<open>Not modelled.\<close> The user interface and its controllers, the renderer and the smoke-test driver, which
  are glue around Qt; the D3D11 branches of the Windows build; the wrappers of FFmpeg and of the sound,
  screen and camera devices, which appear as parameters; telemetry and log texts; the client's
  database. The signaling server is written in another language. Memory ordering below the level of the
  mutexes and atomics is not modelled, nor is real time: a liveness statement says what happens given the
  clock readings it names.
\<close>

section \<open>Properties of the whole media server\<close>

text \<open>
  The process is safe as a whole. Whatever connections, datagrams, reporter rounds, starts
  and stops occur, in whatever order, with whatever contents, the state of its media ingress is
  one the ingress reaches by its own operations; so, with a sound TLS library, the invariant of
  the ingress holds in every state the daemon can reach.
\<close>

theorem sfu_process_simulates_ingress:
  assumes "daemon_reachable env pb net d"
  shows "ingress_reachable env (dmn_ingress d) \<and> (trusted_ssl env \<longrightarrow> ingress_inv env (dmn_ingress d))"
  using daemon_reachable_ok(2) [OF assms] ingress_reachable_inv by blast

theorem sfu_process_simulates_ingress_witness:
  "\<exists>d. dmn_ingress d = svc_mediaIngress (RpcService_new (MediaIngress_new RoomManager_new True 4 500)) \<and>
     ingress_inv demo_env (dmn_ingress d)"
proof -
  let ?d = "SfuDaemon_new SfuDaemonConfig_default True 4 :: (nat, unit) SfuDaemon"
  have "daemon_reachable demo_env demo_pb (\<lambda>_ _. None) ?d" unfolding daemon_reachable_def by blast
  from sfu_process_simulates_ingress [OF this] demo_trusted have "ingress_inv demo_env (dmn_ingress ?d)" by blast
  then show ?thesis by (intro exI [of _ ?d]) (simp add: SfuDaemon_new_def)
qed

section \<open>A frame on its way from one client to another\<close>

text \<open>What the router forwards, packet after packet, as pairs of the subscriber's callback and the bytes.\<close>

fun route_stream :: "bytes list \<Rightarrow> 'f RtpRouter \<Rightarrow> ('f \<times> bytes) list" where
  "route_stream [] R = []"
| "route_stream (packet # packets) R = (case Route packet R of (ok, R', calls) \<Rightarrow> calls @ route_stream packets R')"

lemma route_stream_sent:
  assumes "map_of (rt_publishers R) (snd_ssrc s) = Some r"
    and "\<forall>sub \<in> set (route_subscribers r). sub_forward sub \<noteq> None"
    and "filter (\<lambda>sub. sub_forward sub = Some f) (route_subscribers r) = [sub]"
  shows "map snd (filter (\<lambda>c. fst c = f) (route_stream (sent_bytes pt ts payloads s) R)) =
    sent_bytes pt ts payloads (setSSRC (sub_rewrittenSsrc sub) s)"
  using assms
proof (induction payloads arbitrary: s R r)
  case (Cons payload payloads)
  let ?m = "payloads = []" and ?w = "sub_rewrittenSsrc sub"
  let ?p = "fst (buildPacket pt ?m ts payload s)" and ?s = "s\<lparr>snd_sequence := snd_sequence s + 1\<rparr>"
  define r' where "r' = r\<lparr>route_nack := NackBuffer_Store (snd_sequence s) ?p (route_nack r)\<rparr>"
  define R' where "R' = R\<lparr>rt_publishers := AList.update (snd_ssrc s) r' (rt_publishers R)\<rparr>"
  have route: "Route ?p R = (True, R', forward_all (route_subscribers r) ?p)"
    using Route_hit [OF parse_built] Cons.prems(1) by (simp add: r'_def R'_def)
  have "map snd (filter (\<lambda>c. fst c = f) (forward_all (route_subscribers r) ?p)) =
      map (\<lambda>sub. RewriteSsrc (sub_rewrittenSsrc sub) ?p) (filter (\<lambda>sub. sub_forward sub = Some f) (route_subscribers r))"
    unfolding forward_all_eq [OF Cons.prems(2)] filter_map map_map comp_def fst_conv snd_conv
    using Cons.prems(2) by (intro arg_cong2 [where f = map] filter_cong) auto
  moreover have "map snd (filter (\<lambda>c. fst c = f) (route_stream (sent_bytes pt ts payloads ?s) R')) =
      sent_bytes pt ts payloads (setSSRC ?w ?s)"
    using Cons.prems by (intro Cons.IH [of _ _ r']) (simp_all add: R'_def r'_def table_simps)
  moreover have "setSSRC ?w ?s = (setSSRC ?w s)\<lparr>snd_sequence := snd_sequence (setSSRC ?w s) + 1\<rparr>"
    by (cases s) (simp add: setSSRC_def)
  ultimately show ?case using Cons.prems(3) by (simp add: route RewriteSsrc_built)
qed simp

text \<open>
  C12. Video reaches the other participants unchanged. A client cuts a frame into packets; the media
  server routes them, in any state it can reach in which the client's stream is registered, to a
  subscriber; the subscriber's client assembles what it is sent into exactly one access unit, which
  holds the NAL units of the frame with the frame's time stamp and payload type, although every
  packet now carries the stream identifier of the route.
\<close>

theorem video_through_server:
  assumes "packetizeEncodedFrame encoded frameRate maxBytes s = (Inr packets, s')" "3 \<le> maxBytes"
    and "\<forall>n \<in> set (splitAnnexBNalus (ef_payload encoded)). n ! 0 AND 0x1F \<noteq> 28"
    and "router_step\<^sup>*\<^sup>* (RtpRouter_new c) R" "map_of (rt_publishers R) (snd_ssrc s) = Some r"
    and "filter (\<lambda>sub. sub_forward sub = Some f) (route_subscribers r) = [sub]"
    and "ts = frame_timestamp encoded frameRate" "awaits a (snd_sequence s) ts"
  shows "fst (receive_all (map snd (filter (\<lambda>c. fst c = f) (route_stream (map vp_bytes packets) R))) a) =
      replicate (length packets - 1) (None, False, []) @
        [(Some \<lparr> au_payload = concat (map (append start_code) (splitAnnexBNalus (ef_payload encoded))),
                 au_pts = uint ts, au_payloadType = ef_payloadType encoded AND 0x7F \<rparr>, False, [])]"
proof -
  note packets = packetize_bytes [OF assms(1)]
  have "\<forall>sub \<in> set (route_subscribers r). sub_forward sub \<noteq> None"
    using router_invD [OF router_reachable_inv [OF assms(4)] assms(5)] by (simp add: route_ok_def)
  note routed = route_stream_sent [OF assms(5) this assms(6)]
  have "awaits a (snd_sequence (setSSRC (sub_rewrittenSsrc sub) s)) ts" using assms(8) by (simp add: setSSRC_def)
  from receive_frame [OF refl packets(1) assms(2,3) this] show ?thesis
    by (simp add: packets(2,3) routed assms(7))
qed

definition demo_server :: "nat RtpRouter" where
  "demo_server = snd (AddSubscriber 7 5 (Some 1) (snd (RegisterPublisher 7 (RtpRouter_new 4))))"

theorem video_through_server_witness:
  "fst (receive_all (map snd (filter (\<lambda>c. fst c = 1)
       (route_stream (map vp_bytes (projr (fst (packetizeEncodedFrame demo_frame 30 3 demo_sender)))) demo_server)))
     H264AccessUnitAssembler_new) =
    replicate 3 (None, False, []) @
    [(Some \<lparr> au_payload = [0, 0, 0, 1, 0x65, 1, 2, 3, 4], au_pts = 6000, au_payloadType = 96 \<rparr>, False, [])]"
proof -
  let ?r = "packetizeEncodedFrame demo_frame 30 3 demo_sender"
  have "isl (fst ?r) = False" by code_simp
  then have r: "?r = (Inr (projr (fst ?r)), snd ?r)" by (cases ?r) (auto simp: isl_def split: sum.splits)
  have reach: "router_step\<^sup>*\<^sup>* (RtpRouter_new 4) demo_server"
    unfolding demo_server_def
    by (rule rtranclp.rtrancl_into_rtrancl [OF rtranclp.rtrancl_into_rtrancl [OF rtranclp.rtrancl_refl]])
      (rule router_step.register router_step.add)+
  have split: "splitAnnexBNalus (ef_payload demo_frame) = [[0x65, 1, 2, 3, 4]]" by code_simp
  have len: "length (projr (fst ?r)) = 4" and ts: "frame_timestamp demo_frame 30 = 6000" by code_simp+
  obtain r where route: "map_of (rt_publishers demo_server) (snd_ssrc demo_sender) = Some r"
    "filter (\<lambda>sub. sub_forward sub = Some 1) (route_subscribers r) = [\<lparr> sub_rewrittenSsrc = 5, sub_forward = Some 1 \<rparr>]"
    by (simp add: demo_server_def demo_sender_def AddSubscriber_def RegisterPublisher_def RtpRouter_new_def
        PublisherRoute_new_def)
  have "awaits H264AccessUnitAssembler_new (snd_sequence demo_sender) (frame_timestamp demo_frame 30)"
    by (simp add: awaits_def H264AccessUnitAssembler_new_def)
  from video_through_server [OF r _ _ reach route refl this] show ?thesis
    by (simp add: split len ts start_code_def) (simp add: demo_frame_def)
qed

section \<open>Repairing loss\<close>

text \<open>
  C13. Lost packets are repaired. When a receiver reports any of the packets of a frame as lost, in
  whatever order and however often, the sender reads from the report exactly these packets as the
  ones to send again, and as long as the frame fits its cache it sends for each the very bytes it
  sent first.
\<close>

theorem lost_packets_repaired:
  assumes "packetizeEncodedFrame encoded frameRate maxBytes s = (Inr packets, s')" "length packets \<le> limit" "limit \<le> 65536"
    and "lost \<noteq> []" "set lost \<subseteq> set (map vp_sequenceNumber packets)" "snd_ssrc s \<noteq> 0"
    and "ps_isOpen socket" "ps_hasPeer socket" "\<And>b. ps_sendToPeer socket b = int (length b)"
  shows "\<exists>plan. parseDispatchPlan (buildNackFeedback receiverSsrc (snd_ssrc s) lost) (snd_ssrc s) = Some (True, plan) \<and>
    set (pl_retransmitSequenceNumbers plan) = set lost \<and>
    (\<forall>p \<in> set packets. vp_sequenceNumber p \<in> set lost \<longrightarrow>
       retransmitPacket (vp_sequenceNumber p) socket
         (fold (\<lambda>p. cacheSentPacket (vp_sequenceNumber p) (vp_bytes p)) packets (VideoRtcpActionPipeline_new limit)) =
       (True, '''', [vp_bytes p]))"
proof -
  note packets = packetize_bytes [OF assms(1)]
  let ?ps = "map (\<lambda>p. (vp_sequenceNumber p, vp_bytes p)) packets"
  have "inj_on (\<lambda>i. snd_sequence s + of_nat i) {..<length packets}"
    using assms(2,3) by (auto simp: inj_on_def intro: of_nat_u16_inj)
  then have "distinct (map fst ?ps)" by (simp add: comp_def packets(2,4) distinct_map lessThan_atLeast0)
  moreover have "\<forall>p \<in> set ?ps. snd p \<noteq> []"
  proof -
    have "\<forall>b \<in> set (sent_bytes pt t pls x). b \<noteq> []" for pt t pls x by (induction pls arbitrary: x) auto
    then show ?thesis using packets(3) by (metis (no_types, lifting) image_iff list.set_map snd_conv)
  qed
  ultimately have "\<forall>p \<in> set packets. retransmitPacket (vp_sequenceNumber p) socket
      (fold (\<lambda>(s, b). cacheSentPacket s b) ?ps (VideoRtcpActionPipeline_new limit)) = (True, '''', [vp_bytes p])"
    using assms(2,7-9) by (intro ballI [of "set packets"] retransmit_cached) auto
  moreover have "set (sorted_list_of_set (set lost)) = set lost" by simp
  ultimately show ?thesis using nack_plan [OF assms(6,4), of receiverSsrc] by (auto simp: fold_map comp_def)
qed

theorem lost_packets_repaired_witness:
  "\<exists>plan. parseDispatchPlan (buildNackFeedback 9 7 [0, 0xFFFF, 0]) 7 = Some (True, plan) \<and>
    set (pl_retransmitSequenceNumbers plan) = {0, 0xFFFF}"
proof -
  let ?r = "packetizeEncodedFrame demo_frame 30 3 demo_sender"
  let ?socket = "\<lparr> ps_isOpen = True, ps_hasPeer = True, ps_sendToPeer = \<lambda>b. int (length b) \<rparr>"
  have "isl (fst ?r) = False" by code_simp
  then have r: "?r = (Inr (projr (fst ?r)), snd ?r)" by (cases ?r) (auto simp: isl_def split: sum.splits)
  have seqs: "map vp_sequenceNumber (projr (fst ?r)) = [0xFFFE, 0xFFFF, 0, 1]" by code_simp
  have len: "length (projr (fst ?r)) = 4" by code_simp
  have ssrc: "snd_ssrc demo_sender = 7" by (simp add: demo_sender_def)
  have "\<exists>plan. parseDispatchPlan (buildNackFeedback 9 (snd_ssrc demo_sender) [0, 0xFFFF, 0]) (snd_ssrc demo_sender) =
      Some (True, plan) \<and> set (pl_retransmitSequenceNumbers plan) = set [0, 0xFFFF, 0]"
    using lost_packets_repaired [OF r, of 500 "[0, 0xFFFF, 0]" ?socket 9] by (simp add: seqs len ssrc) blast
  moreover have "set [0, 0xFFFF, 0] = {0, 0xFFFF :: u16}" by auto
  ultimately show ?thesis unfolding ssrc by metis
qed

end
